(* ===== verification/Prelude.thy ===== *)
theory Prelude
  imports Main "HOL-Library.Word" "HOL-Library.Monad_Syntax"
begin

text \<open>
  Shared vocabulary of the development: the C integer types as words, checked access to C
  arrays, word-to-natural lemmas, and the interfaces (locales) that several components
  implement. Nothing here models a particular source function.

  A C array is a list. Reading or writing it at a computed index goes through \<open>peek\<close>,
  \<open>poke\<close>, \<open>poke_list\<close> and \<open>copy_loop\<close>, whose result is \<open>None\<close> when an index is outside
  the array: \<open>None\<close> stands for the undefined behaviour of C, so a theorem that an operation
  never returns \<open>None\<close> is a memory-safety theorem.
\<close>

unbundle bit_operations_syntax

section \<open>Types\<close>

type_synonym u8 = "8 word"
type_synonym u16 = "16 word"
type_synonym u32 = "32 word"
type_synonym u64 = "64 word"
type_synonym bytes = "u8 list"

named_theorems mem_simps \<open>closed forms of the checked memory operations\<close>
named_theorems unat_simps \<open>unsigned words read as natural numbers\<close>

section \<open>Checked arrays\<close>

definition peek :: "'a list \<Rightarrow> nat \<Rightarrow> 'a option" where
  "peek xs i = (if i < length xs then Some (xs ! i) else None)"

definition poke :: "'a list \<Rightarrow> nat \<Rightarrow> 'a \<Rightarrow> 'a list option" where
  "poke xs i v = (if i < length xs then Some (xs[i := v]) else None)"

primrec poke_list :: "'a list \<Rightarrow> nat \<Rightarrow> 'a list \<Rightarrow> 'a list option" where
  "poke_list xs i [] = Some xs"
| "poke_list xs i (v # vs) = do { xs' \<leftarrow> poke xs i v; poke_list xs' (Suc i) vs }"

text \<open>The loop \<open>for (k = 0; k < n; ++k) dst[d + k] = src[s + k]\<close>.\<close>

primrec copy_loop :: "'a list \<Rightarrow> nat \<Rightarrow> 'a list \<Rightarrow> nat \<Rightarrow> nat \<Rightarrow> 'a list option" where
  "copy_loop dst d src s 0 = Some dst"
| "copy_loop dst d src s (Suc n) =
     do { v \<leftarrow> peek src s; dst' \<leftarrow> poke dst d v; copy_loop dst' (Suc d) src (Suc s) n }"

lemma peek_Some [mem_simps]: "i < length xs \<Longrightarrow> peek xs i = Some (xs ! i)"
  by (simp add: peek_def)

lemma peek_eq_Some_iff: "peek xs i = Some v \<longleftrightarrow> i < length xs \<and> v = xs ! i"
  by (auto simp: peek_def)

lemma poke_Some [mem_simps]: "i < length xs \<Longrightarrow> poke xs i v = Some (xs[i := v])"
  by (simp add: poke_def)

lemma poke_eq_Some_iff: "poke xs i v = Some ys \<longleftrightarrow> i < length xs \<and> ys = xs[i := v]"
  by (auto simp: poke_def)

lemma poke_list_closed:
  "i + length vs \<le> length xs \<Longrightarrow>
     poke_list xs i vs = Some (take i xs @ vs @ drop (i + length vs) xs)"
proof (induction vs arbitrary: xs i)
  case Nil
  then show ?case by simp
next
  case (Cons v vs)
  have "poke_list xs i (v # vs) = poke_list (xs[i := v]) (Suc i) vs"
    using Cons.prems by (simp add: poke_def)
  also have "\<dots> = Some (take (Suc i) (xs[i := v]) @ vs @ drop (Suc i + length vs) (xs[i := v]))"
    using Cons.prems by (intro Cons.IH) simp
  also have "take (Suc i) (xs[i := v]) = take i xs @ [v]"
    using Cons.prems by (simp add: take_Suc_conv_app_nth)
  finally show ?case by simp
qed

lemma poke_list_None: "\<not> i + length vs \<le> length xs \<Longrightarrow> vs \<noteq> [] \<Longrightarrow> poke_list xs i vs = None"
proof (induction vs arbitrary: xs i)
  case Nil
  then show ?case by simp
next
  case (Cons v vs)
  show ?case
  proof (cases "i < length xs")
    case True
    with Cons.prems have "vs \<noteq> []" by (cases vs) auto
    with True Cons.prems Cons.IH[of "Suc i" "xs[i := v]"] show ?thesis by (simp add: poke_def)
  next
    case False
    then show ?thesis by (simp add: poke_def)
  qed
qed

lemma poke_list_eq:
  "poke_list xs i vs =
     (if vs = [] \<or> i + length vs \<le> length xs then Some (take i xs @ vs @ drop (i + length vs) xs)
      else None)"
  using poke_list_closed[of i vs xs] poke_list_None[of i vs xs] by (cases "vs = []") auto

lemma poke_list_Some_iff:
  "poke_list xs i vs = Some ys \<longleftrightarrow>
     (vs = [] \<or> i + length vs \<le> length xs) \<and> ys = take i xs @ vs @ drop (i + length vs) xs"
  by (auto simp: poke_list_eq)

lemma poke_list_length: "poke_list xs i vs = Some ys \<Longrightarrow> length ys = length xs"
  by (auto simp: poke_list_Some_iff)

lemma copy_loop_closed:
  "d + n \<le> length dst \<Longrightarrow> s + n \<le> length src \<Longrightarrow>
     copy_loop dst d src s n = Some (take d dst @ take n (drop s src) @ drop (d + n) dst)"
proof (induction n arbitrary: dst d s)
  case 0
  then show ?case by simp
next
  case (Suc n)
  have "copy_loop dst d src s (Suc n) = copy_loop (dst[d := src ! s]) (Suc d) src (Suc s) n"
    using Suc.prems by (simp add: peek_def poke_def)
  also have "\<dots> = Some (take (Suc d) (dst[d := src ! s]) @ take n (drop (Suc s) src) @
      drop (Suc d + n) (dst[d := src ! s]))"
    using Suc.prems by (intro Suc.IH) auto
  also have "take (Suc d) (dst[d := src ! s]) = take d dst @ [src ! s]"
    using Suc.prems by (simp add: take_Suc_conv_app_nth)
  finally have "copy_loop dst d src s (Suc n) =
      Some (take d dst @ (src ! s # take n (drop (Suc s) src)) @ drop (Suc d + n) dst)"
    by simp
  moreover have "src ! s # take n (drop (Suc s) src) = take (Suc n) (drop s src)"
    using Suc.prems by (simp add: Cons_nth_drop_Suc[symmetric])
  ultimately show ?case by simp
qed

lemma copy_loop_None:
  "\<not> (d + n \<le> length dst \<and> s + n \<le> length src) \<Longrightarrow> 0 < n \<Longrightarrow> copy_loop dst d src s n = None"
proof (induction n arbitrary: dst d s)
  case 0
  then show ?case by simp
next
  case (Suc n)
  then show ?case
    by (cases "n = 0") (auto simp: peek_def poke_def)
qed

lemma copy_loop_eq:
  "copy_loop dst d src s n =
     (if n = 0 \<or> (d + n \<le> length dst \<and> s + n \<le> length src)
      then Some (take d dst @ take n (drop s src) @ drop (d + n) dst) else None)"
  using copy_loop_closed[of d n dst s src] copy_loop_None[of d n dst s src]
  by (cases "n = 0") auto

lemma copy_loop_Some_iff:
  "copy_loop dst d src s n = Some r \<longleftrightarrow>
     (n = 0 \<or> (d + n \<le> length dst \<and> s + n \<le> length src)) \<and>
     r = take d dst @ take n (drop s src) @ drop (d + n) dst"
  by (auto simp: copy_loop_eq)

lemma copy_loop_length: "copy_loop dst d src s n = Some r \<Longrightarrow> length r = length dst"
  by (auto simp: copy_loop_eq split: if_splits)

declare copy_loop.simps [simp del]

section \<open>Weakest preconditions\<close>

text \<open>
  \<open>wp m Q\<close>: the computation \<open>m\<close> runs into no undefined behaviour and its result satisfies \<open>Q\<close>.
  The rules in \<open>wp_simps\<close> push it through the code.
\<close>

definition wp :: "'a option \<Rightarrow> ('a \<Rightarrow> bool) \<Rightarrow> bool" where
  "wp m Q = (case m of None \<Rightarrow> False | Some x \<Rightarrow> Q x)"

named_theorems wp_simps \<open>weakest preconditions of the checked operations\<close>

lemma wp_Some [wp_simps]: "wp (Some x) Q = Q x"
  by (simp add: wp_def)

lemma wp_None [wp_simps]: "wp None Q = False"
  by (simp add: wp_def)

lemma wp_bind [wp_simps]: "wp (Option.bind m f) Q = wp m (\<lambda>x. wp (f x) Q)"
  by (cases m) (simp_all add: wp_def)

lemma wp_if [wp_simps]: "wp (if b then m else n) Q = (if b then wp m Q else wp n Q)"
  by simp

lemma wp_peek [wp_simps]: "wp (peek xs i) Q \<longleftrightarrow> i < length xs \<and> Q (xs ! i)"
  by (simp add: wp_def peek_def)

lemma wp_poke [wp_simps]: "wp (poke xs i v) Q \<longleftrightarrow> i < length xs \<and> Q (xs[i := v])"
  by (simp add: wp_def poke_def)

lemma wp_poke_list [wp_simps]:
  "wp (poke_list xs i vs) Q \<longleftrightarrow>
     (vs = [] \<or> i + length vs \<le> length xs) \<and> Q (take i xs @ vs @ drop (i + length vs) xs)"
  by (auto simp: wp_def poke_list_eq)

lemma wp_mono: "wp m Q \<Longrightarrow> (\<And>x. Q x \<Longrightarrow> R x) \<Longrightarrow> wp m R"
  by (cases m) (simp_all add: wp_def)

lemma wp_conj: "wp m Q \<Longrightarrow> wp m R \<Longrightarrow> wp m (\<lambda>x. Q x \<and> R x)"
  by (cases m) (simp_all add: wp_def)

lemma wpD: "wp m Q \<Longrightarrow> \<exists>x. m = Some x \<and> Q x"
  by (cases m) (simp_all add: wp_def)

lemma wp_SomeD: "wp m Q \<Longrightarrow> m = Some x \<Longrightarrow> Q x"
  by (simp add: wp_def)

section \<open>Word facts\<close>

lemma unat_u8_lt [simp]: "unat (x :: u8) < 256"
  using unsigned_less[of x, where ?'a = nat] by simp

lemma unat_u16_lt [simp]: "unat (x :: u16) < 65536"
  using unsigned_less[of x, where ?'a = nat] by simp

lemma unat_u32_lt [simp]: "unat (x :: u32) < 4294967296"
  using unsigned_less[of x, where ?'a = nat] by simp

lemma unat_ucast_8_32 [simp, unat_simps]: "unat (ucast (x :: u8) :: u32) = unat x"
  by (simp add: unsigned_ucast_eq take_bit_nat_eq_self_iff order.strict_trans[OF unat_u8_lt])

lemma unat_ucast_8_16 [simp, unat_simps]: "unat (ucast (x :: u8) :: u16) = unat x"
  by (simp add: unsigned_ucast_eq take_bit_nat_eq_self_iff order.strict_trans[OF unat_u8_lt])

lemma unat_ucast_16_32 [simp, unat_simps]: "unat (ucast (x :: u16) :: u32) = unat x"
  by (simp add: unsigned_ucast_eq take_bit_nat_eq_self_iff order.strict_trans[OF unat_u16_lt])

lemma unat_add_32: "unat x + unat y < 4294967296 \<Longrightarrow> unat (x + y :: u32) = unat x + unat y"
  by (simp add: unat_word_ariths)

lemma unat_sub_32: "y \<le> x \<Longrightarrow> unat (x - y :: u32) = unat x - unat y"
  by (simp add: unat_sub word_le_nat_alt)

lemma unat_add_16: "unat x + unat y < 65536 \<Longrightarrow> unat (x + y :: u16) = unat x + unat y"
  by (simp add: unat_word_ariths)

lemma unat_sub_16: "y \<le> x \<Longrightarrow> unat (x - y :: u16) = unat x - unat y"
  by (simp add: unat_sub word_le_nat_alt)

lemma unat_of_nat_16: "n < 65536 \<Longrightarrow> unat (of_nat n :: u16) = n"
  by (simp add: unat_of_nat)

lemma unat_of_nat_32: "n < 4294967296 \<Longrightarrow> unat (of_nat n :: u32) = n"
  by (simp add: unat_of_nat)

lemma unat_and_15: "unat (x AND 15 :: u8) = unat x mod 16"
proof -
  have "x AND 15 = take_bit 4 x" by (simp add: take_bit_eq_mask mask_eq_exp_minus_1)
  then have "x AND 15 = x mod 16" by (simp add: take_bit_eq_mod)
  then show ?thesis by (simp add: unat_mod_distrib)
qed
lemma unat_drop_4: "unat (drop_bit 4 x :: u8) = unat x div 16"
  by (simp add: drop_bit_eq_div unat_div_distrib)

lemma unat_push_or:
  fixes a b :: u32
  assumes "unat b < 2 ^ n" "unat a < 2 ^ (32 - n)" "n < 32"
  shows "unat (push_bit n a OR b) = unat a * 2 ^ n + unat b"
proof -
  have bit_b: "\<not> bit b k" if "n \<le> k" for k
  proof
    assume "bit b k"
    then have "bit (unat b) k" by (simp add: bit_unsigned_iff)
    then have "2 ^ k \<le> unat b" by (metis bit_iff_odd even_zero div_less not_le)
    with assms(1) that show False by (meson le_trans not_le power_increasing one_le_numeral)
  qed
  have or: "push_bit n a OR b = push_bit n a + b"
    by (rule disjunctive_add[symmetric]) (use bit_b in \<open>auto simp: bit_push_bit_iff\<close>)
  have "(unat a + 1) * 2 ^ n \<le> 2 ^ (32 - n) * 2 ^ n"
    using assms(2) by (intro mult_le_mono1) simp
  also have "\<dots> = (4294967296 :: nat)"
    using assms(3) by (simp flip: power_add)
  finally have le: "unat a * 2 ^ n + 2 ^ n \<le> 4294967296" by simp
  then have "unat a * 2 ^ n < 4294967296"
    using zero_less_power[of "2 :: nat" n] by linarith
  then have "take_bit 32 (unat a * 2 ^ n) = unat a * 2 ^ n"
    by (simp add: take_bit_nat_eq_self)
  then have "unat (push_bit n a) = unat a * 2 ^ n"
    by (subst unsigned_push_bit_eq) (simp add: push_bit_eq_mult)
  with or le assms(1) show ?thesis by (simp add: unat_add_32)
qed

text \<open>
  \<open>(int32_t)(now - deadline) >= 0\<close>: the deadline is at most half the range of the counter in
  the past.
\<close>

lemma sint_32_nonneg_iff: "0 \<le> sint (w :: u32) \<longleftrightarrow> unat w < 2147483648"
proof -
  have "0 \<le> sint w \<longleftrightarrow> \<not> bit w 31"
    by (simp add: sint_uint signed_take_bit_nonnegative_iff bit_simps)
  also have "\<dots> \<longleftrightarrow> unat w < 2 ^ 31"
  proof -
    have "bit w 31 \<longleftrightarrow> bit (unat w) 31"
      by (simp add: bit_unsigned_iff)
    also have "\<dots> \<longleftrightarrow> odd (unat w div 2 ^ 31)"
      by (simp add: bit_iff_odd)
    also have "\<dots> \<longleftrightarrow> 2 ^ 31 \<le> unat w"
    proof
      assume "odd (unat w div 2 ^ 31)"
      then have "unat w div 2 ^ 31 \<noteq> 0" by (metis even_zero)
      then show "2 ^ 31 \<le> unat w" by (meson div_less not_le)
    next
      assume "2 ^ 31 \<le> unat w"
      moreover have "unat w < 2 * 2 ^ 31" using unat_u32_lt[of w] by simp
      ultimately have "unat w div 2 ^ 31 = 1" by (intro div_nat_eqI) simp_all
      then show "odd (unat w div 2 ^ 31)" by simp
    qed
    finally show ?thesis by auto
  qed
  finally show ?thesis by simp
qed

text \<open>A fresh deadline of \<open>t\<close> ms is expired exactly when at least \<open>t\<close> ms have passed.\<close>

lemma sint_deadline:
  fixes now e t :: u32
  assumes "unat t \<le> 2147483648" "unat e < 2147483648"
  shows "0 \<le> sint ((now + e) - (now + t)) \<longleftrightarrow> unat t \<le> unat e"
proof -
  have eq: "(now + e) - (now + t) = e - t" by simp
  show ?thesis
  proof (cases "t \<le> e")
    case True
    then have "unat (e - t) = unat e - unat t" by (rule unat_sub_32)
    with True assms show ?thesis by (simp add: sint_32_nonneg_iff word_le_nat_alt)
  next
    case False
    then have lt: "unat e < unat t" by (simp add: word_le_nat_alt)
    have "(unat (e - t) + unat t) mod 4294967296 = unat e"
      using unat_word_ariths(1)[of "e - t" t] by simp
    moreover have "unat (e - t) + unat t < 2 * 4294967296"
      using unat_u32_lt[of "e - t"] unat_u32_lt[of t] by linarith
    ultimately have "2147483648 \<le> unat (e - t)"
      using lt assms by (cases "unat (e - t) + unat t < 4294967296") (auto simp: mod_if)
    with lt show ?thesis by (simp add: sint_32_nonneg_iff)
  qed
qed

section \<open>Address spaces\<close>

text \<open>A 32-bit address space, and copies between it and a buffer.\<close>

definition memory_at :: "(u32 \<Rightarrow> u8) \<Rightarrow> u32 \<Rightarrow> nat \<Rightarrow> bytes" where
  "memory_at mem address n = map (\<lambda>i. mem (address + of_nat i)) [0..<n]"

primrec memory_put :: "(u32 \<Rightarrow> u8) \<Rightarrow> u32 \<Rightarrow> bytes \<Rightarrow> u32 \<Rightarrow> u8" where
  "memory_put mem address [] = mem"
| "memory_put mem address (b # bs) = memory_put (mem(address := b)) (address + 1) bs"

lemma memory_put_apply:
  "length bs \<le> 4294967296 \<Longrightarrow>
     memory_put mem a bs x = (if unat (x - a) < length bs then bs ! unat (x - a) else mem x)"
proof (induction bs arbitrary: mem a)
  case (Cons b bs)
  have IH: "memory_put mem a (b # bs) x =
      (if unat (x - (a + 1)) < length bs then bs ! unat (x - (a + 1)) else (mem(a := b)) x)"
    using Cons by simp
  show ?case
  proof (cases "x = a")
    case True
    moreover have "unat (- 1 :: u32) = 4294967295"
      by (simp add: unsigned_minus_1_eq_mask mask_eq_exp_minus_1)
    ultimately show ?thesis using IH Cons.prems by simp
  next
    case False
    then have "x - a \<noteq> 0" by simp
    then have "unat (x - a) = Suc (unat (x - a - 1))"
      by (metis Suc_pred' diff_Suc_1 unat_gt_0 unat_minus_one)
    then show ?thesis using IH False by (simp add: algebra_simps)
  qed
qed simp

lemma memory_put_at:
  assumes "length bs \<le> 4294967296"
  shows "memory_at (memory_put mem a bs) a (length bs) = bs"
proof (intro nth_equalityI)
  fix i assume "i < length (memory_at (memory_put mem a bs) a (length bs))"
  then have "i < length bs" by (simp add: memory_at_def)
  moreover have "unat (of_nat i :: u32) = i"
    using calculation assms by (intro unat_of_nat_32) simp
  ultimately show "memory_at (memory_put mem a bs) a (length bs) ! i = bs ! i"
    using assms by (simp add: memory_at_def memory_put_apply)
qed (simp add: memory_at_def)

lemma length_memory_at [simp]: "length (memory_at mem a n) = n"
  by (simp add: memory_at_def)

section \<open>Interfaces shared by several components\<close>

text \<open>
  A component that reacts to events: \<open>step\<close> is one call of one of its operations, \<open>None\<close> when
  the call runs into undefined behaviour; \<open>ok\<close> is what the caller owes. The provider promises
  that a call from a well-formed state returns, in a well-formed state.
\<close>

primrec run :: "('s \<Rightarrow> 'e \<Rightarrow> 's option) \<Rightarrow> 's \<Rightarrow> 'e list \<Rightarrow> 's option" where
  "run step s [] = Some s"
| "run step s (e # es) = do { s' \<leftarrow> step s e; run step s' es }"

lemma run_append: "run step s (es @ fs) = do { s' \<leftarrow> run step s es; run step s' fs }"
  by (induction es arbitrary: s) (auto split: Option.bind_splits)

locale machine =
  fixes step :: "'s \<Rightarrow> 'e \<Rightarrow> 's option"
    and ok :: "'e \<Rightarrow> bool"
    and inv :: "'s \<Rightarrow> bool"
  assumes step_safe: "inv s \<Longrightarrow> ok e \<Longrightarrow> \<exists>s'. step s e = Some s' \<and> inv s'"
begin

lemma step_inv: "inv s \<Longrightarrow> ok e \<Longrightarrow> step s e = Some s' \<Longrightarrow> inv s'"
  using step_safe by fastforce

lemma run_safe: "inv s \<Longrightarrow> list_all ok es \<Longrightarrow> \<exists>s'. run step s es = Some s' \<and> inv s'"
proof (induction es arbitrary: s)
  case Nil
  then show ?case by simp
next
  case (Cons e es)
  then obtain s' where s': "step s e = Some s'" "inv s'"
    using step_safe by fastforce
  with Cons show ?case by simp
qed

lemma run_inv: "inv s \<Longrightarrow> list_all ok es \<Longrightarrow> run step s es = Some s' \<Longrightarrow> inv s'"
  using run_safe by fastforce

end

text \<open>
  A component that implements an abstract machine: every call commutes with the abstraction
  function.
\<close>

locale refined_machine = machine step ok inv
  for step :: "'s \<Rightarrow> 'e \<Rightarrow> 's option" and ok :: "'e \<Rightarrow> bool" and inv :: "'s \<Rightarrow> bool" +
  fixes abs_of :: "'s \<Rightarrow> 'a"
    and astep :: "'a \<Rightarrow> 'e \<Rightarrow> 'a"
  assumes step_sim: "inv s \<Longrightarrow> ok e \<Longrightarrow> step s e = Some s' \<Longrightarrow> abs_of s' = astep (abs_of s) e"
begin

lemma run_sim:
  "inv s \<Longrightarrow> list_all ok es \<Longrightarrow> run step s es = Some s' \<Longrightarrow> abs_of s' = foldl astep (abs_of s) es"
proof (induction es arbitrary: s)
  case Nil
  then show ?case by simp
next
  case (Cons e es)
  then obtain t where t: "step s e = Some t" "run step t es = Some s'"
    by (auto split: Option.bind_splits)
  with Cons step_inv[of s e t] have "abs_of s' = foldl astep (abs_of t) es" by simp
  with Cons t step_sim[of s e t] show ?case by simp
qed

end

end
