(* ===== verification/Security_Gate.thy ===== *)
theory Security_Gate
  imports Prelude
begin

text \<open>
  The security access gate (\<open>library/src/uds_security_gate.c\<close>): seeds, failed attempts, lockout
  and its persistence. The lockout state is saved through a function pointer with a context; here
  it is a function of the context that returns whether the write succeeded and the context after
  it. \<open>gate_inv\<close> is the safety invariant: the attempts are below the maximum or the gate is
  locked out.
\<close>

section \<open>State\<close>

datatype UdsSecurityState =
    UDS_SECURITY_STATE_LOCKED_READY
  | UDS_SECURITY_STATE_WAITING_FOR_KEY
  | UDS_SECURITY_STATE_UNLOCKED
  | UDS_SECURITY_STATE_LOCKOUT

type_synonym 'p UdsSecurityStateSaveFn = "'p option \<Rightarrow> u8 \<Rightarrow> u32 \<Rightarrow> bool \<times> 'p option"

record 'p UdsSecurityGate =
  failed_attempts :: u8
  max_attempts :: u8
  active_level :: u8
  seed_level :: u8
  gate_state :: UdsSecurityState
  seed_valid :: bool
  seed_timer_active :: bool
  lockout_active :: bool
  initial_delay_active :: bool
  seed_timeout_ms :: u32
  seed_expiry_ms :: u32
  lockout_ms :: u32
  lockout_until_ms :: u32
  initial_delay_ms :: u32
  initial_delay_until_ms :: u32
  persist_fn :: "'p UdsSecurityStateSaveFn option"
  persist_context :: "'p option"

section \<open>Operations\<close>

definition time_expired :: "u32 \<Rightarrow> u32 \<Rightarrow> bool" where
  "time_expired now deadline_ms = (0 \<le> sint (now - deadline_ms))"

text \<open>Every field is written, so the old gate is no argument.\<close>

definition uds_security_gate_init :: "u32 \<Rightarrow> 'p UdsSecurityGate" where
  "uds_security_gate_init now =
     \<lparr> failed_attempts = 0, max_attempts = 3, active_level = 0, seed_level = 0,
       gate_state = UDS_SECURITY_STATE_LOCKED_READY, seed_valid = False, seed_timer_active = False,
       lockout_active = False, initial_delay_active = False, seed_timeout_ms = 0,
       seed_expiry_ms = 0, lockout_ms = 10000, lockout_until_ms = 0, initial_delay_ms = 0,
       initial_delay_until_ms = now, persist_fn = None, persist_context = None \<rparr>"

definition uds_security_gate_set_timing ::
  "'p UdsSecurityGate \<Rightarrow> u32 \<Rightarrow> u32 \<Rightarrow> u32 \<Rightarrow> u8 \<Rightarrow> u32 \<Rightarrow> 'p UdsSecurityGate" where
  "uds_security_gate_set_timing gate initial lockout seed_timeout attempts now = gate
     \<lparr> initial_delay_ms := initial,
       initial_delay_until_ms := now + initial,
       initial_delay_active := (initial \<noteq> 0),
       lockout_ms := (if lockout = 0 then 10000 else if lockout < 1000 then 1000 else lockout),
       seed_timeout_ms := seed_timeout,
       max_attempts := (if attempts > 0 then attempts else 3) \<rparr>"

definition uds_security_gate_invalidate_seed :: "'p UdsSecurityGate \<Rightarrow> 'p UdsSecurityGate" where
  "uds_security_gate_invalidate_seed gate = gate
     \<lparr> seed_valid := False, seed_timer_active := False, seed_level := 0,
       gate_state := (if gate_state gate = UDS_SECURITY_STATE_WAITING_FOR_KEY
                      then UDS_SECURITY_STATE_LOCKED_READY else gate_state gate) \<rparr>"

text \<open>A call of the persistence function, \<open>True\<close> when there is none.\<close>

definition persist :: "'p UdsSecurityGate \<Rightarrow> u8 \<Rightarrow> u32 \<Rightarrow> bool \<times> 'p UdsSecurityGate" where
  "persist gate attempts remaining =
     (case persist_fn gate of
        None \<Rightarrow> (True, gate)
      | Some save \<Rightarrow> (case save (persist_context gate) attempts remaining of
          (ok, ctx) \<Rightarrow> (ok, gate\<lparr> persist_context := ctx \<rparr>)))"

definition uds_security_gate_tick :: "'p UdsSecurityGate \<Rightarrow> u32 \<Rightarrow> 'p UdsSecurityGate" where
  "uds_security_gate_tick gate now =
     (let gate = (if initial_delay_active gate \<and> time_expired now (initial_delay_until_ms gate)
                  then gate\<lparr> initial_delay_active := False \<rparr> else gate);
          gate = (if lockout_active gate \<and> time_expired now (lockout_until_ms gate)
                  then (case persist gate 0 0 of (ok, gate) \<Rightarrow>
                    if \<not> ok then gate\<lparr> lockout_until_ms := now + lockout_ms gate \<rparr>
                    else gate\<lparr> lockout_active := False, failed_attempts := 0,
                               gate_state := (if gate_state gate = UDS_SECURITY_STATE_LOCKOUT
                                              then UDS_SECURITY_STATE_LOCKED_READY
                                              else gate_state gate) \<rparr>)
                  else gate) in
      if seed_timer_active gate \<and> time_expired now (seed_expiry_ms gate)
      then uds_security_gate_invalidate_seed gate else gate)"

definition uds_security_gate_delay_active :: "'p UdsSecurityGate \<Rightarrow> u32 \<Rightarrow> bool" where
  "uds_security_gate_delay_active gate now =
     (if initial_delay_active gate \<and> \<not> time_expired now (initial_delay_until_ms gate) then True
      else if lockout_active gate \<and> \<not> time_expired now (lockout_until_ms gate) then True
      else False)"

definition uds_security_gate_record_failure :: "'p UdsSecurityGate \<Rightarrow> u32 \<Rightarrow> 'p UdsSecurityGate" where
  "uds_security_gate_record_failure gate now =
     (let gate = uds_security_gate_invalidate_seed gate;
          gate = gate\<lparr> active_level := 0, failed_attempts := failed_attempts gate + 1 \<rparr>;
          gate = (if failed_attempts gate \<ge> max_attempts gate
                  then gate\<lparr> lockout_active := (lockout_ms gate \<noteq> 0),
                             lockout_until_ms := now + lockout_ms gate,
                             gate_state := (if lockout_ms gate \<noteq> 0 then UDS_SECURITY_STATE_LOCKOUT
                                            else UDS_SECURITY_STATE_LOCKED_READY) \<rparr>
                  else gate);
          remaining = (if lockout_active gate \<and> lockout_until_ms gate > now
                       then lockout_until_ms gate - now else 0) in
      case persist gate (failed_attempts gate) remaining of (ok, gate) \<Rightarrow>
        if \<not> ok
        then gate\<lparr> lockout_active := True, lockout_until_ms := now + lockout_ms gate,
                   gate_state := UDS_SECURITY_STATE_LOCKOUT \<rparr>
        else gate)"

definition uds_security_gate_record_success :: "'p UdsSecurityGate \<Rightarrow> u8 \<Rightarrow> 'p UdsSecurityGate" where
  "uds_security_gate_record_success gate level =
     (let gate = gate\<lparr> active_level := level, failed_attempts := 0 \<rparr>;
          gate = uds_security_gate_invalidate_seed gate;
          gate = gate\<lparr> gate_state := UDS_SECURITY_STATE_UNLOCKED \<rparr> in
      snd (persist gate 0 0))"

definition uds_security_gate_grant_seed :: "'p UdsSecurityGate \<Rightarrow> u8 \<Rightarrow> u32 \<Rightarrow> 'p UdsSecurityGate" where
  "uds_security_gate_grant_seed gate level now = gate
     \<lparr> seed_level := level, seed_valid := True, seed_timer_active := (seed_timeout_ms gate \<noteq> 0),
       seed_expiry_ms := now + seed_timeout_ms gate,
       gate_state := UDS_SECURITY_STATE_WAITING_FOR_KEY \<rparr>"

definition uds_security_gate_reset_session :: "'p UdsSecurityGate \<Rightarrow> 'p UdsSecurityGate" where
  "uds_security_gate_reset_session gate =
     (let gate = uds_security_gate_invalidate_seed (gate\<lparr> active_level := 0 \<rparr>) in
      if gate_state gate = UDS_SECURITY_STATE_UNLOCKED
      then gate\<lparr> gate_state := UDS_SECURITY_STATE_LOCKED_READY \<rparr> else gate)"

definition uds_security_gate_reset_ecu :: "'p UdsSecurityGate \<Rightarrow> u32 \<Rightarrow> 'p UdsSecurityGate" where
  "uds_security_gate_reset_ecu gate now =
     (let gate = uds_security_gate_invalidate_seed (gate\<lparr> active_level := 0 \<rparr>) in
      if \<not> lockout_active gate then gate\<lparr> gate_state := UDS_SECURITY_STATE_LOCKED_READY \<rparr> else gate)"

definition uds_security_gate_set_persistence ::
  "'p UdsSecurityGate \<Rightarrow> 'p UdsSecurityStateSaveFn option \<Rightarrow> 'p option \<Rightarrow> 'p UdsSecurityGate" where
  "uds_security_gate_set_persistence gate save context =
     gate\<lparr> persist_fn := save, persist_context := context \<rparr>"

definition uds_security_gate_restore_state ::
  "'p UdsSecurityGate \<Rightarrow> u8 \<Rightarrow> u32 \<Rightarrow> u32 \<Rightarrow> 'p UdsSecurityGate" where
  "uds_security_gate_restore_state gate attempts remaining now =
     (let gate = gate\<lparr> failed_attempts := attempts \<rparr> in
      if remaining > 0
      then gate\<lparr> lockout_active := True, lockout_until_ms := now + remaining,
                 gate_state := UDS_SECURITY_STATE_LOCKOUT \<rparr>
      else if attempts \<ge> max_attempts gate \<and> max_attempts gate > 0
      then gate\<lparr> lockout_active := True, lockout_until_ms := now + lockout_ms gate,
                 gate_state := UDS_SECURITY_STATE_LOCKOUT \<rparr>
      else gate)"

section \<open>The safety invariant\<close>

definition gate_inv :: "'p UdsSecurityGate \<Rightarrow> bool" where
  "gate_inv g \<longleftrightarrow>
     0 < max_attempts g \<and> 0 < lockout_ms g \<and>
     (lockout_active g \<or> failed_attempts g < max_attempts g) \<and>
     (gate_state g = UDS_SECURITY_STATE_LOCKOUT \<longrightarrow> lockout_active g)"

lemma persist_keeps:
  assumes "persist g a r = (ok, g')"
  shows "g' = g\<lparr> persist_context := persist_context g' \<rparr>"
  using assms by (auto simp: persist_def split: option.splits prod.splits)

lemma persist_fields:
  assumes "persist g a r = (ok, g')"
  shows "failed_attempts g' = failed_attempts g" "max_attempts g' = max_attempts g"
    "active_level g' = active_level g" "seed_level g' = seed_level g" "gate_state g' = gate_state g"
    "seed_valid g' = seed_valid g" "lockout_active g' = lockout_active g"
    "lockout_ms g' = lockout_ms g" "lockout_until_ms g' = lockout_until_ms g"
    "initial_delay_active g' = initial_delay_active g" "seed_timer_active g' = seed_timer_active g"
    "persist_fn g' = persist_fn g" "seed_timeout_ms g' = seed_timeout_ms g"
proof -
  obtain c where "g' = g\<lparr> persist_context := c \<rparr>" using persist_keeps[OF assms] ..
  then show "failed_attempts g' = failed_attempts g" "max_attempts g' = max_attempts g"
    "active_level g' = active_level g" "seed_level g' = seed_level g" "gate_state g' = gate_state g"
    "seed_valid g' = seed_valid g" "lockout_active g' = lockout_active g"
    "lockout_ms g' = lockout_ms g" "lockout_until_ms g' = lockout_until_ms g"
    "initial_delay_active g' = initial_delay_active g" "seed_timer_active g' = seed_timer_active g"
    "persist_fn g' = persist_fn g" "seed_timeout_ms g' = seed_timeout_ms g"
    by simp_all
qed

lemma invalidate_seed_fields [simp]:
  "failed_attempts (uds_security_gate_invalidate_seed g) = failed_attempts g"
  "max_attempts (uds_security_gate_invalidate_seed g) = max_attempts g"
  "active_level (uds_security_gate_invalidate_seed g) = active_level g"
  "lockout_active (uds_security_gate_invalidate_seed g) = lockout_active g"
  "lockout_ms (uds_security_gate_invalidate_seed g) = lockout_ms g"
  "lockout_until_ms (uds_security_gate_invalidate_seed g) = lockout_until_ms g"
  "seed_valid (uds_security_gate_invalidate_seed g) = False"
  "initial_delay_active (uds_security_gate_invalidate_seed g) = initial_delay_active g"
  "initial_delay_until_ms (uds_security_gate_invalidate_seed g) = initial_delay_until_ms g"
  "persist_fn (uds_security_gate_invalidate_seed g) = persist_fn g"
  "gate_state (uds_security_gate_invalidate_seed g) =
     (if gate_state g = UDS_SECURITY_STATE_WAITING_FOR_KEY
      then UDS_SECURITY_STATE_LOCKED_READY else gate_state g)"
  by (simp_all add: uds_security_gate_invalidate_seed_def)

lemma gate_init_inv: "gate_inv (uds_security_gate_init now)"
  by (simp add: gate_inv_def uds_security_gate_init_def)

lemma gate_set_timing_inv:
  "gate_inv g \<Longrightarrow> failed_attempts g < (if attempts > 0 then attempts else 3) \<Longrightarrow>
     gate_inv (uds_security_gate_set_timing g i l s attempts now)"
  by (auto simp: gate_inv_def uds_security_gate_set_timing_def word_gt_0)

lemma gate_invalidate_inv: "gate_inv g \<Longrightarrow> gate_inv (uds_security_gate_invalidate_seed g)"
  by (simp add: gate_inv_def)

lemma gate_tick_inv:
  assumes "gate_inv g"
  shows "gate_inv (uds_security_gate_tick g now)"
proof -
  define g1 where "g1 = (if initial_delay_active g \<and> time_expired now (initial_delay_until_ms g)
                  then g\<lparr> initial_delay_active := False \<rparr> else g)"
  obtain ok g2 where p: "persist g1 0 0 = (ok, g2)" by fastforce
  note f = persist_fields[OF p]
  have i1: "gate_inv g1" using assms by (simp add: gate_inv_def g1_def)
  show ?thesis
    using i1 f unfolding uds_security_gate_tick_def Let_def g1_def[symmetric] p
    by (auto simp: gate_inv_def)
qed

lemma gate_failure_inv:
  assumes "gate_inv g"
  shows "gate_inv (uds_security_gate_record_failure g now)"
proof -
  define g0 where "g0 = uds_security_gate_invalidate_seed g"
  define g1 where "g1 = g0\<lparr> active_level := 0, failed_attempts := failed_attempts g0 + 1 \<rparr>"
  define g2 where "g2 = (if failed_attempts g1 \<ge> max_attempts g1
                  then g1\<lparr> lockout_active := (lockout_ms g1 \<noteq> 0),
                             lockout_until_ms := now + lockout_ms g1,
                             gate_state := (if lockout_ms g1 \<noteq> 0 then UDS_SECURITY_STATE_LOCKOUT
                                            else UDS_SECURITY_STATE_LOCKED_READY) \<rparr>
                  else g1)"
  have i2: "gate_inv g2"
    using assms by (auto simp: gate_inv_def g2_def g1_def g0_def not_le word_gt_0)
  obtain ok g3 where p: "persist g2 (failed_attempts g2)
      (if lockout_active g2 \<and> lockout_until_ms g2 > now then lockout_until_ms g2 - now else 0) = (ok, g3)"
    by fastforce
  have "uds_security_gate_record_failure g now =
      (if \<not> ok then g3\<lparr> lockout_active := True, lockout_until_ms := now + lockout_ms g3,
                   gate_state := UDS_SECURITY_STATE_LOCKOUT \<rparr> else g3)"
    unfolding uds_security_gate_record_failure_def Let_def g0_def[symmetric] g1_def[symmetric]
      g2_def[symmetric] p by simp
  with i2 persist_fields[OF p] show ?thesis by (auto simp: gate_inv_def)
qed

lemma gate_success_inv:
  assumes "gate_inv g"
  shows "gate_inv (uds_security_gate_record_success g level)"
proof -
  define g1 where "g1 = (uds_security_gate_invalidate_seed (g\<lparr> active_level := level, failed_attempts := 0 \<rparr>))
    \<lparr> gate_state := UDS_SECURITY_STATE_UNLOCKED \<rparr>"
  obtain ok g2 where p: "persist g1 0 0 = (ok, g2)" by fastforce
  have "gate_inv g1" using assms by (simp add: gate_inv_def g1_def)
  with p persist_fields[OF p] show ?thesis
    by (simp add: uds_security_gate_record_success_def Let_def g1_def gate_inv_def)
qed

lemma gate_seed_inv: "gate_inv g \<Longrightarrow> gate_inv (uds_security_gate_grant_seed g level now)"
  by (simp add: gate_inv_def uds_security_gate_grant_seed_def)

lemma gate_session_inv: "gate_inv g \<Longrightarrow> gate_inv (uds_security_gate_reset_session g)"
  by (auto simp: gate_inv_def uds_security_gate_reset_session_def Let_def split: if_splits)

lemma gate_ecu_inv: "gate_inv g \<Longrightarrow> gate_inv (uds_security_gate_reset_ecu g now)"
  by (auto simp: gate_inv_def uds_security_gate_reset_ecu_def Let_def split: if_splits)

lemma gate_restore_inv: "gate_inv g \<Longrightarrow> gate_inv (uds_security_gate_restore_state g a r now)"
  by (auto simp: gate_inv_def uds_security_gate_restore_state_def Let_def not_le)

section \<open>What a failed attempt does\<close>

lemma gate_failure_fields:
  fixes g :: "'p UdsSecurityGate" and now :: u32
  assumes "0 < lockout_ms g"
  defines "g' \<equiv> uds_security_gate_record_failure g now"
  shows "active_level g' = 0" "\<not> seed_valid g'" "failed_attempts g' = failed_attempts g + 1"
    "max_attempts g' = max_attempts g" "lockout_ms g' = lockout_ms g"
    "initial_delay_active g' = initial_delay_active g"
    "max_attempts g \<le> failed_attempts g + 1 \<Longrightarrow>
       lockout_active g' \<and> lockout_until_ms g' = now + lockout_ms g \<and>
       gate_state g' = UDS_SECURITY_STATE_LOCKOUT"
    "\<not> lockout_active g \<Longrightarrow> lockout_active g' \<Longrightarrow>
       lockout_until_ms g' = now + lockout_ms g \<and> gate_state g' = UDS_SECURITY_STATE_LOCKOUT"
    "lockout_active g \<Longrightarrow> lockout_active g'"
    "gate_state g' \<noteq> UDS_SECURITY_STATE_WAITING_FOR_KEY"
proof -
  define g0 where "g0 = uds_security_gate_invalidate_seed g"
  define g1 where "g1 = g0\<lparr> active_level := 0, failed_attempts := failed_attempts g0 + 1 \<rparr>"
  define g2 where "g2 = (if failed_attempts g1 \<ge> max_attempts g1
                  then g1\<lparr> lockout_active := (lockout_ms g1 \<noteq> 0),
                             lockout_until_ms := now + lockout_ms g1,
                             gate_state := (if lockout_ms g1 \<noteq> 0 then UDS_SECURITY_STATE_LOCKOUT
                                            else UDS_SECURITY_STATE_LOCKED_READY) \<rparr>
                  else g1)"
  obtain ok g3 where p: "persist g2 (failed_attempts g2)
      (if lockout_active g2 \<and> lockout_until_ms g2 > now then lockout_until_ms g2 - now else 0) = (ok, g3)"
    by fastforce
  have eq: "g' = (if \<not> ok then g3\<lparr> lockout_active := True, lockout_until_ms := now + lockout_ms g3,
                   gate_state := UDS_SECURITY_STATE_LOCKOUT \<rparr> else g3)"
    unfolding g'_def uds_security_gate_record_failure_def Let_def g0_def[symmetric] g1_def[symmetric]
      g2_def[symmetric] p by simp
  have nz: "lockout_ms g \<noteq> 0" using assms by auto
  show "active_level g' = 0" "\<not> seed_valid g'" "failed_attempts g' = failed_attempts g + 1"
    "max_attempts g' = max_attempts g" "lockout_ms g' = lockout_ms g"
    "initial_delay_active g' = initial_delay_active g"
    "max_attempts g \<le> failed_attempts g + 1 \<Longrightarrow>
       lockout_active g' \<and> lockout_until_ms g' = now + lockout_ms g \<and>
       gate_state g' = UDS_SECURITY_STATE_LOCKOUT"
    "\<not> lockout_active g \<Longrightarrow> lockout_active g' \<Longrightarrow>
       lockout_until_ms g' = now + lockout_ms g \<and> gate_state g' = UDS_SECURITY_STATE_LOCKOUT"
    "lockout_active g \<Longrightarrow> lockout_active g'"
    "gate_state g' \<noteq> UDS_SECURITY_STATE_WAITING_FOR_KEY"
    using persist_fields[OF p] nz
    by (auto simp: eq g2_def g1_def g0_def split: if_splits)
qed

lemma gate_locked_tick:
  fixes g :: "'p UdsSecurityGate" and now :: u32
  assumes "lockout_active g" "\<not> time_expired now (lockout_until_ms g)"
  defines "g' \<equiv> uds_security_gate_tick g now"
  shows "lockout_active g'" "lockout_until_ms g' = lockout_until_ms g" "failed_attempts g' = failed_attempts g"
    "max_attempts g' = max_attempts g" "lockout_ms g' = lockout_ms g" "active_level g' = active_level g"
  using assms by (simp_all add: uds_security_gate_tick_def Let_def)

lemma gate_free_tick:
  fixes g :: "'p UdsSecurityGate" and now :: u32
  assumes "\<not> lockout_active g"
  defines "g' \<equiv> uds_security_gate_tick g now"
  shows "\<not> lockout_active g'" "failed_attempts g' = failed_attempts g"
    "max_attempts g' = max_attempts g" "lockout_ms g' = lockout_ms g" "active_level g' = active_level g"
  using assms by (simp_all add: uds_security_gate_tick_def Let_def)

section \<open>Runs of the gate\<close>

datatype gate_event =
    GateTick u32
  | GateSeed u8 u32
  | GateFailure u32
  | GateSuccess u8
  | GateSession
  | GateEcuReset u32
  | GateRestore u8 u32 u32

fun gate_step :: "'p UdsSecurityGate \<Rightarrow> gate_event \<Rightarrow> 'p UdsSecurityGate option" where
  "gate_step g (GateTick now) = Some (uds_security_gate_tick g now)"
| "gate_step g (GateSeed level now) = Some (uds_security_gate_grant_seed g level now)"
| "gate_step g (GateFailure now) = Some (uds_security_gate_record_failure g now)"
| "gate_step g (GateSuccess level) = Some (uds_security_gate_record_success g level)"
| "gate_step g GateSession = Some (uds_security_gate_reset_session g)"
| "gate_step g (GateEcuReset now) = Some (uds_security_gate_reset_ecu g now)"
| "gate_step g (GateRestore a r now) = Some (uds_security_gate_restore_state g a r now)"

interpretation gatem: machine gate_step "\<lambda>_. True" gate_inv
proof
  fix s :: "'p UdsSecurityGate" and e
  assume "gate_inv s"
  then show "\<exists>s'. gate_step s e = Some s' \<and> gate_inv s'"
    by (cases e)
      (simp_all add: gate_tick_inv gate_seed_inv gate_failure_inv gate_success_inv gate_session_inv
        gate_ecu_inv gate_restore_inv)
qed

section \<open>Properties\<close>


text \<open>A store that refuses every write, for the witness.\<close>

definition broken_store :: "unit UdsSecurityStateSaveFn" where
  "broken_store ctx a r = (False, ctx)"


text \<open>One attempt with a wrong key, as the security access service makes it: was the key evaluated?\<close>

definition wrong_key :: "'p UdsSecurityGate \<Rightarrow> u32 \<Rightarrow> bool \<times> 'p UdsSecurityGate" where
  "wrong_key g now =
     (let g = uds_security_gate_tick g now in
      if uds_security_gate_delay_active g now then (False, g)
      else (True, uds_security_gate_record_failure g now))"

fun evaluated_keys :: "'p UdsSecurityGate \<Rightarrow> u32 list \<Rightarrow> nat" where
  "evaluated_keys g [] = 0"
| "evaluated_keys g (t # ts) =
     (case wrong_key g t of (ev, g') \<Rightarrow> (if ev then 1 else 0) + evaluated_keys g' ts)"

lemma locked_rejects:
  assumes "lockout_active g" "lockout_until_ms g = t0 + of_nat e0 + lockout_ms g"
    and "unat (lockout_ms g) \<le> 2147483648" "e0 \<le> e" "e < unat (lockout_ms g)"
  shows "\<exists>g'. wrong_key g (t0 + of_nat e) = (False, g') \<and> lockout_active g' \<and>
    lockout_until_ms g' = lockout_until_ms g \<and> lockout_ms g' = lockout_ms g"
proof -
  have d: "unat (of_nat (e - e0) :: u32) = e - e0" using assms(3,5) by (simp add: unat_of_nat_32)
  have eq: "t0 + of_nat e = (t0 + of_nat e0) + (of_nat (e - e0) :: u32)" using assms(4) by simp
  have "\<not> time_expired (t0 + of_nat e) (lockout_until_ms g)"
    unfolding time_expired_def assms(2) eq
    using sint_deadline[of "lockout_ms g" "of_nat (e - e0)" "t0 + of_nat e0"] assms(3,5) d by simp
  note f = gate_locked_tick[OF assms(1) this]
  then show ?thesis
    using \<open>\<not> time_expired (t0 + of_nat e) (lockout_until_ms g)\<close>
    by (simp add: wrong_key_def Let_def uds_security_gate_delay_active_def)
qed

lemma locked_evaluates_none:
  "lockout_active g \<Longrightarrow> lockout_until_ms g = t0 + of_nat e0 + lockout_ms g \<Longrightarrow>
     unat (lockout_ms g) \<le> 2147483648 \<Longrightarrow> list_all (\<lambda>e. e0 \<le> e \<and> e < unat (lockout_ms g)) es \<Longrightarrow>
     evaluated_keys g (map (\<lambda>e. t0 + of_nat e) es) = 0"
proof (induction es arbitrary: g)
  case Nil
  then show ?case by simp
next
  case (Cons e es)
  obtain g' where g': "wrong_key g (t0 + of_nat e) = (False, g')" "lockout_active g'"
    "lockout_until_ms g' = lockout_until_ms g" "lockout_ms g' = lockout_ms g"
    using locked_rejects[OF Cons.prems(1,2,3), of e] Cons.prems(4) by auto
  with Cons show ?case by simp
qed

lemma free_evaluates:
  "gate_inv g \<Longrightarrow> \<not> lockout_active g \<Longrightarrow> unat (lockout_ms g) \<le> 2147483648 \<Longrightarrow> sorted es \<Longrightarrow>
     list_all (\<lambda>e. e < unat (lockout_ms g)) es \<Longrightarrow>
     evaluated_keys g (map (\<lambda>e. t0 + of_nat e) es) \<le> unat (max_attempts g) - unat (failed_attempts g)"
proof (induction es arbitrary: g)
  case Nil
  then show ?case by simp
next
  case (Cons e es)
  define t where "t = t0 + of_nat e"
  define g1 where "g1 = uds_security_gate_tick g t"
  note f1 = gate_free_tick[OF Cons.prems(2), of t, folded g1_def]
  have inv1: "gate_inv g1" using gate_tick_inv[OF Cons.prems(1)] by (simp add: g1_def)
  have pos: "0 < lockout_ms g1" and lt: "failed_attempts g < max_attempts g"
    using inv1 f1 Cons.prems(1,2) by (simp_all add: gate_inv_def)
  show ?case
  proof (cases "uds_security_gate_delay_active g1 t")
    case True
    then have "wrong_key g t = (False, g1)" by (simp add: wrong_key_def Let_def g1_def)
    with Cons.IH[OF inv1] f1 Cons.prems show ?thesis by (simp add: t_def)
  next
    case False
    define g2 where "g2 = uds_security_gate_record_failure g1 t"
    have w: "wrong_key g t = (True, g2)" using False by (simp add: wrong_key_def Let_def g1_def g2_def)
    note f2 = gate_failure_fields[OF pos, of t, folded g2_def]
    have inv2: "gate_inv g2" using gate_failure_inv[OF inv1] by (simp add: g2_def)
    have "unat (failed_attempts g) + 1 < 256"
      using lt unat_u8_lt[of "max_attempts g"] unfolding word_less_nat_alt by linarith
    then have inc: "unat (failed_attempts g + 1) = unat (failed_attempts g) + 1" by (simp add: unat_word_ariths)
    show ?thesis
    proof (cases "lockout_active g2")
      case True
      have "lockout_until_ms g2 = t0 + of_nat e + lockout_ms g2"
        using f2(8)[OF f1(1) True] f2(5) by (simp add: t_def)
      moreover have "list_all (\<lambda>e'. e \<le> e' \<and> e' < unat (lockout_ms g2)) es"
        using Cons.prems(4,5) f1 f2(5) by (auto simp: list_all_iff)
      ultimately have "evaluated_keys g2 (map (\<lambda>e. t0 + of_nat e) es) = 0"
        using locked_evaluates_none[OF True] f1 f2(5) Cons.prems(3) by simp
      with w lt show ?thesis by (simp add: t_def word_less_nat_alt)
    next
      case False
      have "evaluated_keys g2 (map (\<lambda>e. t0 + of_nat e) es) \<le> unat (max_attempts g2) - unat (failed_attempts g2)"
        using Cons.prems f1 f2(5) by (intro Cons.IH[OF inv2 False]) simp_all
      then show ?thesis
        using w f1 f2(3,4) inc lt by (simp add: t_def word_less_nat_alt)
    qed
  qed
qed

text \<open>
  C8. Brute force: from an unlocked gate, in any time window shorter than the lockout time, the
  number of wrong keys that are evaluated is at most the number of attempts left, however many
  requests are sent and whether the storage accepts writes or not. (The lockout time may be at
  most half the range of the millisecond counter.)
\<close>

theorem brute_force_bounded:
  assumes "gate_inv g" "\<not> lockout_active g" "unat (lockout_ms g) \<le> 2147483648"
    and "sorted es" "list_all (\<lambda>e. e < unat (lockout_ms g)) es"
  shows "evaluated_keys g (map (\<lambda>e. t0 + of_nat e) es) \<le> unat (max_attempts g) - unat (failed_attempts g)"
  using assms by (rule free_evaluates)

theorem brute_force_bounded_witness:
  "evaluated_keys (uds_security_gate_init 0 :: unit UdsSecurityGate)
     (map (\<lambda>e. 0xFFFFFFFE + of_nat e) [0, 1, 2, 3, 4, 9999]) \<le> 3"
  using brute_force_bounded[of "uds_security_gate_init 0 :: unit UdsSecurityGate" "[0, 1, 2, 3, 4, 9999]" "0xFFFFFFFE"]
    gate_init_inv[of 0, where ?'a = unit]
  by (simp add: uds_security_gate_init_def)

text \<open>
  Resets: a session change and an ECU reset both relock the gate (no level, no seed) and keep
  the failed attempts, the lockout and its deadline. (The counter surviving the ECU reset is what
  the code does; the security access document says the reset clears it.)
\<close>

lemma resets_relock_and_keep_lockout:
  "let s = uds_security_gate_reset_session g; r = uds_security_gate_reset_ecu g now in
     active_level s = 0 \<and> active_level r = 0 \<and> \<not> seed_valid s \<and> \<not> seed_valid r \<and>
     gate_state s \<notin> {UDS_SECURITY_STATE_UNLOCKED, UDS_SECURITY_STATE_WAITING_FOR_KEY} \<and>
     failed_attempts s = failed_attempts g \<and> failed_attempts r = failed_attempts g \<and>
     lockout_active s = lockout_active g \<and> lockout_active r = lockout_active g \<and>
     lockout_until_ms s = lockout_until_ms g \<and> lockout_until_ms r = lockout_until_ms g"
  by (simp add: Let_def uds_security_gate_reset_session_def uds_security_gate_reset_ecu_def)

text \<open>
  The state shown can be wrong: when a gate unlocked at one level hands out a seed of another
  level and that seed expires, the state says LOCKED_READY while the level is still unlocked (and
  still opens the services that ask for it).
\<close>

lemma unlocked_state_lost:
  assumes "active_level g = level" "\<not> lockout_active g" "0 < unat (seed_timeout_ms g)"
    and "unat (seed_timeout_ms g) < 2147483648"
  shows "let g1 = uds_security_gate_grant_seed g other now;
             g2 = uds_security_gate_tick g1 (now + seed_timeout_ms g) in
    active_level g2 = level \<and> gate_state g2 = UDS_SECURITY_STATE_LOCKED_READY"
proof -
  have "seed_timeout_ms g \<noteq> 0" using assms(3) by auto
  moreover have "time_expired (now + seed_timeout_ms g) (now + seed_timeout_ms g)"
    by (simp add: time_expired_def)
  ultimately show ?thesis
    using assms by (simp add: Let_def uds_security_gate_tick_def uds_security_gate_grant_seed_def)
qed

definition gate_unlocked :: "unit UdsSecurityGate" where
  "gate_unlocked = (uds_security_gate_init 0)
     \<lparr> active_level := 1, gate_state := UDS_SECURITY_STATE_UNLOCKED, seed_timeout_ms := 10000 \<rparr>"

lemma unlocked_state_lost_witness:
  "let g1 = uds_security_gate_grant_seed gate_unlocked 2 100;
       g2 = uds_security_gate_tick g1 (100 + seed_timeout_ms gate_unlocked) in
     active_level g2 = 1 \<and> gate_state g2 = UDS_SECURITY_STATE_LOCKED_READY"
  by (rule unlocked_state_lost) (simp_all add: gate_unlocked_def uds_security_gate_init_def)

end
