(* ===== verification/Uds_Types.thy ===== *)
theory Uds_Types
  imports Prelude
begin

text \<open>
  The vocabulary of the UDS server: callback results and the negative response codes they map to,
  diagnostic sessions and their transitions, addressing, the service attribute table, and the
  big-endian readers (\<open>library/include/uds_iso_tp/uds.h\<close> and the first part of
  \<open>library/src/uds.c\<close>).
\<close>

section \<open>Results and negative response codes\<close>

datatype UdsCallbackResult =
    UDS_RESULT_OK | UDS_RESULT_NO_RESPONSE | UDS_RESULT_NOT_SUPPORTED
  | UDS_RESULT_SUBFUNCTION_NOT_SUPPORTED | UDS_RESULT_DENIED | UDS_RESULT_OUT_OF_RANGE
  | UDS_RESULT_BUSY | UDS_RESULT_SEQUENCE_ERROR | UDS_RESULT_INVALID_KEY
  | UDS_RESULT_ATTEMPTS_EXCEEDED | UDS_RESULT_DELAY_ACTIVE | UDS_RESULT_PROGRAMMING_FAILURE
  | UDS_RESULT_RESPONSE_TOO_LONG | UDS_RESULT_RESPONSE_PENDING | UDS_RESULT_INVALID_FORMAT
  | UDS_RESULT_SECURITY_DENIED | UDS_RESULT_ERROR

definition UDS_NRC_SERVICE_NOT_SUPPORTED :: u8 where "UDS_NRC_SERVICE_NOT_SUPPORTED = 0x11"
definition UDS_NRC_SUBFUNCTION_NOT_SUPPORTED :: u8 where "UDS_NRC_SUBFUNCTION_NOT_SUPPORTED = 0x12"
definition UDS_NRC_INCORRECT_MESSAGE_LENGTH_OR_INVALID_FORMAT :: u8 where
  "UDS_NRC_INCORRECT_MESSAGE_LENGTH_OR_INVALID_FORMAT = 0x13"
definition UDS_NRC_RESPONSE_TOO_LONG :: u8 where "UDS_NRC_RESPONSE_TOO_LONG = 0x14"
definition UDS_NRC_BUSY_REPEAT_REQUEST :: u8 where "UDS_NRC_BUSY_REPEAT_REQUEST = 0x21"
definition UDS_NRC_CONDITIONS_NOT_CORRECT :: u8 where "UDS_NRC_CONDITIONS_NOT_CORRECT = 0x22"
definition UDS_NRC_REQUEST_SEQUENCE_ERROR :: u8 where "UDS_NRC_REQUEST_SEQUENCE_ERROR = 0x24"
definition UDS_NRC_REQUEST_OUT_OF_RANGE :: u8 where "UDS_NRC_REQUEST_OUT_OF_RANGE = 0x31"
definition UDS_NRC_SECURITY_ACCESS_DENIED :: u8 where "UDS_NRC_SECURITY_ACCESS_DENIED = 0x33"
definition UDS_NRC_INVALID_KEY :: u8 where "UDS_NRC_INVALID_KEY = 0x35"
definition UDS_NRC_EXCEEDED_NUMBER_OF_ATTEMPTS :: u8 where "UDS_NRC_EXCEEDED_NUMBER_OF_ATTEMPTS = 0x36"
definition UDS_NRC_REQUIRED_TIME_DELAY_NOT_EXPIRED :: u8 where
  "UDS_NRC_REQUIRED_TIME_DELAY_NOT_EXPIRED = 0x37"
definition UDS_NRC_UPLOAD_DOWNLOAD_NOT_ACCEPTED :: u8 where "UDS_NRC_UPLOAD_DOWNLOAD_NOT_ACCEPTED = 0x70"
definition UDS_NRC_GENERAL_PROGRAMMING_FAILURE :: u8 where "UDS_NRC_GENERAL_PROGRAMMING_FAILURE = 0x72"
definition UDS_NRC_WRONG_BLOCK_SEQUENCE_COUNTER :: u8 where "UDS_NRC_WRONG_BLOCK_SEQUENCE_COUNTER = 0x73"
definition UDS_NRC_REQUEST_CORRECTLY_RECEIVED_RESPONSE_PENDING :: u8 where
  "UDS_NRC_REQUEST_CORRECTLY_RECEIVED_RESPONSE_PENDING = 0x78"
definition UDS_NRC_SUBFUNCTION_NOT_SUPPORTED_IN_ACTIVE_SESSION :: u8 where
  "UDS_NRC_SUBFUNCTION_NOT_SUPPORTED_IN_ACTIVE_SESSION = 0x7E"
definition UDS_NRC_SERVICE_NOT_SUPPORTED_IN_ACTIVE_SESSION :: u8 where
  "UDS_NRC_SERVICE_NOT_SUPPORTED_IN_ACTIVE_SESSION = 0x7F"

lemmas nrc_defs =
  UDS_NRC_SERVICE_NOT_SUPPORTED_def UDS_NRC_SUBFUNCTION_NOT_SUPPORTED_def
  UDS_NRC_INCORRECT_MESSAGE_LENGTH_OR_INVALID_FORMAT_def UDS_NRC_RESPONSE_TOO_LONG_def
  UDS_NRC_BUSY_REPEAT_REQUEST_def UDS_NRC_CONDITIONS_NOT_CORRECT_def
  UDS_NRC_REQUEST_SEQUENCE_ERROR_def UDS_NRC_REQUEST_OUT_OF_RANGE_def
  UDS_NRC_SECURITY_ACCESS_DENIED_def UDS_NRC_INVALID_KEY_def
  UDS_NRC_EXCEEDED_NUMBER_OF_ATTEMPTS_def UDS_NRC_REQUIRED_TIME_DELAY_NOT_EXPIRED_def
  UDS_NRC_UPLOAD_DOWNLOAD_NOT_ACCEPTED_def UDS_NRC_GENERAL_PROGRAMMING_FAILURE_def
  UDS_NRC_WRONG_BLOCK_SEQUENCE_COUNTER_def UDS_NRC_REQUEST_CORRECTLY_RECEIVED_RESPONSE_PENDING_def
  UDS_NRC_SUBFUNCTION_NOT_SUPPORTED_IN_ACTIVE_SESSION_def
  UDS_NRC_SERVICE_NOT_SUPPORTED_IN_ACTIVE_SESSION_def

text \<open>The lookup table \<open>k_result_nrc_map\<close>, one entry per result.\<close>

primrec uds_result_to_nrc :: "UdsCallbackResult \<Rightarrow> u8" where
  "uds_result_to_nrc UDS_RESULT_OK = UDS_NRC_CONDITIONS_NOT_CORRECT"
| "uds_result_to_nrc UDS_RESULT_NO_RESPONSE = UDS_NRC_CONDITIONS_NOT_CORRECT"
| "uds_result_to_nrc UDS_RESULT_NOT_SUPPORTED = UDS_NRC_SERVICE_NOT_SUPPORTED"
| "uds_result_to_nrc UDS_RESULT_SUBFUNCTION_NOT_SUPPORTED = UDS_NRC_SUBFUNCTION_NOT_SUPPORTED"
| "uds_result_to_nrc UDS_RESULT_DENIED = UDS_NRC_CONDITIONS_NOT_CORRECT"
| "uds_result_to_nrc UDS_RESULT_OUT_OF_RANGE = UDS_NRC_REQUEST_OUT_OF_RANGE"
| "uds_result_to_nrc UDS_RESULT_BUSY = UDS_NRC_BUSY_REPEAT_REQUEST"
| "uds_result_to_nrc UDS_RESULT_SEQUENCE_ERROR = UDS_NRC_REQUEST_SEQUENCE_ERROR"
| "uds_result_to_nrc UDS_RESULT_INVALID_KEY = UDS_NRC_INVALID_KEY"
| "uds_result_to_nrc UDS_RESULT_ATTEMPTS_EXCEEDED = UDS_NRC_EXCEEDED_NUMBER_OF_ATTEMPTS"
| "uds_result_to_nrc UDS_RESULT_DELAY_ACTIVE = UDS_NRC_REQUIRED_TIME_DELAY_NOT_EXPIRED"
| "uds_result_to_nrc UDS_RESULT_PROGRAMMING_FAILURE = UDS_NRC_GENERAL_PROGRAMMING_FAILURE"
| "uds_result_to_nrc UDS_RESULT_RESPONSE_TOO_LONG = UDS_NRC_RESPONSE_TOO_LONG"
| "uds_result_to_nrc UDS_RESULT_RESPONSE_PENDING = UDS_NRC_REQUEST_CORRECTLY_RECEIVED_RESPONSE_PENDING"
| "uds_result_to_nrc UDS_RESULT_INVALID_FORMAT = UDS_NRC_INCORRECT_MESSAGE_LENGTH_OR_INVALID_FORMAT"
| "uds_result_to_nrc UDS_RESULT_SECURITY_DENIED = UDS_NRC_SECURITY_ACCESS_DENIED"
| "uds_result_to_nrc UDS_RESULT_ERROR = UDS_NRC_CONDITIONS_NOT_CORRECT"

definition nrc_suppressed_on_functional :: "u8 \<Rightarrow> bool" where
  "nrc_suppressed_on_functional nrc =
     (nrc = UDS_NRC_SERVICE_NOT_SUPPORTED \<or> nrc = UDS_NRC_SUBFUNCTION_NOT_SUPPORTED \<or>
      nrc = UDS_NRC_REQUEST_OUT_OF_RANGE \<or>
      nrc = UDS_NRC_SUBFUNCTION_NOT_SUPPORTED_IN_ACTIVE_SESSION \<or>
      nrc = UDS_NRC_SERVICE_NOT_SUPPORTED_IN_ACTIVE_SESSION)"

section \<open>Sessions\<close>

abbreviation UDS_SESSION_DEFAULT :: u8 where "UDS_SESSION_DEFAULT \<equiv> 1"
abbreviation UDS_SESSION_PROGRAMMING :: u8 where "UDS_SESSION_PROGRAMMING \<equiv> 2"
abbreviation UDS_SESSION_EXTENDED :: u8 where "UDS_SESSION_EXTENDED \<equiv> 3"
abbreviation UDS_SESSION_SAFETY :: u8 where "UDS_SESSION_SAFETY \<equiv> 4"

definition session_supported :: "u8 \<Rightarrow> bool" where
  "session_supported session =
     (session = UDS_SESSION_DEFAULT \<or> session = UDS_SESSION_PROGRAMMING \<or>
      session = UDS_SESSION_EXTENDED \<or> session = UDS_SESSION_SAFETY)"

definition security_session_allowed :: "u8 \<Rightarrow> bool" where
  "security_session_allowed session =
     (session = UDS_SESSION_PROGRAMMING \<or> session = UDS_SESSION_EXTENDED)"

definition UDS_SESSION_MASK_DEFAULT :: u8 where "UDS_SESSION_MASK_DEFAULT = 1"
definition UDS_SESSION_MASK_PROGRAMMING :: u8 where "UDS_SESSION_MASK_PROGRAMMING = 2"
definition UDS_SESSION_MASK_EXTENDED :: u8 where "UDS_SESSION_MASK_EXTENDED = 4"
definition UDS_SESSION_MASK_SAFETY :: u8 where "UDS_SESSION_MASK_SAFETY = 8"
definition UDS_SESSION_MASK_ALL :: u8 where "UDS_SESSION_MASK_ALL = 15"

lemmas session_mask_defs =
  UDS_SESSION_MASK_DEFAULT_def UDS_SESSION_MASK_PROGRAMMING_def UDS_SESSION_MASK_EXTENDED_def
  UDS_SESSION_MASK_SAFETY_def UDS_SESSION_MASK_ALL_def

definition session_mask :: "u8 \<Rightarrow> u8" where
  "session_mask session =
     (if session = UDS_SESSION_DEFAULT then UDS_SESSION_MASK_DEFAULT
      else if session = UDS_SESSION_PROGRAMMING then UDS_SESSION_MASK_PROGRAMMING
      else if session = UDS_SESSION_EXTENDED then UDS_SESSION_MASK_EXTENDED
      else if session = UDS_SESSION_SAFETY then UDS_SESSION_MASK_SAFETY
      else 0)"

datatype UdsSessionTransitionResult = UDS_SESSION_TRANSITION_DENIED | UDS_SESSION_TRANSITION_ALLOWED

definition uds_session_transition_allowed :: "u8 \<Rightarrow> u8 \<Rightarrow> UdsSessionTransitionResult" where
  "uds_session_transition_allowed current requested =
     (if \<not> session_supported current \<or> \<not> session_supported requested then UDS_SESSION_TRANSITION_DENIED
      else if current = requested then UDS_SESSION_TRANSITION_ALLOWED
      else if current = UDS_SESSION_DEFAULT then
        (if requested = UDS_SESSION_EXTENDED then UDS_SESSION_TRANSITION_ALLOWED
         else UDS_SESSION_TRANSITION_DENIED)
      else if current = UDS_SESSION_EXTENDED then
        (if requested = UDS_SESSION_DEFAULT \<or> requested = UDS_SESSION_PROGRAMMING
         then UDS_SESSION_TRANSITION_ALLOWED else UDS_SESSION_TRANSITION_DENIED)
      else if current = UDS_SESSION_PROGRAMMING \<or> current = UDS_SESSION_SAFETY then
        (if requested = UDS_SESSION_DEFAULT then UDS_SESSION_TRANSITION_ALLOWED
         else UDS_SESSION_TRANSITION_DENIED)
      else UDS_SESSION_TRANSITION_DENIED)"

section \<open>Addressing and the service attributes\<close>

datatype UdsAddressMode = UDS_ADDRESS_PHYSICAL | UDS_ADDRESS_FUNCTIONAL

primrec address_code :: "UdsAddressMode \<Rightarrow> u8" where
  "address_code UDS_ADDRESS_PHYSICAL = 1"
| "address_code UDS_ADDRESS_FUNCTIONAL = 2"

abbreviation UDS_ADDRESS_MODE_BOTH :: u8 where "UDS_ADDRESS_MODE_BOTH \<equiv> 0"
abbreviation UDS_SERVICE_ANY_SUBFUNCTION :: u8 where "UDS_SERVICE_ANY_SUBFUNCTION \<equiv> 0xFF"
abbreviation UDS_SECURITY_MASK_NONE :: u16 where "UDS_SECURITY_MASK_NONE \<equiv> 0"

record UdsServiceAttribute =
  att_sid :: u8
  att_subservice :: u8
  att_session_mask :: u8
  att_security_mask :: u16
  att_address_mode :: u8

definition service_attr :: "u8 \<Rightarrow> u8 \<Rightarrow> u8 \<Rightarrow> UdsServiceAttribute" where
  "service_attr sid sessions address =
     \<lparr> att_sid = sid, att_subservice = UDS_SERVICE_ANY_SUBFUNCTION, att_session_mask = sessions,
       att_security_mask = UDS_SECURITY_MASK_NONE, att_address_mode = address \<rparr>"

definition default_service_attribute :: UdsServiceAttribute where
  "default_service_attribute = service_attr 0 UDS_SESSION_MASK_ALL UDS_ADDRESS_MODE_BOTH"

definition service_attributes :: "UdsServiceAttribute list" where
  "service_attributes =
     [service_attr 0x10 UDS_SESSION_MASK_ALL UDS_ADDRESS_MODE_BOTH,
      service_attr 0x11 UDS_SESSION_MASK_ALL UDS_ADDRESS_MODE_BOTH,
      service_attr 0x19 UDS_SESSION_MASK_ALL UDS_ADDRESS_MODE_BOTH,
      service_attr 0x22 UDS_SESSION_MASK_ALL UDS_ADDRESS_MODE_BOTH,
      service_attr 0x27 (UDS_SESSION_MASK_PROGRAMMING OR UDS_SESSION_MASK_EXTENDED) (address_code UDS_ADDRESS_PHYSICAL),
      service_attr 0x28 UDS_SESSION_MASK_ALL UDS_ADDRESS_MODE_BOTH,
      service_attr 0x2F UDS_SESSION_MASK_EXTENDED (address_code UDS_ADDRESS_PHYSICAL),
      service_attr 0x31 (UDS_SESSION_MASK_PROGRAMMING OR UDS_SESSION_MASK_EXTENDED) (address_code UDS_ADDRESS_PHYSICAL),
      service_attr 0x34 UDS_SESSION_MASK_PROGRAMMING (address_code UDS_ADDRESS_PHYSICAL),
      service_attr 0x36 UDS_SESSION_MASK_PROGRAMMING (address_code UDS_ADDRESS_PHYSICAL),
      service_attr 0x37 UDS_SESSION_MASK_PROGRAMMING (address_code UDS_ADDRESS_PHYSICAL),
      service_attr 0x3E UDS_SESSION_MASK_ALL UDS_ADDRESS_MODE_BOTH,
      service_attr 0x85 UDS_SESSION_MASK_ALL UDS_ADDRESS_MODE_BOTH,
      service_attr 0x83 UDS_SESSION_MASK_ALL (address_code UDS_ADDRESS_PHYSICAL),
      service_attr 0x84 UDS_SESSION_MASK_ALL (address_code UDS_ADDRESS_PHYSICAL),
      service_attr 0x86 UDS_SESSION_MASK_ALL (address_code UDS_ADDRESS_PHYSICAL),
      service_attr 0x87 UDS_SESSION_MASK_ALL (address_code UDS_ADDRESS_PHYSICAL),
      service_attr 0x23 (UDS_SESSION_MASK_PROGRAMMING OR UDS_SESSION_MASK_EXTENDED) (address_code UDS_ADDRESS_PHYSICAL),
      service_attr 0x24 UDS_SESSION_MASK_ALL (address_code UDS_ADDRESS_PHYSICAL),
      service_attr 0x2A UDS_SESSION_MASK_ALL (address_code UDS_ADDRESS_PHYSICAL),
      service_attr 0x2C UDS_SESSION_MASK_EXTENDED (address_code UDS_ADDRESS_PHYSICAL),
      service_attr 0x2E (UDS_SESSION_MASK_PROGRAMMING OR UDS_SESSION_MASK_EXTENDED) (address_code UDS_ADDRESS_PHYSICAL),
      service_attr 0x3D (UDS_SESSION_MASK_PROGRAMMING OR UDS_SESSION_MASK_EXTENDED) (address_code UDS_ADDRESS_PHYSICAL),
      service_attr 0x14 UDS_SESSION_MASK_ALL UDS_ADDRESS_MODE_BOTH,
      service_attr 0x35 UDS_SESSION_MASK_PROGRAMMING (address_code UDS_ADDRESS_PHYSICAL),
      service_attr 0x29 UDS_SESSION_MASK_ALL (address_code UDS_ADDRESS_PHYSICAL),
      service_attr 0x38 UDS_SESSION_MASK_PROGRAMMING (address_code UDS_ADDRESS_PHYSICAL)]"

text \<open>
  The scan of the table: the entry of the subservice, else the last entry of the service that
  holds for any subservice, else the default attribute.
\<close>

fun attribute_scan ::
  "UdsServiceAttribute list \<Rightarrow> u8 \<Rightarrow> u8 \<Rightarrow> UdsServiceAttribute option \<Rightarrow> UdsServiceAttribute option" where
  "attribute_scan [] sid subservice fallback = fallback"
| "attribute_scan (a # as) sid subservice fallback =
     (if att_sid a \<noteq> sid then attribute_scan as sid subservice fallback
      else if att_subservice a = subservice then Some a
      else attribute_scan as sid subservice
        (if att_subservice a = UDS_SERVICE_ANY_SUBFUNCTION then Some a else fallback))"

definition uds_service_attribute :: "u8 \<Rightarrow> u8 \<Rightarrow> UdsServiceAttribute" where
  "uds_service_attribute sid subservice =
     (case attribute_scan service_attributes sid subservice None of
        Some a \<Rightarrow> a
      | None \<Rightarrow> default_service_attribute)"

definition uds_service_attribute_allows :: "UdsServiceAttribute option \<Rightarrow> u8 \<Rightarrow> u8 \<Rightarrow> UdsAddressMode \<Rightarrow> bool" where
  "uds_service_attribute_allows attribute session level address_mode =
     (case attribute of
        None \<Rightarrow> False
      | Some a \<Rightarrow>
          if att_session_mask a AND session_mask session = 0 then False
          else if att_address_mode a \<noteq> UDS_ADDRESS_MODE_BOTH \<and>
                  att_address_mode a AND address_code address_mode = 0 then False
          else if att_security_mask a \<noteq> UDS_SECURITY_MASK_NONE \<and>
                  att_security_mask a AND ucast (push_bit (unat level) (1 :: u32)) = 0 then False
          else True)"

text \<open>The level of a SecurityAccess subfunction and whether it requests a seed.\<close>

definition uds_security_subfunction_level :: "u8 \<Rightarrow> (u8 \<times> bool) option" where
  "uds_security_subfunction_level subfunction =
     (let raw = subfunction AND 0x7F; sprmib = (subfunction AND 0x80 \<noteq> 0) in
      if raw < 1 \<or> raw > 10 then None
      else let seed = (raw AND 1 \<noteq> 0) in
        if seed \<and> sprmib then None
        else Some (if seed then drop_bit 1 (raw + 1) else drop_bit 1 raw, seed))"

section \<open>Big-endian readers\<close>

definition read_u16 :: "bytes \<Rightarrow> nat \<Rightarrow> u16 option" where
  "read_u16 data i = do { hi \<leftarrow> peek data i; lo \<leftarrow> peek data (Suc i); Some (push_bit 8 (ucast hi) OR ucast lo) }"

primrec read_be_loop :: "bytes \<Rightarrow> nat \<Rightarrow> nat \<Rightarrow> u32 \<Rightarrow> u32 option" where
  "read_be_loop data i 0 acc = Some acc"
| "read_be_loop data i (Suc n) acc =
     do { b \<leftarrow> peek data i; read_be_loop data (Suc i) n (push_bit 8 acc OR ucast b) }"

definition read_be_u32 :: "bytes \<Rightarrow> nat \<Rightarrow> u8 \<Rightarrow> u32 option" where
  "read_be_u32 data i len = read_be_loop data i (unat len) 0"

section \<open>Facts\<close>

lemma read_u16_safe: "i + 2 \<le> length data \<Longrightarrow> \<exists>v. read_u16 data i = Some v"
  by (simp add: read_u16_def mem_simps)

lemma read_be_loop_safe: "i + n \<le> length data \<Longrightarrow> \<exists>v. read_be_loop data i n acc = Some v"
  by (induction n arbitrary: i acc) (auto simp: mem_simps)

lemma read_be_u32_safe: "i + unat len \<le> length data \<Longrightarrow> \<exists>v. read_be_u32 data i len = Some v"
  by (simp add: read_be_u32_def read_be_loop_safe)

lemma session_supported_range: "session_supported s \<longleftrightarrow> s \<in> {1, 2, 3, 4}"
  by (auto simp: session_supported_def)

text \<open>The session graph: from the sessions 1 to 3 only the sessions 1 to 3 are reached.\<close>

lemma transition_closed:
  "uds_session_transition_allowed s r = UDS_SESSION_TRANSITION_ALLOWED \<Longrightarrow> s \<in> {1, 2, 3} \<Longrightarrow> r \<in> {1, 2, 3}"
  by (auto simp: uds_session_transition_allowed_def session_supported_def split: if_splits)

lemma result_nrc_nonzero: "uds_result_to_nrc r \<noteq> 0"
  by (cases r) (simp_all add: nrc_defs)

text \<open>What the attribute of a service in the table demands, by evaluation of the scan.\<close>

lemma attribute_lookup:
  "uds_service_attribute 0x27 sub = service_attr 0x27 6 1"
  "uds_service_attribute 0x2E sub = service_attr 0x2E 6 1"
  "uds_service_attribute 0x31 sub = service_attr 0x31 6 1"
  "uds_service_attribute 0x34 sub = service_attr 0x34 2 1"
  "uds_service_attribute 0x36 sub = service_attr 0x36 2 1"
  "uds_service_attribute 0x37 sub = service_attr 0x37 2 1"
  "uds_service_attribute 0x35 sub = service_attr 0x35 2 1"
  "uds_service_attribute 0x38 sub = service_attr 0x38 2 1"
  "uds_service_attribute 0x23 sub = service_attr 0x23 6 1"
  "uds_service_attribute 0x3D sub = service_attr 0x3D 6 1"
  "uds_service_attribute 0x2F sub = service_attr 0x2F 4 1"
  "uds_service_attribute 0x2C sub = service_attr 0x2C 4 1"
  by (simp_all add: uds_service_attribute_def service_attributes_def service_attr_def session_mask_defs)

end
