(* ===== verification/Uds_Backends.thy ===== *)
theory Uds_Backends
  imports Uds_Types
begin

text \<open>
  The optional backends of the UDS server: the modular services selected by service identifier
  (\<open>library/src/uds_services.c\<close>) and the ReadDTCInformation subfunctions with their capability bits
  (\<open>library/src/uds_dtc.c\<close>). A backend function is a function of the application context; a handler
  gets the request and the response buffer and returns the buffer and the response length as it
  left them.
\<close>

section \<open>Modular service backends\<close>

type_synonym 'c UdsServiceHandlerFn =
  "'c \<Rightarrow> bytes \<Rightarrow> bytes \<Rightarrow> u16 \<Rightarrow> UdsCallbackResult \<times> bytes \<times> u16 \<times> 'c"

type_synonym 'c UdsMemoryAccessFn = "'c \<Rightarrow> u8 \<Rightarrow> bytes \<Rightarrow> UdsCallbackResult \<times> 'c"

record 'c UdsMemoryServiceBackend =
  check_access :: "'c UdsMemoryAccessFn option"
  read_memory :: "'c UdsServiceHandlerFn option"
  write_memory :: "'c UdsServiceHandlerFn option"

record 'c UdsDidServiceBackend =
  read_scaling :: "'c UdsServiceHandlerFn option"
  dynamically_define :: "'c UdsServiceHandlerFn option"

record 'c UdsTransferServiceBackend =
  request_upload :: "'c UdsServiceHandlerFn option"
  request_file :: "'c UdsServiceHandlerFn option"

record 'c UdsTimingServiceBackend =
  access_timing_parameters :: "'c UdsServiceHandlerFn option"

record 'c UdsPeriodicEventServiceBackend =
  max_pending_items :: u16
  periodic_data :: "'c UdsServiceHandlerFn option"
  event_response :: "'c UdsServiceHandlerFn option"

record 'c UdsLinkControlServiceBackend =
  link_control_fn :: "'c UdsServiceHandlerFn option"

record 'c UdsAuthenticationServiceBackend =
  authentication_fn :: "'c UdsServiceHandlerFn option"

record 'c UdsSecuredDataServiceBackend =
  secured_data_transmission :: "'c UdsServiceHandlerFn option"

record 'c UdsServiceBackends =
  be_memory :: "'c UdsMemoryServiceBackend option"
  be_did :: "'c UdsDidServiceBackend option"
  be_transfer :: "'c UdsTransferServiceBackend option"
  be_timing :: "'c UdsTimingServiceBackend option"
  be_periodic_event :: "'c UdsPeriodicEventServiceBackend option"
  be_link_control :: "'c UdsLinkControlServiceBackend option"
  be_authentication :: "'c UdsAuthenticationServiceBackend option"
  be_secured_data :: "'c UdsSecuredDataServiceBackend option"

definition uds_service_backends_preflight ::
  "'c UdsServiceBackends option \<Rightarrow> 'c \<Rightarrow> u8 \<Rightarrow> bytes \<Rightarrow> UdsCallbackResult \<times> 'c" where
  "uds_service_backends_preflight backends ctx sid request =
     (case backends of
        None \<Rightarrow> (UDS_RESULT_NOT_SUPPORTED, ctx)
      | Some b \<Rightarrow>
          if sid = 0x23 \<or> sid = 0x3D then
            (case be_memory b of
               None \<Rightarrow> (UDS_RESULT_OK, ctx)
             | Some m \<Rightarrow> (case check_access m of
                 None \<Rightarrow> (UDS_RESULT_OK, ctx)
               | Some check \<Rightarrow> check ctx sid request))
          else if sid = 0x2A \<or> sid = 0x86 then
            (case be_periodic_event b of
               None \<Rightarrow> (UDS_RESULT_NOT_SUPPORTED, ctx)
             | Some p \<Rightarrow> if max_pending_items p = 0 then (UDS_RESULT_NOT_SUPPORTED, ctx)
                         else (UDS_RESULT_OK, ctx))
          else (UDS_RESULT_OK, ctx))"

definition get_mem_read :: "'c UdsServiceBackends \<Rightarrow> 'c UdsServiceHandlerFn option" where
  "get_mem_read b = (case be_memory b of Some m \<Rightarrow> read_memory m | None \<Rightarrow> None)"
definition get_mem_write :: "'c UdsServiceBackends \<Rightarrow> 'c UdsServiceHandlerFn option" where
  "get_mem_write b = (case be_memory b of Some m \<Rightarrow> write_memory m | None \<Rightarrow> None)"
definition get_did_scaling :: "'c UdsServiceBackends \<Rightarrow> 'c UdsServiceHandlerFn option" where
  "get_did_scaling b = (case be_did b of Some d \<Rightarrow> read_scaling d | None \<Rightarrow> None)"
definition get_did_dynamic :: "'c UdsServiceBackends \<Rightarrow> 'c UdsServiceHandlerFn option" where
  "get_did_dynamic b = (case be_did b of Some d \<Rightarrow> dynamically_define d | None \<Rightarrow> None)"
definition get_xfer_upload :: "'c UdsServiceBackends \<Rightarrow> 'c UdsServiceHandlerFn option" where
  "get_xfer_upload b = (case be_transfer b of Some t \<Rightarrow> request_upload t | None \<Rightarrow> None)"
definition get_xfer_file :: "'c UdsServiceBackends \<Rightarrow> 'c UdsServiceHandlerFn option" where
  "get_xfer_file b = (case be_transfer b of Some t \<Rightarrow> request_file t | None \<Rightarrow> None)"
definition get_timing :: "'c UdsServiceBackends \<Rightarrow> 'c UdsServiceHandlerFn option" where
  "get_timing b = (case be_timing b of Some t \<Rightarrow> access_timing_parameters t | None \<Rightarrow> None)"
definition get_periodic_data :: "'c UdsServiceBackends \<Rightarrow> 'c UdsServiceHandlerFn option" where
  "get_periodic_data b = (case be_periodic_event b of Some p \<Rightarrow> periodic_data p | None \<Rightarrow> None)"
definition get_periodic_event :: "'c UdsServiceBackends \<Rightarrow> 'c UdsServiceHandlerFn option" where
  "get_periodic_event b = (case be_periodic_event b of Some p \<Rightarrow> event_response p | None \<Rightarrow> None)"
definition get_link_ctrl :: "'c UdsServiceBackends \<Rightarrow> 'c UdsServiceHandlerFn option" where
  "get_link_ctrl b = (case be_link_control b of Some l \<Rightarrow> link_control_fn l | None \<Rightarrow> None)"
definition get_auth :: "'c UdsServiceBackends \<Rightarrow> 'c UdsServiceHandlerFn option" where
  "get_auth b = (case be_authentication b of Some a \<Rightarrow> authentication_fn a | None \<Rightarrow> None)"
definition get_sec_data :: "'c UdsServiceBackends \<Rightarrow> 'c UdsServiceHandlerFn option" where
  "get_sec_data b = (case be_secured_data b of Some s \<Rightarrow> secured_data_transmission s | None \<Rightarrow> None)"

definition k_sid_mappings :: "(u8 \<times> ('c UdsServiceBackends \<Rightarrow> 'c UdsServiceHandlerFn option)) list" where
  "k_sid_mappings =
     [(0x23, get_mem_read), (0x3D, get_mem_write), (0x24, get_did_scaling),
      (0x2C, get_did_dynamic), (0x35, get_xfer_upload), (0x38, get_xfer_file),
      (0x83, get_timing), (0x2A, get_periodic_data), (0x86, get_periodic_event),
      (0x87, get_link_ctrl), (0x29, get_auth), (0x84, get_sec_data)]"

definition uds_service_backends_handler ::
  "'c UdsServiceBackends option \<Rightarrow> u8 \<Rightarrow> 'c UdsServiceHandlerFn option" where
  "uds_service_backends_handler backends sid =
     (case backends of
        None \<Rightarrow> None
      | Some b \<Rightarrow> (case map_of k_sid_mappings sid of Some extract \<Rightarrow> extract b | None \<Rightarrow> None))"

section \<open>ReadDTCInformation\<close>

record UdsDtcSubfnMeta =
  dtc_subfunction :: u8
  dtc_min_len :: u8
  dtc_max_len :: u8
  dtc_capability :: u32

definition dtc_meta :: "u8 \<Rightarrow> u8 \<Rightarrow> u8 \<Rightarrow> nat \<Rightarrow> UdsDtcSubfnMeta" where
  "dtc_meta sub lo hi cap_bit =
     \<lparr> dtc_subfunction = sub, dtc_min_len = lo, dtc_max_len = hi, dtc_capability = push_bit cap_bit 1 \<rparr>"

definition k_dtc_subfn_table :: "UdsDtcSubfnMeta list" where
  "k_dtc_subfn_table =
     [dtc_meta 0x01 3 3 0, dtc_meta 0x02 3 3 1, dtc_meta 0x03 2 2 2, dtc_meta 0x04 5 6 3,
      dtc_meta 0x05 3 3 4, dtc_meta 0x06 5 6 5, dtc_meta 0x07 3 4 6, dtc_meta 0x08 3 4 7,
      dtc_meta 0x09 5 5 25, dtc_meta 0x0A 2 3 8, dtc_meta 0x0B 2 2 9, dtc_meta 0x0C 2 2 10,
      dtc_meta 0x0D 2 2 11, dtc_meta 0x0E 2 2 12, dtc_meta 0x0F 3 3 13, dtc_meta 0x10 5 6 13,
      dtc_meta 0x11 3 3 14, dtc_meta 0x12 3 3 15, dtc_meta 0x13 3 3 16, dtc_meta 0x14 2 2 17,
      dtc_meta 0x15 2 3 18, dtc_meta 0x16 3 3 19, dtc_meta 0x17 3 4 20, dtc_meta 0x18 6 7 21,
      dtc_meta 0x19 6 7 22, dtc_meta 0x42 5 5 23, dtc_meta 0x55 2 3 24]"

definition uds_dtc_find_meta :: "u8 \<Rightarrow> UdsDtcSubfnMeta option" where
  "uds_dtc_find_meta sub = find (\<lambda>m. dtc_subfunction m = sub) k_dtc_subfn_table"

definition uds_dtc_subfunction_supported :: "u8 \<Rightarrow> bool" where
  "uds_dtc_subfunction_supported sub = (uds_dtc_find_meta sub \<noteq> None)"

definition uds_dtc_request_length_valid :: "u8 \<Rightarrow> u16 \<Rightarrow> bool" where
  "uds_dtc_request_length_valid sub len =
     (case uds_dtc_find_meta sub of
        None \<Rightarrow> False
      | Some m \<Rightarrow> len \<ge> ucast (dtc_min_len m) \<and> len \<le> ucast (dtc_max_len m))"

definition uds_dtc_capability_for_subfunction :: "u8 \<Rightarrow> u32" where
  "uds_dtc_capability_for_subfunction sub =
     (case uds_dtc_find_meta sub of Some m \<Rightarrow> dtc_capability m | None \<Rightarrow> 0)"

text \<open>
  A report function gets the subfunction, the request and the room in the response; it returns its
  result, the bytes it wrote, the length it reports and the context.
\<close>

type_synonym 'c UdsDtcReportFn =
  "'c \<Rightarrow> u8 \<Rightarrow> bytes \<Rightarrow> u16 \<Rightarrow> UdsCallbackResult \<times> bytes \<times> u16 \<times> 'c"

record 'c UdsDtcBackend =
  capabilities :: u32
  report :: "'c UdsDtcReportFn option"

definition uds_dtc_backend_supports :: "'c UdsDtcBackend option \<Rightarrow> u8 \<Rightarrow> bool" where
  "uds_dtc_backend_supports backend sub =
     (let required = uds_dtc_capability_for_subfunction sub in
      case backend of
        None \<Rightarrow> False
      | Some b \<Rightarrow> report b \<noteq> None \<and> required \<noteq> 0 \<and> capabilities b AND required \<noteq> 0)"

section \<open>Facts\<close>

lemma dtc_meta_supported:
  "uds_dtc_subfunction_supported sub \<longleftrightarrow> sub \<in> set (map dtc_subfunction k_dtc_subfn_table)"
  by (auto simp: uds_dtc_subfunction_supported_def uds_dtc_find_meta_def find_None_iff)

lemma dtc_capability_nonzero:
  "uds_dtc_subfunction_supported sub \<Longrightarrow> uds_dtc_capability_for_subfunction sub \<noteq> 0"
proof -
  assume "uds_dtc_subfunction_supported sub"
  then obtain m where m: "uds_dtc_find_meta sub = Some m"
    by (auto simp: uds_dtc_subfunction_supported_def)
  then have "m \<in> set k_dtc_subfn_table" by (auto simp: uds_dtc_find_meta_def find_Some_iff)
  then have "dtc_capability m \<noteq> 0" by (auto simp: k_dtc_subfn_table_def dtc_meta_def)
  with m show ?thesis by (simp add: uds_dtc_capability_for_subfunction_def)
qed

end
