(* ===== verification/Uds_Server.thy ===== *)
theory Uds_Server
  imports Security_Gate Uds_Backends
begin

text \<open>
  The UDS server of \<open>library/src/uds.c\<close>: the server state, one definition per service handler, the
  attribute check, the dispatch table, the S3 timer and the reset handshake, with every feature
  switch \<open>UDS_ENABLE_*\<close> at its default.

  A request is a byte list and a response buffer is a byte list whose length is the capacity the
  caller passes. A handler returns its result, the server, the buffer and the response length;
  \<open>None\<close> is an access outside one of the two arrays. A callback of the application is a function
  of the application context; a callback that fills a part of the response gets the room left and
  returns the bytes it wrote there and the length it reports.
\<close>

section \<open>State\<close>

datatype UdsResetReason = UDS_RESET_NORMAL | UDS_RESET_PROGRAMMING

abbreviation UDS_RESET_TYPE_HARD :: u8 where "UDS_RESET_TYPE_HARD \<equiv> 1"
abbreviation UDS_RESET_TYPE_ENABLE_RAPID_POWER_SHUTDOWN :: u8 where
  "UDS_RESET_TYPE_ENABLE_RAPID_POWER_SHUTDOWN \<equiv> 4"
abbreviation UDS_RESET_TYPE_DISABLE_RAPID_POWER_SHUTDOWN :: u8 where
  "UDS_RESET_TYPE_DISABLE_RAPID_POWER_SHUTDOWN \<equiv> 5"

record 'c UdsCallbacks =
  cb_read_did :: "('c \<Rightarrow> u16 \<Rightarrow> u16 \<Rightarrow> UdsCallbackResult \<times> bytes \<times> u16 \<times> 'c) option"
  cb_write_did :: "('c \<Rightarrow> u16 \<Rightarrow> bytes \<Rightarrow> UdsCallbackResult \<times> 'c) option"
  cb_read_dtc :: "'c UdsDtcReportFn option"
  cb_dtc_backend :: "'c UdsDtcBackend option"
  cb_security_seed :: "('c \<Rightarrow> u8 \<Rightarrow> u16 \<Rightarrow> UdsCallbackResult \<times> bytes \<times> u16 \<times> 'c) option"
  cb_security_key :: "('c \<Rightarrow> u8 \<Rightarrow> bytes \<Rightarrow> UdsCallbackResult \<times> 'c) option"
  cb_communication_control :: "('c \<Rightarrow> u8 \<Rightarrow> u8 \<Rightarrow> UdsCallbackResult \<times> 'c) option"
  cb_io_control :: "('c \<Rightarrow> u16 \<Rightarrow> bytes \<Rightarrow> u16 \<Rightarrow> UdsCallbackResult \<times> bytes \<times> u16 \<times> 'c) option"
  cb_routine_control ::
    "('c \<Rightarrow> u8 \<Rightarrow> u16 \<Rightarrow> bytes \<Rightarrow> u16 \<Rightarrow> UdsCallbackResult \<times> bytes \<times> u16 \<times> 'c) option"
  cb_request_download :: "('c \<Rightarrow> u32 \<Rightarrow> u32 \<Rightarrow> UdsCallbackResult \<times> u16 \<times> 'c) option"
  cb_transfer_data :: "('c \<Rightarrow> u8 \<Rightarrow> bytes \<Rightarrow> UdsCallbackResult \<times> 'c) option"
  cb_request_transfer_exit :: "('c \<Rightarrow> bytes \<Rightarrow> u16 \<Rightarrow> UdsCallbackResult \<times> bytes \<times> u16 \<times> 'c) option"
  cb_ecu_reset :: "('c \<Rightarrow> u8 \<Rightarrow> UdsCallbackResult \<times> 'c) option"
  cb_ecu_reset_execute :: "('c \<Rightarrow> u8 \<Rightarrow> 'c) option"
  cb_control_dtc_setting :: "('c \<Rightarrow> u8 \<Rightarrow> UdsCallbackResult \<times> 'c) option"
  cb_clear_dtc :: "('c \<Rightarrow> u32 \<Rightarrow> UdsCallbackResult \<times> 'c) option"
  cb_service_backends :: "'c UdsServiceBackends option"

record ('c, 'p) UdsServer =
  callbacks :: "'c UdsCallbacks"
  srv_context :: 'c
  session :: u8
  security_gate :: "'p UdsSecurityGate"
  pending_reset_reason :: UdsResetReason
  pending_reset_subfunction :: u8
  next_download_block :: u8
  max_download_block_length :: u16
  p2_server_ms :: u16
  p2_star_server_ms :: u16
  s3_server_timeout_ms :: u32
  last_activity_ms :: u32
  download_active :: bool
  reset_pending :: bool
  reset_ready :: bool
  dtc_setting_enabled :: bool
  current_address_mode :: UdsAddressMode

type_synonym ('c, 'p) service_result = "(UdsCallbackResult \<times> ('c, 'p) UdsServer \<times> bytes \<times> u16) option"

abbreviation request_len :: "bytes \<Rightarrow> u16" where
  "request_len request \<equiv> of_nat (length request)"

abbreviation capacity :: "bytes \<Rightarrow> u16" where
  "capacity response \<equiv> of_nat (length response)"

definition UDS_MAX_REQUEST_LENGTH :: nat where "UDS_MAX_REQUEST_LENGTH = 4095"
definition UDS_SUPPRESS_POSITIVE_RESPONSE :: u8 where "UDS_SUPPRESS_POSITIVE_RESPONSE = 0x80"

section \<open>Responses\<close>

definition negative_response ::
  "('c, 'p) UdsServer \<Rightarrow> bytes \<Rightarrow> u8 \<Rightarrow> bytes \<Rightarrow> u16 \<Rightarrow> ('c, 'p) service_result" where
  "negative_response server request nrc response rlen =
     (if current_address_mode server = UDS_ADDRESS_FUNCTIONAL \<and> nrc_suppressed_on_functional nrc
      then Some (UDS_RESULT_NO_RESPONSE, server, response, 0)
      else if capacity response < 3 then Some (UDS_RESULT_RESPONSE_TOO_LONG, server, response, rlen)
      else do {
        sid \<leftarrow> peek request 0;
        response \<leftarrow> poke_list response 0 [0x7F, sid, nrc];
        Some (UDS_RESULT_OK, server, response, 3)
      })"

definition callback_result ::
  "('c, 'p) UdsServer \<Rightarrow> UdsCallbackResult \<Rightarrow> bytes \<Rightarrow> bytes \<Rightarrow> u16 \<Rightarrow> ('c, 'p) service_result" where
  "callback_result server result request response rlen =
     (if result = UDS_RESULT_OK then Some (UDS_RESULT_OK, server, response, rlen)
      else if result = UDS_RESULT_NO_RESPONSE then Some (UDS_RESULT_NO_RESPONSE, server, response, 0)
      else negative_response server request (uds_result_to_nrc result) response rlen)"

section \<open>Life cycle\<close>

definition UDS_DEFAULT_P2_SERVER_MS :: u16 where "UDS_DEFAULT_P2_SERVER_MS = 50"
definition UDS_DEFAULT_P2_STAR_SERVER_MS :: u16 where "UDS_DEFAULT_P2_STAR_SERVER_MS = 5000"
definition UDS_DEFAULT_S3_SERVER_MS :: u32 where "UDS_DEFAULT_S3_SERVER_MS = 5000"
definition UDS_DEFAULT_SECURITY_LOCKOUT_MS :: u32 where "UDS_DEFAULT_SECURITY_LOCKOUT_MS = 10000"
definition UDS_DEFAULT_SECURITY_SEED_TIMEOUT_MS :: u32 where "UDS_DEFAULT_SECURITY_SEED_TIMEOUT_MS = 10000"
definition UDS_DEFAULT_SECURITY_MAX_ATTEMPTS :: u8 where "UDS_DEFAULT_SECURITY_MAX_ATTEMPTS = 3"

text \<open>
  The callbacks of a server initialised without callbacks. The code clears every member except
  \<open>dtc_backend\<close>, which keeps the content \<open>old\<close> the memory had.
\<close>

definition no_callbacks :: "'c UdsDtcBackend option \<Rightarrow> 'c UdsCallbacks" where
  "no_callbacks old =
     \<lparr> cb_read_did = None, cb_write_did = None, cb_read_dtc = None, cb_dtc_backend = old,
       cb_security_seed = None, cb_security_key = None, cb_communication_control = None,
       cb_io_control = None, cb_routine_control = None, cb_request_download = None,
       cb_transfer_data = None, cb_request_transfer_exit = None, cb_ecu_reset = None,
       cb_ecu_reset_execute = None, cb_control_dtc_setting = None, cb_clear_dtc = None,
       cb_service_backends = None \<rparr>"

definition uds_server_init ::
  "('c, 'p) UdsServer \<Rightarrow> 'c UdsCallbacks option \<Rightarrow> 'c \<Rightarrow> u32 \<Rightarrow> ('c, 'p) UdsServer" where
  "uds_server_init server cbs ctx now =
     \<lparr> callbacks = (case cbs of Some c \<Rightarrow> c | None \<Rightarrow> no_callbacks (cb_dtc_backend (callbacks server))),
       srv_context = ctx,
       session = UDS_SESSION_DEFAULT,
       security_gate = uds_security_gate_set_timing (uds_security_gate_init now) 0
         UDS_DEFAULT_SECURITY_LOCKOUT_MS UDS_DEFAULT_SECURITY_SEED_TIMEOUT_MS
         UDS_DEFAULT_SECURITY_MAX_ATTEMPTS now,
       pending_reset_reason = UDS_RESET_NORMAL,
       pending_reset_subfunction = 0,
       next_download_block = 1,
       max_download_block_length = 0,
       p2_server_ms = UDS_DEFAULT_P2_SERVER_MS,
       p2_star_server_ms = UDS_DEFAULT_P2_STAR_SERVER_MS,
       s3_server_timeout_ms = UDS_DEFAULT_S3_SERVER_MS,
       last_activity_ms = now,
       download_active = False,
       reset_pending = False,
       reset_ready = False,
       dtc_setting_enabled = True,
       current_address_mode = UDS_ADDRESS_PHYSICAL \<rparr>"

definition security_tick :: "('c, 'p) UdsServer \<Rightarrow> u32 \<Rightarrow> ('c, 'p) UdsServer" where
  "security_tick server now =
     server\<lparr> security_gate := uds_security_gate_tick (security_gate server) now \<rparr>"

definition security_delay_active :: "('c, 'p) UdsServer \<Rightarrow> u32 \<Rightarrow> bool" where
  "security_delay_active server now = uds_security_gate_delay_active (security_gate server) now"

definition security_reset_for_ecu_reset ::
  "('c, 'p) UdsServer \<Rightarrow> u32 \<Rightarrow> UdsResetReason \<Rightarrow> ('c, 'p) UdsServer" where
  "security_reset_for_ecu_reset server now reason =
     server\<lparr> security_gate := uds_security_gate_reset_ecu (security_gate server) now \<rparr>"

definition security_reset_for_session_change :: "('c, 'p) UdsServer \<Rightarrow> ('c, 'p) UdsServer" where
  "security_reset_for_session_change server =
     server\<lparr> security_gate := uds_security_gate_reset_session (security_gate server) \<rparr>"

definition uds_server_reset_security :: "('c, 'p) UdsServer \<Rightarrow> ('c, 'p) UdsServer" where
  "uds_server_reset_security server = security_reset_for_session_change server"

definition uds_server_apply_reset ::
  "('c, 'p) UdsServer \<Rightarrow> UdsResetReason \<Rightarrow> u32 \<Rightarrow> ('c, 'p) UdsServer" where
  "uds_server_apply_reset server reason now =
     security_reset_for_ecu_reset
       (server\<lparr> session := UDS_SESSION_DEFAULT, download_active := False, next_download_block := 1,
                max_download_block_length := 0, reset_pending := False, reset_ready := False,
                pending_reset_reason := UDS_RESET_NORMAL, pending_reset_subfunction := 0,
                last_activity_ms := now \<rparr>) now reason"

definition uds_server_request_session ::
  "('c, 'p) UdsServer \<Rightarrow> u8 \<Rightarrow> u32 \<Rightarrow> UdsCallbackResult \<times> ('c, 'p) UdsServer" where
  "uds_server_request_session server requested now =
     (if \<not> session_supported requested then (UDS_RESULT_OUT_OF_RANGE, server)
      else
       let current = session server in
       if uds_session_transition_allowed current requested \<noteq> UDS_SESSION_TRANSITION_ALLOWED
       then (UDS_RESULT_DENIED, server)
       else
        let server = security_reset_for_session_change (security_tick server now);
            server = server\<lparr> session := requested, download_active := False,
                             next_download_block := 1, last_activity_ms := now \<rparr>;
            server = (if requested = UDS_SESSION_PROGRAMMING
                      then server\<lparr> reset_pending := True,
                                   pending_reset_reason := UDS_RESET_PROGRAMMING,
                                   pending_reset_subfunction := 0 \<rparr>
                      else if requested = UDS_SESSION_DEFAULT \<and> current \<noteq> UDS_SESSION_DEFAULT
                      then server\<lparr> reset_pending := True,
                                   pending_reset_reason := UDS_RESET_NORMAL,
                                   pending_reset_subfunction := 0 \<rparr>
                      else server) in
        (UDS_RESULT_OK, server))"

section \<open>Service handlers\<close>

definition service_session_control ::
  "('c, 'p) UdsServer \<Rightarrow> bytes \<Rightarrow> bytes \<Rightarrow> u16 \<Rightarrow> u32 \<Rightarrow> ('c, 'p) service_result" where
  "service_session_control server request response rlen now =
     (if request_len request \<noteq> 2
      then negative_response server request UDS_NRC_INCORRECT_MESSAGE_LENGTH_OR_INVALID_FORMAT response rlen
      else do {
        r1 \<leftarrow> peek request 1;
        let sub = r1 AND 0x7F;
        (if \<not> session_supported sub
         then negative_response server request UDS_NRC_SUBFUNCTION_NOT_SUPPORTED response rlen
         else case uds_server_request_session server sub now of (result, server) \<Rightarrow>
           if result \<noteq> UDS_RESULT_OK
           then negative_response server request (uds_result_to_nrc result) response rlen
           else if r1 AND UDS_SUPPRESS_POSITIVE_RESPONSE \<noteq> 0
           then Some (UDS_RESULT_NO_RESPONSE, server, response, rlen)
           else if capacity response < 6
           then negative_response server request UDS_NRC_RESPONSE_TOO_LONG response rlen
           else do {
             let p2 = p2_server_ms server;
             let p2_star = p2_star_server_ms server div 10;
             response \<leftarrow> poke_list response 0
               [0x50, sub, ucast (drop_bit 8 p2), ucast p2, ucast (drop_bit 8 p2_star), ucast p2_star];
             Some (UDS_RESULT_OK, server, response, 6)
           })
      })"

text \<open>The reset becomes pending, not ready.\<close>

definition mark_reset :: "('c, 'p) UdsServer \<Rightarrow> u8 \<Rightarrow> ('c, 'p) UdsServer" where
  "mark_reset server sub = server\<lparr> reset_pending := True, reset_ready := False,
     pending_reset_reason := UDS_RESET_NORMAL, pending_reset_subfunction := sub \<rparr>"

definition service_ecu_reset ::
  "('c, 'p) UdsServer \<Rightarrow> bytes \<Rightarrow> bytes \<Rightarrow> u16 \<Rightarrow> ('c, 'p) service_result" where
  "service_ecu_reset server request response rlen =
     (if request_len request \<noteq> 2
      then negative_response server request UDS_NRC_INCORRECT_MESSAGE_LENGTH_OR_INVALID_FORMAT response rlen
      else do {
        r1 \<leftarrow> peek request 1;
        let sub = r1 AND 0x7F;
        (case cb_ecu_reset (callbacks server) of
           None \<Rightarrow> negative_response server request UDS_NRC_SUBFUNCTION_NOT_SUPPORTED response rlen
         | Some reset \<Rightarrow>
             if sub < UDS_RESET_TYPE_HARD \<or> sub > UDS_RESET_TYPE_DISABLE_RAPID_POWER_SHUTDOWN
             then negative_response server request UDS_NRC_SUBFUNCTION_NOT_SUPPORTED response rlen
             else case reset (srv_context server) sub of (result, ctx) \<Rightarrow>
               let server = server\<lparr> srv_context := ctx \<rparr> in
               if result \<noteq> UDS_RESULT_OK then callback_result server result request response rlen
               else if r1 AND UDS_SUPPRESS_POSITIVE_RESPONSE \<noteq> 0
               then Some (UDS_RESULT_NO_RESPONSE, mark_reset server sub, response, 0)
               else if sub = UDS_RESET_TYPE_ENABLE_RAPID_POWER_SHUTDOWN then
                 (if capacity response < 3
                  then negative_response server request UDS_NRC_RESPONSE_TOO_LONG response rlen
                  else do {
                    response \<leftarrow> poke_list response 0 [0x51, sub, 0];
                    Some (UDS_RESULT_OK, mark_reset server sub, response, 3)
                  })
               else if capacity response < 2
               then negative_response server request UDS_NRC_RESPONSE_TOO_LONG response rlen
               else do {
                 response \<leftarrow> poke_list response 0 [0x51, sub];
                 Some (UDS_RESULT_OK, mark_reset server sub, response, 2)
               })
      })"

definition service_clear_dtc ::
  "('c, 'p) UdsServer \<Rightarrow> bytes \<Rightarrow> bytes \<Rightarrow> u16 \<Rightarrow> ('c, 'p) service_result" where
  "service_clear_dtc server request response rlen =
     (if request_len request \<noteq> 4
      then negative_response server request UDS_NRC_INCORRECT_MESSAGE_LENGTH_OR_INVALID_FORMAT response rlen
      else case cb_clear_dtc (callbacks server) of
        None \<Rightarrow> negative_response server request UDS_NRC_SERVICE_NOT_SUPPORTED response rlen
      | Some clear \<Rightarrow> do {
          group \<leftarrow> read_be_u32 request 1 3;
          (case clear (srv_context server) group of (result, ctx) \<Rightarrow>
            let server = server\<lparr> srv_context := ctx \<rparr> in
            if result \<noteq> UDS_RESULT_OK then callback_result server result request response rlen
            else if capacity response < 1
            then negative_response server request UDS_NRC_RESPONSE_TOO_LONG response rlen
            else do {
              response \<leftarrow> poke_list response 0 [0x54];
              Some (UDS_RESULT_OK, server, response, 1)
            })
        })"

definition service_modular_backend ::
  "('c, 'p) UdsServer \<Rightarrow> bytes \<Rightarrow> bytes \<Rightarrow> u16 \<Rightarrow> ('c, 'p) service_result" where
  "service_modular_backend server request response rlen = do {
     sid \<leftarrow> peek request 0;
     (case uds_service_backends_preflight (cb_service_backends (callbacks server)) (srv_context server) sid request of
        (preflight, ctx) \<Rightarrow>
          let server = server\<lparr> srv_context := ctx \<rparr> in
          if preflight \<noteq> UDS_RESULT_OK then callback_result server preflight request response rlen
          else case uds_service_backends_handler (cb_service_backends (callbacks server)) sid of
            None \<Rightarrow> negative_response server request UDS_NRC_SERVICE_NOT_SUPPORTED response rlen
          | Some handler \<Rightarrow>
              (case handler (srv_context server) request response rlen of (result, response, rlen, ctx) \<Rightarrow>
                let server = server\<lparr> srv_context := ctx \<rparr> in
                if result = UDS_RESULT_NO_RESPONSE then Some (result, server, response, rlen)
                else if result \<noteq> UDS_RESULT_OK then callback_result server result request response rlen
                else if rlen > capacity response
                then negative_response server request UDS_NRC_RESPONSE_TOO_LONG response rlen
                else Some (UDS_RESULT_OK, server, response, rlen)))
   }"

definition service_read_dtc ::
  "('c, 'p) UdsServer \<Rightarrow> bytes \<Rightarrow> bytes \<Rightarrow> u16 \<Rightarrow> ('c, 'p) service_result" where
  "service_read_dtc server request response rlen =
     (if request_len request < 2
      then negative_response server request UDS_NRC_INCORRECT_MESSAGE_LENGTH_OR_INVALID_FORMAT response rlen
      else do {
        sub \<leftarrow> peek request 1;
        (if sub AND 0x80 \<noteq> 0
         then negative_response server request UDS_NRC_SUBFUNCTION_NOT_SUPPORTED response rlen
         else if \<not> uds_dtc_subfunction_supported sub
         then negative_response server request UDS_NRC_SUBFUNCTION_NOT_SUPPORTED response rlen
         else if \<not> uds_dtc_request_length_valid sub (request_len request)
         then negative_response server request UDS_NRC_INCORRECT_MESSAGE_LENGTH_OR_INVALID_FORMAT response rlen
         else if capacity response < 1
         then negative_response server request UDS_NRC_RESPONSE_TOO_LONG response rlen
         else do {
           response \<leftarrow> poke_list response 0 [0x59];
           let rlen = 1;
           let finish = (\<lambda>(result, written, extra, ctx). do {
               let server = server\<lparr> srv_context := ctx \<rparr>;
               response \<leftarrow> poke_list response 1 written;
               (if result \<noteq> UDS_RESULT_OK then callback_result server result request response rlen
                else if capacity response - rlen < extra
                then negative_response server request UDS_NRC_RESPONSE_TOO_LONG response rlen
                else Some (UDS_RESULT_OK, server, response, rlen + extra))
             });
           (case cb_dtc_backend (callbacks server) of
              Some backend \<Rightarrow>
                if capabilities backend AND uds_dtc_capability_for_subfunction sub = 0
                then negative_response server request UDS_NRC_SUBFUNCTION_NOT_SUPPORTED response rlen
                else (case report backend of
                  None \<Rightarrow> negative_response server request UDS_NRC_SERVICE_NOT_SUPPORTED response rlen
                | Some fn \<Rightarrow> finish (fn (srv_context server) sub request (capacity response - 1)))
            | None \<Rightarrow> (case cb_read_dtc (callbacks server) of
                  None \<Rightarrow> negative_response server request UDS_NRC_SERVICE_NOT_SUPPORTED response rlen
                | Some fn \<Rightarrow> finish (fn (srv_context server) sub request (capacity response - 1))))
         })
      })"

text \<open>The loop over the identifiers of a request, from its second byte on.\<close>

fun read_data_loop ::
  "('c \<Rightarrow> u16 \<Rightarrow> u16 \<Rightarrow> UdsCallbackResult \<times> bytes \<times> u16 \<times> 'c) \<Rightarrow>
     ('c, 'p) UdsServer \<Rightarrow> bytes \<Rightarrow> bytes \<Rightarrow> bytes \<Rightarrow> u16 \<Rightarrow> ('c, 'p) service_result" where
  "read_data_loop read server request [] response rlen = Some (UDS_RESULT_OK, server, response, rlen)"
| "read_data_loop read server request [hi] response rlen = None"
| "read_data_loop read server request (hi # lo # rest) response rlen =
     (if capacity response - rlen < 2
      then negative_response server request UDS_NRC_RESPONSE_TOO_LONG response rlen
      else do {
        let did = push_bit 8 (ucast hi) OR ucast lo;
        response \<leftarrow> poke_list response (unat rlen) [hi, lo];
        let rlen = rlen + 2;
        (case read (srv_context server) did (capacity response - rlen) of
          (result, written, value_length, ctx) \<Rightarrow> do {
            let server = server\<lparr> srv_context := ctx \<rparr>;
            response \<leftarrow> poke_list response (unat rlen) written;
            (if result \<noteq> UDS_RESULT_OK then callback_result server result request response rlen
             else if capacity response - rlen < value_length
             then negative_response server request UDS_NRC_RESPONSE_TOO_LONG response rlen
             else read_data_loop read server request rest response (rlen + value_length))
          })
      })"

definition service_read_data ::
  "('c, 'p) UdsServer \<Rightarrow> bytes \<Rightarrow> bytes \<Rightarrow> u16 \<Rightarrow> ('c, 'p) service_result" where
  "service_read_data server request response rlen =
     (case cb_read_did (callbacks server) of
        None \<Rightarrow> negative_response server request UDS_NRC_INCORRECT_MESSAGE_LENGTH_OR_INVALID_FORMAT response rlen
      | Some read \<Rightarrow>
          if request_len request < 3 \<or> (request_len request - 1) mod 2 \<noteq> 0
          then negative_response server request UDS_NRC_INCORRECT_MESSAGE_LENGTH_OR_INVALID_FORMAT response rlen
          else do {
            response \<leftarrow> poke_list response 0 [0x62];
            read_data_loop read server request (drop 1 request) response 1
          })"

definition service_write_data ::
  "('c, 'p) UdsServer \<Rightarrow> bytes \<Rightarrow> bytes \<Rightarrow> u16 \<Rightarrow> ('c, 'p) service_result" where
  "service_write_data server request response rlen =
     (if request_len request < 4
      then negative_response server request UDS_NRC_INCORRECT_MESSAGE_LENGTH_OR_INVALID_FORMAT response rlen
      else case cb_write_did (callbacks server) of
        None \<Rightarrow> negative_response server request UDS_NRC_SERVICE_NOT_SUPPORTED response rlen
      | Some write \<Rightarrow> do {
          did \<leftarrow> read_u16 request 1;
          (case write (srv_context server) did (drop 3 request) of (result, ctx) \<Rightarrow>
            let server = server\<lparr> srv_context := ctx \<rparr> in
            if result \<noteq> UDS_RESULT_OK then callback_result server result request response rlen
            else if capacity response < 3
            then negative_response server request UDS_NRC_RESPONSE_TOO_LONG response rlen
            else do {
              r1 \<leftarrow> peek request 1;
              r2 \<leftarrow> peek request 2;
              response \<leftarrow> poke_list response 0 [0x6E, r1, r2];
              Some (UDS_RESULT_OK, server, response, 3)
            })
        })"

definition service_security_seed ::
  "('c \<Rightarrow> u8 \<Rightarrow> u16 \<Rightarrow> UdsCallbackResult \<times> bytes \<times> u16 \<times> 'c) \<Rightarrow>
     ('c, 'p) UdsServer \<Rightarrow> bytes \<Rightarrow> bytes \<Rightarrow> u16 \<Rightarrow> u8 \<Rightarrow> u8 \<Rightarrow> u32 \<Rightarrow> ('c, 'p) service_result" where
  "service_security_seed seed_fn server request response rlen sub level now =
     (if request_len request \<noteq> 2
      then negative_response server request UDS_NRC_INCORRECT_MESSAGE_LENGTH_OR_INVALID_FORMAT response rlen
      else case seed_fn (srv_context server) level (if capacity response > 2 then capacity response - 2 else 0) of
        (result, written, seed_length, ctx) \<Rightarrow> do {
          let server = server\<lparr> srv_context := ctx \<rparr>;
          response \<leftarrow> poke_list response 2 written;
          (if result \<noteq> UDS_RESULT_OK then callback_result server result request response rlen
           else if capacity response < 2 + seed_length
           then negative_response server request UDS_NRC_RESPONSE_TOO_LONG response rlen
           else if active_level (security_gate server) = level then do {
             response \<leftarrow> poke_list response 2 (replicate (unat seed_length) 0);
             response \<leftarrow> poke_list response 0 [0x67, sub];
             Some (UDS_RESULT_OK, server, response, 2 + seed_length)
           }
           else do {
             let server = server\<lparr> security_gate := uds_security_gate_grant_seed (security_gate server) level now \<rparr>;
             response \<leftarrow> poke_list response 0 [0x67, sub];
             Some (UDS_RESULT_OK, server, response, 2 + seed_length)
           })
        })"

definition service_security_key ::
  "('c \<Rightarrow> u8 \<Rightarrow> bytes \<Rightarrow> UdsCallbackResult \<times> 'c) \<Rightarrow>
     ('c, 'p) UdsServer \<Rightarrow> bytes \<Rightarrow> bytes \<Rightarrow> u16 \<Rightarrow> u8 \<Rightarrow> u8 \<Rightarrow> u32 \<Rightarrow> ('c, 'p) service_result" where
  "service_security_key key_fn server request response rlen sub level now =
     (if request_len request \<le> 2 \<or> \<not> seed_valid (security_gate server) \<or>
         seed_level (security_gate server) \<noteq> level
      then negative_response server request UDS_NRC_REQUEST_SEQUENCE_ERROR response rlen
      else case key_fn (srv_context server) level (drop 2 request) of (result, ctx) \<Rightarrow>
        let server = server\<lparr> srv_context := ctx \<rparr> in
        if result = UDS_RESULT_INVALID_KEY then
          (let server = server\<lparr> security_gate := uds_security_gate_record_failure (security_gate server) now \<rparr> in
           if gate_state (security_gate server) = UDS_SECURITY_STATE_LOCKOUT
           then negative_response server request UDS_NRC_EXCEEDED_NUMBER_OF_ATTEMPTS response rlen
           else negative_response server request UDS_NRC_INVALID_KEY response rlen)
        else if result \<noteq> UDS_RESULT_OK then callback_result server result request response rlen
        else do {
          let server = server\<lparr> security_gate := uds_security_gate_record_success (security_gate server) level \<rparr>;
          r1 \<leftarrow> peek request 1;
          (if r1 AND UDS_SUPPRESS_POSITIVE_RESPONSE \<noteq> 0
           then Some (UDS_RESULT_NO_RESPONSE, server, response, rlen)
           else if capacity response < 2
           then negative_response server request UDS_NRC_RESPONSE_TOO_LONG response rlen
           else do {
             response \<leftarrow> poke_list response 0 [0x67, sub AND 0x7F];
             Some (UDS_RESULT_OK, server, response, 2)
           })
        })"

definition service_security_access ::
  "('c, 'p) UdsServer \<Rightarrow> bytes \<Rightarrow> bytes \<Rightarrow> u16 \<Rightarrow> u32 \<Rightarrow> ('c, 'p) service_result" where
  "service_security_access server request response rlen now =
     (if request_len request < 2
      then negative_response server request UDS_NRC_INCORRECT_MESSAGE_LENGTH_OR_INVALID_FORMAT response rlen
      else case (cb_security_seed (callbacks server), cb_security_key (callbacks server)) of
        (Some seed_fn, Some key_fn) \<Rightarrow>
          (let server = security_tick server now in
           if \<not> security_session_allowed (session server)
           then negative_response server request UDS_NRC_SERVICE_NOT_SUPPORTED_IN_ACTIVE_SESSION response rlen
           else do {
             sub \<leftarrow> peek request 1;
             (case uds_security_subfunction_level sub of
                None \<Rightarrow> negative_response server request UDS_NRC_SUBFUNCTION_NOT_SUPPORTED response rlen
              | Some (level, is_seed) \<Rightarrow>
                  if security_delay_active server now
                  then negative_response server request UDS_NRC_REQUIRED_TIME_DELAY_NOT_EXPIRED response rlen
                  else if is_seed
                  then service_security_seed seed_fn server request response rlen sub level now
                  else service_security_key key_fn server request response rlen sub level now)
           })
      | _ \<Rightarrow> negative_response server request UDS_NRC_SERVICE_NOT_SUPPORTED response rlen)"

definition service_communication_control ::
  "('c, 'p) UdsServer \<Rightarrow> bytes \<Rightarrow> bytes \<Rightarrow> u16 \<Rightarrow> ('c, 'p) service_result" where
  "service_communication_control server request response rlen =
     (case cb_communication_control (callbacks server) of
        None \<Rightarrow> negative_response server request UDS_NRC_INCORRECT_MESSAGE_LENGTH_OR_INVALID_FORMAT response rlen
      | Some control \<Rightarrow>
          if request_len request \<noteq> 3
          then negative_response server request UDS_NRC_INCORRECT_MESSAGE_LENGTH_OR_INVALID_FORMAT response rlen
          else do {
            r1 \<leftarrow> peek request 1;
            r2 \<leftarrow> peek request 2;
            let sub = r1 AND 0x7F;
            (case control (srv_context server) sub r2 of (result, ctx) \<Rightarrow>
              let server = server\<lparr> srv_context := ctx \<rparr> in
              if result \<noteq> UDS_RESULT_OK then callback_result server result request response rlen
              else if r1 AND UDS_SUPPRESS_POSITIVE_RESPONSE \<noteq> 0
              then Some (UDS_RESULT_NO_RESPONSE, server, response, rlen)
              else if capacity response < 3
              then negative_response server request UDS_NRC_RESPONSE_TOO_LONG response rlen
              else do {
                response \<leftarrow> poke_list response 0 [0x68, sub, r2];
                Some (UDS_RESULT_OK, server, response, 3)
              })
          })"

definition service_io_control ::
  "('c, 'p) UdsServer \<Rightarrow> bytes \<Rightarrow> bytes \<Rightarrow> u16 \<Rightarrow> ('c, 'p) service_result" where
  "service_io_control server request response rlen =
     (case cb_io_control (callbacks server) of
        None \<Rightarrow> negative_response server request UDS_NRC_INCORRECT_MESSAGE_LENGTH_OR_INVALID_FORMAT response rlen
      | Some control \<Rightarrow>
          if request_len request < 4
          then negative_response server request UDS_NRC_INCORRECT_MESSAGE_LENGTH_OR_INVALID_FORMAT response rlen
          else do {
            did \<leftarrow> read_u16 request 1;
            r1 \<leftarrow> peek request 1;
            r2 \<leftarrow> peek request 2;
            response \<leftarrow> poke_list response 0 [0x6F, r1, r2];
            let rlen = 3;
            (case control (srv_context server) did (drop 3 request)
                (if capacity response > 3 then capacity response - 3 else 0) of
              (result, written, extra, ctx) \<Rightarrow> do {
                let server = server\<lparr> srv_context := ctx \<rparr>;
                response \<leftarrow> poke_list response 3 written;
                (if result \<noteq> UDS_RESULT_OK then callback_result server result request response rlen
                 else if capacity response - rlen < extra
                 then negative_response server request UDS_NRC_RESPONSE_TOO_LONG response rlen
                 else Some (UDS_RESULT_OK, server, response, rlen + extra))
              })
          })"

definition service_routine_control ::
  "('c, 'p) UdsServer \<Rightarrow> bytes \<Rightarrow> bytes \<Rightarrow> u16 \<Rightarrow> ('c, 'p) service_result" where
  "service_routine_control server request response rlen =
     (case cb_routine_control (callbacks server) of
        None \<Rightarrow> negative_response server request UDS_NRC_INCORRECT_MESSAGE_LENGTH_OR_INVALID_FORMAT response rlen
      | Some routine \<Rightarrow>
          if request_len request < 4
          then negative_response server request UDS_NRC_INCORRECT_MESSAGE_LENGTH_OR_INVALID_FORMAT response rlen
          else do {
            r1 \<leftarrow> peek request 1;
            let sub = r1 AND 0x7F;
            routine_id \<leftarrow> read_u16 request 2;
            r2 \<leftarrow> peek request 2;
            r3 \<leftarrow> peek request 3;
            response \<leftarrow> poke_list response 0 [0x71, sub, r2, r3];
            let rlen = 4;
            (case routine (srv_context server) sub routine_id (drop 4 request)
                (if capacity response > 4 then capacity response - 4 else 0) of
              (result, written, extra, ctx) \<Rightarrow> do {
                let server = server\<lparr> srv_context := ctx \<rparr>;
                response \<leftarrow> poke_list response 4 written;
                (if result \<noteq> UDS_RESULT_OK then callback_result server result request response rlen
                 else if r1 AND UDS_SUPPRESS_POSITIVE_RESPONSE \<noteq> 0
                 then Some (UDS_RESULT_NO_RESPONSE, server, response, rlen)
                 else if capacity response - rlen < extra
                 then negative_response server request UDS_NRC_RESPONSE_TOO_LONG response rlen
                 else Some (UDS_RESULT_OK, server, response, rlen + extra))
              })
          })"

definition service_download ::
  "('c, 'p) UdsServer \<Rightarrow> bytes \<Rightarrow> bytes \<Rightarrow> u16 \<Rightarrow> ('c, 'p) service_result" where
  "service_download server request response rlen =
     (case cb_request_download (callbacks server) of
        None \<Rightarrow> negative_response server request UDS_NRC_INCORRECT_MESSAGE_LENGTH_OR_INVALID_FORMAT response rlen
      | Some download \<Rightarrow>
          if request_len request < 4
          then negative_response server request UDS_NRC_INCORRECT_MESSAGE_LENGTH_OR_INVALID_FORMAT response rlen
          else do {
            r2 \<leftarrow> peek request 2;
            let address_length = r2 AND 0x0F;
            let length_length = drop_bit 4 r2;
            (if address_length = 0 \<or> address_length > 4 \<or> length_length = 0 \<or> length_length > 4 \<or>
                request_len request \<noteq> 3 + ucast address_length + ucast length_length
             then negative_response server request UDS_NRC_INCORRECT_MESSAGE_LENGTH_OR_INVALID_FORMAT response rlen
             else do {
               address \<leftarrow> read_be_u32 request 3 address_length;
               len \<leftarrow> read_be_u32 request (3 + unat address_length) length_length;
               (case download (srv_context server) address len of (result, max_block_length, ctx) \<Rightarrow>
                 let server = server\<lparr> srv_context := ctx \<rparr> in
                 if result \<noteq> UDS_RESULT_OK then callback_result server result request response rlen
                 else if max_block_length < 3 \<or> capacity response < 4
                 then negative_response server request UDS_NRC_UPLOAD_DOWNLOAD_NOT_ACCEPTED response rlen
                 else do {
                   let server = server\<lparr> download_active := True, next_download_block := 1,
                                        max_download_block_length := max_block_length \<rparr>;
                   response \<leftarrow> poke_list response 0
                     [0x74, 0x20, ucast (drop_bit 8 max_block_length), ucast max_block_length];
                   Some (UDS_RESULT_OK, server, response, 4)
                 })
             })
          })"

definition service_transfer_data ::
  "('c, 'p) UdsServer \<Rightarrow> bytes \<Rightarrow> bytes \<Rightarrow> u16 \<Rightarrow> ('c, 'p) service_result" where
  "service_transfer_data server request response rlen =
     (case cb_transfer_data (callbacks server) of
        None \<Rightarrow> negative_response server request UDS_NRC_REQUEST_SEQUENCE_ERROR response rlen
      | Some transfer \<Rightarrow>
          if request_len request < 3 \<or> \<not> download_active server
          then negative_response server request UDS_NRC_REQUEST_SEQUENCE_ERROR response rlen
          else do {
            r1 \<leftarrow> peek request 1;
            (if r1 \<noteq> next_download_block server
             then negative_response server request UDS_NRC_WRONG_BLOCK_SEQUENCE_COUNTER response rlen
             else
               let data_length = request_len request - 2 in
               if data_length > max_download_block_length server - 2
               then negative_response server request UDS_NRC_INCORRECT_MESSAGE_LENGTH_OR_INVALID_FORMAT response rlen
               else case transfer (srv_context server) r1 (drop 2 request) of (result, ctx) \<Rightarrow>
                 let server = server\<lparr> srv_context := ctx \<rparr> in
                 if result \<noteq> UDS_RESULT_OK then callback_result server result request response rlen
                 else
                   let server = server\<lparr> next_download_block := next_download_block server + 1 \<rparr> in
                   if capacity response < 2
                   then negative_response server request UDS_NRC_RESPONSE_TOO_LONG response rlen
                   else do {
                     response \<leftarrow> poke_list response 0 [0x76, r1];
                     Some (UDS_RESULT_OK, server, response, 2)
                   })
          })"

text \<open>
  The reported length is taken as the callback gives it: unlike the other handlers, this one does
  not compare it with the capacity.
\<close>

definition service_transfer_exit ::
  "('c, 'p) UdsServer \<Rightarrow> bytes \<Rightarrow> bytes \<Rightarrow> u16 \<Rightarrow> ('c, 'p) service_result" where
  "service_transfer_exit server request response rlen =
     (case cb_request_transfer_exit (callbacks server) of
        None \<Rightarrow> negative_response server request UDS_NRC_REQUEST_SEQUENCE_ERROR response rlen
      | Some transfer_exit \<Rightarrow>
          if \<not> download_active server
          then negative_response server request UDS_NRC_REQUEST_SEQUENCE_ERROR response rlen
          else case transfer_exit (srv_context server) (drop 1 request)
                 (if capacity response > 1 then capacity response - 1 else 0) of
            (result, written, reported, ctx) \<Rightarrow> do {
              let server = server\<lparr> srv_context := ctx \<rparr>;
              response \<leftarrow> poke_list response 1 written;
              let rlen = reported;
              (if result \<noteq> UDS_RESULT_OK then callback_result server result request response rlen
               else if capacity response < 1
               then negative_response server request UDS_NRC_RESPONSE_TOO_LONG response rlen
               else do {
                 response \<leftarrow> poke_list response 0 [0x77];
                 Some (UDS_RESULT_OK, server\<lparr> download_active := False \<rparr>, response, rlen + 1)
               })
            })"

definition service_tester_present ::
  "('c, 'p) UdsServer \<Rightarrow> bytes \<Rightarrow> bytes \<Rightarrow> u16 \<Rightarrow> ('c, 'p) service_result" where
  "service_tester_present server request response rlen =
     (if request_len request \<noteq> 2
      then negative_response server request UDS_NRC_INCORRECT_MESSAGE_LENGTH_OR_INVALID_FORMAT response rlen
      else do {
        r1 \<leftarrow> peek request 1;
        let sub = r1 AND 0x7F;
        (if sub \<noteq> 0
         then negative_response server request UDS_NRC_SUBFUNCTION_NOT_SUPPORTED response rlen
         else if r1 AND UDS_SUPPRESS_POSITIVE_RESPONSE \<noteq> 0
         then Some (UDS_RESULT_NO_RESPONSE, server, response, rlen)
         else if capacity response < 2
         then negative_response server request UDS_NRC_RESPONSE_TOO_LONG response rlen
         else do {
           response \<leftarrow> poke_list response 0 [0x7E, r1];
           Some (UDS_RESULT_OK, server, response, 2)
         })
      })"

definition service_dtc_setting ::
  "('c, 'p) UdsServer \<Rightarrow> bytes \<Rightarrow> bytes \<Rightarrow> u16 \<Rightarrow> ('c, 'p) service_result" where
  "service_dtc_setting server request response rlen =
     (case cb_control_dtc_setting (callbacks server) of
        None \<Rightarrow> negative_response server request UDS_NRC_INCORRECT_MESSAGE_LENGTH_OR_INVALID_FORMAT response rlen
      | Some control \<Rightarrow>
          if request_len request \<noteq> 2
          then negative_response server request UDS_NRC_INCORRECT_MESSAGE_LENGTH_OR_INVALID_FORMAT response rlen
          else do {
            r1 \<leftarrow> peek request 1;
            let sub = r1 AND 0x7F;
            (if sub \<noteq> 1 \<and> sub \<noteq> 2
             then negative_response server request UDS_NRC_SUBFUNCTION_NOT_SUPPORTED response rlen
             else case control (srv_context server) sub of (result, ctx) \<Rightarrow>
               let server = server\<lparr> srv_context := ctx \<rparr> in
               if result \<noteq> UDS_RESULT_OK then callback_result server result request response rlen
               else
                 let server = server\<lparr> dtc_setting_enabled := (sub = 1) \<rparr> in
                 if r1 AND UDS_SUPPRESS_POSITIVE_RESPONSE \<noteq> 0
                 then Some (UDS_RESULT_NO_RESPONSE, server, response, rlen)
                 else if capacity response < 2
                 then negative_response server request UDS_NRC_RESPONSE_TOO_LONG response rlen
                 else do {
                   response \<leftarrow> poke_list response 0 [0xC5, sub];
                   Some (UDS_RESULT_OK, server, response, 2)
                 })
          })"

section \<open>Dispatch\<close>

type_synonym ('c, 'p) UdsServiceDispatchFn =
  "('c, 'p) UdsServer \<Rightarrow> bytes \<Rightarrow> bytes \<Rightarrow> u16 \<Rightarrow> u32 \<Rightarrow> ('c, 'p) service_result"

definition wrap_ecu_reset :: "('c, 'p) UdsServiceDispatchFn" where
  "wrap_ecu_reset s req res res_l now = service_ecu_reset s req res res_l"
definition wrap_clear_dtc :: "('c, 'p) UdsServiceDispatchFn" where
  "wrap_clear_dtc s req res res_l now = service_clear_dtc s req res res_l"
definition wrap_read_dtc :: "('c, 'p) UdsServiceDispatchFn" where
  "wrap_read_dtc s req res res_l now = service_read_dtc s req res res_l"
definition wrap_read_data :: "('c, 'p) UdsServiceDispatchFn" where
  "wrap_read_data s req res res_l now = service_read_data s req res res_l"
definition wrap_comm_control :: "('c, 'p) UdsServiceDispatchFn" where
  "wrap_comm_control s req res res_l now = service_communication_control s req res res_l"
definition wrap_write_data :: "('c, 'p) UdsServiceDispatchFn" where
  "wrap_write_data s req res res_l now = service_write_data s req res res_l"
definition wrap_io_control :: "('c, 'p) UdsServiceDispatchFn" where
  "wrap_io_control s req res res_l now = service_io_control s req res res_l"
definition wrap_routine_control :: "('c, 'p) UdsServiceDispatchFn" where
  "wrap_routine_control s req res res_l now = service_routine_control s req res res_l"
definition wrap_download :: "('c, 'p) UdsServiceDispatchFn" where
  "wrap_download s req res res_l now = service_download s req res res_l"
definition wrap_transfer_data :: "('c, 'p) UdsServiceDispatchFn" where
  "wrap_transfer_data s req res res_l now = service_transfer_data s req res res_l"
definition wrap_transfer_exit :: "('c, 'p) UdsServiceDispatchFn" where
  "wrap_transfer_exit s req res res_l now = service_transfer_exit s req res res_l"
definition wrap_tester_present :: "('c, 'p) UdsServiceDispatchFn" where
  "wrap_tester_present s req res res_l now = service_tester_present s req res res_l"
definition wrap_dtc_setting :: "('c, 'p) UdsServiceDispatchFn" where
  "wrap_dtc_setting s req res res_l now = service_dtc_setting s req res res_l"
definition wrap_modular_backend :: "('c, 'p) UdsServiceDispatchFn" where
  "wrap_modular_backend s req res res_l now = service_modular_backend s req res res_l"

lemmas wrap_defs =
  wrap_ecu_reset_def wrap_clear_dtc_def wrap_read_dtc_def wrap_read_data_def
  wrap_comm_control_def wrap_write_data_def wrap_io_control_def wrap_routine_control_def
  wrap_download_def wrap_transfer_data_def wrap_transfer_exit_def wrap_tester_present_def
  wrap_dtc_setting_def wrap_modular_backend_def

definition k_service_dispatch_table :: "(u8 \<times> ('c, 'p) UdsServiceDispatchFn) list" where
  "k_service_dispatch_table =
     [(0x10, service_session_control), (0x11, wrap_ecu_reset),
      (0x14, wrap_clear_dtc), (0x19, wrap_read_dtc),
      (0x22, wrap_read_data), (0x23, wrap_modular_backend),
      (0x24, wrap_modular_backend), (0x27, service_security_access),
      (0x28, wrap_comm_control), (0x29, wrap_modular_backend),
      (0x2A, wrap_modular_backend), (0x2C, wrap_modular_backend),
      (0x2E, wrap_write_data), (0x2F, wrap_io_control),
      (0x31, wrap_routine_control), (0x34, wrap_download),
      (0x35, wrap_modular_backend), (0x36, wrap_transfer_data),
      (0x37, wrap_transfer_exit), (0x38, wrap_modular_backend),
      (0x3D, wrap_modular_backend), (0x3E, wrap_tester_present),
      (0x83, wrap_modular_backend), (0x84, wrap_modular_backend),
      (0x85, wrap_dtc_setting), (0x86, wrap_modular_backend),
      (0x87, wrap_modular_backend)]"

text \<open>The NRC the attribute of the service gives the request, 0 for none.\<close>

definition check_service_attributes :: "('c, 'p) UdsServer \<Rightarrow> bytes \<Rightarrow> UdsAddressMode \<Rightarrow> u8 option" where
  "check_service_attributes server request address_mode = do {
     service \<leftarrow> peek request 0;
     subservice \<leftarrow> (if request_len request > 1
                   then map_option (\<lambda>r1. r1 AND 0x7F) (peek request 1)
                   else Some UDS_SERVICE_ANY_SUBFUNCTION);
     let att = uds_service_attribute service subservice;
     Some (if att_sid att \<noteq> 0 then
             (if att_address_mode att \<noteq> UDS_ADDRESS_MODE_BOTH \<and>
                 att_address_mode att AND address_code address_mode = 0
              then UDS_NRC_SERVICE_NOT_SUPPORTED_IN_ACTIVE_SESSION
              else if att_session_mask att AND session_mask (session server) = 0
              then UDS_NRC_SERVICE_NOT_SUPPORTED_IN_ACTIVE_SESSION
              else if att_security_mask att \<noteq> UDS_SECURITY_MASK_NONE \<and>
                 att_security_mask att AND
                   ucast (push_bit (unat (active_level (security_gate server))) (1 :: u32)) = 0
              then UDS_NRC_SECURITY_ACCESS_DENIED
              else 0)
           else 0)
   }"

definition uds_server_handle_addressed ::
  "('c, 'p) UdsServer \<Rightarrow> bytes \<Rightarrow> bytes \<Rightarrow> u16 \<Rightarrow> UdsAddressMode \<Rightarrow> u32 \<Rightarrow> ('c, 'p) service_result" where
  "uds_server_handle_addressed server request response rlen address_mode now =
     (if capacity response = 0 \<or> request_len request = 0 \<or>
         request_len request > of_nat UDS_MAX_REQUEST_LENGTH
      then Some (UDS_RESULT_ERROR, server, response, rlen)
      else do {
        let server = server\<lparr> current_address_mode := address_mode \<rparr>;
        nrc \<leftarrow> check_service_attributes server request address_mode;
        (if nrc \<noteq> 0 then negative_response server request nrc response rlen
         else do {
           let rlen = 0;
           let server = server\<lparr> last_activity_ms := now \<rparr>;
           service \<leftarrow> peek request 0;
           (case map_of k_service_dispatch_table service of
              Some handler \<Rightarrow> handler server request response rlen now
            | None \<Rightarrow> negative_response server request UDS_NRC_SERVICE_NOT_SUPPORTED response rlen)
         })
      })"

definition uds_server_handle ::
  "('c, 'p) UdsServer \<Rightarrow> bytes \<Rightarrow> bytes \<Rightarrow> u16 \<Rightarrow> u32 \<Rightarrow> ('c, 'p) service_result" where
  "uds_server_handle server request response rlen now =
     uds_server_handle_addressed server request response rlen UDS_ADDRESS_PHYSICAL now"

section \<open>Timers and the reset handshake\<close>

definition uds_server_clear_reset :: "('c, 'p) UdsServer \<Rightarrow> ('c, 'p) UdsServer" where
  "uds_server_clear_reset server = server\<lparr> reset_pending := False, reset_ready := False,
     pending_reset_reason := UDS_RESET_NORMAL, pending_reset_subfunction := 0 \<rparr>"

definition uds_server_tick :: "('c, 'p) UdsServer \<Rightarrow> u32 \<Rightarrow> UdsCallbackResult \<times> ('c, 'p) UdsServer" where
  "uds_server_tick server now =
     (let server = security_tick server now in
      if reset_pending server \<and> reset_ready server then
        let sub = pending_reset_subfunction server;
            server = server\<lparr> reset_pending := False, reset_ready := False,
                             pending_reset_reason := UDS_RESET_NORMAL, pending_reset_subfunction := 0 \<rparr>;
            server = (case cb_ecu_reset_execute (callbacks server) of
                        Some execute \<Rightarrow> server\<lparr> srv_context := execute (srv_context server) sub \<rparr>
                      | None \<Rightarrow> server) in
        (UDS_RESULT_OK, server)
      else if now - last_activity_ms server \<ge> s3_server_timeout_ms server then
        let server = security_reset_for_session_change (server\<lparr> session := UDS_SESSION_DEFAULT \<rparr>);
            server = server\<lparr> download_active := False, next_download_block := 1,
                             last_activity_ms := now \<rparr> in
        (UDS_RESULT_BUSY, server)
      else (UDS_RESULT_OK, server))"

definition uds_server_set_timing ::
  "('c, 'p) UdsServer \<Rightarrow> u32 \<Rightarrow> u32 \<Rightarrow> u32 \<Rightarrow> u32 \<Rightarrow> u8 \<Rightarrow> ('c, 'p) UdsServer" where
  "uds_server_set_timing server s3 initial_delay lockout seed_timeout attempts =
     server\<lparr> s3_server_timeout_ms := s3,
             security_gate := uds_security_gate_set_timing (security_gate server) 0 lockout
               seed_timeout attempts (last_activity_ms server) \<rparr>"

definition uds_server_set_security_persistence ::
  "('c, 'p) UdsServer \<Rightarrow> 'p UdsSecurityStateSaveFn option \<Rightarrow> 'p option \<Rightarrow> ('c, 'p) UdsServer" where
  "uds_server_set_security_persistence server save ctx =
     server\<lparr> security_gate := uds_security_gate_set_persistence (security_gate server) save ctx \<rparr>"

definition uds_server_restore_security_state ::
  "('c, 'p) UdsServer \<Rightarrow> u8 \<Rightarrow> u32 \<Rightarrow> u32 \<Rightarrow> ('c, 'p) UdsServer" where
  "uds_server_restore_security_state server attempts remaining now =
     server\<lparr> security_gate := uds_security_gate_restore_state (security_gate server) attempts remaining now \<rparr>"

definition uds_server_reset_pending :: "('c, 'p) UdsServer \<Rightarrow> bool" where
  "uds_server_reset_pending server = reset_pending server"

definition uds_server_complete_reset ::
  "('c, 'p) UdsServer \<Rightarrow> UdsCallbackResult \<times> ('c, 'p) UdsServer" where
  "uds_server_complete_reset server =
     (if \<not> reset_pending server then (UDS_RESULT_SEQUENCE_ERROR, server)
      else case cb_ecu_reset_execute (callbacks server) of
        None \<Rightarrow> (UDS_RESULT_NOT_SUPPORTED, server)
      | Some execute \<Rightarrow> (UDS_RESULT_OK, server\<lparr> reset_ready := True \<rparr>))"

definition uds_server_session :: "('c, 'p) UdsServer \<Rightarrow> u8" where
  "uds_server_session server = session server"

definition uds_server_security_state :: "('c, 'p) UdsServer \<Rightarrow> UdsSecurityState" where
  "uds_server_security_state server = gate_state (security_gate server)"

definition uds_server_security_level :: "('c, 'p) UdsServer \<Rightarrow> u8" where
  "uds_server_security_level server = active_level (security_gate server)"

definition uds_server_security_failed_attempts :: "('c, 'p) UdsServer \<Rightarrow> u8" where
  "uds_server_security_failed_attempts server = failed_attempts (security_gate server)"

definition uds_server_security_seed_valid :: "('c, 'p) UdsServer \<Rightarrow> bool" where
  "uds_server_security_seed_valid server = seed_valid (security_gate server)"

end
