(* ===== verification/Uds_Safety.thy ===== *)
theory Uds_Safety
  imports Uds_Server
begin

text \<open>
  What one request does to the UDS server: every handler of \<open>library/src/uds.c\<close> stays inside the
  request and the response buffer, answers in the format of the protocol and changes only its own
  part of the state. The contract \<open>callbacks_ok\<close> is what the callbacks of the application owe, the
  invariant \<open>srv_inv\<close> what the server keeps.
\<close>

declare poke_list.simps [simp del]

section \<open>The contract of the callbacks\<close>

text \<open>A callback that fills the response writes at most the room it was given.\<close>

definition fills :: "u16 \<Rightarrow> UdsCallbackResult \<times> bytes \<times> u16 \<times> 'c \<Rightarrow> bool" where
  "fills room out = (case out of (result, written, reported, ctx) \<Rightarrow> length written \<le> unat room)"

definition modular_ok :: "'c UdsServiceHandlerFn \<Rightarrow> bool" where
  "modular_ok h \<longleftrightarrow> (\<forall>ctx request response rlen. case h ctx request response rlen of
     (result, response', rlen', ctx') \<Rightarrow> length response' = length response \<and>
       (result = UDS_RESULT_OK \<longrightarrow> 1 \<le> unat rlen' \<and> response' ! 0 = request ! 0 + 0x40))"

definition callbacks_ok :: "'c UdsCallbacks \<Rightarrow> bool" where
  "callbacks_ok c \<longleftrightarrow>
     (\<forall>f. cb_read_did c = Some f \<longrightarrow> (\<forall>ctx did room. fills room (f ctx did room))) \<and>
     (\<forall>f. cb_read_dtc c = Some f \<longrightarrow> (\<forall>ctx sub request room. fills room (f ctx sub request room))) \<and>
     (\<forall>b f. cb_dtc_backend c = Some b \<longrightarrow> report b = Some f \<longrightarrow>
        (\<forall>ctx sub request room. fills room (f ctx sub request room))) \<and>
     (\<forall>f. cb_security_seed c = Some f \<longrightarrow> (\<forall>ctx level room. fills room (f ctx level room) \<and>
        unat (fst (snd (snd (f ctx level room)))) < 65534)) \<and>
     (\<forall>f. cb_io_control c = Some f \<longrightarrow> (\<forall>ctx did data room. fills room (f ctx did data room))) \<and>
     (\<forall>f. cb_routine_control c = Some f \<longrightarrow>
        (\<forall>ctx sub rid data room. fills room (f ctx sub rid data room))) \<and>
     (\<forall>f. cb_request_transfer_exit c = Some f \<longrightarrow> (\<forall>ctx data room. fills room (f ctx data room) \<and>
        unat (fst (snd (snd (f ctx data room)))) \<le> unat room)) \<and>
     (\<forall>sid h. uds_service_backends_handler (cb_service_backends c) sid = Some h \<longrightarrow> modular_ok h)"

section \<open>Answers\<close>

text \<open>
  The format of an answer of \<open>rlen\<close> bytes: a negative response with the service identifier, whose
  code is not one of those a functionally addressed request leaves unanswered, or a positive
  response whose first byte is the service identifier plus 0x40.
\<close>

definition answer_ok :: "UdsAddressMode \<Rightarrow> bytes \<Rightarrow> bytes \<Rightarrow> u16 \<Rightarrow> bool" where
  "answer_ok mode request response rlen \<longleftrightarrow> unat rlen \<le> length response \<and>
     (rlen = 3 \<and> response ! 0 = 0x7F \<and> response ! 1 = request ! 0 \<and>
        (mode = UDS_ADDRESS_FUNCTIONAL \<longrightarrow> \<not> nrc_suppressed_on_functional (response ! 2)) \<or>
      1 \<le> unat rlen \<and> response ! 0 = request ! 0 + 0x40)"

definition answered ::
  "bytes \<Rightarrow> nat \<Rightarrow> (('c, 'p) UdsServer \<Rightarrow> bool) \<Rightarrow> UdsCallbackResult \<times> ('c, 'p) UdsServer \<times> bytes \<times> u16 \<Rightarrow> bool" where
  "answered request n Q out = (case out of (result, server, response, rlen) \<Rightarrow>
     Q server \<and> length response = n \<and>
     (result = UDS_RESULT_OK \<longrightarrow> answer_ok (current_address_mode server) request response rlen))"

lemma answered_simp [simp]:
  "answered request n Q (result, server, response, rlen) \<longleftrightarrow>
     Q server \<and> length response = n \<and> (result = UDS_RESULT_OK \<longrightarrow> answer_ok (current_address_mode server) request response rlen)"
  by (simp add: answered_def)

text \<open>Lengths and capacities as 16-bit words.\<close>

named_theorems len_simps \<open>comparisons of a length with a 16-bit word\<close>

lemma len_cmp [len_simps]:
  assumes "length xs < 65536"
  shows "(of_nat (length xs) :: u16) = w \<longleftrightarrow> length xs = unat w"
    "(of_nat (length xs) :: u16) < w \<longleftrightarrow> length xs < unat w"
    "(of_nat (length xs) :: u16) \<le> w \<longleftrightarrow> length xs \<le> unat w"
    "w < (of_nat (length xs) :: u16) \<longleftrightarrow> unat w < length xs"
    "w \<le> (of_nat (length xs) :: u16) \<longleftrightarrow> unat w \<le> length xs"
    "unat (of_nat (length xs) :: u16) = length xs"
  using assms by (auto simp: word_less_nat_alt word_le_nat_alt word_unat_eq_iff unat_of_nat_16)

lemma len_room [len_simps]:
  assumes "length xs < 65536" "unat w \<le> length xs"
  shows "unat ((of_nat (length xs) :: u16) - w) = length xs - unat w"
proof -
  have "w \<le> of_nat (length xs)" using assms by (simp add: len_cmp)
  then show ?thesis using assms(1) by (simp add: unat_sub_16 unat_of_nat_16)
qed

lemma unat_add_room:
  assumes "length xs < 65536" "unat r \<le> length xs" "\<not> (of_nat (length xs) :: u16) - r < e"
  shows "unat (r + e) = unat r + unat e" "unat r + unat e \<le> length xs"
proof -
  show le: "unat r + unat e \<le> length xs" using assms by (simp add: word_less_nat_alt len_simps)
  show "unat (r + e) = unat r + unat e" using le assms(1) by (simp add: unat_add_16)
qed

lemma wp_negative [wp_simps]:
  assumes "request \<noteq> []" "length response < 65536" "length response = n"
  shows "wp (negative_response s request nrc response rlen) (answered request n Q) \<longleftrightarrow> Q s"
  using assms
  by (auto simp: negative_response_def wp_simps len_simps answer_ok_def nth_append not_less)

lemma wp_callback [wp_simps]:
  assumes "request \<noteq> []" "length response < 65536" "length response = n" "result \<noteq> UDS_RESULT_OK"
  shows "wp (callback_result s result request response rlen) (answered request n Q) \<longleftrightarrow> Q s"
  using assms by (auto simp: callback_result_def wp_simps)

section \<open>Handlers\<close>

text \<open>The server after a call that changed at most the context of the application.\<close>

definition same_but_context :: "('c, 'p) UdsServer \<Rightarrow> ('c, 'p) UdsServer \<Rightarrow> bool" where
  "same_but_context s s' \<longleftrightarrow> (\<exists>c. s' = s\<lparr> srv_context := c \<rparr>)"

lemma same_but_context_refl [simp]: "same_but_context s s"
  unfolding same_but_context_def by (rule exI[of _ "srv_context s"]) simp

lemma same_but_context_upd [simp]: "same_but_context s (s\<lparr> srv_context := c \<rparr>)"
  by (auto simp: same_but_context_def)

lemma same_but_context_commute [simp]:
  "same_but_context (s\<lparr> dtc_setting_enabled := d \<rparr>) (s\<lparr> srv_context := c, dtc_setting_enabled := d \<rparr>)"
  "same_but_context (s\<lparr> dtc_setting_enabled := dtc_setting_enabled s \<rparr>) (s\<lparr> srv_context := c \<rparr>)"
  "same_but_context (s\<lparr> next_download_block := b \<rparr>) (s\<lparr> srv_context := c, next_download_block := b \<rparr>)"
  "same_but_context (s\<lparr> next_download_block := next_download_block s \<rparr>) (s\<lparr> srv_context := c \<rparr>)"
  "same_but_context (s\<lparr> download_active := a \<rparr>) (s\<lparr> srv_context := c, download_active := a \<rparr>)"
  "same_but_context (s\<lparr> download_active := download_active s \<rparr>) (s\<lparr> srv_context := c \<rparr>)"
  unfolding same_but_context_def by (cases s; simp)+

lemma same_but_context_fields:
  assumes "same_but_context s s'"
  shows "callbacks s' = callbacks s" "session s' = session s" "security_gate s' = security_gate s"
    "download_active s' = download_active s" "max_download_block_length s' = max_download_block_length s"
    "next_download_block s' = next_download_block s" "reset_pending s' = reset_pending s"
    "reset_ready s' = reset_ready s" "dtc_setting_enabled s' = dtc_setting_enabled s"
    "last_activity_ms s' = last_activity_ms s" "current_address_mode s' = current_address_mode s"
  using assms by (auto simp: same_but_context_def)

lemma wp_read_u16 [wp_simps]:
  "wp (read_u16 data i) Q \<longleftrightarrow> Suc i < length data \<and> Q (push_bit 8 (ucast (data ! i)) OR ucast (data ! Suc i))"
  by (auto simp: read_u16_def wp_simps)

lemmas wp_handler = wp_simps len_simps answer_ok_def nth_append not_less Suc_le_eq

lemma wp_tester_present:
  assumes "request ! 0 = 0x3E" "request \<noteq> []" "length request < 65536" "length response < 65536"
  shows "wp (service_tester_present s request response rlen)
    (answered request (length response) (\<lambda>s'. s' = s))"
  using assms by (auto simp: service_tester_present_def wp_handler Let_def)

lemma wp_dtc_setting:
  assumes "request ! 0 = 0x85" "request \<noteq> []" "length request < 65536" "length response < 65536"
  shows "wp (service_dtc_setting s request response rlen)
    (answered request (length response) (\<lambda>s'. same_but_context (s\<lparr> dtc_setting_enabled := dtc_setting_enabled s' \<rparr>) s'))"
  using assms by (auto simp: service_dtc_setting_def wp_handler Let_def split: option.splits prod.splits)

lemma wp_communication_control:
  assumes "request ! 0 = 0x28" "request \<noteq> []" "length request < 65536" "length response < 65536"
  shows "wp (service_communication_control s request response rlen)
    (answered request (length response) (same_but_context s))"
  using assms by (auto simp: service_communication_control_def wp_handler Let_def split: option.splits prod.splits)

lemma wp_write_data:
  assumes "request ! 0 = 0x2E" "request \<noteq> []" "length request < 65536" "length response < 65536"
  shows "wp (service_write_data s request response rlen)
    (answered request (length response) (same_but_context s))"
  using assms by (auto simp: service_write_data_def wp_handler Let_def split: option.splits prod.splits)

lemma wp_read_be_u32:
  "i + unat len \<le> length data \<Longrightarrow> (\<And>v. Q v) \<Longrightarrow> wp (read_be_u32 data i len) Q"
  using read_be_u32_safe[of i len data] by (auto simp: wp_def)

lemma wp_clear_dtc:
  assumes "request ! 0 = 0x14" "request \<noteq> []" "length request < 65536" "length response < 65536"
  shows "wp (service_clear_dtc s request response rlen)
    (answered request (length response) (same_but_context s))"
  using assms by (auto simp: service_clear_dtc_def wp_handler Let_def split: option.splits prod.splits
      intro!: wp_read_be_u32)

lemma wp_ecu_reset:
  assumes "request ! 0 = 0x11" "request \<noteq> []" "length request < 65536" "length response < 65536"
  shows "wp (service_ecu_reset s request response rlen)
    (answered request (length response) (\<lambda>s'. same_but_context s s' \<or>
       (\<exists>c sub. s' = mark_reset (s\<lparr> srv_context := c \<rparr>) sub)))"
  using assms by (auto simp: service_ecu_reset_def wp_handler Let_def split: option.splits prod.splits)

lemma request_session_ok:
  assumes "uds_server_request_session s requested now = (UDS_RESULT_OK, s')"
  shows "uds_session_transition_allowed (session s) requested = UDS_SESSION_TRANSITION_ALLOWED"
    "session s' = requested" "callbacks s' = callbacks s" "\<not> download_active s'"
    "security_gate s' = uds_security_gate_reset_session (uds_security_gate_tick (security_gate s) now)"
    "reset_ready s' = reset_ready s" "reset_pending s \<longrightarrow> reset_pending s'"
    "srv_context s' = srv_context s"
  using assms
  by (auto simp: uds_server_request_session_def Let_def security_tick_def
      security_reset_for_session_change_def split: if_splits)

lemma request_session_fail:
  "uds_server_request_session s requested now = (result, s') \<Longrightarrow> result \<noteq> UDS_RESULT_OK \<Longrightarrow> s' = s"
  by (auto simp: uds_server_request_session_def Let_def split: if_splits)

lemma wp_session_control:
  assumes "request ! 0 = 0x10" "request \<noteq> []" "length request < 65536" "length response < 65536"
  shows "wp (service_session_control s request response rlen now)
    (answered request (length response) (\<lambda>s'. s' = s \<or>
       uds_server_request_session s (request ! 1 AND 0x7F) now = (UDS_RESULT_OK, s')))"
  using assms by (auto simp: service_session_control_def wp_handler Let_def request_session_fail split: prod.splits)

lemma wp_download:
  assumes "request ! 0 = 0x34" "request \<noteq> []" "length request < 65536" "length response < 65536"
  shows "wp (service_download s request response rlen)
    (answered request (length response) (\<lambda>s'. same_but_context s s' \<or>
       (\<exists>c m. 3 \<le> m \<and> s' = s\<lparr> srv_context := c, download_active := True, next_download_block := 1,
                              max_download_block_length := m \<rparr>)))"
proof -
  have a: "unat (request ! 2 AND 0x0F) < 16" "unat (drop_bit 4 (request ! 2)) < 16"
    using unat_u8_lt[of "request ! 2"] by (simp_all add: unat_and_15 unat_drop_4 less_mult_imp_div_less)
  have len: "unat (3 + ucast (request ! 2 AND 0x0F) + ucast (drop_bit 4 (request ! 2)) :: u16) =
      3 + unat (request ! 2 AND 0x0F) + unat (drop_bit 4 (request ! 2))"
    using a by (simp add: unat_add_16)
  show ?thesis
    using assms len a
    by (auto simp: service_download_def wp_handler Let_def split: option.splits prod.splits
        intro!: wp_read_be_u32)
qed

lemma wp_transfer_data:
  assumes "request ! 0 = 0x36" "request \<noteq> []" "length request < 65536" "length response < 65536"
  shows "wp (service_transfer_data s request response rlen)
    (answered request (length response) (\<lambda>s'.
       same_but_context (s\<lparr> next_download_block := next_download_block s' \<rparr>) s'))"
  using assms by (auto simp: service_transfer_data_def wp_handler Let_def split: option.splits prod.splits)

text \<open>A callback that keeps its contract writes inside the response from its offset on.\<close>

lemma poke_written:
  assumes "fills room (result, written, reported, ctx)" "unat room = length xs - i"
  obtains ys where "poke_list xs i written = Some ys" "length ys = length xs"
    "take i ys = take i xs"
proof (cases "written = []")
  case True
  then show ?thesis using that[of xs] by (simp add: poke_list_eq)
next
  case False
  then have "i + length written \<le> length xs" using assms by (cases "i \<le> length xs") (auto simp: fills_def)
  then show ?thesis
    using that[of "take i xs @ written @ drop (i + length written) xs"] by (simp add: poke_list_eq)
qed

lemma wp_transfer_exit:
  assumes "request ! 0 = 0x37" "request \<noteq> []" "length request < 65536" "length response < 65536"
    and "callbacks_ok (callbacks s)" "response \<noteq> []"
  shows "wp (service_transfer_exit s request response rlen)
    (answered request (length response) (\<lambda>s'. same_but_context s s' \<or>
       same_but_context (s\<lparr> download_active := False \<rparr>) s'))"
proof (cases "cb_request_transfer_exit (callbacks s)")
  case None
  with assms show ?thesis by (auto simp: service_transfer_exit_def wp_handler)
next
  case (Some f)
  define room :: u16 where "room = (if capacity response > 1 then capacity response - 1 else 0)"
  obtain result written reported ctx where out: "f (srv_context s) (drop 1 request) room =
    (result, written, reported, ctx)" by (metis prod.exhaust)
  have c: "fills room (f (srv_context s) (drop 1 request) room)"
    "unat (fst (snd (snd (f (srv_context s) (drop 1 request) room)))) \<le> unat room"
    using assms(5) Some by (auto simp: callbacks_ok_def)
  have room: "unat room = length response - 1"
    using assms(4,6) by (auto simp: room_def len_simps not_less)
  obtain ys where ys: "poke_list response 1 written = Some ys" "length ys = length response"
    using poke_written[OF c(1)[unfolded out] room] .
  have "unat reported < length response" using c(2) room out assms(6) by (cases response) auto
  moreover from this have "unat (reported + 1) = unat reported + 1" using assms(4) by (simp add: unat_add_16)
  moreover have "0 < length ys" using ys assms(6) by simp
  ultimately show ?thesis
    unfolding service_transfer_exit_def Some option.case room_def[symmetric] out prod.case ys(1)
    using assms ys(2) by (auto simp: wp_handler Let_def)
qed

text \<open>The tail shared by the handlers whose callback fills the response from offset \<open>i\<close> on.\<close>

lemma wp_filled:
  assumes "fills room (result, written, extra, ctx)" "unat room = length xs - i" "i \<le> length xs"
    and "0 < i" "xs ! 0 = request ! 0 + 0x40" "unat off = i"
    and "request \<noteq> []" "length xs < 65536" "length xs = n" "same_but_context s s'"
  shows "wp (do { ys \<leftarrow> poke_list xs i written;
           (if result \<noteq> UDS_RESULT_OK then callback_result s' result request ys off
            else if capacity ys - off < extra
            then negative_response s' request UDS_NRC_RESPONSE_TOO_LONG ys off
            else Some (UDS_RESULT_OK, s', ys, off + extra)) })
     (answered request n (same_but_context s))"
proof -
  obtain ys where ys: "poke_list xs i written = Some ys" "length ys = length xs" "take i ys = take i xs"
    using poke_written[OF assms(1,2)] .
  have "ys ! 0 = xs ! 0" using ys(3) assms(4) by (metis nth_take)
  then show ?thesis
    using assms ys(1,2) unat_add_room[of ys off extra] by (auto simp: wp_handler)
qed

text \<open>As the code writes it for a positive suppress bit.\<close>

lemma wp_filled_suppress:
  assumes "fills room (result, written, extra, ctx)" "unat room = length xs - i" "i \<le> length xs"
    and "0 < i" "xs ! 0 = request ! 0 + 0x40" "unat off = i"
    and "request \<noteq> []" "length xs < 65536" "length xs = n" "same_but_context s s'"
  shows "wp (do { ys \<leftarrow> poke_list xs i written;
           (if result \<noteq> UDS_RESULT_OK then callback_result s' result request ys off
            else if suppress then Some (UDS_RESULT_NO_RESPONSE, s', ys, off)
            else if capacity ys - off < extra
            then negative_response s' request UDS_NRC_RESPONSE_TOO_LONG ys off
            else Some (UDS_RESULT_OK, s', ys, off + extra)) })
     (answered request n (same_but_context s))"
proof (cases suppress)
  case True
  obtain ys where "poke_list xs i written = Some ys" "length ys = length xs" "take i ys = take i xs"
    using poke_written[OF assms(1,2)] .
  with True assms show ?thesis by (auto simp: wp_handler)
next
  case False
  show ?thesis unfolding if_not_P[OF False] by (rule wp_filled[OF assms])
qed

lemma poke_header:
  assumes "i + length vs \<le> length xs" "vs \<noteq> []"
  obtains ys where "poke_list xs i vs = Some ys" "length ys = length xs" "take i ys = take i xs"
    "ys ! i = hd vs"
  using that[of "take i xs @ vs @ drop (i + length vs) xs"] assms
  by (cases vs) (auto simp: poke_list_eq nth_append)

lemma wp_io_control:
  assumes "request ! 0 = 0x2F" "request \<noteq> []" "length request < 65536" "length response < 65536"
    and "callbacks_ok (callbacks s)" "3 \<le> length response"
  shows "wp (service_io_control s request response rlen)
    (answered request (length response) (same_but_context s))"
proof (cases "cb_io_control (callbacks s) = None \<or> length request < 4")
  case True
  with assms show ?thesis by (auto simp: service_io_control_def wp_handler split: option.splits)
next
  case False
  then obtain f where f: "cb_io_control (callbacks s) = Some f" and len: "4 \<le> length request" by auto
  have guard: "\<not> request_len request < 4" using len assms(3) by (simp add: len_simps)
  obtain did where did: "read_u16 request 1 = Some did" using read_u16_safe[of 1 request] len by auto
  have peek: "peek request 1 = Some (request ! 1)" "peek request 2 = Some (request ! 2)"
    using len by (simp_all add: mem_simps)
  obtain xs where xs: "poke_list response 0 [0x6F, request ! 1, request ! 2] = Some xs"
    "length xs = length response" "xs ! 0 = 0x6F"
    using poke_header[of 0 "[0x6F, request ! 1, request ! 2]" response] assms(6) by auto
  define room :: u16 where "room = (if capacity xs > 3 then capacity xs - 3 else 0)"
  have room: "unat room = length response - 3" using assms(4,6) xs(2) by (auto simp: room_def len_simps not_less)
  obtain result written extra ctx where out:
    "f (srv_context s) did (drop 3 request) room = (result, written, extra, ctx)" by (metis prod.exhaust)
  have "fills room (result, written, extra, ctx)"
    using assms(5) f out[symmetric] by (auto simp: callbacks_ok_def)
  then show ?thesis
    unfolding service_io_control_def f option.case if_not_P[OF guard] did peek bind.bind_lunit Let_def
      xs(1) room_def[symmetric] out prod.case
    by (intro wp_filled) (use assms room xs in auto)
qed

lemma wp_routine_control:
  assumes "request ! 0 = 0x31" "request \<noteq> []" "length request < 65536" "length response < 65536"
    and "callbacks_ok (callbacks s)" "4 \<le> length response"
  shows "wp (service_routine_control s request response rlen)
    (answered request (length response) (same_but_context s))"
proof (cases "cb_routine_control (callbacks s) = None \<or> length request < 4")
  case True
  with assms show ?thesis by (auto simp: service_routine_control_def wp_handler split: option.splits)
next
  case False
  then obtain f where f: "cb_routine_control (callbacks s) = Some f" and len: "4 \<le> length request" by auto
  have guard: "\<not> request_len request < 4" using len assms(3) by (simp add: len_simps)
  obtain rid where rid: "read_u16 request 2 = Some rid" using read_u16_safe[of 2 request] len by auto
  have peek: "peek request 1 = Some (request ! 1)" "peek request 2 = Some (request ! 2)"
    "peek request 3 = Some (request ! 3)"
    using len by (simp_all add: mem_simps)
  define sub where "sub = request ! 1 AND 0x7F"
  obtain xs where xs: "poke_list response 0 [0x71, sub, request ! 2, request ! 3] = Some xs"
    "length xs = length response" "xs ! 0 = 0x71"
    using poke_header[of 0 "[0x71, sub, request ! 2, request ! 3]" response] assms(6) by auto
  define room :: u16 where "room = (if capacity xs > 4 then capacity xs - 4 else 0)"
  have room: "unat room = length response - 4" using assms(4,6) xs(2) by (auto simp: room_def len_simps not_less)
  obtain result written extra ctx where out:
    "f (srv_context s) sub rid (drop 4 request) room = (result, written, extra, ctx)" by (metis prod.exhaust)
  have "fills room (result, written, extra, ctx)"
    using assms(5) f out[symmetric] by (auto simp: callbacks_ok_def)
  then show ?thesis
    unfolding service_routine_control_def f option.case if_not_P[OF guard] rid peek bind.bind_lunit Let_def
      sub_def[symmetric] xs(1) room_def[symmetric] out prod.case
    by (intro wp_filled_suppress) (use assms room xs in auto)
qed

lemma wp_read_dtc:
  assumes "request ! 0 = 0x19" "request \<noteq> []" "length request < 65536" "length response < 65536"
    and "callbacks_ok (callbacks s)" "response \<noteq> []"
  shows "wp (service_read_dtc s request response rlen)
    (answered request (length response) (same_but_context s))"
proof -
  have fin: "wp ((case fn (srv_context s) sub request (capacity response - 1) of
      (result, written, extra, ctx) \<Rightarrow> do {
        ys \<leftarrow> poke_list xs (Suc 0) written;
        (if result \<noteq> UDS_RESULT_OK then callback_result (s\<lparr> srv_context := ctx \<rparr>) result request ys 1
         else if capacity ys - 1 < extra
         then negative_response (s\<lparr> srv_context := ctx \<rparr>) request UDS_NRC_RESPONSE_TOO_LONG ys 1
         else Some (UDS_RESULT_OK, s\<lparr> srv_context := ctx \<rparr>, ys, 1 + extra)) }))
    (answered request (length response) (same_but_context s))"
    if xs: "length xs = length response" "xs ! 0 = 0x59"
      and fn: "\<forall>ctx sub request room. fills room (fn ctx sub request room)" for fn sub xs
  proof -
    obtain result written extra ctx where out: "fn (srv_context s) sub request (capacity response - 1) =
        (result, written, extra, ctx)" by (metis prod.exhaust)
    have "unat (capacity response - 1) = length xs - Suc 0"
      using assms(4,6) xs(1) len_room[of response 1] by (cases response) auto
    moreover have "fills (capacity response - 1) (result, written, extra, ctx)"
      using fn unfolding out[symmetric] by blast
    moreover have "Suc 0 \<le> length xs" using assms(6) xs(1) by (cases xs) auto
    ultimately show ?thesis unfolding out prod.case
      by (intro wp_filled) (use assms xs in auto)
  qed
  have fns: "cb_dtc_backend (callbacks s) = Some b \<Longrightarrow> report b = Some fn \<Longrightarrow>
      \<forall>ctx sub request room. fills room (fn ctx sub request room)"
    "cb_read_dtc (callbacks s) = Some fn \<Longrightarrow> \<forall>ctx sub request room. fills room (fn ctx sub request room)"
    for b fn
    using assms(5) by (auto simp: callbacks_ok_def)
  have "1 \<le> length response" using assms(6) by (cases response) auto
  then obtain xs where xs: "poke_list response 0 [0x59] = Some xs" "length xs = length response" "xs ! 0 = 0x59"
    using poke_header[of 0 "[0x59]" response] by auto
  note simps = service_read_dtc_def wp_simps len_simps Let_def
  consider (b) b fn where "cb_dtc_backend (callbacks s) = Some b" "report b = Some fn"
    | (r) fn where "cb_dtc_backend (callbacks s) = None" "cb_read_dtc (callbacks s) = Some fn"
    | (n) b where "cb_dtc_backend (callbacks s) = Some b" "report b = None"
    | (m) "cb_dtc_backend (callbacks s) = None" "cb_read_dtc (callbacks s) = None"
    by (meson not_None_eq)
  then show ?thesis
  proof cases
    case b
    show ?thesis using b assms xs fin[OF xs(2,3) fns(1)[OF b]] by (simp add: simps)
  next
    case r
    show ?thesis using r assms xs fin[OF xs(2,3) fns(2)[OF r(2)]] by (simp add: simps)
  next
    case n
    with assms xs show ?thesis by (simp add: simps)
  next
    case m
    with assms xs show ?thesis by (simp add: simps)
  qed
qed

text \<open>
  The loop over the identifiers: when it is entered with \<open>rlen\<close> bytes in the response, the first of
  them 0x62, the answer is well formed.
\<close>

lemma wp_read_data_loop:
  assumes "request \<noteq> []" "request ! 0 = 0x22" "\<And>ctx did room. fills room (read ctx did room)"
  shows "even (length dids) \<Longrightarrow> 1 \<le> unat rlen \<Longrightarrow> unat rlen \<le> length response \<Longrightarrow>
    length response < 65536 \<Longrightarrow> response ! 0 = 0x62 \<Longrightarrow> same_but_context s s0 \<Longrightarrow>
    wp (read_data_loop read s0 request dids response rlen)
      (answered request (length response) (same_but_context s))"
proof (induction dids arbitrary: s0 response rlen rule: induct_list012)
  case 1
  with assms show ?case by (simp add: wp_handler)
next
  case (2 hi)
  then show ?case by simp
next
  case (3 hi lo rest)
  note prems = "3.prems"
  show ?case
  proof (cases "capacity response - rlen < 2")
    case True
    then show ?thesis using prems assms by (simp add: wp_handler)
  next
    case False
    note r2 = unat_add_room[OF prems(4,3) False]
    define did :: u16 where "did = push_bit 8 (ucast hi) OR ucast lo"
    obtain xs where xs: "poke_list response (unat rlen) [hi, lo] = Some xs" "length xs = length response"
      "take (unat rlen) xs = take (unat rlen) response"
      using poke_header[of "unat rlen" "[hi, lo]" response] r2 by auto
    have x0: "xs ! 0 = 0x62" using xs(3) prems(2,5) by (metis nth_take less_le_trans zero_less_one)
    have room: "unat (capacity xs - (rlen + 2)) = length xs - unat (rlen + 2)"
      using r2 xs(2) prems(4) len_room[of xs "rlen + 2"] by simp
    obtain result written vlen ctx where out: "read (srv_context s0) did (capacity xs - (rlen + 2)) =
      (result, written, vlen, ctx)" by (metis prod.exhaust)
    obtain ys where ys: "poke_list xs (unat (rlen + 2)) written = Some ys" "length ys = length xs"
      "take (unat (rlen + 2)) ys = take (unat (rlen + 2)) xs"
      using poke_written[OF assms(3)[of "capacity xs - (rlen + 2)" "srv_context s0" did, unfolded out] room] .
    have "0 < unat (rlen + 2)" using r2 by simp
    then have y0: "ys ! 0 = 0x62" using ys(3) x0 by (metis nth_take)
    let ?s = "s0\<lparr> srv_context := ctx \<rparr>"
    have same: "same_but_context s ?s" using prems(6) by (auto simp: same_but_context_def)
    have eq: "read_data_loop read s0 request (hi # lo # rest) response rlen =
      (if result \<noteq> UDS_RESULT_OK then callback_result ?s result request ys (rlen + 2)
       else if capacity ys - (rlen + 2) < vlen
       then negative_response ?s request UDS_NRC_RESPONSE_TOO_LONG ys (rlen + 2)
       else read_data_loop read ?s request rest ys (rlen + 2 + vlen))"
      unfolding read_data_loop.simps if_not_P[OF False] Let_def did_def[symmetric] xs(1) bind.bind_lunit
        out prod.case ys(1) ..
    have len: "length ys = length response" "length ys < 65536" using xs ys prems by simp_all
    show ?thesis
    proof (cases "result \<noteq> UDS_RESULT_OK \<or> capacity ys - (rlen + 2) < vlen")
      case True
      then show ?thesis using eq same len assms(1) by (auto simp: wp_simps)
    next
      case ok: False
      have "unat (rlen + 2) \<le> length ys" using r2 len by simp
      note r3 = unat_add_room[OF len(2) this, of vlen]
      have "wp (read_data_loop read ?s request rest ys (rlen + 2 + vlen))
        (answered request (length ys) (same_but_context s))"
        by (rule "3.IH"(1)) (use prems ok r2 r3 len same y0 in auto)
      with eq ok len show ?thesis by simp
    qed
  qed
qed

lemma wp_read_data:
  assumes "request ! 0 = 0x22" "request \<noteq> []" "length request < 65536" "length response < 65536"
    and "callbacks_ok (callbacks s)" "response \<noteq> []"
  shows "wp (service_read_data s request response rlen)
    (answered request (length response) (same_but_context s))"
proof (cases "cb_read_did (callbacks s) = None \<or> length request < 3 \<or> odd (length request - 1)")
  case True
  have "(request_len request - 1) mod 2 = (0 :: u16) \<longleftrightarrow> even (length request - 1)"
    using assms(2,3) len_room[of request 1]
    by (cases request) (simp_all add: word_unat_eq_iff unat_mod_distrib even_iff_mod_2_eq_zero)
  with True assms show ?thesis by (auto simp: service_read_data_def wp_handler split: option.splits)
next
  case False
  then obtain f where f: "cb_read_did (callbacks s) = Some f" by auto
  have fill: "fills room (f ctx did room)" for ctx did room
    using assms(5) f by (auto simp: callbacks_ok_def)
  have "(request_len request - 1) mod 2 = (0 :: u16) \<longleftrightarrow> even (length request - 1)"
    using assms(2,3) len_room[of request 1]
    by (cases request) (simp_all add: word_unat_eq_iff unat_mod_distrib even_iff_mod_2_eq_zero)
  with False assms(3) have guard: "\<not> (request_len request < 3 \<or> (request_len request - 1) mod 2 \<noteq> 0)"
    by (simp add: len_simps)
  have "Suc 0 \<le> length response" using assms(6) by (cases response) auto
  then obtain xs where xs: "poke_list response 0 [0x62] = Some xs" "length xs = length response" "xs ! 0 = 0x62"
    using poke_header[of 0 "[0x62]" response] by auto
  have "wp (read_data_loop f s request (drop 1 request) xs 1)
      (answered request (length xs) (same_but_context s))"
    by (rule wp_read_data_loop[OF assms(2,1) fill])
      (use False xs assms(4) \<open>Suc 0 \<le> length response\<close> in auto)
  then show ?thesis
    unfolding service_read_data_def f option.case if_not_P[OF guard] xs(1) bind.bind_lunit
    by (simp add: xs(2))
qed

lemma wp_modular_backend:
  assumes "request \<noteq> []" "length request < 65536" "length response < 65536"
    and "callbacks_ok (callbacks s)" "response \<noteq> []"
  shows "wp (service_modular_backend s request response rlen)
    (answered request (length response) (same_but_context s))"
proof -
  obtain preflight ctx where pre: "uds_service_backends_preflight (cb_service_backends (callbacks s))
      (srv_context s) (request ! 0) request = (preflight, ctx)" by fastforce
  have pk: "peek request 0 = Some (request ! 0)" using assms(1) by (simp add: mem_simps)
  show ?thesis
  proof (cases "uds_service_backends_handler (cb_service_backends (callbacks s)) (request ! 0)")
    case None
    then show ?thesis using assms pre pk by (auto simp: service_modular_backend_def wp_handler Let_def)
  next
    case (Some h)
    obtain result xs rlen' ctx' where out: "h ctx request response rlen = (result, xs, rlen', ctx')"
      by (metis prod.exhaust)
    have "modular_ok h" using assms(4) Some by (auto simp: callbacks_ok_def)
    then have "case h ctx request response rlen of (result, response', rlen', ctx') \<Rightarrow>
        length response' = length response \<and>
        (result = UDS_RESULT_OK \<longrightarrow> 1 \<le> unat rlen' \<and> response' ! 0 = request ! 0 + 0x40)"
      unfolding modular_ok_def by (elim allE)
    then have h: "length xs = length response"
      "result = UDS_RESULT_OK \<Longrightarrow> 1 \<le> unat rlen' \<and> xs ! 0 = request ! 0 + 0x40"
      by (simp_all add: out)
    have same: "same_but_context s (s\<lparr> srv_context := c, srv_context := d \<rparr>)" for c d by simp
    show ?thesis
      using assms pre pk Some out h same
      by (auto simp: service_modular_backend_def wp_handler Let_def)
  qed
qed

text \<open>
  SecurityAccess: the gate is only ticked, or hands out a seed of the requested level, or records a
  wrong key, or opens the level whose key was accepted.
\<close>

definition security_outcome :: "('c, 'p) UdsServer \<Rightarrow> bytes \<Rightarrow> u32 \<Rightarrow> ('c, 'p) UdsServer \<Rightarrow> bool" where
  "security_outcome s request now s' \<longleftrightarrow>
     same_but_context s s' \<or> same_but_context (security_tick s now) s' \<or>
     (let g = uds_security_gate_tick (security_gate s) now in
      \<not> uds_security_gate_delay_active g now \<and> security_session_allowed (session s) \<and>
      (\<exists>c g'. s' = s\<lparr> srv_context := c, security_gate := g' \<rparr> \<and>
        ((\<exists>level. uds_security_subfunction_level (request ! 1) = Some (level, True) \<and>
            g' = uds_security_gate_grant_seed g level now) \<or>
         g' = uds_security_gate_record_failure g now \<or>
         (\<exists>level key_fn. uds_security_subfunction_level (request ! 1) = Some (level, False) \<and>
            seed_valid g \<and> seed_level g = level \<and>
            cb_security_key (callbacks s) = Some key_fn \<and>
            key_fn (srv_context s) level (drop 2 request) = (UDS_RESULT_OK, c) \<and>
            g' = uds_security_gate_record_success g level))))"

lemma security_tick_fields [simp]:
  "callbacks (security_tick s now) = callbacks s" "srv_context (security_tick s now) = srv_context s"
  "session (security_tick s now) = session s"
  "security_gate (security_tick s now) = uds_security_gate_tick (security_gate s) now"
  "download_active (security_tick s now) = download_active s"
  "max_download_block_length (security_tick s now) = max_download_block_length s"
  "reset_pending (security_tick s now) = reset_pending s"
  "reset_ready (security_tick s now) = reset_ready s"
  by (simp_all add: security_tick_def)

lemma security_tick_upd:
  "(security_tick s now)\<lparr> srv_context := c, security_gate := g \<rparr> = s\<lparr> srv_context := c, security_gate := g \<rparr>"
  by (simp add: security_tick_def)

lemma wp_security_key:
  assumes "request ! 0 = 0x27" "request \<noteq> []" "length request < 65536" "length response < 65536"
    and "security_session_allowed (session s)" "t = security_tick s now"
    and "uds_security_subfunction_level (request ! 1) = Some (level, False)"
    and "\<not> security_delay_active t now" "cb_security_key (callbacks s) = Some key_fn"
  shows "wp (service_security_key key_fn t request response rlen (request ! 1) level now)
    (answered request (length response) (security_outcome s request now))"
proof -
  define g where "g = uds_security_gate_tick (security_gate s) now"
  have g: "security_gate t = g" "\<not> uds_security_gate_delay_active g now"
    using assms(6,8) by (simp_all add: g_def security_delay_active_def)
  have tick: "security_outcome s request now t" "same_but_context t u \<Longrightarrow> security_outcome s request now u" for u
    using assms(6) by (auto simp: security_outcome_def)
  have fail: "security_outcome s request now
      (t\<lparr> srv_context := c, security_gate := uds_security_gate_record_failure g now \<rparr>)" for c
    using g(2) assms(5,6) by (auto simp: security_outcome_def security_tick_upd g_def[symmetric] Let_def)
  have success: "seed_valid g \<Longrightarrow> seed_level g = level \<Longrightarrow>
      key_fn (srv_context s) level (drop 2 request) = (UDS_RESULT_OK, c) \<Longrightarrow>
      security_outcome s request now
      (t\<lparr> srv_context := c, security_gate := uds_security_gate_record_success g level \<rparr>)" for c
    using g(2) assms(5,6,7,9) by (auto simp: security_outcome_def security_tick_upd g_def[symmetric] Let_def)
  have ctx: "srv_context t = srv_context s" using assms(6) by simp
  show ?thesis
    using assms(1-4) tick fail success
    by (auto simp: service_security_key_def wp_handler Let_def g(1) ctx split: prod.splits)
qed

lemma wp_security_seed:
  assumes "request ! 0 = 0x27" "request \<noteq> []" "length request < 65536" "length response < 65536"
    and "security_session_allowed (session s)" "t = security_tick s now"
    and "uds_security_subfunction_level (request ! 1) = Some (level, True)"
    and "\<not> security_delay_active t now" "cb_security_seed (callbacks s) = Some seed_fn"
    and "callbacks_ok (callbacks s)" "2 \<le> length response"
  shows "wp (service_security_seed seed_fn t request response rlen (request ! 1) level now)
    (answered request (length response) (security_outcome s request now))"
proof -
  define g where "g = uds_security_gate_tick (security_gate s) now"
  have g: "security_gate t = g" "\<not> uds_security_gate_delay_active g now"
    using assms(6,8) by (simp_all add: g_def security_delay_active_def)
  have tick: "security_outcome s request now t" "same_but_context t u \<Longrightarrow> security_outcome s request now u" for u
    using assms(6) by (auto simp: security_outcome_def)
  have grant: "security_outcome s request now
      (t\<lparr> srv_context := c, security_gate := uds_security_gate_grant_seed g level now \<rparr>)" for c
    using g(2) assms(5,6,7) by (auto simp: security_outcome_def security_tick_upd g_def[symmetric] Let_def)
  define room :: u16 where "room = (if capacity response > 2 then capacity response - 2 else 0)"
  have room: "unat room = length response - 2" using assms(4,11) by (auto simp: room_def len_simps not_less)
  obtain result written slen ctx where out: "seed_fn (srv_context t) level room = (result, written, slen, ctx)"
    by (metis prod.exhaust)
  have c: "fills room (seed_fn (srv_context t) level room)"
    "unat (fst (snd (snd (seed_fn (srv_context t) level room)))) < 65534"
    using assms(9,10) by (auto simp: callbacks_ok_def)
  have slen: "unat (2 + slen) = 2 + unat slen" using c(2) out by (simp add: unat_add_16)
  obtain ys where ys: "poke_list response 2 written = Some ys" "length ys = length response"
    using poke_written[OF c(1)[unfolded out] room] .
  show ?thesis
  proof (cases "request_len request \<noteq> 2")
    case True
    with assms tick show ?thesis by (simp add: service_security_seed_def wp_simps)
  next
    case False
    show ?thesis
      unfolding service_security_seed_def if_not_P[OF False] room_def[symmetric] out prod.case Let_def ys(1)
        bind.bind_lunit
      using assms(1-4,11) tick grant ys(2) slen g(1)
      by (auto simp: wp_handler)
  qed
qed

lemma wp_security_access:
  assumes "request ! 0 = 0x27" "request \<noteq> []" "length request < 65536" "length response < 65536"
    and "callbacks_ok (callbacks s)" "2 \<le> length response"
  shows "wp (service_security_access s request response rlen now)
    (answered request (length response) (security_outcome s request now))"
proof -
  have tick: "security_outcome s request now s" "security_outcome s request now (security_tick s now)"
    by (auto simp: security_outcome_def)
  note guards = service_security_access_def wp_handler Let_def
  show ?thesis
  proof (cases "length request < 2 \<or> cb_security_seed (callbacks s) = None \<or>
      cb_security_key (callbacks s) = None \<or> \<not> security_session_allowed (session s) \<or>
      uds_security_subfunction_level (request ! 1) = None \<or> security_delay_active (security_tick s now) now")
    case True
    with assms tick show ?thesis by (auto simp: guards split: option.splits)
  next
    case False
    then obtain seed_fn key_fn level is_seed where
      "cb_security_seed (callbacks s) = Some seed_fn" "cb_security_key (callbacks s) = Some key_fn"
      "uds_security_subfunction_level (request ! 1) = Some (level, is_seed)" by auto
    with False wp_security_seed[OF assms(1-4) _ refl _ _ _ assms(5,6), where now = now and rlen = rlen]
      wp_security_key[OF assms(1-4) _ refl, where now = now and rlen = rlen] assms
    show ?thesis by (cases is_seed) (auto simp: guards)
  qed
qed

end
