(* ===== verification/Uds_Invariant.thy ===== *)
theory Uds_Invariant
  imports Uds_Safety
begin

text \<open>
  The invariant of the UDS server over whole runs: requests, timer ticks, reset handshake, session
  requests and restored lockouts in any order. \<open>request_outcome\<close> summarises what one request may
  change, by service; \<open>srv_inv\<close> is kept by every operation; the server is a machine of
  \<open>Prelude\<close>.
\<close>

section \<open>One request\<close>

lemma wp_answered_mono:
  "wp m (answered request n Q) \<Longrightarrow> (\<And>s. Q s \<Longrightarrow> R s) \<Longrightarrow> wp m (answered request n R)"
  by (erule wp_mono) (auto simp: answered_def)

definition request_outcome ::
  "('c, 'p) UdsServer \<Rightarrow> bytes \<Rightarrow> u32 \<Rightarrow> ('c, 'p) UdsServer \<Rightarrow> bool" where
  "request_outcome s request now s' \<longleftrightarrow>
     same_but_context s s' \<or>
     (request ! 0 = 0x10 \<and> uds_server_request_session s (request ! 1 AND 0x7F) now = (UDS_RESULT_OK, s')) \<or>
     (request ! 0 = 0x11 \<and> (\<exists>c sub. s' = mark_reset (s\<lparr> srv_context := c \<rparr>) sub)) \<or>
     (request ! 0 = 0x27 \<and> security_outcome s request now s') \<or>
     (request ! 0 = 0x34 \<and> session s = UDS_SESSION_PROGRAMMING \<and>
        (\<exists>c m. 3 \<le> m \<and> s' = s\<lparr> srv_context := c, download_active := True, next_download_block := 1,
                                  max_download_block_length := m \<rparr>)) \<or>
     (request ! 0 = 0x36 \<and> session s = UDS_SESSION_PROGRAMMING \<and>
        same_but_context (s\<lparr> next_download_block := next_download_block s' \<rparr>) s') \<or>
     (request ! 0 = 0x37 \<and> session s = UDS_SESSION_PROGRAMMING \<and>
        same_but_context (s\<lparr> download_active := False \<rparr>) s') \<or>
     (request ! 0 = 0x85 \<and> same_but_context (s\<lparr> dtc_setting_enabled := dtc_setting_enabled s' \<rparr>) s')"

lemma wp_dispatch:
  assumes "map_of k_service_dispatch_table (request ! 0) = Some h"
    and "request \<noteq> []" "length request < 65536" "length response < 65536"
    and "callbacks_ok (callbacks s)" "4 \<le> length response"
    and "request ! 0 \<in> {0x34, 0x36, 0x37} \<Longrightarrow> session s = UDS_SESSION_PROGRAMMING"
  shows "wp (h s request response rlen now)
    (answered request (length response) (request_outcome s request now))"
proof -
  have r: "2 \<le> length response" "3 \<le> length response" "response \<noteq> []" using assms(6) by auto
  note mono = wp_answered_mono[OF wp_session_control] wp_answered_mono[OF wp_ecu_reset]
    wp_answered_mono[OF wp_clear_dtc] wp_answered_mono[OF wp_read_dtc] wp_answered_mono[OF wp_read_data]
    wp_answered_mono[OF wp_security_access] wp_answered_mono[OF wp_communication_control]
    wp_answered_mono[OF wp_write_data] wp_answered_mono[OF wp_io_control]
    wp_answered_mono[OF wp_routine_control] wp_answered_mono[OF wp_download]
    wp_answered_mono[OF wp_transfer_data] wp_answered_mono[OF wp_transfer_exit]
    wp_answered_mono[OF wp_tester_present] wp_answered_mono[OF wp_dtc_setting]
    wp_answered_mono[OF wp_modular_backend]
  show ?thesis
    using assms r
    by (auto simp: k_service_dispatch_table_def wrap_defs request_outcome_def split: if_splits
        intro!: mono) blast+
qed

text \<open>The server as the dispatcher hands it to a handler.\<close>

abbreviation dispatched :: "('c, 'p) UdsServer \<Rightarrow> UdsAddressMode \<Rightarrow> u32 \<Rightarrow> ('c, 'p) UdsServer" where
  "dispatched s mode now \<equiv> s\<lparr> current_address_mode := mode, last_activity_ms := now \<rparr>"

lemma attributes_defined:
  assumes "request \<noteq> []" "length request < 65536"
  shows "\<exists>nrc. check_service_attributes s request mode = Some nrc"
  using assms by (auto simp: check_service_attributes_def mem_simps len_simps Let_def)

lemma programming_attributes:
  assumes "check_service_attributes s request mode = Some 0" "request \<noteq> []" "length request < 65536"
    and "request ! 0 \<in> {0x34, 0x35, 0x36, 0x37, 0x38}" "session s \<in> {1, 2, 3}"
  shows "session s = UDS_SESSION_PROGRAMMING" "mode = UDS_ADDRESS_PHYSICAL"
  using assms
  by (auto simp: check_service_attributes_def mem_simps len_simps Let_def attribute_lookup service_attr_def
      session_mask_def session_mask_defs nrc_defs split: if_splits; cases mode; simp)+

lemma wp_handle:
  assumes "request \<noteq> []" "length request \<le> 4095" "4 \<le> length response" "length response < 65536"
    and "callbacks_ok (callbacks s)" "session s \<in> {1, 2, 3}"
  shows "wp (uds_server_handle_addressed s request response rlen mode now)
    (answered request (length response) (\<lambda>s'. s' = s\<lparr> current_address_mode := mode \<rparr> \<or>
       request_outcome (dispatched s mode now) request now s'))"
proof -
  have len: "length request < 65536" "response \<noteq> []" using assms(2,3) by auto
  let ?s = "s\<lparr> current_address_mode := mode \<rparr>"
  obtain nrc where nrc: "check_service_attributes ?s request mode = Some nrc"
    using attributes_defined[OF assms(1) len(1)] by blast
  have prog: "request ! 0 \<in> {0x34, 0x36, 0x37} \<Longrightarrow> nrc = 0 \<Longrightarrow> session s = UDS_SESSION_PROGRAMMING"
    using programming_attributes(1)[of ?s request mode] nrc assms(1,6) len(1) by auto
  have disp: "wp (h (dispatched s mode now) request response 0 now)
      (answered request (length response) (request_outcome (dispatched s mode now) request now))"
    if "map_of k_service_dispatch_table (request ! 0) = Some h" "nrc = 0" for h
    using wp_dispatch[OF that(1) assms(1) len(1) assms(4), of "dispatched s mode now"] assms(3,5) prog that(2)
    by simp
  show ?thesis
    using assms(1-4) len nrc
    by (auto simp: uds_server_handle_addressed_def UDS_MAX_REQUEST_LENGTH_def wp_simps len_simps Let_def
        request_outcome_def[of "dispatched s mode now" request now "dispatched s mode now"]
        split: option.splits intro!: wp_answered_mono[OF disp])
qed

section \<open>The invariant\<close>

definition srv_inv :: "('c, 'p) UdsServer \<Rightarrow> bool" where
  "srv_inv s \<longleftrightarrow> callbacks_ok (callbacks s) \<and> gate_inv (security_gate s) \<and> session s \<in> {1, 2, 3} \<and>
     (download_active s \<longrightarrow> session s = UDS_SESSION_PROGRAMMING \<and> 3 \<le> max_download_block_length s) \<and>
     (active_level (security_gate s) \<noteq> 0 \<or> seed_valid (security_gate s) \<longrightarrow> session s \<in> {2, 3}) \<and>
     (reset_ready s \<longrightarrow> reset_pending s)"

lemma gate_tick_fields:
  "active_level (uds_security_gate_tick g now) = active_level g"
  "seed_valid (uds_security_gate_tick g now) \<Longrightarrow> seed_valid g"
proof -
  define g1 where "g1 = (if initial_delay_active g \<and> time_expired now (initial_delay_until_ms g)
                  then g\<lparr> initial_delay_active := False \<rparr> else g)"
  obtain ok g2 where p: "persist g1 0 0 = (ok, g2)" by fastforce
  have e: "active_level g1 = active_level g" "seed_valid g1 = seed_valid g" by (simp_all add: g1_def)
  show "active_level (uds_security_gate_tick g now) = active_level g"
    "seed_valid (uds_security_gate_tick g now) \<Longrightarrow> seed_valid g"
    using persist_fields[OF p] e unfolding uds_security_gate_tick_def Let_def g1_def[symmetric] p
    by (auto split: if_splits)
qed

lemma gate_success_fields:
  "active_level (uds_security_gate_record_success g level) = level"
  "\<not> seed_valid (uds_security_gate_record_success g level)"
proof -
  define g1 where "g1 = (uds_security_gate_invalidate_seed (g\<lparr> active_level := level, failed_attempts := 0 \<rparr>))
    \<lparr> gate_state := UDS_SECURITY_STATE_UNLOCKED \<rparr>"
  obtain ok g2 where p: "persist g1 0 0 = (ok, g2)" by fastforce
  have "uds_security_gate_record_success g level = g2"
    by (simp add: uds_security_gate_record_success_def Let_def g1_def[symmetric] p)
  then show "active_level (uds_security_gate_record_success g level) = level"
    "\<not> seed_valid (uds_security_gate_record_success g level)"
    using persist_fields[OF p] by (simp_all add: g1_def)
qed

lemma gate_session_fields:
  "active_level (uds_security_gate_reset_session g) = 0" "\<not> seed_valid (uds_security_gate_reset_session g)"
  "active_level (uds_security_gate_reset_ecu g now) = 0" "\<not> seed_valid (uds_security_gate_reset_ecu g now)"
  by (simp_all add: uds_security_gate_reset_session_def uds_security_gate_reset_ecu_def Let_def)

lemma gate_grant_fields:
  "active_level (uds_security_gate_grant_seed g level now) = active_level g"
  by (simp add: uds_security_gate_grant_seed_def)

text \<open>Changes of the context and of the bookkeeping fields keep the invariant.\<close>

lemma srv_inv_same: "same_but_context s s' \<Longrightarrow> srv_inv s' \<longleftrightarrow> srv_inv s"
  by (auto simp: srv_inv_def same_but_context_fields)

lemma srv_inv_upd [simp]:
  "srv_inv (s\<lparr> current_address_mode := m \<rparr>) = srv_inv s"
  "srv_inv (s\<lparr> last_activity_ms := t \<rparr>) = srv_inv s"
  "srv_inv (s\<lparr> dtc_setting_enabled := d \<rparr>) = srv_inv s"
  "srv_inv (s\<lparr> next_download_block := b \<rparr>) = srv_inv s"
  by (simp_all add: srv_inv_def)

lemma srv_inv_tick: "srv_inv s \<Longrightarrow> srv_inv (security_tick s now)"
  using gate_tick_fields[of "security_gate s" now] gate_tick_inv[of "security_gate s" now]
  by (auto simp: srv_inv_def)

lemma srv_inv_session:
  assumes "srv_inv s" "uds_server_request_session s requested now = (UDS_RESULT_OK, s')"
  shows "srv_inv s'"
proof -
  note f = request_session_ok[OF assms(2)]
  have "requested \<in> {1, 2, 3}" using transition_closed[OF f(1)] assms(1) by (simp add: srv_inv_def)
  then show ?thesis
    using assms(1) f gate_session_fields gate_session_inv[OF gate_tick_inv, of "security_gate s" now]
    by (auto simp: srv_inv_def)
qed

lemma srv_inv_security:
  assumes "srv_inv s" "security_outcome s request now s'"
  shows "srv_inv s'"
proof -
  let ?g = "uds_security_gate_tick (security_gate s) now"
  have g: "gate_inv ?g" "callbacks_ok (callbacks s)" "session s \<in> {1, 2, 3}"
    "download_active s \<Longrightarrow> session s = 2 \<and> 3 \<le> max_download_block_length s"
    "reset_ready s \<Longrightarrow> reset_pending s"
    using assms(1) gate_tick_inv by (auto simp: srv_inv_def)
  have upd: "srv_inv (s\<lparr> srv_context := c, security_gate := g' \<rparr>)"
    if "gate_inv g'" "security_session_allowed (session s)" for c g'
    using g that by (auto simp: srv_inv_def security_session_allowed_def)
  show ?thesis
    using assms(2) unfolding security_outcome_def Let_def
  proof (elim disjE conjE exE)
    assume "same_but_context s s'"
    then show ?thesis using assms(1) srv_inv_same by blast
  next
    assume "same_but_context (security_tick s now) s'"
    then show ?thesis using srv_inv_tick[OF assms(1)] srv_inv_same by blast
  qed (use upd gate_seed_inv[OF g(1)] gate_failure_inv[OF g(1)] gate_success_inv[OF g(1)] in auto)
qed

lemma srv_inv_request:
  assumes "srv_inv s" "request_outcome s request now s'"
  shows "srv_inv s'"
  using assms(2) unfolding request_outcome_def
proof (elim disjE conjE exE)
  assume "same_but_context (s\<lparr> download_active := False \<rparr>) s'"
  moreover have "srv_inv (s\<lparr> download_active := False \<rparr>)" using assms(1) by (simp add: srv_inv_def)
  ultimately show ?thesis using srv_inv_same by blast
next
  assume "security_outcome s request now s'"
  then show ?thesis by (rule srv_inv_security[OF assms(1)])
next
  assume "uds_server_request_session s (request ! 1 AND 127) now = (UDS_RESULT_OK, s')"
  then show ?thesis by (rule srv_inv_session[OF assms(1)])
next
  fix c m
  assume "s' = s\<lparr> srv_context := c, download_active := True, next_download_block := 1,
                  max_download_block_length := m \<rparr>" "session s = UDS_SESSION_PROGRAMMING" "3 \<le> m"
  then show ?thesis using assms(1) by (auto simp: srv_inv_def)
next
  fix c sub
  assume "s' = mark_reset (s\<lparr> srv_context := c \<rparr>) sub"
  then show ?thesis using assms(1) by (simp add: srv_inv_def mark_reset_def)
qed (use assms(1) srv_inv_same in \<open>fastforce+\<close>)

lemma srv_inv_init:
  assumes "callbacks_ok (callbacks (uds_server_init old cbs ctx now))"
  shows "srv_inv (uds_server_init old cbs ctx now)"
  using assms
  by (auto simp: srv_inv_def uds_server_init_def uds_security_gate_init_def
      uds_security_gate_set_timing_def UDS_DEFAULT_SECURITY_MAX_ATTEMPTS_def gate_inv_def
      UDS_DEFAULT_SECURITY_LOCKOUT_MS_def)

lemma srv_inv_server_tick: "srv_inv s \<Longrightarrow> srv_inv (snd (uds_server_tick s now))"
  using srv_inv_tick[of s now] gate_session_fields gate_session_inv[of "uds_security_gate_tick (security_gate s) now"]
  by (auto simp: uds_server_tick_def Let_def security_reset_for_session_change_def srv_inv_def
      split: option.splits)

text \<open>Empty and oversized requests are refused before anything changes.\<close>

lemma wp_handle_any:
  assumes "length request < 65536" "4 \<le> length response" "length response < 65536"
    and "callbacks_ok (callbacks s)" "session s \<in> {1, 2, 3}"
  shows "wp (uds_server_handle_addressed s request response rlen mode now)
    (answered request (length response) (\<lambda>s'. s' = s \<or> s' = s\<lparr> current_address_mode := mode \<rparr> \<or>
       request_outcome (dispatched s mode now) request now s'))"
proof (cases "request = [] \<or> 4095 < length request")
  case True
  with assms show ?thesis
    by (auto simp: uds_server_handle_addressed_def UDS_MAX_REQUEST_LENGTH_def wp_simps len_simps)
next
  case False
  then have "request \<noteq> []" "length request \<le> 4095" by auto
  from wp_handle[OF this assms(2-5), of rlen mode now] show ?thesis
    by (rule wp_answered_mono) auto
qed

section \<open>The server as a machine\<close>

datatype srv_event =
    SrvRequest bytes bytes UdsAddressMode u32
  | SrvTick u32
  | SrvSession u8 u32
  | SrvCompleteReset
  | SrvClearReset
  | SrvApplyReset UdsResetReason u32
  | SrvResetSecurity
  | SrvRestoreSecurity u8 u32 u32

fun srv_step :: "('c, 'p) UdsServer \<Rightarrow> srv_event \<Rightarrow> ('c, 'p) UdsServer option" where
  "srv_step s (SrvRequest request response mode now) =
     map_option (\<lambda>(result, s', response', rlen). s')
       (uds_server_handle_addressed s request response 0 mode now)"
| "srv_step s (SrvTick now) = Some (snd (uds_server_tick s now))"
| "srv_step s (SrvSession requested now) = Some (snd (uds_server_request_session s requested now))"
| "srv_step s SrvCompleteReset = Some (snd (uds_server_complete_reset s))"
| "srv_step s SrvClearReset = Some (uds_server_clear_reset s)"
| "srv_step s (SrvApplyReset reason now) = Some (uds_server_apply_reset s reason now)"
| "srv_step s SrvResetSecurity = Some (uds_server_reset_security s)"
| "srv_step s (SrvRestoreSecurity attempts remaining now) =
     Some (uds_server_restore_security_state s attempts remaining now)"

text \<open>The caller gives a response buffer of at least 4 bytes; lengths are 16-bit.\<close>

fun srv_ok :: "srv_event \<Rightarrow> bool" where
  "srv_ok (SrvRequest request response mode now) \<longleftrightarrow>
     length request < 65536 \<and> 4 \<le> length response \<and> length response < 65536"
| "srv_ok _ \<longleftrightarrow> True"

lemma srv_inv_handle:
  assumes "srv_inv s" "length request < 65536" "4 \<le> length response" "length response < 65536"
  shows "wp (uds_server_handle_addressed s request response rlen mode now)
    (answered request (length response) srv_inv)"
proof -
  have "callbacks_ok (callbacks s)" "session s \<in> {1, 2, 3}" using assms(1) by (auto simp: srv_inv_def)
  from wp_handle_any[OF assms(2-4) this, of rlen mode now] show ?thesis
    by (rule wp_answered_mono) (use assms(1) srv_inv_request[of "dispatched s mode now"] in auto)
qed

interpretation srvm: machine srv_step srv_ok srv_inv
proof
  fix s :: "('c, 'p) UdsServer" and e
  assume s: "srv_inv s" and ok: "srv_ok e"
  show "\<exists>s'. srv_step s e = Some s' \<and> srv_inv s'"
  proof (cases e)
    case (SrvRequest request response mode now)
    with s ok srv_inv_handle[of s request response 0 mode now] show ?thesis
      by (auto dest!: wpD simp: answered_def)
  next
    case (SrvSession requested now)
    then show ?thesis
      using s srv_inv_session[OF s, of requested now]
      by (auto simp: uds_server_request_session_def Let_def split: if_splits)
  next
    case (SrvApplyReset reason now)
    with s gate_ecu_inv[of "security_gate s" now] show ?thesis
      by (auto simp: gate_session_fields uds_server_apply_reset_def security_reset_for_ecu_reset_def srv_inv_def)
  next
    case SrvResetSecurity
    with s gate_session_inv[of "security_gate s"] show ?thesis
      by (auto simp: gate_session_fields uds_server_reset_security_def security_reset_for_session_change_def srv_inv_def)
  next
    case (SrvRestoreSecurity a r now)
    have "active_level (uds_security_gate_restore_state g a r now) = active_level g"
      "seed_valid (uds_security_gate_restore_state g a r now) = seed_valid g" for g :: "'p UdsSecurityGate"
      by (simp_all add: uds_security_gate_restore_state_def Let_def)
    with s SrvRestoreSecurity gate_restore_inv[of "security_gate s" a r now] show ?thesis
      by (auto simp: uds_server_restore_security_state_def srv_inv_def)
  qed (use s srv_inv_server_tick in \<open>auto simp: uds_server_complete_reset_def uds_server_clear_reset_def
      srv_inv_def split: option.splits\<close>)
qed

end
