(* ===== verification/Uds_Properties.thy ===== *)
theory Uds_Properties
  imports Uds_Invariant
begin

text \<open>
  What the UDS server guarantees: its answers, its sessions, its security access and its resets.
  The properties rest on \<open>request_outcome\<close>, \<open>srv_inv\<close> and the machine \<open>srvm\<close>.
  \<open>demo_server\<close> is a concrete server for the examples: its context is a log of the callbacks.
\<close>

section \<open>A concrete server\<close>

definition demo_callbacks :: "bytes UdsCallbacks" where
  "demo_callbacks = (no_callbacks None)
     \<lparr> cb_read_did := Some (\<lambda>log did room. if room < 1 then (UDS_RESULT_RESPONSE_TOO_LONG, [], 0, log)
                                            else (UDS_RESULT_OK, [ucast did], 1, log)),
       cb_security_seed := Some (\<lambda>log level room. if room < 2 then (UDS_RESULT_RESPONSE_TOO_LONG, [], 0, log)
                                                   else (UDS_RESULT_OK, [0xAB, level], 2, log)),
       cb_security_key := Some (\<lambda>log level key. (if key = [0xCD, level] then UDS_RESULT_OK
                                                  else UDS_RESULT_INVALID_KEY, log @ [level])),
       cb_io_control := Some (\<lambda>log did data room. (UDS_RESULT_OK, [], 0, log)),
       cb_request_download := Some (\<lambda>log address len. (UDS_RESULT_OK, 130, log)),
       cb_transfer_data := Some (\<lambda>log block data. (UDS_RESULT_OK, log @ data)),
       cb_ecu_reset := Some (\<lambda>log sub. (UDS_RESULT_OK, log)),
       cb_ecu_reset_execute := Some (\<lambda>log sub. log @ [sub]) \<rparr>"

definition demo_gate :: "unit UdsSecurityGate" where
  "demo_gate = uds_security_gate_set_timing (uds_security_gate_init 0) 0 10000 10000 3 0"

definition demo_server :: "u8 \<Rightarrow> unit UdsSecurityGate \<Rightarrow> (bytes, unit) UdsServer" where
  "demo_server sess gate =
     \<lparr> callbacks = demo_callbacks, srv_context = [], session = sess, security_gate = gate,
       pending_reset_reason = UDS_RESET_NORMAL, pending_reset_subfunction = 0,
       next_download_block = 1, max_download_block_length = 0, p2_server_ms = 50,
       p2_star_server_ms = 5000, s3_server_timeout_ms = 5000, last_activity_ms = 0,
       download_active = False, reset_pending = False, reset_ready = False,
       dtc_setting_enabled = True, current_address_mode = UDS_ADDRESS_PHYSICAL \<rparr>"

lemma demo_callbacks_ok: "callbacks_ok demo_callbacks"
  by (auto simp: callbacks_ok_def demo_callbacks_def no_callbacks_def fills_def not_less
      word_le_nat_alt uds_service_backends_handler_def Suc_le_eq unat_gt_0)

lemma demo_gate_inv: "gate_inv demo_gate"
  by (simp add: demo_gate_def uds_security_gate_set_timing_def uds_security_gate_init_def gate_inv_def)

lemma demo_gate_level [simp]: "active_level demo_gate = 0" "\<not> seed_valid demo_gate"
  by (simp_all add: demo_gate_def uds_security_gate_set_timing_def uds_security_gate_init_def)

lemma demo_server_inv:
  assumes "sess \<in> {1, 2, 3}" "gate_inv gate" "active_level gate \<noteq> 0 \<or> seed_valid gate \<Longrightarrow> sess \<in> {2, 3}"
  shows "srv_inv (demo_server sess gate)"
  using assms demo_callbacks_ok by (auto simp: srv_inv_def demo_server_def)

lemma demo_server_inv0: "sess \<in> {1, 2, 3} \<Longrightarrow> srv_inv (demo_server sess demo_gate)"
  by (rule demo_server_inv[OF _ demo_gate_inv])
    (auto simp: demo_gate_def uds_security_gate_set_timing_def uds_security_gate_init_def)

lemmas demo_defs = demo_server_def demo_callbacks_def no_callbacks_def demo_gate_def
  uds_security_gate_set_timing_def uds_security_gate_init_def

section \<open>Answers\<close>



text \<open>
  A bound of four bytes on the response buffer is needed: with a shorter buffer an InputOutputControl
  request makes the server write past its end (the header is stored before any check).
\<close>

lemma io_control_overflows_small_buffer:
  assumes "cb_io_control (callbacks s) = Some f" "session s = UDS_SESSION_EXTENDED"
    and "request ! 0 = 0x2F" "4 \<le> length request" "length request \<le> 4095"
    and "0 < length response" "length response < 3"
  shows "uds_server_handle_addressed s request response rlen UDS_ADDRESS_PHYSICAL now = None"
proof -
  have r: "request \<noteq> []" "response \<noteq> []" using assms(4,6) by auto
  have pk: "peek request 0 = Some 0x2F" "peek request 1 = Some (request ! 1)"
    "peek request 2 = Some (request ! 2)"
    using assms(3,4) r by (simp_all add: peek_def)
  obtain did where did: "read_u16 request 1 = Some did" using read_u16_safe[of 1 request] assms(4) by auto
  have over: "poke_list response 0 [0x6F, request ! 1, request ! 2] = None"
    using assms(7) by (intro poke_list_None) simp_all
  have "service_io_control t request response rlen' = None" if "cb_io_control (callbacks t) = Some f" for t :: "('a, 'b) UdsServer" and rlen'
    using that assms(4,5) pk did over by (simp add: service_io_control_def len_simps not_less)
  then show ?thesis
    using assms r pk
    by (simp add: uds_server_handle_addressed_def check_service_attributes_def attribute_lookup
        service_attr_def session_mask_def session_mask_defs Let_def len_simps UDS_MAX_REQUEST_LENGTH_def
        k_service_dispatch_table_def wrap_defs)
qed

lemma io_control_overflows_small_buffer_witness:
  "uds_server_handle_addressed (demo_server 3 demo_gate) [0x2F, 1, 2, 3] [0, 0] 0 UDS_ADDRESS_PHYSICAL 0 = None"
  by (rule io_control_overflows_small_buffer) (simp_all add: demo_defs)

text \<open>A read callback that serves a registry: the value of the identifier, when it fits.\<close>

definition serves :: "('c \<Rightarrow> u16 \<Rightarrow> u16 \<Rightarrow> UdsCallbackResult \<times> bytes \<times> u16 \<times> 'c) \<Rightarrow> (u16 \<Rightarrow> bytes) \<Rightarrow> bool" where
  "serves read reg \<longleftrightarrow> (\<forall>ctx did room. length (reg did) \<le> unat room \<longrightarrow>
     read ctx did room = (UDS_RESULT_OK, reg did, of_nat (length (reg did)), ctx))"

text \<open>The records the tester expects for the identifiers of its request.\<close>

fun did_records :: "(u16 \<Rightarrow> bytes) \<Rightarrow> bytes \<Rightarrow> bytes" where
  "did_records reg (hi # lo # rest) = [hi, lo] @ reg (push_bit 8 (ucast hi) OR ucast lo) @ did_records reg rest"
| "did_records reg _ = []"

lemma read_data_loop_records:
  assumes "serves read reg"
  shows "even (length dids) \<Longrightarrow> length response < 65536 \<Longrightarrow>
    unat rlen + length (did_records reg dids) \<le> length response \<Longrightarrow>
    \<exists>response'. read_data_loop read s request dids response rlen =
        Some (UDS_RESULT_OK, s, response', of_nat (unat rlen + length (did_records reg dids))) \<and>
      length response' = length response \<and>
      take (unat rlen + length (did_records reg dids)) response' = take (unat rlen) response @ did_records reg dids"
proof (induction dids arbitrary: response rlen rule: induct_list012)
  case 1
  then show ?case by simp
next
  case (2 hi)
  then show ?case by simp
next
  case (3 hi lo rest)
  define did :: u16 where "did = push_bit 8 (ucast hi) OR ucast lo"
  define v where "v = reg did"
  define rest_n where "rest_n = length (did_records reg rest)"
  have fit: "unat rlen + 2 + length v + rest_n \<le> length response"
    using "3.prems"(3) by (simp add: did_def v_def rest_n_def)
  have no: "\<not> capacity response - rlen < 2"
    using fit "3.prems"(2) by (simp add: word_less_nat_alt len_room)
  have r2: "unat (rlen + 2) = unat rlen + 2" using fit "3.prems"(2) by (simp add: unat_add_16)
  define xs where "xs = take (unat rlen) response @ [hi, lo] @ drop (unat rlen + 2) response"
  have xs: "poke_list response (unat rlen) [hi, lo] = Some xs" "length xs = length response"
    using fit by (simp_all add: poke_list_eq xs_def)
  have room: "unat (capacity xs - (rlen + 2)) = length xs - (unat rlen + 2)"
    using fit xs(2) "3.prems"(2) r2 by (simp add: len_room)
  then have out: "read (srv_context s) did (capacity xs - (rlen + 2)) = (UDS_RESULT_OK, v, of_nat (length v), srv_context s)"
    using assms fit xs(2) by (simp add: serves_def v_def)
  define ys where "ys = take (unat rlen + 2) xs @ v @ drop (unat rlen + 2 + length v) xs"
  have ys: "poke_list xs (unat (rlen + 2)) v = Some ys" "length ys = length response"
    using fit xs(2) by (simp_all add: poke_list_eq ys_def r2)
  have vlen: "unat (of_nat (length v) :: u16) = length v" using fit "3.prems"(2) by (simp add: unat_of_nat_16)
  have no2: "\<not> capacity ys - (rlen + 2) < of_nat (length v)"
    using fit ys(2) "3.prems"(2) r2 vlen by (simp add: word_less_nat_alt len_room)
  define r' where "r' = rlen + 2 + of_nat (length v)"
  have r3: "unat r' = unat rlen + 2 + length v"
    using fit "3.prems"(2) r2 vlen by (simp add: r'_def unat_add_16)
  have eq: "read_data_loop read s request (hi # lo # rest) response rlen = read_data_loop read s request rest ys r'"
    unfolding read_data_loop.simps if_not_P[OF no] Let_def did_def[symmetric] xs(1) bind.bind_lunit
      out prod.case ys(1) using no2 by (simp add: r'_def)
  have total: "unat rlen + length (did_records reg (hi # lo # rest)) = unat r' + rest_n"
    by (simp add: r3 rest_n_def did_def v_def)
  have head: "take (unat r') ys = take (unat rlen) response @ [hi, lo] @ v"
    using fit by (simp add: ys_def xs_def r3)
  have recs: "did_records reg (hi # lo # rest) = ([hi, lo] @ v) @ did_records reg rest"
    by (simp add: did_def v_def)
  obtain zs where "read_data_loop read s request rest ys r' = Some (UDS_RESULT_OK, s, zs, of_nat (unat r' + rest_n))"
    "length zs = length ys" "take (unat r' + rest_n) zs = take (unat r') ys @ did_records reg rest"
    using "3.IH"(1)[of ys r'] "3.prems"(1,2) fit ys(2) r3 unfolding rest_n_def by auto
  then show ?case unfolding eq total unfolding recs using ys(2) head by simp
qed

text \<open>
  C29. ReadDataByIdentifier returns what was asked for: with a registry callback, a request for any
  number of identifiers is answered by 0x62 followed by every identifier with its value, in the
  order of the request, and the application state is not touched.
\<close>

theorem read_data_by_identifier:
  assumes "cb_read_did (callbacks s) = Some read" "serves read reg" "session s \<in> {1, 2, 3}"
    and "dids \<noteq> []" "even (length dids)" "length dids \<le> 4094" "length response < 65536"
    and "1 + length (did_records reg dids) \<le> length response"
  shows "\<exists>response'. uds_server_handle_addressed s (0x22 # dids) response rlen mode now =
      Some (UDS_RESULT_OK, dispatched s mode now, response', of_nat (1 + length (did_records reg dids))) \<and>
    take (1 + length (did_records reg dids)) response' = 0x62 # did_records reg dids"
proof -
  let ?s = "dispatched s mode now" and ?n = "length (did_records reg dids)"
  have len: "3 \<le> length (0x22 # dids)" using assms(4,5) by (cases dids; cases "tl dids") auto
  have parity: "(request_len (0x22 # dids) - 1) mod 2 = (0 :: u16)"
  proof -
    have "unat (of_nat (length dids) :: u16) = length dids" using assms(6) by (simp add: unat_of_nat_16)
    then show ?thesis using assms(5)
      by (simp add: word_unat_eq_iff unat_mod_distrib even_iff_mod_2_eq_zero)
  qed
  obtain xs where xs: "poke_list response 0 [0x62] = Some xs" "length xs = length response" "take 1 xs = [0x62]"
    using assms(8) by (cases response) (auto simp: poke_list_eq)
  obtain response' where loop: "read_data_loop read ?s (0x22 # dids) dids xs 1 =
      Some (UDS_RESULT_OK, ?s, response', of_nat (1 + ?n))"
    "take (1 + ?n) response' = 0x62 # did_records reg dids"
    using read_data_loop_records[OF assms(2,5), of xs 1 ?s "0x22 # dids"] xs assms(7,8) by auto
  have guard: "\<not> (request_len (0x22 # dids) < 3 \<or> (request_len (0x22 # dids) - 1) mod 2 \<noteq> (0 :: u16))"
    using len parity assms(6) len_cmp(2)[of "0x22 # dids" 3] by simp
  have "service_read_data ?s (0x22 # dids) response 0 = Some (UDS_RESULT_OK, ?s, response', of_nat (1 + ?n))"
    unfolding service_read_data_def UdsServer.select_convs UdsServer.update_convs
    using assms(1) guard xs(1) loop(1) by simp
  moreover have "check_service_attributes (s\<lparr> current_address_mode := mode \<rparr>) (0x22 # dids) mode = Some 0"
  proof -
    have "uds_service_attribute 0x22 sub = service_attr 0x22 15 0" for sub
      by (simp add: uds_service_attribute_def service_attributes_def service_attr_def session_mask_defs)
    moreover obtain d ds where "dids = d # ds" using assms(4) by (cases dids) auto
    ultimately show ?thesis
      using assms(3,6)
      by (auto simp: check_service_attributes_def mem_simps Let_def service_attr_def session_mask_def
          session_mask_defs)
  qed
  moreover have "capacity response \<noteq> 0" "request_len (0x22 # dids) \<noteq> 0"
    "\<not> request_len (0x22 # dids) > of_nat UDS_MAX_REQUEST_LENGTH"
    using assms(6-8) len_cmp(1,4)[of "0x22 # dids"] by (auto simp: len_cmp UDS_MAX_REQUEST_LENGTH_def)
  ultimately have "uds_server_handle_addressed s (0x22 # dids) response rlen mode now =
      Some (UDS_RESULT_OK, ?s, response', of_nat (1 + ?n))"
    by (simp add: uds_server_handle_addressed_def k_service_dispatch_table_def wrap_defs mem_simps Let_def)
  with loop(2) show ?thesis by simp
qed

lemma demo_serves:
  "serves (\<lambda>log did room. if room < 1 then (UDS_RESULT_RESPONSE_TOO_LONG, [], 0, log)
                            else (UDS_RESULT_OK, [ucast did], 1, log)) (\<lambda>did. [ucast did])"
  by (simp add: serves_def word_less_nat_alt)

theorem read_data_by_identifier_witness:
  "\<exists>response'. uds_server_handle_addressed (demo_server 3 demo_gate) [0x22, 0xF1, 0x90, 0xF1, 0x8C]
       (replicate 8 0) 0 UDS_ADDRESS_PHYSICAL 5 =
       Some (UDS_RESULT_OK, dispatched (demo_server 3 demo_gate) UDS_ADDRESS_PHYSICAL 5, response', 7) \<and>
     take 7 response' = [0x62, 0xF1, 0x90, 0x90, 0xF1, 0x8C, 0x8C]"
proof -
  have cb: "cb_read_did (callbacks (demo_server 3 demo_gate)) =
      Some (\<lambda>log did room. if room < 1 then (UDS_RESULT_RESPONSE_TOO_LONG, [], 0, log)
                            else (UDS_RESULT_OK, [ucast did], 1, log))"
    by (simp add: demo_defs)
  have recs: "did_records (\<lambda>did. [ucast did]) [0xF1, 0x90, 0xF1, 0x8C] = [0xF1, 0x90, 0x90, 0xF1, 0x8C, 0x8C]"
    by simp
  have n: "1 + length (did_records (\<lambda>did. [ucast did]) [0xF1, 0x90, 0xF1, 0x8C]) = 7" by simp
  have ses: "session (demo_server 3 demo_gate) \<in> {1, 2, 3}" by (simp add: demo_server_def)
  show ?thesis
    using read_data_by_identifier[OF cb demo_serves ses, of "[0xF1, 0x90, 0xF1, 0x8C]" "replicate 8 0" 0
        UDS_ADDRESS_PHYSICAL 5] unfolding n unfolding recs by simp
qed

section \<open>Sessions\<close>

lemma handled:
  assumes "srv_inv s" "length request < 65536" "4 \<le> length response" "length response < 65536"
    and "uds_server_handle_addressed s request response rlen mode now = Some (result, s', response', rlen')"
  shows "s' = s \<or> s' = s\<lparr> current_address_mode := mode \<rparr> \<or> request_outcome (dispatched s mode now) request now s'"
proof -
  have "callbacks_ok (callbacks s)" "session s \<in> {1, 2, 3}" using assms(1) by (auto simp: srv_inv_def)
  from wp_SomeD[OF wp_handle_any[OF assms(2-4) this, of rlen mode now] assms(5)] show ?thesis by simp
qed

lemma security_outcome_session:
  "security_outcome s request now s' \<Longrightarrow> session s' = session s \<and> download_active s' = download_active s"
  by (auto simp: security_outcome_def Let_def same_but_context_fields(2,4))

lemma outcome_session:
  assumes "request_outcome s request now s'" "session s' \<noteq> session s"
  shows "request ! 0 = 0x10 \<and> uds_server_request_session s (request ! 1 AND 0x7F) now = (UDS_RESULT_OK, s')"
  using assms by (auto simp: request_outcome_def mark_reset_def same_but_context_fields(2)
      dest: security_outcome_session)

text \<open>
  A session change is a DiagnosticSessionControl request along the session graph, and it leaves
  nothing open: no security level, no seed and no download survive it.
\<close>

theorem session_change_relocks:
  assumes "srv_inv s" "length request < 65536" "4 \<le> length response" "length response < 65536"
    and "uds_server_handle_addressed s request response rlen mode now = Some (result, s', response', rlen')"
    and "session s' \<noteq> session s"
  shows "request ! 0 = 0x10 \<and>
    uds_session_transition_allowed (session s) (session s') = UDS_SESSION_TRANSITION_ALLOWED \<and>
    active_level (security_gate s') = 0 \<and> \<not> seed_valid (security_gate s') \<and> \<not> download_active s'"
proof -
  let ?s = "dispatched s mode now"
  have "request_outcome ?s request now s'" using handled[OF assms(1-5)] assms(6) by auto
  from outcome_session[OF this] assms(6)
  have r: "request ! 0 = 0x10" "uds_server_request_session ?s (request ! 1 AND 0x7F) now = (UDS_RESULT_OK, s')"
    by auto
  from request_session_ok[OF r(2)] r(1) show ?thesis by (simp add: gate_session_fields)
qed

theorem session_change_relocks_witness:
  "\<exists>result s' response' rlen'. uds_server_handle_addressed (demo_server 3 (demo_gate\<lparr> active_level := 1 \<rparr>))
       [0x10, 0x02] (replicate 8 0) 0 UDS_ADDRESS_PHYSICAL 5 = Some (result, s', response', rlen') \<and>
     session s' = 2 \<and> active_level (security_gate s') = 0"
proof -
  let ?s = "demo_server 3 (demo_gate\<lparr> active_level := 1 \<rparr>)"
  have inv: "srv_inv ?s" using demo_gate_inv by (intro demo_server_inv) (auto simp: gate_inv_def)
  obtain s' response' where h: "uds_server_handle_addressed ?s [0x10, 0x02] (replicate 8 0) 0 UDS_ADDRESS_PHYSICAL 5 =
      Some (UDS_RESULT_OK, s', response', 6)" "session s' = 2"
    by (simp add: demo_defs uds_server_handle_addressed_def check_service_attributes_def mem_simps
        uds_service_attribute_def service_attributes_def service_attr_def session_mask_def session_mask_defs
        k_service_dispatch_table_def service_session_control_def session_supported_def
        uds_server_request_session_def uds_session_transition_allowed_def Let_def
        UDS_MAX_REQUEST_LENGTH_def UDS_SUPPRESS_POSITIVE_RESPONSE_def security_tick_def
        security_reset_for_session_change_def poke_list_eq)
  with session_change_relocks[OF inv _ _ _ h(1)] show ?thesis by (simp add: demo_server_def)
qed

text \<open>One call cannot enter the programming session from the default session.\<close>

lemma step_to_programming:
  assumes "srv_inv s" "srv_ok e" "srv_step s e = Some s'" "session s' = UDS_SESSION_PROGRAMMING"
  shows "session s \<in> {2, 3}"
proof (cases e)
  case (SrvRequest request response mode now)
  with assms(3) obtain result response' rlen' where
    h: "uds_server_handle_addressed s request response 0 mode now = Some (result, s', response', rlen')"
    by auto
  show ?thesis
    using handled[OF assms(1) _ _ _ h] outcome_session[of "dispatched s mode now" request now s'] assms SrvRequest
      request_session_ok(1,2)[of "dispatched s mode now" "request ! 1 AND 0x7F" now s']
    by (cases "session s' = session s")
      (auto simp: uds_session_transition_allowed_def srv_inv_def split: if_splits)
next
  case (SrvSession requested now)
  then show ?thesis
    using assms request_session_ok(1,2)[of s requested now s'] request_session_fail[of s requested now _ s']
    by (cases "fst (uds_server_request_session s requested now) = UDS_RESULT_OK";
        cases "uds_server_request_session s requested now")
      (auto simp: uds_session_transition_allowed_def srv_inv_def split: if_splits)
qed (use assms in \<open>auto simp: uds_server_tick_def Let_def uds_server_complete_reset_def uds_server_clear_reset_def
    uds_server_apply_reset_def uds_server_reset_security_def uds_server_restore_security_state_def
    security_reset_for_session_change_def security_reset_for_ecu_reset_def srv_inv_def
    split: option.splits if_splits\<close>)

text \<open>
  C28. The programming session is never entered directly: in every run of the server from a state in
  the default session to a state in the programming session, some intermediate state was in the
  extended session.
\<close>

theorem programming_only_via_extended:
  assumes "srv_inv s" "list_all srv_ok es" "run srv_step s es = Some s'"
    and "session s = UDS_SESSION_DEFAULT" "session s' = UDS_SESSION_PROGRAMMING"
  shows "\<exists>es1 es2 u. es = es1 @ es2 \<and> run srv_step s es1 = Some u \<and> session u = UDS_SESSION_EXTENDED"
  using assms
proof (induction es arbitrary: s' rule: rev_induct)
  case Nil
  then show ?case by simp
next
  case (snoc e es)
  then obtain u where u: "run srv_step s es = Some u" "srv_step u e = Some s'"
    by (auto simp: run_append split: Option.bind_splits)
  have ok: "list_all srv_ok es" "srv_ok e" using snoc.prems(2) by simp_all
  have "session u \<in> {2, 3}"
    using step_to_programming[OF srvm.run_inv[OF snoc.prems(1) ok(1) u(1)] ok(2) u(2) snoc.prems(5)] .
  then show ?case
  proof
    assume "session u = 2"
    from snoc.IH[OF snoc.prems(1) ok(1) u(1) snoc.prems(4) this] show ?thesis
      by (metis append.assoc)
  next
    assume "session u \<in> {3}"
    with u show ?thesis by (intro exI[of _ es] exI[of _ "[e]"] exI[of _ u]) simp
  qed
qed

theorem programming_only_via_extended_witness:
  "\<exists>es1 es2 u. [SrvSession 3 1, SrvSession 2 2] = es1 @ es2 \<and>
     run srv_step (demo_server 1 demo_gate) es1 = Some u \<and> session u = UDS_SESSION_EXTENDED"
proof -
  have "\<exists>s'. run srv_step (demo_server 1 demo_gate) [SrvSession 3 1, SrvSession 2 2] = Some s' \<and> session s' = 2"
    by (simp add: demo_defs uds_server_request_session_def session_supported_def security_tick_def
        uds_session_transition_allowed_def Let_def security_reset_for_session_change_def)
  then show ?thesis
    using programming_only_via_extended[OF demo_server_inv0[of 1], of "[SrvSession 3 1, SrvSession 2 2]"]
    by (auto simp: demo_server_def)
qed

section \<open>Security access\<close>

lemma outcome_level:
  assumes "request_outcome s request now s'" "active_level (security_gate s') \<noteq> 0"
    and "active_level (security_gate s') \<noteq> active_level (security_gate s)" "gate_inv (security_gate s)"
  shows "request ! 0 = 0x27 \<and> security_session_allowed (session s) \<and>
    (let g = uds_security_gate_tick (security_gate s) now; level = active_level (security_gate s') in
     \<not> uds_security_gate_delay_active g now \<and> seed_valid g \<and> seed_level g = level \<and>
     uds_security_subfunction_level (request ! 1) = Some (level, False) \<and>
     (\<exists>key_fn. cb_security_key (callbacks s) = Some key_fn \<and>
        fst (key_fn (srv_context s) level (drop 2 request)) = UDS_RESULT_OK))"
proof -
  have pos: "0 < lockout_ms (uds_security_gate_tick (security_gate s) now)"
    using gate_tick_inv[OF assms(4), of now] by (simp add: gate_inv_def)
  note f = same_but_context_fields(3) gate_tick_fields(1) gate_success_fields gate_grant_fields
    gate_failure_fields(1)[OF pos] gate_session_fields
  have sec: "request ! 0 = 0x27 \<and> security_outcome s request now s'"
    using assms(1-3) request_session_ok(5)[of s "request ! 1 AND 0x7F" now s']
    by (auto simp: request_outcome_def mark_reset_def f)
  then show ?thesis
    using assms(2,3) by (auto simp: security_outcome_def Let_def f)
qed

text \<open>
  C5. A security level opens only with its key: when a request leaves the server unlocked at a level it
  was not unlocked at before, that request was a SendKey for exactly this level, in the extended or
  programming session, with a valid seed of this level outstanding, no lockout or delay running,
  and the key callback of the application accepted the key bytes of the request.
\<close>

theorem unlock_needs_accepted_key:
  assumes "srv_inv s" "length request < 65536" "4 \<le> length response" "length response < 65536"
    and "uds_server_handle_addressed s request response rlen mode now = Some (result, s', response', rlen')"
    and "active_level (security_gate s') = level" "level \<noteq> 0" "level \<noteq> active_level (security_gate s)"
  shows "request ! 0 = 0x27 \<and> session s \<in> {2, 3} \<and>
    uds_security_subfunction_level (request ! 1) = Some (level, False) \<and>
    (\<exists>key_fn. cb_security_key (callbacks s) = Some key_fn \<and>
       fst (key_fn (srv_context s) level (drop 2 request)) = UDS_RESULT_OK) \<and>
    (let g = uds_security_gate_tick (security_gate s) now in
     seed_valid g \<and> seed_level g = level \<and> \<not> uds_security_gate_delay_active g now)"
proof -
  have "request_outcome (dispatched s mode now) request now s'"
    using handled[OF assms(1-5)] assms(6,8) by auto
  from outcome_level[OF this] show ?thesis
    using assms(1,6,7,8) by (auto simp: srv_inv_def Let_def security_session_allowed_def)
qed

theorem unlock_needs_accepted_key_witness:
  "\<exists>result s' response' rlen'. uds_server_handle_addressed
       (demo_server 3 (uds_security_gate_grant_seed demo_gate 1 0)) [0x27, 0x02, 0xCD, 0x01] (replicate 8 0) 0
       UDS_ADDRESS_PHYSICAL 5 = Some (result, s', response', rlen') \<and> active_level (security_gate s') = 1 \<and>
     seed_level (uds_security_gate_tick (uds_security_gate_grant_seed demo_gate 1 0) 5) = 1"
proof -
  let ?s = "demo_server 3 (uds_security_gate_grant_seed demo_gate 1 0)"
  have inv: "srv_inv ?s" using gate_seed_inv[OF demo_gate_inv] by (intro demo_server_inv) auto
  obtain s' response' where h: "uds_server_handle_addressed ?s [0x27, 0x02, 0xCD, 0x01] (replicate 8 0) 0
      UDS_ADDRESS_PHYSICAL 5 = Some (UDS_RESULT_OK, s', response', 2)" "active_level (security_gate s') = 1"
    by (simp add: demo_defs uds_server_handle_addressed_def check_service_attributes_def mem_simps
        attribute_lookup service_attr_def session_mask_def session_mask_defs
        k_service_dispatch_table_def service_security_access_def service_security_key_def
        security_session_allowed_def uds_security_subfunction_level_def security_delay_active_def
        uds_security_gate_delay_active_def uds_security_gate_grant_seed_def uds_security_gate_tick_def
        time_expired_def uds_security_gate_record_success_def uds_security_gate_invalidate_seed_def
        persist_def Let_def UDS_MAX_REQUEST_LENGTH_def UDS_SUPPRESS_POSITIVE_RESPONSE_def
        security_tick_def poke_list_eq)
  with unlock_needs_accepted_key[OF inv _ _ _ h] show ?thesis
    by (auto simp: demo_server_def Let_def gate_grant_fields)
qed

lemma negative_response_sent:
  assumes "request \<noteq> []" "3 \<le> length response" "length response < 65536"
    and "current_address_mode s = UDS_ADDRESS_PHYSICAL"
  shows "negative_response s request nrc response rlen =
    Some (UDS_RESULT_OK, s, [0x7F, request ! 0, nrc] @ drop 3 response, 3)"
proof -
  have "poke_list response 0 [0x7F, request ! 0, nrc] = Some ([0x7F, request ! 0, nrc] @ drop 3 response)"
    using assms(2) by (simp add: poke_list_eq numeral_3_eq_3)
  then show ?thesis using assms by (simp add: negative_response_def len_simps mem_simps)
qed

text \<open>
  During a lockout nothing is tried: while the delay of the gate runs, every SecurityAccess request
  with a known subfunction is answered with NRC 0x37 and reaches neither the seed nor the key
  callback; the only change is the tick of the gate.
\<close>

theorem lockout_blocks_security_access:
  assumes "session s \<in> {2, 3}" "cb_security_seed (callbacks s) = Some seed_fn"
    and "cb_security_key (callbacks s) = Some key_fn" "request ! 0 = 0x27"
    and "2 \<le> length request" "length request \<le> 4095" "3 \<le> length response" "length response < 65536"
    and "uds_security_subfunction_level (request ! 1) = Some x"
    and "uds_security_gate_delay_active (uds_security_gate_tick (security_gate s) now) now"
  shows "uds_server_handle_addressed s request response rlen UDS_ADDRESS_PHYSICAL now =
    Some (UDS_RESULT_OK, security_tick (dispatched s UDS_ADDRESS_PHYSICAL now) now,
      [0x7F, 0x27, 0x37] @ drop 3 response, 3)"
proof -
  have r: "request \<noteq> []" "length request < 65536" "response \<noteq> []" using assms(5,6,7) by auto
  have pk: "peek request 0 = Some 0x27" "peek request 1 = Some (request ! 1)"
    using assms(4,5) r by (simp_all add: peek_def)
  have "service_security_access (dispatched s UDS_ADDRESS_PHYSICAL now) request response 0 now =
      negative_response (security_tick (dispatched s UDS_ADDRESS_PHYSICAL now) now) request
        UDS_NRC_REQUIRED_TIME_DELAY_NOT_EXPIRED response 0"
    using assms(1-3,5,9,10) r pk
    by (cases x) (auto simp: service_security_access_def security_session_allowed_def len_simps
        security_delay_active_def)
  moreover have "current_address_mode (security_tick (dispatched s UDS_ADDRESS_PHYSICAL now) now) = UDS_ADDRESS_PHYSICAL"
    by (simp add: security_tick_def)
  ultimately show ?thesis
    using assms(1,4-8) r pk
    by (auto simp: uds_server_handle_addressed_def check_service_attributes_def attribute_lookup
        service_attr_def session_mask_def session_mask_defs Let_def len_simps UDS_MAX_REQUEST_LENGTH_def
        k_service_dispatch_table_def negative_response_sent UDS_NRC_REQUIRED_TIME_DELAY_NOT_EXPIRED_def)
qed

theorem lockout_blocks_security_access_witness:
  "let s = demo_server 3 (demo_gate\<lparr> lockout_active := True, lockout_until_ms := 10000 \<rparr>) in
   uds_server_handle_addressed s [0x27, 0x02, 0xCD, 0x01] [0, 0, 0] 0 UDS_ADDRESS_PHYSICAL 9999 =
   Some (UDS_RESULT_OK, security_tick (dispatched s UDS_ADDRESS_PHYSICAL 9999) 9999, [0x7F, 0x27, 0x37], 3)"
proof -
  define g where "g = demo_gate\<lparr> lockout_active := True, lockout_until_ms := 10000 \<rparr>"
  have d: "uds_security_gate_delay_active (uds_security_gate_tick g 9999) 9999"
    by (simp add: g_def uds_security_gate_delay_active_def uds_security_gate_tick_def time_expired_def Let_def
        demo_gate_def uds_security_gate_set_timing_def uds_security_gate_init_def)
  have l: "uds_security_subfunction_level 2 = Some (1, False)" by (simp add: uds_security_subfunction_level_def Let_def)
  have cb: "\<exists>f. cb_security_seed (callbacks (demo_server 3 g)) = Some f"
    "\<exists>f. cb_security_key (callbacks (demo_server 3 g)) = Some f" "session (demo_server 3 g) \<in> {2, 3}"
    "security_gate (demo_server 3 g) = g"
    by (simp_all add: demo_server_def demo_callbacks_def)
  then obtain f1 f2 where "cb_security_seed (callbacks (demo_server 3 g)) = Some f1"
    "cb_security_key (callbacks (demo_server 3 g)) = Some f2" by blast
  from lockout_blocks_security_access[OF cb(3) this, of "[0x27, 0x02, 0xCD, 0x01]" "[0, 0, 0]" "(1, False)" 9999 0] d l
  show ?thesis by (simp add: cb(4) g_def[symmetric])
qed

text \<open>
  The programming services are closed outside the programming session: RequestDownload,
  RequestUpload, TransferData, RequestTransferExit and RequestFileTransfer are refused with NRC
  0x7F and without any effect in the default and the extended session, and they are ignored, in
  every session, when they are functionally addressed.
\<close>

theorem programming_services_guarded:
  assumes "request ! 0 \<in> {0x34, 0x35, 0x36, 0x37, 0x38}" "request \<noteq> []" "length request \<le> 4095"
    and "3 \<le> length response" "length response < 65536"
  shows "(session s \<in> {1, 3} \<longrightarrow>
      uds_server_handle_addressed s request response rlen UDS_ADDRESS_PHYSICAL now =
      Some (UDS_RESULT_OK, s\<lparr> current_address_mode := UDS_ADDRESS_PHYSICAL \<rparr>,
        [0x7F, request ! 0, 0x7F] @ drop 3 response, 3)) \<and>
    uds_server_handle_addressed s request response rlen UDS_ADDRESS_FUNCTIONAL now =
      Some (UDS_RESULT_NO_RESPONSE, s\<lparr> current_address_mode := UDS_ADDRESS_FUNCTIONAL \<rparr>, response, 0)"
proof -
  have r: "length request < 65536" "response \<noteq> []" using assms(3,4) by auto
  have attr: "check_service_attributes (s\<lparr> current_address_mode := m \<rparr>) request m =
      Some UDS_NRC_SERVICE_NOT_SUPPORTED_IN_ACTIVE_SESSION"
    if "m = UDS_ADDRESS_FUNCTIONAL \<or> session s \<in> {1, 3}" for m
  proof -
    have pk: "peek request 0 = Some (request ! 0)" using assms(2) by (simp add: mem_simps)
    obtain sub where sub: "(if request_len request > 1 then map_option (\<lambda>r1. r1 AND 0x7F) (peek request 1)
        else Some UDS_SERVICE_ANY_SUBFUNCTION) = Some sub"
      using r by (cases "1 < length request") (auto simp: peek_def len_simps)
    have att: "uds_service_attribute (request ! 0) sub = service_attr (request ! 0) 2 1" "request ! 0 \<noteq> 0"
      using assms(1) by (auto simp: attribute_lookup)
    show ?thesis
      unfolding check_service_attributes_def pk bind.bind_lunit sub Let_def att(1)
      using that att(2) by (auto simp: service_attr_def session_mask_def session_mask_defs)
  qed
  have nz: "UDS_NRC_SERVICE_NOT_SUPPORTED_IN_ACTIVE_SESSION \<noteq> 0" by (simp add: nrc_defs)
  have guard: "\<not> (capacity response = 0 \<or> request_len request = 0 \<or> request_len request > of_nat UDS_MAX_REQUEST_LENGTH)"
    using assms(2,3,5) r by (simp add: len_simps UDS_MAX_REQUEST_LENGTH_def)
  have refuse: "uds_server_handle_addressed s request response rlen m now =
      negative_response (s\<lparr> current_address_mode := m \<rparr>) request
        UDS_NRC_SERVICE_NOT_SUPPORTED_IN_ACTIVE_SESSION response rlen"
    if "m = UDS_ADDRESS_FUNCTIONAL \<or> session s \<in> {1, 3}" for m
    unfolding uds_server_handle_addressed_def if_not_P[OF guard] Let_def attr[OF that]
    using nz by simp
  have phys: "session s \<in> {1, 3} \<longrightarrow>
      uds_server_handle_addressed s request response rlen UDS_ADDRESS_PHYSICAL now =
      Some (UDS_RESULT_OK, s\<lparr> current_address_mode := UDS_ADDRESS_PHYSICAL \<rparr>,
        [0x7F, request ! 0, 0x7F] @ drop 3 response, 3)"
    using negative_response_sent[OF assms(2,4,5), of "s\<lparr> current_address_mode := UDS_ADDRESS_PHYSICAL \<rparr>"]
    by (simp add: refuse UDS_NRC_SERVICE_NOT_SUPPORTED_IN_ACTIVE_SESSION_def)
  have func: "uds_server_handle_addressed s request response rlen UDS_ADDRESS_FUNCTIONAL now =
      Some (UDS_RESULT_NO_RESPONSE, s\<lparr> current_address_mode := UDS_ADDRESS_FUNCTIONAL \<rparr>, response, 0)"
    by (simp add: refuse negative_response_def nrc_suppressed_on_functional_def)
  from phys func show ?thesis ..
qed

theorem programming_services_guarded_witness:
  "uds_server_handle_addressed (demo_server 3 demo_gate) [0x34, 0, 0x11, 0, 1] [0, 0, 0] 0 UDS_ADDRESS_PHYSICAL 1 =
     Some (UDS_RESULT_OK, (demo_server 3 demo_gate)\<lparr> current_address_mode := UDS_ADDRESS_PHYSICAL \<rparr>,
       [0x7F, 0x34, 0x7F], 3)"
  using programming_services_guarded[of "[0x34, 0, 0x11, 0, 1]" "[0, 0, 0]" "demo_server 3 demo_gate" 0 1]
  by (simp add: demo_server_def)

section \<open>Timer and resets\<close>

text \<open>
  The S3 timer: a tick falls back to the default session exactly when the session timeout has
  passed since the last request (and no reset is due); it then closes the security level, the seed
  and the download but keeps the failed attempts and the lockout. Before that a tick leaves the
  session, the level and the download alone.
\<close>

theorem s3_timer:
  assumes "\<not> (reset_pending s \<and> reset_ready s)" "uds_server_tick s now = (result, s')"
  shows "if s3_server_timeout_ms s \<le> now - last_activity_ms s
    then result = UDS_RESULT_BUSY \<and> session s' = UDS_SESSION_DEFAULT \<and> \<not> download_active s' \<and>
      active_level (security_gate s') = 0 \<and> \<not> seed_valid (security_gate s') \<and>
      (let g = uds_security_gate_tick (security_gate s) now in
       failed_attempts (security_gate s') = failed_attempts g \<and>
       lockout_active (security_gate s') = lockout_active g \<and>
       lockout_until_ms (security_gate s') = lockout_until_ms g)
    else result = UDS_RESULT_OK \<and> session s' = session s \<and> download_active s' = download_active s \<and>
      active_level (security_gate s') = active_level (security_gate s)"
proof -
  have f: "last_activity_ms (security_tick s now) = last_activity_ms s"
    "s3_server_timeout_ms (security_tick s now) = s3_server_timeout_ms s"
    by (simp_all add: security_tick_def)
  show ?thesis
    using assms f gate_tick_fields(1)[of "security_gate s" now]
    by (auto simp: uds_server_tick_def Let_def security_reset_for_session_change_def
        uds_security_gate_reset_session_def split: if_splits)
qed

theorem s3_timer_witness:
  "\<exists>s'. uds_server_tick (demo_server 3 (demo_gate\<lparr> active_level := 1 \<rparr>)) 5000 = (UDS_RESULT_BUSY, s') \<and>
     session s' = UDS_SESSION_DEFAULT \<and> active_level (security_gate s') = 0"
proof -
  let ?s = "demo_server 3 (demo_gate\<lparr> active_level := 1 \<rparr>)"
  obtain result s' where t: "uds_server_tick ?s 5000 = (result, s')" by fastforce
  have "\<not> (reset_pending ?s \<and> reset_ready ?s)" "s3_server_timeout_ms ?s \<le> 5000 - last_activity_ms ?s"
    by (simp_all add: demo_server_def)
  with s3_timer[OF _ t] t show ?thesis by simp
qed

lemma step_keeps_not_ready:
  assumes "srv_inv s" "srv_ok e" "e \<noteq> SrvCompleteReset" "\<not> reset_ready s" "srv_step s e = Some s'"
  shows "\<not> reset_ready s'"
proof (cases e)
  case (SrvRequest request response mode now)
  with assms(5) obtain result response' rlen' where
    h: "uds_server_handle_addressed s request response 0 mode now = Some (result, s', response', rlen')"
    by auto
  have sec: "security_outcome t request now s' \<Longrightarrow> reset_ready s' = reset_ready t" for t
    by (auto simp: security_outcome_def Let_def same_but_context_fields(8))
  show ?thesis
    using handled[OF assms(1) _ _ _ h] assms(2,4) SrvRequest sec[of "dispatched s mode now"]
      request_session_ok(6)[of "dispatched s mode now" "request ! 1 AND 0x7F" now s']
    by (auto simp: request_outcome_def mark_reset_def same_but_context_fields(8))
qed (use assms in \<open>auto simp: uds_server_tick_def uds_server_request_session_def Let_def
    uds_server_complete_reset_def uds_server_clear_reset_def security_tick_def
    uds_server_apply_reset_def uds_server_reset_security_def uds_server_restore_security_state_def
    security_reset_for_session_change_def security_reset_for_ecu_reset_def
    split: option.splits if_splits\<close>)

text \<open>
  The reset handshake: a reset a request asked for is not executed on its own. As long as the
  transport has not completed the reset, no sequence of requests, ticks, session changes and
  security resets makes a tick call the reset callback; once it is completed, the next tick calls
  it exactly once with the subfunction of the request, and forgets the reset.
\<close>

theorem reset_waits_for_completion:
  assumes "srv_inv s" "\<not> reset_ready s" "list_all srv_ok es" "SrvCompleteReset \<notin> set es"
    and "run srv_step s es = Some s'"
  shows "srv_context (snd (uds_server_tick s' now)) = srv_context s' \<and>
    (\<forall>execute. reset_pending s' \<longrightarrow> cb_ecu_reset_execute (callbacks s') = Some execute \<longrightarrow>
      (let s1 = snd (uds_server_complete_reset s'); s2 = snd (uds_server_tick s1 now);
           s3 = snd (uds_server_tick s2 later) in
       srv_context s2 = execute (srv_context s') (pending_reset_subfunction s') \<and>
       srv_context s3 = srv_context s2 \<and> \<not> reset_pending s2))"
proof -
  have ready: "\<not> reset_ready s'"
    using assms
  proof (induction es arbitrary: s' rule: rev_induct)
    case Nil
    then show ?case by simp
  next
    case (snoc e es)
    then obtain u where u: "run srv_step s es = Some u" "srv_step u e = Some s'"
      by (auto simp: run_append split: Option.bind_splits)
    have "srv_inv u" using snoc.prems u(1) srvm.run_inv by fastforce
    moreover have "\<not> reset_ready u" using snoc.IH[OF snoc.prems(1,2) _ _ u(1)] snoc.prems(3,4) by simp
    moreover have "srv_ok e" "e \<noteq> SrvCompleteReset" using snoc.prems(3,4) by auto
    ultimately show ?case using step_keeps_not_ready[OF _ _ _ _ u(2)] by blast
  qed
  have quiet: "srv_context (snd (uds_server_tick t time)) = srv_context t"
    if "\<not> (reset_pending t \<and> reset_ready t)" for t :: "('a, 'b) UdsServer" and time
    using that by (auto simp: uds_server_tick_def Let_def security_reset_for_session_change_def)
  show ?thesis
    using ready quiet[of s' now]
    by (auto simp: quiet security_tick_def Let_def uds_server_complete_reset_def uds_server_tick_def[of "s'\<lparr> reset_ready := True \<rparr>"])
qed

theorem reset_waits_for_completion_witness:
  "\<exists>s'. run srv_step (demo_server 1 demo_gate) [SrvRequest [0x11, 0x01] (replicate 4 0) UDS_ADDRESS_PHYSICAL 5] = Some s' \<and>
     reset_pending s' \<and> srv_context (snd (uds_server_tick s' 6)) = [] \<and>
     srv_context (snd (uds_server_tick (snd (uds_server_complete_reset s')) 6)) = [1]"
proof -
  let ?es = "[SrvRequest [0x11, 0x01] (replicate 4 0) UDS_ADDRESS_PHYSICAL 5]"
  obtain s' where s': "run srv_step (demo_server 1 demo_gate) ?es = Some s'" "reset_pending s'"
    "srv_context s' = []" "pending_reset_subfunction s' = 1"
    "cb_ecu_reset_execute (callbacks s') = Some (\<lambda>log sub. log @ [sub])"
    by (simp add: demo_defs uds_server_handle_addressed_def check_service_attributes_def mem_simps
        uds_service_attribute_def service_attributes_def service_attr_def session_mask_def session_mask_defs
        k_service_dispatch_table_def wrap_defs service_ecu_reset_def Let_def UDS_MAX_REQUEST_LENGTH_def
        UDS_SUPPRESS_POSITIVE_RESPONSE_def mark_reset_def poke_list_eq)
  have "\<not> reset_ready (demo_server 1 demo_gate)" by (simp add: demo_server_def)
  from reset_waits_for_completion[OF demo_server_inv0 this _ _ s'(1), of 6] s'(2-5)
  have "srv_context (snd (uds_server_tick s' 6)) = []"
    "srv_context (snd (uds_server_tick (snd (uds_server_complete_reset s')) 6)) = [1]"
    by (simp_all add: Let_def)
  with s'(1,2) show ?thesis by blast
qed

section \<open>Transfer\<close>

text \<open>
  What the tester can rely on for the blocks of a download: a block with the expected counter and
  at most the agreed length is given to the application, every other block is refused. The counter
  advances exactly when the application accepts the block.
\<close>

definition transfer_spec ::
  "u16 \<Rightarrow> ('c \<Rightarrow> u8 \<Rightarrow> bytes \<Rightarrow> UdsCallbackResult \<times> 'c) \<Rightarrow> u8 \<times> 'c \<Rightarrow> u8 \<times> bytes \<Rightarrow> u8 \<times> 'c" where
  "transfer_spec mlen f = (\<lambda>(next_block, ctx) (block, data).
     if data \<noteq> [] \<and> block = next_block \<and> length data + 2 \<le> unat mlen
     then (case f ctx block data of (result, ctx') \<Rightarrow>
       (if result = UDS_RESULT_OK then next_block + 1 else next_block, ctx'))
     else (next_block, ctx))"

definition transfer_request :: "u8 \<times> bytes \<times> u32 \<Rightarrow> srv_event" where
  "transfer_request = (\<lambda>(block, data, now).
     SrvRequest (0x36 # block # data) (replicate 4 0) UDS_ADDRESS_PHYSICAL now)"

definition downloading :: "u16 \<Rightarrow> ('c \<Rightarrow> u8 \<Rightarrow> bytes \<Rightarrow> UdsCallbackResult \<times> 'c) \<Rightarrow> ('c, 'p) UdsServer \<Rightarrow> bool" where
  "downloading mlen f s \<longleftrightarrow> session s = UDS_SESSION_PROGRAMMING \<and> download_active s \<and>
     max_download_block_length s = mlen \<and> 3 \<le> mlen \<and> cb_transfer_data (callbacks s) = Some f"

lemma transfer_step:
  assumes "downloading mlen f s" "length data \<le> 4093"
  shows "\<exists>s'. srv_step s (transfer_request (block, data, now)) = Some s' \<and> downloading mlen f s' \<and>
    (next_download_block s', srv_context s') =
      transfer_spec mlen f (next_download_block s, srv_context s) (block, data)"
proof -
  define request where "request = 0x36 # block # data"
  define response :: bytes where "response = replicate 4 0"
  let ?s = "dispatched s UDS_ADDRESS_PHYSICAL now"
  have len: "length request = length data + 2" "length request < 65536" "request \<noteq> []"
    "length response = 4" "length response < 65536" "response \<noteq> []"
    using assms(2) by (simp_all add: request_def response_def)
  have pk: "peek request 0 = Some 0x36" "peek request 1 = Some block" "drop 2 request = data"
    "request ! 0 = 0x36"
    by (simp_all add: request_def peek_def)
  have ses: "session s = 2" "download_active s" "max_download_block_length s = mlen" "3 \<le> unat mlen"
    "cb_transfer_data (callbacks s) = Some f"
    using assms(1) by (auto simp: downloading_def word_le_nat_alt)
  have attr: "check_service_attributes (s\<lparr> current_address_mode := UDS_ADDRESS_PHYSICAL \<rparr>) request UDS_ADDRESS_PHYSICAL = Some 0"
    using len pk ses by (simp add: check_service_attributes_def attribute_lookup service_attr_def
        session_mask_def session_mask_defs Let_def len_simps)
  have guard: "\<not> (capacity response = 0 \<or> request_len request = 0 \<or> request_len request > of_nat UDS_MAX_REQUEST_LENGTH)"
    unfolding len_cmp[OF len(2)] len_cmp[OF len(5)] UDS_MAX_REQUEST_LENGTH_def
    using len assms(2) by simp
  have entry: "map_of k_service_dispatch_table 0x36 = Some wrap_transfer_data"
    by (simp add: k_service_dispatch_table_def)
  have h: "uds_server_handle_addressed s request response 0 UDS_ADDRESS_PHYSICAL now =
      service_transfer_data ?s request response 0"
    unfolding uds_server_handle_addressed_def if_not_P[OF guard] Let_def attr bind.bind_lunit pk entry
    by (simp add: wrap_transfer_data_def)
  have dl: "unat (request_len request - 2) = length data"
    using len len_room[OF len(2), of 2] by simp
  have ml: "unat (mlen - 2) = unat mlen - 2"
    using ses(4) by (simp add: unat_sub_16 word_le_nat_alt)
  obtain result ctx where out: "f (srv_context s) block data = (result, ctx)" by fastforce
  have "wp (service_transfer_data ?s request response 0) (answered request 4 (\<lambda>s'. downloading mlen f s' \<and>
    (next_download_block s', srv_context s') =
      transfer_spec mlen f (next_download_block s, srv_context s) (block, data)))"
    using len ses pk dl ml out
    by (auto simp: service_transfer_data_def transfer_spec_def downloading_def wp_handler Let_def
        word_le_nat_alt word_less_nat_alt)
  then obtain result s' response' rlen' where out:
    "service_transfer_data ?s request response 0 = Some (result, s', response', rlen')"
    "downloading mlen f s'" "(next_download_block s', srv_context s') =
      transfer_spec mlen f (next_download_block s, srv_context s) (block, data)"
    by (auto dest!: wpD)
  then show ?thesis
    using h by (simp add: transfer_request_def request_def[symmetric] response_def[symmetric])
qed

text \<open>
  C7. TransferData refines its specification over whole downloads: whatever blocks the tester sends,
  repeated, out of order or too long, the block counter and the state of the application are those
  of \<open>transfer_spec\<close> folded over the blocks.
\<close>

theorem transfer_data_refines:
  assumes "downloading mlen f s" "list_all (\<lambda>(block, data, now). length data \<le> 4093) blocks"
  shows "\<exists>s'. run srv_step s (map transfer_request blocks) = Some s' \<and> downloading mlen f s' \<and>
    (next_download_block s', srv_context s') =
      foldl (transfer_spec mlen f) (next_download_block s, srv_context s) (map (\<lambda>(b, d, t). (b, d)) blocks)"
  using assms
proof (induction blocks arbitrary: s)
  case Nil
  then show ?case by simp
next
  case (Cons x blocks)
  obtain block data now where x: "x = (block, data, now)" by (metis prod.exhaust)
  obtain u where u: "srv_step s (transfer_request x) = Some u" "downloading mlen f u"
    "(next_download_block u, srv_context u) =
      transfer_spec mlen f (next_download_block s, srv_context s) (block, data)"
    using transfer_step[OF Cons.prems(1), of data block now] Cons.prems(2) x by auto
  from Cons.IH[OF u(2)] Cons.prems(2) u x show ?case by auto
qed

theorem transfer_data_refines_witness:
  "\<exists>s'. run srv_step ((demo_server 2 demo_gate)\<lparr> download_active := True, max_download_block_length := 4 \<rparr>)
       (map transfer_request [(1, [0xA], 0), (1, [0xB], 1), (2, [1, 2, 3], 2), (2, [0xC, 0xD], 3)]) = Some s' \<and>
     next_download_block s' = 3 \<and> srv_context s' = [0xA, 0xC, 0xD]"
proof -
  let ?s = "(demo_server 2 demo_gate)\<lparr> download_active := True, max_download_block_length := 4 \<rparr>"
  let ?f = "\<lambda>log block data. (UDS_RESULT_OK, log @ data)"
  have "downloading 4 ?f ?s" by (simp add: downloading_def demo_server_def demo_callbacks_def)
  from transfer_data_refines[OF this, of "[(1, [0xA], 0), (1, [0xB], 1), (2, [1, 2, 3], 2), (2, [0xC, 0xD], 3)]"]
  show ?thesis by (auto simp: transfer_spec_def demo_server_def)
qed

end
