(* ===== verification/Isotp_Frame.thy ===== *)
theory Isotp_Frame
  imports Prelude
begin

text \<open>
  The data of the ISO-TP transport (\<open>library/include/uds_iso_tp/isotp.h\<close>) and the pure helpers
  of \<open>library/src/isotp.c\<close> that both directions share: configuration, CAN frames, frame
  validation, STmin decoding and deadlines.

  The microsecond clock of a configuration is a function pointer with a context; here it is a
  function of the context that returns the reading and the context after the call.
\<close>

section \<open>Data\<close>

record IsoTpCanFrame =
  f_can_id :: u32
  f_dlc :: u8
  f_is_fd :: bool
  f_bit_rate_switch :: bool
  f_data :: bytes

datatype IsoTpStatus =
    ISOTP_OK | ISOTP_COMPLETE | ISOTP_NEED_FLOW_CONTROL | ISOTP_TX_FRAME_READY
  | ISOTP_ERR_ARGUMENT | ISOTP_ERR_FORMAT | ISOTP_ERR_SEQUENCE | ISOTP_ERR_OVERFLOW
  | ISOTP_ERR_TIMEOUT | ISOTP_ERR_STATE | ISOTP_ERR_FLOW_CONTROL | ISOTP_ERR_FLOW_OVERFLOW

datatype IsoTpFlowStatus = ISOTP_FC_CTS | ISOTP_FC_WAIT | ISOTP_FC_OVERFLOW

primrec flow_status_code :: "IsoTpFlowStatus \<Rightarrow> u8" where
  "flow_status_code ISOTP_FC_CTS = 0"
| "flow_status_code ISOTP_FC_WAIT = 1"
| "flow_status_code ISOTP_FC_OVERFLOW = 2"

record 'k IsoTpConfig =
  block_size :: u8
  st_min :: u8
  rx_timeout_ms :: u32
  tx_timeout_ms :: u32
  max_wait_frames :: u8
  tx_dl :: u8
  rx_dl :: u8
  can_fd :: bool
  cfg_bit_rate_switch :: bool
  padding_enabled :: bool
  padding_value :: u8
  full_duplex :: bool
  clock_us :: "('k option \<Rightarrow> u32 \<times> 'k option) option"
  clock_context :: "'k option"

definition ISOTP_MAX_PAYLOAD :: nat where "ISOTP_MAX_PAYLOAD = 16384"
definition ISOTP_MAX_FRAME_DATA :: nat where "ISOTP_MAX_FRAME_DATA = 64"
definition ISOTP_DEFAULT_RX_TIMEOUT_MS :: u32 where "ISOTP_DEFAULT_RX_TIMEOUT_MS = 1000"
definition ISOTP_DEFAULT_TX_TIMEOUT_MS :: u32 where "ISOTP_DEFAULT_TX_TIMEOUT_MS = 1000"
definition ISOTP_DEFAULT_MAX_WAIT_FRAMES :: u8 where "ISOTP_DEFAULT_MAX_WAIT_FRAMES = 3"
definition ISOTP_DEFAULT_PADDING_VALUE :: u8 where "ISOTP_DEFAULT_PADDING_VALUE = 0xCC"

section \<open>Helpers of isotp.c\<close>

text \<open>The deadline test of the transport: \<open>(int32_t)(now - deadline) >= 0\<close>.\<close>

definition expired :: "u32 \<Rightarrow> u32 \<Rightarrow> bool" where
  "expired now d = (0 \<le> sint (now - d))"

definition min_u32 :: "u32 \<Rightarrow> u32 \<Rightarrow> u32" where
  "min_u32 a b = (if a < b then a else b)"

definition deadline :: "u32 \<Rightarrow> u32 \<Rightarrow> u32" where
  "deadline now timeout = now + timeout"

definition valid_fd_dl :: "u8 \<Rightarrow> bool" where
  "valid_fd_dl dl = (dl = 8 \<or> dl = 12 \<or> dl = 16 \<or> dl = 20 \<or> dl = 24 \<or> dl = 32 \<or> dl = 48 \<or> dl = 64)"

definition valid_tx_config :: "'k IsoTpConfig \<Rightarrow> bool" where
  "valid_tx_config cfg =
     (if can_fd cfg then valid_fd_dl (tx_dl cfg) \<and> valid_fd_dl (rx_dl cfg)
      else tx_dl cfg = 8 \<and> rx_dl cfg = 8)"

definition fd_dl_values :: "u8 list" where
  "fd_dl_values = [8, 12, 16, 20, 24, 32, 48, 64]"

fun fd_dl_scan :: "u32 \<Rightarrow> u8 list \<Rightarrow> u8" where
  "fd_dl_scan len [] = 64"
| "fd_dl_scan len (v # vs) = (if len \<le> ucast v then v else fd_dl_scan len vs)"

definition fd_dl_for_length :: "u32 \<Rightarrow> u8" where
  "fd_dl_for_length len = fd_dl_scan len fd_dl_values"

definition frame_valid :: "'k IsoTpConfig \<Rightarrow> IsoTpCanFrame \<Rightarrow> bool" where
  "frame_valid cfg frame =
     (if f_dlc frame = 0 \<or> unat (f_dlc frame) > ISOTP_MAX_FRAME_DATA then False
      else if \<not> f_is_fd frame then f_dlc frame \<le> 8
      else if \<not> can_fd cfg \<or> \<not> valid_fd_dl (f_dlc frame) then False
      else if rx_dl cfg \<noteq> 0 \<and> f_dlc frame > rx_dl cfg then False
      else True)"

text \<open>\<open>clear_frame\<close> overwrites every field of the frame, so the old frame is no argument.\<close>

definition clear_frame :: "u32 \<Rightarrow> 'k IsoTpConfig \<Rightarrow> IsoTpCanFrame" where
  "clear_frame can_id cfg =
     \<lparr> f_can_id = can_id,
       f_dlc = (if can_fd cfg then tx_dl cfg else 8),
       f_is_fd = can_fd cfg,
       f_bit_rate_switch = (can_fd cfg \<and> cfg_bit_rate_switch cfg),
       f_data = replicate ISOTP_MAX_FRAME_DATA (if padding_enabled cfg then padding_value cfg else 0) \<rparr>"

definition valid_st_min :: "u8 \<Rightarrow> bool" where
  "valid_st_min value = True"

definition st_min_ms :: "u8 \<Rightarrow> u32" where
  "st_min_ms value =
     (if value \<le> 0x7F then ucast value
      else if value \<ge> 0xF1 \<and> value \<le> 0xF9 then 1
      else 127)"

definition st_min_us :: "u8 \<Rightarrow> u32" where
  "st_min_us value =
     (if value \<le> 0x7F then ucast value * 1000
      else if value \<ge> 0xF1 \<and> value \<le> 0xF9 then (ucast value - 0xF0) * 100
      else 127000)"

section \<open>Configuration\<close>

definition isotp_config_classic_can :: "'k IsoTpConfig" where
  "isotp_config_classic_can =
     \<lparr> block_size = 8, st_min = 0,
       rx_timeout_ms = ISOTP_DEFAULT_RX_TIMEOUT_MS,
       tx_timeout_ms = ISOTP_DEFAULT_TX_TIMEOUT_MS,
       max_wait_frames = ISOTP_DEFAULT_MAX_WAIT_FRAMES,
       tx_dl = 8, rx_dl = 8, can_fd = False, cfg_bit_rate_switch = False,
       padding_enabled = False, padding_value = ISOTP_DEFAULT_PADDING_VALUE,
       full_duplex = False, clock_us = None, clock_context = None \<rparr>"

definition isotp_config_default :: "'k IsoTpConfig" where
  "isotp_config_default = isotp_config_classic_can"

definition isotp_config_can_fd :: "u8 \<Rightarrow> u8 \<Rightarrow> 'k IsoTpConfig" where
  "isotp_config_can_fd tx rx = isotp_config_classic_can
     \<lparr> can_fd := True,
       tx_dl := (if valid_fd_dl tx then tx else 64),
       rx_dl := (if valid_fd_dl rx then rx else 64) \<rparr>"

definition isotp_config_set_padding :: "'k IsoTpConfig \<Rightarrow> bool \<Rightarrow> u8 \<Rightarrow> 'k IsoTpConfig" where
  "isotp_config_set_padding cfg enabled value =
     cfg\<lparr> padding_enabled := enabled, padding_value := value \<rparr>"

definition isotp_config_set_full_duplex :: "'k IsoTpConfig \<Rightarrow> bool \<Rightarrow> 'k IsoTpConfig" where
  "isotp_config_set_full_duplex cfg enabled = cfg\<lparr> full_duplex := enabled \<rparr>"

definition isotp_config_set_clock_us ::
  "'k IsoTpConfig \<Rightarrow> ('k option \<Rightarrow> u32 \<times> 'k option) option \<Rightarrow> 'k option \<Rightarrow> 'k IsoTpConfig" where
  "isotp_config_set_clock_us cfg clock context =
     cfg\<lparr> clock_us := clock, clock_context := context \<rparr>"

section \<open>Facts about the helpers\<close>

definition wf_frame :: "IsoTpCanFrame \<Rightarrow> bool" where
  "wf_frame f = (length (f_data f) = 64)"

lemma expired_unat: "expired now d \<longleftrightarrow> unat (now - d) < 2147483648"
  by (simp add: expired_def sint_32_nonneg_iff)

lemma expired_refl [simp]: "expired now now"
  by (simp add: expired_unat)

text \<open>A fresh deadline of \<open>t\<close> ms is not expired exactly while less than \<open>t\<close> ms have passed.\<close>

lemma expired_deadline:
  assumes "unat t \<le> 2147483648" "unat e < 2147483648"
  shows "expired (now + e) (deadline now t) \<longleftrightarrow> unat t \<le> unat e"
  using sint_deadline[OF assms] by (simp add: expired_def deadline_def)

lemma valid_fd_dl_bounds: "valid_fd_dl dl \<Longrightarrow> 8 \<le> unat dl \<and> unat dl \<le> 64"
  by (auto simp: valid_fd_dl_def)

lemma valid_tx_config_tx_dl: "valid_tx_config cfg \<Longrightarrow> 8 \<le> unat (tx_dl cfg) \<and> unat (tx_dl cfg) \<le> 64"
  by (auto simp: valid_tx_config_def valid_fd_dl_bounds split: if_splits)

lemma frame_valid_dlc: "frame_valid cfg f \<Longrightarrow> 0 < unat (f_dlc f) \<and> unat (f_dlc f) \<le> 64"
  by (auto simp: frame_valid_def ISOTP_MAX_FRAME_DATA_def unat_gt_0 split: if_splits)

lemma fd_dl_scan_set: "fd_dl_scan len vs \<in> insert 64 (set vs)"
  by (induction vs) auto

lemma fd_dl_scan_ge: "unat len \<le> 64 \<Longrightarrow> unat len \<le> unat (fd_dl_scan len vs)"
  by (induction vs) (auto simp: word_le_nat_alt)

lemma fd_dl_scan_least:
  "sorted (map unat vs) \<Longrightarrow> v \<in> set vs \<Longrightarrow> unat len \<le> unat v \<Longrightarrow> unat (fd_dl_scan len vs) \<le> unat v"
  by (induction vs) (auto simp: word_le_nat_alt)

lemma fd_dl_for_length_valid: "valid_fd_dl (fd_dl_for_length len)"
  using fd_dl_scan_set[of len fd_dl_values]
  by (auto simp: fd_dl_for_length_def fd_dl_values_def valid_fd_dl_def)

lemma fd_dl_for_length_ge: "unat len \<le> 64 \<Longrightarrow> unat len \<le> unat (fd_dl_for_length len)"
  by (simp add: fd_dl_for_length_def fd_dl_scan_ge)

lemma valid_fd_dl_values: "valid_fd_dl v \<longleftrightarrow> v \<in> set fd_dl_values"
  by (auto simp: valid_fd_dl_def fd_dl_values_def)

text \<open>\<open>fd_dl_for_length\<close> picks the smallest CAN FD data length that holds the payload.\<close>

lemma fd_dl_for_length_least:
  "valid_fd_dl v \<Longrightarrow> unat len \<le> unat v \<Longrightarrow> unat (fd_dl_for_length len) \<le> unat v"
  unfolding fd_dl_for_length_def
  by (rule fd_dl_scan_least) (simp_all add: fd_dl_values_def valid_fd_dl_def)

lemma clear_frame_simps [simp]:
  "f_can_id (clear_frame i cfg) = i"
  "f_dlc (clear_frame i cfg) = (if can_fd cfg then tx_dl cfg else 8)"
  "f_is_fd (clear_frame i cfg) = can_fd cfg"
  "length (f_data (clear_frame i cfg)) = 64"
  by (simp_all add: clear_frame_def ISOTP_MAX_FRAME_DATA_def)

lemma config_constructors_valid:
  "valid_tx_config isotp_config_default"
  "valid_tx_config (isotp_config_can_fd tx rx)"
  by (auto simp: valid_tx_config_def isotp_config_default_def isotp_config_can_fd_def
      isotp_config_classic_can_def valid_fd_dl_def)

text \<open>The microsecond separation time never exceeds the millisecond one.\<close>

lemma st_min_us_le_ms: "unat (st_min_us v) \<le> 1000 * unat (st_min_ms v)"
proof -
  consider "v \<le> 0x7F" | "\<not> v \<le> 0x7F" "v \<ge> 0xF1 \<and> v \<le> 0xF9" | "\<not> v \<le> 0x7F" "\<not> (v \<ge> 0xF1 \<and> v \<le> 0xF9)"
    by blast
  then show ?thesis
  proof cases
    case 1
    then have "unat v \<le> 127" by (simp add: word_le_nat_alt)
    with 1 show ?thesis
      by (simp add: st_min_us_def st_min_ms_def unat_word_ariths)
  next
    case 2
    then have b: "241 \<le> unat v" "unat v \<le> 249" by (simp_all add: word_le_nat_alt)
    then have le9: "unat (ucast v - 0xF0 :: u32) \<le> 9"
      by (subst unat_sub_32) (simp_all add: word_le_nat_alt)
    have times: "unat (w * 100) \<le> 900" if "unat w \<le> 9" for w :: u32
      using that by (simp add: unat_word_ariths)
    from times[OF le9] have "unat ((ucast v - 0xF0) * 100 :: u32) \<le> 900" .
    with 2 show ?thesis
      by (simp add: st_min_us_def st_min_ms_def del: left_diff_distrib')
  next
    case 3
    then show ?thesis by (auto simp: st_min_us_def st_min_ms_def)
  qed
qed

section \<open>Properties\<close>

text \<open>
  CAN FD data lengths: for every length up to 64, \<open>fd_dl_for_length\<close> returns a legal CAN FD
  data length that holds it, and no legal data length that holds it is smaller.
\<close>

theorem fd_dl_smallest:
  assumes "unat len \<le> 64"
  shows "valid_fd_dl (fd_dl_for_length len) \<and> unat len \<le> unat (fd_dl_for_length len) \<and>
    (\<forall>v. valid_fd_dl v \<and> unat len \<le> unat v \<longrightarrow> unat (fd_dl_for_length len) \<le> unat v)"
  using assms fd_dl_for_length_valid fd_dl_for_length_ge fd_dl_for_length_least by blast

theorem fd_dl_smallest_witness: "fd_dl_for_length 33 = 48 \<and> unat (fd_dl_for_length 33) \<le> 48"
proof -
  have "valid_fd_dl 48" "unat (33 :: u32) \<le> unat (48 :: u8)" by (simp_all add: valid_fd_dl_def)
  moreover have "unat (33 :: u32) \<le> 64" by simp
  ultimately have "unat (fd_dl_for_length 33) \<le> unat (48 :: u8)"
    using fd_dl_smallest[of 33] by blast
  then show ?thesis by (simp add: fd_dl_for_length_def fd_dl_values_def)
qed

text \<open>
  Deadlines: with a timeout of at most half the counter range, a deadline set at any time,
  the wrap-around of the millisecond counter included, is expired exactly when at least the
  timeout has passed.
\<close>

theorem deadline_exact:
  assumes "unat t \<le> 2147483648" "unat e < 2147483648"
  shows "expired (now + e) (deadline now t) \<longleftrightarrow> unat t \<le> unat e"
  using assms by (rule expired_deadline)

theorem deadline_exact_witness:
  "\<not> expired (0xFFFFFFFF + 999) (deadline 0xFFFFFFFF 1000) \<and> expired (0xFFFFFFFF + 1000) (deadline 0xFFFFFFFF 1000)"
  using deadline_exact[of 1000 999 "0xFFFFFFFF"] deadline_exact[of 1000 1000 "0xFFFFFFFF"] by simp

end
