(* ===== verification/Isotp_Rx.thy ===== *)
theory Isotp_Rx
  imports Isotp_Frame
begin

text \<open>
  The receive direction of the transport (\<open>isotp_rx_*\<close> of \<open>library/src/isotp.c\<close>): the
  reassembly state, one definition per function, memory safety with the state invariant, and
  the refinement to an abstract reassembler.

  An operation returns \<open>None\<close> when a buffer access would leave its array. The payload pointer of
  an event is the content of the receive buffer it points to, \<open>None\<close> for \<open>NULL\<close>.
\<close>

section \<open>State\<close>

record 'k IsoTpRx =
  rx_config :: "'k IsoTpConfig"
  rx_request_id :: u32
  rx_response_id :: u32
  rx_buffer :: bytes
  rx_expected_len :: u32
  rx_received_len :: u32
  rx_next_sequence :: u8
  rx_block_count :: u8
  rx_deadline_ms :: u32
  rx_active :: bool

record IsoTpRxEvent =
  ev_payload :: "bytes option"
  ev_length :: u32
  ev_has_flow_control :: bool
  ev_unexpected_n_pdu :: bool
  ev_flow_control :: IsoTpCanFrame

section \<open>Operations\<close>

definition isotp_rx_reset :: "'k IsoTpRx \<Rightarrow> 'k IsoTpRx" where
  "isotp_rx_reset rx = rx
     \<lparr> rx_expected_len := 0, rx_received_len := 0, rx_next_sequence := 1, rx_block_count := 0,
       rx_deadline_ms := 0, rx_active := False \<rparr>"

definition isotp_rx_init :: "'k IsoTpRx \<Rightarrow> 'k IsoTpConfig option \<Rightarrow> u32 \<Rightarrow> u32 \<Rightarrow> 'k IsoTpRx" where
  "isotp_rx_init rx config req resp = isotp_rx_reset (rx
     \<lparr> rx_config := (case config of Some c \<Rightarrow> c | None \<Rightarrow> isotp_config_default),
       rx_request_id := req, rx_response_id := resp \<rparr>)"

definition make_fc :: "'k IsoTpRx \<Rightarrow> IsoTpRxEvent \<Rightarrow> IsoTpFlowStatus \<Rightarrow> IsoTpRxEvent" where
  "make_fc rx event status =
     (let cfg = rx_config rx; fc = clear_frame (rx_response_id rx) cfg in
      event
       \<lparr> ev_flow_control := fc
           \<lparr> f_dlc := (if can_fd cfg then tx_dl cfg else if padding_enabled cfg then 8 else 3),
             f_data := (f_data fc)
               [0 := 0x30 OR (flow_status_code status AND 0x0F),
                1 := (if status = ISOTP_FC_CTS then block_size cfg else 0),
                2 := (if status = ISOTP_FC_CTS then st_min cfg else 0)] \<rparr>,
         ev_has_flow_control := True \<rparr>)"

text \<open>The decoders return the payload length and the header size.\<close>

definition decode_sf :: "IsoTpCanFrame \<Rightarrow> (u32 \<times> u8) option" where
  "decode_sf frame =
     (let low = f_data frame ! 0 AND 0x0F in
      if low \<noteq> 0 then Some (ucast low, 1)
      else if \<not> f_is_fd frame \<or> f_dlc frame < 2 \<or> f_data frame ! 1 = 0 then None
      else Some (ucast (f_data frame ! 1), 2))"

definition decode_ff :: "IsoTpCanFrame \<Rightarrow> (u32 \<times> u8) option" where
  "decode_ff frame =
     (let low = f_data frame ! 0 AND 0x0F; d = f_data frame in
      if \<not> f_is_fd frame \<or> low \<noteq> 0 \<or> d ! 1 \<noteq> 0
      then Some (push_bit 8 (ucast low) OR ucast (d ! 1), 2)
      else if f_dlc frame < 6 \<or> d ! 1 \<noteq> 0 then None
      else (let len = push_bit 24 (ucast (d ! 2)) OR push_bit 16 (ucast (d ! 3)) OR
                      push_bit 8 (ucast (d ! 4)) OR ucast (d ! 5) in
            if len \<le> 4095 then None else Some (len, 6)))"

definition rx_single ::
  "'k IsoTpRx \<Rightarrow> IsoTpCanFrame \<Rightarrow> IsoTpRxEvent \<Rightarrow> (IsoTpStatus \<times> 'k IsoTpRx \<times> IsoTpRxEvent) option" where
  "rx_single rx frame event =
     (case decode_sf frame of
        None \<Rightarrow> Some (ISOTP_ERR_FORMAT, rx, event)
      | Some (len, header) \<Rightarrow>
          if len > ucast (f_dlc frame) - ucast header then Some (ISOTP_ERR_FORMAT, rx, event)
          else if unat len > ISOTP_MAX_PAYLOAD then Some (ISOTP_ERR_OVERFLOW, rx, event)
          else do {
            let rx' = isotp_rx_reset rx;
            buf \<leftarrow> copy_loop (rx_buffer rx') 0 (f_data frame) (unat header) (unat len);
            Some (ISOTP_COMPLETE, rx'\<lparr> rx_buffer := buf \<rparr>,
                  event\<lparr> ev_payload := Some buf, ev_length := len \<rparr>)
          })"

definition rx_first ::
  "'k IsoTpRx \<Rightarrow> IsoTpCanFrame \<Rightarrow> u32 \<Rightarrow> IsoTpRxEvent \<Rightarrow>
     (IsoTpStatus \<times> 'k IsoTpRx \<times> IsoTpRxEvent) option" where
  "rx_first rx frame now event =
     (if f_dlc frame < 2 then Some (ISOTP_ERR_FORMAT, rx, event)
      else if \<not> can_fd (rx_config rx) \<and> f_dlc frame < 8 then Some (ISOTP_ERR_FORMAT, rx, event)
      else case decode_ff frame of
        None \<Rightarrow> Some (ISOTP_ERR_FORMAT, rx, event)
      | Some (len, header) \<Rightarrow>
          if len \<le> 7 then Some (ISOTP_ERR_FORMAT, rx, event)
          else if unat len > ISOTP_MAX_PAYLOAD then
            Some (ISOTP_ERR_OVERFLOW, isotp_rx_reset rx, make_fc rx event ISOTP_FC_OVERFLOW)
          else do {
            let received = min_u32 (ucast (f_dlc frame) - ucast header) len;
            buf \<leftarrow> copy_loop (rx_buffer rx) 0 (f_data frame) (unat header) (unat received);
            let rx' = rx\<lparr> rx_expected_len := len, rx_received_len := received, rx_buffer := buf,
                          rx_next_sequence := 1, rx_block_count := 0,
                          rx_deadline_ms := deadline now (rx_timeout_ms (rx_config rx)),
                          rx_active := (received < len) \<rparr>;
            (if \<not> rx_active rx'
             then Some (ISOTP_COMPLETE, rx', event\<lparr> ev_payload := Some buf, ev_length := len \<rparr>)
             else Some (ISOTP_NEED_FLOW_CONTROL, rx', make_fc rx' event ISOTP_FC_CTS))
          })"

definition rx_consecutive ::
  "'k IsoTpRx \<Rightarrow> IsoTpCanFrame \<Rightarrow> u32 \<Rightarrow> IsoTpRxEvent \<Rightarrow>
     (IsoTpStatus \<times> 'k IsoTpRx \<times> IsoTpRxEvent) option" where
  "rx_consecutive rx frame now event =
     (if \<not> rx_active rx then Some (ISOTP_ERR_STATE, rx, event)
      else if f_dlc frame < 1 then Some (ISOTP_ERR_FORMAT, rx, event)
      else if f_data frame ! 0 AND 0x0F \<noteq> rx_next_sequence rx
      then Some (ISOTP_ERR_SEQUENCE, isotp_rx_reset rx, event)
      else if \<not> can_fd (rx_config rx) \<and>
              rx_expected_len rx - rx_received_len rx > ucast (f_dlc frame) - 1 \<and> f_dlc frame < 8
      then Some (ISOTP_ERR_FORMAT, isotp_rx_reset rx, event)
      else do {
        let copy_len = min_u32 (ucast (f_dlc frame) - 1) (rx_expected_len rx - rx_received_len rx);
        buf \<leftarrow> copy_loop (rx_buffer rx) (unat (rx_received_len rx)) (f_data frame) 1 (unat copy_len);
        let rx' = rx\<lparr> rx_buffer := buf,
                      rx_received_len := rx_received_len rx + copy_len,
                      rx_next_sequence := (rx_next_sequence rx + 1) AND 0x0F,
                      rx_block_count := rx_block_count rx + 1,
                      rx_deadline_ms := deadline now (rx_timeout_ms (rx_config rx)) \<rparr>;
        (if rx_received_len rx' \<ge> rx_expected_len rx'
         then Some (ISOTP_COMPLETE, rx'\<lparr> rx_active := False \<rparr>,
                    event\<lparr> ev_payload := Some buf, ev_length := rx_expected_len rx' \<rparr>)
         else if block_size (rx_config rx) \<noteq> 0 \<and> rx_block_count rx' \<ge> block_size (rx_config rx)
         then (let rx'' = rx'\<lparr> rx_block_count := 0 \<rparr> in
               Some (ISOTP_NEED_FLOW_CONTROL, rx'', make_fc rx'' event ISOTP_FC_CTS))
         else Some (ISOTP_OK, rx', event))
      })"

definition is_unexpected_n_pdu :: "'k IsoTpRx \<Rightarrow> u8 \<Rightarrow> bool" where
  "is_unexpected_n_pdu rx type =
     (rx_active rx \<and> full_duplex (rx_config rx) \<and> (type = 0 \<or> type = 1))"

definition isotp_rx_feed ::
  "'k IsoTpRx \<Rightarrow> IsoTpCanFrame \<Rightarrow> u32 \<Rightarrow> IsoTpRxEvent \<Rightarrow>
     (IsoTpStatus \<times> 'k IsoTpRx \<times> IsoTpRxEvent) option" where
  "isotp_rx_feed rx frame now event =
     (if \<not> frame_valid (rx_config rx) frame then Some (ISOTP_ERR_ARGUMENT, rx, event)
      else
       let event = event\<lparr> ev_payload := None, ev_length := 0, ev_has_flow_control := False,
                           ev_unexpected_n_pdu := False \<rparr> in
       if f_can_id frame \<noteq> rx_request_id rx then Some (ISOTP_OK, rx, event)
       else
        let type = drop_bit 4 (f_data frame ! 0);
            unexpected = is_unexpected_n_pdu rx type;
            event = (if unexpected then event\<lparr> ev_unexpected_n_pdu := True \<rparr> else event);
            rx = (if unexpected then isotp_rx_reset rx else rx) in
        if type = 0 then rx_single rx frame event
        else if type = 1 then rx_first rx frame now event
        else if type = 2 then rx_consecutive rx frame now event
        else if full_duplex (rx_config rx) \<and> rx_active rx then Some (ISOTP_OK, rx, event)
        else Some (if type = 3 then ISOTP_ERR_STATE else ISOTP_ERR_FORMAT, rx, event))"

definition isotp_rx_tick :: "'k IsoTpRx \<Rightarrow> u32 \<Rightarrow> IsoTpStatus \<times> 'k IsoTpRx" where
  "isotp_rx_tick rx now =
     (if \<not> rx_active rx then (ISOTP_OK, rx)
      else if expired now (rx_deadline_ms rx) then (ISOTP_ERR_TIMEOUT, isotp_rx_reset rx)
      else (ISOTP_OK, rx))"


section \<open>Memory safety and the state invariant\<close>

definition rx_inv :: "'k IsoTpRx \<Rightarrow> bool" where
  "rx_inv rx \<longleftrightarrow>
     length (rx_buffer rx) = ISOTP_MAX_PAYLOAD \<and>
     unat (rx_next_sequence rx) < 16 \<and>
     (rx_active rx \<longrightarrow> unat (rx_received_len rx) < unat (rx_expected_len rx) \<and>
                     unat (rx_expected_len rx) \<le> ISOTP_MAX_PAYLOAD)"

lemma rx_reset_simps [simp]:
  "rx_active (isotp_rx_reset rx) = False"
  "rx_next_sequence (isotp_rx_reset rx) = 1"
  "rx_buffer (isotp_rx_reset rx) = rx_buffer rx"
  "rx_config (isotp_rx_reset rx) = rx_config rx"
  "rx_request_id (isotp_rx_reset rx) = rx_request_id rx"
  "rx_response_id (isotp_rx_reset rx) = rx_response_id rx"
  "rx_inv rx \<Longrightarrow> rx_inv (isotp_rx_reset rx)"
  by (simp_all add: isotp_rx_reset_def rx_inv_def)

lemma rx_init_inv: "length (rx_buffer rx) = ISOTP_MAX_PAYLOAD \<Longrightarrow> rx_inv (isotp_rx_init rx cfg req resp)"
  by (simp add: isotp_rx_init_def isotp_rx_reset_def rx_inv_def)

text \<open>The decoders in natural numbers.\<close>

lemma decode_sf_Some:
  assumes "decode_sf f = Some (len, h)" "0 < unat (f_dlc f)"
  shows "0 < unat h" "unat h \<le> unat (f_dlc f)" "unat len < 256"
    "unat (ucast (f_dlc f) - ucast h :: u32) = unat (f_dlc f) - unat h"
proof -
  show "0 < unat h" and h: "unat h \<le> unat (f_dlc f)" and "unat len < 256"
    using assms by (auto simp: decode_sf_def Let_def word_less_nat_alt split: if_splits)
  show "unat (ucast (f_dlc f) - ucast h :: u32) = unat (f_dlc f) - unat h"
    using h by (subst unat_sub_32) (simp_all add: word_le_nat_alt)
qed

lemma decode_ff_Some:
  assumes "decode_ff f = Some (len, h)" "\<not> f_dlc f < 2"
  shows "0 < unat h" "unat h \<le> unat (f_dlc f)"
    "unat (ucast (f_dlc f) - ucast h :: u32) = unat (f_dlc f) - unat h"
proof -
  show "0 < unat h" and h: "unat h \<le> unat (f_dlc f)"
    using assms by (auto simp: decode_ff_def Let_def word_less_nat_alt split: if_splits)
  show "unat (ucast (f_dlc f) - ucast h :: u32) = unat (f_dlc f) - unat h"
    using h by (subst unat_sub_32) (simp_all add: word_le_nat_alt)
qed

lemma unat_min_u32 [simp]: "unat (min_u32 a b) = min (unat a) (unat b)"
  by (simp add: min_u32_def min_def word_less_nat_alt)

lemma rx_single_eq:
  assumes "rx_inv rx" "wf_frame f" "frame_valid (rx_config rx) f"
  shows "rx_single rx f ev =
    Some (case decode_sf f of
        None \<Rightarrow> (ISOTP_ERR_FORMAT, rx, ev)
      | Some (len, h) \<Rightarrow>
          if unat (f_dlc f) - unat h < unat len then (ISOTP_ERR_FORMAT, rx, ev)
          else (let buf = take (unat len) (drop (unat h) (f_data f)) @ drop (unat len) (rx_buffer rx) in
            (ISOTP_COMPLETE, (isotp_rx_reset rx)\<lparr> rx_buffer := buf \<rparr>,
             ev\<lparr> ev_payload := Some buf, ev_length := len \<rparr>)))"
proof (cases "decode_sf f")
  case None
  then show ?thesis by (simp add: rx_single_def)
next
  case (Some p)
  obtain len h where p: "p = (len, h)" by (cases p)
  note d = decode_sf_Some[OF Some[unfolded p] frame_valid_dlc[OF assms(3), THEN conjunct1]]
  note dlc = frame_valid_dlc[OF assms(3)]
  have copy: "copy_loop (rx_buffer rx) 0 (f_data f) (unat h) (unat len) =
      Some (take (unat len) (drop (unat h) (f_data f)) @ drop (unat len) (rx_buffer rx))"
    if "unat len \<le> unat (f_dlc f) - unat h"
    using that assms d(1-3) dlc
    by (subst copy_loop_closed) (auto simp: rx_inv_def wf_frame_def ISOTP_MAX_PAYLOAD_def)
  have gt: "len > ucast (f_dlc f) - ucast h \<longleftrightarrow> unat (f_dlc f) - unat h < unat len"
    using d(4) by (simp add: word_less_nat_alt)
  show ?thesis
    using d(3) copy by (simp add: rx_single_def Some p gt ISOTP_MAX_PAYLOAD_def Let_def not_less)
qed

lemma rx_single_inv:
  assumes "rx_inv rx" "wf_frame f" "frame_valid (rx_config rx) f"
    and "rx_single rx f ev = Some (st, rx', ev')"
  shows "rx_inv rx'" "rx_config rx' = rx_config rx"
  using assms decode_sf_Some[of f] frame_valid_dlc[OF assms(3)]
  by (auto simp: rx_single_eq Let_def rx_inv_def wf_frame_def isotp_rx_reset_def ISOTP_MAX_PAYLOAD_def
      split: option.splits if_splits prod.splits)

lemma make_fc_simps [simp]:
  "ev_payload (make_fc rx ev s) = ev_payload ev"
  "ev_length (make_fc rx ev s) = ev_length ev"
  "ev_has_flow_control (make_fc rx ev s) = True"
  "ev_unexpected_n_pdu (make_fc rx ev s) = ev_unexpected_n_pdu ev"
  by (simp_all add: make_fc_def Let_def)

definition rx_first_state :: "'k IsoTpRx \<Rightarrow> IsoTpCanFrame \<Rightarrow> u32 \<Rightarrow> u32 \<Rightarrow> u8 \<Rightarrow> 'k IsoTpRx" where
  "rx_first_state rx f now len h =
     (let n = min (unat (f_dlc f) - unat h) (unat len) in
      rx\<lparr> rx_expected_len := len, rx_received_len := of_nat n,
          rx_buffer := take n (drop (unat h) (f_data f)) @ drop n (rx_buffer rx),
          rx_next_sequence := 1, rx_block_count := 0,
          rx_deadline_ms := deadline now (rx_timeout_ms (rx_config rx)),
          rx_active := (n < unat len) \<rparr>)"

lemma rx_first_eq:
  assumes "rx_inv rx" "wf_frame f" "frame_valid (rx_config rx) f"
  shows "rx_first rx f now ev =
    Some (if f_dlc f < 2 \<or> \<not> can_fd (rx_config rx) \<and> f_dlc f < 8 then (ISOTP_ERR_FORMAT, rx, ev)
      else case decode_ff f of
        None \<Rightarrow> (ISOTP_ERR_FORMAT, rx, ev)
      | Some (len, h) \<Rightarrow>
          if unat len \<le> 7 then (ISOTP_ERR_FORMAT, rx, ev)
          else if unat len > ISOTP_MAX_PAYLOAD
          then (ISOTP_ERR_OVERFLOW, isotp_rx_reset rx, make_fc rx ev ISOTP_FC_OVERFLOW)
          else (let rx' = rx_first_state rx f now len h in
                if rx_active rx' then (ISOTP_NEED_FLOW_CONTROL, rx', make_fc rx' ev ISOTP_FC_CTS)
                else (ISOTP_COMPLETE, rx', ev\<lparr> ev_payload := Some (rx_buffer rx'), ev_length := len \<rparr>)))"
proof (cases "f_dlc f < 2 \<or> decode_ff f = None")
  case True
  then show ?thesis by (auto simp: rx_first_def)
next
  case False
  then obtain len h where Some: "decode_ff f = Some (len, h)" and ge2: "\<not> f_dlc f < 2" by auto
  note d = decode_ff_Some[OF Some ge2]
  note dlc = frame_valid_dlc[OF assms(3)]
  define n where "n = min (unat (f_dlc f) - unat h) (unat len)"
  have n: "unat (min_u32 (ucast (f_dlc f) - ucast h) len) = n" "n \<le> 64"
    using d(3) dlc by (auto simp: n_def min_def)
  have n': "min_u32 (ucast (f_dlc f) - ucast h) len = of_nat n"
    using n by (simp add: word_unat_eq_iff unat_of_nat_32 del: unat_min_u32)
  have copy: "copy_loop (rx_buffer rx) 0 (f_data f) (unat h) n =
      Some (take n (drop (unat h) (f_data f)) @ drop n (rx_buffer rx))"
    using assms d(1-2) dlc n(2)
    by (subst copy_loop_closed) (auto simp: rx_inv_def wf_frame_def ISOTP_MAX_PAYLOAD_def n_def)
  have lt: "(of_nat n :: u32) < len \<longleftrightarrow> n < unat len"
    using n(2) by (simp add: word_less_nat_alt unat_of_nat_32)
  have nmin: "min (unat (f_dlc f) - unat h) (unat len) = n" by (simp add: n_def)
  have u: "unat (of_nat n :: u32) = n" using n(2) by (simp add: unat_of_nat_32)
  show ?thesis
    using ge2 by (simp add: rx_first_def Some n' u copy lt rx_first_state_def nmin word_le_nat_alt Let_def)
qed

lemma rx_first_inv:
  assumes "rx_inv rx" "wf_frame f" "frame_valid (rx_config rx) f"
    and "rx_first rx f now ev = Some (st, rx', ev')"
  shows "rx_inv rx'" "rx_config rx' = rx_config rx"
proof -
  have "rx_inv (rx_first_state rx f now len h)"
    if "decode_ff f = Some (len, h)" "\<not> f_dlc f < 2" "\<not> unat len > ISOTP_MAX_PAYLOAD" for len h
    using that assms(1,2) decode_ff_Some[OF that(1,2)] frame_valid_dlc[OF assms(3)]
    by (auto simp: rx_first_state_def rx_inv_def wf_frame_def ISOTP_MAX_PAYLOAD_def Let_def unat_of_nat_32)
  then show "rx_inv rx'" "rx_config rx' = rx_config rx"
    using assms by (auto simp: rx_first_eq rx_first_state_def Let_def split: option.splits if_splits prod.splits)
qed

definition rx_consecutive_state :: "'k IsoTpRx \<Rightarrow> IsoTpCanFrame \<Rightarrow> u32 \<Rightarrow> 'k IsoTpRx" where
  "rx_consecutive_state rx f now =
     (let r = unat (rx_received_len rx);
          n = min (unat (f_dlc f) - 1) (unat (rx_expected_len rx) - r) in
      rx\<lparr> rx_buffer := take r (rx_buffer rx) @ take n (drop 1 (f_data f)) @ drop (r + n) (rx_buffer rx),
          rx_received_len := of_nat (r + n),
          rx_next_sequence := (rx_next_sequence rx + 1) AND 0x0F,
          rx_block_count := rx_block_count rx + 1,
          rx_deadline_ms := deadline now (rx_timeout_ms (rx_config rx)) \<rparr>)"

lemma rx_consecutive_eq:
  assumes "rx_inv rx" "wf_frame f" "frame_valid (rx_config rx) f"
  shows "rx_consecutive rx f now ev =
    Some (if \<not> rx_active rx then (ISOTP_ERR_STATE, rx, ev)
      else if f_data f ! 0 AND 0x0F \<noteq> rx_next_sequence rx
      then (ISOTP_ERR_SEQUENCE, isotp_rx_reset rx, ev)
      else if \<not> can_fd (rx_config rx) \<and> f_dlc f < 8 \<and>
              unat (rx_expected_len rx) - unat (rx_received_len rx) > unat (f_dlc f) - 1
      then (ISOTP_ERR_FORMAT, isotp_rx_reset rx, ev)
      else (let rx' = rx_consecutive_state rx f now in
        if unat (rx_received_len rx') \<ge> unat (rx_expected_len rx')
        then (ISOTP_COMPLETE, rx'\<lparr> rx_active := False \<rparr>,
              ev\<lparr> ev_payload := Some (rx_buffer rx'), ev_length := rx_expected_len rx' \<rparr>)
        else if block_size (rx_config rx) \<noteq> 0 \<and> rx_block_count rx' \<ge> block_size (rx_config rx)
        then (ISOTP_NEED_FLOW_CONTROL, rx'\<lparr> rx_block_count := 0 \<rparr>,
              make_fc (rx'\<lparr> rx_block_count := 0 \<rparr>) ev ISOTP_FC_CTS)
        else (ISOTP_OK, rx', ev)))"
proof (cases "rx_active rx")
  case False
  then show ?thesis by (simp add: rx_consecutive_def)
next
  case True
  note dlc = frame_valid_dlc[OF assms(3)]
  define r where "r = unat (rx_received_len rx)"
  define n where "n = min (unat (f_dlc f) - 1) (unat (rx_expected_len rx) - r)"
  have inv: "r < unat (rx_expected_len rx)" "unat (rx_expected_len rx) \<le> 16384"
      "length (rx_buffer rx) = 16384"
    using True assms(1) by (simp_all add: rx_inv_def ISOTP_MAX_PAYLOAD_def r_def)
  have d1: "unat (ucast (f_dlc f) - 1 :: u32) = unat (f_dlc f) - 1"
    using dlc by (subst unat_sub_32) (simp_all add: word_le_nat_alt)
  have rem: "unat (rx_expected_len rx - rx_received_len rx) = unat (rx_expected_len rx) - r"
    using inv by (subst unat_sub_32) (simp_all add: word_le_nat_alt r_def)
  have n: "unat (min_u32 (ucast (f_dlc f) - 1) (rx_expected_len rx - rx_received_len rx)) = n" "n \<le> 64"
    using d1 rem dlc by (auto simp: n_def min_def)
  have n': "min_u32 (ucast (f_dlc f) - 1) (rx_expected_len rx - rx_received_len rx) = of_nat n"
    using n by (simp add: word_unat_eq_iff unat_of_nat_32 del: unat_min_u32)
  have copy: "copy_loop (rx_buffer rx) r (f_data f) (Suc 0) n =
      Some (take r (rx_buffer rx) @ take n (drop 1 (f_data f)) @ drop (r + n) (rx_buffer rx))"
    using assms(2) inv dlc by (subst copy_loop_closed) (auto simp: n_def wf_frame_def)
  have u: "unat (of_nat n :: u32) = n" using n(2) by (simp add: unat_of_nat_32)
  have rlen: "rx_received_len rx = of_nat r" by (simp add: r_def)
  have sum: "rx_received_len rx + of_nat n = of_nat (r + n)" by (simp add: rlen)
  have ndl: "\<not> f_dlc f < 1" using dlc by (simp add: word_less_nat_alt)
  have gt: "rx_expected_len rx - rx_received_len rx > ucast (f_dlc f) - 1 \<longleftrightarrow>
      unat (rx_expected_len rx) - r > unat (f_dlc f) - 1"
    using d1 rem by (simp add: word_less_nat_alt)
  have state: "rx_consecutive_state rx f now =
      rx\<lparr> rx_buffer := take r (rx_buffer rx) @ take n (drop 1 (f_data f)) @ drop (r + n) (rx_buffer rx),
          rx_received_len := of_nat (r + n),
          rx_next_sequence := (rx_next_sequence rx + 1) AND 0x0F,
          rx_block_count := rx_block_count rx + 1,
          rx_deadline_ms := deadline now (rx_timeout_ms (rx_config rx)) \<rparr>"
    by (simp add: rx_consecutive_state_def Let_def r_def n_def)
  have ru: "unat (rx_received_len rx) = r" by (simp add: r_def)
  show ?thesis
    using ndl
    by (simp add: rx_consecutive_def True n' u copy sum gt state ru word_le_nat_alt[where ?'a = 32]
        Let_def conj_ac del: of_nat_add)
qed

lemma rx_consecutive_inv:
  assumes "rx_inv rx" "wf_frame f" "frame_valid (rx_config rx) f"
    and "rx_consecutive rx f now ev = Some (st, rx', ev')"
  shows "rx_inv rx'" "rx_config rx' = rx_config rx"
proof -
  define r where "r = unat (rx_received_len rx)"
  define n where "n = min (unat (f_dlc f) - 1) (unat (rx_expected_len rx) - r)"
  have key: "length (rx_buffer (rx_consecutive_state rx f now)) = ISOTP_MAX_PAYLOAD"
      "unat (rx_next_sequence (rx_consecutive_state rx f now)) < 16"
      "rx_expected_len (rx_consecutive_state rx f now) = rx_expected_len rx"
    if "rx_active rx"
    using that assms(1,2) frame_valid_dlc[OF assms(3)]
    by (auto simp: rx_consecutive_state_def Let_def rx_inv_def ISOTP_MAX_PAYLOAD_def wf_frame_def
        unat_and_15 min_def)
  show "rx_config rx' = rx_config rx"
    using assms
    by (auto simp: rx_consecutive_eq rx_consecutive_state_def Let_def split: if_splits)
  have exp: "unat (rx_expected_len rx) \<le> ISOTP_MAX_PAYLOAD" if "rx_active rx"
    using that assms(1) by (simp add: rx_inv_def)
  show "rx_inv rx'"
    using assms key exp
    by (auto simp: rx_consecutive_eq Let_def rx_inv_def split: if_splits)
qed

definition clear_event :: "IsoTpRxEvent \<Rightarrow> bool \<Rightarrow> IsoTpRxEvent" where
  "clear_event ev unexpected = ev\<lparr> ev_payload := None, ev_length := 0, ev_has_flow_control := False,
     ev_unexpected_n_pdu := unexpected \<rparr>"

definition pdu_type :: "IsoTpCanFrame \<Rightarrow> u8" where
  "pdu_type f = drop_bit 4 (f_data f ! 0)"

definition enter_pdu :: "'k IsoTpRx \<Rightarrow> IsoTpCanFrame \<Rightarrow> 'k IsoTpRx" where
  "enter_pdu rx f = (if is_unexpected_n_pdu rx (pdu_type f) then isotp_rx_reset rx else rx)"

lemma enter_pdu_simps [simp]:
  "rx_config (enter_pdu rx f) = rx_config rx"
  "rx_response_id (enter_pdu rx f) = rx_response_id rx"
  "rx_request_id (enter_pdu rx f) = rx_request_id rx"
  "rx_inv rx \<Longrightarrow> rx_inv (enter_pdu rx f)"
  by (simp_all add: enter_pdu_def)

lemma rx_feed_dispatch:
  "isotp_rx_feed rx f now ev =
    (if \<not> frame_valid (rx_config rx) f then Some (ISOTP_ERR_ARGUMENT, rx, ev)
     else if f_can_id f \<noteq> rx_request_id rx then Some (ISOTP_OK, rx, clear_event ev False)
     else let rx0 = enter_pdu rx f; e = clear_event ev (is_unexpected_n_pdu rx (pdu_type f)) in
       if pdu_type f = 0 then rx_single rx0 f e
       else if pdu_type f = 1 then rx_first rx0 f now e
       else if pdu_type f = 2 then rx_consecutive rx0 f now e
       else if full_duplex (rx_config rx0) \<and> rx_active rx0 then Some (ISOTP_OK, rx0, e)
       else Some (if pdu_type f = 3 then ISOTP_ERR_STATE else ISOTP_ERR_FORMAT, rx0, e))"
  by (simp add: isotp_rx_feed_def Let_def clear_event_def enter_pdu_def pdu_type_def)

lemma rx_feed_inv:
  assumes "rx_inv rx" "wf_frame f"
  shows "\<exists>st rx' ev'. isotp_rx_feed rx f now ev = Some (st, rx', ev') \<and> rx_inv rx' \<and>
    rx_config rx' = rx_config rx"
proof (cases "frame_valid (rx_config rx) f \<and> f_can_id f = rx_request_id rx")
  case False
  with assms show ?thesis by (auto simp: rx_feed_dispatch)
next
  case True
  define rx0 e where "rx0 = enter_pdu rx f" and "e = clear_event ev (is_unexpected_n_pdu rx (pdu_type f))"
  have inv: "rx_inv rx0" "frame_valid (rx_config rx0) f" "rx_config rx0 = rx_config rx"
    using assms True by (simp_all add: rx0_def)
  have all: "\<exists>st rx' ev'. h = Some (st, rx', ev') \<and> rx_inv rx' \<and> rx_config rx' = rx_config rx"
    if "h = Some x" "\<And>st rx' ev'. h = Some (st, rx', ev') \<Longrightarrow> rx_inv rx'"
      "\<And>st rx' ev'. h = Some (st, rx', ev') \<Longrightarrow> rx_config rx' = rx_config rx0"
    for h :: "(IsoTpStatus \<times> 'a IsoTpRx \<times> IsoTpRxEvent) option" and x
  proof -
    obtain st rx' ev' where "x = (st, rx', ev')" by (metis prod_cases3)
    with that(1) have h: "h = Some (st, rx', ev')" by simp
    from that(2)[OF h] that(3)[OF h] inv(3) have "rx_inv rx'" "rx_config rx' = rx_config rx" by simp_all
    with h show ?thesis by blast
  qed
  have single: "\<exists>st rx' ev'. rx_single rx0 f e = Some (st, rx', ev') \<and> rx_inv rx' \<and> rx_config rx' = rx_config rx"
    by (rule all[OF rx_single_eq[OF inv(1) assms(2) inv(2)]])
      (erule rx_single_inv[OF inv(1) assms(2) inv(2)])+
  have first: "\<exists>st rx' ev'. rx_first rx0 f now e = Some (st, rx', ev') \<and> rx_inv rx' \<and> rx_config rx' = rx_config rx"
    by (rule all[OF rx_first_eq[OF inv(1) assms(2) inv(2)]])
      (erule rx_first_inv[OF inv(1) assms(2) inv(2)])+
  have cf: "\<exists>st rx' ev'. rx_consecutive rx0 f now e = Some (st, rx', ev') \<and> rx_inv rx' \<and> rx_config rx' = rx_config rx"
    by (rule all[OF rx_consecutive_eq[OF inv(1) assms(2) inv(2)]])
      (erule rx_consecutive_inv[OF inv(1) assms(2) inv(2)])+
  have "isotp_rx_feed rx f now ev \<in> {rx_single rx0 f e, rx_first rx0 f now e, rx_consecutive rx0 f now e} \<or>
      (\<exists>st. isotp_rx_feed rx f now ev = Some (st, rx0, e))"
    using True unfolding rx_feed_dispatch rx0_def e_def Let_def by auto
  then show ?thesis
    using single first cf inv(1,3) by (elim disjE insertE) (simp_all, blast)
qed

lemma rx_tick_inv: "rx_inv rx \<Longrightarrow> rx_inv (snd (isotp_rx_tick rx now))"
  by (simp add: isotp_rx_tick_def)

end
