(* ===== verification/Isotp_Reassembly.thy ===== *)
theory Isotp_Reassembly
  imports Isotp_Rx
begin

text \<open>
  What the receiver of \<open>isotp.c\<close> promises, as an abstract reassembler over lists and natural
  numbers: a frame is parsed into a protocol data unit, the message so far is a byte list, and
  every step reports what it delivers, sends and rejects. \<open>rx_feed_refines\<close> shows that the
  buffer-and-counter code implements it, and the interpretation at the end carries this to runs.
\<close>

section \<open>Protocol data units\<close>

datatype npdu =
    SingleFrame bytes | BadSingleFrame
  | FirstFrame nat bytes | BadFirstFrame
  | ConsecutiveFrame nat bytes
  | FlowControlFrame | ReservedFrame

definition parse_single :: "bool \<Rightarrow> bytes \<Rightarrow> npdu" where
  "parse_single frame_fd d =
     (let low = unat (d ! 0) mod 16 in
      if 0 < low then (if low + 1 \<le> length d then SingleFrame (take low (drop 1 d)) else BadSingleFrame)
      else if frame_fd \<and> 2 \<le> length d \<and> 0 < unat (d ! 1) \<and> unat (d ! 1) + 2 \<le> length d
      then SingleFrame (take (unat (d ! 1)) (drop 2 d))
      else BadSingleFrame)"

definition be32 :: "bytes \<Rightarrow> nat" where
  "be32 d = unat (d ! 0) * 16777216 + unat (d ! 1) * 65536 + unat (d ! 2) * 256 + unat (d ! 3)"

definition parse_first :: "bool \<Rightarrow> bool \<Rightarrow> bytes \<Rightarrow> npdu" where
  "parse_first receiver_fd frame_fd d =
     (let n = (unat (d ! 0) mod 16) * 256 + unat (d ! 1) in
      if length d < (if receiver_fd then 2 else 8) then BadFirstFrame
      else if \<not> frame_fd \<or> n \<noteq> 0 then (if n \<le> 7 then BadFirstFrame else FirstFrame n (drop 2 d))
      else if length d < 6 \<or> be32 (drop 2 d) \<le> 4095 then BadFirstFrame
      else FirstFrame (be32 (drop 2 d)) (drop 6 d))"

definition parse_npdu :: "bool \<Rightarrow> IsoTpCanFrame \<Rightarrow> npdu" where
  "parse_npdu receiver_fd f =
     (let d = take (unat (f_dlc f)) (f_data f); type = unat (d ! 0) div 16 in
      if type = 0 then parse_single (f_is_fd f) d
      else if type = 1 then parse_first receiver_fd (f_is_fd f) d
      else if type = 2 then ConsecutiveFrame (unat (d ! 0) mod 16) (drop 1 d)
      else if type = 3 then FlowControlFrame
      else ReservedFrame)"

section \<open>The abstract reassembler\<close>

datatype reasm =
    Idle
  | Receiving (total: nat) (got: bytes) (seq: nat) (blk: u8) (due: u32)

datatype rx_output =
    Deliver bytes | SendFlowControl u8 u8 u8 | Aborted | Fail IsoTpStatus

definition reasm_first :: "'k IsoTpConfig \<Rightarrow> u32 \<Rightarrow> nat \<Rightarrow> bytes \<Rightarrow> reasm \<times> rx_output list" where
  "reasm_first cfg now n d =
     (if n > ISOTP_MAX_PAYLOAD then (Idle, [SendFlowControl 0x32 0 0, Fail ISOTP_ERR_OVERFLOW])
      else if n \<le> length d then (Idle, [Deliver (take n d)])
      else (Receiving n d 1 0 (now + rx_timeout_ms cfg),
            [SendFlowControl 0x30 (block_size cfg) (st_min cfg)]))"

fun reasm_consecutive :: "'k IsoTpConfig \<Rightarrow> u32 \<Rightarrow> reasm \<Rightarrow> nat \<Rightarrow> bytes \<Rightarrow> reasm \<times> rx_output list" where
  "reasm_consecutive cfg now Idle q d = (Idle, [Fail ISOTP_ERR_STATE])"
| "reasm_consecutive cfg now (Receiving n xs sq bc t) q d =
     (if q \<noteq> sq then (Idle, [Fail ISOTP_ERR_SEQUENCE])
      else if \<not> can_fd cfg \<and> length d < 7 \<and> length d < n - length xs then (Idle, [Fail ISOTP_ERR_FORMAT])
      else (let ys = xs @ take (n - length xs) d; t' = now + rx_timeout_ms cfg in
        if n \<le> length ys then (Idle, [Deliver ys])
        else if block_size cfg \<noteq> 0 \<and> block_size cfg \<le> bc + 1
        then (Receiving n ys ((sq + 1) mod 16) 0 t',
              [SendFlowControl 0x30 (block_size cfg) (st_min cfg)])
        else (Receiving n ys ((sq + 1) mod 16) (bc + 1) t', [])))"

fun reasm_pdu :: "'k IsoTpConfig \<Rightarrow> u32 \<Rightarrow> reasm \<Rightarrow> npdu \<Rightarrow> reasm \<times> rx_output list" where
  "reasm_pdu cfg now s (SingleFrame d) = (Idle, [Deliver d])"
| "reasm_pdu cfg now s BadSingleFrame = (s, [Fail ISOTP_ERR_FORMAT])"
| "reasm_pdu cfg now s (FirstFrame n d) = reasm_first cfg now n d"
| "reasm_pdu cfg now s BadFirstFrame = (s, [Fail ISOTP_ERR_FORMAT])"
| "reasm_pdu cfg now s (ConsecutiveFrame q d) = reasm_consecutive cfg now s q d"
| "reasm_pdu cfg now s FlowControlFrame =
     (s, if full_duplex cfg \<and> s \<noteq> Idle then [] else [Fail ISOTP_ERR_STATE])"
| "reasm_pdu cfg now s ReservedFrame =
     (s, if full_duplex cfg \<and> s \<noteq> Idle then [] else [Fail ISOTP_ERR_FORMAT])"

fun starts_message :: "npdu \<Rightarrow> bool" where
  "starts_message (SingleFrame _) = True"
| "starts_message BadSingleFrame = True"
| "starts_message (FirstFrame _ _) = True"
| "starts_message BadFirstFrame = True"
| "starts_message _ = False"

definition reasm_feed ::
  "'k IsoTpConfig \<Rightarrow> u32 \<Rightarrow> u32 \<Rightarrow> reasm \<Rightarrow> IsoTpCanFrame \<Rightarrow> reasm \<times> rx_output list" where
  "reasm_feed cfg can_id now s f =
     (if \<not> frame_valid cfg f then (s, [Fail ISOTP_ERR_ARGUMENT])
      else if f_can_id f \<noteq> can_id then (s, [])
      else let p = parse_npdu (can_fd cfg) f in
        if full_duplex cfg \<and> s \<noteq> Idle \<and> starts_message p
        then (case reasm_pdu cfg now Idle p of (s', out) \<Rightarrow> (s', Aborted # out))
        else reasm_pdu cfg now s p)"

fun reasm_tick :: "u32 \<Rightarrow> reasm \<Rightarrow> reasm \<times> rx_output list" where
  "reasm_tick now Idle = (Idle, [])"
| "reasm_tick now (Receiving n xs sq bc t) =
     (if expired now t then (Idle, [Fail ISOTP_ERR_TIMEOUT]) else (Receiving n xs sq bc t, []))"

section \<open>Abstraction of the code's state and results\<close>

definition abs_rx :: "'k IsoTpRx \<Rightarrow> reasm" where
  "abs_rx rx = (if rx_active rx
     then Receiving (unat (rx_expected_len rx)) (take (unat (rx_received_len rx)) (rx_buffer rx))
            (unat (rx_next_sequence rx)) (rx_block_count rx) (rx_deadline_ms rx)
     else Idle)"

definition is_error :: "IsoTpStatus \<Rightarrow> bool" where
  "is_error st = (st \<notin> {ISOTP_OK, ISOTP_COMPLETE, ISOTP_NEED_FLOW_CONTROL, ISOTP_TX_FRAME_READY})"

definition rx_results :: "IsoTpStatus \<Rightarrow> IsoTpRxEvent \<Rightarrow> rx_output list" where
  "rx_results st ev =
     (case ev_payload ev of None \<Rightarrow> [] | Some p \<Rightarrow> [Deliver (take (unat (ev_length ev)) p)]) @
     (if ev_has_flow_control ev
      then (let d = f_data (ev_flow_control ev) in [SendFlowControl (d ! 0) (d ! 1) (d ! 2)]) else []) @
     (if is_error st then [Fail st] else [])"

definition rx_outputs :: "IsoTpStatus \<Rightarrow> IsoTpRxEvent \<Rightarrow> rx_output list" where
  "rx_outputs st ev = (if ev_unexpected_n_pdu ev then [Aborted] else []) @ rx_results st ev"

definition quiet :: "IsoTpRxEvent \<Rightarrow> bool" where
  "quiet ev \<longleftrightarrow> ev_payload ev = None \<and> \<not> ev_has_flow_control ev \<and> \<not> ev_unexpected_n_pdu ev"

section \<open>The parsers agree\<close>

lemma parse_single_decode:
  assumes "wf_frame f" "frame_valid cfg f"
  shows "parse_single (f_is_fd f) (take (unat (f_dlc f)) (f_data f)) =
    (case decode_sf f of None \<Rightarrow> BadSingleFrame
     | Some (len, h) \<Rightarrow> if unat (f_dlc f) - unat h < unat len then BadSingleFrame
         else SingleFrame (take (unat len) (drop (unat h) (f_data f))))"
proof -
  note b = frame_valid_dlc[OF assms(2)]
  have low: "(f_data f ! 0 AND 15 = 0) = (unat (f_data f ! 0) mod 16 = 0)"
    by (simp add: word_unat_eq_iff unat_and_15)
  show ?thesis
    using b assms(1)
    by (auto simp: parse_single_def decode_sf_def Let_def low unat_and_15 wf_frame_def word_less_nat_alt
        word_unat_eq_iff drop_take min_def)
qed

lemma be32_word:
  "unat (push_bit 24 (ucast (a :: u8)) OR push_bit 16 (ucast (b :: u8)) OR
         push_bit 8 (ucast (c :: u8)) OR ucast (d :: u8) :: u32) =
   unat a * 16777216 + unat b * 65536 + unat c * 256 + unat d"
proof -
  have 1: "unat (push_bit 8 (ucast c) OR ucast d :: u32) = unat c * 256 + unat d"
    by (subst unat_push_or) (simp_all add: order.strict_trans[OF unat_u8_lt])
  have c: "unat c * 256 + unat d < 65536"
    using unat_u8_lt[of c] unat_u8_lt[of d] by linarith
  have 2: "unat (push_bit 16 (ucast b) OR (push_bit 8 (ucast c) OR ucast d) :: u32) =
      unat b * 65536 + (unat c * 256 + unat d)"
    using c by (subst unat_push_or) (simp_all add: 1 order.strict_trans[OF unat_u8_lt])
  have b: "unat b * 65536 + (unat c * 256 + unat d) < 16777216"
    using unat_u8_lt[of b] c by linarith
  show ?thesis
    unfolding or.assoc
    using b by (subst unat_push_or) (simp_all add: 2 order.strict_trans[OF unat_u8_lt])
qed

lemma parse_first_decode:
  assumes "wf_frame f" "frame_valid cfg f"
  shows "parse_first fd (f_is_fd f) (take (unat (f_dlc f)) (f_data f)) =
    (if f_dlc f < 2 \<or> \<not> fd \<and> f_dlc f < 8 then BadFirstFrame
     else case decode_ff f of None \<Rightarrow> BadFirstFrame
     | Some (len, h) \<Rightarrow> if unat len \<le> 7 then BadFirstFrame
         else FirstFrame (unat len) (take (unat (f_dlc f) - unat h) (drop (unat h) (f_data f))))"
proof (cases "f_dlc f < 2")
  case True
  then have "length (take (unat (f_dlc f)) (f_data f)) < (if fd then 2 else 8)"
    by (auto simp: word_less_nat_alt)
  with True show ?thesis by (simp add: parse_first_def)
next
  case False
  note b = frame_valid_dlc[OF assms(2)]
  define d where "d = f_data f"
  have len: "length (take (unat (f_dlc f)) d) = unat (f_dlc f)" "2 \<le> unat (f_dlc f)"
    using b assms(1) False by (auto simp: d_def wf_frame_def word_less_nat_alt)
  have n: "unat (push_bit 8 (ucast (d ! 0 AND 15)) OR ucast (d ! 1) :: u32) =
      unat (d ! 0) mod 16 * 256 + unat (d ! 1)"
    by (subst unat_push_or) (simp_all add: unat_and_15 order.strict_trans[OF unat_u8_lt])
  have low: "(d ! 0 AND 15 = 0) = (unat (d ! 0) mod 16 = 0)"
    by (simp add: word_unat_eq_iff unat_and_15)
  have z: "(unat (d ! 0) mod 16 * 256 + unat (d ! 1) = 0) = (unat (d ! 0) mod 16 = 0 \<and> unat (d ! 1) = 0)"
    by auto
  have esc: "be32 (drop 2 (take (unat (f_dlc f)) d)) =
      unat (push_bit 24 (ucast (d ! 2)) OR push_bit 16 (ucast (d ! 3)) OR
            push_bit 8 (ucast (d ! 4)) OR ucast (d ! 5) :: u32)" if "\<not> f_dlc f < 6"
    using that len by (subst be32_word) (simp add: be32_def word_less_nat_alt)
  define D where "D = take (unat (f_dlc f)) d"
  have D: "length D = unat (f_dlc f)" "D ! 0 = d ! 0" "D ! Suc 0 = d ! Suc 0"
      "drop k D = take (unat (f_dlc f) - k) (drop k d)" for k
    using len by (simp_all add: D_def drop_take)
  have short: "length D < (if fd then 2 else 8) \<longleftrightarrow> \<not> fd \<and> f_dlc f < 8"
    using len by (auto simp: D(1) word_less_nat_alt)
  have d1: "(d ! 1 = 0) = (unat (d ! 1) = 0)" by (simp add: word_unat_eq_iff)
  have six: "length D < 6 \<longleftrightarrow> f_dlc f < 6"
    by (simp add: D(1) word_less_nat_alt)
  show ?thesis
  proof (cases "f_is_fd f \<and> d ! 0 AND 15 = 0 \<and> d ! 1 = 0")
    case esc_case: True
    then have "parse_first fd (f_is_fd f) D =
        (if \<not> fd \<and> f_dlc f < 8 then BadFirstFrame
         else if f_dlc f < 6 \<or> be32 (drop 2 D) \<le> 4095 then BadFirstFrame
         else FirstFrame (be32 (drop 2 D)) (drop 6 D))"
      unfolding parse_first_def Let_def short six by (simp add: D(2,3) low d1)
    moreover have "be32 (drop 2 D) \<le> 7 \<Longrightarrow> be32 (drop 2 D) \<le> 4095" by simp
    ultimately show ?thesis
      using esc_case False esc
      by (simp add: decode_ff_def Let_def D_def[symmetric] d_def[symmetric] word_le_nat_alt[where ?'a = 32] D(4)
          if_distrib[of "case_option _ _"] del: drop_take cong: if_cong)
  next
    case norm: False
    then have "parse_first fd (f_is_fd f) D =
        (if \<not> fd \<and> f_dlc f < 8 then BadFirstFrame
         else if unat (push_bit 8 (ucast (d ! 0 AND 15)) OR ucast (d ! 1) :: u32) \<le> 7 then BadFirstFrame
         else FirstFrame (unat (push_bit 8 (ucast (d ! 0 AND 15)) OR ucast (d ! 1) :: u32)) (drop 2 D))"
      unfolding parse_first_def Let_def short n by (auto simp: D(2,3) unat_and_15 word_unat_eq_iff)
    with norm False show ?thesis
      by (auto simp: decode_ff_def Let_def D_def[symmetric] d_def[symmetric] D(4))
  qed
qed

lemma pdu_type_unat: "unat (pdu_type f) = unat (f_data f ! 0) div 16"
  by (simp add: pdu_type_def unat_drop_4)

lemma parse_npdu_decode:
  assumes "wf_frame f" "frame_valid cfg f"
  shows "parse_npdu fd f =
    (if pdu_type f = 0 then parse_single (f_is_fd f) (take (unat (f_dlc f)) (f_data f))
     else if pdu_type f = 1 then parse_first fd (f_is_fd f) (take (unat (f_dlc f)) (f_data f))
     else if pdu_type f = 2 then ConsecutiveFrame (unat (f_data f ! 0 AND 15))
       (take (unat (f_dlc f) - 1) (drop 1 (f_data f)))
     else if pdu_type f = 3 then FlowControlFrame else ReservedFrame)"
  using frame_valid_dlc[OF assms(2)]
  by (simp add: parse_npdu_def Let_def word_unat_eq_iff pdu_type_unat unat_and_15 drop_take)

lemma starts_message_type:
  assumes "wf_frame f" "frame_valid cfg f"
  shows "starts_message (parse_npdu fd f) = (pdu_type f = 0 \<or> pdu_type f = 1)"
  by (auto simp: parse_npdu_decode[OF assms] parse_single_def parse_first_def Let_def)

section \<open>The code implements the reassembler\<close>

lemma abs_rx_reset [simp]: "abs_rx (isotp_rx_reset rx) = Idle"
  by (simp add: abs_rx_def)

lemma abs_rx_Idle: "abs_rx rx = Idle \<longleftrightarrow> \<not> rx_active rx"
  by (simp add: abs_rx_def)

lemma make_fc_data:
  "f_data (ev_flow_control (make_fc rx ev s)) ! 0 = 0x30 OR (flow_status_code s AND 15)"
  "f_data (ev_flow_control (make_fc rx ev s)) ! Suc 0 = (if s = ISOTP_FC_CTS then block_size (rx_config rx) else 0)"
  "f_data (ev_flow_control (make_fc rx ev s)) ! 2 = (if s = ISOTP_FC_CTS then st_min (rx_config rx) else 0)"
  by (simp_all add: make_fc_def Let_def)

lemma reset_rx_update: "rx_active rx' = False \<Longrightarrow> abs_rx rx' = Idle"
  by (simp add: abs_rx_def)

lemma clear_event_simps [simp]:
  "ev_payload (clear_event ev u) = None"
  "ev_length (clear_event ev u) = 0"
  "ev_has_flow_control (clear_event ev u) = False"
  "ev_unexpected_n_pdu (clear_event ev u) = u"
  by (simp_all add: clear_event_def)

lemma rx_single_sim:
  assumes "rx_inv rx" "wf_frame f" "frame_valid (rx_config rx) f" "pdu_type f = 0"
    and "rx_single rx f (clear_event ev u) = Some (st, rx', ev')"
  shows "reasm_pdu cfg now (abs_rx rx) (parse_npdu fd f) = (abs_rx rx', rx_results st ev')"
    "ev_unexpected_n_pdu ev' = u"
proof -
  note dec = parse_single_decode[OF assms(2,3)]
  note b = frame_valid_dlc[OF assms(3)]
  show "ev_unexpected_n_pdu ev' = u"
    using assms by (auto simp: rx_single_eq Let_def split: option.splits prod.splits if_splits)
  have len: "length (f_data f) = 64" using assms(2) by (simp add: wf_frame_def)
  have take: "take (unat n) (take (unat n) (drop h (f_data f)) @ xs) = take (unat n) (drop h (f_data f))"
    if "unat n + h \<le> 64" for n :: u32 and h and xs
    using that len by simp
  show "reasm_pdu cfg now (abs_rx rx) (parse_npdu fd f) = (abs_rx rx', rx_results st ev')"
  proof (cases "decode_sf f")
    case None
    with assms show ?thesis
      by (auto simp: rx_single_eq parse_npdu_decode dec rx_results_def is_error_def)
  next
    case (Some p)
    obtain n h where p: "p = (n, h)" by (cases p)
    note d = decode_sf_Some[OF Some[unfolded p] b[THEN conjunct1]]
    show ?thesis
    proof (cases "unat (f_dlc f) - unat h < unat n")
      case True
      with assms Some p show ?thesis
        by (auto simp: rx_single_eq parse_npdu_decode dec rx_results_def is_error_def)
    next
      case False
      then have "unat n + unat h \<le> 64" using b d by linarith
      with False assms Some p len show ?thesis
        by (auto simp: rx_single_eq parse_npdu_decode dec rx_results_def is_error_def Let_def take
            reset_rx_update)
    qed
  qed
qed

lemma rx_first_sim:
  assumes "rx_inv rx" "wf_frame f" "frame_valid (rx_config rx) f" "pdu_type f = 1"
    and "rx_first rx f now (clear_event ev u) = Some (st, rx', ev')"
  shows "reasm_pdu (rx_config rx) now (abs_rx rx) (parse_npdu (can_fd (rx_config rx)) f) =
      (abs_rx rx', rx_results st ev')"
    "ev_unexpected_n_pdu ev' = u"
proof -
  note b = frame_valid_dlc[OF assms(3)]
  show "ev_unexpected_n_pdu ev' = u"
    using assms by (auto simp: rx_first_eq Let_def split: option.splits prod.splits if_splits)
  have len: "length (f_data f) = 64" using assms(2) by (simp add: wf_frame_def)
  have parse: "parse_npdu fd f =
    (if f_dlc f < 2 \<or> \<not> fd \<and> f_dlc f < 8 then BadFirstFrame
     else case decode_ff f of None \<Rightarrow> BadFirstFrame
     | Some (len, h) \<Rightarrow> if unat len \<le> 7 then BadFirstFrame
         else FirstFrame (unat len) (take (unat (f_dlc f) - unat h) (drop (unat h) (f_data f))))" for fd
    using assms(4) by (simp add: parse_npdu_decode[OF assms(2,3)] parse_first_decode[OF assms(2,3)])
  show "reasm_pdu (rx_config rx) now (abs_rx rx) (parse_npdu (can_fd (rx_config rx)) f) =
      (abs_rx rx', rx_results st ev')"
  proof (cases "(f_dlc f < 2 \<or> \<not> can_fd (rx_config rx) \<and> f_dlc f < 8) \<or> decode_ff f = None")
    case True
    with assms(5) show ?thesis
      by (auto simp: rx_first_eq[OF assms(1-3)] parse rx_results_def is_error_def)
  next
    case False
    then obtain n h where Some: "decode_ff f = Some (n, h)" and ge2: "\<not> f_dlc f < 2"
      and ok: "\<not> (f_dlc f < 2 \<or> \<not> can_fd (rx_config rx) \<and> f_dlc f < 8)" by auto
    note d = decode_ff_Some[OF Some ge2]
    define k where "k = unat (f_dlc f) - unat h"
    have k: "k + unat h \<le> 64" using b d by (simp add: k_def)
    define t where "t = rx_first_state rx f now n h"
    note eq = rx_first_eq[OF assms(1-3), of now "clear_event ev u", unfolded assms(5) Some option.case prod.case Let_def,
        folded t_def]
    have lenk: "length (take k (drop (unat h) (f_data f))) = k" using k len by simp
    consider (bad) "unat n \<le> 7" | (big) "\<not> unat n \<le> 7" "unat n > ISOTP_MAX_PAYLOAD"
      | (all) "\<not> unat n \<le> 7" "\<not> unat n > ISOTP_MAX_PAYLOAD" "unat n \<le> k"
      | (part) "\<not> unat n \<le> 7" "\<not> unat n > ISOTP_MAX_PAYLOAD" "k < unat n" by linarith
    then show ?thesis
    proof cases
      case bad
      with assms(5) Some ok show ?thesis
        by (auto simp: rx_first_eq[OF assms(1-3)] parse rx_results_def is_error_def)
    next
      case big
      with assms(5) Some ok show ?thesis
        by (auto simp: rx_first_eq[OF assms(1-3)] parse rx_results_def is_error_def reasm_first_def
            make_fc_data)
    next
      case all
      then have m: "min k (unat n) = unat n" by simp
      have t: "rx_active t = False" "rx_buffer t = take (unat n) (drop (unat h) (f_data f)) @ drop (unat n) (rx_buffer rx)"
        by (simp_all add: t_def rx_first_state_def Let_def k_def[symmetric] m)
      have "take (unat n) (rx_buffer t) = take (unat n) (take k (drop (unat h) (f_data f)))"
        using all k len by (simp add: t(2) m min.commute)
      with all t(1) eq Some ok lenk show ?thesis
        by (auto simp: parse rx_results_def is_error_def reasm_first_def reset_rx_update simp flip: k_def)
    next
      case part
      then have m: "min k (unat n) = k" by simp
      have "rx_active t" "rx_config t = rx_config rx"
        "abs_rx t = Receiving (unat n) (take k (drop (unat h) (f_data f))) 1 0 (now + rx_timeout_ms (rx_config rx))"
        using part k lenk
        by (simp_all add: t_def rx_first_state_def Let_def k_def[symmetric] m abs_rx_def unat_of_nat_32 deadline_def)
      with part eq Some ok lenk show ?thesis
        by (auto simp: parse rx_results_def is_error_def reasm_first_def make_fc_data simp flip: k_def)
    qed
  qed
qed

lemma rx_consecutive_sim:
  assumes "rx_inv rx" "wf_frame f" "frame_valid (rx_config rx) f" "pdu_type f = 2"
    and "rx_consecutive rx f now (clear_event ev u) = Some (st, rx', ev')"
  shows "reasm_pdu (rx_config rx) now (abs_rx rx) (parse_npdu fd f) = (abs_rx rx', rx_results st ev')"
    "ev_unexpected_n_pdu ev' = u"
proof -
  note b = frame_valid_dlc[OF assms(3)]
  note eq = rx_consecutive_eq[OF assms(1-3), of now "clear_event ev u", unfolded assms(5)]
  show "ev_unexpected_n_pdu ev' = u"
    using eq by (auto simp: Let_def split: if_splits)
  have len: "length (f_data f) = 64" using assms(2) by (simp add: wf_frame_def)
  define d where "d = take (unat (f_dlc f) - 1) (drop 1 (f_data f))"
  have ld: "length d = unat (f_dlc f) - 1" using b len by (auto simp: d_def min_def)
  have parse: "parse_npdu fd f = ConsecutiveFrame (unat (f_data f ! 0 AND 15)) d"
    using assms(4) by (simp add: parse_npdu_decode[OF assms(2,3)] d_def)
  have ne: "unat a \<noteq> unat c \<longleftrightarrow> a \<noteq> c" for a c :: u8 by (simp add: word_unat_eq_iff)
  show "reasm_pdu (rx_config rx) now (abs_rx rx) (parse_npdu fd f) = (abs_rx rx', rx_results st ev')"
  proof (cases "rx_active rx")
    case False
    with eq show ?thesis
      by (auto simp: parse abs_rx_def rx_results_def is_error_def)
  next
    case True
    define r n where "r = unat (rx_received_len rx)" and "n = unat (rx_expected_len rx)"
    have inv: "r < n" "n \<le> 16384" "length (rx_buffer rx) = 16384" "unat (rx_next_sequence rx) < 16"
      using True assms(1) by (simp_all add: rx_inv_def ISOTP_MAX_PAYLOAD_def r_def n_def)
    define xs where "xs = take r (rx_buffer rx)"
    have lxs: "length xs = r" using inv by (simp add: xs_def)
    have abs: "abs_rx rx = Receiving n xs (unat (rx_next_sequence rx)) (rx_block_count rx) (rx_deadline_ms rx)"
      using True by (simp add: abs_rx_def n_def xs_def r_def)
    define m where "m = min (unat (f_dlc f) - 1) (n - r)"
    have m: "m \<le> 63" "r + m \<le> n" using b inv by (auto simp: m_def min_def)
    define ys where "ys = xs @ take (n - r) d"
    have lys: "length ys = r + m" by (simp add: ys_def lxs ld m_def min_def)
    define t where "t = rx_consecutive_state rx f now"
    have buf: "rx_buffer t = ys @ drop (r + m) (rx_buffer rx)"
      by (simp add: t_def rx_consecutive_state_def Let_def ys_def xs_def d_def m_def r_def n_def min.commute)
    have t: "unat (rx_received_len t) = r + m" "rx_expected_len t = rx_expected_len rx" "rx_active t"
        "rx_block_count t = rx_block_count rx + 1" "rx_config t = rx_config rx"
        "rx_deadline_ms t = now + rx_timeout_ms (rx_config rx)"
        "unat (rx_next_sequence t) = (unat (rx_next_sequence rx) + 1) mod 16"
      using True inv m
      by (simp_all add: t_def rx_consecutive_state_def Let_def m_def r_def n_def deadline_def unat_of_nat_32
          unat_and_15 unat_word_ariths del: of_nat_add)
    have ab: "abs_rx (t\<lparr> rx_block_count := c \<rparr>) = Receiving n ys ((unat (rx_next_sequence rx) + 1) mod 16) c
        (now + rx_timeout_ms (rx_config rx))" for c
      using t lys by (simp add: abs_rx_def buf n_def)
    have ab': "abs_rx t = Receiving n ys ((unat (rx_next_sequence rx) + 1) mod 16) (rx_block_count rx + 1)
        (now + rx_timeout_ms (rx_config rx))"
      using t lys by (simp add: abs_rx_def buf n_def)
    have cond8: "f_dlc f < 8 \<longleftrightarrow> length d < 7"
      using b ld by (auto simp: word_less_nat_alt)
    have t2: "unat (rx_expected_len t) = n" by (simp add: t(2) n_def)
    note eq0 = eq[folded t_def r_def n_def, unfolded Let_def cond8 ld[symmetric] t(1,4) t2]
    define q where "q = f_data f ! 0 AND 15"
    define bad where "bad \<longleftrightarrow> \<not> can_fd (rx_config rx) \<and> length d < 7 \<and> length d < n - r"
    define full where "full \<longleftrightarrow> block_size (rx_config rx) \<noteq> 0 \<and> block_size (rx_config rx) \<le> rx_block_count rx + 1"
    note eq' = eq0[folded q_def bad_def full_def]
    have step: "reasm_pdu (rx_config rx) now (abs_rx rx) (parse_npdu fd f) =
       (if q \<noteq> rx_next_sequence rx then (Idle, [Fail ISOTP_ERR_SEQUENCE])
        else if bad then (Idle, [Fail ISOTP_ERR_FORMAT])
        else if n \<le> r + m then (Idle, [Deliver ys])
        else if full
        then (Receiving n ys ((unat (rx_next_sequence rx) + 1) mod 16) 0 (now + rx_timeout_ms (rx_config rx)),
              [SendFlowControl 0x30 (block_size (rx_config rx)) (st_min (rx_config rx))])
        else (Receiving n ys ((unat (rx_next_sequence rx) + 1) mod 16) (rx_block_count rx + 1)
               (now + rx_timeout_ms (rx_config rx)), []))"
      by (simp only: parse abs reasm_pdu.simps reasm_consecutive.simps lxs Let_def ys_def[symmetric] lys ne
          q_def[symmetric] bad_def[symmetric] full_def[symmetric])
    have del: "take n (rx_buffer t) = ys" if "n \<le> r + m"
      using that m lys by (simp add: buf)
    consider (seq) "q \<noteq> rx_next_sequence rx"
      | (fmt) "q = rx_next_sequence rx" bad
      | (fin) "q = rx_next_sequence rx" "\<not> bad" "n \<le> r + m"
      | (rest) "q = rx_next_sequence rx" "\<not> bad" "\<not> n \<le> r + m"
      by blast
    then show ?thesis
    proof cases
      case seq
      with eq' True show ?thesis unfolding step by (simp add: rx_results_def is_error_def)
    next
      case fmt
      with eq' True show ?thesis unfolding step by (simp add: rx_results_def is_error_def)
    next
      case fin
      with eq' True have r: "st = ISOTP_COMPLETE" "rx' = t\<lparr> rx_active := False \<rparr>"
          "ev' = (clear_event ev u)\<lparr> ev_payload := Some (rx_buffer t), ev_length := rx_expected_len t \<rparr>"
        by simp_all
      from fin show ?thesis unfolding step
        by (simp add: r rx_results_def is_error_def reset_rx_update t2 del)
    next
      case rest
      show ?thesis
      proof (cases full)
        case block: True
        with rest eq' True have r: "st = ISOTP_NEED_FLOW_CONTROL" "rx' = t\<lparr> rx_block_count := 0 \<rparr>"
            "ev' = make_fc (t\<lparr> rx_block_count := 0 \<rparr>) (clear_event ev u) ISOTP_FC_CTS"
          by simp_all
        from rest block show ?thesis unfolding step
          by (simp add: r rx_results_def is_error_def ab make_fc_data t(5))
      next
        case more: False
        with rest eq' True have r: "st = ISOTP_OK" "rx' = t" "ev' = clear_event ev u"
          by simp_all
        from rest more show ?thesis unfolding step
          by (simp add: r rx_results_def is_error_def ab')
      qed
    qed
  qed
qed

lemma is_unexpected_abs:
  "is_unexpected_n_pdu rx ty = (full_duplex (rx_config rx) \<and> abs_rx rx \<noteq> Idle \<and> (ty = 0 \<or> ty = 1))"
  by (auto simp: is_unexpected_n_pdu_def abs_rx_Idle)

lemma rx_feed_config:
  assumes "rx_inv rx" "wf_frame f" "isotp_rx_feed rx f now ev = Some (st, rx', ev')"
  shows "rx_inv rx'" "rx_config rx' = rx_config rx"
  using rx_feed_inv[OF assms(1,2), of now ev] assms(3) by auto

lemma rx_feed_sim:
  assumes "rx_inv rx" "wf_frame f" "quiet ev"
    and feed: "isotp_rx_feed rx f now ev = Some (st, rx', ev')"
  shows "reasm_feed (rx_config rx) (rx_request_id rx) now (abs_rx rx) f = (abs_rx rx', rx_outputs st ev')"
proof (cases "frame_valid (rx_config rx) f \<and> f_can_id f = rx_request_id rx")
  case False
  with feed \<open>quiet ev\<close> show ?thesis
    by (auto simp: rx_feed_dispatch reasm_feed_def rx_outputs_def rx_results_def quiet_def is_error_def
        split: if_splits)
next
  case True
  define rx0 u p where "rx0 = enter_pdu rx f" and "u = is_unexpected_n_pdu rx (pdu_type f)"
    and "p = parse_npdu (can_fd (rx_config rx)) f"
  have inv: "rx_inv rx0" "frame_valid (rx_config rx0) f" "rx_config rx0 = rx_config rx"
    using assms(1) True by (simp_all add: rx0_def)
  have u: "u = (full_duplex (rx_config rx) \<and> abs_rx rx \<noteq> Idle \<and> starts_message p)"
    using True starts_message_type[OF assms(2), of "rx_config rx"]
    by (simp add: u_def is_unexpected_abs p_def)
  have abs0: "abs_rx rx0 = (if u then Idle else abs_rx rx)"
    by (simp add: rx0_def enter_pdu_def u_def)
  have goal: "reasm_feed (rx_config rx) (rx_request_id rx) now (abs_rx rx) f =
      (abs_rx rx', rx_outputs st ev')"
    if "reasm_pdu (rx_config rx) now (abs_rx rx0) p = (abs_rx rx', rx_results st ev')"
      "ev_unexpected_n_pdu ev' = u"
    using True that by (cases u) (simp_all add: reasm_feed_def p_def[symmetric] rx_outputs_def abs0 flip: u)
  note feed' = feed[unfolded rx_feed_dispatch Let_def, folded rx0_def u_def]
  consider (sf) "pdu_type f = 0" | (ff) "pdu_type f = 1" | (cf) "pdu_type f = 2"
    | (other) "pdu_type f \<noteq> 0" "pdu_type f \<noteq> 1" "pdu_type f \<noteq> 2" by blast
  then show ?thesis
  proof cases
    case sf
    with feed' True have r: "rx_single rx0 f (clear_event ev u) = Some (st, rx', ev')" by simp
    show ?thesis
      by (rule goal) (use rx_single_sim[OF inv(1) assms(2) inv(2) sf r] in \<open>simp_all add: p_def\<close>)
  next
    case ff
    with feed' True have r: "rx_first rx0 f now (clear_event ev u) = Some (st, rx', ev')" by simp
    show ?thesis
      by (rule goal) (use rx_first_sim[OF inv(1) assms(2) inv(2) ff r] inv(3) in \<open>simp_all add: p_def\<close>)
  next
    case cf
    with feed' True have r: "rx_consecutive rx0 f now (clear_event ev u) = Some (st, rx', ev')" by simp
    show ?thesis
      by (rule goal) (use rx_consecutive_sim[OF inv(1) assms(2) inv(2) cf r] inv(3) in \<open>simp_all add: p_def\<close>)
  next
    case other
    have p: "p = (if pdu_type f = 3 then FlowControlFrame else ReservedFrame)"
      using True other by (simp add: p_def parse_npdu_decode[OF assms(2), of "rx_config rx"])
    have r: "rx' = rx0" "ev' = clear_event ev u"
      "st = (if full_duplex (rx_config rx) \<and> rx_active rx0 then ISOTP_OK
             else if pdu_type f = 3 then ISOTP_ERR_STATE else ISOTP_ERR_FORMAT)"
      using feed' True other inv(3) by (auto split: if_splits)
    show ?thesis
      by (rule goal) (auto simp: p r rx_results_def is_error_def abs_rx_Idle)
  qed
qed

lemma rx_tick_sim:
  "isotp_rx_tick rx now = (st, rx') \<Longrightarrow>
     reasm_tick now (abs_rx rx) = (abs_rx rx', if is_error st then [Fail st] else [])"
  by (auto simp: isotp_rx_tick_def abs_rx_def is_error_def split: if_splits)

section \<open>Runs of the receiver\<close>

datatype rx_event = RxFrame IsoTpCanFrame u32 | RxTick u32

definition zero_event :: IsoTpRxEvent where
  "zero_event = \<lparr> ev_payload = None, ev_length = 0, ev_has_flow_control = False,
     ev_unexpected_n_pdu = False,
     ev_flow_control = \<lparr> f_can_id = 0, f_dlc = 0, f_is_fd = False, f_bit_rate_switch = False,
                         f_data = replicate 64 0 \<rparr> \<rparr>"

text \<open>One call of the receiver; the results of the calls so far are kept beside the state.\<close>

fun rx_step :: "'k IsoTpRx \<times> rx_output list \<Rightarrow> rx_event \<Rightarrow> ('k IsoTpRx \<times> rx_output list) option" where
  "rx_step (rx, out) (RxFrame f now) =
     (case isotp_rx_feed rx f now zero_event of
        None \<Rightarrow> None
      | Some (st, rx', ev) \<Rightarrow> Some (rx', out @ rx_outputs st ev))"
| "rx_step (rx, out) (RxTick now) =
     (case isotp_rx_tick rx now of
        (st, rx') \<Rightarrow> Some (rx', out @ (if is_error st then [Fail st] else [])))"

fun rx_ok :: "rx_event \<Rightarrow> bool" where
  "rx_ok (RxFrame f now) = wf_frame f"
| "rx_ok (RxTick now) = True"

fun reasm_step ::
  "'k IsoTpConfig \<times> u32 \<times> reasm \<times> rx_output list \<Rightarrow> rx_event \<Rightarrow>
     'k IsoTpConfig \<times> u32 \<times> reasm \<times> rx_output list" where
  "reasm_step (cfg, i, s, out) (RxFrame f now) =
     (case reasm_feed cfg i now s f of (s', o') \<Rightarrow> (cfg, i, s', out @ o'))"
| "reasm_step (cfg, i, s, out) (RxTick now) =
     (case reasm_tick now s of (s', o') \<Rightarrow> (cfg, i, s', out @ o'))"

definition abs_rx_run ::
  "'k IsoTpRx \<times> rx_output list \<Rightarrow> 'k IsoTpConfig \<times> u32 \<times> reasm \<times> rx_output list" where
  "abs_rx_run s = (rx_config (fst s), rx_request_id (fst s), abs_rx (fst s), snd s)"

lemma rx_single_id: "rx_single rx f ev = Some (st, rx', ev') \<Longrightarrow> rx_request_id rx' = rx_request_id rx"
  by (auto simp: rx_single_def Let_def split: option.splits prod.splits if_splits bind_splits)

lemma rx_first_id: "rx_first rx f now ev = Some (st, rx', ev') \<Longrightarrow> rx_request_id rx' = rx_request_id rx"
  by (auto simp: rx_first_def Let_def split: option.splits prod.splits if_splits bind_splits)

lemma rx_consecutive_id:
  "rx_consecutive rx f now ev = Some (st, rx', ev') \<Longrightarrow> rx_request_id rx' = rx_request_id rx"
  by (auto simp: rx_consecutive_def Let_def split: option.splits if_splits bind_splits)

lemma rx_feed_id: "isotp_rx_feed rx f now ev = Some (st, rx', ev') \<Longrightarrow> rx_request_id rx' = rx_request_id rx"
  unfolding rx_feed_dispatch Let_def
  by (auto dest!: rx_single_id rx_first_id rx_consecutive_id split: if_splits)

lemma rx_tick_keeps: "isotp_rx_tick rx now = (st, rx') \<Longrightarrow>
    rx_request_id rx' = rx_request_id rx \<and> rx_config rx' = rx_config rx"
  by (auto simp: isotp_rx_tick_def split: if_splits)

lemma quiet_zero [simp]: "quiet zero_event"
  by (simp add: quiet_def zero_event_def)

lemma rx_step_safe:
  assumes "rx_inv (fst s)" "rx_ok e"
  shows "\<exists>s'. rx_step s e = Some s' \<and> rx_inv (fst s') \<and>
    rx_config (fst s') = rx_config (fst s)"
proof (cases s)
  case (Pair rx out)
  show ?thesis
  proof (cases e)
    case (RxFrame f now)
    with assms Pair rx_feed_inv[of rx f now zero_event] show ?thesis by auto
  next
    case (RxTick now)
    obtain st rx' where t: "isotp_rx_tick rx now = (st, rx')" by fastforce
    with RxTick Pair assms rx_tick_inv[of rx now] rx_tick_keeps[OF t] show ?thesis by simp
  qed
qed

interpretation rxm: refined_machine rx_step rx_ok "\<lambda>s. rx_inv (fst s)" abs_rx_run reasm_step
proof (unfold_locales, goal_cases)
  case (1 s e)
  then show ?case using rx_step_safe[of s e] by blast
next
  case (2 s e s')
  show ?case
  proof (cases s)
    case (Pair rx out)
    show ?thesis
    proof (cases e)
      case (RxFrame f now)
      with 2 Pair obtain st rx' ev where r: "isotp_rx_feed rx f now zero_event = Some (st, rx', ev)"
        and s': "s' = (rx', out @ rx_outputs st ev)"
        by (auto split: option.splits)
      with 2 Pair RxFrame rx_feed_sim[OF _ _ quiet_zero r] rx_feed_config[OF _ _ r] rx_feed_id[OF r]
      show ?thesis by (simp add: abs_rx_run_def)
    next
      case (RxTick now)
      with 2 Pair show ?thesis
        by (auto simp: abs_rx_run_def rx_tick_sim rx_tick_keeps split: prod.splits)
    qed
  qed
qed

section \<open>Properties\<close>

text \<open>
  C2. The receiver implements the abstract reassembler: for every sequence of CAN frames (valid
  or not, addressed to it or not) and timer ticks, started in any well-formed state, no access
  leaves the 16384-byte buffer, the state stays well-formed, and the messages delivered, the
  flow control frames sent and the errors reported are exactly those of the list-based
  reassembler, in the same order.
\<close>

theorem receiver_implements_reassembler:
  assumes "rx_inv rx" "list_all rx_ok es"
  shows "\<exists>rx' out. run rx_step (rx, []) es = Some (rx', out) \<and> rx_inv rx' \<and>
    (rx_config rx', rx_request_id rx', abs_rx rx', out) =
      foldl reasm_step (rx_config rx, rx_request_id rx, abs_rx rx, []) es"
proof -
  obtain s' where s': "run rx_step (rx, []) es = Some s'" "rx_inv (fst s')"
    using rxm.run_safe[of "(rx, [])" es] assms by auto
  have "abs_rx_run s' = foldl reasm_step (abs_rx_run (rx, [])) es"
    using rxm.run_sim[of "(rx, [])" es s'] assms s'(1) by simp
  with s' show ?thesis by (cases s') (auto simp: abs_rx_run_def)
qed

definition rx_blank :: "unit IsoTpRx" where
  "rx_blank = isotp_rx_init
     \<lparr> rx_config = isotp_config_default, rx_request_id = 0, rx_response_id = 0,
       rx_buffer = replicate ISOTP_MAX_PAYLOAD 0, rx_expected_len = 0, rx_received_len = 0,
       rx_next_sequence = 0, rx_block_count = 0, rx_deadline_ms = 0, rx_active = False \<rparr> None 0x7E0 0x7E8"

definition can_frame :: "u32 \<Rightarrow> bytes \<Rightarrow> IsoTpCanFrame" where
  "can_frame i d = \<lparr> f_can_id = i, f_dlc = of_nat (length d), f_is_fd = False, f_bit_rate_switch = False,
     f_data = d @ replicate (64 - length d) 0 \<rparr>"

theorem receiver_implements_reassembler_witness:
  "\<exists>rx'. run rx_step (rx_blank, []) [RxFrame (can_frame 0x7E0 [2, 0x3E, 0]) 0, RxTick 5] =
     Some (rx', [Deliver [0x3E, 0]])"
proof -
  have inv: "rx_inv rx_blank" by (simp add: rx_blank_def rx_init_inv)
  have idle: "abs_rx rx_blank = Idle" by (simp add: rx_blank_def isotp_rx_init_def)
  have cfg: "rx_config rx_blank = isotp_config_default" "rx_request_id rx_blank = 0x7E0"
    by (simp_all add: rx_blank_def isotp_rx_init_def)
  let ?f = "can_frame 0x7E0 [2, 0x3E, 0]"
  have valid: "frame_valid isotp_config_default ?f"
    by (simp add: frame_valid_def can_frame_def ISOTP_MAX_FRAME_DATA_def)
  have "parse_npdu fd ?f = SingleFrame [0x3E, 0]" for fd
    by (simp add: parse_npdu_def can_frame_def parse_single_def)
  then have step: "reasm_feed (rx_config rx_blank) (rx_request_id rx_blank) 0 Idle ?f = (Idle, [Deliver [0x3E, 0]])"
    using valid by (simp add: cfg reasm_feed_def) (simp add: can_frame_def)
  have ok: "list_all rx_ok [RxFrame ?f 0, RxTick 5]" by (simp add: wf_frame_def can_frame_def)
  obtain rx' out where r: "run rx_step (rx_blank, []) [RxFrame ?f 0, RxTick 5] = Some (rx', out)"
    and o: "(rx_config rx', rx_request_id rx', abs_rx rx', out) =
      foldl reasm_step (rx_config rx_blank, rx_request_id rx_blank, abs_rx rx_blank, []) [RxFrame ?f 0, RxTick 5]"
    using receiver_implements_reassembler[OF inv ok] by blast
  from o have "out = [Deliver [0x3E, 0]]" by (simp add: idle step)
  with r show ?thesis by blast
qed

end
