(* ===== verification/Isotp_Tx.thy ===== *)
theory Isotp_Tx
  imports Isotp_Frame
begin

text \<open>
  The transmit direction of the transport (\<open>isotp_tx_*\<close> of \<open>library/src/isotp.c\<close>): segmentation,
  flow control and pacing, memory safety with the state invariant, and what each emitted frame
  carries.

  The output frame of a call is an argument and a result: a call that fails leaves it alone.
  Reading the microsecond clock updates the context stored in the configuration.
\<close>

section \<open>State\<close>

datatype IsoTpTxState =
    ISOTP_TX_STATE_IDLE
  | ISOTP_TX_STATE_WAIT_FIRST_FLOW_CONTROL
  | ISOTP_TX_STATE_SEND_CONSECUTIVE
  | ISOTP_TX_STATE_WAIT_BLOCK_FLOW_CONTROL

record 'k IsoTpTx =
  tx_config :: "'k IsoTpConfig"
  tx_request_id :: u32
  tx_response_id :: u32
  tx_buffer :: bytes
  tx_payload_len :: u32
  tx_offset :: u32
  tx_next_sequence :: u8
  tx_block_count :: u8
  tx_remote_block_size :: u8
  tx_remote_st_min :: u8
  tx_remote_st_min_us :: u32
  tx_deadline_ms :: u32
  tx_next_frame_ms :: u32
  tx_next_frame_us :: u32
  tx_state :: IsoTpTxState
  tx_wait_frames :: u8

section \<open>Operations\<close>

definition isotp_tx_reset :: "'k IsoTpTx \<Rightarrow> 'k IsoTpTx" where
  "isotp_tx_reset tx = tx
     \<lparr> tx_payload_len := 0, tx_offset := 0, tx_next_sequence := 1, tx_block_count := 0,
       tx_remote_block_size := 0, tx_remote_st_min := 0, tx_deadline_ms := 0, tx_next_frame_ms := 0,
       tx_state := ISOTP_TX_STATE_IDLE, tx_wait_frames := 0 \<rparr>"

definition isotp_tx_init :: "'k IsoTpTx \<Rightarrow> 'k IsoTpConfig option \<Rightarrow> u32 \<Rightarrow> u32 \<Rightarrow> 'k IsoTpTx" where
  "isotp_tx_init tx config req resp = isotp_tx_reset (tx
     \<lparr> tx_config := (case config of Some c \<Rightarrow> c | None \<Rightarrow> isotp_config_default),
       tx_request_id := req, tx_response_id := resp \<rparr>)"

definition tx_build_first_frame ::
  "'k IsoTpTx \<Rightarrow> bytes \<Rightarrow> u32 \<Rightarrow> ('k IsoTpTx \<times> IsoTpCanFrame) option" where
  "tx_build_first_frame tx payload len =
     (let frame = clear_frame (tx_response_id tx) (tx_config tx);
          header = (if len \<le> 4095 then 2 else 6 :: nat);
          d = (f_data frame)
            [0 := (if len \<le> 4095 then ucast (0x10 OR (drop_bit 8 len AND 0x0F)) else 0x10),
             1 := (if len \<le> 4095 then ucast len else 0)];
          d = (if len > 4095
               then d[2 := ucast (drop_bit 24 len), 3 := ucast (drop_bit 16 len),
                      4 := ucast (drop_bit 8 len), 5 := ucast len]
               else d);
          first = min_u32 (ucast (tx_dl (tx_config tx)) - of_nat header) len in
      do {
        d \<leftarrow> copy_loop d header payload 0 (unat first);
        Some (tx\<lparr> tx_offset := first, tx_state := ISOTP_TX_STATE_WAIT_FIRST_FLOW_CONTROL \<rparr>,
              frame\<lparr> f_data := d \<rparr>)
      })"

definition tx_build_sf ::
  "'k IsoTpTx \<Rightarrow> bytes \<Rightarrow> u32 \<Rightarrow> IsoTpCanFrame \<Rightarrow> (bool \<times> 'k IsoTpTx \<times> IsoTpCanFrame) option" where
  "tx_build_sf tx payload len frame =
     (let cfg = tx_config tx in
      if len \<le> 7 then
        (let frame = clear_frame (tx_response_id tx) cfg in
         do {
           d \<leftarrow> copy_loop ((f_data frame)[0 := ucast len]) 1 payload 0 (unat len);
           Some (True, isotp_tx_reset tx,
                 frame\<lparr> f_dlc := (if can_fd cfg then fd_dl_for_length (len + 1)
                                   else if padding_enabled cfg then 8 else ucast (len + 1)),
                         f_data := d \<rparr>)
         })
      else
       let single_capacity = (if can_fd cfg then ucast (tx_dl cfg) - 2 else 0) in
       if can_fd cfg \<and> len \<le> single_capacity \<and> len \<le> 255 then
        (let frame = clear_frame (tx_response_id tx) cfg in
         do {
           d \<leftarrow> copy_loop ((f_data frame)[0 := 0, 1 := ucast len]) 2 payload 0 (unat len);
           Some (True, isotp_tx_reset tx,
                 frame\<lparr> f_dlc := fd_dl_for_length (len + 2), f_data := d \<rparr>)
         })
       else Some (False, tx, frame))"

definition isotp_tx_start ::
  "'k IsoTpTx \<Rightarrow> bytes \<Rightarrow> u32 \<Rightarrow> u32 \<Rightarrow> IsoTpCanFrame \<Rightarrow>
     (IsoTpStatus \<times> 'k IsoTpTx \<times> IsoTpCanFrame) option" where
  "isotp_tx_start tx payload len now frame =
     (if len = 0 \<or> \<not> valid_tx_config (tx_config tx) then Some (ISOTP_ERR_ARGUMENT, tx, frame)
      else if unat len > ISOTP_MAX_PAYLOAD then Some (ISOTP_ERR_OVERFLOW, tx, frame)
      else do {
        buf \<leftarrow> copy_loop (tx_buffer tx) 0 payload 0 (unat len);
        let tx = tx\<lparr> tx_buffer := buf, tx_payload_len := len, tx_offset := 0,
                     tx_next_sequence := 1, tx_block_count := 0,
                     tx_deadline_ms := deadline now (tx_timeout_ms (tx_config tx)) \<rparr>;
        (single, tx, frame) \<leftarrow> tx_build_sf tx payload len frame;
        (if single then Some (ISOTP_TX_FRAME_READY, tx, frame)
         else do {
           (tx, frame) \<leftarrow> tx_build_first_frame tx payload len;
           Some (ISOTP_TX_FRAME_READY, tx, frame)
         })
      })"

definition tx_validate_fc_frame :: "'k IsoTpTx \<Rightarrow> IsoTpCanFrame \<Rightarrow> IsoTpStatus" where
  "tx_validate_fc_frame tx frame =
     (if \<not> frame_valid (tx_config tx) frame then ISOTP_ERR_ARGUMENT
      else if f_can_id frame \<noteq> tx_request_id tx then ISOTP_ERR_ARGUMENT
      else if tx_state tx \<noteq> ISOTP_TX_STATE_WAIT_FIRST_FLOW_CONTROL \<and>
              tx_state tx \<noteq> ISOTP_TX_STATE_WAIT_BLOCK_FLOW_CONTROL then ISOTP_ERR_STATE
      else if f_dlc frame < 3 \<or> drop_bit 4 (f_data frame ! 0) \<noteq> 3 then ISOTP_ERR_FORMAT
      else ISOTP_OK)"

text \<open>One reading of the microsecond clock, when the configuration has one.\<close>

definition read_clock :: "'k IsoTpConfig \<Rightarrow> (u32 \<times> 'k IsoTpConfig) option" where
  "read_clock cfg =
     (case clock_us cfg of
        None \<Rightarrow> None
      | Some clk \<Rightarrow> (case clk (clock_context cfg) of
           (us, ctx) \<Rightarrow> Some (us, cfg\<lparr> clock_context := ctx \<rparr>)))"

definition isotp_tx_feed_flow_control ::
  "'k IsoTpTx \<Rightarrow> IsoTpCanFrame \<Rightarrow> u32 \<Rightarrow> IsoTpStatus \<times> 'k IsoTpTx" where
  "isotp_tx_feed_flow_control tx frame now =
     (let status = tx_validate_fc_frame tx frame; flow = f_data frame ! 0 AND 0x0F in
      if status \<noteq> ISOTP_OK then (status, tx)
      else if flow = flow_status_code ISOTP_FC_OVERFLOW then (ISOTP_ERR_FLOW_OVERFLOW, isotp_tx_reset tx)
      else if (flow \<noteq> flow_status_code ISOTP_FC_CTS \<and> flow \<noteq> flow_status_code ISOTP_FC_WAIT) \<or>
              \<not> valid_st_min (f_data frame ! 2)
      then (ISOTP_ERR_FLOW_CONTROL, isotp_tx_reset tx)
      else if flow = flow_status_code ISOTP_FC_WAIT then
        (if tx_wait_frames tx \<ge> max_wait_frames (tx_config tx)
         then (ISOTP_ERR_FLOW_CONTROL, isotp_tx_reset tx)
         else (ISOTP_OK, tx\<lparr> tx_wait_frames := tx_wait_frames tx + 1,
                             tx_deadline_ms := deadline now (tx_timeout_ms (tx_config tx)) \<rparr>))
      else
        let tx = tx\<lparr> tx_remote_block_size := f_data frame ! 1,
                     tx_remote_st_min := f_data frame ! 2,
                     tx_remote_st_min_us := st_min_us (f_data frame ! 2),
                     tx_wait_frames := 0,
                     tx_state := ISOTP_TX_STATE_SEND_CONSECUTIVE,
                     tx_block_count := 0,
                     tx_next_frame_ms := now \<rparr>;
            tx = (case read_clock (tx_config tx) of
                    None \<Rightarrow> tx
                  | Some (us, cfg) \<Rightarrow> tx\<lparr> tx_next_frame_us := us, tx_config := cfg \<rparr>) in
        (ISOTP_OK, tx\<lparr> tx_deadline_ms := deadline now (tx_timeout_ms (tx_config tx)) \<rparr>))"

definition tx_pacing_expired :: "'k IsoTpTx \<Rightarrow> u32 \<Rightarrow> bool \<times> 'k IsoTpTx" where
  "tx_pacing_expired tx now =
     (case read_clock (tx_config tx) of
        Some (us, cfg) \<Rightarrow> (expired us (tx_next_frame_us tx), tx\<lparr> tx_config := cfg \<rparr>)
      | None \<Rightarrow> (expired now (tx_next_frame_ms tx), tx))"

definition isotp_tx_next ::
  "'k IsoTpTx \<Rightarrow> u32 \<Rightarrow> IsoTpCanFrame \<Rightarrow> (IsoTpStatus \<times> 'k IsoTpTx \<times> IsoTpCanFrame) option" where
  "isotp_tx_next tx now frame =
     (if tx_state tx = ISOTP_TX_STATE_IDLE \<or>
         tx_state tx = ISOTP_TX_STATE_WAIT_FIRST_FLOW_CONTROL \<or>
         tx_state tx = ISOTP_TX_STATE_WAIT_BLOCK_FLOW_CONTROL then Some (ISOTP_OK, tx, frame)
      else if expired now (tx_deadline_ms tx) then Some (ISOTP_ERR_TIMEOUT, isotp_tx_reset tx, frame)
      else case tx_pacing_expired tx now of (due, tx) \<Rightarrow>
        if \<not> due then Some (ISOTP_OK, tx, frame)
        else if tx_offset tx \<ge> tx_payload_len tx then Some (ISOTP_COMPLETE, isotp_tx_reset tx, frame)
        else
         let copy = min_u32 (tx_payload_len tx - tx_offset tx) (ucast (tx_dl (tx_config tx)) - 1);
             frame = clear_frame (tx_response_id tx) (tx_config tx) in
         do {
           d \<leftarrow> copy_loop ((f_data frame)[0 := 0x20 OR tx_next_sequence tx]) 1
                 (tx_buffer tx) (unat (tx_offset tx)) (unat copy);
           let tx = tx\<lparr> tx_offset := tx_offset tx + copy,
                        tx_next_sequence := (tx_next_sequence tx + 1) AND 0x0F,
                        tx_block_count := tx_block_count tx + 1,
                        tx_deadline_ms := deadline now (tx_timeout_ms (tx_config tx)),
                        tx_next_frame_ms := now + st_min_ms (tx_remote_st_min tx) \<rparr>;
           let tx = (case read_clock (tx_config tx) of
                       None \<Rightarrow> tx
                     | Some (us, cfg) \<Rightarrow>
                         tx\<lparr> tx_next_frame_us := us + tx_remote_st_min_us tx, tx_config := cfg \<rparr>);
           let tx = (if tx_remote_block_size tx \<noteq> 0 \<and> tx_block_count tx \<ge> tx_remote_block_size tx \<and>
                        tx_offset tx < tx_payload_len tx
                     then tx\<lparr> tx_block_count := 0, tx_state := ISOTP_TX_STATE_WAIT_BLOCK_FLOW_CONTROL \<rparr>
                     else tx);
           Some (ISOTP_TX_FRAME_READY, tx, frame\<lparr> f_data := d \<rparr>)
         })"

definition isotp_tx_state :: "'k IsoTpTx \<Rightarrow> IsoTpTxState" where
  "isotp_tx_state tx = tx_state tx"

definition isotp_tx_tick :: "'k IsoTpTx \<Rightarrow> u32 \<Rightarrow> IsoTpStatus \<times> 'k IsoTpTx" where
  "isotp_tx_tick tx now =
     (if tx_state tx = ISOTP_TX_STATE_IDLE then (ISOTP_OK, tx)
      else if expired now (tx_deadline_ms tx) then (ISOTP_ERR_TIMEOUT, isotp_tx_reset tx)
      else (ISOTP_OK, tx))"


section \<open>The state invariant\<close>

definition tx_inv :: "'k IsoTpTx \<Rightarrow> bool" where
  "tx_inv tx \<longleftrightarrow>
     length (tx_buffer tx) = ISOTP_MAX_PAYLOAD \<and>
     unat (tx_next_sequence tx) < 16 \<and>
     tx_wait_frames tx \<le> max_wait_frames (tx_config tx) \<and>
     (tx_state tx \<noteq> ISOTP_TX_STATE_IDLE \<longrightarrow>
        valid_tx_config (tx_config tx) \<and>
        unat (tx_offset tx) \<le> unat (tx_payload_len tx) \<and>
        unat (tx_payload_len tx) \<le> ISOTP_MAX_PAYLOAD) \<and>
     (tx_state tx = ISOTP_TX_STATE_SEND_CONSECUTIVE \<and> tx_remote_block_size tx \<noteq> 0 \<and>
        tx_offset tx < tx_payload_len tx \<longrightarrow> tx_block_count tx < tx_remote_block_size tx)"

lemma tx_reset_simps [simp]:
  "tx_state (isotp_tx_reset tx) = ISOTP_TX_STATE_IDLE"
  "tx_buffer (isotp_tx_reset tx) = tx_buffer tx"
  "tx_config (isotp_tx_reset tx) = tx_config tx"
  "tx_request_id (isotp_tx_reset tx) = tx_request_id tx"
  "tx_response_id (isotp_tx_reset tx) = tx_response_id tx"
  "tx_next_sequence (isotp_tx_reset tx) = 1"
  "tx_wait_frames (isotp_tx_reset tx) = 0"
  by (simp_all add: isotp_tx_reset_def)

lemma tx_reset_inv: "length (tx_buffer tx) = ISOTP_MAX_PAYLOAD \<Longrightarrow> tx_inv (isotp_tx_reset tx)"
  by (simp add: tx_inv_def)

lemma tx_inv_reset [simp]: "tx_inv tx \<Longrightarrow> tx_inv (isotp_tx_reset tx)"
  by (rule tx_reset_inv) (simp add: tx_inv_def)

lemma tx_init_inv: "length (tx_buffer tx) = ISOTP_MAX_PAYLOAD \<Longrightarrow> tx_inv (isotp_tx_init tx cfg req resp)"
  unfolding isotp_tx_init_def by (rule tx_reset_inv) simp

text \<open>Reading the clock changes the context only.\<close>

definition same_settings :: "'k IsoTpConfig \<Rightarrow> 'k IsoTpConfig \<Rightarrow> bool" where
  "same_settings c c' \<longleftrightarrow> c' = c\<lparr> clock_context := clock_context c' \<rparr>"

lemma same_settings_refl [simp]: "same_settings c c"
  by (simp add: same_settings_def)

lemma same_settingsD:
  assumes "same_settings c c'"
  shows "valid_tx_config c' = valid_tx_config c" "max_wait_frames c' = max_wait_frames c"
    "tx_dl c' = tx_dl c" "can_fd c' = can_fd c" "clock_us c' = clock_us c"
    "tx_timeout_ms c' = tx_timeout_ms c" "clear_frame i c' = clear_frame i c"
    "frame_valid c' f = frame_valid c f"
proof -
  obtain x where "c' = c\<lparr> clock_context := x \<rparr>" using assms unfolding same_settings_def ..
  then show "valid_tx_config c' = valid_tx_config c" "max_wait_frames c' = max_wait_frames c"
    "tx_dl c' = tx_dl c" "can_fd c' = can_fd c" "clock_us c' = clock_us c"
    "tx_timeout_ms c' = tx_timeout_ms c" "clear_frame i c' = clear_frame i c"
    "frame_valid c' f = frame_valid c f"
    by (simp_all add: valid_tx_config_def clear_frame_def frame_valid_def)
qed

lemma read_clock_same: "read_clock cfg = Some (us, cfg') \<Longrightarrow> same_settings cfg cfg'"
  by (auto simp: read_clock_def same_settings_def split: option.splits prod.splits)

lemma read_clock_none: "clock_us cfg = None \<Longrightarrow> read_clock cfg = None"
  by (simp add: read_clock_def)

section \<open>Closed forms of the frame builders\<close>

lemma unat_min_u32_tx [simp]: "unat (min_u32 a b) = min (unat a) (unat b)"
  by (simp add: min_u32_def min_def word_less_nat_alt)

definition sf_header :: "'k IsoTpConfig \<Rightarrow> nat \<Rightarrow> bytes" where
  "sf_header cfg n = (if n \<le> 7 then [of_nat n] else [0, of_nat n])"

definition fits_single :: "'k IsoTpConfig \<Rightarrow> nat \<Rightarrow> bool" where
  "fits_single cfg n \<longleftrightarrow> n \<le> 7 \<or> can_fd cfg \<and> n + 2 \<le> unat (tx_dl cfg)"

definition fill_byte :: "'k IsoTpConfig \<Rightarrow> u8" where
  "fill_byte cfg = (if padding_enabled cfg then padding_value cfg else 0)"

lemma clear_frame_data: "f_data (clear_frame i cfg) = replicate 64 (fill_byte cfg)"
  by (simp add: clear_frame_def fill_byte_def ISOTP_MAX_FRAME_DATA_def)

definition sf_frame :: "'k IsoTpTx \<Rightarrow> bytes \<Rightarrow> nat \<Rightarrow> IsoTpCanFrame" where
  "sf_frame tx payload n =
     (let cfg = tx_config tx; h = sf_header cfg n in
      (clear_frame (tx_response_id tx) cfg)
        \<lparr> f_dlc := (if can_fd cfg then fd_dl_for_length (of_nat (length h + n))
                   else if padding_enabled cfg then 8 else of_nat (n + 1)),
          f_data := h @ take n payload @ replicate (64 - length h - n) (fill_byte cfg) \<rparr>)"

lemma update_replicate_0: "(replicate 64 x)[0 := a] = a # replicate 63 x"
  by (simp add: numeral_eq_Suc)

lemma update_replicate_01: "(replicate 64 x)[0 := a, Suc 0 := b] = a # b # replicate 62 x"
  by (simp add: numeral_eq_Suc)

lemma update_replicate_05:
  "(replicate 64 x)[0 := a, Suc 0 := b, 2 := c, 3 := d, 4 := e, 5 := f] =
     a # b # c # d # e # f # replicate 58 x"
  by (simp add: numeral_eq_Suc)

lemma tx_build_sf_eq:
  assumes "valid_tx_config (tx_config tx)" "n \<le> length payload" "n \<le> ISOTP_MAX_PAYLOAD"
  shows "tx_build_sf tx payload (of_nat n) frame =
    Some (if fits_single (tx_config tx) n then (True, isotp_tx_reset tx, sf_frame tx payload n)
          else (False, tx, frame))"
proof -
  define cfg where "cfg = tx_config tx"
  have n: "n \<le> 16384" using assms(3) by (simp add: ISOTP_MAX_PAYLOAD_def)
  note dl = valid_tx_config_tx_dl[OF assms(1), folded cfg_def]
  have u: "unat (of_nat n :: u32) = n" using n by (simp add: unat_of_nat_32)
  have ucast_nat: "(ucast (of_nat k :: u32) :: u8) = of_nat k" if "k \<le> 20000" for k
    using that by (simp add: unsigned_of_nat take_bit_nat_eq_self)
  have uc: "(ucast (of_nat n :: u32) :: u8) = of_nat n"
    "(of_nat n + 1 :: u32) = 1 + of_nat n" "(of_nat n + 2 :: u32) = 2 + of_nat n"
    "(ucast (1 + of_nat n :: u32) :: u8) = 1 + of_nat n"
    using n ucast_nat[of n] ucast_nat[of "Suc n"] by simp_all
  have le: "(of_nat n :: u32) \<le> numeral k \<longleftrightarrow> n \<le> unat (numeral k :: u32)" for k
    by (simp add: word_le_nat_alt u)
  have cap: "unat (ucast (tx_dl cfg) - 2 :: u32) = unat (tx_dl cfg) - 2"
    using dl by (subst unat_sub_32) (simp_all add: word_le_nat_alt)
  have single: "(can_fd cfg \<and> (of_nat n :: u32) \<le> (if can_fd cfg then ucast (tx_dl cfg) - 2 else 0) \<and>
      (of_nat n :: u32) \<le> 255) \<longleftrightarrow> can_fd cfg \<and> n + 2 \<le> unat (tx_dl cfg)"
    using dl by (auto simp: word_le_nat_alt u cap)
  show ?thesis
  proof (cases "n \<le> 7")
    case True
    have "copy_loop (of_nat n # replicate 63 x) (Suc 0) payload 0 n =
        Some (of_nat n # take n payload @ replicate (63 - n) x)" for x :: u8
      using True assms(2) by (subst copy_loop_closed) auto
    with True show ?thesis
      by (simp add: tx_build_sf_def Let_def le u cfg_def[symmetric] clear_frame_data update_replicate_0
          sf_frame_def fits_single_def sf_header_def uc)
  next
    case False
    show ?thesis
    proof (cases "can_fd cfg \<and> n + 2 \<le> unat (tx_dl cfg)")
      case True
      then have n62: "n \<le> 62" using dl by simp
      have "copy_loop (0 # of_nat n # replicate 62 x) 2 payload 0 n =
          Some (0 # of_nat n # take n payload @ replicate (62 - n) x)" for x :: u8
        using n62 assms(2) by (subst copy_loop_closed) auto
      with True False n62 single show ?thesis
        by (simp add: tx_build_sf_def Let_def le u cfg_def[symmetric] clear_frame_data update_replicate_01
            sf_frame_def fits_single_def sf_header_def uc)
    next
      case no: False
      with False single show ?thesis
        by (auto simp: tx_build_sf_def Let_def le u cfg_def[symmetric] fits_single_def)
    qed
  qed
qed

definition ff_header :: "nat \<Rightarrow> bytes" where
  "ff_header n =
     (if n \<le> 4095 then [of_nat (16 + n div 256), of_nat n]
      else [0x10, 0, of_nat (n div 16777216), of_nat (n div 65536), of_nat (n div 256), of_nat n])"

definition ff_size :: "'k IsoTpConfig \<Rightarrow> nat \<Rightarrow> nat" where
  "ff_size cfg n = unat (tx_dl cfg) - length (ff_header n)"

definition ff_frame :: "'k IsoTpTx \<Rightarrow> bytes \<Rightarrow> nat \<Rightarrow> IsoTpCanFrame" where
  "ff_frame tx payload n =
     (let cfg = tx_config tx in
      (clear_frame (tx_response_id tx) cfg)
        \<lparr> f_data := ff_header n @ take (ff_size cfg n) payload @
                    replicate (64 - unat (tx_dl cfg)) (fill_byte cfg) \<rparr>)"

definition ff_sent :: "'k IsoTpTx \<Rightarrow> nat \<Rightarrow> 'k IsoTpTx" where
  "ff_sent tx n = tx\<lparr> tx_offset := of_nat (ff_size (tx_config tx) n),
                      tx_state := ISOTP_TX_STATE_WAIT_FIRST_FLOW_CONTROL \<rparr>"

lemma unat_drop_bit_nat: "n < 4294967296 \<Longrightarrow> unat (drop_bit k (of_nat n :: u32)) = n div 2 ^ k"
  by (subst unsigned_drop_bit_eq) (simp add: unat_of_nat_32 drop_bit_eq_div take_bit_nat_eq_self)

lemma ucast_drop_bit_nat:
  "n < 4294967296 \<Longrightarrow> (ucast (drop_bit k (of_nat n :: u32)) :: u8) = of_nat (n div 2 ^ k)"
  by (metis of_nat_unat unat_drop_bit_nat)

lemma ff_header_byte:
  assumes "n \<le> 4095"
  shows "(ucast (0x10 OR (drop_bit 8 (of_nat n :: u32) AND 0x0F)) :: u8) = of_nat (16 + n div 256)"
proof -
  define x where "x = (drop_bit 8 (of_nat n) :: u32)"
  have x: "unat x = n div 256" using assms unat_drop_bit_nat[of n 8] by (simp add: x_def)
  have "x AND 15 = take_bit 4 x" by (simp add: take_bit_eq_mask mask_eq_exp_minus_1)
  then have "x AND 15 = x mod 16" by (simp add: take_bit_eq_mod)
  then have low: "unat (x AND 15) = n div 256"
    using x assms by (simp add: unat_mod_distrib)
  have "unat (push_bit 4 1 OR (x AND 15) :: u32) = 16 + n div 256"
    using assms by (subst unat_push_or) (simp_all add: low)
  then have "unat (0x10 OR (x AND 15)) = 16 + n div 256" by simp
  then show ?thesis unfolding x_def by (metis of_nat_unat)
qed

lemma tx_build_first_frame_eq:
  assumes "valid_tx_config (tx_config tx)" "n \<le> length payload" "n \<le> ISOTP_MAX_PAYLOAD"
    and "\<not> fits_single (tx_config tx) n"
  shows "tx_build_first_frame tx payload (of_nat n) = Some (ff_sent tx n, ff_frame tx payload n)"
proof -
  define cfg where "cfg = tx_config tx"
  have n: "n \<le> 16384" using assms(3) by (simp add: ISOTP_MAX_PAYLOAD_def)
  note dl = valid_tx_config_tx_dl[OF assms(1), folded cfg_def]
  have u: "unat (of_nat n :: u32) = n" using n by (simp add: unat_of_nat_32)
  have le: "(of_nat n :: u32) \<le> 4095 \<longleftrightarrow> n \<le> 4095" by (simp add: word_le_nat_alt u)
  have dl8: "unat (tx_dl cfg) = 8" if "\<not> can_fd cfg"
    using assms(1) that by (simp add: valid_tx_config_def cfg_def[symmetric])
  have small: "ff_size cfg n \<le> n" "2 \<le> length (ff_header n)" "length (ff_header n) \<le> 6"
      "ff_size cfg n + length (ff_header n) = unat (tx_dl cfg)"
    using assms(4) dl dl8 by (cases "can_fd cfg"; auto simp: ff_size_def ff_header_def fits_single_def cfg_def[symmetric])+
  have first: "min (unat (ucast (tx_dl cfg) - of_nat (length (ff_header n)) :: u32)) n = ff_size cfg n"
  proof -
    have "unat (of_nat (length (ff_header n)) :: u32) = length (ff_header n)"
      using small(3) by (simp add: unat_of_nat_32)
    then have "unat (ucast (tx_dl cfg) - of_nat (length (ff_header n)) :: u32) = ff_size cfg n"
      using small(3) dl by (subst unat_sub_32) (simp_all add: word_le_nat_alt ff_size_def)
    with small(1) show ?thesis by simp
  qed
  have firstw: "min_u32 (ucast (tx_dl cfg) - of_nat (length (ff_header n))) (of_nat n) = of_nat (ff_size cfg n)"
    using first small(1) n by (simp add: word_unat_eq_iff u unat_of_nat_32)
  have uf: "unat (of_nat (ff_size cfg n) :: u32) = ff_size cfg n"
    using small(1) n by (simp add: unat_of_nat_32)
  have copy: "copy_loop (ff_header n @ replicate (64 - length (ff_header n)) x) (length (ff_header n)) payload 0
      (ff_size cfg n) = Some (ff_header n @ take (ff_size cfg n) payload @ replicate (64 - unat (tx_dl cfg)) x)"
    for x :: u8
    using small assms(2) dl by (subst copy_loop_closed) (auto simp: ff_size_def)
  have hdr: "(let d = (replicate 64 x)[0 := (if n \<le> 4095 then ucast (0x10 OR (drop_bit 8 (of_nat n :: u32) AND 0x0F)) else 0x10),
             1 := (if n \<le> 4095 then ucast (of_nat n :: u32) else 0)] in
          if \<not> n \<le> 4095
          then d[2 := ucast (drop_bit 24 (of_nat n :: u32)), 3 := ucast (drop_bit 16 (of_nat n :: u32)),
                      4 := ucast (drop_bit 8 (of_nat n :: u32)), 5 := ucast (of_nat n :: u32)]
               else d) = ff_header n @ replicate (64 - length (ff_header n)) x" for x :: u8
  proof (cases "n \<le> 4095")
    case True
    then show ?thesis
      using n ucast_drop_bit_nat[of n 0]
      by (simp add: ff_header_def ff_header_byte update_replicate_01)
  next
    case False
    then show ?thesis
      using n ucast_drop_bit_nat[of n 24] ucast_drop_bit_nat[of n 16] ucast_drop_bit_nat[of n 8]
        ucast_drop_bit_nat[of n 0]
      by (simp add: ff_header_def update_replicate_05)
  qed
  have len_h: "(if n \<le> 4095 then 2 else 6) = length (ff_header n)" by (simp add: ff_header_def)
  show ?thesis
  proof (cases "n \<le> 4095")
    case True
    then have h: "length (ff_header n) = 2" by (simp add: ff_header_def)
    have ngt: "\<not> (of_nat n :: u32) > 4095" using True le by (simp add: not_less)
    from True hdr[of "fill_byte cfg"] copy[of "fill_byte cfg"] firstw first u ngt show ?thesis
      by (simp add: tx_build_first_frame_def ff_frame_def ff_sent_def clear_frame_data le h
          cfg_def[symmetric] Let_def)
  next
    case False
    then have h: "length (ff_header n) = 6" by (simp add: ff_header_def)
    have gt: "(of_nat n :: u32) > 4095" using False le by (simp add: not_le)
    from False hdr[of "fill_byte cfg"] copy[of "fill_byte cfg"] firstw first u gt show ?thesis
      by (simp add: tx_build_first_frame_def ff_frame_def ff_sent_def clear_frame_data le h
          cfg_def[symmetric] Let_def)
  qed
qed

definition tx_started :: "'k IsoTpTx \<Rightarrow> bytes \<Rightarrow> nat \<Rightarrow> u32 \<Rightarrow> 'k IsoTpTx" where
  "tx_started tx payload n now = tx
     \<lparr> tx_buffer := take n payload @ drop n (tx_buffer tx), tx_payload_len := of_nat n, tx_offset := 0,
       tx_next_sequence := 1, tx_block_count := 0,
       tx_deadline_ms := deadline now (tx_timeout_ms (tx_config tx)) \<rparr>"

lemma tx_started_simps [simp]:
  "tx_config (tx_started tx payload n now) = tx_config tx"
  "tx_request_id (tx_started tx payload n now) = tx_request_id tx"
  "tx_response_id (tx_started tx payload n now) = tx_response_id tx"
  by (simp_all add: tx_started_def)

lemma tx_start_eq:
  assumes "length (tx_buffer tx) = ISOTP_MAX_PAYLOAD" "n \<le> length payload" "n < 4294967296"
  shows "isotp_tx_start tx payload (of_nat n) now frame =
    Some (if n = 0 \<or> \<not> valid_tx_config (tx_config tx) then (ISOTP_ERR_ARGUMENT, tx, frame)
      else if n > ISOTP_MAX_PAYLOAD then (ISOTP_ERR_OVERFLOW, tx, frame)
      else (let tx' = tx_started tx payload n now in
        if fits_single (tx_config tx) n
        then (ISOTP_TX_FRAME_READY, isotp_tx_reset tx', sf_frame tx' payload n)
        else (ISOTP_TX_FRAME_READY, ff_sent tx' n, ff_frame tx' payload n)))"
proof -
  have u: "unat (of_nat n :: u32) = n" using assms(3) by (rule unat_of_nat_32)
  have z: "(of_nat n :: u32) = 0 \<longleftrightarrow> n = 0" by (simp add: word_unat_eq_iff u)
  show ?thesis
  proof (cases "n = 0 \<or> \<not> valid_tx_config (tx_config tx) \<or> n > ISOTP_MAX_PAYLOAD")
    case True
    then show ?thesis by (auto simp: isotp_tx_start_def z u)
  next
    case False
    then have v: "valid_tx_config (tx_config (tx_started tx payload n now))" "n \<le> ISOTP_MAX_PAYLOAD" by simp_all
    have copy: "copy_loop (tx_buffer tx) 0 payload 0 n = Some (take n payload @ drop n (tx_buffer tx))"
      using assms v by (subst copy_loop_closed) auto
    show ?thesis
      using False copy tx_build_sf_eq[OF v(1) assms(2) v(2), of frame]
        tx_build_first_frame_eq[OF v(1) assms(2) v(2)]
      by (auto simp: isotp_tx_start_def z u Let_def simp flip: tx_started_def)
  qed
qed

lemma tx_start_inv:
  assumes "tx_inv tx" "n \<le> length payload" "n < 4294967296"
  shows "\<exists>st tx' frame'. isotp_tx_start tx payload (of_nat n) now frame = Some (st, tx', frame') \<and>
    tx_inv tx' \<and> tx_config tx' = tx_config tx \<and> (wf_frame frame \<longrightarrow> wf_frame frame')"
proof -
  have buf: "length (tx_buffer tx) = ISOTP_MAX_PAYLOAD" using assms(1) by (simp add: tx_inv_def)
  have 1: "tx_inv (isotp_tx_reset (tx_started tx payload n now))" if "n \<le> ISOTP_MAX_PAYLOAD"
    using that buf assms(2) by (intro tx_reset_inv) (simp add: tx_started_def)
  have 2: "tx_inv (ff_sent (tx_started tx payload n now) n)"
    if "n \<le> ISOTP_MAX_PAYLOAD" "valid_tx_config (tx_config tx)" "\<not> fits_single (tx_config tx) n"
  proof -
    have "ff_size (tx_config tx) n \<le> n" "n \<le> 16384"
      using that valid_tx_config_tx_dl[OF that(2)]
      by (auto simp: ff_size_def fits_single_def ff_header_def valid_tx_config_def ISOTP_MAX_PAYLOAD_def split: if_splits)
    then show ?thesis
      using that buf assms(1,2)
      by (simp add: tx_inv_def ff_sent_def tx_started_def unat_of_nat_32)
  qed
  have 3: "wf_frame (sf_frame tx' payload n)" if "fits_single (tx_config tx') n" "valid_tx_config (tx_config tx')" for tx' :: "'a IsoTpTx"
    using that assms(2) valid_tx_config_tx_dl[OF that(2)]
    by (auto simp: wf_frame_def sf_frame_def Let_def sf_header_def fits_single_def)
  have 4: "wf_frame (ff_frame tx' payload n)"
    if "valid_tx_config (tx_config tx')" "\<not> fits_single (tx_config tx') n" for tx' :: "'a IsoTpTx"
    using that assms(2) valid_tx_config_tx_dl[OF that(1)]
    by (auto simp: wf_frame_def ff_frame_def Let_def ff_header_def fits_single_def ff_size_def
        valid_tx_config_def min_def split: if_splits)
  show ?thesis
    using assms(1) 1 2 3 4
    by (auto simp: tx_start_eq[OF buf assms(2,3)] Let_def ff_sent_def not_less)
qed

section \<open>Consecutive frames\<close>

definition cf_size :: "'k IsoTpTx \<Rightarrow> nat" where
  "cf_size tx = min (unat (tx_payload_len tx) - unat (tx_offset tx)) (unat (tx_dl (tx_config tx)) - 1)"

definition cf_frame :: "'k IsoTpTx \<Rightarrow> IsoTpCanFrame" where
  "cf_frame tx =
     (let cfg = tx_config tx in
      (clear_frame (tx_response_id tx) cfg)
        \<lparr> f_data := (0x20 OR tx_next_sequence tx) #
            take (cf_size tx) (drop (unat (tx_offset tx)) (tx_buffer tx)) @
            replicate (63 - cf_size tx) (fill_byte cfg) \<rparr>)"

definition cf_sent :: "'k IsoTpTx \<Rightarrow> u32 \<Rightarrow> 'k IsoTpTx" where
  "cf_sent tx now =
     (let tx = tx\<lparr> tx_offset := tx_offset tx + of_nat (cf_size tx),
                   tx_next_sequence := (tx_next_sequence tx + 1) AND 0x0F,
                   tx_block_count := tx_block_count tx + 1,
                   tx_deadline_ms := deadline now (tx_timeout_ms (tx_config tx)),
                   tx_next_frame_ms := now + st_min_ms (tx_remote_st_min tx) \<rparr>;
          tx = (case read_clock (tx_config tx) of
                  None \<Rightarrow> tx
                | Some (us, cfg) \<Rightarrow> tx\<lparr> tx_next_frame_us := us + tx_remote_st_min_us tx, tx_config := cfg \<rparr>) in
      if tx_remote_block_size tx \<noteq> 0 \<and> tx_block_count tx \<ge> tx_remote_block_size tx \<and>
         tx_offset tx < tx_payload_len tx
      then tx\<lparr> tx_block_count := 0, tx_state := ISOTP_TX_STATE_WAIT_BLOCK_FLOW_CONTROL \<rparr>
      else tx)"

lemma pacing_keeps:
  assumes "tx_pacing_expired tx now = (due, tx')"
  shows "tx' = tx\<lparr> tx_config := tx_config tx' \<rparr>" "same_settings (tx_config tx) (tx_config tx')"
  using assms by (auto simp: tx_pacing_expired_def read_clock_same split: option.splits prod.splits)

lemma pacing_inv: "tx_inv tx \<Longrightarrow> tx_pacing_expired tx now = (due, tx') \<Longrightarrow> tx_inv tx'"
proof -
  assume inv: "tx_inv tx" and p: "tx_pacing_expired tx now = (due, tx')"
  note s = same_settingsD[OF pacing_keeps(2)[OF p]]
  obtain c where c: "tx' = tx\<lparr> tx_config := c \<rparr>" using pacing_keeps(1)[OF p] ..
  show "tx_inv tx'" using inv s by (simp add: tx_inv_def c)
qed

lemma tx_next_eq:
  assumes "tx_inv tx"
  shows "isotp_tx_next tx now frame =
    Some (if tx_state tx \<noteq> ISOTP_TX_STATE_SEND_CONSECUTIVE then (ISOTP_OK, tx, frame)
      else if expired now (tx_deadline_ms tx) then (ISOTP_ERR_TIMEOUT, isotp_tx_reset tx, frame)
      else case tx_pacing_expired tx now of (due, tx') \<Rightarrow>
        if \<not> due then (ISOTP_OK, tx', frame)
        else if tx_offset tx' \<ge> tx_payload_len tx' then (ISOTP_COMPLETE, isotp_tx_reset tx', frame)
        else (ISOTP_TX_FRAME_READY, cf_sent tx' now, cf_frame tx'))"
proof (cases "tx_state tx = ISOTP_TX_STATE_SEND_CONSECUTIVE")
  case False
  then show ?thesis by (cases "tx_state tx") (simp_all add: isotp_tx_next_def)
next
  case True
  obtain due tx' where p: "tx_pacing_expired tx now = (due, tx')" by fastforce
  then have inv: "tx_inv tx'" using assms by (rule pacing_inv[rotated])
  have st: "tx_state tx' = ISOTP_TX_STATE_SEND_CONSECUTIVE"
    using pacing_keeps(1)[OF p] True by (metis IsoTpTx.select_convs(15) IsoTpTx.surjective IsoTpTx.update_convs(1))
  show ?thesis
  proof (cases "tx_offset tx' \<ge> tx_payload_len tx'")
    case True
    with st p \<open>tx_state tx = _\<close> show ?thesis by (simp add: isotp_tx_next_def)
  next
    case False
    then have lt: "unat (tx_offset tx') < unat (tx_payload_len tx')"
      by (simp add: word_le_nat_alt)
    have v: "valid_tx_config (tx_config tx')" "unat (tx_payload_len tx') \<le> 16384" "length (tx_buffer tx') = 16384"
      using inv st by (simp_all add: tx_inv_def ISOTP_MAX_PAYLOAD_def)
    note dl = valid_tx_config_tx_dl[OF v(1)]
    have d1: "unat (ucast (tx_dl (tx_config tx')) - 1 :: u32) = unat (tx_dl (tx_config tx')) - 1"
      using dl by (subst unat_sub_32) (simp_all add: word_le_nat_alt)
    have rem: "unat (tx_payload_len tx' - tx_offset tx') = unat (tx_payload_len tx') - unat (tx_offset tx')"
      using lt by (subst unat_sub_32) (simp_all add: word_le_nat_alt)
    have uc: "unat (min_u32 (tx_payload_len tx' - tx_offset tx') (ucast (tx_dl (tx_config tx')) - 1)) = cf_size tx'"
      by (simp add: d1 rem cf_size_def)
    have c63: "cf_size tx' \<le> 63" using dl by (auto simp: cf_size_def min_def)
    have wc: "min_u32 (tx_payload_len tx' - tx_offset tx') (ucast (tx_dl (tx_config tx')) - 1) = of_nat (cf_size tx')"
      using uc c63 by (simp add: word_unat_eq_iff unat_of_nat_32 del: unat_min_u32_tx)
    have copy: "copy_loop (a # replicate 63 x) (Suc 0) (tx_buffer tx') (unat (tx_offset tx')) (cf_size tx') =
        Some (a # take (cf_size tx') (drop (unat (tx_offset tx')) (tx_buffer tx')) @ replicate (63 - cf_size tx') x)"
      for a x :: u8
      using c63 v lt by (subst copy_loop_closed) (auto simp: cf_size_def)
    have ucs: "unat (of_nat (cf_size tx') :: u32) = cf_size tx'" using c63 by (simp add: unat_of_nat_32)
    show ?thesis
      using st p \<open>tx_state tx = _\<close> False copy
      by (simp add: isotp_tx_next_def wc ucs clear_frame_data update_replicate_0 Let_def cf_sent_def cf_frame_def)
  qed
qed

text \<open>What sending one consecutive frame changes, with or without a clock.\<close>

lemma cf_sent_fields:
  assumes "tx_inv tx" "tx_state tx = ISOTP_TX_STATE_SEND_CONSECUTIVE" "tx_offset tx < tx_payload_len tx"
  shows "unat (tx_offset (cf_sent tx now)) = unat (tx_offset tx) + cf_size tx"
    "unat (tx_next_sequence (cf_sent tx now)) = (unat (tx_next_sequence tx) + 1) mod 16"
    "tx_buffer (cf_sent tx now) = tx_buffer tx"
    "tx_payload_len (cf_sent tx now) = tx_payload_len tx"
    "tx_remote_block_size (cf_sent tx now) = tx_remote_block_size tx"
    "tx_wait_frames (cf_sent tx now) = tx_wait_frames tx"
    "tx_request_id (cf_sent tx now) = tx_request_id tx"
    "tx_response_id (cf_sent tx now) = tx_response_id tx"
    "tx_remote_st_min (cf_sent tx now) = tx_remote_st_min tx"
    "tx_deadline_ms (cf_sent tx now) = deadline now (tx_timeout_ms (tx_config tx))"
    "tx_next_frame_ms (cf_sent tx now) = now + st_min_ms (tx_remote_st_min tx)"
    "same_settings (tx_config tx) (tx_config (cf_sent tx now))"
    "tx_state (cf_sent tx now) =
      (if tx_remote_block_size tx \<noteq> 0 \<and> tx_block_count tx + 1 = tx_remote_block_size tx \<and>
          unat (tx_offset tx) + cf_size tx < unat (tx_payload_len tx)
       then ISOTP_TX_STATE_WAIT_BLOCK_FLOW_CONTROL else ISOTP_TX_STATE_SEND_CONSECUTIVE)"
    "tx_state (cf_sent tx now) = ISOTP_TX_STATE_SEND_CONSECUTIVE \<Longrightarrow>
      tx_block_count (cf_sent tx now) = tx_block_count tx + 1"
    "tx_state (cf_sent tx now) = ISOTP_TX_STATE_WAIT_BLOCK_FLOW_CONTROL \<Longrightarrow>
      tx_block_count (cf_sent tx now) = 0"
proof -
  have b: "unat (tx_payload_len tx) \<le> 16384" "cf_size tx \<le> unat (tx_payload_len tx) - unat (tx_offset tx)"
    using assms by (simp_all add: tx_inv_def ISOTP_MAX_PAYLOAD_def cf_size_def)
  have lt: "unat (tx_offset tx) < unat (tx_payload_len tx)" using assms(3) by (simp add: word_less_nat_alt)
  have off: "unat (tx_offset tx + of_nat (cf_size tx)) = unat (tx_offset tx) + cf_size tx"
    using b lt by (subst unat_add_32) (simp_all add: unat_of_nat_32)
  have off_lt: "tx_offset tx + of_nat (cf_size tx) < tx_payload_len tx \<longleftrightarrow>
      unat (tx_offset tx) + cf_size tx < unat (tx_payload_len tx)"
    by (simp add: word_less_nat_alt off)
  have blk: "tx_remote_block_size tx \<noteq> 0 \<Longrightarrow> tx_block_count tx < tx_remote_block_size tx"
    using assms by (simp add: tx_inv_def)
  have blk1: "tx_remote_block_size tx \<noteq> 0 \<Longrightarrow>
      tx_remote_block_size tx \<le> tx_block_count tx + 1 \<longleftrightarrow> tx_block_count tx + 1 = tx_remote_block_size tx"
    using blk by (metis inc_le order_antisym_conv order_refl)
  have seq: "unat ((tx_next_sequence tx + 1) AND 15) = (unat (tx_next_sequence tx) + 1) mod 16"
    using assms(1) by (simp add: unat_and_15 unat_word_ariths tx_inv_def)
  note d = cf_sent_def[of tx now]
  obtain us c where rc: "read_clock (tx_config tx) = None \<or> read_clock (tx_config tx) = Some (us, c)"
    by (cases "read_clock (tx_config tx)") auto
  note same = read_clock_same[of "tx_config tx" us c]
  show "unat (tx_offset (cf_sent tx now)) = unat (tx_offset tx) + cf_size tx"
    "unat (tx_next_sequence (cf_sent tx now)) = (unat (tx_next_sequence tx) + 1) mod 16"
    "tx_buffer (cf_sent tx now) = tx_buffer tx"
    "tx_payload_len (cf_sent tx now) = tx_payload_len tx"
    "tx_remote_block_size (cf_sent tx now) = tx_remote_block_size tx"
    "tx_wait_frames (cf_sent tx now) = tx_wait_frames tx"
    "tx_request_id (cf_sent tx now) = tx_request_id tx"
    "tx_response_id (cf_sent tx now) = tx_response_id tx"
    "tx_remote_st_min (cf_sent tx now) = tx_remote_st_min tx"
    "tx_deadline_ms (cf_sent tx now) = deadline now (tx_timeout_ms (tx_config tx))"
    "tx_next_frame_ms (cf_sent tx now) = now + st_min_ms (tx_remote_st_min tx)"
    "same_settings (tx_config tx) (tx_config (cf_sent tx now))"
    "tx_state (cf_sent tx now) =
      (if tx_remote_block_size tx \<noteq> 0 \<and> tx_block_count tx + 1 = tx_remote_block_size tx \<and>
          unat (tx_offset tx) + cf_size tx < unat (tx_payload_len tx)
       then ISOTP_TX_STATE_WAIT_BLOCK_FLOW_CONTROL else ISOTP_TX_STATE_SEND_CONSECUTIVE)"
    "tx_state (cf_sent tx now) = ISOTP_TX_STATE_SEND_CONSECUTIVE \<Longrightarrow>
      tx_block_count (cf_sent tx now) = tx_block_count tx + 1"
    "tx_state (cf_sent tx now) = ISOTP_TX_STATE_WAIT_BLOCK_FLOW_CONTROL \<Longrightarrow>
      tx_block_count (cf_sent tx now) = 0"
    using rc same off seq off_lt blk1 assms(2)
    by (auto simp: d Let_def split: if_splits)
qed

lemma cf_sent_inv:
  assumes "tx_inv tx" "tx_state tx = ISOTP_TX_STATE_SEND_CONSECUTIVE" "tx_offset tx < tx_payload_len tx"
  shows "tx_inv (cf_sent tx now)"
proof -
  note f = cf_sent_fields[OF assms, of now]
  note s = same_settingsD[OF f(12)]
  have lt: "unat (tx_offset tx) < unat (tx_payload_len tx)" using assms(3) by (simp add: word_less_nat_alt)
  then have le: "unat (tx_offset tx) + cf_size tx \<le> unat (tx_payload_len tx)"
    by (auto simp: cf_size_def min_def)
  have blk: "tx_remote_block_size tx \<noteq> 0 \<Longrightarrow> tx_block_count tx < tx_remote_block_size tx"
    using assms by (simp add: tx_inv_def)
  have "tx_block_count (cf_sent tx now) < tx_remote_block_size tx"
    if "tx_state (cf_sent tx now) = ISOTP_TX_STATE_SEND_CONSECUTIVE" "tx_remote_block_size tx \<noteq> 0"
      "tx_offset (cf_sent tx now) < tx_payload_len tx"
  proof -
    have "tx_block_count tx + 1 \<noteq> tx_remote_block_size tx"
      using that f(13) f(1) by (auto simp: word_less_nat_alt split: if_splits)
    then show ?thesis
      using blk[OF that(2)] f(14)[OF that(1)] by (metis inc_le order_le_imp_less_or_eq)
  qed
  with assms s le lt f(1-6) show ?thesis
    by (simp add: tx_inv_def)
qed

lemma tx_next_safe:
  assumes "tx_inv tx"
  shows "\<exists>st tx' frame'. isotp_tx_next tx now frame = Some (st, tx', frame') \<and> tx_inv tx' \<and>
    (wf_frame frame \<longrightarrow> wf_frame frame')"
proof -
  obtain due tx' where p: "tx_pacing_expired tx now = (due, tx')" by fastforce
  then have inv: "tx_inv tx'" using assms by (rule pacing_inv[rotated])
  have st: "tx_state tx' = tx_state tx"
    using pacing_keeps(1)[OF p] by (metis IsoTpTx.select_convs(15) IsoTpTx.surjective IsoTpTx.update_convs(1))
  have wf: "wf_frame (cf_frame tx')" if "tx_offset tx' < tx_payload_len tx'" "tx_state tx' = ISOTP_TX_STATE_SEND_CONSECUTIVE"
  proof -
    have "unat (tx_payload_len tx') \<le> 16384" "length (tx_buffer tx') = 16384" "valid_tx_config (tx_config tx')"
      using inv that by (simp_all add: tx_inv_def ISOTP_MAX_PAYLOAD_def)
    then show ?thesis
      using valid_tx_config_tx_dl[of "tx_config tx'"]
      by (auto simp: wf_frame_def cf_frame_def Let_def cf_size_def min_def)
  qed
  show ?thesis
    using assms inv st wf cf_sent_inv[OF inv, of now]
    by (auto simp: tx_next_eq[OF assms] p not_le)
qed

lemma tx_feed_fc_inv:
  assumes "tx_inv tx"
  shows "tx_inv (snd (isotp_tx_feed_flow_control tx frame now))"
proof (cases "tx_validate_fc_frame tx frame = ISOTP_OK")
  case False
  with assms show ?thesis by (simp add: isotp_tx_feed_flow_control_def)
next
  case True
  then have busy: "tx_state tx \<noteq> ISOTP_TX_STATE_IDLE"
    by (auto simp: tx_validate_fc_frame_def split: if_splits)
  have wait: "tx_wait_frames tx + 1 \<le> max_wait_frames (tx_config tx)"
    if "\<not> max_wait_frames (tx_config tx) \<le> tx_wait_frames tx"
    using that inc_le by (simp add: not_le)
  have same: "same_settings (tx_config tx) c" if "read_clock (tx_config tx) = Some (us, c)" for us c
    using read_clock_same[OF that] .
  show ?thesis
    using assms busy wait
    by (auto simp: isotp_tx_feed_flow_control_def Let_def tx_inv_def word_gt_0 dest!: same
        dest: same_settingsD split: option.splits)
qed

lemma tx_tick_inv: "tx_inv tx \<Longrightarrow> tx_inv (snd (isotp_tx_tick tx now))"
  by (simp add: isotp_tx_tick_def)

section \<open>Runs of the transmitter\<close>

datatype tx_event =
    TxStart bytes u32
  | TxFlowControl IsoTpCanFrame u32
  | TxNext u32
  | TxTick u32

text \<open>One call of the transmitter, with the statuses and frames of the calls so far.\<close>

fun tx_step ::
  "'k IsoTpTx \<times> (IsoTpStatus \<times> IsoTpCanFrame option) list \<Rightarrow> tx_event \<Rightarrow>
     ('k IsoTpTx \<times> (IsoTpStatus \<times> IsoTpCanFrame option) list) option" where
  "tx_step (tx, out) (TxStart payload now) =
     (case isotp_tx_start tx payload (of_nat (length payload)) now (clear_frame 0 (tx_config tx)) of
        None \<Rightarrow> None
      | Some (st, tx', frame) \<Rightarrow>
          Some (tx', out @ [(st, if st = ISOTP_TX_FRAME_READY then Some frame else None)]))"
| "tx_step (tx, out) (TxFlowControl frame now) =
     (case isotp_tx_feed_flow_control tx frame now of (st, tx') \<Rightarrow> Some (tx', out @ [(st, None)]))"
| "tx_step (tx, out) (TxNext now) =
     (case isotp_tx_next tx now (clear_frame 0 (tx_config tx)) of
        None \<Rightarrow> None
      | Some (st, tx', frame) \<Rightarrow>
          Some (tx', out @ [(st, if st = ISOTP_TX_FRAME_READY then Some frame else None)]))"
| "tx_step (tx, out) (TxTick now) =
     (case isotp_tx_tick tx now of (st, tx') \<Rightarrow> Some (tx', out @ [(st, None)]))"

fun tx_ok :: "tx_event \<Rightarrow> bool" where
  "tx_ok (TxStart payload now) = (length payload < 4294967296)"
| "tx_ok _ = True"

lemma tx_step_safe:
  assumes "tx_inv (fst s)" "tx_ok e"
  shows "\<exists>s'. tx_step s e = Some s' \<and> tx_inv (fst s')"
proof (cases s)
  case (Pair tx out)
  show ?thesis
  proof (cases e)
    case (TxStart payload now)
    with assms Pair tx_start_inv[of tx "length payload" payload now "clear_frame 0 (tx_config tx)"]
    show ?thesis by auto
  next
    case (TxFlowControl f now)
    with assms Pair tx_feed_fc_inv[of tx f now] show ?thesis by (auto split: prod.splits)
  next
    case (TxNext now)
    with assms Pair tx_next_safe[of tx now "clear_frame 0 (tx_config tx)"] show ?thesis by auto
  next
    case (TxTick now)
    with assms Pair tx_tick_inv[of tx now] show ?thesis by (auto split: prod.splits)
  qed
qed

interpretation txm: machine tx_step tx_ok "\<lambda>s. tx_inv (fst s)"
  by unfold_locales (rule tx_step_safe)

section \<open>Properties\<close>

text \<open>
  C22. Transmitter safety: for every sequence of starts, flow control frames, polls and ticks, no
  access leaves the transmit buffer, the caller's payload or a frame, and the invariant holds
  after every call: the offset never passes the payload length, which never passes 16384, the
  accepted WAIT frames never pass the configured maximum, and a block in progress is below the
  block size the receiver asked for.
\<close>

theorem transmitter_safe:
  assumes "tx_inv tx" "list_all tx_ok es"
  shows "\<exists>tx' out. run tx_step (tx, []) es = Some (tx', out) \<and> tx_inv tx'"
  using txm.run_safe[of "(tx, [])" es] assms by auto

definition tx_blank :: "unit IsoTpTx" where
  "tx_blank = isotp_tx_init
     \<lparr> tx_config = isotp_config_default, tx_request_id = 0, tx_response_id = 0,
       tx_buffer = replicate ISOTP_MAX_PAYLOAD 0, tx_payload_len = 0, tx_offset = 0,
       tx_next_sequence = 0, tx_block_count = 0, tx_remote_block_size = 0, tx_remote_st_min = 0,
       tx_remote_st_min_us = 0, tx_deadline_ms = 0, tx_next_frame_ms = 0, tx_next_frame_us = 0,
       tx_state = ISOTP_TX_STATE_IDLE, tx_wait_frames = 0 \<rparr> None 0x7E8 0x7E0"

lemma tx_blank_inv: "tx_inv tx_blank"
  by (simp add: tx_blank_def tx_init_inv)

theorem transmitter_safe_witness:
  "\<exists>tx' out. run tx_step (tx_blank, []) [TxStart [1, 2, 3] 0, TxNext 1, TxTick 2] = Some (tx', out) \<and> tx_inv tx'"
  by (rule transmitter_safe[OF tx_blank_inv]) simp

text \<open>The consecutive frames among the results.\<close>

definition frames_sent :: "(IsoTpStatus \<times> IsoTpCanFrame option) list \<Rightarrow> nat" where
  "frames_sent out = length (filter (\<lambda>r. fst r = ISOTP_TX_FRAME_READY) out)"

definition polling :: "tx_event \<Rightarrow> bool" where
  "polling e = (case e of TxNext _ \<Rightarrow> True | TxTick _ \<Rightarrow> True | _ \<Rightarrow> False)"

definition block_left :: "'k IsoTpTx \<Rightarrow> nat" where
  "block_left tx =
     (if tx_state tx = ISOTP_TX_STATE_SEND_CONSECUTIVE
      then unat (tx_remote_block_size tx) - unat (tx_block_count tx) else 0)"

lemma pacing_block_left:
  assumes "tx_pacing_expired tx now = (due, tx')"
  shows "block_left tx' = block_left tx" "tx_state tx' = tx_state tx"
    "tx_remote_block_size tx' = tx_remote_block_size tx"
proof -
  obtain c where "tx' = tx\<lparr> tx_config := c \<rparr>" using pacing_keeps(1)[OF assms] ..
  then show "block_left tx' = block_left tx" "tx_state tx' = tx_state tx"
    "tx_remote_block_size tx' = tx_remote_block_size tx" by (simp_all add: block_left_def)
qed

lemma reset_block_left: "block_left (isotp_tx_reset tx) = 0"
  by (simp add: block_left_def)

lemma poll_block:
  assumes "tx_inv tx" "polling e" "tx_step (tx, out) e = Some (tx', out')"
    and "tx_state tx = ISOTP_TX_STATE_SEND_CONSECUTIVE \<longrightarrow> tx_remote_block_size tx \<noteq> 0"
  shows "frames_sent out' + block_left tx' \<le> frames_sent out + block_left tx"
    "tx_state tx' = ISOTP_TX_STATE_SEND_CONSECUTIVE \<longrightarrow> tx_remote_block_size tx' \<noteq> 0"
proof -
  have "frames_sent out' + block_left tx' \<le> frames_sent out + block_left tx \<and>
    (tx_state tx' = ISOTP_TX_STATE_SEND_CONSECUTIVE \<longrightarrow> tx_remote_block_size tx' \<noteq> 0)"
  proof (cases e)
    case (TxNext now)
    obtain due t where p: "tx_pacing_expired tx now = (due, t)" by fastforce
    note pb = pacing_block_left[OF p] and tinv = pacing_inv[OF assms(1) p]
    note eq = assms(3)[unfolded TxNext, simplified, unfolded tx_next_eq[OF assms(1)] p]
    show ?thesis
    proof (cases "tx_state tx = ISOTP_TX_STATE_SEND_CONSECUTIVE \<and> \<not> expired now (tx_deadline_ms tx) \<and>
        due \<and> tx_offset t < tx_payload_len t")
      case True
      then have st: "tx_state t = ISOTP_TX_STATE_SEND_CONSECUTIVE" "tx_offset t < tx_payload_len t"
          "tx_remote_block_size t \<noteq> 0" using pb assms(4) by simp_all
      have "tx_block_count t < tx_remote_block_size t" using tinv st by (simp add: tx_inv_def)
      then have lt: "unat (tx_block_count t) < unat (tx_remote_block_size t)" by (simp add: word_less_nat_alt)
      have b1: "unat (tx_block_count t + 1) = unat (tx_block_count t) + 1"
      proof -
        have "unat (tx_block_count t) + 1 < 256" using lt unat_u8_lt[of "tx_remote_block_size t"] by linarith
        then show ?thesis by (simp add: unat_word_ariths)
      qed
      have r: "tx' = cf_sent t now" "frames_sent out' = frames_sent out + 1"
        using eq True by (auto simp: frames_sent_def simp flip: not_le)
      note f = cf_sent_fields[OF tinv st(1,2), of now]
      have "block_left tx' + 1 \<le> block_left t"
        using lt f(5,13,14) st(1) b1 by (auto simp: block_left_def r(1) split: if_splits)
      then show ?thesis using pb r st f(5) by simp
    next
      case False
      with eq pb assms(4) show ?thesis
        by (auto simp: frames_sent_def reset_block_left not_le split: if_splits)
    qed
  next
    case (TxTick now)
    with assms(3,4) show ?thesis
      by (auto simp: isotp_tx_tick_def frames_sent_def reset_block_left split: if_splits)
  qed (use assms(2) in \<open>auto simp: polling_def\<close>)
  then show "frames_sent out' + block_left tx' \<le> frames_sent out + block_left tx"
    "tx_state tx' = ISOTP_TX_STATE_SEND_CONSECUTIVE \<longrightarrow> tx_remote_block_size tx' \<noteq> 0" by blast+
qed

lemma polls_block:
  "tx_inv tx \<Longrightarrow> list_all polling es \<Longrightarrow> run tx_step (tx, out) es = Some (tx', out') \<Longrightarrow>
     tx_state tx = ISOTP_TX_STATE_SEND_CONSECUTIVE \<longrightarrow> tx_remote_block_size tx \<noteq> 0 \<Longrightarrow>
     frames_sent out' + block_left tx' \<le> frames_sent out + block_left tx"
proof (induction es arbitrary: tx out)
  case Nil
  then show ?case by simp
next
  case (Cons e es)
  then obtain t o1 where s: "tx_step (tx, out) e = Some (t, o1)" "run tx_step (t, o1) es = Some (tx', out')"
    by (auto split: Option.bind_splits)
  have "tx_ok e" using Cons.prems(2) by (cases e) (auto simp: polling_def)
  then have "tx_inv t" using tx_step_safe[of "(tx, out)" e] Cons.prems(1) s(1) by auto
  with Cons.IH[OF this _ s(2)] poll_block[OF Cons.prems(1) _ s(1) Cons.prems(4)] Cons.prems(2)
  show ?case by simp
qed

text \<open>
  C24. Block size: after a flow control frame with a block size other than 0, whatever the polls and
  ticks that follow, the transmitter sends at most that many consecutive frames before the next
  flow control frame.
\<close>

theorem block_size_respected:
  assumes "tx_inv tx" "tx_state tx = ISOTP_TX_STATE_SEND_CONSECUTIVE"
    and "tx_remote_block_size tx \<noteq> 0" "tx_block_count tx = 0" "list_all polling es"
    and "run tx_step (tx, []) es = Some (tx', out)"
  shows "frames_sent out \<le> unat (tx_remote_block_size tx)"
  using polls_block[OF assms(1,5,6)] assms(2-4) by (simp add: block_left_def frames_sent_def)

definition tx_in_block :: "unit IsoTpTx" where
  "tx_in_block = tx_blank
     \<lparr> tx_payload_len := 100, tx_offset := 6, tx_remote_block_size := 2,
       tx_state := ISOTP_TX_STATE_SEND_CONSECUTIVE, tx_deadline_ms := 1000 \<rparr>"

lemma tx_in_block_inv: "tx_inv tx_in_block"
  using tx_blank_inv
  by (simp add: tx_inv_def tx_in_block_def tx_blank_def isotp_tx_init_def config_constructors_valid
      ISOTP_MAX_PAYLOAD_def) (simp add: isotp_tx_reset_def)

theorem block_size_respected_witness:
  "\<exists>tx' out. run tx_step (tx_in_block, []) [TxNext 0, TxNext 1, TxTick 2, TxNext 3] = Some (tx', out) \<and>
     frames_sent out \<le> 2"
proof -
  let ?es = "[TxNext 0, TxNext 1, TxTick 2, TxNext 3]"
  obtain tx' out where r: "run tx_step (tx_in_block, []) ?es = Some (tx', out)"
    using txm.run_safe[of "(tx_in_block, [])" ?es] tx_in_block_inv by auto
  have "tx_state tx_in_block = ISOTP_TX_STATE_SEND_CONSECUTIVE" "tx_remote_block_size tx_in_block = 2"
    "tx_block_count tx_in_block = 0"
    by (simp_all add: tx_in_block_def tx_blank_def isotp_tx_init_def isotp_tx_reset_def)
  then have "frames_sent out \<le> 2"
    using block_size_respected[OF tx_in_block_inv _ _ _ _ r] by (simp add: polling_def)
  with r show ?thesis by blast
qed


definition tx_paced :: "unit IsoTpTx" where
  "tx_paced = tx_in_block\<lparr> tx_remote_st_min := 20 \<rparr>"


text \<open>A WAIT flow control frame the transmitter takes notice of.\<close>

definition wait_frame :: "'k IsoTpTx \<Rightarrow> IsoTpCanFrame \<Rightarrow> bool" where
  "wait_frame tx f \<longleftrightarrow>
     frame_valid (tx_config tx) f \<and> f_can_id f = tx_request_id tx \<and> 3 \<le> f_dlc f \<and> f_data f ! 0 = 0x31"

definition feed_waits :: "'k IsoTpTx \<Rightarrow> (IsoTpCanFrame \<times> u32) list \<Rightarrow> 'k IsoTpTx" where
  "feed_waits tx fs = foldl (\<lambda>t (f, now). snd (isotp_tx_feed_flow_control t f now)) tx fs"

lemma feed_wait_one:
  assumes "wait_frame tx f"
  shows "isotp_tx_feed_flow_control tx f now =
    (if tx_state tx \<noteq> ISOTP_TX_STATE_WAIT_FIRST_FLOW_CONTROL \<and> tx_state tx \<noteq> ISOTP_TX_STATE_WAIT_BLOCK_FLOW_CONTROL
     then (ISOTP_ERR_STATE, tx)
     else if tx_wait_frames tx \<ge> max_wait_frames (tx_config tx) then (ISOTP_ERR_FLOW_CONTROL, isotp_tx_reset tx)
     else (ISOTP_OK, tx\<lparr> tx_wait_frames := tx_wait_frames tx + 1,
                         tx_deadline_ms := deadline now (tx_timeout_ms (tx_config tx)) \<rparr>))"
proof -
  have nib: "drop_bit 4 (0x31 :: u8) = 3" "(0x31 :: u8) AND 0x0F = 1" by simp_all
  show ?thesis
    using assms nib
    by (auto simp: wait_frame_def isotp_tx_feed_flow_control_def tx_validate_fc_frame_def Let_def
        valid_st_min_def not_less)
qed

lemma feed_waits_idle:
  "tx_state tx = ISOTP_TX_STATE_IDLE \<Longrightarrow> list_all (\<lambda>(f, now). wait_frame tx f) fs \<Longrightarrow> feed_waits tx fs = tx"
  by (induction fs) (auto simp: feed_waits_def feed_wait_one)

lemma feed_waits_bound:
  "tx_state tx \<in> {ISOTP_TX_STATE_WAIT_FIRST_FLOW_CONTROL, ISOTP_TX_STATE_WAIT_BLOCK_FLOW_CONTROL} \<Longrightarrow>
     list_all (\<lambda>(f, now). wait_frame tx f) fs \<Longrightarrow>
     unat (max_wait_frames (tx_config tx)) < unat (tx_wait_frames tx) + length fs \<Longrightarrow>
     tx_wait_frames tx \<le> max_wait_frames (tx_config tx) \<Longrightarrow>
     tx_state (feed_waits tx fs) = ISOTP_TX_STATE_IDLE"
proof (induction fs arbitrary: tx)
  case Nil
  then show ?case by (simp add: word_le_nat_alt)
next
  case (Cons p fs)
  obtain f now where p: "p = (f, now)" by (cases p)
  show ?case
  proof (cases "tx_wait_frames tx \<ge> max_wait_frames (tx_config tx)")
    case True
    then have "feed_waits tx (p # fs) = feed_waits (isotp_tx_reset tx) fs"
      using Cons.prems by (auto simp: feed_waits_def p feed_wait_one)
    also have "\<dots> = isotp_tx_reset tx"
      using Cons.prems(2) by (intro feed_waits_idle) (auto simp: wait_frame_def list_all_iff)
    finally show ?thesis by simp
  next
    case False
    define t where "t = tx\<lparr> tx_wait_frames := tx_wait_frames tx + 1,
                            tx_deadline_ms := deadline now (tx_timeout_ms (tx_config tx)) \<rparr>"
    have lt: "tx_wait_frames tx < max_wait_frames (tx_config tx)" using False by simp
    then have "unat (tx_wait_frames tx) + 1 < 256"
      using unat_u8_lt[of "max_wait_frames (tx_config tx)"] unfolding word_less_nat_alt by linarith
    then have w: "unat (tx_wait_frames tx + 1) = unat (tx_wait_frames tx) + 1" by (simp add: unat_word_ariths)
    have "feed_waits tx (p # fs) = feed_waits t fs"
      using Cons.prems False by (auto simp: feed_waits_def p feed_wait_one t_def)
    moreover have "tx_state (feed_waits t fs) = ISOTP_TX_STATE_IDLE"
      using Cons.prems w inc_le[OF lt] by (intro Cons.IH) (auto simp: t_def wait_frame_def list_all_iff)
    ultimately show ?thesis by simp
  qed
qed

text \<open>
  WAIT frames: a receiver that answers with more WAIT frames in a row than the configured
  maximum makes the transmitter give up; it cannot hold it back for ever.
\<close>

theorem wait_frames_bounded:
  assumes "tx_inv tx"
    and "tx_state tx \<in> {ISOTP_TX_STATE_WAIT_FIRST_FLOW_CONTROL, ISOTP_TX_STATE_WAIT_BLOCK_FLOW_CONTROL}"
    and "list_all (\<lambda>(f, now). wait_frame tx f) fs"
    and "unat (max_wait_frames (tx_config tx)) < length fs"
  shows "tx_state (feed_waits tx fs) = ISOTP_TX_STATE_IDLE"
  using feed_waits_bound[OF assms(2,3)] assms(1,4) by (simp add: tx_inv_def)

definition tx_waiting :: "unit IsoTpTx" where
  "tx_waiting = tx_in_block\<lparr> tx_state := ISOTP_TX_STATE_WAIT_FIRST_FLOW_CONTROL \<rparr>"

definition fc_wait :: IsoTpCanFrame where
  "fc_wait = \<lparr> f_can_id = 0x7E8, f_dlc = 3, f_is_fd = False, f_bit_rate_switch = False,
     f_data = 0x31 # replicate 63 0 \<rparr>"

theorem wait_frames_bounded_witness:
  "tx_state (feed_waits tx_waiting (replicate 4 (fc_wait, 0))) = ISOTP_TX_STATE_IDLE"
proof (rule wait_frames_bounded)
  have "tx_state tx_in_block = ISOTP_TX_STATE_SEND_CONSECUTIVE" by (simp add: tx_in_block_def)
  with tx_in_block_inv show "tx_inv tx_waiting" by (simp add: tx_inv_def tx_waiting_def)
  have cfg: "tx_config tx_waiting = isotp_config_default" "tx_request_id tx_waiting = 0x7E8"
    by (simp_all add: tx_waiting_def tx_in_block_def tx_blank_def isotp_tx_init_def isotp_tx_reset_def)
  show "unat (max_wait_frames (tx_config tx_waiting)) < length (replicate 4 (fc_wait, 0 :: u32))"
    by (simp add: cfg isotp_config_default_def isotp_config_classic_can_def ISOTP_DEFAULT_MAX_WAIT_FRAMES_def)
  have "wait_frame tx_waiting fc_wait"
    by (simp add: wait_frame_def cfg fc_wait_def frame_valid_def ISOTP_MAX_FRAME_DATA_def)
  then show "list_all (\<lambda>(f, now). wait_frame tx_waiting f) (replicate 4 (fc_wait, 0))"
    by (simp add: numeral_eq_Suc)
qed (simp add: tx_waiting_def)

end
