(* ===== verification/Isotp_Link.thy ===== *)
theory Isotp_Link
  imports Isotp_Reassembly Isotp_Tx
begin

text \<open>
  A transmitter and a receiver of \<open>isotp.c\<close> on one link: every frame the transmitter builds
  parses as the protocol data unit it is meant to be, the receiver's flow control is accepted,
  and a message sent over a loss-free link is delivered as it was (\<open>link_roundtrip\<close>).
\<close>

section \<open>The link\<close>

text \<open>Two configurations that can talk to each other.\<close>

definition compatible :: "'k IsoTpConfig \<Rightarrow> 'j IsoTpConfig \<Rightarrow> bool" where
  "compatible tc rc \<longleftrightarrow>
     valid_tx_config tc \<and> valid_tx_config rc \<and> can_fd tc = can_fd rc \<and>
     unat (tx_dl tc) \<le> unat (rx_dl rc) \<and> unat (tx_dl rc) \<le> unat (rx_dl tc)"

text \<open>
  One frame over the link: the receiver takes it, and its flow control, when it asks for one,
  goes straight back to the transmitter.
\<close>

definition link_frame ::
  "'k IsoTpTx \<Rightarrow> 'j IsoTpRx \<Rightarrow> IsoTpCanFrame \<Rightarrow> u32 \<Rightarrow>
     (bytes option \<times> 'k IsoTpTx \<times> 'j IsoTpRx) option" where
  "link_frame tx rx f now =
     (case isotp_rx_feed rx f now zero_event of
        None \<Rightarrow> None
      | Some (st, rx', ev) \<Rightarrow>
          Some (map_option (take (unat (ev_length ev))) (ev_payload ev),
                if ev_has_flow_control ev
                then snd (isotp_tx_feed_flow_control tx (ev_flow_control ev) now) else tx,
                rx'))"

text \<open>
  The two sides polled every \<open>dt\<close> milliseconds, with their timeouts, until a message is
  delivered; \<open>fuel\<close> bounds the number of polls.
\<close>

fun link_poll ::
  "nat \<Rightarrow> u32 \<Rightarrow> u32 \<Rightarrow> 'k IsoTpTx \<Rightarrow> 'j IsoTpRx \<Rightarrow> (bytes \<times> 'k IsoTpTx \<times> 'j IsoTpRx) option" where
  "link_poll 0 dt now tx rx = None"
| "link_poll (Suc fuel) dt now tx rx =
     (let tx = snd (isotp_tx_tick tx now); rx = snd (isotp_rx_tick rx now) in
      case isotp_tx_next tx now (clear_frame 0 (tx_config tx)) of
        Some (ISOTP_TX_FRAME_READY, tx', f) \<Rightarrow>
          (case link_frame tx' rx f now of
             Some (Some message, tx', rx') \<Rightarrow> Some (message, tx', rx')
           | Some (None, tx', rx') \<Rightarrow> link_poll fuel dt (now + dt) tx' rx'
           | None \<Rightarrow> None)
      | Some (_, tx', _) \<Rightarrow> link_poll fuel dt (now + dt) tx' rx
      | None \<Rightarrow> None)"

definition link_send ::
  "nat \<Rightarrow> u32 \<Rightarrow> u32 \<Rightarrow> 'k IsoTpTx \<Rightarrow> 'j IsoTpRx \<Rightarrow> bytes \<Rightarrow>
     (bytes \<times> 'k IsoTpTx \<times> 'j IsoTpRx) option" where
  "link_send fuel dt now tx rx payload =
     (case isotp_tx_start tx payload (of_nat (length payload)) now (clear_frame 0 (tx_config tx)) of
        Some (ISOTP_TX_FRAME_READY, tx', f) \<Rightarrow>
          (case link_frame tx' rx f now of
             Some (Some message, tx', rx') \<Rightarrow> Some (message, tx', rx')
           | Some (None, tx', rx') \<Rightarrow> link_poll fuel dt (now + dt) tx' rx'
           | None \<Rightarrow> None)
      | _ \<Rightarrow> None)"

section \<open>What the frames parse as\<close>

lemma compatible_dl:
  assumes "compatible tc rc"
  shows "8 \<le> unat (tx_dl tc)" "unat (tx_dl tc) \<le> 64" "can_fd tc = can_fd rc"
    "can_fd tc \<Longrightarrow> valid_fd_dl (tx_dl tc)" "\<not> can_fd tc \<Longrightarrow> tx_dl tc = 8"
    "unat (tx_dl tc) \<le> unat (rx_dl rc)"
  using assms valid_tx_config_tx_dl[of tc]
  by (auto simp: compatible_def valid_tx_config_def split: if_splits)

lemma compatible_sym: "compatible tc rc \<Longrightarrow> compatible rc tc"
  by (auto simp: compatible_def)

lemma sf_frame_valid:
  assumes "compatible (tx_config tx) rc" "fits_single (tx_config tx) n" "0 < n"
  shows "frame_valid rc (sf_frame tx payload n)"
    "length (sf_header (tx_config tx) n) + n \<le> unat (f_dlc (sf_frame tx payload n))"
    "unat (f_dlc (sf_frame tx payload n)) \<le> 64"
proof -
  define cfg where "cfg = tx_config tx"
  define k where "k = length (sf_header cfg n) + n"
  note c = compatible_dl[OF assms(1), folded cfg_def]
  have k: "k \<le> unat (tx_dl cfg)" "1 < k" "can_fd cfg \<or> k = n + 1 \<and> n \<le> 7"
    using assms(2,3) c(1) by (auto simp: k_def sf_header_def fits_single_def cfg_def[symmetric])
  have u: "unat (of_nat k :: u32) = k" using k(1) c(2) by (simp add: unat_of_nat_32)
  have fd: "valid_fd_dl (fd_dl_for_length (of_nat k))" "k \<le> unat (fd_dl_for_length (of_nat k))"
    using fd_dl_for_length_valid fd_dl_for_length_ge[of "of_nat k"] k(1) c(2) by (simp_all add: u)
  have least: "unat (fd_dl_for_length (of_nat k)) \<le> unat (tx_dl cfg)" if "can_fd cfg"
    using fd_dl_for_length_least[OF c(4)[OF that], of "of_nat k"] k(1) by (simp add: u)
  have dlc: "unat (f_dlc (sf_frame tx payload n)) =
      (if can_fd cfg then unat (fd_dl_for_length (of_nat k)) else if padding_enabled cfg then 8 else k)"
    using k c(1,5) by (auto simp: sf_frame_def Let_def cfg_def[symmetric] k_def[symmetric] unat_of_nat
        simp del: of_nat_Suc)
  show "length (sf_header (tx_config tx) n) + n \<le> unat (f_dlc (sf_frame tx payload n))"
    using fd k c(1) by (auto simp: dlc k_def[symmetric] cfg_def[symmetric])
  show le: "unat (f_dlc (sf_frame tx payload n)) \<le> 64"
    using least k c(1,2) by (auto simp: dlc)
  have isfd: "f_is_fd (sf_frame tx payload n) = can_fd cfg"
    by (simp add: sf_frame_def Let_def cfg_def[symmetric])
  have dfd: "f_dlc (sf_frame tx payload n) = fd_dl_for_length (of_nat k)" if "can_fd cfg"
    using that by (simp add: sf_frame_def Let_def cfg_def[symmetric] k_def[symmetric])
  show "frame_valid rc (sf_frame tx payload n)"
  proof (cases "can_fd cfg")
    case True
    then show ?thesis
      using fd c(3,6) least k(2) c(2)
      by (auto simp: frame_valid_def isfd dfd ISOTP_MAX_FRAME_DATA_def word_unat_eq_iff word_less_nat_alt)
  next
    case False
    then have "unat (f_dlc (sf_frame tx payload n)) \<le> 8" "0 < unat (f_dlc (sf_frame tx payload n))"
      using dlc k by auto
    then show ?thesis
      using False by (auto simp: frame_valid_def isfd ISOTP_MAX_FRAME_DATA_def word_unat_eq_iff word_le_nat_alt)
  qed
qed

lemma parse_sf_frame:
  assumes "compatible (tx_config tx) rc" "fits_single (tx_config tx) (length payload)" "payload \<noteq> []"
  shows "parse_npdu fd (sf_frame tx payload (length payload)) = SingleFrame payload"
proof -
  define cfg n where "cfg = tx_config tx" and "n = length payload"
  define h where "h = sf_header cfg n"
  note c = compatible_dl[OF assms(1), folded cfg_def]
  have "0 < n" using assms(3) by (simp add: n_def)
  note v = sf_frame_valid[OF assms(1,2)[folded n_def] this, where payload = payload, folded cfg_def h_def]
  define m where "m = unat (f_dlc (sf_frame tx payload n))"
  have m: "length h + n \<le> m" "m \<le> 64" using v(2,3) by (simp_all add: m_def h_def)
  have "f_data (sf_frame tx payload n) = h @ payload @ replicate (64 - length h - n) (fill_byte cfg)"
    by (simp add: sf_frame_def Let_def cfg_def[symmetric] h_def[symmetric]) (simp add: n_def)
  with m have d: "take m (f_data (sf_frame tx payload n)) =
      h @ payload @ replicate (m - length h - n) (fill_byte cfg)"
    by (simp add: n_def[symmetric] min_def)
  have isfd: "f_is_fd (sf_frame tx payload n) = can_fd cfg"
    by (simp add: sf_frame_def Let_def cfg_def[symmetric])
  have n62: "n \<le> 7 \<or> can_fd cfg \<and> n \<le> 62" using assms(2) c(2) by (auto simp: fits_single_def n_def cfg_def)
  have un: "unat (of_nat n :: u8) = n" using n62 by (auto simp: unat_of_nat)
  show ?thesis
  proof (cases "n \<le> 7")
    case True
    then have h: "h = [of_nat n]" by (simp add: h_def sf_header_def)
    have "parse_single True (of_nat n # payload @ r) = SingleFrame payload"
      "parse_single False (of_nat n # payload @ r) = SingleFrame payload" for r
      using True \<open>0 < n\<close> un by (simp_all add: parse_single_def n_def[symmetric])
    then show ?thesis
      using True un by (cases "f_is_fd (sf_frame tx payload n)")
        (simp_all add: parse_npdu_def n_def[symmetric] m_def[symmetric] d h)
  next
    case False
    then have h: "h = [0, of_nat n]" and fd: "can_fd cfg" using n62 by (auto simp: h_def sf_header_def)
    have "parse_single True (0 # of_nat n # payload @ r) = SingleFrame payload" for r
      using \<open>0 < n\<close> un by (simp add: parse_single_def n_def[symmetric])
    then show ?thesis
      using fd by (simp add: parse_npdu_def n_def[symmetric] m_def[symmetric] d h isfd)
  qed
qed

lemma full_frame_valid:
  assumes "compatible tc rc" "f_dlc f = tx_dl tc" "f_is_fd f = can_fd tc"
  shows "frame_valid rc f"
  using compatible_dl[OF assms(1)] assms(2,3)
  by (cases "can_fd tc") (auto simp: frame_valid_def ISOTP_MAX_FRAME_DATA_def word_less_nat_alt word_gt_0)

lemma unat_of_nat_8: "n < 256 \<Longrightarrow> unat (of_nat n :: u8) = n"
  by (simp add: unat_of_nat)

lemma unat_of_nat_mod_8: "unat (of_nat n :: u8) = n mod 256"
  by (simp add: unat_of_nat)

lemma ff_frame_simps:
  assumes "compatible (tx_config tx) rc"
  shows "f_dlc (ff_frame tx payload n) = tx_dl (tx_config tx)"
    "f_is_fd (ff_frame tx payload n) = can_fd (tx_config tx)"
    "f_can_id (ff_frame tx payload n) = tx_response_id tx"
  using compatible_dl[OF assms] by (auto simp: ff_frame_def Let_def)

lemma parse_ff_frame:
  assumes "compatible (tx_config tx) rc" "\<not> fits_single (tx_config tx) (length payload)"
    and "length payload \<le> (if can_fd (tx_config tx) then ISOTP_MAX_PAYLOAD else 4095)"
  shows "parse_npdu (can_fd rc) (ff_frame tx payload (length payload)) =
      FirstFrame (length payload) (take (ff_size (tx_config tx) (length payload)) payload)"
    "ff_size (tx_config tx) (length payload) < length payload"
    "0 < ff_size (tx_config tx) (length payload)"
proof -
  define cfg n where "cfg = tx_config tx" and "n = length payload"
  note c = compatible_dl[OF assms(1), folded cfg_def]
  define k where "k = ff_size cfg n"
  have n: "7 < n" "n \<le> 16384" "\<not> can_fd cfg \<Longrightarrow> n \<le> 4095"
    "can_fd cfg \<Longrightarrow> unat (tx_dl cfg) < n + 2"
    using assms(2,3) by (auto simp: fits_single_def n_def cfg_def ISOTP_MAX_PAYLOAD_def split: if_splits)
  have h: "length (ff_header n) \<le> unat (tx_dl cfg)" using c(1) by (simp add: ff_header_def)
  have dl8: "\<not> can_fd cfg \<Longrightarrow> unat (tx_dl cfg) = 8" using c(5) by simp
  have k: "k < n" "k + length (ff_header n) = unat (tx_dl cfg)" "0 < k"
    using n c(1,2) dl8 h by (cases "can_fd cfg"; auto simp: k_def ff_size_def ff_header_def)+
  then show "ff_size (tx_config tx) (length payload) < length payload"
    "0 < ff_size (tx_config tx) (length payload)" by (simp_all add: k_def cfg_def n_def)
  have d: "take (unat (tx_dl cfg)) (f_data (ff_frame tx payload n)) = ff_header n @ take k payload"
  proof -
    have "unat (tx_dl cfg) - length (ff_header n) = k" using k(2) by simp
    then show ?thesis
      using k c(2) h by (simp add: ff_frame_def Let_def cfg_def[symmetric] k_def[symmetric] n_def[symmetric])
  qed
  have len: "length (ff_header n @ take k payload) = unat (tx_dl cfg)"
    using k by (simp add: n_def[symmetric] min_def)
  have b: "16 + n div 256 < 256" if "n \<le> 4095" using that by simp
  have d0: "unat ((ff_header n @ take k payload) ! 0) = (if n \<le> 4095 then 16 + n div 256 else 16)"
    using b unat_of_nat_8[of "16 + n div 256"] by (simp add: ff_header_def)
  have d1: "unat ((ff_header n @ take k payload) ! Suc 0) = (if n \<le> 4095 then n mod 256 else 0)"
    by (simp add: ff_header_def unat_of_nat_mod_8)
  have first: "parse_first (can_fd rc) (can_fd cfg) (ff_header n @ take k payload) = FirstFrame n (take k payload)"
  proof (cases "n \<le> 4095")
    case True
    then have "n div 256 < 16" by simp
    then have "(16 + n div 256) mod 16 = n div 256" by simp
    with True n(1) len c(1) d0 d1 show ?thesis
      by (simp add: parse_first_def) (simp add: ff_header_def)
  next
    case False
    have be: "be32 (drop 2 (ff_header n @ take k payload)) = n"
    proof -
      have "n div 16777216 = 0" "n div 65536 = 0" "n div 256 < 256" using n(2) by simp_all
      with False show ?thesis by (simp add: be32_def ff_header_def unat_of_nat_mod_8)
    qed
    have "length (ff_header n) = 6" using False by (simp add: ff_header_def)
    then have "drop 6 (ff_header n @ take k payload) = take k payload" by simp
    with False n(3) len c(1,3) d0 d1 be show ?thesis
      by (auto simp: parse_first_def Let_def)
  qed
  have ty: "(16 + n div 256) div 16 = Suc 0" if "n \<le> 4095"
  proof -
    have "n div 256 < 16" using that by simp
    then show ?thesis by simp
  qed
  have "parse_npdu (can_fd rc) (ff_frame tx payload n) = FirstFrame n (take k payload)"
    using first ty d0 by (simp add: parse_npdu_def ff_frame_simps[OF assms(1)] d Let_def cfg_def[symmetric])
  then show "parse_npdu (can_fd rc) (ff_frame tx payload (length payload)) =
      FirstFrame (length payload) (take (ff_size (tx_config tx) (length payload)) payload)"
    by (simp add: k_def cfg_def n_def)
qed

lemma cf_frame_simps:
  assumes "compatible (tx_config tx) rc"
  shows "f_dlc (cf_frame tx) = tx_dl (tx_config tx)"
    "f_is_fd (cf_frame tx) = can_fd (tx_config tx)"
    "f_can_id (cf_frame tx) = tx_response_id tx"
  using compatible_dl[OF assms] by (auto simp: cf_frame_def Let_def)

lemma cf_header_byte: "unat q < 16 \<Longrightarrow> unat (0x20 OR q :: u8) = 32 + unat q"
proof -
  assume q: "unat q < 16"
  have "unat (push_bit 4 2 OR ucast q :: u32) = 2 * 2 ^ 4 + unat q"
    using q by (subst unat_push_or) simp_all
  moreover have "(push_bit 4 2 OR ucast q :: u32) = ucast (0x20 OR q)"
    by (simp add: unsigned_or_eq)
  ultimately show ?thesis by (simp del: unsigned_or_eq)
qed

text \<open>Where the payload of a running transfer lies in the transmit buffer.\<close>

definition tx_payload :: "'k IsoTpTx \<Rightarrow> bytes" where
  "tx_payload tx = take (unat (tx_payload_len tx)) (tx_buffer tx)"

lemma parse_cf_frame:
  assumes "compatible (tx_config tx) rc" "tx_inv tx" "tx_state tx = ISOTP_TX_STATE_SEND_CONSECUTIVE"
    and "tx_offset tx < tx_payload_len tx"
  obtains d where "parse_npdu fd (cf_frame tx) = ConsecutiveFrame (unat (tx_next_sequence tx)) d"
    "length d = unat (tx_dl (tx_config tx)) - 1"
    "take (unat (tx_payload_len tx) - unat (tx_offset tx)) d =
       take (cf_size tx) (drop (unat (tx_offset tx)) (tx_payload tx))"
proof -
  define cfg where "cfg = tx_config tx"
  note c = compatible_dl[OF assms(1), folded cfg_def]
  define n off k where "n = unat (tx_payload_len tx)" and "off = unat (tx_offset tx)" and "k = cf_size tx"
  have b: "n \<le> 16384" "length (tx_buffer tx) = 16384" "unat (tx_next_sequence tx) < 16" "off < n"
    using assms by (simp_all add: tx_inv_def ISOTP_MAX_PAYLOAD_def n_def off_def word_less_nat_alt)
  have k: "k = min (n - off) (unat (tx_dl cfg) - 1)" by (simp add: k_def cf_size_def n_def off_def cfg_def)
  then have k63: "k \<le> 63" "k + 1 \<le> unat (tx_dl cfg)" using c(1,2) by (auto simp: min_def)
  define chunk where "chunk = take k (drop off (tx_buffer tx))"
  have chunk: "length chunk = k" "chunk = take k (drop off (tx_payload tx))"
    using b k by (auto simp: chunk_def tx_payload_def n_def[symmetric] drop_take min_def)
  define d where "d = chunk @ replicate (unat (tx_dl cfg) - 1 - k) (fill_byte cfg)"
  have data: "take (unat (tx_dl cfg)) (f_data (cf_frame tx)) = (0x20 OR tx_next_sequence tx) # d"
  proof -
    have "f_data (cf_frame tx) = (0x20 OR tx_next_sequence tx) # chunk @ replicate (63 - k) (fill_byte cfg)"
      by (simp add: cf_frame_def Let_def cfg_def[symmetric] k_def[symmetric] off_def[symmetric] chunk_def)
    then show ?thesis
      using k63 c(1,2) chunk(1) by (simp add: d_def take_Cons' min_def)
  qed
  have split: "(32 + m) div 16 = 2" "(32 + m) mod 16 = m" if "m < 16" for m :: nat
    using that by (simp_all add: mod_if)
  have "parse_npdu fd (cf_frame tx) = ConsecutiveFrame (unat (tx_next_sequence tx)) d"
    using cf_header_byte[OF b(3)] b(3) split
    by (simp add: parse_npdu_def cf_frame_simps[OF assms(1)] data cfg_def[symmetric] Let_def)
  moreover have "length d = unat (tx_dl cfg) - 1"
    using chunk(1) k63 by (simp add: d_def)
  moreover have "take (n - off) d = chunk"
    using chunk(1) k by (cases "n - off \<le> unat (tx_dl cfg) - 1") (auto simp: d_def)
  ultimately show thesis
    using that[of d] chunk(2) by (simp add: n_def off_def k_def cfg_def)
qed

section \<open>Flow control\<close>

definition fc_shape :: "'k IsoTpConfig \<Rightarrow> u32 \<Rightarrow> IsoTpCanFrame \<Rightarrow> bool" where
  "fc_shape rc i fc \<longleftrightarrow>
     f_can_id fc = i \<and> f_is_fd fc = can_fd rc \<and> wf_frame fc \<and>
     f_dlc fc = (if can_fd rc then tx_dl rc else if padding_enabled rc then 8 else 3)"

lemma make_fc_shape: "fc_shape (rx_config rx) (rx_response_id rx) (ev_flow_control (make_fc rx ev s))"
  by (simp add: fc_shape_def make_fc_def Let_def wf_frame_def)

lemma rx_single_fc:
  "rx_single rx f (clear_event ev u) = Some (st, rx', ev') \<Longrightarrow>
     \<not> ev_has_flow_control ev' \<and> rx_response_id rx' = rx_response_id rx"
  by (auto simp: rx_single_def Let_def split: option.splits prod.splits if_splits bind_splits)

lemma rx_first_fc:
  assumes "rx_first rx f now (clear_event ev u) = Some (st, rx', ev')"
  shows "(ev_has_flow_control ev' \<longrightarrow> fc_shape (rx_config rx) (rx_response_id rx) (ev_flow_control ev')) \<and>
     rx_response_id rx' = rx_response_id rx"
  using assms make_fc_shape[of rx] make_fc_shape
  unfolding rx_first_def Let_def
  by (auto simp: make_fc_def Let_def fc_shape_def wf_frame_def split: option.splits prod.splits if_splits bind_splits)

lemma rx_consecutive_fc:
  assumes "rx_consecutive rx f now (clear_event ev u) = Some (st, rx', ev')"
  shows "(ev_has_flow_control ev' \<longrightarrow> fc_shape (rx_config rx) (rx_response_id rx) (ev_flow_control ev')) \<and>
     rx_response_id rx' = rx_response_id rx"
  using assms
  unfolding rx_consecutive_def Let_def
  by (auto simp: make_fc_def Let_def fc_shape_def wf_frame_def split: option.splits prod.splits if_splits bind_splits)

lemma rx_feed_fc:
  assumes "isotp_rx_feed rx f now zero_event = Some (st, rx', ev')"
  shows "ev_has_flow_control ev' \<longrightarrow> fc_shape (rx_config rx) (rx_response_id rx) (ev_flow_control ev')"
    "rx_response_id rx' = rx_response_id rx"
proof -
  have "(ev_has_flow_control ev' \<longrightarrow> fc_shape (rx_config rx) (rx_response_id rx) (ev_flow_control ev')) \<and>
     rx_response_id rx' = rx_response_id rx"
    using assms unfolding rx_feed_dispatch Let_def
    by (auto dest!: rx_single_fc rx_first_fc rx_consecutive_fc simp: zero_event_def split: if_splits)
  then show "ev_has_flow_control ev' \<longrightarrow> fc_shape (rx_config rx) (rx_response_id rx) (ev_flow_control ev')"
    "rx_response_id rx' = rx_response_id rx" by blast+
qed

definition tx_resumed :: "'k IsoTpTx \<Rightarrow> u8 \<Rightarrow> u8 \<Rightarrow> u32 \<Rightarrow> 'k IsoTpTx" where
  "tx_resumed tx bs st now = tx
     \<lparr> tx_remote_block_size := bs, tx_remote_st_min := st, tx_remote_st_min_us := st_min_us st,
       tx_wait_frames := 0, tx_state := ISOTP_TX_STATE_SEND_CONSECUTIVE, tx_block_count := 0,
       tx_next_frame_ms := now, tx_deadline_ms := deadline now (tx_timeout_ms (tx_config tx)) \<rparr>"

text \<open>The receiver's flow control is accepted by a waiting transmitter.\<close>

lemma fc_accepted:
  assumes "compatible (tx_config tx) rc" "clock_us (tx_config tx) = None"
    and "tx_state tx \<in> {ISOTP_TX_STATE_WAIT_FIRST_FLOW_CONTROL, ISOTP_TX_STATE_WAIT_BLOCK_FLOW_CONTROL}"
    and "fc_shape rc (tx_request_id tx) fc" "f_data fc ! 0 = 0x30"
  shows "isotp_tx_feed_flow_control tx fc now =
    (ISOTP_OK, tx_resumed tx (f_data fc ! 1) (f_data fc ! 2) now)"
proof -
  note c = compatible_dl[OF compatible_sym[OF assms(1)]]
  have valid: "frame_valid (tx_config tx) fc"
  proof (cases "can_fd rc")
    case True
    with assms(4) show ?thesis by (intro full_frame_valid[OF compatible_sym[OF assms(1)]]) (simp_all add: fc_shape_def)
  next
    case False
    with assms(4) show ?thesis
      by (simp add: fc_shape_def frame_valid_def ISOTP_MAX_FRAME_DATA_def)
  qed
  have dlc: "\<not> f_dlc fc < 3" using assms(4) c(1) by (auto simp: fc_shape_def word_less_nat_alt)
  have nib: "drop_bit 4 (0x30 :: u8) = 3" "(0x30 :: u8) AND 0x0F = 0" by simp_all
  have "tx_validate_fc_frame tx fc = ISOTP_OK"
    using valid assms(3,4,5) dlc nib by (auto simp: tx_validate_fc_frame_def fc_shape_def)
  then show ?thesis
    using assms(2,5) nib
    by (simp add: isotp_tx_feed_flow_control_def Let_def valid_st_min_def read_clock_none tx_resumed_def)
qed

section \<open>A transfer in progress\<close>

definition link_ok :: "u32 \<Rightarrow> 'k IsoTpTx \<Rightarrow> 'j IsoTpRx \<Rightarrow> bool" where
  "link_ok dt tx rx \<longleftrightarrow>
     tx_inv tx \<and> rx_inv rx \<and> compatible (tx_config tx) (rx_config rx) \<and>
     clock_us (tx_config tx) = None \<and>
     tx_response_id tx = rx_request_id rx \<and> rx_response_id rx = tx_request_id tx \<and>
     unat (st_min_ms (st_min (rx_config rx))) \<le> unat dt \<and>
     unat dt < unat (tx_timeout_ms (tx_config tx)) \<and> unat dt < unat (rx_timeout_ms (rx_config rx)) \<and>
     unat (tx_timeout_ms (tx_config tx)) \<le> 2147483648 \<and>
     unat (rx_timeout_ms (rx_config rx)) \<le> 2147483648"

fun reasm_due :: "reasm \<Rightarrow> u32" where
  "reasm_due Idle = 0"
| "reasm_due (Receiving n xs q bc t) = t"

definition link_mid :: "bytes \<Rightarrow> u32 \<Rightarrow> u32 \<Rightarrow> 'k IsoTpTx \<Rightarrow> 'j IsoTpRx \<Rightarrow> bool" where
  "link_mid payload dt now tx rx \<longleftrightarrow>
     link_ok dt tx rx \<and> tx_state tx = ISOTP_TX_STATE_SEND_CONSECUTIVE \<and>
     tx_payload tx = payload \<and> unat (tx_payload_len tx) = length payload \<and>
     unat (tx_offset tx) < length payload \<and>
     tx_remote_block_size tx = block_size (rx_config rx) \<and>
     tx_remote_st_min tx = st_min (rx_config rx) \<and>
     expired now (tx_next_frame_ms tx) \<and> \<not> expired now (tx_deadline_ms tx) \<and>
     \<not> expired now (reasm_due (abs_rx rx)) \<and>
     abs_rx rx = Receiving (length payload) (take (unat (tx_offset tx)) payload)
       (unat (tx_next_sequence tx)) (tx_block_count tx) (reasm_due (abs_rx rx))"

lemma outputs_deliver:
  "rx_outputs st ev = pre @ [Deliver m] \<Longrightarrow> set pre \<subseteq> {Aborted} \<Longrightarrow>
     map_option (take (unat (ev_length ev))) (ev_payload ev) = Some m \<and> \<not> ev_has_flow_control ev"
  by (auto simp: rx_outputs_def rx_results_def Let_def append_eq_append_conv2 append_eq_Cons_conv Cons_eq_append_conv
      split: if_splits option.splits)

lemma outputs_flow:
  "rx_outputs st ev = pre @ [SendFlowControl a b c] \<Longrightarrow> set pre \<subseteq> {Aborted} \<Longrightarrow>
     ev_payload ev = None \<and> ev_has_flow_control ev \<and> f_data (ev_flow_control ev) ! 0 = a \<and>
     f_data (ev_flow_control ev) ! 1 = b \<and> f_data (ev_flow_control ev) ! 2 = c"
  by (auto simp: rx_outputs_def rx_results_def Let_def append_eq_append_conv2 append_eq_Cons_conv Cons_eq_append_conv
      split: if_splits option.splits)

lemma outputs_none:
  "rx_outputs st ev = [] \<Longrightarrow> ev_payload ev = None \<and> \<not> ev_has_flow_control ev"
  by (auto simp: rx_outputs_def rx_results_def Let_def split: if_splits option.splits)

text \<open>The results of a frame at the receiver, read off the abstract reassembler.\<close>

lemma feed_by_reasm:
  assumes "rx_inv rx" "wf_frame f"
    and "reasm_feed (rx_config rx) (rx_request_id rx) now (abs_rx rx) f = (s', out)"
  obtains st rx' ev where "isotp_rx_feed rx f now zero_event = Some (st, rx', ev)"
    "rx_inv rx'" "rx_config rx' = rx_config rx" "rx_request_id rx' = rx_request_id rx"
    "rx_response_id rx' = rx_response_id rx" "abs_rx rx' = s'" "rx_outputs st ev = out"
    "ev_has_flow_control ev \<longrightarrow> fc_shape (rx_config rx) (rx_response_id rx) (ev_flow_control ev)"
proof -
  obtain st rx' ev where r: "isotp_rx_feed rx f now zero_event = Some (st, rx', ev)"
    and i: "rx_inv rx'" "rx_config rx' = rx_config rx"
    using rx_feed_inv[OF assms(1,2), of now zero_event] by auto
  with rx_feed_sim[OF assms(1,2) quiet_zero r] assms(3) rx_feed_id[OF r] rx_feed_fc[OF r]
  show thesis by (intro that[OF r i]) auto
qed

lemma wf_cf_frame:
  assumes "tx_inv tx" "tx_state tx = ISOTP_TX_STATE_SEND_CONSECUTIVE"
  shows "wf_frame (cf_frame tx)"
proof -
  have "unat (tx_payload_len tx) \<le> 16384" "length (tx_buffer tx) = 16384" "valid_tx_config (tx_config tx)"
    using assms by (simp_all add: tx_inv_def ISOTP_MAX_PAYLOAD_def)
  then show ?thesis
    using valid_tx_config_tx_dl[of "tx_config tx"]
    by (auto simp: wf_frame_def cf_frame_def Let_def cf_size_def min_def)
qed

lemma link_mid_ticks:
  assumes "link_mid payload dt now tx rx"
  shows "isotp_tx_tick tx now = (ISOTP_OK, tx)" "isotp_rx_tick rx now = (ISOTP_OK, rx)"
proof -
  have "rx_active rx \<Longrightarrow> rx_deadline_ms rx = reasm_due (abs_rx rx)" by (simp add: abs_rx_def)
  with assms show "isotp_tx_tick tx now = (ISOTP_OK, tx)" "isotp_rx_tick rx now = (ISOTP_OK, rx)"
    by (auto simp: link_mid_def isotp_tx_tick_def isotp_rx_tick_def)
qed

lemma link_mid_next:
  assumes "link_mid payload dt now tx rx"
  shows "isotp_tx_next tx now frame = Some (ISOTP_TX_FRAME_READY, cf_sent tx now, cf_frame tx)"
proof -
  have inv: "tx_inv tx" "clock_us (tx_config tx) = None" using assms by (simp_all add: link_mid_def link_ok_def)
  have "tx_pacing_expired tx now = (True, tx)"
    using assms inv by (simp add: tx_pacing_expired_def read_clock_none link_mid_def)
  moreover have "\<not> tx_offset tx \<ge> tx_payload_len tx"
    using assms by (simp add: link_mid_def word_le_nat_alt)
  ultimately show ?thesis
    using assms by (simp add: tx_next_eq[OF inv(1)] link_mid_def)
qed

lemma deadline_ahead:
  "unat dt < unat t \<Longrightarrow> unat t \<le> 2147483648 \<Longrightarrow> \<not> expired (now + dt) (now + t)"
  using expired_deadline[of t dt now] by (simp add: deadline_def)

lemma pace_reached:
  "unat st \<le> unat dt \<Longrightarrow> unat dt < 2147483648 \<Longrightarrow> expired (now + dt) (now + st)"
  using expired_deadline[of st dt now] by (simp add: deadline_def)

text \<open>The abstract receiver's answer to the next consecutive frame of a transfer.\<close>

lemma link_mid_reasm:
  assumes "link_mid payload dt now tx rx"
  defines "off' \<equiv> unat (tx_offset tx) + cf_size tx"
    and "bs \<equiv> block_size (rx_config rx)"
    and "tout \<equiv> now + rx_timeout_ms (rx_config rx)"
  shows "reasm_feed (rx_config rx) (rx_request_id rx) now (abs_rx rx) (cf_frame tx) =
    (if length payload \<le> off' then (Idle, [Deliver payload])
     else if bs \<noteq> 0 \<and> bs \<le> tx_block_count tx + 1
     then (Receiving (length payload) (take off' payload) ((unat (tx_next_sequence tx) + 1) mod 16) 0 tout,
           [SendFlowControl 0x30 bs (st_min (rx_config rx))])
     else (Receiving (length payload) (take off' payload) ((unat (tx_next_sequence tx) + 1) mod 16)
             (tx_block_count tx + 1) tout, []))"
proof -
  note m = assms(1)[unfolded link_mid_def link_ok_def]
  have comp: "compatible (tx_config tx) (rx_config rx)" and inv: "tx_inv tx"
    and st: "tx_state tx = ISOTP_TX_STATE_SEND_CONSECUTIVE" and lt: "tx_offset tx < tx_payload_len tx"
    and pl: "tx_payload tx = payload" and n: "unat (tx_payload_len tx) = length payload"
    using m by (simp_all add: word_less_nat_alt)
  obtain due0 where abs: "abs_rx rx = Receiving (length payload) (take (unat (tx_offset tx)) payload)
       (unat (tx_next_sequence tx)) (tx_block_count tx) due0" using m by blast
  obtain d where d: "parse_npdu (can_fd (rx_config rx)) (cf_frame tx) = ConsecutiveFrame (unat (tx_next_sequence tx)) d"
    "length d = unat (tx_dl (tx_config tx)) - 1"
    "take (unat (tx_payload_len tx) - unat (tx_offset tx)) d =
       take (cf_size tx) (drop (unat (tx_offset tx)) (tx_payload tx))"
    using parse_cf_frame[OF comp inv st lt] by blast
  have valid: "frame_valid (rx_config rx) (cf_frame tx)" "f_can_id (cf_frame tx) = rx_request_id rx"
    using full_frame_valid[OF comp] cf_frame_simps[OF comp] m by simp_all
  have d7: "\<not> length d < 7" using compatible_dl(1)[OF comp] d(2) by simp
  have lt': "unat (tx_offset tx) < length payload" using m by simp
  have size: "off' \<le> length payload" using n lt' by (auto simp: off'_def cf_size_def min_def)
  have chunk: "take (length payload - unat (tx_offset tx)) d = take (cf_size tx) (drop (unat (tx_offset tx)) payload)"
    using d(3) n pl by simp
  have got: "length (take (unat (tx_offset tx)) payload) = unat (tx_offset tx)" using lt' by simp
  have ys: "take (unat (tx_offset tx)) payload @ take (length payload - unat (tx_offset tx)) d = take off' payload"
    by (simp add: chunk off'_def take_add)
  have lys: "length (take off' payload) = off'" using size by simp
  have all: "take off' payload = payload" if "length payload \<le> off'" using that by simp
  have "reasm_consecutive (rx_config rx) now (abs_rx rx) (unat (tx_next_sequence tx)) d =
     (if length payload \<le> off' then (Idle, [Deliver (take off' payload)])
      else if bs \<noteq> 0 \<and> bs \<le> tx_block_count tx + 1
      then (Receiving (length payload) (take off' payload) ((unat (tx_next_sequence tx) + 1) mod 16) 0 tout,
           [SendFlowControl 0x30 bs (st_min (rx_config rx))])
      else (Receiving (length payload) (take off' payload) ((unat (tx_next_sequence tx) + 1) mod 16)
             (tx_block_count tx + 1) tout, []))"
    by (simp only: abs reasm_consecutive.simps got ys lys d7 Let_def bs_def tout_def simp_thms if_False not_True_eq_False)
  then show ?thesis
    using all by (simp add: reasm_feed_def valid d(1))
qed

lemma compatible_same: "same_settings c c' \<Longrightarrow> compatible c rc \<Longrightarrow> compatible c' rc"
proof -
  assume "same_settings c c'" "compatible c rc"
  moreover obtain x where "c' = c\<lparr> clock_context := x \<rparr>"
    using \<open>same_settings c c'\<close> unfolding same_settings_def ..
  ultimately show "compatible c' rc" by (simp add: compatible_def valid_tx_config_def)
qed

lemma tx_resumed_inv: "tx_inv tx \<Longrightarrow> tx_state tx \<noteq> ISOTP_TX_STATE_IDLE \<Longrightarrow> tx_inv (tx_resumed tx bs st now)"
  by (auto simp: tx_inv_def tx_resumed_def word_gt_0)

lemma link_ok_step:
  assumes "link_ok dt tx rx" "tx_inv tx'" "same_settings (tx_config tx) (tx_config tx')"
    and "tx_response_id tx' = tx_response_id tx" "tx_request_id tx' = tx_request_id tx"
    and "rx_inv rx'" "rx_config rx' = rx_config rx" "rx_request_id rx' = rx_request_id rx"
    and "rx_response_id rx' = rx_response_id rx"
  shows "link_ok dt tx' rx'"
  using assms same_settingsD[OF assms(3)] compatible_same[OF assms(3), of "rx_config rx"]
  by (simp add: link_ok_def)

lemma link_mid_step:
  assumes mid: "link_mid payload dt now tx rx"
  defines "off' \<equiv> unat (tx_offset tx) + cf_size tx"
  shows "\<exists>tx' rx'. link_frame (cf_sent tx now) rx (cf_frame tx) now =
      Some (if length payload \<le> off' then Some payload else None, tx', rx') \<and>
    (off' < length payload \<longrightarrow>
       link_mid payload dt (now + dt) tx' rx' \<and> unat (tx_offset tx') = off')"
proof -
  note m = mid[unfolded link_mid_def link_ok_def]
  have ok: "link_ok dt tx rx" using mid by (simp add: link_mid_def)
  have comp: "compatible (tx_config tx) (rx_config rx)" and inv: "tx_inv tx" and rinv: "rx_inv rx"
    and st: "tx_state tx = ISOTP_TX_STATE_SEND_CONSECUTIVE" and lt: "tx_offset tx < tx_payload_len tx"
    and pl: "tx_payload tx = payload" and n: "unat (tx_payload_len tx) = length payload"
    and clk: "clock_us (tx_config tx) = None" and bs: "tx_remote_block_size tx = block_size (rx_config rx)"
    using m by (simp_all add: word_less_nat_alt)
  define t where "t = cf_sent tx now"
  note f = cf_sent_fields[OF inv st lt, of now, folded t_def]
  have tinv: "tx_inv t" unfolding t_def by (rule cf_sent_inv[OF inv st lt])
  have tpl: "tx_payload t = payload" using pl f(3,4) by (simp add: tx_payload_def)
  have tclk: "clock_us (tx_config t) = None" using same_settingsD(5)[OF f(12)] clk by simp
  have tout: "tx_timeout_ms (tx_config t) = tx_timeout_ms (tx_config tx)" by (rule same_settingsD(6)[OF f(12)])
  note wf = wf_cf_frame[OF inv st]
  have small: "unat dt < 2147483648" using m by linarith
  have dl: "\<not> expired (now + dt) (now + tx_timeout_ms (tx_config tx))"
    "\<not> expired (now + dt) (now + rx_timeout_ms (rx_config rx))"
    using m deadline_ahead[of dt "tx_timeout_ms (tx_config tx)" now]
      deadline_ahead[of dt "rx_timeout_ms (rx_config rx)" now] by simp_all
  have pace: "expired (now + dt) (now + st_min_ms (st_min (rx_config rx)))" "expired (now + dt) now"
    using m small pace_reached[of 0 dt now] pace_reached[of "st_min_ms (st_min (rx_config rx))" dt now] by simp_all
  obtain s' out where r: "reasm_feed (rx_config rx) (rx_request_id rx) now (abs_rx rx) (cf_frame tx) = (s', out)"
    by fastforce
  obtain rs rx' ev where feed: "isotp_rx_feed rx (cf_frame tx) now zero_event = Some (rs, rx', ev)"
    and keep: "rx_inv rx'" "rx_config rx' = rx_config rx" "rx_request_id rx' = rx_request_id rx"
      "rx_response_id rx' = rx_response_id rx"
    and abs': "abs_rx rx' = s'" and out: "rx_outputs rs ev = out"
    and shape: "ev_has_flow_control ev \<longrightarrow> fc_shape (rx_config rx) (rx_response_id rx) (ev_flow_control ev)"
    using feed_by_reasm[OF rinv wf r] by blast
  note r' = r[unfolded link_mid_reasm[OF mid], folded off'_def]
  note lf = link_frame_def[of t rx "cf_frame tx" now, unfolded feed option.case prod.case]
  consider (all) "length payload \<le> off'"
    | (blk) "\<not> length payload \<le> off'" "block_size (rx_config rx) \<noteq> 0 \<and> block_size (rx_config rx) \<le> tx_block_count tx + 1"
    | (more) "\<not> length payload \<le> off'" "\<not> (block_size (rx_config rx) \<noteq> 0 \<and> block_size (rx_config rx) \<le> tx_block_count tx + 1)"
    by blast
  then show ?thesis
  proof cases
    case all
    with r' have "out = [] @ [Deliver payload]" by simp
    with outputs_deliver[of rs ev "[]" payload] out lf all show ?thesis by (simp add: t_def)
  next
    case blk
    with r' have o: "out = [] @ [SendFlowControl 0x30 (block_size (rx_config rx)) (st_min (rx_config rx))]"
      and s': "s' = Receiving (length payload) (take off' payload) ((unat (tx_next_sequence tx) + 1) mod 16) 0
        (now + rx_timeout_ms (rx_config rx))" by simp_all
    note fc = outputs_flow[OF out[unfolded o]]
    have "tx_block_count tx < tx_remote_block_size tx"
      using inv st lt blk(2) bs by (simp add: tx_inv_def)
    then have "tx_block_count tx + 1 = tx_remote_block_size tx"
      using blk(2) bs by (metis inc_le order_antisym_conv)
    then have wait: "tx_state t = ISOTP_TX_STATE_WAIT_BLOCK_FLOW_CONTROL"
      using f(13) blk bs n by (simp add: off'_def)
    define t' where "t' = tx_resumed t (block_size (rx_config rx)) (st_min (rx_config rx)) now"
    have acc: "isotp_tx_feed_flow_control t (ev_flow_control ev) now = (ISOTP_OK, t')"
      unfolding t'_def
      using fc_accepted[OF compatible_same[OF f(12) comp] tclk, of "ev_flow_control ev" now] wait fc shape f(7) m
      by simp
    have "link_frame t rx (cf_frame tx) now = Some (None, t', rx')"
      using lf fc acc by simp
    moreover have "link_mid payload dt (now + dt) t' rx'"
    proof -
      have "tx_inv t'" unfolding t'_def using tinv wait by (intro tx_resumed_inv) simp_all
      then have "link_ok dt t' rx'"
        by (intro link_ok_step[OF ok _ _ _ _ keep]) (use f in \<open>simp_all add: t'_def tx_resumed_def\<close>)
      then show ?thesis
        using f blk n tpl pace dl tout m
        by (simp add: link_mid_def t'_def tx_resumed_def keep abs' s' tx_payload_def off'_def deadline_def)
    qed
    moreover have "unat (tx_offset t') = off'" using f(1) by (simp add: t'_def tx_resumed_def off'_def)
    ultimately show ?thesis using blk(1) by (simp add: t_def)
  next
    case more
    with r' have o: "out = []"
      and s': "s' = Receiving (length payload) (take off' payload) ((unat (tx_next_sequence tx) + 1) mod 16)
        (tx_block_count tx + 1) (now + rx_timeout_ms (rx_config rx))" by auto
    note fc = outputs_none[OF out[unfolded o]]
    have send: "tx_state t = ISOTP_TX_STATE_SEND_CONSECUTIVE"
      using f(13) more bs n by (auto simp: off'_def)
    have "link_frame t rx (cf_frame tx) now = Some (None, t, rx')"
      using lf fc by simp
    moreover have "link_mid payload dt (now + dt) t rx'"
    proof -
      have "link_ok dt t rx'" by (rule link_ok_step[OF ok tinv f(12) f(8) f(7) keep])
      then show ?thesis
        using f(1-11) f(14)[OF send] more n tpl pace dl tout m send
        by (simp add: link_mid_def keep abs' s' off'_def deadline_def)
    qed
    ultimately show ?thesis using more(1) f(1) by (simp add: t_def off'_def)
  qed
qed

section \<open>The round trip\<close>

lemma cf_size_pos:
  assumes "link_mid payload dt now tx rx"
  shows "0 < cf_size tx"
proof -
  have "compatible (tx_config tx) (rx_config rx)" using assms by (simp add: link_mid_def link_ok_def)
  from compatible_dl(1)[OF this] assms show ?thesis by (simp add: link_mid_def cf_size_def)
qed

lemma link_poll_delivers:
  "link_mid payload dt now tx rx \<Longrightarrow> length payload \<le> unat (tx_offset tx) + fuel \<Longrightarrow>
     \<exists>tx' rx'. link_poll fuel dt now tx rx = Some (payload, tx', rx')"
proof (induction fuel arbitrary: now tx rx)
  case 0
  then show ?case by (simp add: link_mid_def)
next
  case (Suc fuel)
  define off' where "off' = unat (tx_offset tx) + cf_size tx"
  obtain tx' rx' where step: "link_frame (cf_sent tx now) rx (cf_frame tx) now =
      Some (if length payload \<le> off' then Some payload else None, tx', rx')"
    and mid: "off' < length payload \<longrightarrow>
       link_mid payload dt (now + dt) tx' rx' \<and> unat (tx_offset tx') = off'"
    using link_mid_step[OF Suc.prems(1)] unfolding off'_def by blast
  have poll: "link_poll (Suc fuel) dt now tx rx =
      (if length payload \<le> off' then Some (payload, tx', rx') else link_poll fuel dt (now + dt) tx' rx')"
    using step by (simp add: link_mid_ticks[OF Suc.prems(1)] link_mid_next[OF Suc.prems(1)])
  show ?case
  proof (cases "length payload \<le> off'")
    case True
    with poll show ?thesis by simp
  next
    case False
    with mid have "link_mid payload dt (now + dt) tx' rx'" "unat (tx_offset tx') = off'" by simp_all
    moreover have "length payload \<le> off' + fuel"
      using Suc.prems(2) cf_size_pos[OF Suc.prems(1)] by (simp add: off'_def)
    ultimately show ?thesis using Suc.IH[of "now + dt" tx' rx'] poll False by simp
  qed
qed

text \<open>Starting a transfer: the first frame either delivers the message or leaves it in progress.\<close>

lemma reasm_feed_start:
  assumes "frame_valid cfg f" "f_can_id f = i" "starts_message (parse_npdu (can_fd cfg) f)"
    and "\<And>s. reasm_pdu cfg now s (parse_npdu (can_fd cfg) f) = (s', out)"
  obtains pre where "reasm_feed cfg i now s f = (s', pre @ out)" "set pre \<subseteq> {Aborted}"
  using assms that[of "[]"] that[of "[Aborted]"]
  by (cases "full_duplex cfg \<and> s \<noteq> Idle") (auto simp: reasm_feed_def)

text \<open>The hypotheses on the message: a classic CAN link carries at most 4095 bytes.\<close>

definition sendable :: "'k IsoTpConfig \<Rightarrow> bytes \<Rightarrow> bool" where
  "sendable cfg payload \<longleftrightarrow>
     payload \<noteq> [] \<and> length payload \<le> (if can_fd cfg then ISOTP_MAX_PAYLOAD else 4095)"

lemma link_send_delivers:
  assumes ok: "link_ok dt tx rx" and len: "sendable (tx_config tx) payload"
  shows "\<exists>tx' rx'. link_send (length payload) dt now tx rx payload = Some (payload, tx', rx')"
proof -
  define n where "n = length payload"
  have comp: "compatible (tx_config tx) (rx_config rx)" and inv: "tx_inv tx" and rinv: "rx_inv rx"
    and clk: "clock_us (tx_config tx) = None" and ids: "tx_response_id tx = rx_request_id rx"
      "rx_response_id rx = tx_request_id tx"
    using ok by (simp_all add: link_ok_def)
  have valid: "valid_tx_config (tx_config tx)" using comp by (simp add: compatible_def)
  have buf: "length (tx_buffer tx) = ISOTP_MAX_PAYLOAD" using inv by (simp add: tx_inv_def)
  have n: "0 < n" "n \<le> 16384" "n \<le> ISOTP_MAX_PAYLOAD" "n < 4294967296"
    using len by (auto simp: sendable_def n_def ISOTP_MAX_PAYLOAD_def split: if_splits)
  define t where "t = tx_started tx payload n now"
  define zf where "zf = clear_frame 0 (tx_config tx)"
  have tc: "tx_config t = tx_config tx" "tx_response_id t = tx_response_id tx" "tx_request_id t = tx_request_id tx"
    by (simp_all add: t_def)
  note start = tx_start_eq[OF buf, of n payload now zf, folded t_def]
  obtain st0 tx0 f0 where safe: "isotp_tx_start tx payload (of_nat n) now zf = Some (st0, tx0, f0)" "tx_inv tx0"
      "wf_frame f0"
    using tx_start_inv[OF inv, of n payload now zf] n by (auto simp: n_def zf_def wf_frame_def)
  show ?thesis
  proof (cases "fits_single (tx_config tx) n")
    case True
    have s: "isotp_tx_start tx payload (of_nat n) now zf =
        Some (ISOTP_TX_FRAME_READY, isotp_tx_reset t, sf_frame t payload n)"
      using True n valid start by (simp add: n_def)
    then have wf: "wf_frame (sf_frame t payload n)" using safe by simp
    have fv: "frame_valid (rx_config rx) (sf_frame t payload n)"
      using sf_frame_valid(1)[of t "rx_config rx" n payload] comp True n(1) by (simp add: tc)
    have id: "f_can_id (sf_frame t payload n) = rx_request_id rx"
      using ids by (simp add: sf_frame_def Let_def tc)
    have p: "parse_npdu (can_fd (rx_config rx)) (sf_frame t payload n) = SingleFrame payload"
      using parse_sf_frame[of t "rx_config rx" payload] comp True len by (simp add: tc n_def sendable_def)
    obtain pre where r: "reasm_feed (rx_config rx) (rx_request_id rx) now (abs_rx rx) (sf_frame t payload n) =
        (Idle, pre @ [Deliver payload])" "set pre \<subseteq> {Aborted}"
      by (rule reasm_feed_start[OF fv id]) (simp_all add: p)
    obtain rs rx' ev where feed: "isotp_rx_feed rx (sf_frame t payload n) now zero_event = Some (rs, rx', ev)"
      and out: "rx_outputs rs ev = pre @ [Deliver payload]"
      using feed_by_reasm[OF rinv wf r(1)] by blast
    show ?thesis
      using s feed outputs_deliver[OF out r(2)] by (auto simp: link_send_def n_def zf_def link_frame_def)
  next
    case False
    define tf where "tf = ff_sent t n"
    define k where "k = ff_size (tx_config tx) n"
    have s: "isotp_tx_start tx payload (of_nat n) now zf = Some (ISOTP_TX_FRAME_READY, tf, ff_frame t payload n)"
      using False n valid start by (simp add: n_def tf_def)
    then have wf: "wf_frame (ff_frame t payload n)" and tfinv: "tx_inv tf" using safe by simp_all
    note fs = ff_frame_simps[of t "rx_config rx" payload n, unfolded tc, OF comp]
    have fv: "frame_valid (rx_config rx) (ff_frame t payload n)"
      using full_frame_valid[OF comp] fs by simp
    have id: "f_can_id (ff_frame t payload n) = rx_request_id rx" using ids fs by simp
    have lim: "length payload \<le> (if can_fd (tx_config t) then ISOTP_MAX_PAYLOAD else 4095)"
      using len by (simp add: tc sendable_def)
    have pf: "parse_npdu (can_fd (rx_config rx)) (ff_frame t payload n) = FirstFrame n (take k payload)"
        "k < n" "0 < k"
      using parse_ff_frame[of t "rx_config rx" payload] comp False lim by (simp_all add: tc n_def k_def)
    have pdu: "reasm_pdu (rx_config rx) now s' (FirstFrame n (take k payload)) =
        (Receiving n (take k payload) 1 0 (now + rx_timeout_ms (rx_config rx)),
         [SendFlowControl 0x30 (block_size (rx_config rx)) (st_min (rx_config rx))])" for s'
      using pf(2) n by (simp add: reasm_first_def n_def[symmetric] min_def)
    obtain pre where r: "reasm_feed (rx_config rx) (rx_request_id rx) now (abs_rx rx) (ff_frame t payload n) =
        (Receiving n (take k payload) 1 0 (now + rx_timeout_ms (rx_config rx)),
         pre @ [SendFlowControl 0x30 (block_size (rx_config rx)) (st_min (rx_config rx))])" "set pre \<subseteq> {Aborted}"
      by (rule reasm_feed_start[OF fv id]) (simp_all only: pf(1) starts_message.simps, rule pdu)
    obtain rs rx' ev where feed: "isotp_rx_feed rx (ff_frame t payload n) now zero_event = Some (rs, rx', ev)"
      and keep: "rx_inv rx'" "rx_config rx' = rx_config rx" "rx_request_id rx' = rx_request_id rx"
        "rx_response_id rx' = rx_response_id rx"
      and abs': "abs_rx rx' = Receiving n (take k payload) 1 0 (now + rx_timeout_ms (rx_config rx))"
      and out: "rx_outputs rs ev = pre @ [SendFlowControl 0x30 (block_size (rx_config rx)) (st_min (rx_config rx))]"
      and shape: "ev_has_flow_control ev \<longrightarrow> fc_shape (rx_config rx) (rx_response_id rx) (ev_flow_control ev)"
      using feed_by_reasm[OF rinv wf r(1)] by blast
    note fc = outputs_flow[OF out r(2)]
    have tfc: "tx_config tf = tx_config tx" "tx_request_id tf = tx_request_id tx" "tx_response_id tf = tx_response_id tx"
        "tx_state tf = ISOTP_TX_STATE_WAIT_FIRST_FLOW_CONTROL" "unat (tx_payload_len tf) = n"
        "unat (tx_offset tf) = k" "tx_payload tf = payload" "tx_next_sequence tf = 1"
      using pf(2) n buf by (simp_all add: tf_def ff_sent_def t_def tx_started_def k_def[symmetric] unat_of_nat_32
          tx_payload_def n_def[symmetric])
    define t' where "t' = tx_resumed tf (block_size (rx_config rx)) (st_min (rx_config rx)) now"
    have acc: "isotp_tx_feed_flow_control tf (ev_flow_control ev) now = (ISOTP_OK, t')"
      unfolding t'_def
      using fc_accepted[of tf "rx_config rx" "ev_flow_control ev" now] comp clk tfc fc shape ids by simp
    have lf: "link_frame tf rx (ff_frame t payload n) now = Some (None, t', rx')"
      using feed fc acc by (simp add: link_frame_def)
    have "link_ok dt t' rx'"
      by (rule link_ok_step[OF ok _ _ _ _ keep])
        (use tfinv tfc in \<open>simp_all add: t'_def tx_resumed_inv\<close>, simp_all add: tx_resumed_def tfc)
    moreover have "\<not> expired (now + dt) (now + tx_timeout_ms (tx_config tx))"
        "\<not> expired (now + dt) (now + rx_timeout_ms (rx_config rx))" "expired (now + dt) now"
      using ok deadline_ahead[of dt "tx_timeout_ms (tx_config tx)" now]
        deadline_ahead[of dt "rx_timeout_ms (rx_config rx)" now] pace_reached[of 0 dt now]
      by (simp_all add: link_ok_def)
    ultimately have "link_mid payload dt (now + dt) t' rx'"
      using pf(2) tfc
      by (simp add: link_mid_def t'_def tx_resumed_def abs' keep tx_payload_def deadline_def n_def[symmetric])
    moreover have "unat (tx_offset t') = k" using tfc by (simp add: t'_def tx_resumed_def)
    ultimately obtain tx2 rx2 where "link_poll n dt (now + dt) t' rx' = Some (payload, tx2, rx2)"
      using link_poll_delivers[of payload dt "now + dt" t' rx' n] by (auto simp: n_def)
    with s lf show ?thesis by (simp add: link_send_def n_def zf_def)
  qed
qed

section \<open>Properties\<close>

text \<open>Two nodes as \<open>isotp_rx_init\<close> and \<open>isotp_tx_init\<close> set them up, for the witnesses.\<close>

definition demo_config :: "unit IsoTpConfig" where
  "demo_config = isotp_config_default"

definition demo_tx :: "unit IsoTpTx" where
  "demo_tx = isotp_tx_init
     \<lparr> tx_config = demo_config, tx_request_id = 0, tx_response_id = 0,
       tx_buffer = replicate ISOTP_MAX_PAYLOAD 0, tx_payload_len = 0, tx_offset = 0,
       tx_next_sequence = 0, tx_block_count = 0, tx_remote_block_size = 0, tx_remote_st_min = 0,
       tx_remote_st_min_us = 0, tx_deadline_ms = 0, tx_next_frame_ms = 0, tx_next_frame_us = 0,
       tx_state = ISOTP_TX_STATE_IDLE, tx_wait_frames = 0 \<rparr> (Some demo_config) 0x7E0 0x7E8"

definition demo_rx :: "unit IsoTpRx" where
  "demo_rx = isotp_rx_init
     \<lparr> rx_config = demo_config, rx_request_id = 0, rx_response_id = 0,
       rx_buffer = replicate ISOTP_MAX_PAYLOAD 0, rx_expected_len = 0, rx_received_len = 0,
       rx_next_sequence = 0, rx_block_count = 0, rx_deadline_ms = 0, rx_active = False \<rparr>
     (Some demo_config) 0x7E8 0x7E0"

lemma demo_link_ok: "link_ok 10 demo_tx demo_rx"
proof -
  have "tx_inv demo_tx" "rx_inv demo_rx"
    by (simp_all add: demo_tx_def demo_rx_def tx_init_inv rx_init_inv)
  moreover have "tx_config demo_tx = demo_config" "rx_config demo_rx = demo_config"
    "tx_response_id demo_tx = 0x7E8" "tx_request_id demo_tx = 0x7E0"
    "rx_request_id demo_rx = 0x7E8" "rx_response_id demo_rx = 0x7E0"
    by (simp_all add: demo_tx_def demo_rx_def isotp_tx_init_def isotp_rx_init_def)
  ultimately show ?thesis
    by (simp add: link_ok_def compatible_def demo_config_def config_constructors_valid)
      (simp add: isotp_config_default_def isotp_config_classic_can_def st_min_ms_def
        ISOTP_DEFAULT_RX_TIMEOUT_MS_def ISOTP_DEFAULT_TX_TIMEOUT_MS_def)
qed

text \<open>
  C1. ISO-TP round trip: on a loss-free link between two compatible nodes that are polled often
  enough (at least every timeout, at most every STmin), every message the transport can carry
  (up to 4095 bytes on classic CAN, up to 16384 on CAN FD) is delivered byte for byte, whatever
  the block size, the padding, the data lengths and the state the receiver was in, and within
  as many polls as the message has bytes.
\<close>

theorem link_roundtrip:
  assumes "link_ok dt tx rx" "sendable (tx_config tx) payload"
  shows "\<exists>tx' rx'. link_send (length payload) dt now tx rx payload = Some (payload, tx', rx')"
  using assms by (rule link_send_delivers)

theorem link_roundtrip_witness:
  "\<exists>tx' rx'. link_send 300 10 0 demo_tx demo_rx (replicate 300 0xA5) = Some (replicate 300 0xA5, tx', rx')"
  using link_roundtrip[of 10 demo_tx demo_rx "replicate 300 0xA5" 0] demo_link_ok
  by (simp add: sendable_def demo_tx_def isotp_tx_init_def demo_config_def isotp_config_default_def
      isotp_config_classic_can_def)

text \<open>
  The size limit of classic CAN: a transmitter on classic CAN accepts a message of more than
  4095 bytes and sends it with the escape form of the first frame, and the receiver of the same
  library, on the same link, rejects that first frame as malformed and stays as it was (outside
  full duplex). So 4095 is the bound of the round trip above.
\<close>

theorem classic_escape_rejected:
  assumes "link_ok dt tx rx" "\<not> can_fd (tx_config tx)" "\<not> full_duplex (rx_config rx)"
    and "4095 < length payload" "length payload \<le> ISOTP_MAX_PAYLOAD"
  shows "\<exists>tx' f. isotp_tx_start tx payload (of_nat (length payload)) now f0 =
      Some (ISOTP_TX_FRAME_READY, tx', f) \<and>
    (\<exists>rx' ev. isotp_rx_feed rx f now zero_event = Some (ISOTP_ERR_FORMAT, rx', ev) \<and>
       abs_rx rx' = abs_rx rx)"
proof -
  define n where "n = length payload"
  have comp: "compatible (tx_config tx) (rx_config rx)" and inv: "tx_inv tx" and rinv: "rx_inv rx"
    and ids: "tx_response_id tx = rx_request_id rx"
    using assms(1) by (simp_all add: link_ok_def)
  have valid: "valid_tx_config (tx_config tx)" using comp by (simp add: compatible_def)
  have buf: "length (tx_buffer tx) = ISOTP_MAX_PAYLOAD" using inv by (simp add: tx_inv_def)
  define t where "t = tx_started tx payload n now"
  have tc: "tx_config t = tx_config tx" "tx_response_id t = tx_response_id tx" by (simp_all add: t_def)
  have nf: "\<not> fits_single (tx_config tx) n" using assms(2,4) by (simp add: fits_single_def n_def)
  have pne: "payload \<noteq> []" using assms(4) by auto
  have n: "n \<le> length payload" "n < 4294967296" using assms(5) by (simp_all add: n_def ISOTP_MAX_PAYLOAD_def)
  have s: "isotp_tx_start tx payload (of_nat n) now f0 = Some (ISOTP_TX_FRAME_READY, ff_sent t n, ff_frame t payload n)"
    using tx_start_eq[OF buf n, of now f0] nf assms(4,5) valid pne by (simp add: n_def t_def Let_def)
  have wf: "wf_frame (ff_frame t payload n)"
  proof -
    have "wf_frame (clear_frame 0 (tx_config tx))" by (simp add: wf_frame_def)
    then show ?thesis
      using tx_start_inv[OF inv n, of now "clear_frame 0 (tx_config tx)"] nf assms(4,5) valid
        tx_start_eq[OF buf n, of now "clear_frame 0 (tx_config tx)"] pne by (simp add: n_def t_def Let_def)
  qed
  note fs = ff_frame_simps[of t "rx_config rx" payload n, unfolded tc, OF comp]
  have fv: "frame_valid (rx_config rx) (ff_frame t payload n)"
    using full_frame_valid[OF comp] fs by simp
  have dl: "tx_dl (tx_config tx) = 8" "\<not> can_fd (rx_config rx)" using compatible_dl[OF comp] assms(2) by simp_all
  have size: "ff_size (tx_config tx) n = 2"
    using assms(4) dl by (simp add: ff_size_def ff_header_def n_def)
  obtain a b rest where pl: "payload = a # b # rest"
    using assms(4) by (cases payload; cases "tl payload") auto
  have "take 8 (f_data (ff_frame t payload n)) = [0x10, 0, of_nat (n div 16777216), of_nat (n div 65536),
      of_nat (n div 256), of_nat n, a, b]"
    using assms(4) size dl by (simp add: ff_frame_def Let_def tc ff_header_def n_def[symmetric]) (simp add: pl)
  then have "parse_npdu (can_fd (rx_config rx)) (ff_frame t payload n) = BadFirstFrame"
    using dl by (simp add: parse_npdu_def fs parse_first_def assms(2) Let_def)
  then have r: "reasm_feed (rx_config rx) (rx_request_id rx) now (abs_rx rx) (ff_frame t payload n) =
      (abs_rx rx, [Fail ISOTP_ERR_FORMAT])"
    using fv fs ids assms(3) by (simp add: reasm_feed_def)
  obtain rs rx' ev where feed: "isotp_rx_feed rx (ff_frame t payload n) now zero_event = Some (rs, rx', ev)"
    "abs_rx rx' = abs_rx rx" "rx_outputs rs ev = [Fail ISOTP_ERR_FORMAT]"
    using feed_by_reasm[OF rinv wf r] by blast
  from feed(3) have "rs = ISOTP_ERR_FORMAT"
    by (auto simp: rx_outputs_def rx_results_def Let_def append_eq_Cons_conv split: if_splits option.splits)
  with s feed show ?thesis by (auto simp: n_def)
qed

theorem classic_escape_rejected_witness:
  "\<exists>tx' f. isotp_tx_start demo_tx (replicate 5000 1) (of_nat (length (replicate 5000 (1 :: u8)))) 0
       (clear_frame 0 demo_config) = Some (ISOTP_TX_FRAME_READY, tx', f) \<and>
     (\<exists>rx' ev. isotp_rx_feed demo_rx f 0 zero_event = Some (ISOTP_ERR_FORMAT, rx', ev) \<and>
        abs_rx rx' = abs_rx demo_rx)"
  by (rule classic_escape_rejected[OF demo_link_ok])
    (simp_all add: demo_tx_def demo_rx_def isotp_tx_init_def isotp_rx_init_def demo_config_def
      isotp_config_default_def isotp_config_classic_can_def ISOTP_MAX_PAYLOAD_def)

end
