(* ===== verification/Endpoint.thy ===== *)
theory Endpoint
  imports Uds_Properties Isotp_Link
begin

text \<open>
  The endpoint (\<open>library/src/endpoint.c\<close>): one transport receiver, one transmitter and one UDS server
  behind a CAN driver. Holds its state, one definition per function, the endpoint as a machine with its
  invariant, the reset handshake between server and driver, and the state no request can leave.

  The driver and the observer of reset events are the functions and contexts of the configuration; a
  function pointer that may be null is an option. An operation returns \<open>None\<close> when it would call a null
  pointer or leave a buffer.
\<close>

section \<open>Configuration and state\<close>

definition UDS_MAX_RESPONSE_LENGTH :: nat where "UDS_MAX_RESPONSE_LENGTH = 4095"

datatype UdsResetEvent =
    UDS_RESET_EVENT_REQUESTED
  | UDS_RESET_EVENT_RESPONSE_READY
  | UDS_RESET_EVENT_TX_SUBMITTED
  | UDS_RESET_EVENT_TX_COMPLETE
  | UDS_RESET_EVENT_EXECUTED

record ('d, 'r, 'k, 'c) UdsIsoTpEndpointConfig =
  cfg_send_frame :: "('d \<Rightarrow> IsoTpCanFrame \<Rightarrow> bool \<times> 'd) option"
  cfg_tx_complete :: "('d \<Rightarrow> bool \<times> 'd) option"
  cfg_tx_error :: "('d \<Rightarrow> bool \<times> 'd) option"
  cfg_clock_ms :: "('d \<Rightarrow> u32 \<times> 'd) option"
  cfg_reset_event :: "('r \<Rightarrow> UdsResetEvent \<Rightarrow> 'r) option"
  cfg_context :: 'd
  cfg_reset_event_context :: 'r
  cfg_isotp :: "'k IsoTpConfig"
  cfg_request_id :: u32
  cfg_response_id :: u32
  cfg_functional_request_id :: u32
  cfg_uds_callbacks :: "'c UdsCallbacks"
  cfg_uds_context :: 'c

record ('d, 'r, 'k, 'c, 'p) UdsIsoTpEndpoint =
  ep_config :: "('d, 'r, 'k, 'c) UdsIsoTpEndpointConfig"
  ep_rx :: "'k IsoTpRx"
  ep_tx :: "'k IsoTpTx"
  ep_uds :: "('c, 'p) UdsServer"
  ep_response :: bytes
  pending_frame :: IsoTpCanFrame
  tx_pending :: bool
  pending_control_frame :: IsoTpCanFrame
  control_pending :: bool
  pending_reset_completion :: bool
  pending_frame_final :: bool
  tx_in_flight :: bool
  in_flight_final :: bool
  in_flight_reset_completion :: bool
  tx_reset_completion :: bool
  queued_response :: bytes
  queued_response_length :: u16
  queued_response_pending :: bool
  queued_reset_completion :: bool

section \<open>Operations\<close>

definition frame_is_functional :: "('d, 'r, 'k, 'c, 'p) UdsIsoTpEndpoint \<Rightarrow> IsoTpCanFrame \<Rightarrow> bool" where
  "frame_is_functional ep frame =
     (cfg_functional_request_id (ep_config ep) \<noteq> 0 \<and>
      f_can_id frame = cfg_functional_request_id (ep_config ep))"

definition queue_control_frame ::
  "('d, 'r, 'k, 'c, 'p) UdsIsoTpEndpoint \<Rightarrow> IsoTpCanFrame \<Rightarrow>
     IsoTpStatus \<times> ('d, 'r, 'k, 'c, 'p) UdsIsoTpEndpoint" where
  "queue_control_frame ep frame =
     (if control_pending ep then (ISOTP_ERR_STATE, ep)
      else (ISOTP_NEED_FLOW_CONTROL, ep\<lparr> pending_control_frame := frame, control_pending := True \<rparr>))"

definition response_reset_pending :: "('c, 'p) UdsServer \<Rightarrow> bool" where
  "response_reset_pending server = (uds_server_reset_pending server \<and> pending_reset_subfunction server \<noteq> 0)"

definition reset_event ::
  "('d, 'r, 'k, 'c, 'p) UdsIsoTpEndpoint \<Rightarrow> UdsResetEvent \<Rightarrow> ('d, 'r, 'k, 'c, 'p) UdsIsoTpEndpoint" where
  "reset_event ep event =
     (case cfg_reset_event (ep_config ep) of
        None \<Rightarrow> ep
      | Some notify \<Rightarrow> ep\<lparr> ep_config := (ep_config ep)
          \<lparr> cfg_reset_event_context := notify (cfg_reset_event_context (ep_config ep)) event \<rparr> \<rparr>)"

text \<open>The call of a driver function, with the driver's context.\<close>

definition send_frame ::
  "('d, 'r, 'k, 'c, 'p) UdsIsoTpEndpoint \<Rightarrow> IsoTpCanFrame \<Rightarrow>
     (bool \<times> ('d, 'r, 'k, 'c, 'p) UdsIsoTpEndpoint) option" where
  "send_frame ep frame = do {
     send \<leftarrow> cfg_send_frame (ep_config ep);
     let (sent, d) = send (cfg_context (ep_config ep)) frame;
     Some (sent, ep\<lparr> ep_config := (ep_config ep)\<lparr> cfg_context := d \<rparr> \<rparr>) }"

definition driver_query ::
  "('d, 'r, 'k, 'c, 'p) UdsIsoTpEndpoint \<Rightarrow> ('d \<Rightarrow> bool \<times> 'd) \<Rightarrow> bool \<times> ('d, 'r, 'k, 'c, 'p) UdsIsoTpEndpoint" where
  "driver_query ep query =
     (let (answer, d) = query (cfg_context (ep_config ep)) in
      (answer, ep\<lparr> ep_config := (ep_config ep)\<lparr> cfg_context := d \<rparr> \<rparr>))"

definition start_response ::
  "('d, 'r, 'k, 'c, 'p) UdsIsoTpEndpoint \<Rightarrow> bytes \<Rightarrow> u16 \<Rightarrow> bool \<Rightarrow> u32 \<Rightarrow>
     (IsoTpStatus \<times> ('d, 'r, 'k, 'c, 'p) UdsIsoTpEndpoint) option" where
  "start_response ep response rlen reset_completion now =
     (if tx_pending ep \<or> tx_in_flight ep \<or> isotp_tx_state (ep_tx ep) \<noteq> ISOTP_TX_STATE_IDLE then
        (if queued_response_pending ep then Some (ISOTP_ERR_STATE, ep)
         else do {
           queued \<leftarrow> copy_loop (queued_response ep) 0 response 0 (unat rlen);
           Some (ISOTP_TX_FRAME_READY,
             ep\<lparr> queued_response := queued, queued_response_length := rlen,
                 queued_response_pending := True, queued_reset_completion := reset_completion \<rparr>)
         })
      else do {
        (status, tx, frame) \<leftarrow> isotp_tx_start (ep_tx ep) response (ucast rlen) now (pending_frame ep);
        let ep = ep\<lparr> ep_tx := tx, pending_frame := frame \<rparr>;
        (if status \<noteq> ISOTP_TX_FRAME_READY then Some (status, ep)
         else Some (status,
           ep\<lparr> tx_pending := True, pending_frame_final := (isotp_tx_state (ep_tx ep) = ISOTP_TX_STATE_IDLE),
               pending_reset_completion := reset_completion, tx_reset_completion := reset_completion \<rparr>))
      })"

definition submit_control ::
  "('d, 'r, 'k, 'c, 'p) UdsIsoTpEndpoint \<Rightarrow>
     (IsoTpStatus \<times> ('d, 'r, 'k, 'c, 'p) UdsIsoTpEndpoint) option" where
  "submit_control ep =
     (if \<not> control_pending ep then Some (ISOTP_OK, ep)
      else do {
        (sent, ep) \<leftarrow> send_frame ep (pending_control_frame ep);
        (if \<not> sent then Some (ISOTP_OK, ep)
         else Some (ISOTP_TX_FRAME_READY, ep\<lparr> control_pending := False \<rparr>))
      })"

definition abort_in_flight ::
  "('d, 'r, 'k, 'c, 'p) UdsIsoTpEndpoint \<Rightarrow> ('d, 'r, 'k, 'c, 'p) UdsIsoTpEndpoint" where
  "abort_in_flight ep =
     (if \<not> tx_in_flight ep then ep
      else ep\<lparr> ep_tx := isotp_tx_reset (ep_tx ep), tx_in_flight := False, in_flight_final := False,
               in_flight_reset_completion := False, tx_reset_completion := False,
               queued_response_pending := False, queued_response_length := 0,
               queued_reset_completion := False, ep_uds := uds_server_clear_reset (ep_uds ep) \<rparr>)"

definition complete_in_flight ::
  "('d, 'r, 'k, 'c, 'p) UdsIsoTpEndpoint \<Rightarrow> ('d, 'r, 'k, 'c, 'p) UdsIsoTpEndpoint" where
  "complete_in_flight ep =
     (if \<not> tx_in_flight ep then ep
      else
       let ep = ep\<lparr> tx_in_flight := False \<rparr>;
           ep = (if in_flight_final ep \<and> in_flight_reset_completion ep
                 then let ep = reset_event ep UDS_RESET_EVENT_TX_COMPLETE in
                      ep\<lparr> ep_uds := snd (uds_server_complete_reset (ep_uds ep)) \<rparr>
                 else ep) in
       ep\<lparr> in_flight_final := False, in_flight_reset_completion := False \<rparr>)"

text \<open>The fields \<open>init\<close> does not write keep what the memory held.\<close>

definition uds_isotp_endpoint_init ::
  "('d, 'r, 'k, 'c, 'p) UdsIsoTpEndpoint \<Rightarrow> ('d, 'r, 'k, 'c) UdsIsoTpEndpointConfig \<Rightarrow> u32 \<Rightarrow>
     bool \<times> ('d, 'r, 'k, 'c, 'p) UdsIsoTpEndpoint" where
  "uds_isotp_endpoint_init ep config now =
     (if cfg_send_frame config = None \<or> cfg_clock_ms config = None \<or>
         cfg_request_id config = cfg_response_id config \<or>
         cb_ecu_reset (cfg_uds_callbacks config) \<noteq> None \<and> cfg_tx_complete config = None
      then (False, ep)
      else (True,
        ep\<lparr> ep_config := config,
            ep_rx := isotp_rx_init (ep_rx ep) (Some (cfg_isotp config)) (cfg_request_id config) (cfg_response_id config),
            ep_tx := isotp_tx_init (ep_tx ep) (Some (cfg_isotp config)) (cfg_request_id config) (cfg_response_id config),
            ep_uds := uds_server_init (ep_uds ep) (Some (cfg_uds_callbacks config)) (cfg_uds_context config) now,
            tx_pending := False, control_pending := False, pending_reset_completion := False,
            pending_frame_final := False, tx_in_flight := False, in_flight_final := False,
            in_flight_reset_completion := False, tx_reset_completion := False,
            queued_response_length := 0, queued_response_pending := False,
            queued_reset_completion := False \<rparr>))"

definition is_flow_control_for_endpoint ::
  "('d, 'r, 'k, 'c, 'p) UdsIsoTpEndpoint \<Rightarrow> IsoTpCanFrame \<Rightarrow> bool" where
  "is_flow_control_for_endpoint ep frame =
     (f_can_id frame = cfg_request_id (ep_config ep) \<and> drop_bit 4 (f_data frame ! 0) = 3)"

definition handle_rx_completion ::
  "('d, 'r, 'k, 'c, 'p) UdsIsoTpEndpoint \<Rightarrow> IsoTpRxEvent \<Rightarrow> UdsAddressMode \<Rightarrow> u32 \<Rightarrow>
     (IsoTpStatus \<times> ('d, 'r, 'k, 'c, 'p) UdsIsoTpEndpoint) option" where
  "handle_rx_completion ep event address_mode now =
     (if ev_length event > 65535 then Some (ISOTP_ERR_OVERFLOW, ep)
      else do {
        let reset_was_pending = uds_server_reset_pending (ep_uds ep);
        payload \<leftarrow> ev_payload event;
        request \<leftarrow> (if unat (ev_length event) \<le> length payload then Some (take (unat (ev_length event)) payload)
                   else None);
        (result, uds, response, response_length) \<leftarrow>
          uds_server_handle_addressed (ep_uds ep) request (ep_response ep) 0 address_mode now;
        let ep = ep\<lparr> ep_uds := uds, ep_response := response \<rparr>;
        let reset_completion = (\<not> reset_was_pending \<and> response_reset_pending (ep_uds ep));
        let ep = (if reset_completion then reset_event ep UDS_RESET_EVENT_REQUESTED else ep);
        (if result = UDS_RESULT_NO_RESPONSE then
           (if reset_completion then
              (case uds_server_complete_reset (ep_uds ep) of (completed, uds) \<Rightarrow>
                 let ep = ep\<lparr> ep_uds := uds \<rparr> in
                 Some (ISOTP_COMPLETE,
                   if completed = UDS_RESULT_OK then reset_event ep UDS_RESET_EVENT_EXECUTED else ep))
            else Some (ISOTP_COMPLETE, ep))
         else if result \<noteq> UDS_RESULT_OK \<or> response_length = 0 then Some (ISOTP_ERR_STATE, ep)
         else
           let ep = (if reset_completion then reset_event ep UDS_RESET_EVENT_RESPONSE_READY else ep) in
           start_response ep (ep_response ep) response_length reset_completion now)
      })"

text \<open>
  \<open>junk\<close> is the content of the local event before \<open>isotp_rx_feed\<close>; the receiver leaves it as it is when it
  refuses the frame.
\<close>

definition uds_isotp_endpoint_receive ::
  "IsoTpRxEvent \<Rightarrow> ('d, 'r, 'k, 'c, 'p) UdsIsoTpEndpoint \<Rightarrow> IsoTpCanFrame \<Rightarrow> u32 \<Rightarrow>
     (IsoTpStatus \<times> ('d, 'r, 'k, 'c, 'p) UdsIsoTpEndpoint) option" where
  "uds_isotp_endpoint_receive junk ep frame now =
     (if f_dlc frame = 0 then Some (ISOTP_ERR_ARGUMENT, ep)
      else if is_flow_control_for_endpoint ep frame then
        (if isotp_tx_state (ep_tx ep) = ISOTP_TX_STATE_IDLE \<and>
            full_duplex (cfg_isotp (ep_config ep)) \<and> rx_active (ep_rx ep)
         then Some (ISOTP_OK, ep)
         else case isotp_tx_feed_flow_control (ep_tx ep) frame now of (status, tx) \<Rightarrow>
           Some (status, ep\<lparr> ep_tx := tx \<rparr>))
      else if response_reset_pending (ep_uds ep) then Some (ISOTP_OK, ep)
      else
       let functional = frame_is_functional ep frame in
       if functional \<and> drop_bit 4 (f_data frame ! 0) \<noteq> 0 then Some (ISOTP_OK, ep)
       else do {
         let network_frame =
           (if functional then frame\<lparr> f_can_id := cfg_request_id (ep_config ep) \<rparr> else frame);
         let address_mode = (if functional then UDS_ADDRESS_FUNCTIONAL else UDS_ADDRESS_PHYSICAL);
         (status, rx, event) \<leftarrow> isotp_rx_feed (ep_rx ep) network_frame now junk;
         let ep = ep\<lparr> ep_rx := rx \<rparr>;
         let (queue_status, ep) =
           (if ev_has_flow_control event then queue_control_frame ep (ev_flow_control event)
            else (ISOTP_NEED_FLOW_CONTROL, ep));
         (if queue_status \<noteq> ISOTP_NEED_FLOW_CONTROL then Some (queue_status, ep)
          else if status \<noteq> ISOTP_COMPLETE then Some (status, ep)
          else handle_rx_completion ep event address_mode now)
       })"

definition process_tx_pending ::
  "('d, 'r, 'k, 'c, 'p) UdsIsoTpEndpoint \<Rightarrow>
     (IsoTpStatus \<times> ('d, 'r, 'k, 'c, 'p) UdsIsoTpEndpoint) option" where
  "process_tx_pending ep = do {
     (sent, ep) \<leftarrow> send_frame ep (pending_frame ep);
     (if \<not> sent then Some (ISOTP_OK, ep)
      else
       let ep = ep\<lparr> tx_pending := False, tx_in_flight := True, in_flight_final := pending_frame_final ep,
                    in_flight_reset_completion := pending_reset_completion ep \<rparr>;
           ep = (if in_flight_reset_completion ep then reset_event ep UDS_RESET_EVENT_TX_SUBMITTED else ep);
           ep = ep\<lparr> pending_frame_final := False, pending_reset_completion := False \<rparr>;
           (complete, ep) = (case cfg_tx_complete (ep_config ep) of
                               None \<Rightarrow> (True, ep)
                             | Some query \<Rightarrow> driver_query ep query) in
       Some (ISOTP_TX_FRAME_READY, if complete then complete_in_flight ep else ep)) }"

definition process_queued_response ::
  "('d, 'r, 'k, 'c, 'p) UdsIsoTpEndpoint \<Rightarrow> u32 \<Rightarrow>
     (IsoTpStatus \<times> ('d, 'r, 'k, 'c, 'p) UdsIsoTpEndpoint) option" where
  "process_queued_response ep now =
     (let len = queued_response_length ep; reset_completion = queued_reset_completion ep;
          ep = ep\<lparr> queued_response_pending := False, queued_response_length := 0,
                   queued_reset_completion := False \<rparr> in
      start_response ep (queued_response ep) len reset_completion now)"

definition uds_isotp_endpoint_process ::
  "('d, 'r, 'k, 'c, 'p) UdsIsoTpEndpoint \<Rightarrow> u32 \<Rightarrow>
     (IsoTpStatus \<times> ('d, 'r, 'k, 'c, 'p) UdsIsoTpEndpoint) option" where
  "uds_isotp_endpoint_process ep now =
     (let finish = (\<lambda>ep. if queued_response_pending ep then process_queued_response ep now
                         else Some (ISOTP_OK, ep)) in
      if tx_in_flight ep then
        (case cfg_tx_error (ep_config ep) of
           None \<Rightarrow> Some (ISOTP_OK, ep)
         | Some query \<Rightarrow>
             (case driver_query ep query of (failed, ep) \<Rightarrow>
                if failed then Some (ISOTP_ERR_STATE, abort_in_flight ep) else Some (ISOTP_OK, ep)))
      else do {
        (status, ep) \<leftarrow> submit_control ep;
        (if control_pending ep \<or> status = ISOTP_TX_FRAME_READY then Some (status, ep)
         else if tx_pending ep then process_tx_pending ep
         else if isotp_tx_state (ep_tx ep) \<noteq> ISOTP_TX_STATE_IDLE then do {
           (status, tx, frame) \<leftarrow> isotp_tx_next (ep_tx ep) now (pending_frame ep);
           let ep = ep\<lparr> ep_tx := tx, pending_frame := frame \<rparr>;
           (if status = ISOTP_TX_FRAME_READY
            then Some (status, ep\<lparr> tx_pending := True,
              pending_frame_final := (tx_offset (ep_tx ep) \<ge> tx_payload_len (ep_tx ep)),
              pending_reset_completion := tx_reset_completion ep \<rparr>)
            else if status \<noteq> ISOTP_COMPLETE then Some (status, ep)
            else finish ep)
         }
         else finish ep)
      })"

definition uds_isotp_endpoint_tick ::
  "('d, 'r, 'k, 'c, 'p) UdsIsoTpEndpoint \<Rightarrow> u32 \<Rightarrow>
     IsoTpStatus \<times> ('d, 'r, 'k, 'c, 'p) UdsIsoTpEndpoint" where
  "uds_isotp_endpoint_tick ep now =
     (let (rx_status, rx) = isotp_rx_tick (ep_rx ep) now;
          (tx_status, tx) = isotp_tx_tick (ep_tx ep) now;
          was_pending = uds_server_reset_pending (ep_uds ep);
          uds = snd (uds_server_tick (ep_uds ep) now);
          ep = ep\<lparr> ep_rx := rx, ep_tx := tx, ep_uds := uds \<rparr>;
          ep = (if was_pending \<and> \<not> uds_server_reset_pending (ep_uds ep)
                then reset_event ep UDS_RESET_EVENT_EXECUTED else ep) in
      (if rx_status \<noteq> ISOTP_OK then rx_status else tx_status, ep))"

definition uds_isotp_endpoint_tx_complete ::
  "('d, 'r, 'k, 'c, 'p) UdsIsoTpEndpoint \<Rightarrow> ('d, 'r, 'k, 'c, 'p) UdsIsoTpEndpoint" where
  "uds_isotp_endpoint_tx_complete ep = complete_in_flight ep"

definition uds_isotp_endpoint_server :: "('d, 'r, 'k, 'c, 'p) UdsIsoTpEndpoint \<Rightarrow> ('c, 'p) UdsServer" where
  "uds_isotp_endpoint_server ep = ep_uds ep"

section \<open>The state stays well-formed\<close>

definition ep_wf :: "('d, 'r, 'k, 'c, 'p) UdsIsoTpEndpoint \<Rightarrow> bool" where
  "ep_wf ep \<longleftrightarrow> rx_inv (ep_rx ep) \<and> tx_inv (ep_tx ep) \<and> srv_inv (ep_uds ep) \<and>
     length (ep_response ep) = UDS_MAX_RESPONSE_LENGTH \<and> length (queued_response ep) = UDS_MAX_RESPONSE_LENGTH \<and>
     unat (queued_response_length ep) \<le> UDS_MAX_RESPONSE_LENGTH \<and> cfg_send_frame (ep_config ep) \<noteq> None"

lemma reset_event_fields [simp]:
  "ep_rx (reset_event ep e) = ep_rx ep" "ep_tx (reset_event ep e) = ep_tx ep" "ep_uds (reset_event ep e) = ep_uds ep"
  "ep_response (reset_event ep e) = ep_response ep" "pending_frame (reset_event ep e) = pending_frame ep"
  "tx_pending (reset_event ep e) = tx_pending ep" "control_pending (reset_event ep e) = control_pending ep"
  "pending_control_frame (reset_event ep e) = pending_control_frame ep"
  "pending_reset_completion (reset_event ep e) = pending_reset_completion ep"
  "pending_frame_final (reset_event ep e) = pending_frame_final ep"
  "tx_in_flight (reset_event ep e) = tx_in_flight ep" "in_flight_final (reset_event ep e) = in_flight_final ep"
  "in_flight_reset_completion (reset_event ep e) = in_flight_reset_completion ep"
  "tx_reset_completion (reset_event ep e) = tx_reset_completion ep"
  "queued_response (reset_event ep e) = queued_response ep"
  "queued_response_length (reset_event ep e) = queued_response_length ep"
  "queued_response_pending (reset_event ep e) = queued_response_pending ep"
  "queued_reset_completion (reset_event ep e) = queued_reset_completion ep"
  "cfg_send_frame (ep_config (reset_event ep e)) = cfg_send_frame (ep_config ep)"
  "cfg_tx_complete (ep_config (reset_event ep e)) = cfg_tx_complete (ep_config ep)"
  "cfg_tx_error (ep_config (reset_event ep e)) = cfg_tx_error (ep_config ep)"
  "cfg_context (ep_config (reset_event ep e)) = cfg_context (ep_config ep)"
  "cfg_isotp (ep_config (reset_event ep e)) = cfg_isotp (ep_config ep)"
  "cfg_request_id (ep_config (reset_event ep e)) = cfg_request_id (ep_config ep)"
  "cfg_functional_request_id (ep_config (reset_event ep e)) = cfg_functional_request_id (ep_config ep)"
  by (simp_all add: reset_event_def split: option.splits)

text \<open>A completed message lies in the receive buffer.\<close>

lemma rx_feed_message:
  assumes "rx_inv rx" "wf_frame f" "isotp_rx_feed rx f now ev = Some (ISOTP_COMPLETE, rx', ev')"
  shows "\<exists>buf. ev_payload ev' = Some buf \<and> unat (ev_length ev') \<le> length buf"
proof -
  let ?rx0 = "enter_pdu rx f"
  let ?e = "clear_event ev (is_unexpected_n_pdu rx (pdu_type f))"
  have v: "frame_valid (rx_config rx) f" using assms(3) by (auto simp: rx_feed_dispatch split: if_splits)
  have i: "rx_inv ?rx0" "frame_valid (rx_config ?rx0) f" using assms(1) v by simp_all
  note b = frame_valid_dlc[OF v]
  consider "rx_single ?rx0 f ?e = Some (ISOTP_COMPLETE, rx', ev')"
    | "rx_first ?rx0 f now ?e = Some (ISOTP_COMPLETE, rx', ev')"
    | "rx_consecutive ?rx0 f now ?e = Some (ISOTP_COMPLETE, rx', ev')"
    using assms(3) v by (auto simp: rx_feed_dispatch Let_def split: if_splits)
  then show ?thesis
  proof cases
    case 1
    then show ?thesis
      using i(1) decode_sf_Some[of f] b assms(2)
      by (auto simp: rx_single_eq[OF i(1) assms(2) i(2)] Let_def rx_inv_def wf_frame_def ISOTP_MAX_PAYLOAD_def
          split: option.splits if_splits)
  next
    case 2
    then show ?thesis
      using i(1) b assms(2)
      by (auto simp: rx_first_eq[OF i(1) assms(2) i(2)] Let_def rx_first_state_def rx_inv_def wf_frame_def
          ISOTP_MAX_PAYLOAD_def split: option.splits if_splits)
  next
    case 3
    then show ?thesis
      using i(1) b assms(2)
      by (auto simp: rx_consecutive_eq[OF i(1) assms(2) i(2)] Let_def rx_consecutive_state_def rx_inv_def wf_frame_def
          ISOTP_MAX_PAYLOAD_def split: option.splits if_splits)
  qed
qed

lemma start_response_wf:
  assumes "ep_wf ep" "unat rlen \<le> UDS_MAX_RESPONSE_LENGTH" "length response = UDS_MAX_RESPONSE_LENGTH"
  shows "wp (start_response ep response rlen rc now) (\<lambda>(st, ep'). ep_wf ep')"
proof (cases "tx_pending ep \<or> tx_in_flight ep \<or> isotp_tx_state (ep_tx ep) \<noteq> ISOTP_TX_STATE_IDLE")
  case True
  have "copy_loop (queued_response ep) 0 response 0 (unat rlen) =
      Some (take (unat rlen) response @ drop (unat rlen) (queued_response ep))"
    using assms by (subst copy_loop_closed) (auto simp: ep_wf_def)
  with True assms show ?thesis by (auto simp: start_response_def wp_simps ep_wf_def)
next
  case False
  have n: "(of_nat (unat rlen) :: u32) = ucast rlen" by (simp add: word_unat_eq_iff)
  have "tx_inv (ep_tx ep)" "unat rlen \<le> length response" "unat rlen < 4294967296"
    using assms order.strict_trans[OF unat_u16_lt[of rlen]] by (auto simp: ep_wf_def)
  from tx_start_inv[OF this, of now "pending_frame ep", unfolded n]
  obtain st tx' fr where t: "isotp_tx_start (ep_tx ep) response (ucast rlen) now (pending_frame ep) = Some (st, tx', fr)"
    "tx_inv tx'" by blast
  with False assms show ?thesis by (auto simp: start_response_def wp_simps ep_wf_def Let_def)
qed

lemma complete_reset_srv: "srv_inv s \<Longrightarrow> srv_inv (snd (uds_server_complete_reset s))"
  using srvm.step_inv[of s SrvCompleteReset] by simp

lemma clear_reset_srv: "srv_inv s \<Longrightarrow> srv_inv (uds_server_clear_reset s)"
  using srvm.step_inv[of s SrvClearReset] by simp

text \<open>The handling of a completed message, after the server has answered.\<close>

definition answered_ep ::
  "('d, 'r, 'k, 'c, 'p) UdsIsoTpEndpoint \<Rightarrow> ('c, 'p) UdsServer \<Rightarrow> bytes \<Rightarrow> bool \<Rightarrow> ('d, 'r, 'k, 'c, 'p) UdsIsoTpEndpoint" where
  "answered_ep ep uds rsp rc = (let ep = ep\<lparr> ep_uds := uds, ep_response := rsp \<rparr> in
     if rc then reset_event ep UDS_RESET_EVENT_REQUESTED else ep)"

lemma answered_ep_fields [simp]:
  "ep_uds (answered_ep ep uds rsp rc) = uds" "ep_response (answered_ep ep uds rsp rc) = rsp"
  "ep_rx (answered_ep ep uds rsp rc) = ep_rx ep" "ep_tx (answered_ep ep uds rsp rc) = ep_tx ep"
  "pending_frame (answered_ep ep uds rsp rc) = pending_frame ep" "tx_pending (answered_ep ep uds rsp rc) = tx_pending ep"
  "control_pending (answered_ep ep uds rsp rc) = control_pending ep"
  "pending_reset_completion (answered_ep ep uds rsp rc) = pending_reset_completion ep"
  "pending_frame_final (answered_ep ep uds rsp rc) = pending_frame_final ep"
  "tx_in_flight (answered_ep ep uds rsp rc) = tx_in_flight ep" "in_flight_final (answered_ep ep uds rsp rc) = in_flight_final ep"
  "in_flight_reset_completion (answered_ep ep uds rsp rc) = in_flight_reset_completion ep"
  "tx_reset_completion (answered_ep ep uds rsp rc) = tx_reset_completion ep"
  "queued_response (answered_ep ep uds rsp rc) = queued_response ep"
  "queued_response_length (answered_ep ep uds rsp rc) = queued_response_length ep"
  "queued_response_pending (answered_ep ep uds rsp rc) = queued_response_pending ep"
  "queued_reset_completion (answered_ep ep uds rsp rc) = queued_reset_completion ep"
  "cfg_send_frame (ep_config (answered_ep ep uds rsp rc)) = cfg_send_frame (ep_config ep)"
  "cfg_tx_complete (ep_config (answered_ep ep uds rsp rc)) = cfg_tx_complete (ep_config ep)"
  "cfg_tx_error (ep_config (answered_ep ep uds rsp rc)) = cfg_tx_error (ep_config ep)"
  "cfg_context (ep_config (answered_ep ep uds rsp rc)) = cfg_context (ep_config ep)"
  "cfg_request_id (ep_config (answered_ep ep uds rsp rc)) = cfg_request_id (ep_config ep)"
  by (simp_all add: answered_ep_def Let_def)

lemma handle_rx_eq:
  assumes "unat (ev_length ev) < 65536" "ev_payload ev = Some buf" "unat (ev_length ev) \<le> length buf"
    and "uds_server_handle_addressed (ep_uds ep) (take (unat (ev_length ev)) buf) (ep_response ep) 0 mode now =
      Some (result, uds, rsp, rlen)"
  shows "handle_rx_completion ep ev mode now =
    (let rc = (\<not> uds_server_reset_pending (ep_uds ep) \<and> response_reset_pending uds);
         ep2 = answered_ep ep uds rsp rc;
         ep3 = ep2\<lparr> ep_uds := snd (uds_server_complete_reset uds) \<rparr> in
     if result = UDS_RESULT_NO_RESPONSE then
       Some (ISOTP_COMPLETE,
         if \<not> rc then ep2
         else if fst (uds_server_complete_reset uds) = UDS_RESULT_OK
         then reset_event ep3 UDS_RESET_EVENT_EXECUTED else ep3)
     else if result \<noteq> UDS_RESULT_OK \<or> rlen = 0 then Some (ISOTP_ERR_STATE, ep2)
     else start_response (if rc then reset_event ep2 UDS_RESET_EVENT_RESPONSE_READY else ep2) rsp rlen rc now)"
proof -
  have "\<not> ev_length ev > 65535" using assms(1) by (simp add: word_less_nat_alt)
  then show ?thesis
    using assms(2-4)
    by (cases "\<not> uds_server_reset_pending (ep_uds ep) \<and> response_reset_pending uds")
      (auto simp: handle_rx_completion_def answered_ep_def Let_def case_prod_beta)
qed

lemma handle_rx_wf:
  assumes "ep_wf ep" "ev_payload ev = Some buf" "unat (ev_length ev) \<le> length buf"
  shows "wp (handle_rx_completion ep ev mode now) (\<lambda>(st, ep'). ep_wf ep')"
proof (cases "ev_length ev > 65535")
  case True
  with assms show ?thesis by (simp add: handle_rx_completion_def wp_simps)
next
  case False
  then have lt: "unat (ev_length ev) < 65536" by (simp add: word_less_nat_alt)
  let ?req = "take (unat (ev_length ev)) buf"
  have "srv_inv (ep_uds ep)" "length ?req < 65536" "4 \<le> length (ep_response ep)" "length (ep_response ep) < 65536"
    using assms lt by (auto simp: ep_wf_def UDS_MAX_RESPONSE_LENGTH_def)
  from wpD[OF srv_inv_handle[OF this, of 0 mode now]] obtain result uds rsp rlen where
    h: "uds_server_handle_addressed (ep_uds ep) ?req (ep_response ep) 0 mode now = Some (result, uds, rsp, rlen)"
      "srv_inv uds" "length rsp = length (ep_response ep)"
      "result = UDS_RESULT_OK \<longrightarrow> answer_ok (current_address_mode uds) ?req rsp rlen"
    by (auto simp: answered_def)
  have ev: "ep_wf (reset_event e x) = ep_wf e" for e :: "('a, 'b, 'c, 'd, 'e) UdsIsoTpEndpoint" and x
    by (simp add: ep_wf_def)
  have wf2: "ep_wf (answered_ep ep uds rsp rc)" for rc using assms(1) h by (simp add: ep_wf_def)
  have wf3: "ep_wf ((answered_ep ep uds rsp rc)\<lparr> ep_uds := snd (uds_server_complete_reset uds) \<rparr>)" for rc
    using wf2[of rc] complete_reset_srv[OF h(2)] by (simp add: ep_wf_def)
  have start: "wp (start_response e rsp rlen rc now) (\<lambda>(st, ep'). ep_wf ep')"
    if "ep_wf e" "result = UDS_RESULT_OK" for e :: "('a, 'b, 'c, 'd, 'e) UdsIsoTpEndpoint" and rc
    using that h assms(1) by (intro start_response_wf) (auto simp: answer_ok_def ep_wf_def)
  show ?thesis
    unfolding handle_rx_eq[OF lt assms(2,3) h(1)] Let_def
    using wf2 wf3 start by (auto simp: wp_simps ev)
qed

lemma queue_control_wf: "ep_wf ep \<Longrightarrow> ep_wf (snd (queue_control_frame ep f))"
  by (simp add: queue_control_frame_def ep_wf_def)

lemma receive_wf:
  assumes "ep_wf ep" "wf_frame frame"
  shows "wp (uds_isotp_endpoint_receive junk ep frame now) (\<lambda>(st, ep'). ep_wf ep')"
proof -
  have fc: "ep_wf (ep\<lparr> ep_tx := snd (isotp_tx_feed_flow_control (ep_tx ep) frame now) \<rparr>)"
    using assms(1) tx_feed_fc_inv[of "ep_tx ep" frame now] by (simp add: ep_wf_def)
  define nf where "nf = (if frame_is_functional ep frame then frame\<lparr> f_can_id := cfg_request_id (ep_config ep) \<rparr> else frame)"
  have nf: "wf_frame nf" "rx_inv (ep_rx ep)" using assms by (simp_all add: nf_def wf_frame_def ep_wf_def)
  from rx_feed_inv[OF nf(2,1), of now junk] obtain st rx ev where
    r: "isotp_rx_feed (ep_rx ep) nf now junk = Some (st, rx, ev)" "rx_inv rx" by blast
  define ep1 where "ep1 = (if ev_has_flow_control ev then snd (queue_control_frame (ep\<lparr> ep_rx := rx \<rparr>) (ev_flow_control ev))
    else ep\<lparr> ep_rx := rx \<rparr>)"
  have wf0: "ep_wf (ep\<lparr> ep_rx := rx \<rparr>)" using assms(1) r by (simp add: ep_wf_def)
  then have wf1: "ep_wf (snd (queue_control_frame (ep\<lparr> ep_rx := rx \<rparr>) (ev_flow_control ev)))" by (rule queue_control_wf)
  have handled: "wp (handle_rx_completion e ev mode now) (\<lambda>(st, ep'). ep_wf ep')"
    if "ep_wf e" "st = ISOTP_COMPLETE" for e :: "('a, 'b, 'c, 'd, 'e) UdsIsoTpEndpoint" and mode
    using rx_feed_message[OF nf(2,1)] r(1) that handle_rx_wf[OF that(1)] by blast
  show ?thesis
    using assms(1) fc r(1) wf0 wf1 handled
    by (auto simp: uds_isotp_endpoint_receive_def Let_def wp_simps case_prod_beta simp flip: nf_def)
qed

lemma complete_in_flight_wf [simp]: "ep_wf ep \<Longrightarrow> ep_wf (complete_in_flight ep)"
  using complete_reset_srv[of "ep_uds ep"] by (simp add: complete_in_flight_def ep_wf_def Let_def)

lemma abort_in_flight_wf [simp]: "ep_wf ep \<Longrightarrow> ep_wf (abort_in_flight ep)"
  using clear_reset_srv[of "ep_uds ep"] by (simp add: abort_in_flight_def ep_wf_def)

text \<open>A driver call changes the driver's context only.\<close>

definition with_driver :: "('d, 'r, 'k, 'c, 'p) UdsIsoTpEndpoint \<Rightarrow> 'd \<Rightarrow> ('d, 'r, 'k, 'c, 'p) UdsIsoTpEndpoint" where
  "with_driver ep d = ep\<lparr> ep_config := (ep_config ep)\<lparr> cfg_context := d \<rparr> \<rparr>"

lemma with_driver_fields [simp]:
  "ep_rx (with_driver ep d) = ep_rx ep" "ep_tx (with_driver ep d) = ep_tx ep" "ep_uds (with_driver ep d) = ep_uds ep"
  "ep_response (with_driver ep d) = ep_response ep" "pending_frame (with_driver ep d) = pending_frame ep"
  "tx_pending (with_driver ep d) = tx_pending ep" "control_pending (with_driver ep d) = control_pending ep"
  "pending_control_frame (with_driver ep d) = pending_control_frame ep"
  "pending_reset_completion (with_driver ep d) = pending_reset_completion ep"
  "pending_frame_final (with_driver ep d) = pending_frame_final ep"
  "tx_in_flight (with_driver ep d) = tx_in_flight ep" "in_flight_final (with_driver ep d) = in_flight_final ep"
  "in_flight_reset_completion (with_driver ep d) = in_flight_reset_completion ep"
  "tx_reset_completion (with_driver ep d) = tx_reset_completion ep"
  "queued_response (with_driver ep d) = queued_response ep"
  "queued_response_length (with_driver ep d) = queued_response_length ep"
  "queued_response_pending (with_driver ep d) = queued_response_pending ep"
  "queued_reset_completion (with_driver ep d) = queued_reset_completion ep"
  "cfg_send_frame (ep_config (with_driver ep d)) = cfg_send_frame (ep_config ep)"
  "cfg_tx_complete (ep_config (with_driver ep d)) = cfg_tx_complete (ep_config ep)"
  "cfg_tx_error (ep_config (with_driver ep d)) = cfg_tx_error (ep_config ep)"
  "cfg_context (ep_config (with_driver ep d)) = d"
  "cfg_request_id (ep_config (with_driver ep d)) = cfg_request_id (ep_config ep)"
  "ep_wf (with_driver ep d) = ep_wf ep"
  by (simp_all add: with_driver_def ep_wf_def)

lemma send_frame_eq:
  assumes "cfg_send_frame (ep_config ep) = Some send"
  shows "send_frame ep f = (case send (cfg_context (ep_config ep)) f of (sent, d) \<Rightarrow> Some (sent, with_driver ep d))"
  using assms by (simp add: send_frame_def with_driver_def)

lemma driver_query_eq:
  "driver_query ep query = (case query (cfg_context (ep_config ep)) of (answer, d) \<Rightarrow> (answer, with_driver ep d))"
  by (simp add: driver_query_def with_driver_def)

text \<open>The frame handed to the driver, before it is confirmed.\<close>

definition submitted ::
  "('d, 'r, 'k, 'c, 'p) UdsIsoTpEndpoint \<Rightarrow> ('d, 'r, 'k, 'c, 'p) UdsIsoTpEndpoint" where
  "submitted ep =
     (let e = ep\<lparr> tx_pending := False, tx_in_flight := True, in_flight_final := pending_frame_final ep,
                   in_flight_reset_completion := pending_reset_completion ep \<rparr> in
      (if pending_reset_completion ep then reset_event e UDS_RESET_EVENT_TX_SUBMITTED else e)
        \<lparr> pending_frame_final := False, pending_reset_completion := False \<rparr>)"

lemma submitted_fields [simp]:
  "ep_rx (submitted ep) = ep_rx ep" "ep_tx (submitted ep) = ep_tx ep" "ep_uds (submitted ep) = ep_uds ep"
  "ep_response (submitted ep) = ep_response ep" "pending_frame (submitted ep) = pending_frame ep"
  "\<not> tx_pending (submitted ep)" "tx_in_flight (submitted ep)"
  "in_flight_final (submitted ep) = pending_frame_final ep"
  "in_flight_reset_completion (submitted ep) = pending_reset_completion ep"
  "tx_reset_completion (submitted ep) = tx_reset_completion ep"
  "queued_response (submitted ep) = queued_response ep"
  "queued_response_length (submitted ep) = queued_response_length ep"
  "queued_response_pending (submitted ep) = queued_response_pending ep"
  "queued_reset_completion (submitted ep) = queued_reset_completion ep"
  "cfg_send_frame (ep_config (submitted ep)) = cfg_send_frame (ep_config ep)"
  "cfg_tx_complete (ep_config (submitted ep)) = cfg_tx_complete (ep_config ep)"
  "cfg_tx_error (ep_config (submitted ep)) = cfg_tx_error (ep_config ep)"
  "cfg_context (ep_config (submitted ep)) = cfg_context (ep_config ep)"
  "cfg_request_id (ep_config (submitted ep)) = cfg_request_id (ep_config ep)"
  "ep_wf (submitted ep) = ep_wf ep"
  by (simp_all add: submitted_def Let_def ep_wf_def)

lemma process_tx_pending_eq:
  assumes "cfg_send_frame (ep_config ep) = Some send"
  shows "process_tx_pending ep =
    (case send (cfg_context (ep_config ep)) (pending_frame ep) of (sent, d) \<Rightarrow>
       if \<not> sent then Some (ISOTP_OK, with_driver ep d)
       else let e = submitted (with_driver ep d) in
         Some (ISOTP_TX_FRAME_READY,
           case cfg_tx_complete (ep_config ep) of
             None \<Rightarrow> complete_in_flight e
           | Some query \<Rightarrow> (case query (cfg_context (ep_config e)) of (confirmed, d) \<Rightarrow>
               if confirmed then complete_in_flight (with_driver e d) else with_driver e d)))"
proof -
  obtain sent d where s: "send (cfg_context (ep_config ep)) (pending_frame ep) = (sent, d)" by fastforce
  show ?thesis
  proof (cases sent)
    case False
    with s show ?thesis by (simp add: process_tx_pending_def send_frame_eq[OF assms])
  next
    case True
    show ?thesis
    proof (cases "cfg_tx_complete (ep_config ep)")
      case None
      with s True show ?thesis
        by (simp add: process_tx_pending_def send_frame_eq[OF assms] submitted_def Let_def)
    next
      case (Some query)
      with s True show ?thesis
        by (simp add: process_tx_pending_def send_frame_eq[OF assms] submitted_def Let_def driver_query_eq case_prod_beta)
    qed
  qed
qed

lemma process_tx_pending_wf:
  assumes "ep_wf ep"
  shows "wp (process_tx_pending ep) (\<lambda>(st, ep'). ep_wf ep')"
proof -
  obtain send where send: "cfg_send_frame (ep_config ep) = Some send" using assms by (auto simp: ep_wf_def)
  show ?thesis
    using assms
    by (auto simp: process_tx_pending_eq[OF send] Let_def wp_simps split: option.splits prod.splits)
qed

lemma queued_start_wf:
  assumes "ep_wf ep"
  shows "wp (process_queued_response ep now) (\<lambda>(st, ep'). ep_wf ep')"
  unfolding process_queued_response_def Let_def
  by (rule start_response_wf) (use assms in \<open>auto simp: ep_wf_def\<close>)

lemma process_wf:
  assumes "ep_wf ep"
  shows "wp (uds_isotp_endpoint_process ep now) (\<lambda>(st, ep'). ep_wf ep')"
proof -
  obtain send where send: "cfg_send_frame (ep_config ep) = Some send" using assms by (auto simp: ep_wf_def)
  have sub: "wp (submit_control ep) (\<lambda>(st, ep'). ep_wf ep')"
    using assms by (auto simp: submit_control_def send_frame_eq[OF send] wp_simps ep_wf_def split: prod.splits)
  have tx: "wp (isotp_tx_next (ep_tx e) now (pending_frame e)) (\<lambda>(st, tx, fr). tx_inv tx)"
    if "ep_wf e" for e :: "('a, 'b, 'c, 'd, 'e) UdsIsoTpEndpoint"
    using tx_next_safe[of "ep_tx e" now "pending_frame e"] that by (auto simp: ep_wf_def wp_simps)
  show ?thesis
  proof (cases "tx_in_flight ep")
    case True
    then show ?thesis
      using assms
      by (auto simp: uds_isotp_endpoint_process_def driver_query_eq wp_simps split: option.splits prod.splits)
  next
    case False
    obtain st e where e: "submit_control ep = Some (st, e)" "ep_wf e" using wpD[OF sub] by auto
    obtain st2 tx fr where n: "isotp_tx_next (ep_tx e) now (pending_frame e) = Some (st2, tx, fr)" "tx_inv tx"
      using wpD[OF tx[OF e(2)]] by auto
    have "ep_wf (e\<lparr> ep_tx := tx, pending_frame := fr \<rparr>)" using e n by (simp add: ep_wf_def)
    then show ?thesis
      using False e n process_tx_pending_wf[OF e(2)] queued_start_wf[of _ now]
      by (auto simp: uds_isotp_endpoint_process_def Let_def wp_simps ep_wf_def)
  qed
qed

lemma tick_wf: "ep_wf ep \<Longrightarrow> ep_wf (snd (uds_isotp_endpoint_tick ep now))"
  using rx_tick_inv[of "ep_rx ep" now] tx_tick_inv[of "ep_tx ep" now] srv_inv_server_tick[of "ep_uds ep" now]
  by (auto simp: uds_isotp_endpoint_tick_def ep_wf_def Let_def case_prod_beta)

section \<open>The endpoint as a machine\<close>

datatype ep_event =
    EpReceive IsoTpRxEvent IsoTpCanFrame u32
  | EpProcess u32
  | EpTick u32
  | EpTxComplete

fun ep_step ::
  "('d, 'r, 'k, 'c, 'p) UdsIsoTpEndpoint \<Rightarrow> ep_event \<Rightarrow> ('d, 'r, 'k, 'c, 'p) UdsIsoTpEndpoint option" where
  "ep_step ep (EpReceive junk frame now) = map_option snd (uds_isotp_endpoint_receive junk ep frame now)"
| "ep_step ep (EpProcess now) = map_option snd (uds_isotp_endpoint_process ep now)"
| "ep_step ep (EpTick now) = Some (snd (uds_isotp_endpoint_tick ep now))"
| "ep_step ep EpTxComplete = Some (uds_isotp_endpoint_tx_complete ep)"

fun ep_ok :: "ep_event \<Rightarrow> bool" where
  "ep_ok (EpReceive junk frame now) = wf_frame frame"
| "ep_ok _ = True"

lemma ep_step_safe:
  assumes "ep_wf ep" "ep_ok e"
  shows "\<exists>ep'. ep_step ep e = Some ep' \<and> ep_wf ep'"
proof (cases e)
  case (EpReceive junk frame now)
  with assms wpD[OF receive_wf[of ep frame junk now]] show ?thesis by auto
next
  case (EpProcess now)
  with assms wpD[OF process_wf[of ep now]] show ?thesis by auto
next
  case (EpTick now)
  with assms tick_wf[of ep now] show ?thesis by simp
next
  case EpTxComplete
  with assms show ?thesis by (simp add: uds_isotp_endpoint_tx_complete_def)
qed

interpretation epm: machine ep_step ep_ok ep_wf
  by unfold_locales (rule ep_step_safe)

section \<open>From initialisation on\<close>

lemma init_wf:
  assumes "uds_isotp_endpoint_init ep config now = (True, ep')" "callbacks_ok (cfg_uds_callbacks config)"
    and "length (rx_buffer (ep_rx ep)) = ISOTP_MAX_PAYLOAD" "length (tx_buffer (ep_tx ep)) = ISOTP_MAX_PAYLOAD"
    and "length (ep_response ep) = UDS_MAX_RESPONSE_LENGTH" "length (queued_response ep) = UDS_MAX_RESPONSE_LENGTH"
  shows "ep_wf ep'"
proof -
  have "srv_inv (uds_server_init (ep_uds ep) (Some (cfg_uds_callbacks config)) (cfg_uds_context config) now)"
    by (rule srv_inv_init) (simp add: uds_server_init_def assms(2))
  then show ?thesis
    using assms(1,3-6) tx_init_inv[of "ep_tx ep"] rx_init_inv[of "ep_rx ep"]
    by (auto simp: uds_isotp_endpoint_init_def ep_wf_def split: if_splits)
qed

text \<open>A concrete endpoint: the driver and the reset observer keep logs.\<close>

definition demo_driver :: "UdsResetEvent list \<Rightarrow> (IsoTpCanFrame list \<times> unit, UdsResetEvent list, unit, bytes) UdsIsoTpEndpointConfig" where
  "demo_driver events =
     \<lparr> cfg_send_frame = Some (\<lambda>(log, u) f. (True, log @ [f], u)), cfg_tx_complete = Some (\<lambda>log. (True, log)),
       cfg_tx_error = None, cfg_clock_ms = Some (\<lambda>log. (0, log)), cfg_reset_event = Some (\<lambda>log e. log @ [e]),
       cfg_context = ([], ()), cfg_reset_event_context = events, cfg_isotp = isotp_config_default,
       cfg_request_id = 0x7E0, cfg_response_id = 0x7E8, cfg_functional_request_id = 0x7DF,
       cfg_uds_callbacks = demo_callbacks, cfg_uds_context = [] \<rparr>"

definition demo_endpoint ::
  "u8 \<Rightarrow> (IsoTpCanFrame list \<times> unit, UdsResetEvent list, unit, bytes, unit) UdsIsoTpEndpoint" where
  "demo_endpoint sess =
     \<lparr> ep_config = demo_driver [], ep_rx = rx_blank, ep_tx = isotp_tx_init tx_blank None 0x7E0 0x7E8, ep_uds = demo_server sess demo_gate,
       ep_response = replicate UDS_MAX_RESPONSE_LENGTH 0, pending_frame = can_frame 0 [0], tx_pending = False,
       pending_control_frame = can_frame 0 [0], control_pending = False, pending_reset_completion = False,
       pending_frame_final = False, tx_in_flight = False, in_flight_final = False,
       in_flight_reset_completion = False, tx_reset_completion = False,
       queued_response = replicate UDS_MAX_RESPONSE_LENGTH 0, queued_response_length = 0,
       queued_response_pending = False, queued_reset_completion = False \<rparr>"

lemma wf_can_frame: "length d \<le> 64 \<Longrightarrow> wf_frame (can_frame i d)"
  by (simp add: can_frame_def wf_frame_def)

lemma demo_endpoint_wf: "sess \<in> {1, 2, 3} \<Longrightarrow> ep_wf (demo_endpoint sess)"
proof -
  assume "sess \<in> {1, 2, 3}"
  moreover have "tx_inv (isotp_tx_init tx_blank None 0x7E0 0x7E8)"
    by (rule tx_init_inv) (simp add: tx_blank_def isotp_tx_init_def)
  ultimately show ?thesis
    using demo_server_inv0[of sess]
    by (simp add: ep_wf_def demo_endpoint_def demo_driver_def rx_blank_def rx_init_inv)
qed

text \<open> C25.
  The endpoint is memory safe. From a successful initialisation, whatever frames arrive and however the calls are
  interleaved, no call reads or writes outside a buffer or calls a null function, and receiver, transmitter, server
  and response buffers keep their invariants; the uninitialised local event of \<open>receive\<close> may hold anything.
\<close>

theorem endpoint_safe:
  assumes "uds_isotp_endpoint_init memory config now = (True, ep)" "callbacks_ok (cfg_uds_callbacks config)"
    and "length (rx_buffer (ep_rx memory)) = ISOTP_MAX_PAYLOAD" "length (tx_buffer (ep_tx memory)) = ISOTP_MAX_PAYLOAD"
    and "length (ep_response memory) = UDS_MAX_RESPONSE_LENGTH"
    and "length (queued_response memory) = UDS_MAX_RESPONSE_LENGTH"
    and "list_all ep_ok es"
  shows "\<exists>ep'. run ep_step ep es = Some ep' \<and> ep_wf ep'"
  using init_wf[OF assms(1-6)] assms(7) by (rule epm.run_safe)

theorem endpoint_safe_witness:
  "\<exists>ep'. run ep_step (snd (uds_isotp_endpoint_init (demo_endpoint 1) (demo_driver []) 7))
     [EpReceive zero_event (can_frame 0x7E0 [2, 0x3E, 0]) 8, EpProcess 9, EpTick 10, EpTxComplete] = Some ep' \<and> ep_wf ep'"
proof -
  have init: "uds_isotp_endpoint_init (demo_endpoint 1) (demo_driver []) 7 =
      (True, snd (uds_isotp_endpoint_init (demo_endpoint 1) (demo_driver []) 7))"
    by (simp add: uds_isotp_endpoint_init_def demo_driver_def)
  show ?thesis
    by (rule endpoint_safe[OF init])
      (simp_all add: demo_driver_def demo_callbacks_ok demo_endpoint_def rx_blank_def tx_blank_def wf_can_frame
        isotp_rx_init_def isotp_tx_init_def)
qed

end
