(* ===== verification/Endpoint_Reset.thy ===== *)
theory Endpoint_Reset
  imports Endpoint
begin

text \<open>
  The reset handshake of the endpoint: from the ECUReset request over the response in the queue, in the
  pending frame and in flight to the release of the reset. The driver is seen through a log of the frames it
  accepted; every driver can be instrumented so.
\<close>

section \<open>What the server leaves pending\<close>

lemma tick_keeps_pending:
  assumes "\<not> (reset_pending s \<and> reset_ready s)" "srv_inv s"
  shows "reset_pending (snd (uds_server_tick s now)) = reset_pending s"
    "reset_ready (snd (uds_server_tick s now)) = reset_ready s"
    "pending_reset_subfunction (snd (uds_server_tick s now)) = pending_reset_subfunction s"
    "srv_context (snd (uds_server_tick s now)) = srv_context s"
  using assms
  by (auto simp: uds_server_tick_def Let_def security_tick_def security_reset_for_session_change_def)

lemma attributes_negative:
  "negative_response s request nrc response rlen = Some (result, s', response', rlen') \<Longrightarrow> s' = s"
  by (auto simp: negative_response_def split: if_splits Option.bind_splits)

lemma callback_result_server:
  "callback_result s r request response rlen = Some (result, s', response', rlen') \<Longrightarrow> s' = s"
  by (auto simp: callback_result_def split: if_splits dest: attributes_negative)

lemma take_two: "2 \<le> length xs \<Longrightarrow> take 2 xs = [xs ! 0, xs ! 1]"
  by (cases xs; cases "tl xs") (auto simp: numeral_2_eq_2)

lemma ecu_reset_marks:
  assumes "service_ecu_reset s request response rlen = Some (result, s', response', rlen')"
    and "\<not> reset_pending s" "reset_pending s'" "length request < 65536"
  shows "length request = 2 \<and> \<not> reset_ready s' \<and>
    (result = UDS_RESULT_NO_RESPONSE \<and> request ! 1 AND 0x80 \<noteq> 0 \<or>
     result = UDS_RESULT_OK \<and> (rlen' = 2 \<or> rlen' = 3) \<and> take 2 response' = [0x51, pending_reset_subfunction s'])"
  using assms
  by (auto simp: service_ecu_reset_def Let_def mark_reset_def len_simps UDS_SUPPRESS_POSITIVE_RESPONSE_def
      poke_eq_Some_iff peek_eq_Some_iff take_two nth_list_update
      split: if_splits option.splits Option.bind_splits prod.splits
      dest!: attributes_negative callback_result_server)

lemma session_reset_silent:
  assumes "uds_server_request_session s requested now = (result, s')" "\<not> reset_pending s"
  shows "\<not> response_reset_pending s'"
  using assms
  by (auto simp: uds_server_request_session_def Let_def security_tick_def security_reset_for_session_change_def
      response_reset_pending_def uds_server_reset_pending_def split: if_splits)

lemma outcome_reset:
  assumes "request_outcome s request now s'" "\<not> reset_pending s" "response_reset_pending s'"
  shows "request ! 0 = 0x11"
proof -
  have p: "reset_pending s'" using assms(3) by (simp add: response_reset_pending_def uds_server_reset_pending_def)
  have same: "\<not> same_but_context t s'" if "\<not> reset_pending t" for t
    using that p by (auto simp: same_but_context_def)
  have "\<not> security_outcome s request now s'"
    using assms(2) p same by (auto simp: security_outcome_def Let_def security_tick_def)
  then show ?thesis
    using assms(1,2) p same session_reset_silent[of s _ now] assms(3)
    unfolding request_outcome_def by (elim disjE conjE exE) (force simp: p)+
qed

lemma handled_reset:
  assumes "srv_inv s" "length request < 65536" "4 \<le> length response" "length response < 65536"
    and h: "uds_server_handle_addressed s request response rlen mode now = Some (result, s', response', rlen')"
    and "\<not> reset_pending s" "response_reset_pending s'"
  shows "length request = 2 \<and> request ! 0 = 0x11 \<and> \<not> reset_ready s' \<and>
    (result = UDS_RESULT_NO_RESPONSE \<and> request ! 1 AND 0x80 \<noteq> 0 \<or>
     result = UDS_RESULT_OK \<and> (rlen' = 2 \<or> rlen' = 3) \<and> take 2 response' = [0x51, pending_reset_subfunction s'])"
proof -
  have p: "reset_pending s'" using assms(7) by (simp add: response_reset_pending_def uds_server_reset_pending_def)
  have "request_outcome (dispatched s mode now) request now s'"
    using handled[OF assms(1-5)] assms(6) p by auto
  from outcome_reset[OF this _ assms(7)] assms(6) have sid: "request ! 0 = 0x11" by simp
  have "length request \<noteq> 0" using h p assms(6) by (auto simp: uds_server_handle_addressed_def)
  then have "peek request 0 = Some 0x11" using sid by (simp add: peek_def)
  then obtain r0 where "service_ecu_reset (dispatched s mode now) request response r0 = Some (result, s', response', rlen')"
    using h p assms(6)
    by (auto simp: uds_server_handle_addressed_def Let_def k_service_dispatch_table_def wrap_defs
        split: if_splits Option.bind_splits dest!: attributes_negative)
  from ecu_reset_marks[OF this _ p assms(2)] assms(6) sid show ?thesis by simp
qed

section \<open>Where the response is\<close>

text \<open>The response of a reset waits in the queue, waits as pending frame, or is in flight.\<close>

definition reply_queued :: "('d, 'r, 'k, 'c, 'p) UdsIsoTpEndpoint \<Rightarrow> bool" where
  "reply_queued ep \<longleftrightarrow> queued_response_pending ep \<and> queued_reset_completion ep"

definition reply_waiting :: "('d, 'r, 'k, 'c, 'p) UdsIsoTpEndpoint \<Rightarrow> bool" where
  "reply_waiting ep \<longleftrightarrow> tx_pending ep \<and> pending_reset_completion ep"

definition reply_flying :: "('d, 'r, 'k, 'c, 'p) UdsIsoTpEndpoint \<Rightarrow> bool" where
  "reply_flying ep \<longleftrightarrow> tx_in_flight ep \<and> in_flight_final ep \<and> in_flight_reset_completion ep"

text \<open>The reset was asked for and not released.\<close>

definition reset_outstanding :: "('c, 'p) UdsServer \<Rightarrow> bool" where
  "reset_outstanding s \<longleftrightarrow> response_reset_pending s \<and> \<not> reset_ready s"

text \<open>The positive response to ECUReset in a single frame.\<close>

definition reply_frame :: "u8 \<Rightarrow> IsoTpCanFrame \<Rightarrow> bool" where
  "reply_frame sub f \<longleftrightarrow> (\<exists>n. (n = 2 \<or> n = 3) \<and> take 3 (f_data f) = [n, 0x51, sub])"

text \<open>The driver's context starts with the log of the frames it accepted.\<close>

definition logs_frames :: "(IsoTpCanFrame list \<times> 'd, 'r, 'k, 'c) UdsIsoTpEndpointConfig \<Rightarrow> bool" where
  "logs_frames cfg \<longleftrightarrow>
     (\<forall>send. cfg_send_frame cfg = Some send \<longrightarrow>
        (\<forall>d f. fst (snd (send d f)) = (if fst (send d f) then fst d @ [f] else fst d))) \<and>
     (\<forall>query. cfg_tx_complete cfg = Some query \<longrightarrow> (\<forall>d. fst (snd (query d)) = fst d)) \<and>
     (\<forall>query. cfg_tx_error cfg = Some query \<longrightarrow> (\<forall>d. fst (snd (query d)) = fst d))"

lemma logs_framesD:
  assumes "logs_frames cfg"
  shows "cfg_send_frame cfg = Some send \<Longrightarrow> send d f = (sent, d') \<Longrightarrow> fst d' = (if sent then fst d @ [f] else fst d)"
    "cfg_tx_complete cfg = Some query \<Longrightarrow> query d = (b, d') \<Longrightarrow> fst d' = fst d"
    "cfg_tx_error cfg = Some query \<Longrightarrow> query d = (b, d') \<Longrightarrow> fst d' = fst d"
proof -
  assume "cfg_send_frame cfg = Some send" "send d f = (sent, d')"
  moreover from this(1) assms have "fst (snd (send d f)) = (if fst (send d f) then fst d @ [f] else fst d)"
    unfolding logs_frames_def by blast
  ultimately show "fst d' = (if sent then fst d @ [f] else fst d)" by simp
next
  assume "cfg_tx_complete cfg = Some query" "query d = (b, d')"
  moreover from this(1) assms have "fst (snd (query d)) = fst d" unfolding logs_frames_def by blast
  ultimately show "fst d' = fst d" by simp
next
  assume "cfg_tx_error cfg = Some query" "query d = (b, d')"
  moreover from this(1) assms have "fst (snd (query d)) = fst d" unfolding logs_frames_def by blast
  ultimately show "fst d' = fst d" by simp
qed

abbreviation frame_log :: "(IsoTpCanFrame list \<times> 'd, 'r, 'k, 'c, 'p) UdsIsoTpEndpoint \<Rightarrow> IsoTpCanFrame list" where
  "frame_log ep \<equiv> fst (cfg_context (ep_config ep))"

definition handshake :: "(IsoTpCanFrame list \<times> 'd, 'r, 'k, 'c, 'p) UdsIsoTpEndpoint \<Rightarrow> bool" where
  "handshake ep \<longleftrightarrow>
     logs_frames (ep_config ep) \<and>
     \<not> (tx_pending ep \<and> tx_in_flight ep) \<and>
     (tx_state (ep_tx ep) \<noteq> ISOTP_TX_STATE_IDLE \<longrightarrow> \<not> tx_reset_completion ep) \<and>
     (reply_queued ep \<longrightarrow> reset_outstanding (ep_uds ep) \<and> \<not> reply_waiting ep \<and> \<not> reply_flying ep \<and>
        (queued_response_length ep = 2 \<or> queued_response_length ep = 3) \<and>
        take 2 (queued_response ep) = [0x51, pending_reset_subfunction (ep_uds ep)]) \<and>
     (reply_waiting ep \<longrightarrow> reset_outstanding (ep_uds ep) \<and> \<not> reply_flying ep \<and> pending_frame_final ep \<and>
        reply_frame (pending_reset_subfunction (ep_uds ep)) (pending_frame ep)) \<and>
     (reply_flying ep \<longrightarrow> reset_outstanding (ep_uds ep) \<and> frame_log ep \<noteq> [] \<and>
        reply_frame (pending_reset_subfunction (ep_uds ep)) (last (frame_log ep)))"

lemmas reply_defs = reply_queued_def reply_waiting_def reply_flying_def

lemma reply_reset_event [simp]:
  "reply_queued (reset_event ep e) = reply_queued ep" "reply_waiting (reset_event ep e) = reply_waiting ep"
  "reply_flying (reset_event ep e) = reply_flying ep" "logs_frames (ep_config (reset_event ep e)) = logs_frames (ep_config ep)"
  by (simp_all add: reply_defs logs_frames_def)

lemma handshake_reset_event [simp]: "handshake (reset_event ep e) = handshake ep"
  by (simp add: handshake_def)

lemma logs_with_driver [simp]: "logs_frames (ep_config (with_driver ep d)) = logs_frames (ep_config ep)"
  by (simp add: with_driver_def logs_frames_def)

lemma reply_with_driver [simp]:
  "reply_queued (with_driver ep d) = reply_queued ep" "reply_waiting (with_driver ep d) = reply_waiting ep"
  "reply_flying (with_driver ep d) = reply_flying ep"
  by (simp_all add: reply_defs)

lemma handshake_with_driver:
  assumes "handshake ep" "fst d = frame_log ep"
  shows "handshake (with_driver ep d)"
  using assms by (simp add: handshake_def)

text \<open>Starting the response of a reset, with the other two places free.\<close>

lemma sf_reply:
  assumes "length response = UDS_MAX_RESPONSE_LENGTH" "n = 2 \<or> n = 3" "take 2 response = [0x51, sub]"
  shows "reply_frame sub (sf_frame tx response n)"
proof -
  obtain c rest where "response = 0x51 # sub # c # rest"
    using assms(1,3)
    by (cases response; cases "tl response"; cases "tl (tl response)") (auto simp: UDS_MAX_RESPONSE_LENGTH_def)
  then show ?thesis
    using assms(2) by (auto simp: reply_frame_def sf_frame_def Let_def sf_header_def numeral_3_eq_3 numeral_2_eq_2)
qed

lemma tx_start_state:
  assumes "isotp_tx_start tx payload len now frame = Some (st, tx', frame')" "st \<noteq> ISOTP_TX_FRAME_READY"
  shows "tx' = tx"
  using assms by (auto simp: isotp_tx_start_def Let_def split: if_splits Option.bind_splits)

lemma start_handshake:
  assumes hs: "handshake ep" and wf: "ep_wf ep" "length response = UDS_MAX_RESPONSE_LENGTH"
    and free: "rc \<Longrightarrow> reset_outstanding (ep_uds ep) \<and> \<not> reply_queued ep \<and> \<not> reply_waiting ep \<and> \<not> reply_flying ep \<and>
      (rlen = 2 \<or> rlen = 3) \<and> take 2 response = [0x51, pending_reset_subfunction (ep_uds ep)]"
    and start: "start_response ep response rlen rc now = Some (st, ep')"
  shows "handshake ep' \<and> ep_uds ep' = ep_uds ep"
proof (cases "tx_pending ep \<or> tx_in_flight ep \<or> isotp_tx_state (ep_tx ep) \<noteq> ISOTP_TX_STATE_IDLE")
  case True
  show ?thesis
  proof (cases "queued_response_pending ep")
    case full: True
    then have "ep' = ep" using True start by (simp add: start_response_def)
    with hs show ?thesis by simp
  next
    case False
    then obtain queued where q: "copy_loop (queued_response ep) 0 response 0 (unat rlen) = Some queued"
      and ep': "ep' = ep\<lparr> queued_response := queued, queued_response_length := rlen,
        queued_response_pending := True, queued_reset_completion := rc \<rparr>"
      using True start by (auto simp: start_response_def split: Option.bind_splits)
    have same: "reply_queued ep' = rc" "reply_waiting ep' = reply_waiting ep" "reply_flying ep' = reply_flying ep"
      by (simp_all add: ep' reply_defs)
    have "take 2 queued = [0x51, pending_reset_subfunction (ep_uds ep)]" if rc
      using q free[OF that] by (auto simp: copy_loop_Some_iff)
    then show ?thesis
      using hs free unfolding handshake_def same by (cases rc) (simp_all add: ep')
  qed
next
  case False
  then obtain tx fr where t: "isotp_tx_start (ep_tx ep) response (ucast rlen) now (pending_frame ep) = Some (st, tx, fr)"
    "ep' = (if st \<noteq> ISOTP_TX_FRAME_READY then ep\<lparr> ep_tx := tx, pending_frame := fr \<rparr>
      else ep\<lparr> ep_tx := tx, pending_frame := fr, tx_pending := True,
              pending_frame_final := (isotp_tx_state tx = ISOTP_TX_STATE_IDLE),
              pending_reset_completion := rc, tx_reset_completion := rc \<rparr>)"
    using start by (auto simp: start_response_def Let_def split: if_splits Option.bind_splits)
  have idle: "\<not> tx_pending ep" "\<not> tx_in_flight ep" "tx_state (ep_tx ep) = ISOTP_TX_STATE_IDLE"
    using False by (simp_all add: isotp_tx_state_def)
  show ?thesis
  proof (cases "st = ISOTP_TX_FRAME_READY")
    case False
    with t have ep': "ep' = ep\<lparr> ep_tx := tx, pending_frame := fr \<rparr>" by simp
    have same: "reply_queued ep' = reply_queued ep" "\<not> reply_waiting ep" "\<not> reply_waiting ep'" "\<not> reply_flying ep" "\<not> reply_flying ep'"
      using idle by (simp_all add: ep' reply_defs)
    show ?thesis
      using hs tx_start_state[OF t(1) False] idle unfolding handshake_def by (simp add: same) (simp add: ep')
  next
    case True
    have "tx_state tx = ISOTP_TX_STATE_IDLE \<and> reply_frame (pending_reset_subfunction (ep_uds ep)) fr" if "rc"
    proof -
      have n: "unat rlen = 2 \<or> unat rlen = 3" and n32: "(of_nat (unat rlen) :: u32) = ucast rlen"
        using free that by (auto simp: word_unat_eq_iff)
      have "length (tx_buffer (ep_tx ep)) = ISOTP_MAX_PAYLOAD" "unat rlen \<le> length response" "unat rlen < 4294967296"
        using wf n by (auto simp: ep_wf_def tx_inv_def UDS_MAX_RESPONSE_LENGTH_def)
      from tx_start_eq[OF this, of now "pending_frame ep", unfolded n32] t(1) True n
      have "fr = sf_frame (tx_started (ep_tx ep) response (unat rlen) now) response (unat rlen)"
        "tx_state tx = ISOTP_TX_STATE_IDLE"
        by (auto simp: fits_single_def Let_def split: if_splits)
      with sf_reply[OF wf(2) n, of _ "tx_started (ep_tx ep) response (unat rlen) now"] free that show ?thesis by simp
    qed
    note r = this
    have ep': "ep' = ep\<lparr> ep_tx := tx, pending_frame := fr, tx_pending := True,
              pending_frame_final := (isotp_tx_state tx = ISOTP_TX_STATE_IDLE),
              pending_reset_completion := rc, tx_reset_completion := rc \<rparr>"
      using t True by simp
    have same: "reply_queued ep' = reply_queued ep" "\<not> reply_waiting ep" "reply_waiting ep' = rc" "\<not> reply_flying ep" "\<not> reply_flying ep'"
      using idle by (simp_all add: ep' reply_defs)
    show ?thesis
      using hs free r idle unfolding handshake_def
      by (cases rc) (simp_all add: same, simp_all add: ep' isotp_tx_state_def)
  qed
qed

section \<open>Every call keeps the handshake\<close>

text \<open>The log ends with the response to the reset the server holds.\<close>

definition reply_sent :: "(IsoTpCanFrame list \<times> 'd, 'r, 'k, 'c, 'p) UdsIsoTpEndpoint \<Rightarrow> bool" where
  "reply_sent ep \<longleftrightarrow> frame_log ep \<noteq> [] \<and> reply_frame (pending_reset_subfunction (ep_uds ep)) (last (frame_log ep))"

text \<open>The call releases no reset, or one whose response was the last frame sent.\<close>

definition releases_after_reply ::
  "(IsoTpCanFrame list \<times> 'd, 'r, 'k, 'c, 'p) UdsIsoTpEndpoint \<Rightarrow>
   (IsoTpCanFrame list \<times> 'd, 'r, 'k, 'c, 'p) UdsIsoTpEndpoint \<Rightarrow> bool" where
  "releases_after_reply ep ep' \<longleftrightarrow> (\<not> reset_ready (ep_uds ep) \<and> reset_ready (ep_uds ep') \<longrightarrow> reply_sent ep')"

lemma complete_reset_fields [simp]:
  "reset_pending (snd (uds_server_complete_reset s)) = reset_pending s"
  "pending_reset_subfunction (snd (uds_server_complete_reset s)) = pending_reset_subfunction s"
  by (simp_all add: uds_server_complete_reset_def split: option.splits)

lemma complete_handshake:
  assumes "handshake ep"
  shows "handshake (complete_in_flight ep) \<and> releases_after_reply ep (complete_in_flight ep)"
proof (cases "reply_flying ep")
  case True
  then have f: "tx_in_flight ep" "in_flight_final ep" "in_flight_reset_completion ep" by (simp_all add: reply_flying_def)
  let ?c = "complete_in_flight ep"
  have c: "?c = (reset_event (ep\<lparr> tx_in_flight := False \<rparr>) UDS_RESET_EVENT_TX_COMPLETE)
      \<lparr> ep_uds := snd (uds_server_complete_reset (ep_uds ep)), in_flight_final := False, in_flight_reset_completion := False \<rparr>"
    using f by (simp add: complete_in_flight_def Let_def)
  have q: "\<not> reply_queued ep" "\<not> reply_waiting ep" using assms True by (auto simp: handshake_def)
  then have "\<not> reply_queued ?c" "\<not> reply_waiting ?c" "\<not> reply_flying ?c"
    by (simp_all add: c reply_defs)
  moreover have "logs_frames (ep_config ?c)" "tx_state (ep_tx ?c) = tx_state (ep_tx ep)"
    "tx_reset_completion ?c = tx_reset_completion ep" "\<not> tx_in_flight ?c" "frame_log ?c = frame_log ep"
    "pending_reset_subfunction (ep_uds ?c) = pending_reset_subfunction (ep_uds ep)"
    using assms by (simp_all add: c handshake_def logs_frames_def)
  ultimately show ?thesis
    using assms True by (simp add: handshake_def releases_after_reply_def reply_sent_def)
next
  case False
  then have c: "complete_in_flight ep = (if tx_in_flight ep
      then ep\<lparr> tx_in_flight := False, in_flight_final := False, in_flight_reset_completion := False \<rparr> else ep)"
    by (auto simp: complete_in_flight_def reply_flying_def Let_def)
  show ?thesis
  proof (cases "tx_in_flight ep")
    case True
    let ?c = "ep\<lparr> tx_in_flight := False, in_flight_final := False, in_flight_reset_completion := False \<rparr>"
    have "reply_queued ?c = reply_queued ep" "reply_waiting ?c = reply_waiting ep" "\<not> reply_flying ?c"
      by (simp_all add: reply_defs)
    with assms False True show ?thesis by (simp add: c handshake_def releases_after_reply_def)
  next
    case False
    with assms show ?thesis by (simp add: c releases_after_reply_def)
  qed
qed

lemma abort_handshake:
  assumes "handshake ep" "tx_in_flight ep"
  shows "handshake (abort_in_flight ep) \<and> releases_after_reply ep (abort_in_flight ep)"
proof -
  have "\<not> reply_queued (abort_in_flight ep)" "\<not> reply_waiting (abort_in_flight ep)" "\<not> reply_flying (abort_in_flight ep)"
    using assms by (auto simp: abort_in_flight_def reply_defs handshake_def)
  with assms show ?thesis
    by (simp add: handshake_def releases_after_reply_def)
      (simp add: abort_in_flight_def uds_server_clear_reset_def)
qed

lemma submitted_handshake:
  assumes "handshake ep" "tx_pending ep"
    and "reply_waiting ep \<Longrightarrow> fst d \<noteq> [] \<and> last (fst d) = pending_frame ep"
  shows "handshake (submitted (with_driver ep d))"
proof -
  let ?s = "submitted (with_driver ep d)"
  have idle: "\<not> reply_flying ep" using assms(1,2) by (auto simp: handshake_def reply_defs)
  have "reply_queued ?s = reply_queued ep" "\<not> reply_waiting ?s" "reply_flying ?s \<longleftrightarrow> reply_waiting ep"
    using assms by (auto simp: reply_defs handshake_def)
  moreover have "logs_frames (ep_config ?s)" using assms(1) by (simp add: handshake_def logs_frames_def)
  ultimately show ?thesis
    using assms by (simp add: handshake_def)
qed

lemma uds_same_releases: "ep_uds ep' = ep_uds ep \<Longrightarrow> releases_after_reply ep ep'"
  by (simp add: releases_after_reply_def)

lemma process_tx_pending_handshake:
  assumes hs: "handshake ep" and wf: "ep_wf ep" and tp: "tx_pending ep"
    and p: "process_tx_pending ep = Some (st, ep')"
  shows "handshake ep' \<and> releases_after_reply ep ep'"
proof -
  obtain send where send: "cfg_send_frame (ep_config ep) = Some send" using wf by (auto simp: ep_wf_def)
  obtain sent d where s: "send (cfg_context (ep_config ep)) (pending_frame ep) = (sent, d)"
    by (cases "send (cfg_context (ep_config ep)) (pending_frame ep)")
  have log: "fst d = (if sent then frame_log ep @ [pending_frame ep] else frame_log ep)"
    using logs_framesD(1)[OF _ send s] hs by (simp add: handshake_def)
  show ?thesis
  proof (cases sent)
    case False
    with p s log handshake_with_driver[OF hs, of d] show ?thesis
      by (auto simp: process_tx_pending_eq[OF send] uds_same_releases)
  next
    case True
    define e where "e = submitted (with_driver ep d)"
    have e: "handshake e" "ep_uds e = ep_uds ep"
      unfolding e_def using submitted_handshake[OF hs tp, of d] log True by simp_all
    show ?thesis
    proof (cases "cfg_tx_complete (ep_config ep)")
      case None
      with p s True have "ep' = complete_in_flight e"
        by (simp add: process_tx_pending_eq[OF send] Let_def e_def)
      with complete_handshake[OF e(1)] e(2) show ?thesis by (simp add: releases_after_reply_def)
    next
      case (Some query)
      obtain confirmed d2 where q: "query (cfg_context (ep_config e)) = (confirmed, d2)"
        by (cases "query (cfg_context (ep_config e))")
      have "fst d2 = frame_log e"
        using logs_framesD(2)[of "ep_config e" query "cfg_context (ep_config e)" confirmed d2] q e(1) Some
        by (simp add: handshake_def e_def)
      from handshake_with_driver[OF e(1) this] have e2: "handshake (with_driver e d2)" .
      have "ep' = (if confirmed then complete_in_flight (with_driver e d2) else with_driver e d2)"
        using p s True Some q by (auto simp: process_tx_pending_eq[OF send] Let_def e_def)
      with complete_handshake[OF e2] e2 e(2) show ?thesis by (simp add: releases_after_reply_def)
    qed
  qed
qed

lemma handshake_control [simp]:
  "handshake (ep\<lparr> control_pending := b \<rparr>) = handshake ep"
  "handshake (ep\<lparr> pending_control_frame := f \<rparr>) = handshake ep"
  "handshake (ep\<lparr> ep_rx := rx \<rparr>) = handshake ep"
  by (simp_all add: handshake_def reply_defs)

lemma handshake_tx:
  assumes "handshake ep" "tx_state tx \<noteq> ISOTP_TX_STATE_IDLE \<Longrightarrow> tx_state (ep_tx ep) \<noteq> ISOTP_TX_STATE_IDLE"
  shows "handshake (ep\<lparr> ep_tx := tx \<rparr>)"
    "\<not> tx_pending ep \<Longrightarrow> handshake (ep\<lparr> ep_tx := tx, pending_frame := f \<rparr>)"
  using assms by (auto simp: handshake_def reply_defs)

lemma submit_control_handshake:
  assumes "handshake ep" "ep_wf ep" "\<not> tx_in_flight ep" "submit_control ep = Some (st, e)"
  shows "handshake e \<and> ep_uds e = ep_uds ep \<and> ep_wf e \<and> \<not> tx_in_flight e"
proof (cases "control_pending ep")
  case False
  with assms show ?thesis by (simp add: submit_control_def)
next
  case True
  obtain send where send: "cfg_send_frame (ep_config ep) = Some send" using assms(2) by (auto simp: ep_wf_def)
  obtain sent d where s: "send (cfg_context (ep_config ep)) (pending_control_frame ep) = (sent, d)"
    by (cases "send (cfg_context (ep_config ep)) (pending_control_frame ep)")
  have e: "e = (if sent then (with_driver ep d)\<lparr> control_pending := False \<rparr> else with_driver ep d)"
    using assms(4) True s by (auto simp: submit_control_def send_frame_eq[OF send] split: if_splits)
  have "handshake (with_driver ep d)" using assms(1,3) by (simp add: handshake_def reply_flying_def)
  then show ?thesis using assms(2,3) by (simp add: e ep_wf_def)
qed

lemma queued_handshake:
  assumes "handshake ep" "ep_wf ep" "queued_response_pending ep" "process_queued_response ep now = Some (st, ep')"
  shows "handshake ep' \<and> ep_uds ep' = ep_uds ep"
proof -
  define e where "e = ep\<lparr> queued_response_pending := False, queued_response_length := 0, queued_reset_completion := False \<rparr>"
  have r: "\<not> reply_queued e" "reply_waiting e = reply_waiting ep" "reply_flying e = reply_flying ep" "ep_uds e = ep_uds ep"
    "queued_response e = queued_response ep"
    by (simp_all add: e_def reply_defs)
  have e: "handshake e" "ep_wf e"
    using assms(1,2) unfolding handshake_def ep_wf_def by (simp_all add: r, simp_all add: e_def)
  have "reset_outstanding (ep_uds e) \<and> \<not> reply_queued e \<and> \<not> reply_waiting e \<and> \<not> reply_flying e \<and>
      (queued_response_length ep = 2 \<or> queued_response_length ep = 3) \<and>
      take 2 (queued_response e) = [0x51, pending_reset_subfunction (ep_uds e)]" if "queued_reset_completion ep"
  proof -
    have "reply_queued ep" using assms(3) that by (simp add: reply_queued_def)
    with assms(1) show ?thesis by (simp add: handshake_def r)
  qed
  moreover have "start_response e (queued_response e) (queued_response_length ep) (queued_reset_completion ep) now = Some (st, ep')"
    using assms(4) by (simp add: process_queued_response_def Let_def e_def)
  moreover have "length (queued_response e) = UDS_MAX_RESPONSE_LENGTH" using e(2) by (simp add: ep_wf_def)
  ultimately show ?thesis using start_handshake[OF e] r(4) by metis
qed

lemma process_handshake:
  assumes hs: "handshake ep" and wf: "ep_wf ep" and p: "uds_isotp_endpoint_process ep now = Some (st, ep')"
  shows "handshake ep' \<and> releases_after_reply ep ep'"
proof (cases "tx_in_flight ep")
  case True
  show ?thesis
  proof (cases "cfg_tx_error (ep_config ep)")
    case None
    with True p hs show ?thesis by (auto simp: uds_isotp_endpoint_process_def uds_same_releases)
  next
    case (Some query)
    obtain failed d where q: "query (cfg_context (ep_config ep)) = (failed, d)"
      by (cases "query (cfg_context (ep_config ep))")
    have "fst d = frame_log ep" using logs_framesD(3)[OF _ Some q] hs by (simp add: handshake_def)
    from handshake_with_driver[OF hs this] have e: "handshake (with_driver ep d)" .
    have "ep' = (if failed then abort_in_flight (with_driver ep d) else with_driver ep d)"
      using p True Some q by (auto simp: uds_isotp_endpoint_process_def driver_query_eq split: if_splits)
    with abort_handshake[OF e] e True show ?thesis by (simp add: releases_after_reply_def)
  qed
next
  case False
  obtain st1 e where sub: "submit_control ep = Some (st1, e)"
    using p False by (auto simp: uds_isotp_endpoint_process_def split: Option.bind_splits)
  from submit_control_handshake[OF hs wf False sub]
  have e: "handshake e" "ep_uds e = ep_uds ep" "ep_wf e" "\<not> tx_in_flight e" by auto
  have rel: "releases_after_reply ep x = releases_after_reply e x" for x by (simp add: releases_after_reply_def e(2))
  have finish: "handshake ep' \<and> releases_after_reply ep ep'"
    if "handshake x" "ep_wf x" "ep_uds x = ep_uds ep"
      "(if queued_response_pending x then process_queued_response x now else Some (ISOTP_OK, x)) = Some (st, ep')" for x
    using that queued_handshake[OF that(1,2), of now st ep'] by (auto simp: uds_same_releases split: if_splits)
  consider "control_pending e \<or> st1 = ISOTP_TX_FRAME_READY" "ep' = e"
    | "tx_pending e" "process_tx_pending e = Some (st, ep')"
    | "\<not> tx_pending e" "isotp_tx_state (ep_tx e) = ISOTP_TX_STATE_IDLE"
      "(if queued_response_pending e then process_queued_response e now else Some (ISOTP_OK, e)) = Some (st, ep')"
    | "\<not> tx_pending e" "isotp_tx_state (ep_tx e) \<noteq> ISOTP_TX_STATE_IDLE"
      "(do { (status, tx, frame) \<leftarrow> isotp_tx_next (ep_tx e) now (pending_frame e);
           let ep = e\<lparr> ep_tx := tx, pending_frame := frame \<rparr>;
           (if status = ISOTP_TX_FRAME_READY
            then Some (status, ep\<lparr> tx_pending := True,
              pending_frame_final := (tx_offset (ep_tx ep) \<ge> tx_payload_len (ep_tx ep)),
              pending_reset_completion := tx_reset_completion ep \<rparr>)
            else if status \<noteq> ISOTP_COMPLETE then Some (status, ep)
            else if queued_response_pending ep then process_queued_response ep now else Some (ISOTP_OK, ep)) }) = Some (st, ep')"
    using p False sub by (auto simp: uds_isotp_endpoint_process_def Let_def split: if_splits)
  then show ?thesis
  proof cases
    case 1
    with e show ?thesis by (simp add: uds_same_releases)
  next
    case 2
    from process_tx_pending_handshake[OF e(1,3) 2] show ?thesis by (simp add: rel)
  next
    case 3
    from finish[OF e(1,3,2) 3(3)] show ?thesis .
  next
    case 4
    have busy: "tx_state (ep_tx e) \<noteq> ISOTP_TX_STATE_IDLE" using 4(2) by (simp add: isotp_tx_state_def)
    obtain st2 tx fr where n: "isotp_tx_next (ep_tx e) now (pending_frame e) = Some (st2, tx, fr)" "tx_inv tx"
      using tx_next_safe[of "ep_tx e" now "pending_frame e"] e(3) by (auto simp: ep_wf_def)
    let ?x = "e\<lparr> ep_tx := tx, pending_frame := fr \<rparr>"
    have x: "handshake ?x" "ep_wf ?x" "ep_uds ?x = ep_uds ep"
      using handshake_tx(2)[OF e(1)] busy 4(1) e(2,3) n(2) by (auto simp: ep_wf_def)
    show ?thesis
    proof (cases "st2 = ISOTP_TX_FRAME_READY")
      case True
      have norc: "\<not> tx_reset_completion e" using e(1) busy by (simp add: handshake_def)
      have ep': "ep' = ?x\<lparr> tx_pending := True,
          pending_frame_final := (tx_offset tx \<ge> tx_payload_len tx), pending_reset_completion := False \<rparr>"
        using 4(3) n(1) True norc by (simp add: Let_def)
      have r: "reply_queued ep' = reply_queued ?x" "\<not> reply_waiting ep'" "\<not> reply_waiting ?x" "reply_flying ep' = reply_flying ?x"
        using 4(1) by (simp_all add: ep' reply_defs)
      have "handshake ep'"
        using x(1) e(4) unfolding handshake_def r by (simp add: r, simp add: ep')
      then show ?thesis by (simp add: uds_same_releases ep' e(2))
    next
      case ne: False
      show ?thesis
      proof (cases "st2 = ISOTP_COMPLETE")
        case True
        with 4(3) n(1) have "(if queued_response_pending ?x then process_queued_response ?x now else Some (ISOTP_OK, ?x)) = Some (st, ep')"
          by (simp add: Let_def)
        from finish[OF x this] show ?thesis .
      next
        case False
        with 4(3) n(1) ne have "ep' = ?x" by (simp add: Let_def)
        with x show ?thesis by (simp add: uds_same_releases)
      qed
    qed
  qed
qed

text \<open>A suppressed reset request gets no response; the reset is released at once.\<close>

definition suppressed_reset :: "('c, 'p) UdsServer \<Rightarrow> bytes \<Rightarrow> bytes \<Rightarrow> bool" where
  "suppressed_reset s response request \<longleftrightarrow> length request = 2 \<and> request ! 0 = 0x11 \<and> request ! 1 AND 0x80 \<noteq> 0 \<and>
     (\<exists>mode now s' response' n. uds_server_handle_addressed s request response 0 mode now =
        Some (UDS_RESULT_NO_RESPONSE, s', response', n))"

lemma no_reply:
  assumes "handshake ep" "\<not> response_reset_pending (ep_uds ep)"
  shows "\<not> reply_queued ep" "\<not> reply_waiting ep" "\<not> reply_flying ep"
  using assms by (auto simp: handshake_def reset_outstanding_def)

lemma handle_rx_handshake:
  assumes hs: "handshake ep" and wf: "ep_wf ep" and idle: "\<not> response_reset_pending (ep_uds ep)"
    and ev: "ev_payload ev = Some buf" "unat (ev_length ev) \<le> length buf"
    and h: "handle_rx_completion ep ev mode now = Some (st, ep')"
  shows "handshake ep' \<and> (releases_after_reply ep ep' \<or> (\<exists>request. suppressed_reset (ep_uds ep) (ep_response ep) request))"
proof (cases "ev_length ev > 65535")
  case True
  with hs h show ?thesis by (auto simp: handle_rx_completion_def uds_same_releases)
next
  case False
  then have lt: "unat (ev_length ev) < 65536" by (simp add: word_less_nat_alt)
  let ?req = "take (unat (ev_length ev)) buf"
  have pre: "srv_inv (ep_uds ep)" "length ?req < 65536" "4 \<le> length (ep_response ep)" "length (ep_response ep) < 65536"
    using wf lt by (auto simp: ep_wf_def UDS_MAX_RESPONSE_LENGTH_def)
  from wpD[OF srv_inv_handle[OF pre, of 0 mode now]] obtain result uds rsp rlen where
    s: "uds_server_handle_addressed (ep_uds ep) ?req (ep_response ep) 0 mode now = Some (result, uds, rsp, rlen)"
      "srv_inv uds" "length rsp = length (ep_response ep)"
    by (auto simp: answered_def)
  define rc where "rc = (\<not> uds_server_reset_pending (ep_uds ep) \<and> response_reset_pending uds)"
  have rc: "length ?req = 2 \<and> ?req ! 0 = 0x11 \<and> \<not> reset_ready uds \<and>
      (result = UDS_RESULT_NO_RESPONSE \<and> ?req ! 1 AND 0x80 \<noteq> 0 \<or>
       result = UDS_RESULT_OK \<and> (rlen = 2 \<or> rlen = 3) \<and> take 2 rsp = [0x51, pending_reset_subfunction uds])" if rc
    using handled_reset[OF pre s(1)] that by (simp add: rc_def uds_server_reset_pending_def)
  define e where "e = answered_ep ep uds rsp rc"
  note none = no_reply[OF hs idle]
  have r: "\<not> reply_queued e" "\<not> reply_waiting e" "\<not> reply_flying e"
    using none by (simp_all add: e_def reply_defs)
  have e: "handshake e" "ep_wf e" "ep_uds e = uds" "ep_response e = rsp"
    using hs wf s r by (auto simp: handshake_def ep_wf_def e_def logs_frames_def)
  have ready: "releases_after_reply ep x" if "ep_uds x = uds" for x
  proof -
    have "srv_step (ep_uds ep) (SrvRequest ?req (ep_response ep) mode now) = Some uds" using s(1) by simp
    from step_keeps_not_ready[OF pre(1) _ _ _ this] pre that show ?thesis by (auto simp: releases_after_reply_def)
  qed
  let ?c = "e\<lparr> ep_uds := snd (uds_server_complete_reset uds) \<rparr>"
  have c: "handshake ?c"
  proof -
    have "\<not> reply_queued ?c" "\<not> reply_waiting ?c" "\<not> reply_flying ?c" using r by (simp_all add: reply_defs)
    with e(1) show ?thesis by (simp add: handshake_def)
  qed
  have eq: "handle_rx_completion ep ev mode now =
    (if result = UDS_RESULT_NO_RESPONSE then
       Some (ISOTP_COMPLETE,
         if \<not> rc then e
         else if fst (uds_server_complete_reset uds) = UDS_RESULT_OK
         then reset_event ?c UDS_RESET_EVENT_EXECUTED else ?c)
     else if result \<noteq> UDS_RESULT_OK \<or> rlen = 0 then Some (ISOTP_ERR_STATE, e)
     else start_response (if rc then reset_event e UDS_RESET_EVENT_RESPONSE_READY else e) rsp rlen rc now)"
    unfolding handle_rx_eq[OF lt ev s(1)] Let_def rc_def[symmetric] e_def[symmetric] ..
  have start: "handshake ep' \<and> ep_uds ep' = uds"
    if "handshake x" "ep_wf x" "ep_uds x = uds" "\<not> reply_queued x" "\<not> reply_waiting x" "\<not> reply_flying x"
      "result = UDS_RESULT_OK" "start_response x rsp rlen rc now = Some (st, ep')" for x
  proof -
    have "length rsp = UDS_MAX_RESPONSE_LENGTH" using wf s(3) by (simp add: ep_wf_def)
    from start_handshake[OF that(1,2) this _ that(8)] that rc show ?thesis
      by (auto simp: rc_def reset_outstanding_def)
  qed
  have wfe: "ep_wf (reset_event e x) = ep_wf e" for x by (simp add: ep_wf_def)
  have "ep_uds ep' = uds \<and> handshake ep'" if "\<not> (result = UDS_RESULT_NO_RESPONSE \<and> rc)"
  proof (cases "result = UDS_RESULT_OK \<and> rlen \<noteq> 0")
    case True
    define x where "x = (if rc then reset_event e UDS_RESET_EVENT_RESPONSE_READY else e)"
    have "start_response x rsp rlen rc now = Some (st, ep')" using h True unfolding eq x_def by simp
    moreover have "handshake x" "ep_wf x" "ep_uds x = uds" "\<not> reply_queued x" "\<not> reply_waiting x" "\<not> reply_flying x"
      using e r by (simp_all add: x_def wfe)
    ultimately show ?thesis using start[of x] True by blast
  next
    case False
    then have "ep' = e" using h that unfolding eq by (simp split: if_splits)
    with e show ?thesis by simp
  qed
  then consider "result = UDS_RESULT_NO_RESPONSE" rc | "ep_uds ep' = uds" "handshake ep'" by blast
  then show ?thesis
  proof cases
    case 1
    then have "suppressed_reset (ep_uds ep) (ep_response ep) ?req"
      unfolding suppressed_reset_def using rc s(1) by blast
    moreover have "handshake ep'" using h 1 c unfolding eq by (auto split: if_splits)
    ultimately show ?thesis by blast
  next
    case 2
    with ready show ?thesis by blast
  qed
qed

lemma feed_flow_control_state:
  "tx_state (snd (isotp_tx_feed_flow_control tx f now)) \<noteq> ISOTP_TX_STATE_IDLE \<Longrightarrow> tx_state tx \<noteq> ISOTP_TX_STATE_IDLE"
  by (auto simp: isotp_tx_feed_flow_control_def tx_validate_fc_frame_def Let_def split: if_splits option.splits prod.splits)

lemma receive_handshake:
  assumes hs: "handshake ep" and wf: "ep_wf ep" "wf_frame frame"
    and r: "uds_isotp_endpoint_receive junk ep frame now = Some (st, ep')"
  shows "handshake ep' \<and> (releases_after_reply ep ep' \<or> (\<exists>request. suppressed_reset (ep_uds ep) (ep_response ep) request))"
proof -
  define nf where "nf = (if frame_is_functional ep frame then frame\<lparr> f_can_id := cfg_request_id (ep_config ep) \<rparr> else frame)"
  have nf: "wf_frame nf" "rx_inv (ep_rx ep)" using wf by (simp_all add: nf_def wf_frame_def ep_wf_def)
  from rx_feed_inv[OF nf(2,1), of now junk] obtain st1 rx ev where
    f: "isotp_rx_feed (ep_rx ep) nf now junk = Some (st1, rx, ev)" "rx_inv rx" by blast
  define e where "e = (if ev_has_flow_control ev then snd (queue_control_frame (ep\<lparr> ep_rx := rx \<rparr>) (ev_flow_control ev))
    else ep\<lparr> ep_rx := rx \<rparr>)"
  have e: "handshake e" "ep_wf e" "ep_uds e = ep_uds ep" "ep_response e = ep_response ep"
    using hs wf(1) f(2) by (simp_all add: e_def queue_control_frame_def ep_wf_def)
  have rel: "releases_after_reply e x = releases_after_reply ep x" for x by (simp add: releases_after_reply_def e(3))
  consider (refused) "ep' = ep" | (flow) "ep' = ep\<lparr> ep_tx := snd (isotp_tx_feed_flow_control (ep_tx ep) frame now) \<rparr>"
    | (fed) "f_dlc frame \<noteq> 0" "\<not> is_flow_control_for_endpoint ep frame" "\<not> response_reset_pending (ep_uds ep)"
      "\<not> (frame_is_functional ep frame \<and> drop_bit 4 (f_data frame ! 0) \<noteq> 0)"
    using r by (auto simp: uds_isotp_endpoint_receive_def Let_def[of "frame_is_functional ep frame"] split: if_splits prod.splits)
  then show ?thesis
  proof cases
    case refused
    with hs show ?thesis by (simp add: uds_same_releases)
  next
    case flow
    have "handshake ep'"
      unfolding flow by (rule handshake_tx(1)[OF hs]) (rule feed_flow_control_state)
    then show ?thesis by (simp add: flow uds_same_releases)
  next
    case fed
    define mode where "mode = (if frame_is_functional ep frame then UDS_ADDRESS_FUNCTIONAL else UDS_ADDRESS_PHYSICAL)"
    have "uds_isotp_endpoint_receive junk ep frame now =
      (if ev_has_flow_control ev \<and> control_pending ep then Some (ISOTP_ERR_STATE, e)
       else if st1 \<noteq> ISOTP_COMPLETE then Some (st1, e) else handle_rx_completion e ev mode now)"
      using fed f(1)
      by (simp add: uds_isotp_endpoint_receive_def Let_def e_def mode_def queue_control_frame_def flip: nf_def)
    then consider "ep' = e" | "st1 = ISOTP_COMPLETE" "handle_rx_completion e ev mode now = Some (st, ep')"
      using r by (auto split: if_splits)
    then show ?thesis
    proof cases
      case 1
      with e show ?thesis by (simp add: uds_same_releases)
    next
      case 2
      from rx_feed_message[OF nf(2,1)] f(1) 2(1) obtain buf where
        "ev_payload ev = Some buf" "unat (ev_length ev) \<le> length buf" by blast
      from handle_rx_handshake[OF e(1,2) _ this 2(2)] fed(3) show ?thesis by (simp add: e rel)
    qed
  qed
qed

lemma tick_handshake:
  assumes hs: "handshake ep" and wf: "ep_wf ep"
  shows "handshake (snd (uds_isotp_endpoint_tick ep now)) \<and> releases_after_reply ep (snd (uds_isotp_endpoint_tick ep now))"
proof -
  let ?s = "ep_uds ep" let ?t = "snd (uds_server_tick ?s now)"
  define e where "e = ep\<lparr> ep_rx := snd (isotp_rx_tick (ep_rx ep) now), ep_tx := snd (isotp_tx_tick (ep_tx ep) now), ep_uds := ?t \<rparr>"
  have tick: "snd (uds_isotp_endpoint_tick ep now) = (if uds_server_reset_pending ?s \<and> \<not> uds_server_reset_pending ?t
      then reset_event e UDS_RESET_EVENT_EXECUTED else e)"
    by (simp add: uds_isotp_endpoint_tick_def Let_def case_prod_beta e_def)
  have srv: "srv_inv ?s" using wf by (simp add: ep_wf_def)
  have r: "reply_queued e = reply_queued ep" "reply_waiting e = reply_waiting ep" "reply_flying e = reply_flying ep"
    by (simp_all add: e_def reply_defs)
  have st: "tx_state (snd (isotp_tx_tick (ep_tx ep) now)) \<noteq> ISOTP_TX_STATE_IDLE \<Longrightarrow> tx_state (ep_tx ep) \<noteq> ISOTP_TX_STATE_IDLE"
    by (auto simp: isotp_tx_tick_def split: if_splits)
  have e: "handshake e \<and> \<not> (\<not> reset_ready ?s \<and> reset_ready ?t)"
  proof (cases "reset_pending ?s \<and> reset_ready ?s")
    case True
    then have "\<not> reply_queued ep" "\<not> reply_waiting ep" "\<not> reply_flying ep"
      using hs by (auto simp: handshake_def reset_outstanding_def)
    with hs True st show ?thesis unfolding handshake_def r by (simp add: r) (simp add: e_def)
  next
    case False
    from tick_keeps_pending[OF this srv, of now]
    have "reset_outstanding ?t = reset_outstanding ?s" "pending_reset_subfunction ?t = pending_reset_subfunction ?s"
      "reset_ready ?t = reset_ready ?s"
      by (simp_all add: reset_outstanding_def response_reset_pending_def uds_server_reset_pending_def)
    with hs st show ?thesis unfolding handshake_def r by (simp add: e_def)
  qed
  have "ep_uds e = ?t" by (simp add: e_def)
  with e show ?thesis unfolding tick by (auto simp: releases_after_reply_def)
qed

fun released_by :: "('d, 'r, 'k, 'c, 'p) UdsIsoTpEndpoint \<Rightarrow> ep_event \<Rightarrow> bool" where
  "released_by ep (EpReceive junk frame now) = (\<exists>request. suppressed_reset (ep_uds ep) (ep_response ep) request)"
| "released_by ep _ = False"

lemma step_handshake:
  assumes "handshake ep" "ep_wf ep" "ep_ok e" "ep_step ep e = Some ep'"
  shows "handshake ep' \<and> (releases_after_reply ep ep' \<or> released_by ep e)"
proof (cases e)
  case (EpReceive junk frame now)
  with assms receive_handshake[OF assms(1,2), of frame junk now] show ?thesis by auto
next
  case (EpProcess now)
  with assms process_handshake[OF assms(1,2), of now] show ?thesis by auto
next
  case (EpTick now)
  with assms tick_handshake[OF assms(1,2), of now] show ?thesis by auto
next
  case EpTxComplete
  with assms complete_handshake[OF assms(1)] show ?thesis by (auto simp: uds_isotp_endpoint_tx_complete_def)
qed

lemma ep_handshake_safe:
  assumes "handshake ep \<and> ep_wf ep" "ep_ok e"
  shows "\<exists>ep'. ep_step ep e = Some ep' \<and> handshake ep' \<and> ep_wf ep'"
  using ep_step_safe[of ep e] step_handshake[of ep e] assms by blast

interpretation eph: machine ep_step ep_ok "\<lambda>ep. handshake ep \<and> ep_wf ep"
  by unfold_locales (rule ep_handshake_safe)

lemma init_handshake:
  assumes "uds_isotp_endpoint_init memory config now = (True, ep)" "logs_frames config"
  shows "handshake ep"
  using assms
  by (auto simp: uds_isotp_endpoint_init_def handshake_def reply_defs isotp_tx_init_def split: if_splits)


end
