(* ===== verification/Endpoint_Service.thy ===== *)
theory Endpoint_Service
  imports Endpoint_Reset
begin

text \<open>
  The endpoint serves requests: a request in a single frame reaches the server unchanged and its short response
  reaches the driver unchanged. And the state in which it serves none any more: a reset that was already pending
  when the reset request came is never released.
\<close>

section \<open>Single frames\<close>

definition carries :: "IsoTpCanFrame \<Rightarrow> bytes \<Rightarrow> bool" where
  "carries f m \<longleftrightarrow> 1 \<le> length m \<and> length m \<le> 7 \<and> length m + 1 \<le> unat (f_dlc f) \<and>
     take (length m + 1) (f_data f) = of_nat (length m) # m"

lemma small_length_byte:
  assumes "1 \<le> n" "n \<le> 7"
  shows "(of_nat n :: u8) AND 15 = of_nat n" "(of_nat n :: u8) \<noteq> 0" "drop_bit 4 (of_nat n :: u8) = 0"
    "unat (of_nat n :: u8) = n"
proof -
  have "n = 1 \<or> n = 2 \<or> n = 3 \<or> n = 4 \<or> n = 5 \<or> n = 6 \<or> n = 7" using assms by linarith
  then show "(of_nat n :: u8) AND 15 = of_nat n" "(of_nat n :: u8) \<noteq> 0" "drop_bit 4 (of_nat n :: u8) = 0"
    "unat (of_nat n :: u8) = n"
    by (elim disjE; simp)+
qed

lemma carries_data:
  assumes "carries f m"
  shows "f_data f ! 0 = of_nat (length m)" "take (length m) (drop 1 (f_data f)) = m"
proof -
  show "f_data f ! 0 = of_nat (length m)"
    using assms by (metis carries_def nth_Cons_0 nth_take less_Suc_eq_0_disj Suc_eq_plus1)
  have "take (length m) (drop 1 (f_data f)) = drop 1 (take (length m + 1) (f_data f))" by (simp add: drop_take)
  then show "take (length m) (drop 1 (f_data f)) = m" using assms by (simp add: carries_def)
qed

lemma feed_single:
  assumes "rx_inv rx" "wf_frame f" "frame_valid (rx_config rx) f" "f_can_id f = rx_request_id rx" "carries f m"
  shows "\<exists>rx' ev buf. isotp_rx_feed rx f now junk = Some (ISOTP_COMPLETE, rx', ev) \<and> ev_payload ev = Some buf \<and>
    unat (ev_length ev) = length m \<and> length m \<le> length buf \<and> take (length m) buf = m \<and> \<not> ev_has_flow_control ev \<and>
    rx_request_id rx' = rx_request_id rx \<and> rx_config rx' = rx_config rx"
proof -
  let ?rx0 = "enter_pdu rx f" let ?e = "clear_event junk (is_unexpected_n_pdu rx (pdu_type f))"
  have m: "1 \<le> length m" "length m \<le> 7" "length m + 1 \<le> unat (f_dlc f)" using assms(5) by (simp_all add: carries_def)
  note b = small_length_byte[OF m(1,2)] and d = carries_data[OF assms(5)]
  have type: "pdu_type f = 0" by (simp add: pdu_type_def d b)
  have sf: "decode_sf f = Some (of_nat (length m), 1)"
  proof -
    have "(ucast (of_nat (length m) :: u8) :: u32) = of_nat (length m)"
      using m(2) by (simp add: word_unat_eq_iff unat_of_nat_32 b(4))
    then show ?thesis using b by (simp add: decode_sf_def d(1) Let_def)
  qed
  have i: "rx_inv ?rx0" "frame_valid (rx_config ?rx0) f" using assms(1,3) by simp_all
  have u: "unat (of_nat (length m) :: u32) = length m" using m(2) by (simp add: unat_of_nat_32)
  have "isotp_rx_feed rx f now junk = rx_single ?rx0 f ?e"
    using assms(3,4) type by (simp add: rx_feed_dispatch Let_def)
  then show ?thesis
    using m d(2) i(1)
    by (simp add: rx_single_eq[OF i(1) assms(2) i(2)] sf u Let_def rx_inv_def)
qed

definition addressed :: "('d, 'r, 'k, 'c, 'p) UdsIsoTpEndpoint \<Rightarrow> IsoTpCanFrame \<Rightarrow> UdsAddressMode \<Rightarrow> bool" where
  "addressed ep f mode \<longleftrightarrow>
     mode = UDS_ADDRESS_PHYSICAL \<and> f_can_id f = cfg_request_id (ep_config ep) \<and> \<not> frame_is_functional ep f \<or>
     mode = UDS_ADDRESS_FUNCTIONAL \<and> frame_is_functional ep f"

lemma frame_valid_id [simp]: "frame_valid cfg (f\<lparr> f_can_id := i \<rparr>) = frame_valid cfg f"
  by (simp add: frame_valid_def)

lemma receive_single:
  assumes "ep_wf ep" "rx_request_id (ep_rx ep) = cfg_request_id (ep_config ep)"
    and "wf_frame f" "frame_valid (rx_config (ep_rx ep)) f" "carries f m" "addressed ep f mode"
    and "\<not> response_reset_pending (ep_uds ep)"
  shows "\<exists>rx' ev buf. uds_isotp_endpoint_receive junk ep f now = handle_rx_completion (ep\<lparr> ep_rx := rx' \<rparr>) ev mode now \<and>
    ev_payload ev = Some buf \<and> unat (ev_length ev) = length m \<and> length m \<le> length buf \<and> take (length m) buf = m \<and>
    rx_request_id rx' = rx_request_id (ep_rx ep) \<and> rx_config rx' = rx_config (ep_rx ep) \<and> rx_inv rx'"
proof -
  have m: "1 \<le> length m" "length m \<le> 7" "length m + 1 \<le> unat (f_dlc f)" using assms(5) by (simp_all add: carries_def)
  note b = small_length_byte[OF m(1,2)] and d = carries_data[OF assms(5)]
  have dlc: "f_dlc f \<noteq> 0" using m(3) by auto
  have nofc: "\<not> is_flow_control_for_endpoint ep f" by (simp add: is_flow_control_for_endpoint_def d(1) b(3))
  define nf where "nf = (if frame_is_functional ep f then f\<lparr> f_can_id := cfg_request_id (ep_config ep) \<rparr> else f)"
  have "frame_valid (rx_config (ep_rx ep)) nf" using assms(4) by (simp add: nf_def)
  moreover have "wf_frame nf" "carries nf m" using assms(3,5) by (simp_all add: nf_def wf_frame_def carries_def)
  moreover have "f_can_id nf = rx_request_id (ep_rx ep)" using assms(2,6) by (auto simp: nf_def addressed_def)
  moreover have rxi: "rx_inv (ep_rx ep)" using assms(1) by (simp add: ep_wf_def)
  ultimately obtain rx' ev buf where
    feed: "isotp_rx_feed (ep_rx ep) nf now junk = Some (ISOTP_COMPLETE, rx', ev)" "\<not> ev_has_flow_control ev"
    and ev: "ev_payload ev = Some buf" "unat (ev_length ev) = length m" "length m \<le> length buf" "take (length m) buf = m"
      "rx_request_id rx' = rx_request_id (ep_rx ep)" "rx_config rx' = rx_config (ep_rx ep)"
    using feed_single[of "ep_rx ep" nf m now junk] by blast
  have "rx_inv rx'" using rx_feed_inv[OF rxi \<open>wf_frame nf\<close>, of now junk] feed(1) by simp
  moreover have "mode = (if frame_is_functional ep f then UDS_ADDRESS_FUNCTIONAL else UDS_ADDRESS_PHYSICAL)"
    using assms(6) by (auto simp: addressed_def)
  then have "uds_isotp_endpoint_receive junk ep f now = handle_rx_completion (ep\<lparr> ep_rx := rx' \<rparr>) ev mode now"
    using feed assms(7) dlc nofc by (simp add: uds_isotp_endpoint_receive_def Let_def d(1) b(3) flip: nf_def)
  ultimately show ?thesis using ev by blast
qed

text \<open>The server answers the request and the transmitter takes the response.\<close>

definition handed_over ::
  "('d, 'r, 'k, 'c, 'p) UdsIsoTpEndpoint \<Rightarrow> ('c, 'p) UdsServer \<Rightarrow> ('d, 'r, 'k, 'c, 'p) UdsIsoTpEndpoint \<Rightarrow> bool" where
  "handed_over ep uds e \<longleftrightarrow>
     ep_wf e \<and> ep_uds e = uds \<and> ep_tx e = ep_tx ep \<and> tx_pending e = tx_pending ep \<and> tx_in_flight e = tx_in_flight ep \<and>
     control_pending e = control_pending ep \<and> queued_response_pending e = queued_response_pending ep \<and>
     cfg_context (ep_config e) = cfg_context (ep_config ep) \<and> cfg_send_frame (ep_config e) = cfg_send_frame (ep_config ep) \<and>
     cfg_tx_complete (ep_config e) = cfg_tx_complete (ep_config ep) \<and>
     cfg_tx_error (ep_config e) = cfg_tx_error (ep_config ep) \<and>
     cfg_request_id (ep_config e) = cfg_request_id (ep_config ep) \<and>
     cfg_functional_request_id (ep_config e) = cfg_functional_request_id (ep_config ep) \<and>
     rx_request_id (ep_rx e) = rx_request_id (ep_rx ep) \<and> rx_config (ep_rx e) = rx_config (ep_rx ep)"

lemma answered_ep_functional [simp]:
  "cfg_functional_request_id (ep_config (answered_ep ep uds rsp rc)) = cfg_functional_request_id (ep_config ep)"
  by (simp add: answered_ep_def Let_def)

lemma receive_served:
  assumes "ep_wf ep" "rx_request_id (ep_rx ep) = cfg_request_id (ep_config ep)"
    and "wf_frame f" "frame_valid (rx_config (ep_rx ep)) f" "carries f request" "addressed ep f mode"
    and "\<not> response_reset_pending (ep_uds ep)"
    and "uds_server_handle_addressed (ep_uds ep) request (ep_response ep) 0 mode now = Some (UDS_RESULT_OK, uds, rsp, rlen)"
    and "rlen \<noteq> 0"
  shows "\<exists>e. uds_isotp_endpoint_receive junk ep f now =
      start_response e rsp rlen (\<not> uds_server_reset_pending (ep_uds ep) \<and> response_reset_pending uds) now \<and> handed_over ep uds e"
proof -
  obtain rx' ev buf where r: "uds_isotp_endpoint_receive junk ep f now = handle_rx_completion (ep\<lparr> ep_rx := rx' \<rparr>) ev mode now"
    and ev: "ev_payload ev = Some buf" "unat (ev_length ev) = length request" "length request \<le> length buf"
      "take (length request) buf = request"
      "rx_request_id rx' = rx_request_id (ep_rx ep)" "rx_config rx' = rx_config (ep_rx ep)" "rx_inv rx'"
    using receive_single[OF assms(1-7), of junk now] by blast
  let ?ep = "ep\<lparr> ep_rx := rx' \<rparr>"
  have h: "uds_server_handle_addressed (ep_uds ?ep) (take (unat (ev_length ev)) buf) (ep_response ?ep) 0 mode now =
      Some (UDS_RESULT_OK, uds, rsp, rlen)" using assms(8) ev(2,4) by simp
  have lens: "unat (ev_length ev) < 65536" "unat (ev_length ev) \<le> length buf"
    using assms(5) ev(2,3) by (simp_all add: carries_def)
  define rc where "rc = (\<not> uds_server_reset_pending (ep_uds ep) \<and> response_reset_pending uds)"
  define e where "e = (if rc then reset_event (answered_ep ?ep uds rsp rc) UDS_RESET_EVENT_RESPONSE_READY
    else answered_ep ?ep uds rsp rc)"
  have "uds_isotp_endpoint_receive junk ep f now = start_response e rsp rlen rc now"
    using assms(9) unfolding r handle_rx_eq[OF lens(1) ev(1) lens(2) h] e_def rc_def by (simp add: Let_def)
  moreover have "ep_wf e"
  proof -
    have "srv_inv (ep_uds ep)" "length request < 65536" "4 \<le> length (ep_response ep)" "length (ep_response ep) < 65536"
      using assms(1,5) by (auto simp: ep_wf_def UDS_MAX_RESPONSE_LENGTH_def carries_def)
    from wp_SomeD[OF srv_inv_handle[OF this, of 0 mode now] assms(8)] assms(1) ev(7) show ?thesis
      by (simp add: e_def ep_wf_def answered_def)
  qed
  ultimately show ?thesis
    using ev(5,6) by (intro exI[of _ e]) (simp add: handed_over_def e_def rc_def[symmetric])
qed

section \<open>From the request to the response\<close>

lemma sf_frame_carries:
  assumes "1 \<le> n" "n \<le> 7" "n \<le> length response" "valid_tx_config (tx_config tx)"
  shows "carries (sf_frame tx response n) (take n response)"
proof -
  have h: "sf_header (tx_config tx) n = [of_nat n]" using assms(2) by (simp add: sf_header_def)
  have "Suc n \<le> unat (fd_dl_for_length (of_nat (Suc n)))"
    using fd_dl_for_length_ge[of "of_nat (Suc n)"] assms(2) by (simp add: unat_of_nat_32 del: of_nat_Suc)
  moreover have "unat (of_nat (Suc n) :: u8) = Suc n" using assms(2) by (simp add: unat_of_nat_8 del: of_nat_Suc)
  ultimately have "Suc n \<le> unat (f_dlc (sf_frame tx response n))"
    using assms(2) by (auto simp: sf_frame_def Let_def h simp del: of_nat_Suc)
  then show ?thesis
    using assms by (simp add: carries_def sf_frame_def Let_def h min_def)
qed

lemma complete_in_flight_context [simp]: "cfg_context (ep_config (complete_in_flight ep)) = cfg_context (ep_config ep)"
  by (simp add: complete_in_flight_def Let_def)

definition accepts_frames :: "('d, 'r, 'k, 'c) UdsIsoTpEndpointConfig \<Rightarrow> bool" where
  "accepts_frames cfg \<longleftrightarrow> (\<forall>send d f. cfg_send_frame cfg = Some send \<longrightarrow> fst (send d f))"

text \<open>Nothing of an earlier answer is left to send.\<close>

definition ready_to_serve :: "('d, 'r, 'k, 'c, 'p) UdsIsoTpEndpoint \<Rightarrow> bool" where
  "ready_to_serve ep \<longleftrightarrow> rx_request_id (ep_rx ep) = cfg_request_id (ep_config ep) \<and>
     valid_tx_config (tx_config (ep_tx ep)) \<and> tx_state (ep_tx ep) = ISOTP_TX_STATE_IDLE \<and>
     \<not> tx_pending ep \<and> \<not> tx_in_flight ep \<and> \<not> control_pending ep \<and> \<not> response_reset_pending (ep_uds ep)"

definition confirms_frames :: "('d, 'r, 'k, 'c) UdsIsoTpEndpointConfig \<Rightarrow> bool" where
  "confirms_frames cfg \<longleftrightarrow> (\<forall>query d. cfg_tx_complete cfg = Some query \<longrightarrow> fst (query d))"

lemma serve_steps:
  assumes "ep_wf ep" "ready_to_serve ep" "logs_frames (ep_config ep)" "accepts_frames (ep_config ep)"
    and "wf_frame f" "frame_valid (rx_config (ep_rx ep)) f" "carries f request" "addressed ep f mode"
    and "uds_server_handle_addressed (ep_uds ep) request (ep_response ep) 0 mode now = Some (UDS_RESULT_OK, uds, rsp, rlen)"
    and "1 \<le> unat rlen" "unat rlen \<le> 7"
  defines "rc \<equiv> \<not> uds_server_reset_pending (ep_uds ep) \<and> response_reset_pending uds"
  shows "\<exists>ep1 ep2 g. uds_isotp_endpoint_receive junk ep f now = Some (ISOTP_TX_FRAME_READY, ep1) \<and> ep_uds ep1 = uds \<and>
    uds_isotp_endpoint_process ep1 later = Some (ISOTP_TX_FRAME_READY, ep2) \<and> frame_log ep2 = frame_log ep @ [g] \<and>
    f_can_id g = tx_response_id (ep_tx ep) \<and> carries g (take (unat rlen) rsp) \<and>
    (confirms_frames (ep_config ep) \<longrightarrow> ep_uds ep2 = (if rc then snd (uds_server_complete_reset uds) else uds))"
proof -
  have rd: "rx_request_id (ep_rx ep) = cfg_request_id (ep_config ep)" "valid_tx_config (tx_config (ep_tx ep))"
    "tx_state (ep_tx ep) = ISOTP_TX_STATE_IDLE" "\<not> tx_pending ep" "\<not> tx_in_flight ep" "\<not> control_pending ep"
    "\<not> response_reset_pending (ep_uds ep)"
    using assms(2) by (simp_all add: ready_to_serve_def)
  have "rlen \<noteq> 0" using assms(10) by auto
  from receive_served[OF assms(1) rd(1) assms(5-8) rd(7) assms(9) this, of junk] obtain e where
    r: "uds_isotp_endpoint_receive junk ep f now = start_response e rsp rlen rc now" and ho: "handed_over ep uds e"
    unfolding rc_def[symmetric] by blast
  have e: "ep_wf e" "ep_uds e = uds" "ep_tx e = ep_tx ep" "\<not> tx_pending e" "\<not> tx_in_flight e" "\<not> control_pending e"
      "cfg_context (ep_config e) = cfg_context (ep_config ep)" "cfg_send_frame (ep_config e) = cfg_send_frame (ep_config ep)"
      "cfg_tx_complete (ep_config e) = cfg_tx_complete (ep_config ep)"
    using ho rd by (simp_all add: handed_over_def)
  define n where "n = unat rlen"
  have n: "1 \<le> n" "n \<le> 7" "(of_nat n :: u32) = ucast rlen" using assms(10,11) by (simp_all add: n_def word_unat_eq_iff)
  have rsp: "length rsp = UDS_MAX_RESPONSE_LENGTH"
  proof -
    have "srv_inv (ep_uds ep)" "length request < 65536" "4 \<le> length (ep_response ep)" "length (ep_response ep) < 65536"
      using assms(1,7) by (auto simp: ep_wf_def UDS_MAX_RESPONSE_LENGTH_def carries_def)
    from wp_SomeD[OF srv_inv_handle[OF this, of 0 mode now] assms(9)] assms(1) show ?thesis
      by (simp add: ep_wf_def answered_def)
  qed
  let ?started = "tx_started (ep_tx e) rsp n now"
  let ?g = "sf_frame ?started rsp n"
  have "length (tx_buffer (ep_tx e)) = ISOTP_MAX_PAYLOAD" "n \<le> length rsp" "n < 4294967296"
    using e(1) n rsp by (auto simp: ep_wf_def tx_inv_def UDS_MAX_RESPONSE_LENGTH_def)
  note start = tx_start_eq[OF this, of now "pending_frame e", unfolded n(3)]
  have start: "isotp_tx_start (ep_tx e) rsp (ucast rlen) now (pending_frame e) =
      Some (ISOTP_TX_FRAME_READY, isotp_tx_reset ?started, ?g)"
    using n rd(2) by (simp add: start[unfolded e(3)] e(3) fits_single_def Let_def ISOTP_MAX_PAYLOAD_def)
  define ep1 where "ep1 = e\<lparr> ep_tx := isotp_tx_reset ?started, pending_frame := ?g, tx_pending := True,
    pending_frame_final := True, pending_reset_completion := rc, tx_reset_completion := rc \<rparr>"
  have r1: "uds_isotp_endpoint_receive junk ep f now = Some (ISOTP_TX_FRAME_READY, ep1)"
    using e rd(3) start unfolding r by (simp add: start_response_def ep1_def isotp_tx_state_def Let_def)
  obtain send where send: "cfg_send_frame (ep_config ep) = Some send" using assms(1) by (auto simp: ep_wf_def)
  obtain d where d: "send (cfg_context (ep_config ep)) ?g = (True, d)"
    using assms(4) send unfolding accepts_frames_def by (metis (full_types) prod.collapse)
  have log: "fst d = frame_log ep @ [?g]" using logs_framesD(1)[OF assms(3) send d] by simp
  have f1: "cfg_send_frame (ep_config ep1) = Some send" "cfg_context (ep_config ep1) = cfg_context (ep_config ep)"
    "pending_frame ep1 = ?g" "tx_pending ep1" "\<not> tx_in_flight ep1" "\<not> control_pending ep1" "ep_uds ep1 = uds"
    "cfg_tx_complete (ep_config ep1) = cfg_tx_complete (ep_config ep)"
    using e send by (simp_all add: ep1_def)
  have p: "uds_isotp_endpoint_process ep1 later = process_tx_pending ep1"
    using f1 by (simp add: uds_isotp_endpoint_process_def submit_control_def Let_def)
  have done_uds: "ep_uds (complete_in_flight (with_driver (submitted (with_driver ep1 d)) x)) =
      (if rc then snd (uds_server_complete_reset uds) else uds)" for x
    using f1(7) by (simp add: complete_in_flight_def Let_def) (simp add: ep1_def)
  have done_uds': "ep_uds (complete_in_flight (submitted (with_driver ep1 d))) =
      (if rc then snd (uds_server_complete_reset uds) else uds)"
    using f1(7) by (simp add: complete_in_flight_def Let_def) (simp add: ep1_def)
  obtain ep2 where ep2: "process_tx_pending ep1 = Some (ISOTP_TX_FRAME_READY, ep2)" "frame_log ep2 = fst d"
    "confirms_frames (ep_config ep) \<Longrightarrow> ep_uds ep2 = (if rc then snd (uds_server_complete_reset uds) else uds)"
  proof (cases "cfg_tx_complete (ep_config ep)")
    case None
    with that[of "complete_in_flight (submitted (with_driver ep1 d))"] f1 d done_uds' show thesis
      by (simp add: process_tx_pending_eq[OF f1(1)] Let_def)
  next
    case (Some query)
    obtain b d2 where q: "query d = (b, d2)" by (cases "query d")
    have "fst d2 = fst d" using logs_framesD(2)[OF assms(3) Some q] .
    moreover have "b" if "confirms_frames (ep_config ep)"
      using that Some q unfolding confirms_frames_def by (metis fst_conv)
    ultimately show thesis
      using that[of "if b then complete_in_flight (with_driver (submitted (with_driver ep1 d)) d2)
        else with_driver (submitted (with_driver ep1 d)) d2"] f1 d q Some done_uds[of d2]
      by (cases b) (auto simp add: process_tx_pending_eq[OF f1(1)] Let_def)
  qed
  have "f_can_id ?g = tx_response_id (ep_tx ep)" by (simp add: sf_frame_def Let_def clear_frame_def e(3))
  moreover have "carries ?g (take (unat rlen) rsp)"
    using sf_frame_carries[of n rsp ?started] n rsp rd(2) e(3) by (simp add: n_def[symmetric] UDS_MAX_RESPONSE_LENGTH_def)
  ultimately have "f_can_id ?g = tx_response_id (ep_tx ep) \<and> carries ?g (take (unat rlen) rsp)" ..
  then show ?thesis using r1 f1(7) p ep2 log by (intro exI[of _ ep1] exI[of _ ep2] exI[of _ ?g]) simp
qed

text \<open>An accepted reset request at an idle endpoint: response, release and execution.\<close>

lemma reset_is_executed:
  assumes "ep_wf ep" "ready_to_serve ep" "logs_frames (ep_config ep)" "accepts_frames (ep_config ep)" "confirms_frames (ep_config ep)"
    and "wf_frame f" "frame_valid (rx_config (ep_rx ep)) f" "carries f request" "addressed ep f mode"
    and "uds_server_handle_addressed (ep_uds ep) request (ep_response ep) 0 mode now = Some (UDS_RESULT_OK, uds, rsp, rlen)"
    and "\<not> reset_pending (ep_uds ep)" "response_reset_pending uds"
    and "cb_ecu_reset_execute (callbacks uds) = Some execute"
  shows "\<exists>ep1 ep2. uds_isotp_endpoint_receive junk ep f now = Some (ISOTP_TX_FRAME_READY, ep1) \<and> \<not> reset_ready (ep_uds ep1) \<and>
    uds_isotp_endpoint_process ep1 later = Some (ISOTP_TX_FRAME_READY, ep2) \<and> reset_ready (ep_uds ep2) \<and>
    srv_context (ep_uds (snd (uds_isotp_endpoint_tick ep2 then_now))) = execute (srv_context uds) (pending_reset_subfunction uds)"
proof -
  have pre: "srv_inv (ep_uds ep)" "length request < 65536" "4 \<le> length (ep_response ep)" "length (ep_response ep) < 65536"
    using assms(1,8) by (auto simp: ep_wf_def UDS_MAX_RESPONSE_LENGTH_def carries_def)
  have r: "\<not> reset_ready uds" "rlen = 2 \<or> rlen = 3" using handled_reset[OF pre assms(10-12)] by auto
  then have len: "1 \<le> unat rlen" "unat rlen \<le> 7" by auto
  from serve_steps[OF assms(1-4,6-10) len, of junk later] obtain ep1 ep2 where
    s: "uds_isotp_endpoint_receive junk ep f now = Some (ISOTP_TX_FRAME_READY, ep1)" "ep_uds ep1 = uds"
    "uds_isotp_endpoint_process ep1 later = Some (ISOTP_TX_FRAME_READY, ep2)"
    "ep_uds ep2 = snd (uds_server_complete_reset uds)"
    using assms(5,11,12) by (auto simp: uds_server_reset_pending_def)
  have p: "reset_pending uds" using assms(12) by (simp add: response_reset_pending_def uds_server_reset_pending_def)
  then have u: "ep_uds ep2 = uds\<lparr> reset_ready := True \<rparr>" using s(4) assms(13) by (simp add: uds_server_complete_reset_def)
  have "srv_context (ep_uds (snd (uds_isotp_endpoint_tick ep2 then_now))) = srv_context (snd (uds_server_tick (ep_uds ep2) then_now))"
    by (simp add: uds_isotp_endpoint_tick_def Let_def case_prod_beta)
  also have "\<dots> = execute (srv_context uds) (pending_reset_subfunction uds)"
    using p assms(13) by (simp add: u uds_server_tick_def security_tick_def Let_def)
  finally have "srv_context (ep_uds (snd (uds_isotp_endpoint_tick ep2 then_now))) =
    execute (srv_context uds) (pending_reset_subfunction uds)" .
  moreover have "reset_ready (ep_uds ep2)" by (simp add: u)
  moreover have "\<not> reset_ready (ep_uds ep1)" using s(2) r(1) by simp
  ultimately show ?thesis using s(1,3) by blast
qed

text \<open> C26.
  A request is served end to end. An idle endpoint that receives a valid single frame, physically or functionally
  addressed, gives exactly the carried bytes to the server; when the server answers with up to seven bytes, the next
  \<open>process\<close> hands the driver one frame on the response identifier that carries exactly these bytes.
\<close>

theorem request_served:
  assumes "ep_wf ep" "ready_to_serve ep" "logs_frames (ep_config ep)" "accepts_frames (ep_config ep)"
    and "wf_frame f" "frame_valid (rx_config (ep_rx ep)) f" "carries f request" "addressed ep f mode"
    and "uds_server_handle_addressed (ep_uds ep) request (ep_response ep) 0 mode now = Some (UDS_RESULT_OK, uds, rsp, rlen)"
    and "1 \<le> unat rlen" "unat rlen \<le> 7"
  shows "\<exists>ep1 ep2 g. uds_isotp_endpoint_receive junk ep f now = Some (ISOTP_TX_FRAME_READY, ep1) \<and> ep_uds ep1 = uds \<and>
    uds_isotp_endpoint_process ep1 later = Some (ISOTP_TX_FRAME_READY, ep2) \<and> frame_log ep2 = frame_log ep @ [g] \<and>
    f_can_id g = tx_response_id (ep_tx ep) \<and> carries g (take (unat rlen) rsp)"
  using serve_steps[OF assms(1-11), of junk later] by blast

text \<open>TesterPresent at the concrete endpoint.\<close>

lemma demo_tester_present:
  "uds_server_handle_addressed (demo_server sess demo_gate) [0x3E, 0] (replicate UDS_MAX_RESPONSE_LENGTH 0) 0
     UDS_ADDRESS_PHYSICAL now =
   Some (UDS_RESULT_OK, dispatched (demo_server sess demo_gate) UDS_ADDRESS_PHYSICAL now,
     0x7E # 0 # replicate (UDS_MAX_RESPONSE_LENGTH - 2) 0, 2)" if "sess \<in> {1, 2, 3}"
proof -
  have c: "(of_nat UDS_MAX_RESPONSE_LENGTH :: u16) = 4095" by (simp add: UDS_MAX_RESPONSE_LENGTH_def)
  have p: "poke_list (replicate UDS_MAX_RESPONSE_LENGTH (0 :: u8)) 0 [0x7E, 0] =
      Some (0x7E # 0 # replicate (UDS_MAX_RESPONSE_LENGTH - 2) 0)"
    by (subst poke_list_closed) (simp_all add: UDS_MAX_RESPONSE_LENGTH_def)
  show ?thesis
    using that
    by (auto simp: uds_server_handle_addressed_def c check_service_attributes_def mem_simps
        uds_service_attribute_def service_attributes_def service_attr_def session_mask_def session_mask_defs
        k_service_dispatch_table_def wrap_defs service_tester_present_def Let_def UDS_MAX_REQUEST_LENGTH_def
        UDS_SUPPRESS_POSITIVE_RESPONSE_def p demo_server_def simp del: poke_list.simps)
qed

lemma demo_endpoint_fields [simp]:
  "ep_uds (demo_endpoint sess) = demo_server sess demo_gate" "frame_log (demo_endpoint sess) = []"
  "ep_response (demo_endpoint sess) = replicate UDS_MAX_RESPONSE_LENGTH 0"
  "rx_config (ep_rx (demo_endpoint sess)) = isotp_config_default" "tx_response_id (ep_tx (demo_endpoint sess)) = 0x7E8"
  by (simp_all add: demo_endpoint_def demo_driver_def rx_blank_def tx_blank_def isotp_rx_init_def isotp_tx_init_def)

lemma demo_driver_logs: "logs_frames (ep_config (demo_endpoint sess))" "accepts_frames (ep_config (demo_endpoint sess))"
  by (auto simp: logs_frames_def accepts_frames_def demo_endpoint_def demo_driver_def)

lemma demo_ready: "ready_to_serve (demo_endpoint sess)"
  by (simp add: ready_to_serve_def demo_endpoint_def demo_driver_def rx_blank_def tx_blank_def isotp_rx_init_def
      isotp_tx_init_def response_reset_pending_def uds_server_reset_pending_def demo_server_def
      config_constructors_valid)

lemma demo_frame:
  assumes "1 \<le> length m" "length m \<le> 7"
  shows "wf_frame (can_frame 0x7E0 (of_nat (length m) # m))"
    "frame_valid isotp_config_default (can_frame 0x7E0 (of_nat (length m) # m))"
    "carries (can_frame 0x7E0 (of_nat (length m) # m)) m"
    "addressed (demo_endpoint sess) (can_frame 0x7E0 (of_nat (length m) # m)) UDS_ADDRESS_PHYSICAL"
proof -
  have u: "unat (of_nat (Suc (length m)) :: u8) = Suc (length m)" using assms(2) by (simp add: unat_of_nat_8 del: of_nat_Suc)
  then have "(of_nat (Suc (length m)) :: u8) \<le> 8" "(of_nat (Suc (length m)) :: u8) \<noteq> 0"
    using assms by (auto simp: word_le_nat_alt word_unat_eq_iff simp del: of_nat_Suc)
  then show "frame_valid isotp_config_default (can_frame 0x7E0 (of_nat (length m) # m))"
    using assms u by (simp add: frame_valid_def can_frame_def ISOTP_MAX_FRAME_DATA_def del: of_nat_Suc)
  show "wf_frame (can_frame 0x7E0 (of_nat (length m) # m))" using assms by (simp add: wf_can_frame)
  show "carries (can_frame 0x7E0 (of_nat (length m) # m)) m"
    using assms u by (simp add: carries_def can_frame_def del: of_nat_Suc)
  show "addressed (demo_endpoint sess) (can_frame 0x7E0 (of_nat (length m) # m)) UDS_ADDRESS_PHYSICAL"
    by (simp add: addressed_def demo_endpoint_def demo_driver_def can_frame_def frame_is_functional_def)
qed

theorem request_served_witness:
  "\<exists>ep1 ep2 g. uds_isotp_endpoint_receive zero_event (demo_endpoint 1) (can_frame 0x7E0 [2, 0x3E, 0]) 8 =
       Some (ISOTP_TX_FRAME_READY, ep1) \<and>
     uds_isotp_endpoint_process ep1 9 = Some (ISOTP_TX_FRAME_READY, ep2) \<and> frame_log ep2 = [g] \<and>
     f_can_id g = 0x7E8 \<and> carries g [0x7E, 0]"
proof -
  let ?m = "[0x3E, 0] :: bytes"
  have len: "1 \<le> length ?m" "length ?m \<le> 7" by simp_all
  have f: "can_frame 0x7E0 [2, 0x3E, 0] = can_frame 0x7E0 (of_nat (length ?m) # ?m)" by simp
  note d = demo_frame[OF len, folded f]
  have rsp: "take (unat (2 :: u16)) (0x7E # 0 # replicate (UDS_MAX_RESPONSE_LENGTH - 2) 0) = [0x7E, 0 :: u8]" by simp
  have "frame_valid (rx_config (ep_rx (demo_endpoint 1))) (can_frame 0x7E0 [2, 0x3E, 0])" using d(2) by simp
  note s = request_served[OF demo_endpoint_wf demo_ready demo_driver_logs d(1) this d(3,4) _ _ _, where now = 8 and later = 9
      and junk = zero_event and rlen = 2]
  have "uds_server_handle_addressed (ep_uds (demo_endpoint 1)) ?m (ep_response (demo_endpoint 1)) 0 UDS_ADDRESS_PHYSICAL 8 =
    Some (UDS_RESULT_OK, dispatched (demo_server 1 demo_gate) UDS_ADDRESS_PHYSICAL 8,
      0x7E # 0 # replicate (UDS_MAX_RESPONSE_LENGTH - 2) 0, 2)"
    using demo_tester_present[of 1 8] by simp
  from s[OF _ this] rsp show ?thesis by auto
qed

section \<open>A refused frame\<close>

text \<open>
  \<open>receive\<close> looks at the flag of its local event even when the receiver has refused the frame and left the
  event as it was: a frame of invalid length makes the endpoint queue the uninitialised frame as flow control.
\<close>

lemma refused_frame_queues_junk:
  assumes "\<not> frame_valid (rx_config (ep_rx ep)) frame" "f_dlc frame \<noteq> 0" "\<not> is_flow_control_for_endpoint ep frame"
    and "\<not> frame_is_functional ep frame" "\<not> response_reset_pending (ep_uds ep)" "\<not> control_pending ep"
    and "ev_has_flow_control junk"
  shows "uds_isotp_endpoint_receive junk ep frame now =
    Some (ISOTP_ERR_ARGUMENT, ep\<lparr> pending_control_frame := ev_flow_control junk, control_pending := True \<rparr>)"
  using assms by (simp add: uds_isotp_endpoint_receive_def isotp_rx_feed_def queue_control_frame_def)

section \<open>The reset that never comes\<close>

text \<open>The driver never reports a transmit error.\<close>

definition no_tx_error :: "('d, 'r, 'k, 'c) UdsIsoTpEndpointConfig \<Rightarrow> bool" where
  "no_tx_error cfg \<longleftrightarrow> (\<forall>query d. cfg_tx_error cfg = Some query \<longrightarrow> \<not> fst (query d))"

text \<open>A reset is outstanding and its response is in none of the three places.\<close>

definition stuck :: "('d, 'r, 'k, 'c, 'p) UdsIsoTpEndpoint \<Rightarrow> bool" where
  "stuck ep \<longleftrightarrow> reset_outstanding (ep_uds ep) \<and> \<not> reply_queued ep \<and> \<not> reply_waiting ep \<and> \<not> reply_flying ep \<and>
     (tx_state (ep_tx ep) \<noteq> ISOTP_TX_STATE_IDLE \<longrightarrow> \<not> tx_reset_completion ep) \<and> no_tx_error (ep_config ep)"

definition stuck_same :: "('d, 'r, 'k, 'c, 'p) UdsIsoTpEndpoint \<Rightarrow> ('d, 'r, 'k, 'c, 'p) UdsIsoTpEndpoint \<Rightarrow> bool" where
  "stuck_same ep ep' \<longleftrightarrow> stuck ep' \<and> srv_context (ep_uds ep') = srv_context (ep_uds ep)"

lemma stuck_updates [simp]:
  "stuck (with_driver ep d) = stuck ep" "stuck (reset_event ep x) = stuck ep"
  "stuck (ep\<lparr> control_pending := b \<rparr>) = stuck ep"
  by (simp_all add: stuck_def no_tx_error_def) (simp_all add: reply_defs)

lemma stuck_complete:
  assumes "stuck ep"
  shows "stuck_same ep (complete_in_flight ep)"
proof -
  have c: "complete_in_flight ep = (if tx_in_flight ep
      then ep\<lparr> tx_in_flight := False, in_flight_final := False, in_flight_reset_completion := False \<rparr> else ep)"
    using assms by (auto simp: complete_in_flight_def stuck_def reply_flying_def Let_def)
  show ?thesis using assms by (simp add: c stuck_same_def stuck_def reply_defs)
qed

lemma stuck_submitted:
  assumes "stuck ep" "tx_pending ep"
  shows "stuck (submitted ep)"
  using assms by (simp add: stuck_def reply_defs no_tx_error_def)

lemma stuck_start:
  assumes "stuck ep" "start_response ep response rlen False now = Some (st, ep')"
  shows "stuck_same ep ep'"
  using assms
  by (auto simp: start_response_def stuck_same_def stuck_def reply_defs Let_def isotp_tx_state_def
      split: if_splits Option.bind_splits) (frule (1) tx_start_state; simp)+

lemma stuck_tx:
  assumes "stuck ep" "tx_state tx \<noteq> ISOTP_TX_STATE_IDLE \<Longrightarrow> tx_state (ep_tx ep) \<noteq> ISOTP_TX_STATE_IDLE"
  shows "stuck (ep\<lparr> ep_tx := tx \<rparr>)" "\<not> tx_pending ep \<Longrightarrow> stuck (ep\<lparr> ep_tx := tx, pending_frame := f \<rparr>)"
  using assms by (auto simp: stuck_def reply_defs)

lemma stuck_process_tx_pending:
  assumes "stuck ep" "ep_wf ep" "tx_pending ep" "process_tx_pending ep = Some (st, ep')"
  shows "stuck_same ep ep'"
proof -
  obtain send where send: "cfg_send_frame (ep_config ep) = Some send" using assms(2) by (auto simp: ep_wf_def)
  obtain sent d where s: "send (cfg_context (ep_config ep)) (pending_frame ep) = (sent, d)"
    by (cases "send (cfg_context (ep_config ep)) (pending_frame ep)")
  show ?thesis
  proof (cases sent)
    case False
    with assms s show ?thesis by (auto simp: process_tx_pending_eq[OF send] stuck_same_def)
  next
    case True
    define e where "e = submitted (with_driver ep d)"
    have e: "stuck e" "ep_uds e = ep_uds ep" using stuck_submitted[of "with_driver ep d"] assms(1,3) by (simp_all add: e_def)
    show ?thesis
    proof (cases "cfg_tx_complete (ep_config ep)")
      case None
      with assms s True have "ep' = complete_in_flight e" by (simp add: process_tx_pending_eq[OF send] Let_def e_def)
      with stuck_complete[OF e(1)] e(2) show ?thesis by (simp add: stuck_same_def)
    next
      case (Some query)
      obtain confirmed d2 where q: "query (cfg_context (ep_config e)) = (confirmed, d2)"
        by (cases "query (cfg_context (ep_config e))")
      have e2: "stuck (with_driver e d2)" "ep_uds (with_driver e d2) = ep_uds ep" using e by simp_all
      have "ep' = (if confirmed then complete_in_flight (with_driver e d2) else with_driver e d2)"
        using assms(4) s True Some q by (auto simp: process_tx_pending_eq[OF send] Let_def e_def)
      with stuck_complete[OF e2(1)] e2 show ?thesis by (simp add: stuck_same_def)
    qed
  qed
qed

lemma stuck_queued:
  assumes "stuck ep" "queued_response_pending ep" "process_queued_response ep now = Some (st, ep')"
  shows "stuck_same ep ep'"
proof -
  define e where "e = ep\<lparr> queued_response_pending := False, queued_response_length := 0, queued_reset_completion := False \<rparr>"
  have "\<not> queued_reset_completion ep" using assms(1,2) by (simp add: stuck_def reply_queued_def)
  then have "start_response e (queued_response e) (queued_response_length ep) False now = Some (st, ep')"
    using assms(3) by (simp add: process_queued_response_def Let_def e_def)
  moreover have "stuck e" using assms(1) by (simp add: stuck_def reply_defs e_def)
  ultimately have "stuck_same e ep'" by (rule stuck_start[rotated])
  then show ?thesis by (simp add: stuck_same_def e_def)
qed

lemma stuck_process:
  assumes st: "stuck ep" and wf: "ep_wf ep" and p: "uds_isotp_endpoint_process ep now = Some (s, ep')"
  shows "stuck_same ep ep'"
proof (cases "tx_in_flight ep")
  case True
  have "ep' = ep \<or> (\<exists>d. ep' = with_driver ep d)"
  proof (cases "cfg_tx_error (ep_config ep)")
    case None
    with True p show ?thesis by (simp add: uds_isotp_endpoint_process_def)
  next
    case (Some query)
    obtain failed d where q: "query (cfg_context (ep_config ep)) = (failed, d)"
      by (cases "query (cfg_context (ep_config ep))")
    have "\<not> fst (query (cfg_context (ep_config ep)))" using st Some unfolding stuck_def no_tx_error_def by blast
    with True p Some q show ?thesis by (auto simp: uds_isotp_endpoint_process_def driver_query_eq)
  qed
  with st show ?thesis by (auto simp: stuck_same_def)
next
  case False
  obtain send where send: "cfg_send_frame (ep_config ep) = Some send" using wf by (auto simp: ep_wf_def)
  obtain st1 e where sub: "submit_control ep = Some (st1, e)"
    using p False by (auto simp: uds_isotp_endpoint_process_def split: Option.bind_splits)
  have "e = ep \<or> (\<exists>d. e = with_driver ep d \<or> e = (with_driver ep d)\<lparr> control_pending := False \<rparr>)"
    using sub by (auto simp: submit_control_def send_frame_eq[OF send] split: if_splits prod.splits)
  then have e: "stuck e" "ep_wf e" "ep_uds e = ep_uds ep" using st wf by (auto simp: ep_wf_def)
  have same: "stuck_same ep x" if "stuck_same e x" for x using that by (simp add: stuck_same_def e(3))
  have finish: "stuck_same ep ep'"
    if "stuck x" "ep_uds x = ep_uds ep"
      "(if queued_response_pending x then process_queued_response x now else Some (ISOTP_OK, x)) = Some (s, ep')" for x
    using that stuck_queued[OF that(1), of now s ep'] by (auto simp: stuck_same_def split: if_splits)
  consider "ep' = e" | "tx_pending e" "process_tx_pending e = Some (s, ep')"
    | "\<not> tx_pending e" "isotp_tx_state (ep_tx e) = ISOTP_TX_STATE_IDLE"
      "(if queued_response_pending e then process_queued_response e now else Some (ISOTP_OK, e)) = Some (s, ep')"
    | "\<not> tx_pending e" "isotp_tx_state (ep_tx e) \<noteq> ISOTP_TX_STATE_IDLE"
      "(do { (status, tx, frame) \<leftarrow> isotp_tx_next (ep_tx e) now (pending_frame e);
           let ep = e\<lparr> ep_tx := tx, pending_frame := frame \<rparr>;
           (if status = ISOTP_TX_FRAME_READY
            then Some (status, ep\<lparr> tx_pending := True,
              pending_frame_final := (tx_offset (ep_tx ep) \<ge> tx_payload_len (ep_tx ep)),
              pending_reset_completion := tx_reset_completion ep \<rparr>)
            else if status \<noteq> ISOTP_COMPLETE then Some (status, ep)
            else if queued_response_pending ep then process_queued_response ep now else Some (ISOTP_OK, ep)) }) = Some (s, ep')"
    using p False sub by (auto simp: uds_isotp_endpoint_process_def Let_def split: if_splits)
  then show ?thesis
  proof cases
    case 1
    with e show ?thesis by (simp add: stuck_same_def)
  next
    case 2
    from same[OF stuck_process_tx_pending[OF e(1,2) 2]] show ?thesis .
  next
    case 3
    from finish[OF e(1,3) 3(3)] show ?thesis .
  next
    case 4
    have busy: "tx_state (ep_tx e) \<noteq> ISOTP_TX_STATE_IDLE" using 4(2) by (simp add: isotp_tx_state_def)
    obtain st2 tx fr where n: "isotp_tx_next (ep_tx e) now (pending_frame e) = Some (st2, tx, fr)"
      using tx_next_safe[of "ep_tx e" now "pending_frame e"] e(2) by (auto simp: ep_wf_def)
    let ?x = "e\<lparr> ep_tx := tx, pending_frame := fr \<rparr>"
    have x: "stuck ?x" "ep_uds ?x = ep_uds ep" using stuck_tx(2)[OF e(1)] busy 4(1) e(3) by simp_all
    consider "st2 = ISOTP_TX_FRAME_READY" | "st2 = ISOTP_COMPLETE" | "st2 \<noteq> ISOTP_TX_FRAME_READY" "st2 \<noteq> ISOTP_COMPLETE"
      by blast
    then show ?thesis
    proof cases
      case 1
      have norc: "\<not> tx_reset_completion e" using e(1) busy by (simp add: stuck_def)
      have ep': "ep' = ?x\<lparr> tx_pending := True,
          pending_frame_final := (tx_offset tx \<ge> tx_payload_len tx), pending_reset_completion := False \<rparr>"
        using 4(3) n 1 norc by (simp add: Let_def)
      show ?thesis using x unfolding ep' by (simp add: stuck_same_def stuck_def reply_defs)
    next
      case 2
      with 4(3) n have "(if queued_response_pending ?x then process_queued_response ?x now else Some (ISOTP_OK, ?x)) = Some (s, ep')"
        by (simp add: Let_def)
      from finish[OF x this] show ?thesis .
    next
      case 3
      with 4(3) n have "ep' = ?x" by (simp add: Let_def)
      with x show ?thesis by (simp add: stuck_same_def)
    qed
  qed
qed

lemma stuck_step:
  assumes st: "stuck ep" and wf: "ep_wf ep" and step: "ep_step ep e = Some ep'"
  shows "stuck_same ep ep'"
proof (cases e)
  case (EpReceive junk frame now)
  have "response_reset_pending (ep_uds ep)" using st by (simp add: stuck_def reset_outstanding_def)
  then have "ep' = ep \<or> ep' = ep\<lparr> ep_tx := snd (isotp_tx_feed_flow_control (ep_tx ep) frame now) \<rparr>"
    using step EpReceive by (auto simp: uds_isotp_endpoint_receive_def split: if_splits prod.splits)
  with stuck_tx(1)[OF st feed_flow_control_state] st show ?thesis by (auto simp: stuck_same_def)
next
  case (EpProcess now)
  with step obtain s where "uds_isotp_endpoint_process ep now = Some (s, ep')" by auto
  from stuck_process[OF st wf this] show ?thesis .
next
  case (EpTick now)
  have srv: "srv_inv (ep_uds ep)" using wf by (simp add: ep_wf_def)
  have nr: "\<not> (reset_pending (ep_uds ep) \<and> reset_ready (ep_uds ep))" using st by (simp add: stuck_def reset_outstanding_def)
  note t = tick_keeps_pending[OF nr srv, of now]
  have tx: "tx_state (snd (isotp_tx_tick (ep_tx ep) now)) \<noteq> ISOTP_TX_STATE_IDLE \<Longrightarrow> tx_state (ep_tx ep) \<noteq> ISOTP_TX_STATE_IDLE"
    by (auto simp: isotp_tx_tick_def split: if_splits)
  have "ep' = ep\<lparr> ep_rx := snd (isotp_rx_tick (ep_rx ep) now), ep_tx := snd (isotp_tx_tick (ep_tx ep) now),
      ep_uds := snd (uds_server_tick (ep_uds ep) now) \<rparr>"
    using step EpTick t(1) by (auto simp: uds_isotp_endpoint_tick_def Let_def case_prod_beta uds_server_reset_pending_def)
  then show ?thesis
    using st tx t
    by (simp add: stuck_same_def stuck_def reply_defs reset_outstanding_def response_reset_pending_def
        uds_server_reset_pending_def)
next
  case EpTxComplete
  with step stuck_complete[OF st] show ?thesis by (simp add: uds_isotp_endpoint_tx_complete_def)
qed

lemma stuck_run:
  assumes "stuck ep" "ep_wf ep" "list_all ep_ok es" "run ep_step ep es = Some ep'"
  shows "stuck_same ep ep'"
  using assms
proof (induction es arbitrary: ep)
  case Nil
  then show ?case by (simp add: stuck_same_def)
next
  case (Cons e es)
  then obtain m where m: "ep_step ep e = Some m" "run ep_step m es = Some ep'" by (auto split: Option.bind_splits)
  have "stuck_same ep m" using stuck_step[OF Cons.prems(1,2) m(1)] .
  moreover from this have "stuck_same m ep'"
    using Cons.IH[OF _ _ _ m(2)] epm.step_inv[OF Cons.prems(2) _ m(1)] Cons.prems(3) by (simp add: stuck_same_def)
  ultimately show ?case by (simp add: stuck_same_def)
qed

text \<open>A reset request while a reset without a response is pending.\<close>

lemma handle_rx_late:
  assumes hs: "handshake ep" and wf: "ep_wf ep" and err: "no_tx_error (ep_config ep)"
    and old: "reset_pending (ep_uds ep)" "\<not> reset_ready (ep_uds ep)" "\<not> response_reset_pending (ep_uds ep)"
    and ev: "ev_payload ev = Some buf" "unat (ev_length ev) \<le> length buf"
    and h: "handle_rx_completion ep ev mode now = Some (st, ep')" and new: "response_reset_pending (ep_uds ep')"
  shows "stuck ep'"
proof (cases "ev_length ev > 65535")
  case True
  with h new old(3) show ?thesis by (simp add: handle_rx_completion_def)
next
  case False
  then have lt: "unat (ev_length ev) < 65536" by (simp add: word_less_nat_alt)
  let ?req = "take (unat (ev_length ev)) buf"
  have pre: "srv_inv (ep_uds ep)" "length ?req < 65536" "4 \<le> length (ep_response ep)" "length (ep_response ep) < 65536"
    using wf lt by (auto simp: ep_wf_def UDS_MAX_RESPONSE_LENGTH_def)
  from wpD[OF srv_inv_handle[OF pre, of 0 mode now]] obtain result uds rsp rlen where
    s: "uds_server_handle_addressed (ep_uds ep) ?req (ep_response ep) 0 mode now = Some (result, uds, rsp, rlen)"
    by (auto simp: answered_def)
  have "srv_step (ep_uds ep) (SrvRequest ?req (ep_response ep) mode now) = Some uds" using s by simp
  from step_keeps_not_ready[OF pre(1) _ _ old(2) this] pre have ready: "\<not> reset_ready uds" by simp
  define e where "e = answered_ep ep uds rsp False"
  have "ep' = e \<or> start_response e rsp rlen False now = Some (st, ep')"
    using h old(1) unfolding handle_rx_eq[OF lt ev s]
    by (auto simp: uds_server_reset_pending_def e_def Let_def split: if_splits)
  moreover have "ep_uds ep' = uds"
    using calculation
    by (auto simp: e_def start_response_def Let_def split: if_splits Option.bind_splits)
  moreover have "stuck e"
  proof -
    have "\<not> reply_queued e" "\<not> reply_waiting e" "\<not> reply_flying e"
      using no_reply[OF hs old(3)] by (simp_all add: e_def reply_defs)
    moreover have "reset_outstanding uds" using ready new \<open>ep_uds ep' = uds\<close> by (simp add: reset_outstanding_def)
    ultimately show ?thesis using hs err by (simp add: stuck_def e_def handshake_def no_tx_error_def)
  qed
  ultimately show ?thesis using stuck_start[of e rsp rlen now st ep'] by (auto simp: stuck_same_def)
qed

lemma receive_late:
  assumes hs: "handshake ep" and wf: "ep_wf ep" "wf_frame frame" and err: "no_tx_error (ep_config ep)"
    and old: "reset_pending (ep_uds ep)" "\<not> reset_ready (ep_uds ep)" "\<not> response_reset_pending (ep_uds ep)"
    and r: "uds_isotp_endpoint_receive junk ep frame now = Some (st, ep')" and new: "response_reset_pending (ep_uds ep')"
  shows "stuck ep'"
proof -
  define nf where "nf = (if frame_is_functional ep frame then frame\<lparr> f_can_id := cfg_request_id (ep_config ep) \<rparr> else frame)"
  have nf: "wf_frame nf" "rx_inv (ep_rx ep)" using wf by (simp_all add: nf_def wf_frame_def ep_wf_def)
  from rx_feed_inv[OF nf(2,1), of now junk] obtain st1 rx ev where
    f: "isotp_rx_feed (ep_rx ep) nf now junk = Some (st1, rx, ev)" "rx_inv rx" by blast
  define e where "e = (if ev_has_flow_control ev then snd (queue_control_frame (ep\<lparr> ep_rx := rx \<rparr>) (ev_flow_control ev))
    else ep\<lparr> ep_rx := rx \<rparr>)"
  have e: "handshake e" "ep_wf e" "ep_uds e = ep_uds ep" "ep_config e = ep_config ep"
    using hs wf(1) f(2) by (simp_all add: e_def queue_control_frame_def ep_wf_def)
  have moved: "ep_uds ep' \<noteq> ep_uds ep" using old(3) new by auto
  then have fed: "f_dlc frame \<noteq> 0" "\<not> is_flow_control_for_endpoint ep frame"
    "\<not> (frame_is_functional ep frame \<and> drop_bit 4 (f_data frame ! 0) \<noteq> 0)"
    using r by (auto simp: uds_isotp_endpoint_receive_def Let_def[of "frame_is_functional ep frame"] split: if_splits prod.splits)
  define mode where "mode = (if frame_is_functional ep frame then UDS_ADDRESS_FUNCTIONAL else UDS_ADDRESS_PHYSICAL)"
  have "uds_isotp_endpoint_receive junk ep frame now =
      (if ev_has_flow_control ev \<and> control_pending ep then Some (ISOTP_ERR_STATE, e)
       else if st1 \<noteq> ISOTP_COMPLETE then Some (st1, e) else handle_rx_completion e ev mode now)"
    using fed old(3) f(1)
    by (simp add: uds_isotp_endpoint_receive_def Let_def e_def mode_def queue_control_frame_def flip: nf_def)
  then have h: "st1 = ISOTP_COMPLETE" "handle_rx_completion e ev mode now = Some (st, ep')"
    using r moved e(3) by (auto split: if_splits)
  from rx_feed_message[OF nf(2,1)] f(1) h(1) obtain buf where
    "ev_payload ev = Some buf" "unat (ev_length ev) \<le> length buf" by blast
  from handle_rx_late[OF e(1,2) _ _ _ _ this h(2) new] err old show ?thesis by (simp add: e)
qed

text \<open> C27.
  A reset request after a session change is lost, and the endpoint with it. A session change leaves a reset pending
  that asks for no response. When an ECUReset request is then accepted, the endpoint takes the pending reset for an old
  one and never releases it: in every later run (the driver reporting no transmit error) the application is not called
  again, neither to execute the reset nor for any request, and the server waits for the reset for ever.
\<close>

theorem reset_after_session_change_lost:
  assumes "handshake ep" "ep_wf ep" "wf_frame frame" "no_tx_error (ep_config ep)"
    and "reset_pending (ep_uds ep)" "\<not> reset_ready (ep_uds ep)" "\<not> response_reset_pending (ep_uds ep)"
    and "uds_isotp_endpoint_receive junk ep frame now = Some (st, ep1)" "response_reset_pending (ep_uds ep1)"
    and "list_all ep_ok es" "run ep_step ep1 es = Some ep2"
  shows "srv_context (ep_uds ep2) = srv_context (ep_uds ep1) \<and> response_reset_pending (ep_uds ep2) \<and>
    \<not> reset_ready (ep_uds ep2)"
proof -
  have "stuck ep1" using receive_late[OF assms(1-9)] .
  moreover have "ep_wf ep1" using wp_SomeD[OF receive_wf[OF assms(2,3)] assms(8)] by simp
  ultimately have "stuck_same ep1 ep2" using stuck_run assms(10,11) by blast
  then show ?thesis by (simp add: stuck_same_def stuck_def reset_outstanding_def)
qed

lemma start_response_keeps:
  assumes "start_response e rsp rlen rc now = Some (st, e')"
  shows "ep_uds e' = ep_uds e" "ep_rx e' = ep_rx e" "ep_config e' = ep_config e" "ep_response e' = ep_response e"
  using assms by (auto simp: start_response_def Let_def split: if_splits Option.bind_splits)

lemma demo_buffer:
  assumes "length (response :: bytes) = UDS_MAX_RESPONSE_LENGTH"
  shows "capacity response = 4095" "length vs \<le> 4095 \<Longrightarrow> poke_list response 0 vs = Some (vs @ drop (length vs) response)"
  using assms by (simp_all add: UDS_MAX_RESPONSE_LENGTH_def poke_list_closed)

lemma demo_default_session:
  assumes "length response = UDS_MAX_RESPONSE_LENGTH"
  shows "\<exists>u rsp. uds_server_handle_addressed (demo_server 3 demo_gate) [0x10, 1] response 0 UDS_ADDRESS_PHYSICAL now =
      Some (UDS_RESULT_OK, u, rsp, 6) \<and> reset_pending u \<and> pending_reset_subfunction u = 0 \<and> \<not> reset_ready u \<and>
      session u = 1 \<and> callbacks u = demo_callbacks \<and> srv_context u = []"
  by (simp add: uds_server_handle_addressed_def demo_buffer[OF assms] check_service_attributes_def mem_simps
        uds_service_attribute_def service_attributes_def service_attr_def session_mask_def session_mask_defs
        k_service_dispatch_table_def wrap_defs service_session_control_def Let_def UDS_MAX_REQUEST_LENGTH_def
        UDS_SUPPRESS_POSITIVE_RESPONSE_def uds_server_request_session_def session_supported_def
        uds_session_transition_allowed_def security_tick_def security_reset_for_session_change_def
        demo_server_def del: poke_list.simps)

lemma demo_reset_request:
  assumes "length response = UDS_MAX_RESPONSE_LENGTH" "session s = 1" "callbacks s = demo_callbacks"
  shows "\<exists>rsp. uds_server_handle_addressed s [0x11, 1] response 0 UDS_ADDRESS_PHYSICAL now =
      Some (UDS_RESULT_OK, mark_reset (dispatched s UDS_ADDRESS_PHYSICAL now) 1, rsp, 2)"
  using assms(2,3)
  by (simp add: uds_server_handle_addressed_def demo_buffer[OF assms(1)] check_service_attributes_def mem_simps
        uds_service_attribute_def service_attributes_def service_attr_def session_mask_def session_mask_defs
        k_service_dispatch_table_def wrap_defs service_ecu_reset_def Let_def UDS_MAX_REQUEST_LENGTH_def
        UDS_SUPPRESS_POSITIVE_RESPONSE_def demo_callbacks_def del: poke_list.simps)

lemma demo_handshake: "handshake (demo_endpoint sess)"
  using demo_driver_logs(1)[of sess]
  by (simp add: handshake_def reply_defs) (simp add: demo_endpoint_def tx_blank_def isotp_tx_init_def)

text \<open>One accepted request in a single frame at an endpoint like the concrete one.\<close>

lemma demo_receive:
  assumes "ep_wf ep" "rx_request_id (ep_rx ep) = 0x7E0" "rx_config (ep_rx ep) = isotp_config_default"
    and "cfg_request_id (ep_config ep) = 0x7E0" "cfg_functional_request_id (ep_config ep) = 0x7DF"
    and "1 \<le> length m" "length m \<le> 7" "\<not> response_reset_pending (ep_uds ep)"
    and "uds_server_handle_addressed (ep_uds ep) m (ep_response ep) 0 UDS_ADDRESS_PHYSICAL now = Some (UDS_RESULT_OK, uds, rsp, rlen)"
    and "rlen \<noteq> 0"
  shows "\<exists>st ep'. uds_isotp_endpoint_receive zero_event ep (can_frame 0x7E0 (of_nat (length m) # m)) now = Some (st, ep') \<and>
    ep_uds ep' = uds \<and> ep_wf ep' \<and> rx_request_id (ep_rx ep') = 0x7E0 \<and> rx_config (ep_rx ep') = isotp_config_default \<and>
    cfg_request_id (ep_config ep') = 0x7E0 \<and> cfg_functional_request_id (ep_config ep') = 0x7DF \<and>
    cfg_tx_error (ep_config ep') = cfg_tx_error (ep_config ep)"
proof -
  note f = demo_frame[OF assms(6,7)]
  have ad: "addressed ep (can_frame 0x7E0 (of_nat (length m) # m)) UDS_ADDRESS_PHYSICAL"
    using assms(4,5) by (simp add: addressed_def frame_is_functional_def can_frame_def)
  have "rx_request_id (ep_rx ep) = cfg_request_id (ep_config ep)" "frame_valid (rx_config (ep_rx ep)) (can_frame 0x7E0 (of_nat (length m) # m))"
    using assms(2-4) f(2) by simp_all
  from receive_served[OF assms(1) this(1) f(1) this(2) f(3) ad assms(8-10), of zero_event] obtain e rc where
    r: "uds_isotp_endpoint_receive zero_event ep (can_frame 0x7E0 (of_nat (length m) # m)) now = start_response e rsp rlen rc now"
    and e: "handed_over ep uds e" by blast
  from wpD[OF receive_wf[OF assms(1) f(1), of zero_event now]] obtain st ep' where
    s: "uds_isotp_endpoint_receive zero_event ep (can_frame 0x7E0 (of_nat (length m) # m)) now = Some (st, ep')" "ep_wf ep'" by auto
  note k = start_response_keeps[OF s(1)[unfolded r]]
  from s e k assms(2-5) show ?thesis by (intro exI[of _ st] exI[of _ ep']) (simp add: handed_over_def)
qed

theorem reset_after_session_change_lost_witness:
  "\<exists>ep ep1 ep2. run ep_step (demo_endpoint 3) [EpReceive zero_event (can_frame 0x7E0 [2, 0x10, 1]) 8] = Some ep \<and>
     ep_step ep (EpReceive zero_event (can_frame 0x7E0 [2, 0x11, 1]) 9) = Some ep1 \<and>
     run ep_step ep1 [EpProcess 10, EpTick 11, EpReceive zero_event (can_frame 0x7E0 [2, 0x3E, 0]) 12, EpProcess 13] = Some ep2 \<and>
     srv_context (ep_uds ep2) = srv_context (ep_uds ep1) \<and> response_reset_pending (ep_uds ep2)"
proof -
  let ?d = "demo_endpoint 3"
  have d: "ep_wf ?d" "rx_request_id (ep_rx ?d) = 0x7E0" "rx_config (ep_rx ?d) = isotp_config_default"
    "cfg_request_id (ep_config ?d) = 0x7E0" "cfg_functional_request_id (ep_config ?d) = 0x7DF" "\<not> response_reset_pending (ep_uds ?d)"
    by (simp_all add: demo_endpoint_wf)
      (simp_all add: demo_endpoint_def demo_driver_def rx_blank_def isotp_rx_init_def response_reset_pending_def
        uds_server_reset_pending_def demo_server_def)
  obtain u rsp where u: "uds_server_handle_addressed (ep_uds ?d) [0x10, 1] (ep_response ?d) 0 UDS_ADDRESS_PHYSICAL 8 =
      Some (UDS_RESULT_OK, u, rsp, 6)" "reset_pending u" "pending_reset_subfunction u = 0" "\<not> reset_ready u"
    "session u = 1" "callbacks u = demo_callbacks"
    using demo_default_session[of "replicate UDS_MAX_RESPONSE_LENGTH 0" 8] by auto
  from demo_receive[OF d(1-5) _ _ d(6) u(1)] obtain st ep where
    e: "uds_isotp_endpoint_receive zero_event ?d (can_frame 0x7E0 [2, 0x10, 1]) 8 = Some (st, ep)" "ep_uds ep = u" "ep_wf ep"
    "rx_request_id (ep_rx ep) = 0x7E0" "rx_config (ep_rx ep) = isotp_config_default" "cfg_request_id (ep_config ep) = 0x7E0"
    "cfg_functional_request_id (ep_config ep) = 0x7DF" "cfg_tx_error (ep_config ep) = cfg_tx_error (ep_config ?d)"
    by auto
  have run1: "run ep_step ?d [EpReceive zero_event (can_frame 0x7E0 [2, 0x10, 1]) 8] = Some ep" using e(1) by simp
  have ok1: "list_all ep_ok [EpReceive zero_event (can_frame 0x7E0 [2, 0x10, 1]) 8]" by (simp add: wf_can_frame)
  have hs: "handshake ep" using eph.run_inv[OF _ ok1 run1] demo_handshake d(1) by blast
  have nrp: "\<not> response_reset_pending (ep_uds ep)" using e(2) u(3) by (simp add: response_reset_pending_def)
  have buf: "length (ep_response ep) = UDS_MAX_RESPONSE_LENGTH" using e(3) by (simp add: ep_wf_def)
  obtain rsp2 where u2: "uds_server_handle_addressed (ep_uds ep) [0x11, 1] (ep_response ep) 0 UDS_ADDRESS_PHYSICAL 9 =
      Some (UDS_RESULT_OK, mark_reset (dispatched u UDS_ADDRESS_PHYSICAL 9) 1, rsp2, 2)"
    using demo_reset_request[OF buf, of u 9] u(5,6) e(2) by auto
  from demo_receive[OF e(3-7) _ _ nrp u2] obtain st1 ep1 where
    r: "uds_isotp_endpoint_receive zero_event ep (can_frame 0x7E0 [2, 0x11, 1]) 9 = Some (st1, ep1)"
    and ep1: "ep_uds ep1 = mark_reset (dispatched u UDS_ADDRESS_PHYSICAL 9) 1" "ep_wf ep1"
    by auto
  have new: "response_reset_pending (ep_uds ep1)"
    by (simp add: ep1(1) mark_reset_def response_reset_pending_def uds_server_reset_pending_def)
  let ?es = "[EpProcess 10, EpTick 11, EpReceive zero_event (can_frame 0x7E0 [2, 0x3E, 0]) 12, EpProcess 13]"
  have ok: "list_all ep_ok ?es" by (simp add: wf_can_frame)
  from epm.run_safe[OF ep1(2) ok] obtain ep2 where run2: "run ep_step ep1 ?es = Some ep2" by blast
  have err: "no_tx_error (ep_config ep)" using e(8) by (simp add: no_tx_error_def demo_endpoint_def demo_driver_def)
  from reset_after_session_change_lost[OF hs e(3) _ err _ _ nrp r new ok run2] e(2) u(2,4)
  have "srv_context (ep_uds ep2) = srv_context (ep_uds ep1) \<and> response_reset_pending (ep_uds ep2)"
    by (simp add: wf_can_frame)
  then show ?thesis using run1 r run2 by auto
qed


end
