(* ===== verification/Uds_Memory.thy ===== *)
theory Uds_Memory
  imports Uds_Server
begin

text \<open>
  The memory services ReadMemoryByAddress (0x23) and WriteMemoryByAddress (0x3D) of
  \<open>library/src/uds_memory.c\<close>: decoding of the address-and-length format, the region table, the
  access rules and the two handlers. The world a handler acts on is the context of the drivers
  and of the condition check, and the address space the handlers copy from and to when a region
  has no driver.
\<close>

section \<open>State\<close>

definition UDS_MEMORY_FLAG_READ :: u32 where "UDS_MEMORY_FLAG_READ = 1"
definition UDS_MEMORY_FLAG_WRITE :: u32 where "UDS_MEMORY_FLAG_WRITE = 2"
definition UDS_MEMORY_FLAG_SECURE_READ :: u32 where "UDS_MEMORY_FLAG_SECURE_READ = 4"
definition UDS_MEMORY_FLAG_SECURE_WRITE :: u32 where "UDS_MEMORY_FLAG_SECURE_WRITE = 8"
definition UDS_MEMORY_FLAG_PROG_ONLY :: u32 where "UDS_MEMORY_FLAG_PROG_ONLY = 16"

lemmas memory_flag_defs = UDS_MEMORY_FLAG_READ_def UDS_MEMORY_FLAG_WRITE_def
  UDS_MEMORY_FLAG_SECURE_READ_def UDS_MEMORY_FLAG_SECURE_WRITE_def UDS_MEMORY_FLAG_PROG_ONLY_def

text \<open>A read driver returns the bytes it stored into the buffer it was given.\<close>

type_synonym 'c UdsMemoryReadDriverFn = "'c \<Rightarrow> u32 \<Rightarrow> u32 \<Rightarrow> UdsCallbackResult \<times> bytes \<times> 'c"
type_synonym 'c UdsMemoryWriteDriverFn = "'c \<Rightarrow> u32 \<Rightarrow> bytes \<Rightarrow> UdsCallbackResult \<times> 'c"

record 'c UdsMemoryRegion =
  start_address :: u32
  region_size :: u32
  region_flags :: u32
  region_read :: "'c UdsMemoryReadDriverFn option"
  region_write :: "'c UdsMemoryWriteDriverFn option"

record ('c, 's, 'p) UdsMemoryConfig =
  regions :: "'c UdsMemoryRegion list option"
  max_read_size :: u32
  max_write_size :: u32
  condition_check :: "('c \<Rightarrow> u8 \<Rightarrow> u32 \<Rightarrow> u32 \<Rightarrow> bool \<times> 'c) option"
  mem_server :: "('s, 'p) UdsServer option"

record ('c, 's, 'p) UdsMemoryManager =
  mem_config :: "('c, 's, 'p) UdsMemoryConfig"

record 'c memory_world =
  driver_ctx :: 'c
  address_space :: "u32 \<Rightarrow> u8"

section \<open>Decoding\<close>

text \<open>The lengths of the address and of the size, from the low and the high nibble.\<close>

definition uds_memory_decode_alfid :: "u8 \<Rightarrow> (u8 \<times> u8) option" where
  "uds_memory_decode_alfid alfid =
     (let a = alfid AND 0x0F; s = drop_bit 4 alfid AND 0x0F in
      if a < 1 \<or> a > 4 \<or> s < 1 \<or> s > 4 then None else Some (a, s))"

text \<open>The outer option is undefined behaviour, the inner one the boolean result.\<close>

definition uds_memory_decode_u32 :: "bytes \<Rightarrow> nat \<Rightarrow> u8 \<Rightarrow> u32 option option" where
  "uds_memory_decode_u32 buf i len =
     (if len < 1 \<or> len > 4 then Some None
      else do { v \<leftarrow> read_be_loop buf i (unat len) 0; Some (Some v) })"

definition resolve_manager :: "'m option \<Rightarrow> 'm option \<Rightarrow> 'm option" where
  "resolve_manager context_manager s_active_memory_manager =
     (case context_manager of Some m \<Rightarrow> Some m | None \<Rightarrow> s_active_memory_manager)"

definition region_contains :: "'c UdsMemoryRegion \<Rightarrow> u32 \<Rightarrow> u64 \<Rightarrow> bool" where
  "region_contains reg address end_addr =
     (start_address reg \<le> address \<and> end_addr \<le> (ucast (start_address reg) + ucast (region_size reg) :: u64))"

definition find_region :: "('c, 's, 'p) UdsMemoryConfig \<Rightarrow> u32 \<Rightarrow> u32 \<Rightarrow> 'c UdsMemoryRegion option" where
  "find_region config address len =
     (case regions config of
        None \<Rightarrow> None
      | Some regs \<Rightarrow>
          if len = 0 then None
          else let end_addr = ucast address + ucast len :: u64 in
            if end_addr > 0x100000000 then None
            else find (\<lambda>reg. region_contains reg address end_addr) regs)"

text \<open>Either the error or the header length, the address and the size.\<close>

definition parse_memory_request :: "bytes \<Rightarrow> bool \<Rightarrow> (UdsCallbackResult + u16 \<times> u32 \<times> u32) option" where
  "parse_memory_request request is_write =
     (if request_len request < (if is_write then 5 else 4) then Some (Inl UDS_RESULT_INVALID_FORMAT)
      else do {
        alfid \<leftarrow> peek request 1;
        (case uds_memory_decode_alfid alfid of
           None \<Rightarrow> Some (Inl UDS_RESULT_OUT_OF_RANGE)
         | Some (addr_len, size_len) \<Rightarrow>
             let header_len :: u16 = 2 + ucast addr_len + ucast size_len in
             if (if is_write then request_len request \<le> header_len else request_len request \<noteq> header_len)
             then Some (Inl UDS_RESULT_INVALID_FORMAT)
             else do {
               address \<leftarrow> uds_memory_decode_u32 request 2 addr_len;
               len \<leftarrow> uds_memory_decode_u32 request (2 + unat addr_len) size_len;
               let address = case_option 0 id address;
               let len = case_option 0 id len;
               (if is_write \<and> ucast header_len + len \<noteq> (ucast (request_len request) :: u32)
                then Some (Inl UDS_RESULT_INVALID_FORMAT)
                else if len = 0 then Some (Inl UDS_RESULT_OUT_OF_RANGE)
                else Some (Inr (header_len, address, len)))
             })
      })"

section \<open>Access rules\<close>

definition validate_memory_access ::
  "('c, 's, 'p) UdsMemoryManager option \<Rightarrow> u8 \<Rightarrow> u32 \<Rightarrow> u32 \<Rightarrow> u32 \<Rightarrow> u32 \<Rightarrow> u32 \<Rightarrow> 'c \<Rightarrow>
     (UdsCallbackResult + 'c UdsMemoryRegion) \<times> 'c" where
  "validate_memory_access mgr sid address len max_size flag_req flag_sec ctx =
     (case mgr of
        None \<Rightarrow> (Inl UDS_RESULT_OUT_OF_RANGE, ctx)
      | Some m \<Rightarrow>
          if regions (mem_config m) = None then (Inl UDS_RESULT_OUT_OF_RANGE, ctx)
          else if max_size > 0 \<and> len > max_size then (Inl UDS_RESULT_OUT_OF_RANGE, ctx)
          else case (case condition_check (mem_config m) of
                       Some check \<Rightarrow> check ctx sid address len | None \<Rightarrow> (True, ctx)) of
            (allowed, ctx) \<Rightarrow>
              if \<not> allowed then (Inl UDS_RESULT_DENIED, ctx)
              else case find_region (mem_config m) address len of
                None \<Rightarrow> (Inl UDS_RESULT_OUT_OF_RANGE, ctx)
              | Some reg \<Rightarrow>
                  if region_flags reg AND flag_req = 0 then (Inl UDS_RESULT_OUT_OF_RANGE, ctx)
                  else
                    let sess = (case mem_server (mem_config m) of
                          Some server \<Rightarrow> uds_server_session server | None \<Rightarrow> UDS_SESSION_DEFAULT);
                        level = (case mem_server (mem_config m) of
                          Some server \<Rightarrow> uds_server_security_level server | None \<Rightarrow> 0) in
                    if region_flags reg AND UDS_MEMORY_FLAG_PROG_ONLY \<noteq> 0 \<and> sess \<noteq> UDS_SESSION_PROGRAMMING
                    then (Inl UDS_RESULT_DENIED, ctx)
                    else if region_flags reg AND flag_sec \<noteq> 0 \<and> level = 0
                    then (Inl UDS_RESULT_SECURITY_DENIED, ctx)
                    else (Inr reg, ctx))"

section \<open>Handlers\<close>

definition uds_memory_read_handler ::
  "('c, 's, 'p) UdsMemoryManager option \<Rightarrow> 'c memory_world \<Rightarrow> bytes \<Rightarrow> bytes \<Rightarrow> u16 \<Rightarrow>
     (UdsCallbackResult \<times> bytes \<times> u16 \<times> 'c memory_world) option" where
  "uds_memory_read_handler mgr w request response rlen = do {
     parsed \<leftarrow> parse_memory_request request False;
     (case parsed of
        Inl err \<Rightarrow> Some (err, response, rlen, w)
      | Inr (header_len, address, len) \<Rightarrow>
          (case validate_memory_access mgr 0x23 address len
                  (case mgr of Some m \<Rightarrow> max_read_size (mem_config m) | None \<Rightarrow> 0)
                  UDS_MEMORY_FLAG_READ UDS_MEMORY_FLAG_SECURE_READ (driver_ctx w) of
             (Inl err, ctx) \<Rightarrow> Some (err, response, rlen, w\<lparr> driver_ctx := ctx \<rparr>)
           | (Inr reg, ctx) \<Rightarrow>
               let w = w\<lparr> driver_ctx := ctx \<rparr> in
               if capacity response < ucast (1 + len)
               then Some (UDS_RESULT_RESPONSE_TOO_LONG, response, rlen, w)
               else (case (case region_read reg of
                             Some read \<Rightarrow> read (driver_ctx w) address len
                           | None \<Rightarrow> (UDS_RESULT_OK, memory_at (address_space w) address (unat len), driver_ctx w)) of
                 (result, data, ctx) \<Rightarrow> do {
                   let w = w\<lparr> driver_ctx := ctx \<rparr>;
                   response \<leftarrow> poke_list response 1 data;
                   (if result \<noteq> UDS_RESULT_OK then Some (result, response, rlen, w)
                    else do {
                      response \<leftarrow> poke response 0 0x63;
                      Some (UDS_RESULT_OK, response, ucast (1 + len), w)
                    })
                 })))
   }"

definition uds_memory_write_handler ::
  "('c, 's, 'p) UdsMemoryManager option \<Rightarrow> 'c memory_world \<Rightarrow> bytes \<Rightarrow> bytes \<Rightarrow> u16 \<Rightarrow>
     (UdsCallbackResult \<times> bytes \<times> u16 \<times> 'c memory_world) option" where
  "uds_memory_write_handler mgr w request response rlen = do {
     parsed \<leftarrow> parse_memory_request request True;
     (case parsed of
        Inl err \<Rightarrow> Some (err, response, rlen, w)
      | Inr (header_len, address, len) \<Rightarrow>
          (case validate_memory_access mgr 0x3D address len
                  (case mgr of Some m \<Rightarrow> max_write_size (mem_config m) | None \<Rightarrow> 0)
                  UDS_MEMORY_FLAG_WRITE UDS_MEMORY_FLAG_SECURE_WRITE (driver_ctx w) of
             (Inl err, ctx) \<Rightarrow> Some (err, response, rlen, w\<lparr> driver_ctx := ctx \<rparr>)
           | (Inr reg, ctx) \<Rightarrow> do {
               let w = w\<lparr> driver_ctx := ctx \<rparr>;
               let data = take (unat len) (drop (unat header_len) request);
               let (result, w) = (case region_write reg of
                     Some write \<Rightarrow> (case write (driver_ctx w) address data of
                       (result, ctx) \<Rightarrow> (result, w\<lparr> driver_ctx := ctx \<rparr>))
                   | None \<Rightarrow> (UDS_RESULT_OK, w\<lparr> address_space := memory_put (address_space w) address data \<rparr>));
               (if result \<noteq> UDS_RESULT_OK then Some (result, response, rlen, w)
                else if capacity response < header_len then Some (UDS_RESULT_RESPONSE_TOO_LONG, response, rlen, w)
                else do {
                  response \<leftarrow> poke response 0 0x7D;
                  response \<leftarrow> copy_loop response 1 request 1 (unat header_len - 1);
                  Some (UDS_RESULT_OK, response, header_len, w)
                })
             }))
   }"

definition uds_memory_check_access :: "'m \<Rightarrow> u8 \<Rightarrow> bytes \<Rightarrow> UdsCallbackResult" where
  "uds_memory_check_access ctx sid request = UDS_RESULT_OK"

definition uds_memory_init :: "('c, 's, 'p) UdsMemoryConfig \<Rightarrow> ('c, 's, 'p) UdsMemoryManager" where
  "uds_memory_init config = \<lparr> mem_config = config \<rparr>"

definition uds_memory_set_server ::
  "('c, 's, 'p) UdsMemoryManager \<Rightarrow> ('s, 'p) UdsServer option \<Rightarrow> ('c, 's, 'p) UdsMemoryManager" where
  "uds_memory_set_server mgr server =
     mgr\<lparr> mem_config := (mem_config mgr)\<lparr> mem_server := server \<rparr> \<rparr>"

section \<open>Requests\<close>

lemma decode_alfid_range:
  assumes "uds_memory_decode_alfid b = Some (al, sl)"
  shows "1 \<le> unat al" "unat al \<le> 4" "1 \<le> unat sl" "unat sl \<le> 4"
  using assms by (auto simp: uds_memory_decode_alfid_def Let_def word_less_nat_alt split: if_splits)

lemma decode_u32_in_range:
  "1 \<le> unat l \<Longrightarrow> unat l \<le> 4 \<Longrightarrow>
     uds_memory_decode_u32 buf i l = map_option Some (read_be_loop buf i (unat l) 0)"
  by (cases "read_be_loop buf i (unat l) 0") (auto simp: uds_memory_decode_u32_def word_less_nat_alt)

lemma unat_header:
  assumes "unat al \<le> 4" "unat sl \<le> 4"
  shows "unat (2 + ucast (al :: u8) + ucast (sl :: u8) :: u16) = 2 + unat al + unat sl"
  using assms by (simp add: unat_word_ariths)

lemma read_be_loop_cong:
  "i + n \<le> length xs \<Longrightarrow> i + n \<le> length ys \<Longrightarrow> (\<And>j. i \<le> j \<Longrightarrow> j < i + n \<Longrightarrow> xs ! j = ys ! j) \<Longrightarrow>
     read_be_loop xs i n acc = read_be_loop ys i n acc"
proof (induction n arbitrary: i acc)
  case (Suc n)
  have "read_be_loop xs (Suc i) n c = read_be_loop ys (Suc i) n c" for c
    using Suc.prems by (intro Suc.IH) auto
  with Suc.prems show ?case by (simp add: mem_simps)
qed simp

lemma parse_safe:
  assumes "length request < 65536"
  shows "\<exists>x. parse_memory_request request is_write = Some x"
proof (cases "request_len request < (if is_write then 5 else 4)")
  case True
  then show ?thesis by (simp add: parse_memory_request_def)
next
  case False
  then have len: "4 \<le> length request"
    using assms by (cases is_write) (auto simp: word_less_nat_alt unat_of_nat_16)
  show ?thesis
  proof (cases "uds_memory_decode_alfid (request ! 1)")
    case None
    with False len show ?thesis by (simp add: parse_memory_request_def mem_simps)
  next
    case (Some p)
    obtain al sl where p: "p = (al, sl)" by fastforce
    note r = decode_alfid_range[OF Some[unfolded p]]
    let ?h = "2 + ucast al + ucast sl :: u16"
    show ?thesis
    proof (cases "if is_write then request_len request \<le> ?h else request_len request \<noteq> ?h")
      case True
      with False len Some p show ?thesis by (simp add: parse_memory_request_def mem_simps Let_def)
    next
      case fits: False
      then have "2 + unat al + unat sl \<le> length request"
        using assms unat_header[OF r(2,4)]
        by (cases is_write) (auto simp: word_le_nat_alt unat_of_nat_16 not_le word_unat_eq_iff)
      then obtain a s where "read_be_loop request 2 (unat al) 0 = Some a"
        "read_be_loop request (2 + unat al) (unat sl) 0 = Some s"
        using read_be_loop_safe[of 2 "unat al" request 0] read_be_loop_safe[of "2 + unat al" "unat sl" request 0]
        by auto
      with False len Some p fits r show ?thesis
        by (simp add: parse_memory_request_def mem_simps Let_def decode_u32_in_range)
    qed
  qed
qed

lemma parse_Inr:
  assumes "parse_memory_request request is_write = Some (Inr (h, a, s))" "length request < 65536"
  obtains al sl where "uds_memory_decode_alfid (request ! 1) = Some (al, sl)"
    "unat h = 2 + unat al + unat sl" "unat al \<in> {1..4}" "unat sl \<in> {1..4}" "s \<noteq> 0"
    "length request = unat h + (if is_write then unat s else 0)"
    "read_be_loop request 2 (unat al) 0 = Some a" "read_be_loop request (2 + unat al) (unat sl) 0 = Some s"
proof -
  obtain al sl where d: "uds_memory_decode_alfid (request ! 1) = Some (al, sl)"
    using assms(1) by (auto simp: parse_memory_request_def peek_def split: if_splits option.splits)
  note r = decode_alfid_range[OF d]
  have h: "h = 2 + ucast al + ucast sl" and s: "s \<noteq> 0"
    and fits: "\<not> (if is_write then request_len request \<le> h else request_len request \<noteq> h)"
    and sum: "is_write \<Longrightarrow> ucast h + s = (ucast (request_len request) :: u32)"
    and loops: "read_be_loop request 2 (unat al) 0 = Some a" "read_be_loop request (2 + unat al) (unat sl) 0 = Some s"
    using assms(1) d r
    by (auto simp: parse_memory_request_def peek_def Let_def decode_u32_in_range
        split: if_splits Option.bind_splits option.splits)
  have uh: "unat h = 2 + unat al + unat sl" using unat_header[OF r(2,4)] h by simp
  have "length request = unat h + (if is_write then unat s else 0)"
  proof (cases is_write)
    case False
    with fits assms(2) show ?thesis by (auto simp: unat_of_nat_16)
  next
    case True
    have l: "unat (ucast (request_len request) :: u32) = length request"
      using assms(2) by (simp add: unat_of_nat_16)
    have "s = ucast (request_len request) - ucast h" using sum[OF True] by (simp add: eq_diff_eq add.commute)
    moreover have "(ucast h :: u32) \<le> ucast (request_len request)"
      using fits True by (simp add: word_le_nat_alt)
    ultimately have "unat s = length request - unat h" using l by (simp add: unat_sub_32)
    moreover have "unat h \<le> length request"
      using fits True assms(2) by (simp add: word_le_nat_alt unat_of_nat_16)
    ultimately show ?thesis using True by simp
  qed
  then show thesis using that[OF d uh _ _ s _ loops] r by simp
qed

section \<open>Regions and access\<close>

text \<open>What the region table grants: the specification of the access rules.\<close>

definition access_granted ::
  "('c, 's, 'p) UdsMemoryManager option \<Rightarrow> u32 \<Rightarrow> u32 \<Rightarrow> u32 \<Rightarrow> u32 \<Rightarrow> 'c UdsMemoryRegion \<Rightarrow> bool" where
  "access_granted mgr flag_req flag_sec address len reg \<longleftrightarrow> (\<exists>m regs. mgr = Some m \<and>
     regions (mem_config m) = Some regs \<and> reg \<in> set regs \<and> len \<noteq> 0 \<and>
     unat address + unat len \<le> 4294967296 \<and> unat (start_address reg) \<le> unat address \<and>
     unat address + unat len \<le> unat (start_address reg) + unat (region_size reg) \<and>
     region_flags reg AND flag_req \<noteq> 0 \<and>
     (region_flags reg AND UDS_MEMORY_FLAG_PROG_ONLY = 0 \<or>
        (\<exists>server. mem_server (mem_config m) = Some server \<and> uds_server_session server = UDS_SESSION_PROGRAMMING)) \<and>
     (region_flags reg AND flag_sec = 0 \<or>
        (\<exists>server. mem_server (mem_config m) = Some server \<and> uds_server_security_level server \<noteq> 0)))"

lemma unat_ucast_32_64 [simp]: "unat (ucast (x :: u32) :: u64) = unat x"
proof -
  have "unat x < 18446744073709551616" using unat_u32_lt[of x] by linarith
  then show ?thesis by (simp add: unsigned_ucast_eq take_bit_nat_eq_self_iff)
qed

lemma unat_sum_64: "unat (ucast (x :: u32) + ucast (y :: u32) :: u64) = unat x + unat y"
proof -
  have "unat x + unat y < 18446744073709551616" using unat_u32_lt[of x] unat_u32_lt[of y] by linarith
  then show ?thesis by (simp add: unat_word_ariths)
qed

lemma find_region_Some:
  assumes "find_region config address len = Some reg"
  obtains regs where "regions config = Some regs" "reg \<in> set regs" "len \<noteq> 0"
    "unat address + unat len \<le> 4294967296" "unat (start_address reg) \<le> unat address"
    "unat address + unat len \<le> unat (start_address reg) + unat (region_size reg)"
proof -
  let ?e = "ucast address + ucast len :: u64"
  obtain regs where r: "regions config = Some regs" "len \<noteq> 0" "\<not> 0x100000000 < ?e"
    "find (\<lambda>reg. region_contains reg address ?e) regs = Some reg"
    using assms by (auto simp: find_region_def Let_def split: option.splits if_splits)
  then have "reg \<in> set regs" "region_contains reg address ?e"
    by (auto simp: find_Some_iff)
  with r that show thesis
    by (auto simp: region_contains_def word_le_nat_alt word_less_nat_alt unat_sum_64)
qed

lemma validate_Inr:
  assumes "validate_memory_access mgr sid address len max_size flag_req flag_sec ctx = (Inr reg, ctx')"
  shows "access_granted mgr flag_req flag_sec address len reg \<and> (max_size = 0 \<or> len \<le> max_size)"
proof -
  obtain m where m: "mgr = Some m" "find_region (mem_config m) address len = Some reg"
    and rest: "region_flags reg AND flag_req \<noteq> 0" "max_size = 0 \<or> len \<le> max_size"
    "region_flags reg AND UDS_MEMORY_FLAG_PROG_ONLY = 0 \<or>
       (\<exists>server. mem_server (mem_config m) = Some server \<and> uds_server_session server = UDS_SESSION_PROGRAMMING)"
    "region_flags reg AND flag_sec = 0 \<or>
       (\<exists>server. mem_server (mem_config m) = Some server \<and> uds_server_security_level server \<noteq> 0)"
    using assms
    by (auto simp: validate_memory_access_def Let_def not_less word_neq_0_conv
        split: option.splits if_splits prod.splits)
  from m(2) show ?thesis
    by (rule find_region_Some) (use m(1) rest in \<open>auto simp: access_granted_def\<close>)
qed

section \<open>The handlers\<close>

text \<open>The contract of the read drivers, and a bound on the reads that keeps their length in 16 bits.\<close>

definition read_drivers_ok :: "('c, 's, 'p) UdsMemoryManager \<Rightarrow> bool" where
  "read_drivers_ok m \<longleftrightarrow> (\<forall>regs reg f ctx a n result data ctx'.
     regions (mem_config m) = Some regs \<longrightarrow> reg \<in> set regs \<longrightarrow> region_read reg = Some f \<longrightarrow>
     f ctx a n = (result, data, ctx') \<longrightarrow>
       length data \<le> unat n \<and> (result = UDS_RESULT_OK \<longrightarrow> length data = unat n))"

definition reads_bounded :: "('c, 's, 'p) UdsMemoryManager \<Rightarrow> bool" where
  "reads_bounded m \<longleftrightarrow> (max_read_size (mem_config m) \<noteq> 0 \<and> unat (max_read_size (mem_config m)) \<le> 65534) \<or>
     (\<forall>regs reg. regions (mem_config m) = Some regs \<longrightarrow> reg \<in> set regs \<longrightarrow> unat (region_size reg) \<le> 65534)"

definition read_answer ::
  "('c, 's, 'p) UdsMemoryManager option \<Rightarrow> 'c memory_world \<Rightarrow> bytes \<Rightarrow> bytes \<Rightarrow> u16 \<Rightarrow> bool" where
  "read_answer mgr w request response rlen \<longleftrightarrow> (\<exists>h reg address len data.
     parse_memory_request request False = Some (Inr (h, address, len)) \<and>
     access_granted mgr UDS_MEMORY_FLAG_READ UDS_MEMORY_FLAG_SECURE_READ address len reg \<and>
     unat rlen = 1 + unat len \<and> unat rlen \<le> length response \<and>
     take (unat rlen) response = 0x63 # data \<and> length data = unat len \<and>
     (region_read reg \<noteq> None \<or> data = memory_at (address_space w) address (unat len)))"

lemma unat_len_16:
  assumes "unat (len :: u32) \<le> 65534"
  shows "unat (ucast (1 + len) :: u16) = 1 + unat len"
proof -
  have "unat (1 + len) = 1 + unat len" using assms by (simp add: unat_add_32)
  then show ?thesis using assms by (simp add: unsigned_ucast_eq take_bit_nat_eq_self)
qed

lemma read_handler_wp:
  assumes "length request < 65536" "length response < 65536" "read_drivers_ok m" "reads_bounded m"
  shows "wp (uds_memory_read_handler (Some m) w request response rlen) (\<lambda>(result, response', rlen', w').
     length response' = length response \<and> address_space w' = address_space w \<and>
     (result = UDS_RESULT_OK \<longrightarrow> read_answer (Some m) w request response' rlen'))"
proof -
  obtain x where x: "parse_memory_request request False = Some x" using parse_safe[OF assms(1)] by blast
  show ?thesis
  proof (cases x)
    case (Inl err)
    with x have "err \<noteq> UDS_RESULT_OK"
      by (auto simp: parse_memory_request_def peek_def Let_def split: if_splits option.splits Option.bind_splits)
    with Inl x show ?thesis by (simp add: uds_memory_read_handler_def wp_simps)
  next
    case (Inr y)
    obtain h a len where y: "y = (h, a, len)" by (metis prod.exhaust)
    obtain v ctx where v: "validate_memory_access (Some m) 0x23 a len (max_read_size (mem_config m))
        UDS_MEMORY_FLAG_READ UDS_MEMORY_FLAG_SECURE_READ (driver_ctx w) = (v, ctx)" by fastforce
    show ?thesis
    proof (cases v)
      case (Inl err)
      then have "err \<noteq> UDS_RESULT_OK"
        using v by (auto simp: validate_memory_access_def Let_def split: option.splits if_splits prod.splits)
      with Inl Inr x y v show ?thesis by (simp add: uds_memory_read_handler_def wp_simps)
    next
      case v_ok: (Inr reg)
      from validate_Inr[OF v[unfolded v_ok]]
      have granted: "access_granted (Some m) UDS_MEMORY_FLAG_READ UDS_MEMORY_FLAG_SECURE_READ a len reg"
        and max: "max_read_size (mem_config m) = 0 \<or> len \<le> max_read_size (mem_config m)" by auto
      have reg: "\<exists>regs. regions (mem_config m) = Some regs \<and> reg \<in> set regs" "len \<noteq> 0"
        "unat len \<le> unat (region_size reg)"
        using granted by (auto simp: access_granted_def)
      have bound: "unat len \<le> 65534"
        using assms(4) max reg by (force simp: reads_bounded_def word_le_nat_alt intro: le_trans)
      note l16 = unat_len_16[OF bound]
      obtain result data ctx' where out: "(case region_read reg of Some read \<Rightarrow> read ctx a len
          | None \<Rightarrow> (UDS_RESULT_OK, memory_at (address_space w) a (unat len), ctx)) = (result, data, ctx')"
        by (metis prod.exhaust)
      have d: "length data \<le> unat len" "result = UDS_RESULT_OK \<Longrightarrow> length data = unat len"
        "region_read reg \<noteq> None \<or> data = memory_at (address_space w) a (unat len)"
      proof -
        obtain regs where r: "regions (mem_config m) = Some regs" "reg \<in> set regs" using reg(1) by blast
        have "length data \<le> unat len \<and> (result = UDS_RESULT_OK \<longrightarrow> length data = unat len) \<and>
            (region_read reg \<noteq> None \<or> data = memory_at (address_space w) a (unat len))"
        proof (cases "region_read reg")
          case None
          with out show ?thesis by auto
        next
          case (Some f)
          with out have "f ctx a len = (result, data, ctx')" by simp
          with Some assms(3) r show ?thesis unfolding read_drivers_ok_def by blast
        qed
        then show "length data \<le> unat len" "result = UDS_RESULT_OK \<Longrightarrow> length data = unat len"
          "region_read reg \<noteq> None \<or> data = memory_at (address_space w) a (unat len)" by auto
      qed
      show ?thesis
      proof (cases "capacity response < ucast (1 + len)")
        case True
        with Inr x y v v_ok show ?thesis by (simp add: uds_memory_read_handler_def wp_simps)
      next
        case False
        then have room: "1 + unat len \<le> length response"
          using assms(2) l16 by (simp add: not_less word_le_nat_alt unat_of_nat_16)
        define response1 where "response1 = take 1 response @ data @ drop (1 + length data) response"
        have p: "poke_list response 1 data = Some response1"
          using room d(1) by (simp add: response1_def poke_list_closed)
        have len1: "length response1 = length response" using poke_list_length[OF p] .
        have ans: "result = UDS_RESULT_OK \<Longrightarrow> read_answer (Some m) w request (response1[0 := 0x63]) (ucast (1 + len))"
        proof -
          assume ok: "result = UDS_RESULT_OK"
          have "take (1 + length data) (response1[0 := 0x63]) = 0x63 # data"
            using room by (cases response) (auto simp: response1_def)
          then show ?thesis
            using granted d ok l16 room len1 x Inr y unfolding read_answer_def
            by (intro exI[of _ h] exI[of _ reg] exI[of _ a] exI[of _ len] exI[of _ data]) simp
        qed
        have "0 < length response1" using len1 room by linarith
        with ans False Inr x y v v_ok out p len1 show ?thesis
          by (cases "region_read reg") (simp_all add: uds_memory_read_handler_def wp_simps Let_def)
      qed
    qed
  qed
qed

lemma write_handler_wp:
  assumes "length request < 65536" "length response < 65536"
  shows "wp (uds_memory_write_handler mgr w request response rlen) (\<lambda>(result, response', rlen', w').
     length response' = length response \<and>
     (address_space w' = address_space w \<and> result \<noteq> UDS_RESULT_OK \<or>
      (\<exists>h a len reg. parse_memory_request request True = Some (Inr (h, a, len)) \<and>
         access_granted mgr UDS_MEMORY_FLAG_WRITE UDS_MEMORY_FLAG_SECURE_WRITE a len reg \<and>
         address_space w' = (if region_write reg = None then memory_put (address_space w) a (drop (unat h) request)
                             else address_space w) \<and>
         (result = UDS_RESULT_OK \<longrightarrow> rlen' = h \<and> unat h \<le> length response \<and>
            take (unat h) response' = 0x7D # take (unat h - 1) (drop 1 request)))))"
proof -
  obtain x where x: "parse_memory_request request True = Some x" using parse_safe[OF assms(1)] by blast
  show ?thesis
  proof (cases x)
    case (Inl err)
    with x have "err \<noteq> UDS_RESULT_OK"
      by (auto simp: parse_memory_request_def peek_def Let_def split: if_splits option.splits Option.bind_splits)
    with Inl x show ?thesis by (simp add: uds_memory_write_handler_def wp_simps)
  next
    case (Inr y)
    obtain h a len where y: "y = (h, a, len)" by (metis prod.exhaust)
    note parsed = x[unfolded Inr y]
    obtain al sl where h: "unat h = 2 + unat al + unat (sl :: u8)" "unat (al :: u8) \<in> {1..4}" "unat sl \<in> {1..4}"
      and lr: "length request = unat h + unat len"
      using parse_Inr[OF parsed assms(1)] by (metis (full_types))
    obtain v ctx where v: "validate_memory_access mgr 0x3D a len
        (case mgr of Some m \<Rightarrow> max_write_size (mem_config m) | None \<Rightarrow> 0)
        UDS_MEMORY_FLAG_WRITE UDS_MEMORY_FLAG_SECURE_WRITE (driver_ctx w) = (v, ctx)" by fastforce
    show ?thesis
    proof (cases v)
      case (Inl err)
      then have "err \<noteq> UDS_RESULT_OK"
        using v by (auto simp: validate_memory_access_def Let_def split: option.splits if_splits prod.splits)
      with Inl Inr x y v show ?thesis by (simp add: uds_memory_write_handler_def wp_simps)
    next
      case v_ok: (Inr reg)
      have granted: "access_granted mgr UDS_MEMORY_FLAG_WRITE UDS_MEMORY_FLAG_SECURE_WRITE a len reg"
        using validate_Inr[OF v[unfolded v_ok]] by simp
      define data where "data = drop (unat h) request"
      have data: "take (unat len) (drop (unat h) request) = data" using lr by (simp add: data_def)
      obtain result w1 where out: "(case region_write reg of
          Some write \<Rightarrow> (case write ctx a data of (result, ctx') \<Rightarrow> (result, w\<lparr> driver_ctx := ctx' \<rparr>))
        | None \<Rightarrow> (UDS_RESULT_OK, w\<lparr> driver_ctx := ctx, address_space := memory_put (address_space w) a data \<rparr>)) =
          (result, w1)" by fastforce
      have space: "address_space w1 = (if region_write reg = None then memory_put (address_space w) a data
          else address_space w)"
        using out by (auto split: option.splits prod.splits)
      define response1 where "response1 = take 1 (response[0 := 0x7D]) @ take (unat h - 1) (drop 1 request) @
        drop (unat h) (response[0 := 0x7D])"
      have fits: "\<not> capacity response < h \<Longrightarrow> unat h \<le> length response"
        using assms(2) by (simp add: not_less word_le_nat_alt unat_of_nat_16)
      have copied: "\<not> capacity response < h \<Longrightarrow>
          copy_loop (response[0 := 0x7D]) 1 request 1 (unat h - 1) = Some response1"
        using fits h lr by (simp add: copy_loop_closed response1_def)
      have r1: "\<not> capacity response < h \<Longrightarrow> length response1 = length response \<and>
          take (unat h) response1 = 0x7D # take (unat h - 1) (drop 1 request)"
        using fits h lr by (cases response) (auto simp: response1_def take_Cons')
      have eq: "uds_memory_write_handler mgr w request response rlen =
          (if result \<noteq> UDS_RESULT_OK then Some (result, response, rlen, w1)
           else if capacity response < h then Some (UDS_RESULT_RESPONSE_TOO_LONG, response, rlen, w1)
           else Some (UDS_RESULT_OK, response1, h, w1))"
      proof -
        have "(case region_write reg of
          Some write \<Rightarrow> (case write ctx a data of (result, ctx') \<Rightarrow> (result, w\<lparr> driver_ctx := ctx, driver_ctx := ctx' \<rparr>))
        | None \<Rightarrow> (UDS_RESULT_OK, w\<lparr> driver_ctx := ctx, address_space := memory_put (address_space w) a data \<rparr>)) =
          (result, w1)" using out by (simp split: option.splits)
        moreover have "\<not> capacity response < h \<Longrightarrow> 0 < length response" using fits h by linarith
        ultimately show ?thesis
          using parsed v v_ok data copied
          by (simp add: uds_memory_write_handler_def poke_def Let_def split: option.splits prod.splits)
      qed
      have post: "address_space w1 = (if region_write reg = None
          then memory_put (address_space w) a (drop (unat h) request) else address_space w)"
        using space by (simp add: data_def)
      show ?thesis
        unfolding eq using granted parsed post r1 fits by (auto simp: wp_simps)
    qed
  qed
qed

section \<open>Properties\<close>

text \<open>A manager with one readable and writable region of memory, for the witnesses.\<close>

definition demo_region :: "u32 \<Rightarrow> unit UdsMemoryRegion" where
  "demo_region n = \<lparr> start_address = 0x20000000, region_size = n, region_flags = 3, region_read = None,
     region_write = None \<rparr>"

definition demo_manager :: "u32 \<Rightarrow> (unit, unit, unit) UdsMemoryManager" where
  "demo_manager n = uds_memory_init \<lparr> regions = Some [demo_region n], max_read_size = 0, max_write_size = 0,
     condition_check = None, mem_server = None \<rparr>"

definition demo_world :: "unit memory_world" where
  "demo_world = \<lparr> driver_ctx = (), address_space = (\<lambda>a. 0) \<rparr>"

lemma demo_validate:
  "validate_memory_access (Some (demo_manager n)) sid a len 0 UDS_MEMORY_FLAG_READ UDS_MEMORY_FLAG_SECURE_READ () =
     (case find_region (mem_config (demo_manager n)) a len of
        Some reg \<Rightarrow> (Inr reg, ()) | None \<Rightarrow> (Inl UDS_RESULT_OUT_OF_RANGE, ()))"
  "validate_memory_access (Some (demo_manager n)) sid a len 0 UDS_MEMORY_FLAG_WRITE UDS_MEMORY_FLAG_SECURE_WRITE () =
     (case find_region (mem_config (demo_manager n)) a len of
        Some reg \<Rightarrow> (Inr reg, ()) | None \<Rightarrow> (Inl UDS_RESULT_OUT_OF_RANGE, ()))"
  by (simp_all add: validate_memory_access_def demo_manager_def uds_memory_init_def find_region_def Let_def
    demo_region_def memory_flag_defs)

lemma demo_manager_ok: "read_drivers_ok (demo_manager 0x100)" "reads_bounded (demo_manager 0x100)"
  by (simp_all add: read_drivers_ok_def reads_bounded_def demo_manager_def demo_region_def uds_memory_init_def)

lemma demo_config:
  "max_read_size (mem_config (demo_manager n)) = 0" "max_write_size (mem_config (demo_manager n)) = 0"
  "driver_ctx demo_world = ()" "address_space demo_world = (\<lambda>a. 0)"
  "region_read (demo_region n) = None" "region_write (demo_region n) = None"
  by (simp_all add: demo_manager_def uds_memory_init_def demo_world_def demo_region_def)

lemma demo_requests:
  "parse_memory_request [0x23, 0x24, 0x20, 0, 0, 0, 0xFF, 0xFF] False = Some (Inr (8, 0x20000000, 0xFFFF))"
  "parse_memory_request [0x3D, 0x14, 0x20, 0, 0, 0x10, 1, 9] True = Some (Inr (7, 0x20000010, 1))"
  "parse_memory_request [0x23, 0x14, 0x20, 0, 0, 0x10, 1] False = Some (Inr (7, 0x20000010, 1))"
  "find_region (mem_config (demo_manager 0x10000)) 0x20000000 0xFFFF = Some (demo_region 0x10000)"
  "find_region (mem_config (demo_manager 0x100)) 0x20000010 1 = Some (demo_region 0x100)"
  by (code_simp, code_simp, code_simp,
    simp_all add: find_region_def demo_manager_def uds_memory_init_def region_contains_def demo_region_def Let_def)

definition demo_written :: "unit memory_world" where
  "demo_written = demo_world\<lparr> address_space := memory_put (address_space demo_world) 0x20000010 [9] \<rparr>"

lemma demo_write:
  "uds_memory_write_handler (Some (demo_manager 0x100)) demo_world [0x3D, 0x14, 0x20, 0, 0, 0x10, 1, 9]
     [0, 0, 0, 0, 0, 0, 0, 0] 0 = Some (UDS_RESULT_OK, [0x7D, 0x14, 0x20, 0, 0, 0x10, 1, 0], 7, demo_written)"
  by (simp add: uds_memory_write_handler_def demo_requests demo_validate demo_config Let_def copy_loop_eq mem_simps
    demo_written_def take_Cons' drop_Cons')

lemma demo_read:
  "uds_memory_read_handler (Some (demo_manager 0x100)) demo_written [0x23, 0x14, 0x20, 0, 0, 0x10, 1]
     [0, 0, 0, 0, 0, 0, 0, 0] 0 = Some (UDS_RESULT_OK, [0x63, 9, 0, 0, 0, 0, 0, 0], 2, demo_written)"
  by (simp add: uds_memory_read_handler_def demo_requests demo_validate demo_config Let_def poke_list_eq mem_simps
    demo_written_def memory_at_def)

text \<open>
  ReadMemoryByAddress stays inside the response buffer. When the regions or the read limit keep
  a read below 65535 bytes and the drivers store what they were asked for, every request returns
  within the buffers, leaves the address space as it is, and a positive response is 0x63 and the
  bytes of a range inside a readable region whose session and security demands hold.
\<close>

theorem read_memory_within_bounds:
  assumes "length request < 65536" "length response < 65536" "read_drivers_ok m" "reads_bounded m"
  shows "\<exists>result response' rlen' w'.
     uds_memory_read_handler (Some m) w request response rlen = Some (result, response', rlen', w') \<and>
     length response' = length response \<and> address_space w' = address_space w \<and>
     (result = UDS_RESULT_OK \<longrightarrow> read_answer (Some m) w request response' rlen')"
  using wpD[OF read_handler_wp[OF assms, of w rlen]] by auto

theorem read_memory_within_bounds_witness:
  "\<exists>result response' rlen' w'.
     uds_memory_read_handler (Some (demo_manager 0x100)) demo_world [0x23, 0x14, 0x20, 0, 0, 0x10, 4] [0, 0, 0, 0, 0, 0, 0, 0] 0 =
       Some (result, response', rlen', w') \<and>
     length response' = length [0, 0, 0, 0, 0, 0, 0, 0 :: u8] \<and> address_space w' = address_space demo_world \<and>
     (result = UDS_RESULT_OK \<longrightarrow> read_answer (Some (demo_manager 0x100)) demo_world [0x23, 0x14, 0x20, 0, 0, 0x10, 4] response' rlen')"
  by (rule read_memory_within_bounds[OF _ _ demo_manager_ok]) simp_all

text \<open> Without such a bound it does not: a request for 65535 bytes of a region of 64 KiB passes the
  capacity check, which truncates the length of the response to 16 bits, and the copy runs past the
  end of an eight-byte response buffer.
\<close>

lemma read_memory_overflows:
  "uds_memory_read_handler (Some (demo_manager 0x10000)) demo_world [0x23, 0x24, 0x20, 0, 0, 0, 0xFF, 0xFF]
     [0, 0, 0, 0, 0, 0, 0, 0] 0 = None"
proof -
  have "poke_list [0, 0, 0, 0, 0, 0, 0, 0] (Suc 0) (map (\<lambda>i. 0 :: u8) [0..<65535]) = None"
    by (rule poke_list_None) (simp_all del: map_replicate_const upt_conv_Cons)
  then show ?thesis
    by (simp add: uds_memory_read_handler_def demo_requests demo_validate demo_config Let_def memory_at_def
      del: map_replicate_const upt_conv_Cons)
qed

text \<open> C20.
  WriteMemoryByAddress writes only where the table allows. A byte of the address space that a
  request changed lies inside a region with the write flag, in the programming session when the
  region asks for it and with an unlocked security level when the region is secured.
\<close>

theorem write_memory_contained:
  assumes "length request < 65536" "length response < 65536"
    and "uds_memory_write_handler mgr w request response rlen = Some (result, response', rlen', w')"
    and "address_space w' x \<noteq> address_space w x"
  shows "\<exists>a len reg. access_granted mgr UDS_MEMORY_FLAG_WRITE UDS_MEMORY_FLAG_SECURE_WRITE a len reg \<and>
     unat a \<le> unat x \<and> unat x < unat a + unat len"
proof -
  obtain h a len reg where p: "parse_memory_request request True = Some (Inr (h, a, len))"
    and g: "access_granted mgr UDS_MEMORY_FLAG_WRITE UDS_MEMORY_FLAG_SECURE_WRITE a len reg"
    and put: "address_space w' = memory_put (address_space w) a (drop (unat h) request)"
    using wp_SomeD[OF write_handler_wp[OF assms(1,2)] assms(3)] assms(4) by (auto split: if_splits)
  have lr: "length request = unat h + unat len"
    using parse_Inr[OF p assms(1)] by (metis (full_types))
  have near: "unat (x - a) < unat len"
    using assms(1,4) put lr memory_put_apply[of "drop (unat h) request" "address_space w" a x]
    by (auto split: if_splits)
  have "unat a + unat len \<le> 4294967296" using g by (auto simp: access_granted_def)
  then have "unat (a + (x - a)) = unat a + unat (x - a)"
    using near by (intro unat_add_32) linarith
  then have "unat x = unat a + unat (x - a)" by simp
  then show ?thesis using g near by (intro exI[of _ a] exI[of _ len] exI[of _ reg]) linarith
qed

theorem write_memory_contained_witness:
  "\<exists>a len reg. access_granted (Some (demo_manager 0x100)) UDS_MEMORY_FLAG_WRITE UDS_MEMORY_FLAG_SECURE_WRITE a len reg \<and>
     unat a \<le> 0x20000010 \<and> (0x20000010 :: nat) < unat a + unat len"
proof -
  have "address_space demo_written 0x20000010 \<noteq> address_space demo_world 0x20000010"
    by (simp add: demo_written_def demo_config)
  then show ?thesis using write_memory_contained[OF _ _ demo_write, of "0x20000010"] by simp
qed

text \<open> C21.
  Reading back what was written. After a positive WriteMemoryByAddress to memory without drivers,
  a ReadMemoryByAddress with the address-and-length bytes of its response that is answered
  positively carries exactly the bytes that were written.
\<close>

theorem memory_write_read:
  assumes "length request < 65536" "length response < 65536" "length response2 < 65536" "reads_bounded m"
    and "\<forall>reg \<in> set (the (regions (mem_config m))). region_read reg = None \<and> region_write reg = None"
    and "uds_memory_write_handler (Some m) w request response rlen = Some (UDS_RESULT_OK, response', rlen', w')"
    and "uds_memory_read_handler (Some m) w' (0x23 # take (unat rlen' - 1) (drop 1 response')) response2 rlen2 =
       Some (UDS_RESULT_OK, response3, rlen3, w'')"
  shows "take (unat rlen3) response3 = 0x63 # drop (unat rlen') request"
proof -
  obtain h a len reg where p: "parse_memory_request request True = Some (Inr (h, a, len))"
    and g: "access_granted (Some m) UDS_MEMORY_FLAG_WRITE UDS_MEMORY_FLAG_SECURE_WRITE a len reg"
    and put: "address_space w' = (if region_write reg = None then memory_put (address_space w) a (drop (unat h) request)
       else address_space w)"
    and r: "rlen' = h" "take (unat h) response' = 0x7D # take (unat h - 1) (drop 1 request)"
    using wp_SomeD[OF write_handler_wp[OF assms(1,2)] assms(6)] by auto
  obtain al sl where al: "uds_memory_decode_alfid (request ! 1) = Some (al, sl)"
    "unat h = 2 + unat al + unat sl" "unat al \<in> {1..4}" "unat sl \<in> {1..4}" "length request = unat h + unat len"
    "read_be_loop request 2 (unat al) 0 = Some a" "read_be_loop request (2 + unat al) (unat sl) 0 = Some len"
    by (rule parse_Inr[OF p assms(1)], rule that) simp_all
  define request2 where "request2 = 0x23 # take (unat h - 1) (drop 1 response')"
  have "take (unat h - 1) (drop 1 response') = drop 1 (take (unat h) response')" by (simp add: drop_take)
  then have req2: "request2 = 0x23 # take (unat h - 1) (drop 1 request)" using r(2) by (simp add: request2_def)
  then have len2: "length request2 = unat h" using al by simp
  have nth2: "request2 ! j = request ! j" if "1 \<le> j" "j < unat h" for j
    using that al(5) by (cases j) (auto simp: req2)
  have "read_drivers_ok m" using assms(5) by (auto simp: read_drivers_ok_def)
  moreover have l2: "length request2 < 65536" using len2 by simp
  ultimately have "wp (uds_memory_read_handler (Some m) w' request2 response2 rlen2) (\<lambda>(result, response', rlen', w'').
      length response' = length response2 \<and> address_space w'' = address_space w' \<and>
      (result = UDS_RESULT_OK \<longrightarrow> read_answer (Some m) w' request2 response' rlen'))"
    by (intro read_handler_wp assms(3,4))
  then have "read_answer (Some m) w' request2 response3 rlen3"
    using assms(7) r(1) by (simp add: wp_def request2_def)
  then obtain h2 reg2 a2 len2' data where q: "parse_memory_request request2 False = Some (Inr (h2, a2, len2'))"
    "access_granted (Some m) UDS_MEMORY_FLAG_READ UDS_MEMORY_FLAG_SECURE_READ a2 len2' reg2"
    "take (unat rlen3) response3 = 0x63 # data"
    "region_read reg2 \<noteq> None \<or> data = memory_at (address_space w') a2 (unat len2')"
    unfolding read_answer_def by blast
  obtain al2 sl2 where al2: "uds_memory_decode_alfid (request2 ! 1) = Some (al2, sl2)"
    "read_be_loop request2 2 (unat al2) 0 = Some a2" "read_be_loop request2 (2 + unat al2) (unat sl2) 0 = Some len2'"
    by (rule parse_Inr[OF q(1) l2], rule that) simp_all
  have same: "al2 = al" "sl2 = sl" using al2(1) al(1,2) nth2[of 1] by auto
  have "read_be_loop request2 2 (unat al) 0 = read_be_loop request 2 (unat al) 0"
    "read_be_loop request2 (2 + unat al) (unat sl) 0 = read_be_loop request (2 + unat al) (unat sl) 0"
    using al(2,5) len2 nth2 by (intro read_be_loop_cong; simp)+
  then have "a2 = a" "len2' = len" using al2(2,3) al(6,7) same by auto
  moreover have "region_read reg2 = None" "region_write reg = None"
    using q(2) g assms(5) by (auto simp: access_granted_def)
  ultimately have "data = memory_at (memory_put (address_space w) a (drop (unat h) request)) a (unat len)"
    using q(4) put by simp
  moreover have "length (drop (unat h) request) = unat len" using al(5) by simp
  moreover have "length (drop (unat h) request) \<le> 4294967296" using assms(1) by simp
  ultimately have "data = drop (unat h) request" by (metis memory_put_at)
  then show ?thesis using q(3) r(1) by simp
qed

theorem memory_write_read_witness: "take 2 [0x63, 9, 0, 0, 0, 0, 0, 0] = 0x63 # drop 7 [0x3D, 0x14, 0x20, 0, 0, 0x10, 1, 9 :: u8]"
proof -
  have "\<forall>reg \<in> set (the (regions (mem_config (demo_manager 0x100)))). region_read reg = None \<and> region_write reg = None"
    "reads_bounded (demo_manager 0x100)"
    by (simp_all add: demo_manager_def demo_region_def uds_memory_init_def reads_bounded_def)
  then show ?thesis
    using memory_write_read[OF _ _ _ _ _ demo_write, of "[0, 0, 0, 0, 0, 0, 0, 0]" 0] demo_read by simp
qed

end
