(* ===== verification/Uds_Did.thy ===== *)
theory Uds_Did
  imports Prelude
begin

text \<open>
  The registry of data identifiers (\<open>library/src/uds_did.c\<close>): thirteen entries over values of the
  application, with their session masks, security levels and lengths. A pointer to a value is the
  value itself; the void pointer of an entry is a \<open>did_context\<close>, either such a value or something
  of the application. Reading it as the wrong one of the two is undefined (\<open>None\<close>).
\<close>

section \<open>State\<close>

definition UDS_DID_SESSION_DEFAULT_MASK :: u8 where "UDS_DID_SESSION_DEFAULT_MASK = 1"
definition UDS_DID_SESSION_PROGRAMMING_MASK :: u8 where "UDS_DID_SESSION_PROGRAMMING_MASK = 2"
definition UDS_DID_SESSION_EXTENDED_MASK :: u8 where "UDS_DID_SESSION_EXTENDED_MASK = 4"
definition UDS_DID_SESSION_ALL_MASK :: u8 where
  "UDS_DID_SESSION_ALL_MASK =
     UDS_DID_SESSION_DEFAULT_MASK OR UDS_DID_SESSION_PROGRAMMING_MASK OR UDS_DID_SESSION_EXTENDED_MASK"

lemmas did_mask_defs = UDS_DID_SESSION_DEFAULT_MASK_def UDS_DID_SESSION_PROGRAMMING_MASK_def
  UDS_DID_SESSION_EXTENDED_MASK_def UDS_DID_SESSION_ALL_MASK_def

definition UDS_DID_SOFTWARE_VERSION :: u16 where "UDS_DID_SOFTWARE_VERSION = 0xF180"
definition UDS_DID_BOOTLOADER_VERSION :: u16 where "UDS_DID_BOOTLOADER_VERSION = 0xF181"
definition UDS_DID_DEVICE_IDENTITY :: u16 where "UDS_DID_DEVICE_IDENTITY = 0xF18A"
definition UDS_DID_SERIAL_NUMBER :: u16 where "UDS_DID_SERIAL_NUMBER = 0xF18C"
definition UDS_DID_HARDWARE_VERSION :: u16 where "UDS_DID_HARDWARE_VERSION = 0xF191"
definition UDS_DID_CONTROLLER_ID :: u16 where "UDS_DID_CONTROLLER_ID = 0xF1A0"
definition UDS_DID_CAN_BITRATE :: u16 where "UDS_DID_CAN_BITRATE = 0xF1A1"
definition UDS_DID_DIAGNOSTIC_STATUS :: u16 where "UDS_DID_DIAGNOSTIC_STATUS = 0xF1B0"
definition UDS_DID_FIRMWARE_STATUS :: u16 where "UDS_DID_FIRMWARE_STATUS = 0xF1B1"
definition UDS_DID_RESET_CAUSE :: u16 where "UDS_DID_RESET_CAUSE = 0xF1B2"
definition UDS_DID_WATCHDOG_STATUS :: u16 where "UDS_DID_WATCHDOG_STATUS = 0xF1B3"
definition UDS_DID_CAN_ERROR_COUNTERS :: u16 where "UDS_DID_CAN_ERROR_COUNTERS = 0xF1B4"
definition UDS_DID_NETWORK_ERROR_STATE :: u16 where "UDS_DID_NETWORK_ERROR_STATE = 0xF1B5"

lemmas did_defs = UDS_DID_SOFTWARE_VERSION_def UDS_DID_BOOTLOADER_VERSION_def UDS_DID_DEVICE_IDENTITY_def
  UDS_DID_SERIAL_NUMBER_def UDS_DID_HARDWARE_VERSION_def UDS_DID_CONTROLLER_ID_def UDS_DID_CAN_BITRATE_def
  UDS_DID_DIAGNOSTIC_STATUS_def UDS_DID_FIRMWARE_STATUS_def UDS_DID_RESET_CAUSE_def UDS_DID_WATCHDOG_STATUS_def
  UDS_DID_CAN_ERROR_COUNTERS_def UDS_DID_NETWORK_ERROR_STATE_def

datatype UdsDidResult =
    UDS_DID_OK
  | UDS_DID_NOT_FOUND
  | UDS_DID_NOT_READABLE
  | UDS_DID_NOT_WRITABLE
  | UDS_DID_SESSION_DENIED
  | UDS_DID_SECURITY_DENIED
  | UDS_DID_RESPONSE_TOO_LONG
  | UDS_DID_INVALID_WRITE
  | UDS_DID_ARGUMENT_ERROR

record UdsDidValue =
  val_data :: "bytes option"
  val_length :: u16

datatype 'a did_context = ValueContext UdsDidValue | AppContext 'a

text \<open>A reader fills a buffer and sets a length; a writer acts on the application.\<close>

type_synonym 'a UdsDidReadFn =
  "'a did_context option \<Rightarrow> u16 \<Rightarrow> bytes \<Rightarrow> u16 \<Rightarrow> u16 \<Rightarrow> (UdsDidResult \<times> bytes \<times> u16) option"
type_synonym ('a, 'w) UdsDidWriteFn =
  "'a did_context option \<Rightarrow> u16 \<Rightarrow> bytes \<Rightarrow> 'w \<Rightarrow> UdsDidResult \<times> 'w"

record ('a, 'w) UdsDidEntry =
  entry_did :: u16
  read_allowed :: bool
  write_allowed :: bool
  maximum_length :: u16
  entry_session_mask :: u8
  minimum_security_level :: u8
  entry_read :: "'a UdsDidReadFn option"
  entry_write :: "('a, 'w) UdsDidWriteFn option"
  entry_context :: "'a did_context option"
  entry_context_ro :: "'a did_context option"

record UdsProjectDidSource =
  software_version :: UdsDidValue
  hardware_version :: UdsDidValue
  bootloader_version :: UdsDidValue
  serial_number :: UdsDidValue
  device_identity :: UdsDidValue
  controller_id :: UdsDidValue
  can_bitrate :: UdsDidValue
  diagnostic_status :: UdsDidValue
  firmware_status :: UdsDidValue
  reset_cause :: UdsDidValue
  watchdog_status :: UdsDidValue
  can_error_counters :: UdsDidValue
  network_error_state :: UdsDidValue

record ('a, 'w) UdsDidRegistry =
  entries :: "('a, 'w) UdsDidEntry list"

section \<open>Operations\<close>

definition read_value :: "'a UdsDidReadFn" where
  "read_value ctx did data len cap =
     (case ctx of
        None \<Rightarrow> Some (UDS_DID_ARGUMENT_ERROR, data, len)
      | Some (AppContext a) \<Rightarrow> None
      | Some (ValueContext v) \<Rightarrow>
          if val_length v > cap then Some (UDS_DID_RESPONSE_TOO_LONG, data, len)
          else if val_length v \<noteq> 0 \<and> val_data v = None then Some (UDS_DID_ARGUMENT_ERROR, data, len)
          else if val_length v \<noteq> 0 then do {
            data \<leftarrow> copy_loop data 0 (the (val_data v)) 0 (unat (val_length v));
            Some (UDS_DID_OK, data, val_length v)
          }
          else Some (UDS_DID_OK, data, val_length v))"

definition set_entry :: "u16 \<Rightarrow> UdsDidValue \<Rightarrow> u16 \<Rightarrow> u8 \<Rightarrow> u8 \<Rightarrow> ('a, 'w) UdsDidEntry" where
  "set_entry did v max_length smask level =
     \<lparr> entry_did = did, read_allowed = True, write_allowed = False, maximum_length = max_length,
       entry_session_mask = smask, minimum_security_level = level, entry_read = Some read_value,
       entry_write = None, entry_context = None, entry_context_ro = Some (ValueContext v) \<rparr>"

definition uds_did_registry_init :: "UdsProjectDidSource \<Rightarrow> ('a, 'w) UdsDidRegistry" where
  "uds_did_registry_init source = \<lparr> entries =
     [set_entry UDS_DID_SOFTWARE_VERSION (software_version source) 64 UDS_DID_SESSION_ALL_MASK 0,
      set_entry UDS_DID_HARDWARE_VERSION (hardware_version source) 64 UDS_DID_SESSION_ALL_MASK 0,
      set_entry UDS_DID_BOOTLOADER_VERSION (bootloader_version source) 64 UDS_DID_SESSION_ALL_MASK 0,
      set_entry UDS_DID_SERIAL_NUMBER (serial_number source) 32 UDS_DID_SESSION_ALL_MASK 1,
      set_entry UDS_DID_DEVICE_IDENTITY (device_identity source) 64 UDS_DID_SESSION_ALL_MASK 0,
      set_entry UDS_DID_CONTROLLER_ID (controller_id source) 1 UDS_DID_SESSION_ALL_MASK 0,
      set_entry UDS_DID_CAN_BITRATE (can_bitrate source) 4 UDS_DID_SESSION_ALL_MASK 0,
      set_entry UDS_DID_DIAGNOSTIC_STATUS (diagnostic_status source) 64 UDS_DID_SESSION_ALL_MASK 0,
      set_entry UDS_DID_FIRMWARE_STATUS (firmware_status source) 64 UDS_DID_SESSION_ALL_MASK 0,
      set_entry UDS_DID_RESET_CAUSE (reset_cause source) 4 UDS_DID_SESSION_ALL_MASK 0,
      set_entry UDS_DID_WATCHDOG_STATUS (watchdog_status source) 64 UDS_DID_SESSION_ALL_MASK 1,
      set_entry UDS_DID_CAN_ERROR_COUNTERS (can_error_counters source) 32 UDS_DID_SESSION_ALL_MASK 0,
      set_entry UDS_DID_NETWORK_ERROR_STATE (network_error_state source) 4 UDS_DID_SESSION_ALL_MASK 0] \<rparr>"

definition uds_did_registry_find :: "('a, 'w) UdsDidRegistry option \<Rightarrow> u16 \<Rightarrow> ('a, 'w) UdsDidEntry option" where
  "uds_did_registry_find registry did =
     (case registry of None \<Rightarrow> None | Some r \<Rightarrow> find (\<lambda>e. entry_did e = did) (entries r))"

definition session_allowed :: "('a, 'w) UdsDidEntry \<Rightarrow> u8 \<Rightarrow> bool" where
  "session_allowed entry sess =
     (let m = (if sess = 1 then UDS_DID_SESSION_DEFAULT_MASK
                  else if sess = 2 then UDS_DID_SESSION_PROGRAMMING_MASK
                  else if sess = 3 then UDS_DID_SESSION_EXTENDED_MASK else 0) in
      m \<noteq> 0 \<and> entry_session_mask entry AND m \<noteq> 0)"

definition uds_did_registry_read ::
  "('a, 'w) UdsDidRegistry option \<Rightarrow> u16 \<Rightarrow> u8 \<Rightarrow> u8 \<Rightarrow> bytes \<Rightarrow> u16 \<Rightarrow> u16 \<Rightarrow>
     (UdsDidResult \<times> bytes \<times> u16) option" where
  "uds_did_registry_read registry did sess level data len cap =
     (case uds_did_registry_find registry did of
        None \<Rightarrow> Some (UDS_DID_NOT_FOUND, data, len)
      | Some entry \<Rightarrow>
          (case entry_read entry of
             None \<Rightarrow> Some (UDS_DID_NOT_READABLE, data, len)
           | Some read \<Rightarrow>
               if \<not> read_allowed entry then Some (UDS_DID_NOT_READABLE, data, len)
               else if \<not> session_allowed entry sess then Some (UDS_DID_SESSION_DENIED, data, len)
               else if level < minimum_security_level entry then Some (UDS_DID_SECURITY_DENIED, data, len)
               else do {
                 (result, data, len) \<leftarrow> read (case entry_context_ro entry of Some c \<Rightarrow> Some c | None \<Rightarrow> entry_context entry)
                                            did data len cap;
                 (if result = UDS_DID_OK \<and> len > maximum_length entry
                  then Some (UDS_DID_RESPONSE_TOO_LONG, data, len)
                  else Some (result, data, len))
               }))"

definition uds_did_registry_write ::
  "('a, 'w) UdsDidRegistry option \<Rightarrow> u16 \<Rightarrow> u8 \<Rightarrow> u8 \<Rightarrow> bytes \<Rightarrow> 'w \<Rightarrow> UdsDidResult \<times> 'w" where
  "uds_did_registry_write registry did sess level data w =
     (case uds_did_registry_find registry did of
        None \<Rightarrow> (UDS_DID_NOT_FOUND, w)
      | Some entry \<Rightarrow>
          (case entry_write entry of
             None \<Rightarrow> (UDS_DID_NOT_WRITABLE, w)
           | Some write \<Rightarrow>
               if \<not> write_allowed entry then (UDS_DID_NOT_WRITABLE, w)
               else if \<not> session_allowed entry sess then (UDS_DID_SESSION_DENIED, w)
               else if level < minimum_security_level entry then (UDS_DID_SECURITY_DENIED, w)
               else if of_nat (length data) > maximum_length entry then (UDS_DID_INVALID_WRITE, w)
               else write (entry_context entry) did data w))"

section \<open>Specification\<close>

text \<open>The table of the project: the value, the longest answer and the security level of a DID.\<close>

definition did_table :: "UdsProjectDidSource \<Rightarrow> (u16 \<times> UdsDidValue \<times> nat \<times> nat) list" where
  "did_table source =
     [(0xF180, software_version source, 64, 0), (0xF191, hardware_version source, 64, 0),
      (0xF181, bootloader_version source, 64, 0), (0xF18C, serial_number source, 32, 1),
      (0xF18A, device_identity source, 64, 0), (0xF1A0, controller_id source, 1, 0),
      (0xF1A1, can_bitrate source, 4, 0), (0xF1B0, diagnostic_status source, 64, 0),
      (0xF1B1, firmware_status source, 64, 0), (0xF1B2, reset_cause source, 4, 0),
      (0xF1B3, watchdog_status source, 64, 1), (0xF1B4, can_error_counters source, 32, 0),
      (0xF1B5, network_error_state source, 4, 0)]"

text \<open>A value whose bytes are there.\<close>

definition value_ok :: "UdsDidValue \<Rightarrow> bool" where
  "value_ok v \<longleftrightarrow> (\<exists>bs. val_data v = Some bs \<and> length bs = unat (val_length v))"

text \<open>What a read answers: the result and, when it is OK, the bytes.\<close>

definition read_spec :: "UdsProjectDidSource \<Rightarrow> u16 \<Rightarrow> u8 \<Rightarrow> u8 \<Rightarrow> nat \<Rightarrow> UdsDidResult \<times> bytes" where
  "read_spec source did sess level room =
     (case map_of (did_table source) did of
        None \<Rightarrow> (UDS_DID_NOT_FOUND, [])
      | Some (v, longest, needed) \<Rightarrow>
          if sess \<notin> {1, 2, 3} then (UDS_DID_SESSION_DENIED, [])
          else if unat level < needed then (UDS_DID_SECURITY_DENIED, [])
          else if unat (val_length v) > min room longest then (UDS_DID_RESPONSE_TOO_LONG, [])
          else (UDS_DID_OK, the (val_data v)))"

definition entry_of :: "u16 \<times> UdsDidValue \<times> nat \<times> nat \<Rightarrow> ('a, 'w) UdsDidEntry" where
  "entry_of = (\<lambda>(did, v, longest, needed). set_entry did v (of_nat longest) UDS_DID_SESSION_ALL_MASK (of_nat needed))"

lemma registry_entries: "entries (uds_did_registry_init source) = map entry_of (did_table source)"
  by (simp add: uds_did_registry_init_def did_table_def entry_of_def did_defs)

lemma find_map_of:
  "find (\<lambda>e. entry_did e = did) (map entry_of xs) = map_option (\<lambda>x. entry_of (did, x)) (map_of xs did)"
  by (induction xs) (auto simp: entry_of_def set_entry_def split: prod.splits)

lemma session_allowed_all:
  "session_allowed (set_entry did v n UDS_DID_SESSION_ALL_MASK l) sess \<longleftrightarrow> sess \<in> {1, 2, 3}"
  by (simp add: session_allowed_def set_entry_def did_mask_defs)

lemma did_table_limits: "map_of (did_table source) did = Some (v, n, l) \<Longrightarrow> n \<le> 64 \<and> l \<le> 1"
  by (drule map_of_SomeD) (auto simp: did_table_def)

lemma read_value_ok:
  assumes "val_data v = Some bs" "length bs = unat (val_length v)" "\<not> val_length v > cap" "length data = unat cap"
  shows "read_value (Some (ValueContext v)) did data len cap = Some (UDS_DID_OK, bs @ drop (length bs) data, val_length v)"
proof -
  have "copy_loop data 0 bs 0 (unat (val_length v)) = Some (bs @ drop (length bs) data)"
    using assms by (simp add: copy_loop_closed word_le_nat_alt not_less)
  then show ?thesis using assms by (auto simp: read_value_def)
qed

section \<open>Properties\<close>

text \<open> C30.
  Reading a data identifier. From the initialised registry over values that are present, a read
  into a buffer of the given capacity runs into no undefined behaviour, and its result and, on
  success, the bytes and their length are those of the table: unknown identifiers, sessions other
  than 1 to 3, missing security and answers that do not fit the buffer or exceed the longest answer of the
  identifier are refused, in this order.
\<close>

theorem did_read_meets_table:
  assumes "length data = unat cap" "\<forall>(did, v, rest) \<in> set (did_table source). value_ok v"
  shows "\<exists>result data' len'. uds_did_registry_read (Some (uds_did_registry_init source)) did sess level data len cap =
       Some (result, data', len') \<and> length data' = length data \<and>
     (result, if result = UDS_DID_OK then take (unat len') data' else []) =
       read_spec source did sess level (unat cap)"
proof (cases "map_of (did_table source) did")
  case None
  then show ?thesis
    by (simp add: uds_did_registry_read_def uds_did_registry_find_def registry_entries find_map_of read_spec_def)
next
  case (Some x)
  obtain v n l where x: "x = (v, n, l)" by (metis prod.exhaust)
  have lim: "n \<le> 64" "l \<le> 1" using did_table_limits[OF Some[unfolded x]] by auto
  have "value_ok v" using assms(2) map_of_SomeD[OF Some[unfolded x]] by fastforce
  then obtain bs where bs: "val_data v = Some bs" "length bs = unat (val_length v)" by (auto simp: value_ok_def)
  have find: "uds_did_registry_find (Some (uds_did_registry_init source)) did =
      Some (set_entry did v (of_nat n) UDS_DID_SESSION_ALL_MASK (of_nat l))"
    using Some x by (simp add: uds_did_registry_find_def registry_entries find_map_of) (simp add: entry_of_def)
  have lvl: "level < of_nat l \<longleftrightarrow> unat level < l"
    using lim(2) by (simp add: word_less_nat_alt unat_of_nat)
  have mx: "val_length v > of_nat n \<longleftrightarrow> unat (val_length v) > n"
    using lim(1) by (simp add: word_less_nat_alt unat_of_nat_16)
  note eqs = uds_did_registry_read_def find read_spec_def Some x session_allowed_all
  have sels: "entry_read (set_entry did v m k j) = Some read_value" "read_allowed (set_entry did v m k j)"
    "minimum_security_level (set_entry did v m k j) = j" "maximum_length (set_entry did v m k j) = m"
    "entry_context_ro (set_entry did v m k j) = Some (ValueContext v)" for m k j
    by (simp_all add: set_entry_def)
  show ?thesis
  proof (cases "sess \<in> {1, 2, 3} \<and> \<not> level < of_nat l \<and> \<not> val_length v > cap")
    case False
    then show ?thesis
      using lvl by (auto simp: eqs sels read_value_def word_less_nat_alt)
  next
    case True
    with lvl mx bs assms(1) show ?thesis by (auto simp: eqs sels read_value_ok word_less_nat_alt word_le_nat_alt not_less)
  qed
qed

definition demo_source :: UdsProjectDidSource where
  "demo_source = (let v = \<lparr> val_data = Some [1, 2], val_length = 2 \<rparr> in
     \<lparr> software_version = v, hardware_version = v, bootloader_version = v, serial_number = v, device_identity = v,
       controller_id = v, can_bitrate = v, diagnostic_status = v, firmware_status = v, reset_cause = v,
       watchdog_status = v, can_error_counters = v, network_error_state = v \<rparr>)"

theorem did_read_meets_table_witness:
  "\<exists>result data' len'. uds_did_registry_read
       (Some (uds_did_registry_init demo_source :: (unit, unit) UdsDidRegistry)) 0xF180 1 0 [0, 0, 0] 0 3 =
       Some (result, data', len') \<and> length data' = length [0, 0, 0 :: u8] \<and> result = UDS_DID_OK \<and> take (unat len') data' = [1, 2]"
proof -
  have ok: "\<forall>(did, v, rest) \<in> set (did_table demo_source). value_ok v"
    by (simp add: did_table_def demo_source_def value_ok_def Let_def)
  have "read_spec demo_source 0xF180 1 0 (unat (3 :: u16)) = (UDS_DID_OK, [1, 2])"
    by (simp add: read_spec_def did_table_def demo_source_def Let_def)
  then show ?thesis
    using did_read_meets_table[where ?'a = unit and ?'b = unit, OF _ ok, of "[0, 0, 0]" 3 "0xF180" 1 0 0]
    by (auto split: if_splits)
qed

end
