(* ===== verification/Flash_Fsm.thy ===== *)
theory Flash_Fsm
  imports Prelude
begin

text \<open>
  The polled flash state machine (\<open>library/src/uds_flash_fsm.c\<close>). The static context is the state;
  the driver functions act on a device state \<open>'h\<close> of their own.
\<close>

section \<open>State\<close>

definition FLASH_FSM_CHUNK_SIZE :: nat where "FLASH_FSM_CHUNK_SIZE = 256"

datatype FlashState_t =
    FLASH_STATE_IDLE
  | FLASH_STATE_WRITE
  | FLASH_STATE_WRITE_DONE
  | FLASH_STATE_WRITE_FAIL
  | FLASH_STATE_ERASE
  | FLASH_STATE_ERASE_DONE
  | FLASH_STATE_ERASE_FAIL

type_synonym 'h FlashIf_WriteFn = "u32 \<Rightarrow> bytes \<Rightarrow> 'h \<Rightarrow> bool \<times> 'h"
type_synonym 'h FlashIf_EraseFn = "u32 \<Rightarrow> 'h \<Rightarrow> bool \<times> 'h"

record 'h FlashContext_t =
  fsm_state :: FlashState_t
  write_data :: bytes
  write_length :: u16
  start_addr :: u32
  total_size :: u32
  cur_addr :: u32
  written_size :: u32
  erase_addr :: u32
  range_erase_start :: u32
  range_erase_end :: u32
  range_erase_cur :: u32
  range_erase_sector_size :: u32
  write_fn :: "'h FlashIf_WriteFn option"
  erase_fn :: "'h FlashIf_EraseFn option"

section \<open>Operations\<close>

definition Flash_Init :: "'h FlashContext_t" where
  "Flash_Init = \<lparr> fsm_state = FLASH_STATE_IDLE, write_data = replicate FLASH_FSM_CHUNK_SIZE 0, write_length = 0,
     start_addr = 0, total_size = 0, cur_addr = 0, written_size = 0, erase_addr = 0, range_erase_start = 0,
     range_erase_end = 0, range_erase_cur = 0, range_erase_sector_size = 0, write_fn = None, erase_fn = None \<rparr>"

definition Flash_SetHardwareInterface ::
  "'h FlashContext_t \<Rightarrow> 'h FlashIf_WriteFn option \<Rightarrow> 'h FlashIf_EraseFn option \<Rightarrow> 'h FlashContext_t" where
  "Flash_SetHardwareInterface ctx w e = ctx\<lparr> write_fn := w, erase_fn := e \<rparr>"

definition Flash_ContextClear :: "'h FlashContext_t \<Rightarrow> 'h FlashContext_t" where
  "Flash_ContextClear ctx = Flash_Init\<lparr> write_fn := write_fn ctx, erase_fn := erase_fn ctx \<rparr>"

definition Flash_SetWriteInfo :: "'h FlashContext_t \<Rightarrow> u32 \<Rightarrow> u32 \<Rightarrow> 'h FlashContext_t" where
  "Flash_SetWriteInfo ctx memory_addr memory_size =
     (Flash_ContextClear ctx)\<lparr> start_addr := memory_addr, cur_addr := memory_addr, total_size := memory_size,
       written_size := 0 \<rparr>"

text \<open>The payload is copied to the front of the chunk buffer.\<close>

definition Flash_RequestWrite :: "'h FlashContext_t \<Rightarrow> bytes \<Rightarrow> bool \<times> 'h FlashContext_t" where
  "Flash_RequestWrite ctx payload =
     (if payload = [] \<or> length payload > FLASH_FSM_CHUNK_SIZE then (False, ctx)
      else if fsm_state ctx \<noteq> FLASH_STATE_IDLE \<and> fsm_state ctx \<noteq> FLASH_STATE_WRITE_DONE then (False, ctx)
      else (True, ctx\<lparr> write_data := payload @ drop (length payload) (write_data ctx),
                       write_length := of_nat (length payload), fsm_state := FLASH_STATE_WRITE \<rparr>))"

definition erase_accepted :: "'h FlashContext_t \<Rightarrow> bool" where
  "erase_accepted ctx = (fsm_state ctx = FLASH_STATE_IDLE \<or> fsm_state ctx = FLASH_STATE_ERASE_DONE \<or>
     fsm_state ctx = FLASH_STATE_WRITE_DONE)"

definition Flash_RequestErase :: "'h FlashContext_t \<Rightarrow> u32 \<Rightarrow> bool \<times> 'h FlashContext_t" where
  "Flash_RequestErase ctx addr =
     (if \<not> erase_accepted ctx then (False, ctx)
      else (True, ctx\<lparr> erase_addr := addr, range_erase_start := addr, range_erase_end := addr + 1,
                       range_erase_cur := addr, range_erase_sector_size := 1, fsm_state := FLASH_STATE_ERASE \<rparr>))"

definition Flash_RequestRangeErase :: "'h FlashContext_t \<Rightarrow> u32 \<Rightarrow> u32 \<Rightarrow> u32 \<Rightarrow> bool \<times> 'h FlashContext_t" where
  "Flash_RequestRangeErase ctx start len sector =
     (if len = 0 \<or> sector = 0 then (False, ctx)
      else if \<not> erase_accepted ctx then (False, ctx)
      else (True, ctx\<lparr> erase_addr := start, range_erase_start := start, range_erase_end := start + len,
                       range_erase_cur := start, range_erase_sector_size := sector,
                       fsm_state := FLASH_STATE_ERASE \<rparr>))"

definition Flash_GetState :: "'h FlashContext_t \<Rightarrow> FlashState_t" where
  "Flash_GetState ctx = fsm_state ctx"

definition Flash_IsBusy :: "'h FlashContext_t \<Rightarrow> bool" where
  "Flash_IsBusy ctx = (fsm_state ctx = FLASH_STATE_WRITE \<or> fsm_state ctx = FLASH_STATE_ERASE)"

definition Flash_StateClear :: "'h FlashContext_t \<Rightarrow> 'h FlashContext_t" where
  "Flash_StateClear ctx = ctx\<lparr> fsm_state := FLASH_STATE_IDLE \<rparr>"

definition Flash_MainFunction :: "'h FlashContext_t \<times> 'h \<Rightarrow> 'h FlashContext_t \<times> 'h" where
  "Flash_MainFunction = (\<lambda>(ctx, h).
     case fsm_state ctx of
       FLASH_STATE_WRITE \<Rightarrow>
         (case (case write_fn ctx of
                  Some write \<Rightarrow> write (cur_addr ctx) (take (unat (write_length ctx)) (write_data ctx)) h
                | None \<Rightarrow> (True, h)) of
            (ok, h) \<Rightarrow>
              if ok then (ctx\<lparr> cur_addr := cur_addr ctx + ucast (write_length ctx),
                               written_size := written_size ctx + ucast (write_length ctx),
                               fsm_state := FLASH_STATE_WRITE_DONE \<rparr>, h)
              else (ctx\<lparr> fsm_state := FLASH_STATE_WRITE_FAIL \<rparr>, h))
     | FLASH_STATE_ERASE \<Rightarrow>
         (case (case erase_fn ctx of Some erase \<Rightarrow> erase (range_erase_cur ctx) h | None \<Rightarrow> (True, h)) of
            (ok, h) \<Rightarrow>
              if \<not> ok then (ctx\<lparr> fsm_state := FLASH_STATE_ERASE_FAIL \<rparr>, h)
              else
                let ctx = ctx\<lparr> range_erase_cur := range_erase_cur ctx + range_erase_sector_size ctx \<rparr> in
                (if range_erase_end ctx \<le> range_erase_cur ctx then ctx\<lparr> fsm_state := FLASH_STATE_ERASE_DONE \<rparr>
                 else ctx, h))
     | _ \<Rightarrow> (ctx, h))"

section \<open>Facts\<close>

text \<open>An erase driver that records the addresses it is called with and succeeds.\<close>

definition recording_erase :: "u32 list FlashIf_EraseFn" where
  "recording_erase = (\<lambda>a log. (True, log @ [a]))"

text \<open>The number of sectors of a range, and their addresses.\<close>

definition sectors :: "u32 \<Rightarrow> u32 \<Rightarrow> nat" where
  "sectors len sector = (unat len + unat sector - 1) div unat sector"

definition sector_addresses :: "u32 \<Rightarrow> u32 \<Rightarrow> nat \<Rightarrow> u32 list" where
  "sector_addresses start sector k = map (\<lambda>i. start + of_nat i * sector) [0..<k]"

lemma sectors_iff: "0 < unat sector \<Longrightarrow> k < sectors len sector \<longleftrightarrow> k * unat sector < unat len"
proof -
  assume s: "0 < unat sector"
  have "k < sectors len sector \<longleftrightarrow> Suc k \<le> (unat len + unat sector - 1) div unat sector"
    by (simp add: sectors_def Suc_le_eq)
  also have "\<dots> \<longleftrightarrow> Suc k * unat sector \<le> unat len + unat sector - 1"
    by (rule less_eq_div_iff_mult_less_eq[OF s])
  also have "\<dots> \<longleftrightarrow> k * unat sector < unat len" using s by auto
  finally show ?thesis .
qed

lemma unat_sector_offset:
  fixes sector :: u32
  assumes "0 < unat sector" "k * unat sector < 4294967296"
  shows "unat (of_nat k * sector) = k * unat sector"
proof -
  have "k \<le> k * unat sector" using mult_le_mono2[of 1 "unat sector" k] assms(1) by simp
  with assms(2) have "unat (of_nat k :: u32) = k" by (intro unat_of_nat_32) linarith
  then show ?thesis using assms(2) by (simp add: unat_word_ariths)
qed

text \<open>After \<open>k\<close> polls of an erase that has not reached its end.\<close>

lemma erase_polls:
  assumes "fsm_state ctx = FLASH_STATE_ERASE" "erase_fn ctx = Some recording_erase"
    and "range_erase_cur ctx = start" "range_erase_end ctx = start + len" "range_erase_sector_size ctx = sector"
    and "len \<noteq> 0" "sector \<noteq> 0" "unat start + unat len + unat sector \<le> 4294967296"
    and "k < sectors len sector"
  shows "(Flash_MainFunction ^^ k) (ctx, log) =
     (ctx\<lparr> range_erase_cur := start + of_nat k * sector \<rparr>, log @ sector_addresses start sector k)"
  using assms(9)
proof (induction k)
  case 0
  then show ?case using assms(3) by (simp add: sector_addresses_def)
next
  case (Suc k)
  have pos: "0 < unat sector" "0 < unat len" using assms(6,7) by (simp_all add: unat_gt_0)
  have lt: "Suc k * unat sector < unat len" using Suc.prems sectors_iff[OF pos(1)] by simp
  have e: "unat (start + len) = unat start + unat len" using assms(8) pos by (simp add: unat_add_32)
  have "unat (of_nat (Suc k) * sector) = Suc k * unat sector"
    using lt unat_u32_lt[of len] by (intro unat_sector_offset[OF pos(1)]) linarith
  then have c: "unat (start + of_nat (Suc k) * sector) = unat start + Suc k * unat sector"
    using lt assms(8) by (subst unat_add_32) auto
  have "\<not> start + len \<le> start + of_nat (Suc k) * sector"
    using lt e c by (simp add: word_le_nat_alt)
  then show ?case
    using Suc assms(1,2,4,5)
    by (simp add: Flash_MainFunction_def recording_erase_def sector_addresses_def Let_def algebra_simps)
qed

section \<open>Properties\<close>

text \<open> C40.
  A range erase visits exactly the sectors of the range. Accepted for a range that ends a sector
  below the top of the address space, with a driver that succeeds, the state machine is busy for as
  many polls as the range has sectors, calls the driver once for every sector start, in ascending
  order, and is then in \<open>FLASH_STATE_ERASE_DONE\<close>.
\<close>

theorem range_erase_visits_sectors:
  assumes "erase_fn ctx = Some recording_erase" "len \<noteq> 0" "sector \<noteq> 0"
    and "unat start + unat len + unat sector \<le> 4294967296"
    and "Flash_RequestRangeErase ctx start len sector = (True, ctx')"
  shows "(\<forall>k < sectors len sector. Flash_IsBusy (fst ((Flash_MainFunction ^^ k) (ctx', log)))) \<and>
     fsm_state (fst ((Flash_MainFunction ^^ sectors len sector) (ctx', log))) = FLASH_STATE_ERASE_DONE \<and>
     snd ((Flash_MainFunction ^^ sectors len sector) (ctx', log)) =
       log @ sector_addresses start sector (sectors len sector)"
proof -
  have c: "fsm_state ctx' = FLASH_STATE_ERASE" "erase_fn ctx' = Some recording_erase"
    "range_erase_cur ctx' = start" "range_erase_end ctx' = start + len" "range_erase_sector_size ctx' = sector"
    using assms(1,5) by (auto simp: Flash_RequestRangeErase_def split: if_splits)
  note polls = erase_polls[OF c assms(2,3,4)]
  have pos: "0 < unat sector" "0 < unat len" using assms(2,3) by (simp_all add: unat_gt_0)
  define n where "n = sectors len sector - 1"
  have n: "sectors len sector = Suc n" using sectors_iff[OF pos(1), of 0 len] pos(2) by (simp add: n_def)
  have last: "n * unat sector < unat len" "unat len \<le> Suc n * unat sector"
    using sectors_iff[OF pos(1), of n len] sectors_iff[OF pos(1), of "Suc n" len] n by auto
  have e: "unat (start + len) = unat start + unat len" using assms(4) pos by (simp add: unat_add_32)
  have s: "Suc n * unat sector < 4294967296" using last(1) assms(4) by simp
  have "unat (of_nat (Suc n) * sector) = Suc n * unat sector"
    using unat_sector_offset[OF pos(1) s] .
  then have "unat (start + of_nat (Suc n) * sector) = unat start + Suc n * unat sector"
    using last(1) assms(4) by (subst unat_add_32) auto
  then have "start + len \<le> start + of_nat (Suc n) * sector"
    using last(2) e by (simp add: word_le_nat_alt)
  then have "(Flash_MainFunction ^^ Suc n) (ctx', log) =
      (ctx'\<lparr> range_erase_cur := start + of_nat (Suc n) * sector, fsm_state := FLASH_STATE_ERASE_DONE \<rparr>,
       log @ sector_addresses start sector (Suc n))"
    using polls[of n] n c
    by (simp add: Flash_MainFunction_def recording_erase_def sector_addresses_def Let_def algebra_simps)
  moreover have "Flash_IsBusy (fst ((Flash_MainFunction ^^ k) (ctx', log)))" if "k < sectors len sector" for k
    using polls[OF that] c(1) by (simp add: Flash_IsBusy_def)
  ultimately show ?thesis unfolding n by auto
qed

definition demo_ctx :: "u32 list FlashContext_t" where
  "demo_ctx = Flash_SetHardwareInterface Flash_Init None (Some recording_erase)"

theorem range_erase_visits_sectors_witness:
  "snd ((Flash_MainFunction ^^ 3) (snd (Flash_RequestRangeErase demo_ctx 0x1000 0x500 0x200), [])) =
     [0x1000, 0x1200, 0x1400]"
proof -
  have "sectors 0x500 0x200 = 3" by (simp add: sectors_def)
  moreover have "Flash_RequestRangeErase demo_ctx 0x1000 0x500 0x200 =
      (True, snd (Flash_RequestRangeErase demo_ctx 0x1000 0x500 0x200))"
    by (simp add: Flash_RequestRangeErase_def demo_ctx_def Flash_SetHardwareInterface_def Flash_Init_def erase_accepted_def)
  moreover have "erase_fn demo_ctx = Some recording_erase" by (simp add: demo_ctx_def Flash_SetHardwareInterface_def)
  ultimately show ?thesis
    using range_erase_visits_sectors[of demo_ctx "0x500" "0x200" "0x1000" _ "[]"]
    by (simp add: sector_addresses_def upt_rec)
qed

text \<open>
  A range up to the top of the address space is not erased: its end wraps to zero, and one poll
  reports \<open>FLASH_STATE_ERASE_DONE\<close> after a single sector.
\<close>

lemma range_erase_wraps:
  "Flash_MainFunction (snd (Flash_RequestRangeErase demo_ctx 0xFFFF0000 0x10000 0x1000), []) =
     (demo_ctx\<lparr> erase_addr := 0xFFFF0000, range_erase_start := 0xFFFF0000, range_erase_end := 0,
        range_erase_cur := 0xFFFF1000, range_erase_sector_size := 0x1000,
        fsm_state := FLASH_STATE_ERASE_DONE \<rparr>, [0xFFFF0000])"
  by (simp add: Flash_MainFunction_def Flash_RequestRangeErase_def demo_ctx_def Flash_SetHardwareInterface_def
    Flash_Init_def erase_accepted_def recording_erase_def)

end
