(* ===== verification/Crc.thy ===== *)
theory Crc
  imports Prelude
begin

text \<open>
  The checksums of the library: the CRC-32 of \<open>library/src/uds_download.c\<close> and
  \<open>library/src/boot_verify.c\<close> and the CRC-16 of \<open>library/src/uds_wear_leveling.c\<close>. The interface
  \<open>checksum\<close> states what the clients use: piecewise computation, and that a change of a single
  byte is never missed. Both checksums are proved to provide it.
\<close>

section \<open>The interface\<close>

locale checksum =
  fixes upd :: "'c \<Rightarrow> bytes \<Rightarrow> 'c"
  assumes upd_nil: "upd c [] = c"
    and upd_append: "upd c (xs @ ys) = upd (upd c xs) ys"
    and upd_state: "upd c xs = upd d xs \<Longrightarrow> c = d"
    and upd_byte: "upd c [a] = upd c [b] \<Longrightarrow> a = b"
begin

lemma upd_concat: "foldl upd c xss = upd c (concat xss)"
  by (induction xss arbitrary: c) (simp_all add: upd_nil upd_append)

lemma byte_error: "upd c (xs @ [a] @ ys) = upd c (xs @ [b] @ ys) \<Longrightarrow> a = b"
  using upd_state upd_byte by (metis upd_append)

lemma single_change:
  assumes "length xs = length ys" "i < length xs" "\<And>j. j < length xs \<Longrightarrow> j \<noteq> i \<Longrightarrow> xs ! j = ys ! j"
    and "upd c xs = upd c ys"
  shows "xs = ys"
proof -
  have split: "xs = take i xs @ [xs ! i] @ drop (Suc i) xs" "ys = take i ys @ [ys ! i] @ drop (Suc i) ys"
    using assms(1,2) by (simp_all add: id_take_nth_drop[symmetric])
  have "take i xs = take i ys" "drop (Suc i) xs = drop (Suc i) ys"
    using assms(1-3) by (auto intro!: nth_equalityI)
  then have "upd c (take i xs @ [xs ! i] @ drop (Suc i) xs) = upd c (take i xs @ [ys ! i] @ drop (Suc i) xs)"
    using assms(4) split by metis
  then have "xs ! i = ys ! i" by (rule byte_error)
  with \<open>take i xs = take i ys\<close> \<open>drop (Suc i) xs = drop (Suc i) ys\<close> split show ?thesis by metis
qed

end

section \<open>CRC-32\<close>

text \<open>One pass of the bit loop, and the eight passes for a byte.\<close>

definition crc32_bit :: "u32 \<Rightarrow> u32" where
  "crc32_bit value = (if value AND 1 \<noteq> 0 then drop_bit 1 value XOR 0xEDB88320 else drop_bit 1 value)"

definition crc32_byte :: "u32 \<Rightarrow> u8 \<Rightarrow> u32" where
  "crc32_byte value b = (crc32_bit ^^ 8) (value XOR ucast b)"

primrec crc32_update :: "u32 \<Rightarrow> bytes \<Rightarrow> u32" where
  "crc32_update value [] = value"
| "crc32_update value (b # bs) = crc32_update (crc32_byte value b) bs"

definition boot_calc_crc32 :: "bytes \<Rightarrow> u32" where
  "boot_calc_crc32 data = (if data = [] then 0 else NOT (crc32_update 0xFFFFFFFF data))"

lemma xor_left_cancel:
  fixes a b c :: "'a::len word"
  shows "a XOR b = a XOR c \<longleftrightarrow> b = c"
proof
  assume "a XOR b = a XOR c"
  then have "a XOR (a XOR b) = a XOR (a XOR c)" by simp
  then show "b = c" by (simp flip: xor.assoc)
qed simp

lemma xor_right_cancel:
  fixes a b c :: "'a::len word"
  shows "a XOR c = b XOR c \<longleftrightarrow> a = b"
  by (metis xor.commute xor_left_cancel)

lemma and_1_bit: "v AND 1 \<noteq> (0 :: 'a::len word) \<longleftrightarrow> bit v 0"
  by (simp add: and_one_eq odd_iff_mod_2_eq_one bit_0)

lemma crc32_bit_inj: "inj crc32_bit"
proof (rule injI)
  fix v w :: u32
  have top: "bit (crc32_bit v) 31 \<longleftrightarrow> bit v 0" for v
    using bit_imp_le_length[of v 32] by (auto simp add: crc32_bit_def and_1_bit bit_simps)
  assume eq: "crc32_bit v = crc32_bit w"
  then have b0: "bit v 0 = bit w 0" using top by metis
  then have "drop_bit 1 v = drop_bit 1 w"
    using eq by (auto simp: crc32_bit_def and_1_bit xor_right_cancel split: if_splits)
  then have bS: "bit v (Suc n) = bit w (Suc n)" for n
    by (metis bit_drop_bit_eq comp_apply plus_1_eq_Suc)
  show "v = w"
  proof (rule bit_word_eqI)
    fix n
    show "bit v n = bit w n" using b0 bS by (cases n) auto
  qed
qed

lemma crc32_update_state: "crc32_update c xs = crc32_update d xs \<Longrightarrow> c = d"
proof (induction xs arbitrary: c d)
  case Nil
  then show ?case by simp
next
  case (Cons x xs)
  then have "crc32_byte c x = crc32_byte d x" by simp
  then have "c XOR ucast x = d XOR ucast x"
    unfolding crc32_byte_def by (rule injD[OF inj_fn[OF crc32_bit_inj]])
  then show ?case by (simp only: xor_right_cancel)
qed

lemma ucast_8_32_inj: "(ucast (a :: u8) :: u32) = ucast b \<Longrightarrow> a = b"
  by (metis unat_ucast_8_32 unsigned_word_eqI)

interpretation crc32: checksum crc32_update
proof
  show "crc32_update c (xs @ ys) = crc32_update (crc32_update c xs) ys" for c xs ys
    by (induction xs arbitrary: c) simp_all
  show "crc32_update c xs = crc32_update d xs \<Longrightarrow> c = d" for c d xs
    by (rule crc32_update_state)
  show "crc32_update c [a] = crc32_update c [b] \<Longrightarrow> a = b" for c a b
  proof -
    assume "crc32_update c [a] = crc32_update c [b]"
    then have "c XOR ucast a = c XOR ucast b"
      unfolding crc32_update.simps crc32_byte_def by (rule injD[OF inj_fn[OF crc32_bit_inj]])
    then have "(ucast a :: u32) = ucast b" by (simp only: xor_left_cancel)
    then show "a = b" by (rule ucast_8_32_inj)
  qed
qed simp

section \<open>CRC-16\<close>

definition UDS_CRC16_CCITT_INIT :: u16 where "UDS_CRC16_CCITT_INIT = 0xFFFF"
definition UDS_CRC16_CCITT_POLY :: u32 where "UDS_CRC16_CCITT_POLY = 0x1021"

text \<open>The register is a 32-bit variable that is cut to 16 bits after every shift.\<close>

definition crc16_bit :: "u32 \<Rightarrow> u32" where
  "crc16_bit val = (if val AND 0x8000 \<noteq> 0
     then (push_bit 1 val XOR UDS_CRC16_CCITT_POLY) AND 0xFFFF
     else push_bit 1 val AND 0xFFFF)"

definition crc16_byte :: "u32 \<Rightarrow> u8 \<Rightarrow> u32" where
  "crc16_byte val b = (crc16_bit ^^ 8) (val XOR push_bit 8 (ucast b))"

definition uds_crc16_ccitt_update :: "u16 \<Rightarrow> bytes \<Rightarrow> u16" where
  "uds_crc16_ccitt_update crc data = ucast (foldl crc16_byte (ucast crc) data AND 0xFFFF)"

definition uds_crc16_ccitt :: "bytes \<Rightarrow> u16" where
  "uds_crc16_ccitt data = uds_crc16_ccitt_update UDS_CRC16_CCITT_INIT data"

text \<open>The same on a 16-bit register: the textbook form.\<close>

definition crc16_ref_bit :: "u16 \<Rightarrow> u16" where
  "crc16_ref_bit v = (if bit v 15 then push_bit 1 v XOR 0x1021 else push_bit 1 v)"

definition crc16_ref_byte :: "u16 \<Rightarrow> u8 \<Rightarrow> u16" where
  "crc16_ref_byte v b = (crc16_ref_bit ^^ 8) (v XOR push_bit 8 (ucast b))"

lemma mask_16: "(0xFFFF :: u32) = mask 16"
  by (simp add: mask_eq_exp_minus_1)

lemma push_mask_16: "push_bit n (ucast (v :: u16) :: u32) AND mask 16 = ucast (push_bit n v)"
proof (rule bit_word_eqI)
  fix k
  show "bit (push_bit n (ucast v :: u32) AND mask 16) k = bit (ucast (push_bit n v) :: u32) k"
    using bit_imp_le_length[of v "k - n"] by (auto simp: bit_simps)
qed

lemma and_8000: "(ucast (v :: u16) :: u32) AND 0x8000 \<noteq> 0 \<longleftrightarrow> bit v 15"
proof -
  have "(0x8000 :: u32) = push_bit 15 1" by simp
  then have "(ucast v :: u32) AND 0x8000 \<noteq> 0 \<longleftrightarrow> bit (ucast v :: u32) 15"
    by (simp only: bit_iff_and_push_bit_not_eq_0)
  also have "\<dots> \<longleftrightarrow> bit v 15" by (simp add: bit_simps)
  finally show ?thesis .
qed

lemma and_xor_mask: "(a XOR b) AND m = (a AND m) XOR (b AND (m :: u32))"
  by (rule bit_word_eqI) (auto simp: bit_simps)

lemma crc16_bit_ref: "crc16_bit (ucast v) = ucast (crc16_ref_bit v)"
proof -
  have a: "(push_bit 1 (ucast v) XOR 0x1021) AND 0xFFFF = (ucast (push_bit 1 v XOR 0x1021 :: u16) :: u32)"
    unfolding and_xor_mask unsigned_xor_eq mask_16 push_mask_16 by (simp add: mask_eq_exp_minus_1)
  have b: "push_bit 1 (ucast v) AND 0xFFFF = (ucast (push_bit 1 v :: u16) :: u32)"
    unfolding mask_16 by (rule push_mask_16)
  show ?thesis
    by (cases "bit v 15")
      (simp_all only: crc16_bit_def crc16_ref_bit_def UDS_CRC16_CCITT_POLY_def and_8000 if_True if_False a b)
qed

lemma crc16_bits_ref: "(crc16_bit ^^ n) (ucast v) = ucast ((crc16_ref_bit ^^ n) v)"
  by (induction n) (simp_all add: crc16_bit_ref)

lemma ucast_8_16_32: "(ucast (ucast (b :: u8) :: u16) :: u32) = ucast b"
proof (rule bit_word_eqI)
  fix k
  show "bit (ucast (ucast b :: u16) :: u32) k = bit (ucast b :: u32) k"
    using bit_imp_le_length[of b k] by (auto simp: bit_simps)
qed

lemma crc16_byte_ref: "crc16_byte (ucast v) b = ucast (crc16_ref_byte v b)"
proof -
  have "push_bit 8 (ucast b) = (ucast (push_bit 8 (ucast b) :: u16) :: u32)"
  proof (rule bit_word_eqI)
    fix k
    show "bit (push_bit 8 (ucast b) :: u32) k = bit (ucast (push_bit 8 (ucast b) :: u16) :: u32) k"
      using bit_imp_le_length[of b "k - 8"] by (auto simp: bit_simps)
  qed
  then show ?thesis
    unfolding crc16_byte_def crc16_ref_byte_def by (simp only: crc16_bits_ref flip: unsigned_xor_eq)
qed

lemma crc16_update_ref: "uds_crc16_ccitt_update crc data = foldl crc16_ref_byte crc data"
proof -
  have "foldl crc16_byte (ucast crc) data = ucast (foldl crc16_ref_byte crc data)"
    by (induction data arbitrary: crc) (simp_all add: crc16_byte_ref)
  moreover have "ucast (ucast w AND 0xFFFF :: u32) = (w :: u16)" for w
    unfolding mask_16 by (rule bit_word_eqI) (auto simp: bit_simps)
  ultimately show ?thesis by (simp add: uds_crc16_ccitt_update_def)
qed

lemma crc16_ref_bit_inj: "inj crc16_ref_bit"
proof (rule injI)
  fix v w :: u16
  have low: "bit (crc16_ref_bit v) 0 \<longleftrightarrow> bit v 15" for v
  proof -
    have "bit (0x1021 :: u16) 0" by simp
    then show ?thesis by (simp only: crc16_ref_bit_def bit_xor_iff bit_push_bit_iff split: if_split) simp
  qed
  assume eq: "crc16_ref_bit v = crc16_ref_bit w"
  then have b15: "bit v 15 = bit w 15" using low by metis
  then have "push_bit 1 v = push_bit 1 w"
    using eq by (cases "bit w 15") (simp_all only: crc16_ref_bit_def xor_right_cancel if_True if_False)
  then have bS: "Suc n < 16 \<Longrightarrow> bit v n = bit w n" for n
    using bit_push_bit_iff[of 1 v "Suc n"] bit_push_bit_iff[of 1 w "Suc n"] by simp
  show "v = w"
  proof (rule bit_word_eqI)
    fix n assume "n < LENGTH(16)"
    then have "n = 15 \<or> Suc n < 16" by auto
    then show "bit v n = bit w n" using b15 bS by blast
  qed
qed

interpretation crc16: checksum uds_crc16_ccitt_update
proof
  have byte: "crc16_ref_byte c a = crc16_ref_byte d a \<Longrightarrow> c = d" for c d a
    unfolding crc16_ref_byte_def by (drule injD[OF inj_fn[OF crc16_ref_bit_inj]]) (simp only: xor_right_cancel)
  show "uds_crc16_ccitt_update c (xs @ ys) = uds_crc16_ccitt_update (uds_crc16_ccitt_update c xs) ys" for c xs ys
    by (simp add: crc16_update_ref)
  show "uds_crc16_ccitt_update c xs = uds_crc16_ccitt_update d xs \<Longrightarrow> c = d" for c d xs
    unfolding crc16_update_ref by (induction xs arbitrary: c d) (auto dest: byte)
  show "uds_crc16_ccitt_update c [a] = uds_crc16_ccitt_update c [b] \<Longrightarrow> a = b" for c a b
  proof -
    assume "uds_crc16_ccitt_update c [a] = uds_crc16_ccitt_update c [b]"
    then have "crc16_ref_byte c a = crc16_ref_byte c b" by (simp add: crc16_update_ref)
    then have "c XOR push_bit 8 (ucast a) = c XOR push_bit 8 (ucast b)"
      unfolding crc16_ref_byte_def by (rule injD[OF inj_fn[OF crc16_ref_bit_inj]])
    then have eq: "push_bit 8 (ucast a :: u16) = push_bit 8 (ucast b)" by (simp only: xor_left_cancel)
    show "a = b"
    proof (rule bit_word_eqI)
      fix n assume "n < LENGTH(8)"
      then show "bit a n = bit b n"
        using arg_cong[OF eq, of "\<lambda>w. bit w (8 + n)"] by (simp add: bit_push_bit_iff bit_unsigned_iff)
    qed
  qed
qed (simp add: crc16_update_ref)

section \<open>Properties\<close>

text \<open>
  The CRC-16 of the parameter store, computed in a 32-bit variable that is masked after every
  shift, is the textbook CRC-16/CCITT on a 16-bit register, for every start value and every data.
\<close>

theorem crc16_matches_textbook: "uds_crc16_ccitt_update crc data = foldl crc16_ref_byte crc data"
  by (rule crc16_update_ref)

text \<open>
  No single corrupted byte goes unnoticed: two blocks of the same length that differ in exactly
  one byte (by any pattern) have different CRC-32 and different CRC-16, wherever the byte is.
\<close>

theorem crc_detects_byte_error:
  assumes "length xs = length ys" "i < length xs" "xs ! i \<noteq> ys ! i"
    and "\<And>j. j < length xs \<Longrightarrow> j \<noteq> i \<Longrightarrow> xs ! j = ys ! j"
  shows "boot_calc_crc32 xs \<noteq> boot_calc_crc32 ys \<and> uds_crc16_ccitt xs \<noteq> uds_crc16_ccitt ys"
proof
  have ne: "xs \<noteq> ys" "xs \<noteq> []" "ys \<noteq> []" using assms(1-3) by auto
  show "boot_calc_crc32 xs \<noteq> boot_calc_crc32 ys"
    using ne crc32.single_change[OF assms(1,2,4)] by (auto simp: boot_calc_crc32_def)
  show "uds_crc16_ccitt xs \<noteq> uds_crc16_ccitt ys"
    using ne crc16.single_change[OF assms(1,2,4)] by (auto simp: uds_crc16_ccitt_def)
qed

theorem crc_detects_byte_error_witness:
  "boot_calc_crc32 [0x12, 0x34, 0x56] \<noteq> boot_calc_crc32 [0x12, 0x35, 0x56] \<and>
   uds_crc16_ccitt [0x12, 0x34, 0x56] \<noteq> uds_crc16_ccitt [0x12, 0x35, 0x56]"
proof -
  have "[0x12, 0x34, 0x56] ! j = [0x12, 0x35, 0x56 :: u8] ! j" if "j < 3" "j \<noteq> 1" for j
    using that by (auto simp: nth_Cons' less_Suc_eq numeral_3_eq_3)
  then show ?thesis
    using crc_detects_byte_error[of "[0x12, 0x34, 0x56]" "[0x12, 0x35, 0x56]" 1] by simp
qed

end
