(* ===== verification/Layout.thy ===== *)
theory Layout
  imports Prelude
begin

text \<open>
  The memory layout of integers on the target, least significant byte first, for the structures
  that the code stores in flash or hashes as bytes.
\<close>

definition le16_bytes :: "u16 \<Rightarrow> bytes" where
  "le16_bytes v = [ucast v, ucast (drop_bit 8 v)]"

definition le32_bytes :: "u32 \<Rightarrow> bytes" where
  "le32_bytes v = [ucast v, ucast (drop_bit 8 v), ucast (drop_bit 16 v), ucast (drop_bit 24 v)]"

definition le16_at :: "bytes \<Rightarrow> nat \<Rightarrow> u16 option" where
  "le16_at bs i = do { a \<leftarrow> peek bs i; b \<leftarrow> peek bs (i + 1); Some (ucast a OR push_bit 8 (ucast b)) }"

definition le32_at :: "bytes \<Rightarrow> nat \<Rightarrow> u32 option" where
  "le32_at bs i = do {
     a \<leftarrow> peek bs i; b \<leftarrow> peek bs (i + 1); c \<leftarrow> peek bs (i + 2); d \<leftarrow> peek bs (i + 3);
     Some (ucast a OR push_bit 8 (ucast b) OR push_bit 16 (ucast c) OR push_bit 24 (ucast d)) }"

lemma length_le [simp]: "length (le16_bytes v) = 2" "length (le32_bytes w) = 4"
  by (simp_all add: le16_bytes_def le32_bytes_def)

lemma le16_join: "ucast (ucast v :: u8) OR push_bit 8 (ucast (ucast (drop_bit 8 v) :: u8)) = (v :: u16)"
  by (rule bit_word_eqI) (auto simp: bit_simps)

lemma le32_join:
  "ucast (ucast v :: u8) OR push_bit 8 (ucast (ucast (drop_bit 8 v) :: u8)) OR
     push_bit 16 (ucast (ucast (drop_bit 16 v) :: u8)) OR push_bit 24 (ucast (ucast (drop_bit 24 v) :: u8)) = (v :: u32)"
proof (rule bit_word_eqI)
  fix n assume "n < LENGTH(32)"
  then consider "n < 8" | "8 \<le> n" "n < 16" | "16 \<le> n" "n < 24" | "24 \<le> n" "n < 32" by fastforce
  then show "bit (ucast (ucast v :: u8) OR push_bit 8 (ucast (ucast (drop_bit 8 v) :: u8)) OR
      push_bit 16 (ucast (ucast (drop_bit 16 v) :: u8)) OR push_bit 24 (ucast (ucast (drop_bit 24 v) :: u8)) :: u32) n =
      bit v n"
    by cases (simp_all add: bit_simps, linarith+)
qed

lemma le16_at_bytes: "length xs = i \<Longrightarrow> le16_at (xs @ le16_bytes v @ ys) i = Some v"
  by (auto simp: le16_at_def le16_bytes_def peek_def nth_append le16_join)

lemma le32_at_bytes: "length xs = i \<Longrightarrow> le32_at (xs @ le32_bytes v @ ys) i = Some v"
  by (auto simp: le32_at_def le32_bytes_def peek_def nth_append le32_join)

lemma le16_at_own [simp]: "le16_at (le16_bytes v) 0 = Some v"
  using le16_at_bytes[of "[]" 0 v "[]"] by simp

lemma le32_at_own [simp]: "le32_at (le32_bytes v) 0 = Some v"
  using le32_at_bytes[of "[]" 0 v "[]"] by simp

lemma le16_bytes_inj: "le16_bytes x = le16_bytes y \<longleftrightarrow> x = y"
  by (metis le16_at_own option.inject)

lemma le32_bytes_inj: "le32_bytes x = le32_bytes y \<longleftrightarrow> x = y"
  by (metis le32_at_own option.inject)

end
