(* ===== verification/Wear_Leveling.thy ===== *)
theory Wear_Leveling
  imports Crc Layout
begin

text \<open>
  The wear-levelled parameter store (\<open>library/src/uds_wear_leveling.c\<close>). The flash port is a
  parameter: functions over a device state \<open>'f\<close> with C's status codes (0 is success). A null port
  function, a division by zero and an access outside a buffer are \<open>None\<close>.
\<close>

section \<open>State\<close>

definition UDS_PARAM_OK :: int where "UDS_PARAM_OK = 0"
definition UDS_PARAM_ERR :: int where "UDS_PARAM_ERR = -1"
definition UDS_PARAM_INVALID_PARAM :: int where "UDS_PARAM_INVALID_PARAM = -4"
definition UDS_PARAM_MAGIC :: u16 where "UDS_PARAM_MAGIC = 0xC0DE"

lemmas param_code_defs = UDS_PARAM_OK_def UDS_PARAM_ERR_def UDS_PARAM_INVALID_PARAM_def

record 'f UdsFlashPort =
  port_erase :: "('f \<Rightarrow> u32 \<Rightarrow> int \<times> 'f) option"
  port_read :: "('f \<Rightarrow> u32 \<Rightarrow> nat \<Rightarrow> int \<times> bytes \<times> 'f) option"
  port_write :: "('f \<Rightarrow> u32 \<Rightarrow> bytes \<Rightarrow> int \<times> 'f) option"
  port_sector_size :: "(u32 \<Rightarrow> u32) option"
  port_program_granule :: u8
  port_erased_byte :: u8

record UdsParamSlotHeader =
  hdr_magic :: u16
  hdr_seq :: u16
  hdr_data_size :: u16
  hdr_crc :: u16
  hdr_pad :: bytes

record 'f UdsParamStore =
  wl_port :: "'f UdsFlashPort"
  flash_base :: u32
  sector_size :: u32
  sector_count :: u8
  data_size :: u16
  slot_size :: u16
  slots_per_sector :: u16
  header_size :: u16
  payload_size_aligned :: u16
  program_granule :: u8
  erased_byte :: u8
  active_sector :: u8
  active_slot :: u16
  next_seq :: u16
  wl_initialized :: bool
  has_active_slot :: bool

definition erase_at :: "'f UdsParamStore \<Rightarrow> 'f \<Rightarrow> u32 \<Rightarrow> (int \<times> 'f) option" where
  "erase_at store f a = map_option (\<lambda>erase. erase f a) (port_erase (wl_port store))"
definition read_at :: "'f UdsParamStore \<Rightarrow> 'f \<Rightarrow> u32 \<Rightarrow> nat \<Rightarrow> (int \<times> bytes \<times> 'f) option" where
  "read_at store f a n = map_option (\<lambda>read. read f a n) (port_read (wl_port store))"
definition write_at :: "'f UdsParamStore \<Rightarrow> 'f \<Rightarrow> u32 \<Rightarrow> bytes \<Rightarrow> (int \<times> 'f) option" where
  "write_at store f a bs = map_option (\<lambda>write. write f a bs) (port_write (wl_port store))"

section \<open>Slots\<close>

definition slot_addr :: "'f UdsParamStore \<Rightarrow> u8 \<Rightarrow> u16 \<Rightarrow> u32" where
  "slot_addr store sector slot =
     flash_base store + ucast sector * sector_size store + ucast slot * ucast (slot_size store)"

text \<open>The header in memory: sixteen bytes.\<close>

definition header_bytes :: "UdsParamSlotHeader \<Rightarrow> bytes" where
  "header_bytes hdr = le16_bytes (hdr_magic hdr) @ le16_bytes (hdr_seq hdr) @ le16_bytes (hdr_data_size hdr) @
     le16_bytes (hdr_crc hdr) @ hdr_pad hdr"

definition header_of_bytes :: "bytes \<Rightarrow> UdsParamSlotHeader option" where
  "header_of_bytes bs = do {
     magic \<leftarrow> le16_at bs 0; sq \<leftarrow> le16_at bs 2; ds \<leftarrow> le16_at bs 4; crc \<leftarrow> le16_at bs 6;
     Some \<lparr> hdr_magic = magic, hdr_seq = sq, hdr_data_size = ds, hdr_crc = crc, hdr_pad = drop 8 bs \<rparr> }"

text \<open>Chunks of at most 32 bytes; \<open>None\<close> for the CRC is a failed read.\<close>

function crc_loop :: "'f UdsParamStore \<Rightarrow> 'f \<Rightarrow> u32 \<Rightarrow> u16 \<Rightarrow> nat \<Rightarrow> (u16 option \<times> 'f) option" where
  "crc_loop store f addr crc remaining =
     (if remaining = 0 then Some (Some crc, f)
      else
        let chunk_len = min remaining 32 in do {
          (status, chunk, f) \<leftarrow> read_at store f addr chunk_len;
          (if status \<noteq> 0 then Some (None, f)
           else crc_loop store f (addr + of_nat chunk_len) (uds_crc16_ccitt_update crc chunk) (remaining - chunk_len))
        })"
  by pat_completeness auto
termination by (relation "measure (\<lambda>(store, f, addr, crc, remaining). remaining)") auto

declare crc_loop.simps [simp del]

definition verify_slot_crc :: "'f UdsParamStore \<Rightarrow> 'f \<Rightarrow> u8 \<Rightarrow> u16 \<Rightarrow> u16 \<Rightarrow> (bool \<times> 'f) option" where
  "verify_slot_crc store f sector slot expected_crc = do {
     (crc, f) \<leftarrow> crc_loop store f (slot_addr store sector slot + ucast (header_size store)) UDS_CRC16_CCITT_INIT
                   (unat (data_size store));
     Some (crc = Some expected_crc, f)
   }"

text \<open>The header when the slot is valid.\<close>

definition read_slot_header ::
  "'f UdsParamStore \<Rightarrow> 'f \<Rightarrow> u8 \<Rightarrow> u16 \<Rightarrow> (UdsParamSlotHeader option \<times> 'f) option" where
  "read_slot_header store f sector slot = do {
     (status, bs, f) \<leftarrow> read_at store f (slot_addr store sector slot) 16;
     (if status \<noteq> 0 then Some (None, f)
      else do {
        hdr \<leftarrow> header_of_bytes bs;
        (if hdr_magic hdr \<noteq> UDS_PARAM_MAGIC \<or> hdr_data_size hdr \<noteq> data_size store then Some (None, f)
         else do {
           (ok, f) \<leftarrow> verify_slot_crc store f sector slot (hdr_crc hdr);
           Some (if ok then Some hdr else None, f)
         })
      })
   }"

text \<open>The two nested loops visit the slots in this order.\<close>

definition all_slots :: "'f UdsParamStore \<Rightarrow> (u8 \<times> u16) list" where
  "all_slots store = concat (map (\<lambda>sec. map (\<lambda>sl. (of_nat sec, of_nat sl)) [0..<unat (slots_per_sector store)])
     [0..<unat (sector_count store)])"

fun scan_loop ::
  "'f UdsParamStore \<Rightarrow> 'f \<Rightarrow> (u8 \<times> u16) list \<Rightarrow> (u16 \<times> u8 \<times> u16) option \<Rightarrow> ((u16 \<times> u8 \<times> u16) option \<times> 'f) option" where
  "scan_loop store f [] best = Some (best, f)"
| "scan_loop store f ((sec, sl) # rest) best = do {
     (hdr, f) \<leftarrow> read_slot_header store f sec sl;
     scan_loop store f rest
       (case hdr of
          None \<Rightarrow> best
        | Some h \<Rightarrow>
            (case best of
               None \<Rightarrow> Some (hdr_seq h, sec, sl)
             | Some (best_seq, _) \<Rightarrow> if 0 < sint (hdr_seq h - best_seq) then Some (hdr_seq h, sec, sl) else best))
   }"

definition bump_seq :: "u16 \<Rightarrow> u16" where
  "bump_seq sq = (if sq + 1 = 0 then 1 else sq + 1)"

definition scan_for_active_slot :: "'f UdsParamStore \<Rightarrow> 'f \<Rightarrow> ('f UdsParamStore \<times> 'f) option" where
  "scan_for_active_slot store f = do {
     (best, f) \<leftarrow> scan_loop store f (all_slots store) None;
     Some (case best of
        None \<Rightarrow> store
      | Some (best_seq, best_sec, best_slot) \<Rightarrow>
          store\<lparr> active_sector := best_sec, active_slot := best_slot, next_seq := bump_seq best_seq,
                 has_active_slot := True \<rparr>, f)
   }"

section \<open>Operations\<close>

definition validate_init_args :: "'f UdsFlashPort \<Rightarrow> u8 \<Rightarrow> u16 \<Rightarrow> bool" where
  "validate_init_args port sectors size_of_data =
     (port_erase port \<noteq> None \<and> port_read port \<noteq> None \<and> port_write port \<noteq> None \<and>
      port_sector_size port \<noteq> None \<and> sectors \<noteq> 0 \<and> size_of_data \<noteq> 0)"

text \<open>Round up to a multiple, in 32 bits and cut to 16.\<close>

definition align_up :: "u16 \<Rightarrow> u32 \<Rightarrow> u16" where
  "align_up v g = ucast (((ucast v + g - 1) div g) * g)"

definition uds_param_init ::
  "'f UdsParamStore \<Rightarrow> 'f UdsFlashPort \<Rightarrow> u32 \<Rightarrow> u8 \<Rightarrow> u16 \<Rightarrow> 'f \<Rightarrow> (int \<times> 'f UdsParamStore \<times> 'f) option" where
  "uds_param_init store port base sectors size_of_data f =
     (if \<not> validate_init_args port sectors size_of_data then Some (UDS_PARAM_INVALID_PARAM, store, f)
      else
        let sec_size = the (port_sector_size port) base in
        if sec_size = 0 then Some (UDS_PARAM_INVALID_PARAM, store, f)
        else
          let granule = (if port_program_granule port = 0 then 2 else port_program_granule port) in
          if granule AND (granule - 1) \<noteq> 0 then Some (UDS_PARAM_INVALID_PARAM, store, f)
          else
            let e = (if port_erased_byte port \<noteq> 0 then port_erased_byte port else 0xFF);
                min_hdr :: u16 = (if 16 > granule then 16 else ucast granule);
                hsize = align_up min_hdr (ucast granule);
                payload = align_up size_of_data (ucast granule);
                ssize = hsize + payload;
                ssize = (if ssize mod 16 \<noteq> 0 \<and> granule < 16 then align_up ssize 16 else ssize) in
            if ucast ssize > sec_size then Some (UDS_PARAM_INVALID_PARAM, store, f)
            else if ssize = 0 then None
            else do {
              let store = store\<lparr> wl_port := port, flash_base := base, sector_size := sec_size,
                    sector_count := sectors, data_size := size_of_data, slot_size := ssize, header_size := hsize,
                    payload_size_aligned := payload, program_granule := granule, erased_byte := e,
                    slots_per_sector := ucast (sec_size div ucast ssize), active_sector := 0, active_slot := 0,
                    next_seq := 1, wl_initialized := False, has_active_slot := False \<rparr>;
              (store, f) \<leftarrow> scan_for_active_slot store f;
              Some (UDS_PARAM_OK, store\<lparr> wl_initialized := True \<rparr>, f)
            })"

text \<open>The second component is the buffer of the caller, of \<open>data_size\<close> bytes.\<close>

definition uds_param_load :: "'f UdsParamStore \<Rightarrow> bytes \<Rightarrow> 'f \<Rightarrow> (int \<times> bytes \<times> 'f) option" where
  "uds_param_load store data f =
     (if \<not> wl_initialized store then Some (UDS_PARAM_INVALID_PARAM, data, f)
      else if \<not> has_active_slot store then Some (UDS_PARAM_ERR, data, f)
      else do {
        let addr = slot_addr store (active_sector store) (active_slot store);
        (status, data, f) \<leftarrow> read_at store f (addr + ucast (header_size store)) (unat (data_size store));
        (if status \<noteq> 0 then Some (UDS_PARAM_ERR, data, f)
         else do {
           (status, bs, f) \<leftarrow> read_at store f addr 16;
           (if status \<noteq> 0 then Some (UDS_PARAM_ERR, data, f)
            else do {
              hdr \<leftarrow> header_of_bytes bs;
              (if hdr_crc hdr \<noteq> uds_crc16_ccitt data then Some (UDS_PARAM_ERR, data, f)
               else Some (UDS_PARAM_OK, data, f))
            })
         })
      })"

text \<open>Chunks of at most 64 bytes, filled up with the erased byte behind the end of the source.\<close>

function write_padded_chunked ::
  "'f UdsParamStore \<Rightarrow> 'f \<Rightarrow> u32 \<Rightarrow> bytes \<Rightarrow> nat \<Rightarrow> nat \<Rightarrow> nat \<Rightarrow> (int \<times> 'f) option" where
  "write_padded_chunked store f addr src src_size total_size written =
     (if written < total_size then
        let to_write = min (total_size - written) 64;
            copy_len = (if written < src_size then min (src_size - written) to_write else 0) in
        if written + copy_len > length src \<and> copy_len > 0 then None
        else do {
          let chunk = take copy_len (drop written src) @ replicate (to_write - copy_len) (erased_byte store);
          (status, f) \<leftarrow> write_at store f (addr + of_nat written) chunk;
          (if status \<noteq> 0 then Some (UDS_PARAM_ERR, f)
           else write_padded_chunked store f addr src src_size total_size (written + to_write))
        }
      else Some (UDS_PARAM_OK, f))"
  by pat_completeness auto
termination
  by (relation "measure (\<lambda>(store, f, addr, src, src_size, total_size, written). total_size - written)") auto

declare write_padded_chunked.simps [simp del]

text \<open>The next slot, with its sector erased when it is the first of a sector.\<close>

definition prepare_next_slot :: "'f UdsParamStore \<Rightarrow> 'f \<Rightarrow> (int \<times> u8 \<times> u16 \<times> 'f) option" where
  "prepare_next_slot store f =
     (if has_active_slot store then
        let sl = active_slot store + 1; sec = active_sector store in
        if slots_per_sector store \<le> sl then do {
          (if sector_count store = 0 then None else Some ());
          let sec = ucast ((ucast sec + 1 :: u32) mod ucast (sector_count store));
          (status, f) \<leftarrow> erase_at store f (flash_base store + ucast sec * sector_size store);
          (if status \<noteq> 0 then Some (UDS_PARAM_ERR, 0, 0, f) else Some (UDS_PARAM_OK, sec, 0, f))
        }
        else Some (UDS_PARAM_OK, sec, sl, f)
      else do {
        (status, f) \<leftarrow> erase_at store f (flash_base store);
        (if status \<noteq> 0 then Some (UDS_PARAM_ERR, 0, 0, f) else Some (UDS_PARAM_OK, 0, 0, f))
      })"

definition save_header :: "'f UdsParamStore \<Rightarrow> bytes \<Rightarrow> UdsParamSlotHeader" where
  "save_header store data =
     \<lparr> hdr_magic = UDS_PARAM_MAGIC, hdr_seq = next_seq store, hdr_data_size = data_size store,
       hdr_crc = uds_crc16_ccitt data, hdr_pad = replicate 8 (erased_byte store) \<rparr>"

definition uds_param_save :: "'f UdsParamStore \<Rightarrow> bytes \<Rightarrow> 'f \<Rightarrow> (int \<times> 'f UdsParamStore \<times> 'f) option" where
  "uds_param_save store data f =
     (if \<not> wl_initialized store then Some (UDS_PARAM_INVALID_PARAM, store, f)
      else do {
        (result, sec, sl, f) \<leftarrow> prepare_next_slot store f;
        (if result \<noteq> UDS_PARAM_OK then Some (UDS_PARAM_ERR, store, f)
         else do {
           let addr = slot_addr store sec sl;
           (result, f) \<leftarrow> write_padded_chunked store f (addr + ucast (header_size store)) data
                            (unat (data_size store)) (unat (payload_size_aligned store)) 0;
           (if result \<noteq> UDS_PARAM_OK then Some (UDS_PARAM_ERR, store, f)
            else do {
              (result, f) \<leftarrow> write_padded_chunked store f addr (header_bytes (save_header store data)) 16
                               (unat (header_size store)) 0;
              (if result \<noteq> UDS_PARAM_OK then Some (UDS_PARAM_ERR, store, f)
               else Some (UDS_PARAM_OK, store\<lparr> active_sector := sec, active_slot := sl,
                            next_seq := bump_seq (next_seq store), has_active_slot := True \<rparr>, f))
            })
         })
      })"

primrec erase_all_loop :: "'f UdsParamStore \<Rightarrow> 'f \<Rightarrow> nat list \<Rightarrow> (int \<times> 'f) option" where
  "erase_all_loop store f [] = Some (UDS_PARAM_OK, f)"
| "erase_all_loop store f (sec # rest) = do {
     (status, f) \<leftarrow> erase_at store f (flash_base store + of_nat sec * sector_size store);
     (if status \<noteq> 0 then Some (UDS_PARAM_ERR, f) else erase_all_loop store f rest)
   }"

definition uds_param_erase_all :: "'f UdsParamStore \<Rightarrow> 'f \<Rightarrow> (int \<times> 'f UdsParamStore \<times> 'f) option" where
  "uds_param_erase_all store f =
     (if \<not> wl_initialized store then Some (UDS_PARAM_INVALID_PARAM, store, f)
      else do {
        (result, f) \<leftarrow> erase_all_loop store f [0..<unat (sector_count store)];
        (if result \<noteq> UDS_PARAM_OK then Some (UDS_PARAM_ERR, store, f)
         else Some (UDS_PARAM_OK, store\<lparr> active_sector := 0, active_slot := 0, next_seq := 1,
                      has_active_slot := False \<rparr>, f))
      })"

definition uds_param_write_count :: "'f UdsParamStore \<Rightarrow> u16" where
  "uds_param_write_count store =
     (if \<not> has_active_slot store \<or> next_seq store = 0 then 0 else next_seq store - 1)"

end
