(* ===== verification/Wear_Slots.thy ===== *)
theory Wear_Slots
  imports Wear_Leveling
begin

text \<open>
  The flash behind the parameter store, slot by slot: the contract of the port, the addresses of
  the slots, and what a read, a padded write and a sector erase do to the bytes of each slot.
\<close>

section \<open>Copies in an address space\<close>

lemma memory_at_add: "memory_at m a (i + j) = memory_at m a i @ memory_at m (a + of_nat i) j"
  by (induction j) (simp_all add: memory_at_def add.assoc)

lemma memory_at_part:
  assumes "off + n \<le> len"
  shows "memory_at m (a + of_nat off) n = take n (drop off (memory_at m a len))"
proof -
  obtain r where "len = (off + n) + r" using assms by (metis le_Suc_ex)
  then show ?thesis by (simp add: memory_at_add)
qed

lemma memory_put_append:
  "memory_put m a (xs @ ys) = memory_put (memory_put m a xs) (a + of_nat (length xs)) ys"
  by (induction xs arbitrary: m a) (simp_all add: add.assoc)

lemma memory_at_cong:
  "(\<And>i. i < n \<Longrightarrow> m (a + of_nat i) = m' (a + of_nat i)) \<Longrightarrow> memory_at m a n = memory_at m' a n"
  by (simp add: memory_at_def)

lemma unat_offset_32: "unat a + i < 4294967296 \<Longrightarrow> unat (a + of_nat i :: u32) = unat a + i"
  by (subst unat_add_32) (simp_all add: unat_of_nat_32)

text \<open>A write outside a range leaves it.\<close>

lemma memory_put_outside:
  assumes "unat a + length bs \<le> 4294967296" "unat b + n \<le> 4294967296"
    and "unat a + length bs \<le> unat b \<or> unat b + n \<le> unat a"
  shows "memory_at (memory_put m a bs) b n = memory_at m b n"
proof (rule memory_at_cong)
  fix i assume i: "i < n"
  have x: "unat (b + of_nat i) = unat b + i" using i assms(2) by (intro unat_offset_32) simp
  have l: "length bs \<le> 4294967296" using assms(1) by simp
  have "\<not> unat (b + of_nat i - a) < length bs"
  proof (cases "a \<le> b + of_nat i")
    case True
    then have "unat (b + of_nat i - a) = unat b + i - unat a" using x by (simp add: unat_sub_32)
    moreover have "unat a \<le> unat b + i" using True x by (simp add: word_le_nat_alt)
    ultimately show ?thesis using assms(3) i by linarith
  next
    case False
    then have lt: "unat b + i < unat a" using x by (simp add: word_le_nat_alt)
    have "unat (b + of_nat i - a) = unat b + i + 4294967296 - unat a"
      using unat_sub_if_size[of "b + of_nat i" a] x lt by (simp add: word_size)
    then show ?thesis using assms(1) unat_u32_lt[of a] by linarith
  qed
  then show "memory_put m a bs (b + of_nat i) = m (b + of_nat i)"
    using l by (simp add: memory_put_apply)
qed

text \<open>A write inside a range replaces a part of it.\<close>

lemma memory_put_inside:
  assumes "off + length bs \<le> n" "unat a + n \<le> 4294967296"
  shows "memory_at (memory_put m (a + of_nat off) bs) a n =
     take off (memory_at m a n) @ bs @ drop (off + length bs) (memory_at m a n)"
proof -
  let ?m = "memory_put m (a + of_nat off) bs"
  obtain r where n: "n = off + (length bs + r)" using assms(1) by (metis le_Suc_ex add.assoc)
  have o: "unat (a + of_nat off) = unat a + off" if "0 < length bs + r"
    by (rule unat_offset_32) (use assms(2) n that in linarith)
  have "memory_at ?m a off = memory_at m a off"
  proof (cases "length bs = 0")
    case False
    then show ?thesis using assms n o by (intro memory_put_outside) auto
  qed simp
  moreover have "memory_at ?m (a + of_nat off) (length bs) = bs"
    using assms by (intro memory_put_at) simp
  moreover have "memory_at ?m (a + of_nat off + of_nat (length bs)) r = memory_at m (a + of_nat off + of_nat (length bs)) r"
  proof (cases "r = 0")
    case False
    then have "unat (a + of_nat (off + length bs)) = unat a + (off + length bs)"
      using assms(2) n by (intro unat_offset_32) simp
    then show ?thesis using assms n o False by (intro memory_put_outside) (auto simp: add.assoc)
  qed (simp add: memory_at_def)
  ultimately show ?thesis by (simp add: n memory_at_add)
qed

section \<open>The contract of the port\<close>

text \<open>
  Reads succeed and return the content. A write to erased bytes stores the data or, when it fails
  or the power goes, a prefix of it. An erase sets the sector to 0xFF; when it fails it has done that or nothing.
\<close>

definition flash_ok :: "'f UdsFlashPort \<Rightarrow> ('f \<Rightarrow> u32 \<Rightarrow> u8) \<Rightarrow> u32 \<Rightarrow> bool" where
  "flash_ok port content ssz \<longleftrightarrow> (\<exists>er rd wr.
     port_erase port = Some er \<and> port_read port = Some rd \<and> port_write port = Some wr \<and>
     (\<forall>f a n. \<exists>f'. rd f a n = (0, memory_at (content f) a n, f') \<and> content f' = content f) \<and>
     (\<forall>f a bs. memory_at (content f) a (length bs) = replicate (length bs) 0xFF \<longrightarrow>
        (\<exists>st f' k. wr f a bs = (st, f') \<and> k \<le> length bs \<and> content f' = memory_put (content f) a (take k bs) \<and>
           (st = 0 \<longrightarrow> k = length bs))) \<and>
     (\<forall>f a. \<exists>st f'. er f a = (st, f') \<and>
        (content f' = memory_put (content f) a (replicate (unat ssz) 0xFF) \<or> st \<noteq> 0 \<and> content f' = content f)))"

lemma flash_read:
  assumes "flash_ok (wl_port store) content ssz"
  shows "\<exists>f'. read_at store f a n = Some (0, memory_at (content f) a n, f') \<and> content f' = content f"
  using assms unfolding flash_ok_def read_at_def by fastforce

lemma flash_write:
  assumes "flash_ok (wl_port store) content ssz"
    and "memory_at (content f) a (length bs) = replicate (length bs) 0xFF"
  shows "\<exists>st f' k. write_at store f a bs = Some (st, f') \<and> k \<le> length bs \<and>
     content f' = memory_put (content f) a (take k bs) \<and> (st = 0 \<longrightarrow> k = length bs)"
  using assms unfolding flash_ok_def write_at_def by fastforce

lemma flash_erase:
  assumes "flash_ok (wl_port store) content ssz"
  shows "\<exists>st f'. erase_at store f a = Some (st, f') \<and>
     (content f' = memory_put (content f) a (replicate (unat ssz) 0xFF) \<or> st \<noteq> 0 \<and> content f' = content f)"
  using assms unfolding flash_ok_def erase_at_def by fastforce

section \<open>Slots\<close>

definition slot_total :: "'f UdsParamStore \<Rightarrow> nat" where
  "slot_total store = unat (sector_count store) * unat (slots_per_sector store)"

text \<open>The slots in the order of the scan, counted from zero.\<close>

definition slot_pos :: "'f UdsParamStore \<Rightarrow> nat \<Rightarrow> u8 \<times> u16" where
  "slot_pos store p = (of_nat (p div unat (slots_per_sector store)), of_nat (p mod unat (slots_per_sector store)))"

definition addr_of :: "'f UdsParamStore \<Rightarrow> nat \<Rightarrow> u32" where
  "addr_of store p = slot_addr store (fst (slot_pos store p)) (snd (slot_pos store p))"

text \<open>What \<open>uds_param_init\<close> arranges: the sizes fit each other and the address space.\<close>

definition geometry :: "'f UdsParamStore \<Rightarrow> bool" where
  "geometry store \<longleftrightarrow> 16 \<le> unat (header_size store) \<and> 0 < unat (data_size store) \<and> unat (data_size store) < 65535 \<and>
     unat (data_size store) \<le> unat (payload_size_aligned store) \<and>
     unat (header_size store) + unat (payload_size_aligned store) \<le> unat (slot_size store) \<and>
     0 < unat (slots_per_sector store) \<and> 0 < unat (sector_count store) \<and>
     unat (slots_per_sector store) * unat (slot_size store) \<le> unat (sector_size store) \<and>
     unat (flash_base store) + unat (sector_count store) * unat (sector_size store) \<le> 4294967296 \<and>
     erased_byte store = 0xFF"

definition slot_bytes :: "'f UdsParamStore \<Rightarrow> (u32 \<Rightarrow> u8) \<Rightarrow> nat \<Rightarrow> bytes" where
  "slot_bytes store m p = memory_at m (addr_of store p) (unat (slot_size store))"

lemma length_slot_bytes [simp]: "length (slot_bytes store m p) = unat (slot_size store)"
  by (simp add: slot_bytes_def)

lemma slot_pos_unat:
  assumes "geometry store" "p < slot_total store"
  shows "unat (fst (slot_pos store p)) = p div unat (slots_per_sector store)"
    and "unat (snd (slot_pos store p)) = p mod unat (slots_per_sector store)"
    and "p div unat (slots_per_sector store) < unat (sector_count store)"
proof -
  have n: "0 < unat (slots_per_sector store)" using assms(1) by (simp add: geometry_def)
  then show d: "p div unat (slots_per_sector store) < unat (sector_count store)"
    using assms(2) by (simp add: slot_total_def less_mult_imp_div_less)
  then have "p div unat (slots_per_sector store) < 256" using unat_u8_lt[of "sector_count store"] by linarith
  then show "unat (fst (slot_pos store p)) = p div unat (slots_per_sector store)"
    by (simp add: slot_pos_def unat_of_nat)
  have "p mod unat (slots_per_sector store) < unat (slots_per_sector store)" using n by simp
  then have "p mod unat (slots_per_sector store) < 65536" using unat_u16_lt[of "slots_per_sector store"] by linarith
  then show "unat (snd (slot_pos store p)) = p mod unat (slots_per_sector store)"
    by (simp add: slot_pos_def unat_of_nat)
qed

text \<open>The sector and the slot address without wrap-around.\<close>

lemma unat_sector_addr:
  assumes "geometry store" "s < unat (sector_count store)"
  shows "unat (flash_base store + of_nat s * sector_size store) = unat (flash_base store) + s * unat (sector_size store)"
    and "unat (flash_base store) + s * unat (sector_size store) + unat (sector_size store) \<le> 4294967296"
proof -
  have le: "Suc s * unat (sector_size store) \<le> unat (sector_count store) * unat (sector_size store)"
    using assms(2) by (intro mult_le_mono1) simp
  have fit: "unat (flash_base store) + unat (sector_count store) * unat (sector_size store) \<le> 4294967296"
    using assms(1) by (simp add: geometry_def)
  with le show "unat (flash_base store) + s * unat (sector_size store) + unat (sector_size store) \<le> 4294967296" by simp
  have pos: "0 < unat (sector_size store)"
  proof -
    have "1 * 16 \<le> unat (slots_per_sector store) * unat (slot_size store)"
      using assms(1) by (intro mult_le_mono) (auto simp: geometry_def)
    then show ?thesis using assms(1) by (simp add: geometry_def)
  qed
  have "s < 4294967296" using assms(2) unat_u8_lt[of "sector_count store"] by linarith
  then have "unat (of_nat s :: u32) = s" by (rule unat_of_nat_32)
  moreover have "s * unat (sector_size store) < 4294967296" using le fit pos by simp
  ultimately have "unat (of_nat s * sector_size store) = s * unat (sector_size store)"
    by (simp add: unat_word_ariths)
  then show "unat (flash_base store + of_nat s * sector_size store) = unat (flash_base store) + s * unat (sector_size store)"
    using le fit pos by (subst unat_add_32) auto
qed

lemma unat_addr_of:
  assumes "geometry store" "p < slot_total store"
  shows "unat (addr_of store p) = unat (flash_base store) +
       (p div unat (slots_per_sector store)) * unat (sector_size store) +
       (p mod unat (slots_per_sector store)) * unat (slot_size store)"
    and "(p mod unat (slots_per_sector store)) * unat (slot_size store) + unat (slot_size store) \<le> unat (sector_size store)"
    and "unat (addr_of store p) + unat (slot_size store) \<le> 4294967296"
proof -
  let ?N = "unat (slots_per_sector store)" and ?S = "unat (slot_size store)"
  note u = slot_pos_unat[OF assms]
  have N: "0 < ?N" "?N * ?S \<le> unat (sector_size store)" using assms(1) by (simp_all add: geometry_def)
  have "Suc (p mod ?N) * ?S \<le> ?N * ?S" using N(1) by (intro mult_le_mono1) (simp add: Suc_le_eq)
  with N(2) show in_sec: "(p mod ?N) * ?S + ?S \<le> unat (sector_size store)" by simp
  note sa = unat_sector_addr[OF assms(1) u(3)]
  have sec: "ucast (fst (slot_pos store p)) = (of_nat (p div ?N) :: u32)"
  proof -
    have "p div ?N < 4294967296" using u(3) unat_u8_lt[of "sector_count store"] by linarith
    then show ?thesis using u(1) by (simp add: word_unat_eq_iff unat_of_nat_32)
  qed
  have S: "16 \<le> ?S" using assms(1) by (simp add: geometry_def)
  have "unat (ucast (snd (slot_pos store p)) * ucast (slot_size store) :: u32) = (p mod ?N) * ?S"
  proof -
    have "(p mod ?N) * ?S < 4294967296" using in_sec S unat_u32_lt[of "sector_size store"] by linarith
    then show ?thesis using u(2) by (simp add: unat_word_ariths)
  qed
  then show ad: "unat (addr_of store p) = unat (flash_base store) + (p div ?N) * unat (sector_size store) + (p mod ?N) * ?S"
    using sa in_sec S by (simp add: addr_of_def slot_addr_def sec unat_add_32)
  show "unat (addr_of store p) + ?S \<le> 4294967296" using ad sa(2) in_sec by simp
qed

text \<open>Different slots do not overlap.\<close>

lemma slots_apart:
  assumes "geometry store" "p < slot_total store" "q < slot_total store" "p \<noteq> q"
  shows "unat (addr_of store p) + unat (slot_size store) \<le> unat (addr_of store q) \<or>
     unat (addr_of store q) + unat (slot_size store) \<le> unat (addr_of store p)"
proof -
  let ?N = "unat (slots_per_sector store)" and ?S = "unat (slot_size store)" and ?Z = "unat (sector_size store)"
  note up = unat_addr_of[OF assms(1,2)] and uq = unat_addr_of[OF assms(1,3)]
  have less: "unat (addr_of store x) + ?S \<le> unat (addr_of store y)"
    if "x < slot_total store" "y < slot_total store" "x div ?N < y div ?N \<or> x div ?N = y div ?N \<and> x mod ?N < y mod ?N" for x y
  proof -
    note ux = unat_addr_of[OF assms(1) that(1)] and uy = unat_addr_of[OF assms(1) that(2)]
    show ?thesis
    proof (cases "x div ?N < y div ?N")
      case True
      then have "Suc (x div ?N) * ?Z \<le> (y div ?N) * ?Z" by (intro mult_le_mono1) simp
      then show ?thesis using ux uy by simp
    next
      case False
      then have "Suc (x mod ?N) * ?S \<le> (y mod ?N) * ?S" using that(3) by (intro mult_le_mono1) auto
      then show ?thesis using ux uy False that(3) by simp
    qed
  qed
  have "p div ?N \<noteq> q div ?N \<or> p mod ?N \<noteq> q mod ?N" using assms(4) by (metis div_mult_mod_eq)
  then have "(p div ?N < q div ?N \<or> p div ?N = q div ?N \<and> p mod ?N < q mod ?N) \<or>
      (q div ?N < p div ?N \<or> q div ?N = p div ?N \<and> q mod ?N < p mod ?N)" by linarith
  then show ?thesis using less[of p q] less[of q p] assms(2,3) by blast
qed

section \<open>Effects on the slots\<close>

lemma slot_bytes_put:
  assumes "geometry store" "p < slot_total store" "off + length bs \<le> unat (slot_size store)" "q < slot_total store"
  shows "slot_bytes store (memory_put m (addr_of store p + of_nat off) bs) q =
     (if q = p then take off (slot_bytes store m p) @ bs @ drop (off + length bs) (slot_bytes store m p)
      else slot_bytes store m q)"
proof (cases "q = p")
  case True
  then show ?thesis
    using memory_put_inside[OF assms(3)] unat_addr_of(3)[OF assms(1,2)] by (simp add: slot_bytes_def)
next
  case False
  note ap = slots_apart[OF assms(1,2,4)] and tp = unat_addr_of(3)[OF assms(1,2)] and tq = unat_addr_of(3)[OF assms(1,4)]
  show ?thesis
  proof (cases "bs = []")
    case bs: False
    have o: "unat (addr_of store p + of_nat off) = unat (addr_of store p) + off"
      using assms(3) tp bs by (intro unat_offset_32) (cases bs, auto)
    show ?thesis
      using False ap tp tq assms(3) by (simp add: slot_bytes_def) (intro memory_put_outside; simp add: o; linarith)
  qed (use False in simp)
qed

lemma slot_bytes_erase:
  assumes "geometry store" "s < unat (sector_count store)" "q < slot_total store"
  shows "slot_bytes store (memory_put m (flash_base store + of_nat s * sector_size store)
       (replicate (unat (sector_size store)) 0xFF)) q =
     (if q div unat (slots_per_sector store) = s then replicate (unat (slot_size store)) 0xFF else slot_bytes store m q)"
proof -
  let ?N = "unat (slots_per_sector store)" and ?S = "unat (slot_size store)" and ?Z = "unat (sector_size store)"
  let ?a = "flash_base store + of_nat s * sector_size store"
  note sa = unat_sector_addr[OF assms(1,2)] and ua = unat_addr_of[OF assms(1,3)]
  show ?thesis
  proof (cases "q div ?N = s")
    case True
    then have u: "unat (addr_of store q) = unat ?a + (q mod ?N) * ?S" using ua(1) sa(1) by simp
    have off: "(q mod ?N) * ?S + ?S \<le> ?Z" using ua(2) .
    have "0 < ?S" using assms(1) by (simp add: geometry_def)
    then have "(q mod ?N) * ?S < 4294967296" using off unat_u32_lt[of "sector_size store"] by linarith
    then have ad: "addr_of store q = ?a + of_nat ((q mod ?N) * ?S)"
      using u ua(3) assms(1) by (intro word_unat_eq_iff[THEN iffD2])
        (subst unat_offset_32, simp_all add: geometry_def)
    have "memory_at (memory_put m ?a (replicate ?Z 0xFF)) ?a ?Z = replicate ?Z 0xFF"
      using memory_put_at[of "replicate ?Z 0xFF" m ?a] unat_u32_lt[of "sector_size store"] by (simp add: less_imp_le)
    then show ?thesis
      using memory_at_part[OF off, of "memory_put m ?a (replicate ?Z 0xFF)" ?a] True off
      by (simp add: slot_bytes_def ad)
  next
    case False
    have "q div ?N < s \<or> s < q div ?N" using False by linarith
    then have "unat ?a + ?Z \<le> unat (addr_of store q) \<or> unat (addr_of store q) + ?S \<le> unat ?a"
    proof
      assume "q div ?N < s"
      then have "Suc (q div ?N) * ?Z \<le> s * ?Z" by (intro mult_le_mono1) simp
      then show ?thesis using ua sa by simp
    next
      assume "s < q div ?N"
      then have "Suc s * ?Z \<le> (q div ?N) * ?Z" by (intro mult_le_mono1) simp
      then show ?thesis using ua sa by simp
    qed
    then show ?thesis
      using False sa ua(3) by (simp add: slot_bytes_def) (intro memory_put_outside; simp)
  qed
qed

end
