(* ===== verification/Wear_Scan.thy ===== *)
theory Wear_Scan
  imports Wear_Slots
begin

text \<open>
  What the parameter store reads: the header and the data of a slot, the order of the sequence
  numbers, and the slot the scan of \<open>uds_param_init\<close> picks.
\<close>

section \<open>Reading a slot\<close>

definition slot_data :: "'f UdsParamStore \<Rightarrow> bytes \<Rightarrow> bytes" where
  "slot_data store bs = take (unat (data_size store)) (drop (unat (header_size store)) bs)"

definition slot_header :: "'f UdsParamStore \<Rightarrow> bytes \<Rightarrow> UdsParamSlotHeader option" where
  "slot_header store bs =
     (case header_of_bytes (take 16 bs) of
        None \<Rightarrow> None
      | Some h \<Rightarrow>
          if hdr_magic h = UDS_PARAM_MAGIC \<and> hdr_data_size h = data_size store \<and>
             uds_crc16_ccitt (slot_data store bs) = hdr_crc h then Some h else None)"

lemma header_of_bytes_Some: "8 \<le> length bs \<Longrightarrow> \<exists>h. header_of_bytes bs = Some h"
  by (auto simp: header_of_bytes_def le16_at_def peek_def)

lemma crc_loop_reads:
  assumes "flash_ok (wl_port store) content ssz"
  shows "\<exists>f'. crc_loop store f addr crc n =
      Some (Some (uds_crc16_ccitt_update crc (memory_at (content f) addr n)), f') \<and> content f' = content f"
proof (induction n arbitrary: f addr crc rule: less_induct)
  case (less n)
  show ?case
  proof (cases "n = 0")
    case True
    then show ?thesis by (simp add: crc_loop.simps memory_at_def crc16.upd_nil)
  next
    case False
    define k where "k = min n 32"
    have k: "0 < k" "k \<le> n" using False by (auto simp: k_def)
    obtain f1 where f1: "read_at store f addr k = Some (0, memory_at (content f) addr k, f1)" "content f1 = content f"
      using flash_read[OF assms] by blast
    obtain f2 where f2: "crc_loop store f1 (addr + of_nat k) (uds_crc16_ccitt_update crc (memory_at (content f) addr k)) (n - k) =
        Some (Some (uds_crc16_ccitt_update (uds_crc16_ccitt_update crc (memory_at (content f) addr k))
          (memory_at (content f1) (addr + of_nat k) (n - k))), f2)" "content f2 = content f1"
      using less.IH[of "n - k" f1] k by fastforce
    have "memory_at (content f) addr n = memory_at (content f) addr k @ memory_at (content f) (addr + of_nat k) (n - k)"
      using memory_at_add[of "content f" addr k "n - k"] k by simp
    then show ?thesis
      using False f1 f2 by (simp add: crc_loop.simps[of store f addr crc n] Let_def k_def[symmetric] crc16.upd_append)
  qed
qed

lemma read_slot_header_eq:
  assumes "flash_ok (wl_port store) content ssz" "geometry store" "p < slot_total store"
  shows "\<exists>f'. read_slot_header store f (fst (slot_pos store p)) (snd (slot_pos store p)) =
      Some (slot_header store (slot_bytes store (content f) p), f') \<and> content f' = content f"
proof -
  let ?bs = "slot_bytes store (content f) p"
  let ?H = "unat (header_size store)" and ?D = "unat (data_size store)" and ?S = "unat (slot_size store)"
  have g: "16 \<le> ?H" "?H + ?D \<le> ?S" using assms(2) by (auto simp: geometry_def)
  have part: "memory_at (content f) (addr_of store p + of_nat off) n = take n (drop off ?bs)" if "off + n \<le> ?S" for off n
    using memory_at_part[OF that] by (simp add: slot_bytes_def)
  obtain f1 where f1: "read_at store f (addr_of store p) 16 = Some (0, take 16 ?bs, f1)" "content f1 = content f"
    using flash_read[OF assms(1), of f "addr_of store p" 16] part[of 0 16] g by auto
  obtain h where h: "header_of_bytes (take 16 ?bs) = Some h"
    using header_of_bytes_Some[of "take 16 ?bs"] g by auto
  obtain f2 where f2: "crc_loop store f1 (addr_of store p + ucast (header_size store)) UDS_CRC16_CCITT_INIT ?D =
      Some (Some (uds_crc16_ccitt_update UDS_CRC16_CCITT_INIT
        (memory_at (content f1) (addr_of store p + ucast (header_size store)) ?D)), f2)" "content f2 = content f1"
    using crc_loop_reads[OF assms(1)] by blast
  have "(ucast (header_size store) :: u32) = of_nat ?H"
    by (simp add: word_unat_eq_iff unat_of_nat_32 order.strict_trans[OF unat_u16_lt])
  then have "memory_at (content f1) (addr_of store p + ucast (header_size store)) ?D = slot_data store ?bs"
    using part[OF g(2)] f1(2) by (simp add: slot_data_def)
  then show ?thesis
    using f1 f2 h
    by (auto simp: read_slot_header_def verify_slot_crc_def slot_header_def uds_crc16_ccitt_def
      addr_of_def[symmetric])
qed

section \<open>Sequence numbers\<close>

text \<open>The sequence number of the n-th save, counted from one: 1 to 65535, again and again.\<close>

definition seq_of :: "nat \<Rightarrow> u16" where
  "seq_of n = of_nat ((n - 1) mod 65535 + 1)"

lemma unat_seq_of: "unat (seq_of n) = (n - 1) mod 65535 + 1"
proof -
  have "(n - 1) mod 65535 + 1 < 65536" using mod_less_divisor[of 65535 "n - 1"] by linarith
  then show ?thesis unfolding seq_of_def by (rule unat_of_nat_16)
qed

lemma bump_seq_of:
  assumes "1 \<le> n"
  shows "bump_seq (seq_of n) = seq_of (n + 1)"
proof -
  obtain m where n: "n = Suc m" using assms by (cases n) auto
  define r where "r = m mod 65535"
  have r: "r < 65535" by (simp add: r_def)
  have u: "unat (seq_of n) = r + 1" by (simp add: unat_seq_of n r_def)
  show ?thesis
  proof (cases "r = 65534")
    case True
    then have "seq_of n = 65535" using u by (simp add: word_unat_eq_iff)
    moreover have "seq_of (n + 1) = 1" using True by (simp add: seq_of_def n r_def mod_Suc)
    ultimately show ?thesis by (simp add: bump_seq_def)
  next
    case False
    then have "unat (seq_of n + 1) = r + 2" using u r by (subst unat_add_16) simp_all
    moreover have "unat (seq_of (n + 1)) = r + 2"
      using False r by (simp add: unat_seq_of n r_def mod_Suc)
    ultimately have "seq_of n + 1 = seq_of (n + 1)" "seq_of n + 1 \<noteq> 0" by (auto simp: word_unat_eq_iff)
    then show ?thesis by (simp add: bump_seq_def)
  qed
qed

lemma sint_16_pos_iff: "0 < sint (w :: u16) \<longleftrightarrow> 0 < unat w \<and> unat w < 32768"
proof -
  have "0 \<le> sint w \<longleftrightarrow> \<not> bit w 15"
    by (simp add: sint_uint signed_take_bit_nonnegative_iff bit_simps)
  also have "bit w 15 \<longleftrightarrow> bit (unat w) 15" by (simp add: bit_unsigned_iff)
  also have "\<dots> \<longleftrightarrow> odd (unat w div 2 ^ 15)" by (simp add: bit_iff_odd)
  also have "\<dots> \<longleftrightarrow> 32768 \<le> unat w"
  proof -
    have "unat w div 2 ^ 15 < 2" using unat_u16_lt[of w] by (simp add: less_mult_imp_div_less)
    then have "unat w div 2 ^ 15 = 0 \<or> unat w div 2 ^ 15 = 1" by linarith
    moreover have "unat w div 2 ^ 15 = 0 \<longleftrightarrow> unat w < 2 ^ 15" by (simp add: div_eq_0_iff)
    ultimately show ?thesis by auto
  qed
  finally have "0 \<le> sint w \<longleftrightarrow> unat w < 32768" by auto
  moreover have "sint w = 0 \<longleftrightarrow> unat w = 0"
  proof
    assume "sint w = 0"
    then have "w = 0" by (intro signed_word_eqI) simp
    then show "unat w = 0" by simp
  next
    assume "unat w = 0"
    then have "w = 0" by (simp add: word_unat_eq_iff)
    then show "sint w = 0" by simp
  qed
  ultimately show ?thesis by auto
qed

text \<open>Within half of the range the later save has the newer number.\<close>

lemma seq_newer:
  assumes "1 \<le> m" "m < n" "n - m \<le> 32766"
  shows "0 < sint (seq_of n - seq_of m)" "\<not> 0 < sint (seq_of m - seq_of n)"
proof -
  obtain a where m: "m = Suc a" using assms(1) by (cases m) auto
  define d where "d = n - m"
  have d: "0 < d" "d \<le> 32766" "n = Suc (a + d)" using assms by (auto simp: d_def m)
  define r where "r = a mod 65535"
  have r: "r < 65535" "unat (seq_of m) = r + 1" by (simp_all add: r_def unat_seq_of m)
  have "(a + d) mod 65535 = (r + d) mod 65535" by (simp add: r_def mod_add_left_eq)
  also have "\<dots> = (if r + d < 65535 then r + d else r + d - 65535)" using r d by (auto simp: mod_if)
  finally have un: "unat (seq_of n) = (if r + d < 65535 then r + d + 1 else r + d - 65534)"
    using unat_seq_of[of n] d(3) by (cases "r + d < 65535") simp_all
  define e where "e = (if r + d < 65535 then d else d + 1)"
  have e: "0 < e" "e \<le> 32767" using d by (auto simp: e_def)
  have "unat (seq_of n - seq_of m) = e \<and> unat (seq_of m - seq_of n) = 65536 - e"
  proof (cases "r + d < 65535")
    case True
    then have "seq_of m \<le> seq_of n" "\<not> seq_of n \<le> seq_of m" using un r d by (auto simp: word_le_nat_alt)
    then show ?thesis
      using True un r d unat_sub_if_size[of "seq_of n" "seq_of m"] unat_sub_if_size[of "seq_of m" "seq_of n"]
      by (simp add: e_def word_size word_le_nat_alt)
  next
    case False
    then have "seq_of n \<le> seq_of m" "\<not> seq_of m \<le> seq_of n" using un r d by (auto simp: word_le_nat_alt)
    then show ?thesis
      using False un r d unat_sub_if_size[of "seq_of n" "seq_of m"] unat_sub_if_size[of "seq_of m" "seq_of n"]
      by (simp add: e_def word_size word_le_nat_alt)
  qed
  then show "0 < sint (seq_of n - seq_of m)" "\<not> 0 < sint (seq_of m - seq_of n)"
    using e by (auto simp: sint_16_pos_iff)
qed

section \<open>The scan\<close>

lemma nested_upt:
  assumes "0 < n"
  shows "concat (map (\<lambda>s. map (\<lambda>l. g s l) [0..<n]) [0..<m]) = map (\<lambda>p. g (p div n) (p mod n)) [0..<m * n]"
proof (induction m)
  case (Suc m)
  have "[0..<Suc m * n] = [0..<m * n] @ map (\<lambda>l. l + m * n) [0..<n]"
    using upt_add_eq_append[of 0 "m * n" n] by (simp add: map_add_upt add.commute)
  moreover have "map (\<lambda>p. g (p div n) (p mod n)) (map (\<lambda>l. l + m * n) [0..<n]) = map (g m) [0..<n]"
    using assms by (auto simp: comp_def)
  ultimately show ?case using Suc by simp
qed simp

lemma all_slots_pos:
  assumes "geometry store"
  shows "all_slots store = map (slot_pos store) [0..<slot_total store]"
proof -
  have "0 < unat (slots_per_sector store)" using assms by (simp add: geometry_def)
  from nested_upt[OF this, of "\<lambda>s l. (of_nat s :: u8, of_nat l :: u16)" "unat (sector_count store)"]
  show ?thesis by (simp add: all_slots_def slot_total_def slot_pos_def)
qed

text \<open>The distance from an older slot to the newest one, in the order in which they are written.\<close>

definition slot_age :: "'f UdsParamStore \<Rightarrow> nat \<Rightarrow> nat \<Rightarrow> nat" where
  "slot_age store q p = (q + slot_total store - p) mod slot_total store"

text \<open>
  The slots after \<open>n\<close> saves, the last of them in slot \<open>q\<close>: every valid slot carries the number of
  the save its age says.
\<close>

definition holds_at :: "'f UdsParamStore \<Rightarrow> (nat \<Rightarrow> bytes) \<Rightarrow> nat \<Rightarrow> nat \<Rightarrow> bytes \<Rightarrow> bool" where
  "holds_at store slots n q data \<longleftrightarrow> q < slot_total store \<and> slot_header store (slots q) \<noteq> None \<and>
     slot_data store (slots q) = data \<and>
     (\<forall>p < slot_total store. \<forall>h. slot_header store (slots p) = Some h \<longrightarrow>
        slot_age store q p < n \<and> hdr_seq h = seq_of (n - slot_age store q p))"

lemma slot_age_inj:
  assumes "p < slot_total store" "p' < slot_total store" "q < slot_total store" "slot_age store q p = slot_age store q p'"
  shows "p = p'"
proof -
  have age: "slot_age store q x = (if x \<le> q then q - x else q + slot_total store - x)" if "x < slot_total store" for x
    using that assms(3) by (auto simp: slot_age_def mod_if)
  show ?thesis using assms age[of p] age[of p'] by (auto split: if_splits)
qed

lemma slot_pos_inj:
  assumes "geometry store" "p < slot_total store" "q < slot_total store" "slot_pos store p = slot_pos store q"
  shows "p = q"
  using slot_pos_unat(1,2)[OF assms(1,2)] slot_pos_unat(1,2)[OF assms(1,3)] assms(4) by (metis div_mult_mod_eq)

lemma slot_age_less: "q < slot_total store \<Longrightarrow> slot_age store q p < slot_total store"
  by (simp add: slot_age_def)

lemma slot_age_self: "q < slot_total store \<Longrightarrow> slot_age store q q = 0"
  by (simp add: slot_age_def)

definition scan_best :: "'f UdsParamStore \<Rightarrow> nat \<Rightarrow> nat \<Rightarrow> nat \<Rightarrow> (u16 \<times> u8 \<times> u16) option" where
  "scan_best store n q p = Some (seq_of (n - slot_age store q p), slot_pos store p)"

text \<open>The loop keeps the youngest of the valid slots it has seen.\<close>

lemma scan_loop_youngest:
  assumes "flash_ok (wl_port store) content ssz" "geometry store" "slot_total store \<le> 32767"
    and "holds_at store slots n q data"
  shows "\<lbrakk> set ps \<subseteq> {..<slot_total store}; \<forall>p < slot_total store. slot_bytes store (content f) p = slots p;
       b = None \<or> (\<exists>p0 < slot_total store. b = scan_best store n q p0 \<and> slot_header store (slots p0) \<noteq> None) \<rbrakk> \<Longrightarrow>
     \<exists>b' f'. scan_loop store f (map (slot_pos store) ps) b = Some (b', f') \<and> content f' = content f \<and>
       (b' = b \<or> (\<exists>p \<in> set ps. b' = scan_best store n q p \<and> slot_header store (slots p) \<noteq> None)) \<and>
       (q \<in> set ps \<or> b = scan_best store n q q \<longrightarrow> b' = scan_best store n q q)"
proof (induction ps arbitrary: f b)
  case Nil
  then show ?case by simp
next
  case (Cons p ps)
  have p: "p < slot_total store" using Cons.prems(1) by simp
  have q: "q < slot_total store" using assms(4) by (simp add: holds_at_def)
  obtain f1 where f1: "read_slot_header store f (fst (slot_pos store p)) (snd (slot_pos store p)) =
      Some (slot_header store (slots p), f1)" "content f1 = content f"
    using read_slot_header_eq[OF assms(1,2) p, of f] Cons.prems(2) p by auto
  define b1 where "b1 = (case slot_header store (slots p) of None \<Rightarrow> b
    | Some h \<Rightarrow> (case b of None \<Rightarrow> Some (hdr_seq h, slot_pos store p)
       | Some (best_seq, _) \<Rightarrow> if 0 < sint (hdr_seq h - best_seq) then Some (hdr_seq h, slot_pos store p) else b))"
  have loop: "scan_loop store f (map (slot_pos store) (p # ps)) b = scan_loop store f1 (map (slot_pos store) ps) b1"
  proof -
    obtain sec sl where pos: "slot_pos store p = (sec, sl)" by fastforce
    show ?thesis using f1(1) unfolding b1_def pos by (simp add: pos)
  qed
  have seqs: "hdr_seq h = seq_of (n - slot_age store q x)" "slot_age store q x < n"
    if "x < slot_total store" "slot_header store (slots x) = Some h" for x h
    using assms(4) that by (auto simp: holds_at_def)
  have newer: "0 < sint (seq_of (n - slot_age store q x) - seq_of (n - slot_age store q y)) \<longleftrightarrow>
      slot_age store q x < slot_age store q y"
    if "x < slot_total store" "y < slot_total store" "slot_header store (slots x) \<noteq> None" "slot_header store (slots y) \<noteq> None" for x y
  proof -
    have a: "slot_age store q x < n" "slot_age store q y < n" using that seqs by auto
    have l: "slot_age store q x \<le> 32766" "slot_age store q y \<le> 32766"
      using slot_age_less[OF q, of x] slot_age_less[OF q, of y] assms(3) by linarith+
    consider "slot_age store q x < slot_age store q y" | "slot_age store q x = slot_age store q y"
      | "slot_age store q y < slot_age store q x" by linarith
    then show ?thesis
    proof cases
      case 1
      then show ?thesis using seq_newer(1)[of "n - slot_age store q y" "n - slot_age store q x"] a l by simp
    next
      case 2
      then show ?thesis by simp
    next
      case 3
      then show ?thesis using seq_newer(2)[of "n - slot_age store q x" "n - slot_age store q y"] a l by simp
    qed
  qed
  have b1: "b1 = b \<or> b1 = scan_best store n q p \<and> slot_header store (slots p) \<noteq> None"
  proof (cases "slot_header store (slots p)")
    case (Some h)
    then show ?thesis using seqs(1)[OF p Some] by (auto simp: b1_def scan_best_def split: option.splits)
  qed (simp add: b1_def)
  have b1q: "b1 = scan_best store n q q" if "p = q \<or> b = scan_best store n q q"
  proof -
    have hq: "slot_header store (slots q) \<noteq> None" using assms(4) by (simp add: holds_at_def)
    show ?thesis
    proof (cases "slot_header store (slots p)")
      case None
      then show ?thesis using that hq by (auto simp: b1_def)
    next
      case (Some h)
      have hs: "Some (hdr_seq h, slot_pos store p) = scan_best store n q p" using seqs(1)[OF p Some] by (simp add: scan_best_def)
      from Cons.prems(3) show ?thesis
      proof
        assume "b = None"
        then show ?thesis using that Some hs by (auto simp: b1_def scan_best_def)
      next
        assume "\<exists>p0 < slot_total store. b = scan_best store n q p0 \<and> slot_header store (slots p0) \<noteq> None"
        then obtain p0 where p0: "p0 < slot_total store" "b = scan_best store n q p0" "slot_header store (slots p0) \<noteq> None" by blast
        have cmp: "0 < sint (hdr_seq h - seq_of (n - slot_age store q p0)) \<longleftrightarrow> slot_age store q p < slot_age store q p0"
          using newer[OF p p0(1) _ p0(3)] Some seqs(1)[OF p Some] by simp
        have b1c: "b1 = (if slot_age store q p < slot_age store q p0 then scan_best store n q p else scan_best store n q p0)"
          using Some p0(2) cmp hs by (simp add: b1_def scan_best_def)
        from that show ?thesis
        proof
          assume "p = q"
          then show ?thesis
            using b1c slot_age_self[OF q] slot_age_inj[OF p0(1) q q] by (cases "slot_age store q p0 = 0") auto
        next
          assume "b = scan_best store n q q"
          then have "p0 = q"
            using p0(2) slot_pos_inj[OF assms(2) p0(1) q] by (simp add: scan_best_def)
          then show ?thesis using b1c slot_age_self[OF q] by simp
        qed
      qed
    qed
  qed
  have pre: "b1 = None \<or> (\<exists>p0 < slot_total store. b1 = scan_best store n q p0 \<and> slot_header store (slots p0) \<noteq> None)"
    using b1 Cons.prems(3) p by auto
  from Cons.IH[OF _ _ pre, of f1] obtain b' f' where r:
    "scan_loop store f1 (map (slot_pos store) ps) b1 = Some (b', f')" "content f' = content f1"
    "b' = b1 \<or> (\<exists>p \<in> set ps. b' = scan_best store n q p \<and> slot_header store (slots p) \<noteq> None)"
    "q \<in> set ps \<or> b1 = scan_best store n q q \<longrightarrow> b' = scan_best store n q q"
    using Cons.prems(1,2) f1(2) by auto
  show ?case
    using loop r f1(2) b1 b1q by (intro exI[of _ b'] exI[of _ f']) auto
qed

end
