(* ===== verification/Wear_Store.thy ===== *)
theory Wear_Store
  imports Wear_Scan
begin

text \<open>
  What \<open>uds_param_save\<close> does to the slots, also when a port call fails in the middle of it, and what
  \<open>uds_param_init\<close> finds afterwards: the crash consistency of the parameter store.
\<close>

section \<open>Padded writes\<close>

lemma padded_chunk:
  assumes "length src \<le> tot" "w < tot" "t = min (tot - w) 64"
    and "c = (if w < length src then min (length src - w) t else 0)"
  shows "take c (drop w src) @ replicate (t - c) x = take t (drop w (src @ replicate (tot - length src) x))"
proof -
  have "take c (drop w src) = take t (drop w src)" "t - c = t - (length src - w)"
    using assms(4) by (cases "length src - w \<le> t"; auto simp: min_def)+
  moreover have "t - (length src - w) \<le> tot - (length src + (w - length src))"
    using assms(1-3) by auto
  ultimately show ?thesis by (simp add: min_absorb1)
qed

lemma write_padded_puts:
  assumes "flash_ok (wl_port store) content ssz" "erased_byte store = 0xFF" "length src \<le> tot"
    and "unat a + tot \<le> 4294967296" "memory_at m a tot = replicate tot 0xFF"
  defines "full \<equiv> src @ replicate (tot - length src) 0xFF"
  shows "w \<le> tot \<Longrightarrow> content f = memory_put m a (take w full) \<Longrightarrow>
    \<exists>r f' k. write_padded_chunked store f a src (length src) tot w = Some (r, f') \<and> k \<le> tot \<and>
      content f' = memory_put m a (take k full) \<and> (r = UDS_PARAM_OK \<and> k = tot \<or> r = UDS_PARAM_ERR)"
proof (induction "tot - w" arbitrary: w f rule: less_induct)
  case less
  have full: "length full = tot" using assms(3) by (simp add: full_def)
  show ?case
  proof (cases "w < tot")
    case False
    then show ?thesis using less.prems by (auto simp: write_padded_chunked.simps)
  next
    case True
    define t where "t = min (tot - w) 64"
    define c where "c = (if w < length src then min (length src - w) t else 0)"
    define chunk where "chunk = take c (drop w src) @ replicate (t - c) (0xFF :: u8)"
    have chunk: "chunk = take t (drop w full)"
      unfolding chunk_def full_def by (rule padded_chunk[OF assms(3) True t_def c_def])
    have t: "0 < t" "w + t \<le> tot" using True by (auto simp: t_def)
    have lc: "length chunk = t" using t full by (simp add: chunk)
    have o: "unat (a + of_nat w) = unat a + w" using True assms(4) by (intro unat_offset_32) linarith
    have "memory_at (content f) (a + of_nat w) t = memory_at m (a + of_nat w) t"
      unfolding less.prems(2) using assms(4) t full o by (intro memory_put_outside) auto
    also have "\<dots> = replicate t 0xFF" using memory_at_part[OF t(2), of m a] assms(5) t by simp
    finally have "memory_at (content f) (a + of_nat w) (length chunk) = replicate (length chunk) 0xFF" by (simp add: lc)
    from flash_write[OF assms(1) this] obtain st f1 k where wr:
      "write_at store f (a + of_nat w) chunk = Some (st, f1)" "k \<le> t"
      "content f1 = memory_put (content f) (a + of_nat w) (take k chunk)" "st = 0 \<longrightarrow> k = t"
      by (auto simp: lc)
    have "take w full @ take k chunk = take (w + k) full" using wr(2) by (simp add: chunk take_add min_absorb1)
    moreover have "length (take w full) = w" using True full by simp
    ultimately have c1: "content f1 = memory_put m a (take (w + k) full)"
      using wr(3) less.prems(2) memory_put_append[of m a "take w full" "take k chunk"] by simp
    have ub: "\<not> (length src < w + c \<and> 0 < c)" by (auto simp: c_def)
    have step: "write_padded_chunked store f a src (length src) tot w =
        (if st \<noteq> 0 then Some (UDS_PARAM_ERR, f1)
         else write_padded_chunked store f1 a src (length src) tot (w + t))"
      unfolding write_padded_chunked.simps[of store f] Let_def t_def[symmetric] c_def[symmetric] assms(2)
        chunk_def[symmetric] if_not_P[OF ub] wr(1)
      using True by simp
    show ?thesis
    proof (cases "st = 0")
      case False
      then show ?thesis
        using step c1 wr(2) t by (intro exI[of _ UDS_PARAM_ERR] exI[of _ f1] exI[of _ "w + k"]) simp
    next
      case True
      then have "content f1 = memory_put m a (take (w + t) full)" using c1 wr(4) by simp
      from less.hyps[OF _ t(2) this] t True step show ?thesis by simp
    qed
  qed
qed

section \<open>The slot while it is written\<close>

text \<open>After \<open>k1\<close> bytes of the padded data and then \<open>k2\<close> bytes of the padded header.\<close>

definition torn_slot :: "'f UdsParamStore \<Rightarrow> bytes \<Rightarrow> nat \<Rightarrow> nat \<Rightarrow> bytes" where
  "torn_slot store data k1 k2 =
     (let H = unat (header_size store); P = unat (payload_size_aligned store); S = unat (slot_size store) in
      take k2 (header_bytes (save_header store data) @ replicate (H - 16) 0xFF) @ replicate (H - k2) 0xFF @
      take k1 (data @ replicate (P - length data) 0xFF) @ replicate (S - H - k1) 0xFF)"

lemma length_header_bytes: "length (header_bytes (save_header store data)) = 16"
  by (simp add: header_bytes_def save_header_def)

lemma header_roundtrip: "header_of_bytes (header_bytes (save_header store data)) = Some (save_header store data)"
  by (simp add: header_of_bytes_def header_bytes_def save_header_def le16_at_def le16_bytes_def peek_def le16_join)

lemma header_nth:
  "header_bytes (save_header store data) ! 2 = ucast (next_seq store)"
  "header_bytes (save_header store data) ! 3 = ucast (drop_bit 8 (next_seq store))"
  by (simp_all add: header_bytes_def save_header_def le16_bytes_def)

lemma header_of_bytes_fields:
  assumes "header_of_bytes bs = Some h"
  shows "le16_at bs 2 = Some (hdr_seq h)" "le16_at bs 4 = Some (hdr_data_size h)" "le16_at bs 0 = Some (hdr_magic h)"
  using assms by (auto simp: header_of_bytes_def split: Option.bind_splits)

lemma le16_at_cong: "i + 2 \<le> length xs \<Longrightarrow> i + 2 \<le> length ys \<Longrightarrow> xs ! i = ys ! i \<Longrightarrow> xs ! (i + 1) = ys ! (i + 1) \<Longrightarrow>
    le16_at xs i = le16_at ys i"
  by (simp add: le16_at_def peek_def)

lemma ones_16: "ucast (0xFF :: u8) OR push_bit 8 (ucast (0xFF :: u8)) = (0xFFFF :: u16)"
  by simp

text \<open>A torn slot is invalid, or holds the new data under the new sequence number.\<close>

lemma torn_slot_cases:
  assumes "geometry store" "length data = unat (data_size store)" "k1 \<le> unat (payload_size_aligned store)"
    and "k2 \<le> unat (header_size store)" "k2 = 0 \<or> k1 = unat (payload_size_aligned store)"
    and "slot_header store (torn_slot store data k1 k2) = Some h"
  shows "hdr_seq h = next_seq store" and "slot_data store (torn_slot store data k1 k2) = data"
proof -
  let ?H = "unat (header_size store)" and ?P = "unat (payload_size_aligned store)" and ?S = "unat (slot_size store)"
  let ?hb = "header_bytes (save_header store data)"
  have g: "16 \<le> ?H" "unat (data_size store) \<le> ?P" "?H + ?P \<le> ?S" "unat (data_size store) < 65535"
    using assms(1) by (simp_all add: geometry_def)
  define hd where "hd = take k2 (?hb @ replicate (?H - 16) 0xFF) @ replicate (?H - k2) (0xFF :: u8)"
  have lhd: "length hd = ?H" using assms(4) g(1) by (simp add: hd_def length_header_bytes)
  have torn: "torn_slot store data k1 k2 = hd @ take k1 (data @ replicate (?P - length data) 0xFF) @ replicate (?S - ?H - k1) 0xFF"
    by (simp add: torn_slot_def hd_def Let_def)
  have h: "header_of_bytes (take 16 (torn_slot store data k1 k2)) = Some h" "hdr_data_size h = data_size store"
    using assms(6) by (auto simp: slot_header_def split: option.splits if_splits)
  have t16: "take 16 (torn_slot store data k1 k2) = take 16 hd" using lhd g(1) by (simp add: torn)
  have k2: "4 \<le> k2"
  proof (rule ccontr)
    assume "\<not> 4 \<le> k2"
    then have ff: "hd ! 4 = 0xFF" "hd ! 5 = 0xFF"
      using assms(4) g(1) by (simp_all add: hd_def nth_append length_header_bytes)
    then have "le16_at (take 16 hd) 4 = Some 0xFFFF"
      using lhd g(1) by (simp add: le16_at_def peek_def)
    then have "data_size store = 0xFFFF" using header_of_bytes_fields(2)[OF h(1)] h(2) t16 by simp
    then show False using g(4) by simp
  qed
  have "take 16 hd ! 2 = ?hb ! 2" "take 16 hd ! 3 = ?hb ! 3"
    using k2 g(1) by (simp_all add: hd_def nth_append length_header_bytes)
  then have "le16_at (take 16 hd) 2 = Some (next_seq store)"
    using lhd g(1) by (simp add: le16_at_def peek_def header_nth le16_join)
  then show "hdr_seq h = next_seq store" using header_of_bytes_fields(1)[OF h(1)] t16 by simp
  have "k1 = ?P" using assms(5) k2 by auto
  then have "drop ?H (torn_slot store data k1 k2) = data @ replicate (?P - length data) 0xFF @ replicate (?S - ?H - k1) 0xFF"
    unfolding torn using lhd assms(2) g(2) by simp
  then show "slot_data store (torn_slot store data k1 k2) = data" using assms(2) by (simp add: slot_data_def)
qed

lemma torn_slot_complete:
  assumes "geometry store" "length data = unat (data_size store)"
  shows "slot_header store (torn_slot store data (unat (payload_size_aligned store)) (unat (header_size store))) =
     Some (save_header store data)"
proof -
  let ?H = "unat (header_size store)" and ?P = "unat (payload_size_aligned store)"
  let ?t = "torn_slot store data ?P ?H" and ?hb = "header_bytes (save_header store data)"
  have g: "16 \<le> ?H" "unat (data_size store) \<le> ?P" using assms(1) by (simp_all add: geometry_def)
  have "take 16 ?t = ?hb" using g(1) by (simp add: torn_slot_def length_header_bytes Let_def)
  moreover have "slot_data store ?t = data"
    using g assms(2) by (simp add: torn_slot_def slot_data_def length_header_bytes Let_def)
  ultimately show ?thesis by (simp add: slot_header_def header_roundtrip) (simp add: save_header_def)
qed

lemma torn_slot_0: "geometry store \<Longrightarrow> torn_slot store data 0 0 = replicate (unat (slot_size store)) 0xFF"
  by (simp add: torn_slot_def geometry_def Let_def flip: replicate_add)

lemma erased_slot_invalid:
  assumes "geometry store"
  shows "slot_header store (replicate (unat (slot_size store)) 0xFF) = None"
proof -
  have "16 \<le> unat (slot_size store)" using assms by (simp add: geometry_def)
  then have "le16_at (take 16 (replicate (unat (slot_size store)) (0xFF :: u8))) 0 = Some 0xFFFF"
    by (simp add: le16_at_def peek_def)
  then show ?thesis
    using header_of_bytes_fields(3) by (fastforce simp: slot_header_def UDS_PARAM_MAGIC_def split: option.splits)
qed

section \<open>The cursor\<close>

text \<open>The store after \<open>n\<close> saves, the last of them in slot \<open>q\<close>.\<close>

definition cursor :: "'f UdsParamStore \<Rightarrow> nat \<Rightarrow> nat \<Rightarrow> bool" where
  "cursor store n q \<longleftrightarrow> wl_initialized store \<and> next_seq store = seq_of (n + 1) \<and> (has_active_slot store \<longleftrightarrow> n \<noteq> 0) \<and>
     (n \<noteq> 0 \<longrightarrow> q < slot_total store \<and> (active_sector store, active_slot store) = slot_pos store q)"

definition next_slot :: "'f UdsParamStore \<Rightarrow> nat \<Rightarrow> nat \<Rightarrow> nat" where
  "next_slot store n q = (if n = 0 then 0 else (q + 1) mod slot_total store)"

definition erases :: "'f UdsParamStore \<Rightarrow> nat \<Rightarrow> nat \<Rightarrow> bool" where
  "erases store n q \<longleftrightarrow> n = 0 \<or> (q + 1) mod unat (slots_per_sector store) = 0"

definition prepared :: "'f UdsParamStore \<Rightarrow> nat \<Rightarrow> nat \<Rightarrow> (nat \<Rightarrow> bytes) \<Rightarrow> nat \<Rightarrow> bytes" where
  "prepared store n q slots p =
     (if erases store n q \<and> p div unat (slots_per_sector store) = next_slot store n q div unat (slots_per_sector store)
      then replicate (unat (slot_size store)) 0xFF else slots p)"

lemma total_pos: "geometry store \<Longrightarrow> 0 < slot_total store"
  by (simp add: geometry_def slot_total_def)

lemma next_slot_less: "geometry store \<Longrightarrow> next_slot store n q < slot_total store"
  using total_pos[of store] by (simp add: next_slot_def)

lemma next_slot_split:
  assumes "geometry store" "q < slot_total store" "n \<noteq> 0"
  shows "erases store n q \<Longrightarrow>
      next_slot store n q = ((q div unat (slots_per_sector store) + 1) mod unat (sector_count store)) * unat (slots_per_sector store)"
    and "\<not> erases store n q \<Longrightarrow> next_slot store n q = q + 1 \<and>
      (q + 1) div unat (slots_per_sector store) = q div unat (slots_per_sector store) \<and>
      (q + 1) mod unat (slots_per_sector store) = q mod unat (slots_per_sector store) + 1"
proof -
  let ?N = "unat (slots_per_sector store)" and ?M = "unat (sector_count store)"
  have N: "0 < ?N" "0 < ?M" using assms(1) by (simp_all add: geometry_def)
  show "next_slot store n q = ((q div ?N + 1) mod ?M) * ?N" if "erases store n q"
  proof -
    have "(q + 1) mod ?N = 0" using that assms(3) by (simp add: erases_def)
    then have e: "q + 1 = (q + 1) div ?N * ?N" using div_mult_mod_eq[of "q + 1" ?N] by simp
    have "(q + 1) div ?N = q div ?N + 1"
      using \<open>(q + 1) mod ?N = 0\<close> by (simp add: div_Suc)
    then have "q + 1 = (q div ?N + 1) * ?N" using e by simp
    then have "(q + 1) mod (?M * ?N) = ((q div ?N + 1) mod ?M) * ?N" by (simp only: mult_mod_left)
    then show ?thesis using assms(3) by (simp add: next_slot_def slot_total_def)
  qed
  show "next_slot store n q = q + 1 \<and> (q + 1) div ?N = q div ?N \<and> (q + 1) mod ?N = q mod ?N + 1" if "\<not> erases store n q"
  proof -
    have m: "Suc q mod ?N \<noteq> 0" using that assms(3) by (simp add: erases_def)
    then have "Suc q mod ?N = Suc (q mod ?N)" "Suc q div ?N = q div ?N" by (auto simp: mod_Suc div_Suc)
    moreover have "Suc q \<noteq> ?M * ?N" using m by auto
    then have "Suc q < slot_total store" using assms(2) by (simp add: slot_total_def)
    ultimately show ?thesis using assms(3) by (simp add: next_slot_def)
  qed
qed

section \<open>Preparing the next slot\<close>

abbreviation slots_are :: "'f UdsParamStore \<Rightarrow> (u32 \<Rightarrow> u8) \<Rightarrow> (nat \<Rightarrow> bytes) \<Rightarrow> bool" where
  "slots_are store m slots \<equiv> \<forall>p < slot_total store. slot_bytes store m p = slots p"

lemma erase_sector_slots:
  assumes "geometry store" "flash_ok (wl_port store) content (sector_size store)"
    and "s < unat (sector_count store)" "slots_are store (content f) slots"
  shows "\<exists>st f'. erase_at store f (flash_base store + of_nat s * sector_size store) = Some (st, f') \<and>
     (slots_are store (content f') (\<lambda>p. if p div unat (slots_per_sector store) = s
        then replicate (unat (slot_size store)) 0xFF else slots p) \<or> st \<noteq> 0 \<and> slots_are store (content f') slots)"
proof -
  from flash_erase[OF assms(2), of f "flash_base store + of_nat s * sector_size store"] obtain st f' where
    e: "erase_at store f (flash_base store + of_nat s * sector_size store) = Some (st, f')"
    "content f' = memory_put (content f) (flash_base store + of_nat s * sector_size store)
       (replicate (unat (sector_size store)) 0xFF) \<or> st \<noteq> 0 \<and> content f' = content f" by blast
  then show ?thesis
    using slot_bytes_erase[OF assms(1,3), of _ "content f"] assms(4) by auto
qed

lemma header_size_32: "(ucast (w :: u16) :: u32) = of_nat (unat w)"
  by (simp add: word_unat_eq_iff unat_of_nat_32 order.strict_trans[OF unat_u16_lt])

lemma unat_ucast_u8: "unat w < 256 \<Longrightarrow> unat (ucast (w :: u32) :: u8) = unat w"
  using unat_of_nat[of "unat w", where 'a = 8] by (simp add: of_nat_unat)

lemma next_sector_wraps:
  assumes "unat (s :: u8) < unat m"
  shows "unat (ucast ((ucast s + 1 :: u32) mod ucast (m :: u8)) :: u8) = (unat s + 1) mod unat m"
proof -
  have "unat (ucast s + 1 :: u32) = unat s + 1"
    using unat_u8_lt[of s] order.strict_trans[of "unat s" 256 4294967295] by (subst unat_add_32) simp_all
  then have "unat ((ucast s + 1 :: u32) mod ucast m) = (unat s + 1) mod unat m" by (simp add: unat_mod)
  moreover have "(unat s + 1) mod unat m < 256"
    using assms unat_u8_lt[of m] mod_less_divisor[of "unat m" "unat s + 1"] by linarith
  ultimately show ?thesis by (subst unat_ucast_u8) simp_all
qed

lemma prepare_next_slot_slots:
  assumes "geometry store" "flash_ok (wl_port store) content (sector_size store)" "cursor store n q"
    and "slots_are store (content f) slots"
  shows "\<exists>r sec sl f'. prepare_next_slot store f = Some (r, sec, sl, f') \<and>
     (r = UDS_PARAM_OK \<and> (sec, sl) = slot_pos store (next_slot store n q) \<and>
        slots_are store (content f') (prepared store n q slots) \<or>
      r = UDS_PARAM_ERR \<and> (slots_are store (content f') slots \<or> slots_are store (content f') (prepared store n q slots)))"
proof -
  let ?N = "unat (slots_per_sector store)" and ?M = "unat (sector_count store)"
  have N: "0 < ?N" "0 < ?M" using assms(1) by (simp_all add: geometry_def)
  have erased: "prepared store n q slots = (\<lambda>p. if p div ?N = s then replicate (unat (slot_size store)) 0xFF else slots p)"
    if "erases store n q" "next_slot store n q = s * ?N" for s
    using that N by (simp add: prepared_def fun_eq_iff)
  show ?thesis
  proof (cases "n = 0")
    case True
    then have a: "\<not> has_active_slot store" "erases store n q" "next_slot store n q = 0 * ?N"
      using assms(3) by (simp_all add: cursor_def erases_def next_slot_def)
    have "slot_pos store 0 = (0, 0)" by (simp add: slot_pos_def)
    then show ?thesis
      using erase_sector_slots[OF assms(1,2) N(2) assms(4)] a(1,3) erased[OF a(2,3)]
      by (auto simp: prepare_next_slot_def param_code_defs)
  next
    case False
    have act: "has_active_slot store" "q < slot_total store" "active_sector store = fst (slot_pos store q)"
        "active_slot store = snd (slot_pos store q)"
      using assms(3) False by (auto simp: cursor_def prod_eq_iff)
    note u = slot_pos_unat[OF assms(1) act(2), folded act(3,4)]
    have sl: "unat (active_slot store + 1) = q mod ?N + 1"
    proof -
      have "q mod ?N < ?N" using N by simp
      then have "q mod ?N < 65535" using unat_u16_lt[of "slots_per_sector store"] by linarith
      then show ?thesis using u(2) by (subst unat_add_16) simp_all
    qed
    have last: "slots_per_sector store \<le> active_slot store + 1 \<longleftrightarrow> erases store n q"
    proof -
      have "q mod ?N < ?N" using N by simp
      then show ?thesis using sl False by (auto simp: word_le_nat_alt erases_def mod_Suc)
    qed
    show ?thesis
    proof (cases "erases store n q")
      case True
      define s where "s = (q div ?N + 1) mod ?M"
      have s: "s < ?M" using N by (simp add: s_def)
      let ?sec = "ucast ((ucast (active_sector store) + 1 :: u32) mod ucast (sector_count store)) :: u8"
      have us: "unat ?sec = s" using next_sector_wraps[of "active_sector store" "sector_count store"] u(1,3) by (simp add: s_def)
      have nx: "next_slot store n q = s * ?N"
        using next_slot_split(1)[OF assms(1) act(2) False True] by (simp add: s_def)
      have "of_nat (unat x) = x" for x :: u8 by (simp add: of_nat_unat)
      from this[of ?sec] have sec: "of_nat s = ?sec" by (simp only: us)
      have "slot_pos store (next_slot store n q) = (of_nat s, 0)" using N by (simp add: slot_pos_def nx)
      then have pos: "slot_pos store (next_slot store n q) = (?sec, 0)" by (simp only: sec)
      have "s < 4294967296" using s unat_u8_lt[of "sector_count store"] by linarith
      then have ad: "(ucast ?sec :: u32) = of_nat s" using us by (simp add: word_unat_eq_iff unat_of_nat_32)
      have cnt: "sector_count store \<noteq> 0" using N by (simp add: word_unat_eq_iff)
      show ?thesis
        using erase_sector_slots[OF assms(1,2) s assms(4)] act(1) last True cnt pos erased[OF True nx]
        by (auto simp: prepare_next_slot_def param_code_defs Let_def ad)
    next
      case no: False
      note nx = next_slot_split(2)[OF assms(1) act(2) False no]
      have "slot_pos store (next_slot store n q) = (active_sector store, active_slot store + 1)"
        using nx act(3,4) by (simp add: slot_pos_def)
      moreover have "prepared store n q slots = slots" using no by (simp add: prepared_def fun_eq_iff)
      ultimately show ?thesis
        using act(1) last no assms(4) by (auto simp: prepare_next_slot_def param_code_defs Let_def)
    qed
  qed
qed

section \<open>One save\<close>

definition advanced :: "'f UdsParamStore \<Rightarrow> nat \<Rightarrow> nat \<Rightarrow> 'f UdsParamStore" where
  "advanced store n q = store\<lparr> active_sector := fst (slot_pos store (next_slot store n q)),
     active_slot := snd (slot_pos store (next_slot store n q)), next_seq := bump_seq (next_seq store),
     has_active_slot := True \<rparr>"

text \<open>The slots when the save has stopped after \<open>k1\<close> bytes of data and \<open>k2\<close> bytes of header.\<close>

definition torn_save :: "'f UdsParamStore \<Rightarrow> nat \<Rightarrow> nat \<Rightarrow> (nat \<Rightarrow> bytes) \<Rightarrow> bytes \<Rightarrow> nat \<Rightarrow> nat \<Rightarrow> nat \<Rightarrow> bytes" where
  "torn_save store n q slots data k1 k2 =
     (prepared store n q slots)(next_slot store n q := torn_slot store data k1 k2)"

abbreviation torn_at :: "'f UdsParamStore \<Rightarrow> nat \<Rightarrow> nat \<Rightarrow> bool" where
  "torn_at store k1 k2 \<equiv> k1 \<le> unat (payload_size_aligned store) \<and> k2 \<le> unat (header_size store) \<and>
     (k2 = 0 \<or> k1 = unat (payload_size_aligned store))"

lemma write_data_slots:
  assumes "geometry store" "flash_ok (wl_port store) content (sector_size store)" "length data = unat (data_size store)"
    and "p < slot_total store" "slots_are store (content f) (slots(p := replicate (unat (slot_size store)) 0xFF))"
  shows "\<exists>r f' k. write_padded_chunked store f (addr_of store p + ucast (header_size store)) data
       (unat (data_size store)) (unat (payload_size_aligned store)) 0 = Some (r, f') \<and>
     k \<le> unat (payload_size_aligned store) \<and> slots_are store (content f') (slots(p := torn_slot store data k 0)) \<and>
     (r = UDS_PARAM_OK \<and> k = unat (payload_size_aligned store) \<or> r = UDS_PARAM_ERR)"
proof -
  let ?H = "unat (header_size store)" and ?P = "unat (payload_size_aligned store)" and ?S = "unat (slot_size store)"
  let ?a = "addr_of store p + of_nat ?H" and ?full = "data @ replicate (?P - length data) (0xFF :: u8)"
  have g: "?H + ?P \<le> ?S" "length data \<le> ?P" "erased_byte store = 0xFF" "0 < ?P"
    using assms(1,3) by (simp_all add: geometry_def)
  note top = unat_addr_of(3)[OF assms(1,4)]
  have o: "unat ?a = unat (addr_of store p) + ?H" using top g by (intro unat_offset_32) simp
  have "slot_bytes store (content f) p = replicate ?S 0xFF" using assms(4,5) by simp
  then have m: "memory_at (content f) ?a ?P = replicate ?P 0xFF"
    using memory_at_part[OF g(1), of "content f" "addr_of store p"] g(1) by (simp add: slot_bytes_def)
  have fit: "unat ?a + ?P \<le> 4294967296" using o top g(1) by simp
  have "content f = memory_put (content f) ?a (take 0 ?full)" by simp
  from write_padded_puts[OF assms(2) g(3,2) fit m le0 this] obtain r f' k where w:
    "write_padded_chunked store f ?a data (length data) ?P 0 = Some (r, f')" "k \<le> ?P"
    "content f' = memory_put (content f) ?a (take k ?full)" "r = UDS_PARAM_OK \<and> k = ?P \<or> r = UDS_PARAM_ERR"
    by blast
  have lk: "length (take k ?full) = k" using w(2) g(2) by simp
  then have fits: "?H + length (take k ?full) \<le> ?S" using w(2) g(1) by linarith
  note put = slot_bytes_put[OF assms(1,4) fits, of _ "content f", folded w(3)]
  have "slot_bytes store (content f') x = (slots(p := torn_slot store data k 0)) x" if "x < slot_total store" for x
  proof (cases "x = p")
    case True
    have e: "slot_bytes store (content f) p = replicate ?S 0xFF" using assms(4,5) by simp
    have "slot_bytes store (content f') p = take ?H (replicate ?S 0xFF) @ take k ?full @ drop (?H + k) (replicate ?S 0xFF)"
      using put[OF assms(4)] unfolding e lk by simp
    then show ?thesis using True g(1) by (simp add: torn_slot_def Let_def)
  next
    case False
    then show ?thesis using put[OF that] assms(5) that by simp
  qed
  then show ?thesis using w(1,2,4) unfolding assms(3)[symmetric] header_size_32 by blast
qed

lemma write_header_slots:
  assumes "geometry store" "flash_ok (wl_port store) content (sector_size store)" "length data = unat (data_size store)"
    and "p < slot_total store"
    and "slots_are store (content f) (slots(p := torn_slot store data (unat (payload_size_aligned store)) 0))"
  shows "\<exists>r f' k. write_padded_chunked store f (addr_of store p) (header_bytes (save_header store data)) 16
       (unat (header_size store)) 0 = Some (r, f') \<and> k \<le> unat (header_size store) \<and>
     slots_are store (content f') (slots(p := torn_slot store data (unat (payload_size_aligned store)) k)) \<and>
     (r = UDS_PARAM_OK \<and> k = unat (header_size store) \<or> r = UDS_PARAM_ERR)"
proof -
  let ?H = "unat (header_size store)" and ?P = "unat (payload_size_aligned store)" and ?S = "unat (slot_size store)"
  let ?hb = "header_bytes (save_header store data)" let ?full = "?hb @ replicate (?H - length ?hb) (0xFF :: u8)"
  have g: "0 + ?H \<le> ?S" "length ?hb \<le> ?H" "erased_byte store = 0xFF"
    using assms(1) by (simp_all add: geometry_def length_header_bytes)
  note top = unat_addr_of(3)[OF assms(1,4)]
  have t0: "slot_bytes store (content f) p = torn_slot store data ?P 0" using assms(4,5) by simp
  then have m: "memory_at (content f) (addr_of store p) ?H = replicate ?H 0xFF"
    using memory_at_part[OF g(1), of "content f" "addr_of store p"]
    by (simp add: slot_bytes_def torn_slot_def Let_def)
  have fit: "unat (addr_of store p) + ?H \<le> 4294967296" using top g(1) by simp
  have "content f = memory_put (content f) (addr_of store p) (take 0 ?full)" by simp
  from write_padded_puts[OF assms(2) g(3,2) fit m le0 this] obtain r f' k where w:
    "write_padded_chunked store f (addr_of store p) ?hb (length ?hb) ?H 0 = Some (r, f')" "k \<le> ?H"
    "content f' = memory_put (content f) (addr_of store p) (take k ?full)" "r = UDS_PARAM_OK \<and> k = ?H \<or> r = UDS_PARAM_ERR"
    by blast
  have lk: "length (take k ?full) = k" using w(2) g(2) by simp
  then have fits: "0 + length (take k ?full) \<le> ?S" using w(2) g(1) by linarith
  have put: "slot_bytes store (content f') x = (if x = p then take k ?full @ drop k (slot_bytes store (content f) p)
      else slot_bytes store (content f) x)" if "x < slot_total store" for x
    using slot_bytes_put[OF assms(1,4) fits that, of "content f"] unfolding w(3) lk by simp
  have "slot_bytes store (content f') x = (slots(p := torn_slot store data ?P k)) x" if "x < slot_total store" for x
  proof (cases "x = p")
    case True
    have "slot_bytes store (content f') p = take k ?full @ drop k (torn_slot store data ?P 0)"
      using put[OF assms(4)] unfolding t0 by simp
    then show ?thesis using True w(2) by (simp add: torn_slot_def Let_def length_header_bytes)
  next
    case False
    then show ?thesis using put[OF that] assms(5) that by simp
  qed
  then show ?thesis using w(1,2,4) unfolding length_header_bytes by blast
qed

lemma save_slots:
  assumes "geometry store" "flash_ok (wl_port store) content (sector_size store)" "cursor store n q"
    and "length data = unat (data_size store)" "slots_are store (content f) slots"
    and "prepared store n q slots (next_slot store n q) = replicate (unat (slot_size store)) 0xFF"
  shows "\<exists>r store' f'. uds_param_save store data f = Some (r, store', f') \<and>
     (r = UDS_PARAM_OK \<and> store' = advanced store n q \<and> slots_are store (content f')
        (torn_save store n q slots data (unat (payload_size_aligned store)) (unat (header_size store))) \<or>
      r = UDS_PARAM_ERR \<and> store' = store \<and> (slots_are store (content f') slots \<or>
        (\<exists>k1 k2. torn_at store k1 k2 \<and> slots_are store (content f') (torn_save store n q slots data k1 k2))))"
proof -
  let ?p = "next_slot store n q" and ?P = "unat (payload_size_aligned store)"
  let ?pre = "prepared store n q slots"
  have p: "?p < slot_total store" by (rule next_slot_less[OF assms(1)])
  have pre: "?pre = torn_save store n q slots data 0 0"
    using assms(6) torn_slot_0[OF assms(1)] by (simp add: torn_save_def fun_eq_iff)
  have init: "wl_initialized store" using assms(3) by (simp add: cursor_def)
  obtain r sec sl f1 where prep: "prepare_next_slot store f = Some (r, sec, sl, f1)"
      "r = UDS_PARAM_OK \<and> (sec, sl) = slot_pos store ?p \<and> slots_are store (content f1) ?pre \<or>
       r = UDS_PARAM_ERR \<and> (slots_are store (content f1) slots \<or> slots_are store (content f1) ?pre)"
    using prepare_next_slot_slots[OF assms(1-3,5)] by blast
  show ?thesis
  proof (cases "r = UDS_PARAM_OK")
    case False
    then have res: "r = UDS_PARAM_ERR" "slots_are store (content f1) slots \<or> slots_are store (content f1) (torn_save store n q slots data 0 0)"
      using prep(2) unfolding pre by auto
    have "uds_param_save store data f = Some (UDS_PARAM_ERR, store, f1)"
      using False init prep(1) by (simp add: uds_param_save_def)
    then show ?thesis using res(2) by (intro exI[of _ UDS_PARAM_ERR] exI[of _ store] exI[of _ f1]) auto
  next
    case ok: True
    then have pos: "sec = fst (slot_pos store ?p)" "sl = snd (slot_pos store ?p)" "slots_are store (content f1) ?pre"
      using prep(2) by (auto simp: prod_eq_iff param_code_defs)
    have ad: "slot_addr store sec sl = addr_of store ?p" by (simp add: addr_of_def pos)
    have "slots_are store (content f1) (?pre(?p := replicate (unat (slot_size store)) 0xFF))"
      using pos(3) assms(6) by simp
    from write_data_slots[OF assms(1,2,4) p this] obtain r1 f2 k1 where d:
      "write_padded_chunked store f1 (addr_of store ?p + ucast (header_size store)) data (unat (data_size store)) ?P 0 = Some (r1, f2)"
      "k1 \<le> ?P" "slots_are store (content f2) (torn_save store n q slots data k1 0)"
      "r1 = UDS_PARAM_OK \<and> k1 = ?P \<or> r1 = UDS_PARAM_ERR"
      unfolding torn_save_def by blast
    show ?thesis
    proof (cases "r1 = UDS_PARAM_OK")
      case False
      have "uds_param_save store data f = Some (UDS_PARAM_ERR, store, f2)"
        using False init prep(1) ok d(1) by (simp add: uds_param_save_def Let_def ad)
      moreover have "torn_at store k1 0" using d(2) by simp
      ultimately show ?thesis
        using d(3) by (intro exI[of _ UDS_PARAM_ERR] exI[of _ store] exI[of _ f2]) blast
    next
      case ok1: True
      then have k1: "k1 = ?P" using d(4) by (auto simp: param_code_defs)
      from write_header_slots[OF assms(1,2,4) p d(3)[unfolded torn_save_def k1]] obtain r2 f3 k2 where h:
        "write_padded_chunked store f2 (addr_of store ?p) (header_bytes (save_header store data)) 16 (unat (header_size store)) 0 = Some (r2, f3)"
        "k2 \<le> unat (header_size store)" "slots_are store (content f3) (torn_save store n q slots data ?P k2)"
        "r2 = UDS_PARAM_OK \<and> k2 = unat (header_size store) \<or> r2 = UDS_PARAM_ERR"
        unfolding torn_save_def by blast
      show ?thesis
      proof (cases "r2 = UDS_PARAM_OK")
        case False
        have "uds_param_save store data f = Some (UDS_PARAM_ERR, store, f3)"
          using False init prep(1) ok d(1) ok1 h(1) by (simp add: uds_param_save_def Let_def ad)
        moreover have "torn_at store ?P k2" using h(2) by simp
        ultimately show ?thesis
          using h(3) by (intro exI[of _ UDS_PARAM_ERR] exI[of _ store] exI[of _ f3]) blast
      next
        case ok2: True
        have "uds_param_save store data f = Some (UDS_PARAM_OK, advanced store n q, f3)"
          using ok2 init prep(1) ok d(1) ok1 h(1) by (simp add: uds_param_save_def Let_def ad advanced_def pos(1,2)[symmetric])
        moreover have "k2 = unat (header_size store)" using h(4) ok2 by (auto simp: param_code_defs)
        ultimately show ?thesis using h(3) by auto
      qed
    qed
  qed
qed

end
