(* ===== verification/Wear_Crash.thy ===== *)
theory Wear_Crash
  imports Wear_Store
begin

text \<open>
  Crash consistency of the parameter store: what survives when the power goes in the middle of
  \<open>uds_param_save\<close>, and the interface the components above the store use.
\<close>

section \<open>The configuration\<close>

text \<open>The store without its cursor, as \<open>uds_param_init\<close> sets it up before the scan.\<close>

definition reset :: "'f UdsParamStore \<Rightarrow> 'f UdsParamStore" where
  "reset store = store\<lparr> active_sector := 0, active_slot := 0, next_seq := 1, wl_initialized := False,
     has_active_slot := False \<rparr>"

lemma reset_simps [simp]:
  "wl_port (reset s) = wl_port s" "flash_base (reset s) = flash_base s" "sector_size (reset s) = sector_size s"
  "sector_count (reset s) = sector_count s" "data_size (reset s) = data_size s" "slot_size (reset s) = slot_size s"
  "slots_per_sector (reset s) = slots_per_sector s" "header_size (reset s) = header_size s"
  "payload_size_aligned (reset s) = payload_size_aligned s" "erased_byte (reset s) = erased_byte s"
  "slot_total (reset s) = slot_total s" "slot_pos (reset s) p = slot_pos s p" "addr_of (reset s) p = addr_of s p"
  "slot_bytes (reset s) m p = slot_bytes s m p" "slot_header (reset s) bs = slot_header s bs"
  "slot_data (reset s) bs = slot_data s bs" "slot_age (reset s) q p = slot_age s q p"
  "geometry (reset s) = geometry s" "reset (reset s) = reset s"
  by (simp_all add: reset_def slot_total_def slot_pos_def addr_of_def slot_addr_def slot_bytes_def slot_header_def
    slot_data_def slot_age_def geometry_def cong: option.case_cong)

lemma reset_advanced [simp]: "reset (advanced s n q) = reset s"
  by (simp add: reset_def advanced_def)

lemma reset_holds_at [simp]: "holds_at (reset s) slots n q d = holds_at s slots n q d"
  by (simp add: holds_at_def)

section \<open>What the slots hold\<close>

text \<open>After \<open>n\<close> saves, the last of them in slot \<open>q\<close>; \<open>None\<close> when nothing was ever saved.\<close>

definition stored :: "'f UdsParamStore \<Rightarrow> (nat \<Rightarrow> bytes) \<Rightarrow> nat \<Rightarrow> nat \<Rightarrow> bytes option \<Rightarrow> bool" where
  "stored store slots n q v \<longleftrightarrow>
     (case v of
        None \<Rightarrow> n = 0 \<and> (\<forall>p < slot_total store. slot_header store (slots p) = None)
      | Some d \<Rightarrow> n \<noteq> 0 \<and> length d = unat (data_size store) \<and> holds_at store slots n q d)"

text \<open>The slots behind the last one in its sector are erased.\<close>

definition clean :: "'f UdsParamStore \<Rightarrow> (nat \<Rightarrow> bytes) \<Rightarrow> nat \<Rightarrow> nat \<Rightarrow> bool" where
  "clean store slots n q \<longleftrightarrow> (n \<noteq> 0 \<longrightarrow> (\<forall>p < slot_total store.
     q < p \<and> p div unat (slots_per_sector store) = q div unat (slots_per_sector store) \<longrightarrow>
     slots p = replicate (unat (slot_size store)) 0xFF))"

lemma prepared_next_erased:
  assumes "geometry store" "n \<noteq> 0 \<longrightarrow> q < slot_total store" "clean store slots n q"
  shows "prepared store n q slots (next_slot store n q) = replicate (unat (slot_size store)) 0xFF"
proof (cases "erases store n q")
  case False
  then have n: "n \<noteq> 0" "q < slot_total store" using assms(2) by (auto simp: erases_def)
  note nx = next_slot_split(2)[OF assms(1) n(2,1) False]
  have "next_slot store n q < slot_total store" by (rule next_slot_less[OF assms(1)])
  then show ?thesis using False nx assms(3) n(1) by (simp add: prepared_def clean_def)
qed (simp add: prepared_def)

lemma torn_save_clean:
  assumes "geometry store" "n \<noteq> 0 \<longrightarrow> q < slot_total store" "clean store slots n q"
  shows "clean store (torn_save store n q slots data k1 k2) (n + 1) (next_slot store n q)"
proof (cases "erases store n q")
  case True
  then show ?thesis by (auto simp: clean_def torn_save_def prepared_def)
next
  case False
  then have n: "n \<noteq> 0" "q < slot_total store" using assms(2) by (auto simp: erases_def)
  from next_slot_split(2)[OF assms(1) n(2,1) False] show ?thesis
    using False assms(3) n(1) by (simp add: clean_def torn_save_def prepared_def)
qed

text \<open>The header of every other slot is the old one, or none.\<close>

lemma torn_save_header:
  assumes "geometry store" "p \<noteq> next_slot store n q" "slot_header store (torn_save store n q slots data k1 k2 p) = Some h"
  shows "slot_header store (slots p) = Some h"
  using assms erased_slot_invalid[OF assms(1)] by (auto simp: torn_save_def prepared_def split: if_splits)

lemma next_slot_other:
  assumes "geometry store" "2 \<le> unat (sector_count store)" "q < slot_total store" "n \<noteq> 0"
  shows "next_slot store n q \<noteq> q"
    and "erases store n q \<Longrightarrow> q div unat (slots_per_sector store) \<noteq> next_slot store n q div unat (slots_per_sector store)"
proof -
  let ?N = "unat (slots_per_sector store)" and ?M = "unat (sector_count store)"
  have N: "0 < ?N" using assms(1) by (simp add: geometry_def)
  have s: "q div ?N < ?M" by (rule slot_pos_unat(3)[OF assms(1,3)])
  show other: "q div ?N \<noteq> next_slot store n q div ?N" if "erases store n q"
  proof -
    have "(q div ?N + 1) mod ?M \<noteq> q div ?N" using s assms(2) by (auto simp: mod_if split: if_splits)
    then show ?thesis using next_slot_split(1)[OF assms(1,3,4) that] N by auto
  qed
  show "next_slot store n q \<noteq> q"
    using other next_slot_split(2)[OF assms(1,3,4)] by (cases "erases store n q") auto
qed

lemma slot_age_next:
  assumes "geometry store" "q < slot_total store" "p < slot_total store" "n \<noteq> 0" "p \<noteq> next_slot store n q"
  shows "slot_age store (next_slot store n q) p = slot_age store q p + 1"
proof -
  let ?T = "slot_total store"
  have age: "slot_age store x p = (if p \<le> x then x - p else x + ?T - p)" if "x < ?T" for x
    using that assms(3) by (auto simp: slot_age_def mod_if)
  have nx: "next_slot store n q = (if q + 1 = ?T then 0 else q + 1)"
    using assms(2,4) by (auto simp: next_slot_def)
  show ?thesis
    using assms(2,3,5) age[OF assms(2)] age[OF next_slot_less[OF assms(1)], of n q] unfolding nx by (auto split: if_splits)
qed

text \<open>A torn save keeps the old value as long as its header is not yet valid ...\<close>

lemma torn_save_old:
  assumes "geometry store" "2 \<le> unat (sector_count store)" "stored store slots n q v"
    and "slot_header store (torn_slot store data k1 k2) = None"
  shows "stored store (torn_save store n q slots data k1 k2) n q v"
proof -
  let ?slots = "torn_save store n q slots data k1 k2"
  have none: "slot_header store (?slots (next_slot store n q)) = None" using assms(4) by (simp add: torn_save_def)
  have old: "slot_header store (slots p) = Some h" if "slot_header store (?slots p) = Some h" for p h
    using torn_save_header[OF assms(1) _ that] none that by (cases "p = next_slot store n q") auto
  show ?thesis
  proof (cases v)
    case None
    then have "slot_header store (slots p) = None" if "p < slot_total store" for p
      using assms(3) that by (simp add: stored_def)
    then have "slot_header store (?slots p) = None" if "p < slot_total store" for p
      using that old[of p] by (cases "slot_header store (?slots p)") simp_all
    then show ?thesis using assms(3) None by (simp add: stored_def)
  next
    case (Some d)
    then have h: "n \<noteq> 0" "q < slot_total store" "holds_at store slots n q d" "length d = unat (data_size store)"
      using assms(3) by (auto simp: stored_def holds_at_def)
    note other = next_slot_other[OF assms(1,2) h(2,1)]
    have "?slots q = slots q" using other by (auto simp: torn_save_def prepared_def)
    moreover have "slot_age store q p < n \<and> hdr_seq hp = seq_of (n - slot_age store q p)"
      if "p < slot_total store" "slot_header store (?slots p) = Some hp" for p hp
      using h(3) old[OF that(2)] that(1) by (simp add: holds_at_def)
    ultimately show ?thesis using h Some by (simp add: stored_def holds_at_def)
  qed
qed

text \<open>... and holds the new one from then on.\<close>

lemma torn_save_new:
  assumes "geometry store" "length data = unat (data_size store)" "torn_at store k1 k2" "next_seq store = seq_of (n + 1)"
    and "stored store slots n q v" "slot_header store (torn_slot store data k1 k2) \<noteq> None"
  shows "stored store (torn_save store n q slots data k1 k2) (n + 1) (next_slot store n q) (Some data)"
proof -
  let ?slots = "torn_save store n q slots data k1 k2" and ?p = "next_slot store n q"
  have p: "?p < slot_total store" by (rule next_slot_less[OF assms(1)])
  obtain h where h: "slot_header store (torn_slot store data k1 k2) = Some h" using assms(6) by blast
  have k: "k1 \<le> unat (payload_size_aligned store)" "k2 \<le> unat (header_size store)"
      "k2 = 0 \<or> k1 = unat (payload_size_aligned store)" using assms(3) by simp_all
  note new = torn_slot_cases[OF assms(1,2) k h]
  have nx: "?slots ?p = torn_slot store data k1 k2" by (simp add: torn_save_def)
  have "slot_age store ?p x < n + 1 \<and> hdr_seq hx = seq_of (n + 1 - slot_age store ?p x)"
    if "x < slot_total store" "slot_header store (?slots x) = Some hx" for x hx
  proof (cases "x = ?p")
    case True
    with that(2) show ?thesis using h new(1) nx assms(4) slot_age_self[OF p] by simp
  next
    case False
    note xs = that
    have hx: "slot_header store (slots x) = Some hx" by (rule torn_save_header[OF assms(1) False xs(2)])
    then obtain d where d: "v = Some d" using assms(5) xs(1) by (cases v) (auto simp: stored_def)
    then have o: "n \<noteq> 0" "holds_at store slots n q d" using assms(5) by (simp_all add: stored_def)
    then have "q < slot_total store" "slot_age store q x < n" "hdr_seq hx = seq_of (n - slot_age store q x)"
      using xs(1) hx by (auto simp: holds_at_def)
    then show ?thesis using slot_age_next[OF assms(1) _ xs(1) o(1) False] by simp
  qed
  then show ?thesis using p h new(2) nx assms(2) by (simp add: stored_def holds_at_def)
qed

section \<open>What init computes\<close>

lemma unat_ucast_u16: "unat w < 65536 \<Longrightarrow> unat (ucast (w :: u32) :: u16) = unat w"
  using unat_of_nat[of "unat w", where 'a = 16] by (simp add: of_nat_unat)

lemma align_up_bounds:
  assumes "0 < unat g" "unat v + unat g \<le> 65536"
  shows "unat v \<le> unat (align_up v g)" "unat (align_up v g) < unat v + unat g"
proof -
  let ?x = "unat v + unat g - 1"
  have "1 \<le> ucast v + g"
    using assms unat_add_32[of "ucast v" g] by (simp add: word_le_nat_alt)
  then have x: "unat (ucast v + g - 1) = ?x"
    using assms unat_add_32[of "ucast v" g] by (simp add: unat_sub word_le_nat_alt)
  have d: "?x div unat g * unat g \<le> ?x" by simp
  have "unat ((ucast v + g - 1) div g * g) = ?x div unat g * unat g"
  proof -
    have "?x div unat g < 4294967296" "?x div unat g * unat g < 4294967296"
      using d div_le_dividend[of ?x "unat g"] assms(2) by linarith+
    then show ?thesis using x by (simp add: unat_word_ariths unat_div)
  qed
  then have e: "unat (align_up v g) = ?x div unat g * unat g"
    unfolding align_up_def using d assms by (subst unat_ucast_u16; linarith)
  have "?x div unat g * unat g + ?x mod unat g = ?x" "?x mod unat g < unat g"
    using assms(1) by simp_all
  then have "?x < ?x div unat g * unat g + unat g" by linarith
  then show "unat v \<le> unat (align_up v g)" using e assms(1) by simp
  show "unat (align_up v g) < unat v + unat g" using e d assms(1) by linarith
qed

text \<open>The sizes, as the code computes them from the port and the size of the data.\<close>

definition port_granule :: "'f UdsFlashPort \<Rightarrow> u8" where
  "port_granule port = (if port_program_granule port = 0 then 2 else port_program_granule port)"

definition header_room :: "u8 \<Rightarrow> u16" where
  "header_room granule = align_up (if 16 > granule then 16 else ucast granule) (ucast granule)"

definition slot_room :: "u8 \<Rightarrow> u16 \<Rightarrow> u16" where
  "slot_room granule n =
     (let s = header_room granule + align_up n (ucast granule) in
      if s mod 16 \<noteq> 0 \<and> granule < 16 then align_up s 16 else s)"

definition configured :: "'f UdsFlashPort \<Rightarrow> u32 \<Rightarrow> u8 \<Rightarrow> u16 \<Rightarrow> 'f UdsParamStore" where
  "configured port base sectors n =
     (let ssz = the (port_sector_size port) base; g = port_granule port in
      \<lparr> wl_port = port, flash_base = base, sector_size = ssz, sector_count = sectors, data_size = n,
        slot_size = slot_room g n, slots_per_sector = ucast (ssz div ucast (slot_room g n)), header_size = header_room g,
        payload_size_aligned = align_up n (ucast g), program_granule = g,
        erased_byte = (if port_erased_byte port \<noteq> 0 then port_erased_byte port else 0xFF),
        active_sector = 0, active_slot = 0, next_seq = 1, wl_initialized = False, has_active_slot = False \<rparr>)"

text \<open>
  A configuration that works: the port has its functions, the region lies inside the address space,
  a slot fits a sector, there is a second sector, and the sequence numbers of all slots stay comparable.
\<close>

definition store_fits :: "'f UdsFlashPort \<Rightarrow> u32 \<Rightarrow> u8 \<Rightarrow> u16 \<Rightarrow> bool" where
  "store_fits port base sectors n =
     (let ssz = the (port_sector_size port) base; g = port_granule port in
      validate_init_args port sectors n \<and> g AND (g - 1) = 0 \<and> port_erased_byte port \<in> {0, 0xFF} \<and>
      unat n \<le> 64000 \<and> ucast (slot_room g n) \<le> ssz \<and> unat ssz < 1048576 \<and> 2 \<le> unat sectors \<and>
      unat base + unat sectors * unat ssz \<le> 4294967296 \<and>
      unat sectors * (unat ssz div unat (slot_room g n)) \<le> 32767)"

lemma port_granule_pos: "0 < unat (port_granule port)"
  by (auto simp: port_granule_def unat_gt_0)

lemma header_room_bounds:
  assumes "0 < unat g"
  shows "16 \<le> unat (header_room g)" "unat (header_room g) < 511"
proof -
  have g: "unat g < 256" by (rule unat_u8_lt)
  let ?m = "if 16 > g then 16 else ucast g :: u16"
  have m: "16 \<le> unat ?m" "unat ?m < 256" using g by (auto simp: word_less_nat_alt)
  have "unat ?m \<le> unat (header_room g)" "unat (header_room g) < unat ?m + unat g"
    using align_up_bounds[of "ucast g" ?m] assms m g by (simp_all add: header_room_def)
  then show "16 \<le> unat (header_room g)" "unat (header_room g) < 511" using m g by linarith+
qed

lemma slot_room_bounds:
  assumes "0 < unat g" "0 < unat n" "unat n \<le> 64000"
  shows "unat n \<le> unat (align_up n (ucast g))"
    and "unat (header_room g) + unat (align_up n (ucast g)) \<le> unat (slot_room g n)" "17 \<le> unat (slot_room g n)"
proof -
  have g: "unat g < 256" by (rule unat_u8_lt)
  note h = header_room_bounds[OF assms(1)]
  have "unat (ucast g :: u32) = unat g" by simp
  then show p: "unat n \<le> unat (align_up n (ucast g))"
    using align_up_bounds(1)[of "ucast g" n] assms g by linarith
  have p2: "unat (align_up n (ucast g)) < 64256"
    using align_up_bounds(2)[of "ucast g" n] assms g \<open>unat (ucast g :: u32) = unat g\<close> by linarith
  let ?s = "header_room g + align_up n (ucast g)"
  have s: "unat ?s = unat (header_room g) + unat (align_up n (ucast g))"
    using h p2 by (intro unat_add_16) linarith
  have "unat ?s \<le> unat (align_up ?s 16)"
    using align_up_bounds(1)[of 16 ?s] s h p2 by simp
  then show "unat (header_room g) + unat (align_up n (ucast g)) \<le> unat (slot_room g n)"
    using s by (simp add: slot_room_def Let_def)
  then show "17 \<le> unat (slot_room g n)" using h p assms by linarith
qed

lemma geometry_configured:
  assumes "store_fits port base sectors n"
  shows "geometry (configured port base sectors n)" "slot_total (configured port base sectors n) \<le> 32767"
proof -
  let ?ssz = "the (port_sector_size port) base" and ?g = "port_granule port"
  let ?s = "slot_room ?g n"
  have f: "validate_init_args port sectors n" "port_erased_byte port \<in> {0, 0xFF}" "unat n \<le> 64000"
      "unat ?s \<le> unat ?ssz" "unat ?ssz < 1048576" "2 \<le> unat sectors"
      "unat base + unat sectors * unat ?ssz \<le> 4294967296" "unat sectors * (unat ?ssz div unat ?s) \<le> 32767"
    using assms by (simp_all add: store_fits_def Let_def word_le_nat_alt)
  have n: "0 < unat n" using f(1) by (simp add: validate_init_args_def unat_gt_0)
  note r = slot_room_bounds[OF port_granule_pos[of port] n f(3)] and h = header_room_bounds[OF port_granule_pos[of port]]
  have "unat ?ssz div unat ?s \<le> unat ?ssz div 17" by (rule div_le_mono2) (use r(3) in auto)
  also have "\<dots> < 65536" using f(5) by simp
  finally have sps: "unat (ucast (?ssz div ucast ?s) :: u16) = unat ?ssz div unat ?s"
    by (subst unat_ucast_u16) (simp_all add: unat_div)
  have sps_pos: "0 < unat ?ssz div unat ?s" using f(4) r(3) by (simp add: div_greater_zero_iff)
  show "geometry (configured port base sectors n)"
    using n f r h sps_pos by (auto simp: geometry_def configured_def Let_def sps)
  show "slot_total (configured port base sectors n) \<le> 32767"
    using f(8) by (simp add: slot_total_def configured_def Let_def sps)
qed

lemma init_scans:
  assumes "store_fits port base sectors n"
  shows "uds_param_init store port base sectors n f = do {
     (s, f) \<leftarrow> scan_for_active_slot (configured port base sectors n) f;
     Some (UDS_PARAM_OK, s\<lparr> wl_initialized := True \<rparr>, f) }"
proof -
  let ?ssz = "the (port_sector_size port) base" and ?g = "port_granule port"
  have f: "validate_init_args port sectors n" "?g AND (?g - 1) = 0" "unat n \<le> 64000" "\<not> ?ssz < ucast (slot_room ?g n)"
    using assms by (simp_all add: store_fits_def Let_def not_less)
  have n: "0 < unat n" using f(1) by (simp add: validate_init_args_def unat_gt_0)
  note r = slot_room_bounds(3)[OF port_granule_pos[of port] n f(3)]
  then have s0: "slot_room ?g n \<noteq> 0" by (auto simp: unat_eq_zero)
  have z0: "?ssz \<noteq> 0" using f(4) s0 r by (auto simp: word_less_nat_alt)
  have c: "configured port base sectors n = store\<lparr> wl_port := port, flash_base := base, sector_size := ?ssz,
      sector_count := sectors, data_size := n, slot_size := slot_room ?g n, header_size := header_room ?g,
      payload_size_aligned := align_up n (ucast ?g), program_granule := ?g,
      erased_byte := (if port_erased_byte port \<noteq> 0 then port_erased_byte port else 0xFF),
      slots_per_sector := ucast (?ssz div ucast (slot_room ?g n)), active_sector := 0, active_slot := 0,
      next_seq := 1, wl_initialized := False, has_active_slot := False \<rparr>"
    by (cases store) (simp add: configured_def Let_def)
  show ?thesis
    unfolding uds_param_init_def Let_def port_granule_def[symmetric] header_room_def[symmetric]
      slot_room_def[of ?g n, unfolded Let_def, symmetric]
    using f(1,2,4) s0 z0 by (simp add: c)
qed

section \<open>Init finds what is stored\<close>

lemma scan_empty:
  assumes "flash_ok (wl_port store) content ssz" "geometry store"
  shows "\<lbrakk> set ps \<subseteq> {..<slot_total store}; \<forall>p < slot_total store. slot_header store (slot_bytes store (content f) p) = None \<rbrakk> \<Longrightarrow>
    \<exists>f'. scan_loop store f (map (slot_pos store) ps) b = Some (b, f') \<and> content f' = content f"
proof (induction ps arbitrary: f)
  case (Cons p ps)
  have p: "p < slot_total store" using Cons.prems(1) by simp
  obtain f1 where f1: "read_slot_header store f (fst (slot_pos store p)) (snd (slot_pos store p)) = Some (None, f1)"
      "content f1 = content f"
    using read_slot_header_eq[OF assms p, of f] Cons.prems(2) p by auto
  obtain sec sl where pos: "slot_pos store p = (sec, sl)" by fastforce
  from Cons.IH[of f1] Cons.prems f1(2) obtain f' where "scan_loop store f1 (map (slot_pos store) ps) b = Some (b, f')"
      "content f' = content f1" by auto
  then show ?case using f1 pos by simp
qed simp

lemma scan_finds:
  assumes "flash_ok (wl_port store) content ssz" "geometry store" "slot_total store \<le> 32767"
    and "stored store (slot_bytes store (content f)) n q v" "reset store = store"
  shows "\<exists>s f'. scan_for_active_slot store f = Some (s, f') \<and> content f' = content f \<and> reset s = store \<and>
     cursor (s\<lparr> wl_initialized := True \<rparr>) n q"
proof (cases v)
  case None
  then have "n = 0" "\<forall>p < slot_total store. slot_header store (slot_bytes store (content f) p) = None"
    using assms(4) by (simp_all add: stored_def)
  moreover have "\<not> has_active_slot store" "next_seq store = 1"
    by (subst assms(5)[symmetric], simp add: reset_def)+
  moreover have "set [0..<slot_total store] \<subseteq> {..<slot_total store}" by auto
  ultimately obtain f' where "scan_loop store f (all_slots store) None = Some (None, f')" "content f' = content f"
    using scan_empty[OF assms(1,2), of "[0..<slot_total store]" f None] by (auto simp: all_slots_pos[OF assms(2)])
  then show ?thesis
    using assms(5) \<open>n = 0\<close> \<open>\<not> has_active_slot store\<close> \<open>next_seq store = 1\<close>
    by (simp add: scan_for_active_slot_def cursor_def seq_of_def)
next
  case (Some d)
  then have h: "n \<noteq> 0" "holds_at store (slot_bytes store (content f)) n q d" using assms(4) by (simp_all add: stored_def)
  then have q: "q < slot_total store" by (simp add: holds_at_def)
  have "set [0..<slot_total store] \<subseteq> {..<slot_total store}" by auto
  from scan_loop_youngest[OF assms(1-3) h(2) this, of f None] obtain b f' where
    l: "scan_loop store f (all_slots store) None = Some (b, f')" "content f' = content f" "b = scan_best store n q q"
    using q by (auto simp: all_slots_pos[OF assms(2)])
  have b: "b = Some (seq_of n, fst (slot_pos store q), snd (slot_pos store q))"
    using l(3) slot_age_self[OF q] by (simp add: scan_best_def)
  let ?s = "store\<lparr> active_sector := fst (slot_pos store q), active_slot := snd (slot_pos store q),
      next_seq := bump_seq (seq_of n), has_active_slot := True \<rparr>"
  have "scan_for_active_slot store f = Some (?s, f')"
    using l(1) b by (simp add: scan_for_active_slot_def case_prod_beta)
  moreover have "reset ?s = store" by (subst (3) assms(5)[symmetric]) (simp add: reset_def)
  moreover have "slot_total (?s\<lparr> wl_initialized := True \<rparr>) = slot_total store"
      "slot_pos (?s\<lparr> wl_initialized := True \<rparr>) q = slot_pos store q"
    by (simp_all add: slot_total_def slot_pos_def)
  then have "cursor (?s\<lparr> wl_initialized := True \<rparr>) n q"
    using bump_seq_of[of n] h(1) q by (simp add: cursor_def)
  ultimately show ?thesis using l(2) by blast
qed

lemma init_finds:
  assumes "store_fits port base sectors n0" "flash_ok port content (the (port_sector_size port) base)"
  defines "st \<equiv> configured port base sectors n0"
  assumes "stored st (slot_bytes st (content f)) n q v"
  shows "\<exists>s f'. uds_param_init store port base sectors n0 f = Some (UDS_PARAM_OK, s, f') \<and> content f' = content f \<and>
     reset s = st \<and> cursor s n q"
proof -
  have "reset st = st" "wl_port st = port" by (simp_all add: st_def configured_def reset_def Let_def)
  with scan_finds[of st content _ f n q v] geometry_configured[OF assms(1), folded st_def] assms(2,4)
  obtain s f' where "scan_for_active_slot st f = Some (s, f')" "content f' = content f" "reset s = st"
    "cursor (s\<lparr> wl_initialized := True \<rparr>) n q" by metis
  moreover have "reset (s\<lparr> wl_initialized := True \<rparr>) = reset s" by (simp add: reset_def)
  ultimately show ?thesis using init_scans[OF assms(1), folded st_def] by simp
qed

section \<open>Load\<close>

lemma load_stored:
  assumes "flash_ok (wl_port store) content ssz" "geometry store" "cursor store n q"
    and "stored store (slot_bytes store (content f)) n q v"
  shows "\<exists>f'. content f' = content f \<and> uds_param_load store buf f =
     Some (case v of None \<Rightarrow> (UDS_PARAM_ERR, buf, f') | Some d \<Rightarrow> (UDS_PARAM_OK, d, f'))"
proof (cases v)
  case None
  then show ?thesis using assms(3,4) by (auto simp: stored_def cursor_def uds_param_load_def)
next
  case (Some d)
  let ?bs = "slot_bytes store (content f) q"
  have h: "n \<noteq> 0" "q < slot_total store" "slot_data store ?bs = d" using assms(4) Some by (simp_all add: stored_def holds_at_def)
  obtain hdr where hdr: "header_of_bytes (take 16 ?bs) = Some hdr" "uds_crc16_ccitt d = hdr_crc hdr"
    using assms(4) Some by (auto simp: stored_def holds_at_def slot_header_def split: option.splits if_splits)
  have c: "wl_initialized store" "has_active_slot store" "slot_addr store (active_sector store) (active_slot store) = addr_of store q"
    using assms(3) h(1) by (auto simp: cursor_def addr_of_def prod_eq_iff)
  have g: "unat (header_size store) + unat (data_size store) \<le> unat (slot_size store)" "0 + 16 \<le> unat (slot_size store)"
    using assms(2) by (auto simp: geometry_def)
  let ?a = "addr_of store q + ucast (header_size store)"
  have "memory_at (content f) ?a (unat (data_size store)) = d"
    unfolding header_size_32 memory_at_part[OF g(1)] using h(3) by (simp add: slot_bytes_def slot_data_def)
  then obtain f1 where f1: "read_at store f ?a (unat (data_size store)) = Some (0, d, f1)" "content f1 = content f"
    using flash_read[OF assms(1), of f ?a "unat (data_size store)"] by auto
  obtain f2 where f2: "read_at store f1 (addr_of store q) 16 = Some (0, take 16 ?bs, f2)" "content f2 = content f1"
    using flash_read[OF assms(1), of f1 "addr_of store q" 16] memory_at_part[OF g(2), of "content f" "addr_of store q"] f1(2)
    by (auto simp: slot_bytes_def)
  show ?thesis using c f1 f2 hdr Some by (simp add: uds_param_load_def Let_def)
qed

section \<open>The interface\<close>

text \<open>
  A store of one value over a medium \<open>'f\<close>. A medium at rest holds a value, or none yet; it is
  tidy when no save was interrupted since the value was written. A save into a tidy store ends with the new value
  or, when it fails, leaves a medium that holds the old value or the new one.
\<close>

locale durable_store =
  fixes open_store :: "'f \<Rightarrow> ('s \<times> 'f) option"
    and load_value :: "'s \<Rightarrow> 'f \<Rightarrow> ('v option \<times> 'f) option"
    and save_value :: "'s \<Rightarrow> 'v \<Rightarrow> 'f \<Rightarrow> (bool \<times> 's \<times> 'f) option"
    and fitting :: "'v \<Rightarrow> bool"
    and at_rest :: "bool \<Rightarrow> 'f \<Rightarrow> 'v option \<Rightarrow> bool"
    and opened :: "bool \<Rightarrow> 's \<Rightarrow> 'f \<Rightarrow> 'v option \<Rightarrow> bool"
  assumes opens: "at_rest tidy f v \<Longrightarrow> \<exists>s f'. open_store f = Some (s, f') \<and> opened tidy s f' v"
    and loads: "opened tidy s f v \<Longrightarrow> \<exists>f'. load_value s f = Some (v, f') \<and> opened tidy s f' v"
    and saves: "opened True s f v \<Longrightarrow> fitting x \<Longrightarrow> \<exists>ok s' f'. save_value s x f = Some (ok, s', f') \<and>
      (ok \<and> opened True s' f' (Some x) \<or> \<not> ok \<and> s' = s \<and> (at_rest False f' v \<or> at_rest False f' (Some x)))"
    and rests: "opened tidy s f v \<Longrightarrow> at_rest tidy f v"
    and untidy: "at_rest True f v \<Longrightarrow> at_rest False f v"
    and empty_tidy: "at_rest tidy f None \<Longrightarrow> at_rest True f None"
begin

text \<open>Saves that succeed, with a power cycle before each save that is marked.\<close>

primrec saved_all :: "'s \<Rightarrow> 'f \<Rightarrow> (bool \<times> 'v) list \<Rightarrow> ('s \<times> 'f) option" where
  "saved_all s f [] = Some (s, f)"
| "saved_all s f (x # xs) = do {
     (s, f) \<leftarrow> (if fst x then open_store f else Some (s, f));
     (ok, s, f) \<leftarrow> save_value s (snd x) f;
     (if ok then saved_all s f xs else None) }"

lemma saved_all_opened:
  "opened True s f v \<Longrightarrow> list_all (fitting \<circ> snd) xs \<Longrightarrow> saved_all s f xs = Some (s', f') \<Longrightarrow>
     opened True s' f' (if xs = [] then v else Some (snd (last xs)))"
proof (induction xs arbitrary: s f v)
  case (Cons x xs)
  obtain s1 f1 where o: "(if fst x then open_store f else Some (s, f)) = Some (s1, f1)" "opened True s1 f1 v"
    using opens[OF rests[OF Cons.prems(1)]] Cons.prems(1) by (cases "fst x") auto
  from saves[OF o(2), of "snd x"] Cons.prems(2) obtain ok s2 f2 where
    w: "save_value s1 (snd x) f1 = Some (ok, s2, f2)" "ok \<longrightarrow> opened True s2 f2 (Some (snd x))" by auto
  have "ok" "saved_all s2 f2 xs = Some (s', f')" using Cons.prems(3) o(1) w(1) by (auto split: if_splits)
  then show ?case using Cons.IH[of s2 f2 "Some (snd x)"] Cons.prems(2) w(2) by (cases xs) auto
qed simp

text \<open>What a power cycle after one more save finds.\<close>

lemma save_survives:
  assumes "opened True s f v" "fitting x"
  shows "\<exists>ok s1 f1 s2 f2 f3 v'. save_value s x f = Some (ok, s1, f1) \<and> open_store f1 = Some (s2, f2) \<and>
     load_value s2 f2 = Some (v', f3) \<and> (v' = Some x \<or> \<not> ok \<and> v' = v)"
proof -
  obtain ok s1 f1 where w: "save_value s x f = Some (ok, s1, f1)"
    "ok \<and> opened True s1 f1 (Some x) \<or> \<not> ok \<and> (at_rest False f1 v \<or> at_rest False f1 (Some x))"
    using saves[OF assms] by blast
  then obtain v' where v': "at_rest False f1 v'" "v' = Some x \<or> \<not> ok \<and> v' = v"
    using untidy[OF rests] by blast
  from opens[OF v'(1)] obtain s2 f2 where o: "open_store f1 = Some (s2, f2)" "opened False s2 f2 v'" by blast
  from loads[OF o(2)] show ?thesis using w(1) o(1) v'(2) by blast
qed

end

text \<open>The parameter store provides it.\<close>

definition store_open :: "'f UdsFlashPort \<Rightarrow> u32 \<Rightarrow> u8 \<Rightarrow> u16 \<Rightarrow> 'f \<Rightarrow> ('f UdsParamStore \<times> 'f) option" where
  "store_open port base sectors n f = do {
     (r, s, f) \<leftarrow> uds_param_init (configured port base sectors n) port base sectors n f;
     (if r = UDS_PARAM_OK then Some (s, f) else None) }"

definition store_load :: "'f UdsParamStore \<Rightarrow> 'f \<Rightarrow> (bytes option \<times> 'f) option" where
  "store_load s f = do {
     (r, data, f) \<leftarrow> uds_param_load s [] f;
     Some (if r = UDS_PARAM_OK then Some data else None, f) }"

definition store_save :: "'f UdsParamStore \<Rightarrow> bytes \<Rightarrow> 'f \<Rightarrow> (bool \<times> 'f UdsParamStore \<times> 'f) option" where
  "store_save s data f = do {
     (r, s, f) \<leftarrow> uds_param_save s data f;
     Some (r = UDS_PARAM_OK, s, f) }"

definition store_rest ::
  "'f UdsFlashPort \<Rightarrow> u32 \<Rightarrow> u8 \<Rightarrow> u16 \<Rightarrow> ('f \<Rightarrow> u32 \<Rightarrow> u8) \<Rightarrow> bool \<Rightarrow> 'f \<Rightarrow> bytes option \<Rightarrow> bool" where
  "store_rest port base sectors n content tidy f v \<longleftrightarrow>
     store_fits port base sectors n \<and> flash_ok port content (the (port_sector_size port) base) \<and>
     (\<exists>k q. let st = configured port base sectors n in
        stored st (slot_bytes st (content f)) k q v \<and> (tidy \<longrightarrow> clean st (slot_bytes st (content f)) k q))"

definition store_opened ::
  "'f UdsFlashPort \<Rightarrow> u32 \<Rightarrow> u8 \<Rightarrow> u16 \<Rightarrow> ('f \<Rightarrow> u32 \<Rightarrow> u8) \<Rightarrow> bool \<Rightarrow> 'f UdsParamStore \<Rightarrow> 'f \<Rightarrow> bytes option \<Rightarrow> bool" where
  "store_opened port base sectors n content tidy s f v \<longleftrightarrow>
     store_fits port base sectors n \<and> flash_ok port content (the (port_sector_size port) base) \<and>
     reset s = configured port base sectors n \<and>
     (\<exists>k q. cursor s k q \<and> stored s (slot_bytes s (content f)) k q v \<and>
        (tidy \<longrightarrow> clean s (slot_bytes s (content f)) k q))"

lemma reset_stored [simp]: "stored (reset s) slots n q v = stored s slots n q v"
  by (simp add: stored_def cong: option.case_cong)

lemma reset_slots: "slot_bytes (reset s) m = slot_bytes s m"
  by (simp add: fun_eq_iff)

lemma reset_clean [simp]: "clean (reset s) slots n q = clean s slots n q"
  by (simp add: clean_def)

lemma advanced_layout:
  "stored (advanced s a b) slots n q v = stored s slots n q v" "clean (advanced s a b) slots n q = clean s slots n q"
  "slot_bytes (advanced s a b) m p = slot_bytes s m p" "slot_total (advanced s a b) = slot_total s"
  "slot_pos (advanced s a b) p = slot_pos s p"
  by (metis reset_stored reset_advanced, metis reset_clean reset_advanced, metis reset_simps(14) reset_advanced,
      metis reset_simps(11) reset_advanced, metis reset_simps(12) reset_advanced)

lemma stored_cong:
  assumes "\<forall>p < slot_total store. slots p = slots' p" "geometry store"
  shows "stored store slots n q v = stored store slots' n q v"
  using assms by (cases v) (auto simp: stored_def holds_at_def)

lemma clean_cong:
  assumes "\<forall>p < slot_total store. slots p = slots' p"
  shows "clean store slots n q = clean store slots' n q"
  using assms by (auto simp: clean_def)

lemma opened_layout:
  assumes "store_opened port base sectors n content tidy s f v"
  shows "geometry s" "flash_ok (wl_port s) content (sector_size s)" "2 \<le> unat (sector_count s)" "data_size s = n"
proof -
  let ?c = "configured port base sectors n"
  have r: "reset s = ?c" and fits: "store_fits port base sectors n"
    and fl: "flash_ok port content (the (port_sector_size port) base)"
    using assms by (simp_all add: store_opened_def)
  have c: "wl_port s = wl_port ?c" "sector_size s = sector_size ?c" "sector_count s = sector_count ?c" "data_size s = data_size ?c"
    by (simp_all flip: r)
  show "geometry s" using geometry_configured(1)[OF fits] by (simp flip: r)
  show "flash_ok (wl_port s) content (sector_size s)" "2 \<le> unat (sector_count s)" "data_size s = n"
    using c fl fits by (simp_all add: configured_def store_fits_def Let_def)
qed

lemma cursor_advanced:
  assumes "geometry s" "cursor s k q"
  shows "cursor (advanced s k q) (k + 1) (next_slot s k q)"
  unfolding cursor_def advanced_layout using assms bump_seq_of[of "k + 1"] next_slot_less[OF assms(1), of k q]
  by (simp add: cursor_def advanced_def)

lemma store_saves:
  assumes "store_opened port base sectors n content True s f v" "length x = unat n"
  shows "\<exists>ok s' f'. store_save s x f = Some (ok, s', f') \<and>
    (ok \<and> store_opened port base sectors n content True s' f' (Some x) \<or>
     \<not> ok \<and> s' = s \<and> (store_rest port base sectors n content False f' v \<or>
                      store_rest port base sectors n content False f' (Some x)))"
proof -
  note lay = opened_layout[OF assms(1)]
  have r: "reset s = configured port base sectors n" "store_fits port base sectors n"
      "flash_ok port content (the (port_sector_size port) base)"
    using assms(1) by (simp_all add: store_opened_def)
  obtain k q where k: "cursor s k q" "stored s (slot_bytes s (content f)) k q v" "clean s (slot_bytes s (content f)) k q"
    using assms(1) by (auto simp: store_opened_def)
  let ?old = "slot_bytes s (content f)" and ?p = "next_slot s k q"
  let ?P = "unat (payload_size_aligned s)" and ?H = "unat (header_size s)"
  have q: "k \<noteq> 0 \<longrightarrow> q < slot_total s" using k(1) by (simp add: cursor_def)
  have lx: "length x = unat (data_size s)" using assms(2) lay(4) by simp
  have sq: "next_seq s = seq_of (k + 1)" using k(1) by (simp add: cursor_def)
  have rest: "store_rest port base sectors n content False f' w"
    if "stored s (slot_bytes s (content f')) m p w" for f' m p w
  proof -
    have "stored (configured port base sectors n) (slot_bytes (configured port base sectors n) (content f')) m p w"
      using that unfolding r(1)[symmetric] reset_stored reset_slots .
    then show ?thesis using r(2,3) by (auto simp: store_rest_def Let_def)
  qed
  from save_slots[OF lay(1,2) k(1) lx _ prepared_next_erased[OF lay(1) q k(3)]] obtain res s' f' where
    sv: "uds_param_save s x f = Some (res, s', f')"
      "res = UDS_PARAM_OK \<and> s' = advanced s k q \<and> slots_are s (content f') (torn_save s k q ?old x ?P ?H) \<or>
       res = UDS_PARAM_ERR \<and> s' = s \<and> (slots_are s (content f') ?old \<or>
         (\<exists>k1 k2. torn_at s k1 k2 \<and> slots_are s (content f') (torn_save s k q ?old x k1 k2)))" by blast
  consider (ok) "res = UDS_PARAM_OK" "s' = advanced s k q" "slots_are s (content f') (torn_save s k q ?old x ?P ?H)"
    | (untouched) "res = UDS_PARAM_ERR" "s' = s" "slots_are s (content f') ?old"
    | (torn) k1 k2 where "res = UDS_PARAM_ERR" "s' = s" "torn_at s k1 k2"
        "slots_are s (content f') (torn_save s k q ?old x k1 k2)"
    using sv(2) by blast
  then show ?thesis
  proof cases
    case ok
    note sl = ok(3)
    have "slot_header s (torn_slot s x ?P ?H) \<noteq> None" using torn_slot_complete[OF lay(1) lx] by simp
    then have "stored s (torn_save s k q ?old x ?P ?H) (k + 1) ?p (Some x)"
      by (intro torn_save_new[OF lay(1) lx _ sq k(2)]) simp_all
    then have "stored s' (slot_bytes s' (content f')) (k + 1) ?p (Some x)"
      unfolding ok(2) advanced_layout using stored_cong[OF sl lay(1)] by (simp add: advanced_layout(3)[abs_def])
    moreover have "clean s' (slot_bytes s' (content f')) (k + 1) ?p"
      using torn_save_clean[OF lay(1) q k(3), of x ?P ?H] clean_cong[OF sl]
      unfolding ok(2) advanced_layout by (simp add: advanced_layout(3)[abs_def])
    moreover have "reset s' = configured port base sectors n" using r(1) ok(2) by simp
    ultimately have "store_opened port base sectors n content True s' f' (Some x)"
      using cursor_advanced[OF lay(1) k(1)] r(2,3) ok(2) by (auto simp: store_opened_def)
    then show ?thesis using sv(1) ok(1) by (intro exI[of _ True]) (simp add: store_save_def)
  next
    case e: untouched
    then have "store_rest port base sectors n content False f' v"
      using rest k(2) stored_cong[OF e(3) lay(1)] by blast
    then show ?thesis using sv(1) e by (intro exI[of _ False]) (simp add: store_save_def param_code_defs)
  next
    case e: (torn k1 k2)
    note sl = e(4)
    have "store_rest port base sectors n content False f' v \<or> store_rest port base sectors n content False f' (Some x)"
    proof (cases "slot_header s (torn_slot s x k1 k2)")
      case None
      show ?thesis
        using torn_save_old[OF lay(1,3) k(2) None] rest stored_cong[OF sl lay(1)] by blast
    next
      case (Some h)
      then have h: "slot_header s (torn_slot s x k1 k2) \<noteq> None" by simp
      from torn_save_new[OF lay(1) lx e(3) sq k(2) h] show ?thesis using rest stored_cong[OF sl lay(1)] by blast
    qed
    then show ?thesis using sv(1) e by (intro exI[of _ False]) (simp add: store_save_def param_code_defs)
  qed
qed

lemma store_opens:
  assumes "store_rest port base sectors n content tidy f v"
  shows "\<exists>s f'. store_open port base sectors n f = Some (s, f') \<and> store_opened port base sectors n content tidy s f' v"
proof -
  let ?c = "configured port base sectors n"
  have fits: "store_fits port base sectors n" and fl: "flash_ok port content (the (port_sector_size port) base)"
    using assms by (simp_all add: store_rest_def)
  obtain k q where k: "stored ?c (slot_bytes ?c (content f)) k q v" "tidy \<longrightarrow> clean ?c (slot_bytes ?c (content f)) k q"
    using assms by (auto simp: store_rest_def Let_def)
  from init_finds[OF fits fl k(1)] obtain s f' where
    i: "uds_param_init ?c port base sectors n f = Some (UDS_PARAM_OK, s, f')" "content f' = content f" "reset s = ?c" "cursor s k q"
    by blast
  have "stored s (slot_bytes s (content f')) k q v" "tidy \<longrightarrow> clean s (slot_bytes s (content f')) k q"
    using k unfolding i(2) i(3)[symmetric] reset_stored reset_slots reset_clean by simp_all
  then show ?thesis using i fits fl by (auto simp: store_open_def store_opened_def)
qed

lemma store_loads:
  assumes "store_opened port base sectors n content tidy s f v"
  shows "\<exists>f'. store_load s f = Some (v, f') \<and> store_opened port base sectors n content tidy s f' v"
proof -
  note lay = opened_layout[OF assms]
  obtain k q where k: "cursor s k q" "stored s (slot_bytes s (content f)) k q v"
    using assms by (auto simp: store_opened_def)
  from load_stored[OF lay(2,1) k, of "[]"] obtain f' where "content f' = content f"
    "uds_param_load s [] f = Some (case v of None \<Rightarrow> (UDS_PARAM_ERR, [], f') | Some d \<Rightarrow> (UDS_PARAM_OK, d, f'))" by blast
  then show ?thesis using assms by (cases v) (auto simp: store_load_def store_opened_def param_code_defs)
qed

lemma store_rests:
  assumes "store_opened port base sectors n content tidy s f v"
  shows "store_rest port base sectors n content tidy f v"
proof -
  have r: "reset s = configured port base sectors n" using assms by (simp add: store_opened_def)
  show ?thesis
    using assms unfolding store_opened_def store_rest_def Let_def r[symmetric] reset_stored reset_slots reset_clean by blast
qed

interpretation wl: durable_store "store_open port base sectors n" store_load store_save "\<lambda>x. length x = unat n"
  "store_rest port base sectors n content" "store_opened port base sectors n content"
  for port :: "'f UdsFlashPort" and base sectors n content
  by unfold_locales
    (erule store_opens, erule store_loads, erule (1) store_saves, erule store_rests,
      auto simp: store_rest_def stored_def clean_def Let_def)

section \<open>Crash consistency\<close>

lemma blank_rest:
  assumes "store_fits port base sectors n" "flash_ok port content (the (port_sector_size port) base)"
    and "\<forall>p < slot_total (configured port base sectors n). slot_header (configured port base sectors n)
           (slot_bytes (configured port base sectors n) (content f) p) = None"
  shows "store_rest port base sectors n content True f None"
  using assms by (auto simp: store_rest_def stored_def clean_def Let_def)

text \<open>Saves that succeed, with a power cycle before each save that is marked.\<close>

primrec save_series :: "'f UdsFlashPort \<Rightarrow> u32 \<Rightarrow> u8 \<Rightarrow> u16 \<Rightarrow> 'f UdsParamStore \<Rightarrow> 'f \<Rightarrow> (bool \<times> bytes) list \<Rightarrow>
    ('f UdsParamStore \<times> 'f) option" where
  "save_series port base sectors n s f [] = Some (s, f)"
| "save_series port base sectors n s f (x # xs) = do {
     (r, s, f) \<leftarrow> (if fst x then uds_param_init s port base sectors n f else Some (UDS_PARAM_OK, s, f));
     (r', s, f) \<leftarrow> uds_param_save s (snd x) f;
     (if r = UDS_PARAM_OK \<and> r' = UDS_PARAM_OK then save_series port base sectors n s f xs else None) }"

text \<open>Init does not depend on what the store held before, load overwrites the buffer.\<close>

lemma init_open:
  assumes "store_fits port base sectors n"
  shows "store_open port base sectors n f = Some (s, f') \<longleftrightarrow>
    uds_param_init s0 port base sectors n f = Some (UDS_PARAM_OK, s, f')"
  unfolding store_open_def init_scans[OF assms] by (auto split: Option.bind_splits)

lemma load_buffer:
  assumes "store_load s f = Some (v, f')"
  shows "\<exists>r data. uds_param_load s buf f = Some (r, data, f') \<and>
    (case v of None \<Rightarrow> r \<noteq> UDS_PARAM_OK | Some d \<Rightarrow> r = UDS_PARAM_OK \<and> data = d)"
  using assms unfolding store_load_def uds_param_load_def Let_def
  by (auto simp: param_code_defs split: if_splits Option.bind_splits)

lemma save_series_wl:
  assumes "store_fits port base sectors n"
  shows "save_series port base sectors n s f xs = Some (s', f') \<Longrightarrow> wl.saved_all port base sectors n s f xs = Some (s', f')"
proof (induction xs arbitrary: s f)
  case Nil
  then show ?case by (simp add: wl.saved_all.simps)
next
  case (Cons x xs)
  obtain r s1 f1 r' s2 f2 where
    o: "(if fst x then uds_param_init s port base sectors n f else Some (UDS_PARAM_OK, s, f)) = Some (r, s1, f1)"
    and w: "uds_param_save s1 (snd x) f1 = Some (r', s2, f2)" "r = UDS_PARAM_OK" "r' = UDS_PARAM_OK"
      "save_series port base sectors n s2 f2 xs = Some (s', f')"
    using Cons.prems by (auto split: Option.bind_splits if_splits)
  have "(if fst x then store_open port base sectors n f else Some (s, f)) = Some (s1, f1)"
    using o w(2) init_open[OF assms, of f s1 f1 s] by (auto split: if_splits)
  moreover have "store_save s1 (snd x) f1 = Some (True, s2, f2)" using w by (simp add: store_save_def)
  ultimately show ?case using Cons.IH[OF w(4)] by (simp add: wl.saved_all.simps)
qed

text \<open> C6.
  Crash consistency of the parameter store. On a flash that holds no valid slot, \<open>uds_param_init\<close>
  opens an empty store. After any series of successful saves, with power cycles between them, one more save may be
  interrupted anywhere - in the erase, in the data, in the header - and report whatever the port reports: the next
  \<open>uds_param_init\<close> succeeds and \<open>uds_param_load\<close> returns the new value or, only if the save did not
  report success, the value before it.
\<close>

theorem parameter_store_crash_safe:
  assumes "store_fits port base sectors n" "flash_ok port content (the (port_sector_size port) base)"
    and "\<forall>p < slot_total (configured port base sectors n). slot_header (configured port base sectors n)
           (slot_bytes (configured port base sectors n) (content f) p) = None"
    and "list_all (\<lambda>x. length (snd x) = unat n) xs" "length d = unat n"
  shows "\<exists>s f0. uds_param_init st port base sectors n f = Some (UDS_PARAM_OK, s, f0) \<and>
     (\<forall>s' f'. save_series port base sectors n s f0 xs = Some (s', f') \<longrightarrow>
        (\<exists>r s1 f1 s2 f2 r2 data f3. uds_param_save s' d f' = Some (r, s1, f1) \<and>
           uds_param_init s1 port base sectors n f1 = Some (UDS_PARAM_OK, s2, f2) \<and>
           uds_param_load s2 buf f2 = Some (r2, data, f3) \<and>
           (r2 = UDS_PARAM_OK \<and> data = d \<or> r \<noteq> UDS_PARAM_OK \<and>
            (if xs = [] then r2 \<noteq> UDS_PARAM_OK else r2 = UDS_PARAM_OK \<and> data = snd (last xs)))))"
proof -
  from wl.opens[OF blank_rest[OF assms(1-3)]] obtain s f0 where
    o: "store_open port base sectors n f = Some (s, f0)" "store_opened port base sectors n content True s f0 None" by blast
  have fit: "list_all ((\<lambda>x. length x = unat n) \<circ> snd) xs" using assms(4) by (simp add: comp_def)
  have "\<exists>r s1 f1 s2 f2 r2 data f3. uds_param_save s' d f' = Some (r, s1, f1) \<and>
       uds_param_init s1 port base sectors n f1 = Some (UDS_PARAM_OK, s2, f2) \<and>
       uds_param_load s2 buf f2 = Some (r2, data, f3) \<and>
       (r2 = UDS_PARAM_OK \<and> data = d \<or> r \<noteq> UDS_PARAM_OK \<and>
        (if xs = [] then r2 \<noteq> UDS_PARAM_OK else r2 = UDS_PARAM_OK \<and> data = snd (last xs)))"
    if "save_series port base sectors n s f0 xs = Some (s', f')" for s' f'
  proof -
    from wl.save_survives[OF wl.saved_all_opened[OF o(2) fit save_series_wl[OF assms(1) that]] assms(5)]
    obtain ok s1 f1 s2 f2 f3 v where r: "store_save s' d f' = Some (ok, s1, f1)"
      "store_open port base sectors n f1 = Some (s2, f2)" "store_load s2 f2 = Some (v, f3)"
      "v = Some d \<or> \<not> ok \<and> v = (if xs = [] then None else Some (snd (last xs)))" by blast
    obtain r where sv: "uds_param_save s' d f' = Some (r, s1, f1)" "ok \<longleftrightarrow> r = UDS_PARAM_OK"
      using r(1) by (auto simp: store_save_def split: Option.bind_splits)
    have "uds_param_init s1 port base sectors n f1 = Some (UDS_PARAM_OK, s2, f2)"
      using r(2) init_open[OF assms(1)] by blast
    moreover obtain r2 data where "uds_param_load s2 buf f2 = Some (r2, data, f3)"
      "case v of None \<Rightarrow> r2 \<noteq> UDS_PARAM_OK | Some d \<Rightarrow> r2 = UDS_PARAM_OK \<and> data = d"
      using load_buffer[OF r(3)] by blast
    ultimately show ?thesis using sv r(4) by (auto split: if_splits)
  qed
  then show ?thesis using o(1) init_open[OF assms(1)] by blast
qed

text \<open>
  A flash with 64 byte sectors that programs by clearing bits and accepts a number of write calls before
  it fails.
\<close>

definition nor_port :: "((u32 \<Rightarrow> u8) \<times> nat) UdsFlashPort" where
  "nor_port =
     \<lparr> port_erase = Some (\<lambda>(m, k) a. (0, memory_put m a (replicate 64 0xFF), k)),
       port_read = Some (\<lambda>(m, k) a n. (0, memory_at m a n, m, k)),
       port_write = Some (\<lambda>(m, k) a bs. if k = 0 then (1, m, 0)
         else (0, memory_put m a (map2 (AND) (memory_at m a (length bs)) bs), k - 1)),
       port_sector_size = Some (\<lambda>_. 64), port_program_granule = 2, port_erased_byte = 0xFF \<rparr>"

lemma map2_and_ones: "length bs \<le> n \<Longrightarrow> map2 (AND) (replicate n (0xFF :: u8)) bs = bs"
proof (induction bs arbitrary: n)
  case (Cons b bs)
  have "0xFF = (- 1 :: u8)" by simp
  then have "(0xFF :: u8) AND b = b" by (simp only: and.left_neutral)
  with Cons show ?case by (cases n) auto
qed simp

lemma nor_write:
  assumes "memory_at (fst f) a (length bs) = replicate (length bs) 0xFF"
  shows "\<exists>st f' k. the (port_write nor_port) f a bs = (st, f') \<and> k \<le> length bs \<and>
     fst f' = memory_put (fst f) a (take k bs) \<and> (st = 0 \<longrightarrow> k = length bs)"
proof (cases "snd f = 0")
  case True
  then show ?thesis by (intro exI[of _ 1] exI[of _ f] exI[of _ 0]) (cases f, simp add: nor_port_def)
next
  case False
  then show ?thesis
    using assms by (intro exI[of _ 0] exI[of _ "(memory_put (fst f) a bs, snd f - 1)"] exI[of _ "length bs"])
      (cases f, simp add: nor_port_def map2_and_ones)
qed

lemma nor_flash_ok: "flash_ok nor_port fst 64"
  unfolding flash_ok_def
proof (intro exI conjI)
  show "\<forall>f a bs. memory_at (fst f) a (length bs) = replicate (length bs) 0xFF \<longrightarrow>
      (\<exists>st f' k. the (port_write nor_port) f a bs = (st, f') \<and> k \<le> length bs \<and>
         fst f' = memory_put (fst f) a (take k bs) \<and> (st = 0 \<longrightarrow> k = length bs))"
    using nor_write by blast
qed (auto simp: nor_port_def)

theorem parameter_store_crash_safe_witness:
  "\<exists>s f0. uds_param_init (configured nor_port 0 2 4) nor_port 0 2 4 (\<lambda>_. 0xFF, 100) = Some (UDS_PARAM_OK, s, f0) \<and>
     (\<forall>s' f'. save_series nor_port 0 2 4 s f0 [(False, [1, 2, 3, 4]), (True, [5, 6, 7, 8])] = Some (s', f') \<longrightarrow>
        (\<exists>r s1 f1 s2 f2 r2 data f3. uds_param_save s' [9, 10, 11, 12] f' = Some (r, s1, f1) \<and>
           uds_param_init s1 nor_port 0 2 4 f1 = Some (UDS_PARAM_OK, s2, f2) \<and>
           uds_param_load s2 [0, 0, 0, 0] f2 = Some (r2, data, f3) \<and>
           (r2 = UDS_PARAM_OK \<and> data = [9, 10, 11, 12] \<or> r \<noteq> UDS_PARAM_OK \<and> r2 = UDS_PARAM_OK \<and> data = [5, 6, 7, 8])))"
proof -
  have rooms: "header_room 2 = 16" "slot_room 2 4 = 32"
    by (simp_all add: header_room_def slot_room_def align_up_def)
  have fits: "store_fits nor_port 0 2 4"
    by (simp add: store_fits_def Let_def port_granule_def nor_port_def validate_init_args_def rooms)
  have "slot_header (configured nor_port 0 2 4)
      (slot_bytes (configured nor_port 0 2 4) (fst (\<lambda>_. 0xFF, 100 :: nat)) p) = None" for p
    using erased_slot_invalid[OF geometry_configured(1)[OF fits]]
    by (simp add: slot_bytes_def memory_at_def map_replicate_const)
  then show ?thesis
    using parameter_store_crash_safe[of nor_port 0 2 4 fst "(\<lambda>_. 0xFF, 100)"
      "[(False, [1, 2, 3, 4]), (True, [5, 6, 7, 8])]" "[9, 10, 11, 12]" "configured nor_port 0 2 4" "[0, 0, 0, 0]"]
      fits nor_flash_ok by (simp add: nor_port_def)
qed

end
