(* ===== verification/Boot_Floor.thy ===== *)
theory Boot_Floor
  imports Wear_Crash
begin

text \<open>
  The persistent anti-rollback floor (\<open>library/src/boot_floor.c\<close>) on top of the parameter store.
  The floor is the lowest firmware version the bootloader will install; it only moves up.
\<close>

section \<open>The record in flash\<close>

definition FLOOR_MAGIC :: u32 where "FLOOR_MAGIC = 0x464C5231"

record FloorRecord =
  fr_magic :: u32
  fr_floor :: u32
  fr_check :: u32
  fr_reserved :: u32

definition floor_check :: "FloorRecord \<Rightarrow> u32" where
  "floor_check r = NOT (fr_magic r XOR fr_floor r)"

text \<open>Its sixteen bytes.\<close>

definition floor_bytes :: "FloorRecord \<Rightarrow> bytes" where
  "floor_bytes r = le32_bytes (fr_magic r) @ le32_bytes (fr_floor r) @ le32_bytes (fr_check r) @ le32_bytes (fr_reserved r)"

definition floor_of_bytes :: "bytes \<Rightarrow> FloorRecord option" where
  "floor_of_bytes bs = do {
     magic \<leftarrow> le32_at bs 0; fl \<leftarrow> le32_at bs 4; check \<leftarrow> le32_at bs 8; reserved \<leftarrow> le32_at bs 12;
     Some \<lparr> fr_magic = magic, fr_floor = fl, fr_check = check, fr_reserved = reserved \<rparr> }"

section \<open>Operations\<close>

record 'f UdsBootFloor =
  bf_store :: "'f UdsParamStore"
  bf_ready :: bool
  bf_floor :: u32

text \<open>A zeroed store; its port pointer is null, so it has no functions.\<close>

definition null_port :: "'f UdsFlashPort" where
  "null_port = \<lparr> port_erase = None, port_read = None, port_write = None, port_sector_size = None,
     port_program_granule = 0, port_erased_byte = 0 \<rparr>"

definition zero_store :: "'f UdsParamStore" where
  "zero_store = \<lparr> wl_port = null_port, flash_base = 0, sector_size = 0, sector_count = 0, data_size = 0,
     slot_size = 0, slots_per_sector = 0, header_size = 0, payload_size_aligned = 0, program_granule = 0,
     erased_byte = 0, active_sector = 0, active_slot = 0, next_seq = 0, wl_initialized = False,
     has_active_slot = False \<rparr>"

text \<open>Every field is written, so the old floor is no argument; \<open>junk\<close> is the uninitialised record on the stack.\<close>

definition boot_floor_init ::
  "bytes \<Rightarrow> 'f UdsFlashPort option \<Rightarrow> u32 \<Rightarrow> u8 \<Rightarrow> 'f \<Rightarrow> (bool \<times> 'f UdsBootFloor \<times> 'f) option" where
  "boot_floor_init junk port base sectors f =
     (let bf = \<lparr> bf_store = zero_store, bf_ready = False, bf_floor = 0xFFFFFFFF \<rparr> in
      case port of
        None \<Rightarrow> Some (False, bf, f)
      | Some port \<Rightarrow>
          if sectors < 2 then Some (False, bf, f)
          else do {
            (r, store, f) \<leftarrow> uds_param_init (bf_store bf) port base sectors 16 f;
            let bf = bf\<lparr> bf_store := store \<rparr>;
            (if r \<noteq> UDS_PARAM_OK then Some (False, bf, f)
             else
               let bf = bf\<lparr> bf_ready := True \<rparr> in
               if \<not> has_active_slot (bf_store bf) then Some (True, bf\<lparr> bf_floor := 0 \<rparr>, f)
               else do {
                 (r, data, f) \<leftarrow> uds_param_load (bf_store bf) junk f;
                 (if r \<noteq> UDS_PARAM_OK then Some (True, bf, f)
                  else do {
                    rec \<leftarrow> floor_of_bytes data;
                    (if fr_magic rec \<noteq> FLOOR_MAGIC \<or> fr_check rec \<noteq> floor_check rec then Some (True, bf, f)
                     else Some (True, bf\<lparr> bf_floor := fr_floor rec \<rparr>, f))
                  })
               })
          })"

definition boot_floor_get :: "'f UdsBootFloor option \<Rightarrow> u32" where
  "boot_floor_get bf = (case bf of Some bf \<Rightarrow> bf_floor bf | None \<Rightarrow> 0xFFFFFFFF)"

definition floor_record :: "u32 \<Rightarrow> FloorRecord" where
  "floor_record new =
     (let rec = \<lparr> fr_magic = FLOOR_MAGIC, fr_floor = new, fr_check = 0, fr_reserved = 0 \<rparr> in
      rec\<lparr> fr_check := floor_check rec \<rparr>)"

definition boot_floor_raise ::
  "bytes \<Rightarrow> 'f UdsBootFloor \<Rightarrow> u32 \<Rightarrow> 'f \<Rightarrow> (bool \<times> 'f UdsBootFloor \<times> 'f) option" where
  "boot_floor_raise junk bf new f =
     (if \<not> bf_ready bf then Some (False, bf, f)
      else if new \<le> bf_floor bf then Some (True, bf, f)
      else do {
        (r, store, f) \<leftarrow> uds_param_save (bf_store bf) (floor_bytes (floor_record new)) f;
        let bf = bf\<lparr> bf_store := store \<rparr>;
        (if r \<noteq> UDS_PARAM_OK then Some (False, bf, f)
         else do {
           (r, data, f) \<leftarrow> uds_param_load (bf_store bf) junk f;
           (if r \<noteq> UDS_PARAM_OK then Some (False, bf, f)
            else do {
              back \<leftarrow> floor_of_bytes data;
              (if fr_floor back \<noteq> new then Some (False, bf, f)
               else Some (True, bf\<lparr> bf_floor := new \<rparr>, f))
            })
         })
      })"

section \<open>The record survives the round trip\<close>

lemma length_floor_bytes [simp]: "length (floor_bytes r) = 16"
  by (simp add: floor_bytes_def)

lemma floor_roundtrip: "floor_of_bytes (floor_bytes r) = Some r"
proof -
  have "le32_at (floor_bytes r) 0 = Some (fr_magic r)" "le32_at (floor_bytes r) 4 = Some (fr_floor r)"
    "le32_at (floor_bytes r) 8 = Some (fr_check r)" "le32_at (floor_bytes r) 12 = Some (fr_reserved r)"
    using le32_at_bytes[of "[]" 0 "fr_magic r"] le32_at_bytes[of "le32_bytes (fr_magic r)" 4 "fr_floor r"]
      le32_at_bytes[of "le32_bytes (fr_magic r) @ le32_bytes (fr_floor r)" 8 "fr_check r"]
      le32_at_bytes[of "le32_bytes (fr_magic r) @ le32_bytes (fr_floor r) @ le32_bytes (fr_check r)" 12 "fr_reserved r" "[]"]
    by (simp_all add: floor_bytes_def)
  then show ?thesis by (simp add: floor_of_bytes_def)
qed

lemma floor_record_valid:
  "fr_magic (floor_record v) = FLOOR_MAGIC" "fr_check (floor_record v) = floor_check (floor_record v)"
  "fr_floor (floor_record v) = v"
  by (simp_all add: floor_record_def floor_check_def)

section \<open>The stored floor\<close>

text \<open>What the store holds for a floor: nothing for zero.\<close>

definition floor_value :: "u32 \<Rightarrow> bytes option" where
  "floor_value v = (if v = 0 then None else Some (floor_bytes (floor_record v)))"

definition floor_open ::
  "'f UdsFlashPort \<Rightarrow> u32 \<Rightarrow> u8 \<Rightarrow> ('f \<Rightarrow> u32 \<Rightarrow> u8) \<Rightarrow> 'f UdsBootFloor \<Rightarrow> 'f \<Rightarrow> u32 \<Rightarrow> bool" where
  "floor_open port base sectors content bf f v \<longleftrightarrow> bf_ready bf \<and> bf_floor bf = v \<and>
     store_opened port base sectors 16 content True (bf_store bf) f (floor_value v)"

text \<open>An opened store has an active slot exactly when it holds a value.\<close>

lemma opened_active:
  assumes "store_opened port base sectors n content tidy s f v"
  shows "has_active_slot s \<longleftrightarrow> v \<noteq> None"
  using assms by (cases v) (auto simp: store_opened_def stored_def cursor_def)

lemma floor_init_reads:
  assumes "store_rest port base sectors 16 content tidy f (floor_value v)"
  shows "\<exists>bf f'. boot_floor_init junk (Some port) base sectors f = Some (True, bf, f') \<and> bf_ready bf \<and> bf_floor bf = v \<and>
     store_opened port base sectors 16 content tidy (bf_store bf) f' (floor_value v)"
proof -
  have fits: "store_fits port base sectors 16" using assms by (simp add: store_rest_def)
  have two: "\<not> sectors < 2" using fits by (simp add: store_fits_def Let_def word_less_nat_alt)
  from wl.opens[OF assms] obtain s f1 where o: "store_open port base sectors 16 f = Some (s, f1)"
    "store_opened port base sectors 16 content tidy s f1 (floor_value v)" by blast
  have i: "uds_param_init zero_store port base sectors 16 f = Some (UDS_PARAM_OK, s, f1)"
    using o(1) init_open[OF fits] by blast
  show ?thesis
  proof (cases "v = 0")
    case True
    then have "\<not> has_active_slot s" using opened_active[OF o(2)] by (simp add: floor_value_def)
    then show ?thesis using i two o(2) True by (simp add: boot_floor_init_def Let_def)
  next
    case False
    then have act: "has_active_slot s" using opened_active[OF o(2)] by (simp add: floor_value_def)
    from wl.loads[OF o(2)] obtain f2 where l: "store_load s f1 = Some (floor_value v, f2)"
      "store_opened port base sectors 16 content tidy s f2 (floor_value v)" by blast
    from load_buffer[OF l(1), of junk] False have
      "uds_param_load s junk f1 = Some (UDS_PARAM_OK, floor_bytes (floor_record v), f2)"
      by (auto simp: floor_value_def)
    then show ?thesis
      using i two act l(2) by (simp add: boot_floor_init_def Let_def floor_roundtrip floor_record_valid)
  qed
qed

lemma floor_open_rest:
  assumes "floor_open port base sectors content bf f v"
  shows "store_rest port base sectors 16 content False f (floor_value v)"
proof -
  from assms have "store_opened port base sectors 16 content True (bf_store bf) f (floor_value v)"
    by (simp add: floor_open_def)
  from wl.untidy[OF wl.rests[OF this]] show ?thesis .
qed

text \<open>One raise: when it reports success the floor is open at the higher of the two, otherwise the flash holds one of them.\<close>

lemma floor_raise_step:
  assumes "floor_open port base sectors content bf f v"
  shows "\<exists>ok bf' f'. boot_floor_raise junk bf new f = Some (ok, bf', f') \<and>
     (ok \<and> floor_open port base sectors content bf' f' (max v new) \<or>
      \<not> ok \<and> bf_floor bf' = v \<and> (\<exists>w \<in> {v, max v new}. store_rest port base sectors 16 content False f' (floor_value w)))"
proof (cases "new \<le> v")
  case True
  then show ?thesis using assms by (auto simp: floor_open_def boot_floor_raise_def max_def)
next
  case False
  let ?d = "floor_bytes (floor_record new)"
  have new: "max v new = new" "new \<noteq> 0" "floor_value new = Some ?d"
    using False by (auto simp: max_def floor_value_def)
  have s: "bf_ready bf" "bf_floor bf = v" "store_opened port base sectors 16 content True (bf_store bf) f (floor_value v)"
    using assms by (simp_all add: floor_open_def)
  from wl.saves[OF s(3), of ?d] obtain ok s' f1 where w: "store_save (bf_store bf) ?d f = Some (ok, s', f1)"
    "ok \<and> store_opened port base sectors 16 content True s' f1 (Some ?d) \<or>
     \<not> ok \<and> (store_rest port base sectors 16 content False f1 (floor_value v) \<or>
             store_rest port base sectors 16 content False f1 (Some ?d))" by auto
  obtain r where r: "uds_param_save (bf_store bf) ?d f = Some (r, s', f1)" "ok \<longleftrightarrow> r = UDS_PARAM_OK"
    using w(1) by (auto simp: store_save_def split: Option.bind_splits)
  show ?thesis
  proof (cases ok)
    case False
    then show ?thesis
      using \<open>\<not> new \<le> v\<close> s(1,2) r w(2) new by (auto simp: boot_floor_raise_def Let_def)
  next
    case True
    then have o: "store_opened port base sectors 16 content True s' f1 (Some ?d)" using w(2) by simp
    from wl.loads[OF o] obtain f2 where l: "store_load s' f1 = Some (Some ?d, f2)"
      "store_opened port base sectors 16 content True s' f2 (Some ?d)" by blast
    from load_buffer[OF l(1), of junk] have "uds_param_load s' junk f1 = Some (UDS_PARAM_OK, ?d, f2)" by auto
    then show ?thesis
      using \<open>\<not> new \<le> v\<close> True s(1,2) r l(2) new
      by (intro exI[of _ True]) (simp add: boot_floor_raise_def Let_def floor_roundtrip floor_record_valid floor_open_def)
  qed
qed

section \<open>No rollback\<close>

text \<open>Raises that report success, with a restart before each one that is marked.\<close>

primrec raise_series :: "bytes \<Rightarrow> 'f UdsFlashPort \<Rightarrow> u32 \<Rightarrow> u8 \<Rightarrow> 'f UdsBootFloor \<Rightarrow> 'f \<Rightarrow> (bool \<times> u32) list \<Rightarrow>
    ('f UdsBootFloor \<times> 'f) option" where
  "raise_series junk port base sectors bf f [] = Some (bf, f)"
| "raise_series junk port base sectors bf f (x # xs) = do {
     (ready, bf, f) \<leftarrow> (if fst x then boot_floor_init junk (Some port) base sectors f else Some (True, bf, f));
     (ok, bf, f) \<leftarrow> boot_floor_raise junk bf (snd x) f;
     (if ready \<and> ok then raise_series junk port base sectors bf f xs else None) }"

lemma raise_series_open:
  "floor_open port base sectors content bf f v \<Longrightarrow> raise_series junk port base sectors bf f xs = Some (bf', f') \<Longrightarrow>
     floor_open port base sectors content bf' f' (foldl max v (map snd xs))"
proof (induction xs arbitrary: bf f v)
  case (Cons x xs)
  obtain bf1 f1 where o: "(if fst x then boot_floor_init junk (Some port) base sectors f else Some (True, bf, f)) = Some (True, bf1, f1)"
    "floor_open port base sectors content bf1 f1 v"
  proof (cases "fst x")
    case True
    from Cons.prems(1) have "store_rest port base sectors 16 content True f (floor_value v)"
      by (auto simp: floor_open_def intro: wl.rests)
    from floor_init_reads[OF this, of junk] True that show ?thesis by (auto simp: floor_open_def)
  qed (use Cons.prems(1) that in auto)
  from floor_raise_step[OF o(2), of junk "snd x"] obtain ok bf2 f2 where
    r: "boot_floor_raise junk bf1 (snd x) f1 = Some (ok, bf2, f2)"
    "ok \<longrightarrow> floor_open port base sectors content bf2 f2 (max v (snd x))" by blast
  have "ok" "raise_series junk port base sectors bf2 f2 xs = Some (bf', f')"
    using Cons.prems(2) o(1) r(1) by (auto split: if_splits)
  then show ?case using Cons.IH r(2) by simp
qed simp

text \<open> C16.
  No rollback. On a flash that holds no valid slot the floor starts at zero. After any series of successful raises,
  with restarts between them, it is the highest version among them. One more raise may then be interrupted anywhere
  in its flash operations: after the restart \<open>boot_floor_init\<close> succeeds and the floor is the higher of
  the old and the requested one, or - only when the raise did not report success - the old one. It is never lower.
\<close>

theorem floor_never_lowered:
  fixes xs :: "(bool \<times> u32) list"
  assumes "store_fits port base sectors 16" "flash_ok port content (the (port_sector_size port) base)"
    and "\<forall>p < slot_total (configured port base sectors 16). slot_header (configured port base sectors 16)
           (slot_bytes (configured port base sectors 16) (content f) p) = None"
  defines "v \<equiv> foldl max 0 (map snd xs)"
  shows "\<exists>bf f0. boot_floor_init junk (Some port) base sectors f = Some (True, bf, f0) \<and> bf_floor bf = 0 \<and>
     (\<forall>bf' f'. raise_series junk port base sectors bf f0 xs = Some (bf', f') \<longrightarrow> bf_floor bf' = v \<and>
        (\<exists>ok bf1 f1 bf2 f2. boot_floor_raise junk bf' new f' = Some (ok, bf1, f1) \<and>
           boot_floor_init junk (Some port) base sectors f1 = Some (True, bf2, f2) \<and>
           (bf_floor bf2 = max v new \<or> \<not> ok \<and> bf_floor bf2 = v)))"
proof -
  from blank_rest[OF assms(1-3)] have "store_rest port base sectors 16 content True f (floor_value 0)"
    by (simp add: floor_value_def)
  from floor_init_reads[OF this, of junk] obtain bf f0 where
    i: "boot_floor_init junk (Some port) base sectors f = Some (True, bf, f0)" "bf_floor bf = 0"
      "floor_open port base sectors content bf f0 0" by (auto simp: floor_open_def)
  have "bf_floor bf' = v \<and>
      (\<exists>ok bf1 f1 bf2 f2. boot_floor_raise junk bf' new f' = Some (ok, bf1, f1) \<and>
         boot_floor_init junk (Some port) base sectors f1 = Some (True, bf2, f2) \<and>
         (bf_floor bf2 = max v new \<or> \<not> ok \<and> bf_floor bf2 = v))"
    if "raise_series junk port base sectors bf f0 xs = Some (bf', f')" for bf' f'
  proof -
    have o: "floor_open port base sectors content bf' f' v" unfolding v_def by (rule raise_series_open[OF i(3) that])
    from floor_raise_step[OF o, of junk new] obtain ok bf1 f1 where s: "boot_floor_raise junk bf' new f' = Some (ok, bf1, f1)"
      "ok \<and> floor_open port base sectors content bf1 f1 (max v new) \<or>
       \<not> ok \<and> (\<exists>w \<in> {v, max v new}. store_rest port base sectors 16 content False f1 (floor_value w))" by blast
    then obtain w where r: "w = max v new \<or> \<not> ok \<and> w = v" "store_rest port base sectors 16 content False f1 (floor_value w)"
      by (cases ok) (auto intro: floor_open_rest)
    from floor_init_reads[OF r(2), of junk] o r(1) s(1) show ?thesis by (auto simp: floor_open_def)
  qed
  then show ?thesis using i by blast
qed

theorem floor_never_lowered_witness:
  "\<exists>bf f0. boot_floor_init [] (Some nor_port) 0 2 (\<lambda>_. 0xFF, 100) = Some (True, bf, f0) \<and> bf_floor bf = 0 \<and>
     (\<forall>bf' f'. raise_series [] nor_port 0 2 bf f0 [(False, 3), (True, 7)] = Some (bf', f') \<longrightarrow> bf_floor bf' = 7 \<and>
        (\<exists>ok bf1 f1 bf2 f2. boot_floor_raise [] bf' 9 f' = Some (ok, bf1, f1) \<and>
           boot_floor_init [] (Some nor_port) 0 2 f1 = Some (True, bf2, f2) \<and>
           (bf_floor bf2 = 9 \<or> \<not> ok \<and> bf_floor bf2 = 7)))"
proof -
  have rooms: "header_room 2 = 16" "slot_room 2 16 = 32"
    by (simp_all add: header_room_def slot_room_def align_up_def)
  have fits: "store_fits nor_port 0 2 16"
    by (simp add: store_fits_def Let_def port_granule_def nor_port_def validate_init_args_def rooms)
  have "slot_header (configured nor_port 0 2 16)
      (slot_bytes (configured nor_port 0 2 16) (fst (\<lambda>_. 0xFF, 100 :: nat)) p) = None" for p
    using erased_slot_invalid[OF geometry_configured(1)[OF fits]]
    by (simp add: slot_bytes_def memory_at_def map_replicate_const)
  then show ?thesis
    using floor_never_lowered[where port = nor_port and base = 0 and sectors = 2 and content = fst and f = "(\<lambda>_. 0xFF, 100)"
        and junk = "[]" and xs = "[(False, 3), (True, 7)]" and new = 9]
      fits nor_flash_ok by (simp add: nor_port_def max_def)
qed

end
