(* ===== verification/Security_Nvm.thy ===== *)
theory Security_Nvm
  imports Security_Gate Boot_Floor
begin

text \<open>
  Flash-backed storage of the SecurityAccess lockout (\<open>library/src/uds_security_nvm.c\<close>): the
  persistence callback of the gate and the restore at boot, over the parameter store. The context
  of the callback is the storage object together with the state of the flash.
\<close>

section \<open>The record in flash\<close>

definition SEC_NVM_MAGIC :: u32 where "SEC_NVM_MAGIC = 0x53454331"

record SecurityRecord =
  sr_magic :: u32
  sr_remaining_ms :: u32
  sr_failed_attempts :: u8
  sr_reserved :: bytes
  sr_check :: u32

definition record_check :: "SecurityRecord \<Rightarrow> u32" where
  "record_check r = NOT (sr_magic r XOR sr_remaining_ms r XOR ucast (sr_failed_attempts r))"

definition security_bytes :: "SecurityRecord \<Rightarrow> bytes" where
  "security_bytes r = le32_bytes (sr_magic r) @ le32_bytes (sr_remaining_ms r) @ [sr_failed_attempts r] @
     sr_reserved r @ le32_bytes (sr_check r)"

definition security_of_bytes :: "bytes \<Rightarrow> SecurityRecord option" where
  "security_of_bytes bs = do {
     magic \<leftarrow> le32_at bs 0; remaining \<leftarrow> le32_at bs 4; failed \<leftarrow> peek bs 8; check \<leftarrow> le32_at bs 12;
     Some \<lparr> sr_magic = magic, sr_remaining_ms = remaining, sr_failed_attempts = failed,
            sr_reserved = take 3 (drop 9 bs), sr_check = check \<rparr> }"

section \<open>Operations\<close>

record 'f UdsSecurityNvm =
  nvm_store :: "'f UdsParamStore"
  nvm_ready :: bool

definition uds_security_nvm_init ::
  "'f UdsSecurityNvm \<Rightarrow> 'f UdsFlashPort option \<Rightarrow> u32 \<Rightarrow> u8 \<Rightarrow> 'f \<Rightarrow> (bool \<times> 'f UdsSecurityNvm \<times> 'f) option" where
  "uds_security_nvm_init nvm port base sectors f =
     (case port of
        None \<Rightarrow> Some (False, nvm, f)
      | Some port \<Rightarrow>
          if sectors < 2 then Some (False, nvm, f)
          else do {
            (r, store, f) \<leftarrow> uds_param_init zero_store port base sectors 16 f;
            Some (r = UDS_PARAM_OK, \<lparr> nvm_store = store, nvm_ready = (r = UDS_PARAM_OK) \<rparr>, f)
          })"

definition security_record :: "u8 \<Rightarrow> u32 \<Rightarrow> SecurityRecord" where
  "security_record failed remaining =
     (let rec = \<lparr> sr_magic = SEC_NVM_MAGIC, sr_remaining_ms = remaining, sr_failed_attempts = failed,
                  sr_reserved = replicate 3 0, sr_check = 0 \<rparr> in
      rec\<lparr> sr_check := record_check rec \<rparr>)"

definition uds_security_nvm_gate_persist ::
  "u8 \<Rightarrow> u32 \<Rightarrow> ('f UdsSecurityNvm \<times> 'f) option \<Rightarrow> (bool \<times> ('f UdsSecurityNvm \<times> 'f) option) option" where
  "uds_security_nvm_gate_persist failed remaining context =
     (case context of
        None \<Rightarrow> Some (False, None)
      | Some (nvm, f) \<Rightarrow>
          if \<not> nvm_ready nvm then Some (False, Some (nvm, f))
          else do {
            (r, store, f) \<leftarrow> uds_param_save (nvm_store nvm) (security_bytes (security_record failed remaining)) f;
            Some (r = UDS_PARAM_OK, Some (nvm\<lparr> nvm_store := store \<rparr>, f))
          })"

text \<open>
  The function the gate calls. The gate's model has no value for undefined behaviour in its callback;
  under the contract of the flash there is none (\<open>nvm_persist_step\<close>).
\<close>

definition nvm_save_fn :: "('f UdsSecurityNvm \<times> 'f) UdsSecurityStateSaveFn" where
  "nvm_save_fn context failed remaining =
     (case uds_security_nvm_gate_persist failed remaining context of Some r \<Rightarrow> r | None \<Rightarrow> (False, context))"

text \<open>\<open>None\<close> is a null pointer for the storage; \<open>junk\<close> is the uninitialised record on the stack.\<close>

definition uds_security_nvm_attach ::
  "bytes \<Rightarrow> ('f UdsSecurityNvm \<times> 'f) UdsSecurityGate \<Rightarrow> ('f UdsSecurityNvm \<times> 'f) option \<Rightarrow> u32 \<Rightarrow>
     ('f UdsSecurityNvm \<times> 'f) UdsSecurityGate option" where
  "uds_security_nvm_attach junk gate env now =
     (let gate = uds_security_gate_set_persistence gate (Some nvm_save_fn) env in
      case env of
        None \<Rightarrow> Some (uds_security_gate_restore_state gate (max_attempts gate) (lockout_ms gate) now)
      | Some (nvm, f) \<Rightarrow>
          if \<not> nvm_ready nvm then
            Some (uds_security_gate_restore_state gate (max_attempts gate) (lockout_ms gate) now)
          else if \<not> has_active_slot (nvm_store nvm) then Some gate
          else do {
            (r, data, f) \<leftarrow> uds_param_load (nvm_store nvm) junk f;
            let gate = gate\<lparr> persist_context := Some (nvm, f) \<rparr>;
            (if r \<noteq> UDS_PARAM_OK
             then Some (uds_security_gate_restore_state gate (max_attempts gate) (lockout_ms gate) now)
             else do {
               rec \<leftarrow> security_of_bytes data;
               (if sr_magic rec \<noteq> SEC_NVM_MAGIC \<or> sr_check rec \<noteq> record_check rec
                then Some (uds_security_gate_restore_state gate (max_attempts gate) (lockout_ms gate) now)
                else Some (uds_security_gate_restore_state gate (sr_failed_attempts rec) (sr_remaining_ms rec) now))
             })
          })"

section \<open>The record survives the round trip\<close>

lemma length_security_bytes [simp]: "length (security_bytes (security_record a r)) = 16"
  by (simp add: security_bytes_def security_record_def Let_def)

lemma security_roundtrip:
  "security_of_bytes (security_bytes (security_record a r)) = Some (security_record a r)"
proof -
  let ?s = "security_record a r" let ?bs = "security_bytes ?s"
  have res: "sr_reserved ?s = replicate 3 0" by (simp add: security_record_def Let_def)
  have "le32_at ?bs 0 = Some (sr_magic ?s)" "le32_at ?bs 4 = Some (sr_remaining_ms ?s)" "le32_at ?bs 12 = Some (sr_check ?s)"
    using le32_at_bytes[of "[]" 0 "sr_magic ?s"] le32_at_bytes[of "le32_bytes (sr_magic ?s)" 4 "sr_remaining_ms ?s"]
      le32_at_bytes[of "le32_bytes (sr_magic ?s) @ le32_bytes (sr_remaining_ms ?s) @ [sr_failed_attempts ?s] @ sr_reserved ?s" 12 "sr_check ?s" "[]"]
    by (simp_all add: security_bytes_def res)
  moreover have "peek ?bs 8 = Some (sr_failed_attempts ?s)" "take 3 (drop 9 ?bs) = sr_reserved ?s"
    by (simp_all add: peek_def security_bytes_def nth_append res)
  ultimately show ?thesis by (simp add: security_of_bytes_def)
qed

lemma security_record_valid:
  "sr_magic (security_record a r) = SEC_NVM_MAGIC" "sr_check (security_record a r) = record_check (security_record a r)"
  "sr_failed_attempts (security_record a r) = a" "sr_remaining_ms (security_record a r) = r"
  by (simp_all add: security_record_def record_check_def Let_def)

section \<open>What the storage holds\<close>

text \<open>Nothing for no failed attempt.\<close>

definition sec_value :: "u8 \<Rightarrow> u32 \<Rightarrow> bytes option" where
  "sec_value a r = (if a = 0 then None else Some (security_bytes (security_record a r)))"

definition nvm_open ::
  "'f UdsFlashPort \<Rightarrow> u32 \<Rightarrow> u8 \<Rightarrow> ('f \<Rightarrow> u32 \<Rightarrow> u8) \<Rightarrow> bool \<Rightarrow> 'f UdsSecurityNvm \<Rightarrow> 'f \<Rightarrow> bytes option \<Rightarrow> bool" where
  "nvm_open port base sectors content tidy nvm f v \<longleftrightarrow> nvm_ready nvm \<and>
     store_opened port base sectors 16 content tidy (nvm_store nvm) f v"

lemma nvm_init_opens:
  assumes "store_rest port base sectors 16 content tidy f v"
  shows "\<exists>nvm' f'. uds_security_nvm_init nvm (Some port) base sectors f = Some (True, nvm', f') \<and>
     nvm_open port base sectors content tidy nvm' f' v"
proof -
  have fits: "store_fits port base sectors 16" using assms by (simp add: store_rest_def)
  have two: "\<not> sectors < 2" using fits by (simp add: store_fits_def Let_def word_less_nat_alt)
  from wl.opens[OF assms] obtain s f1 where o: "store_open port base sectors 16 f = Some (s, f1)"
    "store_opened port base sectors 16 content tidy s f1 v" by blast
  have "uds_param_init zero_store port base sectors 16 f = Some (UDS_PARAM_OK, s, f1)"
    using o(1) init_open[OF fits] by blast
  then show ?thesis using two o(2) by (simp add: uds_security_nvm_init_def nvm_open_def)
qed

text \<open>One call of the persistence callback.\<close>

lemma nvm_persist_step:
  assumes "nvm_open port base sectors content True nvm f v"
  shows "\<exists>ok nvm' f'. nvm_save_fn (Some (nvm, f)) a r = (ok, Some (nvm', f')) \<and>
     (ok \<and> nvm_open port base sectors content True nvm' f' (Some (security_bytes (security_record a r))) \<or>
      \<not> ok \<and> (store_rest port base sectors 16 content False f' v \<or>
               store_rest port base sectors 16 content False f' (Some (security_bytes (security_record a r)))))"
proof -
  let ?d = "security_bytes (security_record a r)"
  have s: "nvm_ready nvm" "store_opened port base sectors 16 content True (nvm_store nvm) f v"
    using assms by (simp_all add: nvm_open_def)
  from wl.saves[OF s(2), of ?d] obtain ok s' f1 where w: "store_save (nvm_store nvm) ?d f = Some (ok, s', f1)"
    "ok \<and> store_opened port base sectors 16 content True s' f1 (Some ?d) \<or>
     \<not> ok \<and> (store_rest port base sectors 16 content False f1 v \<or>
             store_rest port base sectors 16 content False f1 (Some ?d))" by auto
  obtain res where r: "uds_param_save (nvm_store nvm) ?d f = Some (res, s', f1)" "ok \<longleftrightarrow> res = UDS_PARAM_OK"
    using w(1) by (auto simp: store_save_def split: Option.bind_splits)
  have "nvm_save_fn (Some (nvm, f)) a r = (ok, Some (nvm\<lparr> nvm_store := s' \<rparr>, f1))"
    using s(1) r by (simp add: nvm_save_fn_def uds_security_nvm_gate_persist_def)
  then show ?thesis using w(2) s(1) by (auto simp: nvm_open_def)
qed

text \<open>Attaching restores what the storage holds.\<close>

lemma nvm_attach_restores:
  assumes "nvm_open port base sectors content tidy nvm f v" "v = sec_value a r"
  shows "\<exists>f'. nvm_open port base sectors content tidy nvm f' v \<and>
     uds_security_nvm_attach junk gate (Some (nvm, f)) now = Some
       (let g = uds_security_gate_set_persistence gate (Some nvm_save_fn) (Some (nvm, f')) in
        if a = 0 then g else uds_security_gate_restore_state g a r now)"
proof (cases "a = 0")
  case True
  then have "\<not> has_active_slot (nvm_store nvm)"
    using assms opened_active[of port base sectors 16 content tidy "nvm_store nvm" f v] by (simp add: nvm_open_def sec_value_def)
  then show ?thesis using assms True by (auto simp: uds_security_nvm_attach_def Let_def nvm_open_def)
next
  case False
  have s: "nvm_ready nvm" "store_opened port base sectors 16 content tidy (nvm_store nvm) f v"
    using assms(1) by (simp_all add: nvm_open_def)
  have act: "has_active_slot (nvm_store nvm)" using opened_active[OF s(2)] assms(2) False by (simp add: sec_value_def)
  from wl.loads[OF s(2)] obtain f2 where l: "store_load (nvm_store nvm) f = Some (v, f2)"
    "store_opened port base sectors 16 content tidy (nvm_store nvm) f2 v" by blast
  from load_buffer[OF l(1), of junk] assms(2) False have
    "uds_param_load (nvm_store nvm) junk f = Some (UDS_PARAM_OK, security_bytes (security_record a r), f2)"
    by (auto simp: sec_value_def)
  then show ?thesis
    using s(1) act l(2) False
    by (auto simp: uds_security_nvm_attach_def Let_def nvm_open_def security_roundtrip security_record_valid
      uds_security_gate_set_persistence_def)
qed

section \<open>Counting failures\<close>

text \<open>The gate at the moment its state goes to the storage, and what is stored.\<close>

definition counted :: "'p UdsSecurityGate \<Rightarrow> u32 \<Rightarrow> 'p UdsSecurityGate" where
  "counted gate now =
     (let gate = uds_security_gate_invalidate_seed gate;
          gate = gate\<lparr> active_level := 0, failed_attempts := failed_attempts gate + 1 \<rparr> in
      if failed_attempts gate \<ge> max_attempts gate
      then gate\<lparr> lockout_active := (lockout_ms gate \<noteq> 0), lockout_until_ms := now + lockout_ms gate,
                 gate_state := (if lockout_ms gate \<noteq> 0 then UDS_SECURITY_STATE_LOCKOUT
                                else UDS_SECURITY_STATE_LOCKED_READY) \<rparr>
      else gate)"

definition lock_remaining :: "'p UdsSecurityGate \<Rightarrow> u32 \<Rightarrow> u32" where
  "lock_remaining gate now =
     (if lockout_active gate \<and> lockout_until_ms gate > now then lockout_until_ms gate - now else 0)"

definition failure_stored :: "'p UdsSecurityGate \<Rightarrow> u32 \<Rightarrow> bool" where
  "failure_stored gate now =
     fst (persist (counted gate now) (failed_attempts (counted gate now)) (lock_remaining (counted gate now) now))"

lemma record_failure_split:
  "uds_security_gate_record_failure g now =
     (case persist (counted g now) (failed_attempts (counted g now)) (lock_remaining (counted g now) now) of (ok, g') \<Rightarrow>
        if \<not> ok then g'\<lparr> lockout_active := True, lockout_until_ms := now + lockout_ms g', gate_state := UDS_SECURITY_STATE_LOCKOUT \<rparr>
        else g')"
  by (simp only: uds_security_gate_record_failure_def counted_def lock_remaining_def Let_def)

lemma counted_fields:
  "persist_fn (counted g now) = persist_fn g" "persist_context (counted g now) = persist_context g"
  "max_attempts (counted g now) = max_attempts g" "lockout_ms (counted g now) = lockout_ms g"
  "failed_attempts (counted g now) = failed_attempts g + 1"
  by (simp_all add: counted_def Let_def uds_security_gate_invalidate_seed_def)

section \<open>Power cycles\<close>

definition fresh_gate :: "u32 \<Rightarrow> u32 \<Rightarrow> u32 \<Rightarrow> u8 \<Rightarrow> u32 \<Rightarrow> 'p UdsSecurityGate" where
  "fresh_gate initial lockout seed m now =
     uds_security_gate_set_timing (uds_security_gate_init now) initial lockout seed m now"

text \<open>The boot sequence: a fresh gate, the storage opened, the gate attached to it.\<close>

definition boot_gate ::
  "bytes \<Rightarrow> 'f UdsFlashPort \<Rightarrow> u32 \<Rightarrow> u8 \<Rightarrow> (u32 \<Rightarrow> ('f UdsSecurityNvm \<times> 'f) UdsSecurityGate) \<Rightarrow> 'f UdsSecurityNvm \<Rightarrow> 'f \<Rightarrow> u32 \<Rightarrow>
     ('f UdsSecurityNvm \<times> 'f) UdsSecurityGate option" where
  "boot_gate junk port base sectors fresh nvm f now = do {
     (_, nvm, f) \<leftarrow> uds_security_nvm_init nvm (Some port) base sectors f;
     uds_security_nvm_attach junk (fresh now) (Some (nvm, f)) now }"

definition power_cycle ::
  "bytes \<Rightarrow> 'f UdsFlashPort \<Rightarrow> u32 \<Rightarrow> u8 \<Rightarrow> (u32 \<Rightarrow> ('f UdsSecurityNvm \<times> 'f) UdsSecurityGate) \<Rightarrow>
     ('f UdsSecurityNvm \<times> 'f) UdsSecurityGate \<Rightarrow> u32 \<Rightarrow> ('f UdsSecurityNvm \<times> 'f) UdsSecurityGate option" where
  "power_cycle junk port base sectors fresh gate now =
     (case persist_context gate of
        None \<Rightarrow> None
      | Some (nvm, f) \<Rightarrow> boot_gate junk port base sectors fresh nvm f now)"

text \<open>Wrong keys whose count was stored, at the given times, with a power cycle before each one that is marked.\<close>

primrec guesses ::
  "bytes \<Rightarrow> 'f UdsFlashPort \<Rightarrow> u32 \<Rightarrow> u8 \<Rightarrow> (u32 \<Rightarrow> ('f UdsSecurityNvm \<times> 'f) UdsSecurityGate) \<Rightarrow>
     ('f UdsSecurityNvm \<times> 'f) UdsSecurityGate \<Rightarrow> (bool \<times> u32) list \<Rightarrow> ('f UdsSecurityNvm \<times> 'f) UdsSecurityGate option" where
  "guesses junk port base sectors fresh g [] = Some g"
| "guesses junk port base sectors fresh g (x # xs) = do {
     g \<leftarrow> (if fst x then power_cycle junk port base sectors fresh g (snd x) else Some g);
     (if failure_stored g (snd x)
      then guesses junk port base sectors fresh (uds_security_gate_record_failure g (snd x)) xs else None) }"

text \<open>The remaining time that is stored with \<open>k\<close> failures.\<close>

definition rem_ok :: "u8 \<Rightarrow> u32 \<Rightarrow> u8 \<Rightarrow> u32 \<Rightarrow> bool" where
  "rem_ok m l k r \<longleftrightarrow> r = 0 \<or> \<not> k < m \<and> r = l"

text \<open>A gate with \<open>k\<close> failures that the storage knows of.\<close>

definition gate_at ::
  "'f UdsFlashPort \<Rightarrow> u32 \<Rightarrow> u8 \<Rightarrow> ('f \<Rightarrow> u32 \<Rightarrow> u8) \<Rightarrow> u8 \<Rightarrow> u32 \<Rightarrow> u8 \<Rightarrow> ('f UdsSecurityNvm \<times> 'f) UdsSecurityGate \<Rightarrow> bool" where
  "gate_at port base sectors content m l k g \<longleftrightarrow> persist_fn g = Some nvm_save_fn \<and> max_attempts g = m \<and>
     lockout_ms g = l \<and> failed_attempts g = k \<and> (k < m \<longrightarrow> \<not> lockout_active g) \<and>
     (\<exists>nvm f r. persist_context g = Some (nvm, f) \<and> nvm_open port base sectors content True nvm f (sec_value k r) \<and>
        rem_ok m l k r)"

lemma fresh_gate_fields:
  assumes "0 < m"
  shows "max_attempts (fresh_gate i lo se m t) = m" "failed_attempts (fresh_gate i lo se m t) = 0"
    "lockout_ms (fresh_gate i lo se m t) = (if lo = 0 then 10000 else if lo < 1000 then 1000 else lo)"
    "\<not> lockout_active (fresh_gate i lo se m t)"
  using assms by (simp_all add: fresh_gate_def uds_security_gate_set_timing_def uds_security_gate_init_def)

lemma boot_restores:
  fixes fresh :: "u32 \<Rightarrow> ('f UdsSecurityNvm \<times> 'f) UdsSecurityGate"
  assumes "store_rest port base sectors 16 content tidy f (sec_value k r)" "rem_ok m l k r"
    and "max_attempts (fresh t) = m" "failed_attempts (fresh t) = 0" "lockout_ms (fresh t) = l" "\<not> lockout_active (fresh t)"
    and "0 < m"
  shows "\<exists>g. boot_gate junk port base sectors fresh nvm f t = Some g \<and> failed_attempts g = k \<and>
     (k \<ge> m \<longrightarrow> lockout_active g \<and> lockout_until_ms g = t + l \<and> gate_state g = UDS_SECURITY_STATE_LOCKOUT) \<and>
     (tidy \<longrightarrow> gate_at port base sectors content m l k g)"
proof -
  from nvm_init_opens[OF assms(1), of nvm] obtain nvm1 f1 where i:
    "uds_security_nvm_init nvm (Some port) base sectors f = Some (True, nvm1, f1)"
    "nvm_open port base sectors content tidy nvm1 f1 (sec_value k r)" by blast
  let ?g = "\<lambda>f'. uds_security_gate_set_persistence (fresh t) (Some nvm_save_fn) (Some (nvm1, f'))"
  from nvm_attach_restores[OF i(2) refl, of junk "fresh t" t] obtain f2 where a:
    "nvm_open port base sectors content tidy nvm1 f2 (sec_value k r)"
    "uds_security_nvm_attach junk (fresh t) (Some (nvm1, f1)) t =
       Some (if k = 0 then ?g f2 else uds_security_gate_restore_state (?g f2) k r t)"
    by (auto simp: Let_def)
  let ?r = "if k = 0 then ?g f2 else uds_security_gate_restore_state (?g f2) k r t"
  have b: "boot_gate junk port base sectors fresh nvm f t = Some ?r" using i(1) a(2) by (simp add: boot_gate_def)
  have f: "persist_fn ?r = Some nvm_save_fn" "max_attempts ?r = m" "lockout_ms ?r = l" "failed_attempts ?r = k"
    "persist_context ?r = Some (nvm1, f2)"
    using assms(3-5) by (auto simp: uds_security_gate_set_persistence_def uds_security_gate_restore_state_def Let_def)
  have l1: "lockout_active ?r \<and> lockout_until_ms ?r = t + l \<and> gate_state ?r = UDS_SECURITY_STATE_LOCKOUT" if "k \<ge> m"
  proof -
    have "r = 0 \<or> r = l" "k \<noteq> 0" using that assms(2,7) by (auto simp: rem_ok_def)
    then show ?thesis
      using that assms(3,5,7) by (auto simp: uds_security_gate_set_persistence_def uds_security_gate_restore_state_def Let_def word_gt_0)
  qed
  have l2: "\<not> lockout_active ?r" if "k < m"
    using that assms(2,3,6) by (auto simp: rem_ok_def uds_security_gate_set_persistence_def uds_security_gate_restore_state_def Let_def)
  define g where "g = ?r"
  note fg = f[folded g_def] l2[folded g_def]
  have "gate_at port base sectors content m l k g" if tidy
    using fg a(1) assms(2) that by (simp only: gate_at_def) blast
  then show ?thesis using b[folded g_def] l1[folded g_def] fg by blast
qed

text \<open>One wrong key.\<close>

lemma failure_step:
  assumes "gate_at port base sectors content m l k g" "k < m" "l \<noteq> 0"
  shows "\<exists>nvm f v. persist_context (uds_security_gate_record_failure g t) = Some (nvm, f) \<and>
     (failure_stored g t \<and> gate_at port base sectors content m l (k + 1) (uds_security_gate_record_failure g t) \<and>
        store_rest port base sectors 16 content True f v \<and> (\<exists>r. v = sec_value (k + 1) r \<and> rem_ok m l (k + 1) r) \<or>
      \<not> failure_stored g t \<and> gate_state (uds_security_gate_record_failure g t) = UDS_SECURITY_STATE_LOCKOUT \<and>
        store_rest port base sectors 16 content False f v \<and>
        (v = sec_value k 0 \<or> (\<exists>r. v = sec_value (k + 1) r \<and> rem_ok m l (k + 1) r)))"
proof -
  obtain nvm f where g: "persist_fn g = Some nvm_save_fn" "max_attempts g = m" "lockout_ms g = l" "failed_attempts g = k"
    "\<not> lockout_active g" "persist_context g = Some (nvm, f)" "nvm_open port base sectors content True nvm f (sec_value k 0)"
    using assms(1,2) by (auto simp: gate_at_def rem_ok_def)
  let ?c = "counted g t" and ?r = "lock_remaining (counted g t) t"
  have "unat k < 255" using assms(2) unat_u8_lt[of m] unfolding word_less_nat_alt by linarith
  then have k1: "k + 1 \<noteq> 0" by (simp add: word_unat_eq_iff unat_word_ariths)
  have locked: "lockout_active ?c \<longleftrightarrow> \<not> k + 1 < m"
    using g assms(3) by (simp add: counted_def Let_def uds_security_gate_invalidate_seed_def not_less)
  have until: "lockout_until_ms ?c = t + l" if "\<not> k + 1 < m"
    using that g by (simp add: counted_def Let_def uds_security_gate_invalidate_seed_def not_less)
  have r: "rem_ok m l (k + 1) ?r"
    using locked until by (auto simp: lock_remaining_def rem_ok_def)
  let ?v = "Some (security_bytes (security_record (k + 1) ?r))"
  have v: "?v = sec_value (k + 1) ?r" using k1 by (simp add: sec_value_def)
  from nvm_persist_step[OF g(7), of "k + 1" ?r] obtain ok nvm' f' where p:
    "nvm_save_fn (Some (nvm, f)) (k + 1) ?r = (ok, Some (nvm', f'))"
    "ok \<and> nvm_open port base sectors content True nvm' f' ?v \<or>
     \<not> ok \<and> (store_rest port base sectors 16 content False f' (sec_value k 0) \<or> store_rest port base sectors 16 content False f' ?v)"
    by blast
  have c: "persist ?c (failed_attempts ?c) ?r = (ok, ?c\<lparr> persist_context := Some (nvm', f') \<rparr>)"
    using p(1) g by (simp add: persist_def counted_fields)
  then have st: "failure_stored g t = ok" by (simp add: failure_stored_def)
  show ?thesis
  proof (cases ok)
    case True
    then have o: "nvm_open port base sectors content True nvm' f' (sec_value (k + 1) ?r)" using p(2) v by simp
    then have "store_rest port base sectors 16 content True f' (sec_value (k + 1) ?r)"
      by (auto simp: nvm_open_def intro: wl.rests)
    moreover have rf: "uds_security_gate_record_failure g t = ?c\<lparr> persist_context := Some (nvm', f') \<rparr>"
      using c True by (simp add: record_failure_split)
    moreover have "gate_at port base sectors content m l (k + 1) (?c\<lparr> persist_context := Some (nvm', f') \<rparr>)"
      using g locked o r by (auto simp: gate_at_def counted_fields)
    ultimately show ?thesis using st True r by fastforce
  next
    case False
    then have "gate_state (uds_security_gate_record_failure g t) = UDS_SECURITY_STATE_LOCKOUT"
      "persist_context (uds_security_gate_record_failure g t) = Some (nvm', f')"
      using c by (simp_all add: record_failure_split)
    then show ?thesis using st False p(2) r unfolding v by blast
  qed
qed

lemma unat_Suc_8:
  assumes "k < (m :: u8)"
  shows "unat (k + 1) = unat k + 1"
proof -
  have "unat k < 255" using assms unat_u8_lt[of m] unfolding word_less_nat_alt by linarith
  then show ?thesis by (simp add: unat_word_ariths)
qed

lemma guesses_count:
  fixes fresh :: "u32 \<Rightarrow> ('f UdsSecurityNvm \<times> 'f) UdsSecurityGate"
  assumes fresh: "\<And>t. max_attempts (fresh t) = m" "\<And>t. failed_attempts (fresh t) = 0" "\<And>t. lockout_ms (fresh t) = l"
      "\<And>t. \<not> lockout_active (fresh t)" and "0 < m" "l \<noteq> 0"
  shows "gate_at port base sectors content m l k g \<Longrightarrow> unat k + length xs \<le> unat m \<Longrightarrow>
    guesses junk port base sectors fresh g xs = Some g' \<Longrightarrow>
    gate_at port base sectors content m l (failed_attempts g') g' \<and> unat (failed_attempts g') = unat k + length xs"
proof (induction xs arbitrary: g k)
  case Nil
  then show ?case by (simp add: gate_at_def)
next
  case (Cons x xs)
  have k: "k < m" using Cons.prems(2) by (simp add: word_less_nat_alt)
  obtain g1 where g1: "(if fst x then power_cycle junk port base sectors fresh g (snd x) else Some g) = Some g1"
    "failure_stored g1 (snd x)" "guesses junk port base sectors fresh (uds_security_gate_record_failure g1 (snd x)) xs = Some g'"
    using Cons.prems(3) by (auto split: Option.bind_splits if_splits)
  have at: "gate_at port base sectors content m l k g1"
  proof (cases "fst x")
    case True
    obtain nvm f r where c: "persist_context g = Some (nvm, f)" "nvm_open port base sectors content True nvm f (sec_value k r)"
      "rem_ok m l k r" using Cons.prems(1) by (auto simp: gate_at_def)
    have "store_rest port base sectors 16 content True f (sec_value k r)" using c(2) by (auto simp: nvm_open_def intro: wl.rests)
    from boot_restores[where fresh = fresh and t = "snd x", OF this c(3) fresh assms(5), of junk nvm]
    show ?thesis using g1(1) True c(1) by (auto simp: power_cycle_def)
  qed (use g1(1) Cons.prems(1) in auto)
  from failure_step[OF at k assms(6), of "snd x"] g1(2)
  have at1: "gate_at port base sectors content m l (k + 1) (uds_security_gate_record_failure g1 (snd x))" by blast
  have "unat (k + 1) + length xs \<le> unat m" using Cons.prems(2) unat_Suc_8[OF k] by simp
  from Cons.IH[OF at1 this g1(3)] show ?case using unat_Suc_8[OF k] by simp
qed

text \<open> C19.
  No fresh guesses. Starting from a blank flash, with \<open>length xs\<close> wrong keys below the maximum whose count was stored,
  and power cycles before any of them, the gate has counted them all. After one more wrong key and a power cycle - the
  save may have been interrupted anywhere - the gate boots either with the key counted, and then in the full lockout
  when it was the last permitted one, or, only if the storage did not acknowledge the write, with the key not counted;
  the gate that saw the write fail was in lockout until the power cycle.
\<close>

theorem lockout_survives_power_cycles:
  fixes initial lockout seed :: u32 and m :: u8 and nvm :: "'f UdsSecurityNvm"
  assumes "store_fits port base sectors 16" "flash_ok port content (the (port_sector_size port) base)"
    and "\<forall>p < slot_total (configured port base sectors 16). slot_header (configured port base sectors 16)
           (slot_bytes (configured port base sectors 16) (content f) p) = None"
    and "length xs < unat m"
  defines "fresh \<equiv> (\<lambda>t. fresh_gate initial lockout seed m t :: ('f UdsSecurityNvm \<times> 'f) UdsSecurityGate)"
  shows "\<exists>g0. boot_gate junk port base sectors fresh nvm f t0 = Some g0 \<and>
     (\<forall>g. guesses junk port base sectors fresh g0 xs = Some g \<longrightarrow> unat (failed_attempts g) = length xs \<and>
        (\<exists>g2. power_cycle junk port base sectors fresh (uds_security_gate_record_failure g t) t2 = Some g2 \<and>
           (unat (failed_attempts g2) = length xs + 1 \<and>
              (length xs + 1 = unat m \<longrightarrow> lockout_active g2 \<and> gate_state g2 = UDS_SECURITY_STATE_LOCKOUT \<and>
                 lockout_until_ms g2 = t2 + lockout_ms (fresh t2)) \<or>
            \<not> failure_stored g t \<and> unat (failed_attempts g2) = length xs \<and>
              gate_state (uds_security_gate_record_failure g t) = UDS_SECURITY_STATE_LOCKOUT)))"
proof -
  let ?l = "if lockout = 0 then 10000 else if lockout < 1000 then 1000 else lockout"
  have m: "0 < m" using assms(4) by (simp add: word_less_nat_alt)
  have fr: "max_attempts (fresh t) = m" "failed_attempts (fresh t) = 0" "lockout_ms (fresh t) = ?l" "\<not> lockout_active (fresh t)" for t
    unfolding fresh_def by (fact fresh_gate_fields[OF m])+
  have l: "?l \<noteq> 0" by auto
  have "store_rest port base sectors 16 content True f (sec_value 0 0)"
    using blank_rest[OF assms(1-3)] by (simp add: sec_value_def)
  from boot_restores[where fresh = fresh and t = t0 and k = 0 and l = ?l, OF this _ fr m, of junk nvm] m rem_ok_def[of m ?l 0 0] obtain g0 where
    b: "boot_gate junk port base sectors fresh nvm f t0 = Some g0" "gate_at port base sectors content m ?l 0 g0" by auto
  have "unat (failed_attempts g) = length xs \<and>
     (\<exists>g2. power_cycle junk port base sectors fresh (uds_security_gate_record_failure g t) t2 = Some g2 \<and>
        (unat (failed_attempts g2) = length xs + 1 \<and>
           (length xs + 1 = unat m \<longrightarrow> lockout_active g2 \<and> gate_state g2 = UDS_SECURITY_STATE_LOCKOUT \<and>
              lockout_until_ms g2 = t2 + lockout_ms (fresh t2)) \<or>
         \<not> failure_stored g t \<and> unat (failed_attempts g2) = length xs \<and>
           gate_state (uds_security_gate_record_failure g t) = UDS_SECURITY_STATE_LOCKOUT))"
    if "guesses junk port base sectors fresh g0 xs = Some g" for g
  proof -
    define k where "k = failed_attempts g"
    from guesses_count[where fresh = fresh, OF fr m l b(2) _ that] assms(4)
    have g: "gate_at port base sectors content m ?l k g" "unat k = length xs" by (simp_all add: k_def)
    have km: "k < m" using g(2) assms(4) by (simp add: word_less_nat_alt)
    from failure_step[OF g(1) km l, of t] obtain nvm1 f1 v where
      c: "persist_context (uds_security_gate_record_failure g t) = Some (nvm1, f1)"
      and out: "store_rest port base sectors 16 content True f1 v \<and> (\<exists>r. v = sec_value (k + 1) r \<and> rem_ok m ?l (k + 1) r) \<or>
        \<not> failure_stored g t \<and> gate_state (uds_security_gate_record_failure g t) = UDS_SECURITY_STATE_LOCKOUT \<and>
        store_rest port base sectors 16 content False f1 v \<and>
        (v = sec_value k 0 \<or> (\<exists>r. v = sec_value (k + 1) r \<and> rem_ok m ?l (k + 1) r))" by blast
    from out consider (new) tidy r where "store_rest port base sectors 16 content tidy f1 (sec_value (k + 1) r)" "rem_ok m ?l (k + 1) r"
      | (old) "store_rest port base sectors 16 content False f1 (sec_value k 0)" "\<not> failure_stored g t"
          "gate_state (uds_security_gate_record_failure g t) = UDS_SECURITY_STATE_LOCKOUT" by blast
    then obtain k1 r tidy where s: "store_rest port base sectors 16 content tidy f1 (sec_value k1 r)" "rem_ok m ?l k1 r"
      "k1 = k + 1 \<or> \<not> failure_stored g t \<and> k1 = k \<and> gate_state (uds_security_gate_record_failure g t) = UDS_SECURITY_STATE_LOCKOUT"
      by cases (use that in \<open>auto simp: rem_ok_def\<close>)
    from boot_restores[where fresh = fresh and t = t2, OF s(1,2) fr m, of junk nvm1] obtain g2 where
      g2: "power_cycle junk port base sectors fresh (uds_security_gate_record_failure g t) t2 = Some g2" "failed_attempts g2 = k1"
        "k1 \<ge> m \<longrightarrow> lockout_active g2 \<and> lockout_until_ms g2 = t2 + ?l \<and> gate_state g2 = UDS_SECURITY_STATE_LOCKOUT"
      using c by (auto simp: power_cycle_def)
    show ?thesis
      using g2 s(3) g(2) unat_Suc_8[OF km] fr(3) by (auto simp: k_def word_le_nat_alt)
  qed
  then show ?thesis using b(1) by blast
qed

theorem lockout_survives_power_cycles_witness:
  fixes fresh
  defines "fresh \<equiv> (\<lambda>t. fresh_gate 0 10000 5000 2 t :: (((u32 \<Rightarrow> u8) \<times> nat) UdsSecurityNvm \<times> ((u32 \<Rightarrow> u8) \<times> nat)) UdsSecurityGate)"
  shows "\<exists>g0. boot_gate [] nor_port 0 2 fresh \<lparr> nvm_store = zero_store, nvm_ready = False \<rparr> (\<lambda>_. 0xFF, 100) 0 = Some g0 \<and>
     (\<forall>g. guesses [] nor_port 0 2 fresh g0 [(True, 100)] = Some g \<longrightarrow> failed_attempts g = 1 \<and>
        (\<exists>g2. power_cycle [] nor_port 0 2 fresh (uds_security_gate_record_failure g 200) 5 = Some g2 \<and>
           (failed_attempts g2 = 2 \<and> lockout_active g2 \<and> gate_state g2 = UDS_SECURITY_STATE_LOCKOUT \<and> lockout_until_ms g2 = 10005 \<or>
            \<not> failure_stored g 200 \<and> failed_attempts g2 = 1 \<and>
              gate_state (uds_security_gate_record_failure g 200) = UDS_SECURITY_STATE_LOCKOUT)))"
proof -
  have rooms: "header_room 2 = 16" "slot_room 2 16 = 32"
    by (simp_all add: header_room_def slot_room_def align_up_def)
  have fits: "store_fits nor_port 0 2 16"
    by (simp add: store_fits_def Let_def port_granule_def nor_port_def validate_init_args_def rooms)
  have blank: "slot_header (configured nor_port 0 2 16)
      (slot_bytes (configured nor_port 0 2 16) (fst (\<lambda>_. 0xFF, 100 :: nat)) p) = None" for p
    using erased_slot_invalid[OF geometry_configured(1)[OF fits]]
    by (simp add: slot_bytes_def memory_at_def map_replicate_const)
  have ok: "flash_ok nor_port fst (the (port_sector_size nor_port) 0)"
    using nor_flash_ok by (simp add: nor_port_def)
  have one: "unat (w :: u8) = Suc 0 \<longleftrightarrow> w = 1" "unat w = Suc (Suc 0) \<longleftrightarrow> w = 2" for w
    by (auto simp: word_unat_eq_iff)
  have timing: "lockout_ms (fresh_gate 0 10000 5000 2 5 :: (((u32 \<Rightarrow> u8) \<times> nat) UdsSecurityNvm \<times> ((u32 \<Rightarrow> u8) \<times> nat)) UdsSecurityGate) = 10000"
    by (simp add: fresh_gate_fields(3))
  show ?thesis
    using lockout_survives_power_cycles[where port = nor_port and base = 0 and sectors = 2 and content = fst
        and f = "(\<lambda>_. 0xFF, 100)" and m = 2 and xs = "[(True, 100)]" and initial = 0 and lockout = 10000 and seed = 5000
        and junk = "[]" and nvm = "\<lparr> nvm_store = zero_store, nvm_ready = False \<rparr>" and ?t0.0 = 0 and t = 200 and ?t2.0 = 5]
      fits ok blank timing
    unfolding fresh_def by (simp add: one del: guesses.simps)
qed

end
