(* ===== verification/Dtc_App.thy ===== *)
theory Dtc_App
  imports Uds_Backends Layout Wear_Leveling
begin

text \<open>
  The fault memory of the application (\<open>App/Src/uds_dtc_app.c\<close>): 69 predefined trouble codes with
  a status in RAM, up to 11 more that are registered at run time, the reports of ReadDTCInformation,
  clearing, debouncing, and the copy in the parameter store. The report functions append to the
  response; here they map the bytes written so far to those afterwards. \<open>None\<close> is undefined behaviour.
\<close>

section \<open>State\<close>

definition UDS_DTC_APP_MAX_RECORDS :: nat where "UDS_DTC_APP_MAX_RECORDS = 80"
definition UDS_DTC_APP_SNAPSHOT_SIZE :: nat where "UDS_DTC_APP_SNAPSHOT_SIZE = 16"
definition UDS_DTC_APP_EXTENDED_SIZE :: nat where "UDS_DTC_APP_EXTENDED_SIZE = 8"
definition UDS_DTC_STATIC_COUNT :: nat where "UDS_DTC_STATIC_COUNT = 69"
definition UDS_DTC_DYNAMIC_MAX :: nat where "UDS_DTC_DYNAMIC_MAX = UDS_DTC_APP_MAX_RECORDS - UDS_DTC_STATIC_COUNT"

definition UDS_DTC_STATUS_TEST_FAILED :: u8 where "UDS_DTC_STATUS_TEST_FAILED = 0x01"
definition UDS_DTC_STATUS_TEST_FAILED_THIS_CYCLE :: u8 where "UDS_DTC_STATUS_TEST_FAILED_THIS_CYCLE = 0x02"
definition UDS_DTC_STATUS_PENDING :: u8 where "UDS_DTC_STATUS_PENDING = 0x04"
definition UDS_DTC_STATUS_CONFIRMED :: u8 where "UDS_DTC_STATUS_CONFIRMED = 0x08"
definition UDS_DTC_STATUS_TEST_NOT_COMPLETED_SLC :: u8 where "UDS_DTC_STATUS_TEST_NOT_COMPLETED_SLC = 0x10"
definition UDS_DTC_STATUS_TEST_FAILED_SLC :: u8 where "UDS_DTC_STATUS_TEST_FAILED_SLC = 0x20"
definition UDS_DTC_STATUS_TEST_NOT_COMPLETED_TOC :: u8 where "UDS_DTC_STATUS_TEST_NOT_COMPLETED_TOC = 0x40"
definition UDS_DTC_STATUS_CLEARED :: u8 where
  "UDS_DTC_STATUS_CLEARED = UDS_DTC_STATUS_TEST_NOT_COMPLETED_SLC OR UDS_DTC_STATUS_TEST_NOT_COMPLETED_TOC"

text \<open>A signed counter is a byte that is read with \<open>sint\<close>; a null pointer to data is the empty list.\<close>

record UdsDtcRomDef =
  rom_dtc_number :: u32
  rom_severity :: u8
  rom_functional_unit :: u8
  default_status :: u8
  default_fault_counter :: u8
  default_occurrence_counter :: u8
  default_aging_counter :: u8
  default_active :: bool
  rom_snapshot_data :: bytes
  rom_snapshot_length :: u8
  rom_extended_data :: bytes
  rom_extended_length :: u8

record UdsDtcRamStatus =
  status_byte :: u8
  fault_counter :: u8
  occurrence_counter :: u8
  pending_counter :: u8
  aging_counter :: u8
  aged_counter :: u8
  dtc_active :: bool
  has_snapshot :: bool
  snapshot_record_num :: u8
  snapshot_length :: u8
  snapshot_data :: bytes
  extended_data :: bytes
  extended_length :: u8

record UdsDtcDynamicRecord =
  dyn_dtc_number :: u32
  dyn_severity :: u8
  dyn_functional_unit :: u8
  dyn_status :: UdsDtcRamStatus

record UdsDtcAppRecord =
  rec_dtc_number :: u32
  rec_severity :: u8
  rec_functional_unit :: u8
  rec_status_byte :: u8
  rec_fault_counter :: u8
  rec_occurrence_counter :: u8
  rec_pending_counter :: u8
  rec_aging_counter :: u8
  rec_aged_counter :: u8
  rec_active :: bool
  rec_has_snapshot :: bool
  rec_snapshot_record_num :: u8
  rec_snapshot_data :: bytes
  rec_snapshot_length :: u8
  rec_extended_data :: bytes
  rec_extended_length :: u8

text \<open>The backend structure in front of these fields is constant after the initialisation.\<close>

record 'f UdsDtcAppStorage =
  status_availability_mask :: u8
  static_status :: "UdsDtcRamStatus list"
  dynamic_records :: "UdsDtcDynamicRecord list"
  dynamic_count :: u8
  dtc_setting_enabled :: bool
  nvm_store :: "'f UdsParamStore option"

section \<open>The predefined trouble codes\<close>

definition rom_oem :: "u32 \<Rightarrow> u8 \<Rightarrow> UdsDtcRomDef" where
  "rom_oem number severity =
     \<lparr> rom_dtc_number = number, rom_severity = severity, rom_functional_unit = 1,
       default_status = UDS_DTC_STATUS_CLEARED, default_fault_counter = 0, default_occurrence_counter = 0,
       default_aging_counter = 0, default_active = False, rom_snapshot_data = [], rom_snapshot_length = 0,
       rom_extended_data = [], rom_extended_length = 0 \<rparr>"

definition s_p0100_snapshot :: bytes where "s_p0100_snapshot = [0x0C, 0x00, 0x32, 0x88]"
definition s_p0100_extended :: bytes where "s_p0100_extended = [0x05, 0x28]"
definition s_u0100_snapshot :: bytes where "s_u0100_snapshot = [0x00, 0x00]"
definition s_u0100_extended :: bytes where "s_u0100_extended = [0x01, 0x28]"
definition s_b0001_snapshot :: bytes where "s_b0001_snapshot = [0x12, 0x34]"
definition s_b0001_extended :: bytes where "s_b0001_extended = [0x02, 0x28]"

definition s_rom_dtc_defs :: "UdsDtcRomDef list" where
  "s_rom_dtc_defs =
    [
     rom_oem 0xF00614 0x80, rom_oem 0xF00615 0xA0, rom_oem 0xD00616 0x80, rom_oem 0xD00617 0xA0,
     rom_oem 0xD00618 0x80, rom_oem 0xD00619 0xA0, rom_oem 0xD00620 0x80, rom_oem 0xD00621 0xA0,
     rom_oem 0xD00622 0x80, rom_oem 0xD00623 0xA0, rom_oem 0xD00624 0x80, rom_oem 0xD00625 0xA0,
     rom_oem 0xD00626 0x80, rom_oem 0xD00627 0xA0, rom_oem 0xD00628 0x80, rom_oem 0xD00629 0xA0,
     rom_oem 0xD00630 0x80, rom_oem 0xD00631 0xA0, rom_oem 0xD00632 0x80, rom_oem 0xD00633 0xA0,
     rom_oem 0xD00634 0x80, rom_oem 0xD00635 0xA0, rom_oem 0xD00636 0x80, rom_oem 0xD00637 0xA0,
     rom_oem 0xD00638 0x80, rom_oem 0xD00639 0xA0, rom_oem 0xD00640 0x80, rom_oem 0xD00641 0xA0,
     rom_oem 0xD00642 0x80, rom_oem 0xD00643 0xA0, rom_oem 0xD00644 0x80, rom_oem 0xD00645 0xA0,
     rom_oem 0xD00646 0x80, rom_oem 0xD00647 0xA0, rom_oem 0xD00648 0x80, rom_oem 0xD00649 0xA0,
     rom_oem 0xD00650 0x80, rom_oem 0xD00651 0xA0, rom_oem 0xD00652 0x80, rom_oem 0xD00653 0xA0,
     rom_oem 0xD00654 0x80, rom_oem 0xD00655 0xA0, rom_oem 0xD00656 0x80, rom_oem 0xD00657 0xA0,
     rom_oem 0xD00658 0x80, rom_oem 0xD00659 0xA0, rom_oem 0xD00660 0x80, rom_oem 0xD00661 0xA0,
     rom_oem 0xD00662 0x80, rom_oem 0xD00663 0xA0, rom_oem 0xD00664 0x80, rom_oem 0xD00665 0xA0,
     rom_oem 0xD00666 0x80, rom_oem 0xD00667 0xA0, rom_oem 0xD00668 0x80, rom_oem 0xD00669 0x80,
     rom_oem 0xD00670 0xA0, rom_oem 0xD00671 0x80, rom_oem 0xD00672 0xA0, rom_oem 0xD00673 0x80,
     rom_oem 0xD00674 0xA0, rom_oem 0xD00675 0x80, rom_oem 0xD00676 0xA0, rom_oem 0xD00677 0x80,
     rom_oem 0xD00678 0xA0, rom_oem 0xD00679 0x80,
     \<lparr> rom_dtc_number = 0x010000, rom_severity = 0x40, rom_functional_unit = 1, default_status = 0x2F,
       default_fault_counter = 127, default_occurrence_counter = 5, default_aging_counter = 0x28,
       default_active = True, rom_snapshot_data = s_p0100_snapshot, rom_snapshot_length = 4,
       rom_extended_data = s_p0100_extended, rom_extended_length = 2 \<rparr>,
     \<lparr> rom_dtc_number = 0xC10000, rom_severity = 0x80, rom_functional_unit = 2, default_status = 0x08,
       default_fault_counter = 50, default_occurrence_counter = 1, default_aging_counter = 0x28,
       default_active = True, rom_snapshot_data = s_u0100_snapshot, rom_snapshot_length = 2,
       rom_extended_data = s_u0100_extended, rom_extended_length = 2 \<rparr>,
     \<lparr> rom_dtc_number = 0x800100, rom_severity = 0xA0, rom_functional_unit = 3, default_status = 0x01,
       default_fault_counter = 10, default_occurrence_counter = 2, default_aging_counter = 0x28,
       default_active = True, rom_snapshot_data = s_b0001_snapshot, rom_snapshot_length = 2,
       rom_extended_data = s_b0001_extended, rom_extended_length = 2 \<rparr>]"

section \<open>Records\<close>

definition get_total_record_count :: "'f UdsDtcAppStorage \<Rightarrow> u8" where
  "get_total_record_count st = of_nat UDS_DTC_STATIC_COUNT + dynamic_count st"

text \<open>\<open>None\<close>: the function returns false.\<close>

definition get_dtc_record :: "'f UdsDtcAppStorage \<Rightarrow> nat \<Rightarrow> UdsDtcAppRecord option" where
  "get_dtc_record st index =
     (if index < UDS_DTC_STATIC_COUNT then do {
        let rom = s_rom_dtc_defs ! index;
        ram \<leftarrow> peek (static_status st) index;
        Some \<lparr> rec_dtc_number = rom_dtc_number rom, rec_severity = rom_severity rom,
          rec_functional_unit = rom_functional_unit rom, rec_status_byte = status_byte ram,
          rec_fault_counter = fault_counter ram, rec_occurrence_counter = occurrence_counter ram,
          rec_pending_counter = pending_counter ram, rec_aging_counter = aging_counter ram,
          rec_aged_counter = aged_counter ram, rec_active = dtc_active ram,
          rec_has_snapshot = (if has_snapshot ram then True else rom_snapshot_length rom > 0),
          rec_snapshot_record_num = (if has_snapshot ram then snapshot_record_num ram else 1),
          rec_snapshot_data = (if has_snapshot ram then snapshot_data ram else rom_snapshot_data rom),
          rec_snapshot_length = (if has_snapshot ram then snapshot_length ram else rom_snapshot_length rom),
          rec_extended_data = (if extended_length ram > 0 then extended_data ram else rom_extended_data rom),
          rec_extended_length = (if extended_length ram > 0 then extended_length ram else rom_extended_length rom) \<rparr>
      }
      else
        let d = index - UDS_DTC_STATIC_COUNT in
        if d < unat (dynamic_count st) then do {
          dyn \<leftarrow> peek (dynamic_records st) d;
          let ram = dyn_status dyn;
          Some \<lparr> rec_dtc_number = dyn_dtc_number dyn, rec_severity = dyn_severity dyn,
            rec_functional_unit = dyn_functional_unit dyn, rec_status_byte = status_byte ram,
            rec_fault_counter = fault_counter ram, rec_occurrence_counter = occurrence_counter ram,
            rec_pending_counter = pending_counter ram, rec_aging_counter = aging_counter ram,
            rec_aged_counter = aged_counter ram, rec_active = dtc_active ram,
            rec_has_snapshot = has_snapshot ram, rec_snapshot_record_num = snapshot_record_num ram,
            rec_snapshot_data = snapshot_data ram, rec_snapshot_length = snapshot_length ram,
            rec_extended_data = extended_data ram, rec_extended_length = extended_length ram \<rparr>
        }
        else None)"

definition get_dtc_ram_status :: "'f UdsDtcAppStorage \<Rightarrow> nat \<Rightarrow> UdsDtcRamStatus option" where
  "get_dtc_ram_status st index =
     (if index < UDS_DTC_STATIC_COUNT then peek (static_status st) index
      else
        let d = index - UDS_DTC_STATIC_COUNT in
        if d < unat (dynamic_count st) then map_option dyn_status (peek (dynamic_records st) d) else None)"

text \<open>A write through the pointer \<open>get_dtc_ram_status\<close> returned.\<close>

definition put_dtc_ram_status :: "nat \<Rightarrow> UdsDtcRamStatus \<Rightarrow> 'f UdsDtcAppStorage \<Rightarrow> 'f UdsDtcAppStorage" where
  "put_dtc_ram_status index ram st =
     (if index < UDS_DTC_STATIC_COUNT then st\<lparr> static_status := (static_status st)[index := ram] \<rparr>
      else
        let d = index - UDS_DTC_STATIC_COUNT in
        st\<lparr> dynamic_records := (dynamic_records st)[d := (dynamic_records st ! d)\<lparr> dyn_status := ram \<rparr>] \<rparr>)"

primrec scan_from :: "u32 \<Rightarrow> u32 list \<Rightarrow> nat \<Rightarrow> nat option" where
  "scan_from dtc [] i = None"
| "scan_from dtc (x # xs) i = (if x = dtc then Some i else scan_from dtc xs (i + 1))"

text \<open>\<open>None\<close> is -1.\<close>

definition find_dtc_index :: "'f UdsDtcAppStorage \<Rightarrow> u32 \<Rightarrow> nat option" where
  "find_dtc_index st dtc =
     (case scan_from dtc (map rom_dtc_number s_rom_dtc_defs) 0 of
        Some i \<Rightarrow> Some i
      | None \<Rightarrow> scan_from dtc (map dyn_dtc_number (take (unat (dynamic_count st)) (dynamic_records st))) UDS_DTC_STATIC_COUNT)"

section \<open>Appending to a response\<close>

type_synonym append_fn = "bytes \<Rightarrow> (bool \<times> bytes) option"

text \<open>The operator \<open>&&\<close> between two appends.\<close>

definition both :: "append_fn \<Rightarrow> append_fn \<Rightarrow> append_fn" where
  "both f g out = do { (ok, out) \<leftarrow> f out; if ok then g out else Some (False, out) }"

definition append_byte :: "u16 \<Rightarrow> u8 \<Rightarrow> append_fn" where
  "append_byte cap v out = Some (if length out \<ge> unat cap then (False, out) else (True, out @ [v]))"

definition append_dtc :: "u16 \<Rightarrow> UdsDtcAppRecord \<Rightarrow> append_fn" where
  "append_dtc cap rec =
     both (append_byte cap (ucast (drop_bit 16 (rec_dtc_number rec))))
       (both (append_byte cap (ucast (drop_bit 8 (rec_dtc_number rec))))
         (both (append_byte cap (ucast (rec_dtc_number rec))) (append_byte cap (rec_status_byte rec))))"

text \<open>\<open>None\<close>: the copy reads past the source.\<close>

definition append_bytes :: "u16 \<Rightarrow> bytes \<Rightarrow> nat \<Rightarrow> append_fn" where
  "append_bytes cap src count out =
     (if length out + count > unat cap then Some (False, out)
      else if length src < count then None
      else Some (True, out @ take count src))"

definition s_default_obd_snapshot :: bytes where
  "s_default_obd_snapshot = [0x01, 0x01, 0x00, 120, 0x03, 0x00, 0x00, 0x12, 0x01, 0x01, 24]"

definition append_snapshot_payload :: "u16 \<Rightarrow> UdsDtcAppRecord \<Rightarrow> append_fn" where
  "append_snapshot_payload cap rec =
     (if rec_snapshot_length rec > 0 then
        both (append_bytes cap (if rec_snapshot_length rec = 8 then [0x01, 0x01, 0x00] else [0x01, 0xDF, 0x00]) 3)
          (append_bytes cap (rec_snapshot_data rec) (unat (rec_snapshot_length rec)))
      else append_bytes cap s_default_obd_snapshot 11)"

text \<open>The loop over all records that most reports have; a failed append ends the report.\<close>

primrec record_loop ::
  "(UdsDtcAppRecord \<Rightarrow> append_fn) \<Rightarrow> 'f UdsDtcAppStorage \<Rightarrow> nat list \<Rightarrow> bytes \<Rightarrow> (UdsCallbackResult \<times> bytes) option" where
  "record_loop body st [] out = Some (UDS_RESULT_OK, out)"
| "record_loop body st (i # is) out = do {
     rec \<leftarrow> get_dtc_record st i;
     (ok, out) \<leftarrow> body rec out;
     (if ok then record_loop body st is out else Some (UDS_RESULT_RESPONSE_TOO_LONG, out)) }"

definition for_all_records ::
  "(UdsDtcAppRecord \<Rightarrow> append_fn) \<Rightarrow> 'f UdsDtcAppStorage \<Rightarrow> bytes \<Rightarrow> (UdsCallbackResult \<times> bytes) option" where
  "for_all_records body st = record_loop body st [0..<unat (get_total_record_count st)]"

definition when_append :: "bool \<Rightarrow> append_fn \<Rightarrow> append_fn" where
  "when_append b f out = (if b then f out else Some (True, out))"

text \<open>An append whose failure ends the report, and the rest of the report.\<close>

definition append_or_fail ::
  "append_fn \<Rightarrow> (bytes \<Rightarrow> (UdsCallbackResult \<times> bytes) option) \<Rightarrow> bytes \<Rightarrow> (UdsCallbackResult \<times> bytes) option" where
  "append_or_fail f rest out = do {
     (ok, out) \<leftarrow> f out;
     (if ok then rest out else Some (UDS_RESULT_RESPONSE_TOO_LONG, out)) }"

definition ok_report :: "bytes \<Rightarrow> (UdsCallbackResult \<times> bytes) option" where
  "ok_report out = Some (UDS_RESULT_OK, out)"


section \<open>Reports\<close>

text \<open>
  A report gets the storage, the subfunction, the request, the capacity of the response and the bytes
  before it.
\<close>

type_synonym 'f DtcSubfnHandler =
  "'f UdsDtcAppStorage \<Rightarrow> u8 \<Rightarrow> bytes \<Rightarrow> u16 \<Rightarrow> bytes \<Rightarrow> (UdsCallbackResult \<times> bytes) option"

text \<open>A request byte that may be absent, and the trouble code in bytes 2 to 4.\<close>

definition req_byte :: "bytes \<Rightarrow> nat \<Rightarrow> u8 \<Rightarrow> u8" where
  "req_byte request i absent = (if length request > i then request ! i else absent)"

definition req_dtc :: "bytes \<Rightarrow> u32" where
  "req_dtc request = push_bit 16 (ucast (request ! 2)) OR push_bit 8 (ucast (request ! 3)) OR ucast (request ! 4)"

primrec count_loop :: "'f UdsDtcAppStorage \<Rightarrow> u8 \<Rightarrow> nat list \<Rightarrow> u16 \<Rightarrow> u16 option" where
  "count_loop st status_mask [] count = Some count"
| "count_loop st status_mask (i # is) count = do {
     rec \<leftarrow> get_dtc_record st i;
     count_loop st status_mask is
       (if rec_active rec \<and> rec_status_byte rec AND status_mask \<noteq> 0 then count + 1 else count) }"

definition dtc_report_count_by_mask :: "'f DtcSubfnHandler" where
  "dtc_report_count_by_mask st sub request cap out = do {
     count \<leftarrow> count_loop st (req_byte request 2 0xFF) [0..<unat (get_total_record_count st)] 0;
     append_or_fail
       (append_bytes cap [status_availability_mask st, 1, ucast (drop_bit 8 count), ucast count] 4) ok_report out }"

text \<open>Built with \<open>UDS_DTC_19_0A_ONLY_ACTIVE_DTCS\<close> zero, its default.\<close>

definition dtc_report_list_by_mask :: "'f DtcSubfnHandler" where
  "dtc_report_list_by_mask st sub request cap =
     (let status_mask = req_byte request 2 0xFF in
      append_or_fail (append_byte cap (status_availability_mask st))
        (for_all_records (\<lambda>rec.
           when_append
             (if sub = 0x0A then True
              else if rec_active rec then
                if sub = 0x15 then rec_status_byte rec AND UDS_DTC_STATUS_CONFIRMED \<noteq> 0
                else rec_status_byte rec AND status_mask \<noteq> 0
              else False)
             (append_dtc cap rec)) st))"

definition dtc_report_snapshot_identification :: "'f DtcSubfnHandler" where
  "dtc_report_snapshot_identification st sub request cap =
     for_all_records (\<lambda>rec. when_append (rec_active rec) (both (append_dtc cap rec) (append_byte cap 1))) st"

definition append_matching_snapshot :: "u16 \<Rightarrow> UdsDtcAppRecord \<Rightarrow> u8 \<Rightarrow> append_fn" where
  "append_matching_snapshot cap rec req_record_num =
     when_append
       (rec_active rec \<and> (req_record_num = 0xFF \<or> req_record_num = 0 \<or> req_record_num = 1 \<or>
          rec_has_snapshot rec \<and> req_record_num = rec_snapshot_record_num rec))
       (both (append_byte cap (if req_record_num = 0xFF then 1 else req_record_num)) (append_snapshot_payload cap rec))"

definition dtc_report_snapshot_by_dtc :: "'f DtcSubfnHandler" where
  "dtc_report_snapshot_by_dtc st sub request cap out =
     (if length request < 5 then Some (UDS_RESULT_ERROR, out)
      else append_or_fail (when_append (sub = 0x18) (append_byte cap (req_byte request 6 0)))
        (\<lambda>out.
          let target_dtc = req_dtc request; req_record_num = req_byte request 5 0xFF in
          if target_dtc = 0xFFFFFF
          then for_all_records (\<lambda>rec. when_append (rec_active rec)
                 (both (append_dtc cap rec) (append_matching_snapshot cap rec req_record_num))) st out
          else case find_dtc_index st target_dtc of
            None \<Rightarrow> Some (UDS_RESULT_OUT_OF_RANGE, out)
          | Some idx \<Rightarrow> do {
              rec \<leftarrow> get_dtc_record st idx;
              append_or_fail (append_dtc cap rec)
                (append_or_fail (append_matching_snapshot cap rec req_record_num) ok_report) out })
        out)"

definition dtc_report_snapshot_by_record_number :: "'f DtcSubfnHandler" where
  "dtc_report_snapshot_by_record_number st sub request cap =
     (let req_record_num = req_byte request 2 1 in
      for_all_records (\<lambda>rec.
        when_append
          (rec_active rec \<and> (req_record_num = 0xFF \<or> req_record_num = 0 \<or> req_record_num = 1 \<or>
             rec_has_snapshot rec \<and> req_record_num = rec_snapshot_record_num rec))
          (both (append_dtc cap rec)
            (both (append_byte cap (if req_record_num = 0xFF then 1 else req_record_num))
              (append_snapshot_payload cap rec)))) st)"

text \<open>The four counters, with their record numbers.\<close>

definition k_ext_map :: "(u8 \<times> (UdsDtcAppRecord \<Rightarrow> u8)) list" where
  "k_ext_map = [(1, rec_occurrence_counter), (2, rec_pending_counter), (3, rec_aging_counter), (4, rec_aged_counter)]"

primrec ext_loop :: "u16 \<Rightarrow> UdsDtcAppRecord \<Rightarrow> u8 \<Rightarrow> (u8 \<times> (UdsDtcAppRecord \<Rightarrow> u8)) list \<Rightarrow> append_fn" where
  "ext_loop cap rec req_rec_num [] out = Some (True, out)"
| "ext_loop cap rec req_rec_num (e # es) out =
     both (when_append (req_rec_num = 0xFF \<or> req_rec_num = 0 \<or> req_rec_num = fst e)
            (both (append_byte cap (fst e)) (append_byte cap (snd e rec))))
       (ext_loop cap rec req_rec_num es) out"

definition append_single_extended_data :: "u16 \<Rightarrow> UdsDtcAppRecord \<Rightarrow> u8 \<Rightarrow> append_fn" where
  "append_single_extended_data cap rec req_rec_num = ext_loop cap rec req_rec_num k_ext_map"

definition dtc_report_extended_by_dtc :: "'f DtcSubfnHandler" where
  "dtc_report_extended_by_dtc st sub request cap out =
     (if length request < 5 then Some (UDS_RESULT_ERROR, out)
      else append_or_fail (when_append (sub = 0x19) (append_byte cap (req_byte request 6 0)))
        (\<lambda>out.
          let target_dtc = req_dtc request; req_rec_num = req_byte request 5 0xFF in
          if target_dtc = 0xFFFFFF
          then for_all_records (\<lambda>rec. when_append (rec_active rec)
                 (both (append_dtc cap rec) (append_single_extended_data cap rec req_rec_num))) st out
          else case find_dtc_index st target_dtc of
            None \<Rightarrow> Some (UDS_RESULT_OUT_OF_RANGE, out)
          | Some idx \<Rightarrow> do {
              rec \<leftarrow> get_dtc_record st idx;
              append_or_fail (append_dtc cap rec)
                (append_or_fail (when_append (rec_active rec) (append_single_extended_data cap rec req_rec_num)) ok_report) out })
        out)"

text \<open>An entry of the severity reports.\<close>

definition append_severity :: "u16 \<Rightarrow> UdsDtcAppRecord \<Rightarrow> append_fn" where
  "append_severity cap rec =
     both (append_byte cap (rec_severity rec)) (both (append_byte cap (rec_functional_unit rec)) (append_dtc cap rec))"

definition dtc_report_severity_record :: "'f DtcSubfnHandler" where
  "dtc_report_severity_record st sub request cap =
     (let status_mask = req_byte request 2 0xFF in
      append_or_fail (append_byte cap (status_availability_mask st))
        (for_all_records (\<lambda>rec.
           when_append (rec_active rec \<and> rec_status_byte rec AND status_mask \<noteq> 0) (append_severity cap rec)) st))"

definition dtc_report_severity_info_by_dtc :: "'f DtcSubfnHandler" where
  "dtc_report_severity_info_by_dtc st sub request cap out =
     (if length request < 5 then Some (UDS_RESULT_ERROR, out)
      else case find_dtc_index st (req_dtc request) of
        None \<Rightarrow> Some (UDS_RESULT_OUT_OF_RANGE, out)
      | Some idx \<Rightarrow> do {
          rec \<leftarrow> get_dtc_record st idx;
          append_or_fail (both (append_byte cap (status_availability_mask st)) (append_severity cap rec)) ok_report out })"

definition dtc_report_fault_detection_counter :: "'f DtcSubfnHandler" where
  "dtc_report_fault_detection_counter st sub request cap =
     for_all_records (\<lambda>rec.
       when_append (rec_active rec)
         (append_bytes cap [ucast (drop_bit 16 (rec_dtc_number rec)), ucast (drop_bit 8 (rec_dtc_number rec)),
            ucast (rec_dtc_number rec), rec_fault_counter rec] 4)) st"

definition dtc_report_ext_data_by_record_number :: "'f DtcSubfnHandler" where
  "dtc_report_ext_data_by_record_number st sub request cap =
     (let rec_num = req_byte request 2 1 in
      append_or_fail (append_byte cap rec_num)
        (for_all_records (\<lambda>rec.
           when_append (rec_active rec)
             (both (append_dtc cap rec)
               (both (append_byte cap rec_num)
                 (append_byte cap
                   (if rec_num = 2 then rec_pending_counter rec else if rec_num = 3 then rec_aging_counter rec
                    else if rec_num = 4 then rec_aged_counter rec else rec_occurrence_counter rec))))) st))"

definition dtc_report_user_def_memory_by_mask :: "'f DtcSubfnHandler" where
  "dtc_report_user_def_memory_by_mask st sub request cap =
     (let status_mask = req_byte request 2 0xFF; mem_selection = req_byte request 3 0 in
      append_or_fail (both (append_byte cap mem_selection) (append_byte cap (status_availability_mask st)))
        (for_all_records (\<lambda>rec.
           when_append (rec_active rec \<and> rec_status_byte rec AND status_mask \<noteq> 0) (append_dtc cap rec)) st))"

definition dtc_report_severity_mask_record :: "'f DtcSubfnHandler" where
  "dtc_report_severity_mask_record st sub request cap =
     (let group_id = req_byte request 2 0; req_status_mask = req_byte request 3 0xFF; req_severity_mask = req_byte request 4 0xFF in
      append_or_fail (both (append_byte cap group_id) (append_byte cap (status_availability_mask st)))
        (for_all_records (\<lambda>rec.
           when_append (rec_active rec \<and> rec_status_byte rec AND req_status_mask \<noteq> 0 \<and>
             rec_severity rec AND req_severity_mask \<noteq> 0) (append_severity cap rec)) st))"

definition dtc_report_wwh_obd_by_mask :: "'f DtcSubfnHandler" where
  "dtc_report_wwh_obd_by_mask st sub request cap =
     (let group_id = req_byte request 2 0 in
      append_or_fail (both (append_byte cap group_id) (append_byte cap (status_availability_mask st)))
        (for_all_records (\<lambda>rec.
           when_append (rec_active rec \<and> rec_status_byte rec AND UDS_DTC_STATUS_CONFIRMED \<noteq> 0)
             (append_severity cap rec)) st))"

definition k_dtc_subfns :: "(u8 \<times> u8 \<times> 'f DtcSubfnHandler) list" where
  "k_dtc_subfns =
    [(0x01, 2, dtc_report_count_by_mask), (0x02, 2, dtc_report_list_by_mask),
     (0x03, 2, dtc_report_snapshot_identification), (0x04, 5, dtc_report_snapshot_by_dtc),
     (0x05, 2, dtc_report_snapshot_by_record_number), (0x06, 5, dtc_report_extended_by_dtc),
     (0x07, 2, dtc_report_count_by_mask), (0x08, 2, dtc_report_severity_record),
     (0x09, 5, dtc_report_severity_info_by_dtc), (0x0A, 2, dtc_report_list_by_mask),
     (0x0B, 2, dtc_report_list_by_mask), (0x0C, 2, dtc_report_list_by_mask),
     (0x0D, 2, dtc_report_list_by_mask), (0x0E, 2, dtc_report_list_by_mask),
     (0x0F, 2, dtc_report_list_by_mask), (0x10, 5, dtc_report_extended_by_dtc),
     (0x11, 2, dtc_report_count_by_mask), (0x12, 2, dtc_report_count_by_mask),
     (0x13, 2, dtc_report_list_by_mask), (0x14, 2, dtc_report_fault_detection_counter),
     (0x15, 2, dtc_report_list_by_mask), (0x16, 2, dtc_report_ext_data_by_record_number),
     (0x17, 2, dtc_report_user_def_memory_by_mask), (0x18, 5, dtc_report_snapshot_by_dtc),
     (0x19, 5, dtc_report_extended_by_dtc), (0x42, 2, dtc_report_severity_mask_record),
     (0x55, 2, dtc_report_wwh_obd_by_mask)]"

text \<open>
  The result, the bytes written and the length, which stays as it was (here \<open>response_length\<close>) unless
  the report succeeds.
\<close>

definition uds_dtc_app_report ::
  "'f UdsDtcAppStorage \<Rightarrow> u8 \<Rightarrow> bytes \<Rightarrow> u16 \<Rightarrow> u16 \<Rightarrow> (UdsCallbackResult \<times> bytes \<times> u16) option" where
  "uds_dtc_app_report st sub request response_length cap =
     (if cap < 2 \<or> length request = 0 then Some (UDS_RESULT_ERROR, [], response_length)
      else case map_of k_dtc_subfns sub of
        None \<Rightarrow> Some (UDS_RESULT_OUT_OF_RANGE, [], response_length)
      | Some (min_request_length, handler) \<Rightarrow>
          if length request < unat min_request_length then Some (UDS_RESULT_ERROR, [], response_length)
          else do {
            (ok, out) \<leftarrow> append_byte cap sub [];
            (if \<not> ok then Some (UDS_RESULT_ERROR, out, response_length)
             else do {
               (res, out) \<leftarrow> handler st sub request cap out;
               Some (res, out, if res = UDS_RESULT_OK then of_nat (length out) else response_length) }) })"

end
