(* ===== verification/Dtc_Storage.thy ===== *)
theory Dtc_Storage
  imports Dtc_App
begin

text \<open>
  The fault memory, continued: its initial state, the copy in the parameter store, clearing, setting
  and debouncing (\<open>App/Src/uds_dtc_app.c\<close>). An operation that stores maps the storage and the flash
  to those afterwards; a store that fails is ignored as in the code. \<open>None\<close> is undefined behaviour.
\<close>

section \<open>The block in the parameter store\<close>

definition UDS_DTC_NV_MAX_SNAPSHOTS :: nat where "UDS_DTC_NV_MAX_SNAPSHOTS = 8"
definition UDS_DTC_NV_MAGIC :: u16 where "UDS_DTC_NV_MAGIC = 0xD7C1"
definition UDS_DTC_NV_VERSION :: u8 where "UDS_DTC_NV_VERSION = 1"

record UdsDtcNvSnapshot =
  nvs_dtc_number :: u32
  nvs_record_num :: u8
  nvs_length :: u8
  nvs_data :: bytes

record UdsDtcNvRecord =
  nvr_dtc_number :: u32
  nvr_status_byte :: u8
  nvr_severity :: u8
  nvr_functional_unit :: u8
  nvr_fault_counter :: u8
  nvr_occurrence_counter :: u8
  nvr_pending_counter :: u8
  nvr_aging_counter :: u8
  nvr_aged_counter :: u8
  nvr_active :: bool

record UdsDtcNvBlock =
  nv_magic :: u16
  nv_version :: u8
  nv_record_count :: u8
  nv_snapshot_count :: u8
  nv_records :: "UdsDtcNvRecord list"
  nv_snapshots :: "UdsDtcNvSnapshot list"

text \<open>The layout of the block on the target: 80 records of 16 bytes and 8 snapshots of 24 bytes.\<close>

abbreviation (input) sizeof_UdsDtcNvBlock :: nat where "sizeof_UdsDtcNvBlock \<equiv> 1480"

definition nv_record_bytes :: "UdsDtcNvRecord \<Rightarrow> bytes" where
  "nv_record_bytes r = le32_bytes (nvr_dtc_number r) @
     [nvr_status_byte r, nvr_severity r, nvr_functional_unit r, nvr_fault_counter r, nvr_occurrence_counter r,
      nvr_pending_counter r, nvr_aging_counter r, nvr_aged_counter r, of_bool (nvr_active r), 0, 0, 0]"

definition nv_snapshot_bytes :: "UdsDtcNvSnapshot \<Rightarrow> bytes" where
  "nv_snapshot_bytes s = le32_bytes (nvs_dtc_number s) @ [nvs_record_num s, nvs_length s, 0] @ nvs_data s @ [0]"

definition nv_block_bytes :: "UdsDtcNvBlock \<Rightarrow> bytes" where
  "nv_block_bytes b = le16_bytes (nv_magic b) @ [nv_version b, nv_record_count b, nv_snapshot_count b, 0, 0, 0] @
     concat (map nv_record_bytes (nv_records b)) @ concat (map nv_snapshot_bytes (nv_snapshots b))"

definition nv_record_at :: "bytes \<Rightarrow> nat \<Rightarrow> UdsDtcNvRecord option" where
  "nv_record_at bs i = do {
     number \<leftarrow> le32_at bs i; status \<leftarrow> peek bs (i + 4); severity \<leftarrow> peek bs (i + 5); unit \<leftarrow> peek bs (i + 6);
     fault \<leftarrow> peek bs (i + 7); occurrence \<leftarrow> peek bs (i + 8); pending \<leftarrow> peek bs (i + 9); aging \<leftarrow> peek bs (i + 10);
     aged \<leftarrow> peek bs (i + 11); active \<leftarrow> peek bs (i + 12);
     Some \<lparr> nvr_dtc_number = number, nvr_status_byte = status, nvr_severity = severity, nvr_functional_unit = unit,
       nvr_fault_counter = fault, nvr_occurrence_counter = occurrence, nvr_pending_counter = pending,
       nvr_aging_counter = aging, nvr_aged_counter = aged, nvr_active = (active \<noteq> 0) \<rparr> }"

definition nv_snapshot_at :: "bytes \<Rightarrow> nat \<Rightarrow> UdsDtcNvSnapshot option" where
  "nv_snapshot_at bs i = do {
     number \<leftarrow> le32_at bs i; record_num \<leftarrow> peek bs (i + 4); len \<leftarrow> peek bs (i + 5);
     Some \<lparr> nvs_dtc_number = number, nvs_record_num = record_num, nvs_length = len, nvs_data = take 16 (drop (i + 7) bs) \<rparr> }"

primrec all_some :: "'a option list \<Rightarrow> 'a list option" where
  "all_some [] = Some []"
| "all_some (x # xs) = do { y \<leftarrow> x; ys \<leftarrow> all_some xs; Some (y # ys) }"

definition nv_block_of_bytes :: "bytes \<Rightarrow> UdsDtcNvBlock option" where
  "nv_block_of_bytes bs = do {
     magic \<leftarrow> le16_at bs 0; version \<leftarrow> peek bs 2; record_count \<leftarrow> peek bs 3; snapshot_count \<leftarrow> peek bs 4;
     records \<leftarrow> all_some (map (\<lambda>k. nv_record_at bs (8 + 16 * k)) [0..<UDS_DTC_APP_MAX_RECORDS]);
     snapshots \<leftarrow> all_some (map (\<lambda>k. nv_snapshot_at bs (1288 + 24 * k)) [0..<UDS_DTC_NV_MAX_SNAPSHOTS]);
     Some \<lparr> nv_magic = magic, nv_version = version, nv_record_count = record_count, nv_snapshot_count = snapshot_count,
       nv_records = records, nv_snapshots = snapshots \<rparr> }"

section \<open>Initial state\<close>

definition ram_zero :: UdsDtcRamStatus where
  "ram_zero = \<lparr> status_byte = 0, fault_counter = 0, occurrence_counter = 0, pending_counter = 0, aging_counter = 0,
     aged_counter = 0, dtc_active = False, has_snapshot = False, snapshot_record_num = 0, snapshot_length = 0,
     snapshot_data = replicate UDS_DTC_APP_SNAPSHOT_SIZE 0, extended_data = replicate UDS_DTC_APP_EXTENDED_SIZE 0,
     extended_length = 0 \<rparr>"

definition ram_of_rom :: "UdsDtcRomDef \<Rightarrow> UdsDtcRamStatus option" where
  "ram_of_rom rom = do {
     snapshot \<leftarrow> (if rom_snapshot_length rom > 0
       then copy_loop (snapshot_data ram_zero) 0 (rom_snapshot_data rom) 0 (unat (rom_snapshot_length rom))
       else Some (snapshot_data ram_zero));
     extended \<leftarrow> (if rom_extended_length rom > 0
       then copy_loop (extended_data ram_zero) 0 (rom_extended_data rom) 0 (unat (rom_extended_length rom))
       else Some (extended_data ram_zero));
     Some \<lparr> status_byte = default_status rom, fault_counter = default_fault_counter rom,
       occurrence_counter = default_occurrence_counter rom, pending_counter = 0,
       aging_counter = default_aging_counter rom, aged_counter = 0, dtc_active = default_active rom,
       has_snapshot = (rom_snapshot_length rom > 0), snapshot_record_num = 1,
       snapshot_length = rom_snapshot_length rom, snapshot_data = snapshot, extended_data = extended,
       extended_length = rom_extended_length rom \<rparr> }"

definition uds_dtc_app_init :: "'f UdsDtcAppStorage option" where
  "uds_dtc_app_init = do {
     statics \<leftarrow> all_some (map (\<lambda>i. ram_of_rom (s_rom_dtc_defs ! i)) [0..<UDS_DTC_STATIC_COUNT]);
     Some \<lparr> status_availability_mask = 0xFF, static_status = statics,
       dynamic_records = replicate UDS_DTC_DYNAMIC_MAX
         \<lparr> dyn_dtc_number = 0, dyn_severity = 0, dyn_functional_unit = 0, dyn_status = ram_zero \<rparr>,
       dynamic_count = 0, dtc_setting_enabled = True, nvm_store = None \<rparr> }"

text \<open>
  The backend, for a server whose application context holds the storage. An undefined report would be
  the last branch; \<open>dtc_report_defined\<close> excludes it.
\<close>

definition uds_dtc_app_get_backend :: "'f UdsDtcAppStorage UdsDtcBackend" where
  "uds_dtc_app_get_backend =
     \<lparr> capabilities = 0x03FFFFFF,
       report = Some (\<lambda>st sub request cap.
         case uds_dtc_app_report st sub request 0 cap of
           Some (r, out, len) \<Rightarrow> (r, out, len, st)
         | None \<Rightarrow> (UDS_RESULT_ERROR, [], 0, st)) \<rparr>"

section \<open>Saving\<close>

definition nv_record_of :: "UdsDtcAppRecord \<Rightarrow> UdsDtcNvRecord" where
  "nv_record_of rec =
     \<lparr> nvr_dtc_number = rec_dtc_number rec, nvr_status_byte = rec_status_byte rec, nvr_severity = rec_severity rec,
       nvr_functional_unit = rec_functional_unit rec, nvr_fault_counter = rec_fault_counter rec,
       nvr_occurrence_counter = rec_occurrence_counter rec, nvr_pending_counter = rec_pending_counter rec,
       nvr_aging_counter = rec_aging_counter rec, nvr_aged_counter = rec_aged_counter rec, nvr_active = rec_active rec \<rparr>"

primrec nv_fill :: "'f UdsDtcAppStorage \<Rightarrow> nat list \<Rightarrow> UdsDtcNvBlock \<Rightarrow> UdsDtcNvBlock option" where
  "nv_fill st [] block = Some block"
| "nv_fill st (i # is) block = do {
     rec \<leftarrow> get_dtc_record st i;
     records \<leftarrow> poke (nv_records block) i (nv_record_of rec);
     let block = block\<lparr> nv_records := records \<rparr>;
     (if rec_has_snapshot rec \<and> rec_snapshot_length rec > 0 \<and> unat (nv_snapshot_count block) < UDS_DTC_NV_MAX_SNAPSHOTS
      then do {
        let s_idx = unat (nv_snapshot_count block);
        old \<leftarrow> peek (nv_snapshots block) s_idx;
        data \<leftarrow> copy_loop (nvs_data old) 0 (rec_snapshot_data rec) 0 (unat (rec_snapshot_length rec));
        nv_fill st is (block\<lparr> nv_snapshot_count := nv_snapshot_count block + 1,
          nv_snapshots := (nv_snapshots block)[s_idx :=
            \<lparr> nvs_dtc_number = rec_dtc_number rec, nvs_record_num = rec_snapshot_record_num rec,
              nvs_length = rec_snapshot_length rec, nvs_data = data \<rparr>] \<rparr>)
      }
      else nv_fill st is block) }"

definition nv_block_start :: "u8 \<Rightarrow> UdsDtcNvBlock" where
  "nv_block_start total_count =
     \<lparr> nv_magic = UDS_DTC_NV_MAGIC, nv_version = UDS_DTC_NV_VERSION, nv_record_count = total_count,
       nv_snapshot_count = 0,
       nv_records = replicate UDS_DTC_APP_MAX_RECORDS
         \<lparr> nvr_dtc_number = 0, nvr_status_byte = 0, nvr_severity = 0, nvr_functional_unit = 0, nvr_fault_counter = 0,
           nvr_occurrence_counter = 0, nvr_pending_counter = 0, nvr_aging_counter = 0, nvr_aged_counter = 0,
           nvr_active = False \<rparr>,
       nv_snapshots = replicate UDS_DTC_NV_MAX_SNAPSHOTS
         \<lparr> nvs_dtc_number = 0, nvs_record_num = 0, nvs_length = 0, nvs_data = replicate UDS_DTC_APP_SNAPSHOT_SIZE 0 \<rparr> \<rparr>"

text \<open>A store whose values are larger than the block makes \<open>uds_param_save\<close> read behind it.\<close>

definition uds_dtc_app_save_to_nvm :: "'f UdsDtcAppStorage \<Rightarrow> 'f \<Rightarrow> (bool \<times> 'f UdsDtcAppStorage \<times> 'f) option" where
  "uds_dtc_app_save_to_nvm st f =
     (case nvm_store st of
        None \<Rightarrow> Some (False, st, f)
      | Some store \<Rightarrow> do {
          let total_count = get_total_record_count st;
          block \<leftarrow> nv_fill st [0..<unat total_count] (nv_block_start total_count);
          (r, store, f) \<leftarrow> uds_param_save store (nv_block_bytes block) f;
          Some (r = UDS_PARAM_OK, st\<lparr> nvm_store := Some store \<rparr>, f) })"

text \<open>\<open>(void)uds_dtc_app_save_to_nvm()\<close> at the end of an operation with result \<open>r\<close>.\<close>

definition saved :: "'r \<Rightarrow> 'f UdsDtcAppStorage \<Rightarrow> 'f \<Rightarrow> ('r \<times> 'f UdsDtcAppStorage \<times> 'f) option" where
  "saved r st f = do { (_, st, f) \<leftarrow> uds_dtc_app_save_to_nvm st f; Some (r, st, f) }"

section \<open>Loading\<close>

definition ram_of_nv :: "UdsDtcNvRecord \<Rightarrow> UdsDtcRamStatus \<Rightarrow> UdsDtcRamStatus" where
  "ram_of_nv r ram = ram\<lparr> status_byte := nvr_status_byte r, fault_counter := nvr_fault_counter r,
     occurrence_counter := nvr_occurrence_counter r, pending_counter := nvr_pending_counter r,
     aging_counter := nvr_aging_counter r, aged_counter := nvr_aged_counter r, dtc_active := nvr_active r \<rparr>"

primrec load_records :: "UdsDtcNvBlock \<Rightarrow> nat list \<Rightarrow> 'f UdsDtcAppStorage \<Rightarrow> 'f UdsDtcAppStorage option" where
  "load_records block [] st = Some st"
| "load_records block (j # js) st = do {
     r \<leftarrow> peek (nv_records block) j;
     (case find_dtc_index st (nvr_dtc_number r) of
        Some idx \<Rightarrow>
          (case get_dtc_ram_status st idx of
             Some ram \<Rightarrow> load_records block js (put_dtc_ram_status idx (ram_of_nv r ram) st)
           | None \<Rightarrow> load_records block js st)
      | None \<Rightarrow>
          if unat (dynamic_count st) < UDS_DTC_DYNAMIC_MAX then do {
            let d = unat (dynamic_count st);
            old \<leftarrow> peek (dynamic_records st) d;
            load_records block js (st\<lparr> dynamic_count := dynamic_count st + 1,
              dynamic_records := (dynamic_records st)[d :=
                \<lparr> dyn_dtc_number = nvr_dtc_number r, dyn_severity = nvr_severity r,
                  dyn_functional_unit = nvr_functional_unit r, dyn_status = ram_of_nv r (dyn_status old) \<rparr>] \<rparr>)
          }
          else load_records block js st) }"

primrec load_snapshots :: "UdsDtcNvBlock \<Rightarrow> nat list \<Rightarrow> 'f UdsDtcAppStorage \<Rightarrow> 'f UdsDtcAppStorage option" where
  "load_snapshots block [] st = Some st"
| "load_snapshots block (s # ss) st = do {
     snap \<leftarrow> peek (nv_snapshots block) s;
     (case find_dtc_index st (nvs_dtc_number snap) of
        Some idx \<Rightarrow>
          (case get_dtc_ram_status st idx of
             Some ram \<Rightarrow> do {
               data \<leftarrow> copy_loop (snapshot_data ram) 0 (nvs_data snap) 0 (unat (nvs_length snap));
               load_snapshots block ss (put_dtc_ram_status idx
                 (ram\<lparr> has_snapshot := True, snapshot_record_num := nvs_record_num snap,
                    snapshot_length := nvs_length snap, snapshot_data := data \<rparr>) st) }
           | None \<Rightarrow> load_snapshots block ss st)
      | None \<Rightarrow> load_snapshots block ss st) }"

text \<open>
  The local block is \<open>junk\<close> before the load. A store whose values are larger than the block
  overflows it; of a smaller value only the first bytes of the block are loaded.
\<close>

definition uds_dtc_app_load_from_nvm ::
  "bytes \<Rightarrow> 'f UdsDtcAppStorage \<Rightarrow> 'f \<Rightarrow> (bool \<times> 'f UdsDtcAppStorage \<times> 'f) option" where
  "uds_dtc_app_load_from_nvm junk st f =
     (case nvm_store st of
        None \<Rightarrow> Some (False, st, f)
      | Some store \<Rightarrow> do {
          (r, data, f) \<leftarrow> uds_param_load store [] f;
          (if r \<noteq> UDS_PARAM_OK then Some (False, st, f)
           else if length data > sizeof_UdsDtcNvBlock then None
           else do {
             block \<leftarrow> nv_block_of_bytes (data @ drop (length data) (take sizeof_UdsDtcNvBlock junk));
             (if nv_magic block \<noteq> UDS_DTC_NV_MAGIC \<or> nv_version block \<noteq> UDS_DTC_NV_VERSION then Some (False, st, f)
              else do {
                st \<leftarrow> load_records block [0..<unat (nv_record_count block)] st;
                st \<leftarrow> load_snapshots block [0..<unat (nv_snapshot_count block)] st;
                Some (True, st, f) }) }) })"

definition uds_dtc_app_attach_nvm ::
  "bytes \<Rightarrow> 'f UdsParamStore option \<Rightarrow> 'f UdsDtcAppStorage \<Rightarrow> 'f \<Rightarrow> ('f UdsDtcAppStorage \<times> 'f) option" where
  "uds_dtc_app_attach_nvm junk store st f =
     (let st = st\<lparr> nvm_store := store \<rparr> in
      if store \<noteq> None then do { (_, st, f) \<leftarrow> uds_dtc_app_load_from_nvm junk st f; Some (st, f) }
      else Some (st, f))"

section \<open>Clearing\<close>

definition cleared_ram :: "UdsDtcRamStatus \<Rightarrow> UdsDtcRamStatus" where
  "cleared_ram ram = ram\<lparr> dtc_active := False, status_byte := UDS_DTC_STATUS_CLEARED, fault_counter := 0,
     occurrence_counter := 0, pending_counter := 0, aging_counter := 0, aged_counter := 0, has_snapshot := False,
     snapshot_length := 0 \<rparr>"

definition clear_single_ram_record :: "nat \<Rightarrow> 'f UdsDtcAppStorage \<Rightarrow> 'f UdsDtcAppStorage" where
  "clear_single_ram_record i st =
     (case get_dtc_ram_status st i of Some ram \<Rightarrow> put_dtc_ram_status i (cleared_ram ram) st | None \<Rightarrow> st)"

definition dtc_matches_group_mask :: "u32 \<Rightarrow> u32 \<Rightarrow> bool" where
  "dtc_matches_group_mask dtc group_high =
     (if group_high = 0x000000 \<and> dtc < 0x400000 then True
      else if group_high = 0x400000 \<and> dtc \<ge> 0x400000 \<and> dtc < 0x800000 then True
      else if group_high = 0x800000 \<and> dtc \<ge> 0x800000 \<and> dtc < 0xC00000 then True
      else if group_high = 0xC00000 \<and> dtc \<ge> 0xC00000 then True
      else False)"

primrec clear_group :: "u32 \<Rightarrow> nat list \<Rightarrow> bool \<Rightarrow> 'f UdsDtcAppStorage \<Rightarrow> (bool \<times> 'f UdsDtcAppStorage) option" where
  "clear_group group_high [] cleared_any st = Some (cleared_any, st)"
| "clear_group group_high (i # is) cleared_any st = do {
     rec \<leftarrow> get_dtc_record st i;
     (if dtc_matches_group_mask (rec_dtc_number rec) group_high
      then clear_group group_high is True (clear_single_ram_record i st)
      else clear_group group_high is cleared_any st) }"

definition uds_dtc_app_clear ::
  "u32 \<Rightarrow> 'f UdsDtcAppStorage \<Rightarrow> 'f \<Rightarrow> (UdsCallbackResult \<times> 'f UdsDtcAppStorage \<times> 'f) option" where
  "uds_dtc_app_clear group_of_dtc st f =
     (let total_count = unat (get_total_record_count st) in
      if group_of_dtc = 0xFFFFFF
      then saved UDS_RESULT_OK (foldl (\<lambda>st i. clear_single_ram_record i st) st [0..<total_count]) f
      else do {
        let group_high = group_of_dtc AND 0xFF0000;
        let is_group_mask = (group_of_dtc AND 0x00FFFF = 0x000000 \<or> group_of_dtc AND 0x00FFFF = 0x00FF00);
        (cleared_any, st) \<leftarrow>
          (if is_group_mask then clear_group group_high [0..<total_count] False st else Some (False, st));
        (if cleared_any then saved UDS_RESULT_OK st f
         else case find_dtc_index st group_of_dtc of
           Some idx \<Rightarrow> saved UDS_RESULT_OK (clear_single_ram_record idx st) f
         | None \<Rightarrow> Some (UDS_RESULT_OUT_OF_RANGE, st, f)) })"

definition uds_dtc_app_clear_fault :: "u32 \<Rightarrow> 'f UdsDtcAppStorage \<Rightarrow> 'f \<Rightarrow> (bool \<times> 'f UdsDtcAppStorage \<times> 'f) option" where
  "uds_dtc_app_clear_fault dtc st f =
     (case find_dtc_index st dtc of
        Some idx \<Rightarrow>
          (case get_dtc_ram_status st idx of
             Some ram \<Rightarrow> saved True (put_dtc_ram_status idx (cleared_ram ram) st) f
           | None \<Rightarrow> Some (False, st, f))
      | None \<Rightarrow> Some (False, st, f))"

section \<open>Settings\<close>

definition uds_dtc_app_control_setting :: "u8 \<Rightarrow> 'f UdsDtcAppStorage \<Rightarrow> UdsCallbackResult \<times> 'f UdsDtcAppStorage" where
  "uds_dtc_app_control_setting sub st =
     (if sub = 0x01 then (UDS_RESULT_OK, st\<lparr> dtc_setting_enabled := True \<rparr>)
      else if sub = 0x02 then (UDS_RESULT_OK, st\<lparr> dtc_setting_enabled := False \<rparr>)
      else (UDS_RESULT_SUBFUNCTION_NOT_SUPPORTED, st))"

definition uds_dtc_app_is_setting_enabled :: "'f UdsDtcAppStorage \<Rightarrow> bool" where
  "uds_dtc_app_is_setting_enabled st = dtc_setting_enabled st"

definition uds_dtc_app_set_setting_enabled :: "bool \<Rightarrow> 'f UdsDtcAppStorage \<Rightarrow> 'f UdsDtcAppStorage" where
  "uds_dtc_app_set_setting_enabled enabled st = st\<lparr> dtc_setting_enabled := enabled \<rparr>"

section \<open>Setting faults and snapshots\<close>

text \<open>The eight bytes of \<open>OBD_Global_Snapshot_Format\<close>.\<close>

definition init_default_snapshot :: bytes where
  "init_default_snapshot = [120, 0x03, 0, 0, 12, 1, 1, 24]"

text \<open>A snapshot that is copied into a status.\<close>

definition put_snapshot :: "u8 \<Rightarrow> bytes \<Rightarrow> u8 \<Rightarrow> UdsDtcRamStatus \<Rightarrow> UdsDtcRamStatus option" where
  "put_snapshot record_num data len ram = do {
     copied \<leftarrow> copy_loop (snapshot_data ram) 0 data 0 (unat len);
     Some (ram\<lparr> has_snapshot := True, snapshot_record_num := record_num, snapshot_length := len,
       snapshot_data := copied \<rparr>) }"

text \<open>The pattern of most setters: look the code up, change its status, save.\<close>

definition update_dtc ::
  "u32 \<Rightarrow> (UdsDtcRamStatus \<Rightarrow> UdsDtcRamStatus option) \<Rightarrow> 'f UdsDtcAppStorage \<Rightarrow> 'f \<Rightarrow>
     (bool \<times> 'f UdsDtcAppStorage \<times> 'f) option" where
  "update_dtc dtc g st f =
     (case find_dtc_index st dtc of
        None \<Rightarrow> Some (False, st, f)
      | Some idx \<Rightarrow>
          (case get_dtc_ram_status st idx of
             None \<Rightarrow> Some (False, st, f)
           | Some ram \<Rightarrow> do { ram \<leftarrow> g ram; saved True (put_dtc_ram_status idx ram st) f }))"

text \<open>\<open>data\<close> is \<open>None\<close> for the null pointer, also below.\<close>

definition uds_dtc_app_set_snapshot ::
  "u32 \<Rightarrow> u8 \<Rightarrow> bytes option \<Rightarrow> u8 \<Rightarrow> 'f UdsDtcAppStorage \<Rightarrow> 'f \<Rightarrow> (bool \<times> 'f UdsDtcAppStorage \<times> 'f) option" where
  "uds_dtc_app_set_snapshot dtc record_num data len st f =
     (case data of
        None \<Rightarrow> Some (False, st, f)
      | Some data \<Rightarrow>
          if len = 0 \<or> unat len > UDS_DTC_APP_SNAPSHOT_SIZE then Some (False, st, f)
          else update_dtc dtc (put_snapshot record_num data len) st f)"

definition count_up :: "u8 \<Rightarrow> u8" where
  "count_up c = (if c < 255 then c + 1 else c)"

definition default_snapshot :: "UdsDtcRamStatus \<Rightarrow> UdsDtcRamStatus option" where
  "default_snapshot ram = (if has_snapshot ram then Some ram else put_snapshot 1 init_default_snapshot 8 ram)"

definition set_fault_ram :: "u8 \<Rightarrow> u8 \<Rightarrow> UdsDtcRamStatus \<Rightarrow> UdsDtcRamStatus option" where
  "set_fault_ram status counter ram =
     (let ram = ram\<lparr> dtc_active := True, status_byte := status, fault_counter := counter \<rparr>;
          ram = (if status AND UDS_DTC_STATUS_TEST_FAILED \<noteq> 0
                 then ram\<lparr> occurrence_counter := count_up (occurrence_counter ram), aging_counter := 0 \<rparr> else ram);
          ram = (if status AND UDS_DTC_STATUS_PENDING \<noteq> 0
                 then ram\<lparr> pending_counter := count_up (pending_counter ram) \<rparr> else ram)
      in default_snapshot ram)"

definition add_dynamic ::
  "u32 \<Rightarrow> u8 \<Rightarrow> u8 \<Rightarrow> u8 \<Rightarrow> 'f UdsDtcAppStorage \<Rightarrow> 'f \<Rightarrow> (bool \<times> 'f UdsDtcAppStorage \<times> 'f) option" where
  "add_dynamic dtc status severity counter st f =
     (if unat (dynamic_count st) < UDS_DTC_DYNAMIC_MAX then do {
        let d = unat (dynamic_count st);
        old \<leftarrow> peek (dynamic_records st) d;
        ram \<leftarrow> put_snapshot 1 init_default_snapshot 8
          ((dyn_status old)\<lparr> status_byte := status, fault_counter := counter,
            occurrence_counter := (if status AND UDS_DTC_STATUS_TEST_FAILED \<noteq> 0 then 1 else 0),
            pending_counter := (if status AND UDS_DTC_STATUS_PENDING \<noteq> 0 then 1 else 0),
            aging_counter := 0, aged_counter := 0, dtc_active := True \<rparr>);
        saved True (st\<lparr> dynamic_count := dynamic_count st + 1,
          dynamic_records := (dynamic_records st)[d :=
            \<lparr> dyn_dtc_number = dtc, dyn_severity = severity, dyn_functional_unit = 1, dyn_status = ram \<rparr>] \<rparr>) f
      }
      else Some (False, st, f))"

definition uds_dtc_app_set_fault ::
  "u32 \<Rightarrow> u8 \<Rightarrow> u8 \<Rightarrow> u8 \<Rightarrow> 'f UdsDtcAppStorage \<Rightarrow> 'f \<Rightarrow> (bool \<times> 'f UdsDtcAppStorage \<times> 'f) option" where
  "uds_dtc_app_set_fault dtc status severity counter st f =
     (if \<not> dtc_setting_enabled st then Some (True, st, f)
      else case find_dtc_index st dtc of
        Some idx \<Rightarrow>
          (case get_dtc_ram_status st idx of
             Some ram \<Rightarrow> do {
               ram \<leftarrow> set_fault_ram status counter ram;
               saved True (put_dtc_ram_status idx ram st) f }
           | None \<Rightarrow> add_dynamic dtc status severity counter st f)
      | None \<Rightarrow> add_dynamic dtc status severity counter st f)"

definition uds_dtc_app_set_global_snapshot ::
  "u32 \<Rightarrow> bytes option \<Rightarrow> 'f UdsDtcAppStorage \<Rightarrow> 'f \<Rightarrow> (bool \<times> 'f UdsDtcAppStorage \<times> 'f) option" where
  "uds_dtc_app_set_global_snapshot dtc snapshot st f =
     (case snapshot of
        None \<Rightarrow> Some (False, st, f)
      | Some snapshot \<Rightarrow> update_dtc dtc (put_snapshot 1 snapshot 8) st f)"

text \<open>The snapshot the caller's buffer gets; \<open>Some None\<close>: the function returns false.\<close>

definition uds_dtc_app_get_global_snapshot :: "u32 \<Rightarrow> 'f UdsDtcAppStorage \<Rightarrow> bytes option option" where
  "uds_dtc_app_get_global_snapshot dtc st =
     (case find_dtc_index st dtc of
        None \<Rightarrow> Some None
      | Some idx \<Rightarrow>
          (case get_dtc_record st idx of
             None \<Rightarrow> Some None
           | Some rec \<Rightarrow>
               if \<not> rec_has_snapshot rec \<or> rec_snapshot_length rec \<noteq> 8 then Some None
               else if length (rec_snapshot_data rec) < 8 then None
               else Some (Some (take 8 (rec_snapshot_data rec)))))"

record OBD_Extended_Data_Format =
  fault_occur_counter :: u8
  fault_pending_counter :: u8
  obd_aged_counter :: u8
  ageing_counter :: u8

definition put_extended :: "OBD_Extended_Data_Format \<Rightarrow> UdsDtcRamStatus \<Rightarrow> UdsDtcRamStatus option" where
  "put_extended e ram = do {
     data \<leftarrow> poke_list (extended_data ram) 0 [fault_occur_counter e, fault_pending_counter e, obd_aged_counter e, ageing_counter e];
     Some (ram\<lparr> occurrence_counter := fault_occur_counter e, pending_counter := fault_pending_counter e,
       aged_counter := obd_aged_counter e, aging_counter := ageing_counter e, extended_data := data,
       extended_length := 4 \<rparr>) }"

definition uds_dtc_app_set_extended_data ::
  "u32 \<Rightarrow> OBD_Extended_Data_Format option \<Rightarrow> 'f UdsDtcAppStorage \<Rightarrow> 'f \<Rightarrow> (bool \<times> 'f UdsDtcAppStorage \<times> 'f) option" where
  "uds_dtc_app_set_extended_data dtc ext_data st f =
     (case ext_data of None \<Rightarrow> Some (False, st, f) | Some e \<Rightarrow> update_dtc dtc (put_extended e) st f)"

text \<open>\<open>None\<close>: the function returns false.\<close>

definition uds_dtc_app_get_extended_data :: "u32 \<Rightarrow> 'f UdsDtcAppStorage \<Rightarrow> OBD_Extended_Data_Format option" where
  "uds_dtc_app_get_extended_data dtc st = do {
     idx \<leftarrow> find_dtc_index st dtc;
     rec \<leftarrow> get_dtc_record st idx;
     Some \<lparr> fault_occur_counter = rec_occurrence_counter rec, fault_pending_counter = rec_pending_counter rec,
       obd_aged_counter = rec_aged_counter rec, ageing_counter = rec_aging_counter rec \<rparr> }"

section \<open>Debouncing\<close>

definition debounce_fault_failed :: "UdsDtcRamStatus \<Rightarrow> UdsDtcRamStatus option" where
  "debounce_fault_failed rec =
     (let rec = rec\<lparr> fault_counter := (if sint (fault_counter rec) \<le> 127 - 16
                then word_of_int (sint (fault_counter rec) + 16) else 127) \<rparr>;
          rec = (if sint (fault_counter rec) > 0
                 then rec\<lparr> status_byte := status_byte rec OR UDS_DTC_STATUS_PENDING,
                        pending_counter := count_up (pending_counter rec) \<rparr>
                 else rec) in
      if sint (fault_counter rec) \<ge> 127 then
        let failed_mask = UDS_DTC_STATUS_TEST_FAILED OR UDS_DTC_STATUS_TEST_FAILED_THIS_CYCLE OR
              UDS_DTC_STATUS_PENDING OR UDS_DTC_STATUS_CONFIRMED OR UDS_DTC_STATUS_TEST_FAILED_SLC;
            completed_mask = UDS_DTC_STATUS_TEST_NOT_COMPLETED_SLC OR UDS_DTC_STATUS_TEST_NOT_COMPLETED_TOC
        in default_snapshot (rec\<lparr> fault_counter := 127, dtc_active := True,
             status_byte := (status_byte rec OR failed_mask) AND NOT completed_mask,
             occurrence_counter := count_up (occurrence_counter rec), aging_counter := 0 \<rparr>)
      else Some rec)"

definition debounce_fault_passed :: "UdsDtcRamStatus \<Rightarrow> UdsDtcRamStatus" where
  "debounce_fault_passed rec =
     (let rec = rec\<lparr> fault_counter := (if sint (fault_counter rec) \<ge> - 128 + 16
                then word_of_int (sint (fault_counter rec) - 16) else word_of_int (- 128)) \<rparr> in
      if sint (fault_counter rec) \<le> - 128 then
        let completed_mask = UDS_DTC_STATUS_TEST_NOT_COMPLETED_SLC OR UDS_DTC_STATUS_TEST_NOT_COMPLETED_TOC;
            rec = rec\<lparr> fault_counter := word_of_int (- 128),
                    status_byte := (status_byte rec AND NOT UDS_DTC_STATUS_TEST_FAILED) AND NOT completed_mask,
                    aging_counter := count_up (aging_counter rec) \<rparr>
        in if aging_counter rec \<ge> 40
           then rec\<lparr> status_byte := status_byte rec AND NOT UDS_DTC_STATUS_CONFIRMED,
                  aged_counter := count_up (aged_counter rec) \<rparr>
           else rec
      else rec)"

definition uds_dtc_app_report_event ::
  "u32 \<Rightarrow> bool \<Rightarrow> 'f UdsDtcAppStorage \<Rightarrow> 'f \<Rightarrow> (bool \<times> 'f UdsDtcAppStorage \<times> 'f) option" where
  "uds_dtc_app_report_event dtc failed st f =
     (if \<not> dtc_setting_enabled st then Some (True, st, f)
      else update_dtc dtc (\<lambda>rec. if failed then debounce_fault_failed rec else Some (debounce_fault_passed rec)) st f)"

end
