(* ===== verification/Dtc_Reports.thy ===== *)
theory Dtc_Reports
  imports Dtc_Storage
begin

text \<open>
  The reports of the fault memory: the well-formed storages, what an append writes and when it fails,
  and the properties of ReadDTCInformation.
\<close>

section \<open>Well-formed storages\<close>

definition ram_ok :: "UdsDtcRamStatus \<Rightarrow> bool" where
  "ram_ok ram \<longleftrightarrow> length (snapshot_data ram) = 16 \<and> length (extended_data ram) = 8 \<and>
     unat (snapshot_length ram) \<le> 16 \<and> unat (extended_length ram) \<le> 8"

definition rom_numbers :: "u32 list" where
  "rom_numbers = map rom_dtc_number s_rom_dtc_defs"

definition dynamic_numbers :: "'f UdsDtcAppStorage \<Rightarrow> u32 list" where
  "dynamic_numbers st = map dyn_dtc_number (take (unat (dynamic_count st)) (dynamic_records st))"

definition dtc_ok :: "'f UdsDtcAppStorage \<Rightarrow> bool" where
  "dtc_ok st \<longleftrightarrow> length (static_status st) = 69 \<and> list_all ram_ok (static_status st) \<and>
     length (dynamic_records st) = 11 \<and> list_all (ram_ok \<circ> dyn_status) (dynamic_records st) \<and>
     unat (dynamic_count st) \<le> 11 \<and> distinct (rom_numbers @ dynamic_numbers st)"

lemmas dtc_sizes = UDS_DTC_APP_MAX_RECORDS_def UDS_DTC_APP_SNAPSHOT_SIZE_def UDS_DTC_APP_EXTENDED_SIZE_def
  UDS_DTC_STATIC_COUNT_def UDS_DTC_DYNAMIC_MAX_def UDS_DTC_NV_MAX_SNAPSHOTS_def

lemma length_rom [simp]: "length s_rom_dtc_defs = 69"
  by (simp add: s_rom_dtc_defs_def)

definition rom_ok :: "UdsDtcRomDef \<Rightarrow> bool" where
  "rom_ok rom \<longleftrightarrow> length (rom_snapshot_data rom) = unat (rom_snapshot_length rom) \<and> unat (rom_snapshot_length rom) \<le> 16 \<and>
     length (rom_extended_data rom) = unat (rom_extended_length rom) \<and> unat (rom_extended_length rom) \<le> 8"

lemma rom_all_ok: "list_all rom_ok s_rom_dtc_defs"
  by (simp add: s_rom_dtc_defs_def rom_ok_def rom_oem_def s_p0100_snapshot_def s_p0100_extended_def
    s_u0100_snapshot_def s_u0100_extended_def s_b0001_snapshot_def s_b0001_extended_def)

lemma rom_nth_ok: "i < 69 \<Longrightarrow> rom_ok (s_rom_dtc_defs ! i)"
  using rom_all_ok by (simp add: list_all_length)

lemma rom_distinct: "distinct rom_numbers"
  by (simp add: rom_numbers_def s_rom_dtc_defs_def rom_oem_def)

lemma unat_total: "dtc_ok st \<Longrightarrow> unat (get_total_record_count st) = 69 + unat (dynamic_count st)"
  by (simp add: get_total_record_count_def dtc_ok_def dtc_sizes unat_word_ariths)

definition rec_ok :: "UdsDtcAppRecord \<Rightarrow> bool" where
  "rec_ok rec \<longleftrightarrow> unat (rec_snapshot_length rec) \<le> length (rec_snapshot_data rec) \<and> unat (rec_snapshot_length rec) \<le> 16"

lemma dtc_record:
  assumes "dtc_ok st" "i < unat (get_total_record_count st)"
  shows "\<exists>rec. get_dtc_record st i = Some rec \<and> rec_ok rec \<and> rec_dtc_number rec = (rom_numbers @ dynamic_numbers st) ! i"
proof (cases "i < 69")
  case True
  have "ram_ok (static_status st ! i)" using assms(1) True by (auto simp: dtc_ok_def list_all_length)
  then show ?thesis using True assms(1) rom_nth_ok[OF True]
    by (simp add: get_dtc_record_def dtc_sizes peek_def dtc_ok_def rec_ok_def ram_ok_def rom_ok_def rom_numbers_def nth_append Let_def)
next
  case False
  let ?d = "i - 69"
  have d: "?d < unat (dynamic_count st)" "?d < 11"
    using assms False by (auto simp: unat_total dtc_ok_def)
  then have "ram_ok (dyn_status (dynamic_records st ! ?d))" using assms(1) by (auto simp: dtc_ok_def list_all_length)
  then show ?thesis using False d assms(1)
    by (simp add: get_dtc_record_def dtc_sizes peek_def dtc_ok_def rec_ok_def ram_ok_def rom_numbers_def
      dynamic_numbers_def nth_append Let_def)
qed

definition dtc_records :: "'f UdsDtcAppStorage \<Rightarrow> UdsDtcAppRecord list" where
  "dtc_records st = map (\<lambda>i. the (get_dtc_record st i)) [0..<unat (get_total_record_count st)]"

lemma dtc_records_ok: "dtc_ok st \<Longrightarrow> rec \<in> set (dtc_records st) \<Longrightarrow> rec_ok rec"
  using dtc_record by (fastforce simp: dtc_records_def)

lemma scan_from_iff: "scan_from dtc xs k = Some i \<longleftrightarrow> k \<le> i \<and> i - k < length xs \<and> xs ! (i - k) = dtc \<and> dtc \<notin> set (take (i - k) xs)"
proof (induction xs arbitrary: k)
  case (Cons x xs)
  show ?case
  proof (cases "x = dtc")
    case True
    then show ?thesis by (cases "i - k") auto
  next
    case False
    have s: "i - k = Suc (i - Suc k)" if "Suc k \<le> i" using that by simp
    show ?thesis
    proof (cases "Suc k \<le> i")
      case True
      then show ?thesis using False Cons.IH[of "Suc k"] s[OF True] by auto
    next
      case F: False
      then have "i - k = 0" by simp
      then show ?thesis using False F Cons.IH[of "Suc k"] by auto
    qed
  qed
qed simp

lemma scan_from_None: "scan_from dtc xs k = None \<longleftrightarrow> dtc \<notin> set xs"
  by (induction xs arbitrary: k) auto

text \<open>The index of a code, and the code of an index.\<close>

lemma find_dtc_index_iff:
  assumes "dtc_ok st"
  shows "find_dtc_index st dtc = Some i \<longleftrightarrow>
    i < unat (get_total_record_count st) \<and> (rom_numbers @ dynamic_numbers st) ! i = dtc"
proof -
  let ?d = "dynamic_numbers st"
  have len: "length rom_numbers = 69" "length ?d = unat (dynamic_count st)"
    using assms by (simp_all add: rom_numbers_def dynamic_numbers_def dtc_ok_def)
  have dist: "distinct (rom_numbers @ ?d)" using assms by (simp add: dtc_ok_def)
  have uniq: "i = j" if "i < 69 + length ?d" "j < 69 + length ?d" "(rom_numbers @ ?d) ! i = (rom_numbers @ ?d) ! j" for i j
    using that dist len by (metis length_append nth_eq_iff_index_eq)
  have first: "dtc \<notin> set (take j (rom_numbers @ ?d))" if "j < 69 + length ?d" "(rom_numbers @ ?d) ! j = dtc" for j
    using that dist len by (metis distinct_take id_take_nth_drop length_append distinct_append not_distinct_conv_prefix
      disjoint_insert(1) list.simps(15))
  show ?thesis
  proof (cases "scan_from dtc rom_numbers 0")
    case (Some k)
    then have k: "k < 69" "rom_numbers ! k = dtc" by (simp_all add: scan_from_iff len)
    then have "(rom_numbers @ ?d) ! k = dtc" by (simp add: nth_append len)
    then show ?thesis using Some k uniq[of i k] assms
      by (auto simp: find_dtc_index_def rom_numbers_def[symmetric] unat_total len)
  next
    case None
    then have no: "dtc \<notin> set rom_numbers" by (simp add: scan_from_None)
    have "find_dtc_index st dtc = scan_from dtc ?d 69"
      using None by (simp add: find_dtc_index_def rom_numbers_def[symmetric] dynamic_numbers_def dtc_sizes)
    also have "\<dots> = Some i \<longleftrightarrow> 69 \<le> i \<and> i - 69 < length ?d \<and> ?d ! (i - 69) = dtc"
    proof -
      have "dtc \<notin> set (take (i - 69) ?d)" if "69 \<le> i" "i - 69 < length ?d" "?d ! (i - 69) = dtc"
        using first[of i] that by (auto simp: nth_append len)
      then show ?thesis by (auto simp: scan_from_iff)
    qed
    also have "\<dots> \<longleftrightarrow> i < 69 + length ?d \<and> (rom_numbers @ ?d) ! i = dtc"
    proof -
      have "rom_numbers ! i \<noteq> dtc" if "i < 69" using no that len by (metis nth_mem)
      then show ?thesis by (auto simp: nth_append len)
    qed
    finally show ?thesis using assms by (simp add: unat_total len)
  qed
qed

section \<open>Appends\<close>

text \<open>An append of known bytes: all of them when they fit, and else a failure within the capacity.\<close>

definition emits :: "u16 \<Rightarrow> append_fn \<Rightarrow> bytes \<Rightarrow> bool" where
  "emits cap f bs \<longleftrightarrow> (\<forall>out. length out \<le> unat cap \<longrightarrow>
     (if length out + length bs \<le> unat cap then f out = Some (True, out @ bs)
      else \<exists>out'. f out = Some (False, out') \<and> length out' \<le> unat cap \<and> take (length out) out' = out))"

lemma emits_fits: "emits cap f bs \<Longrightarrow> length out + length bs \<le> unat cap \<Longrightarrow> f out = Some (True, out @ bs)"
  by (simp add: emits_def)

lemma emits_fails: "emits cap f bs \<Longrightarrow> length out \<le> unat cap \<Longrightarrow> \<not> length out + length bs \<le> unat cap \<Longrightarrow>
    \<exists>out'. f out = Some (False, out') \<and> length out' \<le> unat cap \<and> take (length out) out' = out"
  by (auto simp: emits_def)

lemma emits_byte: "emits cap (append_byte cap v) [v]"
  by (auto simp: emits_def append_byte_def)

lemma emits_bytes: "n \<le> length src \<Longrightarrow> emits cap (append_bytes cap src n) (take n src)"
  by (auto simp: emits_def append_bytes_def)

lemma take_prefix: "take (length (xs @ ys)) zs = xs @ ys \<Longrightarrow> take (length xs) zs = xs"
  by (metis append_eq_conv_conj append_take_drop_id append.assoc)

lemma emits_both:
  assumes "emits cap f a" "emits cap g b"
  shows "emits cap (both f g) (a @ b)"
  unfolding emits_def
proof (intro allI impI)
  fix out :: bytes assume le: "length out \<le> unat cap"
  show "if length out + length (a @ b) \<le> unat cap then both f g out = Some (True, out @ a @ b)
      else \<exists>out'. both f g out = Some (False, out') \<and> length out' \<le> unat cap \<and> take (length out) out' = out"
  proof (cases "length out + length a \<le> unat cap")
    case True
    note f = emits_fits[OF assms(1) True]
    show ?thesis
    proof (cases "length (out @ a) + length b \<le> unat cap")
      case fits: True
      then show ?thesis using f emits_fits[OF assms(2) fits] by (simp add: both_def)
    next
      case False
      obtain out' where o: "g (out @ a) = Some (False, out')" "length out' \<le> unat cap"
        "take (length (out @ a)) out' = out @ a"
        using emits_fails[OF assms(2) _ False] True by auto
      show ?thesis using f o(1,2) take_prefix[OF o(3)] False by (simp add: both_def)
    qed
  next
    case False
    then show ?thesis using emits_fails[OF assms(1) le False] by (auto simp: both_def)
  qed
qed

lemma emits_when: "(b \<Longrightarrow> emits cap f a) \<Longrightarrow> emits cap (when_append b f) (if b then a else [])"
  by (simp add: emits_def when_append_def)

lemma emits_if: "(b \<Longrightarrow> emits cap f a) \<Longrightarrow> (\<not> b \<Longrightarrow> emits cap g c) \<Longrightarrow> emits cap (if b then f else g) (if b then a else c)"
  by simp

definition dtc_bytes :: "UdsDtcAppRecord \<Rightarrow> bytes" where
  "dtc_bytes rec = [ucast (drop_bit 16 (rec_dtc_number rec)), ucast (drop_bit 8 (rec_dtc_number rec)),
     ucast (rec_dtc_number rec), rec_status_byte rec]"

lemma emits_dtc: "emits cap (append_dtc cap rec) (dtc_bytes rec)"
  using emits_both[OF emits_byte emits_both[OF emits_byte emits_both[OF emits_byte emits_byte]]]
  by (simp add: append_dtc_def dtc_bytes_def)

lemma emits_snapshot:
  assumes "rec_ok rec"
  shows "\<exists>bs. emits cap (append_snapshot_payload cap rec) bs"
proof (cases "rec_snapshot_length rec > 0")
  case True
  let ?head = "if rec_snapshot_length rec = 8 then [0x01, 0x01, 0x00] else [0x01, 0xDF, 0x00]"
  have "emits cap (both (append_bytes cap ?head 3)
      (append_bytes cap (rec_snapshot_data rec) (unat (rec_snapshot_length rec))))
    (take 3 ?head @ take (unat (rec_snapshot_length rec)) (rec_snapshot_data rec))"
    using assms by (intro emits_both emits_bytes) (auto simp: rec_ok_def)
  then show ?thesis using True unfolding append_snapshot_payload_def by auto
next
  case False
  have "emits cap (append_bytes cap s_default_obd_snapshot 11) (take 11 s_default_obd_snapshot)"
    by (rule emits_bytes) (simp add: s_default_obd_snapshot_def)
  then show ?thesis using False unfolding append_snapshot_payload_def by auto
qed

lemma emits_ext: "\<exists>bs. emits cap (ext_loop cap rec n es) bs"
proof (induction es)
  case Nil
  show ?case by (auto simp: emits_def intro!: exI[of _ "[]"])
next
  case (Cons e es)
  then obtain bs where "emits cap (ext_loop cap rec n es) bs" by blast
  then have "emits cap (both (when_append (n = 0xFF \<or> n = 0 \<or> n = fst e)
       (both (append_byte cap (fst e)) (append_byte cap (snd e rec)))) (ext_loop cap rec n es))
     ((if n = 0xFF \<or> n = 0 \<or> n = fst e then [fst e] @ [snd e rec] else []) @ bs)"
    by (intro emits_both emits_when emits_byte)
  moreover have "ext_loop cap rec n (e # es) = both (when_append (n = 0xFF \<or> n = 0 \<or> n = fst e)
       (both (append_byte cap (fst e)) (append_byte cap (snd e rec)))) (ext_loop cap rec n es)"
    by (rule ext) simp
  ultimately show ?case by auto
qed

section \<open>Reports\<close>

text \<open>A report of known bytes.\<close>

definition reports :: "u16 \<Rightarrow> (bytes \<Rightarrow> (UdsCallbackResult \<times> bytes) option) \<Rightarrow> bytes \<Rightarrow> bool" where
  "reports cap h bs \<longleftrightarrow> (\<forall>out. length out \<le> unat cap \<longrightarrow>
     (if length out + length bs \<le> unat cap then h out = Some (UDS_RESULT_OK, out @ bs)
      else \<exists>out'. h out = Some (UDS_RESULT_RESPONSE_TOO_LONG, out') \<and> length out' \<le> unat cap \<and> take (length out) out' = out))"

lemma reports_ok: "reports cap ok_report []"
  by (simp add: reports_def ok_report_def)

lemma reports_append:
  assumes "emits cap f a" "reports cap h b"
  shows "reports cap (append_or_fail f h) (a @ b)"
  unfolding reports_def
proof (intro allI impI)
  fix out :: bytes assume le: "length out \<le> unat cap"
  show "if length out + length (a @ b) \<le> unat cap then append_or_fail f h out = Some (UDS_RESULT_OK, out @ a @ b)
      else \<exists>out'. append_or_fail f h out = Some (UDS_RESULT_RESPONSE_TOO_LONG, out') \<and> length out' \<le> unat cap \<and>
        take (length out) out' = out"
  proof (cases "length out + length a \<le> unat cap")
    case True
    note f = emits_fits[OF assms(1) True]
    show ?thesis
    proof (cases "length (out @ a) + length b \<le> unat cap")
      case fits: True
      then show ?thesis using f assms(2) by (simp add: append_or_fail_def reports_def)
    next
      case False
      obtain out' where o: "h (out @ a) = Some (UDS_RESULT_RESPONSE_TOO_LONG, out')" "length out' \<le> unat cap"
        "take (length (out @ a)) out' = out @ a"
        using assms(2) False True unfolding reports_def by (metis length_append)
      show ?thesis using f o(1,2) take_prefix[OF o(3)] False by (simp add: append_or_fail_def)
    qed
  next
    case False
    then show ?thesis using emits_fails[OF assms(1) le False] by (auto simp: append_or_fail_def)
  qed
qed

lemma record_loop_Cons:
  "get_dtc_record st i = Some rec \<Longrightarrow> record_loop body st (i # is) = append_or_fail (body rec) (record_loop body st is)"
  by (rule ext) (simp add: append_or_fail_def)

lemma reports_loop:
  assumes "\<And>i. i \<in> set is \<Longrightarrow> \<exists>rec. get_dtc_record st i = Some rec \<and> emits cap (body rec) (e rec)"
  shows "reports cap (record_loop body st is) (concat (map (\<lambda>i. e (the (get_dtc_record st i))) is))"
  using assms
proof (induction "is")
  case Nil
  show ?case by (simp add: reports_def)
next
  case (Cons i "is")
  then obtain rec where rec: "get_dtc_record st i = Some rec" "emits cap (body rec) (e rec)" by auto
  show ?case unfolding record_loop_Cons[OF rec(1)] using reports_append[OF rec(2) Cons.IH] Cons.prems rec(1) by simp
qed

lemma reports_all:
  assumes "dtc_ok st" "\<And>rec. rec_ok rec \<Longrightarrow> emits cap (body rec) (e rec)"
  shows "reports cap (for_all_records body st) (concat (map e (dtc_records st)))"
proof -
  have "reports cap (record_loop body st [0..<unat (get_total_record_count st)])
      (concat (map (\<lambda>i. e (the (get_dtc_record st i))) [0..<unat (get_total_record_count st)]))"
    by (rule reports_loop) (use dtc_record[OF assms(1)] assms(2) in fastforce)
  then show ?thesis by (simp add: for_all_records_def dtc_records_def comp_def)
qed

lemma reports_some:
  assumes "dtc_ok st" "\<And>rec. rec_ok rec \<Longrightarrow> \<exists>bs. emits cap (body rec) bs"
  shows "\<exists>bs. reports cap (for_all_records body st) bs"
proof -
  obtain e where "\<And>rec. rec_ok rec \<Longrightarrow> emits cap (body rec) (e rec)" using assms(2) by metis
  then show ?thesis using reports_all[OF assms(1)] by blast
qed

section \<open>Every report is defined and stays within the capacity\<close>

definition safe_report :: "u16 \<Rightarrow> (bytes \<Rightarrow> (UdsCallbackResult \<times> bytes) option) \<Rightarrow> bool" where
  "safe_report cap h \<longleftrightarrow> (\<forall>out. length out \<le> unat cap \<longrightarrow>
     (\<exists>res out'. h out = Some (res, out') \<and> length out' \<le> unat cap \<and> take (length out) out' = out \<and> res \<noteq> UDS_RESULT_ERROR))"

lemma reports_safe: "reports cap h bs \<Longrightarrow> safe_report cap h"
  unfolding reports_def safe_report_def
  by (metis UdsCallbackResult.distinct(1) UdsCallbackResult.simps append_eq_conv_conj length_append)

lemma safe_all:
  "dtc_ok st \<Longrightarrow> (\<And>rec. rec_ok rec \<Longrightarrow> \<exists>bs. emits cap (body rec) bs) \<Longrightarrow> safe_report cap (for_all_records body st)"
  using reports_some reports_safe by blast

lemma safe_append:
  assumes "emits cap f a" "safe_report cap h"
  shows "safe_report cap (append_or_fail f h)"
  unfolding safe_report_def
proof (intro allI impI)
  fix out :: bytes assume le: "length out \<le> unat cap"
  show "\<exists>res out'. append_or_fail f h out = Some (res, out') \<and> length out' \<le> unat cap \<and> take (length out) out' = out \<and>
      res \<noteq> UDS_RESULT_ERROR"
  proof (cases "length out + length a \<le> unat cap")
    case True
    note f = emits_fits[OF assms(1) True]
    have "length (out @ a) \<le> unat cap" using True by simp
    then obtain res out' where o: "h (out @ a) = Some (res, out')" "length out' \<le> unat cap"
      "take (length (out @ a)) out' = out @ a" "res \<noteq> UDS_RESULT_ERROR"
      using assms(2) unfolding safe_report_def by blast
    show ?thesis using f o(1,2,4) take_prefix[OF o(3)] by (simp add: append_or_fail_def)
  next
    case False
    then show ?thesis using emits_fails[OF assms(1) le False] by (auto simp: append_or_fail_def)
  qed
qed

lemma safe_ok: "safe_report cap ok_report"
  by (rule reports_safe[OF reports_ok])

lemma safe_if: "safe_report cap f \<Longrightarrow> safe_report cap g \<Longrightarrow> safe_report cap (if b then f else g)"
  by simp

lemma safe_whenever: "(\<And>out. h out = g out) \<Longrightarrow> safe_report cap g \<Longrightarrow> safe_report cap h"
  by (simp add: safe_report_def)

lemma emits_some_when: "\<exists>bs. emits cap f bs \<Longrightarrow> \<exists>bs. emits cap (when_append b f) bs"
  using emits_when by blast

lemma emits_some_both: "\<exists>bs. emits cap f bs \<Longrightarrow> \<exists>bs. emits cap g bs \<Longrightarrow> \<exists>bs. emits cap (both f g) bs"
  using emits_both by blast

lemma emits_some_byte: "\<exists>bs. emits cap (append_byte cap v) bs"
  by (rule exI, rule emits_byte)

lemma emits_some_dtc: "\<exists>bs. emits cap (append_dtc cap rec) bs"
  by (rule exI, rule emits_dtc)

lemma emits_some_four: "\<exists>bs. emits cap (append_bytes cap [a, b, c, d] 4) bs"
  by (rule exI, rule emits_bytes) simp

lemma emits_some_extended: "\<exists>bs. emits cap (append_single_extended_data cap rec n) bs"
  unfolding append_single_extended_data_def by (rule emits_ext)

lemmas emits_some_basic = emits_some_byte emits_some_dtc emits_some_four emits_some_extended

lemma emits_some_snapshot: "rec_ok rec \<Longrightarrow> \<exists>bs. emits cap (append_matching_snapshot cap rec n) bs"
  unfolding append_matching_snapshot_def
  by (intro emits_some_when emits_some_both emits_some_basic emits_snapshot)

lemma emits_some_severity: "\<exists>bs. emits cap (append_severity cap rec) bs"
  unfolding append_severity_def by (intro emits_some_both emits_some_basic)

lemma safe_append_some: "\<exists>a. emits cap f a \<Longrightarrow> safe_report cap h \<Longrightarrow> safe_report cap (append_or_fail f h)"
  using safe_append by blast

lemma found_record:
  assumes "dtc_ok st" "find_dtc_index st dtc = Some idx"
  shows "\<exists>rec. get_dtc_record st idx = Some rec \<and> rec_ok rec"
  using assms dtc_record[OF assms(1)] by (auto simp: find_dtc_index_iff)

text \<open>The branch for one code that several reports have.\<close>

lemma safe_one_dtc:
  assumes "dtc_ok st" "\<And>rec. rec_ok rec \<Longrightarrow> safe_report cap (g rec)"
  shows "safe_report cap (\<lambda>out. case find_dtc_index st dtc of
     None \<Rightarrow> Some (UDS_RESULT_OUT_OF_RANGE, out)
   | Some idx \<Rightarrow> do { rec \<leftarrow> get_dtc_record st idx; g rec out })"
proof (cases "find_dtc_index st dtc")
  case None
  then show ?thesis by (simp add: safe_report_def)
next
  case (Some idx)
  then obtain rec where "get_dtc_record st idx = Some rec" "rec_ok rec" using found_record assms(1) by blast
  then show ?thesis using Some assms(2) by simp
qed

lemma count_loop_filter:
  assumes "\<forall>i \<in> set is. get_dtc_record st i \<noteq> None"
  shows "count_loop st m is c = Some (c + of_nat (length (filter (\<lambda>r. rec_active r \<and> rec_status_byte r AND m \<noteq> 0)
     (map (\<lambda>i. the (get_dtc_record st i)) is))))"
  using assms by (induction "is" arbitrary: c) auto

lemma count_records:
  assumes "dtc_ok st"
  shows "count_loop st m [0..<unat (get_total_record_count st)] 0 =
    Some (of_nat (length (filter (\<lambda>r. rec_active r \<and> rec_status_byte r AND m \<noteq> 0) (dtc_records st))))"
  using count_loop_filter[of "[0..<unat (get_total_record_count st)]" st m 0] dtc_record[OF assms]
  by (fastforce simp: dtc_records_def)

lemmas emits_some = emits_some_when emits_some_both emits_some_basic emits_some_snapshot emits_some_severity emits_snapshot

lemmas safe_reports = safe_append_some safe_all safe_ok

lemma safe_list: "dtc_ok st \<Longrightarrow> safe_report cap (dtc_report_list_by_mask st sub request cap)"
  unfolding dtc_report_list_by_mask_def Let_def by (intro safe_reports emits_some)

lemma safe_count: "dtc_ok st \<Longrightarrow> safe_report cap (dtc_report_count_by_mask st sub request cap)"
  by (rule safe_whenever[of _ "append_or_fail (append_bytes cap [_, _, _, _] 4) ok_report"])
    (simp add: dtc_report_count_by_mask_def count_records, intro safe_reports emits_some)

lemma safe_snapshot_identification: "dtc_ok st \<Longrightarrow> safe_report cap (dtc_report_snapshot_identification st sub request cap)"
  unfolding dtc_report_snapshot_identification_def by (intro safe_reports emits_some)

lemma safe_snapshot_by_dtc:
  assumes "dtc_ok st" "5 \<le> length request"
  shows "safe_report cap (dtc_report_snapshot_by_dtc st sub request cap)"
proof -
  have "safe_report cap (append_or_fail (when_append (sub = 0x18) (append_byte cap (req_byte request 6 0)))
     (if req_dtc request = 0xFFFFFF
      then for_all_records (\<lambda>rec. when_append (rec_active rec)
             (both (append_dtc cap rec) (append_matching_snapshot cap rec (req_byte request 5 0xFF)))) st
      else (\<lambda>out. case find_dtc_index st (req_dtc request) of
          None \<Rightarrow> Some (UDS_RESULT_OUT_OF_RANGE, out)
        | Some idx \<Rightarrow> do { rec \<leftarrow> get_dtc_record st idx;
            append_or_fail (append_dtc cap rec)
              (append_or_fail (append_matching_snapshot cap rec (req_byte request 5 0xFF)) ok_report) out })))"
    using assms(1) by (intro safe_reports safe_if emits_some safe_one_dtc)
  then show ?thesis
    by (rule safe_whenever[rotated]) (use assms(2) in \<open>simp add: dtc_report_snapshot_by_dtc_def Let_def if_distribR\<close>)
qed

lemma safe_snapshot_by_record_number:
  "dtc_ok st \<Longrightarrow> safe_report cap (dtc_report_snapshot_by_record_number st sub request cap)"
  unfolding dtc_report_snapshot_by_record_number_def Let_def by (intro safe_reports emits_some)

lemma safe_extended_by_dtc:
  assumes "dtc_ok st" "5 \<le> length request"
  shows "safe_report cap (dtc_report_extended_by_dtc st sub request cap)"
proof -
  have "safe_report cap (append_or_fail (when_append (sub = 0x19) (append_byte cap (req_byte request 6 0)))
     (if req_dtc request = 0xFFFFFF
      then for_all_records (\<lambda>rec. when_append (rec_active rec)
             (both (append_dtc cap rec) (append_single_extended_data cap rec (req_byte request 5 0xFF)))) st
      else (\<lambda>out. case find_dtc_index st (req_dtc request) of
          None \<Rightarrow> Some (UDS_RESULT_OUT_OF_RANGE, out)
        | Some idx \<Rightarrow> do { rec \<leftarrow> get_dtc_record st idx;
            append_or_fail (append_dtc cap rec)
              (append_or_fail (when_append (rec_active rec) (append_single_extended_data cap rec (req_byte request 5 0xFF)))
                ok_report) out })))"
    using assms(1) by (intro safe_reports safe_if emits_some safe_one_dtc)
  then show ?thesis
    by (rule safe_whenever[rotated]) (use assms(2) in \<open>simp add: dtc_report_extended_by_dtc_def Let_def if_distribR\<close>)
qed

lemma safe_severity_record: "dtc_ok st \<Longrightarrow> safe_report cap (dtc_report_severity_record st sub request cap)"
  unfolding dtc_report_severity_record_def Let_def by (intro safe_reports emits_some)

lemma safe_severity_info:
  assumes "dtc_ok st" "5 \<le> length request"
  shows "safe_report cap (dtc_report_severity_info_by_dtc st sub request cap)"
proof -
  have "safe_report cap (\<lambda>out. case find_dtc_index st (req_dtc request) of
          None \<Rightarrow> Some (UDS_RESULT_OUT_OF_RANGE, out)
        | Some idx \<Rightarrow> do { rec \<leftarrow> get_dtc_record st idx;
            append_or_fail (both (append_byte cap (status_availability_mask st)) (append_severity cap rec)) ok_report out })"
    using assms(1) by (intro safe_reports emits_some safe_one_dtc)
  then show ?thesis
    by (rule safe_whenever[rotated]) (use assms(2) in \<open>simp add: dtc_report_severity_info_by_dtc_def\<close>)
qed

lemma safe_fault_detection_counter: "dtc_ok st \<Longrightarrow> safe_report cap (dtc_report_fault_detection_counter st sub request cap)"
  unfolding dtc_report_fault_detection_counter_def by (intro safe_reports emits_some)

lemma safe_ext_data_by_record_number:
  "dtc_ok st \<Longrightarrow> safe_report cap (dtc_report_ext_data_by_record_number st sub request cap)"
  unfolding dtc_report_ext_data_by_record_number_def Let_def by (intro safe_reports emits_some)

lemma safe_user_def_memory: "dtc_ok st \<Longrightarrow> safe_report cap (dtc_report_user_def_memory_by_mask st sub request cap)"
  unfolding dtc_report_user_def_memory_by_mask_def Let_def by (intro safe_reports emits_some)

lemma safe_severity_mask: "dtc_ok st \<Longrightarrow> safe_report cap (dtc_report_severity_mask_record st sub request cap)"
  unfolding dtc_report_severity_mask_record_def Let_def by (intro safe_reports emits_some)

lemma safe_wwh_obd: "dtc_ok st \<Longrightarrow> safe_report cap (dtc_report_wwh_obd_by_mask st sub request cap)"
  unfolding dtc_report_wwh_obd_by_mask_def Let_def by (intro safe_reports emits_some)

lemmas handler_safes = safe_list safe_count safe_snapshot_identification safe_snapshot_by_dtc
  safe_snapshot_by_record_number safe_extended_by_dtc safe_severity_record safe_severity_info
  safe_fault_detection_counter safe_ext_data_by_record_number safe_user_def_memory safe_severity_mask safe_wwh_obd

lemma table_safe:
  assumes "dtc_ok st" "map_of k_dtc_subfns sub = Some (n, h)" "unat n \<le> length request"
  shows "safe_report cap (h st sub request cap)"
proof -
  have "(sub, n, h) \<in> set k_dtc_subfns" using assms(2) by (rule map_of_SomeD)
  then show ?thesis using assms(1,3) by (auto simp: k_dtc_subfns_def handler_safes)
qed

text \<open>The library checks at least the lengths that the reports need.\<close>

lemma table_lengths:
  "list_all (\<lambda>m. case map_of (k_dtc_subfns :: (u8 \<times> u8 \<times> 'f DtcSubfnHandler) list) (dtc_subfunction m) of
     Some (n, h) \<Rightarrow> n \<le> dtc_min_len m | None \<Rightarrow> False) k_dtc_subfn_table"
  by (simp add: k_dtc_subfn_table_def dtc_meta_def k_dtc_subfns_def)

lemma library_length:
  assumes "uds_dtc_request_length_valid sub (of_nat (length request))" "length request < 65536"
  shows "\<exists>n h. map_of (k_dtc_subfns :: (u8 \<times> u8 \<times> 'f DtcSubfnHandler) list) sub = Some (n, h) \<and> unat n \<le> length request"
proof -
  obtain m where m: "uds_dtc_find_meta sub = Some m" "of_nat (length request) \<ge> (ucast (dtc_min_len m) :: u16)"
    using assms(1) by (auto simp: uds_dtc_request_length_valid_def split: option.splits)
  then have le: "unat (dtc_min_len m) \<le> length request"
    using assms(2) by (simp add: word_le_nat_alt unat_of_nat_16)
  have "m \<in> set k_dtc_subfn_table" "dtc_subfunction m = sub"
    using m(1) by (auto simp: uds_dtc_find_meta_def find_Some_iff)
  then show ?thesis using le table_lengths[where ?'f = 'f] unfolding list_all_iff
    by (auto simp: word_le_nat_alt split: option.splits)
qed

section \<open>The initial storage\<close>

lemma all_some_map: "(\<And>x. x \<in> set xs \<Longrightarrow> g x = Some (h x)) \<Longrightarrow> all_some (map g xs) = Some (map h xs)"
  by (induction xs) auto

lemma list_all_replicate: "list_all P (replicate n x) \<longleftrightarrow> n = 0 \<or> P x"
  by (induction n) auto

lemma ram_of_rom_ok:
  assumes "rom_ok rom"
  shows "\<exists>ram. ram_of_rom rom = Some ram \<and> ram_ok ram"
proof -
  obtain d where d: "(if rom_snapshot_length rom > 0
       then copy_loop (snapshot_data ram_zero) 0 (rom_snapshot_data rom) 0 (unat (rom_snapshot_length rom))
       else Some (snapshot_data ram_zero)) = Some d" "length d = 16"
    using assms by (cases "rom_snapshot_length rom > 0") (auto simp: rom_ok_def ram_zero_def dtc_sizes copy_loop_closed)
  obtain e where e: "(if rom_extended_length rom > 0
       then copy_loop (extended_data ram_zero) 0 (rom_extended_data rom) 0 (unat (rom_extended_length rom))
       else Some (extended_data ram_zero)) = Some e" "length e = 8"
    using assms by (cases "rom_extended_length rom > 0") (auto simp: rom_ok_def ram_zero_def dtc_sizes copy_loop_closed)
  show ?thesis using d(2) e(2) assms unfolding ram_of_rom_def d(1) e(1) by (simp add: ram_ok_def rom_ok_def)
qed

lemma init_ok: "\<exists>st. uds_dtc_app_init = Some st \<and> dtc_ok st \<and> dynamic_count st = 0 \<and> dtc_setting_enabled st \<and>
    nvm_store st = None \<and> status_availability_mask st = 0xFF"
proof -
  let ?rams = "map (\<lambda>i. the (ram_of_rom (s_rom_dtc_defs ! i))) [0..<69]"
  have "all_some (map (\<lambda>i. ram_of_rom (s_rom_dtc_defs ! i)) [0..<69]) = Some ?rams"
    by (rule all_some_map) (use ram_of_rom_ok[OF rom_nth_ok] in fastforce)
  moreover have "list_all ram_ok ?rams"
    using ram_of_rom_ok[OF rom_nth_ok] by (fastforce simp: list_all_iff)
  moreover have "ram_ok ram_zero" by (simp add: ram_ok_def ram_zero_def dtc_sizes)
  ultimately show ?thesis using rom_distinct
    by (simp add: uds_dtc_app_init_def dtc_sizes dtc_ok_def dynamic_numbers_def list_all_replicate)
qed

lemma init_storage:
  "uds_dtc_app_init = Some st \<Longrightarrow> dtc_ok st \<and> dynamic_count st = 0 \<and> dtc_setting_enabled st \<and>
    nvm_store st = None \<and> status_availability_mask st = 0xFF"
  using init_ok by (metis option.inject)

section \<open>Properties\<close>

lemma ucast_of_nat_8: "ucast (of_nat n :: u16) = (of_nat n :: u8)"
  by (rule bit_word_eqI) (auto simp: bit_simps)

lemma dtc_reports_total:
  assumes "dtc_ok st" "length request < 65536"
  shows "\<exists>res out len'. uds_dtc_app_report st sub request len cap = Some (res, out, len') \<and> length out \<le> unat cap \<and>
    (if res = UDS_RESULT_OK then unat len' = length out \<and> out \<noteq> [] \<and> hd out = sub else len' = len) \<and>
    (uds_dtc_request_length_valid sub (of_nat (length request)) \<and> cap \<ge> 2 \<longrightarrow> res \<noteq> UDS_RESULT_ERROR)"
proof (cases "cap < 2 \<or> length request = 0")
  case True
  then have "\<not> (uds_dtc_request_length_valid sub (of_nat (length request)) \<and> cap \<ge> 2)"
    using library_length[of sub request, where ?'f = 'a] assms(2)
    by (auto simp: k_dtc_subfns_def split: if_splits)
  with True show ?thesis by (auto simp: uds_dtc_app_report_def)
next
  case False
  then have cap: "1 \<le> unat cap" by (auto simp: word_less_nat_alt)
  show ?thesis
  proof (cases "map_of (k_dtc_subfns :: (u8 \<times> u8 \<times> 'a DtcSubfnHandler) list) sub")
    case None
    then show ?thesis using False library_length[of sub request, where ?'f = 'a] assms(2)
      by (auto simp: uds_dtc_app_report_def)
  next
    case (Some e)
    obtain n h where e: "e = (n, h)" by (cases e)
    show ?thesis
    proof (cases "length request < unat n")
      case True
      then show ?thesis using False Some e library_length[of sub request, where ?'f = 'a] assms(2)
        by (auto simp: uds_dtc_app_report_def)
    next
      case enough: False
      then have "safe_report cap (h st sub request cap)" using table_safe[OF assms(1)] Some e by simp
      then obtain res out where r: "h st sub request cap [sub] = Some (res, out)" "length out \<le> unat cap"
        "take 1 out = [sub]" "res \<noteq> UDS_RESULT_ERROR"
        using cap unfolding safe_report_def by (metis One_nat_def length_Cons list.size(3))
      have "out \<noteq> []" "hd out = sub" using r(3) by (cases out; simp)+
      moreover have "unat (of_nat (length out) :: u16) = length out"
        using r(2) unat_u16_lt[of cap] by (intro unat_of_nat_16) linarith
      ultimately show ?thesis using False Some e enough r cap
        by (auto simp: uds_dtc_app_report_def append_byte_def)
    qed
  qed
qed

text \<open>
  Every report of ReadDTCInformation is defined: whatever the request, it reads no byte that is not
  there, keeps its response within the capacity, and reports as length exactly the bytes written, the first of
  which is the subfunction; without success the length is untouched. A request that the library lets through
  (\<open>uds_dtc_request_length_valid\<close>) is never answered with a general failure.
\<close>

theorem dtc_reports_defined:
  assumes "dtc_ok st" "length request < 65536"
  shows "\<exists>res out len'. uds_dtc_app_report st sub request len cap = Some (res, out, len') \<and> length out \<le> unat cap \<and>
    (if res = UDS_RESULT_OK then unat len' = length out \<and> out \<noteq> [] \<and> hd out = sub else len' = len) \<and>
    (uds_dtc_request_length_valid sub (of_nat (length request)) \<and> cap \<ge> 2 \<longrightarrow> res \<noteq> UDS_RESULT_ERROR)"
  by (rule dtc_reports_total[OF assms])

theorem dtc_reports_defined_witness:
  "\<exists>res out len'. uds_dtc_app_report (the uds_dtc_app_init :: nat UdsDtcAppStorage) 0x06 [0x19, 0x06, 0xFF, 0xFF, 0xFF, 0xFF] 7 100 =
      Some (res, out, len') \<and> length out \<le> 100 \<and>
    (if res = UDS_RESULT_OK then unat len' = length out \<and> out \<noteq> [] \<and> hd out = 6 else len' = 7) \<and> res \<noteq> UDS_RESULT_ERROR"
proof -
  obtain st :: "nat UdsDtcAppStorage" where st: "uds_dtc_app_init = Some st" "dtc_ok st" using init_ok by blast
  have valid: "uds_dtc_request_length_valid 0x06 6"
    by (simp add: uds_dtc_request_length_valid_def uds_dtc_find_meta_def k_dtc_subfn_table_def dtc_meta_def)
  obtain res out len' where "uds_dtc_app_report st 0x06 [0x19, 0x06, 0xFF, 0xFF, 0xFF, 0xFF] 7 100 = Some (res, out, len')"
    "length out \<le> 100" "if res = UDS_RESULT_OK then unat len' = length out \<and> out \<noteq> [] \<and> hd out = 6 else len' = 7"
    "res \<noteq> UDS_RESULT_ERROR"
    using dtc_reports_defined[OF st(2), of "[0x19, 0x06, 0xFF, 0xFF, 0xFF, 0xFF]" 6 7 100] valid by auto
  then show ?thesis unfolding st(1) option.sel by blast
qed

text \<open> C35.
  The list of trouble codes by status mask (0x02), of all supported codes (0x0A) and the count
  by mask (0x01) agree with the fault memory: the list has one entry for every record the mask selects, in
  the order of the memory, with its current status - all of them, or the response is too long; the
  count is their number.
\<close>

theorem dtc_lists_exact:
  assumes "dtc_ok st" "2 \<le> length request" "5 \<le> unat cap" "sub = 0x02 \<or> sub = 0x0A"
  defines "listed \<equiv> filter (\<lambda>r. sub = 0x0A \<or> rec_active r \<and> rec_status_byte r AND req_byte request 2 0xFF \<noteq> 0) (dtc_records st)"
  shows "(if 2 + 4 * length listed \<le> unat cap
      then uds_dtc_app_report st sub request len cap = Some (UDS_RESULT_OK,
        sub # status_availability_mask st # concat (map dtc_bytes listed), of_nat (2 + 4 * length listed))
      else \<exists>out. uds_dtc_app_report st sub request len cap = Some (UDS_RESULT_RESPONSE_TOO_LONG, out, len)) \<and>
    (sub = 0x02 \<longrightarrow> uds_dtc_app_report st 0x01 request len cap = Some (UDS_RESULT_OK,
        [0x01, status_availability_mask st, 1, 0, of_nat (length listed)], 5))"
proof -
  let ?m = "req_byte request 2 0xFF"
  let ?sel = "\<lambda>r. sub = 0x0A \<or> rec_active r \<and> rec_status_byte r AND ?m \<noteq> 0"
  have sel: "(if sub = 0x0A then True else if rec_active r then
       if sub = 0x15 then rec_status_byte r AND UDS_DTC_STATUS_CONFIRMED \<noteq> 0 else rec_status_byte r AND ?m \<noteq> 0 else False) =
     ?sel r" for r using assms(4) by auto
  have bytes: "concat (map (\<lambda>r. if ?sel r then dtc_bytes r else []) rs) = concat (map dtc_bytes (filter ?sel rs))"
    "length (concat (map dtc_bytes (filter ?sel rs))) = 4 * length (filter ?sel rs)" for rs
    by (induction rs) (auto simp: dtc_bytes_def)
  have "reports cap (dtc_report_list_by_mask st sub request cap)
      ([status_availability_mask st] @ concat (map (\<lambda>r. if ?sel r then dtc_bytes r else []) (dtc_records st)))"
    unfolding dtc_report_list_by_mask_def Let_def sel
    by (intro reports_append emits_byte reports_all assms(1) emits_when emits_dtc)
  then have rep: "reports cap (dtc_report_list_by_mask st sub request cap)
      (status_availability_mask st # concat (map dtc_bytes listed))"
    by (simp add: bytes listed_def)
  have "map_of (k_dtc_subfns :: (u8 \<times> u8 \<times> 'a DtcSubfnHandler) list) sub = Some (2, dtc_report_list_by_mask)"
    using assms(4) by (auto simp: k_dtc_subfns_def)
  then have run: "uds_dtc_app_report st sub request len cap = do {
      (res, out) \<leftarrow> dtc_report_list_by_mask st sub request cap [sub];
      Some (res, out, if res = UDS_RESULT_OK then of_nat (length out) else len) }"
    using assms(2,3) by (auto simp: uds_dtc_app_report_def append_byte_def word_less_nat_alt)
  have len: "length (concat (map dtc_bytes listed)) = 4 * length listed"
    unfolding listed_def by (rule bytes(2))
  have at_sub: "if 2 + 4 * length listed \<le> unat cap
      then dtc_report_list_by_mask st sub request cap [sub] =
        Some (UDS_RESULT_OK, [sub] @ status_availability_mask st # concat (map dtc_bytes listed))
      else \<exists>out'. dtc_report_list_by_mask st sub request cap [sub] = Some (UDS_RESULT_RESPONSE_TOO_LONG, out')"
    using rep[unfolded reports_def, rule_format, of "[sub]"] assms(3) len by (auto split: if_splits)
  have list: "if 2 + 4 * length listed \<le> unat cap
      then uds_dtc_app_report st sub request len cap = Some (UDS_RESULT_OK,
        sub # status_availability_mask st # concat (map dtc_bytes listed), of_nat (2 + 4 * length listed))
      else \<exists>out. uds_dtc_app_report st sub request len cap = Some (UDS_RESULT_RESPONSE_TOO_LONG, out, len)"
  proof (cases "2 + 4 * length listed \<le> unat cap")
    case True
    then have "dtc_report_list_by_mask st sub request cap [sub] =
        Some (UDS_RESULT_OK, [sub] @ status_availability_mask st # concat (map dtc_bytes listed))"
      using at_sub by simp
    then show ?thesis using True len by (simp add: run)
  next
    case False
    then have "\<exists>out. dtc_report_list_by_mask st sub request cap [sub] = Some (UDS_RESULT_RESPONSE_TOO_LONG, out)"
      using at_sub by auto
    then show ?thesis using False by (auto simp: run)
  qed
  have "length listed \<le> 80"
    using length_filter_le[of ?sel "dtc_records st"] unat_total[OF assms(1)] assms(1)
    by (simp add: listed_def dtc_records_def dtc_ok_def)
  then have "unat (drop_bit 8 (of_nat (length listed) :: u16)) = 0"
    by (simp only: unat_drop_bit_eq) (simp add: drop_bit_eq_div unat_of_nat_16)
  then have small: "drop_bit 8 (of_nat (length listed) :: u16) = 0" by (simp add: unat_eq_zero)
  have "uds_dtc_app_report st 0x01 request len cap = Some (UDS_RESULT_OK,
      [0x01, status_availability_mask st, 1, 0, of_nat (length listed)], 5)" if "sub = 0x02"
    using assms(2,3) count_records[OF assms(1), of ?m] that small
    by (cases request) (simp_all add: uds_dtc_app_report_def append_byte_def word_less_nat_alt k_dtc_subfns_def dtc_report_count_by_mask_def
      append_or_fail_def append_bytes_def ok_report_def listed_def ucast_of_nat_8, auto)
  with list show ?thesis by blast
qed

text \<open>The three codes that are active after the initialisation.\<close>

theorem dtc_lists_exact_witness:
  "\<exists>st :: nat UdsDtcAppStorage. uds_dtc_app_init = Some st \<and>
     (let listed = filter (\<lambda>r. (0x02 :: u8) = 0x0A \<or> rec_active r \<and> rec_status_byte r AND 8 \<noteq> 0) (dtc_records st) in
       (if 2 + 4 * length listed \<le> 400
        then uds_dtc_app_report st 0x02 [0x19, 0x02, 8] 0 400 = Some (UDS_RESULT_OK,
          2 # status_availability_mask st # concat (map dtc_bytes listed), of_nat (2 + 4 * length listed))
        else \<exists>out. uds_dtc_app_report st 0x02 [0x19, 0x02, 8] 0 400 = Some (UDS_RESULT_RESPONSE_TOO_LONG, out, 0)))"
proof -
  obtain st :: "nat UdsDtcAppStorage" where st: "uds_dtc_app_init = Some st" "dtc_ok st" using init_ok by blast
  have "req_byte [0x19, 0x02, 8] 2 0xFF = 8" by (simp add: req_byte_def)
  then show ?thesis
    using dtc_lists_exact[OF st(2), of "[0x19, 0x02, 8]" 400 2 0] by (intro exI[of _ st]) (auto simp: st(1))
qed

end
