(* ===== verification/Dtc_Invariant.thy ===== *)
theory Dtc_Invariant
  imports Dtc_Reports
begin

text \<open>
  The operations of the fault memory keep its well-formedness and are defined, whatever the parameter
  store answers, and the debouncing of the reported events.
\<close>

section \<open>Saving is defined\<close>

definition store_usable :: "'f UdsParamStore \<Rightarrow> bool" where
  "store_usable store \<longleftrightarrow> port_erase (wl_port store) \<noteq> None \<and> port_write (wl_port store) \<noteq> None \<and>
     sector_count store \<noteq> 0 \<and> unat (data_size store) \<le> 1480"

lemma write_padded_defined:
  assumes "port_write (wl_port store) = Some w" "src_size \<le> length src"
  shows "\<exists>r f'. write_padded_chunked store f addr src src_size n k = Some (r, f') \<and>
    ((\<forall>f a bs. fst (w f a bs) = 0) \<longrightarrow> r = UDS_PARAM_OK)"
proof (induction "n - k" arbitrary: f k rule: less_induct)
  case less
  show ?case
  proof (cases "k < n")
    case True
    let ?t = "min (n - k) 64"
    let ?c = "if k < src_size then min (src_size - k) ?t else 0"
    let ?chunk = "take ?c (drop k src) @ replicate (?t - ?c) (erased_byte store)"
    have ok: "(k + ?c > length src \<and> ?c > 0) = False" using assms(2) by auto
    obtain s f1 where w: "w f (addr + of_nat k) ?chunk = (s, f1)" by (cases "w f (addr + of_nat k) ?chunk")
    have eq: "write_padded_chunked store f addr src src_size n k =
        (if s \<noteq> 0 then Some (UDS_PARAM_ERR, f1) else write_padded_chunked store f1 addr src src_size n (k + ?t))"
      by (subst write_padded_chunked.simps)
        (simp only: Let_def True ok if_True if_False write_at_def assms(1) option.map w Option.bind.simps prod.case)
    have "n - (k + ?t) < n - k" using True by simp
    from less[OF this, of f1] show ?thesis
      unfolding eq using w by (cases "s = 0") (auto, metis fst_conv)
  next
    case False
    then show ?thesis by (subst write_padded_chunked.simps) simp
  qed
qed

lemma save_defined:
  assumes "store_usable store" "length data = 1480"
  shows "\<exists>r store' f'. uds_param_save store data f = Some (r, store', f') \<and> store_usable store'"
proof -
  obtain e w where port: "port_erase (wl_port store) = Some e" "port_write (wl_port store) = Some w"
    using assms(1) by (auto simp: store_usable_def)
  have "\<exists>r sec sl f1. prepare_next_slot store f = Some (r, sec, sl, f1)"
    using assms(1) port(1) by (simp add: prepare_next_slot_def store_usable_def erase_at_def Let_def case_prod_beta)
  then obtain r sec sl f1 where p: "prepare_next_slot store f = Some (r, sec, sl, f1)" by blast
  have d: "unat (data_size store) \<le> length data" using assms by (simp add: store_usable_def)
  have h: "16 \<le> length (header_bytes (save_header store data))" by (simp add: header_bytes_def save_header_def)
  obtain r1 f2 where w1: "write_padded_chunked store f1 (slot_addr store sec sl + ucast (header_size store)) data
      (unat (data_size store)) (unat (payload_size_aligned store)) 0 = Some (r1, f2)"
    using write_padded_defined[OF port(2) d] by blast
  obtain r2 f3 where w2: "write_padded_chunked store f2 (slot_addr store sec sl) (header_bytes (save_header store data)) 16
      (unat (header_size store)) 0 = Some (r2, f3)"
    using write_padded_defined[OF port(2) h] by blast
  show ?thesis using p w1 w2 assms(1) by (simp add: uds_param_save_def Let_def store_usable_def)
qed

section \<open>The block that is saved\<close>

definition block_ok :: "UdsDtcNvBlock \<Rightarrow> bool" where
  "block_ok b \<longleftrightarrow> length (nv_records b) = 80 \<and> length (nv_snapshots b) = 8 \<and>
     list_all (\<lambda>s. length (nvs_data s) = 16) (nv_snapshots b) \<and> unat (nv_snapshot_count b) \<le> 8 \<and>
     list_all (\<lambda>s. unat (nvs_length s) \<le> 16) (nv_snapshots b)"

lemma block_start_ok: "block_ok (nv_block_start n)"
  by (simp add: block_ok_def nv_block_start_def dtc_sizes list_all_replicate)

lemma list_all_update: "list_all P xs \<Longrightarrow> P x \<Longrightarrow> list_all P (xs[i := x])"
  by (induction xs arbitrary: i) (auto split: nat.splits)

text \<open>One record: its entry is written, perhaps its snapshot.\<close>

lemma nv_fill_records:
  assumes "dtc_ok st" "m \<le> n" "n \<le> unat (get_total_record_count st)" "block_ok b"
  shows "\<exists>b'. nv_fill st [m..<n] b = Some b' \<and> block_ok b' \<and> nv_magic b' = nv_magic b \<and> nv_version b' = nv_version b \<and>
    nv_record_count b' = nv_record_count b \<and>
    nv_records b' = take m (nv_records b) @ map (\<lambda>i. nv_record_of (the (get_dtc_record st i))) [m..<n] @ drop n (nv_records b)"
  using assms(2-)
proof (induction "n - m" arbitrary: m b)
  case 0
  then show ?case by simp
next
  case (Suc k)
  then have "m < n" by simp
  then have idx: "[m..<n] = m # [Suc m..<n]" "m < unat (get_total_record_count st)"
    using Suc.prems upt_conv_Cons by auto
  obtain rec where rec: "get_dtc_record st m = Some rec" "rec_ok rec" using dtc_record[OF assms(1) idx(2)] by blast
  have total: "unat (get_total_record_count st) \<le> 80" using assms(1) unat_total[OF assms(1)] by (simp add: dtc_ok_def)
  then have m: "m < 80" "m < length (nv_records b)" using idx(2) Suc.prems(3) by (auto simp: block_ok_def)
  let ?b = "b\<lparr> nv_records := (nv_records b)[m := nv_record_of rec] \<rparr>"
  have split: "take (Suc m) ((nv_records b)[m := x]) = take m (nv_records b) @ [x]"
    "drop n ((nv_records b)[m := x]) = drop n (nv_records b)" for x
    using m \<open>m < n\<close> by (simp_all add: take_Suc_conv_app_nth)
  have goal: "\<exists>b'. nv_fill st [Suc m..<n] c = Some b' \<and> block_ok b' \<and> nv_magic b' = nv_magic b \<and> nv_version b' = nv_version b \<and>
      nv_record_count b' = nv_record_count b \<and>
      nv_records b' = take m (nv_records b) @ map (\<lambda>i. nv_record_of (the (get_dtc_record st i))) [m..<n] @ drop n (nv_records b)"
    if "block_ok c" "nv_magic c = nv_magic b" "nv_version c = nv_version b" "nv_record_count c = nv_record_count b"
      "nv_records c = (nv_records b)[m := nv_record_of rec]" for c
    using Suc.hyps(1)[of "Suc m" c] Suc.hyps(2) Suc.prems that \<open>m < n\<close> rec(1) by (simp add: idx(1) split)
  show ?case
  proof (cases "rec_has_snapshot rec \<and> rec_snapshot_length rec > 0 \<and> unat (nv_snapshot_count b) < 8")
    case False
    have "block_ok ?b" using Suc.prems(3) by (simp add: block_ok_def)
    moreover have "nv_fill st [m..<n] b = nv_fill st [Suc m..<n] ?b"
      using False rec(1) m by (auto simp: idx(1) dtc_sizes Let_def mem_simps)
    ultimately show ?thesis using goal[of ?b] by simp
  next
    case True
    let ?s = "unat (nv_snapshot_count b)" and ?n = "unat (rec_snapshot_length rec)"
    have s: "?s < length (nv_snapshots b)" "length (nvs_data (nv_snapshots b ! ?s)) = 16"
      using True Suc.prems(3) by (auto simp: block_ok_def list_all_length)
    obtain data where data: "copy_loop (nvs_data (nv_snapshots b ! ?s)) 0 (rec_snapshot_data rec) 0 ?n = Some data" "length data = 16"
      using s(2) rec(2) by (auto simp: copy_loop_closed rec_ok_def)
    let ?c = "?b\<lparr> nv_snapshot_count := nv_snapshot_count b + 1, nv_snapshots := (nv_snapshots b)[?s :=
        \<lparr> nvs_dtc_number = rec_dtc_number rec, nvs_record_num = rec_snapshot_record_num rec,
          nvs_length = rec_snapshot_length rec, nvs_data = data \<rparr>] \<rparr>"
    have "unat (nv_snapshot_count b + 1) \<le> 8" using True by (simp add: unat_word_ariths)
    then have "block_ok ?c" using Suc.prems(3) data(2) rec(2) by (simp add: block_ok_def rec_ok_def list_all_update)
    moreover have "nv_fill st [m..<n] b = nv_fill st [Suc m..<n] ?c"
      using True rec(1) m s data(1) by (simp add: idx(1) dtc_sizes Let_def mem_simps)
    ultimately show ?thesis using goal[of ?c] by simp
  qed
qed

definition nv_image :: "'f UdsDtcAppStorage \<Rightarrow> UdsDtcNvRecord list" where
  "nv_image st = map nv_record_of (dtc_records st)"

lemma nv_fill_all:
  assumes "dtc_ok st"
  shows "\<exists>b. nv_fill st [0..<unat (get_total_record_count st)] (nv_block_start (get_total_record_count st)) = Some b \<and>
    block_ok b \<and> nv_magic b = UDS_DTC_NV_MAGIC \<and> nv_version b = UDS_DTC_NV_VERSION \<and>
    nv_record_count b = get_total_record_count st \<and> take (length (nv_image st)) (nv_records b) = nv_image st"
proof -
  let ?t = "unat (get_total_record_count st)" and ?b = "nv_block_start (get_total_record_count st)"
  have len: "length (nv_image st) = ?t" "nv_image st = map (\<lambda>i. nv_record_of (the (get_dtc_record st i))) [0..<?t]"
    by (simp_all add: nv_image_def dtc_records_def)
  obtain b where b: "nv_fill st [0..<?t] ?b = Some b" "block_ok b" "nv_magic b = nv_magic ?b" "nv_version b = nv_version ?b"
    "nv_record_count b = nv_record_count ?b" "nv_records b = nv_image st @ drop ?t (nv_records ?b)"
    using nv_fill_records[OF assms _ _ block_start_ok, of 0 ?t "get_total_record_count st"] len by auto
  then show ?thesis using len(1) by (simp add: nv_block_start_def)
qed

lemma length_block_bytes:
  assumes "block_ok b"
  shows "length (nv_block_bytes b) = 1480"
proof -
  have "length (concat (map nv_record_bytes rs)) = 16 * length rs" for rs
    by (induction rs) (auto simp: nv_record_bytes_def)
  moreover have "length (concat (map nv_snapshot_bytes ss)) = 24 * length ss" if "list_all (\<lambda>s. length (nvs_data s) = 16) ss" for ss
    using that by (induction ss) (auto simp: nv_snapshot_bytes_def)
  ultimately show ?thesis using assms by (simp add: block_ok_def nv_block_bytes_def)
qed

section \<open>Every operation keeps the storage well-formed\<close>

definition nvm_ok :: "'f UdsDtcAppStorage \<Rightarrow> bool" where
  "nvm_ok st \<longleftrightarrow> (case nvm_store st of None \<Rightarrow> True | Some store \<Rightarrow> store_usable store)"

lemma dtc_ok_nvm [simp]: "dtc_ok (st\<lparr> nvm_store := s \<rparr>) = dtc_ok st" "dtc_ok (st\<lparr> dtc_setting_enabled := b \<rparr>) = dtc_ok st"
  by (simp_all add: dtc_ok_def dynamic_numbers_def)

lemma records_nvm [simp]: "dtc_records (st\<lparr> nvm_store := s \<rparr>) = dtc_records st"
  by (simp add: dtc_records_def get_total_record_count_def get_dtc_record_def Let_def)

lemma save_to_nvm_defined:
  assumes "dtc_ok st" "nvm_ok st"
  shows "\<exists>ok s f'. uds_dtc_app_save_to_nvm st f = Some (ok, st\<lparr> nvm_store := s \<rparr>, f') \<and> nvm_ok (st\<lparr> nvm_store := s \<rparr>)"
proof (cases "nvm_store st")
  case None
  then have "st\<lparr> nvm_store := None \<rparr> = st" by (cases st) simp
  then show ?thesis using None assms(2)
    by (intro exI[of _ False] exI[of _ None] exI[of _ f]) (simp add: uds_dtc_app_save_to_nvm_def nvm_ok_def)
next
  case (Some store)
  obtain b where b: "nv_fill st [0..<unat (get_total_record_count st)] (nv_block_start (get_total_record_count st)) = Some b"
    "block_ok b" using nv_fill_all[OF assms(1)] by blast
  obtain r store' f' where "uds_param_save store (nv_block_bytes b) f = Some (r, store', f')" "store_usable store'"
    using save_defined[OF _ length_block_bytes[OF b(2)]] assms(2) Some by (fastforce simp: nvm_ok_def)
  then show ?thesis using Some b(1) by (auto simp: uds_dtc_app_save_to_nvm_def nvm_ok_def Let_def)
qed

text \<open>What an operation must keep for the next one.\<close>

definition dtc_inv :: "'f UdsDtcAppStorage \<Rightarrow> bool" where
  "dtc_inv st \<longleftrightarrow> dtc_ok st \<and> nvm_ok st"

lemma saved_inv: "dtc_inv st \<Longrightarrow> \<exists>s f'. saved r st f = Some (r, st\<lparr> nvm_store := s \<rparr>, f') \<and> dtc_inv (st\<lparr> nvm_store := s \<rparr>)"
  using save_to_nvm_defined[of st f] by (auto simp: saved_def dtc_inv_def)

lemma get_ram:
  assumes "dtc_ok st" "i < unat (get_total_record_count st)"
  shows "\<exists>ram. get_dtc_ram_status st i = Some ram \<and> ram_ok ram"
proof (cases "i < 69")
  case True
  then show ?thesis using assms(1) by (auto simp: get_dtc_ram_status_def dtc_sizes peek_def dtc_ok_def list_all_length)
next
  case False
  then have "i - 69 < unat (dynamic_count st)" "i - 69 < 11" using assms by (auto simp: unat_total dtc_ok_def)
  then show ?thesis using False assms(1)
    by (auto simp: get_dtc_ram_status_def dtc_sizes peek_def dtc_ok_def list_all_length Let_def)
qed

lemma put_fields [simp]:
  "dynamic_count (put_dtc_ram_status i ram st) = dynamic_count st"
  "nvm_store (put_dtc_ram_status i ram st) = nvm_store st"
  "dtc_setting_enabled (put_dtc_ram_status i ram st) = dtc_setting_enabled st"
  "dynamic_numbers (put_dtc_ram_status i ram st) = dynamic_numbers st"
  "get_total_record_count (put_dtc_ram_status i ram st) = get_total_record_count st"
proof -
  have "dyn_dtc_number (xs[d := (xs ! d)\<lparr> dyn_status := ram \<rparr>] ! i) = dyn_dtc_number (xs ! i)" for d and xs :: "UdsDtcDynamicRecord list" and i
    by (cases "i = d"; cases "d < length xs") (simp_all add: list_update_beyond)
  then have "map dyn_dtc_number (take n (xs[d := (xs ! d)\<lparr> dyn_status := ram \<rparr>])) = map dyn_dtc_number (take n xs)"
    for n d and xs :: "UdsDtcDynamicRecord list"
    by (intro nth_equalityI) simp_all
  then show "dynamic_numbers (put_dtc_ram_status i ram st) = dynamic_numbers st"
    by (simp add: dynamic_numbers_def put_dtc_ram_status_def Let_def)
qed (simp_all add: put_dtc_ram_status_def get_total_record_count_def Let_def)

lemma put_ok:
  assumes "dtc_ok st" "ram_ok ram"
  shows "dtc_ok (put_dtc_ram_status i ram st)"
  using assms unfolding dtc_ok_def put_fields
  by (simp add: put_dtc_ram_status_def Let_def list_all_update)

lemma put_inv: "dtc_inv st \<Longrightarrow> ram_ok ram \<Longrightarrow> dtc_inv (put_dtc_ram_status i ram st)"
  by (simp add: dtc_inv_def put_ok nvm_ok_def)

lemma get_put:
  assumes "dtc_ok st" "i < unat (get_total_record_count st)"
  shows "get_dtc_ram_status (put_dtc_ram_status i ram st) j = (if j = i then Some ram else get_dtc_ram_status st j)"
proof (cases "i < 69")
  case True
  then show ?thesis using assms(1)
    by (auto simp: get_dtc_ram_status_def put_dtc_ram_status_def dtc_sizes peek_def dtc_ok_def Let_def nth_list_update)
next
  case False
  then have "i - 69 < unat (dynamic_count st)" "i - 69 < 11" using assms by (auto simp: unat_total dtc_ok_def)
  then show ?thesis using False assms(1)
    by (auto simp: get_dtc_ram_status_def put_dtc_ram_status_def dtc_sizes peek_def dtc_ok_def Let_def nth_list_update)
qed

lemma find_put [simp]: "find_dtc_index (put_dtc_ram_status i ram st) d = find_dtc_index st d"
  using put_fields(4)[of i ram st] by (simp add: find_dtc_index_def dynamic_numbers_def cong: option.case_cong)

lemma nvm_simps [simp]:
  "find_dtc_index (st\<lparr> nvm_store := s \<rparr>) d = find_dtc_index st d"
  "get_dtc_ram_status (st\<lparr> nvm_store := s \<rparr>) i = get_dtc_ram_status st i"
  by (simp_all add: find_dtc_index_def get_dtc_ram_status_def Let_def cong: option.case_cong)

lemma found_index: "dtc_inv st \<Longrightarrow> find_dtc_index st d = Some i \<Longrightarrow> i < unat (get_total_record_count st)"
  by (simp add: find_dtc_index_iff dtc_inv_def)

lemma found_ram:
  assumes "dtc_inv st" "find_dtc_index st d = Some i"
  shows "\<exists>ram. get_dtc_ram_status st i = Some ram \<and> ram_ok ram"
  using get_ram[OF _ found_index[OF assms]] assms(1) by (simp add: dtc_inv_def)

definition updates :: "(UdsDtcRamStatus \<Rightarrow> UdsDtcRamStatus option) \<Rightarrow> bool" where
  "updates g \<longleftrightarrow> (\<forall>ram. ram_ok ram \<longrightarrow> (\<exists>ram'. g ram = Some ram' \<and> ram_ok ram'))"

text \<open>The setters that change one status.\<close>

lemma update_dtc_run:
  assumes "dtc_inv st" "updates g"
  shows "\<exists>r st' f'. update_dtc dtc g st f = Some (r, st', f') \<and> dtc_inv st' \<and>
    dtc_setting_enabled st' = dtc_setting_enabled st \<and>
    (\<forall>d. find_dtc_index st' d = find_dtc_index st d) \<and>
    (\<forall>i. get_dtc_ram_status st' i =
       (if find_dtc_index st dtc = Some i then Option.bind (get_dtc_ram_status st i) g else get_dtc_ram_status st i))"
proof (cases "find_dtc_index st dtc")
  case None
  then show ?thesis using assms(1)
    by (intro exI[of _ False] exI[of _ st] exI[of _ f]) (simp add: update_dtc_def)
next
  case (Some i)
  obtain ram where ram: "get_dtc_ram_status st i = Some ram" "ram_ok ram" using found_ram[OF assms(1) Some] by blast
  obtain ram' where g: "g ram = Some ram'" "ram_ok ram'" using assms(2) ram(2) by (auto simp: updates_def)
  let ?st = "put_dtc_ram_status i ram' st"
  obtain s f' where s: "saved True ?st f = Some (True, ?st\<lparr> nvm_store := s \<rparr>, f')" "dtc_inv (?st\<lparr> nvm_store := s \<rparr>)"
    using saved_inv[OF put_inv[OF assms(1) g(2), of i], of True f] by blast
  have "dtc_ok st" "i < unat (get_total_record_count st)"
    using assms(1) found_index[OF assms(1) Some] by (simp_all add: dtc_inv_def)
  then show ?thesis using s ram g Some
    by (intro exI[of _ True] exI[of _ "?st\<lparr> nvm_store := s \<rparr>"] exI[of _ f']) (simp add: update_dtc_def get_put)
qed

lemma updates_put_snapshot: "unat n \<le> 16 \<Longrightarrow> unat n \<le> length data \<Longrightarrow> updates (put_snapshot num data n)"
  by (auto simp: updates_def put_snapshot_def ram_ok_def copy_loop_closed)

lemma updates_default: "updates default_snapshot"
  using updates_put_snapshot[of 8 init_default_snapshot 1]
  by (auto simp: updates_def default_snapshot_def init_default_snapshot_def)

lemma updates_extended: "updates (put_extended e)"
  by (auto simp: updates_def put_extended_def ram_ok_def mem_simps)

lemma updates_after: "updates g \<Longrightarrow> (\<And>ram. ram_ok ram \<Longrightarrow> ram_ok (h ram)) \<Longrightarrow> updates (\<lambda>ram. g (h ram))"
  by (simp add: updates_def)

lemma updates_total: "(\<And>ram. ram_ok ram \<Longrightarrow> ram_ok (h ram)) \<Longrightarrow> updates (\<lambda>ram. Some (h ram))"
  by (simp add: updates_def)

lemma updates_set_fault: "updates (\<lambda>ram. set_fault_ram status counter ram)"
  unfolding set_fault_ram_def Let_def by (rule updates_after[OF updates_default]) (simp add: ram_ok_def)

lemma updates_if: "updates f \<Longrightarrow> updates g \<Longrightarrow> updates (\<lambda>ram. if Q ram then f ram else g ram)"
  by (simp add: updates_def)

lemma updates_failed: "updates (\<lambda>ram. debounce_fault_failed ram)"
  unfolding debounce_fault_failed_def Let_def
  by (intro updates_if updates_after[OF updates_default] updates_total) (simp_all add: ram_ok_def)

lemma passed_ok: "ram_ok ram \<Longrightarrow> ram_ok (debounce_fault_passed ram)"
  by (simp add: debounce_fault_passed_def Let_def ram_ok_def)

lemma cleared_ok: "ram_ok ram \<Longrightarrow> ram_ok (cleared_ram ram)"
  by (simp add: cleared_ram_def ram_ok_def)

lemma clear_single_inv: "dtc_inv st \<Longrightarrow> dtc_inv (clear_single_ram_record i st)"
proof (cases "get_dtc_ram_status st i")
  case (Some ram)
  assume inv: "dtc_inv st"
  have "ram_ok ram" using Some inv
    by (auto simp: get_dtc_ram_status_def dtc_inv_def dtc_ok_def list_all_length peek_eq_Some_iff dtc_sizes Let_def
      split: if_splits)
  then show ?thesis using Some put_inv[OF inv cleared_ok] by (simp add: clear_single_ram_record_def)
qed (simp add: clear_single_ram_record_def)

lemma find_None_iff_numbers: "find_dtc_index st d = None \<longleftrightarrow> d \<notin> set (rom_numbers @ dynamic_numbers st)"
proof -
  have eq: "find_dtc_index st d = (case scan_from d rom_numbers 0 of
      Some i \<Rightarrow> Some i | None \<Rightarrow> scan_from d (dynamic_numbers st) UDS_DTC_STATIC_COUNT)"
    unfolding find_dtc_index_def dynamic_numbers_def rom_numbers_def ..
  show ?thesis
  proof (cases "scan_from d rom_numbers 0")
    case None
    show ?thesis using scan_from_None[of d rom_numbers 0] unfolding eq None by (simp add: scan_from_None)
  next
    case (Some i)
    show ?thesis using scan_from_None[of d rom_numbers 0] unfolding eq Some by simp
  qed
qed

text \<open>A new dynamic record.\<close>

definition with_dynamic :: "UdsDtcDynamicRecord \<Rightarrow> 'f UdsDtcAppStorage \<Rightarrow> 'f UdsDtcAppStorage" where
  "with_dynamic r st = st\<lparr> dynamic_count := dynamic_count st + 1,
     dynamic_records := (dynamic_records st)[unat (dynamic_count st) := r] \<rparr>"

lemma with_dynamic_ok:
  assumes "dtc_ok st" "find_dtc_index st (dyn_dtc_number r) = None" "unat (dynamic_count st) < 11" "ram_ok (dyn_status r)"
  shows "dtc_ok (with_dynamic r st) \<and> dynamic_numbers (with_dynamic r st) = dynamic_numbers st @ [dyn_dtc_number r] \<and>
    nvm_store (with_dynamic r st) = nvm_store st \<and> unat (dynamic_count (with_dynamic r st)) = unat (dynamic_count st) + 1"
proof -
  have n: "unat (dynamic_count st + 1) = Suc (unat (dynamic_count st))" using assms(3) by (simp add: unat_word_ariths)
  have num: "dynamic_numbers (with_dynamic r st) = dynamic_numbers st @ [dyn_dtc_number r]"
    using assms(1,3) by (simp add: dynamic_numbers_def with_dynamic_def n take_Suc_conv_app_nth dtc_ok_def)
  have "dtc_ok (with_dynamic r st)"
    unfolding dtc_ok_def num
    using assms by (simp add: with_dynamic_def n list_all_update dtc_ok_def find_None_iff_numbers)
  then show ?thesis using num n by (simp add: with_dynamic_def)
qed

lemma add_dynamic_inv:
  assumes "dtc_inv st" "find_dtc_index st dtc = None"
  shows "\<exists>r st' f'. add_dynamic dtc status severity counter st f = Some (r, st', f') \<and> dtc_inv st'"
proof (cases "unat (dynamic_count st) < 11")
  case True
  let ?d = "unat (dynamic_count st)"
  let ?ram = "(dyn_status (dynamic_records st ! ?d))\<lparr> status_byte := status, fault_counter := counter,
            occurrence_counter := (if status AND UDS_DTC_STATUS_TEST_FAILED \<noteq> 0 then 1 else 0),
            pending_counter := (if status AND UDS_DTC_STATUS_PENDING \<noteq> 0 then 1 else 0),
            aging_counter := 0, aged_counter := 0, dtc_active := True \<rparr>"
  have ok: "dtc_ok st" "length (dynamic_records st) = 11" "ram_ok (dyn_status (dynamic_records st ! ?d))"
    using assms(1) True by (auto simp: dtc_inv_def dtc_ok_def list_all_length)
  then have "ram_ok ?ram" by (simp add: ram_ok_def)
  then obtain ram where ram: "put_snapshot 1 init_default_snapshot 8 ?ram = Some ram" "ram_ok ram"
    using updates_put_snapshot[of 8 init_default_snapshot 1] by (auto simp: updates_def init_default_snapshot_def)
  let ?r = "\<lparr> dyn_dtc_number = dtc, dyn_severity = severity, dyn_functional_unit = 1, dyn_status = ram \<rparr>"
  have "dtc_inv (with_dynamic ?r st)"
    using with_dynamic_ok[OF ok(1), of ?r] assms True ram(2) by (simp add: dtc_inv_def nvm_ok_def)
  from saved_inv[OF this, of True f] obtain s f' where
    "saved True (with_dynamic ?r st) f = Some (True, (with_dynamic ?r st)\<lparr> nvm_store := s \<rparr>, f')"
    "dtc_inv ((with_dynamic ?r st)\<lparr> nvm_store := s \<rparr>)" by blast
  then show ?thesis using True ok(2) ram(1)
    by (auto simp: add_dynamic_def dtc_sizes mem_simps Let_def with_dynamic_def)
next
  case False
  then show ?thesis using assms(1) by (auto simp: add_dynamic_def dtc_sizes)
qed

lemma set_fault_inv:
  assumes "dtc_inv st"
  shows "\<exists>r st' f'. uds_dtc_app_set_fault dtc status severity counter st f = Some (r, st', f') \<and> dtc_inv st'"
proof (cases "find_dtc_index st dtc")
  case None
  then show ?thesis using assms add_dynamic_inv[OF assms None] by (auto simp: uds_dtc_app_set_fault_def)
next
  case (Some i)
  then obtain ram where ram: "get_dtc_ram_status st i = Some ram" using found_ram[OF assms] by blast
  have "uds_dtc_app_set_fault dtc status severity counter st f =
      (if dtc_setting_enabled st then update_dtc dtc (set_fault_ram status counter) st f else Some (True, st, f))"
    using Some ram by (simp add: uds_dtc_app_set_fault_def update_dtc_def)
  then show ?thesis using assms update_dtc_run[OF assms updates_set_fault, of dtc] by fastforce
qed

lemma clear_group_inv:
  assumes "dtc_inv st" "\<forall>i \<in> set is. i < unat (get_total_record_count st)"
  shows "\<exists>b' st'. clear_group g is b st = Some (b', st') \<and> dtc_inv st'"
  using assms
proof (induction "is" arbitrary: b st)
  case (Cons i "is")
  obtain rec where rec: "get_dtc_record st i = Some rec" using dtc_record[of st i] Cons.prems by (auto simp: dtc_inv_def)
  have count: "get_total_record_count (clear_single_ram_record i st) = get_total_record_count st"
    by (simp add: clear_single_ram_record_def split: option.splits)
  show ?case
    using Cons.IH[of st b] Cons.IH[OF clear_single_inv[OF Cons.prems(1)], of i True] Cons.prems rec count by simp
qed simp

lemma clear_all_inv: "dtc_inv st \<Longrightarrow> dtc_inv (foldl (\<lambda>st i. clear_single_ram_record i st) st is)"
  by (induction "is" arbitrary: st) (simp_all add: clear_single_inv)

lemma clear_inv:
  assumes "dtc_inv st"
  shows "\<exists>r st' f'. uds_dtc_app_clear g st f = Some (r, st', f') \<and> dtc_inv st'"
proof (cases "g = 0xFFFFFF")
  case True
  then show ?thesis using saved_inv[OF clear_all_inv[OF assms]] by (fastforce simp: uds_dtc_app_clear_def Let_def)
next
  case False
  let ?m = "g AND 0x00FFFF = 0x000000 \<or> g AND 0x00FFFF = 0x00FF00"
  let ?is = "[0..<unat (get_total_record_count st)]"
  obtain b st1 where c: "(if ?m then clear_group (g AND 0xFF0000) ?is False st else Some (False, st)) = Some (b, st1)" "dtc_inv st1"
    using clear_group_inv[OF assms, of ?is "g AND 0xFF0000" False] assms that[of _ st] by (cases ?m) auto
  have eq: "uds_dtc_app_clear g st f = (if b then saved UDS_RESULT_OK st1 f
      else case find_dtc_index st1 g of
        Some idx \<Rightarrow> saved UDS_RESULT_OK (clear_single_ram_record idx st1) f | None \<Rightarrow> Some (UDS_RESULT_OUT_OF_RANGE, st1, f))"
    using False unfolding uds_dtc_app_clear_def Let_def c(1) by simp
  show ?thesis
    unfolding eq using saved_inv[OF c(2)] saved_inv[OF clear_single_inv[OF c(2)]] c(2) by (fastforce split: option.splits)
qed

lemma clear_fault_inv:
  assumes "dtc_inv st"
  shows "\<exists>r st' f'. uds_dtc_app_clear_fault dtc st f = Some (r, st', f') \<and> dtc_inv st'"
proof -
  have "uds_dtc_app_clear_fault dtc st f = update_dtc dtc (\<lambda>ram. Some (cleared_ram ram)) st f"
    by (simp add: uds_dtc_app_clear_fault_def update_dtc_def split: option.splits)
  then show ?thesis using update_dtc_run[OF assms updates_total[of cleared_ram, OF cleared_ok], of dtc f] by metis
qed

section \<open>The fault memory as a machine\<close>

datatype dtc_call =
    SetFault u32 u8 u8 u8
  | ClearFault u32
  | ReportEvent u32 bool
  | ClearGroup u32
  | ControlSetting u8
  | SetSettingEnabled bool
  | SetSnapshot u32 u8 "bytes option" u8
  | SetGlobalSnapshot u32 "bytes option"
  | GetGlobalSnapshot u32
  | SetExtendedData u32 "OBD_Extended_Data_Format option"
  | ReadDtc u8 bytes u16

text \<open>One call; the reads leave the storage as it is.\<close>

primrec dtc_step :: "'f UdsDtcAppStorage \<times> 'f \<Rightarrow> dtc_call \<Rightarrow> ('f UdsDtcAppStorage \<times> 'f) option" where
  "dtc_step s (SetFault dtc status severity counter) =
     map_option snd (uds_dtc_app_set_fault dtc status severity counter (fst s) (snd s))"
| "dtc_step s (ClearFault dtc) = map_option snd (uds_dtc_app_clear_fault dtc (fst s) (snd s))"
| "dtc_step s (ReportEvent dtc failed) = map_option snd (uds_dtc_app_report_event dtc failed (fst s) (snd s))"
| "dtc_step s (ClearGroup g) = map_option snd (uds_dtc_app_clear g (fst s) (snd s))"
| "dtc_step s (ControlSetting sub) = Some (snd (uds_dtc_app_control_setting sub (fst s)), snd s)"
| "dtc_step s (SetSettingEnabled b) = Some (uds_dtc_app_set_setting_enabled b (fst s), snd s)"
| "dtc_step s (SetSnapshot dtc num data n) = map_option snd (uds_dtc_app_set_snapshot dtc num data n (fst s) (snd s))"
| "dtc_step s (SetGlobalSnapshot dtc data) = map_option snd (uds_dtc_app_set_global_snapshot dtc data (fst s) (snd s))"
| "dtc_step s (GetGlobalSnapshot dtc) = map_option (\<lambda>_. s) (uds_dtc_app_get_global_snapshot dtc (fst s))"
| "dtc_step s (SetExtendedData dtc e) = map_option snd (uds_dtc_app_set_extended_data dtc e (fst s) (snd s))"
| "dtc_step s (ReadDtc sub request cap) = map_option (\<lambda>_. s) (uds_dtc_app_report (fst s) sub request 0 cap)"

text \<open>The caller's buffers are as large as it says.\<close>

fun dtc_call_ok :: "dtc_call \<Rightarrow> bool" where
  "dtc_call_ok (SetSnapshot dtc num (Some data) n) = (unat n \<le> length data)"
| "dtc_call_ok (SetGlobalSnapshot dtc (Some data)) = (length data = 8)"
| "dtc_call_ok (ReadDtc sub request cap) = (length request < 65536)"
| "dtc_call_ok _ = True"

end
