(* ===== verification/Dtc_Debounce.thy ===== *)
theory Dtc_Debounce
  imports Dtc_Invariant
begin

text \<open>
  Two machines over the fault memory: all calls of its interface keep the storage well-formed, and
  the events reported for one code drive a saturating counter with hysteresis.
\<close>

section \<open>The interface\<close>

lemma report_event_eq:
  "uds_dtc_app_report_event dtc failed st f = (if dtc_setting_enabled st
     then update_dtc dtc (\<lambda>rec. if failed then debounce_fault_failed rec else Some (debounce_fault_passed rec)) st f
     else Some (True, st, f))"
  by (simp add: uds_dtc_app_report_event_def)

lemma updates_event: "updates (\<lambda>rec. if failed then debounce_fault_failed rec else Some (debounce_fault_passed rec))"
  using updates_failed updates_total[of debounce_fault_passed, OF passed_ok] by (cases failed) simp_all

text \<open>An operation that returns and leaves a well-formed storage.\<close>

definition keeps :: "('r \<times> 'f UdsDtcAppStorage \<times> 'f) option \<Rightarrow> bool" where
  "keeps m \<longleftrightarrow> (\<exists>r st f. m = Some (r, st, f) \<and> dtc_inv st)"

lemma keeps_same: "dtc_inv st \<Longrightarrow> keeps (Some (r, st, f))"
  by (simp add: keeps_def)

lemma keeps_update: "dtc_inv st \<Longrightarrow> updates g \<Longrightarrow> keeps (update_dtc dtc g st f)"
  using update_dtc_run[of st g dtc f] unfolding keeps_def by metis

lemma keeps_set_fault: "dtc_inv st \<Longrightarrow> keeps (uds_dtc_app_set_fault dtc status severity counter st f)"
  using set_fault_inv unfolding keeps_def .

lemma keeps_clear_fault: "dtc_inv st \<Longrightarrow> keeps (uds_dtc_app_clear_fault dtc st f)"
  using clear_fault_inv unfolding keeps_def .

lemma keeps_clear: "dtc_inv st \<Longrightarrow> keeps (uds_dtc_app_clear g st f)"
  using clear_inv unfolding keeps_def .

lemma keeps_event: "dtc_inv st \<Longrightarrow> keeps (uds_dtc_app_report_event dtc failed st f)"
  unfolding report_event_eq by (simp add: keeps_same keeps_update updates_event)

lemma keeps_set_snapshot:
  "dtc_inv st \<Longrightarrow> (case data of None \<Rightarrow> True | Some d \<Rightarrow> unat n \<le> length d) \<Longrightarrow>
     keeps (uds_dtc_app_set_snapshot dtc num data n st f)"
  by (auto simp: uds_dtc_app_set_snapshot_def dtc_sizes keeps_same keeps_update updates_put_snapshot split: option.splits)

lemma keeps_set_global:
  "dtc_inv st \<Longrightarrow> (case data of None \<Rightarrow> True | Some d \<Rightarrow> length d = 8) \<Longrightarrow>
     keeps (uds_dtc_app_set_global_snapshot dtc data st f)"
  by (auto simp: uds_dtc_app_set_global_snapshot_def keeps_same keeps_update updates_put_snapshot split: option.splits)

lemma keeps_set_extended: "dtc_inv st \<Longrightarrow> keeps (uds_dtc_app_set_extended_data dtc e st f)"
  by (auto simp: uds_dtc_app_set_extended_data_def keeps_same keeps_update updates_extended split: option.splits)

lemma global_snapshot_defined:
  assumes "dtc_inv st"
  shows "\<exists>r. uds_dtc_app_get_global_snapshot dtc st = Some r"
proof (cases "find_dtc_index st dtc")
  case (Some i)
  then obtain rec where "get_dtc_record st i = Some rec" "rec_ok rec"
    using found_record[OF _ Some] assms by (auto simp: dtc_inv_def)
  moreover have "\<not> length (rec_snapshot_data rec) < 8" if "rec_snapshot_length rec = 8"
    using that calculation(2) by (simp add: rec_ok_def)
  ultimately show ?thesis using Some by (auto simp: uds_dtc_app_get_global_snapshot_def)
qed (simp add: uds_dtc_app_get_global_snapshot_def)

lemma keeps_step: "keeps m \<Longrightarrow> \<exists>s'. map_option snd m = Some s' \<and> dtc_inv (fst s')"
  by (auto simp: keeps_def)

lemma dtc_step_safe:
  assumes "dtc_inv (fst s)" "dtc_call_ok e"
  shows "\<exists>s'. dtc_step s e = Some s' \<and> dtc_inv (fst s')"
proof (cases e)
  case (SetFault dtc status severity counter)
  then show ?thesis using keeps_step[OF keeps_set_fault[OF assms(1)]] by simp
next
  case (ClearFault dtc)
  then show ?thesis using keeps_step[OF keeps_clear_fault[OF assms(1)]] by simp
next
  case (ReportEvent dtc failed)
  then show ?thesis using keeps_step[OF keeps_event[OF assms(1)]] by simp
next
  case (ClearGroup g)
  then show ?thesis using keeps_step[OF keeps_clear[OF assms(1)]] by simp
next
  case (ControlSetting sub)
  then show ?thesis using assms(1) by (simp add: uds_dtc_app_control_setting_def dtc_inv_def nvm_ok_def)
next
  case (SetSettingEnabled b)
  then show ?thesis using assms(1) by (simp add: uds_dtc_app_set_setting_enabled_def dtc_inv_def nvm_ok_def)
next
  case (SetSnapshot dtc num data n)
  have "case data of None \<Rightarrow> True | Some d \<Rightarrow> unat n \<le> length d" using assms(2) SetSnapshot by (cases data) simp_all
  then show ?thesis using keeps_step[OF keeps_set_snapshot[OF assms(1)]] SetSnapshot by simp
next
  case (SetGlobalSnapshot dtc data)
  have "case data of None \<Rightarrow> True | Some d \<Rightarrow> length d = 8" using assms(2) SetGlobalSnapshot by (cases data) simp_all
  then show ?thesis using keeps_step[OF keeps_set_global[OF assms(1)]] SetGlobalSnapshot by simp
next
  case (GetGlobalSnapshot dtc)
  then show ?thesis using global_snapshot_defined[OF assms(1), of dtc] assms(1) by auto
next
  case (SetExtendedData dtc e)
  then show ?thesis using keeps_step[OF keeps_set_extended[OF assms(1)]] by simp
next
  case (ReadDtc sub request cap)
  then have "length request < 65536" using assms(2) by simp
  then show ?thesis using dtc_reports_total[of "fst s" request sub 0 cap] assms(1) ReadDtc by (auto simp: dtc_inv_def)
qed

interpretation dtc: machine dtc_step dtc_call_ok "\<lambda>s. dtc_inv (fst s)"
  by unfold_locales (rule dtc_step_safe)



section \<open>Debouncing\<close>

text \<open>
  The abstract fault: a counter between -128 and 127 that moves in steps of 16, the test failed bit, which
  follows its ends, the confirmed bit, and the number of consecutive passed ends, at which the fault ages.
\<close>

record fault =
  fault_level :: int
  fault_failed :: bool
  fault_confirmed :: bool
  fault_age :: nat

definition fault_step :: "bool \<Rightarrow> fault \<Rightarrow> fault" where
  "fault_step failed a =
     (if failed then
        let level = min 127 (fault_level a + 16) in
        if level = 127 then \<lparr> fault_level = 127, fault_failed = True, fault_confirmed = True, fault_age = 0 \<rparr>
        else a\<lparr> fault_level := level \<rparr>
      else
        let level = max (- 128) (fault_level a - 16); age = min 255 (fault_age a + 1) in
        if level = - 128
        then \<lparr> fault_level = - 128, fault_failed = False, fault_confirmed = (fault_confirmed a \<and> age < 40), fault_age = age \<rparr>
        else a\<lparr> fault_level := level \<rparr>)"

definition fault_of :: "UdsDtcRamStatus \<Rightarrow> fault" where
  "fault_of ram = \<lparr> fault_level = sint (fault_counter ram), fault_failed = bit (status_byte ram) 0,
     fault_confirmed = bit (status_byte ram) 3, fault_age = unat (aging_counter ram) \<rparr>"

definition fault_state :: "'f UdsDtcAppStorage \<Rightarrow> u32 \<Rightarrow> fault option" where
  "fault_state st d = do { i \<leftarrow> find_dtc_index st d; ram \<leftarrow> get_dtc_ram_status st i; Some (fault_of ram) }"

lemma sint8_of_int: "- 128 \<le> k \<Longrightarrow> k < 128 \<Longrightarrow> sint (word_of_int k :: u8) = k"
  by (simp add: signed_of_int signed_take_bit_int_eq_self)

lemma sint8_range: "- 128 \<le> sint (w :: u8)" "sint (w :: u8) \<le> 127"
  using sint_greater_eq[of w] sint_less[of w] by simp_all

lemma sint8_127: "sint (127 :: u8) = 127"
  by simp

lemma count_up_nat: "unat (count_up c) = min 255 (unat c + 1)"
proof (cases "c < 255")
  case True
  then have "unat c < 255" by (simp add: word_less_nat_alt)
  then show ?thesis using True by (simp add: count_up_def unat_word_ariths)
next
  case False
  then have "unat c = 255" using unat_u8_lt[of c] by (simp add: word_less_nat_alt del: unat_u8_lt)
  then show ?thesis using False by (simp add: count_up_def)
qed

lemmas status_bits = UDS_DTC_STATUS_TEST_FAILED_def UDS_DTC_STATUS_TEST_FAILED_THIS_CYCLE_def UDS_DTC_STATUS_PENDING_def
  UDS_DTC_STATUS_CONFIRMED_def UDS_DTC_STATUS_TEST_NOT_COMPLETED_SLC_def UDS_DTC_STATUS_TEST_FAILED_SLC_def
  UDS_DTC_STATUS_TEST_NOT_COMPLETED_TOC_def

lemma default_snapshot_fault: "default_snapshot ram = Some ram' \<Longrightarrow> fault_of ram' = fault_of ram"
  by (auto simp: default_snapshot_def put_snapshot_def fault_of_def split: if_splits Option.bind_splits)

lemma sint_up: "sint c \<le> 111 \<Longrightarrow> sint (c + 16 :: u8) = sint c + 16"
  using sint8_of_int[of "sint c + 16"] sint8_range[of c] by simp

lemma sint_down: "- 112 \<le> sint c \<Longrightarrow> sint (c - 16 :: u8) = sint c - 16"
  using sint8_of_int[of "sint c - 16"] sint8_range[of c] by simp

lemma failed_step:
  assumes "debounce_fault_failed ram = Some ram'"
  shows "fault_of ram' = fault_step True (fault_of ram)"
proof -
  let ?c = "sint (fault_counter ram)"
  note range = sint8_range[of "fault_counter ram"]
  show ?thesis
  proof (cases "?c < 111")
    case False
    then have "\<exists>x. debounce_fault_failed ram = default_snapshot x \<and>
        fault_of x = \<lparr> fault_level = 127, fault_failed = True, fault_confirmed = True, fault_age = 0 \<rparr>"
      using sint_up[of "fault_counter ram"]
      by (simp add: debounce_fault_failed_def Let_def fault_of_def)
        (rule exI, rule conjI[OF refl], simp add: status_bits bit_simps bit_numeral_rec)
    then obtain x where "debounce_fault_failed ram = default_snapshot x"
        "fault_of x = \<lparr> fault_level = 127, fault_failed = True, fault_confirmed = True, fault_age = 0 \<rparr>" by blast
    moreover have "min 127 (?c + 16) = 127" using False by simp
    ultimately show ?thesis using default_snapshot_fault assms by (fastforce simp: fault_step_def fault_of_def Let_def)
  next
    case True
    then show ?thesis using sint_up[of "fault_counter ram"] assms
      by (auto simp: debounce_fault_failed_def Let_def fault_of_def fault_step_def status_bits bit_simps split: if_splits)
  qed
qed

lemma passed_step: "fault_of (debounce_fault_passed ram) = fault_step False (fault_of ram)"
proof -
  let ?c = "sint (fault_counter ram)"
  note range = sint8_range[of "fault_counter ram"]
  have low: "sint (- 128 :: u8) = - 128" by simp
  have age: "unat (count_up (aging_counter ram)) < 40 \<longleftrightarrow> \<not> 40 \<le> count_up (aging_counter ram)"
    by (auto simp: word_le_nat_alt)
  show ?thesis
  proof (cases "- 112 < ?c")
    case True
    then show ?thesis using sint_down[of "fault_counter ram"]
      by (simp add: debounce_fault_passed_def Let_def fault_of_def fault_step_def)
  next
    case False
    then have "max (- 128) (?c - 16) = - 128" by simp
    then show ?thesis using False sint_down[of "fault_counter ram"] range age
      by (simp add: debounce_fault_passed_def Let_def fault_of_def fault_step_def status_bits bit_simps count_up_nat)
  qed
qed

text \<open>An event, for the code and for all abstract faults.\<close>

definition event_step :: "'f UdsDtcAppStorage \<times> 'f \<Rightarrow> u32 \<times> bool \<Rightarrow> ('f UdsDtcAppStorage \<times> 'f) option" where
  "event_step s e = map_option snd (uds_dtc_app_report_event (fst e) (snd e) (fst s) (snd s))"

definition fault_event :: "(u32 \<Rightarrow> fault option) \<Rightarrow> u32 \<times> bool \<Rightarrow> u32 \<Rightarrow> fault option" where
  "fault_event a e = a(fst e := map_option (fault_step (snd e)) (a (fst e)))"

definition event_inv :: "'f UdsDtcAppStorage \<times> 'f \<Rightarrow> bool" where
  "event_inv s \<longleftrightarrow> dtc_inv (fst s) \<and> dtc_setting_enabled (fst s)"

lemma event_step_sim:
  assumes "event_inv s"
  shows "\<exists>s'. event_step s e = Some s' \<and> event_inv s' \<and> fault_state (fst s') = fault_event (fault_state (fst s)) e"
proof -
  let ?st = "fst s" and ?d = "fst e"
  let ?g = "\<lambda>rec. if snd e then debounce_fault_failed rec else Some (debounce_fault_passed rec)"
  have inv: "dtc_inv ?st" "dtc_setting_enabled ?st" using assms by (simp_all add: event_inv_def)
  obtain r st' f' where u: "update_dtc ?d ?g ?st (snd s) = Some (r, st', f')" "dtc_inv st'" "dtc_setting_enabled st'"
    "\<forall>d. find_dtc_index st' d = find_dtc_index ?st d"
    "\<forall>i. get_dtc_ram_status st' i =
       (if find_dtc_index ?st ?d = Some i then Option.bind (get_dtc_ram_status ?st i) ?g else get_dtc_ram_status ?st i)"
    using update_dtc_run[OF inv(1) updates_event, of ?d "snd e" "snd s"] inv(2) by auto
  have "fault_state st' d = fault_event (fault_state ?st) e d" for d
  proof (cases "find_dtc_index ?st d")
    case None
    then show ?thesis using u(4) by (auto simp: fault_state_def fault_event_def)
  next
    case (Some i)
    obtain ram where ram: "get_dtc_ram_status ?st i = Some ram" "ram_ok ram" using found_ram[OF inv(1) Some] by blast
    show ?thesis
    proof (cases "d = ?d")
      case True
      obtain ram' where ram': "?g ram = Some ram'" using updates_event[of "snd e"] ram(2) by (auto simp: updates_def)
      then have "fault_of ram' = fault_step (snd e) (fault_of ram)"
        using failed_step passed_step by (cases "snd e") auto
      then show ?thesis using True Some ram ram' u(4,5) by (simp add: fault_state_def fault_event_def)
    next
      case False
      then have "find_dtc_index ?st ?d \<noteq> Some i" using Some inv(1) by (auto simp: find_dtc_index_iff dtc_inv_def)
      then show ?thesis using False Some ram u(4,5) by (simp add: fault_state_def fault_event_def)
    qed
  qed
  then show ?thesis using u(1-3) inv(2) by (auto simp: event_step_def report_event_eq event_inv_def fun_eq_iff)
qed

lemma event_step_safe: "event_inv s \<Longrightarrow> \<exists>s'. event_step s e = Some s' \<and> event_inv s'"
  using event_step_sim by blast

lemma event_step_abs:
  "event_inv s \<Longrightarrow> event_step s e = Some s' \<Longrightarrow> fault_state (fst s') = fault_event (fault_state (fst s)) e"
  using event_step_sim[of s e] by auto

interpretation debounce: refined_machine event_step "\<lambda>_. True" event_inv "\<lambda>s. fault_state (fst s)" fault_event
  by unfold_locales (erule event_step_safe, erule (1) event_step_abs)


lemma rom_616: "rom_numbers ! 2 = 0xD00616"
  by (simp add: rom_numbers_def s_rom_dtc_defs_def rom_oem_def)

text \<open>A predefined code after the initialisation: seven failed events do not confirm it, the eighth does.\<close>

lemma init_fault:
  assumes "uds_dtc_app_init = Some st"
  shows "fault_state st 0xD00616 = Some \<lparr> fault_level = 0, fault_failed = False, fault_confirmed = False, fault_age = 0 \<rparr>"
proof -
  have ok: "dtc_ok st" using init_storage[OF assms] by simp
  have "find_dtc_index st 0xD00616 = Some 2"
    using ok rom_616 by (simp add: find_dtc_index_iff unat_total nth_append rom_numbers_def)
  moreover have "ram_of_rom (s_rom_dtc_defs ! 2) = Some \<lparr> status_byte = 0x50, fault_counter = 0, occurrence_counter = 0,
      pending_counter = 0, aging_counter = 0, aged_counter = 0, dtc_active = False, has_snapshot = False,
      snapshot_record_num = 1, snapshot_length = 0, snapshot_data = replicate 16 0, extended_data = replicate 8 0,
      extended_length = 0 \<rparr>"
    by (simp add: s_rom_dtc_defs_def rom_oem_def ram_of_rom_def ram_zero_def dtc_sizes UDS_DTC_STATUS_CLEARED_def
      UDS_DTC_STATUS_TEST_NOT_COMPLETED_SLC_def UDS_DTC_STATUS_TEST_NOT_COMPLETED_TOC_def)
  moreover have "get_dtc_ram_status st 2 = ram_of_rom (s_rom_dtc_defs ! 2)"
  proof -
    let ?rams = "map (\<lambda>i. the (ram_of_rom (s_rom_dtc_defs ! i))) [0..<69]"
    have "all_some (map (\<lambda>i. ram_of_rom (s_rom_dtc_defs ! i)) [0..<69]) = Some ?rams"
      by (rule all_some_map) (use ram_of_rom_ok[OF rom_nth_ok] in fastforce)
    then have "static_status st = ?rams" using assms by (auto simp: uds_dtc_app_init_def dtc_sizes)
    then have "get_dtc_ram_status st 2 = Some (the (ram_of_rom (s_rom_dtc_defs ! 2)))"
      unfolding get_dtc_ram_status_def dtc_sizes peek_def
      by (simp only: length_map length_upt nth_map nth_upt) (simp add: numeral_2_eq_2)
    then show ?thesis using ram_of_rom_ok[OF rom_nth_ok, of 2] by auto
  qed
  ultimately show ?thesis by (simp add: fault_state_def fault_of_def)
qed

lemma fault_event_same:
  "foldl fault_event a (replicate n (d, b)) d = map_option (fault_step b ^^ n) (a d)"
proof (induction n arbitrary: a)
  case (Suc n)
  have "foldl fault_event a (replicate (Suc n) (d, b)) d = map_option (fault_step b ^^ n) (fault_event a (d, b) d)"
    using Suc.IH by simp
  also have "fault_event a (d, b) d = map_option (fault_step b) (a d)" by (simp add: fault_event_def)
  finally show ?case by (simp add: option.map_comp comp_def funpow_swap1)
qed (simp add: option.map_id)

lemma fault_climbs:
  "level < 111 \<Longrightarrow> fault_step True \<lparr> fault_level = level, fault_failed = b, fault_confirmed = c, fault_age = n \<rparr> =
     \<lparr> fault_level = level + 16, fault_failed = b, fault_confirmed = c, fault_age = n \<rparr>"
  "111 \<le> level \<Longrightarrow> fault_step True \<lparr> fault_level = level, fault_failed = b, fault_confirmed = c, fault_age = n \<rparr> =
     \<lparr> fault_level = 127, fault_failed = True, fault_confirmed = True, fault_age = 0 \<rparr>"
  by (simp_all add: fault_step_def Let_def)


end
