(* ===== verification/Dtc_Nvm.thy ===== *)
theory Dtc_Nvm
  imports Dtc_Debounce Wear_Crash
begin

text \<open>
  The copy of the fault memory in the parameter store: the block survives its encoding, loading it into
  the initial storage restores every record, and so does a reset after a save.
\<close>

section \<open>The block as bytes\<close>

lemma concat_fixed_nth:
  assumes "\<And>x. x \<in> set xs \<Longrightarrow> length (f x) = n" "k < length xs"
  shows "\<exists>pre post. concat (map f xs) = pre @ f (xs ! k) @ post \<and> length pre = n * k"
  using assms
proof (induction xs arbitrary: k)
  case (Cons x xs)
  show ?case
  proof (cases k)
    case 0
    then show ?thesis by (intro exI[of _ "[]"] exI[of _ "concat (map f xs)"]) simp
  next
    case (Suc j)
    then obtain pre post where "concat (map f xs) = pre @ f (xs ! j) @ post" "length pre = n * j"
      using Cons.IH[of j] Cons.prems by auto
    then show ?thesis using Suc Cons.prems by (intro exI[of _ "f x @ pre"] exI[of _ post]) simp
  qed
qed simp

lemma peek_append: "length xs = i \<Longrightarrow> j = i + k \<Longrightarrow> k < length ys \<Longrightarrow> peek (xs @ ys @ zs) j = Some (ys ! k)"
  by (simp add: peek_def nth_append)

lemma record_at_bytes: "length xs = i \<Longrightarrow> nv_record_at (xs @ nv_record_bytes r @ ys) i = Some r"
proof -
  assume len: "length xs = i"
  let ?bs = "xs @ nv_record_bytes r @ ys"
  have "le32_at ?bs i = Some (nvr_dtc_number r)"
    using le32_at_bytes[OF len, of "nvr_dtc_number r"] by (simp add: nv_record_bytes_def)
  moreover have "peek ?bs (i + k) = Some (nv_record_bytes r ! k)" if "k < 16" for k
    using that by (intro peek_append[OF len]) (simp_all add: nv_record_bytes_def)
  ultimately show ?thesis
    by (simp add: nv_record_at_def) (simp add: nv_record_bytes_def nth_append)
qed

lemma snapshot_at_bytes:
  assumes "length xs = i" "length (nvs_data s) = 16"
  shows "nv_snapshot_at (xs @ nv_snapshot_bytes s @ ys) i = Some s"
proof -
  let ?bs = "xs @ nv_snapshot_bytes s @ ys"
  have "le32_at ?bs i = Some (nvs_dtc_number s)"
    using le32_at_bytes[OF assms(1), of "nvs_dtc_number s"] by (simp add: nv_snapshot_bytes_def)
  moreover have "peek ?bs (i + k) = Some (nv_snapshot_bytes s ! k)" if "k < 24" for k
    using that assms(2) by (intro peek_append[OF assms(1)]) (simp_all add: nv_snapshot_bytes_def)
  moreover have "take 16 (drop (i + 7) ?bs) = nvs_data s"
    using assms by (simp add: nv_snapshot_bytes_def)
  ultimately show ?thesis
    by (simp add: nv_snapshot_at_def) (simp add: nv_snapshot_bytes_def nth_append)
qed

lemma block_bytes_roundtrip:
  assumes "block_ok b"
  shows "nv_block_of_bytes (nv_block_bytes b) = Some b"
proof -
  let ?bs = "nv_block_bytes b"
  let ?head = "le16_bytes (nv_magic b) @ [nv_version b, nv_record_count b, nv_snapshot_count b, 0, 0, 0]"
  let ?rs = "concat (map nv_record_bytes (nv_records b))" and ?ss = "concat (map nv_snapshot_bytes (nv_snapshots b))"
  have len: "length ?head = 8" "length (nv_records b) = 80" "length (nv_snapshots b) = 8"
    using assms by (simp_all add: block_ok_def)
  have data: "length (nvs_data s) = 16" if "s \<in> set (nv_snapshots b)" for s
    using assms that by (simp add: block_ok_def list_all_iff)
  have rlen: "length (nv_record_bytes r) = 16" for r by (simp add: nv_record_bytes_def)
  have rs: "length ?rs = 1280" using len(2) by (simp add: length_concat rlen comp_def sum_list_triv)
  have "le16_at ?bs 0 = Some (nv_magic b)"
    using le16_at_bytes[of "[]" 0 "nv_magic b"] by (simp add: nv_block_bytes_def)
  moreover have "peek ?bs 2 = Some (nv_version b)" "peek ?bs 3 = Some (nv_record_count b)" "peek ?bs 4 = Some (nv_snapshot_count b)"
    by (simp_all add: nv_block_bytes_def le16_bytes_def peek_def)
  moreover have "all_some (map (\<lambda>k. nv_record_at ?bs (8 + 16 * k)) [0..<80]) = Some (nv_records b)"
  proof -
    have "nv_record_at ?bs (8 + 16 * k) = Some (nv_records b ! k)" if "k < 80" for k
    proof -
      obtain pre post where "?rs = pre @ nv_record_bytes (nv_records b ! k) @ post" "length pre = 16 * k"
        using concat_fixed_nth[of "nv_records b" nv_record_bytes 16 k] rlen len(2) \<open>k < 80\<close> by auto
      then have "?bs = (?head @ pre) @ nv_record_bytes (nv_records b ! k) @ post @ ?ss" "length (?head @ pre) = 8 + 16 * k"
        using len(1) by (simp_all add: nv_block_bytes_def)
      then show ?thesis using record_at_bytes by metis
    qed
    then have "all_some (map (\<lambda>k. nv_record_at ?bs (8 + 16 * k)) [0..<80]) = Some (map ((!) (nv_records b)) [0..<80])"
      by (intro all_some_map) simp
    then show ?thesis using len(2) map_nth[of "nv_records b"] by simp
  qed
  moreover have "all_some (map (\<lambda>k. nv_snapshot_at ?bs (1288 + 24 * k)) [0..<8]) = Some (nv_snapshots b)"
  proof -
    have "nv_snapshot_at ?bs (1288 + 24 * k) = Some (nv_snapshots b ! k)" if "k < 8" for k
    proof -
      have "length (nv_snapshot_bytes s) = 24" if "s \<in> set (nv_snapshots b)" for s
        using data[OF that] by (simp add: nv_snapshot_bytes_def)
      then obtain pre post where "?ss = pre @ nv_snapshot_bytes (nv_snapshots b ! k) @ post" "length pre = 24 * k"
        using concat_fixed_nth[of "nv_snapshots b" nv_snapshot_bytes 24 k] len(3) \<open>k < 8\<close> by auto
      then have "?bs = (?head @ ?rs @ pre) @ nv_snapshot_bytes (nv_snapshots b ! k) @ post"
        "length (?head @ ?rs @ pre) = 1288 + 24 * k"
        using len(1) rs by (simp_all add: nv_block_bytes_def)
      moreover have "length (nvs_data (nv_snapshots b ! k)) = 16" using data len(3) \<open>k < 8\<close> by simp
      ultimately show ?thesis using snapshot_at_bytes by metis
    qed
    then have "all_some (map (\<lambda>k. nv_snapshot_at ?bs (1288 + 24 * k)) [0..<8]) = Some (map ((!) (nv_snapshots b)) [0..<8])"
      by (intro all_some_map) simp
    then show ?thesis using len(3) map_nth[of "nv_snapshots b"] by simp
  qed
  ultimately show ?thesis by (simp add: nv_block_of_bytes_def dtc_sizes del: upt_conv_Cons)
qed

section \<open>Loading\<close>

text \<open>The storage after the first \<open>j\<close> records of the image of \<open>st\<close>.\<close>

lemma image_nth:
  assumes "dtc_ok st" "i < unat (get_total_record_count st)"
  shows "nv_image st ! i = nv_record_of (the (get_dtc_record st i))" "length (nv_image st) = unat (get_total_record_count st)"
    "nvr_dtc_number (nv_image st ! i) = (rom_numbers @ dynamic_numbers st) ! i"
  using assms dtc_record[OF assms] by (auto simp: nv_image_def dtc_records_def nv_record_of_def)

lemma get_record_static:
  "i < 69 \<Longrightarrow> get_dtc_ram_status st i = Some ram \<Longrightarrow>
     nv_record_of (the (get_dtc_record st i)) =
       \<lparr> nvr_dtc_number = rom_dtc_number (s_rom_dtc_defs ! i), nvr_status_byte = status_byte ram,
         nvr_severity = rom_severity (s_rom_dtc_defs ! i), nvr_functional_unit = rom_functional_unit (s_rom_dtc_defs ! i),
         nvr_fault_counter = fault_counter ram, nvr_occurrence_counter = occurrence_counter ram,
         nvr_pending_counter = pending_counter ram, nvr_aging_counter = aging_counter ram,
         nvr_aged_counter = aged_counter ram, nvr_active = dtc_active ram \<rparr>"
  by (simp add: get_dtc_ram_status_def get_dtc_record_def dtc_sizes nv_record_of_def Let_def)

lemma get_record_dynamic:
  "69 \<le> i \<Longrightarrow> i - 69 < unat (dynamic_count st) \<Longrightarrow> i - 69 < length (dynamic_records st) \<Longrightarrow>
     nv_record_of (the (get_dtc_record st i)) =
       (let r = dynamic_records st ! (i - 69); ram = dyn_status r in
       \<lparr> nvr_dtc_number = dyn_dtc_number r, nvr_status_byte = status_byte ram,
         nvr_severity = dyn_severity r, nvr_functional_unit = dyn_functional_unit r,
         nvr_fault_counter = fault_counter ram, nvr_occurrence_counter = occurrence_counter ram,
         nvr_pending_counter = pending_counter ram, nvr_aging_counter = aging_counter ram,
         nvr_aged_counter = aged_counter ram, nvr_active = dtc_active ram \<rparr>)"
  by (simp add: get_dtc_record_def dtc_sizes nv_record_of_def Let_def peek_def)

definition loaded :: "'f UdsDtcAppStorage \<Rightarrow> nat \<Rightarrow> 'f UdsDtcAppStorage \<Rightarrow> bool" where
  "loaded st j st' \<longleftrightarrow> dtc_ok st' \<and> unat (dynamic_count st') = j - 69 \<and>
     dynamic_numbers st' = take (j - 69) (dynamic_numbers st) \<and>
     (\<forall>i < j. nv_record_of (the (get_dtc_record st' i)) = nv_image st ! i)"

lemma get_record_put:
  assumes "dtc_ok st" "i < 69" "k < 69" "k \<noteq> i"
  shows "get_dtc_record (put_dtc_ram_status i ram st) k = get_dtc_record st k"
  using assms by (simp add: get_dtc_record_def put_dtc_ram_status_def dtc_sizes peek_def)

lemma get_record_with_dynamic:
  assumes "dtc_ok st" "unat (dynamic_count st) < 11" "k < 69 + unat (dynamic_count st)"
  shows "get_dtc_record (with_dynamic r st) k = get_dtc_record st k"
proof -
  have n: "unat (dynamic_count st + 1) = Suc (unat (dynamic_count st))" using assms(2) by (simp add: unat_word_ariths)
  show ?thesis
    using assms by (cases "k < 69") (auto simp: get_dtc_record_def with_dynamic_def dtc_sizes peek_def n Let_def dtc_ok_def)
qed

lemma loaded_static:
  assumes "dtc_ok st" "loaded st j st'" "j < 69"
  defines "r \<equiv> nv_image st ! j"
  shows "find_dtc_index st' (nvr_dtc_number r) = Some j \<and> (\<exists>ram. get_dtc_ram_status st' j = Some ram \<and>
    loaded st (Suc j) (put_dtc_ram_status j (ram_of_nv r ram) st'))"
proof -
  have ok: "dtc_ok st'" using assms(2) by (simp add: loaded_def)
  have j: "j < unat (get_total_record_count st)" "j < unat (get_total_record_count st')"
    using assms(1,3) ok by (simp_all add: unat_total)
  have num: "nvr_dtc_number r = rom_numbers ! j"
    using image_nth(3)[OF assms(1) j(1)] assms(3) by (simp add: r_def nth_append rom_numbers_def)
  then have find: "find_dtc_index st' (nvr_dtc_number r) = Some j"
    using ok j(2) assms(3) by (simp add: find_dtc_index_iff nth_append rom_numbers_def)
  obtain ram where ram: "get_dtc_ram_status st' j = Some ram" "ram_ok ram" using get_ram[OF ok j(2)] by blast
  obtain ram0 where ram0: "get_dtc_ram_status st j = Some ram0" using get_ram[OF assms(1) j(1)] by blast
  let ?new = "ram_of_nv r ram"
  have r: "r = nv_record_of (the (get_dtc_record st j))" using image_nth(1)[OF assms(1) j(1)] by (simp add: r_def)
  have "ram_ok ?new" using ram(2) by (simp add: ram_ok_def ram_of_nv_def)
  then have ok': "dtc_ok (put_dtc_ram_status j ?new st')" by (rule put_ok[OF ok])
  have "get_dtc_ram_status (put_dtc_ram_status j ?new st') j = Some ?new" using get_put[OF ok j(2)] by simp
  from get_record_static[OF assms(3) this] have "nv_record_of (the (get_dtc_record (put_dtc_ram_status j ?new st') j)) = r"
    unfolding r get_record_static[OF assms(3) ram0] by (simp add: ram_of_nv_def)
  moreover have "nv_record_of (the (get_dtc_record (put_dtc_ram_status j ?new st') i)) = nv_image st ! i" if "i < j" for i
    using get_record_put[OF ok assms(3), of i ?new] that assms(2,3) by (simp add: loaded_def)
  ultimately have "loaded st (Suc j) (put_dtc_ram_status j ?new st')"
    using ok' assms(2,3) by (auto simp: loaded_def r_def less_Suc_eq)
  with find ram show ?thesis by blast
qed

lemma loaded_dynamic:
  assumes "dtc_ok st" "loaded st j st'" "69 \<le> j" "j < unat (get_total_record_count st)"
  defines "r \<equiv> nv_image st ! j"
  shows "find_dtc_index st' (nvr_dtc_number r) = None \<and> unat (dynamic_count st') < 11 \<and> length (dynamic_records st') = 11 \<and>
    loaded st (Suc j) (with_dynamic \<lparr> dyn_dtc_number = nvr_dtc_number r, dyn_severity = nvr_severity r,
      dyn_functional_unit = nvr_functional_unit r,
      dyn_status = ram_of_nv r (dyn_status (dynamic_records st' ! unat (dynamic_count st'))) \<rparr> st')"
proof -
  let ?d = "j - 69"
  have ok: "dtc_ok st'" "unat (dynamic_count st') = ?d" "dynamic_numbers st' = take ?d (dynamic_numbers st)"
    using assms(2) by (simp_all add: loaded_def)
  have d: "?d < length (dynamic_numbers st)" "?d < 11"
    using assms(1,3,4) by (auto simp: unat_total dynamic_numbers_def dtc_ok_def)
  have num: "nvr_dtc_number r = dynamic_numbers st ! ?d"
    using image_nth(3)[OF assms(1,4)] assms(3) by (simp add: r_def nth_append rom_numbers_def)
  have "dynamic_numbers st ! ?d \<notin> set (take ?d (dynamic_numbers st))"
    using assms(1) d(1) unfolding dtc_ok_def by (metis distinct_append distinct_take id_take_nth_drop not_distinct_conv_prefix
      distinct.simps(2) distinct_append disjoint_iff list.set_intros(1))
  moreover have "dynamic_numbers st ! ?d \<notin> set rom_numbers"
    using assms(1) d(1) by (auto simp: dtc_ok_def)
  ultimately have none: "find_dtc_index st' (nvr_dtc_number r) = None"
    by (simp add: find_None_iff_numbers num ok(3))
  have len: "length (dynamic_records st') = 11" "ram_ok (dyn_status (dynamic_records st' ! ?d))"
    using ok(1) d(2) by (auto simp: dtc_ok_def list_all_length)
  let ?dyn = "\<lparr> dyn_dtc_number = nvr_dtc_number r, dyn_severity = nvr_severity r, dyn_functional_unit = nvr_functional_unit r,
      dyn_status = ram_of_nv r (dyn_status (dynamic_records st' ! ?d)) \<rparr>"
  have "ram_ok (dyn_status ?dyn)" using len(2) by (simp add: ram_ok_def ram_of_nv_def)
  then have new: "dtc_ok (with_dynamic ?dyn st')" "dynamic_numbers (with_dynamic ?dyn st') = dynamic_numbers st' @ [nvr_dtc_number r]"
    "unat (dynamic_count (with_dynamic ?dyn st')) = Suc ?d"
    using with_dynamic_ok[OF ok(1), of ?dyn] none ok(2) d(2) by simp_all
  have numbers: "dynamic_numbers (with_dynamic ?dyn st') = take (Suc j - 69) (dynamic_numbers st)"
  proof -
    have "Suc j - 69 = Suc ?d" using assms(3) by simp
    then show ?thesis unfolding new(2) unfolding ok(3) num using d(1) by (simp add: take_Suc_conv_app_nth)
  qed
  have at: "dynamic_records (with_dynamic ?dyn st') ! ?d = ?dyn" "length (dynamic_records (with_dynamic ?dyn st')) = 11"
    using len(1) d(2) by (simp_all add: with_dynamic_def ok(2))
  have "nv_record_of (the (get_dtc_record (with_dynamic ?dyn st') j)) = r"
    using get_record_dynamic[OF assms(3), of "with_dynamic ?dyn st'"] new(3) at d(2) by (simp add: Let_def ram_of_nv_def)
  moreover have "nv_record_of (the (get_dtc_record (with_dynamic ?dyn st') i)) = nv_image st ! i" if "i < j" for i
    using get_record_with_dynamic[OF ok(1), of i ?dyn] that ok(2) d(2) assms(2,3) by (simp add: loaded_def)
  ultimately have "loaded st (Suc j) (with_dynamic ?dyn st')"
    using new(1,3) numbers assms(3) by (auto simp: loaded_def r_def less_Suc_eq)
  then show ?thesis using none len(1) ok(2) d(2) by simp
qed

lemma load_records_loaded:
  assumes "dtc_ok st" "take (length (nv_image st)) (nv_records b) = nv_image st"
    and "loaded st j st'" "j \<le> unat (get_total_record_count st)"
  shows "\<exists>st''. load_records b [j..<unat (get_total_record_count st)] st' = Some st'' \<and>
    loaded st (unat (get_total_record_count st)) st''"
  using assms(3,4)
proof (induction "unat (get_total_record_count st) - j" arbitrary: j st')
  case 0
  then show ?case by simp
next
  case (Suc k)
  let ?n = "unat (get_total_record_count st)"
  have j: "j < ?n" using Suc.hyps(2) by simp
  let ?r = "nv_image st ! j"
  have "length (nv_image st) = ?n" by (rule image_nth(2)[OF assms(1) j])
  then have rec: "peek (nv_records b) j = Some ?r"
    using assms(2) j by (metis length_take min_less_iff_conj nth_take peek_Some)
  have up: "[j..<?n] = j # [Suc j..<?n]" using j by (rule upt_conv_Cons)
  have IH: "\<exists>st''. load_records b [Suc j..<?n] t = Some st'' \<and> loaded st ?n st''" if "loaded st (Suc j) t" for t
    using Suc.hyps(1)[of "Suc j" t] Suc.hyps(2) that j by simp
  show ?case
  proof (cases "j < 69")
    case True
    from loaded_static[OF assms(1) Suc.prems(1) True] obtain ram where
      "find_dtc_index st' (nvr_dtc_number ?r) = Some j" "get_dtc_ram_status st' j = Some ram"
      "loaded st (Suc j) (put_dtc_ram_status j (ram_of_nv ?r ram) st')" by blast
    then show ?thesis unfolding up using rec IH by simp
  next
    case False
    then have "69 \<le> j" by simp
    from loaded_dynamic[OF assms(1) Suc.prems(1) this j] show ?thesis
      unfolding up using rec IH by (simp add: dtc_sizes mem_simps Let_def with_dynamic_def)
  qed
qed

text \<open>The snapshots do not touch what is in the image.\<close>

lemma image_put:
  assumes "dtc_ok st" "get_dtc_ram_status st i = Some ram"
    and "status_byte ram' = status_byte ram" "fault_counter ram' = fault_counter ram"
    "occurrence_counter ram' = occurrence_counter ram" "pending_counter ram' = pending_counter ram"
    "aging_counter ram' = aging_counter ram" "aged_counter ram' = aged_counter ram" "dtc_active ram' = dtc_active ram"
  shows "nv_image (put_dtc_ram_status i ram' st) = nv_image st"
proof -
  have "nv_record_of (the (get_dtc_record (put_dtc_ram_status i ram' st) k)) = nv_record_of (the (get_dtc_record st k))"
    if k: "k < unat (get_total_record_count st)" for k
  proof (cases "k < 69")
    case True
    then show ?thesis using assms
      by (cases "k = i") (auto simp: get_dtc_record_def put_dtc_ram_status_def get_dtc_ram_status_def dtc_sizes peek_def
        nv_record_of_def Let_def dtc_ok_def split: if_splits)
  next
    case False
    then have d: "k - 69 < unat (dynamic_count st)" "k - 69 < 11" "length (dynamic_records st) = 11"
      using k assms(1) by (auto simp: unat_total dtc_ok_def)
    show ?thesis
    proof (cases "k = i")
      case True
      then show ?thesis using d False assms(2-)
        by (simp add: get_dtc_record_def put_dtc_ram_status_def get_dtc_ram_status_def dtc_sizes peek_def
          nv_record_of_def Let_def)
    next
      case neq: False
      then have "i < 69 \<or> i - 69 \<noteq> k - 69" using False by auto
      then show ?thesis using d False
        by (auto simp: get_dtc_record_def put_dtc_ram_status_def dtc_sizes peek_def nv_record_of_def Let_def nth_list_update)
    qed
  qed
  then show ?thesis by (simp add: nv_image_def dtc_records_def)
qed

lemma load_snapshots_image:
  assumes "block_ok b" "\<forall>s \<in> set ss. s < 8" "dtc_ok st"
  shows "\<exists>st'. load_snapshots b ss st = Some st' \<and> dtc_ok st' \<and> nv_image st' = nv_image st"
  using assms(2,3)
proof (induction ss arbitrary: st)
  case (Cons s ss)
  let ?snap = "nv_snapshots b ! s"
  have s: "s < length (nv_snapshots b)" "length (nvs_data ?snap) = 16" "unat (nvs_length ?snap) \<le> 16"
    using assms(1) Cons.prems(1) by (auto simp: block_ok_def list_all_length)
  show ?case
  proof (cases "find_dtc_index st (nvs_dtc_number ?snap)")
    case None
    then show ?thesis using Cons.IH[of st] Cons.prems s(1) by (simp add: mem_simps)
  next
    case (Some i)
    then have i: "i < unat (get_total_record_count st)" using Cons.prems(2) by (simp add: find_dtc_index_iff)
    obtain ram where ram: "get_dtc_ram_status st i = Some ram" "ram_ok ram" using get_ram[OF Cons.prems(2) i] by blast
    obtain data where data: "copy_loop (snapshot_data ram) 0 (nvs_data ?snap) 0 (unat (nvs_length ?snap)) = Some data"
      "length data = 16"
      using s ram(2) by (auto simp: copy_loop_closed ram_ok_def)
    let ?ram = "ram\<lparr> has_snapshot := True, snapshot_record_num := nvs_record_num ?snap,
       snapshot_length := nvs_length ?snap, snapshot_data := data \<rparr>"
    have "ram_ok ?ram" using ram(2) data(2) s(3) by (simp add: ram_ok_def)
    then have ok: "dtc_ok (put_dtc_ram_status i ?ram st)" by (rule put_ok[OF Cons.prems(2)])
    have "nv_image (put_dtc_ram_status i ?ram st) = nv_image st"
      by (rule image_put[OF Cons.prems(2) ram(1)]) simp_all
    then show ?thesis using Cons.IH[OF _ ok] Cons.prems(1) Some s(1) ram(1) data(1) by (simp add: mem_simps)
  qed
qed simp

lemma load_block:
  fixes st st0 :: "'f UdsDtcAppStorage"
  assumes "dtc_ok st" "block_ok b" "take (length (nv_image st)) (nv_records b) = nv_image st"
    and "nv_record_count b = get_total_record_count st" "uds_dtc_app_init = Some st0"
  shows "\<exists>st1 st2. load_records b [0..<unat (nv_record_count b)] (st0\<lparr> nvm_store := x \<rparr>) = Some st1 \<and>
    load_snapshots b [0..<unat (nv_snapshot_count b)] st1 = Some st2 \<and> nv_image st2 = nv_image st"
proof -
  let ?n = "unat (get_total_record_count st)"
  have init: "dtc_ok st0" "dynamic_count st0 = 0" using init_storage[OF assms(5)] by simp_all
  then have "loaded st 0 (st0\<lparr> nvm_store := x \<rparr>)" by (simp add: loaded_def dynamic_numbers_def)
  from load_records_loaded[OF assms(1,3) this] obtain st1 where
    l: "load_records b [0..<?n] (st0\<lparr> nvm_store := x \<rparr>) = Some st1" "loaded st ?n st1" by auto
  have ok: "dtc_ok st1" "unat (dynamic_count st1) = ?n - 69" using l(2) by (simp_all add: loaded_def)
  have n: "unat (get_total_record_count st1) = ?n"
    using ok unat_total[OF ok(1)] unat_total[OF assms(1)] by simp
  have "nv_image st1 = nv_image st"
  proof (rule nth_equalityI)
    show "length (nv_image st1) = length (nv_image st)" using n by (simp add: nv_image_def dtc_records_def)
    fix i assume "i < length (nv_image st1)"
    then have i: "i < ?n" using n by (simp add: nv_image_def dtc_records_def)
    then show "nv_image st1 ! i = nv_image st ! i"
      using image_nth(1)[OF ok(1), of i] n l(2) by (simp add: loaded_def)
  qed
  moreover have "\<forall>s \<in> set [0..<unat (nv_snapshot_count b)]. s < 8" using assms(2) by (auto simp: block_ok_def)
  moreover from load_snapshots_image[OF assms(2) this ok(1)] obtain st2 where
    "load_snapshots b [0..<unat (nv_snapshot_count b)] st1 = Some st2" "nv_image st2 = nv_image st1" by blast
  ultimately show ?thesis using l(1) assms(4) by auto
qed

section \<open>Across a reset\<close>


text \<open>A flash with sectors of 4 KiB that programs by clearing bits and never fails.\<close>

definition nor_4k :: "(u32 \<Rightarrow> u8) UdsFlashPort" where
  "nor_4k =
     \<lparr> port_erase = Some (\<lambda>m a. (0, memory_put m a (replicate 4096 0xFF))),
       port_read = Some (\<lambda>m a n. (0, memory_at m a n, m)),
       port_write = Some (\<lambda>m a bs. (0, memory_put m a (map2 (AND) (memory_at m a (length bs)) bs))),
       port_sector_size = Some (\<lambda>_. 4096), port_program_granule = 2, port_erased_byte = 0xFF \<rparr>"

lemma nor_4k_ok: "flash_ok nor_4k id 4096"
  unfolding flash_ok_def
proof (intro exI conjI)
  show "\<forall>f a bs. memory_at (id f) a (length bs) = replicate (length bs) 0xFF \<longrightarrow>
      (\<exists>st f' k. the (port_write nor_4k) f a bs = (st, f') \<and> k \<le> length bs \<and>
         id f' = memory_put (id f) a (take k bs) \<and> (st = 0 \<longrightarrow> k = length bs))"
    by (intro allI impI, rule exI, rule exI, rule_tac x="length bs" in exI) (simp add: nor_4k_def map2_and_ones)
qed (auto simp: nor_4k_def)

lemma save_succeeds:
  assumes "store_usable store" "wl_initialized store" "length data = 1480"
    and "port_erase (wl_port store) = Some e" "\<forall>f a. fst (e f a) = 0"
    and "port_write (wl_port store) = Some w" "\<forall>f a bs. fst (w f a bs) = 0"
  shows "\<exists>store' f'. uds_param_save store data f = Some (UDS_PARAM_OK, store', f')"
proof -
  have "\<exists>sec sl f1. prepare_next_slot store f = Some (UDS_PARAM_OK, sec, sl, f1)"
    using assms(1,4,5) by (simp add: prepare_next_slot_def store_usable_def erase_at_def Let_def case_prod_beta)
  then obtain sec sl f1 where p: "prepare_next_slot store f = Some (UDS_PARAM_OK, sec, sl, f1)" by blast
  have d: "unat (data_size store) \<le> length data" using assms(1,3) by (simp add: store_usable_def)
  have h: "16 \<le> length (header_bytes (save_header store data))" by (simp add: header_bytes_def save_header_def)
  obtain f2 where w1: "write_padded_chunked store f1 (slot_addr store sec sl + ucast (header_size store)) data
      (unat (data_size store)) (unat (payload_size_aligned store)) 0 = Some (UDS_PARAM_OK, f2)"
    using write_padded_defined[OF assms(6) d] assms(7) by metis
  obtain f3 where w2: "write_padded_chunked store f2 (slot_addr store sec sl) (header_bytes (save_header store data)) 16
      (unat (header_size store)) 0 = Some (UDS_PARAM_OK, f3)"
    using write_padded_defined[OF assms(6) h] assms(7) by metis
  show ?thesis using p w1 w2 assms(2) by (simp add: uds_param_save_def Let_def)
qed


end
