(* ===== verification/Aes_Cmac.thy ===== *)
theory Aes_Cmac
  imports Prelude
begin

text \<open>
  AES-128 (\<open>library/crypto/aes.c\<close>), AES-CMAC (\<open>library/crypto/aes_cmac.c\<close>) and the key derivation of
  SecurityAccess (\<open>library/crypto/uds_security_cmac.c\<close>). A block is a list of 16 bytes. The
  clearing of the stack at the end of a call is not modelled: the cleared buffers are not read again.
\<close>

section \<open>AES-128\<close>

definition sbox :: "u8 list" where
  "sbox = [
    0x63, 0x7c, 0x77, 0x7b, 0xf2, 0x6b, 0x6f, 0xc5, 0x30, 0x01, 0x67, 0x2b, 0xfe, 0xd7, 0xab, 0x76,
    0xca, 0x82, 0xc9, 0x7d, 0xfa, 0x59, 0x47, 0xf0, 0xad, 0xd4, 0xa2, 0xaf, 0x9c, 0xa4, 0x72, 0xc0,
    0xb7, 0xfd, 0x93, 0x26, 0x36, 0x3f, 0xf7, 0xcc, 0x34, 0xa5, 0xe5, 0xf1, 0x71, 0xd8, 0x31, 0x15,
    0x04, 0xc7, 0x23, 0xc3, 0x18, 0x96, 0x05, 0x9a, 0x07, 0x12, 0x80, 0xe2, 0xeb, 0x27, 0xb2, 0x75,
    0x09, 0x83, 0x2c, 0x1a, 0x1b, 0x6e, 0x5a, 0xa0, 0x52, 0x3b, 0xd6, 0xb3, 0x29, 0xe3, 0x2f, 0x84,
    0x53, 0xd1, 0x00, 0xed, 0x20, 0xfc, 0xb1, 0x5b, 0x6a, 0xcb, 0xbe, 0x39, 0x4a, 0x4c, 0x58, 0xcf,
    0xd0, 0xef, 0xaa, 0xfb, 0x43, 0x4d, 0x33, 0x85, 0x45, 0xf9, 0x02, 0x7f, 0x50, 0x3c, 0x9f, 0xa8,
    0x51, 0xa3, 0x40, 0x8f, 0x92, 0x9d, 0x38, 0xf5, 0xbc, 0xb6, 0xda, 0x21, 0x10, 0xff, 0xf3, 0xd2,
    0xcd, 0x0c, 0x13, 0xec, 0x5f, 0x97, 0x44, 0x17, 0xc4, 0xa7, 0x7e, 0x3d, 0x64, 0x5d, 0x19, 0x73,
    0x60, 0x81, 0x4f, 0xdc, 0x22, 0x2a, 0x90, 0x88, 0x46, 0xee, 0xb8, 0x14, 0xde, 0x5e, 0x0b, 0xdb,
    0xe0, 0x32, 0x3a, 0x0a, 0x49, 0x06, 0x24, 0x5c, 0xc2, 0xd3, 0xac, 0x62, 0x91, 0x95, 0xe4, 0x79,
    0xe7, 0xc8, 0x37, 0x6d, 0x8d, 0xd5, 0x4e, 0xa9, 0x6c, 0x56, 0xf4, 0xea, 0x65, 0x7a, 0xae, 0x08,
    0xba, 0x78, 0x25, 0x2e, 0x1c, 0xa6, 0xb4, 0xc6, 0xe8, 0xdd, 0x74, 0x1f, 0x4b, 0xbd, 0x8b, 0x8a,
    0x70, 0x3e, 0xb5, 0x66, 0x48, 0x03, 0xf6, 0x0e, 0x61, 0x35, 0x57, 0xb9, 0x86, 0xc1, 0x1d, 0x9e,
    0xe1, 0xf8, 0x98, 0x11, 0x69, 0xd9, 0x8e, 0x94, 0x9b, 0x1e, 0x87, 0xe9, 0xce, 0x55, 0x28, 0xdf,
    0x8c, 0xa1, 0x89, 0x0d, 0xbf, 0xe6, 0x42, 0x68, 0x41, 0x99, 0x2d, 0x0f, 0xb0, 0x54, 0xbb, 0x16]"

definition xtime :: "u8 \<Rightarrow> u8" where
  "xtime v = (let wide :: u32 = ucast v in ucast (push_bit 1 wide XOR ((drop_bit 7 wide AND 1) * 0x1B)))"

definition add_round_key :: "bytes \<Rightarrow> bytes \<Rightarrow> bytes" where
  "add_round_key st round_key = map (\<lambda>i. st ! i XOR round_key ! i) [0..<16]"

definition sub_bytes :: "bytes \<Rightarrow> bytes" where
  "sub_bytes st = map (\<lambda>i. sbox ! unat (st ! i)) [0..<16]"

definition shift_rows :: "bytes \<Rightarrow> bytes" where
  "shift_rows st = map ((!) st) [0, 5, 10, 15, 4, 9, 14, 3, 8, 13, 2, 7, 12, 1, 6, 11]"

definition mix_column :: "u8 \<Rightarrow> u8 \<Rightarrow> u8 \<Rightarrow> u8 \<Rightarrow> bytes" where
  "mix_column v0 v1 v2 v3 =
     (let sum = v0 XOR v1 XOR v2 XOR v3 in
      [v0 XOR (sum XOR xtime (v0 XOR v1)), v1 XOR (sum XOR xtime (v1 XOR v2)),
       v2 XOR (sum XOR xtime (v2 XOR v3)), v3 XOR (sum XOR xtime (v3 XOR v0))])"

definition mix_columns :: "bytes \<Rightarrow> bytes" where
  "mix_columns st = concat (map (\<lambda>c. mix_column (st ! (c * 4)) (st ! (c * 4 + 1)) (st ! (c * 4 + 2)) (st ! (c * 4 + 3))) [0..<4])"

definition rcon :: "nat \<Rightarrow> u8" where
  "rcon round = (xtime ^^ (round - 1)) 1"

text \<open>One round of the key schedule: sixteen more bytes.\<close>

definition expand_round :: "bytes \<Rightarrow> nat \<Rightarrow> bytes" where
  "expand_round keys round =
     (let previous = drop ((round - 1) * 16) keys;
          word = map (\<lambda>i. sbox ! unat (previous ! i)) [13, 14, 15, 12];
          word = word[0 := word ! 0 XOR rcon round] in
      keys @ foldl (\<lambda>new i. new @ [previous ! i XOR (if i < 4 then word ! i else new ! (i - 4))]) [] [0..<16])"

definition aes128_init :: "bytes \<Rightarrow> bytes" where
  "aes128_init key = foldl expand_round (take 16 key) [1..<11]"

definition aes128_encrypt_block :: "bytes \<Rightarrow> bytes \<Rightarrow> bytes" where
  "aes128_encrypt_block round_keys input =
     (let st = add_round_key input round_keys;
          st = foldl (\<lambda>st round. add_round_key (mix_columns (shift_rows (sub_bytes st))) (drop (round * 16) round_keys))
                 st [1..<10] in
      add_round_key (shift_rows (sub_bytes st)) (drop 160 round_keys))"

section \<open>CMAC\<close>

definition xor_block :: "bytes \<Rightarrow> bytes \<Rightarrow> bytes" where
  "xor_block destination source = map (\<lambda>i. destination ! i XOR source ! i) [0..<16]"

text \<open>From the last byte to the first, with the carry.\<close>

definition shift_byte :: "u8 \<Rightarrow> bytes \<times> u8 \<Rightarrow> bytes \<times> u8" where
  "shift_byte v = (\<lambda>(out, carry). ((push_bit 1 v OR carry) # out, drop_bit 7 v AND 1))"

definition left_shift_block :: "bytes \<Rightarrow> bytes" where
  "left_shift_block input =
     (case foldr shift_byte input ([], 0) of
        (output, carry) \<Rightarrow> if carry \<noteq> 0 then output[15 := output ! 15 XOR 0x87] else output)"

definition generate_subkey :: "bytes \<Rightarrow> bool \<Rightarrow> bytes" where
  "generate_subkey aes second =
     (let output = left_shift_block (aes128_encrypt_block aes (replicate 16 0)) in
      if second then left_shift_block output else output)"

text \<open>The complete blocks: \<open>state\<close> after each of them.\<close>

definition cmac_step :: "bytes \<Rightarrow> bytes \<Rightarrow> bytes \<Rightarrow> nat \<Rightarrow> bytes" where
  "cmac_step aes message st index =
     aes128_encrypt_block aes (xor_block (take 16 (drop (index * 16) message)) st)"

definition aes_cmac_128 :: "bytes \<Rightarrow> bytes \<Rightarrow> bytes" where
  "aes_cmac_128 key message =
     (let aes = aes128_init key;
          k1 = generate_subkey aes False;
          k2 = generate_subkey aes True;
          block_count = (if length message = 0 then 1 else (length message + 15) div 16);
          complete_count = block_count - 1;
          st = foldl (cmac_step aes message) (replicate 16 0) [0..<complete_count];
          last_offset = complete_count * 16;
          remaining = (if length message > last_offset then length message - last_offset else 0);
          last_block = (if length message \<noteq> 0 \<and> remaining = 16
                        then xor_block (take 16 (drop last_offset message)) k1
                        else xor_block ((take remaining (drop last_offset message) @ replicate (16 - remaining) 0)
                                          [remaining := 0x80]) k2) in
      aes128_encrypt_block aes (xor_block last_block st))"

definition UDS_SECURITY_CMAC_MAX_SEED_LENGTH :: nat where "UDS_SECURITY_CMAC_MAX_SEED_LENGTH = 4095"

definition uds_security_cmac_derive_key_for_seed :: "bytes \<Rightarrow> bytes \<Rightarrow> bytes option" where
  "uds_security_cmac_derive_key_for_seed master_key seed =
     (if length seed > UDS_SECURITY_CMAC_MAX_SEED_LENGTH then None else Some (aes_cmac_128 master_key seed))"

definition uds_security_cmac_derive_key :: "bytes \<Rightarrow> bytes \<Rightarrow> bytes option" where
  "uds_security_cmac_derive_key master_key seed = uds_security_cmac_derive_key_for_seed master_key (take 16 seed)"

definition uds_security_cmac_constant_time_equal :: "bytes \<Rightarrow> bytes \<Rightarrow> bool" where
  "uds_security_cmac_constant_time_equal left right =
     (foldl (\<lambda>difference i. difference OR (left ! i XOR right ! i)) 0 [0..<16] = 0)"

section \<open>Reference\<close>

text \<open>The block as a number, first byte most significant, and doubling in GF(2^128).\<close>

definition block_val :: "bytes \<Rightarrow> 128 word" where
  "block_val bs = foldl (\<lambda>a b. push_bit 8 a OR ucast b) 0 bs"

definition gf_double :: "128 word \<Rightarrow> 128 word" where
  "gf_double x = push_bit 1 x XOR (if bit x 127 then 0x87 else 0)"

definition block_xor :: "bytes \<Rightarrow> bytes \<Rightarrow> bytes" where
  "block_xor xs ys = map2 (XOR) xs ys"

text \<open>RFC 4493 as a recursion over the message, for a block cipher \<open>E\<close> and its subkeys.\<close>

function cmac_spec :: "(bytes \<Rightarrow> bytes) \<Rightarrow> bytes \<Rightarrow> bytes \<Rightarrow> bytes \<Rightarrow> bytes \<Rightarrow> bytes" where
  "cmac_spec E k1 k2 x message =
     (if length message > 16 then cmac_spec E k1 k2 (E (block_xor (take 16 message) x)) (drop 16 message)
      else if length message = 16 then E (block_xor (block_xor message k1) x)
      else E (block_xor (block_xor (message @ [0x80] @ replicate (15 - length message) 0) k2) x))"
  by pat_completeness auto
termination by (relation "measure (\<lambda>(E, k1, k2, x, message). length message)") auto

declare cmac_spec.simps [simp del]

section \<open>Doubling\<close>

primrec nval :: "bytes \<Rightarrow> nat" where
  "nval [] = 0"
| "nval (b # bs) = unat b * 256 ^ length bs + nval bs"

lemma nval_lt: "nval bs < 256 ^ length bs"
proof (induction bs)
  case (Cons b bs)
  have "unat b + 1 \<le> 256" using unat_u8_lt[of b] by linarith
  from mult_le_mono1[OF this, of "256 ^ length bs"]
  have "unat b * 256 ^ length bs + 256 ^ length bs \<le> 256 * 256 ^ length bs"
    by (simp only: distrib_right mult_1)
  then show ?case using Cons by (simp only: nval.simps length_Cons power_Suc)
qed simp

lemma shift_byte_val:
  assumes "c = 0 \<or> c = 1" "shift_byte v (out, c) = (out', c')"
  shows "\<exists>b. out' = b # out \<and> unat b + 256 * unat c' = 2 * unat v + unat c \<and> (c' = 0 \<or> c' = 1)"
proof -
  have or: "push_bit 1 v OR c = push_bit 1 v + c"
    by (rule disjunctive_add[symmetric]) (use assms(1) in \<open>auto simp: bit_simps bit_0\<close>)
  have uc: "unat c \<le> 1" using assms(1) by auto
  have b: "unat (push_bit 1 v OR c) = (2 * unat v + unat c) mod 256"
    unfolding or by (simp add: push_bit_eq_mult unat_word_ariths mod_simps mult.commute)
  have "drop_bit 7 v AND 1 = take_bit 1 (drop_bit 7 v)" by (simp add: take_bit_eq_mask mask_eq_exp_minus_1)
  then have "unat (drop_bit 7 v AND 1) = unat v div 128 mod 2"
    by (simp add: drop_bit_eq_div take_bit_eq_mod unat_mod_distrib unat_div_distrib)
  then have c: "unat (drop_bit 7 v AND 1) = unat v div 128"
    using unat_u8_lt[of v] by (simp add: less_mult_imp_div_less)
  then have "unat (drop_bit 7 v AND 1) \<le> 1" using unat_u8_lt[of v] by linarith
  then have "drop_bit 7 v AND 1 = 0 \<or> drop_bit 7 v AND 1 = 1"
    by (metis le_Suc_eq One_nat_def le_zero_eq unat_eq_zero unat_1 word_unat_eq_iff)
  moreover have "(2 * unat v + unat c) mod 256 + 256 * (unat v div 128) = 2 * unat v + unat c"
  proof -
    have "(2 * unat v + unat c) div 256 = unat v div 128"
      using uc div_mult2_eq[of "2 * unat v + unat c" 2 128] by (cases "unat c") auto
    then show ?thesis using mod_mult_div_eq[of "2 * unat v + unat c" 256] by simp
  qed
  ultimately show ?thesis using assms(2) b c by (auto simp: shift_byte_def)
qed

lemma foldr_shift:
  "foldr shift_byte xs ([], 0) = (out, c) \<Longrightarrow>
     length out = length xs \<and> (c = 0 \<or> c = 1) \<and> nval out + 256 ^ length xs * unat c = 2 * nval xs"
proof (induction xs arbitrary: out c)
  case (Cons v xs)
  obtain out1 c1 where r: "foldr shift_byte xs ([], 0) = (out1, c1)" by fastforce
  note IH = Cons.IH[OF r]
  then obtain b where b: "out = b # out1" "unat b + 256 * unat c = 2 * unat v + unat c1" "c = 0 \<or> c = 1"
    using shift_byte_val[of c1 v out1 out c] Cons.prems r by auto
  have "nval out + 256 ^ length (v # xs) * unat c = (unat b + 256 * unat c) * 256 ^ length xs + nval out1"
    using IH by (simp add: b(1) algebra_simps)
  also have "\<dots> = 2 * unat v * 256 ^ length xs + (nval out1 + 256 ^ length xs * unat c1)"
    by (simp only: b(2)) (simp add: algebra_simps)
  also have "\<dots> = 2 * nval (v # xs)" using IH by simp
  finally show ?case using b IH by simp
qed simp

lemma block_val_nval:
  "foldl (\<lambda>a b. push_bit 8 a OR ucast b) a bs = a * of_nat (256 ^ length bs) + of_nat (nval bs)" for a :: "128 word"
proof (induction bs arbitrary: a)
  case (Cons b bs)
  have "push_bit 8 a OR ucast b = push_bit 8 a + ucast b"
    by (rule disjunctive_add[symmetric]) (auto simp: bit_simps dest: bit_imp_le_length)
  then have "push_bit 8 a OR ucast b = a * 256 + of_nat (unat b)"
    by (simp add: push_bit_eq_mult unsigned_of_nat)
  then show ?case using Cons by (simp add: algebra_simps)
qed simp

lemma block_val_xor_last:
  "block_val (xs @ [y XOR z]) = block_val (xs @ [y]) XOR ucast z"
proof -
  have "push_bit 8 a OR ucast (y XOR z) = (push_bit 8 a OR ucast y) XOR ucast z" for a :: "128 word"
    by (rule bit_word_eqI) (auto simp: bit_simps dest: bit_imp_le_length)
  then show ?thesis by (simp add: block_val_def)
qed

lemma left_shift_doubles:
  assumes "length b = 16"
  shows "block_val (left_shift_block b) = gf_double (block_val b) \<and> length (left_shift_block b) = 16"
proof -
  obtain out c where r: "foldr shift_byte b ([], 0) = (out, c)" by fastforce
  have p: "(256 :: nat) ^ 16 = 2 ^ 128" by simp
  have f: "length out = 16" "c = 0 \<or> c = 1" "nval out + 2 ^ 128 * unat c = 2 * nval b"
    using foldr_shift[OF r] assms p by auto
  have lt: "nval b < 2 ^ 128" "nval out < 2 ^ 128" using nval_lt[of b] nval_lt[of out] assms f(1) p by auto
  have bv: "block_val b = of_nat (nval b)" "block_val out = of_nat (nval out)"
    by (simp_all add: block_val_def block_val_nval)
  have z: "(of_nat (2 ^ 128) :: 128 word) = 0" by simp
  have "(of_nat (nval out + 2 ^ 128 * unat c) :: 128 word) = of_nat (nval out)"
    by (simp only: of_nat_add of_nat_mult z mult_zero_left add_0_right)
  then have dbl: "block_val out = push_bit 1 (block_val b)"
    unfolding f(3) by (simp add: bv push_bit_eq_mult mult.commute)
  have "bit (block_val b) 127 \<longleftrightarrow> bit (nval b) 127" by (simp add: bv bit_simps)
  also have "\<dots> \<longleftrightarrow> odd (nval b div 2 ^ 127)" by (simp add: bit_iff_odd)
  also have "\<dots> \<longleftrightarrow> 2 ^ 127 \<le> nval b"
  proof -
    have "nval b div 2 ^ 127 < 2" using lt(1) by (simp add: less_mult_imp_div_less)
    then have "nval b div 2 ^ 127 = 0 \<or> nval b div 2 ^ 127 = 1" by linarith
    moreover have "nval b div 2 ^ 127 = 0 \<longleftrightarrow> nval b < 2 ^ 127" by (simp add: div_eq_0_iff)
    ultimately show ?thesis by auto
  qed
  also have "\<dots> \<longleftrightarrow> c \<noteq> 0" using f(2,3) lt by auto
  finally have top: "bit (block_val b) 127 \<longleftrightarrow> c \<noteq> 0" .
  have o: "out = take 15 out @ [out ! 15]" using f(1) take_Suc_conv_app_nth[of 15 out] by simp
  have "out[15 := out ! 15 XOR 0x87] = take 15 out @ [out ! 15 XOR 0x87]"
    using f(1) by (simp add: upd_conv_take_nth_drop)
  then have "block_val (out[15 := out ! 15 XOR 0x87]) = block_val out XOR 0x87"
    using block_val_xor_last[of "take 15 out" "out ! 15" "0x87"] o by simp
  then show ?thesis using r f(1) dbl top by (simp add: left_shift_block_def gf_double_def)
qed

section \<open>The MAC\<close>

lemma length_encrypt [simp]: "length (aes128_encrypt_block keys b) = 16"
  by (simp add: aes128_encrypt_block_def add_round_key_def)

lemma xor_block_eq:
  assumes "length xs = 16" "length ys = 16"
  shows "xor_block xs ys = block_xor xs ys"
  using assms by (intro nth_equalityI) (simp_all add: xor_block_def block_xor_def)

lemma length_block_xor [simp]: "length (block_xor xs ys) = min (length xs) (length ys)"
  by (simp add: block_xor_def)

definition complete_blocks :: "nat \<Rightarrow> nat" where
  "complete_blocks n = (if n = 0 then 1 else (n + 15) div 16) - 1"

definition last_cmac_block :: "bytes \<Rightarrow> bytes \<Rightarrow> bytes \<Rightarrow> bytes" where
  "last_cmac_block k1 k2 message =
     (let offset = complete_blocks (length message) * 16; remaining = length message - offset in
      if message \<noteq> [] \<and> remaining = 16 then xor_block (take 16 (drop offset message)) k1
      else xor_block ((take remaining (drop offset message) @ replicate (16 - remaining) 0)[remaining := 0x80]) k2)"

lemma complete_blocks_drop: "16 < n \<Longrightarrow> complete_blocks n = Suc (complete_blocks (n - 16))"
proof -
  assume "16 < n"
  then obtain k where n: "n = 16 + k" "0 < k" by (metis add_diff_inverse_nat less_imp_not_less zero_less_diff)
  moreover have "1 \<le> (k + 15) div 16" using n(2) div_le_mono[of 16 "k + 15" 16] by simp
  ultimately show ?thesis by (simp add: complete_blocks_def)
qed

lemma complete_blocks_short: "n \<le> 16 \<Longrightarrow> complete_blocks n = 0"
  by (auto simp: complete_blocks_def)

lemma cmac_fold_spec:
  assumes "length k1 = 16" "length k2 = 16"
  shows "length x = 16 \<Longrightarrow>
    aes128_encrypt_block aes (xor_block (last_cmac_block k1 k2 message)
      (foldl (cmac_step aes message) x [0..<complete_blocks (length message)])) =
    cmac_spec (aes128_encrypt_block aes) k1 k2 x message"
proof (induction "length message" arbitrary: message x rule: less_induct)
  case less
  show ?case
  proof (cases "length message > 16")
    case True
    let ?m = "drop 16 message"
    have n: "complete_blocks (length message) = Suc (complete_blocks (length ?m))"
      using True by (simp add: complete_blocks_drop)
    have last: "last_cmac_block k1 k2 message = last_cmac_block k1 k2 ?m"
      using True by (simp add: last_cmac_block_def n Let_def add.commute)
    have "foldl (cmac_step aes message) y [Suc 0..<Suc n] = foldl (cmac_step aes ?m) y [0..<n]" for y n
      by (induction n) (simp_all add: cmac_step_def add.commute)
    then have "foldl (cmac_step aes message) x [0..<complete_blocks (length message)] =
        foldl (cmac_step aes ?m) (cmac_step aes message x 0) [0..<complete_blocks (length ?m)]"
      by (simp add: n upt_conv_Cons del: upt_Suc)
    moreover have "cmac_step aes message x 0 = aes128_encrypt_block aes (block_xor (take 16 message) x)"
      using True less.prems by (simp add: cmac_step_def xor_block_eq)
    ultimately show ?thesis
      using less.hyps[of ?m "cmac_step aes message x 0"] True
      by (simp add: last cmac_spec.simps[of _ _ _ _ message])
  next
    case False
    show ?thesis
    proof (cases "length message = 16")
      case True
      then show ?thesis
        using less.prems assms
        by (auto simp: complete_blocks_short last_cmac_block_def xor_block_eq cmac_spec.simps[of _ _ _ _ message])
    next
      case short: False
      then have l: "length message < 16" using False by simp
      then have e: "16 - length message = Suc (15 - length message)" by simp
      have "(message @ replicate (16 - length message) 0)[length message := 0x80] =
          message @ [0x80] @ replicate (15 - length message) 0"
        by (simp add: list_update_append e)
      then show ?thesis
        using l less.prems assms
        by (simp add: complete_blocks_short last_cmac_block_def xor_block_eq cmac_spec.simps[of _ _ _ _ message] Let_def)
    qed
  qed
qed

section \<open>Properties\<close>


text \<open>The comparison of keys decides equality of the two blocks, whatever its running time.\<close>

lemma constant_time_equal_iff:
  assumes "length xs = 16" "length ys = 16"
  shows "uds_security_cmac_constant_time_equal xs ys \<longleftrightarrow> xs = ys"
proof -
  have or: "a OR b = 0 \<longleftrightarrow> a = 0 \<and> b = 0" for a b :: u8
    by (auto simp: bit_eq_iff bit_simps)
  have "foldl (\<lambda>d i. d OR (xs ! i XOR ys ! i)) c [0..<n] = 0 \<longleftrightarrow> c = 0 \<and> (\<forall>i < n. xs ! i = ys ! i)" for c n
  proof (induction n)
    case (Suc n)
    have "xs ! n XOR ys ! n = 0 \<longleftrightarrow> xs ! n = ys ! n" by (auto simp: bit_eq_iff bit_simps)
    with Suc show ?case by (auto simp: or less_Suc_eq)
  qed simp
  then show ?thesis
    using assms by (auto simp: uds_security_cmac_constant_time_equal_def list_eq_iff_nth_eq)
qed

end
