(* ===== verification/App_Services.thy ===== *)
theory App_Services
  imports Uds_Memory Aes_Cmac
begin

text \<open>
  The small services of the application (\<open>App/Src\<close>): InputOutputControl (\<open>uds_io_control_app.c\<close>),
  ResponseOnEvent (\<open>uds_roe_app.c\<close>), LinkControl (\<open>uds_link_control_app.c\<close>), Authentication
  (\<open>uds_auth_app.c\<close>), SecurityAccess (\<open>uds_security_app.c\<close>), the data identifiers
  (\<open>uds_did_app.c\<close>) and the memory regions (\<open>uds_memory_app.c\<close>). The static variables of a file are
  the fields of a record. A handler gets the response buffer, whose length is the capacity, and the
  length variable; \<open>None\<close> is undefined behaviour. The pointers of the callers are not null.
\<close>

section \<open>InputOutputControl\<close>

definition UDS_IO_AIR_INLET_DEFAULT_POS :: u8 where "UDS_IO_AIR_INLET_DEFAULT_POS = 50"
definition UDS_IO_EGR_DEFAULT_DUTY :: u8 where "UDS_IO_EGR_DEFAULT_DUTY = 20"
definition UDS_IO_IAC_DEFAULT_STEPS :: u8 where "UDS_IO_IAC_DEFAULT_STEPS = 80"
definition UDS_IO_DID_AIR_INLET_DOOR :: u16 where "UDS_IO_DID_AIR_INLET_DOOR = 0x9B00"
definition UDS_IO_DID_EGR_AND_IAC :: u16 where "UDS_IO_DID_EGR_AND_IAC = 0x0155"
definition UDS_IO_MASK_EGR_ENABLE :: u8 where "UDS_IO_MASK_EGR_ENABLE = 1"
definition UDS_IO_MASK_IAC_ENABLE :: u8 where "UDS_IO_MASK_IAC_ENABLE = 1"

record io_state =
  s_air_inlet_pos :: u8
  s_air_inlet_under_control :: bool
  s_air_inlet_frozen :: bool
  s_egr_duty :: u8
  s_iac_steps :: u8
  s_egr_under_control :: bool
  s_iac_under_control :: bool
  s_egr_iac_frozen :: bool

definition uds_io_control_app_init :: io_state where
  "uds_io_control_app_init =
     \<lparr> s_air_inlet_pos = UDS_IO_AIR_INLET_DEFAULT_POS, s_air_inlet_under_control = False, s_air_inlet_frozen = False,
       s_egr_duty = UDS_IO_EGR_DEFAULT_DUTY, s_iac_steps = UDS_IO_IAC_DEFAULT_STEPS, s_egr_under_control = False,
       s_iac_under_control = False, s_egr_iac_frozen = False \<rparr>"

type_synonym 's app_result = "(UdsCallbackResult \<times> bytes \<times> u16 \<times> 's) option"

text \<open>The end of a handler: the bytes go to the front of the response when it has room for them.\<close>

definition respond :: "bytes \<Rightarrow> bytes \<Rightarrow> u16 \<Rightarrow> 's \<Rightarrow> 's app_result" where
  "respond bs response rlen st =
     (if length response < length bs then Some (UDS_RESULT_RESPONSE_TOO_LONG, response, rlen, st)
      else do { response \<leftarrow> poke_list response 0 bs; Some (UDS_RESULT_OK, response, of_nat (length bs), st) })"

definition handle_air_inlet_door :: "io_state \<Rightarrow> bytes \<Rightarrow> bytes \<Rightarrow> u16 \<Rightarrow> io_state app_result" where
  "handle_air_inlet_door st parameter response rlen = do {
     control_param \<leftarrow> peek parameter 0;
     (if control_param = 0x00 then
        if length parameter \<noteq> 1 then Some (UDS_RESULT_INVALID_FORMAT, response, rlen, st)
        else let st = st\<lparr> s_air_inlet_pos := UDS_IO_AIR_INLET_DEFAULT_POS, s_air_inlet_under_control := False,
               s_air_inlet_frozen := False \<rparr> in respond [control_param, s_air_inlet_pos st] response rlen st
      else if control_param = 0x01 then
        if length parameter \<noteq> 1 then Some (UDS_RESULT_INVALID_FORMAT, response, rlen, st)
        else let st = st\<lparr> s_air_inlet_pos := UDS_IO_AIR_INLET_DEFAULT_POS, s_air_inlet_under_control := True,
               s_air_inlet_frozen := False \<rparr> in respond [control_param, s_air_inlet_pos st] response rlen st
      else if control_param = 0x02 then
        if length parameter \<noteq> 1 then Some (UDS_RESULT_INVALID_FORMAT, response, rlen, st)
        else let st = st\<lparr> s_air_inlet_under_control := True, s_air_inlet_frozen := True \<rparr> in
          respond [control_param, s_air_inlet_pos st] response rlen st
      else if control_param = 0x03 then
        if length parameter \<noteq> 2 then Some (UDS_RESULT_INVALID_FORMAT, response, rlen, st)
        else do {
          pos \<leftarrow> peek parameter 1;
          (if pos > 100 then Some (UDS_RESULT_OUT_OF_RANGE, response, rlen, st)
           else let st = st\<lparr> s_air_inlet_pos := pos, s_air_inlet_under_control := True, s_air_inlet_frozen := False \<rparr> in
             respond [control_param, s_air_inlet_pos st] response rlen st) }
      else Some (UDS_RESULT_SUBFUNCTION_NOT_SUPPORTED, response, rlen, st)) }"

text \<open>Return control and reset to default differ in whether the actuators stay under control.\<close>

definition egr_iac_defaults :: "bool \<Rightarrow> io_state \<Rightarrow> bytes \<Rightarrow> (UdsCallbackResult \<times> io_state) option" where
  "egr_iac_defaults control st parameter =
     (if length parameter = 1 then
        Some (UDS_RESULT_OK, st\<lparr> s_egr_duty := UDS_IO_EGR_DEFAULT_DUTY, s_egr_under_control := control,
          s_iac_steps := UDS_IO_IAC_DEFAULT_STEPS, s_iac_under_control := control, s_egr_iac_frozen := False \<rparr>)
      else if length parameter = 3 then do {
        mask_egr \<leftarrow> peek parameter 1;
        mask_iac \<leftarrow> peek parameter 2;
        let st = (if mask_egr AND UDS_IO_MASK_EGR_ENABLE \<noteq> 0
          then st\<lparr> s_egr_duty := UDS_IO_EGR_DEFAULT_DUTY, s_egr_under_control := control \<rparr> else st);
        let st = (if mask_iac AND UDS_IO_MASK_IAC_ENABLE \<noteq> 0
          then st\<lparr> s_iac_steps := UDS_IO_IAC_DEFAULT_STEPS, s_iac_under_control := control \<rparr> else st);
        Some (UDS_RESULT_OK, st\<lparr> s_egr_iac_frozen := False \<rparr>) }
      else Some (UDS_RESULT_INVALID_FORMAT, st))"

definition handle_egr_iac_return_control :: "io_state \<Rightarrow> bytes \<Rightarrow> (UdsCallbackResult \<times> io_state) option" where
  "handle_egr_iac_return_control = egr_iac_defaults False"

definition handle_egr_iac_reset_default :: "io_state \<Rightarrow> bytes \<Rightarrow> (UdsCallbackResult \<times> io_state) option" where
  "handle_egr_iac_reset_default = egr_iac_defaults True"

definition handle_egr_iac_short_term :: "io_state \<Rightarrow> bytes \<Rightarrow> (UdsCallbackResult \<times> io_state) option" where
  "handle_egr_iac_short_term st parameter =
     (if length parameter = 3 then do {
        duty \<leftarrow> peek parameter 1;
        steps \<leftarrow> peek parameter 2;
        (if duty > 100 then Some (UDS_RESULT_OUT_OF_RANGE, st)
         else Some (UDS_RESULT_OK, st\<lparr> s_egr_duty := duty, s_egr_under_control := True, s_iac_steps := steps,
           s_iac_under_control := True, s_egr_iac_frozen := False \<rparr>)) }
      else if length parameter = 5 then do {
        duty \<leftarrow> peek parameter 1;
        steps \<leftarrow> peek parameter 2;
        mask_egr \<leftarrow> peek parameter 3;
        mask_iac \<leftarrow> peek parameter 4;
        (if mask_egr AND UDS_IO_MASK_EGR_ENABLE \<noteq> 0 \<and> duty > 100 then Some (UDS_RESULT_OUT_OF_RANGE, st)
         else do {
           let st = (if mask_egr AND UDS_IO_MASK_EGR_ENABLE \<noteq> 0
             then st\<lparr> s_egr_duty := duty, s_egr_under_control := True \<rparr> else st);
           let st = (if mask_iac AND UDS_IO_MASK_IAC_ENABLE \<noteq> 0
             then st\<lparr> s_iac_steps := steps, s_iac_under_control := True \<rparr> else st);
           Some (UDS_RESULT_OK, st\<lparr> s_egr_iac_frozen := False \<rparr>) }) }
      else Some (UDS_RESULT_INVALID_FORMAT, st))"

definition handle_egr_iac :: "io_state \<Rightarrow> bytes \<Rightarrow> bytes \<Rightarrow> u16 \<Rightarrow> io_state app_result" where
  "handle_egr_iac st parameter response rlen = do {
     control_param \<leftarrow> peek parameter 0;
     (res, st) \<leftarrow>
       (if control_param = 0x00 then handle_egr_iac_return_control st parameter
        else if control_param = 0x01 then handle_egr_iac_reset_default st parameter
        else if control_param = 0x02 then
          if length parameter \<noteq> 1 \<and> length parameter \<noteq> 3 then Some (UDS_RESULT_INVALID_FORMAT, st)
          else Some (UDS_RESULT_OK, st\<lparr> s_egr_iac_frozen := True \<rparr>)
        else if control_param = 0x03 then handle_egr_iac_short_term st parameter
        else Some (UDS_RESULT_SUBFUNCTION_NOT_SUPPORTED, st));
     (if res \<noteq> UDS_RESULT_OK then Some (res, response, rlen, st)
      else respond [control_param, s_egr_duty st, s_iac_steps st] response rlen st) }"

definition uds_io_control_app_handler :: "io_state \<Rightarrow> u16 \<Rightarrow> bytes \<Rightarrow> bytes \<Rightarrow> u16 \<Rightarrow> io_state app_result" where
  "uds_io_control_app_handler st did parameter response rlen =
     (if length parameter < 1 then Some (UDS_RESULT_INVALID_FORMAT, response, rlen, st)
      else if did = UDS_IO_DID_AIR_INLET_DOOR then handle_air_inlet_door st parameter response rlen
      else if did = UDS_IO_DID_EGR_AND_IAC then handle_egr_iac st parameter response rlen
      else Some (UDS_RESULT_OUT_OF_RANGE, response, rlen, st))"

section \<open>ResponseOnEvent\<close>

definition UDS_ROE_MAX_SERVICE_RECORD :: nat where "UDS_ROE_MAX_SERVICE_RECORD = 16"

record UdsRoeEventState =
  roe_configured :: bool
  roe_active :: bool
  roe_event_type :: u8
  roe_event_window_time :: u8
  roe_dtc_status_mask :: u8
  roe_monitored_did :: u16
  roe_service_record_len :: u8
  roe_service_record :: bytes

definition uds_roe_app_init :: UdsRoeEventState where
  "uds_roe_app_init =
     \<lparr> roe_configured = False, roe_active = False, roe_event_type = 0, roe_event_window_time = 0,
       roe_dtc_status_mask = 0, roe_monitored_did = 0, roe_service_record_len = 0,
       roe_service_record = replicate UDS_ROE_MAX_SERVICE_RECORD 0 \<rparr>"

definition handle_stop :: "UdsRoeEventState \<Rightarrow> bytes \<Rightarrow> bytes \<Rightarrow> u16 \<Rightarrow> UdsRoeEventState app_result" where
  "handle_stop st request response rlen =
     (if length request < 2 then Some (UDS_RESULT_INVALID_FORMAT, response, rlen, st)
      else if length response < 4 then Some (UDS_RESULT_RESPONSE_TOO_LONG, response, rlen, st)
      else let st = st\<lparr> roe_active := False \<rparr> in
        respond [0xC6, 0x00, 0x00, if roe_configured st then roe_event_window_time st else 0] response rlen st)"

text \<open>The length of the service record of a request whose header has \<open>n\<close> bytes.\<close>

definition roe_extra_len :: "bytes \<Rightarrow> nat \<Rightarrow> u8" where
  "roe_extra_len request n =
     (let extra_len = of_nat (length request - n) :: u8 in
      if unat extra_len > UDS_ROE_MAX_SERVICE_RECORD then of_nat UDS_ROE_MAX_SERVICE_RECORD else extra_len)"

definition handle_on_dtc_change :: "UdsRoeEventState \<Rightarrow> bytes \<Rightarrow> bytes \<Rightarrow> u16 \<Rightarrow> UdsRoeEventState app_result" where
  "handle_on_dtc_change st request response rlen =
     (if length request < 4 then Some (UDS_RESULT_INVALID_FORMAT, response, rlen, st)
      else
        let extra_len = roe_extra_len request 4; needed_len = 5 + unat extra_len in
        if length response < needed_len then Some (UDS_RESULT_RESPONSE_TOO_LONG, response, rlen, st)
        else do {
          window \<leftarrow> peek request 2;
          status_mask \<leftarrow> peek request 3;
          stored \<leftarrow> copy_loop (roe_service_record st) 0 request 4 (unat extra_len);
          let st = st\<lparr> roe_configured := True, roe_active := False, roe_event_type := 0x01,
            roe_event_window_time := window, roe_dtc_status_mask := status_mask, roe_monitored_did := 0,
            roe_service_record_len := extra_len, roe_service_record := stored \<rparr>;
          response \<leftarrow> poke_list response 0 [0xC6, 0x01, 0x00, roe_event_window_time st, roe_dtc_status_mask st];
          response \<leftarrow> copy_loop response 5 (roe_service_record st) 0 (unat extra_len);
          Some (UDS_RESULT_OK, response, of_nat needed_len, st) })"

definition handle_on_did_change :: "UdsRoeEventState \<Rightarrow> bytes \<Rightarrow> bytes \<Rightarrow> u16 \<Rightarrow> UdsRoeEventState app_result" where
  "handle_on_did_change st request response rlen =
     (if length request < 5 then Some (UDS_RESULT_INVALID_FORMAT, response, rlen, st)
      else
        let extra_len = roe_extra_len request 5; needed_len = 6 + unat extra_len in
        if length response < needed_len then Some (UDS_RESULT_RESPONSE_TOO_LONG, response, rlen, st)
        else do {
          window \<leftarrow> peek request 2;
          hi \<leftarrow> peek request 3;
          lo \<leftarrow> peek request 4;
          stored \<leftarrow> copy_loop (roe_service_record st) 0 request 5 (unat extra_len);
          let st = st\<lparr> roe_configured := True, roe_active := False, roe_event_type := 0x03,
            roe_event_window_time := window, roe_dtc_status_mask := 0,
            roe_monitored_did := push_bit 8 (ucast hi) OR ucast lo,
            roe_service_record_len := extra_len, roe_service_record := stored \<rparr>;
          response \<leftarrow> poke_list response 0 [0xC6, 0x03, 0x00, roe_event_window_time st, hi, lo];
          response \<leftarrow> copy_loop response 6 (roe_service_record st) 0 (unat extra_len);
          Some (UDS_RESULT_OK, response, of_nat needed_len, st) })"

definition handle_report_activated :: "UdsRoeEventState \<Rightarrow> bytes \<Rightarrow> bytes \<Rightarrow> u16 \<Rightarrow> UdsRoeEventState app_result" where
  "handle_report_activated st request response rlen =
     (if length request \<noteq> 2 then Some (UDS_RESULT_INVALID_FORMAT, response, rlen, st)
      else if \<not> roe_active st then respond [0xC6, 0x04, 0x00] response rlen st
      else
        let needed_len = 5 + unat (roe_service_record_len st) + (if roe_event_type st = 0x03 then 1 else 0) in
        if length response < needed_len then Some (UDS_RESULT_RESPONSE_TOO_LONG, response, rlen, st)
        else do {
          response \<leftarrow> poke_list response 0 [0xC6, 0x04, 0x01, roe_event_type st, roe_event_window_time st];
          response \<leftarrow>
            (if roe_event_type st = 0x01 then poke response 5 (roe_dtc_status_mask st)
             else if roe_event_type st = 0x03 then
               poke_list response 5 [ucast (drop_bit 8 (roe_monitored_did st)), ucast (roe_monitored_did st AND 0xFF)]
             else Some response);
          let offset = (if roe_event_type st = 0x01 then 6 else if roe_event_type st = 0x03 then 7 else 5);
          response \<leftarrow> copy_loop response offset (roe_service_record st) 0 (unat (roe_service_record_len st));
          Some (UDS_RESULT_OK, response, of_nat (offset + unat (roe_service_record_len st)), st) })"

definition handle_start :: "UdsRoeEventState \<Rightarrow> bytes \<Rightarrow> bytes \<Rightarrow> u16 \<Rightarrow> UdsRoeEventState app_result" where
  "handle_start st request response rlen =
     (if length request < 2 then Some (UDS_RESULT_INVALID_FORMAT, response, rlen, st)
      else if \<not> roe_configured st then Some (UDS_RESULT_DENIED, response, rlen, st)
      else if length response < 4 then Some (UDS_RESULT_RESPONSE_TOO_LONG, response, rlen, st)
      else let st = st\<lparr> roe_active := True \<rparr> in
        respond [0xC6, 0x05, 0x01, roe_event_window_time st] response rlen st)"

definition handle_clear :: "UdsRoeEventState \<Rightarrow> bytes \<Rightarrow> bytes \<Rightarrow> u16 \<Rightarrow> UdsRoeEventState app_result" where
  "handle_clear st request response rlen =
     (if length request \<noteq> 2 then Some (UDS_RESULT_INVALID_FORMAT, response, rlen, st)
      else if length response < 4 then Some (UDS_RESULT_RESPONSE_TOO_LONG, response, rlen, st)
      else let st = st\<lparr> roe_configured := False, roe_active := False, roe_event_type := 0, roe_event_window_time := 0,
             roe_dtc_status_mask := 0, roe_monitored_did := 0, roe_service_record_len := 0 \<rparr> in
        respond [0xC6, 0x06, 0x00, 0x00] response rlen st)"

definition uds_roe_app_handler :: "UdsRoeEventState \<Rightarrow> bytes \<Rightarrow> bytes \<Rightarrow> u16 \<Rightarrow> UdsRoeEventState app_result" where
  "uds_roe_app_handler st request response rlen =
     (if length request < 2 then Some (UDS_RESULT_INVALID_FORMAT, response, rlen, st)
      else do {
        b \<leftarrow> peek request 1;
        let sub = b AND 0x7F;
        (if sub = 0x00 then handle_stop st request response rlen
         else if sub = 0x01 then handle_on_dtc_change st request response rlen
         else if sub = 0x03 then handle_on_did_change st request response rlen
         else if sub = 0x04 then handle_report_activated st request response rlen
         else if sub = 0x05 then handle_start st request response rlen
         else if sub = 0x06 then handle_clear st request response rlen
         else Some (UDS_RESULT_SUBFUNCTION_NOT_SUPPORTED, response, rlen, st)) })"

section \<open>LinkControl\<close>

definition UDS_LINK_DEFAULT_BAUDRATE :: u32 where "UDS_LINK_DEFAULT_BAUDRATE = 500000"

record link_state =
  s_verified :: bool
  s_pending_baudrate :: u32
  s_active_baudrate :: u32

definition uds_link_control_app_init :: link_state where
  "uds_link_control_app_init =
     \<lparr> s_verified = False, s_pending_baudrate = UDS_LINK_DEFAULT_BAUDRATE, s_active_baudrate = UDS_LINK_DEFAULT_BAUDRATE \<rparr>"

definition fixed_mode_to_baudrate :: "u8 \<Rightarrow> u32 option" where
  "fixed_mode_to_baudrate mode =
     map_of [(0x01, 9600), (0x02, 19200), (0x03, 38400), (0x04, 57600), (0x05, 115200),
       (0x10, 125000), (0x11, 250000), (0x12, 500000), (0x13, 1000000)] mode"

definition is_supported_specific_baudrate :: "u32 \<Rightarrow> bool" where
  "is_supported_specific_baudrate baudrate \<longleftrightarrow>
     baudrate = 125000 \<or> baudrate = 250000 \<or> baudrate = 500000 \<or> baudrate = 1000000"

definition uds_link_control_app_handler :: "link_state \<Rightarrow> bytes \<Rightarrow> bytes \<Rightarrow> u16 \<Rightarrow> link_state app_result" where
  "uds_link_control_app_handler st request response rlen =
     (if length request < 2 then Some (UDS_RESULT_INVALID_FORMAT, response, rlen, st)
      else do {
        b \<leftarrow> peek request 1;
        let sub = b AND 0x7F;
        (if sub = 0x01 then
           if length request \<noteq> 3 then Some (UDS_RESULT_INVALID_FORMAT, response, rlen, st)
           else do {
             mode \<leftarrow> peek request 2;
             (case fixed_mode_to_baudrate mode of
                None \<Rightarrow> Some (UDS_RESULT_OUT_OF_RANGE, response, rlen, st)
              | Some target_baud \<Rightarrow>
                  respond [0xC7, sub] response rlen (st\<lparr> s_pending_baudrate := target_baud, s_verified := True \<rparr>)) }
         else if sub = 0x02 then
           if length request \<noteq> 5 then Some (UDS_RESULT_INVALID_FORMAT, response, rlen, st)
           else do {
             b2 \<leftarrow> peek request 2; b3 \<leftarrow> peek request 3; b4 \<leftarrow> peek request 4;
             let target_baud = push_bit 16 (ucast b2) OR push_bit 8 (ucast b3) OR ucast b4;
             (if \<not> is_supported_specific_baudrate target_baud then Some (UDS_RESULT_OUT_OF_RANGE, response, rlen, st)
              else respond [0xC7, sub] response rlen (st\<lparr> s_pending_baudrate := target_baud, s_verified := True \<rparr>)) }
         else if sub = 0x03 then
           if length request \<noteq> 2 then Some (UDS_RESULT_INVALID_FORMAT, response, rlen, st)
           else if \<not> s_verified st then Some (UDS_RESULT_SEQUENCE_ERROR, response, rlen, st)
           else respond [0xC7, sub] response rlen
             (st\<lparr> s_active_baudrate := s_pending_baudrate st, s_verified := False \<rparr>)
         else Some (UDS_RESULT_SUBFUNCTION_NOT_SUPPORTED, response, rlen, st)) })"

end
