(* ===== verification/App_Access.thy ===== *)
theory App_Access
  imports App_Services
begin

text \<open>
  The services of the application that guard or store something: Authentication
  (\<open>uds_auth_app.c\<close>), SecurityAccess (\<open>uds_security_app.c\<close>, in the build without
  \<open>UDS_ISO_TP_TESTING\<close>), the data identifiers (\<open>uds_did_app.c\<close>) and the memory regions
  (\<open>uds_memory_app.c\<close>).
\<close>

section \<open>Authentication\<close>

definition UDS_AUTH_CHALLENGE_SIZE :: nat where "UDS_AUTH_CHALLENGE_SIZE = 16"

definition s_auth_master_key :: bytes where
  "s_auth_master_key = [0x2B, 0x7E, 0x15, 0x16, 0x28, 0xAE, 0xD2, 0xA6, 0xAB, 0xF7, 0x15, 0x88, 0x09, 0xCF, 0x4F, 0x3C]"

record auth_state =
  s_active_challenge :: bytes
  s_challenge_valid :: bool
  s_is_authenticated :: bool

definition uds_auth_app_init :: auth_state where
  "uds_auth_app_init = \<lparr> s_active_challenge = replicate UDS_AUTH_CHALLENGE_SIZE 0x5A, s_challenge_valid = False,
     s_is_authenticated = False \<rparr>"

definition uds_auth_app_deauthenticate :: "auth_state \<Rightarrow> auth_state" where
  "uds_auth_app_deauthenticate st = st\<lparr> s_is_authenticated := False, s_challenge_valid := False \<rparr>"

definition handle_auth_deauth :: "auth_state \<Rightarrow> u8 \<Rightarrow> bytes \<Rightarrow> u16 \<Rightarrow> auth_state app_result" where
  "handle_auth_deauth st sub response rlen =
     respond [0x69, sub, 0x00] response rlen (uds_auth_app_deauthenticate st)"

text \<open>The next challenge.\<close>

definition next_challenge :: "bytes \<Rightarrow> bytes" where
  "next_challenge c = map (\<lambda>i. c ! i + (of_nat i * 7 + 0x13)) [0..<UDS_AUTH_CHALLENGE_SIZE]"

definition handle_auth_challenge :: "auth_state \<Rightarrow> u8 \<Rightarrow> bytes \<Rightarrow> u16 \<Rightarrow> auth_state app_result" where
  "handle_auth_challenge st sub response rlen =
     (if length response < 2 + UDS_AUTH_CHALLENGE_SIZE then Some (UDS_RESULT_RESPONSE_TOO_LONG, response, rlen, st)
      else
        let st = st\<lparr> s_active_challenge := next_challenge (s_active_challenge st), s_challenge_valid := True \<rparr> in
        respond ([0x69, sub] @ s_active_challenge st) response rlen st)"

definition handle_auth_verify_proof :: "auth_state \<Rightarrow> u8 \<Rightarrow> bytes \<Rightarrow> bytes \<Rightarrow> u16 \<Rightarrow> auth_state app_result" where
  "handle_auth_verify_proof st sub request response rlen =
     (if length request < 2 + UDS_AUTH_CHALLENGE_SIZE \<or> \<not> s_challenge_valid st
      then Some (UDS_RESULT_SEQUENCE_ERROR, response, rlen, st)
      else case uds_security_cmac_derive_key s_auth_master_key (s_active_challenge st) of
        None \<Rightarrow> Some (UDS_RESULT_ERROR, response, rlen, st)
      | Some expected_mac \<Rightarrow>
          if \<not> uds_security_cmac_constant_time_equal (drop 2 request) expected_mac
          then Some (UDS_RESULT_INVALID_KEY, response, rlen, st\<lparr> s_is_authenticated := False \<rparr>)
          else respond [0x69, sub, 0x00] response rlen
            (st\<lparr> s_is_authenticated := True, s_challenge_valid := False \<rparr>))"

definition handle_auth_config :: "auth_state \<Rightarrow> u8 \<Rightarrow> bytes \<Rightarrow> u16 \<Rightarrow> auth_state app_result" where
  "handle_auth_config st sub response rlen = respond [0x69, sub, 0x01, 0x01] response rlen st"

definition uds_auth_app_service_handler :: "auth_state \<Rightarrow> bytes \<Rightarrow> bytes \<Rightarrow> u16 \<Rightarrow> auth_state app_result" where
  "uds_auth_app_service_handler st request response rlen =
     (if length request < 2 then Some (UDS_RESULT_OUT_OF_RANGE, response, rlen, st)
      else do {
        b \<leftarrow> peek request 1;
        let sub = b AND 0x7F;
        (if sub = 0x00 then handle_auth_deauth st sub response rlen
         else if sub = 0x05 then handle_auth_challenge st sub response rlen
         else if sub = 0x06 then handle_auth_verify_proof st sub request response rlen
         else if sub = 0x08 then handle_auth_config st sub response rlen
         else Some (UDS_RESULT_SUBFUNCTION_NOT_SUPPORTED, response, rlen, st)) })"

section \<open>SecurityAccess\<close>

definition UDS_SECURITY_APP_LEVEL1_SEED_LEN :: nat where "UDS_SECURITY_APP_LEVEL1_SEED_LEN = 4"
definition UDS_SECURITY_APP_LEVEL2_SEED_LEN :: nat where "UDS_SECURITY_APP_LEVEL2_SEED_LEN = 16"

text \<open>
  An entropy source stores some bytes and reports success; a key provider likewise. They act on a
  context \<open>'e\<close>, which also holds the hardware generator.
\<close>

type_synonym 'e UdsEntropySourceFn = "'e \<Rightarrow> nat \<Rightarrow> bool \<times> bytes \<times> 'e"
type_synonym 'e UdsSecurityKeyProviderFn = "'e \<Rightarrow> u8 \<Rightarrow> bytes \<Rightarrow> bool \<times> bytes \<times> 'e"

record 'e security_state =
  s_provisioned_master_key :: bytes
  s_has_provisioned_key :: bool
  s_custom_key_provider :: "'e UdsSecurityKeyProviderFn option"
  s_custom_entropy_source :: "'e UdsEntropySourceFn option"
  s_level1_active_seed :: bytes
  s_level1_seed_valid :: bool
  s_level2_active_seed :: bytes
  s_level2_seed_valid :: bool
  s_csprng_pool :: bytes
  s_csprng_counter :: u32
  platform :: 'e

definition csprng_accumulate_entropy :: "u32 \<Rightarrow> 'e security_state \<Rightarrow> 'e security_state" where
  "csprng_accumulate_entropy sample st =
     (let counter = s_csprng_counter st + 1;
          be = (\<lambda>w :: u32. [ucast (drop_bit 24 w), ucast (drop_bit 16 w), ucast (drop_bit 8 w), ucast w]);
          sample_bytes = be sample @ be counter @ [0x80] @ replicate 7 0
      in st\<lparr> s_csprng_counter := counter,
           s_csprng_pool := (case uds_security_cmac_derive_key (s_csprng_pool st) sample_bytes of
             Some mac \<Rightarrow> mac | None \<Rightarrow> s_csprng_pool st) \<rparr>)"

text \<open>The output buffer after the call; \<open>trng\<close> is \<open>uds_platform_trng_get_random\<close>.\<close>

definition csprng_generate_bytes ::
  "'e UdsEntropySourceFn \<Rightarrow> bytes \<Rightarrow> nat \<Rightarrow> 'e security_state \<Rightarrow> (bool \<times> bytes \<times> 'e security_state) option" where
  "csprng_generate_bytes trng output len st =
     (if len = 0 then Some (False, output, st)
      else do {
        (ok, output, st) \<leftarrow>
          (case s_custom_entropy_source st of
             None \<Rightarrow> Some (False, output, st)
           | Some source \<Rightarrow> (case source (platform st) len of (ok, bs, e) \<Rightarrow> do {
               output \<leftarrow> poke_list output 0 bs;
               Some (ok, output, st\<lparr> platform := e \<rparr>) }));
        (if ok then Some (True, output, st)
         else case trng (platform st) len of (ok, bs, e) \<Rightarrow> do {
           output \<leftarrow> poke_list output 0 bs;
           Some (ok, output, st\<lparr> platform := e \<rparr>) }) })"

definition uds_security_app_provision_master_key :: "bytes \<Rightarrow> 'e security_state \<Rightarrow> 'e security_state" where
  "uds_security_app_provision_master_key key st =
     st\<lparr> s_provisioned_master_key := take 16 key, s_has_provisioned_key := True \<rparr>"

definition uds_security_app_set_key_provider ::
  "'e UdsSecurityKeyProviderFn option \<Rightarrow> 'e security_state \<Rightarrow> 'e security_state" where
  "uds_security_app_set_key_provider provider st = st\<lparr> s_custom_key_provider := provider \<rparr>"

definition uds_security_app_is_provisioned :: "'e security_state \<Rightarrow> bool" where
  "uds_security_app_is_provisioned st = (s_has_provisioned_key st \<or> s_custom_key_provider st \<noteq> None)"

definition uds_security_app_set_entropy_source ::
  "'e UdsEntropySourceFn option \<Rightarrow> 'e security_state \<Rightarrow> 'e security_state" where
  "uds_security_app_set_entropy_source source st = st\<lparr> s_custom_entropy_source := source \<rparr>"

definition constant_time_equal_4 :: "bytes \<Rightarrow> bytes \<Rightarrow> bool" where
  "constant_time_equal_4 left right = (foldl (\<lambda>diff i. diff OR (left ! i XOR right ! i)) 0 [0..<4] = 0)"

text \<open>\<open>systick\<close> is what \<open>uds_platform_systick_val\<close> returns; the provisioned key itself stays in memory.\<close>

definition uds_security_app_init :: "u32 \<Rightarrow> 'e security_state \<Rightarrow> 'e security_state" where
  "uds_security_app_init systick st =
     csprng_accumulate_entropy systick
       (st\<lparr> s_level1_seed_valid := False, s_level2_seed_valid := False, s_has_provisioned_key := False,
          s_custom_key_provider := None, s_custom_entropy_source := None,
          s_level1_active_seed := replicate 4 0, s_level2_active_seed := replicate 16 0 \<rparr>)"

definition uds_security_app_calculate_key_level1 :: "bytes \<Rightarrow> bytes" where
  "uds_security_app_calculate_key_level1 seed = map2 (XOR) (take 4 seed) [0xA5, 0x5A, 0xC3, 0x3C]"

text \<open>The success, the key buffer and the state.\<close>

definition uds_security_app_calculate_key_level2 ::
  "bytes \<Rightarrow> bytes \<Rightarrow> 'e security_state \<Rightarrow> (bool \<times> bytes \<times> 'e security_state) option" where
  "uds_security_app_calculate_key_level2 seed key st =
     (case s_custom_key_provider st of
        Some provider \<Rightarrow> (case provider (platform st) 2 seed of (ok, bs, e) \<Rightarrow> do {
          key \<leftarrow> poke_list key 0 bs;
          Some (ok, key, st\<lparr> platform := e \<rparr>) })
      | None \<Rightarrow>
          if \<not> s_has_provisioned_key st then Some (False, key, st)
          else (case uds_security_cmac_derive_key (s_provisioned_master_key st) seed of
            None \<Rightarrow> Some (False, key, st)
          | Some mac \<Rightarrow> Some (True, mac, st)))"

text \<open>The result, the bytes written to the response and the length.\<close>

definition uds_security_app_seed ::
  "'e UdsEntropySourceFn \<Rightarrow> u8 \<Rightarrow> u16 \<Rightarrow> u16 \<Rightarrow> 'e security_state \<Rightarrow>
     (UdsCallbackResult \<times> bytes \<times> u16 \<times> 'e security_state) option" where
  "uds_security_app_seed trng level cap rlen st =
     (if level = 1 then
        if cap < 4 then Some (UDS_RESULT_RESPONSE_TOO_LONG, [], rlen, st)
        else do {
          (ok, seed, st) \<leftarrow> csprng_generate_bytes trng (s_level1_active_seed st) UDS_SECURITY_APP_LEVEL1_SEED_LEN st;
          let st = st\<lparr> s_level1_active_seed := seed \<rparr>;
          (if \<not> ok then Some (UDS_RESULT_ERROR, [], rlen, st)
           else do {
             seed \<leftarrow> (if foldl (OR) 0 seed = 0 then poke_list seed 0 [0xA5, 0x5A] else Some seed);
             Some (UDS_RESULT_OK, seed, 4, st\<lparr> s_level1_active_seed := seed, s_level1_seed_valid := True \<rparr>) }) }
      else if level = 2 then
        if \<not> uds_security_app_is_provisioned st then Some (UDS_RESULT_DENIED, [], rlen, st)
        else if cap < 16 then Some (UDS_RESULT_RESPONSE_TOO_LONG, [], rlen, st)
        else do {
          (ok, seed, st) \<leftarrow> csprng_generate_bytes trng (s_level2_active_seed st) UDS_SECURITY_APP_LEVEL2_SEED_LEN st;
          let st = st\<lparr> s_level2_active_seed := seed \<rparr>;
          (if \<not> ok then Some (UDS_RESULT_ERROR, [], rlen, st)
           else do {
             seed \<leftarrow> (if list_all (\<lambda>b. b = 0) seed then poke seed 0 0xA5 else Some seed);
             Some (UDS_RESULT_OK, seed, 16, st\<lparr> s_level2_active_seed := seed, s_level2_seed_valid := True \<rparr>) }) }
      else Some (UDS_RESULT_OUT_OF_RANGE, [], rlen, st))"

text \<open>\<open>junk\<close> is the local \<open>expected_key\<close> before it is filled.\<close>

definition uds_security_app_key ::
  "bytes \<Rightarrow> u8 \<Rightarrow> bytes \<Rightarrow> 'e security_state \<Rightarrow> (UdsCallbackResult \<times> 'e security_state) option" where
  "uds_security_app_key junk level key st =
     (if level = 1 then
        if length key \<noteq> 4 \<or> \<not> s_level1_seed_valid st
        then Some (UDS_RESULT_INVALID_KEY, st\<lparr> s_level1_seed_valid := False \<rparr>)
        else
          let expected_key = uds_security_app_calculate_key_level1 (s_level1_active_seed st);
              st = st\<lparr> s_level1_seed_valid := False \<rparr> in
          if \<not> constant_time_equal_4 key expected_key then Some (UDS_RESULT_INVALID_KEY, st)
          else Some (UDS_RESULT_OK, st)
      else if level = 2 then
        if length key \<noteq> 16 \<or> \<not> s_level2_seed_valid st
        then Some (UDS_RESULT_INVALID_KEY, st\<lparr> s_level2_seed_valid := False \<rparr>)
        else do {
          (ok, expected_key, st) \<leftarrow> uds_security_app_calculate_key_level2 (s_level2_active_seed st) (take 16 junk) st;
          let st = st\<lparr> s_level2_seed_valid := False \<rparr>;
          (if \<not> ok then Some (UDS_RESULT_ERROR, st)
           else if \<not> uds_security_cmac_constant_time_equal key expected_key then Some (UDS_RESULT_INVALID_KEY, st)
           else Some (UDS_RESULT_OK, st)) }
      else Some (UDS_RESULT_OUT_OF_RANGE, st))"

section \<open>Data identifiers\<close>

definition UDS_DID_MAX_DATA_SIZE :: nat where "UDS_DID_MAX_DATA_SIZE = 64"

record UdsDidRecord =
  rec_did :: u16
  is_writable :: bool
  did_length :: u16
  did_data :: bytes

record did_state =
  s_did_table :: "UdsDidRecord list"
  s_active_session :: u8

definition ascii :: "string \<Rightarrow> bytes" where
  "ascii s = map of_char s"

definition did_record :: "u16 \<Rightarrow> bool \<Rightarrow> bytes \<Rightarrow> UdsDidRecord" where
  "did_record did writable data =
     \<lparr> rec_did = did, is_writable = writable, did_length = of_nat (length data),
       did_data = data @ replicate (UDS_DID_MAX_DATA_SIZE - length data) 0 \<rparr>"

definition uds_did_app_init :: did_state where
  "uds_did_app_init =
     \<lparr> s_did_table =
         [did_record 0xF186 False [0x01], did_record 0xF181 False (ascii ''HIB-HCU-SPARE-01''),
          did_record 0xF182 False (ascii ''BL-STM32F767-V1.0''), did_record 0xF183 True (ascii ''HIB-SW-1002''),
          did_record 0xF184 True (ascii ''HIB-APP-2004''), did_record 0xF185 False (ascii ''HIB-HW-03''),
          did_record 0xF18A False (ascii ''SUPPLIER-ELCTR''), did_record 0xF190 True (ascii ''stm32f767-uds-vin'')],
       s_active_session = 0x01 \<rparr>"

text \<open>The first byte of the first record is the active session.\<close>

definition set_session_byte :: "u8 \<Rightarrow> did_state \<Rightarrow> did_state option" where
  "set_session_byte sess st = do {
     r \<leftarrow> peek (s_did_table st) 0;
     data \<leftarrow> poke (did_data r) 0 sess;
     Some (st\<lparr> s_did_table := (s_did_table st)[0 := r\<lparr> did_data := data \<rparr>] \<rparr>) }"

definition uds_did_app_set_active_session :: "u8 \<Rightarrow> did_state \<Rightarrow> did_state option" where
  "uds_did_app_set_active_session sess st = set_session_byte sess (st\<lparr> s_active_session := sess \<rparr>)"

primrec find_did :: "u16 \<Rightarrow> UdsDidRecord list \<Rightarrow> nat \<Rightarrow> nat option" where
  "find_did did [] i = None"
| "find_did did (r # rs) i = (if rec_did r = did then Some i else find_did did rs (i + 1))"

text \<open>The result, the bytes written, the length and the state.\<close>

definition uds_did_app_read :: "u16 \<Rightarrow> u16 \<Rightarrow> u16 \<Rightarrow> did_state \<Rightarrow> did_state app_result" where
  "uds_did_app_read did cap rlen st = do {
     st \<leftarrow> (if did = 0xF186 then set_session_byte (s_active_session st) st else Some st);
     (case find_did did (s_did_table st) 0 of
        None \<Rightarrow> Some (UDS_RESULT_OUT_OF_RANGE, [], rlen, st)
      | Some i \<Rightarrow>
          let r = s_did_table st ! i in
          if cap < did_length r then Some (UDS_RESULT_RESPONSE_TOO_LONG, [], rlen, st)
          else if length (did_data r) < unat (did_length r) then None
          else Some (UDS_RESULT_OK, take (unat (did_length r)) (did_data r), did_length r, st)) }"

definition uds_did_app_write :: "u16 \<Rightarrow> bytes \<Rightarrow> did_state \<Rightarrow> (UdsCallbackResult \<times> did_state) option" where
  "uds_did_app_write did data st =
     (if length data = 0 \<or> length data > UDS_DID_MAX_DATA_SIZE then Some (UDS_RESULT_OUT_OF_RANGE, st)
      else case find_did did (s_did_table st) 0 of
        None \<Rightarrow> Some (UDS_RESULT_OUT_OF_RANGE, st)
      | Some i \<Rightarrow>
          let r = s_did_table st ! i in
          if \<not> is_writable r then Some (UDS_RESULT_DENIED, st)
          else do {
            stored \<leftarrow> copy_loop (did_data r) 0 data 0 (length data);
            Some (UDS_RESULT_OK, st\<lparr> s_did_table :=
              (s_did_table st)[i := r\<lparr> did_data := stored, did_length := of_nat (length data) \<rparr>] \<rparr>) })"

section \<open>Memory regions\<close>

definition UDS_MEMORY_APP_CALIBRATION_ADDR :: u32 where "UDS_MEMORY_APP_CALIBRATION_ADDR = 0x20004000"
definition UDS_MEMORY_APP_CALIBRATION_SIZE :: u32 where "UDS_MEMORY_APP_CALIBRATION_SIZE = 0x1000"
definition UDS_MEMORY_APP_NVM_CONFIG_ADDR :: u32 where "UDS_MEMORY_APP_NVM_CONFIG_ADDR = 0x20005000"
definition UDS_MEMORY_APP_NVM_CONFIG_SIZE :: u32 where "UDS_MEMORY_APP_NVM_CONFIG_SIZE = 0x400"
definition UDS_MEMORY_APP_FLASH_APP_ADDR :: u32 where "UDS_MEMORY_APP_FLASH_APP_ADDR = 0x08040000"

record memory_app =
  s_calibration_ram :: bytes
  s_nvm_config :: bytes
  s_flash_sim :: bytes

text \<open>
  The three pairs of drivers differ in the array and its address. A driver checks the end of the
  range in 32 bits; a range that passes although it is not inside the array does not occur behind
  \<open>find_region\<close>, and the model then reads and writes what there is.
\<close>

definition array_read :: "u32 \<Rightarrow> (memory_app \<Rightarrow> bytes) \<Rightarrow> memory_app UdsMemoryReadDriverFn" where
  "array_read base arr m address len =
     (let offset = address - base in
      if unat (offset + len) > length (arr m) then (UDS_RESULT_OUT_OF_RANGE, [], m)
      else (UDS_RESULT_OK, take (unat len) (drop (unat offset) (arr m)), m))"

definition array_put :: "u32 \<Rightarrow> bytes \<Rightarrow> u32 \<Rightarrow> bytes \<Rightarrow> bytes option" where
  "array_put base arr address data =
     (let offset = address - base in
      if unat (offset + of_nat (length data)) > length arr then None
      else Some (take (unat offset) arr @ data @ drop (unat offset + length data) arr))"

definition calibration_read :: "memory_app UdsMemoryReadDriverFn" where
  "calibration_read = array_read UDS_MEMORY_APP_CALIBRATION_ADDR s_calibration_ram"

definition calibration_write :: "memory_app UdsMemoryWriteDriverFn" where
  "calibration_write m address data =
     (case array_put UDS_MEMORY_APP_CALIBRATION_ADDR (s_calibration_ram m) address data of
        None \<Rightarrow> (UDS_RESULT_OUT_OF_RANGE, m) | Some a \<Rightarrow> (UDS_RESULT_OK, m\<lparr> s_calibration_ram := a \<rparr>))"

definition nvm_read :: "memory_app UdsMemoryReadDriverFn" where
  "nvm_read = array_read UDS_MEMORY_APP_NVM_CONFIG_ADDR s_nvm_config"

definition nvm_write :: "memory_app UdsMemoryWriteDriverFn" where
  "nvm_write m address data =
     (case array_put UDS_MEMORY_APP_NVM_CONFIG_ADDR (s_nvm_config m) address data of
        None \<Rightarrow> (UDS_RESULT_OUT_OF_RANGE, m) | Some a \<Rightarrow> (UDS_RESULT_OK, m\<lparr> s_nvm_config := a \<rparr>))"

definition flash_read :: "memory_app UdsMemoryReadDriverFn" where
  "flash_read = array_read UDS_MEMORY_APP_FLASH_APP_ADDR s_flash_sim"

definition flash_write :: "memory_app UdsMemoryWriteDriverFn" where
  "flash_write m address data =
     (case array_put UDS_MEMORY_APP_FLASH_APP_ADDR (s_flash_sim m) address data of
        None \<Rightarrow> (UDS_RESULT_OUT_OF_RANGE, m) | Some a \<Rightarrow> (UDS_RESULT_OK, m\<lparr> s_flash_sim := a \<rparr>))"

definition s_app_memory_regions :: "memory_app UdsMemoryRegion list" where
  "s_app_memory_regions =
     [\<lparr> start_address = UDS_MEMORY_APP_CALIBRATION_ADDR, region_size = UDS_MEMORY_APP_CALIBRATION_SIZE,
        region_flags = UDS_MEMORY_FLAG_READ OR UDS_MEMORY_FLAG_WRITE,
        region_read = Some calibration_read, region_write = Some calibration_write \<rparr>,
      \<lparr> start_address = UDS_MEMORY_APP_NVM_CONFIG_ADDR, region_size = UDS_MEMORY_APP_NVM_CONFIG_SIZE,
        region_flags = UDS_MEMORY_FLAG_READ OR UDS_MEMORY_FLAG_WRITE OR UDS_MEMORY_FLAG_SECURE_READ OR
          UDS_MEMORY_FLAG_SECURE_WRITE,
        region_read = Some nvm_read, region_write = Some nvm_write \<rparr>,
      \<lparr> start_address = UDS_MEMORY_APP_FLASH_APP_ADDR, region_size = 2048,
        region_flags = UDS_MEMORY_FLAG_READ OR UDS_MEMORY_FLAG_WRITE OR UDS_MEMORY_FLAG_PROG_ONLY OR
          UDS_MEMORY_FLAG_SECURE_WRITE,
        region_read = Some flash_read, region_write = Some flash_write \<rparr>]"

definition uds_memory_app_init :: "memory_app \<times> (memory_app, 's, 'p) UdsMemoryManager" where
  "uds_memory_app_init =
     (\<lparr> s_calibration_ram = replicate 0x1000 0x55, s_nvm_config = replicate 0x400 0xAA, s_flash_sim = replicate 2048 0xFF \<rparr>,
      uds_memory_init \<lparr> regions = Some s_app_memory_regions, max_read_size = 4096, max_write_size = 4096,
        condition_check = None, mem_server = None \<rparr>)"

definition uds_memory_app_set_server ::
  "(memory_app, 's, 'p) UdsMemoryManager \<Rightarrow> ('s, 'p) UdsServer option \<Rightarrow> (memory_app, 's, 'p) UdsMemoryManager" where
  "uds_memory_app_set_server mgr server = uds_memory_set_server mgr server"

end
