(* ===== verification/App_Properties.thy ===== *)
theory App_Properties
  imports App_Access
begin

text \<open>
  Properties of the small services of the application: the four services with a handler as one machine, and
  the report of an active event.
\<close>

section \<open>The service handlers\<close>

text \<open>A handler that stays inside the response and leaves a state with the property \<open>P\<close>.\<close>

definition answers :: "('s \<Rightarrow> bool) \<Rightarrow> bytes \<Rightarrow> 's app_result \<Rightarrow> bool" where
  "answers P response m \<longleftrightarrow> wp m (\<lambda>(res, response', rlen', st'). P st' \<and> length response' = length response \<and>
     (res = UDS_RESULT_OK \<longrightarrow> unat rlen' \<le> length response))"

lemma answers_Some: "P st \<Longrightarrow> res \<noteq> UDS_RESULT_OK \<Longrightarrow> answers P response (Some (res, response, rlen, st))"
  by (simp add: answers_def wp_simps)

lemma answers_respond: "P st \<Longrightarrow> length bs < 65536 \<Longrightarrow> answers P response (respond bs response rlen st)"
  by (auto simp: answers_def respond_def wp_simps unat_of_nat_16)

lemma answers_if: "(b \<Longrightarrow> answers P r m) \<Longrightarrow> (\<not> b \<Longrightarrow> answers P r n) \<Longrightarrow> answers P r (if b then m else n)"
  by simp

lemma answers_peek: "i < length xs \<Longrightarrow> answers P r (f (xs ! i)) \<Longrightarrow> answers P r (do { x \<leftarrow> peek xs i; f x })"
  by (simp add: mem_simps)

definition io_ok :: "io_state \<Rightarrow> bool" where
  "io_ok st \<longleftrightarrow> s_air_inlet_pos st \<le> 100 \<and> s_egr_duty st \<le> 100"

lemma io_init_ok: "io_ok uds_io_control_app_init"
  by (simp add: io_ok_def uds_io_control_app_init_def UDS_IO_AIR_INLET_DEFAULT_POS_def UDS_IO_EGR_DEFAULT_DUTY_def)

lemma air_inlet_answers:
  "io_ok st \<Longrightarrow> 1 \<le> length parameter \<Longrightarrow> answers io_ok response (handle_air_inlet_door st parameter response rlen)"
  unfolding handle_air_inlet_door_def Let_def
  by (intro answers_peek answers_if answers_Some answers_respond)
    (auto simp: io_ok_def UDS_IO_AIR_INLET_DEFAULT_POS_def not_less)

lemma egr_iac_defaults_ok:
  "io_ok st \<Longrightarrow> wp (egr_iac_defaults control st parameter) (\<lambda>(res, st'). io_ok st')"
  by (simp add: egr_iac_defaults_def wp_simps io_ok_def UDS_IO_EGR_DEFAULT_DUTY_def)

lemma egr_iac_short_term_ok:
  "io_ok st \<Longrightarrow> wp (handle_egr_iac_short_term st parameter) (\<lambda>(res, st'). io_ok st')"
  by (auto simp: handle_egr_iac_short_term_def wp_simps io_ok_def Let_def not_less)

lemma egr_iac_answers:
  assumes "io_ok st" "1 \<le> length parameter"
  shows "answers io_ok response (handle_egr_iac st parameter response rlen)"
proof -
  let ?c = "parameter ! 0"
  let ?m = "if ?c = 0x00 then handle_egr_iac_return_control st parameter
        else if ?c = 0x01 then handle_egr_iac_reset_default st parameter
        else if ?c = 0x02 then
          if length parameter \<noteq> 1 \<and> length parameter \<noteq> 3 then Some (UDS_RESULT_INVALID_FORMAT, st)
          else Some (UDS_RESULT_OK, st\<lparr> s_egr_iac_frozen := True \<rparr>)
        else if ?c = 0x03 then handle_egr_iac_short_term st parameter
        else Some (UDS_RESULT_SUBFUNCTION_NOT_SUPPORTED, st)"
  have "wp ?m (\<lambda>(res, st'). io_ok st')"
    using assms(1) egr_iac_defaults_ok egr_iac_short_term_ok
    by (simp add: handle_egr_iac_return_control_def handle_egr_iac_reset_default_def wp_simps) (simp add: io_ok_def)
  then obtain res st' where m: "?m = Some (res, st')" "io_ok st'" by (auto dest!: wpD)
  have "handle_egr_iac st parameter response rlen = (if res \<noteq> UDS_RESULT_OK then Some (res, response, rlen, st')
      else respond [?c, s_egr_duty st', s_iac_steps st'] response rlen st')"
    using assms(2) m(1) unfolding handle_egr_iac_def by (simp only: mem_simps Option.bind.simps prod.case)
  then show ?thesis using m(2) by (simp add: answers_Some answers_respond)
qed

lemma io_answers: "io_ok st \<Longrightarrow> answers io_ok response (uds_io_control_app_handler st did parameter response rlen)"
  unfolding uds_io_control_app_handler_def
  by (intro answers_if answers_Some air_inlet_answers egr_iac_answers)
    (auto simp: Suc_le_eq)

definition roe_ok :: "UdsRoeEventState \<Rightarrow> bool" where
  "roe_ok st \<longleftrightarrow> length (roe_service_record st) = 16 \<and> unat (roe_service_record_len st) \<le> 16 \<and>
     (roe_active st \<longrightarrow> roe_configured st \<and> roe_event_type st \<in> {1, 3})
     \<and> (roe_configured st \<longrightarrow> roe_event_type st \<in> {1, 3})"

lemma roe_init_ok: "roe_ok uds_roe_app_init"
  by (simp add: roe_ok_def uds_roe_app_init_def UDS_ROE_MAX_SERVICE_RECORD_def)

lemma extra_len_le: "unat (roe_extra_len request n) \<le> 16" "unat (roe_extra_len request n) \<le> length request - n"
proof -
  have "unat (of_nat (length request - n) :: u8) \<le> length request - n"
    by (simp add: unat_of_nat)
  then show "unat (roe_extra_len request n) \<le> 16" "unat (roe_extra_len request n) \<le> length request - n"
    by (auto simp: roe_extra_len_def Let_def UDS_ROE_MAX_SERVICE_RECORD_def)
qed

lemma header_len: "unat (x :: u8) \<le> 16 \<Longrightarrow> unat k \<le> 100 \<Longrightarrow> unat (k + ucast x :: u16) = unat k + unat x"
  by (subst unat_add_16) simp_all

lemma wp_copy_loop: "wp (copy_loop dst d src s n) Q \<longleftrightarrow>
    (n = 0 \<or> d + n \<le> length dst \<and> s + n \<le> length src) \<and> Q (take d dst @ take n (drop s src) @ drop (d + n) dst)"
  by (auto simp: wp_def copy_loop_eq)

lemma on_dtc_answers:
  assumes "roe_ok st"
  shows "answers roe_ok response (handle_on_dtc_change st request response rlen)"
  using assms extra_len_le[of request 4]
  by (auto simp: answers_def handle_on_dtc_change_def wp_simps Let_def wp_copy_loop roe_ok_def header_len not_less)

lemma on_did_answers:
  assumes "roe_ok st"
  shows "answers roe_ok response (handle_on_did_change st request response rlen)"
  using assms extra_len_le[of request 5]
  by (auto simp: answers_def handle_on_did_change_def wp_simps Let_def wp_copy_loop roe_ok_def header_len not_less)

lemma poke_eq: "poke xs i v = (if i < length xs then Some (take i xs @ [v] @ drop (Suc i) xs) else None)"
  by (simp add: poke_def upd_conv_take_nth_drop)

text \<open>
  The report of an active event checks for one byte less than it writes: the status mask, or the second byte of
  the identifier, is missing in the length. The largest report has 23 bytes.
\<close>

definition report_len :: "UdsRoeEventState \<Rightarrow> nat" where
  "report_len st = 6 + unat (roe_service_record_len st) + (if roe_event_type st = 3 then 1 else 0)"

lemma report_active:
  assumes "roe_ok st" "roe_active st" "length request = 2"
  shows "handle_report_activated st request response rlen = (
     if length response < report_len st - 1 then Some (UDS_RESULT_RESPONSE_TOO_LONG, response, rlen, st)
     else if length response < report_len st then None
     else Some (UDS_RESULT_OK, [0xC6, 0x04, 0x01, roe_event_type st, roe_event_window_time st] @
       (if roe_event_type st = 3 then [ucast (drop_bit 8 (roe_monitored_did st)), ucast (roe_monitored_did st AND 0xFF)]
        else [roe_dtc_status_mask st]) @
       take (unat (roe_service_record_len st)) (roe_service_record st) @ drop (report_len st) response,
       of_nat (report_len st), st))"
proof -
  have e: "roe_event_type st = 1 \<or> roe_event_type st = 3" using assms(1,2) by (auto simp: roe_ok_def)
  have len: "length (roe_service_record st) = 16" "unat (roe_service_record_len st) \<le> 16"
    using assms(1) by (simp_all add: roe_ok_def)
  show ?thesis using e
  proof
    assume "roe_event_type st = 1"
    then show ?thesis using assms(2,3) len
      by (auto simp: handle_report_activated_def report_len_def Let_def poke_list_eq poke_eq copy_loop_eq nth_append split: if_splits;
        simp add: numeral_eq_Suc)
  next
    assume "roe_event_type st = 3"
    then show ?thesis using assms(2,3) len
      by (auto simp: handle_report_activated_def report_len_def Let_def poke_list_eq copy_loop_eq nth_append split: if_splits;
        simp add: numeral_eq_Suc)
  qed
qed

lemma report_answers:
  assumes "roe_ok st" "23 \<le> length response"
  shows "answers roe_ok response (handle_report_activated st request response rlen)"
proof (cases "roe_active st \<and> length request = 2")
  case False
  then show ?thesis unfolding handle_report_activated_def using assms(1)
    by (cases "length request = 2") (simp_all add: answers_Some answers_respond)
next
  case True
  then have "report_len st \<le> 23" using assms(1) by (simp add: roe_ok_def report_len_def)
  then show ?thesis using assms report_active[OF assms(1), of request response rlen] True
    by (auto simp: answers_def wp_simps roe_ok_def report_len_def unat_of_nat_16 header_len)
qed

lemma roe_answers:
  assumes "roe_ok st" "23 \<le> length response"
  shows "answers roe_ok response (uds_roe_app_handler st request response rlen)"
  unfolding uds_roe_app_handler_def Let_def
proof (intro answers_if answers_peek answers_Some on_dtc_answers on_did_answers report_answers assms)
  show "answers roe_ok response (handle_stop st request response rlen)"
    unfolding handle_stop_def Let_def
    by (intro answers_if answers_Some answers_respond) (use assms in \<open>auto simp: roe_ok_def\<close>)
  show "answers roe_ok response (handle_start st request response rlen)"
    unfolding handle_start_def Let_def
    by (intro answers_if answers_Some answers_respond) (use assms in \<open>auto simp: roe_ok_def\<close>)
  show "answers roe_ok response (handle_clear st request response rlen)"
    unfolding handle_clear_def Let_def
    by (intro answers_if answers_Some answers_respond) (use assms in \<open>auto simp: roe_ok_def\<close>)
qed simp_all

definition link_rates :: "u32 set" where
  "link_rates = {9600, 19200, 38400, 57600, 115200, 125000, 250000, 500000, 1000000}"

definition link_ok :: "link_state \<Rightarrow> bool" where
  "link_ok st \<longleftrightarrow> s_pending_baudrate st \<in> link_rates \<and> s_active_baudrate st \<in> link_rates"

lemma link_init_ok: "link_ok uds_link_control_app_init"
  by (simp add: link_ok_def uds_link_control_app_init_def link_rates_def UDS_LINK_DEFAULT_BAUDRATE_def)

lemma fixed_rates: "fixed_mode_to_baudrate mode = Some b \<Longrightarrow> b \<in> link_rates"
  by (auto simp: fixed_mode_to_baudrate_def link_rates_def split: if_splits)

lemma specific_rates: "is_supported_specific_baudrate b \<Longrightarrow> b \<in> link_rates"
  by (auto simp: is_supported_specific_baudrate_def link_rates_def)

lemma link_answers:
  assumes "link_ok st"
  shows "answers link_ok response (uds_link_control_app_handler st request response rlen)"
proof -
  have fixed: "answers link_ok response (case fixed_mode_to_baudrate mode of
      None \<Rightarrow> Some (UDS_RESULT_OUT_OF_RANGE, response, rlen, st)
    | Some b \<Rightarrow> respond [0xC7, sub] response rlen (st\<lparr> s_pending_baudrate := b, s_verified := True \<rparr>))" for mode sub
    using assms by (auto simp: link_ok_def dest: fixed_rates intro!: answers_Some answers_respond split: option.split)
  show ?thesis
    unfolding uds_link_control_app_handler_def Let_def
    by (intro answers_if answers_peek answers_Some fixed answers_respond)
      (use assms specific_rates in \<open>auto simp: link_ok_def\<close>)
qed

definition auth_ok :: "auth_state \<Rightarrow> bool" where
  "auth_ok st \<longleftrightarrow> length (s_active_challenge st) = 16"

lemma auth_init_ok: "auth_ok uds_auth_app_init"
  by (simp add: auth_ok_def uds_auth_app_init_def UDS_AUTH_CHALLENGE_SIZE_def)

lemma length_next_challenge [simp]: "length (next_challenge c) = 16"
  by (simp add: next_challenge_def UDS_AUTH_CHALLENGE_SIZE_def)

lemma verify_answers:
  assumes "auth_ok st"
  shows "answers auth_ok response (handle_auth_verify_proof st sub request response rlen)"
proof -
  have "\<exists>mac. uds_security_cmac_derive_key s_auth_master_key (s_active_challenge st) = Some mac"
    by (simp add: uds_security_cmac_derive_key_def uds_security_cmac_derive_key_for_seed_def
      UDS_SECURITY_CMAC_MAX_SEED_LENGTH_def)
  then show ?thesis using assms
    by (auto simp: handle_auth_verify_proof_def auth_ok_def intro!: answers_Some answers_respond)
qed

lemma auth_answers:
  assumes "auth_ok st"
  shows "answers auth_ok response (uds_auth_app_service_handler st request response rlen)"
  unfolding uds_auth_app_service_handler_def Let_def handle_auth_deauth_def handle_auth_challenge_def handle_auth_config_def
  by (intro answers_if answers_peek answers_Some answers_respond verify_answers)
    (use assms in \<open>auto simp: auth_ok_def uds_auth_app_deauthenticate_def\<close>)

section \<open>One machine\<close>

record app_services =
  io :: io_state
  roe :: UdsRoeEventState
  link :: link_state
  auth :: auth_state

datatype app_request =
    IoControl u16 bytes bytes
  | ResponseOnEvent bytes bytes
  | LinkControl bytes bytes
  | Authentication bytes bytes

text \<open>A request and the response buffer it is answered in.\<close>

primrec app_step :: "app_services \<Rightarrow> app_request \<Rightarrow> app_services option" where
  "app_step s (IoControl did parameter response) =
     map_option (\<lambda>(res, response, rlen, st). s\<lparr> io := st \<rparr>) (uds_io_control_app_handler (io s) did parameter response 0)"
| "app_step s (ResponseOnEvent request response) =
     map_option (\<lambda>(res, response, rlen, st). s\<lparr> roe := st \<rparr>) (uds_roe_app_handler (roe s) request response 0)"
| "app_step s (LinkControl request response) =
     map_option (\<lambda>(res, response, rlen, st). s\<lparr> link := st \<rparr>) (uds_link_control_app_handler (link s) request response 0)"
| "app_step s (Authentication request response) =
     map_option (\<lambda>(res, response, rlen, st). s\<lparr> auth := st \<rparr>) (uds_auth_app_service_handler (auth s) request response 0)"

text \<open>The response buffer of ResponseOnEvent has room for the largest report.\<close>

fun app_request_ok :: "app_request \<Rightarrow> bool" where
  "app_request_ok (ResponseOnEvent request response) = (23 \<le> length response)"
| "app_request_ok _ = True"

definition app_ok :: "app_services \<Rightarrow> bool" where
  "app_ok s \<longleftrightarrow> io_ok (io s) \<and> roe_ok (roe s) \<and> link_ok (link s) \<and> auth_ok (auth s)"

lemma answersD: "answers P response m \<Longrightarrow> \<exists>res response' rlen' st. m = Some (res, response', rlen', st) \<and> P st"
  unfolding answers_def by (auto dest!: wpD)

lemma app_step_safe:
  assumes "app_ok s" "app_request_ok e"
  shows "\<exists>s'. app_step s e = Some s' \<and> app_ok s'"
proof (cases e)
  case (IoControl did parameter response)
  from answersD[OF io_answers[of "io s" response did parameter 0]] show ?thesis
    using assms IoControl by (auto simp: app_ok_def)
next
  case (ResponseOnEvent request response)
  then have "23 \<le> length response" "roe_ok (roe s)" using assms by (simp_all add: app_ok_def)
  from answersD[OF roe_answers[OF this(2,1), of request 0]] show ?thesis
    using assms(1) ResponseOnEvent by (auto simp: app_ok_def)
next
  case (LinkControl request response)
  from answersD[OF link_answers[of "link s" response request 0]] show ?thesis
    using assms LinkControl by (auto simp: app_ok_def)
next
  case (Authentication request response)
  from answersD[OF auth_answers[of "auth s" response request 0]] show ?thesis
    using assms Authentication by (auto simp: app_ok_def)
qed

interpretation app: machine app_step app_request_ok app_ok
  by unfold_locales (erule (1) app_step_safe)

definition app_start :: app_services where
  "app_start = \<lparr> io = uds_io_control_app_init, roe = uds_roe_app_init, link = uds_link_control_app_init, auth = uds_auth_app_init \<rparr>"

text \<open>
  The handlers of InputOutputControl, ResponseOnEvent, LinkControl and Authentication are memory safe and
  keep the plant within its limits: from the initial state any sequence of requests returns - given 23 bytes of
  response for ResponseOnEvent, see \<open>report_activated_exact\<close> -, the door position and the duty cycle
  stay below 100 percent, the active bit rate is one of the nine supported ones, and no event is
  active that is not configured.
\<close>

theorem app_services_safe:
  assumes "list_all app_request_ok requests"
  shows "\<exists>s. run app_step app_start requests = Some s \<and> s_air_inlet_pos (io s) \<le> 100 \<and> s_egr_duty (io s) \<le> 100 \<and>
    s_active_baudrate (link s) \<in> link_rates \<and> (roe_active (roe s) \<longrightarrow> roe_configured (roe s))"
proof -
  have "app_ok app_start"
    by (simp add: app_ok_def app_start_def io_init_ok roe_init_ok link_init_ok auth_init_ok)
  from app.run_safe[OF this assms] show ?thesis
    by (auto simp: app_ok_def io_ok_def link_ok_def roe_ok_def)
qed

theorem app_services_safe_witness:
  "\<exists>s. run app_step app_start [IoControl 0x9B00 [0x03, 80] [0, 0], LinkControl [0x87, 0x01, 0x13] [0, 0],
     LinkControl [0x87, 0x03] [0, 0], ResponseOnEvent [0x86, 0x05] (replicate 23 0), Authentication [0x29, 0x05] (replicate 18 0)] =
       Some s \<and> s_air_inlet_pos (io s) \<le> 100 \<and> s_egr_duty (io s) \<le> 100 \<and>
     s_active_baudrate (link s) \<in> link_rates \<and> (roe_active (roe s) \<longrightarrow> roe_configured (roe s))"
  by (rule app_services_safe) simp

text \<open>
  ReportActivatedEvents of an active event, exactly: it sends the configured event back, but it
  requires one byte less of the response than it writes. In a response with exactly that room the last byte
  is written behind the buffer.
\<close>

theorem report_activated_exact:
  assumes "roe_ok st" "roe_active st" "length request = 2"
  shows "handle_report_activated st request response rlen = (
     if length response < report_len st - 1 then Some (UDS_RESULT_RESPONSE_TOO_LONG, response, rlen, st)
     else if length response < report_len st then None
     else Some (UDS_RESULT_OK, [0xC6, 0x04, 0x01, roe_event_type st, roe_event_window_time st] @
       (if roe_event_type st = 3 then [ucast (drop_bit 8 (roe_monitored_did st)), ucast (roe_monitored_did st AND 0xFF)]
        else [roe_dtc_status_mask st]) @
       take (unat (roe_service_record_len st)) (roe_service_record st) @ drop (report_len st) response,
       of_nat (report_len st), st))"
  by (rule report_active[OF assms])

text \<open>An event on a status change, configured and started over the service, and asked for with five bytes of room.\<close>

theorem report_activated_exact_witness:
  "\<exists>st1 st2 r1 r2 l1 l2. uds_roe_app_handler uds_roe_app_init [0x86, 0x01, 0x02, 0xFF] [0, 0, 0, 0, 0] 0 = Some (UDS_RESULT_OK, r1, l1, st1) \<and>
     uds_roe_app_handler st1 [0x86, 0x05] [0, 0, 0, 0] 0 = Some (UDS_RESULT_OK, r2, l2, st2) \<and>
     handle_report_activated st2 [0x86, 0x04] [0, 0, 0, 0, 0] 0 = None"
proof -
  let ?st = "\<lparr> roe_configured = True, roe_active = True, roe_event_type = 1, roe_event_window_time = 2, roe_dtc_status_mask = 0xFF,
     roe_monitored_did = 0, roe_service_record_len = 0, roe_service_record = replicate 16 0 \<rparr>"
  have "handle_report_activated ?st [0x86, 0x04] [0, 0, 0, 0, 0] 0 = None"
    using report_activated_exact[of ?st "[0x86, 0x04]" "[0, 0, 0, 0, 0]" 0] by (simp add: roe_ok_def report_len_def)
  moreover have "uds_roe_app_handler uds_roe_app_init [0x86, 0x01, 0x02, 0xFF] [0, 0, 0, 0, 0] 0 =
      Some (UDS_RESULT_OK, [0xC6, 1, 0, 2, 0xFF], 5, ?st\<lparr> roe_active := False \<rparr>)"
    by (simp add: uds_roe_app_handler_def handle_on_dtc_change_def uds_roe_app_init_def roe_extra_len_def Let_def mem_simps
      copy_loop_eq UDS_ROE_MAX_SERVICE_RECORD_def)
  moreover have "uds_roe_app_handler (?st\<lparr> roe_active := False \<rparr>) [0x86, 0x05] [0, 0, 0, 0] 0 =
      Some (UDS_RESULT_OK, [0xC6, 5, 1, 2], 4, ?st)"
    by (simp add: uds_roe_app_handler_def handle_start_def respond_def Let_def mem_simps)
  ultimately show ?thesis by blast
qed

end
