(* ===== verification/App_Keys.thy ===== *)
theory App_Keys
  imports App_Properties
begin

text \<open>
  What the guards of the application decide: which proofs Authentication accepts, which keys SecurityAccess
  accepts and how often, and which identifiers a write changes.
\<close>

section \<open>Authentication\<close>

lemma cmac_of_challenge:
  "length c = 16 \<Longrightarrow> uds_security_cmac_derive_key key c = Some (aes_cmac_128 key c)"
  by (simp add: uds_security_cmac_derive_key_def uds_security_cmac_derive_key_for_seed_def UDS_SECURITY_CMAC_MAX_SEED_LENGTH_def)

lemma length_cmac [simp]: "length (aes_cmac_128 key m) = 16"
  by (simp add: aes_cmac_128_def Let_def)

lemma constant_time_equal_take: "uds_security_cmac_constant_time_equal (take 16 xs) ys = uds_security_cmac_constant_time_equal xs ys"
proof -
  have "foldl (\<lambda>d i. d OR (take 16 xs ! i XOR ys ! i)) c [0..<n] = foldl (\<lambda>d i. d OR (xs ! i XOR ys ! i)) c [0..<n]"
    if "n \<le> 16" for c :: u8 and n
    using that by (induction n) simp_all
  from this[of 16 0] show ?thesis by (simp only: uds_security_cmac_constant_time_equal_def order_refl)
qed

lemma verify_proof_eq:
  assumes "auth_ok st"
  shows "handle_auth_verify_proof st sub request response rlen = (
     if length request < 18 \<or> \<not> s_challenge_valid st then Some (UDS_RESULT_SEQUENCE_ERROR, response, rlen, st)
     else if take 16 (drop 2 request) = aes_cmac_128 s_auth_master_key (s_active_challenge st)
     then respond [0x69, sub, 0x00] response rlen (st\<lparr> s_is_authenticated := True, s_challenge_valid := False \<rparr>)
     else Some (UDS_RESULT_INVALID_KEY, response, rlen, st\<lparr> s_is_authenticated := False \<rparr>))"
proof (cases "length request < 18 \<or> \<not> s_challenge_valid st")
  case False
  then have "length (take 16 (drop 2 request)) = 16" by (simp only: length_take length_drop) linarith
  from constant_time_equal_iff[OF this length_cmac]
  have "uds_security_cmac_constant_time_equal (drop 2 request) (aes_cmac_128 s_auth_master_key (s_active_challenge st)) \<longleftrightarrow>
      take 16 (drop 2 request) = aes_cmac_128 s_auth_master_key (s_active_challenge st)"
    by (simp only: constant_time_equal_take)
  with False assms show ?thesis
    by (simp add: handle_auth_verify_proof_def cmac_of_challenge auth_ok_def UDS_AUTH_CHALLENGE_SIZE_def)
qed (simp add: handle_auth_verify_proof_def UDS_AUTH_CHALLENGE_SIZE_def)

text \<open>The challenges of a power cycle, one after the other: \<open>challenge n\<close> is the n-th one.\<close>

definition challenge :: "nat \<Rightarrow> bytes" where
  "challenge n = map (\<lambda>i. 0x5A + of_nat n * (of_nat i * 7 + 0x13)) [0..<16]"

lemma challenge_0: "challenge 0 = replicate 16 0x5A"
  by (simp add: challenge_def map_replicate_const)

lemma challenge_Suc: "next_challenge (challenge n) = challenge (Suc n)"
  unfolding next_challenge_def challenge_def UDS_AUTH_CHALLENGE_SIZE_def
  by (rule map_cong) (simp_all add: algebra_simps del: upt_conv_Cons)

lemma challenge_period: "challenge (n + 256) = challenge n"
proof -
  have "(of_nat (n + 256) :: u8) = of_nat n + 256" by simp
  also have "(256 :: u8) = 0" by simp
  finally show ?thesis by (simp only: challenge_def add_0_right)
qed

text \<open>A step of the application that does not ask for Authentication leaves its state alone.\<close>

lemma app_step_auth:
  assumes "app_step s e = Some s'"
  shows "auth s' = auth s \<or> (\<exists>request response res response' rlen.
    e = Authentication request response \<and> uds_auth_app_service_handler (auth s) request response 0 = Some (res, response', rlen, auth s'))"
  using assms by (cases e) auto

text \<open>What one request does: it says nothing new, asks for the next challenge, or offers a proof.\<close>

lemma auth_handler_cases:
  assumes "uds_auth_app_service_handler st request response rlen = Some (res, response', rlen', st')" "auth_ok st"
  shows "(s_active_challenge st' = s_active_challenge st \<and> (s_challenge_valid st' \<longrightarrow> s_challenge_valid st) \<and>
      (s_is_authenticated st' \<longrightarrow> s_is_authenticated st)) \<or>
    (s_active_challenge st' = next_challenge (s_active_challenge st) \<and> s_challenge_valid st' \<and>
      s_is_authenticated st' = s_is_authenticated st) \<or>
    (s_active_challenge st' = s_active_challenge st \<and> s_challenge_valid st \<and> \<not> s_challenge_valid st' \<and>
      take 16 (drop 2 request) = aes_cmac_128 s_auth_master_key (s_active_challenge st))"
  using assms(1) verify_proof_eq[OF assms(2)]
  by (auto simp: uds_auth_app_service_handler_def Let_def bind_eq_Some_conv handle_auth_deauth_def handle_auth_challenge_def
    handle_auth_config_def respond_def uds_auth_app_deauthenticate_def split: if_splits)

text \<open>Among the requests one offers the proof of a challenge that was sent before it.\<close>

definition proof_offered :: "app_request list \<Rightarrow> bool" where
  "proof_offered requests \<longleftrightarrow> (\<exists>i < length requests. \<exists>k request response. 1 \<le> k \<and> k \<le> i \<and>
     requests ! i = Authentication request response \<and>
     take 16 (drop 2 request) = aes_cmac_128 s_auth_master_key (challenge k))"

lemma proof_offered_append: "proof_offered es \<Longrightarrow> proof_offered (es @ [e])"
  unfolding proof_offered_def by (metis less_SucI length_append_singleton nth_append)

lemma proof_offered_now:
  "1 \<le> k \<Longrightarrow> k \<le> length es \<Longrightarrow> take 16 (drop 2 request) = aes_cmac_128 s_auth_master_key (challenge k) \<Longrightarrow>
   proof_offered (es @ [Authentication request response])"
  unfolding proof_offered_def by (intro exI[of _ "length es"]) auto

lemma authenticated_run:
  assumes "run app_step app_start requests = Some s"
  shows "\<exists>n \<le> length requests. s_active_challenge (auth s) = challenge n \<and> (s_challenge_valid (auth s) \<longrightarrow> 1 \<le> n) \<and>
    (s_is_authenticated (auth s) \<longrightarrow> proof_offered requests)"
  using assms
proof (induction requests arbitrary: s rule: rev_induct)
  case Nil
  then show ?case
    by (auto simp: app_start_def uds_auth_app_init_def challenge_0 UDS_AUTH_CHALLENGE_SIZE_def)
next
  case (snoc e es)
  then obtain t where t: "run app_step app_start es = Some t" "app_step t e = Some s"
    by (auto simp: run_append bind_eq_Some_conv)
  from snoc.IH[OF t(1)] obtain n where n: "n \<le> length es" "s_active_challenge (auth t) = challenge n"
    "s_challenge_valid (auth t) \<longrightarrow> 1 \<le> n" "s_is_authenticated (auth t) \<longrightarrow> proof_offered es"
    by blast
  from app_step_auth[OF t(2)] show ?case
  proof
    assume "auth s = auth t"
    then show ?thesis using n proof_offered_append by (intro exI[of _ n]) simp
  next
    assume "\<exists>request response res response' rlen. e = Authentication request response \<and>
      uds_auth_app_service_handler (auth t) request response 0 = Some (res, response', rlen, auth s)"
    then obtain request response res response' rlen where e: "e = Authentication request response"
      "uds_auth_app_service_handler (auth t) request response 0 = Some (res, response', rlen, auth s)"
      by blast
    have "auth_ok (auth t)" using n(2) by (simp add: auth_ok_def challenge_def)
    from auth_handler_cases[OF e(2) this] show ?thesis
    proof (elim disjE conjE)
      assume "s_active_challenge (auth s) = s_active_challenge (auth t)"
        "s_challenge_valid (auth s) \<longrightarrow> s_challenge_valid (auth t)" "s_is_authenticated (auth s) \<longrightarrow> s_is_authenticated (auth t)"
      then show ?thesis using n proof_offered_append by (intro exI[of _ n]) simp
    next
      assume "s_active_challenge (auth s) = next_challenge (s_active_challenge (auth t))"
        "s_is_authenticated (auth s) = s_is_authenticated (auth t)"
      then show ?thesis using n proof_offered_append by (intro exI[of _ "Suc n"]) (simp add: challenge_Suc)
    next
      assume a: "s_active_challenge (auth s) = s_active_challenge (auth t)" "s_challenge_valid (auth t)"
        "\<not> s_challenge_valid (auth s)"
        "take 16 (drop 2 request) = aes_cmac_128 s_auth_master_key (s_active_challenge (auth t))"
      then have "proof_offered (es @ [e])"
        using n e(1) by (auto intro!: proof_offered_now[of n])
      then show ?thesis using a n(1,2) by (intro exI[of _ n]) simp
    qed
  qed
qed


text \<open>The first challenge of a power cycle, its proof, and the state after both requests.\<close>

lemma proof_accepted:
  "run app_step app_start [Authentication [0x29, 0x05] (replicate 18 0),
     Authentication ([0x29, 0x06] @ aes_cmac_128 s_auth_master_key (challenge 1)) [0, 0, 0]] =
   Some (app_start\<lparr> auth := \<lparr> s_active_challenge = challenge 1, s_challenge_valid = False, s_is_authenticated = True \<rparr> \<rparr>)"
proof -
  have room: "replicate 18 0 = 0 # 0 # replicate 16 (0 :: u8)" by (simp add: numeral_eq_Suc)
  have "uds_auth_app_service_handler uds_auth_app_init [0x29, 0x05] (replicate 18 0) 0 =
      Some (UDS_RESULT_OK, [0x69, 0x05] @ challenge 1, 18,
        \<lparr> s_active_challenge = challenge 1, s_challenge_valid = True, s_is_authenticated = False \<rparr>)"
    using challenge_Suc[of 0] length_next_challenge[of "challenge 0"]
    by (simp add: uds_auth_app_service_handler_def handle_auth_challenge_def uds_auth_app_init_def respond_def
      UDS_AUTH_CHALLENGE_SIZE_def Let_def mem_simps challenge_0 poke_list_eq room del: upt_conv_Cons)
  moreover have "uds_auth_app_service_handler \<lparr> s_active_challenge = challenge 1, s_challenge_valid = True, s_is_authenticated = False \<rparr>
      ([0x29, 0x06] @ aes_cmac_128 s_auth_master_key (challenge 1)) [0, 0, 0] 0 =
    Some (UDS_RESULT_OK, [0x69, 0x06, 0x00], 3,
        \<lparr> s_active_challenge = challenge 1, s_challenge_valid = False, s_is_authenticated = True \<rparr>)"
    by (simp add: uds_auth_app_service_handler_def verify_proof_eq auth_ok_def challenge_def respond_def Let_def mem_simps
      del: upt_conv_Cons)
  ultimately show ?thesis by (simp add: app_start_def)
qed


section \<open>SecurityAccess\<close>

definition seeds_ok :: "'e security_state \<Rightarrow> bool" where
  "seeds_ok st \<longleftrightarrow> length (s_level1_active_seed st) = 4 \<and> length (s_level2_active_seed st) = 16"

lemma seeds_init_ok: "seeds_ok (uds_security_app_init systick st)"
  by (simp add: seeds_ok_def uds_security_app_init_def csprng_accumulate_entropy_def Let_def)

text \<open>Random bytes come out of the sources only; nothing of the state but the platform changes.\<close>

lemma csprng_frame:
  assumes "csprng_generate_bytes trng buf n st = Some (ok, buf', st')"
  shows "length buf' = length buf \<and> (\<exists>e. st' = st\<lparr> platform := e \<rparr>)"
proof -
  have trng: "length b = length buf0 \<and> (\<exists>e. s = t\<lparr> platform := e \<rparr>)"
    if "(case trng (platform t) n of (ok, bs, e) \<Rightarrow> do { o' \<leftarrow> poke_list buf0 0 bs; Some (ok, o', t\<lparr> platform := e \<rparr>) }) =
      Some (ok, b, s)" for buf0 b s and t :: "'a security_state"
    using that by (auto simp: bind_eq_Some_conv poke_list_eq split: prod.splits if_splits)
  consider "n = 0" | "n \<noteq> 0" "s_custom_entropy_source st = None"
    | source where "n \<noteq> 0" "s_custom_entropy_source st = Some source" by blast
  then show ?thesis
  proof cases
    case 1
    then show ?thesis using assms by (intro conjI exI[of _ "platform st"]) (simp_all add: csprng_generate_bytes_def)
  next
    case 2
    then show ?thesis using assms trng[where t = st and ?buf0.0 = buf] by (simp add: csprng_generate_bytes_def)
  next
    case 3
    obtain ok' bs e where src: "source (platform st) n = (ok', bs, e)" by (cases "source (platform st) n") blast
    with assms 3 obtain b where b: "poke_list buf 0 bs = Some b" "length b = length buf"
      by (auto simp: csprng_generate_bytes_def bind_eq_Some_conv poke_list_eq split: if_splits)
    then show ?thesis using assms 3 src trng[where t = "st\<lparr> platform := e \<rparr>" and ?buf0.0 = b]
      by (cases ok') (auto simp: csprng_generate_bytes_def)
  qed
qed

lemma level1_equal:
  assumes "length key = 4" "length k = 4"
  shows "constant_time_equal_4 key k \<longleftrightarrow> key = k"
proof -
  have or: "a OR b = 0 \<longleftrightarrow> a = 0 \<and> b = 0" for a b :: u8
    by (auto simp: bit_eq_iff bit_simps)
  have x: "a XOR b = 0 \<longleftrightarrow> a = b" for a b :: u8
    by (auto simp: bit_eq_iff bit_simps)
  have "constant_time_equal_4 key k \<longleftrightarrow> (\<forall>i < 4. key ! i = k ! i)"
    by (simp add: constant_time_equal_4_def or x upt_rec[of 0 4] numeral_eq_Suc All_less_Suc) blast
  then show ?thesis using assms by (simp add: list_eq_iff_nth_eq)
qed

text \<open>The key a seed asks for.\<close>

definition key_of :: "'e security_state \<Rightarrow> u8 \<Rightarrow> bytes \<Rightarrow> bytes" where
  "key_of st level seed = (if level = 1 then map2 (XOR) seed [0xA5, 0x5A, 0xC3, 0x3C]
     else aes_cmac_128 (s_provisioned_master_key st) seed)"

lemma no_second_key:
  "level = 1 \<and> \<not> s_level1_seed_valid st \<or> level = 2 \<and> \<not> s_level2_seed_valid st \<Longrightarrow>
   uds_security_app_key junk level key st = Some (UDS_RESULT_INVALID_KEY, st)"
  by (auto simp: uds_security_app_key_def)

lemma or_zero_iff: "foldl (OR) c xs = 0 \<longleftrightarrow> c = 0 \<and> (\<forall>x \<in> set xs. x = 0)" for c :: u8
  by (induction xs arbitrary: c) (auto simp: bit_eq_iff bit_simps)

lemma poke_nonzero: "poke xs i b = Some ys \<Longrightarrow> b \<noteq> 0 \<Longrightarrow> length ys = length xs \<and> (\<exists>x \<in> set ys. x \<noteq> (0 :: u8))"
  using set_update_memI[of i xs b] by (cases "i < length xs") (force simp: poke_def)+

lemma seed_level1:
  assumes "uds_security_app_seed trng 1 cap rlen st = Some (UDS_RESULT_OK, seed, n, st1)" "seeds_ok st"
  shows "length seed = 4 \<and> (\<exists>b \<in> set seed. b \<noteq> 0) \<and> s_level1_seed_valid st1 \<and> s_level1_active_seed st1 = seed"
proof -
  obtain ok raw st' where g: "csprng_generate_bytes trng (s_level1_active_seed st) UDS_SECURITY_APP_LEVEL1_SEED_LEN st = Some (ok, raw, st')"
    using assms(1) by (cases "csprng_generate_bytes trng (s_level1_active_seed st) UDS_SECURITY_APP_LEVEL1_SEED_LEN st")
      (auto simp: uds_security_app_seed_def split: if_splits)
  from csprng_frame[OF g] assms(2) obtain e where e: "length raw = 4" "st' = st\<lparr> platform := e \<rparr>"
    by (auto simp: seeds_ok_def)
  have raw: "(if foldl (OR) 0 raw = 0 then poke_list raw 0 [0xA5, 0x5A] else Some raw) = Some seed"
      "st1 = st\<lparr> platform := e, s_level1_active_seed := seed, s_level1_seed_valid := True \<rparr>"
    using assms(1) g e(2)
    by (simp_all add: uds_security_app_seed_def Let_def bind_eq_Some_conv split: if_split_asm)
  show ?thesis
  proof (cases "\<forall>b \<in> set raw. b = 0")
    case True
    then obtain mid where "poke raw 0 0xA5 = Some mid" "poke mid 1 0x5A = Some seed"
      using raw(1) by (auto simp: or_zero_iff bind_eq_Some_conv)
    then show ?thesis using raw e(1) poke_nonzero[of mid 1 "0x5A" seed] poke_nonzero[of raw 0 "0xA5" mid] by simp
  next
    case False
    then have "foldl (OR) 0 raw \<noteq> 0" by (simp add: or_zero_iff)
    with False show ?thesis using raw e(1) by simp
  qed
qed

lemma seed_level2:
  assumes "uds_security_app_seed trng 2 cap rlen st = Some (UDS_RESULT_OK, seed, n, st1)" "seeds_ok st"
  shows "length seed = 16 \<and> (\<exists>b \<in> set seed. b \<noteq> 0) \<and> s_level2_seed_valid st1 \<and> s_level2_active_seed st1 = seed \<and>
     s_custom_key_provider st1 = s_custom_key_provider st \<and> s_provisioned_master_key st1 = s_provisioned_master_key st \<and>
     s_has_provisioned_key st1 = s_has_provisioned_key st \<and> uds_security_app_is_provisioned st"
proof -
  obtain ok raw st' where g: "csprng_generate_bytes trng (s_level2_active_seed st) UDS_SECURITY_APP_LEVEL2_SEED_LEN st = Some (ok, raw, st')"
    using assms(1) by (cases "csprng_generate_bytes trng (s_level2_active_seed st) UDS_SECURITY_APP_LEVEL2_SEED_LEN st")
      (auto simp: uds_security_app_seed_def split: if_splits)
  from csprng_frame[OF g] assms(2) obtain e where e: "length raw = 16" "st' = st\<lparr> platform := e \<rparr>"
    by (auto simp: seeds_ok_def)
  have raw: "(if list_all (\<lambda>b. b = 0) raw then poke raw 0 0xA5 else Some raw) = Some seed"
      "st1 = st\<lparr> platform := e, s_level2_active_seed := seed, s_level2_seed_valid := True \<rparr>"
    using assms(1) g e(2)
    by (simp_all add: uds_security_app_seed_def Let_def bind_eq_Some_conv split: if_split_asm)
  have prov: "uds_security_app_is_provisioned st"
    using assms(1) by (simp add: uds_security_app_seed_def split: if_split_asm)
  show ?thesis
  proof (cases "\<forall>b \<in> set raw. b = 0")
    case True
    then show ?thesis using raw e(1) prov poke_nonzero[of raw 0 "0xA5" seed] by (simp add: list_all_iff)
  next
    case False
    then have "\<not> list_all (\<lambda>b. b = 0) raw" by (simp add: list_all_iff)
    with False show ?thesis using raw e(1) prov by simp
  qed
qed

lemma key_level1:
  assumes "s_level1_seed_valid st" "length (s_level1_active_seed st) = 4"
  shows "uds_security_app_key junk 1 key st =
     Some (if key = map2 (XOR) (s_level1_active_seed st) [0xA5, 0x5A, 0xC3, 0x3C] then UDS_RESULT_OK else UDS_RESULT_INVALID_KEY,
       st\<lparr> s_level1_seed_valid := False \<rparr>)"
  using assms level1_equal[of key "map2 (XOR) (s_level1_active_seed st) [0xA5, 0x5A, 0xC3, 0x3C]"]
  by (auto simp: uds_security_app_key_def uds_security_app_calculate_key_level1_def Let_def)

lemma key_level2:
  assumes "s_level2_seed_valid st" "length (s_level2_active_seed st) = 16" "s_custom_key_provider st = None"
    "s_has_provisioned_key st"
  shows "uds_security_app_key junk 2 key st =
     Some (if key = aes_cmac_128 (s_provisioned_master_key st) (s_level2_active_seed st) then UDS_RESULT_OK
       else UDS_RESULT_INVALID_KEY, st\<lparr> s_level2_seed_valid := False \<rparr>)"
  using assms constant_time_equal_iff[of key "aes_cmac_128 (s_provisioned_master_key st) (s_level2_active_seed st)"]
  by (auto simp: uds_security_app_key_def uds_security_app_calculate_key_level2_def cmac_of_challenge)

text \<open> C38.
  SecurityAccess of the application, seed and key together, without a custom provider: a seed that was handed
  out has the length of its level and is not all zero; the next key of this level is accepted exactly when it
  is the one computed from this seed (level 1: the exclusive or with a constant, level 2: the CMAC under the
  provisioned key); and whatever it was, the key after it is refused until a new seed is asked for.
\<close>

theorem security_key_single_use:
  assumes "uds_security_app_seed trng level cap rlen st = Some (UDS_RESULT_OK, seed, n, st1)" "seeds_ok st"
    "s_custom_key_provider st = None"
  shows "length seed = (if level = 1 then 4 else 16) \<and> (\<exists>b \<in> set seed. b \<noteq> 0) \<and>
    (\<exists>st2. uds_security_app_key junk level key st1 =
        Some (if key = key_of st level seed then UDS_RESULT_OK else UDS_RESULT_INVALID_KEY, st2) \<and>
      (\<forall>junk' key'. uds_security_app_key junk' level key' st2 = Some (UDS_RESULT_INVALID_KEY, st2)))"
proof -
  consider "level = 1" | "level = 2" using assms(1) by (auto simp: uds_security_app_seed_def split: if_splits)
  then show ?thesis
  proof cases
    case 1
    from seed_level1[OF assms(1)[unfolded 1] assms(2)] 1 show ?thesis
      using key_level1[of st1 junk key] by (simp add: key_of_def no_second_key)
  next
    case 2
    from seed_level2[OF assms(1)[unfolded 2] assms(2)] 2 assms(3) show ?thesis
      using key_level2[of st1 junk key] by (simp add: key_of_def no_second_key uds_security_app_is_provisioned_def)
  qed
qed

text \<open>A generator that always delivers zeros: the seed becomes \<open>A5 5A 00 00\<close>.\<close>

definition zero_trng :: "unit UdsEntropySourceFn" where
  "zero_trng e n = (True, replicate n 0, e)"

definition fresh_security :: "unit security_state" where
  "fresh_security = \<lparr> s_provisioned_master_key = replicate 16 0, s_has_provisioned_key = False, s_custom_key_provider = None,
     s_custom_entropy_source = None, s_level1_active_seed = replicate 4 0, s_level1_seed_valid = False,
     s_level2_active_seed = replicate 16 0, s_level2_seed_valid = False, s_csprng_pool = replicate 16 0,
     s_csprng_counter = 0, platform = () \<rparr>"

theorem security_key_single_use_witness:
  "\<exists>st1 st2. uds_security_app_seed zero_trng 1 4 0 fresh_security = Some (UDS_RESULT_OK, [0xA5, 0x5A, 0, 0], 4, st1) \<and>
     uds_security_app_key [] 1 [0, 0, 0xC3, 0x3C] st1 = Some (UDS_RESULT_OK, st2)"
proof -
  have seed: "uds_security_app_seed zero_trng 1 4 0 fresh_security = Some (UDS_RESULT_OK, [0xA5, 0x5A, 0, 0], 4,
      fresh_security\<lparr> s_level1_active_seed := [0xA5, 0x5A, 0, 0], s_level1_seed_valid := True \<rparr>)"
    by (simp add: uds_security_app_seed_def csprng_generate_bytes_def zero_trng_def fresh_security_def poke_list_eq
      UDS_SECURITY_APP_LEVEL1_SEED_LEN_def numeral_eq_Suc)
  have "seeds_ok fresh_security" "s_custom_key_provider fresh_security = None" by (simp_all add: seeds_ok_def fresh_security_def)
  from security_key_single_use[OF seed this, of "[]" "[0, 0, 0xC3, 0x3C]"] seed show ?thesis
    by (auto simp: key_of_def)
qed

section \<open>Data identifiers\<close>

definition did_ok :: "did_state \<Rightarrow> bool" where
  "did_ok st \<longleftrightarrow> length (s_did_table st) = 8 \<and> rec_did (s_did_table st ! 0) = 0xF186 \<and>
     distinct (map rec_did (s_did_table st)) \<and>
     (\<forall>r \<in> set (s_did_table st). length (did_data r) = UDS_DID_MAX_DATA_SIZE \<and> unat (did_length r) \<le> UDS_DID_MAX_DATA_SIZE) \<and>
     \<not> is_writable (s_did_table st ! 0)"

lemma did_init_ok: "did_ok uds_did_app_init"
  by (simp add: did_ok_def uds_did_app_init_def did_record_def ascii_def UDS_DID_MAX_DATA_SIZE_def)

lemma find_did_Some:
  "find_did did rs i = Some j \<Longrightarrow> i \<le> j \<and> j < i + length rs \<and> rec_did (rs ! (j - i)) = did"
  by (induction rs arbitrary: i) (fastforce split: if_splits simp: nth_Cons')+

lemma find_did_None: "find_did did rs i = None \<longleftrightarrow> did \<notin> rec_did ` set rs"
  by (induction rs arbitrary: i) auto

lemma find_did_update: "rec_did r = rec_did (rs ! j) \<Longrightarrow> j < length rs \<Longrightarrow> find_did did (rs[j := r]) i = find_did did rs i"
  by (induction rs arbitrary: i j) (auto split: nat.split)

text \<open>A write finds its record, changes this record only, and only its data and length.\<close>

lemma did_write_ok:
  assumes "uds_did_app_write did data st = Some (UDS_RESULT_OK, st1)" "did_ok st"
  shows "\<exists>i < length (s_did_table st). find_did did (s_did_table st) 0 = Some i \<and> rec_did (s_did_table st ! i) = did \<and>
    is_writable (s_did_table st ! i) \<and> i \<noteq> 0 \<and> 1 \<le> length data \<and> length data \<le> 64 \<and>
    st1 = st\<lparr> s_did_table := (s_did_table st)[i := (s_did_table st ! i)
      \<lparr> did_data := data @ drop (length data) (did_data (s_did_table st ! i)), did_length := of_nat (length data) \<rparr>] \<rparr>"
proof -
  obtain i where i: "find_did did (s_did_table st) 0 = Some i"
    using assms(1) by (auto simp: uds_did_app_write_def split: option.splits if_splits)
  from find_did_Some[OF i] have "i < length (s_did_table st)" "rec_did (s_did_table st ! i) = did" by simp_all
  moreover have "1 \<le> length data" "length data \<le> 64" "is_writable (s_did_table st ! i)"
      "st1 = st\<lparr> s_did_table := (s_did_table st)[i := (s_did_table st ! i)
      \<lparr> did_data := data @ drop (length data) (did_data (s_did_table st ! i)), did_length := of_nat (length data) \<rparr>] \<rparr>"
    using assms(1) i
    by (auto simp: uds_did_app_write_def UDS_DID_MAX_DATA_SIZE_def Let_def copy_loop_eq Suc_le_eq split: if_splits)
  moreover have "i \<noteq> 0" using assms(2) calculation(5) by (intro notI) (simp add: did_ok_def)
  ultimately show ?thesis using i by blast
qed

text \<open>The first record, which a read of the active session refreshes, is not the one that was written.\<close>

lemma set_session_ok:
  assumes "did_ok st"
  shows "set_session_byte b st = Some (st\<lparr> s_did_table := (s_did_table st)[0 := (s_did_table st ! 0)
     \<lparr> did_data := (did_data (s_did_table st ! 0))[0 := b] \<rparr>] \<rparr>)"
proof -
  have "s_did_table st ! 0 \<in> set (s_did_table st)" using assms by (intro nth_mem) (simp add: did_ok_def)
  then have "length (did_data (s_did_table st ! 0)) = 64" using assms by (simp add: did_ok_def UDS_DID_MAX_DATA_SIZE_def)
  then show ?thesis using assms by (simp add: set_session_byte_def mem_simps did_ok_def)
qed

lemma did_read_eq:
  assumes "did_ok st" "did \<noteq> 0xF186"
  shows "uds_did_app_read did cap rlen st = (case find_did did (s_did_table st) 0 of
      None \<Rightarrow> Some (UDS_RESULT_OUT_OF_RANGE, [], rlen, st)
    | Some i \<Rightarrow> let r = s_did_table st ! i in
        if cap < did_length r then Some (UDS_RESULT_RESPONSE_TOO_LONG, [], rlen, st)
        else Some (UDS_RESULT_OK, take (unat (did_length r)) (did_data r), did_length r, st))"
proof (cases "find_did did (s_did_table st) 0")
  case (Some i)
  from find_did_Some[OF this] have "s_did_table st ! i \<in> set (s_did_table st)" by (intro nth_mem) simp
  then have "\<not> length (did_data (s_did_table st ! i)) < unat (did_length (s_did_table st ! i))"
    using assms(1) by (fastforce simp: did_ok_def)
  with Some assms(2) show ?thesis by (simp add: uds_did_app_read_def Let_def)
qed (use assms(2) in \<open>simp add: uds_did_app_read_def\<close>)

lemma did_write_keeps:
  assumes "uds_did_app_write did data st = Some (res, st1)" "did_ok st"
  shows "did_ok st1"
proof (cases "res = UDS_RESULT_OK")
  case True
  from did_write_ok[OF assms(1)[unfolded True] assms(2)] obtain i where
    i: "i < length (s_did_table st)" "i \<noteq> 0" "length data \<le> 64"
      "st1 = st\<lparr> s_did_table := (s_did_table st)[i := (s_did_table st ! i)
      \<lparr> did_data := data @ drop (length data) (did_data (s_did_table st ! i)), did_length := of_nat (length data) \<rparr>] \<rparr>"
    by blast
  let ?r = "(s_did_table st ! i)\<lparr> did_data := data @ drop (length data) (did_data (s_did_table st ! i)), did_length := of_nat (length data) \<rparr>"
  have "s_did_table st ! i \<in> set (s_did_table st)" using i(1) by simp
  then have "length (did_data ?r) = 64 \<and> unat (did_length ?r) \<le> 64"
    using assms(2) i(3) by (simp add: did_ok_def UDS_DID_MAX_DATA_SIZE_def unat_of_nat_16)
  moreover have "map rec_did ((s_did_table st)[i := ?r]) = map rec_did (s_did_table st)"
    using i(1) by (simp add: map_update list_update_same_conv)
  ultimately show ?thesis
    using assms(2) i(2) unfolding i(4) did_ok_def UDS_DID_MAX_DATA_SIZE_def
    by (auto dest!: set_update_subset_insert[THEN subsetD])
next
  case False
  then show ?thesis using assms
    by (auto simp: uds_did_app_write_def Let_def bind_eq_Some_conv split: if_splits option.splits)
qed

text \<open>
  Writing an identifier and reading: after a successful write the identifier reads as exactly the bytes
  written, whatever it held before and however long it was, every other identifier reads as it did, and the
  identifiers the table marks as read-only never get this far. A write that fails changes nothing.
\<close>

theorem did_write_read:
  assumes "did_ok st" "uds_did_app_write did data st = Some (res, st1)"
  shows "did_ok st1 \<and> (res \<noteq> UDS_RESULT_OK \<longrightarrow> st1 = st) \<and>
    (res = UDS_RESULT_OK \<longrightarrow> is_writable (s_did_table st ! the (find_did did (s_did_table st) 0)) \<and>
      uds_did_app_read did 64 rlen st1 = Some (UDS_RESULT_OK, data, of_nat (length data), st1) \<and>
      (\<forall>other. other \<noteq> did \<and> other \<noteq> 0xF186 \<longrightarrow> uds_did_app_read other 64 rlen st1 =
        map_option (\<lambda>(r, out, n, s). (r, out, n, st1)) (uds_did_app_read other 64 rlen st)))"
proof (intro conjI impI)
  show ok1: "did_ok st1" using did_write_keeps[OF assms(2,1)] .
  show "st1 = st" if "res \<noteq> UDS_RESULT_OK"
    using that assms(2) by (auto simp: uds_did_app_write_def Let_def bind_eq_Some_conv split: if_splits option.splits)
  assume "res = UDS_RESULT_OK"
  from did_write_ok[OF assms(2)[unfolded this] assms(1)] obtain i where
    i: "i < length (s_did_table st)" "find_did did (s_did_table st) 0 = Some i" "rec_did (s_did_table st ! i) = did"
      "is_writable (s_did_table st ! i)" "i \<noteq> 0" "1 \<le> length data" "length data \<le> 64"
      "st1 = st\<lparr> s_did_table := (s_did_table st)[i := (s_did_table st ! i)
      \<lparr> did_data := data @ drop (length data) (did_data (s_did_table st ! i)), did_length := of_nat (length data) \<rparr>] \<rparr>"
    by blast
  show "is_writable (s_did_table st ! the (find_did did (s_did_table st) 0))" using i(2,4) by simp
  have find: "find_did d (s_did_table st1) 0 = find_did d (s_did_table st) 0" for d
    unfolding i(8) by (simp add: find_did_update i(1))
  have "did \<noteq> 0xF186"
    using assms(1) i(1,3,5) nth_eq_iff_index_eq[of "map rec_did (s_did_table st)" i 0] by (auto simp: did_ok_def)
  with i(1,2,7) show "uds_did_app_read did 64 rlen st1 = Some (UDS_RESULT_OK, data, of_nat (length data), st1)"
    by (simp add: did_read_eq[OF ok1] find) (simp add: i(8) Let_def unat_of_nat_16 word_less_nat_alt)
  show "\<forall>other. other \<noteq> did \<and> other \<noteq> 0xF186 \<longrightarrow> uds_did_app_read other 64 rlen st1 =
        map_option (\<lambda>(r, out, n, s). (r, out, n, st1)) (uds_did_app_read other 64 rlen st)"
  proof (intro allI impI, elim conjE)
    fix other :: u16
    assume other: "other \<noteq> did" "other \<noteq> 0xF186"
    have "s_did_table st1 ! j = s_did_table st ! j" if "find_did other (s_did_table st) 0 = Some j" for j
      using find_did_Some[OF that] i(3) other(1) unfolding i(8) by (cases "j = i") simp_all
    then show "uds_did_app_read other 64 rlen st1 =
        map_option (\<lambda>(r, out, n, s). (r, out, n, st1)) (uds_did_app_read other 64 rlen st)"
      by (cases "find_did other (s_did_table st) 0")
        (simp_all add: did_read_eq[OF ok1 other(2)] did_read_eq[OF assms(1) other(2)] find Let_def)
  qed
qed

theorem did_write_read_witness:
  "\<exists>st1. uds_did_app_write 0xF183 [0x41, 0x42] uds_did_app_init = Some (UDS_RESULT_OK, st1) \<and>
     uds_did_app_read 0xF183 64 0 st1 = Some (UDS_RESULT_OK, [0x41, 0x42], 2, st1)"
proof -
  have "\<exists>st1. uds_did_app_write 0xF183 [0x41, 0x42] uds_did_app_init = Some (UDS_RESULT_OK, st1)"
    by (simp add: uds_did_app_write_def uds_did_app_init_def did_record_def ascii_def UDS_DID_MAX_DATA_SIZE_def copy_loop_eq)
  then show ?thesis using did_write_read[OF did_init_ok] by fastforce
qed

end
