(* ===== verification/App_Can.thy ===== *)
theory App_Can
  imports Endpoint
begin

text \<open>
  The CAN driver of the application (\<open>App/Src/can_transport.c\<close>) over the vendor's peripheral library, and the
  main loop with its receive queue (\<open>App/Src/uds_app.c\<close>). The peripheral library is a parameter: a record of
  the functions the driver calls, over the state \<open>'h\<close> of the peripheral.
\<close>

section \<open>The CAN driver\<close>

record 'h hal_can =
  hal_add_tx_message :: "'h \<Rightarrow> u32 \<Rightarrow> u8 \<Rightarrow> bytes \<Rightarrow> bool \<times> u32 \<times> 'h"
  hal_is_tx_pending :: "'h \<Rightarrow> u32 \<Rightarrow> bool"
  hal_abort_tx :: "'h \<Rightarrow> u32 \<Rightarrow> 'h"
  hal_get_error :: "'h \<Rightarrow> u32"
  hal_bus_off :: "'h \<Rightarrow> bool"
  hal_stop :: "'h \<Rightarrow> 'h"
  hal_start :: "'h \<Rightarrow> bool \<times> 'h"
  hal_get_tick :: "'h option \<Rightarrow> u32"

abbreviation (input) "HAL_CAN_ERROR_BOF \<equiv> 0x00000004 :: u32"
abbreviation (input) "HAL_CAN_ERROR_TX_ALST0 \<equiv> 0x00000800 :: u32"
abbreviation (input) "HAL_CAN_ERROR_TX_TERR0 \<equiv> 0x00001000 :: u32"
abbreviation (input) "HAL_CAN_ERROR_TX_ALST1 \<equiv> 0x00002000 :: u32"
abbreviation (input) "HAL_CAN_ERROR_TX_TERR1 \<equiv> 0x00004000 :: u32"
abbreviation (input) "HAL_CAN_ERROR_TX_ALST2 \<equiv> 0x00008000 :: u32"
abbreviation (input) "HAL_CAN_ERROR_TX_TERR2 \<equiv> 0x00010000 :: u32"
abbreviation (input) "CAN_TX_MAILBOX0 \<equiv> 1 :: u32"
abbreviation (input) "CAN_TX_MAILBOX1 \<equiv> 2 :: u32"
abbreviation (input) "CAN_TX_MAILBOX2 \<equiv> 4 :: u32"

text \<open>The handle is the state of the peripheral behind the pointer.\<close>

record 'h UdsCanTransport =
  hcan :: "'h option"
  transport_request_id :: u32
  transport_response_id :: u32
  tx_mailbox_mask :: u32
  tx_error_occurred :: bool

definition uds_can_transport_init :: "'h option \<Rightarrow> u32 \<Rightarrow> u32 \<Rightarrow> 'h UdsCanTransport" where
  "uds_can_transport_init handle request_id response_id =
     \<lparr> hcan = handle, transport_request_id = request_id, transport_response_id = response_id, tx_mailbox_mask = 0,
       tx_error_occurred = False \<rparr>"

definition uds_can_transport_send :: "'h hal_can \<Rightarrow> 'h UdsCanTransport \<Rightarrow> IsoTpCanFrame \<Rightarrow> bool \<times> 'h UdsCanTransport" where
  "uds_can_transport_send hal transport frame =
     (case hcan transport of
        None \<Rightarrow> (False, transport)
      | Some h \<Rightarrow>
          if f_is_fd frame \<or> f_dlc frame > 8 then (False, transport)
          else case hal_add_tx_message hal h (f_can_id frame) (f_dlc frame) (f_data frame) of (ok, mailbox, h) \<Rightarrow>
            let transport = transport\<lparr> hcan := Some h \<rparr> in
            if \<not> ok then (False, transport\<lparr> tx_error_occurred := True \<rparr>)
            else (True, transport\<lparr> tx_mailbox_mask := tx_mailbox_mask transport OR mailbox \<rparr>))"

definition uds_can_transport_tx_complete :: "'h hal_can \<Rightarrow> 'h UdsCanTransport \<Rightarrow> bool \<times> 'h UdsCanTransport" where
  "uds_can_transport_tx_complete hal transport =
     (case hcan transport of
        None \<Rightarrow> (False, transport)
      | Some h \<Rightarrow>
          if tx_error_occurred transport then (False, transport)
          else if tx_mailbox_mask transport = 0 then (True, transport)
          else if hal_is_tx_pending hal h (tx_mailbox_mask transport) then (False, transport)
          else (True, transport\<lparr> tx_mailbox_mask := 0 \<rparr>))"

text \<open>The block of the error path, three times in the source: whatever is in the mailboxes is aborted.\<close>

definition abort_mailboxes :: "'h hal_can \<Rightarrow> 'h \<Rightarrow> 'h UdsCanTransport \<Rightarrow> 'h UdsCanTransport" where
  "abort_mailboxes hal h transport =
     (if tx_mailbox_mask transport \<noteq> 0
      then transport\<lparr> hcan := Some (hal_abort_tx hal h (tx_mailbox_mask transport)), tx_mailbox_mask := 0 \<rparr>
      else transport)"

definition tx_err_mask :: "u32 \<Rightarrow> u32" where
  "tx_err_mask mailboxes =
     ((if mailboxes AND CAN_TX_MAILBOX0 \<noteq> 0 then HAL_CAN_ERROR_TX_TERR0 OR HAL_CAN_ERROR_TX_ALST0 else 0) OR
      (if mailboxes AND CAN_TX_MAILBOX1 \<noteq> 0 then HAL_CAN_ERROR_TX_TERR1 OR HAL_CAN_ERROR_TX_ALST1 else 0) OR
      (if mailboxes AND CAN_TX_MAILBOX2 \<noteq> 0 then HAL_CAN_ERROR_TX_TERR2 OR HAL_CAN_ERROR_TX_ALST2 else 0))"

definition uds_can_transport_tx_error :: "'h hal_can \<Rightarrow> 'h UdsCanTransport \<Rightarrow> bool \<times> 'h UdsCanTransport" where
  "uds_can_transport_tx_error hal transport =
     (case hcan transport of
        None \<Rightarrow> (False, transport)
      | Some h \<Rightarrow>
          if tx_error_occurred transport
          then (True, abort_mailboxes hal h (transport\<lparr> tx_error_occurred := False \<rparr>))
          else
            let err = hal_get_error hal h;
                bus_off = (err AND HAL_CAN_ERROR_BOF \<noteq> 0 \<or> hal_bus_off hal h) in
            if bus_off then (True, abort_mailboxes hal h transport)
            else if tx_mailbox_mask transport \<noteq> 0 \<and> err AND tx_err_mask (tx_mailbox_mask transport) \<noteq> 0
            then (True, abort_mailboxes hal h transport)
            else (False, transport))"

definition uds_can_transport_recover :: "'h hal_can \<Rightarrow> 'h UdsCanTransport \<Rightarrow> bool \<times> 'h UdsCanTransport" where
  "uds_can_transport_recover hal transport =
     (case hcan transport of
        None \<Rightarrow> (False, transport)
      | Some h \<Rightarrow>
          let transport = (abort_mailboxes hal h transport)\<lparr> tx_error_occurred := False \<rparr> in
          case hcan transport of
            None \<Rightarrow> (False, transport)
          | Some h \<Rightarrow> (case hal_start hal (hal_stop hal h) of (ok, h) \<Rightarrow> (ok, transport\<lparr> hcan := Some h \<rparr>)))"

definition uds_can_transport_clock :: "'h hal_can \<Rightarrow> 'h UdsCanTransport \<Rightarrow> u32 \<times> 'h UdsCanTransport" where
  "uds_can_transport_clock hal transport = (hal_get_tick hal (hcan transport), transport)"

section \<open>The main loop\<close>

definition UDS_APP_REQUEST_ID :: u32 where "UDS_APP_REQUEST_ID = 0x7E0"
definition UDS_APP_FUNCTIONAL_ID :: u32 where "UDS_APP_FUNCTIONAL_ID = 0x7DF"
definition UDS_APP_RESPONSE_ID :: u32 where "UDS_APP_RESPONSE_ID = 0x7E8"
definition UDS_APP_RX_FIFO_CAPACITY :: nat where "UDS_APP_RX_FIFO_CAPACITY = 8"

record rx_fifo =
  s_rx_fifo :: "IsoTpCanFrame list"
  s_rx_head :: u8
  s_rx_tail :: u8
  s_rx_overflow_count :: u32
  s_rx_overflow_flag :: bool

text \<open>The transport is the driver context of the endpoint; \<open>None\<close> is the null pointer before \<open>uds_app_init\<close>.\<close>

record ('h, 'c, 'p) uds_app = rx_fifo +
  s_endpoint :: "('h UdsCanTransport, unit, unit, 'c, 'p) UdsIsoTpEndpoint"
  s_transport_set :: bool
  s_initialized :: bool

text \<open>
  The configuration of the endpoint; \<open>isotp\<close> is the classic CAN configuration with padding and \<open>callbacks\<close> the
  table of the service callbacks.
\<close>

definition uds_app_config ::
  "'h hal_can \<Rightarrow> unit IsoTpConfig \<Rightarrow> 'c UdsCallbacks \<Rightarrow> 'h UdsCanTransport \<Rightarrow> 'c \<Rightarrow>
     ('h UdsCanTransport, unit, unit, 'c) UdsIsoTpEndpointConfig" where
  "uds_app_config hal isotp cbs transport context =
     \<lparr> cfg_send_frame = Some (uds_can_transport_send hal), cfg_tx_complete = Some (uds_can_transport_tx_complete hal),
       cfg_tx_error = Some (uds_can_transport_tx_error hal), cfg_clock_ms = Some (uds_can_transport_clock hal),
       cfg_reset_event = None, cfg_context = transport, cfg_reset_event_context = (), cfg_isotp = isotp,
       cfg_request_id = UDS_APP_REQUEST_ID, cfg_response_id = UDS_APP_RESPONSE_ID,
       cfg_functional_request_id = UDS_APP_FUNCTIONAL_ID, cfg_uds_callbacks = cbs, cfg_uds_context = context \<rparr>"

text \<open>
  \<open>app\<close> is what the memory held. The components behind the callbacks have their own initialisation; the call of
  \<open>uds_memory_app_set_server\<close> belongs to theirs.
\<close>

definition uds_app_init ::
  "'h hal_can \<Rightarrow> 'h UdsCanTransport option \<Rightarrow> 'c UdsCallbacks \<Rightarrow> 'c \<Rightarrow> u32 \<Rightarrow> ('h, 'c, 'p) uds_app \<Rightarrow> ('h, 'c, 'p) uds_app" where
  "uds_app_init hal transport cbs context now app =
     (case transport of
        None \<Rightarrow> app
      | Some t \<Rightarrow>
          let isotp = isotp_config_set_padding isotp_config_classic_can True 0xCC;
              config = uds_app_config hal isotp cbs t context;
              (ok, ep) = uds_isotp_endpoint_init (s_endpoint app) config now in
          app\<lparr> s_transport_set := True, s_rx_head := 0, s_rx_tail := 0, s_rx_overflow_count := 0, s_rx_overflow_flag := False,
             s_initialized := ok, s_endpoint := ep \<rparr>)"

text \<open>A slot keeps the bytes behind the new frame from the frame before.\<close>

definition uds_app_rx_from_isr :: "u32 \<Rightarrow> bytes \<Rightarrow> u8 \<Rightarrow> ('h, 'c, 'p) uds_app \<Rightarrow> ('h, 'c, 'p) uds_app option" where
  "uds_app_rx_from_isr can_id data dlc app =
     (if \<not> s_initialized app \<or> dlc = 0 \<or> dlc > 8 \<or> can_id \<noteq> UDS_APP_REQUEST_ID \<and> can_id \<noteq> UDS_APP_FUNCTIONAL_ID
      then Some app
      else
        let next_head = of_nat ((unat (s_rx_head app) + 1) mod UDS_APP_RX_FIFO_CAPACITY) in
        if next_head = s_rx_tail app
        then Some (app\<lparr> s_rx_overflow_count := s_rx_overflow_count app + 1, s_rx_overflow_flag := True \<rparr>)
        else do {
          slot \<leftarrow> peek (s_rx_fifo app) (unat (s_rx_head app));
          stored \<leftarrow> copy_loop (f_data slot) 0 data 0 (unat dlc);
          fifo \<leftarrow> poke (s_rx_fifo app) (unat (s_rx_head app))
            \<lparr> f_can_id = can_id, f_dlc = dlc, f_is_fd = False, f_bit_rate_switch = False, f_data = stored \<rparr>;
          Some (app\<lparr> s_rx_fifo := fifo, s_rx_head := next_head \<rparr>) })"

definition uds_app_clear_rx_overflow_flag :: "('h, 'c, 'p) uds_app \<Rightarrow> ('h, 'c, 'p) uds_app" where
  "uds_app_clear_rx_overflow_flag app = app\<lparr> s_rx_overflow_flag := False \<rparr>"

text \<open>The critical section of \<open>uds_app_process\<close>.\<close>

definition take_frame :: "('h, 'c, 'p) uds_app \<Rightarrow> (IsoTpCanFrame option \<times> ('h, 'c, 'p) uds_app) option" where
  "take_frame app =
     (if s_rx_head app \<noteq> s_rx_tail app then do {
        frame \<leftarrow> peek (s_rx_fifo app) (unat (s_rx_tail app));
        Some (Some frame, app\<lparr> s_rx_tail := of_nat ((unat (s_rx_tail app) + 1) mod UDS_APP_RX_FIFO_CAPACITY) \<rparr>) }
      else Some (None, app))"

text \<open>
  The interrupt comes at any point of \<open>uds_app_process\<close>, but the two share the queue only, and the main loop
  touches the queue with interrupts disabled. An interrupt during the rest of a call has the effect of one
  that comes after it.
\<close>

definition uds_app_process ::
  "'h hal_can \<Rightarrow> IsoTpRxEvent \<Rightarrow> u32 \<Rightarrow> ('h, 'c, 'p) uds_app \<Rightarrow> ('h, 'c, 'p) uds_app option" where
  "uds_app_process hal junk now app =
     (if \<not> s_initialized app \<or> \<not> s_transport_set app then Some app
      else do {
        (frame, app) \<leftarrow> take_frame app;
        let (complete, ep) = driver_query (s_endpoint app) (uds_can_transport_tx_complete hal);
        let ep = (if complete then uds_isotp_endpoint_tx_complete ep else ep);
        ep \<leftarrow> (case frame of None \<Rightarrow> Some ep | Some f \<Rightarrow> map_option snd (uds_isotp_endpoint_receive junk ep f now));
        (status, ep) \<leftarrow> uds_isotp_endpoint_process ep now;
        let ep = snd (uds_isotp_endpoint_tick ep now);
        Some (app\<lparr> s_endpoint := ep \<rparr>) })"

section \<open>The receive queue\<close>

text \<open>The waiting frames, oldest first: identifier and data.\<close>

definition waiting_frame :: "IsoTpCanFrame \<Rightarrow> u32 \<times> bytes" where
  "waiting_frame f = (f_can_id f, take (unat (f_dlc f)) (f_data f))"

definition queued :: "('h, 'c, 'p) uds_app \<Rightarrow> nat" where
  "queued app = (unat (s_rx_head app) + 8 - unat (s_rx_tail app)) mod 8"

definition waiting :: "('h, 'c, 'p) uds_app \<Rightarrow> (u32 \<times> bytes) list" where
  "waiting app = map (\<lambda>i. waiting_frame (s_rx_fifo app ! ((unat (s_rx_tail app) + i) mod 8))) [0..<queued app]"

definition fifo_ok :: "('h, 'c, 'p) uds_app \<Rightarrow> bool" where
  "fifo_ok app \<longleftrightarrow> length (s_rx_fifo app) = 8 \<and> unat (s_rx_head app) < 8 \<and> unat (s_rx_tail app) < 8 \<and>
     list_all wf_frame (s_rx_fifo app)"

definition uds_app_ok :: "('h, 'c, 'p) uds_app \<Rightarrow> bool" where
  "uds_app_ok app \<longleftrightarrow> fifo_ok app \<and> ep_wf (s_endpoint app) \<and> s_initialized app \<and> s_transport_set app"

datatype app_event =
    CanInterrupt u32 bytes u8
  | MainLoop IsoTpRxEvent u32

primrec main_step :: "'h hal_can \<Rightarrow> ('h, 'c, 'p) uds_app \<Rightarrow> app_event \<Rightarrow> ('h, 'c, 'p) uds_app option" where
  "main_step hal app (CanInterrupt can_id data dlc) = uds_app_rx_from_isr can_id data dlc app"
| "main_step hal app (MainLoop junk now) = uds_app_process hal junk now app"

text \<open>The peripheral hands over eight bytes, whatever the length of the frame.\<close>

fun app_event_ok :: "app_event \<Rightarrow> bool" where
  "app_event_ok (CanInterrupt can_id data dlc) = (length data = 8)"
| "app_event_ok (MainLoop junk now) = True"

text \<open>The specification: a queue of seven, a count of what did not fit.\<close>

primrec queue_step :: "(u32 \<times> bytes) list \<times> u32 \<Rightarrow> app_event \<Rightarrow> (u32 \<times> bytes) list \<times> u32" where
  "queue_step q (CanInterrupt can_id data dlc) =
     (if dlc = 0 \<or> dlc > 8 \<or> can_id \<notin> {0x7E0, 0x7DF} then q
      else if length (fst q) = 7 then (fst q, snd q + 1)
      else (fst q @ [(can_id, take (unat dlc) data)], snd q))"
| "queue_step q (MainLoop junk now) = (tl (fst q), snd q)"

lemma next_index: "unat i < 8 \<Longrightarrow> unat (of_nat (Suc (unat (i :: u8)) mod 8) :: u8) = Suc (unat i) mod 8"
  by (simp add: unat_of_nat)

lemma queued_less: "queued app < 8"
  by (simp add: queued_def)

text \<open>Distances on a ring of eight.\<close>

definition ring :: "nat \<Rightarrow> nat \<Rightarrow> nat" where
  "ring h t = (if t \<le> h then h - t else h + 8 - t)"

lemma mod_8: "x < 8 \<Longrightarrow> x mod 8 = x" "8 \<le> x \<Longrightarrow> x < 16 \<Longrightarrow> x mod 8 = x - (8 :: nat)"
  by (simp_all add: mod_if)

lemma ring_distance: "h < 8 \<Longrightarrow> t < 8 \<Longrightarrow> (h + 8 - t) mod 8 = ring h t"
  by (cases "t \<le> h") (simp_all add: ring_def mod_8)

lemma ring_push: "h < 8 \<Longrightarrow> t < 8 \<Longrightarrow> ring h t \<noteq> 7 \<Longrightarrow> ring (Suc h mod 8) t = Suc (ring h t)"
  by (cases "h = 7") (auto simp: ring_def mod_8)

lemma ring_pop: "h < 8 \<Longrightarrow> t < 8 \<Longrightarrow> ring h t \<noteq> 0 \<Longrightarrow> ring h t = Suc (ring h (Suc t mod 8))"
  by (cases "t = 7") (auto simp: ring_def mod_8 split: if_splits)

lemma ring_end: "h < 8 \<Longrightarrow> t < 8 \<Longrightarrow> (t + ring h t) mod 8 = h"
  by (cases "t \<le> h") (simp_all add: ring_def mod_8)

lemma ring_before: "h < 8 \<Longrightarrow> t < 8 \<Longrightarrow> i < ring h t \<Longrightarrow> (t + i) mod 8 \<noteq> h"
  by (cases "t + i < 8") (auto simp: ring_def mod_8 split: if_splits)

lemma ring_full: "h < 8 \<Longrightarrow> t < 8 \<Longrightarrow> Suc h mod 8 = t \<longleftrightarrow> ring h t = 7"
  by (cases "h = 7") (auto simp: ring_def mod_8 split: if_splits)

lemma ring_empty: "h < 8 \<Longrightarrow> t < 8 \<Longrightarrow> h = t \<longleftrightarrow> ring h t = 0"
  by (auto simp: ring_def split: if_splits)

lemma queued_eq: "fifo_ok app \<Longrightarrow> queued app = ring (unat (s_rx_head app)) (unat (s_rx_tail app))"
  by (simp add: queued_def fifo_ok_def ring_distance)

lemma queued_full:
  assumes "fifo_ok app"
  shows "of_nat ((unat (s_rx_head app) + 1) mod UDS_APP_RX_FIFO_CAPACITY) = s_rx_tail app \<longleftrightarrow> queued app = 7"
proof -
  have "of_nat ((unat (s_rx_head app) + 1) mod UDS_APP_RX_FIFO_CAPACITY) = s_rx_tail app \<longleftrightarrow>
      Suc (unat (s_rx_head app)) mod 8 = unat (s_rx_tail app)"
    using assms by (simp add: word_unat_eq_iff next_index UDS_APP_RX_FIFO_CAPACITY_def fifo_ok_def)
  also have "\<dots> \<longleftrightarrow> queued app = 7"
    using assms by (simp add: queued_eq ring_full fifo_ok_def)
  finally show ?thesis .
qed

lemma queued_empty: "fifo_ok app \<Longrightarrow> s_rx_head app = s_rx_tail app \<longleftrightarrow> queued app = 0"
  by (simp add: queued_eq word_unat_eq_iff fifo_ok_def ring_empty)

lemma ring_slots:
  assumes "fifo_ok app"
  shows "(unat (s_rx_tail app) + queued app) mod 8 = unat (s_rx_head app)"
    "i < queued app \<Longrightarrow> (unat (s_rx_tail app) + i) mod 8 \<noteq> unat (s_rx_head app)"
  using assms by (simp_all add: queued_eq fifo_ok_def ring_end ring_before)

lemma waiting_length [simp]: "length (waiting app) = queued app"
  by (simp add: waiting_def)

lemma waiting_cong:
  "s_rx_fifo app' = s_rx_fifo app \<Longrightarrow> s_rx_head app' = s_rx_head app \<Longrightarrow> s_rx_tail app' = s_rx_tail app \<Longrightarrow>
   waiting app' = waiting app"
  by (simp add: waiting_def queued_def)

lemma fifo_ok_cong:
  "s_rx_fifo app' = s_rx_fifo app \<Longrightarrow> s_rx_head app' = s_rx_head app \<Longrightarrow> s_rx_tail app' = s_rx_tail app \<Longrightarrow>
   fifo_ok app' = fifo_ok app"
  by (simp add: fifo_ok_def)

text \<open>One frame more.\<close>

definition pushed :: "u32 \<Rightarrow> bytes \<Rightarrow> u8 \<Rightarrow> ('h, 'c, 'p) uds_app \<Rightarrow> ('h, 'c, 'p) uds_app" where
  "pushed can_id data dlc app = app
     \<lparr> s_rx_fifo := (s_rx_fifo app)[unat (s_rx_head app) := \<lparr> f_can_id = can_id, f_dlc = dlc, f_is_fd = False,
         f_bit_rate_switch = False,
         f_data = take (unat dlc) data @ drop (unat dlc) (f_data (s_rx_fifo app ! unat (s_rx_head app))) \<rparr>],
       s_rx_head := of_nat (Suc (unat (s_rx_head app)) mod 8) \<rparr>"

lemma pushed_ok:
  assumes "fifo_ok app" "queued app \<noteq> 7" "length data = 8" "dlc \<le> 8"
  shows "fifo_ok (pushed can_id data dlc app)" "waiting (pushed can_id data dlc app) = waiting app @ [(can_id, take (unat dlc) data)]"
proof -
  let ?f = "\<lparr> f_can_id = can_id, f_dlc = dlc, f_is_fd = False, f_bit_rate_switch = False,
         f_data = take (unat dlc) data @ drop (unat dlc) (f_data (s_rx_fifo app ! unat (s_rx_head app))) \<rparr>"
  let ?app = "pushed can_id data dlc app"
  have dlc: "unat dlc \<le> 8" using assms(4) by (simp add: word_le_nat_alt)
  have head: "unat (s_rx_head ?app) = Suc (unat (s_rx_head app)) mod 8"
    using assms(1) by (simp add: pushed_def next_index fifo_ok_def)
  have "wf_frame (s_rx_fifo app ! unat (s_rx_head app))" using assms(1) by (simp add: fifo_ok_def list_all_length)
  then have "wf_frame ?f" using assms(3) dlc by (simp add: wf_frame_def)
  then show ok: "fifo_ok ?app"
    using assms(1) head unfolding fifo_ok_def
    by (simp add: pushed_def list_all_length nth_list_update)
  have q: "queued ?app = Suc (queued app)"
    using assms(1,2) ring_push[of "unat (s_rx_head app)" "unat (s_rx_tail app)"]
    unfolding queued_eq[OF ok] queued_eq[OF assms(1)] head by (simp add: fifo_ok_def pushed_def)
  have "waiting ?app = map (\<lambda>i. waiting_frame (s_rx_fifo ?app ! ((unat (s_rx_tail app) + i) mod 8))) ([0..<queued app] @ [queued app])"
    unfolding waiting_def q by (simp add: pushed_def)
  also have "\<dots> = waiting app @ [waiting_frame ?f]"
    using ring_slots(1)[OF assms(1)] ring_slots(2)[OF assms(1), symmetric] assms(1)
    by (simp add: waiting_def pushed_def fifo_ok_def)
  finally show "waiting ?app = waiting app @ [(can_id, take (unat dlc) data)]"
    using assms(3) dlc by (simp add: waiting_frame_def)
qed

lemma isr_eq:
  assumes "uds_app_ok app" "length data = 8"
  shows "uds_app_rx_from_isr can_id data dlc app = Some (
     if dlc = 0 \<or> dlc > 8 \<or> can_id \<notin> {0x7E0, 0x7DF} then app
     else if queued app = 7
     then app\<lparr> s_rx_overflow_count := s_rx_overflow_count app + 1, s_rx_overflow_flag := True \<rparr>
     else pushed can_id data dlc app)"
proof -
  have ok: "fifo_ok app" "s_initialized app" using assms(1) by (simp_all add: uds_app_ok_def)
  then have slot: "length (s_rx_fifo app) = 8" "unat (s_rx_head app) < 8"
      "length (f_data (s_rx_fifo app ! unat (s_rx_head app))) = 64"
    by (auto simp: fifo_ok_def list_all_length wf_frame_def)
  show ?thesis
  proof (cases "dlc = 0 \<or> dlc > 8 \<or> can_id \<notin> {0x7E0, 0x7DF}")
    case False
    then have "unat dlc \<le> 8" by (simp add: word_le_nat_alt not_less)
    then have "copy_loop (f_data (s_rx_fifo app ! unat (s_rx_head app))) 0 data 0 (unat dlc) =
        Some (take (unat dlc) data @ drop (unat dlc) (f_data (s_rx_fifo app ! unat (s_rx_head app))))"
      using slot assms(2) by (simp add: copy_loop_eq)
    then show ?thesis using False ok slot queued_full[OF ok(1)]
      by (auto simp: uds_app_rx_from_isr_def UDS_APP_REQUEST_ID_def UDS_APP_FUNCTIONAL_ID_def mem_simps pushed_def
        UDS_APP_RX_FIFO_CAPACITY_def)
  qed (use ok in \<open>auto simp: uds_app_rx_from_isr_def UDS_APP_REQUEST_ID_def UDS_APP_FUNCTIONAL_ID_def\<close>)
qed

text \<open>One frame less.\<close>

definition popped :: "('h, 'c, 'p) uds_app \<Rightarrow> ('h, 'c, 'p) uds_app" where
  "popped app = app\<lparr> s_rx_tail := of_nat (Suc (unat (s_rx_tail app)) mod 8) \<rparr>"

lemma popped_ok:
  assumes "fifo_ok app" "queued app \<noteq> 0"
  shows "fifo_ok (popped app)" "waiting (popped app) = tl (waiting app)"
proof -
  have tail: "unat (s_rx_tail (popped app)) = Suc (unat (s_rx_tail app)) mod 8"
    using assms(1) by (simp add: popped_def next_index fifo_ok_def)
  then show ok: "fifo_ok (popped app)" using assms(1) unfolding fifo_ok_def by (simp add: popped_def)
  have q: "queued app = Suc (queued (popped app))"
    using assms ring_pop[of "unat (s_rx_head app)" "unat (s_rx_tail app)"]
    unfolding queued_eq[OF ok] queued_eq[OF assms(1)] tail by (simp add: fifo_ok_def popped_def)
  show "waiting (popped app) = tl (waiting app)"
    unfolding waiting_def tail q
    by (simp add: map_tl[symmetric] upt_conv_Cons map_Suc_upt[symmetric] comp_def mod_simps popped_def del: upt_Suc)
qed

lemma take_frame_eq:
  assumes "fifo_ok app"
  shows "take_frame app = Some (if queued app = 0 then (None, app)
     else (Some (s_rx_fifo app ! unat (s_rx_tail app)), popped app))"
  using assms queued_empty[OF assms]
  by (simp add: take_frame_def fifo_ok_def mem_simps popped_def UDS_APP_RX_FIFO_CAPACITY_def)

lemma oldest_frame:
  assumes "fifo_ok app" "queued app \<noteq> 0"
  shows "hd (waiting app) = waiting_frame (s_rx_fifo app ! unat (s_rx_tail app))"
    "wf_frame (s_rx_fifo app ! unat (s_rx_tail app))"
  using assms by (auto simp: waiting_def hd_map fifo_ok_def list_all_length)

end
