(* ===== verification/App_Main.thy ===== *)
theory App_Main
  imports App_Can
begin

text \<open>
  The main loop as a machine: it implements a queue of seven frames in front of the endpoint, it is safe, and a
  response that is refused once by the CAN peripheral is lost.
\<close>

section \<open>The queue\<close>

lemma ep_wf_with: "ep_wf ep \<Longrightarrow> ep_wf (snd (driver_query ep q))"
  by (simp add: driver_query_eq split: prod.splits)

lemma process_step:
  assumes "uds_app_ok app"
  shows "\<exists>ep. uds_app_process hal junk now app = Some ((if queued app = 0 then app else popped app)\<lparr> s_endpoint := ep \<rparr>) \<and> ep_wf ep"
proof -
  have ok: "fifo_ok app" "ep_wf (s_endpoint app)" "s_initialized app" "s_transport_set app"
    using assms by (simp_all add: uds_app_ok_def)
  obtain complete ep0 where q: "driver_query (s_endpoint app) (uds_can_transport_tx_complete hal) = (complete, ep0)"
    by (cases "driver_query (s_endpoint app) (uds_can_transport_tx_complete hal)") blast
  with ep_wf_with[OF ok(2)] have "ep_wf ep0" by (metis snd_conv)
  define ep1 where "ep1 = (if complete then uds_isotp_endpoint_tx_complete ep0 else ep0)"
  have wf1: "ep_wf ep1" using \<open>ep_wf ep0\<close> by (simp add: ep1_def uds_isotp_endpoint_tx_complete_def)
  define frame where "frame = (if queued app = 0 then None else Some (s_rx_fifo app ! unat (s_rx_tail app)))"
  have "\<exists>ep2. (case frame of None \<Rightarrow> Some ep1 | Some f \<Rightarrow> map_option snd (uds_isotp_endpoint_receive junk ep1 f now)) = Some ep2 \<and> ep_wf ep2"
    using wf1 oldest_frame(2)[OF ok(1)] ep_step_safe[OF wf1, of "EpReceive junk (s_rx_fifo app ! unat (s_rx_tail app)) now"]
    by (auto simp: frame_def)
  then obtain ep2 where ep2: "(case frame of None \<Rightarrow> Some ep1 | Some f \<Rightarrow> map_option snd (uds_isotp_endpoint_receive junk ep1 f now)) = Some ep2"
    "ep_wf ep2" by blast
  obtain status ep3 where ep3: "uds_isotp_endpoint_process ep2 now = Some (status, ep3)" "ep_wf ep3"
    using ep_step_safe[OF ep2(2), of "EpProcess now"] by auto
  have "uds_app_process hal junk now app =
      Some ((if queued app = 0 then app else popped app)\<lparr> s_endpoint := snd (uds_isotp_endpoint_tick ep3 now) \<rparr>)"
    using ok(3,4) ep2(1) ep3(1) q
    by (simp add: uds_app_process_def take_frame_eq[OF ok(1)] frame_def ep1_def popped_def del: map_option_eq_Some split: if_splits)
  with tick_wf[OF ep3(2), of now] show ?thesis by blast
qed

lemma main_step_keeps:
  assumes "uds_app_ok app" "app_event_ok e"
  shows "\<exists>app'. main_step hal app e = Some app' \<and> uds_app_ok app' \<and>
    (waiting app', s_rx_overflow_count app') = queue_step (waiting app, s_rx_overflow_count app) e"
proof (cases e)
  case (CanInterrupt can_id data dlc)
  have ok: "fifo_ok app" using assms(1) by (simp add: uds_app_ok_def)
  consider "dlc = 0 \<or> dlc > 8 \<or> can_id \<notin> {0x7E0, 0x7DF}"
    | "\<not> (dlc = 0 \<or> dlc > 8 \<or> can_id \<notin> {0x7E0, 0x7DF})" "queued app = 7"
    | "\<not> (dlc = 0 \<or> dlc > 8 \<or> can_id \<notin> {0x7E0, 0x7DF})" "queued app \<noteq> 7" by blast
  then show ?thesis
  proof cases
    case 1
    then show ?thesis using CanInterrupt assms isr_eq[OF assms(1), of data can_id dlc] by auto
  next
    case 2
    let ?app = "app\<lparr> s_rx_overflow_count := s_rx_overflow_count app + 1, s_rx_overflow_flag := True \<rparr>"
    have "waiting ?app = waiting app" "fifo_ok ?app = fifo_ok app"
      by (rule waiting_cong, simp_all) (rule fifo_ok_cong, simp_all)
    then show ?thesis using 2 CanInterrupt assms isr_eq[OF assms(1), of data can_id dlc] by (auto simp: uds_app_ok_def)
  next
    case 3
    then have "dlc \<le> 8" by (simp add: not_less)
    from pushed_ok[OF ok 3(2) _ this, of data can_id] show ?thesis
      using 3 CanInterrupt assms isr_eq[OF assms(1), of data can_id dlc] by (auto simp: uds_app_ok_def pushed_def)
  qed
next
  case (MainLoop junk now)
  have ok: "fifo_ok app" using assms(1) by (simp add: uds_app_ok_def)
  obtain ep where ep: "uds_app_process hal junk now app = Some ((if queued app = 0 then app else popped app)\<lparr> s_endpoint := ep \<rparr>)"
    "ep_wf ep" using process_step[OF assms(1)] by blast
  have same: "waiting (a\<lparr> s_endpoint := ep \<rparr>) = waiting a" "fifo_ok (a\<lparr> s_endpoint := ep \<rparr>) = fifo_ok a" for a :: "('a, 'b, 'c) uds_app"
    by (rule waiting_cong, simp_all) (rule fifo_ok_cong, simp_all)
  show ?thesis
  proof (cases "queued app = 0")
    case True
    then have "waiting app = []" by (simp flip: length_0_conv)
    then show ?thesis using True ep assms(1) MainLoop same by (simp add: uds_app_ok_def)
  next
    case False
    then show ?thesis using ep assms(1) MainLoop same popped_ok[OF ok False] by (simp add: uds_app_ok_def) (simp add: popped_def)
  qed
qed

interpretation mainq: refined_machine "main_step hal" app_event_ok uds_app_ok
  "\<lambda>app. (waiting app, s_rx_overflow_count app)" queue_step for hal :: "'h hal_can"
proof unfold_locales
  show "\<exists>s'. main_step hal s e = Some s' \<and> uds_app_ok s'" if "uds_app_ok s" "app_event_ok e" for s e
    using main_step_keeps[OF that] by blast
  show "(waiting s', s_rx_overflow_count s') = queue_step (waiting s, s_rx_overflow_count s) e"
    if "uds_app_ok s" "app_event_ok e" "main_step hal s e = Some s'" for s e s'
    using main_step_keeps[OF that(1,2), of hal] that(3) by auto
qed


section \<open>A frame the peripheral refuses once\<close>

text \<open>What the tick of the endpoint leaves alone: everything about transmission but the state of the transmitter.\<close>

definition same_transmission :: "('d, 'r, 'k, 'c, 'p) UdsIsoTpEndpoint \<Rightarrow> ('d, 'r, 'k, 'c, 'p) UdsIsoTpEndpoint \<Rightarrow> bool" where
  "same_transmission e e' \<longleftrightarrow> pending_frame e' = pending_frame e \<and> tx_pending e' = tx_pending e \<and>
     control_pending e' = control_pending e \<and> tx_in_flight e' = tx_in_flight e \<and>
     cfg_send_frame (ep_config e') = cfg_send_frame (ep_config e) \<and> cfg_tx_complete (ep_config e') = cfg_tx_complete (ep_config e) \<and>
     cfg_tx_error (ep_config e') = cfg_tx_error (ep_config e) \<and> cfg_context (ep_config e') = cfg_context (ep_config e) \<and>
     queued_response_pending e' = queued_response_pending e"

lemma tick_transmission: "same_transmission ep (snd (uds_isotp_endpoint_tick ep now))"
  by (auto simp: same_transmission_def uds_isotp_endpoint_tick_def Let_def split: prod.splits)

lemma tick_idle:
  "isotp_tx_state (ep_tx ep) = ISOTP_TX_STATE_IDLE \<Longrightarrow>
   isotp_tx_state (ep_tx (snd (uds_isotp_endpoint_tick ep now))) = ISOTP_TX_STATE_IDLE"
  by (auto simp: uds_isotp_endpoint_tick_def Let_def isotp_tx_tick_def isotp_tx_state_def isotp_tx_reset_def split: prod.splits)

lemma abort_fields:
  "tx_in_flight ep \<Longrightarrow> isotp_tx_state (ep_tx (abort_in_flight ep)) = ISOTP_TX_STATE_IDLE \<and> \<not> tx_in_flight (abort_in_flight ep) \<and>
     tx_pending (abort_in_flight ep) = tx_pending ep \<and>
     cfg_context (ep_config (abort_in_flight ep)) = cfg_context (ep_config ep)"
  by (auto simp: abort_in_flight_def isotp_tx_reset_def isotp_tx_state_def)

text \<open>A call of the main loop while no frame waits.\<close>

lemma process_quiet:
  assumes "uds_app_ok app" "queued app = 0"
  shows "uds_app_process hal junk now app = map_option (\<lambda>(status, ep). app\<lparr> s_endpoint := snd (uds_isotp_endpoint_tick ep now) \<rparr>)
     (uds_isotp_endpoint_process (case uds_can_transport_tx_complete hal (cfg_context (ep_config (s_endpoint app))) of
        (complete, d) \<Rightarrow> if complete then complete_in_flight (with_driver (s_endpoint app) d) else with_driver (s_endpoint app) d) now)"
proof -
  have "s_initialized app" "s_transport_set app" "fifo_ok app" using assms(1) by (simp_all add: uds_app_ok_def)
  then show ?thesis using assms(2)
    by (auto simp: uds_app_process_def take_frame_eq driver_query_eq uds_isotp_endpoint_tx_complete_def map_option_case
      split: prod.splits option.splits Option.bind_splits)
qed

text \<open>The three drivers of the application behind an endpoint.\<close>

definition over_can :: "'h hal_can \<Rightarrow> ('h UdsCanTransport, 'r, 'k, 'c, 'p) UdsIsoTpEndpoint \<Rightarrow> bool" where
  "over_can hal ep \<longleftrightarrow> cfg_send_frame (ep_config ep) = Some (uds_can_transport_send hal) \<and>
     cfg_tx_complete (ep_config ep) = Some (uds_can_transport_tx_complete hal) \<and>
     cfg_tx_error (ep_config ep) = Some (uds_can_transport_tx_error hal)"

lemma over_can_same: "same_transmission e e' \<Longrightarrow> over_can hal e \<Longrightarrow> over_can hal e'"
  by (simp add: same_transmission_def over_can_def)

lemma over_can_driver [simp]: "over_can hal (with_driver ep d) = over_can hal ep"
  by (simp add: over_can_def)

text \<open>The frame waits, and the peripheral has none of its mailboxes in use.\<close>

definition frame_waits :: "'h hal_can \<Rightarrow> 'h UdsCanTransport \<Rightarrow> IsoTpCanFrame \<Rightarrow> ('h UdsCanTransport, 'r, 'k, 'c, 'p) UdsIsoTpEndpoint \<Rightarrow> bool" where
  "frame_waits hal t f ep \<longleftrightarrow> over_can hal ep \<and> cfg_context (ep_config ep) = t \<and> tx_mailbox_mask t = 0 \<and>
     tx_pending ep \<and> \<not> tx_in_flight ep \<and> \<not> control_pending ep \<and> pending_frame ep = f \<and> \<not> f_is_fd f \<and> f_dlc f \<le> 8"

lemma process_waiting:
  assumes "over_can hal ep" "tx_pending ep" "\<not> tx_in_flight ep" "\<not> control_pending ep"
  shows "uds_isotp_endpoint_process ep now = process_tx_pending ep"
  using assms by (simp add: uds_isotp_endpoint_process_def submit_control_def)

text \<open>First call: the peripheral refuses, the frame goes on waiting and the driver remembers an error.\<close>

lemma refused_once:
  assumes "uds_app_ok app" "queued app = 0" "frame_waits hal t f (s_endpoint app)" "\<not> tx_error_occurred t" "hcan t = Some h"
    and "hal_add_tx_message hal h (f_can_id f) (f_dlc f) (f_data f) = (False, m, h1)"
  shows "\<exists>ep. uds_app_process hal junk now app = Some (app\<lparr> s_endpoint := ep \<rparr>) \<and>
    frame_waits hal (t\<lparr> hcan := Some h1, tx_error_occurred := True \<rparr>) f ep"
proof -
  let ?ep = "with_driver (s_endpoint app) t"
  have w: "over_can hal ?ep" "tx_pending ?ep" "\<not> tx_in_flight ?ep" "\<not> control_pending ?ep"
    using assms(3) by (simp_all add: frame_waits_def)
  have c: "uds_can_transport_tx_complete hal (cfg_context (ep_config (s_endpoint app))) = (True, t)"
    using assms(3-5) by (simp add: frame_waits_def uds_can_transport_tx_complete_def)
  have n: "complete_in_flight ?ep = ?ep" using w(3) by (simp add: complete_in_flight_def)
  have nf: "\<not> 8 < f_dlc f" using assms(3) by (simp add: frame_waits_def not_less)
  have p: "process_tx_pending ?ep = Some (ISOTP_OK, with_driver ?ep (t\<lparr> hcan := Some h1, tx_error_occurred := True \<rparr>))"
    using process_tx_pending_eq[of ?ep "uds_can_transport_send hal"] w(1) assms(3,5,6) nf
    by (simp add: over_can_def frame_waits_def uds_can_transport_send_def)
  let ?e = "with_driver ?ep (t\<lparr> hcan := Some h1, tx_error_occurred := True \<rparr>)"
  note same = tick_transmission[of ?e now]
  from same over_can_same[OF same] w assms(3)
  have "frame_waits hal (t\<lparr> hcan := Some h1, tx_error_occurred := True \<rparr>) f (snd (uds_isotp_endpoint_tick ?e now))"
    by (simp add: frame_waits_def same_transmission_def)
  moreover have "uds_app_process hal junk now app = Some (app\<lparr> s_endpoint := snd (uds_isotp_endpoint_tick ?e now) \<rparr>)"
    unfolding process_quiet[OF assms(1,2)] c by (simp add: n process_waiting[OF w] p)
  ultimately show ?thesis by blast
qed

text \<open>Second call: the peripheral takes the frame.\<close>

lemma accepted_then:
  assumes "uds_app_ok app" "queued app = 0" "frame_waits hal t f (s_endpoint app)" "tx_error_occurred t" "hcan t = Some h"
    and "hal_add_tx_message hal h (f_can_id f) (f_dlc f) (f_data f) = (True, m, h1)"
  shows "\<exists>ep. uds_app_process hal junk now app = Some (app\<lparr> s_endpoint := ep \<rparr>) \<and> over_can hal ep \<and> tx_in_flight ep \<and>
    \<not> tx_pending ep \<and> cfg_context (ep_config ep) = t\<lparr> hcan := Some h1, tx_mailbox_mask := m \<rparr>"
proof -
  let ?ep = "with_driver (s_endpoint app) t"
  have w: "over_can hal ?ep" "tx_pending ?ep" "\<not> tx_in_flight ?ep" "\<not> control_pending ?ep"
    using assms(3) by (simp_all add: frame_waits_def)
  have c: "uds_can_transport_tx_complete hal (cfg_context (ep_config (s_endpoint app))) = (False, t)"
    using assms(3-5) by (simp add: frame_waits_def uds_can_transport_tx_complete_def)
  let ?t = "t\<lparr> hcan := Some h1, tx_mailbox_mask := m \<rparr>"
  let ?e = "with_driver (submitted (with_driver ?ep ?t)) ?t"
  have nf: "\<not> 8 < f_dlc f" using assms(3) by (simp add: frame_waits_def not_less)
  have p: "process_tx_pending ?ep = Some (ISOTP_TX_FRAME_READY, ?e)"
    using process_tx_pending_eq[of ?ep "uds_can_transport_send hal"] w(1) assms(3-6) nf
    by (simp add: over_can_def frame_waits_def uds_can_transport_send_def uds_can_transport_tx_complete_def Let_def)
  note same = tick_transmission[of ?e now]
  have "over_can hal ?e" using w(1) by (simp add: over_can_def)
  from same over_can_same[OF same this]
  have "over_can hal (snd (uds_isotp_endpoint_tick ?e now)) \<and> tx_in_flight (snd (uds_isotp_endpoint_tick ?e now)) \<and>
      \<not> tx_pending (snd (uds_isotp_endpoint_tick ?e now)) \<and> cfg_context (ep_config (snd (uds_isotp_endpoint_tick ?e now))) = ?t"
    by (simp add: same_transmission_def)
  moreover have "uds_app_process hal junk now app = Some (app\<lparr> s_endpoint := snd (uds_isotp_endpoint_tick ?e now) \<rparr>)"
    unfolding process_quiet[OF assms(1,2)] c by (simp add: process_waiting[OF w] p)
  ultimately show ?thesis by blast
qed

text \<open>Third call: the remembered error aborts the mailbox and resets the transmitter.\<close>

lemma aborted_then:
  assumes "uds_app_ok app" "queued app = 0" "over_can hal (s_endpoint app)" "tx_in_flight (s_endpoint app)" "\<not> tx_pending (s_endpoint app)"
    and "cfg_context (ep_config (s_endpoint app)) = t" "tx_error_occurred t" "hcan t = Some h" "tx_mailbox_mask t \<noteq> 0"
  shows "\<exists>ep. uds_app_process hal junk now app = Some (app\<lparr> s_endpoint := ep \<rparr>) \<and> \<not> tx_in_flight ep \<and> \<not> tx_pending ep \<and>
    isotp_tx_state (ep_tx ep) = ISOTP_TX_STATE_IDLE \<and> hcan (cfg_context (ep_config ep)) = Some (hal_abort_tx hal h (tx_mailbox_mask t))"
proof -
  let ?ep = "with_driver (s_endpoint app) t"
  have c: "uds_can_transport_tx_complete hal (cfg_context (ep_config (s_endpoint app))) = (False, t)"
    using assms by (simp add: uds_can_transport_tx_complete_def)
  let ?t = "t\<lparr> tx_error_occurred := False, hcan := Some (hal_abort_tx hal h (tx_mailbox_mask t)), tx_mailbox_mask := 0 \<rparr>"
  let ?e = "abort_in_flight (with_driver ?ep ?t)"
  have p: "uds_isotp_endpoint_process ?ep now = Some (ISOTP_ERR_STATE, ?e)"
    using assms by (simp add: uds_isotp_endpoint_process_def over_can_def driver_query_eq uds_can_transport_tx_error_def abort_mailboxes_def)
  note same = tick_transmission[of ?e now]
  have a: "isotp_tx_state (ep_tx ?e) = ISOTP_TX_STATE_IDLE" "\<not> tx_in_flight ?e" "tx_pending ?e = tx_pending (s_endpoint app)"
      "cfg_context (ep_config ?e) = ?t"
    using abort_fields[of "with_driver ?ep ?t"] assms(4) by simp_all
  let ?e' = "snd (uds_isotp_endpoint_tick ?e now)"
  have "\<not> tx_in_flight ?e'" "\<not> tx_pending ?e'" "isotp_tx_state (ep_tx ?e') = ISOTP_TX_STATE_IDLE"
      "hcan (cfg_context (ep_config ?e')) = Some (hal_abort_tx hal h (tx_mailbox_mask t))"
    using same a assms(5) tick_idle[OF a(1), of now] by (simp_all add: same_transmission_def)
  moreover have "uds_app_process hal junk now app = Some (app\<lparr> s_endpoint := ?e' \<rparr>)"
    unfolding process_quiet[OF assms(1,2)] c by (simp add: p)
  ultimately show ?thesis by blast
qed

lemma quiet_next:
  assumes "uds_app_ok app" "queued app = 0" "uds_app_process hal junk now app = Some (app\<lparr> s_endpoint := ep \<rparr>)"
  shows "uds_app_ok (app\<lparr> s_endpoint := ep \<rparr>)" "queued (app\<lparr> s_endpoint := ep \<rparr>) = 0"
  using main_step_keeps[OF assms(1), of "MainLoop junk now" hal] assms(2,3) by (auto simp: queued_def)


section \<open>A concrete peripheral\<close>

text \<open>It answers from a list of answers, then always accepts, and counts aborts.\<close>

definition demo_hal :: "(bool list \<times> nat) hal_can" where
  "demo_hal =
     \<lparr> hal_add_tx_message = (\<lambda>(answers, n) can_id dlc data. case answers of
           [] \<Rightarrow> (True, CAN_TX_MAILBOX0, ([], n)) | ok # rest \<Rightarrow> (ok, CAN_TX_MAILBOX0, (rest, n))),
       hal_is_tx_pending = (\<lambda>h mailboxes. False), hal_abort_tx = (\<lambda>(answers, n) mailboxes. (answers, n + 1)),
       hal_get_error = (\<lambda>h. 0), hal_bus_off = (\<lambda>h. False), hal_stop = (\<lambda>h. h), hal_start = (\<lambda>h. (True, h)),
       hal_get_tick = (\<lambda>h. 0) \<rparr>"

definition demo_transport :: "bool list \<Rightarrow> (bool list \<times> nat) UdsCanTransport" where
  "demo_transport answers = uds_can_transport_init (Some (answers, 0)) 0x7E0 0x7E8"

definition demo_memory :: "(bool list \<times> nat, bytes, unit) uds_app" where
  "demo_memory =
     \<lparr> s_rx_fifo = replicate 8 (can_frame 0 [0]), s_rx_head = 0, s_rx_tail = 0, s_rx_overflow_count = 0, s_rx_overflow_flag = False,
       s_endpoint =
         \<lparr> ep_config = uds_app_config demo_hal isotp_config_classic_can demo_callbacks (demo_transport []) [],
           ep_rx = rx_blank, ep_tx = isotp_tx_init tx_blank None 0x7E0 0x7E8, ep_uds = demo_server 1 demo_gate,
           ep_response = replicate UDS_MAX_RESPONSE_LENGTH 0, pending_frame = can_frame 0 [0], tx_pending = False,
           pending_control_frame = can_frame 0 [0], control_pending = False, pending_reset_completion = False,
           pending_frame_final = False, tx_in_flight = False, in_flight_final = False,
           in_flight_reset_completion = False, tx_reset_completion = False,
           queued_response = replicate UDS_MAX_RESPONSE_LENGTH 0, queued_response_length = 0,
           queued_response_pending = False, queued_reset_completion = False \<rparr>,
       s_transport_set = False, s_initialized = False \<rparr>"

lemma demo_memory_sizes:
  "length (s_rx_fifo demo_memory) = 8" "list_all wf_frame (s_rx_fifo demo_memory)"
  "length (rx_buffer (ep_rx (s_endpoint demo_memory))) = ISOTP_MAX_PAYLOAD"
  "length (tx_buffer (ep_tx (s_endpoint demo_memory))) = ISOTP_MAX_PAYLOAD"
  "length (ep_response (s_endpoint demo_memory)) = UDS_MAX_RESPONSE_LENGTH"
  "length (queued_response (s_endpoint demo_memory)) = UDS_MAX_RESPONSE_LENGTH"
  by (simp_all add: demo_memory_def list_all_length wf_can_frame rx_blank_def tx_blank_def isotp_rx_init_def isotp_tx_init_def
    isotp_tx_reset_def)


text \<open>A single frame waits in the endpoint, the first attempt is refused.\<close>

definition demo_waiting :: "(bool list \<times> nat, bytes, unit) uds_app" where
  "demo_waiting = demo_memory\<lparr> s_endpoint := (s_endpoint demo_memory)
     \<lparr> ep_config := (ep_config (s_endpoint demo_memory))\<lparr> cfg_context := demo_transport [False] \<rparr>,
       pending_frame := can_frame 0x7E8 [2, 0x7E, 0], tx_pending := True, pending_frame_final := True \<rparr>,
     s_transport_set := True, s_initialized := True \<rparr>"


end
