(* ===== verification/Uds_Download.thy ===== *)
theory Uds_Download
  imports Security_Gate Crc
begin

text \<open>
  The download engine (\<open>library/src/uds_download.c\<close>): erase, receive and verify an image in the
  staging region. The memory driver is a set of functions over the application context. For the
  properties the driver is wrapped by \<open>traced\<close>, which keeps a log of its calls.
\<close>

section \<open>State\<close>

definition UDS_DOWNLOAD_TIMEOUT_MS :: u32 where "UDS_DOWNLOAD_TIMEOUT_MS = 5000"
definition UDS_DOWNLOAD_MAX_CHUNK_LENGTH :: u16 where "UDS_DOWNLOAD_MAX_CHUNK_LENGTH = 256"
definition UDS_DOWNLOAD_METADATA_MAGIC :: u32 where "UDS_DOWNLOAD_METADATA_MAGIC = 0x55445349"

datatype UdsDownloadResult =
    UDS_DOWNLOAD_OK
  | UDS_DOWNLOAD_BUSY
  | UDS_DOWNLOAD_INVALID_ARGUMENT
  | UDS_DOWNLOAD_NOT_READY
  | UDS_DOWNLOAD_OUT_OF_RANGE
  | UDS_DOWNLOAD_ALIGNMENT_ERROR
  | UDS_DOWNLOAD_OVERFLOW
  | UDS_DOWNLOAD_SEQUENCE_ERROR
  | UDS_DOWNLOAD_PROGRAM_ERROR
  | UDS_DOWNLOAD_ERASE_ERROR
  | UDS_DOWNLOAD_VERIFY_ERROR
  | UDS_DOWNLOAD_TIMEOUT
  | UDS_DOWNLOAD_ABORTED

datatype UdsDownloadState =
    UDS_DOWNLOAD_IDLE
  | UDS_DOWNLOAD_ERASING
  | UDS_DOWNLOAD_RECEIVING
  | UDS_DOWNLOAD_VERIFYING
  | UDS_DOWNLOAD_COMPLETE
  | UDS_DOWNLOAD_ABORTED_STATE

record UdsDownloadRegion =
  reg_start :: u32
  end_exclusive :: u32

record UdsDownloadMemoryMap =
  staging_image :: UdsDownloadRegion
  bootloader :: UdsDownloadRegion
  active_application :: UdsDownloadRegion
  persistent_storage :: UdsDownloadRegion
  diagnostic_storage :: UdsDownloadRegion
  erase_alignment :: u32
  program_alignment :: u32
  max_block_length :: u16
  activation_supported :: bool

record UdsDownloadMetadata =
  md_magic :: u32
  image_address :: u32
  image_length :: u32
  received_length :: u32
  md_crc32 :: u32
  md_hash :: bytes
  crc_valid :: bool
  hash_valid :: bool
  activation_pending :: bool

record 'c UdsDownloadCallbacks =
  cb_erase_start :: "('c \<Rightarrow> u32 \<Rightarrow> u32 \<Rightarrow> UdsDownloadResult \<times> 'c) option"
  cb_erase_poll :: "('c \<Rightarrow> UdsDownloadResult \<times> 'c) option"
  cb_program :: "('c \<Rightarrow> u32 \<Rightarrow> bytes \<Rightarrow> UdsDownloadResult \<times> 'c) option"
  cb_verify_image :: "('c \<Rightarrow> UdsDownloadMetadata \<Rightarrow> u32 \<Rightarrow> bool \<Rightarrow> UdsDownloadResult \<times> 'c) option"
  cb_abort :: "('c \<Rightarrow> 'c) option"
  cb_watchdog_kick :: "('c \<Rightarrow> 'c) option"

record 'c UdsDownload =
  dl_memory :: UdsDownloadMemoryMap
  dl_callbacks :: "'c UdsDownloadCallbacks"
  dl_context :: 'c
  dl_state :: UdsDownloadState
  dl_metadata :: UdsDownloadMetadata
  expected_block :: u8
  deadline_ms :: u32
  dl_crc32 :: u32

section \<open>Operations\<close>

definition range_inside :: "UdsDownloadRegion \<Rightarrow> u32 \<Rightarrow> u32 \<Rightarrow> bool" where
  "range_inside region address len =
     (if len = 0 \<or> address < reg_start region \<or> end_exclusive region < reg_start region then False
      else len \<le> end_exclusive region - address)"

definition aligned :: "u32 \<Rightarrow> u32 \<Rightarrow> bool" where
  "aligned v alignment = (alignment \<noteq> 0 \<and> v mod alignment = 0)"

definition overlaps :: "UdsDownloadRegion \<Rightarrow> UdsDownloadRegion \<Rightarrow> bool" where
  "overlaps left right = (reg_start left < end_exclusive right \<and> reg_start right < end_exclusive left)"

definition no_region :: UdsDownloadRegion where
  "no_region = \<lparr> reg_start = 0, end_exclusive = 0 \<rparr>"

text \<open>The metadata of an initialised download; the hash is cleared and never written again.\<close>

definition no_metadata :: UdsDownloadMetadata where
  "no_metadata = \<lparr> md_magic = 0, image_address = 0, image_length = 0, received_length = 0, md_crc32 = 0,
     md_hash = replicate 32 0, crc_valid = False, hash_valid = False, activation_pending = False \<rparr>"

definition uds_download_init ::
  "UdsDownloadMemoryMap option \<Rightarrow> 'c UdsDownloadCallbacks option \<Rightarrow> 'c \<Rightarrow> 'c UdsDownload" where
  "uds_download_init mem cbs ctx =
     \<lparr> dl_memory = (case mem of Some m \<Rightarrow> m | None \<Rightarrow>
         \<lparr> staging_image = no_region, bootloader = no_region, active_application = no_region,
           persistent_storage = no_region, diagnostic_storage = no_region, erase_alignment = 0,
           program_alignment = 0, max_block_length = 0, activation_supported = False \<rparr>),
       dl_callbacks = (case cbs of Some c \<Rightarrow> c | None \<Rightarrow>
         \<lparr> cb_erase_start = None, cb_erase_poll = None, cb_program = None, cb_verify_image = None,
           cb_abort = None, cb_watchdog_kick = None \<rparr>),
       dl_context = ctx, dl_state = UDS_DOWNLOAD_IDLE, dl_metadata = no_metadata,
       expected_block = 1, deadline_ms = 0, dl_crc32 = 0xFFFFFFFF \<rparr>"

definition validate_download_region :: "UdsDownloadMemoryMap \<Rightarrow> u32 \<Rightarrow> u32 \<Rightarrow> bool" where
  "validate_download_region mem address len =
     (let image = \<lparr> reg_start = address, end_exclusive = address + len \<rparr> in
      if len = 0 \<or> end_exclusive image < address then False
      else if \<not> range_inside (staging_image mem) address len then False
      else \<not> overlaps image (bootloader mem) \<and> \<not> overlaps image (active_application mem) \<and>
           \<not> overlaps image (persistent_storage mem) \<and> \<not> overlaps image (diagnostic_storage mem))"

definition uds_download_begin ::
  "'c UdsDownload \<Rightarrow> u32 \<Rightarrow> u32 \<Rightarrow> u32 \<Rightarrow> UdsDownloadResult \<times> 'c UdsDownload" where
  "uds_download_begin d address len now =
     (case (cb_erase_start (dl_callbacks d), cb_erase_poll (dl_callbacks d), cb_program (dl_callbacks d),
            cb_verify_image (dl_callbacks d)) of
        (Some erase_start, Some _, Some _, Some _) \<Rightarrow>
          if \<not> validate_download_region (dl_memory d) address len then (UDS_DOWNLOAD_OUT_OF_RANGE, d)
          else if \<not> aligned address (erase_alignment (dl_memory d)) \<or>
                  \<not> aligned len (erase_alignment (dl_memory d)) \<or>
                  \<not> aligned address (program_alignment (dl_memory d))
          then (UDS_DOWNLOAD_ALIGNMENT_ERROR, d)
          else if max_block_length (dl_memory d) < 3 \<or>
                  max_block_length (dl_memory d) > UDS_DOWNLOAD_MAX_CHUNK_LENGTH
          then (UDS_DOWNLOAD_INVALID_ARGUMENT, d)
          else (case erase_start (dl_context d) address len of (result, ctx) \<Rightarrow>
            let d = d\<lparr> dl_context := ctx \<rparr> in
            if result \<noteq> UDS_DOWNLOAD_OK then (result, d)
            else (UDS_DOWNLOAD_OK,
              d\<lparr> dl_metadata := (dl_metadata d)\<lparr> md_magic := UDS_DOWNLOAD_METADATA_MAGIC,
                   image_address := address, image_length := len, received_length := 0,
                   md_crc32 := 0xFFFFFFFF, crc_valid := False, hash_valid := False,
                   activation_pending := False \<rparr>,
                 dl_crc32 := 0xFFFFFFFF, expected_block := 1,
                 deadline_ms := now + UDS_DOWNLOAD_TIMEOUT_MS, dl_state := UDS_DOWNLOAD_ERASING \<rparr>))
      | _ \<Rightarrow> (UDS_DOWNLOAD_INVALID_ARGUMENT, d))"

definition uds_download_abort :: "'c UdsDownload \<Rightarrow> 'c UdsDownload" where
  "uds_download_abort d =
     (let d = (case cb_abort (dl_callbacks d) of
                 Some abort_fn \<Rightarrow> d\<lparr> dl_context := abort_fn (dl_context d) \<rparr> | None \<Rightarrow> d) in
      d\<lparr> dl_state := UDS_DOWNLOAD_ABORTED_STATE,
         dl_metadata := (dl_metadata d)\<lparr> activation_pending := False \<rparr> \<rparr>)"

definition watchdog :: "'c UdsDownload \<Rightarrow> 'c UdsDownload" where
  "watchdog d = (case cb_watchdog_kick (dl_callbacks d) of
     Some kick \<Rightarrow> d\<lparr> dl_context := kick (dl_context d) \<rparr> | None \<Rightarrow> d)"

definition uds_download_poll_erase :: "'c UdsDownload \<Rightarrow> u32 \<Rightarrow> UdsDownloadResult \<times> 'c UdsDownload" where
  "uds_download_poll_erase d now =
     (case cb_erase_poll (dl_callbacks d) of
        None \<Rightarrow> (UDS_DOWNLOAD_NOT_READY, d)
      | Some poll \<Rightarrow>
          if dl_state d \<noteq> UDS_DOWNLOAD_ERASING then (UDS_DOWNLOAD_NOT_READY, d)
          else if time_expired now (deadline_ms d) then (UDS_DOWNLOAD_TIMEOUT, uds_download_abort d)
          else
            let d = watchdog d in
            case poll (dl_context d) of (result, ctx) \<Rightarrow>
              let d = d\<lparr> dl_context := ctx \<rparr> in
              (result, if result = UDS_DOWNLOAD_OK
                       then d\<lparr> dl_state := UDS_DOWNLOAD_RECEIVING,
                               deadline_ms := now + UDS_DOWNLOAD_TIMEOUT_MS \<rparr>
                       else d))"

text \<open>\<open>None\<close>: a remainder by a program alignment of zero.\<close>

definition uds_download_write ::
  "'c UdsDownload \<Rightarrow> u8 \<Rightarrow> bytes \<Rightarrow> u32 \<Rightarrow> (UdsDownloadResult \<times> 'c UdsDownload) option" where
  "uds_download_write d block data now =
     (let len :: u16 = of_nat (length data) in
      case cb_program (dl_callbacks d) of
        None \<Rightarrow> Some (UDS_DOWNLOAD_NOT_READY, d)
      | Some program \<Rightarrow>
          if len = 0 \<or> len > UDS_DOWNLOAD_MAX_CHUNK_LENGTH \<or> dl_state d \<noteq> UDS_DOWNLOAD_RECEIVING
          then Some (UDS_DOWNLOAD_NOT_READY, d)
          else if time_expired now (deadline_ms d) then Some (UDS_DOWNLOAD_TIMEOUT, uds_download_abort d)
          else if block \<noteq> expected_block d then Some (UDS_DOWNLOAD_SEQUENCE_ERROR, d)
          else if ucast len > image_length (dl_metadata d) - received_length (dl_metadata d)
          then Some (UDS_DOWNLOAD_OVERFLOW, d)
          else if program_alignment (dl_memory d) = 0 then None
          else if received_length (dl_metadata d) mod program_alignment (dl_memory d) \<noteq> 0 \<or>
                  (ucast len :: u32) mod program_alignment (dl_memory d) \<noteq> 0
          then Some (UDS_DOWNLOAD_ALIGNMENT_ERROR, d)
          else
            let address = image_address (dl_metadata d) + received_length (dl_metadata d) in
            case program (dl_context d) address data of (result, ctx) \<Rightarrow>
              let d = d\<lparr> dl_context := ctx \<rparr> in
              if result \<noteq> UDS_DOWNLOAD_OK then Some (UDS_DOWNLOAD_PROGRAM_ERROR, d)
              else
                let crc = crc32_update (dl_crc32 d) data;
                    d = d\<lparr> dl_metadata := (dl_metadata d)
                             \<lparr> received_length := received_length (dl_metadata d) + ucast len, md_crc32 := crc \<rparr>,
                           dl_crc32 := crc, expected_block := expected_block d + 1,
                           deadline_ms := now + UDS_DOWNLOAD_TIMEOUT_MS \<rparr> in
                Some (UDS_DOWNLOAD_OK, watchdog d))"

definition uds_download_finish ::
  "'c UdsDownload \<Rightarrow> u32 \<Rightarrow> bool \<Rightarrow> u32 \<Rightarrow> UdsDownloadResult \<times> 'c UdsDownload" where
  "uds_download_finish d expected_crc32 has_expected_crc32 now =
     (case cb_verify_image (dl_callbacks d) of
        None \<Rightarrow> (UDS_DOWNLOAD_NOT_READY, d)
      | Some verify \<Rightarrow>
          if dl_state d \<noteq> UDS_DOWNLOAD_RECEIVING \<or>
             received_length (dl_metadata d) \<noteq> image_length (dl_metadata d)
          then (UDS_DOWNLOAD_NOT_READY, d)
          else if time_expired now (deadline_ms d) then (UDS_DOWNLOAD_TIMEOUT, uds_download_abort d)
          else
            let valid = (\<not> has_expected_crc32 \<or> dl_crc32 d XOR 0xFFFFFFFF = expected_crc32);
                d = d\<lparr> dl_state := UDS_DOWNLOAD_VERIFYING,
                       dl_metadata := (dl_metadata d)\<lparr> crc_valid := valid \<rparr> \<rparr> in
            if \<not> valid then (UDS_DOWNLOAD_VERIFY_ERROR, uds_download_abort d)
            else case verify (dl_context d) (dl_metadata d) expected_crc32 has_expected_crc32 of (result, ctx) \<Rightarrow>
              let d = d\<lparr> dl_context := ctx \<rparr> in
              if result \<noteq> UDS_DOWNLOAD_OK then (result, uds_download_abort d)
              else (UDS_DOWNLOAD_OK,
                d\<lparr> dl_metadata := (dl_metadata d)
                     \<lparr> activation_pending := \<not> activation_supported (dl_memory d) \<rparr>,
                   dl_state := UDS_DOWNLOAD_COMPLETE \<rparr>))"

definition uds_download_tick :: "'c UdsDownload \<Rightarrow> u32 \<Rightarrow> UdsDownloadResult \<times> 'c UdsDownload" where
  "uds_download_tick d now =
     (if dl_state d = UDS_DOWNLOAD_IDLE \<or> dl_state d = UDS_DOWNLOAD_COMPLETE \<or>
         dl_state d = UDS_DOWNLOAD_ABORTED_STATE then (UDS_DOWNLOAD_OK, d)
      else if time_expired now (deadline_ms d) then (UDS_DOWNLOAD_TIMEOUT, uds_download_abort d)
      else (UDS_DOWNLOAD_OK, watchdog d))"

definition uds_download_state :: "'c UdsDownload \<Rightarrow> UdsDownloadState" where
  "uds_download_state d = dl_state d"

definition uds_download_metadata :: "'c UdsDownload \<Rightarrow> UdsDownloadMetadata" where
  "uds_download_metadata d = dl_metadata d"

definition uds_download_activation_pending :: "'c UdsDownload \<Rightarrow> bool" where
  "uds_download_activation_pending d = activation_pending (dl_metadata d)"

section \<open>Runs and the log of the driver\<close>

datatype dl_call =
    DlErase u32 u32 bool
  | DlProgram u32 bytes bool

text \<open>A driver that appends every erase and program call, with its success, to a log.\<close>

definition traced :: "'c UdsDownloadCallbacks \<Rightarrow> ('c \<times> dl_call list) UdsDownloadCallbacks" where
  "traced cbs =
     \<lparr> cb_erase_start = map_option (\<lambda>f (c, log) a n. case f c a n of (r, c') \<Rightarrow>
         (r, c', log @ [DlErase a n (r = UDS_DOWNLOAD_OK)])) (cb_erase_start cbs),
       cb_erase_poll = map_option (\<lambda>f (c, log). case f c of (r, c') \<Rightarrow> (r, c', log)) (cb_erase_poll cbs),
       cb_program = map_option (\<lambda>f (c, log) a data. case f c a data of (r, c') \<Rightarrow>
         (r, c', log @ [DlProgram a data (r = UDS_DOWNLOAD_OK)])) (cb_program cbs),
       cb_verify_image = map_option (\<lambda>f (c, log) m e h. case f c m e h of (r, c') \<Rightarrow> (r, c', log)) (cb_verify_image cbs),
       cb_abort = map_option (\<lambda>f (c, log). (f c, log)) (cb_abort cbs),
       cb_watchdog_kick = map_option (\<lambda>f (c, log). (f c, log)) (cb_watchdog_kick cbs) \<rparr>"

text \<open>
  The image the log amounts to: the region erased last and the bytes programmed since then, each
  call at the address after the bytes before it; a call elsewhere ends the image.
\<close>

fun image_step :: "u32 \<times> u32 \<times> bytes \<Rightarrow> dl_call \<Rightarrow> u32 \<times> u32 \<times> bytes" where
  "image_step (a, n, img) (DlErase a' n' ok) = (if ok then (a', n', []) else (a, n, img))"
| "image_step (a, n, img) (DlProgram a' data ok) =
     (if \<not> ok then (a, n, img)
      else if a' = a + of_nat (length img) then (a, n, img @ data) else (a', 0, []))"

definition image_of :: "dl_call list \<Rightarrow> u32 \<times> u32 \<times> bytes" where
  "image_of log = foldl image_step (0, 0, []) log"

text \<open>
  A call touches no byte of a protected region and, when \<open>staged\<close> asks for it, only bytes of the
  staging region.
\<close>

definition inside :: "UdsDownloadRegion \<Rightarrow> nat \<Rightarrow> bool" where
  "inside r x \<longleftrightarrow> unat (reg_start r) \<le> x \<and> x < unat (end_exclusive r)"

definition touches_only :: "UdsDownloadMemoryMap \<Rightarrow> bool \<Rightarrow> u32 \<Rightarrow> nat \<Rightarrow> bool" where
  "touches_only mem staged a n \<longleftrightarrow> (\<forall>i < n.
     \<not> inside (bootloader mem) (unat a + i) \<and> \<not> inside (active_application mem) (unat a + i) \<and>
     \<not> inside (persistent_storage mem) (unat a + i) \<and> \<not> inside (diagnostic_storage mem) (unat a + i) \<and>
     (staged \<longrightarrow> inside (staging_image mem) (unat a + i)))"

fun call_safe :: "UdsDownloadMemoryMap \<Rightarrow> bool \<Rightarrow> dl_call \<Rightarrow> bool" where
  "call_safe mem staged (DlErase a n ok) = touches_only mem staged a (unat n)"
| "call_safe mem staged (DlProgram a data ok) = touches_only mem staged a (length data)"

datatype dl_event =
    DlBegin u32 u32 u32
  | DlPoll u32
  | DlWrite u8 bytes u32
  | DlFinish u32 bool u32
  | DlTick u32
  | DlAbort

fun dl_step :: "'c UdsDownload \<Rightarrow> dl_event \<Rightarrow> 'c UdsDownload option" where
  "dl_step d (DlBegin address len now) = Some (snd (uds_download_begin d address len now))"
| "dl_step d (DlPoll now) = Some (snd (uds_download_poll_erase d now))"
| "dl_step d (DlWrite block data now) = map_option snd (uds_download_write d block data now)"
| "dl_step d (DlFinish crc has now) = Some (snd (uds_download_finish d crc has now))"
| "dl_step d (DlTick now) = Some (snd (uds_download_tick d now))"
| "dl_step d DlAbort = Some (uds_download_abort d)"

text \<open>
  Lengths are 16-bit; when \<open>staged\<close> asks for it, a download begins below the end of the staging
  region.
\<close>

fun dl_ok :: "UdsDownloadMemoryMap \<Rightarrow> bool \<Rightarrow> dl_event \<Rightarrow> bool" where
  "dl_ok mem staged (DlWrite block data now) \<longleftrightarrow> length data < 65536"
| "dl_ok mem staged (DlBegin address len now) \<longleftrightarrow>
     (staged \<longrightarrow> address < end_exclusive (staging_image mem))"
| "dl_ok mem staged _ \<longleftrightarrow> True"

definition transferring :: "UdsDownloadState \<Rightarrow> bool" where
  "transferring st \<longleftrightarrow> st \<in> {UDS_DOWNLOAD_ERASING, UDS_DOWNLOAD_RECEIVING, UDS_DOWNLOAD_VERIFYING, UDS_DOWNLOAD_COMPLETE}"

text \<open>The download \<open>d\<close> over the driver \<open>cbs\<close> and the memory map \<open>mem\<close>, in accord with its log.\<close>

definition image_inv ::
  "UdsDownloadMemoryMap \<Rightarrow> bool \<Rightarrow> UdsDownloadMetadata \<Rightarrow> u32 \<Rightarrow> u32 \<times> u32 \<times> bytes \<Rightarrow> bool" where
  "image_inv mem staged md crc = (\<lambda>(a, n, img).
     image_address md = a \<and> image_length md = n \<and> received_length md = of_nat (length img) \<and>
     length img \<le> unat n \<and> crc = crc32_update 0xFFFFFFFF img \<and> validate_download_region mem a n \<and>
     program_alignment mem \<noteq> 0 \<and> (staged \<longrightarrow> a < end_exclusive (staging_image mem)))"

definition dl_inv ::
  "UdsDownloadMemoryMap \<Rightarrow> bool \<Rightarrow> 'c UdsDownloadCallbacks \<Rightarrow> ('c \<times> dl_call list) UdsDownload \<Rightarrow> bool" where
  "dl_inv mem staged cbs d \<longleftrightarrow> dl_memory d = mem \<and> dl_callbacks d = traced cbs \<and>
     list_all (call_safe mem staged) (snd (dl_context d)) \<and>
     (transferring (dl_state d) \<longrightarrow>
        image_inv mem staged (dl_metadata d) (dl_crc32 d) (image_of (snd (dl_context d)))) \<and>
     (dl_state d = UDS_DOWNLOAD_COMPLETE \<longrightarrow>
        received_length (dl_metadata d) = image_length (dl_metadata d))"

lemma region_safe:
  assumes "validate_download_region mem a n" "k + m \<le> unat n"
    and "staged \<Longrightarrow> a < end_exclusive (staging_image mem)"
  shows "touches_only mem staged (a + of_nat k) m"
proof -
  have v: "n \<noteq> 0" "a \<le> a + n" "reg_start (staging_image mem) \<le> a"
    "n \<le> end_exclusive (staging_image mem) - a"
    using assms(1) by (auto simp: validate_download_region_def Let_def range_inside_def not_less split: if_splits)
  have sum: "unat (a + n) = unat a + unat n"
    using v(2) by (simp add: unat_plus_simple)
  have addr: "unat (a + of_nat k) = unat a + k"
  proof -
    have "unat a + unat n < 4294967296" using unat_u32_lt[of "a + n"] sum by simp
    then show ?thesis using assms(2) by (simp add: unat_add_32 unat_of_nat_32)
  qed
  have apart: "\<not> inside r (unat a + k + i)"
    if "\<not> overlaps \<lparr> reg_start = a, end_exclusive = a + n \<rparr> r" "i < m" for r i
    using that assms(2) sum by (auto simp: overlaps_def inside_def word_less_nat_alt)
  have stage: "inside (staging_image mem) (unat a + k + i)" if "staged" "i < m" for i
  proof -
    have "unat (end_exclusive (staging_image mem) - a) = unat (end_exclusive (staging_image mem)) - unat a"
      using assms(3)[OF that(1)] by (simp add: unat_sub_32)
    then show ?thesis
      using v(3,4) that(2) assms(2) by (auto simp: inside_def word_le_nat_alt)
  qed
  show ?thesis
    using assms(1) apart stage
    by (auto simp: touches_only_def addr validate_download_region_def Let_def split: if_splits)
qed

lemma traced_sel [simp]:
  "cb_abort (traced cbs) = map_option (\<lambda>f (c, log). (f c, log)) (cb_abort cbs)"
  "cb_watchdog_kick (traced cbs) = map_option (\<lambda>f (c, log). (f c, log)) (cb_watchdog_kick cbs)"
  by (simp_all add: traced_def)

lemma dl_inv_abort: "dl_inv mem staged cbs d \<Longrightarrow> dl_inv mem staged cbs (uds_download_abort d)"
  by (cases "dl_context d")
    (auto simp: dl_inv_def uds_download_abort_def Let_def transferring_def split: option.splits)

lemma watchdog_fields:
  assumes "dl_callbacks d = traced cbs"
  shows "snd (dl_context (watchdog d)) = snd (dl_context d)" "dl_memory (watchdog d) = dl_memory d"
    "dl_callbacks (watchdog d) = dl_callbacks d" "dl_state (watchdog d) = dl_state d"
    "dl_metadata (watchdog d) = dl_metadata d" "dl_crc32 (watchdog d) = dl_crc32 d"
  using assms by (cases "dl_context d"; auto simp: watchdog_def split: option.splits)+

lemma dl_inv_watchdog: "dl_inv mem staged cbs d \<Longrightarrow> dl_inv mem staged cbs (watchdog d)"
  by (simp add: dl_inv_def watchdog_fields)

lemma dl_inv_tick: "dl_inv mem staged cbs d \<Longrightarrow> dl_inv mem staged cbs (snd (uds_download_tick d now))"
  by (simp add: uds_download_tick_def dl_inv_abort dl_inv_watchdog)

lemma image_of_snoc: "image_of (log @ [c]) = image_step (image_of log) c"
  by (simp add: image_of_def)

lemma dl_inv_poll:
  assumes "dl_inv mem staged cbs d"
  shows "dl_inv mem staged cbs (snd (uds_download_poll_erase d now))"
proof (cases "cb_erase_poll cbs")
  case None
  with assms show ?thesis by (auto simp: dl_inv_def uds_download_poll_erase_def traced_def)
next
  case (Some f)
  have cb: "cb_erase_poll (dl_callbacks d) = Some (\<lambda>(c, log). case f c of (r, c') \<Rightarrow> (r, c', log))"
    using assms Some by (simp add: dl_inv_def traced_def)
  define w where "w = watchdog d"
  obtain c log where ctx: "dl_context w = (c, log)" by fastforce
  obtain r c' where out: "f c = (r, c')" by fastforce
  have w: "dl_inv mem staged cbs w" using dl_inv_watchdog[OF assms] by (simp add: w_def)
  have st: "dl_state w = dl_state d" using assms by (simp add: w_def dl_inv_def watchdog_fields)
  have eq: "snd (uds_download_poll_erase d now) =
     (if dl_state d \<noteq> UDS_DOWNLOAD_ERASING then d
      else if time_expired now (deadline_ms d) then uds_download_abort d
      else if r = UDS_DOWNLOAD_OK
      then w\<lparr> dl_context := (c', log), dl_state := UDS_DOWNLOAD_RECEIVING, deadline_ms := now + UDS_DOWNLOAD_TIMEOUT_MS \<rparr>
      else w\<lparr> dl_context := (c', log) \<rparr>)"
    by (simp add: uds_download_poll_erase_def cb Let_def w_def[symmetric] ctx out)
  have "dl_inv mem staged cbs (w\<lparr> dl_context := (c', log) \<rparr>)" using w ctx by (simp add: dl_inv_def)
  moreover have "dl_state d = UDS_DOWNLOAD_ERASING \<Longrightarrow> dl_inv mem staged cbs
      (w\<lparr> dl_context := (c', log), dl_state := UDS_DOWNLOAD_RECEIVING, deadline_ms := now + UDS_DOWNLOAD_TIMEOUT_MS \<rparr>)"
    using w ctx st by (simp add: dl_inv_def transferring_def)
  ultimately show ?thesis using eq assms dl_inv_abort[OF assms] by simp
qed

lemma dl_inv_begin:
  assumes "dl_inv mem staged cbs d" "staged \<Longrightarrow> address < end_exclusive (staging_image mem)"
  shows "dl_inv mem staged cbs (snd (uds_download_begin d address len now))"
proof (cases "(\<exists>f g h k. cb_erase_start cbs = Some f \<and> cb_erase_poll cbs = Some g \<and> cb_program cbs = Some h \<and>
    cb_verify_image cbs = Some k) \<and> validate_download_region mem address len \<and>
    aligned address (program_alignment mem)")
  case False
  have m: "dl_memory d = mem" "dl_callbacks d = traced cbs" using assms(1) by (simp_all add: dl_inv_def)
  have "snd (uds_download_begin d address len now) = d"
    using False by (auto simp: uds_download_begin_def traced_def m split: option.splits)
  with assms(1) show ?thesis by simp
next
  case True
  then obtain f g h k where cb: "cb_erase_start cbs = Some f" "cb_erase_poll cbs = Some g"
    "cb_program cbs = Some h" "cb_verify_image cbs = Some k"
    and val: "validate_download_region mem address len" and al: "aligned address (program_alignment mem)"
    by blast
  have safe: "touches_only mem staged address (unat len)"
    using region_safe[of mem address len 0 "unat len" staged] val assms(2) by simp
  have pa: "program_alignment mem \<noteq> 0" using al by (simp add: aligned_def)
  obtain c log where ctx: "dl_context d = (c, log)" by fastforce
  obtain r c' where out: "f c address len = (r, c')" by fastforce
  have inv: "dl_memory d = mem" "dl_callbacks d = traced cbs" "list_all (call_safe mem staged) log"
    using assms(1) ctx by (simp_all add: dl_inv_def)
  define log' where "log' = log @ [DlErase address len (r = UDS_DOWNLOAD_OK)]"
  define md where "md = (dl_metadata d)\<lparr> md_magic := UDS_DOWNLOAD_METADATA_MAGIC,
     image_address := address, image_length := len, received_length := 0,
     md_crc32 := 0xFFFFFFFF, crc_valid := False, hash_valid := False, activation_pending := False \<rparr>"
  have l: "list_all (call_safe mem staged) log'" using inv safe by (simp add: log'_def)
  have fail: "r \<noteq> UDS_DOWNLOAD_OK \<Longrightarrow> dl_inv mem staged cbs (d\<lparr> dl_context := (c', log') \<rparr>)"
    using assms(1) ctx l by (cases "image_of log") (auto simp: dl_inv_def log'_def image_of_snoc)
  have succ: "r = UDS_DOWNLOAD_OK \<Longrightarrow> dl_inv mem staged cbs
    (d\<lparr> dl_context := (c', log'), dl_metadata := md, dl_crc32 := 0xFFFFFFFF, expected_block := 1,
        deadline_ms := now + UDS_DOWNLOAD_TIMEOUT_MS, dl_state := UDS_DOWNLOAD_ERASING \<rparr>)"
    using inv l val pa assms(2)
    by (cases "image_of log") (simp add: dl_inv_def log'_def image_of_snoc md_def image_inv_def)
  show ?thesis
    using fail succ assms(1)
    by (simp add: uds_download_begin_def inv(1,2) traced_def cb ctx out Let_def log'_def[symmetric]
        md_def[symmetric])
qed

lemma dl_inv_write:
  assumes "dl_inv mem staged cbs d" "length data < 65536"
  shows "wp (uds_download_write d block data now) (\<lambda>(result, d'). dl_inv mem staged cbs d')"
proof -
  have m: "dl_memory d = mem" "dl_callbacks d = traced cbs" using assms(1) by (simp_all add: dl_inv_def)
  define len :: u16 where "len = of_nat (length data)"
  have len: "unat len = length data" using assms(2) by (simp add: len_def unat_of_nat_16)
  show ?thesis
  proof (cases "cb_program cbs = None \<or> len = 0 \<or> len > UDS_DOWNLOAD_MAX_CHUNK_LENGTH \<or>
      dl_state d \<noteq> UDS_DOWNLOAD_RECEIVING \<or> time_expired now (deadline_ms d) \<or> block \<noteq> expected_block d \<or>
      ucast len > image_length (dl_metadata d) - received_length (dl_metadata d)")
    case True
    then show ?thesis
      using assms(1) dl_inv_abort[OF assms(1)] m
      by (cases "cb_program cbs") (auto simp: uds_download_write_def Let_def len_def[symmetric] traced_def wp_simps)
  next
    case False
    then obtain h where h: "cb_program cbs = Some h" by auto
    obtain c log where ctx: "dl_context d = (c, log)" by fastforce
    obtain a n img where img: "image_of log = (a, n, img)" by (metis prod.exhaust)
    have st: "dl_state d = UDS_DOWNLOAD_RECEIVING" using False by simp
    then have ii: "image_address (dl_metadata d) = a" "image_length (dl_metadata d) = n"
      "received_length (dl_metadata d) = of_nat (length img)" "length img \<le> unat n"
      "dl_crc32 d = crc32_update 0xFFFFFFFF img" "validate_download_region mem a n"
      "program_alignment mem \<noteq> 0" "staged \<Longrightarrow> a < end_exclusive (staging_image mem)"
      using assms(1) ctx img by (simp_all add: dl_inv_def transferring_def image_inv_def)
    have rl: "unat (of_nat (length img) :: u32) = length img"
      using ii(4) unat_u32_lt[of n] by (intro unat_of_nat_32) linarith
    have fit: "length img + length data \<le> unat n"
    proof -
      have "of_nat (length img) \<le> n" using ii(4) rl by (simp add: word_le_nat_alt)
      then have "unat (n - of_nat (length img)) = unat n - length img" by (simp add: unat_sub_32 rl)
      moreover have "length data \<le> unat (n - of_nat (length img))"
        using False ii(2,3) len by (simp add: word_le_nat_alt not_less)
      ultimately show ?thesis using ii(4) by linarith
    qed
    have safe: "touches_only mem staged (a + of_nat (length img)) (length data)"
      using region_safe[OF ii(6) fit] ii(8) by simp
    define log' where "log' r = log @ [DlProgram (a + of_nat (length img)) data (r = UDS_DOWNLOAD_OK)]" for r
    have l: "list_all (call_safe mem staged) (log' r)" for r
      using assms(1) ctx safe by (simp add: dl_inv_def log'_def)
    obtain r c' where out: "h c (a + of_nat (length img)) data = (r, c')" by fastforce
    define md where "md = (dl_metadata d)\<lparr> received_length := of_nat (length img) + ucast len,
      md_crc32 := crc32_update (dl_crc32 d) data \<rparr>"
    define d1 where "d1 = d\<lparr> dl_context := (c', log' r), dl_metadata := md,
      dl_crc32 := crc32_update (dl_crc32 d) data, expected_block := expected_block d + 1,
      deadline_ms := now + UDS_DOWNLOAD_TIMEOUT_MS \<rparr>"
    have fail: "r \<noteq> UDS_DOWNLOAD_OK \<Longrightarrow> dl_inv mem staged cbs (d\<lparr> dl_context := (c', log' r) \<rparr>)"
      using assms(1) ctx l[of r] img by (auto simp: dl_inv_def log'_def image_of_snoc)
    have "ucast len = (of_nat (length data) :: u32)"
      using assms(2) len by (simp add: word_unat_eq_iff unat_of_nat_32)
    then have "(of_nat (length img) + ucast len :: u32) = of_nat (length (img @ data))"
      by simp
    then have succ: "r = UDS_DOWNLOAD_OK \<Longrightarrow> dl_inv mem staged cbs d1"
      using m l[of r] img ii fit st
      by (simp add: dl_inv_def d1_def log'_def image_of_snoc image_inv_def md_def crc32.upd_append transferring_def)
    have d1c: "dl_callbacks d1 = traced cbs" using m by (simp add: d1_def)
    have "uds_download_write d block data now \<in> {Some (UDS_DOWNLOAD_ALIGNMENT_ERROR, d),
        Some (if r \<noteq> UDS_DOWNLOAD_OK then (UDS_DOWNLOAD_PROGRAM_ERROR, d\<lparr> dl_context := (c', log' r) \<rparr>)
              else (UDS_DOWNLOAD_OK, watchdog d1))}"
      using False h ctx ii m out
      by (simp add: uds_download_write_def Let_def len_def[symmetric] traced_def log'_def md_def d1_def)
    then show ?thesis
      using assms(1) fail dl_inv_watchdog[OF succ] by (auto simp: wp_simps)
  qed
qed

lemma dl_inv_finish:
  assumes "dl_inv mem staged cbs d"
  shows "dl_inv mem staged cbs (snd (uds_download_finish d crc has now))"
proof (cases "cb_verify_image cbs = None \<or> dl_state d \<noteq> UDS_DOWNLOAD_RECEIVING \<or>
    received_length (dl_metadata d) \<noteq> image_length (dl_metadata d) \<or> time_expired now (deadline_ms d)")
  case True
  have "dl_callbacks d = traced cbs" using assms by (simp add: dl_inv_def)
  with True show ?thesis
    using assms dl_inv_abort[OF assms]
    by (cases "cb_verify_image cbs") (auto simp: uds_download_finish_def traced_def)
next
  case False
  then obtain k where k: "cb_verify_image cbs = Some k" by auto
  have m: "dl_callbacks d = traced cbs" "dl_memory d = mem" using assms by (simp_all add: dl_inv_def)
  obtain c log where ctx: "dl_context d = (c, log)" by fastforce
  define v where "v = d\<lparr> dl_state := UDS_DOWNLOAD_VERIFYING, dl_metadata := (dl_metadata d)
    \<lparr> crc_valid := (\<not> has \<or> dl_crc32 d XOR 0xFFFFFFFF = crc) \<rparr> \<rparr>"
  obtain r c' where out: "k c (dl_metadata v) crc has = (r, c')" by fastforce
  have v: "dl_inv mem staged cbs v" "dl_inv mem staged cbs (v\<lparr> dl_context := (c', log) \<rparr>)"
    using assms False ctx by (auto simp: v_def dl_inv_def transferring_def image_inv_def)
  have complete: "dl_inv mem staged cbs (v\<lparr> dl_context := (c', log), dl_metadata := (dl_metadata v)
      \<lparr> activation_pending := \<not> activation_supported mem \<rparr>, dl_state := UDS_DOWNLOAD_COMPLETE \<rparr>)"
    using v(2) False by (auto simp: v_def dl_inv_def transferring_def image_inv_def)
  have "snd (uds_download_finish d crc has now) \<in> {uds_download_abort v, uds_download_abort (v\<lparr> dl_context := (c', log) \<rparr>),
      v\<lparr> dl_context := (c', log), dl_metadata := (dl_metadata v)
      \<lparr> activation_pending := \<not> activation_supported mem \<rparr>, dl_state := UDS_DOWNLOAD_COMPLETE \<rparr>}"
    using False m ctx out k
    by (cases "has \<and> dl_crc32 d XOR 0xFFFFFFFF \<noteq> crc") (auto simp: uds_download_finish_def Let_def traced_def v_def)
  then show ?thesis using dl_inv_abort[OF v(1)] dl_inv_abort[OF v(2)] complete by auto
qed

lemma dl_step_safe:
  assumes inv: "dl_inv mem staged cbs d" and ok: "dl_ok mem staged e"
  shows "\<exists>d'. dl_step d e = Some d' \<and> dl_inv mem staged cbs d'"
proof (cases e)
  case (DlBegin address len now)
  with inv ok show ?thesis by (simp add: dl_inv_begin)
next
  case (DlWrite block data now)
  then have "length data < 65536" using ok by simp
  from wpD[OF dl_inv_write[OF inv this, of block now]] obtain x where
    "uds_download_write d block data now = Some x" "dl_inv mem staged cbs (snd x)" by auto
  with DlWrite show ?thesis by simp
qed (use inv in \<open>simp_all add: dl_inv_poll dl_inv_finish dl_inv_tick dl_inv_abort\<close>)

interpretation dlm: machine dl_step "dl_ok mem staged" "dl_inv mem staged cbs"
  by unfold_locales (rule dl_step_safe)

lemma dl_inv_init: "dl_inv mem staged cbs (uds_download_init (Some mem) (Some (traced cbs)) (c, []))"
  by (simp add: dl_inv_def uds_download_init_def transferring_def)

section \<open>Properties\<close>

text \<open>A memory map and a driver for the witnesses.\<close>

definition demo_map :: UdsDownloadMemoryMap where
  "demo_map = \<lparr> staging_image = \<lparr> reg_start = 0x1000, end_exclusive = 0x2000 \<rparr>,
     bootloader = \<lparr> reg_start = 0, end_exclusive = 0x800 \<rparr>,
     active_application = \<lparr> reg_start = 0x800, end_exclusive = 0x1000 \<rparr>,
     persistent_storage = no_region, diagnostic_storage = no_region, erase_alignment = 4,
     program_alignment = 4, max_block_length = 64, activation_supported = False \<rparr>"

definition demo_driver :: "unit UdsDownloadCallbacks" where
  "demo_driver = \<lparr> cb_erase_start = Some (\<lambda>c a n. (UDS_DOWNLOAD_OK, c)),
     cb_erase_poll = Some (\<lambda>c. (UDS_DOWNLOAD_OK, c)), cb_program = Some (\<lambda>c a data. (UDS_DOWNLOAD_OK, c)),
     cb_verify_image = Some (\<lambda>c m e h. (UDS_DOWNLOAD_OK, c)), cb_abort = None, cb_watchdog_kick = None \<rparr>"

definition demo_events :: "dl_event list" where
  "demo_events = [DlBegin 0x1000 8 0, DlPoll 10, DlWrite 1 [1, 2, 3, 4] 20, DlWrite 2 [5, 6, 7, 8] 30]"

definition demo_dl :: "(unit \<times> dl_call list) UdsDownload" where
  "demo_dl = the (run dl_step (uds_download_init (Some demo_map) (Some (traced demo_driver)) ((), [])) demo_events)"

text \<open> C17.
  Region protection. Whatever the tester asks for and in whatever order, from initialisation on no
  call of the download engine runs into undefined behaviour, and no erase or program call it makes
  touches a byte of the bootloader, the active application, the persistent or the diagnostic
  storage. With \<open>staged\<close>, when every download begins below the end of the staging region, the
  calls touch nothing but the staging region.
\<close>

theorem download_protects_regions:
  assumes "list_all (dl_ok mem staged) es"
  shows "\<exists>d. run dl_step (uds_download_init (Some mem) (Some (traced cbs)) (c, [])) es = Some d \<and>
     list_all (call_safe mem staged) (snd (dl_context d))"
  using dlm.run_safe[OF dl_inv_init[of mem staged cbs c] assms] by (auto simp: dl_inv_def)

theorem download_protects_regions_witness:
  "\<exists>d. run dl_step (uds_download_init (Some demo_map) (Some (traced demo_driver)) ((), [])) demo_events = Some d \<and>
     list_all (call_safe demo_map True) (snd (dl_context d))"
  by (rule download_protects_regions) (simp add: demo_events_def demo_map_def)

text \<open> The range check, exactly. A begin address above the end of the staging region makes the
  subtraction in the check wrap, and the range is then accepted up to the top of the address
  space and beyond it by the length of the staging end; the other region checks alone protect
  the memory there.
\<close>

lemma range_inside_exact:
  "range_inside r address len \<longleftrightarrow>
     len \<noteq> 0 \<and> reg_start r \<le> address \<and> reg_start r \<le> end_exclusive r \<and>
     unat address + unat len \<le> unat (end_exclusive r) + (if end_exclusive r < address then 4294967296 else 0)"
proof (cases "address \<le> end_exclusive r")
  case True
  then show ?thesis
    using unat_sub_32[OF True] by (auto simp: range_inside_def word_le_nat_alt word_less_nat_alt)
next
  case False
  then have "unat (end_exclusive r - address) + unat address = 4294967296 + unat (end_exclusive r)"
    using unat_sub_if_size[of "end_exclusive r" address] le_add2[of "unat address" 4294967296]
      less_imp_le[OF unat_u32_lt[of address]]
    by (simp add: word_size word_le_nat_alt)
  then have "len \<le> end_exclusive r - address \<longleftrightarrow>
      unat address + unat len \<le> unat (end_exclusive r) + 4294967296"
    unfolding word_le_nat_alt by linarith
  then show ?thesis
    using False by (auto simp: range_inside_def)
qed

text \<open> C18.
  A verified image. When \<open>uds_download_finish\<close> accepts with an expected CRC after any sequence of
  calls, the driver has erased one range and then successfully programmed, from its start and
  without a gap, exactly as many bytes as announced; the metadata describe that range, and the
  bytes have the expected CRC as the boot loader computes it.
\<close>

theorem finish_certifies_image:
  assumes "list_all (dl_ok mem staged) es"
    and "run dl_step (uds_download_init (Some mem) (Some (traced cbs)) (c, [])) es = Some d"
    and "uds_download_finish d crc True now = (UDS_DOWNLOAD_OK, d')"
  shows "\<exists>img. image_of (snd (dl_context d')) = (image_address (dl_metadata d'), image_length (dl_metadata d'), img) \<and>
     length img = unat (image_length (dl_metadata d')) \<and> boot_calc_crc32 img = crc \<and>
     dl_state d' = UDS_DOWNLOAD_COMPLETE"
proof -
  have inv: "dl_inv mem staged cbs d" using dlm.run_inv[OF dl_inv_init assms(1,2)] .
  from dl_inv_finish[OF this, of crc True now] assms(3) have inv': "dl_inv mem staged cbs d'" by simp
  have done': "dl_state d' = UDS_DOWNLOAD_COMPLETE" "dl_crc32 d' XOR 0xFFFFFFFF = crc"
    using assms(3) by (auto simp: uds_download_finish_def Let_def split: option.splits if_splits prod.splits)
  obtain a n img where img: "image_of (snd (dl_context d')) = (a, n, img)" by (metis prod.exhaust)
  with inv' done' have md: "image_address (dl_metadata d') = a" "image_length (dl_metadata d') = n"
    "n = of_nat (length img)" "length img \<le> unat n" "dl_crc32 d' = crc32_update 0xFFFFFFFF img"
    "validate_download_region mem a n"
    by (auto simp: dl_inv_def transferring_def image_inv_def)
  have len: "length img = unat n"
    using md(3,4) unat_u32_lt[of n] by (metis unat_of_nat_32 le_less_trans)
  have "unat n \<noteq> 0" using md(6) by (auto simp: validate_download_region_def Let_def unat_eq_zero split: if_splits)
  then have "img \<noteq> []" using len by auto
  moreover have "x XOR 0xFFFFFFFF = NOT x" for x :: u32
  proof -
    have "(0xFFFFFFFF :: u32) = NOT 0" by simp
    then show ?thesis by (simp only: bit.xor_compl_right xor.right_neutral)
  qed
  ultimately have "boot_calc_crc32 img = crc" using done'(2) md(5) by (simp add: boot_calc_crc32_def)
  with img md(1,2) len done'(1) show ?thesis by simp
qed

lemma demo_dl_run:
  "run dl_step (uds_download_init (Some demo_map) (Some (traced demo_driver)) ((), [])) demo_events = Some demo_dl"
  using dlm.run_safe[OF dl_inv_init[of demo_map False demo_driver "()"], of demo_events]
  by (auto simp: demo_dl_def demo_events_def)

definition demo_finish :: "UdsDownloadResult \<times> (unit \<times> dl_call list) UdsDownload" where
  "demo_finish = uds_download_finish demo_dl 0x3FCA88C5 True 40"

lemma crc32_byte_unroll: "crc32_byte value b =
    crc32_bit (crc32_bit (crc32_bit (crc32_bit (crc32_bit (crc32_bit (crc32_bit (crc32_bit (value XOR ucast b))))))))"
  by (simp add: crc32_byte_def eval_nat_numeral)

lemma demo_crc: "crc32_update 0xFFFFFFFF [1, 2, 3, 4, 5, 6, 7, 8] = 0xC035773A"
  by (simp add: crc32_byte_unroll crc32_bit_def)

lemma demo_finish_ok:
  "fst demo_finish = UDS_DOWNLOAD_OK" "image_address (dl_metadata (snd demo_finish)) = 0x1000"
  "image_length (dl_metadata (snd demo_finish)) = 8"
  by (simp_all add: demo_finish_def demo_dl_def demo_events_def demo_map_def demo_driver_def traced_def
    uds_download_init_def uds_download_begin_def uds_download_poll_erase_def uds_download_write_def
    uds_download_finish_def watchdog_def Let_def validate_download_region_def range_inside_def overlaps_def
    aligned_def no_region_def no_metadata_def time_expired_def UDS_DOWNLOAD_TIMEOUT_MS_def
    UDS_DOWNLOAD_MAX_CHUNK_LENGTH_def demo_crc[simplified])

theorem finish_certifies_image_witness:
  "\<exists>img. image_of (snd (dl_context (snd demo_finish))) = (0x1000, 8, img) \<and>
     length img = 8 \<and> boot_calc_crc32 img = 0x3FCA88C5 \<and>
     dl_state (snd demo_finish) = UDS_DOWNLOAD_COMPLETE"
proof -
  have "uds_download_finish demo_dl 0x3FCA88C5 True 40 = (UDS_DOWNLOAD_OK, snd demo_finish)"
    using demo_finish_ok(1) by (cases demo_finish) (simp add: demo_finish_def)
  moreover have "list_all (dl_ok demo_map False) demo_events" by (simp add: demo_events_def)
  ultimately show ?thesis
    using finish_certifies_image[OF _ demo_dl_run, of False] demo_finish_ok(2,3) by fastforce
qed

end
