(* ===== verification/Sha256.thy ===== *)
theory Sha256
  imports Prelude
begin

text \<open>
  SHA-256 (\<open>library/crypto/sha256.c\<close>): the compression function, the buffered update, the padding
  and HMAC. The reference definition pads the whole message first and folds the compression over
  its 64-byte blocks.
\<close>

section \<open>State\<close>

record Sha256Ctx =
  sha_state :: "u32 list"
  sha_count :: u64
  sha_buffer :: bytes

section \<open>Compression\<close>

definition ROTRIGHT :: "u32 \<Rightarrow> nat \<Rightarrow> u32" where
  "ROTRIGHT a b = drop_bit b a OR push_bit (32 - b) a"
definition CH :: "u32 \<Rightarrow> u32 \<Rightarrow> u32 \<Rightarrow> u32" where
  "CH x y z = (x AND y) XOR (NOT x AND z)"
definition MAJ :: "u32 \<Rightarrow> u32 \<Rightarrow> u32 \<Rightarrow> u32" where
  "MAJ x y z = (x AND y) XOR (x AND z) XOR (y AND z)"
definition EP0 :: "u32 \<Rightarrow> u32" where "EP0 x = ROTRIGHT x 2 XOR ROTRIGHT x 13 XOR ROTRIGHT x 22"
definition EP1 :: "u32 \<Rightarrow> u32" where "EP1 x = ROTRIGHT x 6 XOR ROTRIGHT x 11 XOR ROTRIGHT x 25"
definition SIG0 :: "u32 \<Rightarrow> u32" where "SIG0 x = ROTRIGHT x 7 XOR ROTRIGHT x 18 XOR drop_bit 3 x"
definition SIG1 :: "u32 \<Rightarrow> u32" where "SIG1 x = ROTRIGHT x 17 XOR ROTRIGHT x 19 XOR drop_bit 10 x"

definition kSha256K :: "u32 list" where
  "kSha256K = [
    0x428A2F98, 0x71374491, 0xB5C0FBCF, 0xE9B5DBA5, 0x3956C25B, 0x59F111F1,
    0x923F82A4, 0xAB1C5ED5, 0xD807AA98, 0x12835B01, 0x243185BE, 0x550C7DC3,
    0x72BE5D74, 0x80DEB1FE, 0x9BDC06A7, 0xC19BF174, 0xE49B69C1, 0xEFBE4786,
    0x0FC19DC6, 0x240CA1CC, 0x2DE92C6F, 0x4A7484AA, 0x5CB0A9DC, 0x76F988DA,
    0x983E5152, 0xA831C66D, 0xB00327C8, 0xBF597FC7, 0xC6E00BF3, 0xD5A79147,
    0x06CA6351, 0x14292967, 0x27B70A85, 0x2E1B2138, 0x4D2C6DFC, 0x53380D13,
    0x650A7354, 0x766A0ABB, 0x81C2C92E, 0x92722C85, 0xA2BFE8A1, 0xA81A664B,
    0xC24B8B70, 0xC76C51A3, 0xD192E819, 0xD6990624, 0xF40E3585, 0x106AA070,
    0x19A4C116, 0x1E376C08, 0x2748774C, 0x34B0BCB5, 0x391C0CB3, 0x4ED8AA4A,
    0x5B9CCA4F, 0x682E6FF3, 0x748F82EE, 0x78A5636F, 0x84C87814, 0x8CC70208,
    0x90BEFFFA, 0xA4506CEB, 0xBEF9A3F7, 0xC67178F2]"

text \<open>The message schedule: sixteen big-endian words, then 48 derived ones.\<close>

definition block_word :: "bytes \<Rightarrow> nat \<Rightarrow> u32" where
  "block_word data i = push_bit 24 (ucast (data ! (i * 4))) OR push_bit 16 (ucast (data ! (i * 4 + 1))) OR
     push_bit 8 (ucast (data ! (i * 4 + 2))) OR ucast (data ! (i * 4 + 3))"

definition schedule_step :: "u32 list \<Rightarrow> nat \<Rightarrow> u32 list" where
  "schedule_step m i = m @ [SIG1 (m ! (i - 2)) + m ! (i - 7) + SIG0 (m ! (i - 15)) + m ! (i - 16)]"

definition message_schedule :: "bytes \<Rightarrow> u32 list" where
  "message_schedule data = foldl schedule_step (map (block_word data) [0..<16]) [16..<64]"

definition sha_round ::
  "u32 list \<Rightarrow> u32 \<times> u32 \<times> u32 \<times> u32 \<times> u32 \<times> u32 \<times> u32 \<times> u32 \<Rightarrow> nat \<Rightarrow>
     u32 \<times> u32 \<times> u32 \<times> u32 \<times> u32 \<times> u32 \<times> u32 \<times> u32" where
  "sha_round m = (\<lambda>(a, b, c, d, e, f, g, h) i.
     let t1 = h + EP1 e + CH e f g + kSha256K ! i + m ! i;
         t2 = EP0 a + MAJ a b c in
     (t1 + t2, a, b, c, d + t1, e, f, g))"

text \<open>The new state from the state and a block of 64 bytes.\<close>

definition sha256_transform :: "u32 list \<Rightarrow> bytes \<Rightarrow> u32 list" where
  "sha256_transform st data =
     (case foldl (sha_round (message_schedule data))
             (st ! 0, st ! 1, st ! 2, st ! 3, st ! 4, st ! 5, st ! 6, st ! 7) [0..<64] of
        (a, b, c, d, e, f, g, h) \<Rightarrow>
          [st ! 0 + a, st ! 1 + b, st ! 2 + c, st ! 3 + d, st ! 4 + e, st ! 5 + f, st ! 6 + g, st ! 7 + h])"

section \<open>Hashing\<close>

definition sha256_H0 :: "u32 list" where
  "sha256_H0 = [0x6a09e667, 0xbb67ae85, 0x3c6ef372, 0xa54ff53a, 0x510e527f, 0x9b05688c, 0x1f83d9ab, 0x5be0cd19]"

text \<open>The buffer keeps what the memory of the context held.\<close>

definition sha256_init :: "Sha256Ctx \<Rightarrow> Sha256Ctx" where
  "sha256_init ctx = ctx\<lparr> sha_state := sha256_H0, sha_count := 0 \<rparr>"

primrec sha256_update_loop :: "Sha256Ctx \<Rightarrow> nat \<Rightarrow> bytes \<Rightarrow> Sha256Ctx option" where
  "sha256_update_loop ctx idx [] = Some ctx"
| "sha256_update_loop ctx idx (b # bs) = do {
     buf \<leftarrow> poke (sha_buffer ctx) idx b;
     (if idx + 1 = 64
      then sha256_update_loop (ctx\<lparr> sha_buffer := buf, sha_state := sha256_transform (sha_state ctx) buf \<rparr>) 0 bs
      else sha256_update_loop (ctx\<lparr> sha_buffer := buf \<rparr>) (idx + 1) bs)
   }"

definition sha256_update :: "Sha256Ctx \<Rightarrow> bytes \<Rightarrow> Sha256Ctx option" where
  "sha256_update ctx data =
     (if data = [] then Some ctx
      else sha256_update_loop (ctx\<lparr> sha_count := sha_count ctx + of_nat (length data) \<rparr>)
             (unat (sha_count ctx AND 0x3F)) data)"

definition bit_length_bytes :: "u64 \<Rightarrow> bytes" where
  "bit_length_bytes total_bits = map (\<lambda>i. ucast (drop_bit (56 - i * 8) total_bits AND 0xFF)) [0..<8]"

definition state_bytes :: "u32 list \<Rightarrow> bytes" where
  "state_bytes st = concat (map (\<lambda>w. [ucast (drop_bit 24 w AND 0xFF), ucast (drop_bit 16 w AND 0xFF),
     ucast (drop_bit 8 w AND 0xFF), ucast (w AND 0xFF)]) st)"

definition sha256_final :: "Sha256Ctx \<Rightarrow> (bytes \<times> Sha256Ctx) option" where
  "sha256_final ctx = do {
     let total_bits = sha_count ctx * 8;
     let idx = unat (sha_count ctx AND 0x3F);
     buf \<leftarrow> poke (sha_buffer ctx) idx 0x80;
     let idx = idx + 1;
     (idx, ctx) \<leftarrow> (if idx > 56 then do {
         buf \<leftarrow> poke_list buf idx (replicate (64 - idx) 0);
         Some (0, ctx\<lparr> sha_buffer := buf, sha_state := sha256_transform (sha_state ctx) buf \<rparr>)
       } else Some (idx, ctx\<lparr> sha_buffer := buf \<rparr>));
     buf \<leftarrow> poke_list (sha_buffer ctx) idx (replicate (56 - idx) 0);
     buf \<leftarrow> poke_list buf 56 (bit_length_bytes total_bits);
     let ctx = ctx\<lparr> sha_buffer := buf, sha_state := sha256_transform (sha_state ctx) buf \<rparr>;
     Some (state_bytes (sha_state ctx), ctx)
   }"

text \<open>The context of a call is on the stack; \<open>junk\<close> is what its buffer holds.\<close>

definition sha256_hash :: "bytes \<Rightarrow> bytes \<Rightarrow> bytes option" where
  "sha256_hash junk data = do {
     ctx \<leftarrow> sha256_update (sha256_init \<lparr> sha_state = [], sha_count = 0, sha_buffer = junk \<rparr>) data;
     (digest, ctx) \<leftarrow> sha256_final ctx;
     Some digest
   }"

text \<open>The padded key: 64 bytes, the first of them combined with the key.\<close>

definition k_pad :: "u8 \<Rightarrow> bytes \<Rightarrow> bytes" where
  "k_pad c key = map (\<lambda>i. if i < length key then c XOR key ! i else c) [0..<64]"

definition hmac_sha256 :: "bytes \<Rightarrow> bytes \<Rightarrow> bytes \<Rightarrow> bytes \<Rightarrow> bytes option" where
  "hmac_sha256 junk_key junk key msg = do {
     key \<leftarrow> (if length key > 64 then sha256_hash junk_key key else Some key);
     let ctx = sha256_init \<lparr> sha_state = [], sha_count = 0, sha_buffer = junk \<rparr>;
     ctx \<leftarrow> sha256_update ctx (k_pad 0x36 key);
     ctx \<leftarrow> sha256_update ctx msg;
     (inner, ctx) \<leftarrow> sha256_final ctx;
     ctx \<leftarrow> sha256_update (sha256_init ctx) (k_pad 0x5c key);
     ctx \<leftarrow> sha256_update ctx inner;
     (out, ctx) \<leftarrow> sha256_final ctx;
     Some out
   }"

section \<open>Reference\<close>

text \<open>The padded message of the standard, and its blocks.\<close>

definition sha_padding :: "nat \<Rightarrow> bytes" where
  "sha_padding n = [0x80] @ replicate ((119 - n mod 64) mod 64) 0 @ bit_length_bytes (of_nat (8 * n))"

function blocks64 :: "bytes \<Rightarrow> bytes list" where
  "blocks64 xs = (if length xs < 64 then [] else take 64 xs # blocks64 (drop 64 xs))"
  by auto
termination by (relation "measure length") auto

declare blocks64.simps [simp del]

definition sha256_spec :: "bytes \<Rightarrow> bytes" where
  "sha256_spec data = state_bytes (foldl sha256_transform sha256_H0 (blocks64 (data @ sha_padding (length data))))"

text \<open>HMAC as RFC 2104 writes it: the key, or its hash when it is long, filled up with zeros.\<close>

definition hmac_spec :: "bytes \<Rightarrow> bytes \<Rightarrow> bytes" where
  "hmac_spec key msg =
     (let key = (if length key > 64 then sha256_spec key else key);
          filled = key @ replicate (64 - length key) 0 in
      sha256_spec (map ((XOR) 0x5c) filled @ sha256_spec (map ((XOR) 0x36) filled @ msg)))"

section \<open>Absorbing bytes\<close>

text \<open>Both sides absorb a message byte by byte into a chaining value and a pending block.\<close>

definition absorb :: "u32 list \<times> bytes \<Rightarrow> u8 \<Rightarrow> u32 list \<times> bytes" where
  "absorb = (\<lambda>(st, pend) b. if length pend = 63 then (sha256_transform st (pend @ [b]), []) else (st, pend @ [b]))"

lemma absorb_short: "length pend + length xs < 64 \<Longrightarrow> foldl absorb (st, pend) xs = (st, pend @ xs)"
  by (induction xs arbitrary: pend) (simp_all add: absorb_def)

lemma absorb_full:
  assumes "length pend + length xs = 64" "xs \<noteq> []"
  shows "foldl absorb (st, pend) xs = (sha256_transform st (pend @ xs), [])"
proof -
  obtain ys y where xs: "xs = ys @ [y]" using assms(2) by (metis rev_exhaust)
  then have "foldl absorb (st, pend) ys = (st, pend @ ys)"
    using assms(1) by (intro absorb_short) simp
  then show ?thesis using assms(1) by (simp add: xs absorb_def)
qed

lemma absorb_blocks:
  "64 dvd length xs \<Longrightarrow> foldl absorb (st, []) xs = (foldl sha256_transform st (blocks64 xs), [])"
proof (induction xs arbitrary: st rule: blocks64.induct)
  case (1 xs)
  show ?case
  proof (cases "length xs < 64")
    case True
    with 1(2) have "xs = []" by (auto dest: dvd_imp_le)
    then show ?thesis by (simp add: blocks64.simps)
  next
    case False
    then have "length ([] :: bytes) + length (take 64 xs) = 64" by simp
    moreover from this have "take 64 xs \<noteq> []" by (metis add_0 length_0_conv zero_neq_numeral)
    ultimately have "foldl absorb (st, []) (take 64 xs) = (sha256_transform st (take 64 xs), [])"
      by (metis absorb_full append_Nil)
    moreover have "64 dvd length (drop 64 xs)" using 1(2) False by (simp add: dvd_diff_nat)
    ultimately have "foldl absorb (sha256_transform st (take 64 xs), []) (drop 64 xs) =
        (foldl sha256_transform (sha256_transform st (take 64 xs)) (blocks64 (drop 64 xs)), [])"
      using 1(1)[OF False] by blast
    moreover have "foldl absorb (st, []) xs = foldl absorb (foldl absorb (st, []) (take 64 xs)) (drop 64 xs)"
      by (metis append_take_drop_id foldl_append)
    ultimately show ?thesis
      using \<open>foldl absorb (st, []) (take 64 xs) = _\<close> False by (simp add: blocks64.simps[of xs])
  qed
qed

definition ctx_rel :: "Sha256Ctx \<Rightarrow> u32 list \<times> bytes \<Rightarrow> bool" where
  "ctx_rel ctx = (\<lambda>(st, pend). sha_state ctx = st \<and> length (sha_buffer ctx) = 64 \<and> length pend < 64 \<and>
     take (length pend) (sha_buffer ctx) = pend)"

lemma take_upd_snoc: "i < length xs \<Longrightarrow> take (Suc i) (xs[i := v]) = take i xs @ [v]"
  by (simp add: take_Suc_conv_app_nth)

lemma update_loop_absorbs:
  "ctx_rel ctx (st, pend) \<Longrightarrow> \<exists>ctx'. sha256_update_loop ctx (length pend) bs = Some ctx' \<and>
     ctx_rel ctx' (foldl absorb (st, pend) bs) \<and> sha_count ctx' = sha_count ctx"
proof (induction bs arbitrary: ctx st pend)
  case (Cons b bs)
  let ?buf = "(sha_buffer ctx)[length pend := b]"
  have l: "length pend < 64" "length (sha_buffer ctx) = 64" "take (length pend) (sha_buffer ctx) = pend"
    using Cons.prems by (auto simp: ctx_rel_def)
  have t: "take (Suc (length pend)) ?buf = pend @ [b]" using l take_upd_snoc[of "length pend" "sha_buffer ctx" b] by simp
  show ?case
  proof (cases "length pend = 63")
    case True
    then have "?buf = pend @ [b]" using t l by simp
    moreover have "ctx_rel (ctx\<lparr> sha_buffer := ?buf, sha_state := sha256_transform st ?buf \<rparr>) (sha256_transform st ?buf, [])"
      using l by (simp add: ctx_rel_def)
    from Cons.IH[OF this] show ?thesis
      using True l Cons.prems \<open>?buf = pend @ [b]\<close> by (simp add: poke_def absorb_def ctx_rel_def)
  next
    case False
    then have "ctx_rel (ctx\<lparr> sha_buffer := ?buf \<rparr>) (st, pend @ [b])"
      using l t Cons.prems by (simp add: ctx_rel_def)
    from Cons.IH[OF this] show ?thesis using False l by (simp add: poke_def absorb_def)
  qed
qed simp

text \<open>The context has absorbed the message \<open>m\<close>.\<close>

definition absorbed :: "Sha256Ctx \<Rightarrow> bytes \<Rightarrow> bool" where
  "absorbed ctx m \<longleftrightarrow> ctx_rel ctx (foldl absorb (sha256_H0, []) m) \<and> sha_count ctx = of_nat (length m)"

lemma pending_length: "length (snd (foldl absorb (st, []) m)) = length m mod 64"
proof (induction m rule: rev_induct)
  case (snoc b m)
  obtain st' pend where "foldl absorb (st, []) m = (st', pend)" by fastforce
  with snoc show ?case by (auto simp: absorb_def mod_Suc)
qed simp

lemma count_index: "unat ((of_nat n :: u64) AND 0x3F) = n mod 64"
proof -
  have "(of_nat n :: u64) AND 0x3F = take_bit 6 (of_nat n)"
    by (simp add: take_bit_eq_mask mask_eq_exp_minus_1)
  then have "unat ((of_nat n :: u64) AND 0x3F) = take_bit 6 (take_bit 64 n)"
    by (simp add: unsigned_take_bit_eq unsigned_of_nat)
  also have "\<dots> = n mod 64" by (simp add: take_bit_eq_mod mod_mod_cancel)
  finally show ?thesis .
qed

lemma absorbed_init: "length (sha_buffer ctx) = 64 \<Longrightarrow> absorbed (sha256_init ctx) []"
  by (simp add: absorbed_def sha256_init_def ctx_rel_def)

lemma absorbed_update:
  assumes "absorbed ctx m"
  shows "\<exists>ctx'. sha256_update ctx data = Some ctx' \<and> absorbed ctx' (m @ data)"
proof (cases "data = []")
  case True
  with assms show ?thesis by (simp add: sha256_update_def)
next
  case False
  obtain st pend where f: "foldl absorb (sha256_H0, []) m = (st, pend)" by fastforce
  let ?ctx = "ctx\<lparr> sha_count := sha_count ctx + of_nat (length data) \<rparr>"
  have "ctx_rel ?ctx (st, pend)" using assms f by (simp add: absorbed_def ctx_rel_def)
  from update_loop_absorbs[OF this, of data] obtain ctx' where
    "sha256_update_loop ?ctx (length pend) data = Some ctx'" "ctx_rel ctx' (foldl absorb (st, pend) data)"
    "sha_count ctx' = sha_count ctx + of_nat (length data)" by auto
  moreover have "unat (sha_count ctx AND 0x3F) = length pend"
    using assms f pending_length[of sha256_H0 m] by (simp add: absorbed_def count_index)
  ultimately show ?thesis using False assms f by (simp add: sha256_update_def absorbed_def)
qed

lemma poke_list_tail:
  "i \<le> length xs \<Longrightarrow> length vs = length xs - i \<Longrightarrow> poke_list xs i vs = Some (take i xs @ vs)"
  by (simp add: poke_list_closed)

lemma length_bit_length_bytes [simp]: "length (bit_length_bytes n) = 8"
  by (simp add: bit_length_bytes_def)

lemma spec_absorb:
  "sha256_spec m = state_bytes (fst (foldl absorb (sha256_H0, []) (m @ sha_padding (length m))))"
proof -
  have "(length m + 9 + (119 - length m mod 64) mod 64) mod 64 = 0"
  proof -
    define r where "r = length m mod 64"
    have "r < 64" by (simp add: r_def)
    define y where "y = 119 - r"
    have "(length m + 9 + y mod 64) mod 64 = (length m + 9 + y) mod 64" by (simp add: mod_add_right_eq)
    also have "\<dots> = (r + (9 + y)) mod 64" by (simp add: r_def mod_add_left_eq add.assoc)
    also have "r + (9 + y) = 128" using \<open>r < 64\<close> by (simp add: y_def)
    finally show ?thesis by (simp add: y_def r_def)
  qed
  then have "64 dvd length (m @ sha_padding (length m))"
    by (simp add: sha_padding_def mod_eq_0_iff_dvd algebra_simps)
  then have "foldl absorb (sha256_H0, []) (m @ sha_padding (length m)) =
      (foldl sha256_transform sha256_H0 (blocks64 (m @ sha_padding (length m))), [])"
    by (rule absorb_blocks)
  then show ?thesis by (simp only: sha256_spec_def fst_conv)
qed

lemma absorbed_final:
  assumes "absorbed ctx m"
  shows "\<exists>ctx'. sha256_final ctx = Some (sha256_spec m, ctx') \<and> length (sha_buffer ctx') = 64"
proof -
  obtain st pend where f: "foldl absorb (sha256_H0, []) m = (st, pend)" by fastforce
  define p where "p = length pend"
  have p: "p = length m mod 64" using f pending_length[of sha256_H0 m] by (simp add: p_def)
  have lt: "p < 64" by (simp add: p)
  have rel: "sha_state ctx = st" "length (sha_buffer ctx) = 64" "take p (sha_buffer ctx) = pend"
    "sha_count ctx = of_nat (length m)"
    using assms f by (auto simp: absorbed_def ctx_rel_def p_def)
  define L where "L = bit_length_bytes (of_nat (8 * length m))"
  have L: "length L = 8" "bit_length_bytes (sha_count ctx * 8) = L"
    by (simp_all add: L_def rel(4) mult.commute)
  have idx: "unat (sha_count ctx AND 0x3F) = p" by (simp add: rel(4) count_index p)
  define buf where "buf = (sha_buffer ctx)[p := 0x80]"
  have buf: "poke (sha_buffer ctx) p 0x80 = Some buf" "length buf = 64" "take (Suc p) buf = pend @ [0x80]"
    using rel lt take_upd_snoc[of p "sha_buffer ctx" "0x80"] by (simp_all add: poke_def buf_def)
  have spec: "sha256_spec m = state_bytes (fst (foldl absorb (st, pend) (sha_padding (length m))))"
    by (simp add: spec_absorb f)
  have pad: "sha_padding (length m) = [0x80] @ replicate ((119 - p) mod 64) 0 @ L"
    unfolding sha_padding_def p L_def by (rule refl)
  show ?thesis
  proof (cases "p < 56")
    case True
    define blk where "blk = pend @ [0x80] @ replicate (55 - p) 0 @ L"
    have "(119 - p) mod 64 = 55 - p" using True by (simp add: mod_if)
    then have "foldl absorb (st, pend) (sha_padding (length m)) = (sha256_transform st blk, [])"
      using absorb_full[of pend "sha_padding (length m)" st] True L(1)
      by (simp add: pad blk_def flip: p_def)
    moreover define b1 where "b1 = take (Suc p) buf @ replicate (55 - p) 0 @ drop 56 buf"
    have b1: "length b1 = 64" "take 56 b1 = pend @ [0x80] @ replicate (55 - p) 0"
      using True buf(2,3) p_def by (simp_all add: b1_def take_Cons')
    have "poke_list buf (Suc p) (replicate (56 - Suc p) 0) = Some b1"
      using True buf(2) by (simp add: poke_list_closed b1_def)
    moreover have "poke_list b1 56 L = Some blk"
      using True buf L(1) b1 by (subst poke_list_tail) (auto simp: blk_def)
    moreover have "length blk = 64" using True L(1) p_def by (simp add: blk_def)
    ultimately show ?thesis
      using True buf rel(1) L(2) idx spec by (simp add: sha256_final_def Let_def)
  next
    case False
    define blk1 where "blk1 = pend @ [0x80] @ replicate (63 - p) 0"
    define blk2 where "blk2 = replicate 56 0 @ L"
    have "(119 - p) mod 64 = (63 - p) + 56" using False lt by (simp add: mod_if)
    then have "sha_padding (length m) = ([0x80] @ replicate (63 - p) 0) @ blk2"
      by (simp only: pad blk2_def replicate_add append_assoc)
    moreover have "foldl absorb (st, pend) ([0x80] @ replicate (63 - p) 0) = (sha256_transform st blk1, [])"
      using absorb_full[of pend "[0x80] @ replicate (63 - p) 0" st] lt by (simp add: blk1_def flip: p_def)
    moreover have "foldl absorb (sha256_transform st blk1, []) blk2 = (sha256_transform (sha256_transform st blk1) blk2, [])"
      using absorb_full[of "[]" blk2] L(1) by (simp add: blk2_def)
    ultimately have sp: "foldl absorb (st, pend) (sha_padding (length m)) =
        (sha256_transform (sha256_transform st blk1) blk2, [])"
      by simp
    have "poke_list buf (Suc p) (replicate (64 - Suc p) 0) = Some blk1"
      using buf lt by (subst poke_list_tail) (auto simp: blk1_def)
    moreover have l1: "length blk1 = 64" using lt p_def by (simp add: blk1_def)
    moreover have "poke_list blk1 0 (replicate 56 0) = Some (replicate 56 0 @ drop 56 blk1)"
      using l1 by (simp add: poke_list_closed)
    moreover have "poke_list (replicate 56 0 @ drop 56 blk1) 56 L = Some blk2"
      using l1 L(1) by (subst poke_list_tail) (auto simp: blk2_def)
    moreover have "length blk2 = 64" using L(1) by (simp add: blk2_def)
    ultimately show ?thesis
      using False buf rel(1) L(2) idx spec sp by (simp add: sha256_final_def Let_def)
  qed
qed

section \<open>Properties\<close>

lemma sha256_hash_spec:
  assumes "length junk = 64"
  shows "sha256_hash junk data = Some (sha256_spec data)"
proof -
  have "absorbed (sha256_init \<lparr> sha_state = [], sha_count = 0, sha_buffer = junk \<rparr>) []"
    using assms by (intro absorbed_init) simp
  from absorbed_update[OF this, of data] obtain ctx where
    "sha256_update (sha256_init \<lparr> sha_state = [], sha_count = 0, sha_buffer = junk \<rparr>) data = Some ctx" "absorbed ctx data"
    by auto
  with absorbed_final[of ctx data] show ?thesis by (auto simp: sha256_hash_def)
qed

lemma k_pad_filled:
  assumes "length key \<le> 64"
  shows "k_pad c key = map ((XOR) c) (key @ replicate (64 - length key) 0)"
  using assms by (intro nth_equalityI) (auto simp: k_pad_def nth_append)

lemma length_sha256_transform [simp]: "length (sha256_transform st data) = 8"
  by (simp add: sha256_transform_def split: prod.split)

lemma length_sha256_spec: "length (sha256_spec data) = 32"
proof -
  have "length (foldl sha256_transform st bs) = 8" if "length st = 8" for st bs
    using that by (induction bs arbitrary: st) auto
  moreover have "length sha256_H0 = 8" by (simp add: sha256_H0_def)
  moreover have "length (state_bytes st) = 4 * length st" for st by (induction st) (simp_all add: state_bytes_def)
  ultimately show ?thesis by (simp add: sha256_spec_def)
qed



end
