(* ===== verification/Boot_Verify.thy ===== *)
theory Boot_Verify
  imports Sha256 Crc Layout
begin

text \<open>
  Verification of firmware images (\<open>library/src/boot_verify.c\<close>): the header of an image, its own
  checksum, the three integrity policies and the digest a signature covers. The two static
  pointers of the file are the state \<open>boot_verify\<close>; the signature verifier is a function the
  application registers.
\<close>

section \<open>State\<close>

definition UDS_BL_METADATA_MAGIC :: u32 where "UDS_BL_METADATA_MAGIC = 0x5544534D"
definition UDS_BL_METADATA_FORMAT_VERSION :: u16 where "UDS_BL_METADATA_FORMAT_VERSION = 1"

record FirmwareMetadata_t =
  fm_magic :: u32
  fm_version :: u32
  fm_image_size :: u32
  fm_crc32 :: u32
  fm_sha256 :: bytes
  fm_signature :: bytes
  fm_status :: u8
  fm_boot_attempts :: u8
  fm_max_attempts :: u8
  fm_active_slot :: u8
  fm_format_version :: u16
  fm_flags :: u16
  fm_header_crc32 :: u32
  fm_reserved :: bytes

type_synonym BootSignatureVerifierFn = "bytes \<Rightarrow> bytes \<Rightarrow> bool"

text \<open>The three policies of the file, or one of the application; \<open>None\<close> is a null function pointer.\<close>

datatype boot_verify_fn =
    verify_crc32_impl
  | verify_sha256_impl
  | verify_signature_impl
  | application_verify "FirmwareMetadata_t \<Rightarrow> bytes \<Rightarrow> bool"

record BootIntegrityPolicy =
  policy_name :: string
  policy_verify :: "boot_verify_fn option"

record boot_verify =
  s_sig_verifier :: "BootSignatureVerifierFn option"
  s_active_policy :: "BootIntegrityPolicy option"

section \<open>Header checksum\<close>

definition put_u32_le :: "u32 \<Rightarrow> bytes" where
  "put_u32_le v = [ucast (v AND 0xFF), ucast (drop_bit 8 v AND 0xFF), ucast (drop_bit 16 v AND 0xFF),
     ucast (drop_bit 24 v AND 0xFF)]"

text \<open>The bytes of the packed structure before \<open>header_crc32\<close>, on a little-endian machine.\<close>

definition metadata_bytes :: "FirmwareMetadata_t \<Rightarrow> bytes" where
  "metadata_bytes hdr =
     put_u32_le (fm_magic hdr) @ put_u32_le (fm_version hdr) @ put_u32_le (fm_image_size hdr) @
     put_u32_le (fm_crc32 hdr) @ fm_sha256 hdr @ fm_signature hdr @
     [fm_status hdr, fm_boot_attempts hdr, fm_max_attempts hdr, fm_active_slot hdr] @
     le16_bytes (fm_format_version hdr) @ le16_bytes (fm_flags hdr)"

definition boot_calc_metadata_crc :: "FirmwareMetadata_t \<Rightarrow> u32" where
  "boot_calc_metadata_crc hdr = boot_calc_crc32 (metadata_bytes hdr)"

definition boot_finalize_metadata :: "FirmwareMetadata_t \<Rightarrow> FirmwareMetadata_t" where
  "boot_finalize_metadata hdr =
     (let hdr = hdr\<lparr> fm_format_version := UDS_BL_METADATA_FORMAT_VERSION \<rparr> in
      hdr\<lparr> fm_header_crc32 := boot_calc_metadata_crc hdr \<rparr>)"

definition boot_validate_metadata :: "FirmwareMetadata_t \<Rightarrow> bool" where
  "boot_validate_metadata hdr =
     (if fm_magic hdr \<noteq> UDS_BL_METADATA_MAGIC then False
      else if fm_format_version hdr \<noteq> UDS_BL_METADATA_FORMAT_VERSION then False
      else fm_header_crc32 hdr = boot_calc_metadata_crc hdr)"

section \<open>Policies\<close>

definition constant_time_equal :: "bytes \<Rightarrow> bytes \<Rightarrow> nat \<Rightarrow> bool" where
  "constant_time_equal a b len = (foldl (\<lambda>diff i. diff OR (a ! i XOR b ! i)) 0 [0..<len] = 0)"

definition manifest_tag :: bytes where
  "manifest_tag = [0x55, 0x44, 0x53, 0x2D, 0x4D, 0x41, 0x4E, 0x49, 0x46, 0x45, 0x53, 0x54, 0x2D, 0x56, 0x31, 0]"

definition manifest_bytes :: "FirmwareMetadata_t \<Rightarrow> bytes" where
  "manifest_bytes hdr =
     manifest_tag @ put_u32_le (fm_magic hdr) @ le16_bytes (fm_format_version hdr) @ le16_bytes (fm_flags hdr) @
     put_u32_le (fm_version hdr) @ put_u32_le (fm_image_size hdr) @ take 32 (fm_sha256 hdr)"

text \<open>\<open>junk\<close> is what the stack of the hash holds.\<close>

definition boot_manifest_digest :: "bytes \<Rightarrow> FirmwareMetadata_t \<Rightarrow> bytes option" where
  "boot_manifest_digest junk hdr = sha256_hash junk (manifest_bytes hdr)"

definition verify_crc32 :: "FirmwareMetadata_t \<Rightarrow> bytes \<Rightarrow> bool" where
  "verify_crc32 hdr img = (if img = [] then False else boot_calc_crc32 img = fm_crc32 hdr)"

definition verify_sha256 :: "bytes \<Rightarrow> FirmwareMetadata_t \<Rightarrow> bytes \<Rightarrow> bool option" where
  "verify_sha256 junk hdr img =
     (if img = [] then Some False
      else do {
        digest \<leftarrow> sha256_hash junk img;
        Some (constant_time_equal digest (fm_sha256 hdr) 32)
      })"

definition verify_signature :: "boot_verify \<Rightarrow> bytes \<Rightarrow> FirmwareMetadata_t \<Rightarrow> bytes \<Rightarrow> bool option" where
  "verify_signature bv junk hdr img =
     (if img = [] then Some False
      else do {
        good \<leftarrow> verify_sha256 junk hdr img;
        (if \<not> good then Some False
         else case s_sig_verifier bv of
           None \<Rightarrow> Some False
         | Some verifier \<Rightarrow> do {
             manifest \<leftarrow> boot_manifest_digest junk hdr;
             Some (verifier manifest (fm_signature hdr))
           })
      })"

definition boot_verify_policy_crc32 :: BootIntegrityPolicy where
  "boot_verify_policy_crc32 = \<lparr> policy_name = ''CRC32 (Accidental corruption detection only - no security)'',
     policy_verify = Some verify_crc32_impl \<rparr>"

definition boot_verify_policy_sha256 :: BootIntegrityPolicy where
  "boot_verify_policy_sha256 = \<lparr> policy_name = ''SHA-256 (Cryptographic integrity check)'',
     policy_verify = Some verify_sha256_impl \<rparr>"

definition boot_verify_policy_signature :: BootIntegrityPolicy where
  "boot_verify_policy_signature = \<lparr> policy_name = ''Cryptographic Signature (Authenticity and integrity)'',
     policy_verify = Some verify_signature_impl \<rparr>"

definition boot_verify_set_policy :: "boot_verify \<Rightarrow> BootIntegrityPolicy option \<Rightarrow> boot_verify" where
  "boot_verify_set_policy bv policy = bv\<lparr> s_active_policy := policy \<rparr>"

definition boot_verify_get_policy :: "boot_verify \<Rightarrow> BootIntegrityPolicy" where
  "boot_verify_get_policy bv = (case s_active_policy bv of Some p \<Rightarrow> p | None \<Rightarrow> boot_verify_policy_sha256)"

definition boot_verify_set_signature_verifier ::
  "boot_verify \<Rightarrow> BootSignatureVerifierFn option \<Rightarrow> boot_verify" where
  "boot_verify_set_signature_verifier bv verifier = bv\<lparr> s_sig_verifier := verifier \<rparr>"

definition boot_verify_image :: "boot_verify \<Rightarrow> bytes \<Rightarrow> FirmwareMetadata_t \<Rightarrow> bytes \<Rightarrow> bool option" where
  "boot_verify_image bv junk hdr img =
     (case policy_verify (boot_verify_get_policy bv) of
        None \<Rightarrow> Some False
      | Some verify_crc32_impl \<Rightarrow> Some (verify_crc32 hdr img)
      | Some verify_sha256_impl \<Rightarrow> verify_sha256 junk hdr img
      | Some verify_signature_impl \<Rightarrow> verify_signature bv junk hdr img
      | Some (application_verify f) \<Rightarrow> Some (f hdr img))"

section \<open>Facts\<close>

lemma image_digest_equal_iff:
  assumes "length xs = n" "length ys = n"
  shows "constant_time_equal xs ys n \<longleftrightarrow> xs = ys"
proof -
  have or: "a OR b = 0 \<longleftrightarrow> a = 0 \<and> b = 0" for a b :: u8
    by (auto simp: bit_eq_iff bit_simps)
  have "foldl (\<lambda>d i. d OR (xs ! i XOR ys ! i)) c [0..<m] = 0 \<longleftrightarrow> c = 0 \<and> (\<forall>i < m. xs ! i = ys ! i)" for c m
  proof (induction m)
    case (Suc m)
    have "xs ! m XOR ys ! m = 0 \<longleftrightarrow> xs ! m = ys ! m" by (auto simp: bit_eq_iff bit_simps)
    with Suc show ?case by (auto simp: or less_Suc_eq)
  qed simp
  then show ?thesis
    using assms by (auto simp: constant_time_equal_def list_eq_iff_nth_eq)
qed

lemma put_u32_le_bytes: "put_u32_le v = le32_bytes v"
proof -
  have m: "(0xFF :: u32) = mask 8" by (simp add: mask_eq_exp_minus_1)
  have "(ucast (x AND 0xFF) :: u8) = ucast x" for x :: u32
    by (intro bit_word_eqI) (simp add: m bit_simps)
  then show ?thesis by (simp add: put_u32_le_def le32_bytes_def)
qed

lemma manifest_inj:
  assumes "length (fm_sha256 h1) = 32" "length (fm_sha256 h2) = 32"
  shows "manifest_bytes h1 = manifest_bytes h2 \<longleftrightarrow>
     fm_magic h1 = fm_magic h2 \<and> fm_format_version h1 = fm_format_version h2 \<and> fm_flags h1 = fm_flags h2 \<and>
     fm_version h1 = fm_version h2 \<and> fm_image_size h1 = fm_image_size h2 \<and> fm_sha256 h1 = fm_sha256 h2"
  using assms by (auto simp: manifest_bytes_def put_u32_le_bytes le32_bytes_inj le16_bytes_inj)

lemma verify_sha256_iff:
  assumes "length junk = 64" "length (fm_sha256 hdr) = 32"
  shows "verify_sha256 junk hdr img = Some (img \<noteq> [] \<and> sha256_spec img = fm_sha256 hdr)"
  using assms by (simp add: verify_sha256_def sha256_hash_spec image_digest_equal_iff length_sha256_spec)

section \<open>Properties\<close>

text \<open> C39.
  The signature policy is sound. Under \<open>verify_signature_impl\<close> an image is accepted exactly when it
  is not empty, its SHA-256 is the one in the header, a verifier is registered, and the verifier
  accepts the signature for the hash of the manifest; the manifest determines magic, format,
  flags, version, size and image hash, so no header with another of these shares it.
\<close>

theorem signature_policy_sound:
  assumes "length junk = 64" "length (fm_sha256 hdr) = 32" "s_active_policy bv = Some boot_verify_policy_signature"
  shows "boot_verify_image bv junk hdr img =
       Some (img \<noteq> [] \<and> sha256_spec img = fm_sha256 hdr \<and>
         (\<exists>verifier. s_sig_verifier bv = Some verifier \<and> verifier (sha256_spec (manifest_bytes hdr)) (fm_signature hdr))) \<and>
     (\<forall>h. length (fm_sha256 h) = 32 \<and> manifest_bytes h = manifest_bytes hdr \<longrightarrow>
        fm_magic h = fm_magic hdr \<and> fm_format_version h = fm_format_version hdr \<and> fm_flags h = fm_flags hdr \<and>
        fm_version h = fm_version hdr \<and> fm_image_size h = fm_image_size hdr \<and> fm_sha256 h = fm_sha256 hdr)"
proof -
  have "boot_verify_image bv junk hdr img = verify_signature bv junk hdr img"
    using assms(3) by (simp add: boot_verify_image_def boot_verify_get_policy_def boot_verify_policy_signature_def)
  also have "\<dots> = Some (img \<noteq> [] \<and> sha256_spec img = fm_sha256 hdr \<and>
      (\<exists>verifier. s_sig_verifier bv = Some verifier \<and> verifier (sha256_spec (manifest_bytes hdr)) (fm_signature hdr)))"
    using assms(1,2)
    by (auto simp: verify_signature_def verify_sha256_iff boot_manifest_digest_def sha256_hash_spec split: option.splits)
  finally show ?thesis using manifest_inj[OF _ assms(2)] by auto
qed

definition demo_header :: FirmwareMetadata_t where
  "demo_header = \<lparr> fm_magic = UDS_BL_METADATA_MAGIC, fm_version = 7, fm_image_size = 3, fm_crc32 = 0,
     fm_sha256 = sha256_spec [1, 2, 3], fm_signature = replicate 64 0, fm_status = 0, fm_boot_attempts = 0,
     fm_max_attempts = 3, fm_active_slot = 0, fm_format_version = 1, fm_flags = 0, fm_header_crc32 = 0,
     fm_reserved = [0, 0, 0, 0] \<rparr>"

theorem signature_policy_sound_witness:
  "boot_verify_image \<lparr> s_sig_verifier = Some (\<lambda>d s. s = replicate 64 0), s_active_policy = Some boot_verify_policy_signature \<rparr>
     (replicate 64 0) demo_header [1, 2, 3] = Some True"
  using signature_policy_sound[of "replicate 64 0" demo_header
      "\<lparr> s_sig_verifier = Some (\<lambda>d s. s = replicate 64 0), s_active_policy = Some boot_verify_policy_signature \<rparr>" "[1, 2, 3]"]
  by (simp add: demo_header_def length_sha256_spec)

text \<open> The header checksum. A finalised header validates exactly when its magic is right; and a valid
  header in which one byte before the checksum is changed no longer validates.
\<close>

lemma header_corruption_detected:
  assumes "boot_validate_metadata h1" "fm_header_crc32 h2 = fm_header_crc32 h1"
    and "length (metadata_bytes h1) = length (metadata_bytes h2)" "i < length (metadata_bytes h1)"
    and "metadata_bytes h1 ! i \<noteq> metadata_bytes h2 ! i"
    and "\<And>j. j < length (metadata_bytes h1) \<Longrightarrow> j \<noteq> i \<Longrightarrow> metadata_bytes h1 ! j = metadata_bytes h2 ! j"
  shows "\<not> boot_validate_metadata h2 \<and>
     (\<forall>h. boot_validate_metadata (boot_finalize_metadata h) = (fm_magic h = UDS_BL_METADATA_MAGIC))"
proof -
  have ne: "metadata_bytes h1 \<noteq> []" "metadata_bytes h2 \<noteq> []" using assms(3,4) by auto
  have "metadata_bytes h1 = metadata_bytes h2"
    if "boot_calc_crc32 (metadata_bytes h1) = boot_calc_crc32 (metadata_bytes h2)"
    using that ne crc32.single_change[OF assms(3,4,6)] by (simp add: boot_calc_crc32_def)
  then have "boot_calc_crc32 (metadata_bytes h1) \<noteq> boot_calc_crc32 (metadata_bytes h2)" using assms(5) by auto
  moreover have "boot_validate_metadata (boot_finalize_metadata h) = (fm_magic h = UDS_BL_METADATA_MAGIC)" for h
    by (simp add: boot_validate_metadata_def boot_finalize_metadata_def Let_def boot_calc_metadata_crc_def metadata_bytes_def)
  ultimately show ?thesis
    using assms(1,2) by (auto simp: boot_validate_metadata_def boot_calc_metadata_crc_def split: if_splits)
qed

lemma header_corruption_detected_witness:
  "\<not> boot_validate_metadata ((boot_finalize_metadata demo_header)\<lparr> fm_boot_attempts := 1 \<rparr>)"
proof -
  let ?h = "boot_finalize_metadata demo_header"
  let ?g = "?h\<lparr> fm_boot_attempts := 1 \<rparr>"
  define xs where "xs = put_u32_le (fm_magic ?h) @ put_u32_le (fm_version ?h) @ put_u32_le (fm_image_size ?h) @
     put_u32_le (fm_crc32 ?h) @ fm_sha256 ?h @ fm_signature ?h @ [fm_status ?h]"
  define ys where "ys = [fm_max_attempts ?h, fm_active_slot ?h] @ le16_bytes (fm_format_version ?h) @ le16_bytes (fm_flags ?h)"
  have h: "metadata_bytes ?h = xs @ 0 # ys" and g: "metadata_bytes ?g = xs @ 1 # ys"
    by (simp_all add: metadata_bytes_def xs_def ys_def boot_finalize_metadata_def demo_header_def Let_def)
  have "boot_validate_metadata ?h"
    by (simp add: boot_validate_metadata_def boot_finalize_metadata_def Let_def boot_calc_metadata_crc_def metadata_bytes_def
      demo_header_def)
  moreover have "(xs @ 0 # ys) ! j = (xs @ 1 # ys) ! j" if "j \<noteq> length xs" for j
    using that by (auto simp: nth_append nth_Cons')
  ultimately show ?thesis
    using header_corruption_detected[of ?h ?g "length xs"] by (simp add: h g nth_append)
qed

end
