(* ===== verification/Bootloader.thy ===== *)
theory Bootloader
  imports Uds_Types Uds_Download Boot_Verify Boot_Floor
begin

text \<open>
  The application's A/B bootloader (\<open>App/Src/uds_bootloader.c\<close>): the download services over the two
  slots, the routines that erase, verify and check a candidate image, its activation, confirmation
  and rollback, and the gate in front of the jump into an application. Modelled is the build
  without the HAL flash driver and without \<open>UDS_ISO_TP_TESTING\<close>, in which the slots and the
  metadata storage are the arrays of the file.

  The static variables the memory driver reaches (\<open>s_bl_ctx\<close> and the slot arrays) are the context of
  the download engine \<open>s_bl_download\<close>; the other ones are the rest of \<open>boot_state\<close>.
\<close>

section \<open>State\<close>

datatype UdsBootloaderTarget = UDS_BL_TARGET_STM32F767 | UDS_BL_TARGET_STM32C092

datatype UdsBootloaderVerifyMode = UDS_BL_VERIFY_MODE_CRC32 | UDS_BL_VERIFY_MODE_SHA256_SECURE

text \<open>\<open>UdsBootloaderSlotStatus\<close>; the status in the metadata is a byte that is converted to it.\<close>

abbreviation (input) UDS_BL_SLOT_INVALID :: u8 where "UDS_BL_SLOT_INVALID \<equiv> 0"
abbreviation (input) UDS_BL_SLOT_CANDIDATE :: u8 where "UDS_BL_SLOT_CANDIDATE \<equiv> 1"
abbreviation (input) UDS_BL_SLOT_ACTIVE :: u8 where "UDS_BL_SLOT_ACTIVE \<equiv> 2"
abbreviation (input) UDS_BL_SLOT_CONFIRMED :: u8 where "UDS_BL_SLOT_CONFIRMED \<equiv> 3"
abbreviation (input) UDS_BL_SLOT_ROLLBACK :: u8 where "UDS_BL_SLOT_ROLLBACK \<equiv> 4"

record UdsBootloaderContext =
  bl_target :: UdsBootloaderTarget
  active_version :: u32
  active_slot_addr :: u32
  active_slot_size :: u32
  target_slot_addr :: u32
  target_slot_size :: u32
  download_in_progress :: bool
  candidate_verified :: bool
  last_erase_result :: u8
  last_check_memory_result :: u8
  last_check_dependencies_result :: u8
  verify_mode :: UdsBootloaderVerifyMode
  staging_metadata :: FirmwareMetadata_t

record boot_flash =
  s_bl_ctx :: UdsBootloaderContext
  s_mock_flash_slot_a :: bytes
  s_mock_flash_slot_b :: bytes
  s_mock_flash_slot_a_len :: u32
  s_mock_flash_slot_b_len :: u32

text \<open>\<open>floor_flash\<close> is the device behind the floor store, in a state of type \<open>'f\<close>.\<close>

record 'f boot_state =
  s_bl_memory_map :: UdsDownloadMemoryMap
  s_bl_download :: "boot_flash UdsDownload"
  s_floor_store :: "'f UdsBootFloor option"
  floor_flash :: 'f
  s_signature_verifier :: "BootSignatureVerifierFn option"
  s_signature_required :: bool
  s_mock_nvm_storage :: bytes
  s_mock_nvm_valid :: bool

definition UDS_BL_MOCK_FLASH_SIZE :: nat where "UDS_BL_MOCK_FLASH_SIZE = 4096"

abbreviation flash_of :: "'f boot_state \<Rightarrow> boot_flash" where
  "flash_of b \<equiv> dl_context (s_bl_download b)"

abbreviation bl :: "'f boot_state \<Rightarrow> UdsBootloaderContext" where
  "bl b \<equiv> s_bl_ctx (flash_of b)"

definition set_flash :: "boot_flash \<Rightarrow> 'f boot_state \<Rightarrow> 'f boot_state" where
  "set_flash fl b = b\<lparr> s_bl_download := (s_bl_download b)\<lparr> dl_context := fl \<rparr> \<rparr>"

definition set_bl :: "UdsBootloaderContext \<Rightarrow> 'f boot_state \<Rightarrow> 'f boot_state" where
  "set_bl ctx b = set_flash ((flash_of b)\<lparr> s_bl_ctx := ctx \<rparr>) b"

section \<open>The metadata structure as bytes\<close>

definition metadata_image :: "FirmwareMetadata_t \<Rightarrow> bytes" where
  "metadata_image m = metadata_bytes m @ put_u32_le (fm_header_crc32 m) @ fm_reserved m"

text \<open>A copy of the first 128 bytes into the packed structure.\<close>

definition metadata_of_bytes :: "bytes \<Rightarrow> FirmwareMetadata_t option" where
  "metadata_of_bytes bs =
     (if length bs < 128 then None
      else do {
        magic \<leftarrow> le32_at bs 0; version \<leftarrow> le32_at bs 4; image_size \<leftarrow> le32_at bs 8; crc \<leftarrow> le32_at bs 12;
        status \<leftarrow> peek bs 112; attempts \<leftarrow> peek bs 113; max_attempts \<leftarrow> peek bs 114; slot \<leftarrow> peek bs 115;
        format \<leftarrow> le16_at bs 116; flags \<leftarrow> le16_at bs 118; header_crc \<leftarrow> le32_at bs 120;
        Some \<lparr> fm_magic = magic, fm_version = version, fm_image_size = image_size, fm_crc32 = crc,
          fm_sha256 = take 32 (drop 16 bs), fm_signature = take 64 (drop 48 bs), fm_status = status,
          fm_boot_attempts = attempts, fm_max_attempts = max_attempts, fm_active_slot = slot,
          fm_format_version = format, fm_flags = flags, fm_header_crc32 = header_crc,
          fm_reserved = take 4 (drop 124 bs) \<rparr> })"

definition zero_metadata :: FirmwareMetadata_t where
  "zero_metadata = \<lparr> fm_magic = 0, fm_version = 0, fm_image_size = 0, fm_crc32 = 0, fm_sha256 = replicate 32 0,
     fm_signature = replicate 64 0, fm_status = 0, fm_boot_attempts = 0, fm_max_attempts = 0, fm_active_slot = 0,
     fm_format_version = 0, fm_flags = 0, fm_header_crc32 = 0, fm_reserved = replicate 4 0 \<rparr>"

section \<open>Slots and metadata storage\<close>

definition bootloader_calc_crc32 :: "bytes \<Rightarrow> u32" where
  "bootloader_calc_crc32 data = boot_calc_crc32 data"

text \<open>The bytes from the pointer to the end of the slot; their number is \<open>avail_len\<close>.\<close>

definition bootloader_get_slot_ptr :: "boot_flash \<Rightarrow> u32 \<Rightarrow> bytes option" where
  "bootloader_get_slot_ptr fl address =
     (let ctx = s_bl_ctx fl in
      if address \<ge> target_slot_addr ctx then
        let off = address - target_slot_addr ctx in
        if unat off < length (s_mock_flash_slot_b fl) then Some (drop (unat off) (s_mock_flash_slot_b fl)) else None
      else
        let off = (if address \<ge> active_slot_addr ctx then address - active_slot_addr ctx else 0) in
        if unat off < length (s_mock_flash_slot_a fl) then Some (drop (unat off) (s_mock_flash_slot_a fl)) else None)"

definition bootloader_nvm_save_metadata :: "FirmwareMetadata_t \<Rightarrow> 'f boot_state \<Rightarrow> 'f boot_state" where
  "bootloader_nvm_save_metadata meta b =
     (let copy = meta\<lparr> fm_format_version := UDS_BL_METADATA_FORMAT_VERSION \<rparr>;
          copy = copy\<lparr> fm_header_crc32 := boot_calc_metadata_crc copy \<rparr> in
      b\<lparr> s_mock_nvm_storage := metadata_image copy, s_mock_nvm_valid := True \<rparr>)"

text \<open>The metadata that was read, when it is valid.\<close>

definition bootloader_nvm_load_metadata :: "'f boot_state \<Rightarrow> FirmwareMetadata_t option option" where
  "bootloader_nvm_load_metadata b =
     (if \<not> s_mock_nvm_valid b then Some None
      else do {
        meta \<leftarrow> metadata_of_bytes (s_mock_nvm_storage b);
        Some (if boot_validate_metadata meta then Some meta else None) })"

definition bootloader_flash_erase_start :: "boot_flash \<Rightarrow> u32 \<Rightarrow> u32 \<Rightarrow> UdsDownloadResult \<times> boot_flash" where
  "bootloader_flash_erase_start fl address len =
     (UDS_DOWNLOAD_OK,
      if address \<ge> target_slot_addr (s_bl_ctx fl)
      then fl\<lparr> s_mock_flash_slot_b_len := 0, s_mock_flash_slot_b := replicate (length (s_mock_flash_slot_b fl)) 0xFF \<rparr>
      else fl\<lparr> s_mock_flash_slot_a_len := 0, s_mock_flash_slot_a := replicate (length (s_mock_flash_slot_a fl)) 0xFF \<rparr>)"

definition bootloader_flash_erase_poll :: "boot_flash \<Rightarrow> UdsDownloadResult \<times> boot_flash" where
  "bootloader_flash_erase_poll fl =
     (if last_erase_result (s_bl_ctx fl) = 0 then UDS_DOWNLOAD_OK else UDS_DOWNLOAD_ERASE_ERROR, fl)"

definition uds_bootloader_flash_erase_poll :: "'f boot_state \<Rightarrow> UdsDownloadResult" where
  "uds_bootloader_flash_erase_poll b = fst (bootloader_flash_erase_poll (flash_of b))"

text \<open>\<open>memcpy\<close> into an array.\<close>

definition put_bytes :: "bytes \<Rightarrow> nat \<Rightarrow> bytes \<Rightarrow> bytes" where
  "put_bytes buf off data = take off buf @ data @ drop (off + length data) buf"

definition mock_flash_program :: "boot_flash \<Rightarrow> u32 \<Rightarrow> bytes \<Rightarrow> boot_flash" where
  "mock_flash_program fl address data =
     (let len :: u16 = of_nat (length data); ctx = s_bl_ctx fl in
      if len = 0 then fl
      else if address \<ge> target_slot_addr ctx then
        let off = address - target_slot_addr ctx in
        if unat (off + ucast len) \<le> length (s_mock_flash_slot_b fl) then
          let fl = fl\<lparr> s_mock_flash_slot_b := put_bytes (s_mock_flash_slot_b fl) (unat off) data \<rparr> in
          if off + ucast len > s_mock_flash_slot_b_len fl then fl\<lparr> s_mock_flash_slot_b_len := off + ucast len \<rparr> else fl
        else fl
      else
        let off = (if address \<ge> active_slot_addr ctx then address - active_slot_addr ctx else 0) in
        if unat (off + ucast len) \<le> length (s_mock_flash_slot_a fl) then
          let fl = fl\<lparr> s_mock_flash_slot_a := put_bytes (s_mock_flash_slot_a fl) (unat off) data \<rparr> in
          if off + ucast len > s_mock_flash_slot_a_len fl then fl\<lparr> s_mock_flash_slot_a_len := off + ucast len \<rparr> else fl
        else fl)"

definition bootloader_flash_program :: "boot_flash \<Rightarrow> u32 \<Rightarrow> bytes \<Rightarrow> UdsDownloadResult \<times> boot_flash" where
  "bootloader_flash_program fl address data = (UDS_DOWNLOAD_OK, mock_flash_program fl address data)"

definition bootloader_flash_verify ::
  "boot_flash \<Rightarrow> UdsDownloadMetadata \<Rightarrow> u32 \<Rightarrow> bool \<Rightarrow> UdsDownloadResult \<times> boot_flash" where
  "bootloader_flash_verify fl md expected_crc32 has_expected_crc32 =
     (if image_length md = 0 then (UDS_DOWNLOAD_INVALID_ARGUMENT, fl)
      else
        let staged = image_address md \<ge> target_slot_addr (s_bl_ctx fl);
            mock_buf = (if staged then s_mock_flash_slot_b fl else s_mock_flash_slot_a fl);
            mock_len = (if staged then s_mock_flash_slot_b_len fl else s_mock_flash_slot_a_len fl) in
        if mock_len = 0 \<or> mock_len < image_length md then (UDS_DOWNLOAD_VERIFY_ERROR, fl)
        else
          let computed_flash_crc = bootloader_calc_crc32 (take (unat (image_length md)) mock_buf) in
          if has_expected_crc32 then
            (if computed_flash_crc \<noteq> expected_crc32 then UDS_DOWNLOAD_VERIFY_ERROR else UDS_DOWNLOAD_OK, fl)
          else
            (if md_crc32 md \<noteq> 0xFFFFFFFF \<and> computed_flash_crc \<noteq> md_crc32 md XOR 0xFFFFFFFF
             then UDS_DOWNLOAD_VERIFY_ERROR else UDS_DOWNLOAD_OK, fl))"

definition uds_bootloader_flash_verify :: "'f boot_state \<Rightarrow> UdsDownloadMetadata \<Rightarrow> u32 \<Rightarrow> bool \<Rightarrow> UdsDownloadResult" where
  "uds_bootloader_flash_verify b md expected_crc32 has_expected_crc32 =
     fst (bootloader_flash_verify (flash_of b) md expected_crc32 has_expected_crc32)"

section \<open>Policy and slot state\<close>

definition uds_bootloader_set_floor_store :: "'f UdsBootFloor option \<Rightarrow> 'f boot_state \<Rightarrow> 'f boot_state" where
  "uds_bootloader_set_floor_store floor_store b = b\<lparr> s_floor_store := floor_store \<rparr>"

definition uds_bootloader_get_version_floor :: "'f boot_state \<Rightarrow> u32" where
  "uds_bootloader_get_version_floor b =
     (let floor = active_version (bl b) in
      case s_floor_store b of
        None \<Rightarrow> floor
      | Some bf \<Rightarrow> let persisted = boot_floor_get (Some bf) in if persisted > floor then persisted else floor)"

definition uds_bootloader_set_signature_verifier :: "BootSignatureVerifierFn option \<Rightarrow> 'f boot_state \<Rightarrow> 'f boot_state" where
  "uds_bootloader_set_signature_verifier verifier b = b\<lparr> s_signature_verifier := verifier \<rparr>"

definition uds_bootloader_set_signature_required :: "bool \<Rightarrow> 'f boot_state \<Rightarrow> 'f boot_state" where
  "uds_bootloader_set_signature_required required b = b\<lparr> s_signature_required := required \<rparr>"

definition uds_bootloader_set_verification_mode :: "UdsBootloaderVerifyMode \<Rightarrow> 'f boot_state \<Rightarrow> 'f boot_state" where
  "uds_bootloader_set_verification_mode mode b = set_bl ((bl b)\<lparr> verify_mode := mode \<rparr>) b"

definition uds_bootloader_get_verification_mode :: "'f boot_state \<Rightarrow> UdsBootloaderVerifyMode" where
  "uds_bootloader_get_verification_mode b = verify_mode (bl b)"

definition uds_bootloader_verify_signature :: "'f boot_state \<Rightarrow> bytes \<Rightarrow> bytes \<Rightarrow> bool" where
  "uds_bootloader_verify_signature b digest32 signature64 =
     (case s_signature_verifier b of Some verifier \<Rightarrow> verifier digest32 signature64 | None \<Rightarrow> False)"

definition uds_bootloader_get_slot_status :: "'f boot_state \<Rightarrow> u8" where
  "uds_bootloader_get_slot_status b = fm_status (staging_metadata (bl b))"

text \<open>\<open>junk\<close> is what the stack of \<open>boot_floor_raise\<close> holds.\<close>

definition uds_bootloader_confirm_active_image ::
  "bytes \<Rightarrow> 'f boot_state \<Rightarrow> (UdsDownloadResult \<times> 'f boot_state) option" where
  "uds_bootloader_confirm_active_image junk b =
     (if fm_status (staging_metadata (bl b)) \<noteq> UDS_BL_SLOT_ACTIVE then Some (UDS_DOWNLOAD_SEQUENCE_ERROR, b)
      else do {
        (raised, b) \<leftarrow> (case s_floor_store b of
            None \<Rightarrow> Some (True, b)
          | Some bf \<Rightarrow> do {
              (ok, bf, f) \<leftarrow> boot_floor_raise junk bf (fm_version (staging_metadata (bl b))) (floor_flash b);
              Some (ok, b\<lparr> s_floor_store := Some bf, floor_flash := f \<rparr>) });
        (if \<not> raised then Some (UDS_DOWNLOAD_PROGRAM_ERROR, b)
         else
           let meta = (staging_metadata (bl b))\<lparr> fm_status := UDS_BL_SLOT_CONFIRMED, fm_boot_attempts := 0 \<rparr>;
               b = set_bl ((bl b)\<lparr> staging_metadata := meta \<rparr>) b in
           Some (UDS_DOWNLOAD_OK, bootloader_nvm_save_metadata meta b))
      })"

definition UDS_BL_C092_APP_SLOT_A_START :: u32 where "UDS_BL_C092_APP_SLOT_A_START = 0x0800A000"
definition UDS_BL_F767_APP_SLOT_A_START :: u32 where "UDS_BL_F767_APP_SLOT_A_START = 0x08040000"

definition uds_bootloader_rollback_candidate :: "'f boot_state \<Rightarrow> UdsDownloadResult \<times> 'f boot_state" where
  "uds_bootloader_rollback_candidate b =
     (let ctx = bl b;
          meta = (staging_metadata ctx)\<lparr> fm_status := UDS_BL_SLOT_ROLLBACK, fm_active_slot := 0 \<rparr>;
          ctx = ctx\<lparr> active_slot_addr := (if bl_target ctx = UDS_BL_TARGET_STM32C092
                         then UDS_BL_C092_APP_SLOT_A_START else UDS_BL_F767_APP_SLOT_A_START),
                     active_version := 1, candidate_verified := False, staging_metadata := meta \<rparr> in
      (UDS_DOWNLOAD_OK, bootloader_nvm_save_metadata meta (set_bl ctx b)))"

section \<open>Activation\<close>

text \<open>\<open>junk\<close> is what the stack of the hash holds.\<close>

definition c092_verify_copied_image ::
  "bytes \<Rightarrow> UdsBootloaderContext \<Rightarrow> bytes \<Rightarrow> u32 \<Rightarrow> UdsDownloadResult option" where
  "c092_verify_copied_image junk ctx copied image_size =
     (if image_size \<le> 128 then Some UDS_DOWNLOAD_VERIFY_ERROR
      else if length copied < unat image_size then None
      else
        let payload_len = unat (image_size - 128);
            payload = take payload_len (drop 128 copied) in
        if verify_mode ctx = UDS_BL_VERIFY_MODE_CRC32 then
          Some (if fm_crc32 (staging_metadata ctx) = 0 \<or>
                   bootloader_calc_crc32 payload \<noteq> fm_crc32 (staging_metadata ctx)
                then UDS_DOWNLOAD_VERIFY_ERROR else UDS_DOWNLOAD_OK)
        else do {
          digest \<leftarrow> sha256_hash junk payload;
          Some (if constant_time_equal digest (fm_sha256 (staging_metadata ctx)) 32
                then UDS_DOWNLOAD_OK else UDS_DOWNLOAD_VERIFY_ERROR)
        })"

definition c092_copy_candidate_to_slot_a ::
  "bytes \<Rightarrow> boot_flash \<Rightarrow> u32 \<Rightarrow> u32 \<Rightarrow> (UdsDownloadResult \<times> boot_flash) option" where
  "c092_copy_candidate_to_slot_a junk fl image_size slot_a_addr =
     (case bootloader_flash_erase_start fl slot_a_addr image_size of (erase_res, fl) \<Rightarrow>
        if erase_res \<noteq> UDS_DOWNLOAD_OK then Some (erase_res, fl)
        else case bootloader_flash_erase_poll fl of (poll_res, fl) \<Rightarrow>
          if poll_res \<noteq> UDS_DOWNLOAD_OK then Some (poll_res, fl)
          else
            let copy_len = (if unat image_size > length (s_mock_flash_slot_b fl)
                            then of_nat (length (s_mock_flash_slot_b fl)) else image_size) in
            case bootloader_flash_program fl slot_a_addr
                   (take (unat (ucast copy_len :: u16)) (s_mock_flash_slot_b fl)) of (prog_res, fl) \<Rightarrow>
              if prog_res \<noteq> UDS_DOWNLOAD_OK then Some (prog_res, fl)
              else do {
                verify_res \<leftarrow> c092_verify_copied_image junk (s_bl_ctx fl) (s_mock_flash_slot_a fl) copy_len;
                Some (verify_res, fl)
              })"

definition uds_bootloader_activate_candidate ::
  "bytes \<Rightarrow> 'f boot_state \<Rightarrow> (UdsDownloadResult \<times> 'f boot_state) option" where
  "uds_bootloader_activate_candidate junk b =
     (if \<not> candidate_verified (bl b) then Some (UDS_DOWNLOAD_SEQUENCE_ERROR, b)
      else do {
        (copy_res, b) \<leftarrow>
          (if bl_target (bl b) = UDS_BL_TARGET_STM32C092 then
             let image_size = fm_image_size (staging_metadata (bl b)) in
             if image_size = 0 \<or> image_size > active_slot_size (bl b) then Some (UDS_DOWNLOAD_OUT_OF_RANGE, b)
             else do {
               (copy_res, fl) \<leftarrow> c092_copy_candidate_to_slot_a junk (flash_of b) image_size (active_slot_addr (bl b));
               Some (copy_res, set_flash fl b)
             }
           else Some (UDS_DOWNLOAD_OK, b));
        (if copy_res \<noteq> UDS_DOWNLOAD_OK then Some (copy_res, b)
         else
           let ctx = bl b;
               meta = (staging_metadata ctx)\<lparr> fm_status := UDS_BL_SLOT_ACTIVE, fm_boot_attempts := 1,
                 fm_max_attempts := 3, fm_active_slot := 0 \<rparr>;
               ctx = ctx\<lparr> active_version := fm_version (staging_metadata ctx), staging_metadata := meta,
                 candidate_verified := False \<rparr> in
           Some (UDS_DOWNLOAD_OK, bootloader_nvm_save_metadata meta (set_bl ctx b)))
      })"

section \<open>Initialisation\<close>

definition c092_memory_map :: UdsDownloadMemoryMap where
  "c092_memory_map =
     \<lparr> staging_image = \<lparr> reg_start = 0x08025000, end_exclusive = 0x08025000 + 0x0001B000 \<rparr>,
       bootloader = \<lparr> reg_start = 0x08000000, end_exclusive = 0x08000000 + 0x00008000 \<rparr>,
       active_application = \<lparr> reg_start = UDS_BL_C092_APP_SLOT_A_START,
         end_exclusive = UDS_BL_C092_APP_SLOT_A_START + 0x0001B000 \<rparr>,
       persistent_storage = \<lparr> reg_start = 0x08008000, end_exclusive = 0x08008000 + 0x00002000 \<rparr>,
       diagnostic_storage = \<lparr> reg_start = 0x08008000, end_exclusive = 0x08008000 + 0x00002000 \<rparr>,
       erase_alignment = 8, program_alignment = 8, max_block_length = 256, activation_supported = True \<rparr>"

definition f767_memory_map :: UdsDownloadMemoryMap where
  "f767_memory_map =
     \<lparr> staging_image = \<lparr> reg_start = 0x08100000, end_exclusive = 0x08100000 + 0x00100000 \<rparr>,
       bootloader = \<lparr> reg_start = 0x08000000, end_exclusive = 0x08000000 + 0x00040000 \<rparr>,
       active_application = \<lparr> reg_start = UDS_BL_F767_APP_SLOT_A_START,
         end_exclusive = UDS_BL_F767_APP_SLOT_A_START + 0x000C0000 \<rparr>,
       persistent_storage = \<lparr> reg_start = 0x08010000, end_exclusive = 0x08010000 + 0x8000 \<rparr>,
       diagnostic_storage = \<lparr> reg_start = 0x08010000 + 0x8000, end_exclusive = UDS_BL_F767_APP_SLOT_A_START \<rparr>,
       erase_alignment = 4, program_alignment = 4, max_block_length = 256, activation_supported = True \<rparr>"

definition bl_dl_callbacks :: "boot_flash UdsDownloadCallbacks" where
  "bl_dl_callbacks =
     \<lparr> cb_erase_start = Some bootloader_flash_erase_start, cb_erase_poll = Some bootloader_flash_erase_poll,
       cb_program = Some bootloader_flash_program, cb_verify_image = Some bootloader_flash_verify,
       cb_abort = None, cb_watchdog_kick = None \<rparr>"

definition target_context :: "UdsBootloaderTarget \<Rightarrow> UdsBootloaderContext \<Rightarrow> UdsBootloaderContext" where
  "target_context target ctx =
     (let ctx = ctx\<lparr> bl_target := target, active_version := 1, download_in_progress := False,
            candidate_verified := False, last_erase_result := 0, last_check_memory_result := 1,
            last_check_dependencies_result := 1,
            staging_metadata := zero_metadata\<lparr> fm_status := UDS_BL_SLOT_CONFIRMED, fm_active_slot := 0 \<rparr>,
            verify_mode := UDS_BL_VERIFY_MODE_SHA256_SECURE \<rparr> in
      if target = UDS_BL_TARGET_STM32C092
      then ctx\<lparr> active_slot_addr := UDS_BL_C092_APP_SLOT_A_START, active_slot_size := 0x0001B000,
                target_slot_addr := 0x08025000, target_slot_size := 0x0001B000 \<rparr>
      else ctx\<lparr> active_slot_addr := UDS_BL_F767_APP_SLOT_A_START, active_slot_size := 0x000C0000,
                target_slot_addr := 0x08100000, target_slot_size := 0x00100000 \<rparr>)"

definition uds_bootloader_set_target :: "UdsBootloaderTarget \<Rightarrow> 'f boot_state \<Rightarrow> 'f boot_state" where
  "uds_bootloader_set_target target b =
     (let b = set_bl (target_context target (bl b)) b;
          b = b\<lparr> s_signature_required := True,
                 s_bl_memory_map := (if target = UDS_BL_TARGET_STM32C092 then c092_memory_map else f767_memory_map) \<rparr> in
      b\<lparr> s_bl_download := uds_download_init (Some (s_bl_memory_map b)) (Some bl_dl_callbacks) (flash_of b) \<rparr>)"

text \<open>The target is a compile-time choice.\<close>

definition uds_bootloader_init :: "UdsBootloaderTarget \<Rightarrow> 'f boot_state \<Rightarrow> 'f boot_state option" where
  "uds_bootloader_init target b = do {
     let b = uds_bootloader_set_target target b;
     loaded \<leftarrow> bootloader_nvm_load_metadata b;
     (case loaded of
        None \<Rightarrow> Some b
      | Some loaded_meta \<Rightarrow>
          let b = set_bl ((bl b)\<lparr> staging_metadata := loaded_meta, active_version := fm_version loaded_meta \<rparr>) b in
          if fm_status loaded_meta = UDS_BL_SLOT_ACTIVE then
            let meta = (staging_metadata (bl b))\<lparr> fm_boot_attempts := fm_boot_attempts (staging_metadata (bl b)) + 1 \<rparr>;
                b = set_bl ((bl b)\<lparr> staging_metadata := meta \<rparr>) b in
            if fm_boot_attempts meta > fm_max_attempts meta
            then Some (snd (uds_bootloader_rollback_candidate b))
            else Some (bootloader_nvm_save_metadata meta b)
          else Some b)
   }"

definition uds_bootloader_get_target :: "'f boot_state \<Rightarrow> UdsBootloaderTarget" where
  "uds_bootloader_get_target b = bl_target (bl b)"

definition uds_bootloader_get_memory_map :: "'f boot_state \<Rightarrow> UdsDownloadMemoryMap" where
  "uds_bootloader_get_memory_map b = s_bl_memory_map b"

definition uds_bootloader_get_active_version :: "'f boot_state \<Rightarrow> u32" where
  "uds_bootloader_get_active_version b = active_version (bl b)"

definition uds_bootloader_get_active_slot :: "'f boot_state \<Rightarrow> u32" where
  "uds_bootloader_get_active_slot b = active_slot_addr (bl b)"

definition uds_bootloader_is_activation_pending :: "'f boot_state \<Rightarrow> bool" where
  "uds_bootloader_is_activation_pending b = candidate_verified (bl b)"

section \<open>Download services\<close>

text \<open>
  \<open>now_ms\<close> is what \<open>uds_platform_now_ms\<close> returns; the block length is the value behind the pointer.
\<close>

definition uds_bootloader_request_download ::
  "u32 \<Rightarrow> 'f boot_state \<Rightarrow> u32 \<Rightarrow> u32 \<Rightarrow> u16 \<Rightarrow> UdsCallbackResult \<times> u16 \<times> 'f boot_state" where
  "uds_bootloader_request_download now_ms b address len max_block =
     (if address < target_slot_addr (bl b) \<or>
         address + len > target_slot_addr (bl b) + target_slot_size (bl b)
      then (UDS_RESULT_OUT_OF_RANGE, max_block, b)
      else case uds_download_begin (s_bl_download b) address len now_ms of (res, d) \<Rightarrow>
        let b = b\<lparr> s_bl_download := d \<rparr> in
        if res \<noteq> UDS_DOWNLOAD_OK
        then (if res = UDS_DOWNLOAD_OUT_OF_RANGE then UDS_RESULT_OUT_OF_RANGE else UDS_RESULT_ERROR, max_block, b)
        else
          let b = b\<lparr> s_bl_download := snd (uds_download_poll_erase (s_bl_download b) now_ms) \<rparr> in
          (UDS_RESULT_OK, max_block_length (s_bl_memory_map b),
            set_bl ((bl b)\<lparr> download_in_progress := True, candidate_verified := False \<rparr>) b))"

definition uds_bootloader_transfer_data ::
  "u32 \<Rightarrow> 'f boot_state \<Rightarrow> u8 \<Rightarrow> bytes \<Rightarrow> (UdsCallbackResult \<times> 'f boot_state) option" where
  "uds_bootloader_transfer_data now_ms b block_sequence data =
     (if \<not> download_in_progress (bl b) then Some (UDS_RESULT_SEQUENCE_ERROR, b)
      else
        let b = (if uds_download_state (s_bl_download b) = UDS_DOWNLOAD_ERASING
                 then b\<lparr> s_bl_download := snd (uds_download_poll_erase (s_bl_download b) now_ms) \<rparr> else b) in
        do {
          (res, d) \<leftarrow> uds_download_write (s_bl_download b) block_sequence data now_ms;
          let b = b\<lparr> s_bl_download := d \<rparr>;
          Some (if res \<noteq> UDS_DOWNLOAD_OK
                then if res = UDS_DOWNLOAD_SEQUENCE_ERROR then UDS_RESULT_SEQUENCE_ERROR else UDS_RESULT_ERROR
                else UDS_RESULT_OK, b)
        })"

text \<open>The third result is what is written to the response, the fourth its length.\<close>

definition uds_bootloader_transfer_exit ::
  "u32 \<Rightarrow> 'f boot_state \<Rightarrow> bytes \<Rightarrow> u16 \<Rightarrow> UdsCallbackResult \<times> bytes \<times> u16 \<times> 'f boot_state" where
  "uds_bootloader_transfer_exit now_ms b request response_len =
     (if \<not> download_in_progress (bl b) then (UDS_RESULT_SEQUENCE_ERROR, [], response_len, b)
      else
        let has_expected_crc = (length request \<ge> 4);
            expected_crc = (if has_expected_crc
              then push_bit 24 (ucast (request ! 0)) OR push_bit 16 (ucast (request ! 1)) OR
                   push_bit 8 (ucast (request ! 2)) OR ucast (request ! 3)
              else 0) in
        case uds_download_finish (s_bl_download b) expected_crc has_expected_crc now_ms of (res, d) \<Rightarrow>
          let b = b\<lparr> s_bl_download := d \<rparr>;
              b = set_bl ((bl b)\<lparr> download_in_progress := False \<rparr>) b in
          if res \<noteq> UDS_DOWNLOAD_OK
          then (UDS_RESULT_ERROR, [], response_len, b\<lparr> s_bl_download := uds_download_abort (s_bl_download b) \<rparr>)
          else (UDS_RESULT_OK, [0], 1, b))"

section \<open>Routines\<close>

definition UDS_ROUTINE_SUBFUNCTION_START_ROUTINE :: u8 where "UDS_ROUTINE_SUBFUNCTION_START_ROUTINE = 1"
definition UDS_ROUTINE_SUBFUNCTION_REQUEST_RESULTS :: u8 where "UDS_ROUTINE_SUBFUNCTION_REQUEST_RESULTS = 3"

text \<open>
  A routine gets the subfunction and the option record; it returns its result, what it writes to
  the response and the response length.
\<close>

type_synonym 'f boot_routine_result = "UdsCallbackResult \<times> bytes \<times> u16 \<times> 'f boot_state"

definition routine_erase_memory :: "u8 \<Rightarrow> 'f boot_state \<Rightarrow> 'f boot_routine_result" where
  "routine_erase_memory subfunction b =
     (if subfunction = UDS_ROUTINE_SUBFUNCTION_REQUEST_RESULTS then (UDS_RESULT_OK, [last_erase_result (bl b)], 1, b)
      else case bootloader_flash_erase_start (flash_of b) (target_slot_addr (bl b)) (target_slot_size (bl b)) of (res, fl) \<Rightarrow>
        let b = set_flash fl b;
            status = (if res = UDS_DOWNLOAD_OK then 0 else 1);
            b = set_bl ((bl b)\<lparr> last_erase_result := status \<rparr>) b in
        (if res = UDS_DOWNLOAD_OK then UDS_RESULT_OK else UDS_RESULT_ERROR, [status], 1, b))"

text \<open>\<open>Some None\<close>: no usable metadata in the request, the null pointer.\<close>

definition parse_check_memory_metadata :: "'f boot_state \<Rightarrow> bytes \<Rightarrow> FirmwareMetadata_t option option" where
  "parse_check_memory_metadata b input =
     (if length input \<ge> 128 then do { meta \<leftarrow> metadata_of_bytes input; Some (Some meta) }
      else if length input = 4 \<and> verify_mode (bl b) = UDS_BL_VERIFY_MODE_CRC32 then
        let meta = (staging_metadata (bl b))\<lparr> fm_magic := UDS_BL_METADATA_MAGIC, fm_version := active_version (bl b),
              fm_crc32 := push_bit 24 (ucast (input ! 0)) OR push_bit 16 (ucast (input ! 1)) OR
                push_bit 8 (ucast (input ! 2)) OR ucast (input ! 3) \<rparr> in
        Some (Some (boot_finalize_metadata meta))
      else Some None)"

definition verify_candidate_crc32 :: "'f boot_state \<Rightarrow> FirmwareMetadata_t \<Rightarrow> bool" where
  "verify_candidate_crc32 b meta =
     (if fm_crc32 meta = 0 then False
      else if fm_image_size meta > 128 then
        let payload_size = unat (fm_image_size meta - 128) in
        case bootloader_get_slot_ptr (flash_of b) (target_slot_addr (bl b) + 128) of
          Some payload \<Rightarrow> length payload \<ge> payload_size \<and> bootloader_calc_crc32 (take payload_size payload) = fm_crc32 meta
        | None \<Rightarrow> False
      else if fm_image_size meta > 0 then
        let payload_size = unat (fm_image_size meta) in
        case bootloader_get_slot_ptr (flash_of b) (target_slot_addr (bl b)) of
          Some payload \<Rightarrow> length payload \<ge> payload_size \<and> bootloader_calc_crc32 (take payload_size payload) = fm_crc32 meta
        | None \<Rightarrow> False
      else False)"

text \<open>The result and, when it is not \<open>UDS_RESULT_OK\<close>, the status.\<close>

definition verify_candidate_crypto ::
  "bytes \<Rightarrow> 'f boot_state \<Rightarrow> FirmwareMetadata_t \<Rightarrow> (UdsCallbackResult \<times> u8) option" where
  "verify_candidate_crypto junk b meta =
     (let sha = sha256_init \<lparr> sha_state = [], sha_count = 0, sha_buffer = junk \<rparr> in
      if fm_image_size meta \<le> 128 then Some (UDS_RESULT_ERROR, 3)
      else
        let payload_size = unat (fm_image_size meta - 128) in
        case bootloader_get_slot_ptr (flash_of b) (target_slot_addr (bl b) + 128) of
          None \<Rightarrow> Some (UDS_RESULT_ERROR, 3)
        | Some payload \<Rightarrow>
            if length payload < payload_size then Some (UDS_RESULT_ERROR, 3)
            else do {
              sha \<leftarrow> sha256_update sha (take payload_size payload);
              (computed_hash, sha) \<leftarrow> sha256_final sha;
              (if computed_hash \<noteq> fm_sha256 meta then Some (UDS_RESULT_ERROR, 3)
               else if s_signature_required b then do {
                 manifest \<leftarrow> boot_manifest_digest junk meta;
                 Some (if \<not> uds_bootloader_verify_signature b manifest (fm_signature meta)
                       then (UDS_RESULT_SECURITY_DENIED, 4) else (UDS_RESULT_OK, 0))
               }
               else Some (UDS_RESULT_OK, 0))
            })"

definition check_memory_refused :: "UdsCallbackResult \<Rightarrow> u8 \<Rightarrow> 'f boot_state \<Rightarrow> 'f boot_routine_result" where
  "check_memory_refused res status b =
     (res, [status], 1, set_bl ((bl b)\<lparr> last_check_memory_result := status \<rparr>) b)"

definition routine_check_memory :: "bytes \<Rightarrow> u8 \<Rightarrow> bytes \<Rightarrow> 'f boot_state \<Rightarrow> 'f boot_routine_result option" where
  "routine_check_memory junk subfunction input b =
     (if subfunction = UDS_ROUTINE_SUBFUNCTION_REQUEST_RESULTS
      then Some (UDS_RESULT_OK, [last_check_memory_result (bl b)], 1, b)
      else do {
        parsed \<leftarrow> parse_check_memory_metadata b input;
        found \<leftarrow> (case parsed of
            Some meta \<Rightarrow> Some (Some meta)
          | None \<Rightarrow> (case bootloader_get_slot_ptr (flash_of b) (target_slot_addr (bl b)) of
              None \<Rightarrow> Some None
            | Some slot_hdr \<Rightarrow>
                if length slot_hdr < 128 then Some None
                else do { meta \<leftarrow> metadata_of_bytes slot_hdr; Some (Some meta) }));
        (case found of
           None \<Rightarrow> Some (check_memory_refused UDS_RESULT_OUT_OF_RANGE 1 b)
         | Some meta \<Rightarrow>
             if \<not> boot_validate_metadata meta then Some (check_memory_refused UDS_RESULT_OUT_OF_RANGE 1 b)
             else if fm_version meta < uds_bootloader_get_version_floor b
             then Some (check_memory_refused UDS_RESULT_OUT_OF_RANGE 2 b)
             else do {
               (res, status) \<leftarrow> (if verify_mode (bl b) = UDS_BL_VERIFY_MODE_CRC32
                 then Some (if verify_candidate_crc32 b meta then UDS_RESULT_OK else UDS_RESULT_ERROR, 3)
                 else verify_candidate_crypto junk b meta);
               (if res \<noteq> UDS_RESULT_OK then Some (check_memory_refused res status b)
                else
                  let staged = meta\<lparr> fm_status := UDS_BL_SLOT_CANDIDATE \<rparr>;
                      b = bootloader_nvm_save_metadata staged (set_bl ((bl b)\<lparr> staging_metadata := staged \<rparr>) b);
                      b = set_bl ((bl b)\<lparr> candidate_verified := True, last_check_memory_result := 0,
                        last_check_dependencies_result := 0 \<rparr>) b in
                  Some (UDS_RESULT_OK, [0], 1, b))
             })
      })"

definition routine_check_dependencies :: "u8 \<Rightarrow> 'f boot_state \<Rightarrow> 'f boot_routine_result" where
  "routine_check_dependencies subfunction b =
     (if subfunction = UDS_ROUTINE_SUBFUNCTION_REQUEST_RESULTS
      then (UDS_RESULT_OK, [last_check_dependencies_result (bl b)], 1, b)
      else
        let dependencies_ok = (candidate_verified (bl b) \<and> \<not> download_in_progress (bl b) \<and>
              fm_magic (staging_metadata (bl b)) = UDS_BL_METADATA_MAGIC);
            status = (if dependencies_ok then 0 else 1);
            b = set_bl ((bl b)\<lparr> last_check_dependencies_result := status \<rparr>) b in
        (if dependencies_ok then UDS_RESULT_OK else UDS_RESULT_DENIED, [status], 1, b))"

type_synonym 'f BootRoutineHandler = "bytes \<Rightarrow> u8 \<Rightarrow> bytes \<Rightarrow> 'f boot_state \<Rightarrow> 'f boot_routine_result option"

definition k_boot_routines :: "(u16 \<times> 'f BootRoutineHandler) list" where
  "k_boot_routines =
     [(0xFF00, \<lambda>junk sub input b. Some (routine_erase_memory sub b)),
      (0x0202, routine_check_memory),
      (0xFF01, \<lambda>junk sub input b. Some (routine_check_dependencies sub b))]"

text \<open>
  \<open>response_len\<close> is the value behind the pointer, which only a routine changes; the loop takes the
  first entry with the identifier.
\<close>

definition uds_bootloader_routine_control ::
  "bytes \<Rightarrow> 'f boot_state \<Rightarrow> u8 \<Rightarrow> u16 \<Rightarrow> bytes \<Rightarrow> u16 \<Rightarrow> u16 \<Rightarrow> 'f boot_routine_result option" where
  "uds_bootloader_routine_control junk b subfunction routine_id input response_len capacity =
     (if subfunction \<noteq> UDS_ROUTINE_SUBFUNCTION_START_ROUTINE \<and>
         subfunction \<noteq> UDS_ROUTINE_SUBFUNCTION_REQUEST_RESULTS \<or> capacity < 1
      then Some (UDS_RESULT_OUT_OF_RANGE, [], response_len, b)
      else case map_of k_boot_routines routine_id of
        Some handler \<Rightarrow> handler junk subfunction input b
      | None \<Rightarrow> Some (UDS_RESULT_NOT_SUPPORTED, [], response_len, b))"

section \<open>The gate in front of the jump\<close>

definition is_flash_addr_valid :: "UdsBootloaderTarget \<Rightarrow> u32 \<Rightarrow> bool \<times> u32" where
  "is_flash_addr_valid target addr =
     (let base = 0x08000000;
          end_addr = (if target = UDS_BL_TARGET_STM32C092 then 0x08000000 + 0x00040000 else 0x08000000 + 0x00200000) in
      (addr \<ge> base \<and> addr < end_addr, end_addr))"

definition is_msp_valid :: "UdsBootloaderTarget \<Rightarrow> u32 \<Rightarrow> bool" where
  "is_msp_valid target msp =
     (let ram_start = 0x20000000;
          ram_end = (if target = UDS_BL_TARGET_STM32C092 then 0x20006000 else 0x20080000) in
      if msp AND 3 \<noteq> 0 then False else msp \<ge> ram_start \<and> msp \<le> ram_end)"

definition is_reset_handler_valid :: "u32 \<Rightarrow> u32 \<Rightarrow> u32 \<Rightarrow> bool" where
  "is_reset_handler_valid reset_handler app_vector_addr flash_end =
     (if reset_handler AND 1 = 0 \<or> reset_handler = 0xFFFFFFFF then False
      else
        let reset_addr = reset_handler AND NOT 1 in
        reset_addr \<ge> app_vector_addr \<and> reset_addr < flash_end)"

text \<open>\<open>word_at\<close> reads a 32-bit word of the address space.\<close>

definition uds_bootloader_is_application_valid :: "(u32 \<Rightarrow> u32) \<Rightarrow> UdsBootloaderTarget \<Rightarrow> u32 \<Rightarrow> bool" where
  "uds_bootloader_is_application_valid word_at target app_vector_addr =
     (case is_flash_addr_valid target app_vector_addr of (ok, flash_end) \<Rightarrow>
        if \<not> ok then False
        else
          let vtor_alignment_mask = (if target = UDS_BL_TARGET_STM32C092 then 0xFF else 0x1FF) in
          if app_vector_addr AND vtor_alignment_mask \<noteq> 0 then False
          else if \<not> is_msp_valid target (word_at app_vector_addr) then False
          else is_reset_handler_valid (word_at (app_vector_addr + 4)) app_vector_addr flash_end)"
end
