(* ===== verification/Bootloader_State.thy ===== *)
theory Bootloader_State
  imports Bootloader
begin

text \<open>
  Facts about the bootloader's state: access to its records, the metadata as bytes, the download engine
  over the slots, well-formed states and the invariant, and what CheckMemory decides.
\<close>

section \<open>Access to the state\<close>

lemma boot_state_simps [simp]:
  "flash_of (set_flash fl b) = fl" "flash_of (set_bl c b) = (flash_of b)\<lparr> s_bl_ctx := c \<rparr>"
  "s_floor_store (set_flash fl b) = s_floor_store b" "s_floor_store (set_bl c b) = s_floor_store b"
  "floor_flash (set_flash fl b) = floor_flash b" "floor_flash (set_bl c b) = floor_flash b"
  "s_signature_verifier (set_flash fl b) = s_signature_verifier b" "s_signature_verifier (set_bl c b) = s_signature_verifier b"
  "s_signature_required (set_flash fl b) = s_signature_required b" "s_signature_required (set_bl c b) = s_signature_required b"
  "s_bl_memory_map (set_flash fl b) = s_bl_memory_map b" "s_bl_memory_map (set_bl c b) = s_bl_memory_map b"
  "s_mock_nvm_storage (set_flash fl b) = s_mock_nvm_storage b" "s_mock_nvm_storage (set_bl c b) = s_mock_nvm_storage b"
  "s_mock_nvm_valid (set_flash fl b) = s_mock_nvm_valid b" "s_mock_nvm_valid (set_bl c b) = s_mock_nvm_valid b"
  "s_bl_download (set_flash fl b) = (s_bl_download b)\<lparr> dl_context := fl \<rparr>"
  "s_bl_download (set_bl c b) = (s_bl_download b)\<lparr> dl_context := (flash_of b)\<lparr> s_bl_ctx := c \<rparr> \<rparr>"
  by (simp_all add: set_flash_def set_bl_def)

lemma nvm_save_eq:
  "bootloader_nvm_save_metadata m b =
     b\<lparr> s_mock_nvm_storage := metadata_image (boot_finalize_metadata m), s_mock_nvm_valid := True \<rparr>"
  by (simp add: bootloader_nvm_save_metadata_def boot_finalize_metadata_def Let_def)

section \<open>The metadata as bytes\<close>

definition meta_wf :: "FirmwareMetadata_t \<Rightarrow> bool" where
  "meta_wf m \<longleftrightarrow> length (fm_sha256 m) = 32 \<and> length (fm_signature m) = 64 \<and> length (fm_reserved m) = 4"

lemma length_metadata_image: "meta_wf m \<Longrightarrow> length (metadata_image m) = 128"
  by (simp add: metadata_image_def metadata_bytes_def put_u32_le_bytes meta_wf_def)

lemma metadata_roundtrip:
  assumes "meta_wf m"
  shows "metadata_of_bytes (metadata_image m @ rest) = Some m"
proof -
  let ?bs = "metadata_image m @ rest"
  define w where "w = [fm_magic m, fm_version m, fm_image_size m, fm_crc32 m]"
  define st where "st = [fm_status m, fm_boot_attempts m, fm_max_attempts m, fm_active_slot m]"
  have len: "length (fm_sha256 m) = 32" "length (fm_signature m) = 64" "length (fm_reserved m) = 4"
    using assms by (simp_all add: meta_wf_def)
  have bs: "?bs = le32_bytes (fm_magic m) @ le32_bytes (fm_version m) @ le32_bytes (fm_image_size m) @
      le32_bytes (fm_crc32 m) @ fm_sha256 m @ fm_signature m @ st @ le16_bytes (fm_format_version m) @
      le16_bytes (fm_flags m) @ le32_bytes (fm_header_crc32 m) @ fm_reserved m @ rest"
    by (simp add: metadata_image_def metadata_bytes_def put_u32_le_bytes st_def)
  have "le32_at ?bs 0 = Some (fm_magic m)" "le32_at ?bs 4 = Some (fm_version m)"
    "le32_at ?bs 8 = Some (fm_image_size m)" "le32_at ?bs 12 = Some (fm_crc32 m)"
    "le16_at ?bs 116 = Some (fm_format_version m)" "le16_at ?bs 118 = Some (fm_flags m)"
    "le32_at ?bs 120 = Some (fm_header_crc32 m)"
    using le32_at_bytes[of "[]" 0 "fm_magic m"]
      le32_at_bytes[of "le32_bytes (fm_magic m)" 4 "fm_version m"]
      le32_at_bytes[of "le32_bytes (fm_magic m) @ le32_bytes (fm_version m)" 8 "fm_image_size m"]
      le32_at_bytes[of "le32_bytes (fm_magic m) @ le32_bytes (fm_version m) @ le32_bytes (fm_image_size m)" 12 "fm_crc32 m"]
      le16_at_bytes[of "le32_bytes (fm_magic m) @ le32_bytes (fm_version m) @ le32_bytes (fm_image_size m) @
        le32_bytes (fm_crc32 m) @ fm_sha256 m @ fm_signature m @ st" 116 "fm_format_version m"]
      le16_at_bytes[of "le32_bytes (fm_magic m) @ le32_bytes (fm_version m) @ le32_bytes (fm_image_size m) @
        le32_bytes (fm_crc32 m) @ fm_sha256 m @ fm_signature m @ st @ le16_bytes (fm_format_version m)" 118 "fm_flags m"]
      le32_at_bytes[of "le32_bytes (fm_magic m) @ le32_bytes (fm_version m) @ le32_bytes (fm_image_size m) @
        le32_bytes (fm_crc32 m) @ fm_sha256 m @ fm_signature m @ st @ le16_bytes (fm_format_version m) @
        le16_bytes (fm_flags m)" 120 "fm_header_crc32 m"]
    by (simp_all add: bs len st_def)
  moreover have "take 32 (drop 16 ?bs) = fm_sha256 m" "take 64 (drop 48 ?bs) = fm_signature m"
    "take 4 (drop 124 ?bs) = fm_reserved m"
    by (simp_all add: bs len st_def drop_append)
  moreover have "peek ?bs 112 = Some (fm_status m)" "peek ?bs 113 = Some (fm_boot_attempts m)"
    "peek ?bs 114 = Some (fm_max_attempts m)" "peek ?bs 115 = Some (fm_active_slot m)"
    by (simp_all add: bs len st_def peek_def nth_append)
  moreover have "\<not> length ?bs < 128" using length_metadata_image[OF assms] by simp
  ultimately show ?thesis by (simp add: metadata_of_bytes_def)
qed

lemma metadata_of_bytes_total:
  assumes "128 \<le> length bs"
  shows "\<exists>m. metadata_of_bytes bs = Some m \<and> meta_wf m"
proof -
  have le: "\<exists>v. le32_at bs i = Some v" if "i < 125" for i
    using that assms by (simp add: le32_at_def peek_def)
  have le': "\<exists>v. le16_at bs i = Some v" if "i < 125" for i
    using that assms by (simp add: le16_at_def peek_def)
  have pk: "peek bs i = Some (bs ! i)" if "i < 125" for i
    using that assms by (simp add: peek_def)
  show ?thesis
    using le[of 0] le[of 4] le[of 8] le[of 12] le[of 120] le'[of 116] le'[of 118] assms
    by (auto simp: metadata_of_bytes_def pk meta_wf_def)
qed

lemma finalize_keeps [simp]:
  "fm_magic (boot_finalize_metadata m) = fm_magic m" "fm_version (boot_finalize_metadata m) = fm_version m"
  "fm_status (boot_finalize_metadata m) = fm_status m" "fm_boot_attempts (boot_finalize_metadata m) = fm_boot_attempts m"
  "fm_max_attempts (boot_finalize_metadata m) = fm_max_attempts m" "meta_wf (boot_finalize_metadata m) = meta_wf m"
  by (simp_all add: boot_finalize_metadata_def Let_def meta_wf_def)

lemma finalize_valid [simp]: "boot_validate_metadata (boot_finalize_metadata m) \<longleftrightarrow> fm_magic m = UDS_BL_METADATA_MAGIC"
  by (simp add: boot_validate_metadata_def boot_finalize_metadata_def Let_def boot_calc_metadata_crc_def metadata_bytes_def)

lemma meta_wf_update [simp]:
  "meta_wf (m\<lparr> fm_status := s \<rparr>) = meta_wf m" "meta_wf (m\<lparr> fm_boot_attempts := a \<rparr>) = meta_wf m"
  "meta_wf (m\<lparr> fm_max_attempts := a \<rparr>) = meta_wf m" "meta_wf (m\<lparr> fm_active_slot := a \<rparr>) = meta_wf m"
  "meta_wf (m\<lparr> fm_magic := w \<rparr>) = meta_wf m" "meta_wf (m\<lparr> fm_version := w \<rparr>) = meta_wf m"
  "meta_wf (m\<lparr> fm_crc32 := w \<rparr>) = meta_wf m"
  by (simp_all add: meta_wf_def)

text \<open>What was saved is loaded again when its magic is right, and refused otherwise.\<close>

lemma nvm_load_saved:
  assumes "s_mock_nvm_storage b = metadata_image (boot_finalize_metadata m)" "s_mock_nvm_valid b" "meta_wf m"
  shows "bootloader_nvm_load_metadata b =
     Some (if fm_magic m = UDS_BL_METADATA_MAGIC then Some (boot_finalize_metadata m) else None)"
  using assms metadata_roundtrip[of "boot_finalize_metadata m" "[]"] by (simp add: bootloader_nvm_load_metadata_def)

section \<open>The engine over the slots\<close>

lemma bl_callbacks_simps [simp]:
  "cb_erase_start bl_dl_callbacks = Some bootloader_flash_erase_start"
  "cb_erase_poll bl_dl_callbacks = Some bootloader_flash_erase_poll"
  "cb_program bl_dl_callbacks = Some bootloader_flash_program"
  "cb_verify_image bl_dl_callbacks = Some bootloader_flash_verify"
  "cb_abort bl_dl_callbacks = None" "cb_watchdog_kick bl_dl_callbacks = None"
  by (simp_all add: bl_dl_callbacks_def)

lemma flash_verify_pure [simp]: "snd (bootloader_flash_verify fl md e h) = fl"
  by (simp add: bootloader_flash_verify_def Let_def)

lemma erase_poll_pure [simp]: "snd (bootloader_flash_erase_poll fl) = fl"
  by (simp add: bootloader_flash_erase_poll_def)

lemma watchdog_bl: "dl_callbacks d = bl_dl_callbacks \<Longrightarrow> watchdog d = d"
  by (simp add: watchdog_def)

lemma poll_bl:
  assumes "dl_callbacks d = bl_dl_callbacks"
  shows "dl_context (snd (uds_download_poll_erase d now)) = dl_context d"
    "dl_memory (snd (uds_download_poll_erase d now)) = dl_memory d"
    "dl_callbacks (snd (uds_download_poll_erase d now)) = dl_callbacks d"
  using assms
  by (auto simp: uds_download_poll_erase_def watchdog_bl uds_download_abort_def bootloader_flash_erase_poll_def Let_def)

lemma finish_bl:
  assumes "dl_callbacks d = bl_dl_callbacks" "uds_download_finish d e h now = (r, d')"
  shows "dl_context d' = dl_context d" "dl_memory d' = dl_memory d" "dl_callbacks d' = dl_callbacks d"
proof -
  define d1 where "d1 = d\<lparr> dl_state := UDS_DOWNLOAD_VERIFYING, dl_metadata := (dl_metadata d)
    \<lparr> crc_valid := (\<not> h \<or> dl_crc32 d XOR 0xFFFFFFFF = e) \<rparr> \<rparr>"
  obtain r1 c where v: "bootloader_flash_verify (dl_context d) (dl_metadata d1) e h = (r1, c)" by fastforce
  then have "c = dl_context d" using flash_verify_pure[of "dl_context d" "dl_metadata d1" e h] by simp
  then show "dl_context d' = dl_context d" "dl_memory d' = dl_memory d" "dl_callbacks d' = dl_callbacks d"
    using assms v
    by (auto simp: uds_download_finish_def uds_download_abort_def Let_def d1_def split: if_splits)
qed

lemma begin_bl:
  assumes "dl_callbacks d = bl_dl_callbacks" "uds_download_begin d a n now = (r, d')"
  shows "dl_memory d' = dl_memory d" "dl_callbacks d' = dl_callbacks d"
    "r \<noteq> UDS_DOWNLOAD_OK \<Longrightarrow> d' = d"
    "r = UDS_DOWNLOAD_OK \<Longrightarrow> dl_context d' = snd (bootloader_flash_erase_start (dl_context d) a n) \<and>
       validate_download_region (dl_memory d) a n \<and> image_address (dl_metadata d') = a \<and>
       image_length (dl_metadata d') = n \<and> received_length (dl_metadata d') = 0"
  using assms
  by (auto simp: uds_download_begin_def bootloader_flash_erase_start_def Let_def split: if_splits)

lemma write_bl:
  assumes "dl_callbacks d = bl_dl_callbacks" "program_alignment (dl_memory d) \<noteq> 0" "length data < 65536"
  shows "\<exists>r d'. uds_download_write d blk data now = Some (r, d') \<and> dl_memory d' = dl_memory d \<and>
     dl_callbacks d' = dl_callbacks d \<and>
     (dl_context d' = dl_context d \<and> (dl_state d' = UDS_DOWNLOAD_ABORTED_STATE \<or> d' = d) \<or>
      dl_state d = UDS_DOWNLOAD_RECEIVING \<and> dl_state d' = UDS_DOWNLOAD_RECEIVING \<and>
      length data \<le> unat (image_length (dl_metadata d) - received_length (dl_metadata d)) \<and>
      dl_context d' = mock_flash_program (dl_context d) (image_address (dl_metadata d) + received_length (dl_metadata d)) data \<and>
      image_address (dl_metadata d') = image_address (dl_metadata d) \<and>
      image_length (dl_metadata d') = image_length (dl_metadata d) \<and>
      received_length (dl_metadata d') = received_length (dl_metadata d) + of_nat (length data))"
proof -
  have len: "(ucast (of_nat (length data) :: u16) :: u32) = of_nat (length data)"
    using assms(3) by (intro word_unat_eq_iff[THEN iffD2]) (simp add: unat_of_nat_16 unat_of_nat_32)
  have le: "length data \<le> unat x" if "\<not> x < (of_nat (length data) :: u32)" for x
    using that assms(3) by (simp add: not_less word_le_nat_alt unat_of_nat_32)
  show ?thesis
    using assms(1,2)
    by (auto simp: uds_download_write_def bootloader_flash_program_def watchdog_bl uds_download_abort_def Let_def len
      dest: le)
qed

section \<open>Runs\<close>

text \<open>
  The calls of the diagnostic server and of the application, each with the clock or the stack
  contents it finds; \<open>BReset\<close> is a start of the program on what flash and storage hold, with the
  verifier and the floor store registered again.
\<close>

datatype boot_event =
    BRequest u32 u32 u32 u16
  | BTransfer u32 u8 bytes
  | BExit u32 bytes
  | BRoutine bytes u8 u16 bytes u16
  | BActivate bytes
  | BConfirm bytes
  | BRollback
  | BReset

fun boot_step :: "UdsBootloaderTarget \<Rightarrow> 'f boot_state \<Rightarrow> boot_event \<Rightarrow> 'f boot_state option" where
  "boot_step t b (BRequest now address len max_block) =
     Some (snd (snd (uds_bootloader_request_download now b address len max_block)))"
| "boot_step t b (BTransfer now blk data) = map_option snd (uds_bootloader_transfer_data now b blk data)"
| "boot_step t b (BExit now request) = Some (snd (snd (snd (uds_bootloader_transfer_exit now b request 0))))"
| "boot_step t b (BRoutine junk sub rid input capacity) =
     map_option (\<lambda>(res, out, len, b). b) (uds_bootloader_routine_control junk b sub rid input 0 capacity)"
| "boot_step t b (BActivate junk) = map_option snd (uds_bootloader_activate_candidate junk b)"
| "boot_step t b (BConfirm junk) = map_option snd (uds_bootloader_confirm_active_image junk b)"
| "boot_step t b BRollback = Some (snd (uds_bootloader_rollback_candidate b))"
| "boot_step t b BReset = uds_bootloader_init t b"

text \<open>Block lengths are 16-bit, and the buffer of a hash context has 64 bytes.\<close>

fun boot_ok :: "boot_event \<Rightarrow> bool" where
  "boot_ok (BTransfer now blk data) \<longleftrightarrow> length data < 65536"
| "boot_ok (BRoutine junk sub rid input capacity) \<longleftrightarrow> length junk = 64"
| "boot_ok (BActivate junk) \<longleftrightarrow> length junk = 64"
| "boot_ok _ \<longleftrightarrow> True"

section \<open>Well-formed states\<close>

definition boot_map :: "UdsBootloaderTarget \<Rightarrow> UdsDownloadMemoryMap" where
  "boot_map t = (if t = UDS_BL_TARGET_STM32C092 then c092_memory_map else f767_memory_map)"

definition slots_at :: "UdsBootloaderTarget \<Rightarrow> UdsBootloaderContext \<Rightarrow> bool" where
  "slots_at t ctx \<longleftrightarrow> bl_target ctx = t \<and>
     active_slot_addr ctx = reg_start (active_application (boot_map t)) \<and>
     active_slot_size ctx = end_exclusive (active_application (boot_map t)) - active_slot_addr ctx \<and>
     target_slot_addr ctx = reg_start (staging_image (boot_map t)) \<and>
     target_slot_size ctx = end_exclusive (staging_image (boot_map t)) - target_slot_addr ctx"

text \<open>The arrays of the file; their sizes never change.\<close>

definition arrays_wf :: "boot_flash \<Rightarrow> bool" where
  "arrays_wf fl \<longleftrightarrow> length (s_mock_flash_slot_a fl) = UDS_BL_MOCK_FLASH_SIZE \<and>
     length (s_mock_flash_slot_b fl) = UDS_BL_MOCK_FLASH_SIZE \<and>
     unat (s_mock_flash_slot_a_len fl) \<le> UDS_BL_MOCK_FLASH_SIZE \<and>
     unat (s_mock_flash_slot_b_len fl) \<le> UDS_BL_MOCK_FLASH_SIZE"

definition boot_wf :: "UdsBootloaderTarget \<Rightarrow> 'f boot_state \<Rightarrow> bool" where
  "boot_wf t b \<longleftrightarrow> arrays_wf (flash_of b) \<and> slots_at t (bl b) \<and> last_erase_result (bl b) = 0 \<and>
     meta_wf (staging_metadata (bl b)) \<and> length (s_mock_nvm_storage b) = 128 \<and>
     s_bl_memory_map b = boot_map t \<and> dl_memory (s_bl_download b) = boot_map t \<and>
     dl_callbacks (s_bl_download b) = bl_dl_callbacks"

text \<open>A running download lies in slot B.\<close>

definition staged_in :: "UdsBootloaderTarget \<Rightarrow> boot_flash UdsDownload \<Rightarrow> bool" where
  "staged_in t d \<longleftrightarrow> (transferring (dl_state d) \<longrightarrow>
     reg_start (staging_image (boot_map t)) \<le> image_address (dl_metadata d) \<and>
     unat (image_address (dl_metadata d)) + unat (image_length (dl_metadata d)) < 4294967296 \<and>
     received_length (dl_metadata d) \<le> image_length (dl_metadata d))"

text \<open>What CheckMemory demanded of the candidate and what still holds of it.\<close>

definition accepted :: "'f boot_state \<Rightarrow> FirmwareMetadata_t \<Rightarrow> bool" where
  "accepted b m \<longleftrightarrow> fm_status m = UDS_BL_SLOT_CANDIDATE \<and> fm_magic m = UDS_BL_METADATA_MAGIC \<and>
     fm_format_version m = UDS_BL_METADATA_FORMAT_VERSION \<and> uds_bootloader_get_version_floor b \<le> fm_version m \<and>
     128 < unat (fm_image_size m) \<and> unat (fm_image_size m) \<le> UDS_BL_MOCK_FLASH_SIZE \<and>
     uds_bootloader_verify_signature b (sha256_spec (manifest_bytes m)) (fm_signature m)"

definition boot_inv :: "UdsBootloaderTarget \<Rightarrow> 'f boot_state \<Rightarrow> bool" where
  "boot_inv t b \<longleftrightarrow> boot_wf t b \<and> s_signature_required b \<and>
     verify_mode (bl b) = UDS_BL_VERIFY_MODE_SHA256_SECURE \<and> staged_in t (s_bl_download b) \<and>
     (candidate_verified (bl b) \<longrightarrow> accepted b (staging_metadata (bl b)))"

lemma boot_map_simps:
  "program_alignment (boot_map t) \<noteq> 0" "max_block_length (boot_map t) = 256"
  "unat (reg_start (staging_image (boot_map t))) \<ge> 65536"
  "unat (reg_start (staging_image (boot_map t))) \<le> 2000000000"
  "unat (reg_start (active_application (boot_map t))) \<le> 2000000000"
  "unat (end_exclusive (active_application (boot_map t)) - reg_start (active_application (boot_map t))) \<ge> UDS_BL_MOCK_FLASH_SIZE"
  by (simp_all add: boot_map_def c092_memory_map_def f767_memory_map_def UDS_BL_C092_APP_SLOT_A_START_def
    UDS_BL_F767_APP_SLOT_A_START_def UDS_BL_MOCK_FLASH_SIZE_def)

lemma length_put_bytes [simp]: "off + length data \<le> length buf \<Longrightarrow> length (put_bytes buf off data) = length buf"
  by (simp add: put_bytes_def)

text \<open>Programming keeps the arrays in shape, and slot A when the address is in slot B.\<close>

lemma program_keeps:
  assumes "arrays_wf fl" "slots_at t (s_bl_ctx fl)" "length data < 65536"
  shows "arrays_wf (mock_flash_program fl a data)" "s_bl_ctx (mock_flash_program fl a data) = s_bl_ctx fl"
    "reg_start (staging_image (boot_map t)) \<le> a \<Longrightarrow>
       s_mock_flash_slot_a (mock_flash_program fl a data) = s_mock_flash_slot_a fl"
proof -
  let ?T = "reg_start (staging_image (boot_map t))" and ?A = "reg_start (active_application (boot_map t))"
  let ?n = "ucast (of_nat (length data) :: u16) :: u32"
  have n: "unat ?n = length data" using assms(3) by (simp add: unat_of_nat_16)
  have ctx: "target_slot_addr (s_bl_ctx fl) = ?T" "active_slot_addr (s_bl_ctx fl) = ?A"
    using assms(2) by (simp_all add: slots_at_def)
  have b: "unat (a - ?T + ?n) = unat (a - ?T) + length data" if "?T \<le> a"
  proof (rule trans[OF unat_add_32])
    show "unat (a - ?T) + unat ?n < 4294967296"
      using boot_map_simps(3)[of t] unat_u32_lt[of a] assms(3) unfolding unat_sub_32[OF that] n by linarith
  qed (simp only: n)
  have off: "unat ((if ?A \<le> a then a - ?A else 0) + ?n) = unat (if ?A \<le> a then a - ?A else 0) + length data"
    if "\<not> ?T \<le> a"
  proof (rule trans[OF unat_add_32])
    have "unat (if ?A \<le> a then a - ?A else 0) \<le> unat a" by (auto simp: unat_sub_32)
    then show "unat (if ?A \<le> a then a - ?A else 0) + unat ?n < 4294967296"
      using that boot_map_simps(4)[of t] assms(3) n by (simp add: word_le_nat_alt)
  qed (simp only: n)
  show "s_bl_ctx (mock_flash_program fl a data) = s_bl_ctx fl"
    by (simp add: mock_flash_program_def Let_def)
  show "s_mock_flash_slot_a (mock_flash_program fl a data) = s_mock_flash_slot_a fl" if "?T \<le> a"
    using that by (simp add: mock_flash_program_def Let_def ctx)
  show "arrays_wf (mock_flash_program fl a data)"
  proof (cases "?T \<le> a")
    case True
    then show ?thesis using assms(1) b[OF True] by (auto simp: mock_flash_program_def Let_def ctx arrays_wf_def)
  next
    case False
    define off where "off = (if ?A \<le> a then a - ?A else 0)"
    have o: "unat (off + ?n) = unat off + length data" using off[OF False] by (simp add: off_def)
    have "mock_flash_program fl a data = (if (of_nat (length data) :: u16) = 0 then fl
        else if unat (off + ?n) \<le> length (s_mock_flash_slot_a fl) then
          let fl = fl\<lparr> s_mock_flash_slot_a := put_bytes (s_mock_flash_slot_a fl) (unat off) data \<rparr> in
          if off + ?n > s_mock_flash_slot_a_len fl then fl\<lparr> s_mock_flash_slot_a_len := off + ?n \<rparr> else fl
        else fl)"
      using False by (simp add: mock_flash_program_def Let_def ctx off_def)
    then show ?thesis using assms(1) o by (auto simp: Let_def arrays_wf_def)
  qed
qed

lemma erase_keeps:
  assumes "bootloader_flash_erase_start fl a n = (r, fl')"
  shows "r = UDS_DOWNLOAD_OK" "arrays_wf fl \<Longrightarrow> arrays_wf fl'" "s_bl_ctx fl' = s_bl_ctx fl"
    "target_slot_addr (s_bl_ctx fl) \<le> a \<Longrightarrow> s_mock_flash_slot_a fl' = s_mock_flash_slot_a fl"
  using assms by (auto simp: bootloader_flash_erase_start_def arrays_wf_def)

lemma accepted_cong:
  assumes "accepted b m" "active_version (bl b') = active_version (bl b)" "s_floor_store b' = s_floor_store b"
    "s_signature_verifier b' = s_signature_verifier b"
  shows "accepted b' m"
  using assms by (simp add: accepted_def uds_bootloader_get_version_floor_def uds_bootloader_verify_signature_def)

section \<open>CheckMemory\<close>

lemma slot_b_ptr:
  assumes "boot_wf t b"
  shows "bootloader_get_slot_ptr (flash_of b) (target_slot_addr (bl b)) = Some (s_mock_flash_slot_b (flash_of b))"
    "bootloader_get_slot_ptr (flash_of b) (target_slot_addr (bl b) + 128) = Some (drop 128 (s_mock_flash_slot_b (flash_of b)))"
proof -
  have T: "target_slot_addr (bl b) = reg_start (staging_image (boot_map t))"
    and len: "length (s_mock_flash_slot_b (flash_of b)) = 4096"
    using assms by (simp_all add: boot_wf_def slots_at_def arrays_wf_def UDS_BL_MOCK_FLASH_SIZE_def)
  show "bootloader_get_slot_ptr (flash_of b) (target_slot_addr (bl b)) = Some (s_mock_flash_slot_b (flash_of b))"
    using len by (simp add: bootloader_get_slot_ptr_def Let_def)
  have "unat (target_slot_addr (bl b) + 128) = unat (target_slot_addr (bl b)) + 128"
    using boot_map_simps(4)[of t] by (subst unat_add_32) (simp_all add: T)
  then have "target_slot_addr (bl b) \<le> target_slot_addr (bl b) + 128" by (simp add: word_le_nat_alt)
  then show "bootloader_get_slot_ptr (flash_of b) (target_slot_addr (bl b) + 128) =
      Some (drop 128 (s_mock_flash_slot_b (flash_of b)))"
    using len by (simp add: bootloader_get_slot_ptr_def Let_def)
qed

text \<open>The metadata the routine works on when it may not be a bare checksum.\<close>

definition announced :: "'f boot_state \<Rightarrow> bytes \<Rightarrow> FirmwareMetadata_t" where
  "announced b input = the (metadata_of_bytes (if 128 \<le> length input then input else s_mock_flash_slot_b (flash_of b)))"

definition payload_in :: "bytes \<Rightarrow> u32 \<Rightarrow> bytes" where
  "payload_in slot image_size = take (unat image_size - 128) (drop 128 slot)"

definition candidate_good :: "'f boot_state \<Rightarrow> FirmwareMetadata_t \<Rightarrow> bool" where
  "candidate_good b m \<longleftrightarrow> boot_validate_metadata m \<and> uds_bootloader_get_version_floor b \<le> fm_version m \<and>
     128 < unat (fm_image_size m) \<and> unat (fm_image_size m) \<le> UDS_BL_MOCK_FLASH_SIZE \<and>
     sha256_spec (payload_in (s_mock_flash_slot_b (flash_of b)) (fm_image_size m)) = fm_sha256 m \<and>
     (s_signature_required b \<longrightarrow> uds_bootloader_verify_signature b (sha256_spec (manifest_bytes m)) (fm_signature m))"

lemma announced_total:
  assumes "boot_wf t b"
  shows "metadata_of_bytes (if 128 \<le> length input then input else s_mock_flash_slot_b (flash_of b)) = Some (announced b input)"
    "meta_wf (announced b input)"
  using metadata_of_bytes_total[of "if 128 \<le> length input then input else s_mock_flash_slot_b (flash_of b)"] assms
  by (auto simp: announced_def boot_wf_def arrays_wf_def UDS_BL_MOCK_FLASH_SIZE_def)

lemma hash_stream:
  assumes "length junk = 64"
  shows "do { sha \<leftarrow> sha256_update (sha256_init \<lparr> sha_state = [], sha_count = 0, sha_buffer = junk \<rparr>) data;
      (h, sha) \<leftarrow> sha256_final sha; g h } = g (sha256_spec data)"
proof -
  have "sha256_hash junk data = Some (sha256_spec data)" by (rule sha256_hash_spec[OF assms])
  then show ?thesis by (auto simp: sha256_hash_def split: Option.bind_splits)
qed

lemma verify_crypto_exact:
  assumes "boot_wf t b" "length junk = 64" "boot_validate_metadata m" "uds_bootloader_get_version_floor b \<le> fm_version m"
  shows "\<exists>res status. verify_candidate_crypto junk b m = Some (res, status) \<and> (res = UDS_RESULT_OK \<longleftrightarrow> candidate_good b m) \<and>
     (res \<noteq> UDS_RESULT_OK \<longrightarrow> status \<in> {3, 4})"
proof -
  have len: "length (s_mock_flash_slot_b (flash_of b)) = 4096"
    using assms(1) by (simp add: boot_wf_def arrays_wf_def UDS_BL_MOCK_FLASH_SIZE_def)
  show ?thesis
  proof (cases "fm_image_size m \<le> 128")
    case True
    then show ?thesis by (auto simp: verify_candidate_crypto_def candidate_good_def word_le_nat_alt)
  next
    case False
    then have size: "unat (fm_image_size m - 128) = unat (fm_image_size m) - 128" "128 < unat (fm_image_size m)"
      by (simp_all add: unat_sub_32 word_le_nat_alt)
    show ?thesis
      using False assms(2-4) len
      by (auto simp: verify_candidate_crypto_def slot_b_ptr[OF assms(1)] size Let_def hash_stream candidate_good_def
        payload_in_def boot_manifest_digest_def sha256_hash_spec UDS_BL_MOCK_FLASH_SIZE_def)
  qed
qed

lemma check_memory_cases:
  assumes "boot_wf t b" "verify_mode (bl b) = UDS_BL_VERIFY_MODE_SHA256_SECURE" "length junk = 64"
    "sub \<noteq> UDS_ROUTINE_SUBFUNCTION_REQUEST_RESULTS"
  obtains
    (good) "candidate_good b (announced b input)"
      "routine_check_memory junk sub input b = Some (UDS_RESULT_OK, [0], 1,
         (let staged = (announced b input)\<lparr> fm_status := UDS_BL_SLOT_CANDIDATE \<rparr>;
              b = bootloader_nvm_save_metadata staged (set_bl ((bl b)\<lparr> staging_metadata := staged \<rparr>) b) in
          set_bl ((bl b)\<lparr> candidate_verified := True, last_check_memory_result := 0,
            last_check_dependencies_result := 0 \<rparr>) b))"
  | (refused) res status where "\<not> candidate_good b (announced b input)" "res \<noteq> UDS_RESULT_OK" "status \<noteq> 0"
      "routine_check_memory junk sub input b = Some (check_memory_refused res status b)"
proof -
  have len: "length (s_mock_flash_slot_b (flash_of b)) = 4096"
    using assms(1) by (simp add: boot_wf_def arrays_wf_def UDS_BL_MOCK_FLASH_SIZE_def)
  let ?m = "announced b input"
  let ?k = "\<lambda>meta. if \<not> boot_validate_metadata meta then Some (check_memory_refused UDS_RESULT_OUT_OF_RANGE 1 b)
             else if fm_version meta < uds_bootloader_get_version_floor b
             then Some (check_memory_refused UDS_RESULT_OUT_OF_RANGE 2 b)
             else do {
               (res, status) \<leftarrow> verify_candidate_crypto junk b meta;
               (if res \<noteq> UDS_RESULT_OK then Some (check_memory_refused res status b)
                else
                  let staged = meta\<lparr> fm_status := UDS_BL_SLOT_CANDIDATE \<rparr>;
                      b = bootloader_nvm_save_metadata staged (set_bl ((bl b)\<lparr> staging_metadata := staged \<rparr>) b);
                      b = set_bl ((bl b)\<lparr> candidate_verified := True, last_check_memory_result := 0,
                        last_check_dependencies_result := 0 \<rparr>) b in
                  Some (UDS_RESULT_OK, [0], 1, b))
             }"
  have eq: "routine_check_memory junk sub input b = ?k ?m"
    using announced_total(1)[OF assms(1), of input] assms(2,4) len
    by (cases "128 \<le> length input")
      (simp_all add: routine_check_memory_def parse_check_memory_metadata_def slot_b_ptr[OF assms(1)] cong: if_cong)
  show ?thesis
  proof (cases "boot_validate_metadata ?m \<and> uds_bootloader_get_version_floor b \<le> fm_version ?m")
    case False
    then have bad: "\<not> candidate_good b ?m" by (auto simp: candidate_good_def)
    from False have "?k ?m = Some (check_memory_refused UDS_RESULT_OUT_OF_RANGE 1 b) \<or>
        ?k ?m = Some (check_memory_refused UDS_RESULT_OUT_OF_RANGE 2 b)" by auto
    with eq bad refused[of UDS_RESULT_OUT_OF_RANGE 1] refused[of UDS_RESULT_OUT_OF_RANGE 2] show ?thesis by auto
  next
    case True
    then have floor: "\<not> fm_version ?m < uds_bootloader_get_version_floor b" by (simp add: not_less)
    from verify_crypto_exact[OF assms(1,3), of ?m] True obtain res status where
      v: "verify_candidate_crypto junk b ?m = Some (res, status)" "res = UDS_RESULT_OK \<longleftrightarrow> candidate_good b ?m"
        "res \<noteq> UDS_RESULT_OK \<longrightarrow> status \<in> {3, 4}" by blast
    show ?thesis
    proof (cases "res = UDS_RESULT_OK")
      case res: True
      have "?k ?m = Some (UDS_RESULT_OK, [0], 1,
         (let staged = ?m\<lparr> fm_status := UDS_BL_SLOT_CANDIDATE \<rparr>;
              b = bootloader_nvm_save_metadata staged (set_bl ((bl b)\<lparr> staging_metadata := staged \<rparr>) b) in
          set_bl ((bl b)\<lparr> candidate_verified := True, last_check_memory_result := 0,
            last_check_dependencies_result := 0 \<rparr>) b))"
        using True floor v(1) res by (simp add: Let_def)
      with eq v(2) res good show ?thesis by simp
    next
      case res: False
      have "?k ?m = Some (check_memory_refused res status b)"
        using True floor v(1) res by simp
      moreover have "status \<noteq> 0" using v(3) res by auto
      ultimately show ?thesis using eq v(2) res refused[of res status] by simp
    qed
  qed
qed

end
