(* ===== verification/Bootloader_Invariant.thy ===== *)
theory Bootloader_Invariant
  imports Bootloader_State
begin

text \<open>
  Every operation of the bootloader keeps its invariant; only an activation writes slot A.
\<close>

section \<open>Every call keeps the invariant\<close>

lemma dl_metadata_keeps:
  assumes "dl_callbacks d = bl_dl_callbacks"
  shows "image_address (dl_metadata (snd (uds_download_poll_erase d now))) = image_address (dl_metadata d)"
    "image_length (dl_metadata (snd (uds_download_poll_erase d now))) = image_length (dl_metadata d)"
    "received_length (dl_metadata (snd (uds_download_poll_erase d now))) = received_length (dl_metadata d)"
    "image_address (dl_metadata (snd (uds_download_finish d e h now))) = image_address (dl_metadata d)"
    "image_length (dl_metadata (snd (uds_download_finish d e h now))) = image_length (dl_metadata d)"
    "received_length (dl_metadata (snd (uds_download_finish d e h now))) = received_length (dl_metadata d)"
proof -
  show "image_address (dl_metadata (snd (uds_download_poll_erase d now))) = image_address (dl_metadata d)"
    "image_length (dl_metadata (snd (uds_download_poll_erase d now))) = image_length (dl_metadata d)"
    "received_length (dl_metadata (snd (uds_download_poll_erase d now))) = received_length (dl_metadata d)"
    using assms
    by (auto simp: uds_download_poll_erase_def watchdog_bl uds_download_abort_def bootloader_flash_erase_poll_def Let_def)
  define d1 where "d1 = d\<lparr> dl_state := UDS_DOWNLOAD_VERIFYING, dl_metadata := (dl_metadata d)
    \<lparr> crc_valid := (\<not> h \<or> dl_crc32 d XOR 0xFFFFFFFF = e) \<rparr> \<rparr>"
  obtain r1 c where v: "bootloader_flash_verify (dl_context d) (dl_metadata d1) e h = (r1, c)" by fastforce
  show "image_address (dl_metadata (snd (uds_download_finish d e h now))) = image_address (dl_metadata d)"
    "image_length (dl_metadata (snd (uds_download_finish d e h now))) = image_length (dl_metadata d)"
    "received_length (dl_metadata (snd (uds_download_finish d e h now))) = received_length (dl_metadata d)"
    using assms v
    by (auto simp: uds_download_finish_def uds_download_abort_def Let_def d1_def split: if_splits)
qed

lemma poll_transferring:
  assumes "dl_callbacks d = bl_dl_callbacks" "transferring (dl_state (snd (uds_download_poll_erase d now)))"
  shows "transferring (dl_state d)"
  using assms
  by (auto simp: uds_download_poll_erase_def watchdog_bl uds_download_abort_def bootloader_flash_erase_poll_def Let_def
    transferring_def split: if_splits)

lemma finish_transferring:
  assumes "dl_callbacks d = bl_dl_callbacks" "transferring (dl_state (snd (uds_download_finish d e h now)))"
  shows "transferring (dl_state d)"
proof -
  define d1 where "d1 = d\<lparr> dl_state := UDS_DOWNLOAD_VERIFYING, dl_metadata := (dl_metadata d)
    \<lparr> crc_valid := (\<not> h \<or> dl_crc32 d XOR 0xFFFFFFFF = e) \<rparr> \<rparr>"
  obtain r1 c where v: "bootloader_flash_verify (dl_context d) (dl_metadata d1) e h = (r1, c)" by fastforce
  show ?thesis
    using assms v
    by (auto simp: uds_download_finish_def uds_download_abort_def Let_def d1_def transferring_def split: if_splits)
qed

lemma staged_poll: "dl_callbacks d = bl_dl_callbacks \<Longrightarrow> staged_in t d \<Longrightarrow> staged_in t (snd (uds_download_poll_erase d now))"
  using poll_transferring[of d now] by (auto simp: staged_in_def dl_metadata_keeps)

lemma staged_finish:
  "dl_callbacks d = bl_dl_callbacks \<Longrightarrow> staged_in t d \<Longrightarrow> staged_in t (snd (uds_download_finish d e h now))"
  using finish_transferring[of d e h now] by (auto simp: staged_in_def dl_metadata_keeps)

lemma staged_abort: "staged_in t (uds_download_abort d)"
  by (simp add: staged_in_def uds_download_abort_def Let_def transferring_def)

lemma staged_context [simp]: "staged_in t (d\<lparr> dl_context := c \<rparr>) = staged_in t d"
  by (simp add: staged_in_def)

lemma region_staged:
  assumes "validate_download_region (boot_map t) a n"
  shows "reg_start (staging_image (boot_map t)) \<le> a" "unat a + unat n < 4294967296"
proof -
  have "n \<noteq> 0" "\<not> a + n < a" "range_inside (staging_image (boot_map t)) a n"
    using assms by (auto simp: validate_download_region_def Let_def split: if_splits)
  then show "reg_start (staging_image (boot_map t)) \<le> a" by (auto simp: range_inside_def split: if_splits)
  have "a \<le> a + n" using \<open>\<not> a + n < a\<close> by simp
  then have "unat (a + n) = unat a + unat n" by (simp add: unat_plus_simple)
  then show "unat a + unat n < 4294967296" using unat_u32_lt[of "a + n"] by simp
qed

text \<open>A download call changes the engine, the flash arrays but slot A, and two flags.\<close>

lemma boot_inv_download:
  assumes "boot_inv t b" "dl_memory d = boot_map t" "dl_callbacks d = bl_dl_callbacks" "staged_in t d"
    "arrays_wf (dl_context d)" "s_bl_ctx (dl_context d) = (bl b)\<lparr> download_in_progress := p, candidate_verified := q \<rparr>"
    "q \<longrightarrow> candidate_verified (bl b)"
  shows "boot_inv t (b\<lparr> s_bl_download := d \<rparr>)"
proof -
  let ?b = "b\<lparr> s_bl_download := d \<rparr>"
  have "accepted ?b (staging_metadata (bl ?b))" if "candidate_verified (bl ?b)"
  proof -
    have "accepted b (staging_metadata (bl b))" using that assms(1,6,7) by (simp add: boot_inv_def)
    then have "accepted ?b (staging_metadata (bl b))" by (rule accepted_cong) (simp_all add: assms(6))
    then show ?thesis by (simp add: assms(6))
  qed
  then show ?thesis using assms by (auto simp: boot_inv_def boot_wf_def slots_at_def)
qed


lemma bl_same: "s_bl_ctx fl = (s_bl_ctx fl)\<lparr> download_in_progress := download_in_progress (s_bl_ctx fl),
    candidate_verified := candidate_verified (s_bl_ctx fl) \<rparr>"
  by simp

lemma request_keeps:
  assumes "boot_inv t b"
  shows "boot_inv t (snd (snd (uds_bootloader_request_download now b a n mb)))"
    "s_mock_flash_slot_a (flash_of (snd (snd (uds_bootloader_request_download now b a n mb)))) = s_mock_flash_slot_a (flash_of b)"
proof -
  have wf: "arrays_wf (flash_of b)" "slots_at t (bl b)" "dl_memory (s_bl_download b) = boot_map t"
    "dl_callbacks (s_bl_download b) = bl_dl_callbacks" "staged_in t (s_bl_download b)"
    using assms by (simp_all add: boot_inv_def boot_wf_def)
  obtain r d where g: "uds_download_begin (s_bl_download b) a n now = (r, d)" by fastforce
  note bg = begin_bl[OF wf(4) g]
  have "boot_inv t (snd (snd (uds_bootloader_request_download now b a n mb))) \<and>
    s_mock_flash_slot_a (flash_of (snd (snd (uds_bootloader_request_download now b a n mb)))) = s_mock_flash_slot_a (flash_of b)"
  proof (cases "a < target_slot_addr (bl b) \<or> a + n > target_slot_addr (bl b) + target_slot_size (bl b) \<or> r \<noteq> UDS_DOWNLOAD_OK")
    case True
    then show ?thesis
      using assms g bg(3) by (auto simp: uds_bootloader_request_download_def)
  next
    case False
    obtain e fl where er: "bootloader_flash_erase_start (flash_of b) a n = (e, fl)" by fastforce
    note ek = erase_keeps[OF er]
    have ok: "dl_context d = fl" "validate_download_region (boot_map t) a n" "image_address (dl_metadata d) = a"
      "image_length (dl_metadata d) = n" "received_length (dl_metadata d) = 0"
      using False bg(4) er wf(3) by auto
    have cb: "dl_callbacks d = bl_dl_callbacks" "dl_memory d = boot_map t" using bg(1,2) wf(3,4) by simp_all
    have st: "staged_in t d" using region_staged[OF ok(2)] ok by (simp add: staged_in_def)
    define d1 where "d1 = snd (uds_download_poll_erase d now)"
    have d1: "dl_context d1 = fl" "dl_memory d1 = boot_map t" "dl_callbacks d1 = bl_dl_callbacks" "staged_in t d1"
      using poll_bl[OF cb(1), of now] staged_poll[OF cb(1) st, of now] ok(1) cb(2) by (simp_all add: d1_def cb(1))
    define d2 where "d2 = d1\<lparr> dl_context := fl\<lparr> s_bl_ctx := (bl b)\<lparr> download_in_progress := True, candidate_verified := False \<rparr> \<rparr> \<rparr>"
    have eq: "snd (snd (uds_bootloader_request_download now b a n mb)) = b\<lparr> s_bl_download := d2 \<rparr>"
      using False g ek(3) d1(1)
      by (simp add: uds_bootloader_request_download_def Let_def set_bl_def set_flash_def d1_def[symmetric] d2_def)
    have "boot_inv t (b\<lparr> s_bl_download := d2 \<rparr>)"
      by (rule boot_inv_download[OF assms, where p = True and q = False])
        (use d1 ek(2)[OF wf(1)] in \<open>simp_all add: d2_def arrays_wf_def\<close>)
    moreover have "s_mock_flash_slot_a fl = s_mock_flash_slot_a (flash_of b)"
      using ek(4) False by (simp add: not_less)
    ultimately show ?thesis by (simp add: eq) (simp add: d2_def)
  qed
  then show "boot_inv t (snd (snd (uds_bootloader_request_download now b a n mb)))"
    "s_mock_flash_slot_a (flash_of (snd (snd (uds_bootloader_request_download now b a n mb)))) = s_mock_flash_slot_a (flash_of b)"
    by auto
qed

lemma transfer_keeps:
  assumes "boot_inv t b" "length data < 65536"
  shows "\<exists>r b'. uds_bootloader_transfer_data now b blk data = Some (r, b') \<and> boot_inv t b' \<and>
     s_mock_flash_slot_a (flash_of b') = s_mock_flash_slot_a (flash_of b)"
proof (cases "download_in_progress (bl b)")
  case False
  then show ?thesis using assms(1) by (simp add: uds_bootloader_transfer_data_def)
next
  case True
  define d where "d = (if uds_download_state (s_bl_download b) = UDS_DOWNLOAD_ERASING
    then snd (uds_download_poll_erase (s_bl_download b) now) else s_bl_download b)"
  have wf: "arrays_wf (flash_of b)" "slots_at t (bl b)" "dl_memory (s_bl_download b) = boot_map t"
    "dl_callbacks (s_bl_download b) = bl_dl_callbacks" "staged_in t (s_bl_download b)"
    using assms by (simp_all add: boot_inv_def boot_wf_def)
  have d: "dl_context d = flash_of b" "dl_memory d = boot_map t" "dl_callbacks d = bl_dl_callbacks" "staged_in t d"
    using poll_bl[OF wf(4), of now] staged_poll[OF wf(4,5), of now] wf by (simp_all add: d_def)
  from write_bl[OF d(3) _ assms(2), of blk now] boot_map_simps(1)[of t] d(2) obtain r d' where
    w: "uds_download_write d blk data now = Some (r, d')" "dl_memory d' = boot_map t" "dl_callbacks d' = bl_dl_callbacks"
    "dl_context d' = dl_context d \<and> (dl_state d' = UDS_DOWNLOAD_ABORTED_STATE \<or> d' = d) \<or>
      dl_state d = UDS_DOWNLOAD_RECEIVING \<and> dl_state d' = UDS_DOWNLOAD_RECEIVING \<and>
      length data \<le> unat (image_length (dl_metadata d) - received_length (dl_metadata d)) \<and>
      dl_context d' = mock_flash_program (dl_context d) (image_address (dl_metadata d) + received_length (dl_metadata d)) data \<and>
      image_address (dl_metadata d') = image_address (dl_metadata d) \<and>
      image_length (dl_metadata d') = image_length (dl_metadata d) \<and>
      received_length (dl_metadata d') = received_length (dl_metadata d) + of_nat (length data)"
    by (auto simp: d(3))
  have eq: "\<exists>r. uds_bootloader_transfer_data now b blk data = Some (r, b\<lparr> s_bl_download := d' \<rparr>)"
    using True w(1) by (simp add: uds_bootloader_transfer_data_def Let_def d_def[symmetric] if_distrib cong: if_cong)
      (auto simp: d_def split: if_splits)
  have "arrays_wf (dl_context d') \<and> s_bl_ctx (dl_context d') = bl b \<and> staged_in t d' \<and>
    s_mock_flash_slot_a (dl_context d') = s_mock_flash_slot_a (flash_of b)"
    using w(4)
  proof (elim disjE conjE)
    assume s: "dl_state d = UDS_DOWNLOAD_RECEIVING" "dl_state d' = UDS_DOWNLOAD_RECEIVING"
      and len: "length data \<le> unat (image_length (dl_metadata d) - received_length (dl_metadata d))"
      and ctx: "dl_context d' = mock_flash_program (dl_context d) (image_address (dl_metadata d) + received_length (dl_metadata d)) data"
      and md: "image_address (dl_metadata d') = image_address (dl_metadata d)"
        "image_length (dl_metadata d') = image_length (dl_metadata d)"
        "received_length (dl_metadata d') = received_length (dl_metadata d) + of_nat (length data)"
    have st: "reg_start (staging_image (boot_map t)) \<le> image_address (dl_metadata d)"
      "unat (image_address (dl_metadata d)) + unat (image_length (dl_metadata d)) < 4294967296"
      "received_length (dl_metadata d) \<le> image_length (dl_metadata d)"
      using d(4) s(1) by (simp_all add: staged_in_def transferring_def)
    have rl: "unat (received_length (dl_metadata d)) \<le> unat (image_length (dl_metadata d))"
      using st(3) by (simp add: word_le_nat_alt)
    have len': "unat (received_length (dl_metadata d)) + length data \<le> unat (image_length (dl_metadata d))"
      using len rl st(3) by (simp add: unat_sub_32)
    have "unat (image_address (dl_metadata d) + received_length (dl_metadata d)) =
        unat (image_address (dl_metadata d)) + unat (received_length (dl_metadata d))"
      using st(2) rl by (intro unat_add_32) linarith
    then have a: "reg_start (staging_image (boot_map t)) \<le> image_address (dl_metadata d) + received_length (dl_metadata d)"
      using st(1) by (simp add: word_le_nat_alt)
    have "unat (received_length (dl_metadata d) + of_nat (length data)) = unat (received_length (dl_metadata d)) + length data"
      using len' unat_u32_lt[of "image_length (dl_metadata d)"] assms(2)
      by (subst unat_add_32) (simp_all add: unat_of_nat_32 del: unat_u32_lt)
    then have "received_length (dl_metadata d') \<le> image_length (dl_metadata d')"
      using len' md by (simp add: word_le_nat_alt)
    then show ?thesis
      using program_keeps[OF wf(1,2) assms(2)] a st md ctx d(1) by (simp add: staged_in_def)
  qed (use wf(1) d staged_abort in \<open>auto simp: staged_in_def transferring_def\<close>)
  moreover from this have "boot_inv t (b\<lparr> s_bl_download := d' \<rparr>)"
    by (intro boot_inv_download[OF assms(1), where p = "download_in_progress (bl b)" and q = "candidate_verified (bl b)"])
      (simp_all add: w)
  ultimately show ?thesis using eq by auto
qed

lemma exit_keeps:
  assumes "boot_inv t b"
  shows "boot_inv t (snd (snd (snd (uds_bootloader_transfer_exit now b request rl))))"
    "s_mock_flash_slot_a (flash_of (snd (snd (snd (uds_bootloader_transfer_exit now b request rl))))) =
       s_mock_flash_slot_a (flash_of b)"
proof -
  have wf: "arrays_wf (flash_of b)" "slots_at t (bl b)" "dl_memory (s_bl_download b) = boot_map t"
    "dl_callbacks (s_bl_download b) = bl_dl_callbacks" "staged_in t (s_bl_download b)"
    using assms by (simp_all add: boot_inv_def boot_wf_def)
  define has where "has = (4 \<le> length request)"
  define crc :: u32 where "crc = (if has then push_bit 24 (ucast (request ! 0)) OR push_bit 16 (ucast (request ! 1)) OR
      push_bit 8 (ucast (request ! 2)) OR ucast (request ! 3) else 0)"
  obtain r d where g: "uds_download_finish (s_bl_download b) crc has now = (r, d)" by fastforce
  note fb = finish_bl[OF wf(4) g]
  have st: "staged_in t d" using staged_finish[OF wf(4,5), of crc has now] g by simp
  define d1 where "d1 = d\<lparr> dl_context := (flash_of b)\<lparr> s_bl_ctx := (bl b)\<lparr> download_in_progress := False \<rparr> \<rparr> \<rparr>"
  define d2 where "d2 = (if r = UDS_DOWNLOAD_OK then d1 else uds_download_abort d1)"
  have d2: "dl_context d2 = dl_context d1" "dl_memory d2 = boot_map t" "dl_callbacks d2 = bl_dl_callbacks" "staged_in t d2"
    using fb wf st by (auto simp: d2_def d1_def uds_download_abort_def staged_in_def transferring_def)
  have "boot_inv t (b\<lparr> s_bl_download := d2 \<rparr>)"
    by (rule boot_inv_download[OF assms, where p = False and q = "candidate_verified (bl b)"])
      (use d2 wf in \<open>simp_all add: d1_def arrays_wf_def\<close>)
  moreover have "snd (snd (snd (uds_bootloader_transfer_exit now b request rl))) = b \<or>
      snd (snd (snd (uds_bootloader_transfer_exit now b request rl))) = b\<lparr> s_bl_download := d2 \<rparr>"
    using g fb(1)
    by (simp add: uds_bootloader_transfer_exit_def Let_def has_def[symmetric] crc_def[symmetric] set_bl_def set_flash_def
      d2_def d1_def)
  ultimately show "boot_inv t (snd (snd (snd (uds_bootloader_transfer_exit now b request rl))))"
    "s_mock_flash_slot_a (flash_of (snd (snd (snd (uds_bootloader_transfer_exit now b request rl))))) =
       s_mock_flash_slot_a (flash_of b)"
    using assms d2(1) by (auto simp: d1_def)
qed

text \<open>A call that changes only fields of the context and the stored metadata.\<close>

lemma boot_inv_context:
  assumes "boot_inv t b" "s_bl_download b' = (s_bl_download b)\<lparr> dl_context := (flash_of b)\<lparr> s_bl_ctx := c \<rparr> \<rparr>"
    "s_bl_memory_map b' = s_bl_memory_map b" "s_signature_required b' = s_signature_required b"
    "length (s_mock_nvm_storage b') = 128" "meta_wf (staging_metadata c)" "slots_at t c"
    "last_erase_result c = 0" "verify_mode c = verify_mode (bl b)"
    "candidate_verified c \<Longrightarrow> accepted b' (staging_metadata c)"
  shows "boot_inv t b'" "s_mock_flash_slot_a (flash_of b') = s_mock_flash_slot_a (flash_of b)"
  using assms by (simp_all add: boot_inv_def boot_wf_def arrays_wf_def)

lemma slots_at_context [simp]:
  "slots_at t (c\<lparr> active_version := x1 \<rparr>) = slots_at t c" "slots_at t (c\<lparr> candidate_verified := x2 \<rparr>) = slots_at t c"
  "slots_at t (c\<lparr> last_check_memory_result := x3 \<rparr>) = slots_at t c" "slots_at t (c\<lparr> last_erase_result := x3 \<rparr>) = slots_at t c"
  "slots_at t (c\<lparr> last_check_dependencies_result := x3 \<rparr>) = slots_at t c"
  "slots_at t (c\<lparr> staging_metadata := x4 \<rparr>) = slots_at t c" "slots_at t (c\<lparr> download_in_progress := x2 \<rparr>) = slots_at t c"
  by (simp_all add: slots_at_def)

lemma accepted_of_good:
  assumes "candidate_good b m" "s_signature_required b"
  shows "accepted b (m\<lparr> fm_status := UDS_BL_SLOT_CANDIDATE \<rparr>)"
proof -
  have "manifest_bytes (m\<lparr> fm_status := UDS_BL_SLOT_CANDIDATE \<rparr>) = manifest_bytes m"
    by (simp add: manifest_bytes_def)
  then show ?thesis
    using assms by (auto simp: accepted_def candidate_good_def boot_validate_metadata_def split: if_splits)
qed

lemma check_memory_keeps:
  assumes "boot_inv t b" "length junk = 64"
  shows "\<exists>r out b'. routine_check_memory junk sub input b = Some (r, out, 1, b') \<and> boot_inv t b' \<and>
     s_mock_flash_slot_a (flash_of b') = s_mock_flash_slot_a (flash_of b)"
proof (cases "sub = UDS_ROUTINE_SUBFUNCTION_REQUEST_RESULTS")
  case True
  then show ?thesis using assms(1) by (simp add: routine_check_memory_def)
next
  case False
  have wf: "boot_wf t b" "verify_mode (bl b) = UDS_BL_VERIFY_MODE_SHA256_SECURE" "s_signature_required b"
    "slots_at t (bl b)" "last_erase_result (bl b) = 0" "length (s_mock_nvm_storage b) = 128" "meta_wf (staging_metadata (bl b))"
    using assms(1) by (simp_all add: boot_inv_def boot_wf_def)
  from wf(1,2) assms(2) False show ?thesis
  proof (cases rule: check_memory_cases[where input = input])
    case good
    define m where "m = (announced b input)\<lparr> fm_status := UDS_BL_SLOT_CANDIDATE \<rparr>"
    have m: "meta_wf m" using announced_total(2)[OF wf(1)] by (simp add: m_def)
    define c where "c = (bl b)\<lparr> staging_metadata := m, candidate_verified := True, last_check_memory_result := 0,
      last_check_dependencies_result := 0 \<rparr>"
    define b' where "b' = (let b = bootloader_nvm_save_metadata m (set_bl ((bl b)\<lparr> staging_metadata := m \<rparr>) b) in
      set_bl ((bl b)\<lparr> candidate_verified := True, last_check_memory_result := 0, last_check_dependencies_result := 0 \<rparr>) b)"
    have c: "last_erase_result c = 0" "verify_mode c = verify_mode (bl b)" "staging_metadata c = m" "slots_at t c"
      "active_version c = active_version (bl b)"
      using wf(4,5) by (simp_all add: c_def)
    have b': "s_bl_download b' = (s_bl_download b)\<lparr> dl_context := (flash_of b)\<lparr> s_bl_ctx := c \<rparr> \<rparr>"
      "s_bl_memory_map b' = s_bl_memory_map b" "s_signature_required b' = s_signature_required b"
      "s_mock_nvm_storage b' = metadata_image (boot_finalize_metadata m)" "s_floor_store b' = s_floor_store b"
      "s_signature_verifier b' = s_signature_verifier b"
      by (simp_all add: b'_def nvm_save_eq Let_def c_def)
    have "accepted b m" using accepted_of_good[OF good(1) wf(3)] by (simp add: m_def)
    then have acc: "accepted b' m" by (rule accepted_cong) (simp_all add: b' c)
    have "boot_inv t b' \<and> s_mock_flash_slot_a (flash_of b') = s_mock_flash_slot_a (flash_of b)"
      using boot_inv_context[OF assms(1) b'(1-3)] m acc c by (simp add: b'(4) length_metadata_image)
    then show ?thesis using good(2) by (simp add: b'_def m_def Let_def)
  next
    case (refused res status)
    have "boot_inv t (set_bl ((bl b)\<lparr> last_check_memory_result := status \<rparr>) b) \<and>
      s_mock_flash_slot_a (flash_of (set_bl ((bl b)\<lparr> last_check_memory_result := status \<rparr>) b)) = s_mock_flash_slot_a (flash_of b)"
    proof -
      have "accepted (set_bl ((bl b)\<lparr> last_check_memory_result := status \<rparr>) b) (staging_metadata (bl b))"
        if "candidate_verified (bl b)"
      proof -
        have "accepted b (staging_metadata (bl b))" using that assms(1) by (simp add: boot_inv_def)
        then show ?thesis by (rule accepted_cong) simp_all
      qed
      then show ?thesis
        using boot_inv_context[OF assms(1), of "set_bl ((bl b)\<lparr> last_check_memory_result := status \<rparr>) b"
          "(bl b)\<lparr> last_check_memory_result := status \<rparr>"] wf by simp
    qed
    then show ?thesis using refused(4) by (simp add: check_memory_refused_def)
  qed
qed

lemma erase_routine_keeps:
  assumes "boot_inv t b"
  shows "\<exists>out b'. routine_erase_memory sub b = (UDS_RESULT_OK, out, 1, b') \<and> boot_inv t b' \<and>
     s_mock_flash_slot_a (flash_of b') = s_mock_flash_slot_a (flash_of b)"
proof (cases "sub = UDS_ROUTINE_SUBFUNCTION_REQUEST_RESULTS")
  case True
  then show ?thesis using assms by (simp add: routine_erase_memory_def)
next
  case False
  obtain r fl where e: "bootloader_flash_erase_start (flash_of b) (target_slot_addr (bl b)) (target_slot_size (bl b)) = (r, fl)"
    by fastforce
  note ek = erase_keeps[OF e]
  have wf: "arrays_wf (flash_of b)" "last_erase_result (bl b) = 0" "dl_memory (s_bl_download b) = boot_map t"
    "dl_callbacks (s_bl_download b) = bl_dl_callbacks" "staged_in t (s_bl_download b)"
    using assms by (simp_all add: boot_inv_def boot_wf_def)
  define d where "d = (s_bl_download b)\<lparr> dl_context := fl \<rparr>"
  have "bl b = (bl b)\<lparr> last_erase_result := 0 \<rparr>" using wf(2) by simp
  then have same: "fl\<lparr> s_bl_ctx := (bl b)\<lparr> last_erase_result := 0 \<rparr> \<rparr> = fl" using ek(3) by simp
  have "routine_erase_memory sub b = (UDS_RESULT_OK, [0], 1, b\<lparr> s_bl_download := d \<rparr>)"
    using False e ek(1,3) same by (simp add: routine_erase_memory_def Let_def set_bl_def set_flash_def d_def)
  moreover have "boot_inv t (b\<lparr> s_bl_download := d \<rparr>)"
    using ek(2)[OF wf(1)] ek(3) wf
    by (intro boot_inv_download[OF assms, where p = "download_in_progress (bl b)" and q = "candidate_verified (bl b)"])
      (simp_all add: d_def)
  ultimately show ?thesis using ek(4) by (simp add: d_def)
qed

lemma dependencies_keeps:
  assumes "boot_inv t b"
  shows "\<exists>r out b'. routine_check_dependencies sub b = (r, out, 1, b') \<and> boot_inv t b' \<and>
     s_mock_flash_slot_a (flash_of b') = s_mock_flash_slot_a (flash_of b)"
proof -
  have wf: "slots_at t (bl b)" "last_erase_result (bl b) = 0" "length (s_mock_nvm_storage b) = 128"
    "meta_wf (staging_metadata (bl b))"
    using assms by (simp_all add: boot_inv_def boot_wf_def)
  have "boot_inv t (set_bl ((bl b)\<lparr> last_check_dependencies_result := s \<rparr>) b) \<and>
    s_mock_flash_slot_a (flash_of (set_bl ((bl b)\<lparr> last_check_dependencies_result := s \<rparr>) b)) = s_mock_flash_slot_a (flash_of b)" for s
  proof -
    have "accepted (set_bl ((bl b)\<lparr> last_check_dependencies_result := s \<rparr>) b) (staging_metadata (bl b))"
      if "candidate_verified (bl b)"
    proof -
      have "accepted b (staging_metadata (bl b))" using that assms by (simp add: boot_inv_def)
      then show ?thesis by (rule accepted_cong) simp_all
    qed
    then show ?thesis
      using boot_inv_context[OF assms, of "set_bl ((bl b)\<lparr> last_check_dependencies_result := s \<rparr>) b"
        "(bl b)\<lparr> last_check_dependencies_result := s \<rparr>"] wf by simp
  qed
  then show ?thesis using assms by (auto simp: routine_check_dependencies_def Let_def)
qed

lemma routine_keeps:
  assumes "boot_inv t b" "length junk = 64"
  shows "\<exists>r out n b'. uds_bootloader_routine_control junk b sub rid input rl capacity = Some (r, out, n, b') \<and> boot_inv t b' \<and>
     s_mock_flash_slot_a (flash_of b') = s_mock_flash_slot_a (flash_of b)"
  using assms(1) check_memory_keeps[OF assms, of sub input] erase_routine_keeps[OF assms(1), of sub]
    dependencies_keeps[OF assms(1), of sub]
  by (auto simp: uds_bootloader_routine_control_def k_boot_routines_def)

lemma rollback_keeps:
  assumes "boot_inv t b"
  shows "boot_inv t (snd (uds_bootloader_rollback_candidate b))"
    "s_mock_flash_slot_a (flash_of (snd (uds_bootloader_rollback_candidate b))) = s_mock_flash_slot_a (flash_of b)"
    "fm_status (staging_metadata (bl (snd (uds_bootloader_rollback_candidate b)))) = UDS_BL_SLOT_ROLLBACK"
proof -
  have wf: "slots_at t (bl b)" "last_erase_result (bl b) = 0" "meta_wf (staging_metadata (bl b))"
    using assms by (simp_all add: boot_inv_def boot_wf_def)
  define m where "m = (staging_metadata (bl b))\<lparr> fm_status := UDS_BL_SLOT_ROLLBACK, fm_active_slot := 0 \<rparr>"
  define c where "c = (bl b)\<lparr> active_slot_addr := (if bl_target (bl b) = UDS_BL_TARGET_STM32C092
      then UDS_BL_C092_APP_SLOT_A_START else UDS_BL_F767_APP_SLOT_A_START),
    active_version := 1, candidate_verified := False, staging_metadata := m \<rparr>"
  have c: "slots_at t c" "last_erase_result c = 0" "meta_wf (staging_metadata c)" "verify_mode c = verify_mode (bl b)"
    "\<not> candidate_verified c"
    using wf by (auto simp: c_def m_def slots_at_def boot_map_def c092_memory_map_def f767_memory_map_def)
  have eq: "snd (uds_bootloader_rollback_candidate b) = bootloader_nvm_save_metadata m (set_bl c b)"
    by (simp add: uds_bootloader_rollback_candidate_def Let_def m_def c_def)
  have m: "meta_wf m" using wf(3) by (simp add: m_def)
  have i: "boot_inv t (bootloader_nvm_save_metadata m (set_bl c b))"
    "s_mock_flash_slot_a (flash_of (bootloader_nvm_save_metadata m (set_bl c b))) = s_mock_flash_slot_a (flash_of b)"
    using boot_inv_context[OF assms, of "bootloader_nvm_save_metadata m (set_bl c b)" c] c m
    by (simp_all add: nvm_save_eq length_metadata_image)
  show "boot_inv t (snd (uds_bootloader_rollback_candidate b))"
    "s_mock_flash_slot_a (flash_of (snd (uds_bootloader_rollback_candidate b))) = s_mock_flash_slot_a (flash_of b)"
    unfolding eq by (fact i)+
  show "fm_status (staging_metadata (bl (snd (uds_bootloader_rollback_candidate b)))) = UDS_BL_SLOT_ROLLBACK"
    by (simp add: eq nvm_save_eq c_def m_def)
qed


lemma confirm_keeps:
  assumes "boot_inv t b" "uds_bootloader_confirm_active_image junk b = Some (r, b')"
  shows "boot_inv t b'" "s_mock_flash_slot_a (flash_of b') = s_mock_flash_slot_a (flash_of b)"
proof -
  have "boot_inv t b' \<and> s_mock_flash_slot_a (flash_of b') = s_mock_flash_slot_a (flash_of b)"
  proof (cases "fm_status (staging_metadata (bl b)) = UDS_BL_SLOT_ACTIVE")
    case False
    then show ?thesis using assms by (simp add: uds_bootloader_confirm_active_image_def)
  next
    case True
    have wf: "slots_at t (bl b)" "last_erase_result (bl b) = 0" "meta_wf (staging_metadata (bl b))"
      "length (s_mock_nvm_storage b) = 128"
      using assms(1) by (simp_all add: boot_inv_def boot_wf_def)
    have nc: "\<not> candidate_verified (bl b)" using assms(1) True by (auto simp: boot_inv_def accepted_def)
    define m where "m = (staging_metadata (bl b))\<lparr> fm_status := UDS_BL_SLOT_CONFIRMED, fm_boot_attempts := 0 \<rparr>"
    define c where "c = (bl b)\<lparr> staging_metadata := m \<rparr>"
    have c: "slots_at t c" "last_erase_result c = 0" "staging_metadata c = m" "verify_mode c = verify_mode (bl b)"
      "\<not> candidate_verified c" "meta_wf m"
      using wf nc by (simp_all add: c_def m_def)
    obtain s f where b': "b' = b\<lparr> s_floor_store := s, floor_flash := f \<rparr> \<or>
        b' = bootloader_nvm_save_metadata m (set_bl c (b\<lparr> s_floor_store := s, floor_flash := f \<rparr>))"
    proof (cases "s_floor_store b")
      case None
      then have same: "b\<lparr> s_floor_store := None, floor_flash := floor_flash b \<rparr> = b" by simp
      have "b' = bootloader_nvm_save_metadata m (set_bl c b)"
        using None assms(2) True by (simp add: uds_bootloader_confirm_active_image_def Let_def m_def c_def)
      then show ?thesis by (intro that[where s = None and f = "floor_flash b"]) (simp add: same)
    next
      case (Some bf)
      with assms(2) True obtain ok bf' f' where
        "boot_floor_raise junk bf (fm_version (staging_metadata (bl b))) (floor_flash b) = Some (ok, bf', f')"
        by (auto simp: uds_bootloader_confirm_active_image_def split: Option.bind_splits)
      with assms(2) True Some have "b' = b\<lparr> s_floor_store := Some bf', floor_flash := f' \<rparr> \<or>
          b' = bootloader_nvm_save_metadata m (set_bl c (b\<lparr> s_floor_store := Some bf', floor_flash := f' \<rparr>))"
        by (cases ok) (simp_all add: uds_bootloader_confirm_active_image_def Let_def m_def c_def)
      then show ?thesis by (rule that)
    qed
    define b1 where "b1 = b\<lparr> s_floor_store := s, floor_flash := f \<rparr>"
    have bl_eq: "flash_of b = (flash_of b)\<lparr> s_bl_ctx := bl b \<rparr>" by simp
    have "boot_inv t b1" using assms(1) nc by (simp add: boot_inv_def boot_wf_def b1_def)
    moreover have "boot_inv t (bootloader_nvm_save_metadata m (set_bl c b1))"
      using boot_inv_context[OF \<open>boot_inv t b1\<close>, of "bootloader_nvm_save_metadata m (set_bl c b1)" c] c
      by (simp add: nvm_save_eq length_metadata_image) (simp add: b1_def)
    ultimately show ?thesis using b' by (auto simp: b1_def nvm_save_eq)
  qed
  then show "boot_inv t b'" "s_mock_flash_slot_a (flash_of b') = s_mock_flash_slot_a (flash_of b)" by auto
qed

lemma set_target_inv:
  assumes "arrays_wf (flash_of b)" "length (s_mock_nvm_storage b) = 128"
  shows "boot_inv t (uds_bootloader_set_target t b)"
    "s_mock_flash_slot_a (flash_of (uds_bootloader_set_target t b)) = s_mock_flash_slot_a (flash_of b)"
proof -
  let ?c = "target_context t (bl b)"
  have c: "slots_at t ?c" "last_erase_result ?c = 0" "meta_wf (staging_metadata ?c)"
    "verify_mode ?c = UDS_BL_VERIFY_MODE_SHA256_SECURE" "\<not> candidate_verified ?c"
    by (cases t; simp add: target_context_def Let_def slots_at_def boot_map_def c092_memory_map_def f767_memory_map_def
      meta_wf_def zero_metadata_def)+
  show "boot_inv t (uds_bootloader_set_target t b)"
    "s_mock_flash_slot_a (flash_of (uds_bootloader_set_target t b)) = s_mock_flash_slot_a (flash_of b)"
    using assms c
    by (simp_all add: boot_inv_def boot_wf_def uds_bootloader_set_target_def Let_def uds_download_init_def arrays_wf_def
      boot_map_def staged_in_def transferring_def)
qed

lemma init_keeps:
  assumes "arrays_wf (flash_of b)" "length (s_mock_nvm_storage b) = 128"
  shows "\<exists>b'. uds_bootloader_init t b = Some b' \<and> boot_inv t b' \<and> s_mock_flash_slot_a (flash_of b') = s_mock_flash_slot_a (flash_of b)"
proof -
  define b1 where "b1 = uds_bootloader_set_target t b"
  have b1: "boot_inv t b1" "s_mock_flash_slot_a (flash_of b1) = s_mock_flash_slot_a (flash_of b)" "\<not> candidate_verified (bl b1)"
    using set_target_inv[OF assms, of t] by (simp_all add: b1_def uds_bootloader_set_target_def Let_def uds_download_init_def
      target_context_def)
  have wf: "slots_at t (bl b1)" "last_erase_result (bl b1) = 0" "length (s_mock_nvm_storage b1) = 128"
    using b1(1) by (simp_all add: boot_inv_def boot_wf_def)
  from metadata_of_bytes_total[of "s_mock_nvm_storage b1"] wf(3) obtain m where
    m: "metadata_of_bytes (s_mock_nvm_storage b1) = Some m" "meta_wf m" by auto
  have ctx: "boot_inv t (set_bl c b1) \<and> s_mock_flash_slot_a (flash_of (set_bl c b1)) = s_mock_flash_slot_a (flash_of b1) \<and>
      boot_inv t (bootloader_nvm_save_metadata m' (set_bl c b1)) \<and>
      s_mock_flash_slot_a (flash_of (bootloader_nvm_save_metadata m' (set_bl c b1))) = s_mock_flash_slot_a (flash_of b1)"
    if "c = (bl b1)\<lparr> staging_metadata := m', active_version := v \<rparr>" "meta_wf m'" for c m' v
    using boot_inv_context[OF b1(1), of "set_bl c b1" c]
      boot_inv_context[OF b1(1), of "bootloader_nvm_save_metadata m' (set_bl c b1)" c] that wf b1(3)
    by (simp add: nvm_save_eq length_metadata_image)
  show ?thesis
  proof (cases "bootloader_nvm_load_metadata b1 = Some None")
    case True
    then show ?thesis using b1 by (simp add: uds_bootloader_init_def b1_def[symmetric] Let_def)
  next
    case False
    with m have load: "bootloader_nvm_load_metadata b1 = Some (Some m)"
      by (auto simp: bootloader_nvm_load_metadata_def split: if_splits)
    define m' where "m' = m\<lparr> fm_boot_attempts := fm_boot_attempts m + 1 \<rparr>"
    define c where "c = (bl b1)\<lparr> staging_metadata := m, active_version := fm_version m \<rparr>"
    define c' where "c' = (bl b1)\<lparr> staging_metadata := m', active_version := fm_version m \<rparr>"
    have c: "boot_inv t (set_bl c b1)" "s_mock_flash_slot_a (flash_of (set_bl c b1)) = s_mock_flash_slot_a (flash_of b1)"
      "boot_inv t (set_bl c' b1)" "s_mock_flash_slot_a (flash_of (set_bl c' b1)) = s_mock_flash_slot_a (flash_of b1)"
      "boot_inv t (bootloader_nvm_save_metadata m' (set_bl c' b1))"
      "s_mock_flash_slot_a (flash_of (bootloader_nvm_save_metadata m' (set_bl c' b1))) = s_mock_flash_slot_a (flash_of b1)"
      using ctx[OF c_def m(2)] ctx[OF c'_def] m(2) by (simp_all add: m'_def)
    have twice: "set_bl ((bl (set_bl c b1))\<lparr> staging_metadata := m' \<rparr>) (set_bl c b1) = set_bl c' b1"
      by (simp add: c_def c'_def set_bl_def set_flash_def)
    have "uds_bootloader_init t b = Some (if fm_status m = UDS_BL_SLOT_ACTIVE
        then if fm_boot_attempts m' > fm_max_attempts m'
          then snd (uds_bootloader_rollback_candidate (set_bl c' b1))
          else bootloader_nvm_save_metadata m' (set_bl c' b1)
        else set_bl c b1)"
      using load twice by (simp add: uds_bootloader_init_def b1_def[symmetric] Let_def c_def m'_def)
    then show ?thesis
      using c rollback_keeps[OF c(3)] b1(2) by auto
  qed
qed

section \<open>Activation\<close>

text \<open>Slot A after the copy of an image of \<open>n\<close> bytes.\<close>

definition copied_slot :: "bytes \<Rightarrow> nat \<Rightarrow> bytes" where
  "copied_slot slot n = take n slot @ replicate (UDS_BL_MOCK_FLASH_SIZE - n) 0xFF"

lemma copy_candidate_exact:
  assumes "boot_wf UDS_BL_TARGET_STM32C092 b" "verify_mode (bl b) = UDS_BL_VERIFY_MODE_SHA256_SECURE" "length junk = 64"
    "128 < unat isz" "unat isz \<le> UDS_BL_MOCK_FLASH_SIZE"
  defines "slot \<equiv> s_mock_flash_slot_b (flash_of b)"
  shows "\<exists>fl. c092_copy_candidate_to_slot_a junk (flash_of b) isz (active_slot_addr (bl b)) =
       Some (if sha256_spec (payload_in slot isz) = fm_sha256 (staging_metadata (bl b)) then UDS_DOWNLOAD_OK
             else UDS_DOWNLOAD_VERIFY_ERROR, fl) \<and>
     s_bl_ctx fl = bl b \<and> arrays_wf fl \<and> s_mock_flash_slot_b fl = slot \<and>
     s_mock_flash_slot_a fl = copied_slot slot (unat isz)"
proof -
  have wf: "arrays_wf (flash_of b)" "active_slot_addr (bl b) = UDS_BL_C092_APP_SLOT_A_START"
    "target_slot_addr (bl b) = 0x08025000" "last_erase_result (bl b) = 0" "length (fm_sha256 (staging_metadata (bl b))) = 32"
    using assms(1) by (simp_all add: boot_wf_def slots_at_def boot_map_def c092_memory_map_def meta_wf_def)
  have len: "length slot = 4096" "length (s_mock_flash_slot_a (flash_of b)) = 4096"
    using wf(1) by (simp_all add: arrays_wf_def UDS_BL_MOCK_FLASH_SIZE_def slot_def)
  define n where "n = unat isz"
  have n: "128 < n" "n \<le> 4096" using assms(4,5) by (simp_all add: n_def UDS_BL_MOCK_FLASH_SIZE_def)
  define fl1 where "fl1 = (flash_of b)\<lparr> s_mock_flash_slot_a_len := 0, s_mock_flash_slot_a := replicate 4096 0xFF \<rparr>"
  have e: "bootloader_flash_erase_start (flash_of b) (active_slot_addr (bl b)) isz = (UDS_DOWNLOAD_OK, fl1)"
    using wf(2,3) len by (simp add: bootloader_flash_erase_start_def fl1_def UDS_BL_C092_APP_SLOT_A_START_def)
  have fl1: "s_bl_ctx fl1 = bl b" "s_mock_flash_slot_b fl1 = slot" "s_mock_flash_slot_a fl1 = replicate 4096 0xFF"
    "s_mock_flash_slot_a_len fl1 = 0" "arrays_wf fl1"
    using wf(1) by (simp_all add: fl1_def slot_def arrays_wf_def UDS_BL_MOCK_FLASH_SIZE_def)
  have po: "bootloader_flash_erase_poll fl1 = (UDS_DOWNLOAD_OK, fl1)"
    using wf(4) fl1(1) by (simp add: bootloader_flash_erase_poll_def)
  have u16: "unat (ucast isz :: u16) = n"
    using n by (simp add: n_def unsigned_ucast_eq take_bit_nat_eq_self)
  define data where "data = take n slot"
  have data: "length data = n" using n len by (simp add: data_def)
  define fl2 where "fl2 = mock_flash_program fl1 (active_slot_addr (bl b)) data"
  have low: "\<not> (134369280 :: u32) \<le> UDS_BL_C092_APP_SLOT_A_START" by (simp add: UDS_BL_C092_APP_SLOT_A_START_def)
  have of16: "(of_nat n :: u16) \<noteq> 0"
  proof -
    have "unat (of_nat n :: u16) = n" using n by (intro unat_of_nat_16) simp
    then show ?thesis using n by (metis not_less_zero unat_0)
  qed
  have of32: "unat (ucast (of_nat n :: u16) :: u32) = n" using n by (simp add: unat_of_nat_16)
  have fits: "unat (0 + ucast (of_nat n :: u16) :: u32) \<le> 4096" unfolding add_0 of32 using n by simp
  have slot_a: "s_mock_flash_slot_a fl2 = put_bytes (replicate 4096 0xFF) 0 data"
    unfolding fl2_def mock_flash_program_def Let_def fl1 data wf(2,3)
    using low of16 fits by (simp add: fl1 del: add_0)
  have fl2: "s_bl_ctx fl2 = bl b" "arrays_wf fl2"
    using program_keeps[of fl1 UDS_BL_TARGET_STM32C092 data "active_slot_addr (bl b)"] fl1 assms(1) data n
    by (simp_all add: fl2_def boot_wf_def)
  have slot_b: "s_mock_flash_slot_b fl2 = slot"
    unfolding fl2_def mock_flash_program_def Let_def fl1 data wf(2,3)
    using low of16 fits by (simp add: fl1 del: add_0)
  have a: "s_mock_flash_slot_a fl2 = copied_slot slot n"
    using n by (simp add: slot_a put_bytes_def copied_slot_def UDS_BL_MOCK_FLASH_SIZE_def data_def len)
  have lena: "length (copied_slot slot n) = 4096"
    using n len by (simp add: copied_slot_def UDS_BL_MOCK_FLASH_SIZE_def)
  have pay: "take (n - 128) (drop 128 (copied_slot slot n)) = payload_in slot isz"
    using n len by (simp add: copied_slot_def payload_in_def n_def[symmetric] drop_take)
  have big: "\<not> isz \<le> 128" "unat (isz - 128) = n - 128" using n by (simp_all add: word_le_nat_alt n_def unat_sub_32)
  have v: "c092_verify_copied_image junk (bl b) (copied_slot slot n) isz =
      Some (if sha256_spec (payload_in slot isz) = fm_sha256 (staging_metadata (bl b)) then UDS_DOWNLOAD_OK
            else UDS_DOWNLOAD_VERIFY_ERROR)"
    using assms(2) n wf(5) lena
    by (simp add: c092_verify_copied_image_def big pay n_def[symmetric] sha256_hash_spec[OF assms(3)] image_digest_equal_iff
      length_sha256_spec)
  have small: "\<not> unat isz > length slot" using n len by (simp add: n_def)
  have "c092_copy_candidate_to_slot_a junk (flash_of b) isz (active_slot_addr (bl b)) =
      Some (if sha256_spec (payload_in slot isz) = fm_sha256 (staging_metadata (bl b)) then UDS_DOWNLOAD_OK
            else UDS_DOWNLOAD_VERIFY_ERROR, fl2)"
    unfolding c092_copy_candidate_to_slot_a_def e po prod.case Let_def fl1(2) if_not_P[OF small] u16
      bootloader_flash_program_def data_def[symmetric] fl2_def[symmetric] fl2(1) a v
    by simp
  then show ?thesis using fl2 slot_b a by (auto simp: n_def)
qed

lemma activate_exact:
  assumes "boot_inv t b" "candidate_verified (bl b)" "length junk = 64"
  defines "m \<equiv> staging_metadata (bl b)" and "slot \<equiv> s_mock_flash_slot_b (flash_of b)"
  shows "\<exists>r b'. uds_bootloader_activate_candidate junk b = Some (r, b') \<and> boot_inv t b' \<and>
     s_mock_flash_slot_b (flash_of b') = slot \<and> s_floor_store b' = s_floor_store b \<and>
     s_mock_flash_slot_a (flash_of b') =
       (if t = UDS_BL_TARGET_STM32C092 then copied_slot slot (unat (fm_image_size m)) else s_mock_flash_slot_a (flash_of b)) \<and>
     (if t = UDS_BL_TARGET_STM32C092 \<and> sha256_spec (payload_in slot (fm_image_size m)) \<noteq> fm_sha256 m
      then r = UDS_DOWNLOAD_VERIFY_ERROR \<and> bl b' = bl b
      else r = UDS_DOWNLOAD_OK \<and> active_version (bl b') = fm_version m \<and>
        staging_metadata (bl b') = m\<lparr> fm_status := UDS_BL_SLOT_ACTIVE, fm_boot_attempts := 1, fm_max_attempts := 3,
          fm_active_slot := 0 \<rparr> \<and> bootloader_nvm_load_metadata b' = Some (Some (boot_finalize_metadata (staging_metadata (bl b')))))"
proof -
  have wf: "boot_wf t b" "verify_mode (bl b) = UDS_BL_VERIFY_MODE_SHA256_SECURE" "bl_target (bl b) = t" "accepted b m"
    "slots_at t (bl b)" "last_erase_result (bl b) = 0" "meta_wf m"
    using assms(1,2) by (simp_all add: boot_inv_def boot_wf_def slots_at_def m_def)
  have sz: "128 < unat (fm_image_size m)" "unat (fm_image_size m) \<le> UDS_BL_MOCK_FLASH_SIZE" "fm_magic m = UDS_BL_METADATA_MAGIC"
    using wf(4) by (simp_all add: accepted_def)
  define m' where "m' = m\<lparr> fm_status := UDS_BL_SLOT_ACTIVE, fm_boot_attempts := 1, fm_max_attempts := 3, fm_active_slot := 0 \<rparr>"
  have m': "meta_wf m'" "fm_magic m' = UDS_BL_METADATA_MAGIC" using wf(7) sz(3) by (simp_all add: m'_def)
  define c where "c = (bl b)\<lparr> active_version := fm_version m, staging_metadata := m', candidate_verified := False \<rparr>"
  have c: "slots_at t c" "last_erase_result c = 0" "staging_metadata c = m'" "verify_mode c = verify_mode (bl b)"
    "\<not> candidate_verified c" "active_version c = fm_version m"
    using wf(5,6) by (simp_all add: c_def)
  have fin: "boot_inv t (bootloader_nvm_save_metadata m' (set_bl c b1)) \<and>
      flash_of (bootloader_nvm_save_metadata m' (set_bl c b1)) = (flash_of b1)\<lparr> s_bl_ctx := c \<rparr> \<and>
      bootloader_nvm_load_metadata (bootloader_nvm_save_metadata m' (set_bl c b1)) = Some (Some (boot_finalize_metadata m'))"
    if "boot_inv t b1" "verify_mode (bl b1) = verify_mode (bl b)" for b1 :: "'a boot_state"
  proof -
    have "boot_inv t (bootloader_nvm_save_metadata m' (set_bl c b1))"
      using boot_inv_context[OF that(1), of "bootloader_nvm_save_metadata m' (set_bl c b1)" c] c m'(1) that(2)
      by (simp add: nvm_save_eq length_metadata_image)
    moreover have "bootloader_nvm_load_metadata (bootloader_nvm_save_metadata m' (set_bl c b1)) =
        Some (Some (boot_finalize_metadata m'))"
      using nvm_load_saved[of "bootloader_nvm_save_metadata m' (set_bl c b1)" m'] m' by (simp add: nvm_save_eq)
    ultimately show ?thesis by (simp add: nvm_save_eq)
  qed
  show ?thesis
  proof (cases "t = UDS_BL_TARGET_STM32C092")
    case False
    have "uds_bootloader_activate_candidate junk b = Some (UDS_DOWNLOAD_OK, bootloader_nvm_save_metadata m' (set_bl c b))"
      using False assms(2) wf(3) by (simp add: uds_bootloader_activate_candidate_def Let_def c_def m'_def m_def)
    with fin[OF assms(1)] False c(3,6) show ?thesis
      by (auto simp: m'_def slot_def nvm_save_eq)
  next
    case True
    from copy_candidate_exact[of b junk "fm_image_size m"] wf(1,2) assms(3) sz True obtain fl where
      cp: "c092_copy_candidate_to_slot_a junk (flash_of b) (fm_image_size m) (active_slot_addr (bl b)) =
         Some (if sha256_spec (payload_in slot (fm_image_size m)) = fm_sha256 m then UDS_DOWNLOAD_OK
               else UDS_DOWNLOAD_VERIFY_ERROR, fl)" "s_bl_ctx fl = bl b" "arrays_wf fl" "s_mock_flash_slot_b fl = slot"
        "s_mock_flash_slot_a fl = copied_slot slot (unat (fm_image_size m))" unfolding m_def slot_def by auto
    have b1: "boot_inv t (set_flash fl b)"
    proof -
      have "accepted (set_flash fl b) m" using wf(4) by (rule accepted_cong) (simp_all add: cp(2))
      then show ?thesis using assms(1) cp(2,3) by (simp add: boot_inv_def boot_wf_def m_def)
    qed
    have rng: "\<not> (fm_image_size m = 0 \<or> fm_image_size m > active_slot_size (bl b))"
    proof -
      have "UDS_BL_MOCK_FLASH_SIZE \<le> unat (active_slot_size (bl b))"
        using wf(5) boot_map_simps(6)[of t] by (simp add: slots_at_def)
      then show ?thesis using sz(1,2) by (auto simp: word_less_nat_alt)
    qed
    show ?thesis
    proof (cases "sha256_spec (payload_in slot (fm_image_size m)) = fm_sha256 m")
      case good: True
      have "uds_bootloader_activate_candidate junk b =
          Some (UDS_DOWNLOAD_OK, bootloader_nvm_save_metadata m' (set_bl c (set_flash fl b)))"
        using True assms(2) wf(3) good cp(1,2) rng
        by (simp add: uds_bootloader_activate_candidate_def Let_def c_def m'_def m_def)
      with fin[OF b1] True good c(3,6) cp(2,4,5) show ?thesis by (auto simp: m'_def nvm_save_eq)
    next
      case bad: False
      have "uds_bootloader_activate_candidate junk b = Some (UDS_DOWNLOAD_VERIFY_ERROR, set_flash fl b)"
        using True assms(2) wf(3) bad cp(1,2) rng
        by (simp add: uds_bootloader_activate_candidate_def Let_def m_def)
      with b1 True bad cp show ?thesis by auto
    qed
  qed
qed

end
