(* ===== verification/Bootloader_Activation.thy ===== *)
theory Bootloader_Activation
  imports Bootloader_Invariant
begin

text \<open>
  Runs of the bootloader: the invariant along every sequence of calls, restarts and the count of boot
  attempts, and the properties with their witnesses.
\<close>

section \<open>Runs keep the invariant\<close>

fun activates :: "boot_event \<Rightarrow> bool" where
  "activates (BActivate junk) \<longleftrightarrow> True"
| "activates _ \<longleftrightarrow> False"

lemma boot_step_keeps:
  assumes "boot_inv t b" "boot_ok e" "boot_step t b e = Some b'"
  shows "boot_inv t b'" "\<not> activates e \<Longrightarrow> s_mock_flash_slot_a (flash_of b') = s_mock_flash_slot_a (flash_of b)"
proof -
  have wf: "arrays_wf (flash_of b)" "length (s_mock_nvm_storage b) = 128"
    using assms(1) by (simp_all add: boot_inv_def boot_wf_def)
  have "boot_inv t b' \<and> (\<not> activates e \<longrightarrow>
    s_mock_flash_slot_a (flash_of b') = s_mock_flash_slot_a (flash_of b))"
  proof (cases e)
    case (BRequest now a n mb)
    then show ?thesis using assms(3) request_keeps[OF assms(1)] by auto
  next
    case (BTransfer now blk data)
    then show ?thesis using assms(2,3) transfer_keeps[OF assms(1), of data now blk] by auto
  next
    case (BExit now request)
    then show ?thesis using assms(3) exit_keeps[OF assms(1)] by auto
  next
    case (BRoutine junk sub rid input cap)
    then show ?thesis using assms(2,3) routine_keeps[OF assms(1), of junk sub rid input 0 cap] by auto
  next
    case (BActivate junk)
    then show ?thesis
      using assms activate_exact[OF assms(1), of junk] by (cases "candidate_verified (bl b)")
        (auto simp: uds_bootloader_activate_candidate_def)
  next
    case (BConfirm junk)
    with assms(3) obtain r where "uds_bootloader_confirm_active_image junk b = Some (r, b')" by auto
    from confirm_keeps[OF assms(1) this] show ?thesis by simp
  next
    case BRollback
    then show ?thesis using assms(3) rollback_keeps[OF assms(1)] by auto
  next
    case BReset
    then show ?thesis using assms(3) init_keeps[OF wf, of t] by auto
  qed
  then show "boot_inv t b'"
    "\<not> activates e \<Longrightarrow> s_mock_flash_slot_a (flash_of b') = s_mock_flash_slot_a (flash_of b)" by auto
qed

lemma boot_run_keeps:
  "boot_inv t b \<Longrightarrow> list_all boot_ok es \<Longrightarrow> run (boot_step t) b es = Some b' \<Longrightarrow> boot_inv t b'"
  by (induction es arbitrary: b) (auto split: Option.bind_splits dest: boot_step_keeps(1))

text \<open>Without a floor store every call is defined and leaves the floor store away.\<close>

lemma no_floor_kept:
  assumes "s_floor_store b = None"
  shows "s_floor_store (uds_bootloader_set_target t b) = None" "s_floor_store (snd (uds_bootloader_rollback_candidate b)) = None"
    "uds_bootloader_init t b = Some b' \<Longrightarrow> s_floor_store b' = None"
    "s_floor_store (snd (snd (uds_bootloader_request_download now b a n mb))) = None"
    "uds_bootloader_transfer_data now b blk data = Some (r, b') \<Longrightarrow> s_floor_store b' = None"
    "s_floor_store (snd (snd (snd (uds_bootloader_transfer_exit now b request rl)))) = None"
    "uds_bootloader_routine_control junk b sub rid input rl capacity = Some (res, out, len, b') \<Longrightarrow> s_floor_store b' = None"
    "uds_bootloader_confirm_active_image junk b = Some (cr, b') \<Longrightarrow> s_floor_store b' = None"
  using assms
  by (auto simp: uds_bootloader_set_target_def uds_bootloader_rollback_candidate_def uds_bootloader_init_def Let_def
    uds_bootloader_request_download_def uds_bootloader_transfer_data_def uds_bootloader_transfer_exit_def
    uds_bootloader_routine_control_def k_boot_routines_def routine_erase_memory_def routine_check_memory_def
    routine_check_dependencies_def check_memory_refused_def uds_bootloader_confirm_active_image_def nvm_save_eq
    split: if_splits prod.splits Option.bind_splits option.splits)

text \<open>The calls and the states of a run in which, unless \<open>act\<close>, nothing is activated and slot A holds \<open>a\<close>.\<close>

definition call_ok :: "bool \<Rightarrow> boot_event \<Rightarrow> bool" where
  "call_ok act e \<longleftrightarrow> boot_ok e \<and> (act \<or> \<not> activates e)"

definition plain_inv :: "UdsBootloaderTarget \<Rightarrow> bool \<Rightarrow> bytes \<Rightarrow> 'f boot_state \<Rightarrow> bool" where
  "plain_inv t act a b \<longleftrightarrow> boot_inv t b \<and> s_floor_store b = None \<and> (act \<or> s_mock_flash_slot_a (flash_of b) = a)"

lemma plain_step:
  assumes "plain_inv t act a b" "call_ok act e"
  shows "\<exists>b'. boot_step t b e = Some b' \<and> plain_inv t act a b'"
proof -
  have i: "boot_inv t b" "s_floor_store b = None" "boot_ok e" using assms by (simp_all add: plain_inv_def call_ok_def)
  have wf: "arrays_wf (flash_of b)" "length (s_mock_nvm_storage b) = 128"
    using i(1) by (simp_all add: boot_inv_def boot_wf_def)
  have "\<exists>b'. boot_step t b e = Some b' \<and> s_floor_store b' = None"
  proof (cases e)
    case (BTransfer now blk data)
    then obtain r b' where "uds_bootloader_transfer_data now b blk data = Some (r, b')"
      using i(3) transfer_keeps[OF i(1), of data now blk] by auto
    then show ?thesis using BTransfer no_floor_kept(5)[OF i(2)] by auto
  next
    case (BRoutine junk sub rid input cap)
    then obtain r out n b' where "uds_bootloader_routine_control junk b sub rid input 0 cap = Some (r, out, n, b')"
      using i(3) routine_keeps[OF i(1), of junk sub rid input 0 cap] by auto
    then show ?thesis using BRoutine no_floor_kept(7)[OF i(2)] by auto
  next
    case (BActivate junk)
    then show ?thesis
      using i activate_exact[OF i(1), of junk] by (cases "candidate_verified (bl b)")
        (auto simp: uds_bootloader_activate_candidate_def)
  next
    case (BConfirm junk)
    have "\<exists>r b'. uds_bootloader_confirm_active_image junk b = Some (r, b')"
      by (cases "fm_status (staging_metadata (bl b)) = UDS_BL_SLOT_ACTIVE")
        (simp_all add: uds_bootloader_confirm_active_image_def Let_def i(2))
    then obtain r b' where "uds_bootloader_confirm_active_image junk b = Some (r, b')" by blast
    then show ?thesis using BConfirm no_floor_kept(8)[OF i(2)] by auto
  next
    case BReset
    then show ?thesis using init_keeps[OF wf, of t] no_floor_kept(3)[OF i(2)] by auto
  qed (use no_floor_kept[OF i(2)] in auto)
  then obtain b' where b': "boot_step t b e = Some b'" "s_floor_store b' = None" by blast
  have "act \<or> s_mock_flash_slot_a (flash_of b') = a"
    using boot_step_keeps(2)[OF i(1,3) b'(1)] assms by (auto simp: plain_inv_def call_ok_def)
  then show ?thesis using b' boot_step_keeps(1)[OF i(1,3) b'(1)] by (auto simp: plain_inv_def)
qed

interpretation blm: machine "boot_step t" "call_ok act" "plain_inv t act a"
  by unfold_locales (rule plain_step)

lemma payload_of_copy:
  assumes "unat isz \<le> UDS_BL_MOCK_FLASH_SIZE" "length slot = UDS_BL_MOCK_FLASH_SIZE"
  shows "payload_in (copied_slot slot (unat isz)) isz = payload_in slot isz"
  using assms by (simp add: payload_in_def copied_slot_def drop_take)

section \<open>Restarts\<close>

lemma set_target_nvm: "bootloader_nvm_load_metadata (uds_bootloader_set_target t b) = bootloader_nvm_load_metadata b"
  by (simp add: bootloader_nvm_load_metadata_def uds_bootloader_set_target_def Let_def)

lemma set_bl_nvm: "bootloader_nvm_load_metadata (set_bl c b) = bootloader_nvm_load_metadata b"
  by (simp add: bootloader_nvm_load_metadata_def)

lemma nvm_load_wf:
  assumes "bootloader_nvm_load_metadata b = Some (Some m)" "length (s_mock_nvm_storage b) = 128"
  shows "meta_wf m" "fm_magic m = UDS_BL_METADATA_MAGIC"
  using assms metadata_of_bytes_total[of "s_mock_nvm_storage b"]
  by (auto simp: bootloader_nvm_load_metadata_def boot_validate_metadata_def split: if_splits)

text \<open>A start on the metadata of an image that is not confirmed counts an attempt; past the maximum it rolls back.\<close>

lemma init_counts:
  assumes "boot_wf t b" "bootloader_nvm_load_metadata b = Some (Some m)"
    "fm_status m = UDS_BL_SLOT_ACTIVE" "fm_boot_attempts m < 255"
  defines "n \<equiv> fm_boot_attempts m + 1"
  shows "\<exists>b' m'. uds_bootloader_init t b = Some b' \<and> boot_wf t b' \<and> bootloader_nvm_load_metadata b' = Some (Some m') \<and>
     boot_inv t b' \<and> fm_version (staging_metadata (bl b')) = fm_version m \<and>
     fm_magic (staging_metadata (bl b')) = UDS_BL_METADATA_MAGIC \<and>
     fm_version m' = fm_version m \<and> fm_boot_attempts m' = n \<and> fm_max_attempts m' = fm_max_attempts m \<and>
     uds_bootloader_get_slot_status b' = fm_status m' \<and>
     (if n > fm_max_attempts m then fm_status m' = UDS_BL_SLOT_ROLLBACK \<and> active_version (bl b') = 1
      else fm_status m' = UDS_BL_SLOT_ACTIVE \<and> active_version (bl b') = fm_version m)"
proof -
  define b1 where "b1 = uds_bootloader_set_target t b"
  have wf: "arrays_wf (flash_of b)" "length (s_mock_nvm_storage b) = 128" using assms(1) by (simp_all add: boot_wf_def)
  have m: "meta_wf m" "fm_magic m = UDS_BL_METADATA_MAGIC" using nvm_load_wf[OF assms(2) wf(2)] by simp_all
  have load: "bootloader_nvm_load_metadata b1 = Some (Some m)" using assms(2) by (simp add: b1_def set_target_nvm)
  define m1 where "m1 = m\<lparr> fm_boot_attempts := n \<rparr>"
  define c where "c = (bl b1)\<lparr> staging_metadata := m1, active_version := fm_version m \<rparr>"
  have twice: "set_bl ((bl (set_bl ((bl b1)\<lparr> staging_metadata := m, active_version := fm_version m \<rparr>) b1))
      \<lparr> staging_metadata := m1 \<rparr>) (set_bl ((bl b1)\<lparr> staging_metadata := m, active_version := fm_version m \<rparr>) b1) = set_bl c b1"
    by (simp add: c_def set_bl_def set_flash_def)
  have eq: "uds_bootloader_init t b = Some (if n > fm_max_attempts m then snd (uds_bootloader_rollback_candidate (set_bl c b1))
      else bootloader_nvm_save_metadata m1 (set_bl c b1))"
    using load twice assms(3) by (simp add: uds_bootloader_init_def b1_def[symmetric] Let_def n_def m1_def)
  obtain b' where b': "uds_bootloader_init t b = Some b'" "boot_inv t b'" using init_keeps[OF wf, of t] by auto
  have bwf: "boot_wf t b'" using b'(2) by (simp add: boot_inv_def)
  show ?thesis
  proof (cases "n > fm_max_attempts m")
    case False
    have "b' = bootloader_nvm_save_metadata m1 (set_bl c b1)" using eq b'(1) False by simp
    moreover from this have "bootloader_nvm_load_metadata b' = Some (Some (boot_finalize_metadata m1))"
      using nvm_load_saved[of b' m1] m by (simp add: nvm_save_eq m1_def)
    ultimately show ?thesis
      using False b' bwf assms(3) m(2)
      by (intro exI[of _ b'] exI[of _ "boot_finalize_metadata m1"])
        (simp add: nvm_save_eq m1_def c_def uds_bootloader_get_slot_status_def)
  next
    case True
    define m2 where "m2 = m1\<lparr> fm_status := UDS_BL_SLOT_ROLLBACK, fm_active_slot := 0 \<rparr>"
    define c2 where "c2 = c\<lparr> active_slot_addr := (if bl_target c = UDS_BL_TARGET_STM32C092
      then UDS_BL_C092_APP_SLOT_A_START else UDS_BL_F767_APP_SLOT_A_START),
      active_version := 1, candidate_verified := False, staging_metadata := m2 \<rparr>"
    have c2: "staging_metadata c2 = m2" "active_version c2 = 1" by (simp_all add: c2_def)
    have "b' = bootloader_nvm_save_metadata m2 (set_bl c2 (set_bl c b1))"
      using eq b'(1) True by (simp add: uds_bootloader_rollback_candidate_def Let_def m2_def c2_def) (simp add: c_def)
    moreover from this have "bootloader_nvm_load_metadata b' = Some (Some (boot_finalize_metadata m2))"
      using nvm_load_saved[of b' m2] m by (simp add: nvm_save_eq m2_def m1_def)
    moreover have "fm_magic m2 = UDS_BL_METADATA_MAGIC" "fm_version m2 = fm_version m" "fm_boot_attempts m2 = n" "fm_max_attempts m2 = fm_max_attempts m"
      "fm_status m2 = UDS_BL_SLOT_ROLLBACK" using m(2) by (simp_all add: m2_def m1_def)
    ultimately show ?thesis
      using True b' bwf c2
      by (intro exI[of _ b'] exI[of _ "boot_finalize_metadata m2"])
        (simp add: nvm_save_eq uds_bootloader_get_slot_status_def)
  qed
qed

text \<open>A start on any other metadata takes it over as it is.\<close>

lemma init_takes_over:
  assumes "boot_wf t b" "bootloader_nvm_load_metadata b = Some (Some m)" "fm_status m \<noteq> UDS_BL_SLOT_ACTIVE"
  shows "\<exists>b'. uds_bootloader_init t b = Some b' \<and> boot_wf t b' \<and> bootloader_nvm_load_metadata b' = Some (Some m) \<and>
     uds_bootloader_get_slot_status b' = fm_status m \<and> active_version (bl b') = fm_version m"
proof -
  have wf: "arrays_wf (flash_of b)" "length (s_mock_nvm_storage b) = 128" using assms(1) by (simp_all add: boot_wf_def)
  obtain b' where b': "uds_bootloader_init t b = Some b'" "boot_inv t b'" using init_keeps[OF wf, of t] by auto
  define b1 where "b1 = uds_bootloader_set_target t b"
  have load: "bootloader_nvm_load_metadata b1 = Some (Some m)" using assms(2) by (simp add: b1_def set_target_nvm)
  have "b' = set_bl ((bl b1)\<lparr> staging_metadata := m, active_version := fm_version m \<rparr>) b1"
    using b'(1) load assms(3) by (simp add: uds_bootloader_init_def b1_def[symmetric] Let_def)
  moreover from this have "bootloader_nvm_load_metadata b' = Some (Some m)"
    using load by (simp add: set_bl_nvm)
  ultimately show ?thesis
    using b' by (simp add: boot_inv_def uds_bootloader_get_slot_status_def)
qed

lemma confirmed_stays:
  assumes "boot_wf t b" "bootloader_nvm_load_metadata b = Some (Some m)" "fm_status m = UDS_BL_SLOT_CONFIRMED"
  shows "\<exists>b'. run (boot_step t) b (replicate (Suc n) BReset) = Some b' \<and> uds_bootloader_get_slot_status b' = UDS_BL_SLOT_CONFIRMED \<and>
     active_version (bl b') = fm_version m"
  using assms(1,2)
proof (induction n arbitrary: b)
  case 0
  from init_takes_over[OF 0 ] assms(3) show ?case by auto
next
  case (Suc n)
  from init_takes_over[OF Suc.prems] assms(3) obtain b1 where
    "uds_bootloader_init t b = Some b1" "boot_wf t b1" "bootloader_nvm_load_metadata b1 = Some (Some m)" by auto
  with Suc.IH[of b1] show ?case by simp
qed


lemma confirm_stores:
  assumes "boot_inv t b" "fm_magic (staging_metadata (bl b)) = UDS_BL_METADATA_MAGIC"
    "uds_bootloader_confirm_active_image junk b = Some (UDS_DOWNLOAD_OK, c)"
  shows "\<exists>m. bootloader_nvm_load_metadata c = Some (Some m) \<and> fm_status m = UDS_BL_SLOT_CONFIRMED \<and>
     fm_version m = fm_version (staging_metadata (bl b))"
proof -
  define m where "m = (staging_metadata (bl b))\<lparr> fm_status := UDS_BL_SLOT_CONFIRMED, fm_boot_attempts := 0 \<rparr>"
  have act: "fm_status (staging_metadata (bl b)) = UDS_BL_SLOT_ACTIVE"
    using assms(3) by (auto simp: uds_bootloader_confirm_active_image_def split: if_splits)
  have "s_mock_nvm_storage c = metadata_image (boot_finalize_metadata m) \<and> s_mock_nvm_valid c"
  proof (cases "s_floor_store b")
    case None
    then show ?thesis
      using assms(3) act by (auto simp: uds_bootloader_confirm_active_image_def Let_def m_def nvm_save_eq)
  next
    case (Some bf)
    with assms(3) act obtain ok bf' f' where
      "boot_floor_raise junk bf (fm_version (staging_metadata (bl b))) (floor_flash b) = Some (ok, bf', f')"
      by (auto simp: uds_bootloader_confirm_active_image_def split: Option.bind_splits)
    with assms(3) act Some show ?thesis
      by (cases ok) (auto simp: uds_bootloader_confirm_active_image_def Let_def m_def nvm_save_eq)
  qed
  moreover have "meta_wf m" "fm_magic m = UDS_BL_METADATA_MAGIC"
    using assms(1,2) by (simp_all add: m_def boot_inv_def boot_wf_def)
  ultimately show ?thesis using nvm_load_saved[of c m] by (simp add: m_def)
qed

section \<open>Properties\<close>



text \<open> C33.
  The active slot is written by nothing but an activation. Without a floor store every sequence of
  calls is defined, keeps the two slots within their arrays and their addresses at the ones of the
  target, and as long as no activation is among the calls, slot A keeps its contents, whatever
  addresses, lengths, blocks and routine options the tester sends.
\<close>

theorem active_slot_protected:
  assumes "arrays_wf (flash_of b0)" "length (s_mock_nvm_storage b0) = 128" "s_floor_store b0 = None" "list_all boot_ok es"
  shows "\<exists>b. run (boot_step t) b0 (BReset # es) = Some b \<and> boot_wf t b \<and>
     (list_all (\<lambda>e. \<not> activates e) es \<longrightarrow> s_mock_flash_slot_a (flash_of b) = s_mock_flash_slot_a (flash_of b0))"
proof -
  from init_keeps[OF assms(1,2), of t] obtain b1 where
    b1: "uds_bootloader_init t b0 = Some b1" "boot_inv t b1" "s_mock_flash_slot_a (flash_of b1) = s_mock_flash_slot_a (flash_of b0)"
    by auto
  define act where "act = (\<not> list_all (\<lambda>e. \<not> activates e) es)"
  have "plain_inv t act (s_mock_flash_slot_a (flash_of b0)) b1"
    using b1 no_floor_kept(3)[OF assms(3) b1(1)] by (simp add: plain_inv_def)
  moreover have "list_all (call_ok act) es"
    using assms(4) by (cases act) (auto simp: act_def call_ok_def list_all_iff)
  ultimately obtain b where "run (boot_step t) b1 es = Some b" "plain_inv t act (s_mock_flash_slot_a (flash_of b0)) b"
    using blm.run_safe by blast
  then show ?thesis using b1(1) by (auto simp: plain_inv_def boot_inv_def act_def)
qed

text \<open> C34.
  An image that is not confirmed is given up. After a successful activation the next two starts keep
  it active and count the attempts; the third one rolls back. A confirmation during the second
  attempt ends this: then every later start finds the image confirmed. And the rollback does not
  last: the start after it takes the version of the image that was given up as the active one again.
\<close>

theorem unconfirmed_image_rolled_back:
  assumes "boot_inv t b" "length junk = 64" "uds_bootloader_activate_candidate junk b = Some (UDS_DOWNLOAD_OK, b')"
  defines "v \<equiv> fm_version (staging_metadata (bl b))"
  shows "\<exists>b1 b2 b3 b4. run (boot_step t) b' [BReset] = Some b1 \<and> run (boot_step t) b1 [BReset] = Some b2 \<and>
     run (boot_step t) b2 [BReset] = Some b3 \<and> run (boot_step t) b3 [BReset] = Some b4 \<and>
     uds_bootloader_get_slot_status b1 = UDS_BL_SLOT_ACTIVE \<and> uds_bootloader_get_slot_status b2 = UDS_BL_SLOT_ACTIVE \<and>
     uds_bootloader_get_slot_status b3 = UDS_BL_SLOT_ROLLBACK \<and> uds_bootloader_get_active_version b3 = 1 \<and>
     uds_bootloader_get_active_version b4 = v \<and>
     (\<forall>stack c n. uds_bootloader_confirm_active_image stack b2 = Some (UDS_DOWNLOAD_OK, c) \<longrightarrow>
        (\<exists>c'. run (boot_step t) c (replicate (Suc n) BReset) = Some c' \<and>
           uds_bootloader_get_slot_status c' = UDS_BL_SLOT_CONFIRMED \<and> uds_bootloader_get_active_version c' = v))"
proof -
  have cand: "candidate_verified (bl b)"
    using assms(3) by (auto simp: uds_bootloader_activate_candidate_def split: if_splits)
  define m where "m = staging_metadata (bl b')"
  have m: "fm_status m = UDS_BL_SLOT_ACTIVE" "fm_boot_attempts m = 1" "fm_max_attempts m = 3" "fm_version m = v"
    "bootloader_nvm_load_metadata b' = Some (Some (boot_finalize_metadata m))" "boot_wf t b'"
    using activate_exact[OF assms(1) cand assms(2)] assms(3)
    by (auto simp: m_def v_def boot_inv_def split: if_splits)
  from init_counts[OF m(6,5)] m(1-4) obtain b1 m1 where
    b1: "uds_bootloader_init t b' = Some b1" "boot_wf t b1" "bootloader_nvm_load_metadata b1 = Some (Some m1)"
      "fm_version m1 = v" "fm_boot_attempts m1 = 2" "fm_max_attempts m1 = 3" "fm_status m1 = UDS_BL_SLOT_ACTIVE"
      "uds_bootloader_get_slot_status b1 = UDS_BL_SLOT_ACTIVE" by auto
  from init_counts[OF b1(2,3,7)] b1(4-7) obtain b2 m2 where
    b2: "uds_bootloader_init t b1 = Some b2" "boot_wf t b2" "bootloader_nvm_load_metadata b2 = Some (Some m2)"
      "fm_version m2 = v" "fm_boot_attempts m2 = 3" "fm_max_attempts m2 = 3" "fm_status m2 = UDS_BL_SLOT_ACTIVE"
      "uds_bootloader_get_slot_status b2 = UDS_BL_SLOT_ACTIVE" "boot_inv t b2" "fm_version (staging_metadata (bl b2)) = v"
      "fm_magic (staging_metadata (bl b2)) = UDS_BL_METADATA_MAGIC" by auto
  from init_counts[OF b2(2,3,7)] b2(4-7) obtain b3 m3 where
    b3: "uds_bootloader_init t b2 = Some b3" "boot_wf t b3" "bootloader_nvm_load_metadata b3 = Some (Some m3)"
      "fm_version m3 = v" "fm_status m3 = UDS_BL_SLOT_ROLLBACK" "active_version (bl b3) = 1"
      "uds_bootloader_get_slot_status b3 = UDS_BL_SLOT_ROLLBACK" by auto
  from init_takes_over[OF b3(2,3)] b3(4,5) obtain b4 where
    b4: "uds_bootloader_init t b3 = Some b4" "active_version (bl b4) = v" by auto
  have conf: "\<exists>c'. run (boot_step t) c (replicate (Suc n) BReset) = Some c' \<and>
      uds_bootloader_get_slot_status c' = UDS_BL_SLOT_CONFIRMED \<and> uds_bootloader_get_active_version c' = v"
    if "uds_bootloader_confirm_active_image stack b2 = Some (UDS_DOWNLOAD_OK, c)" for stack c n
  proof -
    from confirm_stores[OF b2(9,11) that] b2(10) obtain mc where
      "bootloader_nvm_load_metadata c = Some (Some mc)" "fm_status mc = UDS_BL_SLOT_CONFIRMED" "fm_version mc = v" by auto
    moreover have "boot_wf t c" using confirm_keeps(1)[OF b2(9) that] by (simp add: boot_inv_def)
    ultimately show ?thesis
      using confirmed_stays[of t c mc n] by (auto simp: uds_bootloader_get_active_version_def)
  qed
  show ?thesis
    using b1(1,8) b2(1,8) b3(1,6,7) b4 conf
    by (auto simp: uds_bootloader_get_active_version_def simp del: replicate_Suc)
qed

text \<open>
  The verification does not bind the slot. A tester that erases slot B with routine 0xFF00 after a
  successful CheckMemory leaves the candidate verified. On the STM32F767 the activation then succeeds: the
  version of the erased image becomes the active one. On the STM32C092 it fails, but only after slot A,
  the running application, was erased and overwritten; the candidate stays pending.
\<close>

theorem erased_candidate_activated:
  fixes b :: "'f boot_state" and input :: bytes
  assumes "boot_inv t b" "candidate_verified (bl b)" "length junk = 64" "capacity \<noteq> 0"
  defines "m \<equiv> staging_metadata (bl b)" and "erased \<equiv> replicate UDS_BL_MOCK_FLASH_SIZE 0xFF"
  shows "\<exists>e. uds_bootloader_routine_control junk b UDS_ROUTINE_SUBFUNCTION_START_ROUTINE 0xFF00 input rl capacity =
       Some (UDS_RESULT_OK, [0], 1, e) \<and> candidate_verified (bl e) \<and> s_mock_flash_slot_b (flash_of e) = erased \<and>
     (t = UDS_BL_TARGET_STM32F767 \<longrightarrow>
        (\<exists>b'. uds_bootloader_activate_candidate junk e = Some (UDS_DOWNLOAD_OK, b') \<and>
           uds_bootloader_get_active_version b' = fm_version m \<and> s_mock_flash_slot_b (flash_of b') = erased)) \<and>
     (t = UDS_BL_TARGET_STM32C092 \<and> sha256_spec (replicate (unat (fm_image_size m) - 128) 0xFF) \<noteq> fm_sha256 m \<longrightarrow>
        (\<exists>b'. uds_bootloader_activate_candidate junk e = Some (UDS_DOWNLOAD_VERIFY_ERROR, b') \<and>
           s_mock_flash_slot_a (flash_of b') = erased \<and> candidate_verified (bl b')))"
proof -
  have sub: "UDS_ROUTINE_SUBFUNCTION_START_ROUTINE \<noteq> UDS_ROUTINE_SUBFUNCTION_REQUEST_RESULTS"
    by (simp add: UDS_ROUTINE_SUBFUNCTION_START_ROUTINE_def UDS_ROUTINE_SUBFUNCTION_REQUEST_RESULTS_def)
  obtain out e where e: "routine_erase_memory UDS_ROUTINE_SUBFUNCTION_START_ROUTINE b = (UDS_RESULT_OK, out, 1, e)" "boot_inv t e"
    using erase_routine_keeps[OF assms(1)] by blast
  have len: "length (s_mock_flash_slot_b (flash_of b)) = UDS_BL_MOCK_FLASH_SIZE"
    using assms(1) by (simp add: boot_inv_def boot_wf_def arrays_wf_def)
  have eq: "out = [0]" "candidate_verified (bl e)" "staging_metadata (bl e) = m" "s_mock_flash_slot_b (flash_of e) = erased"
    using e(1) sub assms(2) len
    by (auto simp: routine_erase_memory_def bootloader_flash_erase_start_def m_def erased_def)
  have acc: "accepted b m" using assms(1,2) by (simp add: boot_inv_def m_def)
  then have n: "unat (fm_image_size m) \<le> UDS_BL_MOCK_FLASH_SIZE" by (simp add: accepted_def)
  have cp: "copied_slot erased (unat (fm_image_size m)) = erased"
    "payload_in erased (fm_image_size m) = replicate (unat (fm_image_size m) - 128) 0xFF"
    using n by (simp_all add: copied_slot_def erased_def payload_in_def replicate_add[symmetric])
  have run: "uds_bootloader_routine_control junk b UDS_ROUTINE_SUBFUNCTION_START_ROUTINE 0xFF00 input rl capacity =
      Some (UDS_RESULT_OK, [0], 1, e)"
    using e(1) eq(1) assms(4) by (simp add: uds_bootloader_routine_control_def k_boot_routines_def)
  from activate_exact[OF e(2) eq(2) assms(3)] obtain r b' where a: "uds_bootloader_activate_candidate junk e = Some (r, b')"
    "s_mock_flash_slot_b (flash_of b') = erased"
    "s_mock_flash_slot_a (flash_of b') = (if t = UDS_BL_TARGET_STM32C092 then erased else s_mock_flash_slot_a (flash_of e))"
    "if t = UDS_BL_TARGET_STM32C092 \<and> sha256_spec (replicate (unat (fm_image_size m) - 128) 0xFF) \<noteq> fm_sha256 m
      then r = UDS_DOWNLOAD_VERIFY_ERROR \<and> bl b' = bl e
      else r = UDS_DOWNLOAD_OK \<and> active_version (bl b') = fm_version m"
    unfolding eq(3,4) cp by (auto split: if_splits)
  show ?thesis
    using run eq a by (cases t) (auto simp: uds_bootloader_get_active_version_def)
qed

section \<open>Witnesses\<close>

text \<open>A device whose slot B holds the payload 1, 2, 3 behind a header, with a verifier that accepts everything.\<close>

definition demo_image :: FirmwareMetadata_t where
  "demo_image = boot_finalize_metadata (demo_header\<lparr> fm_image_size := 131 \<rparr>)"

definition demo_slots :: boot_flash where
  "demo_slots = \<lparr> s_bl_ctx = \<lparr> bl_target = UDS_BL_TARGET_STM32F767, active_version = 0, active_slot_addr = 0,
       active_slot_size = 0, target_slot_addr = 0, target_slot_size = 0, download_in_progress = False,
       candidate_verified = False, last_erase_result = 0, last_check_memory_result = 0,
       last_check_dependencies_result = 0, verify_mode = UDS_BL_VERIFY_MODE_CRC32, staging_metadata = zero_metadata \<rparr>,
     s_mock_flash_slot_a = replicate 4096 0, s_mock_flash_slot_b = replicate 128 0 @ [1, 2, 3] @ replicate 3965 0xFF,
     s_mock_flash_slot_a_len = 0, s_mock_flash_slot_b_len = 131 \<rparr>"

definition demo_boot :: "unit boot_state" where
  "demo_boot = \<lparr> s_bl_memory_map = f767_memory_map, s_bl_download = uds_download_init None None demo_slots,
     s_floor_store = None, floor_flash = (), s_signature_verifier = Some (\<lambda>digest sig. True),
     s_signature_required = False, s_mock_nvm_storage = replicate 128 0, s_mock_nvm_valid = False \<rparr>"

lemma demo_boot_wf: "arrays_wf (flash_of demo_boot)" "length (s_mock_nvm_storage demo_boot) = 128" "s_floor_store demo_boot = None"
  by (simp_all add: demo_boot_def demo_slots_def arrays_wf_def uds_download_init_def UDS_BL_MOCK_FLASH_SIZE_def)

lemma demo_image_wf: "meta_wf demo_image"
  by (simp add: demo_image_def) (simp add: demo_header_def meta_wf_def length_sha256_spec)

lemma demo_announced: "announced b (metadata_image demo_image) = demo_image"
  using metadata_roundtrip[OF demo_image_wf, of "[]"] length_metadata_image[OF demo_image_wf] by (simp add: announced_def)

lemma demo_good: "candidate_good (uds_bootloader_set_target t demo_boot) demo_image"
proof -
  have "fm_image_size demo_image = 131" "fm_version demo_image = 7" "fm_sha256 demo_image = sha256_spec [1, 2, 3]"
    "boot_validate_metadata demo_image"
    by (simp_all add: demo_image_def) (simp_all add: boot_finalize_metadata_def Let_def demo_header_def)
  moreover have "s_mock_flash_slot_b (flash_of (uds_bootloader_set_target t demo_boot)) =
      replicate 128 0 @ [1, 2, 3] @ replicate 3965 0xFF"
    "active_version (bl (uds_bootloader_set_target t demo_boot)) = 1"
    "s_floor_store (uds_bootloader_set_target t demo_boot) = None"
    "s_signature_verifier (uds_bootloader_set_target t demo_boot) = Some (\<lambda>digest sig. True)"
    by (simp_all add: uds_bootloader_set_target_def Let_def uds_download_init_def demo_boot_def demo_slots_def target_context_def)
  ultimately show ?thesis
    by (simp add: candidate_good_def uds_bootloader_get_version_floor_def payload_in_def UDS_BL_MOCK_FLASH_SIZE_def
      uds_bootloader_verify_signature_def)
qed

lemma demo_init: "uds_bootloader_init t demo_boot = Some (uds_bootloader_set_target t demo_boot)"
  by (simp add: uds_bootloader_init_def bootloader_nvm_load_metadata_def uds_bootloader_set_target_def Let_def demo_boot_def)

definition demo_check :: boot_event where
  "demo_check = BRoutine (replicate 64 0) UDS_ROUTINE_SUBFUNCTION_START_ROUTINE 0x0202 (metadata_image demo_image) 1"

lemma demo_candidate:
  "\<exists>b. run (boot_step t) demo_boot [BReset, demo_check] = Some b \<and> boot_inv t b \<and> candidate_verified (bl b) \<and>
     staging_metadata (bl b) = demo_image\<lparr> fm_status := UDS_BL_SLOT_CANDIDATE \<rparr> \<and>
     s_mock_flash_slot_b (flash_of b) = replicate 128 0 @ [1, 2, 3] @ replicate 3965 0xFF"
proof -
  define b where "b = uds_bootloader_set_target t demo_boot"
  have b: "boot_inv t b" using set_target_inv(1)[OF demo_boot_wf(1,2)] by (simp add: b_def)
  have slot: "s_mock_flash_slot_b (flash_of b) = replicate 128 0 @ [1, 2, 3] @ replicate 3965 0xFF"
    by (simp add: b_def uds_bootloader_set_target_def Let_def uds_download_init_def demo_boot_def demo_slots_def)
  have wf: "boot_wf t b" "verify_mode (bl b) = UDS_BL_VERIFY_MODE_SHA256_SECURE" using b by (simp_all add: boot_inv_def)
  have sub: "UDS_ROUTINE_SUBFUNCTION_START_ROUTINE \<noteq> UDS_ROUTINE_SUBFUNCTION_REQUEST_RESULTS"
    by (simp add: UDS_ROUTINE_SUBFUNCTION_START_ROUTINE_def UDS_ROUTINE_SUBFUNCTION_REQUEST_RESULTS_def)
  have good: "candidate_good b demo_image" using demo_good by (simp add: b_def)
  define b2 where "b2 = (let staged = demo_image\<lparr> fm_status := UDS_BL_SLOT_CANDIDATE \<rparr>;
      b = bootloader_nvm_save_metadata staged (set_bl ((bl b)\<lparr> staging_metadata := staged \<rparr>) b) in
    set_bl ((bl b)\<lparr> candidate_verified := True, last_check_memory_result := 0, last_check_dependencies_result := 0 \<rparr>) b)"
  have "routine_check_memory (replicate 64 0) UDS_ROUTINE_SUBFUNCTION_START_ROUTINE (metadata_image demo_image) b =
      Some (UDS_RESULT_OK, [0], 1, b2)"
    by (rule check_memory_cases[OF wf _ sub, of "replicate 64 0" "metadata_image demo_image"])
      (use good in \<open>auto simp: demo_announced b2_def\<close>)
  then have s: "boot_step t b demo_check = Some b2"
    by (simp add: demo_check_def uds_bootloader_routine_control_def k_boot_routines_def)
  have "boot_inv t b2" by (rule boot_step_keeps(1)[OF b _ s]) (simp add: demo_check_def)
  then show ?thesis
    using s slot by (simp add: demo_init b_def[symmetric]) (simp add: b2_def nvm_save_eq Let_def)
qed

lemma demo_activated:
  assumes "run (boot_step t) demo_boot [BReset, demo_check] = Some b"
  shows "\<exists>b'. uds_bootloader_activate_candidate (replicate 64 0) b = Some (UDS_DOWNLOAD_OK, b')"
proof -
  have "payload_in (replicate 128 0 @ [1, 2, 3] @ replicate 3965 0xFF) (fm_image_size demo_image) = [1, 2, 3]"
    "fm_sha256 demo_image = sha256_spec [1, 2, 3]"
    by (simp_all add: demo_image_def boot_finalize_metadata_def Let_def demo_header_def payload_in_def)
  then show ?thesis
    using demo_candidate[of t] assms activate_exact[of t b "replicate 64 0"] by auto
qed



theorem active_slot_protected_witness:
  "\<exists>b. run (boot_step UDS_BL_TARGET_STM32F767) demo_boot [BReset, BRequest 0 0x08100000 8 0, BTransfer 5 1 (replicate 8 7)] = Some b \<and>
     s_mock_flash_slot_a (flash_of b) = replicate 4096 0"
proof -
  have "s_mock_flash_slot_a (flash_of demo_boot) = replicate 4096 0"
    by (simp add: demo_boot_def uds_download_init_def demo_slots_def)
  then show ?thesis
    using active_slot_protected[OF demo_boot_wf, of "[BRequest 0 0x08100000 8 0, BTransfer 5 1 (replicate 8 7)]" UDS_BL_TARGET_STM32F767]
    by auto
qed

theorem unconfirmed_image_rolled_back_witness:
  "\<exists>b b' b3. run (boot_step UDS_BL_TARGET_STM32C092) demo_boot [BReset, demo_check] = Some b \<and>
     uds_bootloader_activate_candidate (replicate 64 0) b = Some (UDS_DOWNLOAD_OK, b') \<and>
     run (boot_step UDS_BL_TARGET_STM32C092) b' [BReset, BReset, BReset] = Some b3 \<and>
     uds_bootloader_get_slot_status b3 = UDS_BL_SLOT_ROLLBACK"
proof -
  obtain b where b: "run (boot_step UDS_BL_TARGET_STM32C092) demo_boot [BReset, demo_check] = Some b"
    "boot_inv UDS_BL_TARGET_STM32C092 b" using demo_candidate by blast
  obtain b' where b': "uds_bootloader_activate_candidate (replicate 64 0) b = Some (UDS_DOWNLOAD_OK, b')"
    using demo_activated[OF b(1)] by blast
  from unconfirmed_image_rolled_back[OF b(2) _ b'] obtain b1 b2 b3 where
    "run (boot_step UDS_BL_TARGET_STM32C092) b' [BReset] = Some b1" "run (boot_step UDS_BL_TARGET_STM32C092) b1 [BReset] = Some b2"
    "run (boot_step UDS_BL_TARGET_STM32C092) b2 [BReset] = Some b3" "uds_bootloader_get_slot_status b3 = UDS_BL_SLOT_ROLLBACK"
    by auto
  with b(1) b' show ?thesis by (intro exI[of _ b] exI[of _ b'] exI[of _ b3]) (auto split: Option.bind_splits)
qed

theorem erased_candidate_activated_witness:
  "\<exists>b e b'. run (boot_step UDS_BL_TARGET_STM32F767) demo_boot [BReset, demo_check] = Some b \<and>
     uds_bootloader_routine_control (replicate 64 0) b UDS_ROUTINE_SUBFUNCTION_START_ROUTINE 0xFF00 [] 0 1 =
       Some (UDS_RESULT_OK, [0], 1, e) \<and>
     uds_bootloader_activate_candidate (replicate 64 0) e = Some (UDS_DOWNLOAD_OK, b') \<and>
     uds_bootloader_get_active_version b' = 7 \<and> s_mock_flash_slot_b (flash_of b') = replicate UDS_BL_MOCK_FLASH_SIZE 0xFF"
proof -
  obtain b where b: "run (boot_step UDS_BL_TARGET_STM32F767) demo_boot [BReset, demo_check] = Some b"
    "boot_inv UDS_BL_TARGET_STM32F767 b" "candidate_verified (bl b)"
    "staging_metadata (bl b) = demo_image\<lparr> fm_status := UDS_BL_SLOT_CANDIDATE \<rparr>" using demo_candidate by blast
  have "fm_version demo_image = 7" by (simp add: demo_image_def demo_header_def)
  with erased_candidate_activated[OF b(2,3), of "replicate 64 0" 1 "[]" 0] b(1,4) show ?thesis by auto
qed

end
