(* ===== verification/App_Reset.thy ===== *)
theory App_Reset
  imports Bootloader_Activation
begin

text \<open>
  The reset callbacks of the application (\<open>uds_app.c\<close>) and the gate before the jump into an image
  (\<open>boot_jump.c\<close>). What a reset ends in is a value: the jump to the entry of a vector table, or the reset of the
  controller. \<open>word_at\<close> reads the address space, which the activation may have changed.
\<close>

definition UDS_BL_F767_APP_SLOT_B_START :: u32 where "UDS_BL_F767_APP_SLOT_B_START = 0x08100000"

datatype reset_end =
    Jump u32 u32
  | System_Reset u8

definition uds_app_ecu_reset_prepare :: "u8 \<Rightarrow> UdsCallbackResult" where
  "uds_app_ecu_reset_prepare subfunction = (if subfunction = 0x01 then UDS_RESULT_OK else UDS_RESULT_OUT_OF_RANGE)"

text \<open>The stack pointer and the entry of the jump; \<open>None\<close> when the gate is closed and the function returns.\<close>

definition uds_bootloader_jump_to_app :: "(u32 \<Rightarrow> u32) \<Rightarrow> UdsBootloaderTarget \<Rightarrow> u32 \<Rightarrow> (u32 \<times> u32) option" where
  "uds_bootloader_jump_to_app word_at target app_vector_addr =
     (if \<not> uds_bootloader_is_application_valid word_at target app_vector_addr then None
      else Some (word_at app_vector_addr, word_at (app_vector_addr + 4)))"

definition uds_app_ecu_reset_execute ::
  "bytes \<Rightarrow> ('f boot_state \<Rightarrow> u32 \<Rightarrow> u32) \<Rightarrow> u8 \<Rightarrow> 'f boot_state \<Rightarrow> (reset_end \<times> 'f boot_state) option" where
  "uds_app_ecu_reset_execute junk word_at subfunction b =
     (if uds_bootloader_is_activation_pending b then do {
        let slot = (if uds_bootloader_get_target b = UDS_BL_TARGET_STM32C092 then UDS_BL_C092_APP_SLOT_A_START
                    else UDS_BL_F767_APP_SLOT_B_START);
        (result, b) \<leftarrow> uds_bootloader_activate_candidate junk b;
        (case uds_bootloader_jump_to_app (word_at b) (uds_bootloader_get_target b) slot of
           Some (msp, entry) \<Rightarrow> Some (Jump msp entry, b)
         | None \<Rightarrow> Some (System_Reset subfunction, b)) }
      else Some (System_Reset subfunction, b))"

text \<open>
  A jump only ever leads to a vector table inside the flash of the target with a stack pointer in its RAM and an
  odd entry behind the table; the result of the activation is no condition.
\<close>

lemma jump_gate:
  assumes "uds_bootloader_jump_to_app word_at target addr = Some (msp, entry)"
  shows "is_msp_valid target msp \<and> fst (is_flash_addr_valid target addr) \<and> entry AND 1 \<noteq> 0 \<and>
    addr \<le> (entry AND NOT 1) \<and> (entry AND NOT 1) < snd (is_flash_addr_valid target addr)"
  using assms
  by (auto simp: uds_bootloader_jump_to_app_def uds_bootloader_is_application_valid_def is_reset_handler_valid_def Let_def
    split: prod.splits if_splits)

lemma jump_after_failed_activation:
  assumes "uds_bootloader_is_activation_pending b" "uds_bootloader_activate_candidate junk b = Some (result, b')"
    "uds_bootloader_get_target b = UDS_BL_TARGET_STM32C092" "uds_bootloader_get_target b' = UDS_BL_TARGET_STM32C092"
    "uds_bootloader_is_application_valid (word_at b') UDS_BL_TARGET_STM32C092 UDS_BL_C092_APP_SLOT_A_START"
  shows "\<exists>msp entry. uds_app_ecu_reset_execute junk word_at sub b = Some (Jump msp entry, b')"
  using assms by (simp add: uds_app_ecu_reset_execute_def uds_bootloader_jump_to_app_def)

end
